(* ===== verification/Prelude.thy ===== *)
theory Prelude
  imports Complex_Main "HOL-Library.Sublist" "HOL-Library.AList"
begin

text \<open>
  Shared vocabulary of the development: Rust's byte strings and the string
  operations of the standard library the sources call, 64-bit floats as far as the
  sources compare them, JSON values, results, key-value stores as association lists,
  and the two interfaces several components implement (a key-value store and a
  bounded, newest-first log).

  A Rust \<open>String\<close> is its UTF-8 byte sequence, so \<open>string\<close> (a list of 8-bit
  characters) is used directly: \<open>len()\<close>, \<open>starts_with\<close>, \<open>ends_with\<close>,
  \<open>find\<close> and byte slicing are exact on it. \<open>trim\<close> recognises the UTF-8
  encodings of every Unicode white-space character. Predicates that need the Unicode
  tables above ASCII take the table as a parameter.
\<close>

named_theorems inv_intros \<open>operations that keep a component's invariant\<close>

section \<open>Results\<close>

type_synonym ('e, 'a) result = "'e + 'a"

definition is_ok :: "('e, 'a) result \<Rightarrow> bool" where
  "is_ok r = (case r of Inl _ \<Rightarrow> False | Inr _ \<Rightarrow> True)"

lemma is_ok_simps [simp]: "is_ok (Inr x)" "\<not> is_ok (Inl e)"
  by (simp_all add: is_ok_def)

lemma is_ok_iff: "is_ok r \<longleftrightarrow> (\<exists>x. r = Inr x)"
  by (cases r) auto

lemma find_SomeD: "find P xs = Some x \<Longrightarrow> x \<in> set xs \<and> P x"
  by (auto simp: find_Some_iff)

section \<open>Floating point\<close>

text \<open>
  The sources only compare these floats. A 64-bit float is a NaN, an infinity or a
  finite (rational) value; every ordered comparison with a NaN is false.
\<close>

datatype f64 = NaN | NegInf | Finite rat | PosInf

fun f64_le :: "f64 \<Rightarrow> f64 \<Rightarrow> bool" where
  "f64_le NaN _ = False"
| "f64_le _ NaN = False"
| "f64_le NegInf _ = True"
| "f64_le _ PosInf = True"
| "f64_le (Finite x) (Finite y) = (x \<le> y)"
| "f64_le _ _ = False"

definition f64_ge :: "f64 \<Rightarrow> f64 \<Rightarrow> bool" where
  "f64_ge x y = f64_le y x"

lemma f64_le_trans: "f64_le x y \<Longrightarrow> f64_le y z \<Longrightarrow> f64_le x z"
  by (cases x; cases y; cases z) auto

lemma f64_ge_trans: "f64_ge x y \<Longrightarrow> f64_ge y z \<Longrightarrow> f64_ge x z"
  using f64_le_trans by (auto simp: f64_ge_def)

section \<open>Strings\<close>

definition starts_with :: "string \<Rightarrow> string \<Rightarrow> bool" where
  "starts_with s p = prefix p s"

definition ends_with :: "string \<Rightarrow> string \<Rightarrow> bool" where
  "ends_with s p = suffix p s"

definition contains_str :: "string \<Rightarrow> string \<Rightarrow> bool" where
  "contains_str s p = sublist p s"

fun strip_prefix_char :: "char \<Rightarrow> string \<Rightarrow> string option" where
  "strip_prefix_char c [] = None"
| "strip_prefix_char c (x # xs) = (if x = c then Some xs else None)"

definition strip_suffix_char :: "char \<Rightarrow> string \<Rightarrow> string option" where
  "strip_suffix_char c s = map_option rev (strip_prefix_char c (rev s))"

definition strip_prefix :: "string \<Rightarrow> string \<Rightarrow> string option" where
  "strip_prefix p s = (if prefix p s then Some (drop (length p) s) else None)"

definition strip_suffix :: "string \<Rightarrow> string \<Rightarrow> string option" where
  "strip_suffix p s = (if suffix p s then Some (take (length s - length p) s) else None)"

fun find_char :: "char \<Rightarrow> string \<Rightarrow> nat option" where
  "find_char c [] = None"
| "find_char c (x # xs) = (if x = c then Some 0 else map_option Suc (find_char c xs))"

text \<open>The byte offset of the first occurrence of a substring.\<close>

fun find_str :: "string \<Rightarrow> string \<Rightarrow> nat option" where
  "find_str p [] = (if p = [] then Some 0 else None)"
| "find_str p (x # xs) =
     (if prefix p (x # xs) then Some 0 else map_option Suc (find_str p xs))"

lemma strip_prefix_char_Some [simp]:
  "strip_prefix_char c s = Some t \<longleftrightarrow> s = c # t"
  by (cases s) auto

lemma strip_prefix_char_None: "strip_prefix_char c s = None \<longleftrightarrow> (\<forall>t. s \<noteq> c # t)"
  by (cases s) auto

lemma strip_suffix_char_Some [simp]:
  "strip_suffix_char c s = Some t \<longleftrightarrow> s = t @ [c]"
  by (auto simp: strip_suffix_char_def) (metis rev_rev_ident rev.simps(2))

lemma strip_suffix_char_snoc [simp]:
  "strip_suffix_char c (s @ [x]) = (if x = c then Some s else None)"
  by (simp add: strip_suffix_char_def)

lemma strip_suffix_char_Cons_snoc [simp]:
  "strip_suffix_char c (y # s @ [x]) = (if x = c then Some (y # s) else None)"
  using strip_suffix_char_snoc [of c "y # s" x] by simp

lemma strip_suffix_char_None:
  "strip_suffix_char c s = None \<longleftrightarrow> (\<forall>t. s \<noteq> t @ [c])"
  using strip_suffix_char_Some by (metis not_None_eq)

lemma find_char_None: "find_char c s = None \<longleftrightarrow> c \<notin> set s"
  by (induction s) auto

lemma find_char_Some:
  "find_char c s = Some i \<longleftrightarrow> i < length s \<and> s ! i = c \<and> c \<notin> set (take i s)"
proof (induction s arbitrary: i)
  case Nil
  then show ?case by simp
next
  case (Cons x xs)
  then show ?case by (cases i) auto
qed

lemma find_char_append:
  "c \<notin> set a \<Longrightarrow> find_char c (a @ c # b) = Some (length a)"
  by (induction a) auto

lemma find_char_split:
  "find_char c s = Some i \<Longrightarrow> s = take i s @ c # drop (Suc i) s \<and> c \<notin> set (take i s)"
  by (auto simp: find_char_Some id_take_nth_drop)

text \<open>\<^verbatim>\<open>str::split\<close> at a character: one more part than there are separators.\<close>

fun split_char :: "char \<Rightarrow> string \<Rightarrow> string list" where
  "split_char c [] = [[]]"
| "split_char c (x # xs) =
     (if x = c then [] # split_char c xs
      else (case split_char c xs of p # ps \<Rightarrow> (x # p) # ps | [] \<Rightarrow> [[x]]))"

fun join_char :: "char \<Rightarrow> string list \<Rightarrow> string" where
  "join_char c [] = []"
| "join_char c [p] = p"
| "join_char c (p # q # ps) = p @ c # join_char c (q # ps)"

text \<open>\<^verbatim>\<open>[String]::join\<close> with a separating string.\<close>

fun join_str :: "string \<Rightarrow> string list \<Rightarrow> string" where
  "join_str sep [] = []"
| "join_str sep [p] = p"
| "join_str sep (p # q # ps) = p @ sep @ join_str sep (q # ps)"

lemma split_char_nonempty [simp]: "split_char c s \<noteq> []"
  by (induction s) (auto split: list.splits)

lemma split_char_free: "p \<in> set (split_char c s) \<Longrightarrow> c \<notin> set p"
  by (induction s arbitrary: p) (auto split: list.splits if_splits)

lemma join_split_char [simp]: "join_char c (split_char c s) = s"
proof (induction s)
  case (Cons x xs)
  then show ?case
    by (cases "split_char c xs"; cases "tl (split_char c xs)") (auto split: list.splits)
qed simp

lemma length_split_char: "length (split_char c s) = Suc (count_list s c)"
  by (induction s) (auto split: list.splits)

lemma find_str_None: "find_str p t = None \<longleftrightarrow> \<not> sublist p t"
  by (induction t) (auto simp: sublist_Cons_right)

lemma find_str_Some:
  "find_str p t = Some k \<Longrightarrow> prefix p (drop k t) \<and> (\<forall>j. prefix p (drop j t) \<longrightarrow> k \<le> j)"
proof (induction t arbitrary: k)
  case (Cons x xs)
  show ?case
  proof (cases "prefix p (x # xs)")
    case True
    then show ?thesis using Cons.prems by simp
  next
    case False
    then obtain k' where "find_str p xs = Some k'" "k = Suc k'" using Cons.prems by auto
    then show ?thesis using Cons.IH [of k'] False
      by (metis Suc_le_mono drop0 drop_Suc_Cons not0_implies_Suc)
  qed
qed (simp split: if_splits)

lemma first_occurrence_prefix:
  "c \<notin> set a \<Longrightarrow> a @ r = a2 @ c # b2 \<Longrightarrow> \<exists>x. a2 = a @ x"
  by (auto simp: append_eq_append_conv2 append_eq_Cons_conv)

lemma last_occurrence_suffix:
  "c \<notin> set b \<Longrightarrow> r @ b = a2 @ c # b2 \<Longrightarrow> \<exists>y. b2 = y @ b"
  by (auto simp: append_eq_append_conv2 append_eq_Cons_conv Cons_eq_append_conv)

lemma prefix_suffix_split:
  "prefix a v \<and> suffix b v \<and> length a + length b \<le> length v \<longleftrightarrow> (\<exists>m. v = a @ m @ b)"
proof
  assume *: "prefix a v \<and> suffix b v \<and> length a + length b \<le> length v"
  then obtain s where s: "v = a @ s" by (auto simp: prefix_def)
  from * s have "suffix b s" by (metis add_le_cancel_left length_append suffixI suffix_length_suffix)
  with s show "\<exists>m. v = a @ m @ b" by (auto simp: suffix_def)
qed (auto simp: suffix_def)

subsection \<open>ASCII classes and case folding\<close>

definition ascii_lower :: "char \<Rightarrow> char" where
  "ascii_lower c =
     (let n = of_char c :: nat in if 65 \<le> n \<and> n \<le> 90 then char_of (n + 32) else c)"

definition to_ascii_lowercase :: "string \<Rightarrow> string" where
  "to_ascii_lowercase s = map ascii_lower s"

definition eq_ignore_ascii_case :: "string \<Rightarrow> string \<Rightarrow> bool" where
  "eq_ignore_ascii_case s t = (to_ascii_lowercase s = to_ascii_lowercase t)"

definition ascii_alnum :: "nat \<Rightarrow> bool" where
  "ascii_alnum n = (48 \<le> n \<and> n \<le> 57 \<or> 65 \<le> n \<and> n \<le> 90 \<or> 97 \<le> n \<and> n \<le> 122)"

text \<open>
  The code points of a UTF-8 string (\<open>str::chars\<close>); Rust strings are always
  well-formed, the truncated sequences below never occur.
\<close>

fun utf8_chars :: "nat list \<Rightarrow> nat list" where
  "utf8_chars [] = []"
| "utf8_chars (b # bs) =
     (if b < 128 then b # utf8_chars bs
      else if b < 224 then
        (case bs of c # r \<Rightarrow> ((b - 192) * 64 + (c - 128)) # utf8_chars r | _ \<Rightarrow> [])
      else if b < 240 then
        (case bs of c # d # r \<Rightarrow> ((b - 224) * 4096 + (c - 128) * 64 + (d - 128)) # utf8_chars r
         | _ \<Rightarrow> [])
      else
        (case bs of c # d # e # r \<Rightarrow>
           ((b - 240) * 262144 + (c - 128) * 4096 + (d - 128) * 64 + (e - 128)) # utf8_chars r
         | _ \<Rightarrow> []))"

definition str_bytes :: "string \<Rightarrow> nat list" where
  "str_bytes s = map of_char s"

definition str_chars :: "string \<Rightarrow> nat list" where
  "str_chars s = utf8_chars (str_bytes s)"

text \<open>\<open>char::is_alphanumeric\<close>: ASCII letters and digits, and the Unicode table above.\<close>

definition is_alphanumeric :: "(nat \<Rightarrow> bool) \<Rightarrow> nat \<Rightarrow> bool" where
  "is_alphanumeric uni c = (if c < 128 then ascii_alnum c else uni c)"

subsection \<open>Truncation at a character boundary\<close>

definition is_char_boundary :: "string \<Rightarrow> nat \<Rightarrow> bool" where
  "is_char_boundary s i =
     (i = 0 \<or> i = length s
      \<or> i < length s \<and> \<not> (128 \<le> (of_char (s ! i) :: nat) \<and> (of_char (s ! i) :: nat) < 192))"

fun boundary_below :: "string \<Rightarrow> nat \<Rightarrow> nat" where
  "boundary_below s 0 = 0"
| "boundary_below s (Suc n) = (if is_char_boundary s (Suc n) then Suc n else boundary_below s n)"

definition truncate_str :: "string \<Rightarrow> nat \<Rightarrow> string" where
  "truncate_str s max_bytes =
     (if length s \<le> max_bytes then s else take (boundary_below s max_bytes) s)"

lemma boundary_below_le: "boundary_below s n \<le> n"
  by (induction n) auto

lemma boundary_below_boundary: "is_char_boundary s (boundary_below s n)"
  by (induction n) (auto simp: is_char_boundary_def)

lemma length_truncate_str: "length (truncate_str s n) \<le> n"
  using boundary_below_le [of s n] by (auto simp: truncate_str_def)

lemma prefix_truncate_str: "prefix (truncate_str s n) s"
  by (simp add: truncate_str_def take_is_prefix)

text \<open>The first characters of a string (\<^verbatim>\<open>chars().take(n)\<close>): continuation bytes follow their lead.\<close>

definition is_continuation :: "char \<Rightarrow> bool" where
  "is_continuation c = (128 \<le> (of_char c :: nat) \<and> (of_char c :: nat) < 192)"

fun take_chars :: "nat \<Rightarrow> string \<Rightarrow> string" where
  "take_chars n [] = []"
| "take_chars n (c # s) =
     (if is_continuation c then c # take_chars n s
      else case n of 0 \<Rightarrow> [] | Suc m \<Rightarrow> c # take_chars m s)"

lemma prefix_take_chars: "prefix (take_chars n s) s"
  by (induction n s rule: take_chars.induct) (auto split: nat.splits)

subsection \<open>White space and trimming\<close>

text \<open>The number of bytes of the white-space character at the front (0 if there is none).\<close>

fun ws_front :: "nat list \<Rightarrow> nat" where
  "ws_front (a # bs) =
     (if 9 \<le> a \<and> a \<le> 13 \<or> a = 32 then 1
      else case bs of
        b # cs \<Rightarrow>
          if a = 194 \<and> (b = 133 \<or> b = 160) then 2
          else (case cs of
            c # _ \<Rightarrow>
              if a = 225 \<and> b = 154 \<and> c = 128
                 \<or> a = 226 \<and> b = 128 \<and> (128 \<le> c \<and> c \<le> 138 \<or> c = 168 \<or> c = 169 \<or> c = 175)
                 \<or> a = 226 \<and> b = 129 \<and> c = 159
                 \<or> a = 227 \<and> b = 128 \<and> c = 128
              then 3 else 0
            | [] \<Rightarrow> 0)
        | [] \<Rightarrow> 0)"
| "ws_front [] = 0"

lemma ws_front_le: "ws_front bs \<le> length bs"
  by (cases bs) (auto split: list.splits)

lemma ws_front_pos_length: "ws_front bs \<noteq> 0 \<Longrightarrow> 0 < length bs"
  by (cases bs) auto

function trim_start :: "string \<Rightarrow> string" where
  "trim_start s =
     (let n = ws_front (str_bytes s) in if n = 0 then s else trim_start (drop n s))"
  by pat_completeness auto
termination
proof (relation "measure length", goal_cases)
  case 1
  show ?case by simp
next
  case (2 s n)
  then show ?case using ws_front_pos_length [of "str_bytes s"] by (simp add: str_bytes_def)
qed

declare trim_start.simps [simp del]

text \<open>The number of bytes of the white-space character at the end.\<close>

definition ws_back :: "string \<Rightarrow> nat" where
  "ws_back s =
     (let n = length s; here = (\<lambda>k. k \<le> n \<and> ws_front (str_bytes (drop (n - k) s)) = k)
      in if here 1 then 1 else if here 2 then 2 else if here 3 then 3 else 0)"

lemma ws_back_pos_length: "ws_back s \<noteq> 0 \<Longrightarrow> 0 < length s"
  by (auto simp: ws_back_def Let_def split: if_splits)

function trim_end :: "string \<Rightarrow> string" where
  "trim_end s = (let n = ws_back s in if n = 0 then s else trim_end (take (length s - n) s))"
  by pat_completeness auto
termination
proof (relation "measure length", goal_cases)
  case 1
  show ?case by simp
next
  case (2 s n)
  then show ?case using ws_back_pos_length [of s] by simp
qed

declare trim_end.simps [simp del]

definition trim :: "string \<Rightarrow> string" where
  "trim s = trim_end (trim_start s)"

lemma length_trim_start: "length (trim_start s) \<le> length s"
proof (induction s rule: trim_start.induct)
  case (1 s)
  then show ?case by (cases "ws_front (str_bytes s) = 0") (auto simp: trim_start.simps [of s] Let_def)
qed

lemma length_trim_end: "length (trim_end s) \<le> length s"
proof (induction s rule: trim_end.induct)
  case (1 s)
  then show ?case by (cases "ws_back s = 0") (auto simp: trim_end.simps [of s] Let_def)
qed

lemma length_trim: "length (trim s) \<le> length s"
  using length_trim_start [of s] length_trim_end [of "trim_start s"] by (simp add: trim_def)

lemma trim_start_id: "ws_front (str_bytes s) = 0 \<Longrightarrow> trim_start s = s"
  by (subst trim_start.simps) (simp add: Let_def)

lemma trim_start_front: "ws_front (str_bytes (trim_start s)) = 0"
proof (induction s rule: trim_start.induct)
  case (1 s)
  then show ?case by (cases "ws_front (str_bytes s) = 0") (auto simp: trim_start.simps [of s] Let_def)
qed

lemma trim_end_back: "ws_back (trim_end s) = 0"
proof (induction s rule: trim_end.induct)
  case (1 s)
  then show ?case by (cases "ws_back s = 0") (auto simp: trim_end.simps [of s] Let_def)
qed

lemma prefix_trim_end: "prefix (trim_end s) s"
proof (induction s rule: trim_end.induct)
  case (1 s)
  show ?case
  proof (cases "ws_back s = 0")
    case True
    then show ?thesis by (subst trim_end.simps) (simp add: Let_def)
  next
    case False
    then have "prefix (trim_end (take (length s - ws_back s) s)) (take (length s - ws_back s) s)" using 1 by simp
    then show ?thesis using False
      by (subst trim_end.simps) (auto simp: Let_def intro: prefix_order.order_trans [OF _ take_is_prefix])
  qed
qed

lemma ws_front_append: "ws_front bs \<noteq> 0 \<Longrightarrow> ws_front (bs @ cs) \<noteq> 0"
  by (cases bs) (auto split: list.splits if_splits)

lemma trim_trim [simp]: "trim (trim s) = trim s"
proof -
  let ?t = "trim_end (trim_start s)"
  obtain r where r: "trim_start s = ?t @ r" using prefix_trim_end [of "trim_start s"] by (auto simp: prefix_def)
  have "ws_front (str_bytes ?t) = 0"
  proof (rule ccontr)
    assume "ws_front (str_bytes ?t) \<noteq> 0"
    then have "ws_front (str_bytes ?t @ str_bytes r) \<noteq> 0" by (rule ws_front_append)
    moreover have "str_bytes (trim_start s) = str_bytes ?t @ str_bytes r"
      using arg_cong [OF r, of str_bytes] by (simp add: str_bytes_def)
    ultimately show False using trim_start_front [of s] by simp
  qed
  then have "trim_start ?t = ?t" by (rule trim_start_id)
  moreover have "trim_end ?t = ?t"
    using trim_end_back [of "trim_start s"] by (subst trim_end.simps) (simp add: Let_def)
  ultimately show ?thesis by (simp add: trim_def)
qed

text \<open>\<^verbatim>\<open>str::split_whitespace\<close>: the first argument is the word being read.\<close>

function split_ws :: "string \<Rightarrow> string \<Rightarrow> string list" where
  "split_ws cur [] = (if cur = [] then [] else [cur])"
| "split_ws cur (c # rest) =
     (let n = ws_front (str_bytes (c # rest)) in
      if n = 0 then split_ws (cur @ [c]) rest
      else (if cur = [] then [] else [cur]) @ split_ws [] (drop n (c # rest)))"
  by pat_completeness auto
termination
  by (relation "measure (\<lambda>(_, s). length s)") auto

definition split_whitespace :: "string \<Rightarrow> string list" where
  "split_whitespace s = split_ws [] s"

text \<open>Decimal digits.\<close>

definition digit_val :: "char \<Rightarrow> nat option" where
  "digit_val c = (let n = of_char c :: nat in if 48 \<le> n \<and> n \<le> 57 then Some (n - 48) else None)"

fun digits_val :: "nat \<Rightarrow> string \<Rightarrow> nat option" where
  "digits_val acc [] = Some acc"
| "digits_val acc (c # cs) =
     (case digit_val c of Some d \<Rightarrow> digits_val (acc * 10 + d) cs | None \<Rightarrow> None)"

section \<open>Formatting\<close>

text \<open>Decimal digits of a number, and \<^verbatim>\<open>str::replace\<close>: matches are replaced from left to right.\<close>

definition digit :: "nat \<Rightarrow> char" where
  "digit n = char_of (48 + n)"

fun show_nat :: "nat \<Rightarrow> string" where
  "show_nat n = (if n < 10 then [digit n] else show_nat (n div 10) @ [digit (n mod 10)])"

declare show_nat.simps [simp del]

text \<open>Signed numbers: \<^verbatim>\<open>Display\<close> and \<^verbatim>\<open>i64::from_str\<close>.\<close>

definition show_int :: "int \<Rightarrow> string" where
  "show_int i = (if i < 0 then ''-'' @ show_nat (nat (- i)) else show_nat (nat i))"

definition parse_i64 :: "string \<Rightarrow> int option" where
  "parse_i64 s =
     (let neg = (case s of c # _ \<Rightarrow> c = CHR ''-'' | [] \<Rightarrow> False);
          ds = (case s of c # r \<Rightarrow> if c = CHR ''-'' \<or> c = CHR ''+'' then r else s | [] \<Rightarrow> [])
      in if ds = [] then None
         else (case digits_val 0 ds of
                 None \<Rightarrow> None
               | Some n \<Rightarrow>
                   let v = (if neg then - int n else int n)
                   in if - (2 ^ 63) \<le> v \<and> v < 2 ^ 63 then Some v else None))"

lemma digits_val_append:
  "digits_val a (xs @ ys) = (case digits_val a xs of None \<Rightarrow> None | Some b \<Rightarrow> digits_val b ys)"
  by (induction xs arbitrary: a) (auto split: option.splits)

lemma digit_val_digit: "n < 10 \<Longrightarrow> digit_val (digit n) = Some n"
  by (simp add: digit_val_def digit_def)

lemma digits_val_show: "digits_val 0 (show_nat n) = Some n"
proof (induction n rule: show_nat.induct)
  case (1 n)
  show ?case
  proof (cases "n < 10")
    case True
    then show ?thesis by (subst show_nat.simps) (simp add: digit_val_digit)
  next
    case False
    then have "digits_val 0 (show_nat n) = digits_val (n div 10) [digit (n mod 10)]"
      using 1 by (subst show_nat.simps) (simp add: digits_val_append)
    then show ?thesis by (simp add: digit_val_digit)
  qed
qed

lemma show_nat_digits: "show_nat n \<noteq> [] \<and> (\<forall>c \<in> set (show_nat n). digit_val c \<noteq> None)"
proof (induction n rule: show_nat.induct)
  case (1 n)
  have s: "show_nat n = (if n < 10 then [digit n] else show_nat (n div 10) @ [digit (n mod 10)])"
    by (rule show_nat.simps)
  have "digit_val (digit (n mod 10)) \<noteq> None" "n < 10 \<Longrightarrow> digit_val (digit n) \<noteq> None"
    by (simp_all add: digit_val_digit)
  then show ?case unfolding s using 1 by (cases "n < 10") simp_all
qed

lemma parse_show_int:
  assumes "- (2 ^ 63) \<le> i" "i < 2 ^ 63"
  shows "parse_i64 (show_int i) = Some i"
proof -
  obtain c r where s: "show_nat (nat \<bar>i\<bar>) = c # r" "digit_val c \<noteq> None"
    using show_nat_digits [of "nat \<bar>i\<bar>"] by (cases "show_nat (nat \<bar>i\<bar>)") auto
  have "c \<noteq> CHR ''-''" "c \<noteq> CHR ''+''" using s(2) by (auto simp: digit_val_def)
  moreover have "digits_val 0 (c # r) = Some (nat \<bar>i\<bar>)" using digits_val_show [of "nat \<bar>i\<bar>"] s(1) by simp
  ultimately show ?thesis
    using assms s(1) by (cases "i < 0") (simp_all add: parse_i64_def show_int_def Let_def)
qed


fun replace_fuel :: "nat \<Rightarrow> string \<Rightarrow> string \<Rightarrow> string \<Rightarrow> string" where
  "replace_fuel 0 p r s = s"
| "replace_fuel (Suc n) p r [] = []"
| "replace_fuel (Suc n) p r (c # s) =
     (if starts_with (c # s) p then r @ replace_fuel n p r (drop (length p) (c # s))
      else c # replace_fuel n p r s)"

text \<open>A match consumes at least one byte, so the length of the text is enough fuel.\<close>

definition replace_str :: "string \<Rightarrow> string \<Rightarrow> string \<Rightarrow> string" where
  "replace_str p r s = replace_fuel (length s) p r s"

lemma replace_str_no_match: "\<not> contains_str s p \<Longrightarrow> replace_str p r s = s"
proof -
  have "\<not> contains_str s p \<Longrightarrow> replace_fuel n p r s = s" for n
    by (induction n p r s rule: replace_fuel.induct)
       (auto simp: contains_str_def starts_with_def sublist_Cons_right)
  then show "\<not> contains_str s p \<Longrightarrow> ?thesis" by (simp add: replace_str_def)
qed

section \<open>Identifiers and time\<close>

text \<open>
  A UUID is a number: only equality is used, and where a fresh one is drawn the model
  takes it as an argument. Wall-clock instants are milliseconds, read from the argument
  the sources obtain with \<^verbatim>\<open>Utc::now()\<close> or \<^verbatim>\<open>Instant::now()\<close>.
\<close>

type_synonym uuid = nat
type_synonym agent_id = uuid
type_synonym time = int

section \<open>JSON values\<close>

datatype json =
    JNull
  | JBool bool
  | JNumber rat
  | JString string
  | JArray "json list"
  | JObject "(string \<times> json) list"

fun as_str :: "json \<Rightarrow> string option" where
  "as_str (JString s) = Some s"
| "as_str _ = None"

text \<open>\<^verbatim>\<open>Value::get\<close>: a member of an object, nothing for any other value.\<close>

fun json_get :: "string \<Rightarrow> json \<Rightarrow> json option" where
  "json_get k (JObject m) = map_of m k"
| "json_get k _ = None"

fun as_bool :: "json \<Rightarrow> bool option" where
  "as_bool (JBool b) = Some b"
| "as_bool _ = None"

section \<open>Key-value stores\<close>

text \<open>
  A concurrent hash map of the sources is an association list: its keys are unique and
  the order of its entries is the (unspecified) iteration order.
\<close>

type_synonym ('k, 'v) store = "('k \<times> 'v) list"

abbreviation st_get :: "('k, 'v) store \<Rightarrow> 'k \<Rightarrow> 'v option" where
  "st_get \<equiv> map_of"

abbreviation st_put :: "'k \<Rightarrow> 'v \<Rightarrow> ('k, 'v) store \<Rightarrow> ('k, 'v) store" where
  "st_put \<equiv> AList.update"

abbreviation st_del :: "'k \<Rightarrow> ('k, 'v) store \<Rightarrow> ('k, 'v) store" where
  "st_del \<equiv> AList.delete"

definition st_wf :: "('k, 'v) store \<Rightarrow> bool" where
  "st_wf m = distinct (map fst m)"

text \<open>The interface of a key-value store, and what its clients derive from it.\<close>

locale kv_store =
  fixes get :: "'m \<Rightarrow> 'k \<Rightarrow> 'v option"
    and put :: "'k \<Rightarrow> 'v \<Rightarrow> 'm \<Rightarrow> 'm"
    and del :: "'k \<Rightarrow> 'm \<Rightarrow> 'm"
    and entries :: "'m \<Rightarrow> ('k \<times> 'v) list"
    and wf :: "'m \<Rightarrow> bool"
  assumes get_put: "get (put k v m) k' = (if k' = k then Some v else get m k')"
    and get_del: "get (del k m) k' = (if k' = k then None else get m k')"
    and entries_get: "wf m \<Longrightarrow> (k, v) \<in> set (entries m) \<longleftrightarrow> get m k = Some v"
    and entries_distinct: "wf m \<Longrightarrow> distinct (map fst (entries m))"
    and wf_put: "wf m \<Longrightarrow> wf (put k v m)"
    and wf_del: "wf m \<Longrightarrow> wf (del k m)"
begin

lemma get_put_same: "get (put k v m) k = Some v"
  by (simp add: get_put)

lemma get_del_same: "get (del k m) k = None"
  by (simp add: get_del)

lemma set_entries_put:
  assumes "wf m"
  shows "set (entries (put k v m)) = insert (k, v) {e \<in> set (entries m). fst e \<noteq> k}"
proof (rule set_eqI)
  fix e :: "'k \<times> 'v"
  obtain a b where e: "e = (a, b)" by (cases e)
  show "e \<in> set (entries (put k v m)) \<longleftrightarrow>
        e \<in> insert (k, v) {e \<in> set (entries m). fst e \<noteq> k}"
    using assms by (auto simp: e entries_get wf_put get_put)
qed

lemma set_entries_del:
  assumes "wf m"
  shows "set (entries (del k m)) = {e \<in> set (entries m). fst e \<noteq> k}"
proof (rule set_eqI)
  fix e :: "'k \<times> 'v"
  obtain a b where e: "e = (a, b)" by (cases e)
  show "e \<in> set (entries (del k m)) \<longleftrightarrow> e \<in> {e \<in> set (entries m). fst e \<noteq> k}"
    using assms by (auto simp: e entries_get wf_del get_del)
qed

lemma put_del_cancel: "get m k = None \<Longrightarrow> get (del k (put k v m)) = get m"
  by (auto simp: get_put get_del fun_eq_iff)

end

interpretation al: kv_store map_of AList.update AList.delete "\<lambda>m. m" st_wf
proof (unfold_locales, goal_cases)
  case (1 k v m k')
  show ?case by (simp add: update_conv')
next
  case (2 k m k')
  show ?case by (simp add: delete_conv')
next
  case (3 m k v)
  then show ?case by (simp add: st_wf_def)
next
  case (4 m)
  then show ?case by (simp add: st_wf_def)
next
  case (5 m k v)
  then show ?case by (simp add: st_wf_def distinct_update)
next
  case (6 m k)
  then show ?case by (simp add: st_wf_def distinct_delete)
qed

lemma st_wf_Nil [simp]: "st_wf []"
  by (simp add: st_wf_def)

lemma st_wf_filter: "st_wf m \<Longrightarrow> st_wf (filter P m)"
  by (auto simp: st_wf_def intro: distinct_map_filter)

lemma update_new: "k \<notin> fst ` set m \<Longrightarrow> AList.update k v m = m @ [(k, v)]"
  by (induction m) auto

text \<open>Removal of a list of keys, as loops of the sources do it.\<close>

lemma fold_del_get: "st_get (fold st_del ids m) k = (if k \<in> set ids then None else st_get m k)"
  by (induction ids arbitrary: m) (auto simp: delete_conv')

lemma fold_del_wf: "st_wf m \<Longrightarrow> st_wf (fold st_del ids m)"
  by (induction ids arbitrary: m) (auto simp: al.wf_del)

lemma fold_del_filter: "fold st_del ids m = filter (\<lambda>e. fst e \<notin> set ids) m"
proof (induction ids arbitrary: m)
  case Nil
  then show ?case by simp
next
  case (Cons i ids)
  then show ?case by (simp add: AList.delete_eq split_def) (rule filter_cong, auto)
qed

text \<open>How many entries satisfy a predicate, after an insertion or a removal.\<close>

lemma filter_delete_le:
  "length (filter P (AList.delete k m)) \<le> length (filter P m)"
  by (induction m) auto

lemma filter_update_le:
  "length (filter P (AList.update k v m)) \<le> Suc (length (filter P m))"
  by (induction m) auto

lemma filter_update_other:
  "\<not> P (k, v) \<Longrightarrow> length (filter P (AList.update k v m)) \<le> length (filter P m)"
  by (induction m) auto

section \<open>Runs that keep an invariant\<close>

text \<open>
  The contract between a component and the properties of its runs: every allowed operation
  keeps the invariant. The extension adds a start state that satisfies it.
\<close>

locale run_invariant =
  fixes step :: "'op \<Rightarrow> 's \<Rightarrow> 's"
    and allowed :: "'op \<Rightarrow> bool"
    and inv :: "'s \<Rightarrow> bool"
  assumes step_inv: "inv s \<Longrightarrow> allowed x \<Longrightarrow> inv (step x s)"
begin

lemma run_inv: "inv s \<Longrightarrow> list_all allowed xs \<Longrightarrow> inv (fold step xs s)"
  by (induction xs arbitrary: s) (auto simp: step_inv)

end

locale run_from = run_invariant +
  fixes start :: 's
  assumes start_inv: "inv start"
begin

lemma reached_inv: "list_all allowed xs \<Longrightarrow> inv (fold step xs start)"
  by (rule run_inv [OF start_inv])

end

section \<open>Bounded newest-first logs\<close>

text \<open>
  Several components keep the newest entries of a history: an entry is pushed in front
  and the oldest ones are dropped while the log is longer than its capacity.
\<close>

locale bounded_log =
  fixes push :: "'e \<Rightarrow> 'l \<Rightarrow> 'l"
    and items :: "'l \<Rightarrow> 'e list"
    and capacity :: nat
  assumes items_push:
    "length (items l) \<le> capacity \<Longrightarrow> items (push e l) = take capacity (e # items l)"
begin

lemma push_bound: "length (items l) \<le> capacity \<Longrightarrow> length (items (push e l)) \<le> capacity"
  by (simp add: items_push)

lemma push_run: "items (fold push es l) = take capacity (rev es @ items l)"
  if "length (items l) \<le> capacity"
  using that
proof (induction es arbitrary: l)
  case Nil
  then show ?case by simp
next
  case (Cons e es)
  have "items (fold push (e # es) l) = take capacity (rev es @ items (push e l))"
    using Cons.IH [of "push e l"] push_bound Cons.prems by simp
  also have "\<dots> = take capacity (rev (e # es) @ items l)"
    using Cons.prems by (simp add: items_push take_append)
  finally show ?case .
qed

lemma run_bound: "length (items l) \<le> capacity \<Longrightarrow> length (items (fold push es l)) \<le> capacity"
  by (simp add: push_run)

lemma push_newest:
  "0 < capacity \<Longrightarrow> length (items l) \<le> capacity \<Longrightarrow> \<exists>r. items (push e l) = e # r"
  by (cases capacity) (auto simp: items_push)

end

text \<open>The ring buffers of the sources: oldest first, the front is dropped when full.\<close>

definition ring_push :: "nat \<Rightarrow> 'e \<Rightarrow> 'e list \<Rightarrow> 'e list" where
  "ring_push cap e xs = (if length xs \<ge> cap then tl xs else xs) @ [e]"

lemma ring_push_items:
  assumes "0 < cap" "length (rev l) \<le> cap"
  shows "rev (ring_push cap e l) = take cap (e # rev l)"
proof (cases "length l < cap")
  case True
  then show ?thesis by (simp add: ring_push_def)
next
  case False
  then obtain x l' where "l = x # l'" "cap = Suc (length l')" using assms by (cases l) auto
  then show ?thesis by (simp add: ring_push_def)
qed

end
