(* ===== verification/Wildcard.thy ===== *)
theory Wildcard
  imports Prelude
begin

text \<open>
  The reference semantics of the pattern languages of the repository: \<open>wildcard\<close> reads a
  star as any (possibly empty) text. Several sources implement matchers of their own; each
  is compared with this one.
\<close>

text \<open>A star stands for any (possibly empty) text, every other character for itself.\<close>

fun wildcard :: "string \<Rightarrow> string \<Rightarrow> bool" where
  "wildcard [] v = (v = [])"
| "wildcard (c # p) [] = (c = CHR ''*'' \<and> wildcard p [])"
| "wildcard (c # p) (x # v) =
     (if c = CHR ''*'' then wildcard p (x # v) \<or> wildcard (c # p) v
      else c = x \<and> wildcard p v)"

lemma wildcard_literal: "CHR ''*'' \<notin> set p \<Longrightarrow> wildcard p v \<longleftrightarrow> p = v"
  by (induction p v rule: wildcard.induct) auto

lemma wildcard_star: "CHR ''*'' \<notin> set b \<Longrightarrow> wildcard (CHR ''*'' # b) v \<longleftrightarrow> suffix b v"
proof (induction v)
  case Nil
  then show ?case by (auto simp: wildcard_literal)
next
  case (Cons x v)
  then show ?case by (auto simp: wildcard_literal suffix_Cons)
qed

lemma wildcard_one:
  assumes "CHR ''*'' \<notin> set a" "CHR ''*'' \<notin> set b"
  shows "wildcard (a @ CHR ''*'' # b) v \<longleftrightarrow> (\<exists>m. v = a @ m @ b)"
  using assms(1)
proof (induction a arbitrary: v)
  case Nil
  then show ?case using assms(2) by (auto simp: wildcard_star suffix_def)
next
  case (Cons c a)
  then show ?case by (cases v) auto
qed

lemma wildcard_star_Nil [simp]: "wildcard ''*'' v"
  by (induction v) auto

text \<open>A leading star skips any prefix.\<close>

lemma wildcard_star_iff: "wildcard (CHR ''*'' # q) t \<longleftrightarrow> (\<exists>k. wildcard q (drop k t))"
proof (induction t)
  case Nil
  then show ?case by simp
next
  case (Cons x t)
  have "(\<exists>k. wildcard q (drop k (x # t))) \<longleftrightarrow> wildcard q (x # t) \<or> (\<exists>k. wildcard q (drop k t))"
    by (metis drop0 drop_Suc_Cons not0_implies_Suc)
  then show ?case using Cons by simp
qed

lemma wildcard_star_mono:
  assumes "wildcard (CHR ''*'' # q) (drop j t)" "i \<le> j"
  shows "wildcard (CHR ''*'' # q) (drop i t)"
proof -
  obtain k where "wildcard q (drop k (drop j t))" using assms(1) wildcard_star_iff by blast
  then have "wildcard q (drop (k + (j - i)) (drop i t))" using assms(2) by (simp add: add.assoc)
  then show ?thesis using wildcard_star_iff by blast
qed

lemma wildcard_star_star [simp]:
  "wildcard (CHR ''*'' # CHR ''*'' # q) t \<longleftrightarrow> wildcard (CHR ''*'' # q) t"
proof
  assume "wildcard (CHR ''*'' # CHR ''*'' # q) t"
  then obtain k where "wildcard (CHR ''*'' # q) (drop k t)" by (subst (asm) wildcard_star_iff) blast
  then show "wildcard (CHR ''*'' # q) t" using wildcard_star_mono [of q k t 0] by simp
next
  assume "wildcard (CHR ''*'' # q) t"
  then show "wildcard (CHR ''*'' # CHR ''*'' # q) t"
    using wildcard_star_iff [of "CHR ''*'' # q" t] by (metis drop0)
qed

lemma wildcard_prefix:
  "CHR ''*'' \<notin> set p \<Longrightarrow> wildcard (p @ q) t \<longleftrightarrow> prefix p t \<and> wildcard q (drop (length p) t)"
proof (induction p arbitrary: t)
  case (Cons c p)
  then show ?case by (cases t) auto
qed simp

end
