(* ===== verification/Capability.thy ===== *)
theory Capability
  imports Wildcard "HOL-Library.Word"
begin

text \<open>
  Capability-based security (\<^verbatim>\<open>crates/openfang-types/src/capability.rs\<close>): the
  grants an agent holds, the pattern language they are written in, coverage of required
  capabilities, the parser of the delegation requirements and the inheritance check made
  when an agent spawns a child.

  The reference semantics is \<open>wildcard\<close> of theory Wildcard; the lemmas
  show that \<open>glob_matches\<close> agrees with it on patterns with one star, that it is
  transitive below such a pattern, and from this that a chain of validated spawns never
  gains an authority the first agent did not have.
\<close>

section \<open>Data\<close>

datatype capability =
    FileRead string
  | FileWrite string
  | NetConnect string
  | NetListen "16 word"
  | ToolInvoke string
  | ToolAll
  | LlmQuery string
  | LlmMaxTokens "64 word"
  | AgentSpawn
  | AgentMessage string
  | AgentKill string
  | MemoryRead string
  | MemoryWrite string
  | ShellExec string
  | EnvRead string
  | OfpDiscover
  | OfpConnect string
  | OfpAdvertise
  | EconSpend f64
  | EconEarn
  | EconTransfer string

datatype deny_reason = NoCapabilitiesRegistered agent_id | LacksCapability agent_id capability

datatype capability_check = Granted | Denied deny_reason

datatype capability_error =
    CapabilityDenied deny_reason
  | PrivilegeEscalation capability
  | UnknownCapabilityObject
  | EntriesMustBeStringsOrObjects

definition is_granted :: "capability_check \<Rightarrow> bool" where
  "is_granted c = (case c of Granted \<Rightarrow> True | Denied _ \<Rightarrow> False)"

definition require_check :: "capability_check \<Rightarrow> (capability_error, unit) result" where
  "require_check c =
     (case c of Granted \<Rightarrow> Inr () | Denied reason \<Rightarrow> Inl (CapabilityDenied reason))"

section \<open>Patterns\<close>

definition glob_matches :: "string \<Rightarrow> string \<Rightarrow> bool" where
  "glob_matches pattern v =
     (if pattern = ''*'' then True
      else if pattern = v then True
      else case strip_prefix_char CHR ''*'' pattern of
        Some sfx \<Rightarrow> ends_with v sfx
      | None \<Rightarrow>
          (case strip_suffix_char CHR ''*'' pattern of
             Some pre \<Rightarrow> starts_with v pre
           | None \<Rightarrow>
               (case find_char CHR ''*'' pattern of
                  Some star_pos \<Rightarrow>
                    (let pre = take star_pos pattern; sfx = drop (star_pos + 1) pattern
                     in starts_with v pre \<and> ends_with v sfx
                        \<and> length v \<ge> length pre + length sfx)
                | None \<Rightarrow> False)))"

definition capability_matches :: "capability \<Rightarrow> capability \<Rightarrow> bool" where
  "capability_matches granted required =
     (case granted of
        ToolAll \<Rightarrow> (case required of ToolInvoke _ \<Rightarrow> True | _ \<Rightarrow> False)
      | FileRead pattern \<Rightarrow> (case required of FileRead path \<Rightarrow> glob_matches pattern path | _ \<Rightarrow> False)
      | FileWrite pattern \<Rightarrow> (case required of FileWrite path \<Rightarrow> glob_matches pattern path | _ \<Rightarrow> False)
      | NetConnect pattern \<Rightarrow> (case required of NetConnect host \<Rightarrow> glob_matches pattern host | _ \<Rightarrow> False)
      | ToolInvoke granted_id \<Rightarrow>
          (case required of
             ToolInvoke required_id \<Rightarrow> granted_id = required_id \<or> granted_id = ''*''
           | _ \<Rightarrow> False)
      | LlmQuery pattern \<Rightarrow> (case required of LlmQuery model \<Rightarrow> glob_matches pattern model | _ \<Rightarrow> False)
      | AgentMessage pattern \<Rightarrow> (case required of AgentMessage target \<Rightarrow> glob_matches pattern target | _ \<Rightarrow> False)
      | AgentKill pattern \<Rightarrow> (case required of AgentKill target \<Rightarrow> glob_matches pattern target | _ \<Rightarrow> False)
      | MemoryRead pattern \<Rightarrow> (case required of MemoryRead scope \<Rightarrow> glob_matches pattern scope | _ \<Rightarrow> False)
      | MemoryWrite pattern \<Rightarrow> (case required of MemoryWrite scope \<Rightarrow> glob_matches pattern scope | _ \<Rightarrow> False)
      | ShellExec pattern \<Rightarrow> (case required of ShellExec cmd \<Rightarrow> glob_matches pattern cmd | _ \<Rightarrow> False)
      | EnvRead pattern \<Rightarrow> (case required of EnvRead var \<Rightarrow> glob_matches pattern var | _ \<Rightarrow> False)
      | OfpConnect pattern \<Rightarrow> (case required of OfpConnect peer \<Rightarrow> glob_matches pattern peer | _ \<Rightarrow> False)
      | EconTransfer pattern \<Rightarrow> (case required of EconTransfer target \<Rightarrow> glob_matches pattern target | _ \<Rightarrow> False)
      | AgentSpawn \<Rightarrow> required = AgentSpawn
      | OfpDiscover \<Rightarrow> required = OfpDiscover
      | OfpAdvertise \<Rightarrow> required = OfpAdvertise
      | EconEarn \<Rightarrow> required = EconEarn
      | NetListen granted_port \<Rightarrow>
          (case required of NetListen required_port \<Rightarrow> granted_port = required_port | _ \<Rightarrow> False)
      | LlmMaxTokens granted_max \<Rightarrow>
          (case required of LlmMaxTokens required_max \<Rightarrow> granted_max \<ge> required_max | _ \<Rightarrow> False)
      | EconSpend granted_max \<Rightarrow>
          (case required of EconSpend required_amount \<Rightarrow> f64_ge granted_max required_amount
           | _ \<Rightarrow> False))"

definition granted_capabilities_cover_required :: "capability list \<Rightarrow> capability list \<Rightarrow> bool" where
  "granted_capabilities_cover_required granted required =
     (if required = [] then True
      else list_all (\<lambda>req. list_ex (\<lambda>g. capability_matches g req) granted) required)"

section \<open>Parsing requirements\<close>

definition delegate_requirement_strings_to_capabilities :: "string list \<Rightarrow> capability list" where
  "delegate_requirement_strings_to_capabilities req =
     List.map_filter
       (\<lambda>s. let t = trim s in
          if t = [] \<or> t = ''*'' \<or> eq_ignore_ascii_case t ''tool_all'' then None
          else Some (ToolInvoke t)) req"

definition parse_capability_object :: "(string \<times> json) list \<Rightarrow> (capability_error, capability) result" where
  "parse_capability_object m =
     (let str_at = (\<lambda>k. Option.bind (map_of m k) as_str);
          flag_at = (\<lambda>k. Option.bind (map_of m k) as_bool = Some True) in
      case str_at ''tool_invoke'' of Some s \<Rightarrow> Inr (ToolInvoke s) | None \<Rightarrow>
      if flag_at ''tool_all'' then Inr ToolAll else
      case str_at ''memory_read'' of Some s \<Rightarrow> Inr (MemoryRead s) | None \<Rightarrow>
      case str_at ''memory_write'' of Some s \<Rightarrow> Inr (MemoryWrite s) | None \<Rightarrow>
      case str_at ''net_connect'' of Some s \<Rightarrow> Inr (NetConnect s) | None \<Rightarrow>
      case str_at ''shell_exec'' of Some s \<Rightarrow> Inr (ShellExec s) | None \<Rightarrow>
      case str_at ''agent_message'' of Some s \<Rightarrow> Inr (AgentMessage s) | None \<Rightarrow>
      case str_at ''ofp_connect'' of Some s \<Rightarrow> Inr (OfpConnect s) | None \<Rightarrow>
      if flag_at ''agent_spawn'' then Inr AgentSpawn else
      if flag_at ''ofp_discover'' then Inr OfpDiscover else
      Inl UnknownCapabilityObject)"

fun parse_capability_requirements_array :: "json list \<Rightarrow> (capability_error, capability list) result" where
  "parse_capability_requirements_array [] = Inr []"
| "parse_capability_requirements_array (v # rest) =
     (case v of
        JString s \<Rightarrow>
          (case parse_capability_requirements_array rest of
             Inl e \<Rightarrow> Inl e
           | Inr out \<Rightarrow> Inr (delegate_requirement_strings_to_capabilities [s] @ out))
      | JObject m \<Rightarrow>
          (case parse_capability_object m of
             Inl e \<Rightarrow> Inl e
           | Inr c \<Rightarrow>
               (case parse_capability_requirements_array rest of
                  Inl e \<Rightarrow> Inl e
                | Inr out \<Rightarrow> Inr (c # out)))
      | _ \<Rightarrow> Inl EntriesMustBeStringsOrObjects)"

section \<open>Inheritance\<close>

fun validate_capability_inheritance ::
  "capability list \<Rightarrow> capability list \<Rightarrow> (capability_error, unit) result" where
  "validate_capability_inheritance parent_caps [] = Inr ()"
| "validate_capability_inheritance parent_caps (child_cap # rest) =
     (if list_ex (\<lambda>parent_cap. capability_matches parent_cap child_cap) parent_caps
      then validate_capability_inheritance parent_caps rest
      else Inl (PrivilegeEscalation child_cap))"

section \<open>The kernel's capability manager\<close>

text \<open>
  \<^verbatim>\<open>crates/openfang-kernel/src/capabilities.rs\<close>: the grants of every agent.
\<close>

type_synonym capability_manager = "(agent_id, capability list) store"

definition cm_new :: capability_manager where
  "cm_new = []"

definition cm_grant :: "capability_manager \<Rightarrow> agent_id \<Rightarrow> capability list \<Rightarrow> capability_manager" where
  "cm_grant cm a capabilities = st_put a capabilities cm"

definition cm_check :: "capability_manager \<Rightarrow> agent_id \<Rightarrow> capability \<Rightarrow> capability_check" where
  "cm_check cm a required =
     (case st_get cm a of
        None \<Rightarrow> Denied (NoCapabilitiesRegistered a)
      | Some grants \<Rightarrow>
          if list_ex (\<lambda>granted. capability_matches granted required) grants then Granted
          else Denied (LacksCapability a required))"

definition cm_list :: "capability_manager \<Rightarrow> agent_id \<Rightarrow> capability list" where
  "cm_list cm a = (case st_get cm a of Some g \<Rightarrow> g | None \<Rightarrow> [])"

definition cm_revoke_all :: "capability_manager \<Rightarrow> agent_id \<Rightarrow> capability_manager" where
  "cm_revoke_all cm a = st_del a cm"

text \<open>
  The check the kernel makes before it spawns a child (\<^verbatim>\<open>spawn_agent_checked\<close>), followed
  by the registration of the child's grants.
\<close>

definition spawn_checked ::
  "capability_manager \<Rightarrow> capability list \<Rightarrow> agent_id \<Rightarrow> capability list
     \<Rightarrow> (capability_error, capability_manager) result" where
  "spawn_checked cm parent_caps child child_caps =
     (case validate_capability_inheritance parent_caps child_caps of
        Inl e \<Rightarrow> Inl e
      | Inr _ \<Rightarrow> Inr (cm_grant cm child child_caps))"

section \<open>Patterns with at most one star\<close>

definition stars :: "string \<Rightarrow> nat" where
  "stars p = count_list p CHR ''*''"

definition cap_pattern :: "capability \<Rightarrow> string" where
  "cap_pattern c =
     (case c of
        FileRead p \<Rightarrow> p
      | FileWrite p \<Rightarrow> p
      | NetConnect p \<Rightarrow> p
      | LlmQuery p \<Rightarrow> p
      | AgentMessage p \<Rightarrow> p
      | AgentKill p \<Rightarrow> p
      | MemoryRead p \<Rightarrow> p
      | MemoryWrite p \<Rightarrow> p
      | ShellExec p \<Rightarrow> p
      | EnvRead p \<Rightarrow> p
      | OfpConnect p \<Rightarrow> p
      | EconTransfer p \<Rightarrow> p
      | _ \<Rightarrow> [])"

definition single_star :: "capability \<Rightarrow> bool" where
  "single_star c = (stars (cap_pattern c) \<le> 1)"

lemma stars_0: "stars p = 0 \<longleftrightarrow> CHR ''*'' \<notin> set p"
  by (simp add: stars_def count_list_0_iff)

lemma stars_append [simp]: "stars (p @ q) = stars p + stars q"
  by (simp add: stars_def)

lemma stars_Cons [simp]: "stars (c # p) = (if c = CHR ''*'' then Suc (stars p) else stars p)"
  by (simp add: stars_def)

lemma stars_Nil [simp]: "stars [] = 0"
  by (simp add: stars_def)

lemma one_star_cases:
  assumes "stars p \<le> 1"
  obtains (none) "CHR ''*'' \<notin> set p"
    | (one) a b where "p = a @ CHR ''*'' # b" "CHR ''*'' \<notin> set a" "CHR ''*'' \<notin> set b"
proof (cases "CHR ''*'' \<in> set p")
  case True
  then obtain a b where p: "p = a @ CHR ''*'' # b" by (meson split_list)
  with assms have "stars a = 0" "stars b = 0" by auto
  with p one show ?thesis by (simp add: stars_0)
qed (rule none)

text \<open>What \<open>glob_matches\<close> computes, on each shape of pattern.\<close>

lemma glob_matches_literal: "CHR ''*'' \<notin> set p \<Longrightarrow> glob_matches p v \<longleftrightarrow> p = v"
proof -
  assume star: "CHR ''*'' \<notin> set p"
  then have "strip_prefix_char CHR ''*'' p = None" "strip_suffix_char CHR ''*'' p = None"
    by (auto simp: strip_prefix_char_None strip_suffix_char_None)
  moreover from star have "find_char CHR ''*'' p = None" by (simp add: find_char_None)
  moreover from star have "p \<noteq> ''*''" by auto
  ultimately show ?thesis by (simp add: glob_matches_def)
qed

lemma glob_matches_leading: "glob_matches (CHR ''*'' # b) v \<longleftrightarrow> CHR ''*'' # b = v \<or> suffix b v"
  by (auto simp: glob_matches_def ends_with_def)

lemma glob_matches_trailing:
  "a = [] \<or> hd a \<noteq> CHR ''*'' \<Longrightarrow> glob_matches (a @ ''*'') v \<longleftrightarrow> a @ ''*'' = v \<or> prefix a v"
  by (cases a) (auto simp: glob_matches_def starts_with_def)

lemma glob_matches_middle:
  assumes "CHR ''*'' \<notin> set a" "a \<noteq> []" "b \<noteq> []" "last b \<noteq> CHR ''*''"
  shows "glob_matches (a @ CHR ''*'' # b) v \<longleftrightarrow> a @ CHR ''*'' # b = v \<or> (\<exists>m. v = a @ m @ b)"
proof -
  let ?p = "a @ CHR ''*'' # b"
  obtain b' x where b: "b = b' @ [x]" "x \<noteq> CHR ''*''"
    using assms(3,4) by (metis append_butlast_last_id)
  have "?p = (a @ CHR ''*'' # b') @ [x]" by (simp add: b)
  then have "strip_suffix_char CHR ''*'' ?p = None"
    using b(2) strip_suffix_char_snoc by metis
  moreover have "strip_prefix_char CHR ''*'' ?p = None"
    using assms(1,2) by (cases a) auto
  moreover have "?p \<noteq> ''*''" using assms(2) by (cases a) auto
  moreover note find_char_append [OF assms(1), of b]
  moreover note prefix_suffix_split [of a v b]
  ultimately show ?thesis
    by (auto simp: glob_matches_def starts_with_def ends_with_def Let_def)
qed

text \<open>On a pattern with one star, all four branches say the same: the star is any text.\<close>

lemma glob_matches_one:
  assumes "CHR ''*'' \<notin> set a" "CHR ''*'' \<notin> set b"
  shows "glob_matches (a @ CHR ''*'' # b) v \<longleftrightarrow> (\<exists>m. v = a @ m @ b)"
proof -
  have self: "\<exists>m. a @ CHR ''*'' # b = a @ m @ b" by (rule exI [of _ "''*''"]) simp
  consider "a = []" | "a \<noteq> []" "b = []" | "a \<noteq> []" "b \<noteq> []" by blast
  then show ?thesis
  proof cases
    case 1
    then show ?thesis using self by (auto simp: glob_matches_leading suffix_def)
  next
    case 2
    then have "hd a \<noteq> CHR ''*''" using assms(1) hd_in_set by metis
    with 2 show ?thesis using glob_matches_trailing [of a v] by (auto simp: prefix_def)
  next
    case 3
    then have "last b \<noteq> CHR ''*''" using assms(2) last_in_set by metis
    with 3 show ?thesis using glob_matches_middle [OF assms(1)] self by auto
  qed
qed

lemma glob_matches_wildcard: "stars p \<le> 1 \<Longrightarrow> glob_matches p v \<longleftrightarrow> wildcard p v"
  by (erule one_star_cases)
    (simp_all add: glob_matches_literal wildcard_literal glob_matches_one wildcard_one)

text \<open>
  Whatever a pattern with literal parts \<open>a\<close> and \<open>b\<close> around a star matches, read as a
  pattern itself, matches only texts between \<open>a\<close> and \<open>b\<close>.
\<close>

lemma glob_matches_star_cases:
  assumes "glob_matches (a @ CHR ''*'' # b) v" "CHR ''*'' \<notin> set a"
  obtains (same) "v = a @ CHR ''*'' # b"
    | (leading) "a = []" "suffix b v"
    | (trailing) c where "a @ CHR ''*'' # b = c @ ''*''" "prefix a c" "prefix c v"
    | (middle) z where "v = a @ z @ b"
proof -
  consider "a = []" | "a \<noteq> []" "b = []" | b' where "a \<noteq> []" "b = b' @ ''*''"
    | "a \<noteq> []" "b \<noteq> []" "last b \<noteq> CHR ''*''"
    by (metis append_butlast_last_id)
  then show thesis
  proof cases
    case 1
    then show thesis using assms(1) glob_matches_leading same leading by auto
  next
    case 2
    then have "hd a \<noteq> CHR ''*''" using assms(2) hd_in_set by metis
    then show thesis using assms(1) 2 glob_matches_trailing [of a v] same trailing [of a] by auto
  next
    case (3 b')
    let ?c = "a @ CHR ''*'' # b'"
    have "hd ?c \<noteq> CHR ''*''" using assms(2) 3(1) by (metis hd_append2 hd_in_set)
    then show thesis using assms(1) 3 glob_matches_trailing [of ?c v] same trailing [of ?c] by auto
  next
    case 4
    then show thesis using assms glob_matches_middle [of a b v] same middle by auto
  qed
qed

lemma glob_between:
  assumes ab: "CHR ''*'' \<notin> set a" "CHR ''*'' \<notin> set b"
    and c: "c = a @ m @ b" and v: "glob_matches c v"
  shows "\<exists>m'. v = a @ m' @ b"
proof (cases "CHR ''*'' \<in> set c")
  case False
  then show ?thesis using c v glob_matches_literal by auto
next
  case True
  then obtain a2 b2 where c2: "c = a2 @ CHR ''*'' # b2" "CHR ''*'' \<notin> set a2"
    by (meson split_list_first)
  obtain x where x: "a2 = a @ x"
    using first_occurrence_prefix [OF ab(1), of "m @ b" a2 b2] c c2 by auto
  obtain y where y: "b2 = y @ b"
    using last_occurrence_suffix [OF ab(2), of "a @ m" a2 b2] c c2 by auto
  from v c2 have "glob_matches (a2 @ CHR ''*'' # b2) v" by simp
  then show ?thesis using c2(2)
  proof (cases rule: glob_matches_star_cases)
    case same
    then show ?thesis using c c2 by auto
  next
    case leading
    then show ?thesis using x y by (auto simp: suffix_def)
  next
    case (trailing d)
    then have "b = []" using last_occurrence_suffix [OF ab(2), of "a @ m" d "[]"] c c2 by auto
    then show ?thesis using trailing x by (auto simp: prefix_def)
  next
    case (middle z)
    then show ?thesis using x y by auto
  qed
qed

lemma glob_matches_trans:
  assumes "stars p \<le> 1" "glob_matches p c" "glob_matches c v"
  shows "glob_matches p v"
  using assms(1)
proof (cases rule: one_star_cases)
  case none
  then show ?thesis using assms glob_matches_literal by simp
next
  case (one a b)
  then show ?thesis using assms(2,3) glob_between [of a b c _ v] by (auto simp: glob_matches_one)
qed

section \<open>Delegation\<close>

text \<open>
  The interface the spawn check relies on: a grant relation that is transitive below the
  grants a root agent may hold. Its client lemmas are about lists of grants.
\<close>

locale delegation =
  fixes grants :: "'c \<Rightarrow> 'c \<Rightarrow> bool"
    and sound :: "'c \<Rightarrow> bool"
  assumes grants_trans: "sound p \<Longrightarrow> grants p c \<Longrightarrow> grants c r \<Longrightarrow> grants p r"
begin

lemma covers_trans:
  assumes "\<forall>p\<in>set ps. sound p"
    and "\<forall>c\<in>set cs. \<exists>p\<in>set ps. grants p c"
    and "\<forall>r\<in>set rs. \<exists>c\<in>set cs. grants c r"
  shows "\<forall>r\<in>set rs. \<exists>p\<in>set ps. grants p r"
  using assms grants_trans by metis

lemma chain_covers:
  assumes "\<forall>p\<in>set ps. sound p"
    and "successively (\<lambda>xs ys. \<forall>y\<in>set ys. \<exists>x\<in>set xs. grants x y) (ps # css)"
    and "cs \<in> set css"
  shows "\<forall>c\<in>set cs. \<exists>p\<in>set ps. grants p c"
  using assms(2,3)
proof (induction css arbitrary: cs rule: rev_induct)
  case Nil
  then show ?case by simp
next
  case (snoc ds css)
  have step: "successively (\<lambda>xs ys. \<forall>y\<in>set ys. \<exists>x\<in>set xs. grants x y) (ps # css)"
    using snoc.prems(1) successively_append_iff [of _ "ps # css" "[ds]"] by auto
  show ?case
  proof (cases "cs \<in> set css")
    case True
    then show ?thesis using snoc.IH step by blast
  next
    case False
    then have cs: "cs = ds" using snoc.prems(2) by simp
    let ?l = "last (ps # css)"
    have link: "\<forall>y\<in>set ds. \<exists>x\<in>set ?l. grants x y"
      using snoc.prems(1) successively_append_iff [of _ "ps # css" "[ds]"] by auto
    show ?thesis
    proof (cases "css = []")
      case True
      then show ?thesis using link cs by simp
    next
      case False
      then have "?l \<in> set css" by simp
      then have "\<forall>c\<in>set ?l. \<exists>p\<in>set ps. grants p c" using snoc.IH step by blast
      then show ?thesis using covers_trans [OF assms(1) _ link] cs by blast
    qed
  qed
qed

end

lemma capability_matches_trans:
  assumes "single_star p" "capability_matches p c" "capability_matches c r"
  shows "capability_matches p r"
  using assms
  by (cases p; cases c; simp add: capability_matches_def; cases r;
      auto simp: single_star_def cap_pattern_def intro: glob_matches_trans f64_ge_trans)

interpretation caps: delegation capability_matches single_star
  by unfold_locales (rule capability_matches_trans)

lemma cover_iff:
  "granted_capabilities_cover_required gs rs \<longleftrightarrow>
     (\<forall>r\<in>set rs. \<exists>g\<in>set gs. capability_matches g r)"
  by (auto simp: granted_capabilities_cover_required_def list_all_iff list_ex_iff)

lemma validate_ok_iff:
  "validate_capability_inheritance ps cs = Inr () \<longleftrightarrow> granted_capabilities_cover_required ps cs"
  by (induction ps cs rule: validate_capability_inheritance.induct)
    (auto simp: cover_iff list_ex_iff)

text \<open>The first uncovered capability of the child is the one the error names.\<close>

lemma validate_error_iff:
  "validate_capability_inheritance ps cs = Inl e \<longleftrightarrow>
     (\<exists>c. find (\<lambda>c. \<not> granted_capabilities_cover_required ps [c]) cs = Some c
          \<and> e = PrivilegeEscalation c)"
  by (induction ps cs rule: validate_capability_inheritance.induct)
    (auto simp: cover_iff list_ex_iff)

text \<open>Every generation of a line of spawns was checked against its parent's grants.\<close>

definition spawn_line :: "capability list \<Rightarrow> capability list list \<Rightarrow> bool" where
  "spawn_line root_caps generations =
     successively (\<lambda>p c. validate_capability_inheritance p c = Inr ()) (root_caps # generations)"

section \<open>Properties\<close>

text \<open>
  C13. No privilege escalation through delegation: if every generation of a line of spawned
  agents passed the inheritance check against its parent, and the root's patterns have at
  most one star, then whatever any descendant's grants cover, the root's grants cover.
\<close>

theorem spawn_line_no_escalation:
  assumes "\<forall>p\<in>set root_caps. single_star p"
    and "spawn_line root_caps generations" and "caps \<in> set generations"
    and "granted_capabilities_cover_required caps req"
  shows "granted_capabilities_cover_required root_caps req"
proof -
  have "successively (\<lambda>xs ys. \<forall>y\<in>set ys. \<exists>x\<in>set xs. capability_matches x y) (root_caps # generations)"
    using assms(2) by (simp add: spawn_line_def validate_ok_iff cover_iff)
  from caps.chain_covers [OF assms(1) this assms(3)]
  show ?thesis using caps.covers_trans [OF assms(1)] assms(4) by (simp add: cover_iff)
qed

theorem spawn_line_no_escalation_witness:
  "granted_capabilities_cover_required [FileRead ''/data/*'', ToolAll]
     [FileRead ''/data/a/x.txt'', ToolInvoke ''web_fetch'']"
proof (rule spawn_line_no_escalation)
  show "\<forall>p\<in>set [FileRead ''/data/*'', ToolAll]. single_star p"
    by (simp add: single_star_def cap_pattern_def)
  show "spawn_line [FileRead ''/data/*'', ToolAll]
     [[FileRead ''/data/a/*'', ToolInvoke ''web_fetch''],
      [FileRead ''/data/a/x.txt'', ToolInvoke ''web_fetch'']]"
    by (simp add: spawn_line_def) code_simp
  show "[FileRead ''/data/a/x.txt'', ToolInvoke ''web_fetch''] \<in> set
     [[FileRead ''/data/a/*'', ToolInvoke ''web_fetch''],
      [FileRead ''/data/a/x.txt'', ToolInvoke ''web_fetch'']]" by simp
  show "granted_capabilities_cover_required [FileRead ''/data/a/x.txt'', ToolInvoke ''web_fetch'']
     [FileRead ''/data/a/x.txt'', ToolInvoke ''web_fetch'']" by code_simp
qed

text \<open>
  The matcher is the reference wildcard semantics on every pattern with at most one
  star, whichever of its four branches (exact, leading, trailing, middle) is taken.
\<close>

lemma glob_matches_is_wildcard:
  assumes "stars pattern \<le> 1"
  shows "glob_matches pattern v = wildcard pattern v"
  using assms by (rule glob_matches_wildcard)

lemma glob_matches_is_wildcard_witness:
  "glob_matches ''api.*.com:443'' ''api.openai.com:443''
   = wildcard ''api.*.com:443'' ''api.openai.com:443''"
  by (rule glob_matches_is_wildcard) simp

text \<open>
  With two stars in a parent's pattern the inheritance check accepts an escalation: a
  parent that may read only paths ending in the literal text \<^verbatim>\<open>a*\<close> may hand a child the
  pattern \<^verbatim>\<open>Xa*\<close>, which then covers paths the parent could not read.
\<close>

lemma two_stars_escalate:
  "validate_capability_inheritance [FileRead ''*a*''] [FileRead ''Xa*''] = Inr ()
   \<and> granted_capabilities_cover_required [FileRead ''Xa*''] [FileRead ''Xab'']
   \<and> \<not> granted_capabilities_cover_required [FileRead ''*a*''] [FileRead ''Xab'']"
  by code_simp

lemma cm_check_granted:
  "is_granted (cm_check cm a r) \<longleftrightarrow> granted_capabilities_cover_required (cm_list cm a) [r]"
  by (auto simp: cm_check_def cm_list_def is_granted_def cover_iff list_ex_iff split: option.splits)

lemma cm_list_grant: "cm_list (cm_grant cm c caps) a = (if a = c then caps else cm_list cm a)"
  by (auto simp: cm_list_def cm_grant_def al.get_put)

text \<open>
  The runtime check agrees with the spawn check: after a child is spawned under its
  parent's registered grants, every capability check the manager grants the child it also
  grants the parent, and every other agent's checks are unchanged.
\<close>

lemma spawn_checked_bounded:
  assumes "spawn_checked cm (cm_list cm parent) child child_caps = Inr cm'"
    and "child \<noteq> parent" and "\<forall>p\<in>set (cm_list cm parent). single_star p"
  shows "(is_granted (cm_check cm' child req) \<longrightarrow> is_granted (cm_check cm' parent req))
    \<and> (\<forall>a. a \<noteq> child \<longrightarrow> cm_check cm' a req = cm_check cm a req)"
proof -
  have ok: "granted_capabilities_cover_required (cm_list cm parent) child_caps"
    and cm': "cm' = cm_grant cm child child_caps"
    using assms(1) validate_ok_iff by (auto simp: spawn_checked_def split: sum.splits)
  have "granted_capabilities_cover_required child_caps [req]
      \<Longrightarrow> granted_capabilities_cover_required (cm_list cm parent) [req]"
    using caps.covers_trans [OF assms(3), of child_caps "[req]"] ok by (simp add: cover_iff)
  moreover have "\<forall>a. a \<noteq> child \<longrightarrow> cm_check cm' a req = cm_check cm a req"
    by (simp add: cm' cm_check_def cm_grant_def al.get_put)
  ultimately show ?thesis
    using assms(2) by (simp add: cm_check_granted cm' cm_list_grant)
qed

lemma spawn_checked_bounded_witness:
  "\<exists>cm'. spawn_checked [(1, [NetConnect ''*.openai.com:443''])] [NetConnect ''*.openai.com:443''] 2
            [NetConnect ''api.openai.com:443''] = Inr cm'
     \<and> is_granted (cm_check cm' 1 (NetConnect ''api.openai.com:443''))"
proof -
  let ?cm = "[(1, [NetConnect ''*.openai.com:443''])] :: capability_manager"
  let ?cm' = "cm_grant ?cm 2 [NetConnect ''api.openai.com:443'']"
  have run: "spawn_checked ?cm (cm_list ?cm 1) 2 [NetConnect ''api.openai.com:443''] = Inr ?cm'"
    by code_simp
  moreover have "\<forall>p\<in>set (cm_list ?cm 1). single_star p"
    by (simp add: cm_list_def single_star_def cap_pattern_def)
  moreover have "is_granted (cm_check ?cm' 2 (NetConnect ''api.openai.com:443''))" by code_simp
  ultimately have "is_granted (cm_check ?cm' 1 (NetConnect ''api.openai.com:443''))"
    using spawn_checked_bounded [OF run, of "NetConnect ''api.openai.com:443''"] by linarith
  with run show ?thesis by (auto simp: cm_list_def)
qed

end
