(* ===== verification/Taint.thy ===== *)
theory Taint
  imports Prelude
begin

text \<open>
  Information-flow labels (\<^verbatim>\<open>crates/openfang-types/src/taint.rs\<close>). A hash set of labels is
  the list of its elements in iteration order, so that \<open>check_sink\<close> reports the first
  conflict it meets; every statement below is independent of that order.
\<close>

datatype taint_label = ExternalNetwork | UserInput | Pii | Secret | UntrustedAgent

definition taint_label_str :: "taint_label \<Rightarrow> string" where
  "taint_label_str l =
     (case l of
        ExternalNetwork \<Rightarrow> ''ExternalNetwork''
      | UserInput \<Rightarrow> ''UserInput''
      | Pii \<Rightarrow> ''Pii''
      | Secret \<Rightarrow> ''Secret''
      | UntrustedAgent \<Rightarrow> ''UntrustedAgent'')"

record tainted_value =
  tv_value :: string
  tv_labels :: "taint_label list"
  tv_source :: string

record taint_sink =
  sink_name :: string
  blocked_labels :: "taint_label list"

record taint_violation =
  viol_label :: taint_label
  viol_sink_name :: string
  viol_source :: string

definition tv_new :: "string \<Rightarrow> taint_label list \<Rightarrow> string \<Rightarrow> tainted_value" where
  "tv_new v labels src = \<lparr>tv_value = v, tv_labels = labels, tv_source = src\<rparr>"

definition tv_clean :: "string \<Rightarrow> string \<Rightarrow> tainted_value" where
  "tv_clean v src = \<lparr>tv_value = v, tv_labels = [], tv_source = src\<rparr>"

definition merge_taint :: "tainted_value \<Rightarrow> tainted_value \<Rightarrow> tainted_value" where
  "merge_taint self other =
     self\<lparr>tv_labels := fold List.insert (tv_labels other) (tv_labels self)\<rparr>"

definition check_sink :: "tainted_value \<Rightarrow> taint_sink \<Rightarrow> (taint_violation, unit) result" where
  "check_sink self sink =
     (case find (\<lambda>label. label \<in> set (blocked_labels sink)) (tv_labels self) of
        Some label \<Rightarrow>
          Inl \<lparr>viol_label = label, viol_sink_name = sink_name sink, viol_source = tv_source self\<rparr>
      | None \<Rightarrow> Inr ())"

definition declassify :: "tainted_value \<Rightarrow> taint_label \<Rightarrow> tainted_value" where
  "declassify self label = self\<lparr>tv_labels := removeAll label (tv_labels self)\<rparr>"

definition is_tainted :: "tainted_value \<Rightarrow> bool" where
  "is_tainted self = (tv_labels self \<noteq> [])"

definition sink_shell_exec :: taint_sink where
  "sink_shell_exec =
     \<lparr>sink_name = ''shell_exec'', blocked_labels = [ExternalNetwork, UntrustedAgent, UserInput]\<rparr>"

definition sink_net_fetch :: taint_sink where
  "sink_net_fetch = \<lparr>sink_name = ''net_fetch'', blocked_labels = [Secret, Pii]\<rparr>"

definition sink_agent_message :: taint_sink where
  "sink_agent_message = \<lparr>sink_name = ''agent_message'', blocked_labels = [Secret]\<rparr>"

definition taint_violation_str :: "taint_violation \<Rightarrow> string" where
  "taint_violation_str v =
     ''taint violation: label '' @ [CHR 0x27] @ taint_label_str (viol_label v) @ [CHR 0x27]
     @ '' from source '' @ [CHR 0x27] @ viol_source v @ [CHR 0x27]
     @ '' is not allowed to reach sink '' @ [CHR 0x27] @ viol_sink_name v @ [CHR 0x27]"

section \<open>The heuristic checks of the tool runner\<close>

text \<open>
  \<^verbatim>\<open>check_taint_net_fetch\<close> of \<^verbatim>\<open>crates/openfang-runtime/src/tool_runner.rs\<close>. \<open>lc\<close> is
  the standard library's \<^verbatim>\<open>str::to_lowercase\<close>, whose Unicode tables are not modelled.
\<close>

definition exfil_patterns :: "string list" where
  "exfil_patterns =
     [''api_key='', ''apikey='', ''token='', ''secret='', ''password='', ''Authorization:'']"

fun check_patterns :: "(string \<Rightarrow> bool) \<Rightarrow> tainted_value \<Rightarrow> taint_sink \<Rightarrow> string list \<Rightarrow> string option" where
  "check_patterns hit v sink [] = None"
| "check_patterns hit v sink (p # ps) =
     (if hit p then
        (case check_sink v sink of
           Inl violation \<Rightarrow> Some (taint_violation_str violation)
         | Inr _ \<Rightarrow> check_patterns hit v sink ps)
      else check_patterns hit v sink ps)"

definition check_taint_net_fetch :: "(string \<Rightarrow> string) \<Rightarrow> string \<Rightarrow> string option" where
  "check_taint_net_fetch lc url =
     check_patterns (\<lambda>pattern. contains_str (lc url) (lc pattern))
       (tv_new url [Secret] ''llm_tool_call'') sink_net_fetch exfil_patterns"

section \<open>Lemmas\<close>

lemma set_fold_insert: "set (fold List.insert xs ys) = set xs \<union> set ys"
  by (induction xs arbitrary: ys) auto

lemma labels_merge [simp]:
  "set (tv_labels (merge_taint a b)) = set (tv_labels a) \<union> set (tv_labels b)"
  by (auto simp: merge_taint_def set_fold_insert)

lemma labels_declassify [simp]:
  "set (tv_labels (declassify a l)) = set (tv_labels a) - {l}"
  by (auto simp: declassify_def)

lemma check_sink_ok_iff:
  "check_sink v sink = Inr () \<longleftrightarrow> set (tv_labels v) \<inter> set (blocked_labels sink) = {}"
  by (auto simp: check_sink_def find_None_iff dest: find_SomeD split: option.splits)

lemma check_sink_violation:
  "check_sink v sink = Inl viol \<Longrightarrow>
     viol_label viol \<in> set (tv_labels v) \<inter> set (blocked_labels sink)
     \<and> viol_source viol = tv_source v \<and> viol_sink_name viol = sink_name sink"
  by (auto simp: check_sink_def dest: find_SomeD split: option.splits)

lemma check_sink_merge:
  "check_sink (merge_taint a b) sink = Inr () \<longleftrightarrow>
     check_sink a sink = Inr () \<and> check_sink b sink = Inr ()"
  by (auto simp: check_sink_ok_iff)

lemma check_patterns_Some:
  assumes "check_sink v sink = Inl viol"
  shows "check_patterns hit v sink ps =
     (if list_ex hit ps then Some (taint_violation_str viol) else None)"
  using assms by (induction ps) auto

text \<open>What a value goes through between its origin and a sink.\<close>

datatype taint_op = MergeWith tainted_value | Declassify taint_label

fun taint_step :: "taint_op \<Rightarrow> tainted_value \<Rightarrow> tainted_value" where
  "taint_step (MergeWith w) v = merge_taint v w"
| "taint_step (Declassify l) v = declassify v l"

lemma taint_step_keeps:
  "l \<in> set (tv_labels v) \<Longrightarrow> x \<noteq> Declassify l \<Longrightarrow> l \<in> set (tv_labels (taint_step x v))"
  by (cases x) auto

lemma taint_step_acquires: "l \<in> set (tv_labels w) \<Longrightarrow> l \<in> set (tv_labels (taint_step (MergeWith w) v))"
  by simp

interpretation kept: run_invariant taint_step "\<lambda>x. x \<noteq> Declassify l" "\<lambda>v. l \<in> set (tv_labels v)" for l
  by unfold_locales (simp add: taint_step_keeps)

lemma taint_run_keeps:
  "l \<in> set (tv_labels v) \<Longrightarrow> Declassify l \<notin> set ops \<Longrightarrow> l \<in> set (tv_labels (fold taint_step ops v))"
  by (rule kept.run_inv) (auto simp: list_all_iff)

section \<open>Properties\<close>

text \<open>
  C14. Taint never washes off: along any sequence of merges and declassifications, if at some
  point the value is merged with a value that carries a label (or carried it from the
  start) and that label is not declassified afterwards, every sink that blocks the label
  rejects the result, with a violation naming a blocked label the value carries.
\<close>

theorem taint_reaches_sink_rejected:
  assumes "l \<in> set (tv_labels w)" and "l \<in> set (blocked_labels sink)"
    and "Declassify l \<notin> set after"
  shows "\<exists>viol. check_sink (fold taint_step (before @ MergeWith w # after) v) sink = Inl viol
    \<and> viol_label viol \<in> set (blocked_labels sink)"
proof -
  let ?v = "fold taint_step (before @ MergeWith w # after) v"
  have "l \<in> set (tv_labels ?v)"
    using assms(1,3) taint_run_keeps [of l "taint_step (MergeWith w) (fold taint_step before v)"]
    by simp
  then have "check_sink ?v sink \<noteq> Inr ()"
    using assms(2) by (auto simp: check_sink_ok_iff)
  then obtain viol where "check_sink ?v sink = Inl viol" by (cases "check_sink ?v sink") auto
  then show ?thesis using check_sink_violation by blast
qed

theorem taint_reaches_sink_rejected_witness:
  "\<exists>viol. check_sink (fold taint_step ([Declassify Secret] @
       MergeWith (tv_new ''k'' [Secret] ''vault'') # [Declassify Pii]) (tv_clean ''x'' ''user''))
     sink_net_fetch = Inl viol \<and> viol_label viol \<in> set (blocked_labels sink_net_fetch)"
  by (rule taint_reaches_sink_rejected [of Secret])
    (simp_all add: tv_new_def sink_net_fetch_def)

text \<open>
  The network check blocks exactly the URLs that, in lower case, contain one of the
  credential markers, whatever the case mapping of the standard library is, and it reports
  the Secret label reaching the \<^verbatim>\<open>net_fetch\<close> sink.
\<close>

lemma check_taint_net_fetch_spec:
  "check_taint_net_fetch lc url =
     (if \<exists>p\<in>set exfil_patterns. contains_str (lc url) (lc p)
      then Some (taint_violation_str
        \<lparr>viol_label = Secret, viol_sink_name = ''net_fetch'', viol_source = ''llm_tool_call''\<rparr>)
      else None)"
proof -
  have "check_sink (tv_new url [Secret] ''llm_tool_call'') sink_net_fetch =
    Inl \<lparr>viol_label = Secret, viol_sink_name = ''net_fetch'', viol_source = ''llm_tool_call''\<rparr>"
    by (simp add: check_sink_def tv_new_def sink_net_fetch_def)
  from check_patterns_Some [OF this] show ?thesis
    by (simp add: check_taint_net_fetch_def list_ex_iff)
qed

end
