(* ===== verification/Event_Bus.thy ===== *)
theory Event_Bus
  imports Prelude
begin

text \<open>
  The kernel's event bus (\<^verbatim>\<open>crates/openfang-kernel/src/event_bus.rs\<close>): a broadcast channel, one
  channel per subscribed agent, and a ring buffer of the last events. A channel is the
  list of the events sent on it; its receivers, their lag and the channel's own buffer
  belong to the asynchronous runtime and are not modelled. The payload of an event is a
  type parameter.
\<close>

datatype event_target = TargetAgent agent_id | Broadcast | Pattern string | System

record 'p event =
  ev_id :: uuid
  ev_source :: agent_id
  ev_target :: event_target
  ev_payload :: 'p
  ev_timestamp :: time
  ev_correlation_id :: "uuid option"
  ev_ttl :: "nat option"

definition event_new :: "uuid \<Rightarrow> time \<Rightarrow> agent_id \<Rightarrow> event_target \<Rightarrow> 'p \<Rightarrow> 'p event" where
  "event_new fresh now source target payload =
     \<lparr>ev_id = fresh, ev_source = source, ev_target = target, ev_payload = payload,
      ev_timestamp = now, ev_correlation_id = None, ev_ttl = None\<rparr>"

definition with_correlation :: "'p event \<Rightarrow> uuid \<Rightarrow> 'p event" where
  "with_correlation e c = e\<lparr>ev_correlation_id := Some c\<rparr>"

definition with_ttl :: "'p event \<Rightarrow> nat \<Rightarrow> 'p event" where
  "with_ttl e d = e\<lparr>ev_ttl := Some d\<rparr>"

record 'p event_bus =
  eb_sender :: "'p event list"
  eb_agent_channels :: "(agent_id, 'p event list) store"
  eb_history :: "'p event list"

definition HISTORY_SIZE :: nat where
  "HISTORY_SIZE = 1000"

definition eb_new :: "'p event_bus" where
  "eb_new = \<lparr>eb_sender = [], eb_agent_channels = [], eb_history = []\<rparr>"

text \<open>The history is oldest first; a full buffer drops its front before the append.\<close>

definition history_push :: "'e \<Rightarrow> 'e list \<Rightarrow> 'e list" where
  "history_push = ring_push HISTORY_SIZE"

definition eb_publish :: "'p event_bus \<Rightarrow> 'p event \<Rightarrow> 'p event_bus" where
  "eb_publish bus e =
     (let bus1 = bus\<lparr>eb_history := history_push e (eb_history bus)\<rparr> in
      case ev_target e of
        TargetAgent a \<Rightarrow>
          (case st_get (eb_agent_channels bus1) a of
             Some sent \<Rightarrow>
               bus1\<lparr>eb_agent_channels := st_put a (sent @ [e]) (eb_agent_channels bus1)\<rparr>
           | None \<Rightarrow> bus1)
      | Broadcast \<Rightarrow>
          bus1\<lparr>eb_sender := eb_sender bus1 @ [e],
               eb_agent_channels := map (\<lambda>(a, sent). (a, sent @ [e])) (eb_agent_channels bus1)\<rparr>
      | Pattern _ \<Rightarrow> bus1\<lparr>eb_sender := eb_sender bus1 @ [e]\<rparr>
      | System \<Rightarrow> bus1\<lparr>eb_sender := eb_sender bus1 @ [e]\<rparr>)"

definition eb_subscribe_agent :: "'p event_bus \<Rightarrow> agent_id \<Rightarrow> 'p event_bus" where
  "eb_subscribe_agent bus a =
     (case st_get (eb_agent_channels bus) a of
        Some _ \<Rightarrow> bus
      | None \<Rightarrow> bus\<lparr>eb_agent_channels := st_put a [] (eb_agent_channels bus)\<rparr>)"

definition eb_history_query :: "'p event_bus \<Rightarrow> nat \<Rightarrow> 'p event list" where
  "eb_history_query bus limit = take limit (rev (eb_history bus))"

definition eb_unsubscribe_agent :: "'p event_bus \<Rightarrow> agent_id \<Rightarrow> 'p event_bus" where
  "eb_unsubscribe_agent bus a = bus\<lparr>eb_agent_channels := st_del a (eb_agent_channels bus)\<rparr>"

section \<open>The history is a bounded log\<close>

interpretation hist: bounded_log history_push rev HISTORY_SIZE
  by unfold_locales (simp add: history_push_def HISTORY_SIZE_def ring_push_items)

lemma history_publish [simp]: "eb_history (eb_publish bus e) = history_push e (eb_history bus)"
  by (auto simp: eb_publish_def Let_def split: event_target.splits option.splits)

lemma history_publish_all:
  "eb_history (fold (\<lambda>e b. eb_publish b e) es bus) = fold history_push es (eb_history bus)"
  by (induction es arbitrary: bus) auto

section \<open>Routing\<close>

definition delivered :: "'p event_bus \<Rightarrow> agent_id \<Rightarrow> 'p event list" where
  "delivered bus a = (case st_get (eb_agent_channels bus) a of Some sent \<Rightarrow> sent | None \<Rightarrow> [])"

lemma map_of_append_all:
  "map_of (map (\<lambda>(a, sent). (a, sent @ [e])) m) a = map_option (\<lambda>sent. sent @ [e]) (map_of m a)"
  by (induction m) auto

lemma delivered_publish:
  "delivered (eb_publish bus e) a =
     (if st_get (eb_agent_channels bus) a \<noteq> None \<and> (ev_target e = TargetAgent a \<or> ev_target e = Broadcast)
      then delivered bus a @ [e] else delivered bus a)"
  by (auto simp: delivered_def eb_publish_def Let_def al.get_put map_of_append_all
      split: event_target.splits option.splits if_splits)

section \<open>Properties\<close>

text \<open>
  The history the bus reports is, newest first, the last events published, at most
  a thousand of them: after any sequence of publications on a fresh bus a query returns
  the newest \<open>limit\<close> of the last \<open>HISTORY_SIZE\<close> events.
\<close>

lemma history_is_recent_events:
  "eb_history_query (fold (\<lambda>e b. eb_publish b e) es (eb_new :: 'p event_bus)) limit
     = take (min limit HISTORY_SIZE) (rev es)"
proof -
  have "rev (fold history_push es ([] :: 'p event list)) = take HISTORY_SIZE (rev es)"
    using hist.push_run [of "[]" es] by simp
  then show ?thesis
    by (simp add: eb_history_query_def history_publish_all eb_new_def)
qed

text \<open>
  Routing: an event reaches the channel of a subscribed agent exactly when it is
  addressed to that agent or broadcast, it is appended after what the channel already
  carried, and an agent without a channel receives nothing.
\<close>

lemma publish_routes_exactly:
  "delivered (eb_publish (eb_subscribe_agent bus a) e) a =
     delivered bus a @ (if ev_target e \<in> {TargetAgent a, Broadcast} then [e] else [])
   \<and> delivered (eb_publish (eb_unsubscribe_agent bus a) e) a = []"
proof
  have sub: "st_get (eb_agent_channels (eb_subscribe_agent bus a)) a \<noteq> None"
    "delivered (eb_subscribe_agent bus a) a = delivered bus a"
    by (auto simp: eb_subscribe_agent_def delivered_def al.get_put split: option.splits)
  then show "delivered (eb_publish (eb_subscribe_agent bus a) e) a =
     delivered bus a @ (if ev_target e \<in> {TargetAgent a, Broadcast} then [e] else [])"
    by (simp add: delivered_publish)
  show "delivered (eb_publish (eb_unsubscribe_agent bus a) e) a = []"
    unfolding delivered_publish by (simp add: delivered_def eb_unsubscribe_agent_def al.get_del)
qed

end
