(* ===== verification/Approval.thy ===== *)
theory Approval
  imports Prelude Event_Bus
begin

text \<open>
  Execution approval: the request, response and policy types of
  \<^verbatim>\<open>crates/openfang-types/src/approval.rs\<close> and the manager of
  \<^verbatim>\<open>crates/openfang-kernel/src/approval.rs\<close>.

  \<open>request_approval\<close> is an asynchronous function: it checks the per-agent limit, inserts
  the pending request and publishes an event, and then waits on a one-shot channel with a
  timeout. The model has one definition per stretch between two points where another task
  can run, and a step relation that interleaves any number of requesters with the operator
  calls of \<open>resolve\<close>.
\<close>

section \<open>Types and validation\<close>

definition MAX_TOOL_NAME_LEN :: nat where "MAX_TOOL_NAME_LEN = 64"
definition MAX_DESCRIPTION_LEN :: nat where "MAX_DESCRIPTION_LEN = 1024"
definition MAX_ACTION_SUMMARY_LEN :: nat where "MAX_ACTION_SUMMARY_LEN = 512"
definition MIN_TIMEOUT_SECS :: nat where "MIN_TIMEOUT_SECS = 10"
definition MAX_TIMEOUT_SECS :: nat where "MAX_TIMEOUT_SECS = 300"

lemmas approval_limits = MAX_TOOL_NAME_LEN_def MAX_DESCRIPTION_LEN_def
  MAX_ACTION_SUMMARY_LEN_def MIN_TIMEOUT_SECS_def MAX_TIMEOUT_SECS_def

datatype risk_level = Low | Medium | High | Critical

datatype approval_decision = Approved | Denied | TimedOut

record approval_request =
  ar_id :: uuid
  ar_agent_id :: string
  ar_tool_name :: string
  ar_description :: string
  ar_action_summary :: string
  ar_risk_level :: risk_level
  ar_requested_at :: time
  ar_timeout_secs :: nat

record approval_response =
  resp_request_id :: uuid
  resp_decision :: approval_decision
  resp_decided_at :: time
  resp_decided_by :: "string option"

record approval_policy =
  require_approval :: "string list"
  pol_timeout_secs :: nat
  auto_approve_autonomous :: bool
  auto_approve :: bool

datatype validation_error =
    ToolNameEmpty
  | ToolNameTooLong nat
  | ToolNameBadChars
  | DescriptionTooLong nat
  | ActionSummaryTooLong nat
  | TimeoutTooSmall nat
  | TimeoutTooLarge nat
  | PolicyNameEmpty nat
  | PolicyNameTooLong nat nat
  | PolicyNameBadChars nat string
  | NotABoolOrList

definition name_chars_ok :: "(nat \<Rightarrow> bool) \<Rightarrow> string \<Rightarrow> bool" where
  "name_chars_ok uni s = list_all (\<lambda>c. is_alphanumeric uni c \<or> c = 95) (str_chars s)"

definition approval_request_validate ::
  "(nat \<Rightarrow> bool) \<Rightarrow> approval_request \<Rightarrow> (validation_error, unit) result" where
  "approval_request_validate uni r =
     (if ar_tool_name r = [] then Inl ToolNameEmpty
      else if length (ar_tool_name r) > MAX_TOOL_NAME_LEN
        then Inl (ToolNameTooLong (length (ar_tool_name r)))
      else if \<not> name_chars_ok uni (ar_tool_name r) then Inl ToolNameBadChars
      else if length (ar_description r) > MAX_DESCRIPTION_LEN
        then Inl (DescriptionTooLong (length (ar_description r)))
      else if length (ar_action_summary r) > MAX_ACTION_SUMMARY_LEN
        then Inl (ActionSummaryTooLong (length (ar_action_summary r)))
      else if ar_timeout_secs r < MIN_TIMEOUT_SECS then Inl (TimeoutTooSmall (ar_timeout_secs r))
      else if ar_timeout_secs r > MAX_TIMEOUT_SECS then Inl (TimeoutTooLarge (ar_timeout_secs r))
      else Inr ())"

definition approval_policy_default :: approval_policy where
  "approval_policy_default =
     \<lparr>require_approval = [''shell_exec''], pol_timeout_secs = 60,
      auto_approve_autonomous = False, auto_approve = False\<rparr>"

fun all_strings :: "json list \<Rightarrow> string list option" where
  "all_strings [] = Some []"
| "all_strings (j # js) =
     (case as_str j of
        None \<Rightarrow> None
      | Some s \<Rightarrow> map_option (\<lambda>r. s # r) (all_strings js))"

definition deserialize_require_approval :: "json \<Rightarrow> (validation_error, string list) result" where
  "deserialize_require_approval j =
     (case j of
        JBool v \<Rightarrow> Inr (if v then [''shell_exec''] else [])
      | JArray xs \<Rightarrow> (case all_strings xs of Some v \<Rightarrow> Inr v | None \<Rightarrow> Inl NotABoolOrList)
      | _ \<Rightarrow> Inl NotABoolOrList)"

definition apply_shorthands :: "approval_policy \<Rightarrow> approval_policy" where
  "apply_shorthands p = (if auto_approve p then p\<lparr>require_approval := []\<rparr> else p)"

fun validate_names ::
  "(nat \<Rightarrow> bool) \<Rightarrow> nat \<Rightarrow> string list \<Rightarrow> (validation_error, unit) result" where
  "validate_names uni i [] = Inr ()"
| "validate_names uni i (name # rest) =
     (if name = [] then Inl (PolicyNameEmpty i)
      else if length name > MAX_TOOL_NAME_LEN then Inl (PolicyNameTooLong i (length name))
      else if \<not> name_chars_ok uni name then Inl (PolicyNameBadChars i name)
      else validate_names uni (Suc i) rest)"

definition approval_policy_validate ::
  "(nat \<Rightarrow> bool) \<Rightarrow> approval_policy \<Rightarrow> (validation_error, unit) result" where
  "approval_policy_validate uni p =
     (if pol_timeout_secs p < MIN_TIMEOUT_SECS then Inl (TimeoutTooSmall (pol_timeout_secs p))
      else if pol_timeout_secs p > MAX_TIMEOUT_SECS then Inl (TimeoutTooLarge (pol_timeout_secs p))
      else validate_names uni 0 (require_approval p))"

section \<open>The manager\<close>

definition MAX_PENDING_PER_AGENT :: nat where "MAX_PENDING_PER_AGENT = 5"
definition MAX_RECENT_APPROVALS :: nat where "MAX_RECENT_APPROVALS = 100"

record approval_record =
  rec_request :: approval_request
  rec_decision :: approval_decision
  rec_decided_at :: time
  rec_decided_by :: "string option"

record approval_manager =
  am_pending :: "(uuid, approval_request) store"
  am_recent :: "approval_record list"
  am_policy :: approval_policy

definition am_new :: "approval_policy \<Rightarrow> approval_manager" where
  "am_new policy = \<lparr>am_pending = [], am_recent = [], am_policy = policy\<rparr>"

definition pending_count :: "approval_manager \<Rightarrow> nat" where
  "pending_count am = length (am_pending am)"

definition requires_approval :: "approval_manager \<Rightarrow> string \<Rightarrow> bool" where
  "requires_approval am tool_name = list_ex (\<lambda>t. t = tool_name) (require_approval (am_policy am))"

definition push_recent ::
  "approval_request \<Rightarrow> approval_decision \<Rightarrow> string option \<Rightarrow> time \<Rightarrow> approval_manager \<Rightarrow> approval_manager" where
  "push_recent request decision decided_by decided_at am =
     am\<lparr>am_recent := take MAX_RECENT_APPROVALS
          (\<lparr>rec_request = request, rec_decision = decision, rec_decided_at = decided_at,
            rec_decided_by = decided_by\<rparr> # am_recent am)\<rparr>"

definition agent_pending :: "approval_manager \<Rightarrow> string \<Rightarrow> nat" where
  "agent_pending am agent = length (filter (\<lambda>(_, r). ar_agent_id r = agent) (am_pending am))"

text \<open>\<open>request_approval\<close> up to the limit check: may the request be queued?\<close>

definition request_admit :: "approval_manager \<Rightarrow> approval_request \<Rightarrow> bool" where
  "request_admit am req = (agent_pending am (ar_agent_id req) < MAX_PENDING_PER_AGENT)"

text \<open>The insertion of the pending request.\<close>

definition request_enqueue :: "approval_manager \<Rightarrow> approval_request \<Rightarrow> approval_manager" where
  "request_enqueue am req = am\<lparr>am_pending := st_put (ar_id req) req (am_pending am)\<rparr>"

text \<open>The event published after the insertion, when there is a bus.\<close>

datatype approval_event =
  ApprovalPending uuid agent_id string string \<comment> \<open>request id, agent, tool, action summary\<close>

definition request_event ::
  "(string \<Rightarrow> agent_id option) \<Rightarrow> uuid \<Rightarrow> uuid \<Rightarrow> time \<Rightarrow> approval_request \<Rightarrow> approval_event event" where
  "request_event parse_id fresh_agent fresh now req =
     (let source = (case parse_id (ar_agent_id req) of Some a \<Rightarrow> a | None \<Rightarrow> fresh_agent)
      in event_new fresh now source Broadcast
           (ApprovalPending (ar_id req) source (ar_tool_name req)
              (truncate_str (ar_action_summary req) 400)))"

text \<open>The branch taken when the timeout fires or the sender is gone.\<close>

definition request_timeout :: "approval_manager \<Rightarrow> approval_request \<Rightarrow> time \<Rightarrow> approval_manager" where
  "request_timeout am req now =
     (let request = (case st_get (am_pending am) (ar_id req) of Some r \<Rightarrow> r | None \<Rightarrow> req)
      in push_recent request TimedOut None now (am\<lparr>am_pending := st_del (ar_id req) (am_pending am)\<rparr>))"

definition resolve ::
  "approval_manager \<Rightarrow> uuid \<Rightarrow> approval_decision \<Rightarrow> string option \<Rightarrow> time
     \<Rightarrow> (uuid, approval_response) result \<times> approval_manager" where
  "resolve am request_id decision decided_by now =
     (case st_get (am_pending am) request_id of
        Some request \<Rightarrow>
          (Inr \<lparr>resp_request_id = request_id, resp_decision = decision, resp_decided_at = now,
                resp_decided_by = decided_by\<rparr>,
           push_recent request decision decided_by now
             (am\<lparr>am_pending := st_del request_id (am_pending am)\<rparr>))
      | None \<Rightarrow> (Inl request_id, am))"

definition list_pending :: "approval_manager \<Rightarrow> approval_request list" where
  "list_pending am = map snd (am_pending am)"

definition list_recent :: "approval_manager \<Rightarrow> nat \<Rightarrow> approval_record list" where
  "list_recent am limit = take limit (am_recent am)"

definition update_policy :: "approval_manager \<Rightarrow> approval_policy \<Rightarrow> approval_manager" where
  "update_policy am policy = am\<lparr>am_policy := policy\<rparr>"

definition classify_risk :: "string \<Rightarrow> risk_level" where
  "classify_risk tool_name =
     (if tool_name = ''shell_exec'' then Critical
      else if tool_name \<in> {''file_write'', ''file_delete'', ''spreadsheet_build''} then High
      else if tool_name \<in> {''web_fetch'', ''browser_navigate''} then Medium
      else Low)"

section \<open>Lemmas on the operations\<close>

lemma request_validate_ok_iff:
  "approval_request_validate uni r = Inr () \<longleftrightarrow>
     ar_tool_name r \<noteq> [] \<and> length (ar_tool_name r) \<le> MAX_TOOL_NAME_LEN
     \<and> name_chars_ok uni (ar_tool_name r)
     \<and> length (ar_description r) \<le> MAX_DESCRIPTION_LEN
     \<and> length (ar_action_summary r) \<le> MAX_ACTION_SUMMARY_LEN
     \<and> MIN_TIMEOUT_SECS \<le> ar_timeout_secs r \<and> ar_timeout_secs r \<le> MAX_TIMEOUT_SECS"
  by (auto simp: approval_request_validate_def)

lemma validate_names_ok_iff:
  "validate_names uni i names = Inr () \<longleftrightarrow>
     (\<forall>n\<in>set names. n \<noteq> [] \<and> length n \<le> MAX_TOOL_NAME_LEN \<and> name_chars_ok uni n)"
  by (induction uni i names rule: validate_names.induct) auto

lemma push_recent_simps [simp]:
  "am_pending (push_recent r d b t am) = am_pending am"
  "am_policy (push_recent r d b t am) = am_policy am"
  "length (am_recent (push_recent r d b t am)) \<le> MAX_RECENT_APPROVALS"
  by (simp_all add: push_recent_def)

text \<open>The records kept for the dashboard are a bounded log.\<close>

interpretation recent: bounded_log
  "\<lambda>r. push_recent (rec_request r) (rec_decision r) (rec_decided_by r) (rec_decided_at r)"
  am_recent MAX_RECENT_APPROVALS
proof
  fix l :: approval_manager and e :: approval_record
  show "am_recent (push_recent (rec_request e) (rec_decision e) (rec_decided_by e) (rec_decided_at e) l)
    = take MAX_RECENT_APPROVALS (e # am_recent l)"
    by (cases e) (simp add: push_recent_def)
qed

lemma request_enqueue_simps [simp]:
  "am_pending (request_enqueue am req) = st_put (ar_id req) req (am_pending am)"
  "am_recent (request_enqueue am req) = am_recent am"
  "am_policy (request_enqueue am req) = am_policy am"
  by (simp_all add: request_enqueue_def)

lemma request_timeout_pending [simp]:
  "am_pending (request_timeout am req now) = st_del (ar_id req) (am_pending am)"
  by (simp add: request_timeout_def)

lemma request_timeout_recent [simp]:
  "length (am_recent (request_timeout am req now)) \<le> MAX_RECENT_APPROVALS"
  by (simp add: request_timeout_def)

lemma resolve_ok_iff:
  "resolve am i d who now = (Inr resp, am') \<longleftrightarrow>
     (\<exists>r. st_get (am_pending am) i = Some r
        \<and> resp = \<lparr>resp_request_id = i, resp_decision = d, resp_decided_at = now,
                   resp_decided_by = who\<rparr>
        \<and> am' = push_recent r d who now (am\<lparr>am_pending := st_del i (am_pending am)\<rparr>))"
  by (auto simp: resolve_def split: option.splits)

text \<open>One requester at a time keeps the per-agent limit.\<close>

lemma request_sequential_limit:
  assumes "\<forall>a. agent_pending am a \<le> MAX_PENDING_PER_AGENT" and "request_admit am req"
  shows "\<forall>a. agent_pending (request_enqueue am req) a \<le> MAX_PENDING_PER_AGENT"
proof
  fix a
  let ?P = "\<lambda>(i :: uuid, r). ar_agent_id r = a"
  show "agent_pending (request_enqueue am req) a \<le> MAX_PENDING_PER_AGENT"
  proof (cases "ar_agent_id req = a")
    case True
    then show ?thesis
      using assms(2) filter_update_le [of ?P "ar_id req" req "am_pending am"]
      by (simp add: agent_pending_def request_admit_def)
  next
    case False
    then show ?thesis
      using assms(1) filter_update_other [of ?P "ar_id req" req "am_pending am"]
      by (simp add: agent_pending_def) (meson le_trans)
  qed
qed

section \<open>Requesters and operators, interleaved\<close>

text \<open>
  A requester is admitted (passed the limit check), then waits (its request is pending and
  its receiver open), then is done with a decision. An operator's \<open>resolve\<close> removes the
  pending entry and only afterwards sends the decision on the channel. \<open>sys_resolved\<close>
  records the calls of \<open>resolve\<close> that returned \<open>Ok\<close>, \<open>sys_used\<close> the request identifiers
  drawn so far; a new request draws a fresh one (\<^verbatim>\<open>Uuid::new_v4\<close>).
\<close>

record approval_sys =
  sys_am :: approval_manager
  sys_admitted :: "approval_request set"
  sys_waiting :: "uuid \<rightharpoonup> approval_request"
  sys_sending :: "uuid \<rightharpoonup> approval_decision"
  sys_inbox :: "uuid \<rightharpoonup> approval_decision"
  sys_done :: "(uuid \<times> approval_decision) list"
  sys_resolved :: "(uuid \<times> approval_decision) list"
  sys_used :: "uuid set"

definition approval_init :: "approval_policy \<Rightarrow> approval_sys" where
  "approval_init policy =
     \<lparr>sys_am = am_new policy, sys_admitted = {}, sys_waiting = Map.empty, sys_sending = Map.empty,
      sys_inbox = Map.empty, sys_done = [], sys_resolved = [], sys_used = {}\<rparr>"

inductive approval_step :: "approval_sys \<Rightarrow> approval_sys \<Rightarrow> bool" where
  rejected: "ar_id req \<notin> sys_used s \<Longrightarrow> \<not> request_admit (sys_am s) req \<Longrightarrow>
    approval_step s (s\<lparr>sys_used := insert (ar_id req) (sys_used s),
                        sys_done := (ar_id req, Denied) # sys_done s\<rparr>)"
| admitted: "ar_id req \<notin> sys_used s \<Longrightarrow> request_admit (sys_am s) req \<Longrightarrow>
    approval_step s (s\<lparr>sys_used := insert (ar_id req) (sys_used s),
                        sys_admitted := insert req (sys_admitted s)\<rparr>)"
| enqueued: "req \<in> sys_admitted s \<Longrightarrow>
    approval_step s (s\<lparr>sys_am := request_enqueue (sys_am s) req,
                        sys_admitted := sys_admitted s - {req},
                        sys_waiting := (sys_waiting s)(ar_id req \<mapsto> req)\<rparr>)"
| resolving: "resolve (sys_am s) i d who now = (Inr resp, am') \<Longrightarrow>
    approval_step s (s\<lparr>sys_am := am', sys_sending := (sys_sending s)(i \<mapsto> d),
                        sys_resolved := (i, d) # sys_resolved s\<rparr>)"
| sent: "sys_sending s i = Some d \<Longrightarrow>
    approval_step s (s\<lparr>sys_sending := (sys_sending s)(i := None),
                        sys_inbox := (if sys_waiting s i = None then sys_inbox s
                                      else (sys_inbox s)(i \<mapsto> d))\<rparr>)"
| received: "sys_waiting s i = Some req \<Longrightarrow> sys_inbox s i = Some d \<Longrightarrow>
    approval_step s (s\<lparr>sys_waiting := (sys_waiting s)(i := None),
                        sys_inbox := (sys_inbox s)(i := None),
                        sys_done := (i, d) # sys_done s\<rparr>)"
| expired: "sys_waiting s i = Some req \<Longrightarrow> sys_inbox s i = None \<Longrightarrow>
    approval_step s (s\<lparr>sys_am := request_timeout (sys_am s) req now,
                        sys_waiting := (sys_waiting s)(i := None),
                        sys_done := (i, TimedOut) # sys_done s\<rparr>)"
| reconfigured:
    "approval_step s (s\<lparr>sys_am := update_policy (sys_am s) policy\<rparr>)"

inductive approval_reachable :: "approval_policy \<Rightarrow> approval_sys \<Rightarrow> bool" for p where
  start: "approval_reachable p (approval_init p)"
| step: "approval_reachable p s \<Longrightarrow> approval_step s t \<Longrightarrow> approval_reachable p t"

text \<open>
  The invariant in three parts: identifiers are used once and a request is in one phase;
  a pending request has a waiting requester; decisions come from the operators.
\<close>

definition inv_ids :: "approval_sys \<Rightarrow> bool" where
  "inv_ids s \<longleftrightarrow>
     (\<forall>r\<in>sys_admitted s. ar_id r \<in> sys_used s \<and> sys_waiting s (ar_id r) = None
        \<and> ar_id r \<notin> fst ` set (sys_done s) \<and> ar_id r \<notin> fst ` set (sys_resolved s)
        \<and> (\<forall>r'\<in>sys_admitted s. ar_id r = ar_id r' \<longrightarrow> r = r'))
     \<and> (\<forall>i. sys_waiting s i \<noteq> None \<longrightarrow> i \<in> sys_used s \<and> i \<notin> fst ` set (sys_done s))
     \<and> fst ` set (sys_done s) \<subseteq> sys_used s \<and> fst ` set (sys_resolved s) \<subseteq> sys_used s
     \<and> distinct (map fst (sys_done s))"

definition inv_pending :: "approval_sys \<Rightarrow> bool" where
  "inv_pending s \<longleftrightarrow>
     (\<forall>i r. sys_waiting s i = Some r \<longrightarrow> ar_id r = i)
     \<and> (\<forall>i r. st_get (am_pending (sys_am s)) i = Some r \<longrightarrow>
          sys_waiting s i = Some r \<and> i \<notin> fst ` set (sys_resolved s))
     \<and> distinct (map fst (sys_resolved s))
     \<and> length (am_recent (sys_am s)) \<le> MAX_RECENT_APPROVALS"

definition inv_decisions :: "approval_sys \<Rightarrow> bool" where
  "inv_decisions s \<longleftrightarrow>
     (\<forall>i d. sys_sending s i = Some d \<longrightarrow> (i, d) \<in> set (sys_resolved s))
     \<and> (\<forall>i d. sys_inbox s i = Some d \<longrightarrow> (i, d) \<in> set (sys_resolved s))
     \<and> (\<forall>i. (i, Approved) \<in> set (sys_done s) \<longrightarrow> (i, Approved) \<in> set (sys_resolved s))"

definition approval_inv :: "approval_sys \<Rightarrow> bool" where
  "approval_inv s \<longleftrightarrow> inv_ids s \<and> inv_pending s \<and> inv_decisions s"

lemma approval_inv_init [inv_intros]: "approval_inv (approval_init p)"
  by (simp add: approval_inv_def inv_ids_def inv_pending_def inv_decisions_def
      approval_init_def am_new_def)

lemma update_policy_simps [simp]:
  "am_pending (update_policy am p) = am_pending am" "am_recent (update_policy am p) = am_recent am"
  by (simp_all add: update_policy_def)

lemma step_inv_ids: "approval_step s t \<Longrightarrow> inv_ids s \<Longrightarrow> inv_pending s \<Longrightarrow> inv_ids t"
proof (induction rule: approval_step.induct)
  case (rejected req s)
  then show ?case unfolding inv_ids_def by (simp add: subset_iff) metis
next
  case (admitted req s)
  then show ?case unfolding inv_ids_def by (simp add: subset_iff) (metis not_Some_eq)
next
  case (resolving s i d who now resp am')
  then obtain r where "sys_waiting s i = Some r" by (auto simp: resolve_ok_iff inv_pending_def)
  with resolving show ?case unfolding inv_ids_def by (simp add: subset_iff) (metis option.distinct(1))
next
  case (enqueued req s)
  then have "\<forall>r\<in>sys_admitted s. r \<noteq> req \<longrightarrow> ar_id r \<noteq> ar_id req"
    and "ar_id req \<in> sys_used s" "ar_id req \<notin> fst ` set (sys_done s)"
    unfolding inv_ids_def by metis+
  with enqueued show ?case unfolding inv_ids_def by simp
next
  case (received s i req d)
  then show ?case unfolding inv_ids_def by (simp add: subset_iff) (metis option.distinct(1))
next
  case (expired s i req now)
  then show ?case unfolding inv_ids_def by (simp add: subset_iff) (metis option.distinct(1))
qed (simp_all add: inv_ids_def)

lemma step_inv_pending:
  "approval_step s t \<Longrightarrow> inv_ids s \<Longrightarrow> inv_pending s \<Longrightarrow> inv_decisions s \<Longrightarrow> inv_pending t"
proof (induction rule: approval_step.induct)
  case (enqueued req s)
  then show ?case unfolding inv_ids_def inv_pending_def by (auto simp: al.get_put)
next
  case (resolving s i d who now resp am')
  then show ?case unfolding inv_pending_def resolve_ok_iff
    by (auto simp: al.get_del split: if_splits) (metis fst_conv imageI)+
next
  case (expired s i req now)
  then show ?case unfolding inv_pending_def by (auto simp: al.get_del split: if_splits)
next
  case (received s i req d)
  then have "i \<in> fst ` set (sys_resolved s)" unfolding inv_decisions_def by force
  then have "st_get (am_pending (sys_am s)) i = None"
    using received unfolding inv_pending_def by (metis not_Some_eq)
  with received show ?case unfolding inv_pending_def by auto
qed (simp_all add: inv_pending_def)

lemma step_inv_decisions: "approval_step s t \<Longrightarrow> inv_decisions s \<Longrightarrow> inv_decisions t"
  by (induction rule: approval_step.induct) (auto simp: inv_decisions_def)

lemma approval_step_inv [inv_intros]: "approval_step s t \<Longrightarrow> approval_inv s \<Longrightarrow> approval_inv t"
  by (simp add: approval_inv_def step_inv_ids step_inv_pending step_inv_decisions)

lemma approval_reachable_inv: "approval_reachable p s \<Longrightarrow> approval_inv s"
  by (induction rule: approval_reachable.induct) (auto intro: inv_intros)

lemma reachable_approved:
  "approval_reachable p s \<Longrightarrow> (i, Approved) \<in> set (sys_done s) \<Longrightarrow> (i, Approved) \<in> set (sys_resolved s)"
  using approval_reachable_inv [of p s] by (simp add: approval_inv_def inv_decisions_def)

text \<open>A crowd of requesters of one agent that all pass the limit check before any is queued.\<close>

definition crowd_request :: "nat \<Rightarrow> approval_request" where
  "crowd_request i =
     \<lparr>ar_id = i, ar_agent_id = ''a'', ar_tool_name = ''shell_exec'', ar_description = [],
      ar_action_summary = [], ar_risk_level = Critical, ar_requested_at = 0, ar_timeout_secs = 60\<rparr>"

lemma crowd_request_simps [simp]:
  "ar_id (crowd_request i) = i" "ar_agent_id (crowd_request i) = ''a''"
  by (simp_all add: crowd_request_def)

lemma crowd_admitted:
  "\<exists>s. approval_reachable p s \<and> sys_admitted s = crowd_request ` {..<n}
     \<and> am_pending (sys_am s) = [] \<and> sys_used s = {..<n}"
proof (induction n)
  case 0
  then show ?case
    using approval_reachable.start [of p]
    by (intro exI [of _ "approval_init p"]) (auto simp: approval_init_def am_new_def)
next
  case (Suc n)
  then obtain s where s: "approval_reachable p s" "sys_admitted s = crowd_request ` {..<n}"
    "am_pending (sys_am s) = []" "sys_used s = {..<n}" by blast
  then have "request_admit (sys_am s) (crowd_request n)"
    by (simp add: request_admit_def agent_pending_def MAX_PENDING_PER_AGENT_def)
  then have step: "approval_step s (s\<lparr>sys_used := insert n (sys_used s),
      sys_admitted := insert (crowd_request n) (sys_admitted s)\<rparr>)" (is "approval_step s ?t")
    using approval_step.admitted [of "crowd_request n" s] s(4) by simp
  then have "approval_reachable p ?t" using s(1) by (rule approval_reachable.step [rotated])
  with s(2-4) show ?case by (intro exI [of _ ?t]) (simp add: lessThan_Suc)
qed

lemma crowd_enqueued:
  assumes "approval_reachable p s" "sys_admitted s = crowd_request ` {..<k + n}"
    and "am_pending (sys_am s) = []" "k + n = m"
  shows "\<exists>t. approval_reachable p t \<and> sys_admitted t = crowd_request ` {..<n}
     \<and> map snd (am_pending (sys_am t)) = map crowd_request (rev [n..<m])
     \<and> map fst (am_pending (sys_am t)) = rev [n..<m]"
  using assms
proof (induction k arbitrary: n)
  case 0
  then show ?case by auto
next
  case (Suc k)
  from Suc.IH [of "Suc n"] Suc.prems obtain t where t: "approval_reachable p t"
    "sys_admitted t = crowd_request ` {..<Suc n}"
    "map snd (am_pending (sys_am t)) = map crowd_request (rev [Suc n..<m])"
    "map fst (am_pending (sys_am t)) = rev [Suc n..<m]" by auto
  let ?t = "t\<lparr>sys_am := request_enqueue (sys_am t) (crowd_request n),
     sys_admitted := sys_admitted t - {crowd_request n},
     sys_waiting := (sys_waiting t)(n \<mapsto> crowd_request n)\<rparr>"
  have "approval_reachable p ?t"
    using t approval_step.enqueued [of "crowd_request n" t] approval_reachable.step by auto
  moreover have "n \<notin> fst ` set (am_pending (sys_am t))"
    using t(4) by (metis atLeastLessThan_iff list.set_map not_less_eq_eq order_refl set_rev set_upt)
  then have "am_pending (sys_am ?t) = am_pending (sys_am t) @ [(n, crowd_request n)]"
    by (simp add: update_new)
  moreover have "inj crowd_request" by (metis crowd_request_simps(1) injI)
  then have "crowd_request ` {..<Suc n} - {crowd_request n} = crowd_request ` {..<n}"
    by (auto simp: inj_def lessThan_Suc)
  moreover have "[n..<m] = n # [Suc n..<m]" using Suc.prems by (simp add: upt_conv_Cons)
  ultimately show ?case using t by (intro exI [of _ ?t]) simp
qed

lemma crowd_pending: "\<exists>t. approval_reachable p t \<and> agent_pending (sys_am t) ''a'' = m"
proof -
  obtain s where "approval_reachable p s" "sys_admitted s = crowd_request ` {..<m}"
    "am_pending (sys_am s) = []" using crowd_admitted by blast
  from crowd_enqueued [of p s m 0 m] this obtain t where t: "approval_reachable p t"
    "map snd (am_pending (sys_am t)) = map crowd_request (rev [0..<m])" by auto
  have "\<forall>x\<in>set (am_pending (sys_am t)). ar_agent_id (snd x) = ''a''"
  proof
    fix x assume "x \<in> set (am_pending (sys_am t))"
    then have "snd x \<in> set (map crowd_request (rev [0..<m]))" using t(2) by (metis list.set_map imageI)
    then show "ar_agent_id (snd x) = ''a''" by auto
  qed
  then have "agent_pending (sys_am t) ''a'' = length (map snd (am_pending (sys_am t)))"
    by (simp add: agent_pending_def split_def)
  then show ?thesis using t by auto
qed

text \<open>
  Two runs of request 7: queued and approved by the operator; then the decision is sent and
  received, or the timeout fires before the decision is sent.
\<close>

definition run_resolving :: "approval_policy \<Rightarrow> approval_sys" where
  "run_resolving p =
     (approval_init p)\<lparr>sys_am := snd (resolve (request_enqueue (am_new p) (crowd_request 7)) 7 Approved None 0),
        sys_waiting := [7 \<mapsto> crowd_request 7], sys_sending := [7 \<mapsto> Approved],
        sys_resolved := [(7, Approved)], sys_used := {7}\<rparr>"

lemma run_resolving_reachable: "approval_reachable p (run_resolving p)"
proof -
  let ?r = "crowd_request 7"
  let ?s0 = "approval_init p"
  let ?s1 = "?s0\<lparr>sys_used := {7}, sys_admitted := {?r}\<rparr>"
  let ?s2 = "?s1\<lparr>sys_am := request_enqueue (am_new p) ?r, sys_admitted := {},
                  sys_waiting := [7 \<mapsto> ?r]\<rparr>"
  have 1: "approval_step ?s0 ?s1"
    using approval_step.admitted [of ?r ?s0]
    by (simp add: approval_init_def request_admit_def agent_pending_def am_new_def
        MAX_PENDING_PER_AGENT_def)
  have 2: "approval_step ?s1 ?s2"
    using approval_step.enqueued [of ?r ?s1] by (simp add: approval_init_def)
  have 3: "approval_step ?s2 (run_resolving p)"
    using approval_step.resolving [of ?s2 7 Approved None 0]
    by (simp add: approval_init_def am_new_def resolve_def run_resolving_def)
  show ?thesis
    by (rule approval_reachable.step [OF approval_reachable.step [OF approval_reachable.step
          [OF approval_reachable.start 1] 2] 3])
qed

lemma approved_run: "\<exists>s. approval_reachable p s \<and> (7, Approved) \<in> set (sys_done s)"
proof -
  let ?s3 = "run_resolving p"
  let ?s4 = "?s3\<lparr>sys_sending := Map.empty, sys_inbox := [7 \<mapsto> Approved]\<rparr>"
  let ?s5 = "?s4\<lparr>sys_waiting := Map.empty, sys_inbox := Map.empty, sys_done := [(7, Approved)]\<rparr>"
  have 4: "approval_step ?s3 ?s4"
    using approval_step.sent [of ?s3 7 Approved] by (simp add: approval_init_def run_resolving_def)
  have 5: "approval_step ?s4 ?s5"
    using approval_step.received [of ?s4 7 "crowd_request 7" Approved]
    by (simp add: approval_init_def run_resolving_def)
  have "approval_reachable p ?s5"
    by (rule approval_reachable.step [OF approval_reachable.step [OF run_resolving_reachable 4] 5])
  then show ?thesis by (intro exI [of _ ?s5]) simp
qed

lemma expired_run:
  "\<exists>s. approval_reachable p s \<and> (7, TimedOut) \<in> set (sys_done s)
     \<and> (7, Approved) \<in> set (sys_resolved s)
     \<and> map rec_decision (am_recent (sys_am s)) = [TimedOut, Approved]"
proof -
  let ?s3 = "run_resolving p"
  let ?s4 = "?s3\<lparr>sys_am := request_timeout (sys_am ?s3) (crowd_request 7) 0,
                  sys_waiting := Map.empty, sys_done := [(7, TimedOut)]\<rparr>"
  have "approval_step ?s3 ?s4"
    using approval_step.expired [of ?s3 7 "crowd_request 7" 0]
    by (simp add: approval_init_def run_resolving_def)
  then have "approval_reachable p ?s4" using run_resolving_reachable approval_reachable.step by blast
  then show ?thesis
    by (intro exI [of _ ?s4])
      (simp add: run_resolving_def approval_init_def am_new_def resolve_def request_timeout_def
        push_recent_def MAX_RECENT_APPROVALS_def)
qed

section \<open>Properties\<close>

text \<open>
  C15. Nothing is approved behind the operator's back: in every reachable state of the
  interleaved system, a requester that was told \<open>Approved\<close> corresponds to a call of
  \<open>resolve\<close> that returned \<open>Ok\<close> with \<open>Approved\<close> for that very request, every requester
  gets at most one decision, every request is resolved at most once, and every pending
  request still has its requester waiting.
\<close>

theorem approval_sound:
  assumes "approval_reachable p s"
  shows "((i, Approved) \<in> set (sys_done s) \<longrightarrow> (i, Approved) \<in> set (sys_resolved s))
    \<and> distinct (map fst (sys_done s)) \<and> distinct (map fst (sys_resolved s))
    \<and> (st_get (am_pending (sys_am s)) i = Some r \<longrightarrow> sys_waiting s i = Some r)
    \<and> length (am_recent (sys_am s)) \<le> MAX_RECENT_APPROVALS"
  using approval_reachable_inv [OF assms]
  by (simp add: approval_inv_def inv_ids_def inv_pending_def inv_decisions_def)

theorem approval_sound_witness:
  "\<exists>s :: approval_sys. (7, Approved) \<in> set (sys_done s) \<and> (7, Approved) \<in> set (sys_resolved s)"
proof -
  obtain s where "approval_reachable approval_policy_default s" "(7, Approved) \<in> set (sys_done s)"
    using approved_run by blast
  then show ?thesis using approval_sound [of approval_policy_default s 7] by blast
qed

text \<open>
  C16. No requester is stuck: in every reachable state a waiting requester has an enabled
  step (it receives the decision in its channel or its timeout fires) after which it is
  done.
\<close>

theorem approval_no_stuck_requester:
  assumes "approval_reachable p s" and "sys_waiting s i = Some r"
  shows "\<exists>t d. approval_step s t \<and> (i, d) \<in> set (sys_done t) \<and> sys_waiting t i = None
    \<and> st_get (am_pending (sys_am t)) i = None"
proof (cases "sys_inbox s i")
  case None
  have "ar_id r = i" using approval_reachable_inv [OF assms(1)] assms(2)
    by (simp add: approval_inv_def inv_pending_def)
  with approval_step.expired [OF assms(2) None, of 0] show ?thesis
    by (intro exI [of _ "s\<lparr>sys_am := request_timeout (sys_am s) r 0,
          sys_waiting := (sys_waiting s)(i := None), sys_done := (i, TimedOut) # sys_done s\<rparr>"]
        exI [of _ TimedOut]) (simp add: al.get_del)
next
  case (Some d)
  let ?t = "s\<lparr>sys_waiting := (sys_waiting s)(i := None), sys_inbox := (sys_inbox s)(i := None),
      sys_done := (i, d) # sys_done s\<rparr>"
  have step: "approval_step s ?t" using approval_step.received [OF assms(2) Some] .
  then have "approval_inv ?t" using assms(1) approval_reachable.step approval_reachable_inv by blast
  then have "\<forall>r. st_get (am_pending (sys_am ?t)) i = Some r \<longrightarrow> sys_waiting ?t i = Some r"
    unfolding approval_inv_def inv_pending_def by blast
  then have "st_get (am_pending (sys_am ?t)) i = None" by (cases "st_get (am_pending (sys_am ?t)) i") auto
  with step show ?thesis by (intro exI [of _ ?t] exI [of _ d]) simp
qed

theorem approval_no_stuck_requester_witness:
  "\<exists>t d. approval_step (run_resolving approval_policy_default) t \<and> (7, d) \<in> set (sys_done t)
     \<and> sys_waiting t 7 = None"
proof -
  have "sys_waiting (run_resolving approval_policy_default) 7 = Some (crowd_request 7)"
    by (simp add: run_resolving_def)
  from approval_no_stuck_requester [OF run_resolving_reachable this] show ?thesis by blast
qed

text \<open>
  The limit of five pending requests per agent is not enforced between concurrent
  requesters: the check and the insertion are separate steps, so for every number there is
  a reachable state in which one agent has that many pending requests.
\<close>

lemma pending_limit_not_enforced:
  "\<exists>t. approval_reachable p t \<and> agent_pending (sys_am t) ''a'' = 2 * MAX_PENDING_PER_AGENT"
  by (rule crowd_pending)

text \<open>
  A decision can be recorded twice: \<open>resolve\<close> removes the pending entry and records
  the approval before it sends the decision, so a timeout in between makes the requester
  return \<open>TimedOut\<close> although the operator's call returned \<open>Ok\<close>, and the history shows the
  same request both approved and timed out.
\<close>

lemma resolve_timeout_race:
  "\<exists>s. approval_reachable p s \<and> (7, TimedOut) \<in> set (sys_done s)
     \<and> (7, Approved) \<in> set (sys_resolved s)
     \<and> map rec_decision (am_recent (sys_am s)) = [TimedOut, Approved]"
  by (rule expired_run)

text \<open>
  A request is valid exactly when its tool name is a non-empty name of at most 64 bytes
  of alphanumeric characters and underscores, its texts are within their byte limits and
  its timeout is between 10 and 300 seconds; a policy is valid under the same rules for
  its timeout and for every tool it names.
\<close>

lemma approval_validation_exact:
  "(approval_request_validate uni r = Inr () \<longleftrightarrow>
     0 < length (ar_tool_name r) \<and> length (ar_tool_name r) \<le> 64 \<and> name_chars_ok uni (ar_tool_name r)
     \<and> length (ar_description r) \<le> 1024 \<and> length (ar_action_summary r) \<le> 512
     \<and> 10 \<le> ar_timeout_secs r \<and> ar_timeout_secs r \<le> 300)
   \<and> (approval_policy_validate uni p = Inr () \<longleftrightarrow>
     10 \<le> pol_timeout_secs p \<and> pol_timeout_secs p \<le> 300
     \<and> (\<forall>n. n \<in> set (require_approval p) \<longrightarrow>
          0 < length n \<and> length n \<le> 64 \<and> name_chars_ok uni n))"
  by (auto simp: request_validate_ok_iff approval_policy_validate_def validate_names_ok_iff approval_limits)

lemma approval_validation_exact_witness:
  "approval_request_validate (\<lambda>_. False) (crowd_request 1) = Inr ()"
proof -
  have "name_chars_ok (\<lambda>_. False) ''shell_exec''" by code_simp
  then show ?thesis
    using approval_validation_exact [of "\<lambda>_. False" "crowd_request 1"]
    by (simp add: crowd_request_def)
qed

end
