(* ===== verification/Loop_Guard.thy ===== *)
theory Loop_Guard
  imports Prelude
begin

text \<open>
  Tool-loop detection of the agent loop (\<^verbatim>\<open>crates/openfang-runtime/src/loop_guard.rs\<close>).

  The guard depends on code outside the repository: SHA-256, JSON printing and parsing, and
  the standard library's Unicode lower-casing. They are the fields of \<open>guard_env\<close>; the
  theorems hold for every choice of them. The counters are 32-bit in the source; they grow
  by one per call and are natural numbers here, \<open>saturating_mul\<close> and \<open>saturating_sub\<close>
  are written out.
\<close>

record guard_env =
  sha256_hex :: "string \<Rightarrow> string"
  json_to_string :: "json \<Rightarrow> string"
  json_from_str :: "string \<Rightarrow> json option"
  to_lowercase :: "string \<Rightarrow> string"

definition POLL_TOOLS :: "string list" where
  "POLL_TOOLS = [''shell_exec'']"

definition is_mcp_ainl_tool :: "string \<Rightarrow> bool" where
  "is_mcp_ainl_tool tool_name = starts_with tool_name ''mcp_ainl_''"

definition ainl_run_body_is_adapter_registration_failure :: "guard_env \<Rightarrow> string \<Rightarrow> bool" where
  "ainl_run_body_is_adapter_registration_failure env r =
     (if \<not> starts_with (trim_start r) ''{'' then False
      else case json_from_str env r of
        None \<Rightarrow> False
      | Some v \<Rightarrow>
          if Option.bind (json_get ''error_kind'' v) as_str = Some ''adapter_registration'' then True
          else (case Option.bind (json_get ''error'' v) as_str of
                  Some s \<Rightarrow> contains_str (to_ascii_lowercase s) ''adapter not registered''
                | None \<Rightarrow> False))"

definition LG_HISTORY_SIZE :: nat where
  "LG_HISTORY_SIZE = 30"

definition BACKOFF_SCHEDULE_MS :: "nat list" where
  "BACKOFF_SCHEDULE_MS = [5000, 10000, 30000, 60000]"

record loop_guard_config =
  warn_threshold :: nat
  block_threshold :: nat
  global_circuit_breaker :: nat
  poll_multiplier :: nat
  outcome_warn_threshold :: nat
  outcome_block_threshold :: nat
  ping_pong_min_repeats :: nat
  max_warnings_per_call :: nat

definition loop_guard_config_default :: loop_guard_config where
  "loop_guard_config_default =
     \<lparr>warn_threshold = 3, block_threshold = 5, global_circuit_breaker = 30, poll_multiplier = 3,
      outcome_warn_threshold = 2, outcome_block_threshold = 3, ping_pong_min_repeats = 3,
      max_warnings_per_call = 3\<rparr>"

text \<open>The texts of the verdicts, with what they are formatted from.\<close>

datatype guard_msg =
    ExceededTotal nat
  | IdenticalResults string
  | IdenticalCalls string nat
  | WarningsExhausted string nat
  | RepeatedCalls string nat
  | PingPong2 string string
  | PingPong3 string string string

datatype verdict = Allow | Warn guard_msg | Block guard_msg | CircuitBreak guard_msg

record loop_guard_stats =
  st_total_calls :: nat
  st_unique_calls :: nat
  st_blocked_calls :: nat
  st_ping_pong_detected :: bool
  st_most_repeated_tool :: "string option"
  st_most_repeated_count :: nat

record loop_guard =
  lg_config :: loop_guard_config
  call_counts :: "(string, nat) store"
  total_calls :: nat
  outcome_counts :: "(string, nat) store"
  blocked_outcomes :: "string list"
  recent_calls :: "string list"
  warnings_emitted :: "(string, nat) store"
  poll_counts :: "(string, nat) store"
  blocked_calls :: nat
  hash_to_tool :: "(string, string) store"

definition lg_new :: "loop_guard_config \<Rightarrow> loop_guard" where
  "lg_new config =
     \<lparr>lg_config = config, call_counts = [], total_calls = 0, outcome_counts = [],
      blocked_outcomes = [], recent_calls = [], warnings_emitted = [], poll_counts = [],
      blocked_calls = 0, hash_to_tool = []\<rparr>"

section \<open>Hashes\<close>

definition compute_hash :: "guard_env \<Rightarrow> string \<Rightarrow> json \<Rightarrow> string" where
  "compute_hash env tool_name params =
     sha256_hex env (tool_name @ ''|'' @ json_to_string env params)"

definition compute_outcome_hash :: "guard_env \<Rightarrow> string \<Rightarrow> json \<Rightarrow> string \<Rightarrow> string" where
  "compute_outcome_hash env tool_name params r =
     sha256_hex env (tool_name @ ''|'' @ json_to_string env params @ ''|'' @ truncate_str r 1000)"

section \<open>Polling and ping-pong\<close>

definition poll_words :: "string list" where
  "poll_words = [''status'', ''poll'', ''wait'', ''watch'', ''tail'', ''ps '', ''jobs'', ''pgrep'',
     ''docker ps'', ''kubectl get'']"

definition is_poll_call :: "guard_env \<Rightarrow> string \<Rightarrow> json \<Rightarrow> bool" where
  "is_poll_call env tool_name params =
     ((tool_name \<in> set POLL_TOOLS \<and>
       (case Option.bind (json_get ''command'' params) as_str of
          Some cmd \<Rightarrow> list_ex (contains_str (to_lowercase env cmd)) poll_words
        | None \<Rightarrow> False))
      \<or> (let params_str = to_lowercase env (json_to_string env params)
         in contains_str params_str ''status'' \<or> contains_str params_str ''poll''
            \<or> contains_str params_str ''wait''))"

definition tool_of_hash :: "loop_guard \<Rightarrow> string \<Rightarrow> string" where
  "tool_of_hash g h = (case st_get (hash_to_tool g) h of Some t \<Rightarrow> t | None \<Rightarrow> ''unknown'')"

definition detect_ping_pong_impl :: "loop_guard \<Rightarrow> guard_msg option" where
  "detect_ping_pong_impl g =
     (let r = recent_calls g; len = length r;
          tail6 = drop (len - 6) r; tail9 = drop (len - 9) r in
      if len \<ge> 6 \<and> tail6 ! 0 \<noteq> tail6 ! 1 \<and> tail6 ! 2 = tail6 ! 0 \<and> tail6 ! 3 = tail6 ! 1
         \<and> tail6 ! 4 = tail6 ! 0 \<and> tail6 ! 5 = tail6 ! 1
      then Some (PingPong2 (tool_of_hash g (tail6 ! 0)) (tool_of_hash g (tail6 ! 1)))
      else if len \<ge> 9 \<and> \<not> (tail9 ! 0 = tail9 ! 1 \<and> tail9 ! 1 = tail9 ! 2)
         \<and> tail9 ! 3 = tail9 ! 0 \<and> tail9 ! 4 = tail9 ! 1 \<and> tail9 ! 5 = tail9 ! 2
         \<and> tail9 ! 6 = tail9 ! 0 \<and> tail9 ! 7 = tail9 ! 1 \<and> tail9 ! 8 = tail9 ! 2
      then Some (PingPong3 (tool_of_hash g (tail9 ! 0)) (tool_of_hash g (tail9 ! 1))
                   (tool_of_hash g (tail9 ! 2)))
      else None)"

definition detect_ping_pong_pure :: "loop_guard \<Rightarrow> bool" where
  "detect_ping_pong_pure g = (detect_ping_pong_impl g \<noteq> None)"

text \<open>How often the pattern occurs ending at position \<open>i\<close>, going back by its length.\<close>

function repeats_back :: "string list \<Rightarrow> string list \<Rightarrow> nat \<Rightarrow> nat" where
  "repeats_back r pat i =
     (if pat \<noteq> [] \<and> length pat \<le> i \<and> take (length pat) (drop (i - length pat) r) = pat
      then Suc (repeats_back r pat (i - length pat)) else 0)"
  by pat_completeness auto
termination
  by (relation "measure (\<lambda>(r, pat, i). i)") (auto intro!: diff_less intro: less_le_trans [rotated])

declare repeats_back.simps [simp del]

definition count_ping_pong_repeats :: "loop_guard \<Rightarrow> nat" where
  "count_ping_pong_repeats g =
     (let r = recent_calls g; len = length r;
          two = drop (len - 2) r; three = drop (len - 3) r;
          n2 = (if len \<ge> 4 \<and> two ! 0 \<noteq> two ! 1 then repeats_back r two len else 0);
          n3 = (if len \<ge> 6 \<and> \<not> (three ! 0 = three ! 1 \<and> three ! 1 = three ! 2)
                then repeats_back r three len else 0)
      in if n2 \<ge> 2 then n2 else if n3 \<ge> 2 then n3 else 0)"

section \<open>The checks\<close>

definition count_of :: "(string, nat) store \<Rightarrow> string \<Rightarrow> nat" where
  "count_of m k = (case st_get m k of Some n \<Rightarrow> n | None \<Rightarrow> 0)"

text \<open>\<^verbatim>\<open>*m.entry(k).or_insert(0) += 1\<close>\<close>

definition bump :: "string \<Rightarrow> (string, nat) store \<Rightarrow> (string, nat) store" where
  "bump k m = st_put k (Suc (count_of m k)) m"

definition effective_multiplier :: "guard_env \<Rightarrow> loop_guard_config \<Rightarrow> string \<Rightarrow> json \<Rightarrow> nat" where
  "effective_multiplier env cfg tool_name params =
     (if is_poll_call env tool_name params \<or> is_mcp_ainl_tool tool_name then poll_multiplier cfg else 1)"

definition lg_block :: "guard_msg \<Rightarrow> loop_guard \<Rightarrow> verdict \<times> loop_guard" where
  "lg_block msg g = (Block msg, g\<lparr>blocked_calls := Suc (blocked_calls g)\<rparr>)"

text \<open>The bookkeeping before the thresholds: hash, tool name and recent calls.\<close>

definition lg_note_call :: "guard_env \<Rightarrow> string \<Rightarrow> json \<Rightarrow> loop_guard \<Rightarrow> loop_guard" where
  "lg_note_call env tool_name params g =
     (let hash = compute_hash env tool_name params in
      g\<lparr>hash_to_tool := (case st_get (hash_to_tool g) hash of
            Some _ \<Rightarrow> hash_to_tool g
          | None \<Rightarrow> st_put hash tool_name (hash_to_tool g)),
        recent_calls := ring_push LG_HISTORY_SIZE hash (recent_calls g)\<rparr>)"

text \<open>The part of the check after the per-hash thresholds.\<close>

definition lg_ping_pong :: "string \<Rightarrow> loop_guard \<Rightarrow> verdict \<times> loop_guard" where
  "lg_ping_pong hash g =
     (case detect_ping_pong_impl g of
        Some msg \<Rightarrow>
          if count_ping_pong_repeats g \<ge> ping_pong_min_repeats (lg_config g) then lg_block msg g
          else (let key = ''pingpong_'' @ hash;
                    g1 = g\<lparr>warnings_emitted := bump key (warnings_emitted g)\<rparr>
                in if count_of (warnings_emitted g1) key \<le> max_warnings_per_call (lg_config g)
                   then (Warn msg, g1) else (Allow, g1))
      | None \<Rightarrow> (Allow, g))"

definition lg_thresholds :: "guard_env \<Rightarrow> string \<Rightarrow> json \<Rightarrow> loop_guard \<Rightarrow> verdict \<times> loop_guard" where
  "lg_thresholds env tool_name params g =
     (let hash = compute_hash env tool_name params;
          g1 = g\<lparr>call_counts := bump hash (call_counts g)\<rparr>;
          count_val = count_of (call_counts g1) hash;
          multiplier = effective_multiplier env (lg_config g) tool_name params;
          effective_warn = warn_threshold (lg_config g) * multiplier;
          effective_block = block_threshold (lg_config g) * multiplier in
      if count_val \<ge> effective_block then lg_block (IdenticalCalls tool_name count_val) g1
      else if count_val \<ge> effective_warn then
        (let g2 = g1\<lparr>warnings_emitted := bump hash (warnings_emitted g1)\<rparr> in
         if count_of (warnings_emitted g2) hash > max_warnings_per_call (lg_config g)
            \<and> \<not> is_mcp_ainl_tool tool_name
         then lg_block (WarningsExhausted tool_name count_val) g2
         else (Warn (RepeatedCalls tool_name count_val), g2))
      else lg_ping_pong hash g1)"

definition lg_check :: "guard_env \<Rightarrow> string \<Rightarrow> json \<Rightarrow> loop_guard \<Rightarrow> verdict \<times> loop_guard" where
  "lg_check env tool_name params g =
     (let g0 = g\<lparr>total_calls := Suc (total_calls g)\<rparr> in
      if total_calls g0 > global_circuit_breaker (lg_config g) then
        (CircuitBreak (ExceededTotal (global_circuit_breaker (lg_config g))),
         g0\<lparr>blocked_calls := Suc (blocked_calls g0)\<rparr>)
      else
        (let g1 = lg_note_call env tool_name params g0 in
         if compute_hash env tool_name params \<in> set (blocked_outcomes g1)
         then lg_block (IdenticalResults tool_name) g1
         else lg_thresholds env tool_name params g1))"

definition u32_max :: nat where
  "u32_max = 2 ^ 32 - 1"

definition lg_record_outcome ::
  "guard_env \<Rightarrow> string \<Rightarrow> json \<Rightarrow> string \<Rightarrow> loop_guard \<Rightarrow> string option \<times> loop_guard" where
  "lg_record_outcome env tool_name params r g =
     (let outcome_hash = compute_outcome_hash env tool_name params r;
          call_hash = compute_hash env tool_name params;
          g1 = g\<lparr>outcome_counts := bump outcome_hash (outcome_counts g)\<rparr>;
          count_val = count_of (outcome_counts g1) outcome_hash;
          cfg = lg_config g;
          relatable = is_mcp_ainl_tool tool_name
            \<and> \<not> (tool_name = ''mcp_ainl_ainl_run''
                 \<and> ainl_run_body_is_adapter_registration_failure env r);
          block_th = (if relatable then min u32_max (outcome_block_threshold cfg * poll_multiplier cfg)
                      else outcome_block_threshold cfg);
          warn_th = (if relatable then max 1 (block_th - 1) else outcome_warn_threshold cfg) in
      if count_val \<ge> block_th then
        (Some tool_name, g1\<lparr>blocked_outcomes := List.insert call_hash (blocked_outcomes g1)\<rparr>)
      else if count_val \<ge> warn_th then (Some tool_name, g1)
      else (None, g1))"

definition get_poll_backoff ::
  "guard_env \<Rightarrow> string \<Rightarrow> json \<Rightarrow> loop_guard \<Rightarrow> nat option \<times> loop_guard" where
  "get_poll_backoff env tool_name params g =
     (if \<not> is_poll_call env tool_name params then (None, g)
      else
        (let hash = compute_hash env tool_name params;
             g1 = g\<lparr>poll_counts := bump hash (poll_counts g)\<rparr>;
             count = count_of (poll_counts g1) hash in
         if count \<le> 1 then (None, g1)
         else (let idx = count - 2 in
               (Some (if idx < length BACKOFF_SCHEDULE_MS then BACKOFF_SCHEDULE_MS ! idx
                      else last BACKOFF_SCHEDULE_MS), g1))))"

definition lg_stats :: "loop_guard \<Rightarrow> loop_guard_stats" where
  "lg_stats g =
     (let (tool, count) =
        fold (\<lambda>(h, c) (tool, best). if c > best then (st_get (hash_to_tool g) h, c) else (tool, best))
          (call_counts g) (None, 0) in
      \<lparr>st_total_calls = total_calls g, st_unique_calls = length (call_counts g),
       st_blocked_calls = blocked_calls g, st_ping_pong_detected = detect_ping_pong_pure g,
       st_most_repeated_tool = tool, st_most_repeated_count = count\<rparr>)"

section \<open>Lemmas\<close>

lemma count_of_bump [simp]:
  "count_of (bump k m) k' = (if k' = k then Suc (count_of m k) else count_of m k')"
  by (simp add: count_of_def bump_def al.get_put)

lemma lg_block_simps [simp]:
  "fst (lg_block msg g) = Block msg"
  "call_counts (snd (lg_block msg g)) = call_counts g"
  "total_calls (snd (lg_block msg g)) = total_calls g"
  "blocked_outcomes (snd (lg_block msg g)) = blocked_outcomes g"
  "recent_calls (snd (lg_block msg g)) = recent_calls g"
  "outcome_counts (snd (lg_block msg g)) = outcome_counts g"
  "lg_config (snd (lg_block msg g)) = lg_config g"
  by (simp_all add: lg_block_def)

lemma lg_note_call_simps [simp]:
  "call_counts (lg_note_call env t p g) = call_counts g"
  "total_calls (lg_note_call env t p g) = total_calls g"
  "blocked_outcomes (lg_note_call env t p g) = blocked_outcomes g"
  "outcome_counts (lg_note_call env t p g) = outcome_counts g"
  "lg_config (lg_note_call env t p g) = lg_config g"
  "recent_calls (lg_note_call env t p g) =
     ring_push LG_HISTORY_SIZE (compute_hash env t p) (recent_calls g)"
  by (simp_all add: lg_note_call_def Let_def)

lemma lg_ping_pong_simps [simp]:
  "call_counts (snd (lg_ping_pong h g)) = call_counts g"
  "total_calls (snd (lg_ping_pong h g)) = total_calls g"
  "blocked_outcomes (snd (lg_ping_pong h g)) = blocked_outcomes g"
  "recent_calls (snd (lg_ping_pong h g)) = recent_calls g"
  "lg_config (snd (lg_ping_pong h g)) = lg_config g"
  by (auto simp: lg_ping_pong_def Let_def split: option.splits)

lemma lg_thresholds_simps [simp]:
  "call_counts (snd (lg_thresholds env t p g)) = bump (compute_hash env t p) (call_counts g)"
  "total_calls (snd (lg_thresholds env t p g)) = total_calls g"
  "blocked_outcomes (snd (lg_thresholds env t p g)) = blocked_outcomes g"
  "recent_calls (snd (lg_thresholds env t p g)) = recent_calls g"
  "lg_config (snd (lg_thresholds env t p g)) = lg_config g"
  by (simp_all add: lg_thresholds_def Let_def)

lemma lg_check_simps [simp]:
  "total_calls (snd (lg_check env t p g)) = Suc (total_calls g)"
  "blocked_outcomes (snd (lg_check env t p g)) = blocked_outcomes g"
  "lg_config (snd (lg_check env t p g)) = lg_config g"
  by (simp_all add: lg_check_def Let_def)

definition executed :: "verdict \<Rightarrow> bool" where
  "executed v = (case v of Allow \<Rightarrow> True | Warn _ \<Rightarrow> True | _ \<Rightarrow> False)"

lemma executed_simps [simp]:
  "executed Allow" "executed (Warn m)" "\<not> executed (Block m)" "\<not> executed (CircuitBreak m)"
  by (simp_all add: executed_def)

text \<open>A check lets the call through only within every limit.\<close>

lemma lg_thresholds_executed:
  assumes "executed (fst (lg_thresholds env t p g))"
  shows "Suc (count_of (call_counts g) (compute_hash env t p))
     < block_threshold (lg_config g) * effective_multiplier env (lg_config g) t p"
  using assms by (auto simp: lg_thresholds_def Let_def split: if_splits)

lemma lg_check_executed:
  assumes "executed (fst (lg_check env t p g))"
  shows "total_calls g < global_circuit_breaker (lg_config g)"
    and "compute_hash env t p \<notin> set (blocked_outcomes g)"
    and "Suc (count_of (call_counts g) (compute_hash env t p))
       < block_threshold (lg_config g) * effective_multiplier env (lg_config g) t p"
    and "call_counts (snd (lg_check env t p g)) = bump (compute_hash env t p) (call_counts g)"
  using assms lg_thresholds_executed
  by (auto simp: lg_check_def Let_def split: if_splits dest: lg_thresholds_executed)

lemma lg_check_counts_mono:
  "count_of (call_counts g) h \<le> count_of (call_counts (snd (lg_check env t p g))) h"
  by (auto simp: lg_check_def Let_def)

lemma lg_record_outcome_simps [simp]:
  "call_counts (snd (lg_record_outcome env t p r g)) = call_counts g"
  "total_calls (snd (lg_record_outcome env t p r g)) = total_calls g"
  "lg_config (snd (lg_record_outcome env t p r g)) = lg_config g"
  by (auto simp: lg_record_outcome_def Let_def)

lemma lg_record_outcome_blocked_mono:
  "h \<in> set (blocked_outcomes g) \<Longrightarrow> h \<in> set (blocked_outcomes (snd (lg_record_outcome env t p r g)))"
  by (auto simp: lg_record_outcome_def Let_def)

lemma get_poll_backoff_simps [simp]:
  "call_counts (snd (get_poll_backoff env t p g)) = call_counts g"
  "total_calls (snd (get_poll_backoff env t p g)) = total_calls g"
  "lg_config (snd (get_poll_backoff env t p g)) = lg_config g"
  "blocked_outcomes (snd (get_poll_backoff env t p g)) = blocked_outcomes g"
  by (auto simp: get_poll_backoff_def Let_def)

subsection \<open>Runs of the guard\<close>

datatype guard_op =
    Check string json
  | Outcome string json string
  | Backoff string json

text \<open>A run of the guard, with the verdict of every check in order.\<close>

fun guard_run :: "guard_env \<Rightarrow> guard_op list \<Rightarrow> loop_guard \<Rightarrow> ((string \<times> json) \<times> verdict) list" where
  "guard_run env [] g = []"
| "guard_run env (Check t p # ops) g =
     ((t, p), fst (lg_check env t p g)) # guard_run env ops (snd (lg_check env t p g))"
| "guard_run env (Outcome t p r # ops) g = guard_run env ops (snd (lg_record_outcome env t p r g))"
| "guard_run env (Backoff t p # ops) g = guard_run env ops (snd (get_poll_backoff env t p g))"

definition executions :: "((string \<times> json) \<times> verdict) list \<Rightarrow> nat" where
  "executions tr = length (filter (\<lambda>(_, v). executed v) tr)"

definition executions_of :: "string \<times> json \<Rightarrow> ((string \<times> json) \<times> verdict) list \<Rightarrow> nat" where
  "executions_of c tr = length (filter (\<lambda>(c', v). c' = c \<and> executed v) tr)"

lemma executions_simps [simp]:
  "executions [] = 0"
  "executions ((c, v) # tr) = (if executed v then Suc (executions tr) else executions tr)"
  "executions_of c [] = 0"
  "executions_of c ((c', v) # tr) =
     (if c' = c \<and> executed v then Suc (executions_of c tr) else executions_of c tr)"
  by (simp_all add: executions_def executions_of_def)

lemma guard_run_breaker:
  "executions (guard_run env ops g) \<le> global_circuit_breaker (lg_config g) - total_calls g"
proof (induction env ops g rule: guard_run.induct)
  case (2 env t p ops g)
  then show ?case using lg_check_executed(1) [of env t p g] by auto
qed simp_all

lemma guard_run_identical:
  "executions_of (t, p) (guard_run env ops g)
     \<le> block_threshold (lg_config g) * effective_multiplier env (lg_config g) t p - 1
        - count_of (call_counts g) (compute_hash env t p)"
proof (induction env ops g rule: guard_run.induct)
  case (2 env t' p' ops g)
  show ?case
  proof (cases "t' = t \<and> p' = p \<and> executed (fst (lg_check env t' p' g))")
    case True
    then show ?thesis
      using "2" lg_check_executed(3,4) [of env t p g] by auto
  next
    case False
    then show ?thesis
      using "2" lg_check_counts_mono [of g "compute_hash env t p" env t' p'] by auto
  qed
qed simp_all

lemma guard_run_blocked:
  "compute_hash env t p \<in> set (blocked_outcomes g) \<Longrightarrow> executions_of (t, p) (guard_run env ops g) = 0"
proof (induction env ops g rule: guard_run.induct)
  case (2 env t' p' ops g)
  then show ?case using lg_check_executed(2) [of env t p g] by auto
next
  case (3 env t' p' r ops g)
  then show ?case by (simp add: lg_record_outcome_blocked_mono)
qed simp_all

subsection \<open>Ping-pong\<close>

lemma repeats_back_suffix:
  assumes "pat \<noteq> []"
  shows "repeats_back (xs @ pat @ ys) pat (length xs + length pat)
     = Suc (repeats_back (xs @ pat @ ys) pat (length xs))"
  using assms by (subst repeats_back.simps) simp

lemma length_6: "length t = 6 \<Longrightarrow> \<exists>a b c d e f. t = [a, b, c, d, e, f]"
  by (auto simp: length_Suc_conv numeral_eq_Suc)

lemma length_9: "length t = 9 \<Longrightarrow> \<exists>a b c d e f g h i. t = [a, b, c, d, e, f, g, h, i]"
  by (auto simp: length_Suc_conv numeral_eq_Suc)

lemma detected_pattern:
  assumes "detect_ping_pong_impl g = Some msg"
  obtains (two) xs a b where "recent_calls g = xs @ [a, b, a, b, a, b]" "a \<noteq> b"
    | (three) xs a b c where "recent_calls g = xs @ [a, b, c, a, b, c, a, b, c]" "\<not> (a = b \<and> b = c)"
proof -
  let ?r = "recent_calls g"
  define t6 where "t6 = drop (length ?r - 6) ?r"
  define t9 where "t9 = drop (length ?r - 9) ?r"
  have split: "?r = take (length ?r - 6) ?r @ t6" "?r = take (length ?r - 9) ?r @ t9"
    by (simp_all add: t6_def t9_def)
  consider "length ?r \<ge> 6" "t6 ! 0 \<noteq> t6 ! 1" "t6 ! 2 = t6 ! 0" "t6 ! 3 = t6 ! 1"
      "t6 ! 4 = t6 ! 0" "t6 ! 5 = t6 ! 1"
    | "length ?r \<ge> 9" "\<not> (t9 ! 0 = t9 ! 1 \<and> t9 ! 1 = t9 ! 2)" "t9 ! 3 = t9 ! 0" "t9 ! 4 = t9 ! 1"
      "t9 ! 5 = t9 ! 2" "t9 ! 6 = t9 ! 0" "t9 ! 7 = t9 ! 1" "t9 ! 8 = t9 ! 2"
    using assms unfolding detect_ping_pong_impl_def Let_def t6_def [symmetric] t9_def [symmetric]
    by (simp split: if_splits)
  then show thesis
  proof cases
    case 1
    then have "length t6 = 6" by (simp add: t6_def)
    with 1 obtain a b where "t6 = [a, b, a, b, a, b]" "a \<noteq> b" using length_6 by fastforce
    then show thesis using two split(1) by metis
  next
    case 2
    then have "length t9 = 9" by (simp add: t9_def)
    from length_9 [OF this] obtain a b c d e f x y z where t9: "t9 = [a, b, c, d, e, f, x, y, z]" by blast
    with 2 have "t9 = [a, b, c, a, b, c, a, b, c]" "\<not> (a = b \<and> b = c)" by simp_all
    then show thesis using three split(2) by metis
  qed
qed

lemma repeats_two: "a \<noteq> b \<Longrightarrow> 3 \<le> repeats_back (xs @ [a, b, a, b, a, b]) [a, b] (length xs + 6)"
  by (simp add: repeats_back.simps)

lemma repeats_three:
  "3 \<le> repeats_back (xs @ [a, b, c, a, b, c, a, b, c]) [a, b, c] (length xs + 9)"
  by (simp add: repeats_back.simps)

lemma repeats_two_in_three:
  "b \<noteq> c \<Longrightarrow> repeats_back (xs @ [a, b, c, a, b, c, a, b, c]) [b, c] (length xs + 9) = 1"
  by (subst repeats_back.simps, simp, subst repeats_back.simps, simp)

lemma detected_repeats:
  assumes "detect_ping_pong_impl g = Some msg"
  shows "3 \<le> count_ping_pong_repeats g"
  using assms
proof (cases rule: detected_pattern)
  case (two xs a b)
  define r where "r = recent_calls g"
  have "length r = length xs + 6" "drop (length r - 2) r = [a, b]" by (simp_all add: r_def two)
  moreover from this(1) have "3 \<le> repeats_back r [a, b] (length r)"
    using repeats_two [OF two(2), of xs] two(1) r_def by metis
  ultimately show ?thesis using two(2)
    unfolding count_ping_pong_repeats_def Let_def r_def [symmetric] by simp
next
  case (three xs a b c)
  define r where "r = recent_calls g"
  have len: "length r = length xs + 9" and tails: "drop (length r - 2) r = [b, c]"
    "drop (length r - 3) r = [a, b, c]" by (simp_all add: r_def three)
  from len have "3 \<le> repeats_back r [a, b, c] (length r)"
    using repeats_three [of xs a b c] three(1) r_def by metis
  moreover from len have "b \<noteq> c \<Longrightarrow> repeats_back r [b, c] (length r) = 1"
    using repeats_two_in_three [of b c xs a] three(1) r_def by metis
  ultimately show ?thesis using three(2) len tails
    unfolding count_ping_pong_repeats_def Let_def r_def [symmetric] by auto
qed

text \<open>The recent calls are a bounded log of the call hashes.\<close>

interpretation calls: bounded_log "ring_push LG_HISTORY_SIZE" "rev :: string list \<Rightarrow> string list" LG_HISTORY_SIZE
  by unfold_locales (simp add: LG_HISTORY_SIZE_def ring_push_items)

lemma lg_check_recent:
  "length (recent_calls g) \<le> LG_HISTORY_SIZE \<Longrightarrow>
     length (recent_calls (snd (lg_check env t p g))) \<le> LG_HISTORY_SIZE"
  using calls.push_bound [of "recent_calls g"] by (simp add: lg_check_def Let_def)

section \<open>Properties\<close>

text \<open>
  The agent loop is bounded: in any run of the guard (checks, outcomes and backoff
  queries in any order, any tools and parameters), at most \<open>global_circuit_breaker\<close>
  calls are let through.
\<close>

lemma guard_bounds_all_calls:
  "executions (guard_run env ops (lg_new cfg)) \<le> global_circuit_breaker cfg"
  using guard_run_breaker [of env ops "lg_new cfg"] by (simp add: lg_new_def)

text \<open>
  C17. Identical calls are bounded: in any run, one tool call (name and parameters) is let
  through fewer times than its effective block threshold, which is the block threshold,
  times the poll multiplier for polling and \<^verbatim>\<open>mcp_ainl_\<close> calls. Hash collisions cannot
  weaken the bound.
\<close>

theorem guard_bounds_identical_calls:
  "executions_of (t, p) (guard_run env ops (lg_new cfg))
     \<le> block_threshold cfg * (if is_poll_call env t p \<or> is_mcp_ainl_tool t then poll_multiplier cfg else 1) - 1"
  using guard_run_identical [of t p env ops "lg_new cfg"]
  by (simp add: lg_new_def count_of_def effective_multiplier_def)

text \<open>
  Outcome-aware blocking: once a call's outcome has been recorded often enough that
  the counter reaches the block threshold, no later check of that call is let through,
  whatever happens in between.
\<close>

lemma repeated_outcome_blocks:
  assumes "\<not> is_mcp_ainl_tool t"
    and "outcome_block_threshold (lg_config g)
           \<le> Suc (count_of (outcome_counts g) (compute_outcome_hash env t p r))"
  shows "executions_of (t, p) (guard_run env (Outcome t p r # ops) g) = 0"
proof -
  have "compute_hash env t p \<in> set (blocked_outcomes (snd (lg_record_outcome env t p r g)))"
    using assms by (simp add: lg_record_outcome_def Let_def)
  then show ?thesis by (simp add: guard_run_blocked)
qed

lemma repeated_outcome_blocks_witness:
  "executions_of (''file_read'', JNull)
     (guard_run \<lparr>sha256_hex = (\<lambda>s. s), json_to_string = (\<lambda>_. ''null''), json_from_str = (\<lambda>_. None),
                  to_lowercase = (\<lambda>s. s)\<rparr>
        [Outcome ''file_read'' JNull ''x'', Check ''file_read'' JNull]
        ((lg_new loop_guard_config_default)\<lparr>outcome_counts := [(''file_read|null|x'', 2)]\<rparr>)) = 0"
  by (rule repeated_outcome_blocks)
    (simp_all add: is_mcp_ainl_tool_def starts_with_def lg_new_def loop_guard_config_default_def
      compute_outcome_hash_def truncate_str_def count_of_def)

text \<open>
  A detected ping-pong is always at least three full repeats of the pattern, so under
  the default configuration the check blocks it at once; the branch that only warns about
  a ping-pong is never taken.
\<close>

lemma ping_pong_always_blocked:
  assumes "detect_ping_pong_impl g = Some msg" and "ping_pong_min_repeats (lg_config g) \<le> 3"
  shows "fst (lg_ping_pong h g) = Block msg"
  using detected_repeats [OF assms(1)] assms by (simp add: lg_ping_pong_def)

lemma ping_pong_always_blocked_witness:
  "fst (lg_ping_pong ''b'' ((lg_new loop_guard_config_default)\<lparr>recent_calls :=
       [''a'', ''b'', ''a'', ''b'', ''a'', ''b'']\<rparr>)) = Block (PingPong2 ''unknown'' ''unknown'')"
  by (rule ping_pong_always_blocked)
    (simp_all add: detect_ping_pong_impl_def lg_new_def loop_guard_config_default_def tool_of_hash_def)

end
