(* ===== verification/Tool_Policy.thy ===== *)
theory Tool_Policy
  imports Wildcard
begin

text \<open>
  Tool access control (\<^verbatim>\<open>crates/openfang-runtime/src/tool_policy.rs\<close>): deny-wins rules with
  glob patterns and tool groups, the nesting limit of subagents, and the depth-aware tool
  lists. The matcher of this file is a greedy left-to-right search with byte positions;
  it is proved equal to the reference \<open>wildcard\<close> on every pattern.
\<close>

datatype policy_effect = AllowTool | DenyTool

record tool_policy_rule =
  rule_pattern :: string
  rule_effect :: policy_effect

record tool_group =
  group_name :: string
  group_tools :: "string list"

record tool_policy =
  agent_rules :: "tool_policy_rule list"
  global_rules :: "tool_policy_rule list"
  groups :: "tool_group list"
  subagent_max_depth :: nat
  subagent_max_concurrent :: nat

text \<open>The derived \<^verbatim>\<open>Default\<close>: every field is the default of its type.\<close>

definition tool_policy_default :: tool_policy where
  "tool_policy_default =
     \<lparr>agent_rules = [], global_rules = [], groups = [], subagent_max_depth = 0,
      subagent_max_concurrent = 0\<rparr>"

definition tool_policy_is_empty :: "tool_policy \<Rightarrow> bool" where
  "tool_policy_is_empty p = (agent_rules p = [] \<and> global_rules p = [])"

datatype tool_access =
    Allowed
  | AccessDenied string string \<comment> \<open>the pattern and where it comes from\<close>
  | DepthExceeded nat nat

definition is_subagent_tool :: "string \<Rightarrow> bool" where
  "is_subagent_tool name = (name = ''agent_spawn'' \<or> name = ''agent_call'' \<or> name = ''spawn_agent'')"

section \<open>The matcher\<close>

text \<open>The loop over the parts of the pattern: \<open>n\<close> parts in all, \<open>i\<close> the index of the next one.\<close>

fun glob_loop :: "string \<Rightarrow> nat \<Rightarrow> nat \<Rightarrow> nat \<Rightarrow> string list \<Rightarrow> bool" where
  "glob_loop tx n i pos [] = True"
| "glob_loop tx n i pos (part # rest) =
     (if part = [] then glob_loop tx n (Suc i) pos rest
      else if i = 0 then
        (if \<not> starts_with tx part then False
         else glob_loop tx n (Suc i) (length part) rest)
      else if i = n - 1 then
        (if \<not> ends_with (drop pos tx) part then False
         else glob_loop tx n (Suc i) pos rest)
      else
        (case find_str part (drop pos tx) of
           Some found \<Rightarrow> glob_loop tx n (Suc i) (pos + found + length part) rest
         | None \<Rightarrow> False))"

definition glob_match :: "string \<Rightarrow> string \<Rightarrow> bool" where
  "glob_match pattern tx =
     (if pattern = ''*'' then True
      else if CHR ''*'' \<notin> set pattern then pattern = tx
      else
        (let parts = split_char CHR ''*'' pattern in
         if length parts = 2 then
           starts_with tx (parts ! 0) \<and> ends_with tx (parts ! 1)
           \<and> length tx \<ge> length (parts ! 0) + length (parts ! 1)
         else glob_loop tx (length parts) 0 0 parts))"

definition expand_groups :: "string \<Rightarrow> tool_group list \<Rightarrow> string list" where
  "expand_groups tool_name gs =
     tool_name # concat (map (\<lambda>g. map (\<lambda>_. CHR ''@'' # group_name g)
        (filter (\<lambda>pattern. glob_match pattern tool_name) (group_tools g))) gs)"

definition matches_pattern :: "string \<Rightarrow> string \<Rightarrow> string list \<Rightarrow> bool" where
  "matches_pattern pattern tool_name expanded =
     (if glob_match pattern tool_name then True
      else if starts_with pattern ''@'' then list_ex (\<lambda>e. e = pattern) expanded
      else False)"

section \<open>Resolution\<close>

definition resolve_tool_access :: "string \<Rightarrow> tool_policy \<Rightarrow> nat \<Rightarrow> tool_access" where
  "resolve_tool_access tool_name policy depth =
     (if is_subagent_tool tool_name \<and> depth > subagent_max_depth policy
      then DepthExceeded depth (subagent_max_depth policy)
      else
        (let expanded = expand_groups tool_name (groups policy);
             hit = (\<lambda>r. matches_pattern (rule_pattern r) tool_name expanded) in
         case find (\<lambda>r. rule_effect r = DenyTool \<and> hit r) (agent_rules policy) of
           Some r \<Rightarrow> AccessDenied (rule_pattern r) ''agent''
         | None \<Rightarrow>
         case find (\<lambda>r. rule_effect r = DenyTool \<and> hit r) (global_rules policy) of
           Some r \<Rightarrow> AccessDenied (rule_pattern r) ''global''
         | None \<Rightarrow>
         if list_ex (\<lambda>r. rule_effect r = AllowTool) (agent_rules policy)
            \<or> list_ex (\<lambda>r. rule_effect r = AllowTool) (global_rules policy)
         then
           (if list_ex (\<lambda>r. rule_effect r = AllowTool \<and> hit r) (agent_rules policy)
               \<or> list_ex (\<lambda>r. rule_effect r = AllowTool \<and> hit r) (global_rules policy)
            then Allowed
            else AccessDenied ''(not in any allow list)'' ''implicit_deny'')
         else Allowed))"

section \<open>Depth-aware tool lists\<close>

definition SUBAGENT_DENY_ALWAYS :: "string list" where
  "SUBAGENT_DENY_ALWAYS =
     [''cron_create'', ''cron_cancel'', ''schedule_create'', ''schedule_action_create'',
      ''schedule_delete'', ''hand_activate'', ''hand_deactivate'', ''process_start'', ''script_run'',
      ''workspace_action_set'', ''workspace_action_delete'', ''workspace_action'']"

definition SUBAGENT_DENY_LEAF :: "string list" where
  "SUBAGENT_DENY_LEAF = [''agent_spawn'', ''agent_kill'']"

definition filter_tools_by_depth :: "string list \<Rightarrow> nat \<Rightarrow> nat \<Rightarrow> string list" where
  "filter_tools_by_depth tools depth max_depth =
     (if depth = 0 then tools
      else
        (let is_leaf = (max_depth > 0 \<and> depth \<ge> max_depth - 1) in
         filter (\<lambda>n. if n \<in> set SUBAGENT_DENY_ALWAYS then False
                     else if is_leaf \<and> n \<in> set SUBAGENT_DENY_LEAF then False else True) tools))"

section \<open>The greedy search is the wildcard semantics\<close>

abbreviation join_star :: "string list \<Rightarrow> string" where
  "join_star \<equiv> join_char CHR ''*''"

text \<open>A part between two stars may be taken at its first occurrence.\<close>

lemma greedy_middle:
  assumes "CHR ''*'' \<notin> set part"
  shows "wildcard (CHR ''*'' # part @ CHR ''*'' # q) t \<longleftrightarrow>
    (case find_str part t of
       Some k \<Rightarrow> wildcard (CHR ''*'' # q) (drop (k + length part) t)
     | None \<Rightarrow> False)"
proof -
  have iff: "wildcard (CHR ''*'' # part @ CHR ''*'' # q) t \<longleftrightarrow>
    (\<exists>j. prefix part (drop j t) \<and> wildcard (CHR ''*'' # q) (drop (j + length part) t))"
    by (subst wildcard_star_iff) (simp add: wildcard_prefix [OF assms] add.commute)
  show ?thesis
  proof (cases "find_str part t")
    case None
    then have "\<not> prefix part (drop j t)" for j
      by (metis find_str_None append_take_drop_id prefix_def sublist_def)
    then show ?thesis using None iff by simp
  next
    case (Some k)
    from find_str_Some [OF this]
    have k: "prefix part (drop k t)" and least: "\<And>j. prefix part (drop j t) \<Longrightarrow> k \<le> j" by auto
    have "wildcard (CHR ''*'' # q) (drop (k + length part) t)"
      if "prefix part (drop j t)" "wildcard (CHR ''*'' # q) (drop (j + length part) t)" for j
      using wildcard_star_mono [OF that(2)] least [OF that(1)] by simp
    then show ?thesis using k Some iff by auto
  qed
qed

lemma glob_loop_wildcard:
  assumes "ps \<noteq> []" "\<forall>p\<in>set ps. CHR ''*'' \<notin> set p" "0 < i" "n = i + length ps"
  shows "glob_loop tx n i pos ps \<longleftrightarrow> wildcard (CHR ''*'' # join_star ps) (drop pos tx)"
  using assms
proof (induction ps arbitrary: i pos)
  case (Cons p ps)
  show ?case
  proof (cases ps)
    case Nil
    then show ?thesis using Cons.prems by (auto simp: wildcard_star ends_with_def)
  next
    case (Cons q qs)
    have IH: "glob_loop tx n (Suc i) pos' ps \<longleftrightarrow> wildcard (CHR ''*'' # join_star ps) (drop pos' tx)"
      for pos' using Cons.IH [of "Suc i" pos'] Cons.prems Cons by simp
    have free: "CHR ''*'' \<notin> set p" using Cons.prems by simp
    have join: "join_star (p # ps) = p @ CHR ''*'' # join_star ps" using Cons by simp
    show ?thesis
    proof (cases "p = []")
      case True
      then show ?thesis using IH join by simp
    next
      case False
      have "find_str p (drop pos tx) = Some k \<Longrightarrow>
        drop (k + length p) (drop pos tx) = drop (pos + k + length p) tx" for k
        by (simp add: add.assoc add.commute add.left_commute)
      then show ?thesis using False Cons Cons.prems IH greedy_middle [OF free, of "join_star ps" "drop pos tx"] join
        by (auto split: option.splits)
    qed
  qed
qed simp

lemma glob_match_wildcard: "glob_match pattern tx \<longleftrightarrow> wildcard pattern tx"
proof -
  let ?ps = "split_char CHR ''*'' pattern"
  consider "pattern = ''*''" | "CHR ''*'' \<notin> set pattern" | "pattern \<noteq> ''*''" "CHR ''*'' \<in> set pattern"
    by blast
  then show ?thesis
  proof cases
    case 1
    then show ?thesis by (simp add: glob_match_def)
  next
    case 2
    then show ?thesis by (auto simp: glob_match_def wildcard_literal)
  next
    case 3
    obtain p ps where ps: "?ps = p # ps" by (cases ?ps) auto
    have ne: "ps \<noteq> []"
      using 3(2) length_split_char [of "CHR ''*''" pattern] ps by (auto simp: count_list_0_iff)
    then have join: "pattern = p @ CHR ''*'' # join_star ps"
      using join_split_char [of "CHR ''*''" pattern] ps by (cases ps) auto
    have free: "CHR ''*'' \<notin> set p" "\<forall>q\<in>set ps. CHR ''*'' \<notin> set q"
      using split_char_free [of _ "CHR ''*''" pattern] ps by auto
    show ?thesis
    proof (cases "length ?ps = 2")
      case True
      then obtain q where "ps = [q]" using ps by (cases ps) auto
      then show ?thesis using 3 ps join free prefix_suffix_split [of p tx q]
        by (simp add: glob_match_def Let_def starts_with_def ends_with_def wildcard_one)
    next
      case False
      have "glob_loop tx (length ?ps) 0 0 ?ps \<longleftrightarrow>
          prefix p tx \<and> glob_loop tx (length ?ps) 1 (length p) ps"
        using ps by (auto simp: starts_with_def)
      also have "\<dots> \<longleftrightarrow> wildcard pattern tx"
        using glob_loop_wildcard [OF ne free(2), of 1 "length ?ps"] ps free(1) join
        by (simp add: wildcard_prefix)
      finally show ?thesis using 3 False by (simp add: glob_match_def Let_def)
    qed
  qed
qed

section \<open>What resolution decides\<close>

definition rule_hits :: "tool_policy \<Rightarrow> string \<Rightarrow> tool_policy_rule \<Rightarrow> bool" where
  "rule_hits policy tool_name r =
     matches_pattern (rule_pattern r) tool_name (expand_groups tool_name (groups policy))"

lemma in_expand_groups:
  "e \<in> set (expand_groups t gs) \<longleftrightarrow>
     e = t \<or> (\<exists>g\<in>set gs. e = CHR ''@'' # group_name g \<and> (\<exists>p\<in>set (group_tools g). wildcard p t))"
  by (auto simp: expand_groups_def glob_match_wildcard)

text \<open>A rule hits a tool by its pattern, or as a reference to a group the tool belongs to.\<close>

lemma rule_hits_iff:
  assumes "\<not> prefix ''@'' t"
  shows "rule_hits policy t r \<longleftrightarrow> wildcard (rule_pattern r) t
    \<or> (\<exists>g\<in>set (groups policy). rule_pattern r = CHR ''@'' # group_name g
         \<and> (\<exists>p\<in>set (group_tools g). wildcard p t))"
  using assms
  by (auto simp: rule_hits_def matches_pattern_def glob_match_wildcard list_ex_iff in_expand_groups
      starts_with_def)

lemma resolve_allowed_iff:
  "resolve_tool_access t policy depth = Allowed \<longleftrightarrow>
     \<not> (is_subagent_tool t \<and> depth > subagent_max_depth policy)
     \<and> (\<forall>r\<in>set (agent_rules policy) \<union> set (global_rules policy).
          rule_effect r = DenyTool \<longrightarrow> \<not> rule_hits policy t r)
     \<and> ((\<forall>r\<in>set (agent_rules policy) \<union> set (global_rules policy). rule_effect r \<noteq> AllowTool)
        \<or> (\<exists>r\<in>set (agent_rules policy) \<union> set (global_rules policy).
             rule_effect r = AllowTool \<and> rule_hits policy t r))"
  unfolding resolve_tool_access_def Let_def rule_hits_def [symmetric]
  by (auto simp: find_None_iff list_ex_iff dest: find_SomeD split: option.splits)

lemma filter_tools_by_depth_set:
  "0 < depth \<Longrightarrow> set (filter_tools_by_depth tools depth max_depth) =
     set tools - set SUBAGENT_DENY_ALWAYS
       - (if 0 < max_depth \<and> max_depth \<le> Suc depth then set SUBAGENT_DENY_LEAF else {})"
  by (auto simp: filter_tools_by_depth_def Let_def)

text \<open>Going deeper never returns a tool.\<close>

lemma filter_tools_by_depth_antimono:
  "depth \<le> depth' \<Longrightarrow>
     set (filter_tools_by_depth tools depth' m) \<subseteq> set (filter_tools_by_depth tools depth m)"
  by (auto simp: filter_tools_by_depth_def Let_def split: if_splits)

section \<open>Properties\<close>

text \<open>
  C18. The greedy matcher of the tool policy is correct and complete: for every pattern,
  with any number of stars, it accepts exactly the texts of the wildcard semantics.
\<close>

theorem glob_match_is_wildcard: "glob_match pattern tool_name = wildcard pattern tool_name"
  by (rule glob_match_wildcard)

text \<open>
  Deny wins: a tool is allowed exactly when the nesting limit does not apply to it, no
  deny rule of the agent or of the global layer hits it (by its pattern or through a
  group), and there is no allow rule at all or one that hits it. The order of the rules
  and the layer of an allow rule do not matter.
\<close>

lemma tool_access_deny_wins:
  assumes "\<not> prefix ''@'' t"
  shows "resolve_tool_access t policy depth = Allowed \<longleftrightarrow>
     \<not> (is_subagent_tool t \<and> depth > subagent_max_depth policy)
     \<and> (let rules = set (agent_rules policy) \<union> set (global_rules policy);
            hits = (\<lambda>r. wildcard (rule_pattern r) t
              \<or> (\<exists>g\<in>set (groups policy). rule_pattern r = CHR ''@'' # group_name g
                    \<and> (\<exists>p\<in>set (group_tools g). wildcard p t)))
        in (\<forall>r\<in>rules. rule_effect r = DenyTool \<longrightarrow> \<not> hits r)
           \<and> ((\<forall>r\<in>rules. rule_effect r \<noteq> AllowTool)
              \<or> (\<exists>r\<in>rules. rule_effect r = AllowTool \<and> hits r)))"
  unfolding resolve_allowed_iff Let_def rule_hits_iff [OF assms] ..

lemma tool_access_deny_wins_witness:
  "resolve_tool_access ''web_fetch''
     \<lparr>agent_rules = [\<lparr>rule_pattern = ''web_*'', rule_effect = AllowTool\<rparr>],
      global_rules = [\<lparr>rule_pattern = ''shell_*'', rule_effect = DenyTool\<rparr>], groups = [],
      subagent_max_depth = 10, subagent_max_concurrent = 5\<rparr> 0 = Allowed"
  by (subst tool_access_deny_wins) (simp_all add: is_subagent_tool_def)

text \<open>
  Two documented points the code does not implement: the default policy has nesting
  limit 0, not 10, so the first subagent already exceeds it; and an explicit allow rule
  does not take precedence over a wildcard deny rule.
\<close>

lemma tool_policy_documented_defaults_differ:
  "resolve_tool_access ''agent_spawn'' tool_policy_default 1 = DepthExceeded 1 0
   \<and> resolve_tool_access ''shell_exec''
       \<lparr>agent_rules = [\<lparr>rule_pattern = ''shell_exec'', rule_effect = AllowTool\<rparr>],
        global_rules = [\<lparr>rule_pattern = ''shell_*'', rule_effect = DenyTool\<rparr>], groups = [],
        subagent_max_depth = 10, subagent_max_concurrent = 5\<rparr> 0
     = AccessDenied ''shell_*'' ''global''"
  by code_simp

end
