(* ===== verification/Auth.thy ===== *)
theory Auth
  imports Prelude
begin

text \<open>
  Role-based access control (\<^verbatim>\<open>crates/openfang-kernel/src/auth.rs\<close>): users from the
  configuration, the index of their channel identities, and the authorisation of actions.
  The derived order of the roles is an instance of the library's linear orders. \<open>lc\<close> is the
  standard library's \<^verbatim>\<open>str::to_lowercase\<close>; the fresh user identifiers are arguments.
\<close>

section \<open>Roles and actions\<close>

datatype user_role = Viewer | User | Admin | Owner

fun role_rank :: "user_role \<Rightarrow> nat" where
  "role_rank Viewer = 0"
| "role_rank User = 1"
| "role_rank Admin = 2"
| "role_rank Owner = 3"

lemma role_rank_inj: "role_rank r = role_rank s \<longleftrightarrow> r = s"
  by (cases r; cases s) auto

instantiation user_role :: linorder
begin

definition less_eq_user_role :: "user_role \<Rightarrow> user_role \<Rightarrow> bool" where
  "less_eq_user_role r s = (role_rank r \<le> role_rank s)"

definition less_user_role :: "user_role \<Rightarrow> user_role \<Rightarrow> bool" where
  "less_user_role r s = (role_rank r < role_rank s)"

instance
  by standard (auto simp: less_eq_user_role_def less_user_role_def role_rank_inj)

end

definition user_role_str :: "user_role \<Rightarrow> string" where
  "user_role_str r =
     (case r of Viewer \<Rightarrow> ''viewer'' | User \<Rightarrow> ''user'' | Admin \<Rightarrow> ''admin'' | Owner \<Rightarrow> ''owner'')"

definition from_str_role :: "(string \<Rightarrow> string) \<Rightarrow> string \<Rightarrow> user_role" where
  "from_str_role lc s =
     (let l = lc s in
      if l = ''owner'' then Owner else if l = ''admin'' then Admin
      else if l = ''viewer'' then Viewer else User)"

datatype action =
    ChatWithAgent | SpawnAgent | KillAgent | InstallSkill
  | ViewConfig | ModifyConfig | ViewUsage | ManageUsers

fun required_role :: "action \<Rightarrow> user_role" where
  "required_role ChatWithAgent = User"
| "required_role ViewConfig = User"
| "required_role ViewUsage = Admin"
| "required_role SpawnAgent = Admin"
| "required_role KillAgent = Admin"
| "required_role InstallSkill = Admin"
| "required_role ModifyConfig = Owner"
| "required_role ManageUsers = Owner"

section \<open>The manager\<close>

record user_config =
  uc_name :: string
  uc_role :: string
  uc_channel_bindings :: "(string, string) store"
  uc_api_key_hash :: "string option"

record user_identity =
  ui_id :: uuid
  ui_name :: string
  ui_role :: user_role

record auth_manager =
  au_users :: "(uuid, user_identity) store"
  au_channel_index :: "(string, uuid) store"

datatype auth_error = UnknownUser | LacksPermission string user_role action user_role

definition channel_key :: "string \<Rightarrow> string \<Rightarrow> string" where
  "channel_key channel_type platform_id = channel_type @ '':'' @ platform_id"

definition register_user ::
  "(string \<Rightarrow> string) \<Rightarrow> uuid \<times> user_config \<Rightarrow> auth_manager \<Rightarrow> auth_manager" where
  "register_user lc = (\<lambda>(user_id, config) m.
     m\<lparr>au_users := st_put user_id
         \<lparr>ui_id = user_id, ui_name = uc_name config, ui_role = from_str_role lc (uc_role config)\<rparr>
         (au_users m),
       au_channel_index := fold (\<lambda>(channel_type, platform_id).
         st_put (channel_key channel_type platform_id) user_id)
         (uc_channel_bindings config) (au_channel_index m)\<rparr>)"

definition auth_new :: "(string \<Rightarrow> string) \<Rightarrow> (uuid \<times> user_config) list \<Rightarrow> auth_manager" where
  "auth_new lc configs = fold (register_user lc) configs \<lparr>au_users = [], au_channel_index = []\<rparr>"

definition identify :: "auth_manager \<Rightarrow> string \<Rightarrow> string \<Rightarrow> uuid option" where
  "identify m channel_type platform_id =
     st_get (au_channel_index m) (channel_key channel_type platform_id)"

definition get_user :: "auth_manager \<Rightarrow> uuid \<Rightarrow> user_identity option" where
  "get_user m user_id = st_get (au_users m) user_id"

definition authorize :: "auth_manager \<Rightarrow> uuid \<Rightarrow> action \<Rightarrow> (auth_error, unit) result" where
  "authorize m user_id a =
     (case st_get (au_users m) user_id of
        None \<Rightarrow> Inl UnknownUser
      | Some identity \<Rightarrow>
          if ui_role identity \<ge> required_role a then Inr ()
          else Inl (LacksPermission (ui_name identity) (ui_role identity) a (required_role a)))"

definition is_enabled :: "auth_manager \<Rightarrow> bool" where
  "is_enabled m = (au_users m \<noteq> [])"

definition user_count :: "auth_manager \<Rightarrow> nat" where
  "user_count m = length (au_users m)"

definition list_users :: "auth_manager \<Rightarrow> user_identity list" where
  "list_users m = map snd (au_users m)"

section \<open>Lemmas\<close>

lemma channel_key_inj:
  assumes "CHR '':'' \<notin> set ct" "CHR '':'' \<notin> set ct'"
  shows "channel_key ct p = channel_key ct' p' \<longleftrightarrow> ct = ct' \<and> p = p'"
proof
  assume eq: "channel_key ct p = channel_key ct' p'"
  then have "find_char CHR '':'' (ct @ CHR '':'' # p) = find_char CHR '':'' (ct' @ CHR '':'' # p')"
    by (simp add: channel_key_def)
  then have "length ct = length ct'" using assms by (simp add: find_char_append)
  then show "ct = ct' \<and> p = p'" using eq by (simp add: channel_key_def)
qed simp

definition colon_free :: "user_config \<Rightarrow> bool" where
  "colon_free c = list_all (\<lambda>(ct, _). CHR '':'' \<notin> set ct) (uc_channel_bindings c)"

lemma index_fold:
  assumes "list_all (\<lambda>(ct, _). CHR '':'' \<notin> set ct) bs" "CHR '':'' \<notin> set ct"
  shows "st_get (fold (\<lambda>(c, p). st_put (channel_key c p) u) bs idx) (channel_key ct pid)
     = (if (ct, pid) \<in> set bs then Some u else st_get idx (channel_key ct pid))"
  using assms
proof (induction bs arbitrary: idx)
  case (Cons b bs)
  obtain c p where b: "b = (c, p)" by (cases b)
  then show ?case using Cons channel_key_inj [of c ct p pid] by (auto simp: al.get_put)
qed simp

lemma identify_register:
  assumes "colon_free c" "CHR '':'' \<notin> set ct"
  shows "identify (register_user lc (u, c) m) ct pid
     = (if (ct, pid) \<in> set (uc_channel_bindings c) then Some u else identify m ct pid)"
  using index_fold [of "uc_channel_bindings c" ct u "au_channel_index m" pid] assms
  by (simp add: identify_def register_user_def colon_free_def)

lemma get_user_register:
  "get_user (register_user lc (u, c) m) v =
     (if v = u then Some \<lparr>ui_id = u, ui_name = uc_name c, ui_role = from_str_role lc (uc_role c)\<rparr>
      else get_user m v)"
  by (simp add: get_user_def register_user_def al.get_put)

text \<open>The user a channel identity belongs to: the last configured one that binds it.\<close>

definition bound_user :: "(uuid \<times> user_config) list \<Rightarrow> string \<Rightarrow> string \<Rightarrow> (uuid \<times> user_config) option" where
  "bound_user configs ct pid =
     find (\<lambda>(_, c). (ct, pid) \<in> set (uc_channel_bindings c)) (rev configs)"

lemma identify_auth_new:
  assumes "\<forall>(u, c)\<in>set configs. colon_free c" "CHR '':'' \<notin> set ct"
  shows "identify (auth_new lc configs) ct pid = map_option fst (bound_user configs ct pid)"
  using assms(1)
proof (induction configs rule: rev_induct)
  case Nil
  then show ?case by (simp add: auth_new_def bound_user_def identify_def)
next
  case (snoc x configs)
  obtain u c where x: "x = (u, c)" by (cases x)
  have "identify (auth_new lc (configs @ [x])) ct pid
      = identify (register_user lc (u, c) (auth_new lc configs)) ct pid"
    by (simp add: auth_new_def x)
  then show ?case using snoc assms(2) x by (simp add: identify_register bound_user_def)
qed

lemma get_user_auth_new:
  assumes "distinct (map fst configs)" "(u, c) \<in> set configs"
  shows "get_user (auth_new lc configs) u =
     Some \<lparr>ui_id = u, ui_name = uc_name c, ui_role = from_str_role lc (uc_role c)\<rparr>"
  using assms
proof (induction configs rule: rev_induct)
  case (snoc x configs)
  obtain v d where x: "x = (v, d)" by (cases x)
  have "get_user (auth_new lc (configs @ [x])) u = get_user (register_user lc (v, d) (auth_new lc configs)) u"
    by (simp add: auth_new_def x)
  then show ?case using snoc x by (auto simp: get_user_register rev_image_eqI)
qed simp

lemma authorize_ok_iff:
  "authorize m u a = Inr () \<longleftrightarrow> (\<exists>i. get_user m u = Some i \<and> required_role a \<le> ui_role i)"
  by (auto simp: authorize_def get_user_def split: option.splits)

section \<open>Properties\<close>

text \<open>
  End-to-end authorisation of a channel message: with channel types free of colons and
  distinct user identifiers, a platform identity may perform an action exactly when the
  last configured user that binds this channel type and platform id has a role at least
  as high as the action requires; an identity nobody binds is not identified at all.
\<close>

lemma channel_user_authorized:
  assumes "\<forall>(u, c)\<in>set configs. colon_free c" and "CHR '':'' \<notin> set ct"
    and "distinct (map fst configs)"
  shows "(\<exists>u. identify (auth_new lc configs) ct pid = Some u
            \<and> authorize (auth_new lc configs) u a = Inr ()) \<longleftrightarrow>
    (\<exists>u c. bound_user configs ct pid = Some (u, c)
            \<and> required_role a \<le> from_str_role lc (uc_role c))"
proof (cases "bound_user configs ct pid")
  case None
  then show ?thesis using identify_auth_new [OF assms(1,2), of lc pid] by simp
next
  case (Some x)
  obtain u c where x: "x = (u, c)" by (cases x)
  then have "(u, c) \<in> set configs" using Some by (auto simp: bound_user_def dest: find_SomeD)
  then show ?thesis
    using identify_auth_new [OF assms(1,2), of lc pid] get_user_auth_new [OF assms(3)] Some x
    by (simp add: authorize_ok_iff)
qed

lemma channel_user_authorized_witness:
  "\<exists>u. identify (auth_new (\<lambda>s. s) [(7, \<lparr>uc_name = ''Ann'', uc_role = ''admin'',
           uc_channel_bindings = [(''telegram'', ''42'')], uc_api_key_hash = None\<rparr>)]) ''telegram'' ''42'' = Some u
     \<and> authorize (auth_new (\<lambda>s. s) [(7, \<lparr>uc_name = ''Ann'', uc_role = ''admin'',
           uc_channel_bindings = [(''telegram'', ''42'')], uc_api_key_hash = None\<rparr>)]) u KillAgent = Inr ()"
  by (subst channel_user_authorized)
    (simp_all add: colon_free_def bound_user_def from_str_role_def Let_def less_eq_user_role_def)

end
