(* ===== verification/Supervisor.thy ===== *)
theory Supervisor
  imports Prelude
begin

text \<open>
  Process supervision (\<^verbatim>\<open>crates/openfang-kernel/src/supervisor.rs\<close>): the shutdown flag, the
  panic and restart counters and the restart limit of every agent. The watch channel of
  the shutdown signal is its current value; the atomic counters are natural numbers.
\<close>

record supervisor =
  sv_shutdown :: bool
  sv_restart_count :: nat
  sv_panic_count :: nat
  sv_agent_restarts :: "(agent_id, nat) store"

record supervisor_health =
  sh_is_shutting_down :: bool
  sh_panic_count :: nat
  sh_restart_count :: nat

definition sv_new :: supervisor where
  "sv_new = \<lparr>sv_shutdown = False, sv_restart_count = 0, sv_panic_count = 0, sv_agent_restarts = []\<rparr>"

definition shutdown :: "supervisor \<Rightarrow> supervisor" where
  "shutdown s = s\<lparr>sv_shutdown := True\<rparr>"

definition is_shutting_down :: "supervisor \<Rightarrow> bool" where
  "is_shutting_down s = sv_shutdown s"

definition record_panic :: "supervisor \<Rightarrow> supervisor" where
  "record_panic s = s\<lparr>sv_panic_count := Suc (sv_panic_count s)\<rparr>"

definition record_restart :: "supervisor \<Rightarrow> supervisor" where
  "record_restart s = s\<lparr>sv_restart_count := Suc (sv_restart_count s)\<rparr>"

definition agent_restart_count :: "supervisor \<Rightarrow> agent_id \<Rightarrow> nat" where
  "agent_restart_count s a = (case st_get (sv_agent_restarts s) a of Some n \<Rightarrow> n | None \<Rightarrow> 0)"

definition record_agent_restart ::
  "supervisor \<Rightarrow> agent_id \<Rightarrow> nat \<Rightarrow> (nat, nat) result \<times> supervisor" where
  "record_agent_restart s a max_restarts =
     (let count = Suc (agent_restart_count s a);
          s1 = record_restart (s\<lparr>sv_agent_restarts := st_put a count (sv_agent_restarts s)\<rparr>)
      in (if max_restarts > 0 \<and> count > max_restarts then Inl count else Inr count, s1))"

definition reset_agent_restarts :: "supervisor \<Rightarrow> agent_id \<Rightarrow> supervisor" where
  "reset_agent_restarts s a = s\<lparr>sv_agent_restarts := st_del a (sv_agent_restarts s)\<rparr>"

definition health :: "supervisor \<Rightarrow> supervisor_health" where
  "health s = \<lparr>sh_is_shutting_down = is_shutting_down s, sh_panic_count = sv_panic_count s,
     sh_restart_count = sv_restart_count s\<rparr>"

section \<open>Runs\<close>

datatype sv_op = Shutdown | Panic | Restart agent_id nat | Reset agent_id

fun sv_step :: "sv_op \<Rightarrow> supervisor \<Rightarrow> supervisor" where
  "sv_step Shutdown s = shutdown s"
| "sv_step Panic s = record_panic s"
| "sv_step (Restart a m) s = snd (record_agent_restart s a m)"
| "sv_step (Reset a) s = reset_agent_restarts s a"

lemma agent_restart_count_step:
  "agent_restart_count (sv_step x s) a =
     (case x of Restart b _ \<Rightarrow> if b = a then Suc (agent_restart_count s a) else agent_restart_count s a
      | Reset b \<Rightarrow> if b = a then 0 else agent_restart_count s a
      | _ \<Rightarrow> agent_restart_count s a)"
  by (cases x) (auto simp: agent_restart_count_def record_agent_restart_def record_restart_def
      reset_agent_restarts_def shutdown_def record_panic_def al.get_put al.get_del Let_def)

definition restarts_of :: "agent_id \<Rightarrow> sv_op list \<Rightarrow> nat" where
  "restarts_of a ops = length (filter (\<lambda>x. \<exists>m. x = Restart a m) ops)"

lemma agent_restart_count_run:
  "Reset a \<notin> set ops \<Longrightarrow>
     agent_restart_count (fold sv_step ops s) a = agent_restart_count s a + restarts_of a ops"
  by (induction ops arbitrary: s)
    (auto simp: agent_restart_count_step restarts_of_def split: sv_op.splits)

lemma counters_run:
  "sv_restart_count (fold sv_step ops s) =
     sv_restart_count s + length (filter (\<lambda>x. \<exists>a m. x = Restart a m) ops)"
  "sv_panic_count (fold sv_step ops s) = sv_panic_count s + length (filter (\<lambda>x. x = Panic) ops)"
proof (induction ops arbitrary: s)
  case (Cons x ops)
  {
    case 1
    show ?case using Cons(1) [of "sv_step x s"]
      by (cases x) (auto simp: record_agent_restart_def record_restart_def Let_def shutdown_def
          record_panic_def reset_agent_restarts_def)
  next
    case 2
    show ?case using Cons(2) [of "sv_step x s"]
      by (cases x) (auto simp: record_agent_restart_def record_restart_def Let_def shutdown_def
          record_panic_def reset_agent_restarts_def)
  }
qed simp_all

lemma shutdown_run: "is_shutting_down s \<Longrightarrow> is_shutting_down (fold sv_step ops s)"
proof (induction ops arbitrary: s)
  case (Cons x ops)
  then have "is_shutting_down (sv_step x s)"
    by (cases x) (auto simp: is_shutting_down_def record_agent_restart_def record_restart_def Let_def
        shutdown_def record_panic_def reset_agent_restarts_def)
  then show ?case using Cons.IH by simp
qed simp

section \<open>Properties\<close>

text \<open>
  The restart limit: after any history, the next restart of an agent is accepted
  exactly when the limit is disabled (0) or the agent was restarted fewer than
  \<open>max_restarts\<close> times since its counter was last reset, whatever happened to the other
  agents in between; the reported count is that number plus one.
\<close>

lemma restart_limit_exact:
  assumes "Reset a \<notin> set since"
  shows "fst (record_agent_restart (fold sv_step (before @ Reset a # since) sv_new) a max_restarts) =
    (if max_restarts = 0 \<or> restarts_of a since < max_restarts
     then Inr (Suc (restarts_of a since)) else Inl (Suc (restarts_of a since)))"
proof -
  have "agent_restart_count (fold sv_step (before @ Reset a # since) sv_new) a = restarts_of a since"
    using agent_restart_count_run [OF assms] by (simp add: agent_restart_count_def
        reset_agent_restarts_def al.get_del)
  then show ?thesis by (auto simp: record_agent_restart_def Let_def)
qed

lemma restart_limit_exact_witness:
  "fst (record_agent_restart (fold sv_step ([Restart 1 2] @ Reset 1 # [Restart 1 2, Restart 2 2, Restart 1 2]) sv_new) 1 2)
     = Inl 3"
  by (subst restart_limit_exact) (simp_all add: restarts_of_def)

end
