(* ===== verification/Agent_Scheduler.thy ===== *)
theory Agent_Scheduler
  imports Prelude
begin

text \<open>
  The token quotas of the agents (\<^verbatim>\<open>crates/openfang-kernel/src/scheduler.rs\<close>): a usage tracker
  with an hourly window per agent. Instants are milliseconds of the monotonic clock; the
  64-bit counters are natural numbers. A task handle is the number of its task, and
  aborting one records the number.
\<close>

record token_usage =
  input_tokens :: nat
  output_tokens :: nat
  cache_creation_input_tokens :: nat
  cache_read_input_tokens :: nat

definition token_total :: "token_usage \<Rightarrow> nat" where
  "token_total u = input_tokens u + output_tokens u"

record usage_tracker =
  total_tokens :: nat
  tool_calls :: nat
  window_start :: nat

record resource_quota =
  max_memory_bytes :: nat
  max_cpu_time_ms :: nat
  max_tool_calls_per_minute :: nat
  max_llm_tokens_per_hour :: nat
  max_network_bytes_per_hour :: nat
  max_cost_per_hour_usd :: f64
  max_cost_per_day_usd :: f64
  max_cost_per_month_usd :: f64
  max_subagents :: nat
  max_spawn_depth :: nat

definition resource_quota_default :: resource_quota where
  "resource_quota_default =
     \<lparr>max_memory_bytes = 256 * 1024 * 1024, max_cpu_time_ms = 30000,
      max_tool_calls_per_minute = 60, max_llm_tokens_per_hour = 0,
      max_network_bytes_per_hour = 100 * 1024 * 1024, max_cost_per_hour_usd = Finite 0,
      max_cost_per_day_usd = Finite 0, max_cost_per_month_usd = Finite 0,
      max_subagents = 0, max_spawn_depth = 0\<rparr>"

record agent_scheduler =
  as_quotas :: "(agent_id, resource_quota) store"
  as_usage :: "(agent_id, usage_tracker) store"
  as_tasks :: "(agent_id, nat) store"
  as_aborted :: "nat list"

datatype quota_error = QuotaExceeded nat nat

definition tracker_default :: "nat \<Rightarrow> usage_tracker" where
  "tracker_default now = \<lparr>total_tokens = 0, tool_calls = 0, window_start = now\<rparr>"

definition HOUR_MS :: nat where
  "HOUR_MS = 3600 * 1000"

definition reset_if_expired :: "nat \<Rightarrow> usage_tracker \<Rightarrow> usage_tracker" where
  "reset_if_expired now t =
     (if now - window_start t \<ge> HOUR_MS
      then t\<lparr>total_tokens := 0, tool_calls := 0, window_start := now\<rparr> else t)"

definition as_new :: agent_scheduler where
  "as_new = \<lparr>as_quotas = [], as_usage = [], as_tasks = [], as_aborted = []\<rparr>"

definition register :: "nat \<Rightarrow> agent_id \<Rightarrow> resource_quota \<Rightarrow> agent_scheduler \<Rightarrow> agent_scheduler" where
  "register now a quota s =
     s\<lparr>as_quotas := st_put a quota (as_quotas s),
       as_usage := st_put a (tracker_default now) (as_usage s)\<rparr>"

text \<open>\<^verbatim>\<open>get_mut\<close> on the usage map.\<close>

definition modify_tracker ::
  "agent_id \<Rightarrow> (usage_tracker \<Rightarrow> usage_tracker) \<Rightarrow> agent_scheduler \<Rightarrow> agent_scheduler" where
  "modify_tracker a f s =
     (case st_get (as_usage s) a of
        Some t \<Rightarrow> s\<lparr>as_usage := st_put a (f t) (as_usage s)\<rparr>
      | None \<Rightarrow> s)"

definition record_usage :: "nat \<Rightarrow> agent_id \<Rightarrow> token_usage \<Rightarrow> agent_scheduler \<Rightarrow> agent_scheduler" where
  "record_usage now a usage =
     modify_tracker a (\<lambda>t. let t1 = reset_if_expired now t
       in t1\<lparr>total_tokens := total_tokens t1 + token_total usage\<rparr>)"

definition check_quota ::
  "nat \<Rightarrow> agent_id \<Rightarrow> agent_scheduler \<Rightarrow> (quota_error, unit) result \<times> agent_scheduler" where
  "check_quota now a s =
     (case st_get (as_quotas s) a of
        None \<Rightarrow> (Inr (), s)
      | Some quota \<Rightarrow>
          (case st_get (as_usage s) a of
             None \<Rightarrow> (Inr (), s)
           | Some t \<Rightarrow>
               (let t1 = reset_if_expired now t;
                    s1 = s\<lparr>as_usage := st_put a t1 (as_usage s)\<rparr> in
                if max_llm_tokens_per_hour quota > 0
                   \<and> total_tokens t1 > max_llm_tokens_per_hour quota
                then (Inl (QuotaExceeded (total_tokens t1) (max_llm_tokens_per_hour quota)), s1)
                else (Inr (), s1))))"

definition reset_usage :: "nat \<Rightarrow> agent_id \<Rightarrow> agent_scheduler \<Rightarrow> agent_scheduler" where
  "reset_usage now a =
     modify_tracker a (\<lambda>t. t\<lparr>total_tokens := 0, tool_calls := 0, window_start := now\<rparr>)"

definition abort_task :: "agent_id \<Rightarrow> agent_scheduler \<Rightarrow> agent_scheduler" where
  "abort_task a s =
     (case st_get (as_tasks s) a of
        Some h \<Rightarrow> s\<lparr>as_tasks := st_del a (as_tasks s), as_aborted := as_aborted s @ [h]\<rparr>
      | None \<Rightarrow> s)"

definition unregister :: "agent_id \<Rightarrow> agent_scheduler \<Rightarrow> agent_scheduler" where
  "unregister a s =
     (let s1 = abort_task a s in
      s1\<lparr>as_quotas := st_del a (as_quotas s1), as_usage := st_del a (as_usage s1)\<rparr>)"

definition get_usage :: "agent_id \<Rightarrow> agent_scheduler \<Rightarrow> (nat \<times> nat) option" where
  "get_usage a s = map_option (\<lambda>t. (total_tokens t, tool_calls t)) (st_get (as_usage s) a)"

definition token_headroom :: "nat \<Rightarrow> agent_id \<Rightarrow> agent_scheduler \<Rightarrow> nat option \<times> agent_scheduler" where
  "token_headroom now a s =
     (case st_get (as_quotas s) a of
        None \<Rightarrow> (None, s)
      | Some quota \<Rightarrow>
          if max_llm_tokens_per_hour quota = 0 then (None, s)
          else (case st_get (as_usage s) a of
             None \<Rightarrow> (None, s)
           | Some t \<Rightarrow>
               (let t1 = reset_if_expired now t in
                (Some (max_llm_tokens_per_hour quota - total_tokens t1),
                 s\<lparr>as_usage := st_put a t1 (as_usage s)\<rparr>))))"

section \<open>Lemmas\<close>

lemma modify_tracker_get:
  "st_get (as_usage (modify_tracker a f s)) b =
     (if b = a then map_option f (st_get (as_usage s) a) else st_get (as_usage s) b)"
  by (auto simp: modify_tracker_def al.get_put split: option.splits)

lemma modify_tracker_quotas [simp]: "as_quotas (modify_tracker a f s) = as_quotas s"
  by (simp add: modify_tracker_def split: option.splits)

lemma reset_within: "now - window_start t < HOUR_MS \<Longrightarrow> reset_if_expired now t = t"
  by (simp add: reset_if_expired_def)

text \<open>The uses of one window add up; uses of other agents do not count.\<close>

lemma record_usage_run:
  assumes "st_get (as_usage s) a = Some t"
    and "\<forall>(now, b, u)\<in>set uses. b = a \<longrightarrow> now - window_start t < HOUR_MS"
  shows "st_get (as_usage (fold (\<lambda>(now, b, u). record_usage now b u) uses s)) a =
     Some (t\<lparr>total_tokens := total_tokens t + (\<Sum>(now, b, u)\<leftarrow>uses. if b = a then token_total u else 0)\<rparr>)"
  using assms
proof (induction uses arbitrary: s t)
  case (Cons x uses)
  obtain now b u where x: "x = (now, b, u)" by (cases x)
  show ?case
  proof (cases "b = a")
    case True
    let ?t = "t\<lparr>total_tokens := total_tokens t + token_total u\<rparr>"
    have "now - window_start t < HOUR_MS" using Cons.prems(2) x True by simp
    then have "st_get (as_usage (record_usage now a u s)) a = Some ?t"
      using Cons.prems(1) by (simp add: record_usage_def modify_tracker_get reset_within Let_def)
    from Cons.IH [OF this] Cons.prems(2) x True show ?thesis by (simp add: add.assoc)
  next
    case False
    then have "st_get (as_usage (record_usage now b u s)) a = Some t"
      using Cons.prems(1) by (simp add: record_usage_def modify_tracker_get)
    from Cons.IH [OF this] Cons.prems(2) x False show ?thesis by simp
  qed
qed simp

lemma record_usage_run_quotas:
  "as_quotas (fold (\<lambda>(now, b, u). record_usage now b u) uses s) = as_quotas s"
  by (induction uses arbitrary: s) (auto simp: record_usage_def)

lemma register_simps [simp]:
  "st_get (as_quotas (register now a q s)) a = Some q"
  "st_get (as_usage (register now a q s)) a = Some (tracker_default now)"
  by (simp_all add: register_def al.get_put)

section \<open>Properties\<close>

text \<open>
  The hourly token quota: after an agent is registered and within its first hour, the
  quota check fails exactly when the agent has a limit and the tokens recorded for it since
  exceed the limit, whatever is recorded for other agents; once the hour is over the check
  succeeds again.
\<close>

lemma token_quota_window:
  assumes "\<forall>(now, b, u)\<in>set uses. b = a \<longrightarrow> now - start < HOUR_MS"
  shows "fst (check_quota now a (fold (\<lambda>(now, b, u). record_usage now b u) uses (register start a q s))) =
    (let used = (\<Sum>(now, b, u)\<leftarrow>uses. if b = a then token_total u else 0)
     in if now - start < HOUR_MS \<and> 0 < max_llm_tokens_per_hour q \<and> max_llm_tokens_per_hour q < used
        then Inl (QuotaExceeded used (max_llm_tokens_per_hour q)) else Inr ())"
proof -
  let ?s = "fold (\<lambda>(now, b, u). record_usage now b u) uses (register start a q s)"
  have "st_get (as_usage ?s) a =
    Some ((tracker_default start)\<lparr>total_tokens := \<Sum>(now, b, u)\<leftarrow>uses. if b = a then token_total u else 0\<rparr>)"
    using record_usage_run [OF register_simps(2), of uses a start q s] assms
    by (simp add: tracker_default_def)
  moreover have "st_get (as_quotas ?s) a = Some q" by (simp add: record_usage_run_quotas)
  ultimately show ?thesis
    by (auto simp: check_quota_def Let_def tracker_default_def reset_if_expired_def)
qed

lemma token_quota_window_witness:
  "fst (check_quota 1000 1 (fold (\<lambda>(now, b, u). record_usage now b u)
      [(10, 1, \<lparr>input_tokens = 600, output_tokens = 500, cache_creation_input_tokens = 0,
                cache_read_input_tokens = 0\<rparr>)]
      (register 0 1 (resource_quota_default\<lparr>max_llm_tokens_per_hour := 1000\<rparr>) as_new))) = Inl (QuotaExceeded 1100 1000)"
  by (subst token_quota_window) (simp_all add: HOUR_MS_def token_total_def Let_def)

end
