(* ===== verification/Provider_Cooldown.thy ===== *)
theory Provider_Cooldown
  imports Prelude
begin

text \<open>
  The provider circuit breaker (\<^verbatim>\<open>crates/openfang-runtime/src/auth_cooldown.rs\<close>). Instants and
  durations are milliseconds; \<^verbatim>\<open>Instant::elapsed\<close> saturates at zero, as the subtraction of
  natural numbers does. The exponential backoff is computed in floating point: \<open>scale b m e\<close>
  stands for \<^verbatim>\<open>(b as f64 * m.powi(e)) as u64\<close> and is a parameter; \<open>exact_scale\<close> is the exact
  value for integer multipliers, which is what the float computation returns on the default
  configuration.
\<close>

type_synonym scale_fn = "nat \<Rightarrow> rat \<Rightarrow> nat \<Rightarrow> nat"

definition exact_scale :: scale_fn where
  "exact_scale b m e = nat \<lfloor>of_nat b * m ^ e\<rfloor>"

record cooldown_config =
  base_cooldown_secs :: nat
  max_cooldown_secs :: nat
  backoff_multiplier :: rat
  max_exponent :: nat
  billing_base_cooldown_secs :: nat
  billing_max_cooldown_secs :: nat
  billing_multiplier :: rat
  failure_window_secs :: nat
  probe_enabled :: bool
  probe_interval_secs :: nat

definition cooldown_config_default :: cooldown_config where
  "cooldown_config_default =
     \<lparr>base_cooldown_secs = 60, max_cooldown_secs = 3600, backoff_multiplier = 5, max_exponent = 3,
      billing_base_cooldown_secs = 18000, billing_max_cooldown_secs = 86400, billing_multiplier = 2,
      failure_window_secs = 86400, probe_enabled = True, probe_interval_secs = 30\<rparr>"

datatype circuit_state = Closed | Open | HalfOpen

record provider_state =
  error_count :: nat
  is_billing :: bool
  cooldown_start :: "nat option"
  cooldown_duration :: nat
  last_probe :: "nat option"
  total_errors_in_window :: nat
  ps_window_start :: "nat option"

definition ps_new :: provider_state where
  "ps_new = \<lparr>error_count = 0, is_billing = False, cooldown_start = None, cooldown_duration = 0,
     last_probe = None, total_errors_in_window = 0, ps_window_start = None\<rparr>"

datatype cooldown_verdict = Allow | AllowProbe | Reject bool nat nat
  \<comment> \<open>a rejection carries: billing, the error count, seconds to wait\<close>

record provider_snapshot =
  snap_provider :: string
  snap_state :: circuit_state
  snap_error_count :: nat
  snap_is_billing :: bool
  snap_cooldown_remaining_secs :: "nat option"

definition calculate_cooldown :: "scale_fn \<Rightarrow> cooldown_config \<Rightarrow> nat \<Rightarrow> bool \<Rightarrow> nat" where
  "calculate_cooldown scale cfg errors billing =
     (if billing then
        (let exponent = min (errors - 1) 10;
             secs = scale (billing_base_cooldown_secs cfg) (billing_multiplier cfg) exponent
         in 1000 * min secs (billing_max_cooldown_secs cfg))
      else
        (let exponent = min (errors - 1) (max_exponent cfg);
             secs = scale (base_cooldown_secs cfg) (backoff_multiplier cfg) exponent
         in 1000 * min secs (max_cooldown_secs cfg)))"

record provider_cooldown =
  pc_config :: cooldown_config
  pc_states :: "(string, provider_state) store"

definition pc_new :: "cooldown_config \<Rightarrow> provider_cooldown" where
  "pc_new cfg = \<lparr>pc_config = cfg, pc_states = []\<rparr>"

definition pc_check :: "nat \<Rightarrow> provider_cooldown \<Rightarrow> string \<Rightarrow> cooldown_verdict" where
  "pc_check now pc provider =
     (case st_get (pc_states pc) provider of
        None \<Rightarrow> Allow
      | Some st \<Rightarrow>
          (case cooldown_start st of
             None \<Rightarrow> Allow
           | Some start \<Rightarrow>
               (let elapsed = now - start in
                if elapsed < cooldown_duration st then
                  (if probe_enabled (pc_config pc)
                      \<and> (case last_probe st of
                           Some p \<Rightarrow> now - p \<ge> 1000 * probe_interval_secs (pc_config pc)
                         | None \<Rightarrow> True)
                   then AllowProbe
                   else Reject (is_billing st) (error_count st)
                          ((cooldown_duration st - elapsed) div 1000))
                else AllowProbe)))"

definition modify_state ::
  "string \<Rightarrow> (provider_state \<Rightarrow> provider_state) \<Rightarrow> provider_cooldown \<Rightarrow> provider_cooldown" where
  "modify_state provider f pc =
     (case st_get (pc_states pc) provider of
        Some st \<Rightarrow> pc\<lparr>pc_states := st_put provider (f st) (pc_states pc)\<rparr>
      | None \<Rightarrow> pc)"

definition entry_or_new :: "provider_cooldown \<Rightarrow> string \<Rightarrow> provider_state" where
  "entry_or_new pc provider =
     (case st_get (pc_states pc) provider of Some st \<Rightarrow> st | None \<Rightarrow> ps_new)"

definition record_success :: "string \<Rightarrow> provider_cooldown \<Rightarrow> provider_cooldown" where
  "record_success provider =
     modify_state provider (\<lambda>st. st\<lparr>error_count := 0, is_billing := False, cooldown_start := None,
       cooldown_duration := 0, last_probe := None\<rparr>)"

definition U32_MAX :: nat where "U32_MAX = 2 ^ 32 - 1"

definition sat_succ :: "nat \<Rightarrow> nat" where
  "sat_succ n = min U32_MAX (Suc n)"

definition record_failure ::
  "scale_fn \<Rightarrow> nat \<Rightarrow> string \<Rightarrow> bool \<Rightarrow> provider_cooldown \<Rightarrow> provider_cooldown" where
  "record_failure scale now provider billing pc =
     (let st = entry_or_new pc provider;
          st1 = (case ps_window_start st of
                   Some ws \<Rightarrow>
                     if now - ws \<ge> 1000 * failure_window_secs (pc_config pc)
                     then st\<lparr>total_errors_in_window := 0, ps_window_start := Some now\<rparr> else st
                 | None \<Rightarrow> st\<lparr>ps_window_start := Some now\<rparr>);
          st2 = st1\<lparr>error_count := sat_succ (error_count st1),
                    total_errors_in_window := sat_succ (total_errors_in_window st1),
                    is_billing := billing\<rparr>;
          st3 = st2\<lparr>cooldown_start := Some now,
                    cooldown_duration := calculate_cooldown scale (pc_config pc) (error_count st2) billing\<rparr>
      in pc\<lparr>pc_states := st_put provider st3 (pc_states pc)\<rparr>)"

definition record_probe_result ::
  "scale_fn \<Rightarrow> nat \<Rightarrow> string \<Rightarrow> bool \<Rightarrow> provider_cooldown \<Rightarrow> provider_cooldown" where
  "record_probe_result scale now provider success pc =
     (if success then record_success provider pc
      else modify_state provider (\<lambda>st.
        let n = sat_succ (error_count st)
        in st\<lparr>last_probe := Some now, error_count := n, cooldown_start := Some now,
              cooldown_duration := calculate_cooldown scale (pc_config pc) n (is_billing st)\<rparr>) pc)"

definition circuit_of :: "nat \<Rightarrow> provider_state \<Rightarrow> circuit_state" where
  "circuit_of now st =
     (case cooldown_start st of
        None \<Rightarrow> Closed
      | Some start \<Rightarrow>
          if now - start < cooldown_duration st then Open
          else if error_count st > 0 then HalfOpen else Closed)"

definition get_state :: "nat \<Rightarrow> provider_cooldown \<Rightarrow> string \<Rightarrow> circuit_state" where
  "get_state now pc provider =
     (case st_get (pc_states pc) provider of None \<Rightarrow> Closed | Some st \<Rightarrow> circuit_of now st)"

definition snapshot :: "nat \<Rightarrow> provider_cooldown \<Rightarrow> provider_snapshot list" where
  "snapshot now pc =
     map (\<lambda>(provider, st).
       \<lparr>snap_provider = provider, snap_state = circuit_of now st, snap_error_count = error_count st,
        snap_is_billing = is_billing st,
        snap_cooldown_remaining_secs =
          (case cooldown_start st of
             Some start \<Rightarrow>
               if now - start < cooldown_duration st
               then Some ((cooldown_duration st - (now - start)) div 1000) else None
           | None \<Rightarrow> None)\<rparr>) (pc_states pc)"

definition clear_expired :: "nat \<Rightarrow> provider_cooldown \<Rightarrow> provider_cooldown" where
  "clear_expired now pc =
     (let to_remove = map fst (filter (\<lambda>(_, st).
        case cooldown_start st of
          Some start \<Rightarrow> now - start \<ge> cooldown_duration st \<and> error_count st = 0
        | None \<Rightarrow> False) (pc_states pc))
      in pc\<lparr>pc_states := fold st_del to_remove (pc_states pc)\<rparr>)"

definition force_reset :: "string \<Rightarrow> provider_cooldown \<Rightarrow> provider_cooldown" where
  "force_reset provider pc = pc\<lparr>pc_states := st_del provider (pc_states pc)\<rparr>"

section \<open>Auth profile rotation\<close>

record auth_profile =
  prof_name :: string
  api_key_env :: string
  priority :: nat

definition profile_key :: "string \<Rightarrow> string \<Rightarrow> string" where
  "profile_key provider name = provider @ ''::'' @ name"

definition profile_in_cooldown :: "nat \<Rightarrow> provider_cooldown \<Rightarrow> string \<Rightarrow> auth_profile \<Rightarrow> bool" where
  "profile_in_cooldown now pc provider profile =
     (case st_get (pc_states pc) (profile_key provider (prof_name profile)) of
        None \<Rightarrow> False
      | Some s \<Rightarrow>
          (case cooldown_start s of
             Some start \<Rightarrow> now - start < cooldown_duration s
           | None \<Rightarrow> False))"

definition select_profile ::
  "nat \<Rightarrow> provider_cooldown \<Rightarrow> string \<Rightarrow> auth_profile list \<Rightarrow> (string \<times> string) option" where
  "select_profile now pc provider profiles =
     (case profiles of
        [] \<Rightarrow> None
      | first # _ \<Rightarrow>
          (case find (\<lambda>p. \<not> profile_in_cooldown now pc provider p) (sort_key priority profiles) of
             Some p \<Rightarrow> Some (prof_name p, api_key_env p)
           | None \<Rightarrow> Some (prof_name first, api_key_env first)))"

definition advance_profile ::
  "scale_fn \<Rightarrow> nat \<Rightarrow> string \<Rightarrow> string \<Rightarrow> bool \<Rightarrow> provider_cooldown \<Rightarrow> provider_cooldown" where
  "advance_profile scale now provider failed_profile billing pc =
     (let key = profile_key provider failed_profile;
          st = entry_or_new pc key;
          n = sat_succ (error_count st)
      in pc\<lparr>pc_states := st_put key
           (st\<lparr>error_count := n, is_billing := billing, cooldown_start := Some now,
               cooldown_duration := calculate_cooldown scale (pc_config pc) n billing\<rparr>)
           (pc_states pc)\<rparr>)"

section \<open>Runs\<close>

datatype pc_op =
    Success string
  | Failure nat string bool
  | ProbeResult nat string bool
  | ClearExpired nat
  | ForceReset string
  | AdvanceProfile nat string string bool

fun pc_step :: "scale_fn \<Rightarrow> pc_op \<Rightarrow> provider_cooldown \<Rightarrow> provider_cooldown" where
  "pc_step scale (Success p) pc = record_success p pc"
| "pc_step scale (Failure now p b) pc = record_failure scale now p b pc"
| "pc_step scale (ProbeResult now p ok) pc = record_probe_result scale now p ok pc"
| "pc_step scale (ClearExpired now) pc = clear_expired now pc"
| "pc_step scale (ForceReset p) pc = force_reset p pc"
| "pc_step scale (AdvanceProfile now p f b) pc = advance_profile scale now p f b pc"

text \<open>
  What holds of every entry of the map: while it has a cooldown its error count is positive,
  and its cooldown is within the configured maximum.
\<close>

definition entry_ok :: "cooldown_config \<Rightarrow> provider_state \<Rightarrow> bool" where
  "entry_ok cfg st \<longleftrightarrow>
     (cooldown_start st \<noteq> None \<longrightarrow> 0 < error_count st)
     \<and> cooldown_duration st \<le> 1000 * max (max_cooldown_secs cfg) (billing_max_cooldown_secs cfg)"

definition pc_inv :: "provider_cooldown \<Rightarrow> bool" where
  "pc_inv pc \<longleftrightarrow>
     (\<forall>p st. st_get (pc_states pc) p = Some st \<longrightarrow> entry_ok (pc_config pc) st) \<and> st_wf (pc_states pc)"

lemma calculate_cooldown_bound:
  "calculate_cooldown scale cfg n b \<le> 1000 * max (max_cooldown_secs cfg) (billing_max_cooldown_secs cfg)"
  by (auto simp: calculate_cooldown_def Let_def)

lemma sat_succ_pos [simp]: "0 < sat_succ n"
  by (simp add: sat_succ_def U32_MAX_def)

lemma pc_inv_put:
  "pc_inv pc \<Longrightarrow> entry_ok (pc_config pc) st \<Longrightarrow> pc_inv (pc\<lparr>pc_states := st_put p st (pc_states pc)\<rparr>)"
  by (auto simp: pc_inv_def al.get_put al.wf_put)

lemma pc_inv_modify:
  "pc_inv pc \<Longrightarrow> (\<And>st. entry_ok (pc_config pc) st \<Longrightarrow> entry_ok (pc_config pc) (f st)) \<Longrightarrow>
     pc_inv (modify_state p f pc)"
  by (auto simp: modify_state_def pc_inv_def al.get_put al.wf_put split: option.splits if_splits)

lemma config_step [simp]: "pc_config (pc_step scale x pc) = pc_config pc"
  by (cases x) (auto simp: record_success_def record_failure_def record_probe_result_def modify_state_def
      clear_expired_def force_reset_def advance_profile_def Let_def split: option.splits)

lemma pc_step_inv [inv_intros]: "pc_inv pc \<Longrightarrow> pc_inv (pc_step scale x pc)"
proof (cases x)
  case (Success p)
  assume "pc_inv pc"
  then show ?thesis
    unfolding Success pc_step.simps record_success_def by (rule pc_inv_modify) (simp add: entry_ok_def)
next
  case (ProbeResult now p ok)
  assume inv: "pc_inv pc"
  have "pc_inv (record_success p pc)" using inv unfolding record_success_def
    by (rule pc_inv_modify) (simp add: entry_ok_def)
  moreover have "pc_inv (record_probe_result scale now p False pc)" using inv
    unfolding record_probe_result_def if_False
    by (rule pc_inv_modify) (simp add: entry_ok_def Let_def calculate_cooldown_bound)
  ultimately show ?thesis unfolding ProbeResult by (cases ok) (simp_all add: record_probe_result_def)
qed (auto simp: record_failure_def advance_profile_def Let_def entry_ok_def calculate_cooldown_bound
     clear_expired_def force_reset_def pc_inv_def fold_del_get fold_del_wf al.get_del al.wf_del al.get_put al.wf_put)

lemma pc_run_config [simp]: "pc_config (fold (pc_step scale) ops pc) = pc_config pc"
  by (induction ops arbitrary: pc) auto

lemma pc_inv_new [inv_intros]: "pc_inv (pc_new cfg)"
  by (simp add: pc_inv_def pc_new_def)

interpretation cool: run_from "pc_step scale" "\<lambda>_. True" pc_inv "pc_new cfg" for scale cfg
  by unfold_locales (auto intro: inv_intros)

text \<open>Without a failed probe result no entry ever has a probe time.\<close>

definition never_probed :: "provider_cooldown \<Rightarrow> bool" where
  "never_probed pc \<longleftrightarrow> (\<forall>p st. st_get (pc_states pc) p = Some st \<longrightarrow> last_probe st = None)"

definition no_failed_probe :: "pc_op \<Rightarrow> bool" where
  "no_failed_probe x = (case x of ProbeResult _ _ ok \<Rightarrow> ok | _ \<Rightarrow> True)"

lemma never_probed_entry: "never_probed pc \<Longrightarrow> last_probe (entry_or_new pc p) = None"
  by (auto simp: never_probed_def entry_or_new_def ps_new_def split: option.splits)

lemma never_probed_step [inv_intros]: "never_probed pc \<Longrightarrow> no_failed_probe x \<Longrightarrow> never_probed (pc_step scale x pc)"
  using never_probed_entry [of pc]
  by (cases x) (auto simp: never_probed_def no_failed_probe_def record_success_def record_failure_def
      record_probe_result_def modify_state_def clear_expired_def force_reset_def advance_profile_def
      Let_def al.get_put al.get_del fold_del_get split: option.splits if_splits)

lemma never_probed_new [inv_intros]: "never_probed (pc_new cfg)"
  by (simp add: never_probed_def pc_new_def)

interpretation unprobed: run_from "pc_step scale" no_failed_probe never_probed "pc_new cfg"
  for scale cfg
  by unfold_locales (auto intro: inv_intros)

lemma clear_expired_inv_id:
  assumes "pc_inv pc"
  shows "clear_expired now pc = pc"
proof -
  have "filter (\<lambda>(_, st). case cooldown_start st of
          Some start \<Rightarrow> now - start \<ge> cooldown_duration st \<and> error_count st = 0
        | None \<Rightarrow> False) (pc_states pc) = []"
  proof (rule filter_False, rule ballI)
    fix e assume "e \<in> set (pc_states pc)"
    then have "entry_ok (pc_config pc) (snd e)"
      using assms al.entries_get [of "pc_states pc" "fst e" "snd e"] by (simp add: pc_inv_def)
    then show "\<not> (case e of (_, st) \<Rightarrow> case cooldown_start st of
          Some start \<Rightarrow> now - start \<ge> cooldown_duration st \<and> error_count st = 0
        | None \<Rightarrow> False)"
      by (auto simp: entry_ok_def split: option.splits)
  qed
  then show ?thesis by (simp add: clear_expired_def Let_def)
qed

lemma find_sorted_least:
  assumes "find P (sort_key f xs) = Some x" "y \<in> set xs" "P y"
  shows "f x \<le> f y"
proof -
  let ?s = "sort_key f xs"
  obtain i where i: "i < length ?s" "?s ! i = x" "\<forall>j<i. \<not> P (?s ! j)"
    using assms(1) by (auto simp: find_Some_iff)
  obtain j where j: "j < length ?s" "?s ! j = y" using assms(2) by (metis in_set_conv_nth set_sort)
  then have "i \<le> j" using i(3) assms(3) by (metis not_less)
  then have "map f ?s ! i \<le> map f ?s ! j" using j(1) by (intro sorted_nth_mono) auto
  then show ?thesis using i j by simp
qed

section \<open>Properties\<close>

text \<open>
  The circuit breaker never rejects a request in the way it is used: the agent loop
  reports outcomes only through \<open>record_success\<close> and \<open>record_failure\<close>, and along any run
  without a failed \<open>record_probe_result\<close>, with probing enabled as it is by default, every
  check of every provider lets the request through, however many failures were recorded.
\<close>

lemma breaker_never_rejects_without_probe_results:
  assumes "probe_enabled cfg" and "list_all no_failed_probe ops"
  shows "pc_check now (fold (pc_step scale) ops (pc_new cfg)) provider \<in> {Allow, AllowProbe}"
proof -
  let ?pc = "fold (pc_step scale) ops (pc_new cfg)"
  have "never_probed ?pc" using unprobed.reached_inv [OF assms(2)] .
  moreover have "probe_enabled (pc_config ?pc)" using assms(1) by (simp add: pc_new_def)
  ultimately show ?thesis
    by (auto simp: pc_check_def Let_def never_probed_def split: option.splits)
qed

lemma breaker_never_rejects_without_probe_results_witness:
  "pc_check 5 (fold (pc_step exact_scale) [Failure 1 ''openai'' True, Failure 2 ''openai'' True]
     (pc_new cooldown_config_default)) ''openai'' \<in> {Allow, AllowProbe}"
  by (rule breaker_never_rejects_without_probe_results)
    (simp_all add: cooldown_config_default_def no_failed_probe_def)

text \<open>
  With probe results reported, the breaker does reject: after a failed probe, until the
  recomputed cooldown or the probe interval is over, whichever comes first, every check of
  that provider is a rejection whose waiting time is at most the configured maximum; and
  after a successful one the provider is allowed again.
\<close>

lemma failed_probe_rejects:
  assumes "st_get (pc_states (fold (pc_step scale) ops (pc_new cfg))) provider = Some st"
    and "t \<le> now" and "now - t < 1000 * probe_interval_secs cfg"
    and "now - t < calculate_cooldown scale cfg (sat_succ (error_count st)) (is_billing st)"
  shows "(\<exists>n secs. pc_check now (record_probe_result scale t provider False
             (fold (pc_step scale) ops (pc_new cfg))) provider = Reject (is_billing st) n secs
           \<and> secs \<le> max (max_cooldown_secs cfg) (billing_max_cooldown_secs cfg))
    \<and> pc_check now (record_probe_result scale t provider True
             (fold (pc_step scale) ops (pc_new cfg))) provider = Allow"
proof -
  let ?pc = "fold (pc_step scale) ops (pc_new cfg)"
  let ?d = "calculate_cooldown scale cfg (sat_succ (error_count st)) (is_billing st)"
  have cfg: "pc_config ?pc = cfg" by (simp add: pc_new_def)
  have "pc_check now (record_probe_result scale t provider False ?pc) provider
      = Reject (is_billing st) (sat_succ (error_count st)) ((?d - (now - t)) div 1000)"
    using assms cfg by (simp add: pc_check_def record_probe_result_def modify_state_def al.get_put Let_def)
  moreover have "(?d - (now - t)) div 1000 \<le> max (max_cooldown_secs cfg) (billing_max_cooldown_secs cfg)"
    using calculate_cooldown_bound [of scale cfg "sat_succ (error_count st)" "is_billing st"] by linarith
  moreover have "pc_check now (record_probe_result scale t provider True ?pc) provider = Allow"
    using assms(1)
    by (simp add: pc_check_def record_probe_result_def record_success_def modify_state_def al.get_put)
  ultimately show ?thesis by blast
qed

lemma failed_probe_rejects_witness:
  "\<exists>n secs. pc_check 20 (record_probe_result exact_scale 10 ''openai'' False
      (fold (pc_step exact_scale) [Failure 0 ''openai'' False] (pc_new cooldown_config_default))) ''openai''
     = Reject False n secs"
proof -
  let ?pc = "fold (pc_step exact_scale) [Failure 0 ''openai'' False] (pc_new cooldown_config_default)"
  obtain st where st: "st_get (pc_states ?pc) ''openai'' = Some st" "is_billing st = False" "error_count st = 1"
    by (simp add: record_failure_def pc_new_def Let_def entry_or_new_def ps_new_def sat_succ_def U32_MAX_def)
  have "20 - 10 < calculate_cooldown exact_scale cooldown_config_default (sat_succ (error_count st)) (is_billing st)"
    by (simp add: st calculate_cooldown_def exact_scale_def cooldown_config_default_def sat_succ_def U32_MAX_def)
  from failed_probe_rejects [OF st(1) _ _ this] st(2) show ?thesis
    by (auto simp: cooldown_config_default_def)
qed

text \<open>
  The periodic clean-up never removes anything: in every reachable state an entry with a
  cooldown has a positive error count, so \<open>clear_expired\<close> is the identity.
\<close>

lemma clear_expired_is_noop:
  "clear_expired now (fold (pc_step scale) ops (pc_new cfg)) = fold (pc_step scale) ops (pc_new cfg)"
  by (rule clear_expired_inv_id, rule cool.reached_inv) (simp add: list_all_iff)

text \<open>
  Profile rotation picks the best available profile: when some profile is not in
  cooldown, the selected one is a configured profile outside cooldown whose priority value
  is least among all profiles outside cooldown.
\<close>

lemma select_profile_best:
  assumes "q \<in> set profiles" and "\<not> profile_in_cooldown now pc provider q"
  shows "\<exists>p\<in>set profiles. select_profile now pc provider profiles = Some (prof_name p, api_key_env p)
    \<and> \<not> profile_in_cooldown now pc provider p
    \<and> (\<forall>r\<in>set profiles. \<not> profile_in_cooldown now pc provider r \<longrightarrow> priority p \<le> priority r)"
proof -
  let ?P = "\<lambda>p. \<not> profile_in_cooldown now pc provider p"
  obtain p where p: "find ?P (sort_key priority profiles) = Some p"
    using assms by (cases "find ?P (sort_key priority profiles)") (auto simp: find_None_iff)
  then have "p \<in> set profiles" "?P p" by (auto dest: find_SomeD)
  moreover have "select_profile now pc provider profiles = Some (prof_name p, api_key_env p)"
    using p assms(1) by (cases profiles) (auto simp: select_profile_def)
  ultimately show ?thesis using find_sorted_least [OF p] by blast
qed

lemma select_profile_best_witness:
  "\<exists>p\<in>{\<lparr>prof_name = ''b'', api_key_env = ''B'', priority = 2\<rparr>}.
     select_profile 0 (pc_new cooldown_config_default) ''openai''
       [\<lparr>prof_name = ''b'', api_key_env = ''B'', priority = 2\<rparr>] = Some (prof_name p, api_key_env p)"
proof -
  let ?q = "\<lparr>prof_name = ''b'', api_key_env = ''B'', priority = 2\<rparr>"
  have "\<not> profile_in_cooldown 0 (pc_new cooldown_config_default) ''openai'' ?q"
    by (simp add: profile_in_cooldown_def pc_new_def)
  from select_profile_best [of ?q "[?q]", OF _ this] show ?thesis by auto
qed

end
