(* ===== verification/Events.thy ===== *)
theory Events
  imports Event_Bus
begin

text \<open>
  The payloads of the events on the bus (\<^verbatim>\<open>crates/openfang-types/src/event.rs\<close>) and the
  steps of an orchestration trace (\<^verbatim>\<open>crates/openfang-types/src/orchestration_trace.rs\<close>).
  A hash map of metadata is a store of JSON values; floating-point fields are \<^typ>\<open>f64\<close>.
\<close>

type_synonym json_map = "(string, json) store"

datatype trace_event_type =
    OrchestrationStart string string
  | AgentDelegated agent_id string
  | AgentCompleted nat nat nat nat f64
  | AgentFailed string
  | OrchestrationComplete nat f64 nat "agent_id list"
  | PlanStarted nat f64 "string list" "string list"
  | PlanStepStarted string string
  | PlanStepCompleted string string
  | PlanStepFailed string string string
  | PlanReasoningReentry string
  | PlanLocalPatch string nat
  | PlanFallback string

definition discriminant_name :: "trace_event_type \<Rightarrow> string" where
  "discriminant_name e =
     (case e of
        OrchestrationStart _ _ \<Rightarrow> ''orchestration_start''
      | AgentDelegated _ _ \<Rightarrow> ''agent_delegated''
      | AgentCompleted _ _ _ _ _ \<Rightarrow> ''agent_completed''
      | AgentFailed _ \<Rightarrow> ''agent_failed''
      | OrchestrationComplete _ _ _ _ \<Rightarrow> ''orchestration_complete''
      | PlanStarted _ _ _ _ \<Rightarrow> ''plan_started''
      | PlanStepStarted _ _ \<Rightarrow> ''plan_step_started''
      | PlanStepCompleted _ _ \<Rightarrow> ''plan_step_completed''
      | PlanStepFailed _ _ _ \<Rightarrow> ''plan_step_failed''
      | PlanReasoningReentry _ \<Rightarrow> ''plan_reasoning_reentry''
      | PlanLocalPatch _ _ \<Rightarrow> ''plan_local_patch''
      | PlanFallback _ \<Rightarrow> ''plan_fallback'')"

record orchestration_trace_event =
  ot_trace_id :: string
  ot_orchestrator_id :: agent_id
  ot_agent_id :: agent_id
  ot_parent_agent_id :: "agent_id option"
  ot_event_type :: trace_event_type
  ot_timestamp :: time
  ot_metadata :: json_map

datatype message_role = RoleUser | RoleAgent | RoleSystem | RoleTool

record agent_message =
  am_content :: string
  am_metadata :: json_map
  am_role :: message_role

record tool_output =
  to_tool_id :: string
  to_tool_use_id :: string
  to_content :: string
  to_success :: bool
  to_execution_time_ms :: nat

datatype memory_operation = Created | Updated | Deleted

record memory_delta =
  md_operation :: memory_operation
  md_key :: string
  md_agent_id :: agent_id

datatype lifecycle_event =
    Spawned agent_id string
  | Started agent_id
  | Suspended agent_id
  | Resumed agent_id
  | Terminated agent_id string
  | Crashed agent_id string

datatype network_event =
    PeerConnected string
  | PeerDisconnected string
  | MessageReceived string string
  | DiscoveryResult string "string list"

record graph_memory_write_provenance =
  gp_node_ids :: "string list"
  gp_node_kind :: "string option"
  gp_reason :: "string option"
  gp_summary :: "string option"
  gp_trace_id :: "string option"
  gp_tool_name :: "string option"

text \<open>The fields of each variant are in the order of the source.\<close>

datatype system_event =
    KernelStarted
  | KernelStopping
  | QuotaWarning agent_id string f64
  | HealthCheck string
  | QuotaEnforced agent_id f64 f64
  | ModelRouted agent_id string string
  | UserAction string string string
  | HealthCheckFailed agent_id nat
  | CronJobCompleted string string agent_id string "string option"
  | CronJobFailed string string agent_id string "string option"
  | AgentActivity string "string option"
  | TrajectoryRecorded agent_id string "string option" "string option"
  | FailureLearned agent_id string "string option" "string option" "string option"
  | ApprovalPendingEvent uuid agent_id string string
  | GraphMemoryWrite agent_id string "graph_memory_write_provenance option"
  | ImprovementProposalAdopted agent_id uuid string string
  | WorkflowRunFinished string string string bool string
  | AgentAssistantReply agent_id string string

datatype event_payload =
    PMessage agent_message
  | PToolResult tool_output
  | PMemoryUpdate memory_delta
  | PLifecycle lifecycle_event
  | PNetwork network_event
  | PSystem system_event
  | POrchestrationTrace orchestration_trace_event
  | PCustom "nat list"

text \<open>
  What formatting takes from outside the model: the text of a UUID and its parser, floats
  with a fixed number of decimals, the derived \<^verbatim>\<open>Debug\<close> output of the event types, and
  Unicode lower case.
\<close>

record fmt_env =
  fe_uuid :: "uuid \<Rightarrow> string"
  fe_parse_uuid :: "string \<Rightarrow> uuid option"
  fe_fixed :: "nat \<Rightarrow> f64 \<Rightarrow> string"
  fe_debug_network :: "network_event \<Rightarrow> string"
  fe_debug_system :: "system_event \<Rightarrow> string"
  fe_debug_trace :: "trace_event_type \<Rightarrow> string"
  fe_lower :: "string \<Rightarrow> string"

text \<open>An environment for concrete evaluation.\<close>

definition fmt_env_ascii :: fmt_env where
  "fmt_env_ascii =
     \<lparr>fe_uuid = show_nat, fe_parse_uuid = (\<lambda>s. if s = [] then None else Some (length s)),
      fe_fixed = (\<lambda>_ _. ''0.0''),
      fe_debug_network = (\<lambda>_. ''Network''), fe_debug_system = (\<lambda>_. ''System''),
      fe_debug_trace = discriminant_name, fe_lower = to_ascii_lowercase\<rparr>"

end
