(* ===== verification/Orchestration.thy ===== *)
theory Orchestration
  imports Events
begin

text \<open>
  Orchestration contexts (\<^verbatim>\<open>crates/openfang-types/src/orchestration.rs\<close>): the lineage, the
  shared variables and the wall-clock budget that travel along the calls between agents.
  Fresh trace ids and the creation time are arguments. Budgets are natural numbers and the
  source subtracts them saturating at zero, as subtraction of naturals does; the depth is
  a 32-bit counter that a chain of calls would have to exceed four billion to wrap.
\<close>

section \<open>Data\<close>

datatype map_reduce_phase = MapPhase | ReducePhase

datatype orchestration_pattern =
    AdHoc
  | WorkflowPattern uuid nat string
  | MapReduce string map_reduce_phase "nat option"
  | SupervisorPattern agent_id string
  | Delegation agent_id string
  | Coordination agent_id string

record orchestration_context =
  oc_orchestrator_id :: agent_id
  oc_call_chain :: "agent_id list"
  oc_depth :: nat
  oc_shared_vars :: json_map
  oc_pattern :: orchestration_pattern
  oc_remaining_budget_ms :: "nat option"
  oc_trace_id :: string
  oc_created_at :: time
  oc_efficient_mode :: "string option"

section \<open>Operations\<close>

definition new_root ::
  "fmt_env \<Rightarrow> uuid \<Rightarrow> time \<Rightarrow> agent_id \<Rightarrow> orchestration_pattern \<Rightarrow> string option
     \<Rightarrow> orchestration_context" where
  "new_root env fresh now orchestrator pattern efficient_mode =
     \<lparr>oc_orchestrator_id = orchestrator, oc_call_chain = [orchestrator], oc_depth = 0,
      oc_shared_vars = [], oc_pattern = pattern, oc_remaining_budget_ms = None,
      oc_trace_id = fe_uuid env fresh, oc_created_at = now,
      oc_efficient_mode = efficient_mode\<rparr>"

definition child :: "orchestration_context \<Rightarrow> agent_id \<Rightarrow> orchestration_context" where
  "child ctx a =
     ctx\<lparr>oc_call_chain := oc_call_chain ctx @ [a], oc_depth := oc_depth ctx + 1\<rparr>"

definition budget_exhausted :: "orchestration_context \<Rightarrow> bool" where
  "budget_exhausted ctx = (oc_remaining_budget_ms ctx = Some 0)"

definition spend_wall_ms :: "nat \<Rightarrow> orchestration_context \<Rightarrow> orchestration_context" where
  "spend_wall_ms ms ctx =
     ctx\<lparr>oc_remaining_budget_ms := map_option (\<lambda>b. b - ms) (oc_remaining_budget_ms ctx)\<rparr>"

definition put_var :: "string \<Rightarrow> json \<Rightarrow> orchestration_context \<Rightarrow> orchestration_context" where
  "put_var k v ctx = ctx\<lparr>oc_shared_vars := st_put k v (oc_shared_vars ctx)\<rparr>"

definition merge_shared_vars :: "json_map \<Rightarrow> orchestration_context \<Rightarrow> orchestration_context" where
  "merge_shared_vars patch ctx = fold (\<lambda>(k, v). put_var k v) patch ctx"

definition description_for_prompt :: "fmt_env \<Rightarrow> orchestration_pattern \<Rightarrow> string" where
  "description_for_prompt env p =
     (case p of
        AdHoc \<Rightarrow> ''Ad-hoc delegation (no formal orchestration pattern).''
      | WorkflowPattern workflow_id step_index step_name \<Rightarrow>
          ''Workflow step '' @ show_nat step_index @ '' ('' @ step_name @ ''); workflow id ''
            @ fe_uuid env workflow_id @ ''.''
      | MapReduce job_id phase item_index \<Rightarrow>
          (let phase_s = (case phase of MapPhase \<Rightarrow> ''map'' | ReducePhase \<Rightarrow> ''reduce'') in
           case item_index of
             Some i \<Rightarrow>
               ''Map-reduce job '' @ job_id @ '', '' @ phase_s @ '' phase, item '' @ show_nat i @ ''.''
           | None \<Rightarrow> ''Map-reduce job '' @ job_id @ '', '' @ phase_s @ '' phase.'')
      | SupervisorPattern supervisor_id task_type \<Rightarrow>
          ''Supervised task ('' @ task_type @ '') under supervisor '' @ fe_uuid env supervisor_id @ ''.''
      | Delegation delegator_id capability_required \<Rightarrow>
          ''Delegation for capability '' @ [CHR 0x22] @ capability_required @ [CHR 0x22]
            @ '' from delegator '' @ fe_uuid env delegator_id @ ''.''
      | Coordination coordinator_id task_id \<Rightarrow>
          ''Coordinated task '' @ [CHR 0x22] @ task_id @ [CHR 0x22]
            @ '' under coordinator '' @ fe_uuid env coordinator_id @ ''.'')"

definition newline :: string where
  "newline = [CHR 0x0A]"

definition system_prompt_appendix :: "fmt_env \<Rightarrow> orchestration_context \<Rightarrow> nat \<Rightarrow> string" where
  "system_prompt_appendix env ctx max_agent_call_depth =
     ''You are operating as part of a larger orchestration''
     @ '' (trace_id='' @ oc_trace_id ctx @ '').'' @ newline
     @ ''- Orchestrator: '' @ fe_uuid env (oc_orchestrator_id ctx) @ newline
     @ ''- Your role: '' @ description_for_prompt env (oc_pattern ctx) @ newline
     @ ''- Call depth: '' @ show_nat (oc_depth ctx) @ ''/'' @ show_nat max_agent_call_depth @ newline
     @ (if 0 < oc_depth ctx \<and> 2 \<le> length (oc_call_chain ctx)
        then ''- Parent agent: ''
               @ fe_uuid env (oc_call_chain ctx ! (length (oc_call_chain ctx) - 2)) @ newline
        else [])
     @ (case oc_remaining_budget_ms ctx of
          Some b \<Rightarrow> ''- Orchestration wall-clock budget remaining (approx.): '' @ show_nat b
                      @ '' ms'' @ newline
        | None \<Rightarrow> [])
     @ (if oc_shared_vars ctx \<noteq> []
        then ''- Shared variables: '' @ show_nat (length (oc_shared_vars ctx))
               @ '' entries (merge via orchestration tools as needed)'' @ newline
        else [])"

datatype selection_strategy = RoundRobin | LeastBusy | CostEfficient | BestMatch | Random

record delegate_selection_options =
  ds_semantic_ranking :: bool
  ds_auto_spawn_pool :: "string option"
  ds_auto_spawn_threshold :: nat

definition KEYWORDS_ONLY :: delegate_selection_options where
  "KEYWORDS_ONLY = \<lparr>ds_semantic_ranking = False, ds_auto_spawn_pool = None,
                    ds_auto_spawn_threshold = 1\<rparr>"

text \<open>Object lookup (\<^verbatim>\<open>Value::get\<close>) followed by a string access.\<close>

definition jget :: "string \<Rightarrow> json \<Rightarrow> json option" where
  "jget k j = (case j of JObject kvs \<Rightarrow> map_of kvs k | _ \<Rightarrow> None)"

definition jstr :: "string \<Rightarrow> json \<Rightarrow> string option" where
  "jstr k j = Option.bind (jget k j) as_str"

definition copy_var :: "string \<Rightarrow> string \<Rightarrow> json \<Rightarrow> orchestration_context \<Rightarrow> orchestration_context" where
  "copy_var field var task ctx =
     (case jstr field task of Some s \<Rightarrow> put_var var (JString s) ctx | None \<Rightarrow> ctx)"

definition orchestration_context_from_claimed_task ::
  "fmt_env \<Rightarrow> uuid \<Rightarrow> time \<Rightarrow> json \<Rightarrow> agent_id \<Rightarrow> orchestration_context option" where
  "orchestration_context_from_claimed_task env fresh now task claimant =
     Option.bind (jget ''payload'' task) (\<lambda>payload.
     Option.bind (jget ''orchestration'' payload) (\<lambda>orch.
     Option.bind (jstr ''trace_id'' orch) (\<lambda>trace_id.
       let orchestrator_id =
             (case Option.bind (jstr ''orchestrator_id'' orch) (fe_parse_uuid env) of
                Some a \<Rightarrow> a
              | None \<Rightarrow>
                  (case Option.bind (jstr ''created_by'' task) (fe_parse_uuid env) of
                     Some a \<Rightarrow> a | None \<Rightarrow> claimant));
           root_ctx = (new_root env fresh now orchestrator_id AdHoc None)\<lparr>oc_trace_id := trace_id\<rparr>;
           ctx = (if orchestrator_id = claimant then root_ctx else child root_ctx claimant)
       in Some (copy_var ''description'' ''task_queue_description'' task
                 (copy_var ''title'' ''task_queue_title'' task
                   (copy_var ''id'' ''task_queue_task_id'' task ctx))))))"

section \<open>The lineage of a context\<close>

text \<open>
  What every consumer of a context relies on: the chain starts at the orchestrator, ends
  at the agent that runs, and the depth counts the calls on it.
\<close>

definition lineage_ok :: "agent_id \<Rightarrow> orchestration_context \<Rightarrow> bool" where
  "lineage_ok current ctx =
     (oc_call_chain ctx \<noteq> [] \<and> hd (oc_call_chain ctx) = oc_orchestrator_id ctx
      \<and> last (oc_call_chain ctx) = current
      \<and> length (oc_call_chain ctx) = Suc (oc_depth ctx))"

lemma new_root_lineage: "lineage_ok a (new_root env fresh now a p m)"
  by (simp add: lineage_ok_def new_root_def)

lemma child_lineage: "lineage_ok a ctx \<Longrightarrow> lineage_ok b (child ctx b)"
  by (auto simp: lineage_ok_def child_def hd_append)

lemma put_var_same [simp]:
  "oc_call_chain (put_var k v ctx) = oc_call_chain ctx"
  "oc_orchestrator_id (put_var k v ctx) = oc_orchestrator_id ctx"
  "oc_depth (put_var k v ctx) = oc_depth ctx"
  "oc_trace_id (put_var k v ctx) = oc_trace_id ctx"
  "oc_remaining_budget_ms (put_var k v ctx) = oc_remaining_budget_ms ctx"
  by (simp_all add: put_var_def)

lemma put_var_lineage [simp]: "lineage_ok a (put_var k v ctx) = lineage_ok a ctx"
  by (simp add: lineage_ok_def)

lemma merge_shared_vars_same [simp]:
  "oc_trace_id (merge_shared_vars patch ctx) = oc_trace_id ctx"
  "oc_orchestrator_id (merge_shared_vars patch ctx) = oc_orchestrator_id ctx"
  "oc_remaining_budget_ms (merge_shared_vars patch ctx) = oc_remaining_budget_ms ctx"
  "lineage_ok a (merge_shared_vars patch ctx) = lineage_ok a ctx"
  unfolding merge_shared_vars_def by (induction patch arbitrary: ctx) auto

lemma merge_shared_vars_get:
  "st_get (oc_shared_vars (merge_shared_vars patch ctx)) k =
     (case st_get (rev patch) k of Some v \<Rightarrow> Some v | None \<Rightarrow> st_get (oc_shared_vars ctx) k)"
  unfolding merge_shared_vars_def
  by (induction patch arbitrary: ctx)
     (auto simp: put_var_def update_conv' map_add_def split: option.splits)

lemma spend_wall_ms_lineage [simp]: "lineage_ok a (spend_wall_ms ms ctx) = lineage_ok a ctx"
  by (simp add: lineage_ok_def spend_wall_ms_def)

lemma copy_var_same [simp]:
  "lineage_ok a (copy_var f v task ctx) = lineage_ok a ctx"
  "oc_trace_id (copy_var f v task ctx) = oc_trace_id ctx"
  by (auto simp: copy_var_def split: option.splits)

text \<open>The context built for a claimed task has the claimant as its current agent.\<close>

lemma claimed_task_lineage:
  assumes "orchestration_context_from_claimed_task env fresh now task claimant = Some ctx"
  shows "lineage_ok claimant ctx"
proof -
  have "lineage_ok claimant (child ((new_root env fresh now b AdHoc None)\<lparr>oc_trace_id := t\<rparr>) claimant)"
    and "lineage_ok b ((new_root env fresh now b AdHoc None)\<lparr>oc_trace_id := t\<rparr>)" for b t
    by (simp_all add: lineage_ok_def new_root_def child_def)
  then show ?thesis
    using assms
    by (auto simp: orchestration_context_from_claimed_task_def Let_def
             split: bind_splits if_splits)
qed

section \<open>A call tree\<close>

text \<open>What agents do with a context on the way down: call another agent, spend time, share
  variables.\<close>

datatype ctx_op = CallChild agent_id | Spend nat | Share json_map

fun ctx_step :: "ctx_op \<Rightarrow> orchestration_context \<Rightarrow> orchestration_context" where
  "ctx_step (CallChild a) ctx = child ctx a"
| "ctx_step (Spend ms) ctx = spend_wall_ms ms ctx"
| "ctx_step (Share patch) ctx = merge_shared_vars patch ctx"

fun callees :: "ctx_op list \<Rightarrow> agent_id list" where
  "callees [] = []"
| "callees (CallChild a # ops) = a # callees ops"
| "callees (Spend ms # ops) = callees ops"
| "callees (Share patch # ops) = callees ops"

fun spent :: "ctx_op list \<Rightarrow> nat" where
  "spent [] = 0"
| "spent (CallChild a # ops) = spent ops"
| "spent (Spend ms # ops) = ms + spent ops"
| "spent (Share patch # ops) = spent ops"

lemma merge_shared_vars_chain [simp]:
  "oc_call_chain (merge_shared_vars patch ctx) = oc_call_chain ctx"
  "oc_depth (merge_shared_vars patch ctx) = oc_depth ctx"
  unfolding merge_shared_vars_def by (induction patch arbitrary: ctx) auto

lemma ctx_run_chain:
  "oc_call_chain (fold ctx_step ops ctx) = oc_call_chain ctx @ callees ops"
  "oc_depth (fold ctx_step ops ctx) = oc_depth ctx + length (callees ops)"
  by (induction ops arbitrary: ctx rule: callees.induct) (auto simp: child_def spend_wall_ms_def)

lemma ctx_run_ids:
  "oc_trace_id (fold ctx_step ops ctx) = oc_trace_id ctx"
  "oc_orchestrator_id (fold ctx_step ops ctx) = oc_orchestrator_id ctx"
  by (induction ops arbitrary: ctx rule: callees.induct) (auto simp: child_def spend_wall_ms_def)

lemma ctx_run_budget:
  "oc_remaining_budget_ms ctx = Some b \<Longrightarrow>
     oc_remaining_budget_ms (fold ctx_step ops ctx) = Some (b - spent ops)"
  by (induction ops arbitrary: ctx b rule: callees.induct) (auto simp: child_def spend_wall_ms_def)

lemmas ctx_run = ctx_run_chain ctx_run_ids

text \<open>
  Call lineage and budget: whatever an orchestration does on the way down (calls,
  shared variables, time spent), the context of the last callee has the root as head of
  its chain, the callees in order, a depth equal to the number of calls and the root's
  trace id, and its budget is exhausted exactly when at least the whole budget was spent.
\<close>

lemma orchestration_lineage_and_budget:
  "let ctx = fold ctx_step ops
               ((new_root env fresh now a p m)\<lparr>oc_remaining_budget_ms := Some budget\<rparr>)
   in oc_call_chain ctx = a # callees ops \<and> oc_depth ctx = length (callees ops)
      \<and> lineage_ok (last (a # callees ops)) ctx
      \<and> oc_trace_id ctx = fe_uuid env fresh
      \<and> (budget_exhausted ctx \<longleftrightarrow> budget \<le> spent ops)"
  by (simp add: Let_def ctx_run new_root_def budget_exhausted_def lineage_ok_def
                ctx_run_budget [where b = budget])

end
