(* ===== verification/Triggers.thy ===== *)
theory Triggers
  imports Orchestration
begin

text \<open>
  Event-driven triggers (\<^verbatim>\<open>crates/openfang-kernel/src/triggers.rs\<close>): agents register
  patterns, an event wakes the agents whose triggers match it, and an index from agents
  to their triggers is kept beside the table. Fresh ids and the clock are arguments; the
  order of the table is its iteration order.
\<close>

section \<open>Data\<close>

datatype trigger_pattern =
    TPLifecycle
  | TPAgentSpawned string
  | TPAgentTerminated
  | TPSystem
  | TPSystemKeyword string
  | TPMemoryUpdate
  | TPMemoryKeyPattern string
  | TPAll
  | TPContentMatch string
  | TPOrchestrationTrace "string list" "string option" "agent_id option"

record trigger =
  tr_id :: uuid
  tr_agent_id :: agent_id
  tr_pattern :: trigger_pattern
  tr_prompt_template :: string
  tr_enabled :: bool
  tr_created_at :: time
  tr_fire_count :: nat
  tr_max_fires :: nat

record trigger_dispatch =
  td_agent_id :: agent_id
  td_message :: string
  td_orchestration_ctx :: "orchestration_context option"

record trigger_engine =
  te_triggers :: "(uuid, trigger) store"
  te_agent_triggers :: "(agent_id, uuid list) store"

definition trigger_pattern_kind :: "trigger_pattern \<Rightarrow> string" where
  "trigger_pattern_kind p =
     (case p of
        TPAll \<Rightarrow> ''all''
      | TPLifecycle \<Rightarrow> ''lifecycle''
      | TPAgentSpawned _ \<Rightarrow> ''agent_spawned''
      | TPAgentTerminated \<Rightarrow> ''agent_terminated''
      | TPSystem \<Rightarrow> ''system''
      | TPSystemKeyword _ \<Rightarrow> ''system_keyword''
      | TPMemoryUpdate \<Rightarrow> ''memory_update''
      | TPMemoryKeyPattern _ \<Rightarrow> ''memory_key_pattern''
      | TPContentMatch _ \<Rightarrow> ''content_match''
      | TPOrchestrationTrace _ _ _ \<Rightarrow> ''orchestration_trace'')"

section \<open>Descriptions and matching\<close>

definition em_dash :: string where
  "em_dash = [CHR 0xE2, CHR 0x80, CHR 0x94]"

definition debug_role :: "message_role \<Rightarrow> string" where
  "debug_role r = (case r of RoleUser \<Rightarrow> ''User'' | RoleAgent \<Rightarrow> ''Agent''
                   | RoleSystem \<Rightarrow> ''System'' | RoleTool \<Rightarrow> ''Tool'')"

definition debug_memory_operation :: "memory_operation \<Rightarrow> string" where
  "debug_memory_operation m =
     (case m of Created \<Rightarrow> ''Created'' | Updated \<Rightarrow> ''Updated'' | Deleted \<Rightarrow> ''Deleted'')"

definition opt_or :: "string \<Rightarrow> string option \<Rightarrow> string" where
  "opt_or d s = (case s of Some x \<Rightarrow> x | None \<Rightarrow> d)"

definition kind_suffix :: "string option \<Rightarrow> string" where
  "kind_suffix k = (case k of Some s \<Rightarrow> if s = [] then [] else '' ('' @ s @ '')'' | None \<Rightarrow> [])"

definition describe_lifecycle :: "fmt_env \<Rightarrow> lifecycle_event \<Rightarrow> string" where
  "describe_lifecycle env le =
     (case le of
        Spawned a name \<Rightarrow> ''Agent '' @ [CHR 0x27] @ name @ [CHR 0x27] @ '' (id: '' @ fe_uuid env a
                            @ '') was spawned''
      | Started a \<Rightarrow> ''Agent '' @ fe_uuid env a @ '' started''
      | Suspended a \<Rightarrow> ''Agent '' @ fe_uuid env a @ '' suspended''
      | Resumed a \<Rightarrow> ''Agent '' @ fe_uuid env a @ '' resumed''
      | Terminated a reason \<Rightarrow> ''Agent '' @ fe_uuid env a @ '' terminated: '' @ reason
      | Crashed a err \<Rightarrow> ''Agent '' @ fe_uuid env a @ '' crashed: '' @ err)"

definition describe_system :: "fmt_env \<Rightarrow> system_event \<Rightarrow> string" where
  "describe_system env se =
     (case se of
        KernelStarted \<Rightarrow> ''Kernel started''
      | KernelStopping \<Rightarrow> ''Kernel stopping''
      | QuotaWarning a resource usage_percent \<Rightarrow>
          ''Quota warning: agent '' @ fe_uuid env a @ '', '' @ resource @ '' at ''
            @ fe_fixed env 1 usage_percent @ ''%''
      | HealthCheck status \<Rightarrow> ''Health check: '' @ status
      | QuotaEnforced a amount limit \<Rightarrow>
          ''Quota enforced: agent '' @ fe_uuid env a @ '', spent $'' @ fe_fixed env 4 amount
            @ '' / $'' @ fe_fixed env 4 limit
      | ModelRouted a complexity model \<Rightarrow>
          ''Model routed: agent '' @ fe_uuid env a @ '', complexity='' @ complexity
            @ '', model='' @ model
      | UserAction user_id action result \<Rightarrow>
          ''User action: '' @ user_id @ '' '' @ action @ '' -> '' @ result
      | HealthCheckFailed a secs \<Rightarrow>
          ''Health check failed: agent '' @ fe_uuid env a @ '', unresponsive for ''
            @ show_nat secs @ ''s''
      | CronJobCompleted job_id job_name a output_preview action_kind \<Rightarrow>
          ''Cron job completed'' @ kind_suffix action_kind @ '': '' @ job_name @ '' ('' @ job_id
            @ '') for agent '' @ fe_uuid env a @ '': '' @ output_preview
      | CronJobFailed job_id job_name a err action_kind \<Rightarrow>
          ''Cron job failed'' @ kind_suffix action_kind @ '': '' @ job_name @ '' ('' @ job_id
            @ '') for agent '' @ fe_uuid env a @ '': '' @ err
      | AgentActivity phase detail \<Rightarrow>
          ''Agent activity: '' @ phase
            @ (case detail of Some d \<Rightarrow> '' ('' @ d @ '')'' | None \<Rightarrow> [])
      | ApprovalPendingEvent request_id a tool_name action_summary \<Rightarrow>
          ''Approval pending: '' @ tool_name @ '' for agent '' @ fe_uuid env a @ '' (''
            @ fe_uuid env request_id @ ''): '' @ action_summary
      | GraphMemoryWrite a kind provenance \<Rightarrow>
          ''Graph memory write: agent '' @ fe_uuid env a @ '', kind='' @ kind
            @ (case Option.bind provenance gp_summary of
                 Some smry \<Rightarrow> '' '' @ em_dash @ '' '' @ smry | None \<Rightarrow> [])
      | TrajectoryRecorded a node episode summary \<Rightarrow>
          ''Trajectory recorded: agent '' @ fe_uuid env a @ '', traj='' @ node @ '', episode=''
            @ (case episode of Some s \<Rightarrow> if s = [] then em_dash else s | None \<Rightarrow> em_dash)
            @ '': '' @ opt_or [] summary
      | FailureLearned a node tool_name source message_preview \<Rightarrow>
          ''Failure learned: agent '' @ fe_uuid env a @ '', id='' @ node @ '', tool=''
            @ opt_or em_dash tool_name @ '', source='' @ opt_or em_dash source @ '': ''
            @ opt_or [] message_preview
      | WorkflowRunFinished workflow_id workflow_name run_id ok summary \<Rightarrow>
          ''Workflow '' @ workflow_name @ '' run '' @ run_id @ '' ''
            @ (if ok then ''completed'' else ''failed'') @ '': '' @ summary
      | AgentAssistantReply a agent_name message_preview \<Rightarrow>
          ''Agent '' @ [CHR 0x27] @ agent_name @ [CHR 0x27] @ '' ('' @ fe_uuid env a
            @ '') replied: '' @ message_preview
      | ImprovementProposalAdopted a proposal_id graph_node_id kind \<Rightarrow>
          ''Improvement proposal adopted: agent '' @ fe_uuid env a @ '', proposal=''
            @ fe_uuid env proposal_id @ '', graph='' @ graph_node_id @ '', kind=''
            @ (if kind = [] then em_dash else kind))"

definition describe_event :: "fmt_env \<Rightarrow> event_payload event \<Rightarrow> string" where
  "describe_event env e =
     (case ev_payload e of
        PMessage msg \<Rightarrow> ''Message from '' @ debug_role (am_role msg) @ '': '' @ am_content msg
      | PToolResult tr \<Rightarrow>
          ''Tool '' @ [CHR 0x27] @ to_tool_id tr @ [CHR 0x27] @ '' ''
            @ (if to_success tr then ''succeeded'' else ''failed'') @ '' (''
            @ show_nat (to_execution_time_ms tr) @ ''ms): '' @ truncate_str (to_content tr) 200
      | PMemoryUpdate delta \<Rightarrow>
          ''Memory '' @ debug_memory_operation (md_operation delta) @ '' on key '' @ [CHR 0x27]
            @ md_key delta @ [CHR 0x27] @ '' for agent '' @ fe_uuid env (md_agent_id delta)
      | PLifecycle le \<Rightarrow> describe_lifecycle env le
      | PNetwork ne \<Rightarrow> ''Network event: '' @ fe_debug_network env ne
      | PSystem se \<Rightarrow> describe_system env se
      | POrchestrationTrace t \<Rightarrow>
          ''Orchestration trace '' @ ot_trace_id t @ '' '' @ em_dash @ '' ''
            @ fe_debug_trace env (ot_event_type t)
      | PCustom data \<Rightarrow> ''Custom event ('' @ show_nat (length data) @ '' bytes)'')"

definition matches_pattern ::
  "fmt_env \<Rightarrow> trigger_pattern \<Rightarrow> event_payload event \<Rightarrow> string \<Rightarrow> bool" where
  "matches_pattern env p e description =
     (case p of
        TPAll \<Rightarrow> True
      | TPLifecycle \<Rightarrow> (case ev_payload e of PLifecycle _ \<Rightarrow> True | _ \<Rightarrow> False)
      | TPAgentSpawned name_pattern \<Rightarrow>
          (case ev_payload e of
             PLifecycle (Spawned _ name) \<Rightarrow> contains_str name name_pattern \<or> name_pattern = ''*''
           | _ \<Rightarrow> False)
      | TPAgentTerminated \<Rightarrow>
          (case ev_payload e of
             PLifecycle (Terminated _ _) \<Rightarrow> True
           | PLifecycle (Crashed _ _) \<Rightarrow> True
           | _ \<Rightarrow> False)
      | TPSystem \<Rightarrow> (case ev_payload e of PSystem _ \<Rightarrow> True | _ \<Rightarrow> False)
      | TPSystemKeyword keyword \<Rightarrow>
          (case ev_payload e of
             PSystem se \<Rightarrow> contains_str (fe_lower env (fe_debug_system env se)) (fe_lower env keyword)
           | _ \<Rightarrow> False)
      | TPMemoryUpdate \<Rightarrow> (case ev_payload e of PMemoryUpdate _ \<Rightarrow> True | _ \<Rightarrow> False)
      | TPMemoryKeyPattern key_pattern \<Rightarrow>
          (case ev_payload e of
             PMemoryUpdate delta \<Rightarrow> contains_str (md_key delta) key_pattern \<or> key_pattern = ''*''
           | _ \<Rightarrow> False)
      | TPContentMatch substring \<Rightarrow>
          contains_str (fe_lower env description) (fe_lower env substring)
      | TPOrchestrationTrace event_types trace_id_substring orchestrator_id \<Rightarrow>
          (case ev_payload e of
             POrchestrationTrace t \<Rightarrow>
               (case orchestrator_id of Some oid \<Rightarrow> oid = ot_orchestrator_id t | None \<Rightarrow> True)
               \<and> (case trace_id_substring of
                    Some sub \<Rightarrow> contains_str (ot_trace_id t) sub | None \<Rightarrow> True)
               \<and> (event_types = [] \<or> discriminant_name (ot_event_type t) \<in> set event_types)
           | _ \<Rightarrow> False))"

section \<open>Contexts for woken agents\<close>

definition default_budget :: "nat option \<Rightarrow> orchestration_context \<Rightarrow> orchestration_context" where
  "default_budget d ctx =
     (if oc_remaining_budget_ms ctx = None then ctx\<lparr>oc_remaining_budget_ms := d\<rparr> else ctx)"

definition orchestration_ctx_for_generic_trigger ::
  "fmt_env \<Rightarrow> uuid \<Rightarrow> time \<Rightarrow> uuid \<Rightarrow> trigger_pattern \<Rightarrow> agent_id \<Rightarrow> string \<Rightarrow> nat option
     \<Rightarrow> orchestration_context" where
  "orchestration_ctx_for_generic_trigger env fresh now trigger_id pattern subscriber description d =
     default_budget d
       (put_var ''trigger_event_preview'' (JString (truncate_str description 500))
         (put_var ''trigger_pattern'' (JString (trigger_pattern_kind pattern))
           (put_var ''trigger_id'' (JString (fe_uuid env trigger_id))
             ((new_root env fresh now subscriber AdHoc None)
                \<lparr>oc_trace_id := ''trigger-wake-'' @ fe_uuid env trigger_id\<rparr>))))"

definition orchestration_ctx_for_trace_trigger ::
  "fmt_env \<Rightarrow> uuid \<Rightarrow> time \<Rightarrow> orchestration_trace_event \<Rightarrow> agent_id \<Rightarrow> nat option
     \<Rightarrow> orchestration_context" where
  "orchestration_ctx_for_trace_trigger env fresh now t subscriber d =
     default_budget d
       (put_var ''trigger_event_type'' (JString (discriminant_name (ot_event_type t)))
         (put_var ''trigger_source_agent'' (JString (fe_uuid env (ot_agent_id t)))
           ((new_root env fresh now subscriber AdHoc None)
              \<lparr>oc_trace_id := ot_trace_id t, oc_orchestrator_id := ot_orchestrator_id t,
               oc_call_chain := [ot_orchestrator_id t, subscriber], oc_depth := 1,
               oc_shared_vars := ot_metadata t\<rparr>)))"

section \<open>The engine\<close>

definition te_new :: trigger_engine where
  "te_new = \<lparr>te_triggers = [], te_agent_triggers = []\<rparr>"

definition index_of :: "trigger_engine \<Rightarrow> agent_id \<Rightarrow> uuid list" where
  "index_of eng a = (case st_get (te_agent_triggers eng) a of Some ids \<Rightarrow> ids | None \<Rightarrow> [])"

text \<open>Insertion of a trigger under its id and at the end of its agent's index entry.\<close>

definition te_insert :: "trigger \<Rightarrow> trigger_engine \<Rightarrow> trigger_engine" where
  "te_insert t eng =
     \<lparr>te_triggers = st_put (tr_id t) t (te_triggers eng),
      te_agent_triggers =
        st_put (tr_agent_id t) (index_of eng (tr_agent_id t) @ [tr_id t]) (te_agent_triggers eng)\<rparr>"

definition te_register ::
  "uuid \<Rightarrow> time \<Rightarrow> agent_id \<Rightarrow> trigger_pattern \<Rightarrow> string \<Rightarrow> nat \<Rightarrow> trigger_engine
     \<Rightarrow> uuid \<times> trigger_engine" where
  "te_register fresh now a pattern prompt_template max_fires eng =
     (fresh, te_insert \<lparr>tr_id = fresh, tr_agent_id = a, tr_pattern = pattern,
                        tr_prompt_template = prompt_template, tr_enabled = True,
                        tr_created_at = now, tr_fire_count = 0, tr_max_fires = max_fires\<rparr> eng)"

definition te_remove :: "uuid \<Rightarrow> trigger_engine \<Rightarrow> bool \<times> trigger_engine" where
  "te_remove tid eng =
     (case st_get (te_triggers eng) tid of
        Some t \<Rightarrow>
          (True, \<lparr>te_triggers = st_del tid (te_triggers eng),
                  te_agent_triggers =
                    (case st_get (te_agent_triggers eng) (tr_agent_id t) of
                       Some ids \<Rightarrow> st_put (tr_agent_id t) (filter (\<lambda>i. i \<noteq> tid) ids)
                                     (te_agent_triggers eng)
                     | None \<Rightarrow> te_agent_triggers eng)\<rparr>)
      | None \<Rightarrow> (False, eng))"

definition te_remove_agent_triggers :: "agent_id \<Rightarrow> trigger_engine \<Rightarrow> trigger_engine" where
  "te_remove_agent_triggers a eng =
     (case st_get (te_agent_triggers eng) a of
        Some ids \<Rightarrow> \<lparr>te_triggers = fold st_del ids (te_triggers eng),
                     te_agent_triggers = st_del a (te_agent_triggers eng)\<rparr>
      | None \<Rightarrow> eng)"

text \<open>The loop that moves the listed triggers out of the table, in the order of the list.\<close>

fun take_ids :: "uuid list \<Rightarrow> (uuid, trigger) store \<Rightarrow> trigger list \<times> (uuid, trigger) store" where
  "take_ids [] m = ([], m)"
| "take_ids (tid # ids) m =
     (case st_get m tid of
        Some t \<Rightarrow> (let (ts, m') = take_ids ids (st_del tid m) in (t # ts, m'))
      | None \<Rightarrow> take_ids ids m)"

definition te_take_agent_triggers :: "agent_id \<Rightarrow> trigger_engine \<Rightarrow> trigger list \<times> trigger_engine" where
  "te_take_agent_triggers a eng =
     (let (taken, m) = take_ids (index_of eng a) (te_triggers eng)
      in (taken, \<lparr>te_triggers = m, te_agent_triggers = st_del a (te_agent_triggers eng)\<rparr>))"

text \<open>Each restored trigger draws a fresh id: the model pairs them up.\<close>

definition te_restore_triggers ::
  "agent_id \<Rightarrow> (uuid \<times> trigger) list \<Rightarrow> trigger_engine \<Rightarrow> nat \<times> trigger_engine" where
  "te_restore_triggers a ts eng =
     (length ts, fold (\<lambda>(fresh, old). te_insert (old\<lparr>tr_id := fresh, tr_agent_id := a\<rparr>)) ts eng)"

definition set_owner :: "agent_id \<Rightarrow> uuid \<Rightarrow> (uuid, trigger) store \<Rightarrow> (uuid, trigger) store" where
  "set_owner a tid m =
     (case st_get m tid of Some t \<Rightarrow> st_put tid (t\<lparr>tr_agent_id := a\<rparr>) m | None \<Rightarrow> m)"

definition te_reassign_agent_triggers ::
  "agent_id \<Rightarrow> agent_id \<Rightarrow> trigger_engine \<Rightarrow> nat \<times> trigger_engine" where
  "te_reassign_agent_triggers old_id new_id eng =
     (let ids = index_of eng old_id;
          eng1 = \<lparr>te_triggers = fold (set_owner new_id) ids (te_triggers eng),
                  te_agent_triggers = st_del old_id (te_agent_triggers eng)\<rparr>
      in (length ids,
          if ids = [] then eng1
          else eng1\<lparr>te_agent_triggers :=
                      st_put new_id (index_of eng1 new_id @ ids) (te_agent_triggers eng1)\<rparr>))"

definition te_set_enabled :: "uuid \<Rightarrow> bool \<Rightarrow> trigger_engine \<Rightarrow> bool \<times> trigger_engine" where
  "te_set_enabled tid b eng =
     (case st_get (te_triggers eng) tid of
        Some t \<Rightarrow> (True, eng\<lparr>te_triggers := st_put tid (t\<lparr>tr_enabled := b\<rparr>) (te_triggers eng)\<rparr>)
      | None \<Rightarrow> (False, eng))"

definition te_list_agent_triggers :: "trigger_engine \<Rightarrow> agent_id \<Rightarrow> trigger list" where
  "te_list_agent_triggers eng a = List.map_filter (st_get (te_triggers eng)) (index_of eng a)"

definition te_list_all :: "trigger_engine \<Rightarrow> trigger list" where
  "te_list_all eng = map snd (te_triggers eng)"

definition te_get :: "trigger_engine \<Rightarrow> uuid \<Rightarrow> trigger option" where
  "te_get eng tid = st_get (te_triggers eng) tid"

text \<open>One iteration of \<open>evaluate\<close>, and the loop over the table.\<close>

definition evaluate_trigger ::
  "fmt_env \<Rightarrow> uuid \<Rightarrow> time \<Rightarrow> event_payload event \<Rightarrow> string \<Rightarrow> nat option \<Rightarrow> trigger
     \<Rightarrow> trigger_dispatch option \<times> trigger" where
  "evaluate_trigger env fresh now e description budget t =
     (if \<not> tr_enabled t then (None, t)
      else if 0 < tr_max_fires t \<and> tr_max_fires t \<le> tr_fire_count t
      then (None, t\<lparr>tr_enabled := False\<rparr>)
      else if matches_pattern env (tr_pattern t) e description
      then (Some \<lparr>td_agent_id = tr_agent_id t,
                  td_message = replace_str ''{{event}}'' description (tr_prompt_template t),
                  td_orchestration_ctx =
                    Some (case ev_payload e of
                            POrchestrationTrace ot \<Rightarrow>
                              orchestration_ctx_for_trace_trigger env fresh now ot (tr_agent_id t) budget
                          | _ \<Rightarrow>
                              orchestration_ctx_for_generic_trigger env fresh now (tr_id t)
                                (tr_pattern t) (tr_agent_id t) description budget)\<rparr>,
            t\<lparr>tr_fire_count := tr_fire_count t + 1\<rparr>)
      else (None, t))"

fun evaluate_entries ::
  "(trigger \<Rightarrow> trigger_dispatch option \<times> trigger) \<Rightarrow> (uuid, trigger) store
     \<Rightarrow> trigger_dispatch list \<times> (uuid, trigger) store" where
  "evaluate_entries f [] = ([], [])"
| "evaluate_entries f ((k, t) # m) =
     (let (d, t') = f t; (ds, m') = evaluate_entries f m
      in ((case d of Some x \<Rightarrow> x # ds | None \<Rightarrow> ds), (k, t') # m'))"

definition te_evaluate ::
  "fmt_env \<Rightarrow> uuid \<Rightarrow> time \<Rightarrow> event_payload event \<Rightarrow> nat option \<Rightarrow> trigger_engine
     \<Rightarrow> trigger_dispatch list \<times> trigger_engine" where
  "te_evaluate env fresh now e budget eng =
     (let (ds, m) = evaluate_entries
                      (evaluate_trigger env fresh now e (describe_event env e) budget)
                      (te_triggers eng)
      in (ds, eng\<lparr>te_triggers := m\<rparr>))"

section \<open>Lemmas on the tables\<close>

lemma get_fold_set_owner:
  "st_get (fold (set_owner a) ids m) k =
     (if k \<in> set ids then map_option (\<lambda>t. t\<lparr>tr_agent_id := a\<rparr>) (st_get m k) else st_get m k)"
proof (induction ids arbitrary: m)
  case Nil
  then show ?case by simp
next
  case (Cons i ids)
  have "st_get (set_owner a i m) k =
          (if k = i then map_option (\<lambda>t. t\<lparr>tr_agent_id := a\<rparr>) (st_get m k) else st_get m k)"
    by (auto simp: set_owner_def update_conv' split: option.splits)
  with Cons.IH [of "set_owner a i m"] show ?case
    by (auto simp: option.map_comp comp_def)
qed

lemma set_owner_wf: "st_wf m \<Longrightarrow> st_wf (set_owner a i m)"
  by (auto simp: set_owner_def al.wf_put split: option.splits)

lemma fold_set_owner_wf: "st_wf m \<Longrightarrow> st_wf (fold (set_owner a) ids m)"
  by (induction ids arbitrary: m) (auto simp: set_owner_wf)

lemma map_filter_cong_on:
  "(\<And>x. x \<in> set xs \<Longrightarrow> f x = g x) \<Longrightarrow> List.map_filter f xs = List.map_filter g xs"
  by (induction xs) (auto simp: map_filter_simps split: option.splits)

lemma set_map_filter: "set (List.map_filter f xs) = {y. \<exists>x \<in> set xs. f x = Some y}"
  by (induction xs) (auto simp: map_filter_simps split: option.splits)

lemma take_ids_eq:
  "distinct ids \<Longrightarrow> take_ids ids m = (List.map_filter (st_get m) ids, fold st_del ids m)"
proof (induction ids arbitrary: m)
  case Nil
  then show ?case by (simp add: map_filter_simps)
next
  case (Cons i ids)
  then have i: "i \<notin> set ids" and d: "distinct ids" by auto
  show ?case
  proof (cases "st_get m i")
    case None
    then have "st_del i m = m" by (simp add: map_of_eq_None_iff delete_idem)
    with None Cons.IH [OF d, of m] show ?thesis by (simp add: map_filter_simps)
  next
    case (Some t)
    have "List.map_filter (st_get (st_del i m)) ids = List.map_filter (st_get m) ids"
      using i by (intro map_filter_cong_on) (auto simp: delete_conv')
    with Some Cons.IH [OF d, of "st_del i m"] show ?thesis by (simp add: map_filter_simps)
  qed
qed

lemma get_evaluate_entries:
  "st_get (snd (evaluate_entries f m)) k = map_option (\<lambda>t. snd (f t)) (st_get m k)"
  by (induction m) (auto simp: split_def Let_def)

lemma keys_evaluate_entries: "map fst (snd (evaluate_entries f m)) = map fst m"
  by (induction m) (auto simp: split_def Let_def)

lemma evaluate_trigger_same [simp]:
  "tr_id (snd (evaluate_trigger env fresh now e d b t)) = tr_id t"
  "tr_agent_id (snd (evaluate_trigger env fresh now e d b t)) = tr_agent_id t"
  by (auto simp: evaluate_trigger_def)

section \<open>The index agrees with the table\<close>

definition te_wf :: "trigger_engine \<Rightarrow> bool" where
  "te_wf eng =
     (st_wf (te_triggers eng)
      \<and> (\<forall>k t. te_get eng k = Some t \<longrightarrow> tr_id t = k)
      \<and> (\<forall>a. distinct (index_of eng a))
      \<and> (\<forall>a k. k \<in> set (index_of eng a) \<longleftrightarrow> (\<exists>t. te_get eng k = Some t \<and> tr_agent_id t = a)))"

lemma te_wfD:
  assumes "te_wf eng"
  shows "st_wf (te_triggers eng)" "te_get eng k = Some t \<Longrightarrow> tr_id t = k"
    "distinct (index_of eng a)"
    "k \<in> set (index_of eng a) \<longleftrightarrow> (\<exists>t. te_get eng k = Some t \<and> tr_agent_id t = a)"
  using assms by (auto simp: te_wf_def)

lemma te_wfI:
  assumes "st_wf (te_triggers eng)" "\<And>k t. te_get eng k = Some t \<Longrightarrow> tr_id t = k"
    "\<And>a. distinct (index_of eng a)"
    "\<And>a k. k \<in> set (index_of eng a) \<longleftrightarrow> (\<exists>t. te_get eng k = Some t \<and> tr_agent_id t = a)"
  shows "te_wf eng"
  using assms by (auto simp: te_wf_def)

lemma index_of_put [simp]:
  "index_of \<lparr>te_triggers = m, te_agent_triggers = st_put a ids x\<rparr> b =
     (if b = a then ids else index_of \<lparr>te_triggers = m, te_agent_triggers = x\<rparr> b)"
  "index_of \<lparr>te_triggers = m, te_agent_triggers = st_del a x\<rparr> b =
     (if b = a then [] else index_of \<lparr>te_triggers = m, te_agent_triggers = x\<rparr> b)"
  by (simp_all add: index_of_def update_conv' delete_conv')

lemma index_of_same [simp]:
  "index_of \<lparr>te_triggers = m, te_agent_triggers = te_agent_triggers eng\<rparr> b = index_of eng b"
  "index_of (eng\<lparr>te_triggers := m\<rparr>) b = index_of eng b"
  by (simp_all add: index_of_def)

lemma te_new_wf: "te_wf te_new"
  by (simp add: te_wf_def te_new_def te_get_def index_of_def)

lemma te_insert_wf:
  assumes "te_wf eng" "te_get eng (tr_id t) = None"
  shows "te_wf (te_insert t eng)"
proof (rule te_wfI)
  have fresh: "tr_id t \<notin> set (index_of eng a)" for a using assms te_wfD(4) by fastforce
  show "st_wf (te_triggers (te_insert t eng))"
    using te_wfD(1) [OF assms(1)] by (simp add: te_insert_def al.wf_put)
  show "te_get (te_insert t eng) k = Some t' \<Longrightarrow> tr_id t' = k" for k t'
    using te_wfD(2) [OF assms(1)]
    by (auto simp: te_insert_def te_get_def update_conv' split: if_splits)
  show "distinct (index_of (te_insert t eng) a)" for a
    using te_wfD(3) [OF assms(1)] fresh by (simp add: te_insert_def)
  show "k \<in> set (index_of (te_insert t eng) a)
          \<longleftrightarrow> (\<exists>t'. te_get (te_insert t eng) k = Some t' \<and> tr_agent_id t' = a)" for a k
    using te_wfD(4) [OF assms(1)] fresh assms(2)
    by (auto simp: te_insert_def te_get_def update_conv')
qed

lemma te_get_upd [simp]:
  "te_get \<lparr>te_triggers = m, te_agent_triggers = x\<rparr> k = st_get m k"
  "te_get (eng\<lparr>te_triggers := m\<rparr>) k = st_get m k"
  by (simp_all add: te_get_def)

lemma te_remove_wf:
  assumes "te_wf eng"
  shows "te_wf (snd (te_remove k eng))"
proof (cases "st_get (te_triggers eng) k")
  case None
  then show ?thesis using assms by (simp add: te_remove_def)
next
  case (Some t)
  have k: "k \<in> set (index_of eng a) \<longleftrightarrow> a = tr_agent_id t" for a
    using te_wfD(4) [OF assms] Some by (auto simp: te_get_def)
  have idx: "st_get (te_agent_triggers eng) (tr_agent_id t) = Some (index_of eng (tr_agent_id t))"
    using k [of "tr_agent_id t"]
    by (cases "st_get (te_agent_triggers eng) (tr_agent_id t)") (simp_all add: index_of_def)
  define eng' where "eng' = snd (te_remove k eng)"
  have eng': "te_get eng' j = (if j = k then None else te_get eng j)"
    "index_of eng' a = filter (\<lambda>i. i \<noteq> k) (index_of eng a)"
    "te_triggers eng' = st_del k (te_triggers eng)" for j a
    using k [of a] Some idx
    by (auto simp: eng'_def te_remove_def te_get_def delete_conv' intro!: filter_True [symmetric])
  have "te_wf eng'"
    using te_wfD [OF assms] by (intro te_wfI) (auto simp: eng' al.wf_del split: if_splits)
  then show ?thesis by (simp add: eng'_def)
qed

lemma remove_agent_eq:
  "te_triggers (te_remove_agent_triggers a eng) = fold st_del (index_of eng a) (te_triggers eng)"
  "index_of (te_remove_agent_triggers a eng) b = (if b = a then [] else index_of eng b)"
  by (auto simp: te_remove_agent_triggers_def index_of_def delete_conv' split: option.splits)

lemma removed_wf:
  assumes "te_wf eng" "te_triggers eng' = fold st_del (index_of eng a) (te_triggers eng)"
    and "\<And>b. index_of eng' b = (if b = a then [] else index_of eng b)"
  shows "te_wf eng'"
proof -
  have "te_get eng' k = (if k \<in> set (index_of eng a) then None else te_get eng k)" for k
    by (simp add: te_get_def assms(2) fold_del_get)
  then show ?thesis
    using te_wfD [OF assms(1)]
    by (intro te_wfI) (auto simp: assms(2,3) fold_del_wf split: if_splits)
qed

lemma te_remove_agent_triggers_wf: "te_wf eng \<Longrightarrow> te_wf (te_remove_agent_triggers a eng)"
  using removed_wf [OF _ remove_agent_eq] by blast

lemma take_agent_eq:
  assumes "te_wf eng"
  shows "fst (te_take_agent_triggers a eng) = te_list_agent_triggers eng a"
    "te_triggers (snd (te_take_agent_triggers a eng)) = fold st_del (index_of eng a) (te_triggers eng)"
    "index_of (snd (te_take_agent_triggers a eng)) b = (if b = a then [] else index_of eng b)"
  using te_wfD(3) [OF assms]
  by (simp_all add: te_take_agent_triggers_def take_ids_eq te_list_agent_triggers_def)

lemma te_take_agent_triggers_wf: "te_wf eng \<Longrightarrow> te_wf (snd (te_take_agent_triggers a eng))"
  by (rule removed_wf) (simp_all add: take_agent_eq)

lemma te_set_enabled_wf:
  assumes "te_wf eng"
  shows "te_wf (snd (te_set_enabled k b eng))"
proof (cases "st_get (te_triggers eng) k")
  case None
  then show ?thesis using assms by (simp add: te_set_enabled_def)
next
  case (Some t)
  then show ?thesis
    using te_wfD [OF assms] te_wfD(2) [OF assms, of k t]
    by (intro te_wfI)
       (auto simp: te_set_enabled_def te_get_def al.wf_put update_conv' split: if_splits)
qed

lemma te_evaluate_wf:
  assumes "te_wf eng"
  shows "te_wf (snd (te_evaluate env fresh now e budget eng))"
  using te_wfD [OF assms]
  by (intro te_wfI)
     (auto simp: te_evaluate_def split_def Let_def get_evaluate_entries te_get_def st_wf_def
                 keys_evaluate_entries)

lemma te_reassign_wf:
  assumes "te_wf eng"
  shows "te_wf (snd (te_reassign_agent_triggers a b eng))"
proof -
  define eng' where "eng' = snd (te_reassign_agent_triggers a b eng)"
  have idx: "index_of eng' c =
      (if c = b then (if b = a then [] else index_of eng b) @ index_of eng a
       else if c = a then [] else index_of eng c)" for c
    by (auto simp: eng'_def te_reassign_agent_triggers_def Let_def)
  have trig: "te_triggers eng' = fold (set_owner b) (index_of eng a) (te_triggers eng)"
    by (simp add: eng'_def te_reassign_agent_triggers_def Let_def)
  have get: "te_get eng' k =
      (if k \<in> set (index_of eng a) then map_option (\<lambda>t. t\<lparr>tr_agent_id := b\<rparr>) (te_get eng k)
       else te_get eng k)" for k
    by (simp add: te_get_def trig get_fold_set_owner)
  have "te_wf eng'"
  proof (rule te_wfI)
    show "st_wf (te_triggers eng')" using te_wfD(1) [OF assms] by (simp add: trig fold_set_owner_wf)
    show "te_get eng' k = Some t \<Longrightarrow> tr_id t = k" for k t
      using te_wfD(2) [OF assms] by (auto simp: get split: if_splits)
    have "set (index_of eng a) \<inter> set (index_of eng b) = {}" if "a \<noteq> b"
      using te_wfD(4) [OF assms] that by auto
    then show "distinct (index_of eng' c)" for c
      using te_wfD(3) [OF assms] by (auto simp: idx)
    show "k \<in> set (index_of eng' c) \<longleftrightarrow> (\<exists>t. te_get eng' k = Some t \<and> tr_agent_id t = c)" for c k
      using te_wfD(4) [OF assms] by (auto simp: idx get)
  qed
  then show ?thesis by (simp add: eng'_def)
qed

lemma te_restore_wf:
  assumes "te_wf eng" "distinct (map fst ts)" "\<forall>i \<in> fst ` set ts. te_get eng i = None"
  shows "te_wf (snd (te_restore_triggers a ts eng))"
  using assms
proof (induction ts arbitrary: eng)
  case Nil
  then show ?case by (simp add: te_restore_triggers_def)
next
  case (Cons x ts)
  obtain i old where x: "x = (i, old)" by (cases x)
  let ?e = "te_insert (old\<lparr>tr_id := i, tr_agent_id := a\<rparr>) eng"
  have "te_wf ?e" using Cons.prems by (intro te_insert_wf) (auto simp: x)
  moreover have "\<forall>j \<in> fst ` set ts. te_get ?e j = None"
    using Cons.prems by (force simp: x te_insert_def update_conv' te_get_def)
  ultimately show ?case using Cons.IH [of ?e] Cons.prems by (simp add: x te_restore_triggers_def)
qed

section \<open>Reachable engines\<close>

inductive te_reachable :: "trigger_engine \<Rightarrow> bool" where
  start: "te_reachable te_new"
| register: "te_reachable eng \<Longrightarrow> te_get eng fresh = None \<Longrightarrow>
    te_reachable (snd (te_register fresh now a p prompt max_fires eng))"
| remove: "te_reachable eng \<Longrightarrow> te_reachable (snd (te_remove k eng))"
| remove_agent: "te_reachable eng \<Longrightarrow> te_reachable (te_remove_agent_triggers a eng)"
| take_agent: "te_reachable eng \<Longrightarrow> te_reachable (snd (te_take_agent_triggers a eng))"
| restore: "te_reachable eng \<Longrightarrow> distinct (map fst ts) \<Longrightarrow>
    \<forall>i \<in> fst ` set ts. te_get eng i = None \<Longrightarrow>
    te_reachable (snd (te_restore_triggers a ts eng))"
| reassign: "te_reachable eng \<Longrightarrow> te_reachable (snd (te_reassign_agent_triggers a b eng))"
| set_enabled: "te_reachable eng \<Longrightarrow> te_reachable (snd (te_set_enabled k b eng))"
| evaluate: "te_reachable eng \<Longrightarrow> te_reachable (snd (te_evaluate env fresh now e budget eng))"

lemmas te_op_wf [inv_intros] =
  te_new_wf te_remove_wf te_remove_agent_triggers_wf te_take_agent_triggers_wf te_restore_wf
  te_reassign_wf te_set_enabled_wf te_evaluate_wf

lemma reachable_wf: "te_reachable eng \<Longrightarrow> te_wf eng"
  by (induction rule: te_reachable.induct)
     (simp_all add: te_op_wf te_register_def te_insert_wf)

section \<open>Properties\<close>

lemma map_filter_index:
  "set (te_list_agent_triggers eng a) = {t. \<exists>k \<in> set (index_of eng a). te_get eng k = Some t}"
  by (simp add: te_list_agent_triggers_def set_map_filter te_get_def)

lemma get_entry: "te_wf eng \<Longrightarrow> te_get eng k = Some t \<longleftrightarrow> (k, t) \<in> set (te_triggers eng)"
  using te_wfD(1) [of eng] by (simp add: te_get_def st_wf_def)

lemma list_all_get: "te_wf eng \<Longrightarrow> set (te_list_all eng) = {t. \<exists>k. te_get eng k = Some t}"
  by (force simp: te_list_all_def get_entry)

text \<open>With the ids of the listed triggers in the index's order, no trigger is listed twice.\<close>

lemma list_agent_ids:
  assumes "te_wf eng"
  shows "map tr_id (te_list_agent_triggers eng a) = index_of eng a"
proof -
  have "set ids \<subseteq> set (index_of eng a) \<Longrightarrow>
        map tr_id (List.map_filter (st_get (te_triggers eng)) ids) = ids" for ids
  proof (induction ids)
    case Nil
    then show ?case by (simp add: map_filter_simps)
  next
    case (Cons i ids)
    then obtain t where "te_get eng i = Some t" using te_wfD(4) [OF assms] by auto
    with Cons te_wfD(2) [OF assms] show ?case by (simp add: map_filter_simps te_get_def)
  qed
  then show ?thesis by (simp add: te_list_agent_triggers_def)
qed

text \<open>
  Ownership of triggers: in every engine reachable by registering, removing, taking,
  restoring, reassigning, enabling and firing triggers, the triggers listed for an agent
  are exactly the table's triggers that name it as owner, each once, and removing an
  agent's triggers leaves exactly those of the others.
\<close>

lemma trigger_ownership:
  assumes "te_reachable eng"
  shows "distinct (te_list_agent_triggers eng a)
    \<and> set (te_list_agent_triggers eng a) = {t \<in> set (te_list_all eng). tr_agent_id t = a}
    \<and> te_list_all (te_remove_agent_triggers a eng) =
        filter (\<lambda>t. tr_agent_id t \<noteq> a) (te_list_all eng)"
proof (intro conjI)
  note wf = reachable_wf [OF assms]
  show "distinct (te_list_agent_triggers eng a)"
    using te_wfD(3) [OF wf] list_agent_ids [OF wf] by (metis distinct_map)
  show "set (te_list_agent_triggers eng a) = {t \<in> set (te_list_all eng). tr_agent_id t = a}"
    using te_wfD(4) [OF wf] by (auto simp: map_filter_index list_all_get wf)
  have "fst e \<in> set (index_of eng a) \<longleftrightarrow> tr_agent_id (snd e) = a" if "e \<in> set (te_triggers eng)" for e
  proof -
    have "te_get eng (fst e) = Some (snd e)" using that get_entry [OF wf] by simp
    then show ?thesis using te_wfD(4) [OF wf, of "fst e" a] by simp
  qed
  then show "te_list_all (te_remove_agent_triggers a eng) =
           filter (\<lambda>t. tr_agent_id t \<noteq> a) (te_list_all eng)"
    by (simp add: te_list_all_def remove_agent_eq fold_del_filter filter_map comp_def
             cong: filter_cong)
qed

definition two_triggers :: trigger_engine where
  "two_triggers =
     snd (te_register 12 0 8 TPAll ''b'' 0
       (snd (te_register 11 0 7 (TPAgentSpawned ''dev'') ''saw {{event}}'' 1 te_new)))"

lemma two_triggers_reachable: "te_reachable two_triggers"
  unfolding two_triggers_def
  by (intro te_reachable.intros) (simp_all add: te_register_def te_insert_def te_new_def te_get_def)

lemma trigger_ownership_witness:
  "te_reachable two_triggers
   \<and> map tr_id (te_list_agent_triggers two_triggers 7) = [11]
   \<and> te_list_all (te_remove_agent_triggers 7 two_triggers) =
       filter (\<lambda>t. tr_agent_id t \<noteq> 7) (te_list_all two_triggers)"
proof (intro conjI)
  show "te_reachable two_triggers" by (rule two_triggers_reachable)
  show "map tr_id (te_list_agent_triggers two_triggers 7) = [11]"
    by (simp add: two_triggers_def te_register_def te_insert_def te_new_def index_of_def
        te_list_agent_triggers_def map_filter_simps)
  show "te_list_all (te_remove_agent_triggers 7 two_triggers) =
       filter (\<lambda>t. tr_agent_id t \<noteq> 7) (te_list_all two_triggers)"
    using trigger_ownership [OF two_triggers_reachable, of 7] by blast
qed

text \<open>The fires a trigger has left, and how an event and the enable switch change them.\<close>

definition fires_left :: "trigger \<Rightarrow> nat" where
  "fires_left t = tr_max_fires t - tr_fire_count t"

definition agent_fires_left :: "agent_id \<Rightarrow> trigger_engine \<Rightarrow> nat" where
  "agent_fires_left a eng = (\<Sum>t \<leftarrow> te_list_all eng. if tr_agent_id t = a then fires_left t else 0)"

definition wakes :: "agent_id \<Rightarrow> trigger_dispatch list \<Rightarrow> nat" where
  "wakes a ds = length (filter (\<lambda>d. td_agent_id d = a) ds)"

definition all_limited :: "agent_id \<Rightarrow> trigger list \<Rightarrow> bool" where
  "all_limited a ts = (\<forall>t \<in> set ts. tr_agent_id t = a \<longrightarrow> 0 < tr_max_fires t)"

lemma evaluate_trigger_fires:
  assumes "0 < tr_max_fires t"
  shows "fires_left t = fires_left (snd (evaluate_trigger env fresh now e d b t))
           + (if fst (evaluate_trigger env fresh now e d b t) = None then 0 else 1)"
  using assms by (auto simp: evaluate_trigger_def fires_left_def)

lemma evaluate_trigger_target:
  "fst (evaluate_trigger env fresh now e d b t) = Some x \<Longrightarrow> td_agent_id x = tr_agent_id t"
  by (auto simp: evaluate_trigger_def split: if_splits)

lemma evaluate_trigger_max [simp]:
  "tr_max_fires (snd (evaluate_trigger env fresh now e d b t)) = tr_max_fires t"
  by (auto simp: evaluate_trigger_def)

lemma evaluate_entries_fires:
  fixes env fresh now e d b
  defines "f \<equiv> evaluate_trigger env fresh now e d b"
  shows "all_limited a (map snd m) \<Longrightarrow>
    all_limited a (map snd (snd (evaluate_entries f m)))
    \<and> (\<Sum>t \<leftarrow> map snd m. if tr_agent_id t = a then fires_left t else 0) =
        wakes a (fst (evaluate_entries f m))
        + (\<Sum>t \<leftarrow> map snd (snd (evaluate_entries f m)). if tr_agent_id t = a then fires_left t else 0)"
proof (induction m)
  case Nil
  then show ?case by (simp add: wakes_def)
next
  case (Cons x m)
  obtain k t where x: "x = (k, t)" by (cases x)
  have ft: "tr_agent_id (snd (f t)) = tr_agent_id t" "tr_max_fires (snd (f t)) = tr_max_fires t"
    by (simp_all add: f_def)
  have "fst (f t) = Some y \<Longrightarrow> td_agent_id y = tr_agent_id t" for y
    by (simp add: f_def evaluate_trigger_target)
  then have w: "wakes a (case fst (f t) of Some y \<Rightarrow> y # ds | None \<Rightarrow> ds) =
          wakes a ds + (if fst (f t) = None \<or> tr_agent_id t \<noteq> a then 0 else 1)" for ds
    by (auto simp: wakes_def split: option.splits)
  have "tr_agent_id t = a \<Longrightarrow> fires_left t = fires_left (snd (f t)) + (if fst (f t) = None then 0 else 1)"
    using Cons.prems evaluate_trigger_fires by (simp add: all_limited_def x f_def)
  then show ?case
    using Cons by (simp add: x split_def Let_def w all_limited_def ft)
qed

datatype te_event =
    Evaluate fmt_env uuid time "event_payload event" "nat option"
  | SetEnabled uuid bool

fun te_play :: "te_event list \<Rightarrow> trigger_engine \<Rightarrow> trigger_dispatch list \<times> trigger_engine" where
  "te_play [] eng = ([], eng)"
| "te_play (Evaluate env fresh now e budget # es) eng =
     (let (ds, eng1) = te_evaluate env fresh now e budget eng; (ds', eng2) = te_play es eng1
      in (ds @ ds', eng2))"
| "te_play (SetEnabled k b # es) eng = te_play es (snd (te_set_enabled k b eng))"

lemma update_values:
  "st_get m k = Some t \<Longrightarrow> \<exists>xs ys. map snd m = xs @ t # ys \<and> map snd (st_put k t' m) = xs @ t' # ys"
proof (induction m)
  case Nil
  then show ?case by simp
next
  case (Cons x m)
  show ?case
  proof (cases "fst x = k")
    case True
    then show ?thesis using Cons.prems
      by (intro exI [of _ "[]"] exI [of _ "map snd m"]) (cases x, auto)
  next
    case False
    then obtain xs ys where "map snd m = xs @ t # ys" "map snd (st_put k t' m) = xs @ t' # ys"
      using Cons by (auto split: if_splits)
    then show ?thesis using False by (intro exI [of _ "snd x # xs"] exI [of _ ys]) (cases x, auto)
  qed
qed

lemma set_enabled_fires:
  "agent_fires_left a (snd (te_set_enabled k b eng)) = agent_fires_left a eng
   \<and> all_limited a (te_list_all (snd (te_set_enabled k b eng))) = all_limited a (te_list_all eng)"
proof (cases "st_get (te_triggers eng) k")
  case None
  then show ?thesis by (simp add: te_set_enabled_def)
next
  case (Some t)
  obtain xs ys where "map snd (te_triggers eng) = xs @ t # ys"
    "map snd (st_put k (t\<lparr>tr_enabled := b\<rparr>) (te_triggers eng)) = xs @ t\<lparr>tr_enabled := b\<rparr> # ys"
    using update_values [OF Some] by blast
  then show ?thesis
    by (simp add: te_set_enabled_def Some agent_fires_left_def te_list_all_def all_limited_def
        fires_left_def)
qed

text \<open>
  Bounded wake-ups: when every trigger of an agent has a fire limit, then over any
  sequence of events, with triggers switched on and off in between, the agent is woken
  exactly as many times as its triggers use up fires, hence at most as often as they had
  left at the start.
\<close>

lemma wakes_bounded_by_fires_left:
  assumes "all_limited a (te_list_all eng)"
  shows "wakes a (fst (te_play es eng)) + agent_fires_left a (snd (te_play es eng))
           = agent_fires_left a eng"
  using assms
proof (induction es eng rule: te_play.induct)
  case (2 env fresh now e budget es eng)
  obtain ds eng1 where ev: "te_evaluate env fresh now e budget eng = (ds, eng1)" by fastforce
  have "all_limited a (te_list_all eng1)
        \<and> agent_fires_left a eng = wakes a ds + agent_fires_left a eng1"
    using evaluate_entries_fires [of a "te_triggers eng"] 2(2) ev
    by (auto simp: te_evaluate_def agent_fires_left_def te_list_all_def split_def Let_def)
  then show ?case using 2(1) [of "(ds, eng1)"] ev by (simp add: split_def Let_def wakes_def)
qed (simp_all add: set_enabled_fires wakes_def)

definition spawn_event :: "event_payload event" where
  "spawn_event = event_new 90 5 3 System (PLifecycle (Spawned 4 ''devbot''))"

lemma wakes_bounded_by_fires_left_witness:
  "all_limited 7 (te_list_all two_triggers)
   \<and> (let es = [Evaluate fmt_env_ascii 1 0 spawn_event None, SetEnabled 11 True,
                Evaluate fmt_env_ascii 2 0 spawn_event None]
      in wakes 7 (fst (te_play es two_triggers)) \<le> 1)"
proof -
  have lim: "all_limited 7 (te_list_all two_triggers)"
    and left: "agent_fires_left 7 two_triggers = 1"
    by (simp_all add: all_limited_def te_list_all_def two_triggers_def te_register_def
        te_insert_def te_new_def index_of_def agent_fires_left_def fires_left_def)
  have "wakes 7 (fst (te_play es two_triggers)) \<le> 1" for es
    using wakes_bounded_by_fires_left [OF lim, of es] left by linarith
  then show ?thesis using lim by (simp add: Let_def)
qed

text \<open>Restoring appends to the new owner's list and leaves the other agents alone.\<close>

definition rekey :: "agent_id \<Rightarrow> uuid \<times> trigger \<Rightarrow> trigger" where
  "rekey a = (\<lambda>(fresh, old). old\<lparr>tr_id := fresh, tr_agent_id := a\<rparr>)"

lemma list_insert:
  assumes "te_wf eng" "te_get eng (tr_id t) = None"
  shows "te_list_agent_triggers (te_insert t eng) c =
           te_list_agent_triggers eng c @ (if c = tr_agent_id t then [t] else [])"
proof -
  have fresh: "tr_id t \<notin> set (index_of eng b)" for b using assms te_wfD(4) by fastforce
  have "List.map_filter (st_get (st_put (tr_id t) t (te_triggers eng))) (index_of eng b) =
        List.map_filter (st_get (te_triggers eng)) (index_of eng b)" for b
    using fresh [of b] by (intro map_filter_cong_on) (auto simp: update_conv')
  then show ?thesis
    by (simp add: te_list_agent_triggers_def te_insert_def List.map_filter_def update_conv')
qed

lemma list_restore:
  assumes "te_wf eng" "distinct (map fst ts)" "\<forall>i \<in> fst ` set ts. te_get eng i = None"
  shows "te_list_agent_triggers (snd (te_restore_triggers a ts eng)) c =
           te_list_agent_triggers eng c @ (if c = a then map (rekey a) ts else [])"
  using assms
proof (induction ts arbitrary: eng)
  case Nil
  then show ?case by (simp add: te_restore_triggers_def)
next
  case (Cons x ts)
  obtain i old where x: "x = (i, old)" by (cases x)
  let ?t = "old\<lparr>tr_id := i, tr_agent_id := a\<rparr>"
  have fr: "te_get eng (tr_id ?t) = None" using Cons.prems by (simp add: x)
  have "\<forall>j \<in> fst ` set ts. te_get (te_insert ?t eng) j = None"
    using Cons.prems by (force simp: x te_insert_def update_conv' te_get_def)
  then have "te_list_agent_triggers (snd (te_restore_triggers a ts (te_insert ?t eng))) c =
      te_list_agent_triggers (te_insert ?t eng) c @ (if c = a then map (rekey a) ts else [])"
    using Cons.IH [of "te_insert ?t eng"] Cons.prems te_insert_wf [OF Cons.prems(1) fr] by simp
  then show ?case
    using list_insert [OF Cons.prems(1) fr, of c]
    by (simp add: x te_restore_triggers_def rekey_def split: if_splits)
qed

lemma list_taken:
  assumes "te_wf eng"
  shows "te_list_agent_triggers (snd (te_take_agent_triggers a eng)) c =
           (if c = a then [] else te_list_agent_triggers eng c)"
proof (cases "c = a")
  case True
  then show ?thesis by (simp add: te_list_agent_triggers_def take_agent_eq assms map_filter_simps)
next
  case False
  have "set (index_of eng c) \<inter> set (index_of eng a) = {}"
    using te_wfD(4) [OF assms] False by auto
  then have "List.map_filter (st_get (fold st_del (index_of eng a) (te_triggers eng))) (index_of eng c)
        = List.map_filter (st_get (te_triggers eng)) (index_of eng c)"
    by (intro map_filter_cong_on) (auto simp: fold_del_get)
  with False show ?thesis by (simp add: te_list_agent_triggers_def take_agent_eq assms)
qed

text \<open>
  Hand reactivation keeps the triggers: taking an agent's triggers, removing the dead
  agent's remaining entries and restoring them with fresh ids under the new agent gives
  the new agent, after its own triggers, every trigger of the old one in order, equal in
  all but id and owner; the old agent keeps none and every other agent's list is unchanged.
\<close>

lemma reactivation_keeps_triggers:
  assumes "te_reachable eng" "a \<noteq> b"
    and "te_take_agent_triggers a eng = (taken, eng1)"
    and "length ids = length taken" "distinct ids" "\<forall>i \<in> set ids. te_get eng i = None"
  shows "let eng2 = snd (te_restore_triggers b (zip ids taken) (te_remove_agent_triggers a eng1)) in
         taken = te_list_agent_triggers eng a
         \<and> te_list_agent_triggers eng2 b = te_list_agent_triggers eng b @ map (rekey b) (zip ids taken)
         \<and> te_list_agent_triggers eng2 a = []
         \<and> (\<forall>c. c \<noteq> a \<and> c \<noteq> b \<longrightarrow> te_list_agent_triggers eng2 c = te_list_agent_triggers eng c)"
proof -
  note wf = reachable_wf [OF assms(1)]
  have eng1: "eng1 = snd (te_take_agent_triggers a eng)" and tk: "taken = te_list_agent_triggers eng a"
    using assms(3) take_agent_eq(1) [OF wf, of a] by auto
  have idx: "st_get (te_agent_triggers eng1) a = None"
    by (simp add: eng1 te_take_agent_triggers_def split_def Let_def delete_conv')
  then have rm: "te_remove_agent_triggers a eng1 = eng1" by (simp add: te_remove_agent_triggers_def)
  have wf1: "te_wf eng1" by (simp add: eng1 te_take_agent_triggers_wf wf)
  have "\<forall>i \<in> set ids. te_get eng1 i = None"
    using assms(6) by (simp add: te_get_def eng1 take_agent_eq(2) [OF wf] fold_del_get)
  then have "te_list_agent_triggers (snd (te_restore_triggers b (zip ids taken) eng1)) c =
      te_list_agent_triggers eng1 c @ (if c = b then map (rekey b) (zip ids taken) else [])" for c
    using assms(4,5) by (intro list_restore [OF wf1]) (auto dest: set_zip_leftD)
  then show ?thesis
    using assms(2) unfolding rm by (simp add: Let_def tk [symmetric] eng1 list_taken [OF wf])
qed

lemma reactivation_keeps_triggers_witness:
  "te_list_agent_triggers
     (snd (te_restore_triggers 9 (zip [21] (fst (te_take_agent_triggers 7 two_triggers)))
        (te_remove_agent_triggers 7 (snd (te_take_agent_triggers 7 two_triggers))))) 9
   = map (rekey 9) (zip [21] (te_list_agent_triggers two_triggers 7))"
proof -
  have two: "te_list_agent_triggers two_triggers 9 = []"
    "length (te_list_agent_triggers two_triggers 7) = 1" "te_get two_triggers 21 = None"
    by (simp_all add: two_triggers_def te_register_def te_insert_def te_new_def index_of_def
        te_list_agent_triggers_def map_filter_simps te_get_def)
  note fst_taken = take_agent_eq(1) [OF reachable_wf [OF two_triggers_reachable], of 7]
  then have tk: "te_take_agent_triggers 7 two_triggers =
      (te_list_agent_triggers two_triggers 7, snd (te_take_agent_triggers 7 two_triggers))"
    by (simp add: prod_eq_iff)
  show ?thesis
    using reactivation_keeps_triggers [OF two_triggers_reachable _ tk, of 9 "[21]"] two
    by (simp add: Let_def fst_taken)
qed

end
