(* ===== verification/Messages.thy ===== *)
theory Messages
  imports Orchestration
begin

text \<open>
  Conversation messages (\<^verbatim>\<open>crates/openfang-types/src/message.rs\<close>): roles, content blocks and the
  helpers on them. The text of a JSON value (\<^verbatim>\<open>Value::to_string\<close>) is a parameter.
\<close>

datatype role = SystemRole | UserRole | AssistantRole

datatype content_block =
    TextBlock string "json option"
  | ImageBlock string string
  | ToolUse string string json "json option"
  | ToolResult string string string bool
  | Thinking string
  | UnknownBlock

datatype message_content = TextContent string | Blocks "content_block list"

record message =
  m_role :: role
  m_content :: message_content
  m_orchestration_ctx :: "orchestration_context option"

datatype stop_reason = EndTurn | StopToolUse | MaxTokens | StopSequence

definition ALLOWED_IMAGE_TYPES :: "string list" where
  "ALLOWED_IMAGE_TYPES = [''image/png'', ''image/jpeg'', ''image/gif'', ''image/webp'']"

definition MAX_IMAGE_BYTES :: nat where
  "MAX_IMAGE_BYTES = 5 * 1024 * 1024"

datatype image_error = UnsupportedImageType string | ImageTooLarge nat nat

definition validate_image :: "string \<Rightarrow> string \<Rightarrow> (image_error, unit) result" where
  "validate_image media_type data =
     (if media_type \<notin> set ALLOWED_IMAGE_TYPES then Inl (UnsupportedImageType media_type)
      else let max_b64_len = MAX_IMAGE_BYTES * 4 div 3 + 4 in
           if length data > max_b64_len then Inl (ImageTooLarge (length data) max_b64_len)
           else Inr ())"

definition block_text_length :: "(json \<Rightarrow> string) \<Rightarrow> content_block \<Rightarrow> nat" where
  "block_text_length to_str b =
     (case b of
        TextBlock t _ \<Rightarrow> length t
      | ToolResult _ _ content _ \<Rightarrow> length content
      | Thinking t \<Rightarrow> length t
      | ToolUse _ name input _ \<Rightarrow> length name + length (to_str input)
      | ImageBlock _ _ \<Rightarrow> 0
      | UnknownBlock \<Rightarrow> 0)"

definition text_length :: "(json \<Rightarrow> string) \<Rightarrow> message_content \<Rightarrow> nat" where
  "text_length to_str c =
     (case c of TextContent s \<Rightarrow> length s
      | Blocks bs \<Rightarrow> sum_list (map (block_text_length to_str) bs))"

definition text_content :: "message_content \<Rightarrow> string" where
  "text_content c =
     (case c of TextContent s \<Rightarrow> s
      | Blocks bs \<Rightarrow> concat (map (\<lambda>b. case b of TextBlock t _ \<Rightarrow> t | _ \<Rightarrow> []) bs))"

definition system_message :: "string \<Rightarrow> message" where
  "system_message s =
     \<lparr>m_role = SystemRole, m_content = TextContent s, m_orchestration_ctx = None\<rparr>"

definition user_message :: "string \<Rightarrow> message" where
  "user_message s = \<lparr>m_role = UserRole, m_content = TextContent s, m_orchestration_ctx = None\<rparr>"

definition user_with_blocks :: "content_block list \<Rightarrow> message" where
  "user_with_blocks bs = \<lparr>m_role = UserRole, m_content = Blocks bs, m_orchestration_ctx = None\<rparr>"

definition assistant_message :: "string \<Rightarrow> message" where
  "assistant_message s =
     \<lparr>m_role = AssistantRole, m_content = TextContent s, m_orchestration_ctx = None\<rparr>"

section \<open>Blocks, tool uses and tool results of a history\<close>

definition content_blocks :: "message_content \<Rightarrow> content_block list" where
  "content_blocks c = (case c of TextContent _ \<Rightarrow> [] | Blocks bs \<Rightarrow> bs)"

definition block_uses :: "content_block \<Rightarrow> string list" where
  "block_uses b = (case b of ToolUse i _ _ _ \<Rightarrow> [i] | _ \<Rightarrow> [])"

definition block_results :: "content_block \<Rightarrow> string list" where
  "block_results b = (case b of ToolResult i _ _ _ \<Rightarrow> [i] | _ \<Rightarrow> [])"

definition uses_of :: "content_block list \<Rightarrow> string list" where
  "uses_of bs = concat (map block_uses bs)"

definition results_of :: "content_block list \<Rightarrow> string list" where
  "results_of bs = concat (map block_results bs)"

abbreviation m_blocks :: "message \<Rightarrow> content_block list" where
  "m_blocks m \<equiv> content_blocks (m_content m)"

definition use_ids :: "message list \<Rightarrow> string list" where
  "use_ids ms = concat (map (\<lambda>m. uses_of (m_blocks m)) ms)"

definition result_ids :: "message list \<Rightarrow> string list" where
  "result_ids ms = concat (map (\<lambda>m. results_of (m_blocks m)) ms)"

lemma uses_of_simps [simp]:
  "uses_of [] = []" "uses_of (b # bs) = block_uses b @ uses_of bs"
  "uses_of (bs @ cs) = uses_of bs @ uses_of cs"
  by (simp_all add: uses_of_def)

lemma results_of_simps [simp]:
  "results_of [] = []" "results_of (b # bs) = block_results b @ results_of bs"
  "results_of (bs @ cs) = results_of bs @ results_of cs"
  by (simp_all add: results_of_def)

lemma use_ids_simps [simp]:
  "use_ids [] = []" "use_ids (m # ms) = uses_of (m_blocks m) @ use_ids ms"
  "use_ids (ms @ ns) = use_ids ms @ use_ids ns"
  by (simp_all add: use_ids_def)

lemma result_ids_simps [simp]:
  "result_ids [] = []" "result_ids (m # ms) = results_of (m_blocks m) @ result_ids ms"
  "result_ids (ms @ ns) = result_ids ms @ result_ids ns"
  by (simp_all add: result_ids_def)

lemma content_blocks_simps [simp]:
  "content_blocks (TextContent s) = []" "content_blocks (Blocks bs) = bs"
  by (simp_all add: content_blocks_def)

lemma block_ids_simps [simp]:
  "block_uses (ToolUse i n j p) = [i]" "block_results (ToolUse i n j p) = []"
  "block_uses (ToolResult i n c e) = []" "block_results (ToolResult i n c e) = [i]"
  "block_uses (TextBlock t p) = []" "block_results (TextBlock t p) = []"
  by (simp_all add: block_uses_def block_results_def)

end
