(* ===== verification/Utf8.thy ===== *)
theory Utf8
  imports Prelude
begin

text \<open>
  Byte offsets into UTF-8 text: slices that panic, searches from the right, and what is needed to
  show that a slice never panics. A Rust string is a list of bytes that is well-formed UTF-8; the
  only facts used are that a lead byte is followed by its continuation bytes and that no other
  continuation bytes occur.
\<close>

section \<open>Slices and searches\<close>

text \<open>\<^verbatim>\<open>&s[a..b]\<close>: None where Rust panics.\<close>

definition slice :: "string \<Rightarrow> nat \<Rightarrow> nat \<Rightarrow> string option" where
  "slice s a b =
     (if a \<le> b \<and> b \<le> length s \<and> is_char_boundary s a \<and> is_char_boundary s b
      then Some (take (b - a) (drop a s)) else None)"

text \<open>The nearest character boundary at or after an offset.\<close>

fun boundary_above_upto :: "string \<Rightarrow> nat \<Rightarrow> nat \<Rightarrow> nat" where
  "boundary_above_upto s i 0 = i"
| "boundary_above_upto s i (Suc k) =
     (if is_char_boundary s i then i else boundary_above_upto s (Suc i) k)"

text \<open>\<^verbatim>\<open>str::rfind\<close>: the offset of the last occurrence.\<close>

fun rfind_str :: "string \<Rightarrow> string \<Rightarrow> nat option" where
  "rfind_str p [] = (if p = [] then Some 0 else None)"
| "rfind_str p (c # s) =
     (case rfind_str p s of
        Some i \<Rightarrow> Some (Suc i)
      | None \<Rightarrow> if starts_with (c # s) p then Some 0 else None)"

lemma rfind_Some: "rfind_str p s = Some i \<Longrightarrow> i + length p \<le> length s \<and> prefix p (drop i s)"
  by (induction s arbitrary: i)
     (auto simp: starts_with_def split: option.splits if_splits dest: prefix_length_le)

lemma slice_Some:
  "slice s a b = Some t \<longleftrightarrow>
     a \<le> b \<and> b \<le> length s \<and> is_char_boundary s a \<and> is_char_boundary s b \<and> t = take (b - a) (drop a s)"
  by (auto simp: slice_def)

lemma boundary_0 [simp]: "is_char_boundary s 0"
  by (simp add: is_char_boundary_def)

lemma boundary_length [simp]: "is_char_boundary s (length s)"
  by (simp add: is_char_boundary_def)

lemma boundary_le: "is_char_boundary s i \<Longrightarrow> i \<le> length s"
  by (auto simp: is_char_boundary_def)

lemma boundary_byte:
  "0 < i \<Longrightarrow> i < length s \<Longrightarrow> is_char_boundary s i \<longleftrightarrow> \<not> is_continuation (s ! i)"
  by (simp add: is_char_boundary_def is_continuation_def)

lemma boundary_above_upto_ge: "i \<le> boundary_above_upto s i k \<and> boundary_above_upto s i k \<le> i + k"
  by (induction s i k rule: boundary_above_upto.induct) auto

lemma boundary_above_upto_boundary:
  "is_char_boundary s (i + k) \<Longrightarrow> is_char_boundary s (boundary_above_upto s i k)"
  by (induction s i k rule: boundary_above_upto.induct) auto

section \<open>Well-formed text\<close>

definition lead_len :: "char \<Rightarrow> nat" where
  "lead_len c =
     (let b = of_char c :: nat
      in if b < 128 then 1 else if b < 192 then 0 else if b < 224 then 2 else if b < 240 then 3 else 4)"

fun utf8_from :: "nat \<Rightarrow> string \<Rightarrow> bool" where
  "utf8_from k [] = (k = 0)"
| "utf8_from 0 (c # s) = (lead_len c \<noteq> 0 \<and> utf8_from (lead_len c - 1) s)"
| "utf8_from (Suc k) (c # s) = (is_continuation c \<and> utf8_from k s)"

text \<open>A string, with no continuation bytes of an earlier character left to read.\<close>

definition utf8 :: "string \<Rightarrow> bool" where
  "utf8 s = utf8_from 0 s"

lemma lead_len_0: "lead_len c = 0 \<longleftrightarrow> is_continuation c"
  by (auto simp: lead_len_def is_continuation_def Let_def)

lemma ascii_lead [simp]: "(of_char c :: nat) < 128 \<Longrightarrow> lead_len c = 1"
  by (simp add: lead_len_def)

lemma utf8_from_head: "utf8_from k (c # s) \<Longrightarrow> is_continuation c \<longleftrightarrow> k \<noteq> 0"
  by (cases k) (auto simp: lead_len_0)

lemma utf8_from_append: "utf8_from k a \<Longrightarrow> utf8_from 0 b \<Longrightarrow> utf8_from k (a @ b)"
  by (induction k a rule: utf8_from.induct) auto

lemma utf8_from_cut:
  assumes "utf8_from k s" and "i \<le> length s" and "i < length s \<longrightarrow> \<not> is_continuation (s ! i)"
  shows "utf8_from k (take i s) \<and> utf8_from 0 (drop i s)"
  using assms
proof (induction k s arbitrary: i rule: utf8_from.induct)
  case (2 c s)
  then show ?case by (cases i) (auto simp: lead_len_0)
next
  case (3 k c s)
  then show ?case by (cases i) auto
qed simp

lemma utf8_append [intro]: "utf8 a \<Longrightarrow> utf8 b \<Longrightarrow> utf8 (a @ b)"
  by (simp add: utf8_def utf8_from_append)

lemma utf8_Nil [simp]: "utf8 []"
  by (simp add: utf8_def)

lemma utf8_cut:
  assumes "utf8 s" and "is_char_boundary s i"
  shows "utf8 (take i s)" and "utf8 (drop i s)"
proof -
  have "i = 0 \<or> (i < length s \<longrightarrow> \<not> is_continuation (s ! i))"
    using boundary_byte [of i s] assms(2) by blast
  then show "utf8 (take i s)" "utf8 (drop i s)"
    using utf8_from_cut [of 0 s i] boundary_le [OF assms(2)] assms(1) by (auto simp: utf8_def)
qed

lemma utf8_slice: "utf8 s \<Longrightarrow> slice s a b = Some t \<Longrightarrow> utf8 t"
proof -
  assume s: "utf8 s" and t: "slice s a b = Some t"
  then have le: "a \<le> b" and b: "is_char_boundary s b" and a: "is_char_boundary s a"
    and tt: "t = drop a (take b s)"
    by (auto simp: slice_Some drop_take)
  have "is_char_boundary (take b s) a"
    using a le boundary_le [OF b] by (auto simp: is_char_boundary_def)
  then show "utf8 t"
    unfolding tt using utf8_cut [OF s b] by (simp add: utf8_cut(2))
qed

text \<open>An ASCII byte is a character, so its two ends are boundaries.\<close>

abbreviation ascii :: "string \<Rightarrow> bool" where
  "ascii p \<equiv> \<forall>c \<in> set p. (of_char c :: nat) < 128"

lemma utf8_ascii: "ascii p \<Longrightarrow> utf8 p"
  by (induction p) (auto simp: utf8_def)

lemma ascii_boundary: "i < length s \<Longrightarrow> (of_char (s ! i) :: nat) < 128 \<Longrightarrow> is_char_boundary s i"
  by (simp add: is_char_boundary_def)

lemma ascii_next_boundary:
  assumes "utf8 s" and "i < length s" and "(of_char (s ! i) :: nat) < 128"
  shows "is_char_boundary s (Suc i)"
proof (cases "Suc i < length s")
  case True
  have "utf8 (drop i s)"
    by (rule utf8_cut(2) [OF assms(1) ascii_boundary [OF assms(2,3)]])
  moreover have "drop i s = s ! i # s ! Suc i # drop (Suc (Suc i)) s"
    using True by (simp add: Cons_nth_drop_Suc)
  ultimately have "utf8_from 0 (s ! Suc i # drop (Suc (Suc i)) s)"
    using assms(3) by (simp add: utf8_def)
  then show ?thesis
    using utf8_from_head [of 0] True by (auto simp add: boundary_byte)
next
  case False
  then show ?thesis using assms(2) by (simp add: is_char_boundary_def)
qed

lemma ascii_match_boundaries:
  assumes "utf8 s" and "prefix p (drop i s)" and "p \<noteq> []" and "ascii p"
  shows "is_char_boundary s i" and "is_char_boundary s (i + length p)"
proof -
  have at: "i + j < length s \<and> s ! (i + j) = p ! j" if "j < length p" for j
  proof -
    obtain r where r: "drop i s = p @ r" using assms(2) by (auto simp: prefix_def)
    have "j < length (drop i s)" unfolding r using that by simp
    moreover have "drop i s ! j = p ! j" unfolding r using that by (simp add: nth_append)
    ultimately show ?thesis by simp
  qed
  obtain n where n: "length p = Suc n" using assms(3) by (cases p) auto
  have small: "j < length p \<Longrightarrow> (of_char (p ! j) :: nat) < 128" for j
    using assms(4) nth_mem by blast
  show "is_char_boundary s i"
    using ascii_boundary [of i s] at [of 0] small [of 0] n by simp
  show "is_char_boundary s (i + length p)"
    using ascii_next_boundary [OF assms(1), of "i + n"] at [of n] small [of n] n by simp
qed

lemma boundary_in_slice:
  assumes "slice s a b = Some t" and "is_char_boundary t i"
  shows "is_char_boundary s (a + i)"
proof -
  have t: "a \<le> b" "b \<le> length s" "is_char_boundary s a" "is_char_boundary s b" "t = take (b - a) (drop a s)"
    using assms(1) by (auto simp: slice_Some)
  have i: "i \<le> b - a" using boundary_le [OF assms(2)] t by simp
  show ?thesis
  proof (cases "i = 0 \<or> i = b - a")
    case True
    then show ?thesis using t by auto
  next
    case False
    then have "0 < i" "i < length t" "t ! i = s ! (a + i)" "a + i < length s"
      using i t by auto
    then show ?thesis
      using assms(2) by (auto simp: boundary_byte)
  qed
qed

text \<open>A character has at most four bytes, so a boundary is near every offset.\<close>

lemma utf8_from_near:
  assumes "utf8_from k s" and "k \<le> 3"
  shows "k \<le> length s \<and> (k < length s \<longrightarrow> \<not> is_continuation (s ! k))"
  using assms
proof (induction k s rule: utf8_from.induct)
  case (2 c s)
  then show ?case by (auto simp: lead_len_0)
qed auto

lemma boundary_near:
  assumes "utf8 s" and "boundary_below s n = 0" and "4 \<le> n"
  shows "length s \<le> n"
proof (cases s)
  case (Cons c r)
  have len: "lead_len c \<le> 4" "lead_len c \<noteq> 0" and rest: "utf8_from (lead_len c - 1) r"
    using assms(1) by (auto simp: Cons utf8_def lead_len_def Let_def)
  have none: "\<not> is_char_boundary s i" if "0 < i" "i \<le> m" "boundary_below s m = 0" for i m
    using that by (induction m) (auto simp: le_Suc_eq split: if_splits)
  have near: "lead_len c - 1 \<le> length r \<and> (lead_len c - 1 < length r \<longrightarrow> \<not> is_continuation (r ! (lead_len c - 1)))"
    by (rule utf8_from_near [OF rest]) (use len in simp)
  have "is_char_boundary s (lead_len c)"
  proof (cases "lead_len c < length s")
    case True
    then have "s ! lead_len c = r ! (lead_len c - 1)" using len(2) by (simp add: Cons nth_Cons')
    then show ?thesis using True near len(2) by (simp add: boundary_byte Cons)
  next
    case False
    then have "lead_len c = length s" using near len(2) by (cases "lead_len c") (auto simp: Cons)
    then show ?thesis by simp
  qed
  then show ?thesis using none [of "lead_len c" n] len assms(2,3) by simp
qed simp

section \<open>Lines\<close>

text \<open>
  \<^verbatim>\<open>str::lines\<close>: the lines that end with a newline lose it and a carriage return before it; what
  follows the last newline is a line if it is not empty. And \<^verbatim>\<open>str::split_once\<close>.
\<close>

definition strip_cr :: "string \<Rightarrow> string" where
  "strip_cr l = (case strip_suffix_char (CHR 0x0D) l of Some s \<Rightarrow> s | None \<Rightarrow> l)"

definition str_lines :: "string \<Rightarrow> string list" where
  "str_lines s =
     (let ps = split_char (CHR 0x0A) s
      in map strip_cr (butlast ps) @ (if last ps = [] then [] else [last ps]))"

definition split_once :: "string \<Rightarrow> string \<Rightarrow> (string \<times> string) option" where
  "split_once p s = (case find_str p s of Some i \<Rightarrow> Some (take i s, drop (i + length p) s) | None \<Rightarrow> None)"

definition no_newline :: "string \<Rightarrow> bool" where
  "no_newline l = (CHR 0x0A \<notin> set l)"

definition is_line :: "string \<Rightarrow> bool" where
  "is_line l = (no_newline l \<and> (l = [] \<or> last l \<noteq> CHR 0x0D))"

lemma strip_cr_line: "is_line l \<Longrightarrow> strip_cr l = l"
  by (cases l rule: rev_cases) (auto simp: is_line_def strip_cr_def strip_suffix_char_def split: option.splits)

text \<open>\<^verbatim>\<open>std::str::from_utf8\<close>: the well-formed byte sequences of UTF-8.\<close>

fun well_formed_utf8 :: "nat list \<Rightarrow> bool" where
  "well_formed_utf8 [] = True"
| "well_formed_utf8 (a # s) =
     (if a < 128 then well_formed_utf8 s
      else (case s of
              [] \<Rightarrow> False
            | b # s1 \<Rightarrow>
                if 194 \<le> a \<and> a \<le> 223 then 128 \<le> b \<and> b < 192 \<and> well_formed_utf8 s1
                else (case s1 of
                        [] \<Rightarrow> False
                      | c # s2 \<Rightarrow>
                          if 224 \<le> a \<and> a \<le> 239 then
                            (if a = 224 then 160 else 128) \<le> b \<and> b < (if a = 237 then 160 else 192)
                            \<and> 128 \<le> c \<and> c < 192 \<and> well_formed_utf8 s2
                          else (case s2 of
                                  [] \<Rightarrow> False
                                | d # s3 \<Rightarrow>
                                    240 \<le> a \<and> a \<le> 244
                                    \<and> (if a = 240 then 144 else 128) \<le> b \<and> b < (if a = 244 then 144 else 192)
                                    \<and> 128 \<le> c \<and> c < 192 \<and> 128 \<le> d \<and> d < 192 \<and> well_formed_utf8 s3))))"

lemma well_formed_utf8_ascii: "\<forall>b \<in> set bs. b < 128 \<Longrightarrow> well_formed_utf8 bs"
  by (induction bs) auto

lemma well_formed_utf8_append: "well_formed_utf8 a \<Longrightarrow> well_formed_utf8 b \<Longrightarrow> well_formed_utf8 (a @ b)"
proof (induction a rule: well_formed_utf8.induct)
  case (2 x s)
  show ?case
  proof (cases "x < 128")
    case True
    then show ?thesis using 2 by simp
  next
    case big: False
    then obtain y s1 where s: "s = y # s1" using 2(5) by (cases s) auto
    show ?thesis
    proof (cases "194 \<le> x \<and> x \<le> 223")
      case True
      then show ?thesis using 2 big s by simp
    next
      case three: False
      then obtain z s2 where s1: "s1 = z # s2" using 2(5) big s by (cases s1) auto
      show ?thesis
      proof (cases "224 \<le> x \<and> x \<le> 239")
        case True
        then show ?thesis using 2 big three s s1 by simp
      next
        case four: False
        then obtain u s3 where "s2 = u # s3" using 2(5) big three s s1 by (cases s2) auto
        then show ?thesis using 2 big three four s s1 by simp
      qed
    qed
  qed
qed simp

end
