(* ===== verification/Session_Repair.thy ===== *)
theory Session_Repair
  imports Messages Utf8
begin

text \<open>
  Session repair (\<^verbatim>\<open>crates/openfang-runtime/src/session_repair.rs\<close>): the history is cleaned
  before it is sent to a model. Each phase of the source is a definition here; hash maps
  keyed by id are stores, hash sets are lists used for membership. The sanitiser of tool
  output slices strings by byte offsets, which panics in Rust at an offset out of range or
  inside a character: those slices return an option, with None for the panic. Unicode
  lower case is a parameter.
\<close>

section \<open>Phases\<close>

record repair_stats =
  rs_orphaned_results_removed :: nat
  rs_empty_messages_removed :: nat
  rs_messages_merged :: nat
  rs_results_reordered :: nat
  rs_synthetic_results_inserted :: nat
  rs_duplicates_removed :: nat

definition stats_default :: repair_stats where
  "stats_default =
     \<lparr>rs_orphaned_results_removed = 0, rs_empty_messages_removed = 0, rs_messages_merged = 0,
      rs_results_reordered = 0, rs_synthetic_results_inserted = 0, rs_duplicates_removed = 0\<rparr>"

subsection \<open>Phase 2: orphaned results and empty messages\<close>

definition keep_block :: "string list \<Rightarrow> content_block \<Rightarrow> bool" where
  "keep_block ids b = (case b of ToolResult i _ _ _ \<Rightarrow> i \<in> set ids | _ \<Rightarrow> True)"

definition add_orphans :: "nat \<Rightarrow> repair_stats \<Rightarrow> repair_stats" where
  "add_orphans n st =
     st\<lparr>rs_orphaned_results_removed := rs_orphaned_results_removed st + n\<rparr>"

definition add_empty :: "nat \<Rightarrow> repair_stats \<Rightarrow> repair_stats" where
  "add_empty n st = st\<lparr>rs_empty_messages_removed := rs_empty_messages_removed st + n\<rparr>"

fun clean_messages :: "string list \<Rightarrow> message list \<Rightarrow> repair_stats \<Rightarrow> message list \<times> repair_stats" where
  "clean_messages ids [] st = ([], st)"
| "clean_messages ids (m # ms) st =
     (case m_content m of
        TextContent s \<Rightarrow>
          if s = [] then clean_messages ids ms (add_empty 1 st)
          else let (ms', st') = clean_messages ids ms st in (m # ms', st')
      | Blocks bs \<Rightarrow>
          let filtered = filter (keep_block ids) bs;
              st1 = add_orphans (length bs - length filtered) st
          in if filtered = [] then clean_messages ids ms (add_empty 1 st1)
             else let (ms', st') = clean_messages ids ms st1
                  in (m\<lparr>m_content := Blocks filtered\<rparr> # ms', st'))"

subsection \<open>Phase 2b: misplaced results\<close>

text \<open>The tool uses of the assistant messages, each with the index of its message.\<close>

definition assistant_uses :: "message list \<Rightarrow> (string \<times> nat) list" where
  "assistant_uses ms =
     concat (map (\<lambda>(idx, m). if m_role m = AssistantRole
                             then map (\<lambda>i. (i, idx)) (uses_of (m_blocks m)) else [])
              (List.enumerate 0 ms))"

definition tool_use_index :: "message list \<Rightarrow> (string, nat) store" where
  "tool_use_index ms = fold (\<lambda>(i, idx). st_put i idx) (assistant_uses ms) []"

definition misplaced_block ::
  "(string, nat) store \<Rightarrow> nat \<Rightarrow> content_block \<Rightarrow> (nat \<times> string \<times> content_block \<times> nat) list" where
  "misplaced_block index msg_idx b =
     (case b of
        ToolResult tid _ _ _ \<Rightarrow>
          (case st_get index tid of
             Some assistant_idx \<Rightarrow>
               if msg_idx \<noteq> assistant_idx + 1 then [(msg_idx, tid, b, assistant_idx)] else []
           | None \<Rightarrow> [])
      | _ \<Rightarrow> [])"

definition find_misplaced ::
  "(string, nat) store \<Rightarrow> message list \<Rightarrow> (nat \<times> string \<times> content_block \<times> nat) list" where
  "find_misplaced index ms =
     concat (map (\<lambda>(msg_idx, m). if m_role m \<noteq> UserRole then []
                    else concat (map (misplaced_block index msg_idx) (m_blocks m)))
              (List.enumerate 0 ms))"

definition not_source :: "(nat \<times> string) list \<Rightarrow> nat \<Rightarrow> content_block \<Rightarrow> bool" where
  "not_source sources msg_idx b =
     (case b of ToolResult tid _ _ _ \<Rightarrow> (msg_idx, tid) \<notin> set sources | _ \<Rightarrow> True)"

definition drop_sources :: "(nat \<times> string) list \<Rightarrow> nat \<times> message \<Rightarrow> message" where
  "drop_sources sources =
     (\<lambda>(msg_idx, m).
        if m_role m \<noteq> UserRole then m
        else case m_content m of
               Blocks bs \<Rightarrow> m\<lparr>m_content := Blocks (filter (not_source sources msg_idx) bs)\<rparr>
             | TextContent _ \<Rightarrow> m)"

definition remove_misplaced :: "(nat \<times> string) list \<Rightarrow> message list \<Rightarrow> message list" where
  "remove_misplaced sources ms = map (drop_sources sources) (List.enumerate 0 ms)"

definition is_nonempty :: "message \<Rightarrow> bool" where
  "is_nonempty m = (case m_content m of TextContent s \<Rightarrow> s \<noteq> [] | Blocks bs \<Rightarrow> bs \<noteq> [])"

definition push_group :: "nat \<Rightarrow> content_block \<Rightarrow> (nat, content_block list) store
    \<Rightarrow> (nat, content_block list) store" where
  "push_group k b g = st_put k ((case st_get g k of Some bs \<Rightarrow> bs | None \<Rightarrow> []) @ [b]) g"

definition current_positions :: "(string, nat) store \<Rightarrow> message list \<Rightarrow> (nat, nat) store" where
  "current_positions index ms =
     fold (\<lambda>(i, idx) pos. case st_get index i of Some orig \<Rightarrow> st_put orig idx pos | None \<Rightarrow> pos)
       (assistant_uses ms) []"

definition content_to_blocks :: "message_content \<Rightarrow> content_block list" where
  "content_to_blocks c = (case c of TextContent s \<Rightarrow> [TextBlock s None] | Blocks bs \<Rightarrow> bs)"

text \<open>
  Results go into the user message at the position, when there is one, and otherwise into
  a new user message there.
\<close>

definition put_results :: "nat \<Rightarrow> content_block list \<Rightarrow> message list \<Rightarrow> message list" where
  "put_results pos bs ms =
     (if pos < length ms \<and> m_role (ms ! pos) = UserRole
      then ms[pos := (ms ! pos)\<lparr>m_content := Blocks (content_to_blocks (m_content (ms ! pos)) @ bs)\<rparr>]
      else take pos ms @ user_with_blocks bs # drop pos ms)"

text \<open>Groups are processed from the largest index down, so that indices remain valid.\<close>

definition descending :: "(nat, content_block list) store \<Rightarrow> (nat, content_block list) store" where
  "descending g = rev (sort_key fst g)"

definition insert_groups ::
  "(nat \<Rightarrow> nat option) \<Rightarrow> (nat, content_block list) store \<Rightarrow> message list \<Rightarrow> message list" where
  "insert_groups pos g ms =
     fold (\<lambda>(k, bs) ms. case pos k of
                          Some cur \<Rightarrow> put_results (min (cur + 1) (length ms)) bs ms
                        | None \<Rightarrow> ms)
       (descending g) ms"

definition reorder_tool_results :: "message list \<Rightarrow> message list \<times> nat" where
  "reorder_tool_results ms =
     (let index = tool_use_index ms; misplaced = find_misplaced index ms in
      if misplaced = [] then (ms, 0)
      else
        let sources = map (\<lambda>(mi, tid, _, _). (mi, tid)) misplaced;
            ms1 = filter is_nonempty (remove_misplaced sources ms);
            insertions = fold (\<lambda>(_, _, b, k). push_group k b) misplaced [];
            pos = current_positions index ms1
        in (insert_groups (st_get pos) insertions ms1, length misplaced))"

subsection \<open>Phase 2c: synthetic results\<close>

definition synthetic_result :: "string \<Rightarrow> content_block" where
  "synthetic_result i = ToolResult i [] ''[Tool execution was interrupted or lost]'' True"

definition insert_synthetic_results :: "message list \<Rightarrow> message list \<times> nat" where
  "insert_synthetic_results ms =
     (let orphaned = filter (\<lambda>(i, _). i \<notin> set (result_ids ms)) (assistant_uses ms) in
      if orphaned = [] then (ms, 0)
      else (insert_groups Some (fold (\<lambda>(i, k). push_group k (synthetic_result i)) orphaned []) ms,
            length orphaned))"

subsection \<open>Phase 2d: duplicate results\<close>

fun dedup_blocks :: "string list \<Rightarrow> content_block list \<Rightarrow> content_block list \<times> string list" where
  "dedup_blocks seen [] = ([], seen)"
| "dedup_blocks seen (b # bs) =
     (case block_results b of
        [] \<Rightarrow> let (bs', seen') = dedup_blocks seen bs in (b # bs', seen')
      | i # _ \<Rightarrow>
          if i \<in> set seen then dedup_blocks seen bs
          else let (bs', seen') = dedup_blocks (i # seen) bs in (b # bs', seen'))"

fun dedup_messages :: "string list \<Rightarrow> message list \<Rightarrow> message list \<times> nat" where
  "dedup_messages seen [] = ([], 0)"
| "dedup_messages seen (m # ms) =
     (case m_content m of
        TextContent _ \<Rightarrow> let (ms', n) = dedup_messages seen ms in (m # ms', n)
      | Blocks bs \<Rightarrow>
          let (bs', seen') = dedup_blocks seen bs;
              (ms', n) = dedup_messages seen' ms
          in (m\<lparr>m_content := Blocks bs'\<rparr> # ms', (length bs - length bs') + n))"

definition deduplicate_tool_results :: "message list \<Rightarrow> message list \<times> nat" where
  "deduplicate_tool_results ms =
     (let (ms', n) = dedup_messages [] ms in (filter is_nonempty ms', n))"

subsection \<open>Phase 2e: blank assistant messages\<close>

definition is_empty_or_blank_content :: "message_content \<Rightarrow> bool" where
  "is_empty_or_blank_content c =
     (case c of
        TextContent s \<Rightarrow> trim s = []
      | Blocks bs \<Rightarrow>
          bs = [] \<or> list_all (\<lambda>b. case b of TextBlock t _ \<Rightarrow> trim t = [] | UnknownBlock \<Rightarrow> True
                                        | _ \<Rightarrow> False) bs)"

definition remove_aborted_assistant_messages :: "message list \<Rightarrow> message list" where
  "remove_aborted_assistant_messages ms =
     (if length ms < 2 then ms
      else map snd (filter (\<lambda>(i, m). \<not> (m_role m = AssistantRole
                                       \<and> is_empty_or_blank_content (m_content m)
                                       \<and> i + 1 < length ms))
             (List.enumerate 0 ms)))"

subsection \<open>Phase 3: merging\<close>

definition merge_content :: "message_content \<Rightarrow> message_content \<Rightarrow> message_content" where
  "merge_content dst src = Blocks (content_to_blocks dst @ content_to_blocks src)"

definition merge_step :: "message \<Rightarrow> message list \<times> nat \<Rightarrow> message list \<times> nat" where
  "merge_step m acc =
     (case acc of (merged, n) \<Rightarrow>
        if merged \<noteq> [] \<and> m_role (last merged) = m_role m
        then (butlast merged @ [(last merged)\<lparr>m_content :=
                 merge_content (m_content (last merged)) (m_content m)\<rparr>], n + 1)
        else (merged @ [m], n))"

definition merge_messages :: "message list \<Rightarrow> message list \<times> nat" where
  "merge_messages ms = fold merge_step ms ([], 0)"

subsection \<open>The whole repair\<close>

definition validate_and_repair_with_stats :: "message list \<Rightarrow> message list \<times> repair_stats" where
  "validate_and_repair_with_stats messages =
     (let (cleaned, st) = clean_messages (use_ids messages) messages stats_default;
          (reordered, n_reordered) = reorder_tool_results cleaned;
          (complete, n_synthetic) = insert_synthetic_results reordered;
          (unique, n_dup) = deduplicate_tool_results complete;
          kept = remove_aborted_assistant_messages unique;
          (merged, n_merged) = merge_messages kept
      in (merged,
          (add_empty (length unique - length kept) st)
            \<lparr>rs_results_reordered := n_reordered,
             rs_synthetic_results_inserted := n_synthetic,
             rs_duplicates_removed := n_dup,
             rs_messages_merged := n_merged\<rparr>))"

definition validate_and_repair :: "message list \<Rightarrow> message list" where
  "validate_and_repair messages = fst (validate_and_repair_with_stats messages)"

section \<open>Sanitising tool output\<close>

definition is_base64_char :: "char \<Rightarrow> bool" where
  "is_base64_char c = (ascii_alnum (of_char c) \<or> c = CHR ''+'' \<or> c = CHR ''/'' \<or> c = CHR ''='')"

definition BASE64_THRESHOLD :: nat where
  "BASE64_THRESHOLD = 1000"

function strip_base64_blobs :: "string \<Rightarrow> string" where
  "strip_base64_blobs s =
     (case s of
        [] \<Rightarrow> []
      | c # rest \<Rightarrow>
          if is_base64_char c
          then let blob = takeWhile is_base64_char s in
               (if length blob > BASE64_THRESHOLD
                then ''[base64 blob, '' @ show_nat (length blob) @ '' chars removed]'' else blob)
               @ strip_base64_blobs (dropWhile is_base64_char s)
          else c # strip_base64_blobs rest)"
  by pat_completeness auto

termination
  by (relation "measure length")
     (auto simp: length_dropWhile_le le_imp_less_Suc)

declare strip_base64_blobs.simps [simp del]

definition INJECTION_MARKERS :: "string list" where
  "INJECTION_MARKERS =
     [''<|system|>'', ''<|im_start|>'', ''<|im_end|>'', ''### SYSTEM:'', ''### System Prompt:'',
      ''[SYSTEM]'', ''<<SYS>>'', ''<</SYS>>'', ''IGNORE PREVIOUS INSTRUCTIONS'',
      ''Ignore all previous instructions'', ''ignore the above'', ''disregard previous'']"

text \<open>
  The replacement loop for one marker. It searches the lower-cased text and slices the
  original one at the offsets it finds. A marker is never empty, so the loop ends.
\<close>

function replace_marker :: "string \<Rightarrow> string \<Rightarrow> string \<Rightarrow> string \<Rightarrow> nat \<Rightarrow> string option" where
  "replace_marker marker marker_lower text_s text_lower search_pos =
     (if marker = [] then None
      else case slice text_lower search_pos (length text_lower) of
        None \<Rightarrow> None
      | Some tail \<Rightarrow>
          (case find_str marker_lower tail of
             None \<Rightarrow> slice text_s search_pos (length text_s)
           | Some found \<Rightarrow>
               Option.bind (slice text_s search_pos (search_pos + found)) (\<lambda>before.
               Option.bind (replace_marker marker marker_lower text_s text_lower
                              (search_pos + found + length marker)) (\<lambda>after.
                 Some (before @ ''[injection marker removed]'' @ after)))))"
  by pat_completeness auto

termination
  by (relation "measure (\<lambda>(m, _, _, l, p). Suc (length l) - p)")
     (auto simp: slice_def split: if_splits intro!: diff_less_mono2)

declare replace_marker.simps [simp del]

fun strip_markers :: "(string \<Rightarrow> string) \<Rightarrow> string \<Rightarrow> string list \<Rightarrow> string \<Rightarrow> string option" where
  "strip_markers lower lower_content [] s = Some s"
| "strip_markers lower lower_content (marker # ms) s =
     (if contains_str lower_content (lower marker)
      then Option.bind (replace_marker marker (lower marker) s (lower s) 0)
             (strip_markers lower lower_content ms)
      else strip_markers lower lower_content ms s)"

definition strip_injection_markers :: "(string \<Rightarrow> string) \<Rightarrow> string \<Rightarrow> string option" where
  "strip_injection_markers lower content =
     strip_markers lower (lower content) INJECTION_MARKERS content"

definition strip_tool_result_details :: "(string \<Rightarrow> string) \<Rightarrow> string \<Rightarrow> string option" where
  "strip_tool_result_details lower content =
     map_option (\<lambda>cleaned.
        if length cleaned \<le> 10000 then cleaned
        else truncate_str cleaned 10000 @ ''...[truncated from '' @ show_nat (length cleaned)
               @ '' chars]'')
       (strip_injection_markers lower (strip_base64_blobs content))"

section \<open>Pruning heartbeat turns\<close>

definition is_no_reply_text :: "string \<Rightarrow> bool" where
  "is_no_reply_text t = (trim t = ''NO_REPLY'' \<or> trim t = ''[no reply needed]'')"

definition is_no_reply :: "message_content \<Rightarrow> bool" where
  "is_no_reply c =
     (case c of
        TextContent t \<Rightarrow> is_no_reply_text t
      | Blocks bs \<Rightarrow> (case bs of [TextBlock t _] \<Rightarrow> is_no_reply_text t | _ \<Rightarrow> False))"

definition prune_indices :: "message list \<Rightarrow> nat \<Rightarrow> nat list" where
  "prune_indices ms prune_end =
     concat (map (\<lambda>i. if m_role (ms ! i) = AssistantRole \<and> is_no_reply (m_content (ms ! i))
                      then i # (if 0 < i \<and> m_role (ms ! (i - 1)) = UserRole then [i - 1] else [])
                      else [])
              [0..<prune_end])"

definition prune_heartbeat_turns :: "message list \<Rightarrow> nat \<Rightarrow> message list" where
  "prune_heartbeat_turns ms keep_recent =
     (if length ms \<le> keep_recent then ms
      else let to_remove = prune_indices ms (length ms - keep_recent)
           in map snd (filter (\<lambda>(i, _). i \<notin> set to_remove) (List.enumerate 0 ms)))"

section \<open>Tool uses and results through the phases\<close>

text \<open>The uses in messages whose role satisfies a predicate: all of them, or the assistant's.\<close>

definition uses_by :: "(role \<Rightarrow> bool) \<Rightarrow> message list \<Rightarrow> string list" where
  "uses_by P ms = concat (map (\<lambda>m. if P (m_role m) then uses_of (m_blocks m) else []) ms)"

abbreviation assistant_use_ids :: "message list \<Rightarrow> string list" where
  "assistant_use_ids \<equiv> uses_by (\<lambda>r. r = AssistantRole)"

lemma use_ids_by: "use_ids ms = uses_by (\<lambda>_. True) ms"
  by (simp add: use_ids_def uses_by_def)

lemma uses_by_simps [simp]:
  "uses_by P [] = []"
  "uses_by P (m # ms) = (if P (m_role m) then uses_of (m_blocks m) else []) @ uses_by P ms"
  "uses_by P (ms @ ns) = uses_by P ms @ uses_by P ns"
  by (simp_all add: uses_by_def)

lemma uses_filter [simp]:
  "uses_of (filter (keep_block ids) bs) = uses_of bs"
  "uses_of (filter (not_source src k) bs) = uses_of bs"
  by (induction bs)
     (auto simp: keep_block_def not_source_def block_uses_def split: content_block.splits)

lemma results_filter_keep:
  "set (results_of (filter (keep_block ids) bs)) = set (results_of bs) \<inter> set ids"
  by (induction bs) (auto simp: keep_block_def block_results_def split: content_block.splits)

lemma results_filter_subset: "set (results_of (filter f bs)) \<subseteq> set (results_of bs)"
  by (induction bs) auto

lemma clean_messages_uses: "uses_by P (fst (clean_messages ids ms st)) = uses_by P ms"
proof (induction ids ms st rule: clean_messages.induct)
  case (2 ids m ms st)
  show ?case
  proof (cases "m_content m")
    case (TextContent s)
    then show ?thesis using 2(1,2) by (simp add: split_def Let_def)
  next
    case (Blocks bs)
    have "uses_of bs = []" if "filter (keep_block ids) bs = []"
      using uses_filter(1) [of ids bs] that by simp
    then show ?thesis using 2(3,4) Blocks by (auto simp: split_def Let_def)
  qed
qed simp

lemma clean_messages_results:
  "set (result_ids (fst (clean_messages ids ms st))) \<subseteq> set ids"
proof (induction ids ms st rule: clean_messages.induct)
  case (2 ids m ms st)
  show ?case
  proof (cases "m_content m")
    case (TextContent s)
    then show ?thesis using 2(1,2) by (auto simp: split_def Let_def)
  next
    case (Blocks bs)
    then show ?thesis
      using 2(3) [OF Blocks refl refl] 2(4) [OF Blocks refl refl]
      by (auto simp: split_def Let_def results_filter_keep)
  qed
qed simp

lemma content_to_blocks_ids [simp]:
  "uses_of (content_to_blocks c) = uses_of (content_blocks c)"
  "results_of (content_to_blocks c) = results_of (content_blocks c)"
  by (cases c; simp add: content_to_blocks_def)+

lemma split_at: "pos < length ms \<Longrightarrow> ms = take pos ms @ ms ! pos # drop (Suc pos) ms"
  by (rule id_take_nth_drop)

lemma put_results_uses:
  assumes "uses_of bs = []"
  shows "uses_by P (put_results pos bs ms) = uses_by P ms"
proof (cases "pos < length ms \<and> m_role (ms ! pos) = UserRole")
  case True
  then show ?thesis
    using arg_cong [OF split_at [of pos ms], of "uses_by P"] assms
    by (simp add: put_results_def upd_conv_take_nth_drop)
next
  case False
  have "uses_by P (take pos ms) @ uses_by P (drop pos ms) = uses_by P ms"
    by (metis append_take_drop_id uses_by_simps(3))
  then show ?thesis
    using False assms by (auto simp: put_results_def user_with_blocks_def)
qed

lemma put_results_results:
  "set (result_ids (put_results pos bs ms)) = set (result_ids ms) \<union> set (results_of bs)"
proof (cases "pos < length ms \<and> m_role (ms ! pos) = UserRole")
  case True
  then show ?thesis
    using arg_cong [OF split_at [of pos ms], of result_ids]
    by (auto simp: put_results_def upd_conv_take_nth_drop)
next
  case False
  have "set (result_ids ms) = set (result_ids (take pos ms)) \<union> set (result_ids (drop pos ms))"
    by (metis append_take_drop_id result_ids_simps(3) set_append)
  then show ?thesis
    using False by (auto simp: put_results_def user_with_blocks_def)
qed

text \<open>The blocks held by a table of groups.\<close>

definition group_blocks :: "(nat, content_block list) store \<Rightarrow> content_block set" where
  "group_blocks g = (\<Union>(_, bs) \<in> set g. set bs)"

lemma group_blocks_get:
  "st_wf g \<Longrightarrow> x \<in> group_blocks g \<longleftrightarrow> (\<exists>k bs. st_get g k = Some bs \<and> x \<in> set bs)"
proof -
  assume wf: "st_wf g"
  have "x \<in> group_blocks g \<longleftrightarrow> (\<exists>k bs. (k, bs) \<in> set g \<and> x \<in> set bs)"
    by (auto simp: group_blocks_def)
  then show ?thesis by (simp only: al.entries_get [OF wf])
qed

lemma push_group_wf: "st_wf g \<Longrightarrow> st_wf (push_group k b g)"
  by (simp add: push_group_def al.wf_put)

lemma push_group_blocks:
  assumes "st_wf g"
  shows "group_blocks (push_group k b g) = insert b (group_blocks g)"
proof (rule set_eqI)
  fix x
  have "x \<in> group_blocks (push_group k b g) \<longleftrightarrow>
      (\<exists>k' bs. (if k' = k then Some ((case st_get g k of Some bs \<Rightarrow> bs | None \<Rightarrow> []) @ [b])
               else st_get g k') = Some bs \<and> x \<in> set bs)"
    by (simp add: group_blocks_get [OF push_group_wf [OF assms]]) (simp add: push_group_def update_conv')
  also have "\<dots> \<longleftrightarrow> x = b \<or> (\<exists>k bs. st_get g k = Some bs \<and> x \<in> set bs)"
  proof (cases "st_get g k")
    case None
    then show ?thesis by (auto split: if_splits) (metis option.distinct(1))
  next
    case (Some as)
    then show ?thesis by (auto split: if_splits) (metis option.inject)
  qed
  finally show "x \<in> group_blocks (push_group k b g) \<longleftrightarrow> x \<in> insert b (group_blocks g)"
    by (simp add: group_blocks_get [OF assms])
qed

lemma fold_push_group:
  assumes "st_wf g"
  shows "group_blocks (fold (\<lambda>x. push_group (k x) (b x)) xs g) = group_blocks g \<union> b ` set xs"
  using assms
proof (induction xs arbitrary: g)
  case (Cons x xs)
  then show ?case by (simp add: push_group_blocks push_group_wf)
qed simp

lemma set_descending [simp]: "set (descending g) = set g"
  by (simp add: descending_def)

lemma uses_of_groups:
  assumes "\<And>b. b \<in> group_blocks g \<Longrightarrow> block_uses b = []" "(k, bs) \<in> set g"
  shows "uses_of bs = []"
  using assms by (fastforce simp: uses_of_def group_blocks_def)

lemma insert_groups_uses:
  assumes "\<And>b. b \<in> group_blocks g \<Longrightarrow> block_uses b = []"
  shows "uses_by P (insert_groups pos g ms) = uses_by P ms"
proof -
  have "\<forall>(k, bs) \<in> set xs. uses_of bs = [] \<Longrightarrow>
    uses_by P (fold (\<lambda>(k, bs) ms. case pos k of
                 Some cur \<Rightarrow> put_results (min (cur + 1) (length ms)) bs ms | None \<Rightarrow> ms) xs ms)
    = uses_by P ms" for xs
    by (induction xs arbitrary: ms) (auto simp: put_results_uses split: option.splits)
  moreover have "\<forall>(k, bs) \<in> set (descending g). uses_of bs = []"
    using uses_of_groups [OF assms] by auto
  ultimately show ?thesis by (simp add: insert_groups_def)
qed

lemma insert_groups_results:
  "set (result_ids (insert_groups pos g ms)) =
     set (result_ids ms) \<union> (\<Union>(k, bs) \<in> {e \<in> set g. pos (fst e) \<noteq> None}. set (results_of bs))"
proof -
  have "set (result_ids (fold (\<lambda>(k, bs) ms. case pos k of
                 Some cur \<Rightarrow> put_results (min (cur + 1) (length ms)) bs ms | None \<Rightarrow> ms) xs ms))
    = set (result_ids ms) \<union> (\<Union>(k, bs) \<in> {e \<in> set xs. pos (fst e) \<noteq> None}. set (results_of bs))" for xs
    by (induction xs arbitrary: ms) (auto simp: put_results_results split: option.splits)
  then show ?thesis by (simp add: insert_groups_def)
qed

lemma drop_sources_same:
  "m_role (drop_sources src (k, m)) = m_role m"
  "uses_of (m_blocks (drop_sources src (k, m))) = uses_of (m_blocks m)"
  "set (results_of (m_blocks (drop_sources src (k, m)))) \<subseteq> set (results_of (m_blocks m))"
  using results_filter_subset by (auto simp: drop_sources_def split: message_content.splits)

lemma remove_misplaced_uses: "uses_by P (remove_misplaced src ms) = uses_by P ms"
proof -
  have "uses_by P (map (drop_sources src) (List.enumerate n ms)) = uses_by P ms" for n
    by (induction ms arbitrary: n) (simp_all add: drop_sources_same)
  then show ?thesis by (simp add: remove_misplaced_def)
qed

lemma remove_misplaced_results:
  "set (result_ids (remove_misplaced src ms)) \<subseteq> set (result_ids ms)"
proof -
  have "set (result_ids (map (drop_sources src) (List.enumerate n ms))) \<subseteq> set (result_ids ms)" for n
    by (induction ms arbitrary: n) (use drop_sources_same(3) in \<open>auto, blast\<close>)
  then show ?thesis by (simp add: remove_misplaced_def)
qed

lemma empty_no_ids: "\<not> is_nonempty m \<Longrightarrow> uses_of (m_blocks m) = [] \<and> results_of (m_blocks m) = []"
  by (auto simp: is_nonempty_def split: message_content.splits)

lemma filter_nonempty_uses [simp]: "uses_by P (filter is_nonempty ms) = uses_by P ms"
  by (induction ms) (auto simp: empty_no_ids)

lemma filter_nonempty_results [simp]: "result_ids (filter is_nonempty ms) = result_ids ms"
  by (induction ms) (auto simp: empty_no_ids)

text \<open>A block found misplaced is a result of a user message.\<close>

lemma find_misplaced_results:
  assumes "(mi, tid, b, k) \<in> set (find_misplaced index ms)"
  shows "block_uses b = [] \<and> set (block_results b) \<subseteq> set (result_ids ms)"
proof -
  obtain m where m: "(mi, m) \<in> set (List.enumerate 0 ms)" "b \<in> set (m_blocks m)"
    and b: "\<exists>n c e. b = ToolResult tid n c e"
    using assms
    by (auto simp: find_misplaced_def misplaced_block_def
             split: if_splits content_block.splits option.splits)
  have "m \<in> set ms" using m(1) by (auto simp: in_set_enumerate_eq)
  then have "set (block_results b) \<subseteq> set (result_ids ms)"
    using m(2) by (fastforce simp: result_ids_def results_of_def)
  with b show ?thesis by auto
qed

lemma reorder_uses: "uses_by P (fst (reorder_tool_results ms)) = uses_by P ms"
proof -
  let ?mis = "find_misplaced (tool_use_index ms) ms"
  let ?g = "fold (\<lambda>(_, _, b, k). push_group k b) ?mis []"
  have "group_blocks ?g = (\<lambda>(_, _, b, _). b) ` set ?mis"
    using fold_push_group [of "[]" "\<lambda>(_, _, _, k). k" "\<lambda>(_, _, b, _). b" ?mis]
    by (simp add: split_def group_blocks_def)
  then have "b \<in> group_blocks ?g \<Longrightarrow> block_uses b = []" for b
    using find_misplaced_results by fastforce
  then show ?thesis
    by (simp add: reorder_tool_results_def Let_def insert_groups_uses remove_misplaced_uses)
qed

lemma reorder_results:
  "set (result_ids (fst (reorder_tool_results ms))) \<subseteq> set (result_ids ms)"
proof -
  let ?mis = "find_misplaced (tool_use_index ms) ms"
  let ?g = "fold (\<lambda>(_, _, b, k). push_group k b) ?mis []"
  have "group_blocks ?g = (\<lambda>(_, _, b, _). b) ` set ?mis"
    using fold_push_group [of "[]" "\<lambda>(_, _, _, k). k" "\<lambda>(_, _, b, _). b" ?mis]
    by (simp add: split_def group_blocks_def)
  then have "set (block_results b) \<subseteq> set (result_ids ms)" if "b \<in> group_blocks ?g" for b
    using that find_misplaced_results by fastforce
  then have "set (results_of bs) \<subseteq> set (result_ids ms)" if "(k, bs) \<in> set ?g" for k bs
    using that by (fastforce simp: group_blocks_def results_of_def)
  then show ?thesis
    using remove_misplaced_results [of _ ms]
    by (simp add: reorder_tool_results_def Let_def insert_groups_results) (fastforce)
qed

lemma assistant_uses_ids: "map fst (assistant_uses ms) = assistant_use_ids ms"
proof -
  have "map fst (concat (map (\<lambda>(idx, m). if m_role m = AssistantRole
               then map (\<lambda>i. (i, idx)) (uses_of (m_blocks m)) else []) (List.enumerate n ms)))
        = assistant_use_ids ms" for n
    by (induction ms arbitrary: n) (auto simp: comp_def)
  then show ?thesis by (simp add: assistant_uses_def)
qed

lemma synthetic_groups:
  "group_blocks (fold (\<lambda>(i, k). push_group k (synthetic_result i)) xs []) =
     (\<lambda>(i, k). synthetic_result i) ` set xs"
  using fold_push_group [of "[]" "\<lambda>(i, k). k" "\<lambda>(i, k). synthetic_result i" xs]
  by (simp add: split_def group_blocks_def)

lemma synthetic_ids:
  "(\<Union>b \<in> (\<lambda>(i, k). synthetic_result i) ` S. set (block_results b)) = fst ` S"
proof -
  have "set (block_results (synthetic_result i)) = {i}" for i
    by (simp add: synthetic_result_def)
  then have "(\<Union>x \<in> S. set (block_results (synthetic_result (fst x)))) = fst ` S" by auto
  then show ?thesis by (simp add: split_def)
qed

lemma synthetic_uses: "uses_by P (fst (insert_synthetic_results ms)) = uses_by P ms"
proof -
  let ?o = "filter (\<lambda>(i, _). i \<notin> set (result_ids ms)) (assistant_uses ms)"
  have "b \<in> group_blocks (fold (\<lambda>(i, k). push_group k (synthetic_result i)) ?o []) \<Longrightarrow>
        block_uses b = []" for b
    unfolding synthetic_groups by (auto simp: synthetic_result_def)
  then show ?thesis
    by (simp add: insert_synthetic_results_def Let_def insert_groups_uses)
qed

text \<open>After the synthetic results, the results are the old ones and the assistant's uses.\<close>

lemma synthetic_results:
  "set (result_ids (fst (insert_synthetic_results ms))) =
     set (result_ids ms) \<union> set (assistant_use_ids ms)"
proof -
  let ?o = "filter (\<lambda>(i, _). i \<notin> set (result_ids ms)) (assistant_uses ms)"
  let ?g = "fold (\<lambda>(i, k). push_group k (synthetic_result i)) ?o []"
  have "(\<Union>(k, bs) \<in> set ?g. set (results_of bs)) = (\<Union>b \<in> group_blocks ?g. set (block_results b))"
    by (auto simp: results_of_def group_blocks_def)
  also have "\<dots> = fst ` set ?o"
    unfolding synthetic_groups by (rule synthetic_ids)
  finally have g: "(\<Union>(k, bs) \<in> set ?g. set (results_of bs)) = fst ` set ?o" .
  have "set (assistant_use_ids ms) = fst ` set (assistant_uses ms)"
    by (simp flip: assistant_uses_ids)
  then have "set (result_ids ms) \<union> fst ` set ?o = set (result_ids ms) \<union> set (assistant_use_ids ms)"
    by force
  then show ?thesis
    using g by (cases "?o = []") (simp_all add: insert_synthetic_results_def Let_def insert_groups_results)
qed

lemma dedup_blocks_ids:
  "uses_of (fst (dedup_blocks seen bs)) = uses_of bs
   \<and> distinct (results_of (fst (dedup_blocks seen bs)))
   \<and> set (results_of (fst (dedup_blocks seen bs))) = set (results_of bs) - set seen
   \<and> set (snd (dedup_blocks seen bs)) = set seen \<union> set (results_of bs)"
proof (induction seen bs rule: dedup_blocks.induct)
  case (2 seen b bs)
  show ?case
  proof (cases "block_results b")
    case Nil
    then show ?thesis using 2(1) [OF Nil] by (simp add: split_def Let_def)
  next
    case (Cons i js)
    then have b: "block_uses b = []" "js = []"
      by (auto simp: block_results_def block_uses_def split: content_block.splits)
    show ?thesis
      using 2(2) [OF Cons] 2(3) [OF Cons] b Cons by (auto simp: split_def Let_def)
  qed
qed simp

lemma dedup_messages_ids:
  "uses_by P (fst (dedup_messages seen ms)) = uses_by P ms
   \<and> distinct (result_ids (fst (dedup_messages seen ms)))
   \<and> set (result_ids (fst (dedup_messages seen ms))) = set (result_ids ms) - set seen"
proof (induction ms arbitrary: seen)
  case (Cons m ms)
  show ?case
  proof (cases "m_content m")
    case (TextContent s)
    then show ?thesis using Cons.IH [of seen] by (simp add: split_def Let_def)
  next
    case (Blocks bs)
    show ?thesis
      using Cons.IH [of "snd (dedup_blocks seen bs)"] dedup_blocks_ids [of seen bs] Blocks
      by (auto simp: split_def Let_def)
  qed
qed simp

lemma deduplicate_ids:
  "uses_by P (fst (deduplicate_tool_results ms)) = uses_by P ms"
  "distinct (result_ids (fst (deduplicate_tool_results ms)))"
  "set (result_ids (fst (deduplicate_tool_results ms))) = set (result_ids ms)"
  using dedup_messages_ids [of _ "[]" ms]
  by (simp_all add: deduplicate_tool_results_def split_def Let_def)

lemma blank_no_ids:
  "is_empty_or_blank_content c \<Longrightarrow> uses_of (content_blocks c) = [] \<and> results_of (content_blocks c) = []"
  by (auto simp: is_empty_or_blank_content_def uses_of_def results_of_def block_uses_def
                 block_results_def list_all_iff
           split: message_content.splits content_block.splits)

lemma filter_no_ids:
  assumes "\<And>k m. (k, m) \<in> set xs \<Longrightarrow> \<not> f (k, m) \<Longrightarrow>
             uses_of (m_blocks m) = [] \<and> results_of (m_blocks m) = []"
  shows "uses_by P (map snd (filter f xs)) = uses_by P (map snd xs)
         \<and> result_ids (map snd (filter f xs)) = result_ids (map snd xs)"
  using assms by (induction xs) fastforce+

lemma remove_aborted_ids:
  "uses_by P (remove_aborted_assistant_messages ms) = uses_by P ms
   \<and> result_ids (remove_aborted_assistant_messages ms) = result_ids ms"
proof (cases "length ms < 2")
  case False
  then show ?thesis
    using filter_no_ids [of "List.enumerate 0 ms" "\<lambda>(i, m). \<not> (m_role m = AssistantRole
            \<and> is_empty_or_blank_content (m_content m) \<and> i + 1 < length ms)" P]
    by (simp add: remove_aborted_assistant_messages_def blank_no_ids)
qed (simp add: remove_aborted_assistant_messages_def)

section \<open>Merging\<close>

abbreviation alternating :: "message list \<Rightarrow> bool" where
  "alternating \<equiv> successively (\<lambda>a b. m_role a \<noteq> m_role b)"

lemma merge_step_ids:
  "uses_by P (fst (merge_step m acc)) = uses_by P (fst acc) @ uses_by P [m]
   \<and> result_ids (fst (merge_step m acc)) = result_ids (fst acc) @ result_ids [m]
   \<and> (alternating (fst acc) \<longrightarrow> alternating (fst (merge_step m acc)))"
proof -
  obtain merged n where acc: "acc = (merged, n)" by (cases acc)
  show ?thesis
  proof (cases merged rule: rev_cases)
    case Nil
    then show ?thesis by (simp add: acc merge_step_def)
  next
    case (snoc ms l)
    then show ?thesis
      by (cases "m_role l = m_role m")
         (auto simp: acc merge_step_def merge_content_def successively_append_iff)
  qed
qed

lemma merge_messages_ids:
  "uses_by P (fst (merge_messages ms)) = uses_by P ms
   \<and> result_ids (fst (merge_messages ms)) = result_ids ms
   \<and> alternating (fst (merge_messages ms))"
proof -
  have "alternating (fst acc) \<Longrightarrow>
      uses_by P (fst (fold merge_step ms acc)) = uses_by P (fst acc) @ uses_by P ms
      \<and> result_ids (fst (fold merge_step ms acc)) = result_ids (fst acc) @ result_ids ms
      \<and> alternating (fst (fold merge_step ms acc))" for acc
    using merge_step_ids by (induction ms arbitrary: acc) auto
  from this [of "([], 0)"] show ?thesis by (simp add: merge_messages_def)
qed

section \<open>Properties\<close>

lemma repair_unfold:
  "validate_and_repair ms =
     fst (merge_messages (remove_aborted_assistant_messages
       (fst (deduplicate_tool_results (fst (insert_synthetic_results (fst (reorder_tool_results
         (fst (clean_messages (use_ids ms) ms stats_default))))))))))"
  by (simp add: validate_and_repair_def validate_and_repair_with_stats_def split_def Let_def)

lemma repair_uses: "uses_by P (validate_and_repair ms) = uses_by P ms"
  by (simp add: repair_unfold merge_messages_ids remove_aborted_ids deduplicate_ids(1)
                synthetic_uses reorder_uses clean_messages_uses)

text \<open>A history a provider accepts.\<close>

definition history_ok :: "message list \<Rightarrow> bool" where
  "history_ok ms =
     (alternating ms \<and> set (result_ids ms) \<subseteq> set (use_ids ms) \<and> distinct (result_ids ms)
      \<and> set (assistant_use_ids ms) \<subseteq> set (result_ids ms))"

lemma repair_history_ok:
  "history_ok (validate_and_repair ms) \<and> use_ids (validate_and_repair ms) = use_ids ms"
proof -
  let ?clean = "fst (clean_messages (use_ids ms) ms stats_default)"
  let ?re = "fst (reorder_tool_results ?clean)"
  have res: "set (result_ids (validate_and_repair ms)) = set (result_ids ?re) \<union> set (assistant_use_ids ms)"
    by (simp add: repair_unfold merge_messages_ids remove_aborted_ids deduplicate_ids(3)
                  synthetic_results reorder_uses clean_messages_uses)
  have "set (result_ids ?re) \<subseteq> set (use_ids ms)"
    using reorder_results clean_messages_results by blast
  moreover have "set (assistant_use_ids ms) \<subseteq> set (use_ids ms)"
    by (auto simp: use_ids_def uses_by_def split: if_splits)
  ultimately show ?thesis
    using res
    by (simp add: history_ok_def repair_uses use_ids_by)
       (simp add: repair_unfold merge_messages_ids remove_aborted_ids deduplicate_ids(2))
qed

text \<open>
  C23. A repaired history is one a provider accepts, whatever the input was: neighbouring
  messages have different roles, no tool use is lost, added or moved relative to the others,
  every tool result belongs to a tool use, no two results answer the same use, and every
  tool use of an assistant message has a result.
\<close>

theorem repaired_history_well_formed:
  "alternating (validate_and_repair ms)
   \<and> use_ids (validate_and_repair ms) = use_ids ms
   \<and> set (result_ids (validate_and_repair ms)) \<subseteq> set (use_ids ms)
   \<and> distinct (result_ids (validate_and_repair ms))
   \<and> set (assistant_use_ids (validate_and_repair ms)) \<subseteq> set (result_ids (validate_and_repair ms))"
  using repair_history_ok [of ms] unfolding history_ok_def by metis

section \<open>Histories that need no repair\<close>

text \<open>
  Each result of a user message answers a use of the assistant message just before it.
\<close>

definition results_placed :: "message list \<Rightarrow> bool" where
  "results_placed ms =
     (\<forall>j < length ms. m_role (ms ! j) = UserRole \<longrightarrow>
        (\<forall>i \<in> set (results_of (m_blocks (ms ! j))).
           0 < j \<and> m_role (ms ! (j - 1)) = AssistantRole
           \<and> i \<in> set (uses_of (m_blocks (ms ! (j - 1))))))"

definition no_blank_turn :: "message list \<Rightarrow> bool" where
  "no_blank_turn ms =
     (\<forall>i. Suc i < length ms \<longrightarrow>
        \<not> (m_role (ms ! i) = AssistantRole \<and> is_empty_or_blank_content (m_content (ms ! i))))"

lemma filter_keep_all: "set (results_of bs) \<subseteq> set ids \<Longrightarrow> filter (keep_block ids) bs = bs"
  by (induction bs) (auto simp: keep_block_def split: content_block.splits)

lemma clean_messages_id:
  "list_all is_nonempty ms \<Longrightarrow> set (result_ids ms) \<subseteq> set ids \<Longrightarrow> clean_messages ids ms st = (ms, st)"
proof (induction ms arbitrary: st)
  case (Cons m ms)
  then show ?case
  proof (cases "m_content m")
    case (Blocks bs)
    then have "filter (keep_block ids) bs = bs" "bs \<noteq> []" "m\<lparr>m_content := Blocks bs\<rparr> = m"
      using Cons.prems by (auto simp: filter_keep_all is_nonempty_def)
    with Cons Blocks show ?thesis by (simp add: add_orphans_def)
  qed (auto simp: is_nonempty_def)
qed simp

lemma get_fold_put:
  "st_get (fold (\<lambda>(i, x). st_put i x) xs m) k =
     (case st_get (rev xs) k of Some v \<Rightarrow> Some v | None \<Rightarrow> st_get m k)"
  by (induction xs arbitrary: m) (auto simp: update_conv' map_add_def split: option.splits)

lemma assistant_uses_in:
  assumes "j < length ms" "m_role (ms ! j) = AssistantRole" "i \<in> set (uses_of (m_blocks (ms ! j)))"
  shows "(i, j) \<in> set (assistant_uses ms)"
proof -
  have "(j, ms ! j) \<in> set (List.enumerate 0 ms)" using assms(1) by (simp add: in_set_enumerate_eq)
  then show ?thesis using assms(2,3) by (force simp: assistant_uses_def)
qed

lemma tool_use_index_in:
  assumes "distinct (assistant_use_ids ms)" "(i, j) \<in> set (assistant_uses ms)"
  shows "st_get (tool_use_index ms) i = Some j"
proof -
  have "distinct (map fst (rev (assistant_uses ms)))"
    using assms(1) by (simp add: assistant_uses_ids flip: rev_map)
  then have "st_get (rev (assistant_uses ms)) i = Some j" using assms(2) by simp
  then show ?thesis by (simp add: tool_use_index_def get_fold_put)
qed

lemma placed_not_misplaced:
  assumes "results_placed ms" "distinct (assistant_use_ids ms)"
  shows "find_misplaced (tool_use_index ms) ms = []"
proof -
  have "misplaced_block (tool_use_index ms) j b = []"
    if j: "j < length ms" and "m_role (ms ! j) = UserRole" "b \<in> set (m_blocks (ms ! j))" for j b
  proof (cases b)
    case (ToolResult i n c e)
    then have "i \<in> set (results_of (m_blocks (ms ! j)))"
      using that by (force simp: results_of_def)
    then have "st_get (tool_use_index ms) i = Some (j - 1)" "0 < j"
      using assms(1) j that tool_use_index_in [OF assms(2) assistant_uses_in [of "j - 1" ms i]]
      by (auto simp: results_placed_def)
    with ToolResult show ?thesis by (simp add: misplaced_block_def)
  qed (simp_all add: misplaced_block_def)
  then show ?thesis by (auto simp: find_misplaced_def in_set_enumerate_eq)
qed

lemma dedup_blocks_id:
  "distinct (results_of bs) \<Longrightarrow> set (results_of bs) \<inter> set seen = {} \<Longrightarrow>
     fst (dedup_blocks seen bs) = bs"
proof (induction seen bs rule: dedup_blocks.induct)
  case (2 seen b bs)
  show ?case
  proof (cases "block_results b")
    case Nil
    then show ?thesis using 2 by (simp add: split_def Let_def)
  next
    case (Cons i js)
    then have "js = []" by (auto simp: block_results_def split: content_block.splits)
    then show ?thesis using 2 Cons by (auto simp: split_def Let_def)
  qed
qed simp

lemma dedup_messages_id:
  "distinct (result_ids ms) \<Longrightarrow> set (result_ids ms) \<inter> set seen = {} \<Longrightarrow>
     dedup_messages seen ms = (ms, 0)"
proof (induction ms arbitrary: seen)
  case (Cons m ms)
  show ?case
  proof (cases "m_content m")
    case (Blocks bs)
    have "fst (dedup_blocks seen bs) = bs"
      using Cons.prems Blocks by (intro dedup_blocks_id) auto
    moreover have "set (result_ids ms) \<inter> set (snd (dedup_blocks seen bs)) = {}"
      using Cons.prems Blocks dedup_blocks_ids [of seen bs] by auto
    moreover have "m\<lparr>m_content := Blocks bs\<rparr> = m" using Blocks by simp
    ultimately show ?thesis
      using Cons Blocks by (simp add: split_def Let_def)
  qed (use Cons in auto)
qed simp

lemma remove_aborted_id: "no_blank_turn ms \<Longrightarrow> remove_aborted_assistant_messages ms = ms"
  unfolding remove_aborted_assistant_messages_def
  by (subst filter_True) (auto simp: no_blank_turn_def in_set_enumerate_eq)

lemma merge_messages_id: "alternating ms \<Longrightarrow> merge_messages ms = (ms, 0)"
proof -
  have "alternating (acc @ ms) \<Longrightarrow> fold merge_step ms (acc, n) = (acc @ ms, n)" for acc n
  proof (induction ms arbitrary: acc)
    case (Cons m ms)
    then have "merge_step m (acc, n) = (acc @ [m], n)"
      by (auto simp: merge_step_def successively_append_iff)
    with Cons show ?case by simp
  qed simp
  from this [of "[]" 0] show "alternating ms \<Longrightarrow> ?thesis" by (simp add: merge_messages_def)
qed

text \<open>
  Repair changes nothing that is in order: a history without empty messages, with
  alternating roles, unique ids, every result right after the turn that asked for it, an
  answer to every use and no blank assistant turn before its end is returned as it is, and
  the statistics report no repair.
\<close>

lemma repair_keeps_valid_history:
  assumes "list_all is_nonempty ms" "alternating ms"
    and "distinct (assistant_use_ids ms)" "distinct (result_ids ms)"
    and "set (result_ids ms) \<subseteq> set (use_ids ms)" "set (assistant_use_ids ms) \<subseteq> set (result_ids ms)"
    and "results_placed ms" "no_blank_turn ms"
  shows "validate_and_repair_with_stats ms = (ms, stats_default)"
proof -
  have "insert_synthetic_results ms = (ms, 0)"
  proof -
    have "fst ` set (assistant_uses ms) \<subseteq> set (result_ids ms)"
      using assms(6) assistant_uses_ids [of ms] by (metis set_map)
    then show ?thesis by (auto simp: insert_synthetic_results_def Let_def filter_empty_conv)
  qed
  moreover have "reorder_tool_results ms = (ms, 0)"
    using placed_not_misplaced [OF assms(7,3)] by (simp add: reorder_tool_results_def Let_def)
  moreover have "deduplicate_tool_results ms = (ms, 0)"
    using assms(1,4) dedup_messages_id [of ms "[]"]
    by (simp add: deduplicate_tool_results_def list_all_iff)
  ultimately show ?thesis
    using assms
    by (simp add: validate_and_repair_with_stats_def clean_messages_id remove_aborted_id
                  merge_messages_id add_empty_def stats_default_def)
qed

definition sample_history :: "message list" where
  "sample_history =
     [user_message ''list the files'',
      \<lparr>m_role = AssistantRole, m_content = Blocks [ToolUse ''t1'' ''ls'' JNull None],
       m_orchestration_ctx = None\<rparr>,
      user_with_blocks [ToolResult ''t1'' ''ls'' ''a.txt'' False],
      assistant_message ''one file'']"

lemma repair_keeps_valid_history_witness:
  "validate_and_repair_with_stats sample_history = (sample_history, stats_default)"
proof (rule repair_keeps_valid_history)
  show "results_placed sample_history"
    by (auto simp: results_placed_def sample_history_def user_message_def user_with_blocks_def
        assistant_message_def less_Suc_eq)
  show "no_blank_turn sample_history"
    by (auto simp: no_blank_turn_def sample_history_def user_message_def user_with_blocks_def
        assistant_message_def less_Suc_eq is_empty_or_blank_content_def)
qed (simp_all add: sample_history_def user_message_def user_with_blocks_def assistant_message_def
       is_nonempty_def)

section \<open>The sanitiser can panic\<close>

text \<open>
  A capital I with a dot above is two bytes and its lower case three, so every offset
  found behind it in the lower-cased text is one too large for the original.
\<close>

definition dotted_I_text :: string where
  "dotted_I_text = [CHR 0xC4, CHR 0xB0] @ ''<|system|>''"

definition dotted_I_lower :: string where
  "dotted_I_lower = CHR ''i'' # [CHR 0xCC, CHR 0x87] @ ''<|system|>''"

lemma dotted_I_base64: "strip_base64_blobs dotted_I_text = dotted_I_text"
  by (simp add: dotted_I_text_def strip_base64_blobs.simps is_base64_char_def ascii_alnum_def
      BASE64_THRESHOLD_def)

lemma dotted_I_slices:
  "slice dotted_I_lower 0 (length dotted_I_lower) = Some dotted_I_lower"
  "find_str ''<|system|>'' dotted_I_lower = Some 3"
  "slice dotted_I_lower 13 (length dotted_I_lower) = Some []"
  "slice dotted_I_text 13 (length dotted_I_text) = None"
  by (simp_all add: dotted_I_lower_def dotted_I_text_def slice_def is_char_boundary_def)

lemma dotted_I_replace:
  "replace_marker ''<|system|>'' ''<|system|>'' dotted_I_text dotted_I_lower 0 = None"
proof -
  have "replace_marker ''<|system|>'' ''<|system|>'' dotted_I_text dotted_I_lower 13 = None"
    by (subst replace_marker.simps) (simp add: dotted_I_slices)
  then show ?thesis
    by (subst replace_marker.simps) (simp add: dotted_I_slices split: bind_splits)
qed

text \<open>
  The sanitiser of tool output can panic: it lower-cases the text and slices the
  original at offsets of the lower-cased copy. With a lower case that maps the two-byte
  capital I with dot above to its three-byte lower case and leaves the ASCII marker as it
  is, a tool result that consists of that letter and an injection marker makes the slice
  run past the end.
\<close>

lemma sanitiser_panics_on_dotted_I:
  assumes "lower dotted_I_text = dotted_I_lower" "lower ''<|system|>'' = ''<|system|>''"
  shows "strip_tool_result_details lower dotted_I_text = None"
proof -
  have "contains_str dotted_I_lower ''<|system|>''"
    unfolding contains_str_def dotted_I_lower_def sublist_def
    by (intro exI [of _ "[CHR ''i'', CHR 0xCC, CHR 0x87]"] exI [of _ "[]"]) simp
  then show ?thesis
    using assms
    by (simp add: strip_tool_result_details_def dotted_I_base64 strip_injection_markers_def
        INJECTION_MARKERS_def dotted_I_replace)
qed

lemma sanitiser_panics_on_dotted_I_witness:
  "strip_tool_result_details
     (\<lambda>s. if s = dotted_I_text then dotted_I_lower else to_ascii_lowercase s) dotted_I_text = None"
proof (rule sanitiser_panics_on_dotted_I)
  show "(if ''<|system|>'' = dotted_I_text then dotted_I_lower
         else to_ascii_lowercase ''<|system|>'') = ''<|system|>''"
    by (simp add: dotted_I_text_def to_ascii_lowercase_def ascii_lower_def)
qed simp

end
