(* ===== verification/Think_Filter.thy ===== *)
theory Think_Filter
  imports Prelude
begin

text \<open>
  The streaming filter for reasoning tags (\<^verbatim>\<open>crates/openfang-runtime/src/think_filter.rs\<close>):
  text arrives in pieces, a tag may be split across them, and visible text and reasoning are
  emitted as soon as they are known not to belong to a tag. Tags are ASCII, so byte offsets
  of a match are character boundaries.
\<close>

section \<open>The filter\<close>

datatype filter_action = EmitText string | EmitThinking string

record think_filter =
  tf_inside_think :: bool
  tf_pending :: string

definition tf_new :: think_filter where
  "tf_new = \<lparr>tf_inside_think = False, tf_pending = []\<rparr>"

definition OPEN_TAG :: string where
  "OPEN_TAG = ''<think>''"

definition CLOSE_TAG :: string where
  "CLOSE_TAG = ''</think>''"

text \<open>The tag the filter waits for in a state, and the action for the text before it.\<close>

definition tag :: "bool \<Rightarrow> string" where
  "tag inside = (if inside then CLOSE_TAG else OPEN_TAG)"

definition emit :: "bool \<Rightarrow> string \<Rightarrow> filter_action list" where
  "emit inside s =
     (if s = [] then [] else if inside then [EmitThinking s] else [EmitText s])"

text \<open>The longest suffix first; None of the lengths matches means nothing is kept.\<close>

fun longest_suffix :: "string \<Rightarrow> string \<Rightarrow> nat \<Rightarrow> nat" where
  "longest_suffix h n 0 = 0"
| "longest_suffix h n (Suc l) =
     (if ends_with h (take (Suc l) n) then Suc l else longest_suffix h n l)"

definition partial_suffix_match :: "string \<Rightarrow> string \<Rightarrow> nat" where
  "partial_suffix_match h n = longest_suffix h n (min (length h) (length n - 1))"

lemma find_str_le: "find_str p s = Some i \<Longrightarrow> i + length p \<le> length s"
proof (induction s arbitrary: i)
  case Nil
  then show ?case by (auto split: if_splits)
next
  case (Cons x xs)
  then show ?case by (auto split: if_splits dest: prefix_length_le)
qed

lemma tag_nonempty [simp]: "tag b \<noteq> []"
  by (simp add: tag_def OPEN_TAG_def CLOSE_TAG_def)

text \<open>The loop of \<open>process\<close> on the pending buffer.\<close>

function process_loop :: "bool \<Rightarrow> string \<Rightarrow> filter_action list \<times> bool \<times> string" where
  "process_loop inside pending =
     (case find_str (tag inside) pending of
        Some pos \<Rightarrow>
          (let (acts, st) = process_loop (\<not> inside) (drop (pos + length (tag inside)) pending)
           in (emit inside (take pos pending) @ acts, st))
      | None \<Rightarrow>
          (let keep = partial_suffix_match pending (tag inside);
               emit_len = length pending - keep
           in (emit inside (take emit_len pending), inside, drop emit_len pending)))"
  by pat_completeness auto

termination
proof (relation "measure (\<lambda>(_, s). length s)", goal_cases)
  case (2 inside pending pos)
  then have "pos + length (tag inside) \<le> length pending" by (rule find_str_le)
  then show ?case by (cases "tag inside") auto
qed simp

declare process_loop.simps [simp del]

definition tf_process :: "string \<Rightarrow> think_filter \<Rightarrow> filter_action list \<times> think_filter" where
  "tf_process delta f =
     (let (acts, inside, pending) = process_loop (tf_inside_think f) (tf_pending f @ delta)
      in (acts, \<lparr>tf_inside_think = inside, tf_pending = pending\<rparr>))"

definition tf_flush :: "think_filter \<Rightarrow> filter_action list \<times> think_filter" where
  "tf_flush f = (emit (tf_inside_think f) (tf_pending f), f\<lparr>tf_pending := []\<rparr>)"

section \<open>Finding tags\<close>

lemma find_str_Some_iff:
  "find_str p s = Some i \<longleftrightarrow>
     i \<le> length s \<and> prefix p (drop i s) \<and> (\<forall>j < i. \<not> prefix p (drop j s))"
proof (induction s arbitrary: i)
  case Nil
  then show ?case by auto
next
  case (Cons x xs)
  show ?case
  proof (cases i)
    case 0
    then show ?thesis by auto
  next
    case (Suc k)
    then show ?thesis using Cons.IH [of k] by (auto simp: less_Suc_eq_0_disj)
  qed
qed

lemma find_str_None_iff:
  "find_str p s = None \<longleftrightarrow> (\<forall>j \<le> length s. \<not> prefix p (drop j s))"
proof (induction s)
  case Nil
  then show ?case by auto
next
  case (Cons x xs)
  have "(\<forall>j \<le> length (x # xs). \<not> prefix p (drop j (x # xs))) \<longleftrightarrow>
        \<not> prefix p (x # xs) \<and> (\<forall>j \<le> length xs. \<not> prefix p (drop j xs))"
    by (metis Suc_le_mono drop0 drop_Suc_Cons le0 length_Cons not0_implies_Suc)
  with Cons.IH show ?case by auto
qed

lemma prefix_append_short: "length p \<le> length a \<Longrightarrow> prefix p (a @ r) \<longleftrightarrow> prefix p a"
  by (metis prefixI prefix_length_prefix prefix_order.trans)

lemma find_str_append:
  assumes "find_str p s = Some i"
  shows "find_str p (s @ r) = Some i"
proof -
  have i: "i + length p \<le> length s" using assms by (rule find_str_le)
  have same: "prefix p (drop j (s @ r)) \<longleftrightarrow> prefix p (drop j s)" if "j \<le> i" for j
    using i that prefix_append_short [of p "drop j s" r] by simp
  show ?thesis
    unfolding find_str_Some_iff
  proof (intro conjI allI impI)
    show "i \<le> length (s @ r)" using i by simp
    show "prefix p (drop i (s @ r))" using assms same [of i] by (simp add: find_str_Some_iff)
    show "\<not> prefix p (drop j (s @ r))" if "j < i" for j
      using assms same [of j] that unfolding find_str_Some_iff by simp
  qed
qed

text \<open>Text with no match starting in it can be split off.\<close>

lemma find_str_skip:
  assumes "\<And>j. j < length e \<Longrightarrow> \<not> prefix p (drop j (e @ t))"
  shows "find_str p (e @ t) = map_option (\<lambda>i. length e + i) (find_str p t)"
  using assms
proof (induction e)
  case Nil
  then show ?case by (simp add: option.map_ident)
next
  case (Cons x e)
  have "\<not> prefix p (x # e @ t)" using Cons.prems [of 0] by simp
  moreover have "find_str p (e @ t) = map_option (\<lambda>i. length e + i) (find_str p t)"
    using Cons.prems [of "Suc j" for j] by (intro Cons.IH) auto
  ultimately show ?case by (simp add: option.map_comp comp_def)
qed

lemma longest_suffix_le: "longest_suffix h n l \<le> l"
  by (induction l) auto

lemma longest_suffix_suffix: "ends_with h (take (longest_suffix h n l) n)"
  by (induction l) (auto simp: ends_with_def)

lemma longest_suffix_max:
  "k \<le> l \<Longrightarrow> ends_with h (take k n) \<Longrightarrow> k \<le> longest_suffix h n l"
  by (induction l) (auto simp: le_Suc_eq)

text \<open>
  The text emitted when no tag is found cannot be the start of one, whatever follows: a
  match starting there would run into the following text and leave a longer suffix.
\<close>

lemma partial_suffix_no_match:
  assumes "find_str n h = None" "n \<noteq> []" "j < length h - partial_suffix_match h n"
  shows "\<not> prefix n (drop j (h @ r))"
proof
  assume pre: "prefix n (drop j (h @ r))"
  have j: "j < length h" using assms(3) by simp
  let ?s = "drop j h"
  have "\<not> prefix n ?s" using assms(1) j by (simp add: find_str_None_iff)
  moreover have p: "prefix n (?s @ r)" using pre j by simp
  ultimately have "length ?s < length n" "prefix ?s n"
    using prefix_length_prefix [OF p, of ?s] prefix_length_prefix [of ?s "?s @ r" n] p
    by (metis not_le_imp_less prefixI, metis nat_le_linear prefixI)
  then have eq: "take (length ?s) n = ?s" by (metis append_eq_conv_conj prefix_def)
  have "ends_with h (take (length ?s) n)" unfolding eq by (simp add: ends_with_def suffix_drop)
  moreover have "length ?s \<le> min (length h) (length n - 1)"
    using \<open>length ?s < length n\<close> by simp
  ultimately have "length ?s \<le> partial_suffix_match h n"
    unfolding partial_suffix_match_def by (rule longest_suffix_max [rotated])
  then show False using assms(3) j by simp
qed

section \<open>The reference: splitting the whole text\<close>

function think_split :: "bool \<Rightarrow> string \<Rightarrow> string \<times> string" where
  "think_split inside s =
     (case find_str (tag inside) s of
        None \<Rightarrow> if inside then ([], s) else (s, [])
      | Some i \<Rightarrow>
          let (v, t) = think_split (\<not> inside) (drop (i + length (tag inside)) s)
          in if inside then (v, take i s @ t) else (take i s @ v, t))"
  by pat_completeness auto

termination
proof (relation "measure (\<lambda>(_, s). length s)", goal_cases)
  case (2 inside s i)
  then have "i + length (tag inside) \<le> length s" by (rule find_str_le)
  then show ?case by (cases "tag inside") auto
qed simp

declare think_split.simps [simp del]

definition visible :: "filter_action list \<Rightarrow> string" where
  "visible acts = concat (map (\<lambda>a. case a of EmitText s \<Rightarrow> s | EmitThinking _ \<Rightarrow> []) acts)"

definition thinking :: "filter_action list \<Rightarrow> string" where
  "thinking acts = concat (map (\<lambda>a. case a of EmitText _ \<Rightarrow> [] | EmitThinking s \<Rightarrow> s) acts)"

definition join_out :: "filter_action list \<Rightarrow> string \<times> string \<Rightarrow> string \<times> string" where
  "join_out acts vt = (visible acts @ fst vt, thinking acts @ snd vt)"

lemma join_out_append: "join_out (a @ b) vt = join_out a (join_out b vt)"
  by (simp add: join_out_def visible_def thinking_def)

lemma join_out_Nil [simp]: "join_out [] vt = vt"
  by (simp add: join_out_def visible_def thinking_def)

lemma join_out_emit:
  "join_out (emit inside e) (v, t) = (if inside then (v, e @ t) else (e @ v, t))"
  by (simp add: join_out_def emit_def visible_def thinking_def)

lemma think_split_skip:
  assumes "\<And>j. j < length e \<Longrightarrow> \<not> prefix (tag inside) (drop j (e @ s))"
  shows "think_split inside (e @ s) = join_out (emit inside e) (think_split inside s)"
proof (cases "find_str (tag inside) s")
  case None
  then show ?thesis
    using find_str_skip [of e "tag inside" s] assms
    by (simp add: think_split.simps [of inside "e @ s"] think_split.simps [of inside s] join_out_emit)
next
  case (Some i)
  then show ?thesis
    using find_str_skip [of e "tag inside" s] assms
    by (simp add: think_split.simps [of inside "e @ s"] think_split.simps [of inside s]
        join_out_emit split_def Let_def)
qed

lemma process_loop_split:
  "process_loop inside buf = (acts, inside', pending') \<Longrightarrow>
     think_split inside (buf @ r) = join_out acts (think_split inside' (pending' @ r))"
proof (induction inside buf arbitrary: acts rule: process_loop.induct)
  case (1 inside buf)
  show ?case
  proof (cases "find_str (tag inside) buf")
    case (Some i)
    have le: "i + length (tag inside) \<le> length buf" using Some by (rule find_str_le)
    obtain acts2 where 2: "process_loop (\<not> inside) (drop (i + length (tag inside)) buf) =
        (acts2, inside', pending')" "acts = emit inside (take i buf) @ acts2"
      using 1(2) Some
      by (cases "process_loop (\<not> inside) (drop (i + length (tag inside)) buf)")
         (simp add: process_loop.simps [of inside buf])
    have "think_split inside (buf @ r) =
        join_out (emit inside (take i buf))
          (think_split (\<not> inside) (drop (i + length (tag inside)) buf @ r))"
      using find_str_append [OF Some, of r] le
      by (simp add: think_split.simps [of inside "buf @ r"] split_def Let_def join_out_emit
          flip: prod.collapse)
         (simp add: join_out_def emit_def visible_def thinking_def)
    with 1(1) [OF Some 2(1)] 2(2) show ?thesis by (simp add: join_out_append)
  next
    case None
    let ?n = "length buf - partial_suffix_match buf (tag inside)"
    have st: "acts = emit inside (take ?n buf)" "inside' = inside" "pending' = drop ?n buf"
      using 1(2) None by (auto simp: process_loop.simps [of inside buf] Let_def)
    have whole: "take ?n buf @ (drop ?n buf @ r) = buf @ r" by (simp flip: append_assoc)
    have "think_split inside (take ?n buf @ (drop ?n buf @ r)) =
        join_out (emit inside (take ?n buf)) (think_split inside (drop ?n buf @ r))"
      by (rule think_split_skip, unfold whole, rule partial_suffix_no_match [OF None tag_nonempty])
         simp
    then show ?thesis by (simp only: st whole)
  qed
qed

section \<open>Streams\<close>

fun tf_feed :: "string list \<Rightarrow> think_filter \<Rightarrow> filter_action list \<times> think_filter" where
  "tf_feed [] f = ([], f)"
| "tf_feed (d # ds) f =
     (let (a1, f1) = tf_process d f; (a2, f2) = tf_feed ds f1 in (a1 @ a2, f2))"

definition tf_stream :: "string list \<Rightarrow> filter_action list" where
  "tf_stream deltas = (let (acts, f) = tf_feed deltas tf_new in acts @ fst (tf_flush f))"

lemma tf_feed_split:
  "tf_feed ds f = (acts, f') \<Longrightarrow>
     think_split (tf_inside_think f) (tf_pending f @ concat ds @ r) =
       join_out acts (think_split (tf_inside_think f') (tf_pending f' @ r))"
proof (induction ds arbitrary: f acts)
  case (Cons d ds)
  obtain a1 inside pending where p: "process_loop (tf_inside_think f) (tf_pending f @ d) = (a1, inside, pending)"
    by (metis prod_cases3)
  let ?f1 = "\<lparr>tf_inside_think = inside, tf_pending = pending\<rparr>"
  obtain a2 where f: "tf_feed ds ?f1 = (a2, f')" "acts = a1 @ a2"
    using Cons.prems p by (auto simp: tf_process_def split: prod.splits)
  show ?case
    using process_loop_split [OF p, of "concat ds @ r"] Cons.IH [OF f(1)] f(2)
    by (simp add: join_out_append)
qed simp

text \<open>What is held back is shorter than the tag, so it holds no tag.\<close>

lemma process_loop_pending:
  "process_loop inside buf = (acts, inside', pending') \<Longrightarrow> length pending' < length (tag inside')"
proof (induction inside buf arbitrary: acts rule: process_loop.induct)
  case (1 inside buf)
  show ?case
  proof (cases "find_str (tag inside) buf")
    case (Some i)
    then show ?thesis
      using 1 by (cases "process_loop (\<not> inside) (drop (i + length (tag inside)) buf)")
        (simp add: process_loop.simps [of inside buf])
  next
    case None
    have "partial_suffix_match buf (tag inside) \<le> min (length buf) (length (tag inside) - 1)"
      by (simp only: partial_suffix_match_def longest_suffix_le)
    moreover have "length (tag inside) - 1 < length (tag inside)"
      by (simp add: tag_def OPEN_TAG_def CLOSE_TAG_def)
    ultimately have "partial_suffix_match buf (tag inside) < length (tag inside)" by linarith
    then show ?thesis
      using 1(2) None by (auto simp: process_loop.simps [of inside buf] Let_def)
  qed
qed

lemma tf_feed_pending:
  "tf_feed ds f = (acts, f') \<Longrightarrow> length (tf_pending f) < length (tag (tf_inside_think f)) \<Longrightarrow>
     length (tf_pending f') < length (tag (tf_inside_think f'))"
proof (induction ds arbitrary: f acts)
  case (Cons d ds)
  obtain a1 inside pending where p: "process_loop (tf_inside_think f) (tf_pending f @ d) = (a1, inside, pending)"
    by (metis prod_cases3)
  then show ?case
    using Cons.prems Cons.IH [of "\<lparr>tf_inside_think = inside, tf_pending = pending\<rparr>"]
      process_loop_pending [OF p]
    by (auto simp: tf_process_def split: prod.splits)
qed simp

lemma think_split_short:
  assumes "length s < length (tag inside)"
  shows "think_split inside s = join_out (emit inside s) ([], [])"
proof -
  have "find_str (tag inside) s = None"
    using assms find_str_le by (metis add_leD2 not_None_eq not_le)
  then show ?thesis by (simp add: think_split.simps [of inside s] join_out_emit)
qed

text \<open>
  C24. The streaming filter does not depend on how the text is cut: for every list of
  deltas, the visible text and the reasoning it emits, with the flush at the end, are those
  of splitting the whole text at its tags at once. No byte of text is lost, duplicated,
  reordered or shown on the wrong side, and no tag is emitted.
\<close>

theorem think_filter_chunk_independent:
  "(visible (tf_stream deltas), thinking (tf_stream deltas)) = think_split False (concat deltas)"
proof -
  obtain acts f where f: "tf_feed deltas tf_new = (acts, f)" by fastforce
  have "length (tf_pending f) < length (tag (tf_inside_think f))"
    using tf_feed_pending [OF f] by (simp add: tf_new_def)
  then have "think_split (tf_inside_think f) (tf_pending f) = join_out (fst (tf_flush f)) ([], [])"
    by (simp add: think_split_short tf_flush_def)
  moreover have "think_split False (concat deltas) =
      join_out acts (think_split (tf_inside_think f) (tf_pending f))"
    using tf_feed_split [OF f, of "[]"] by (simp add: tf_new_def)
  ultimately have "think_split False (concat deltas) = join_out (tf_stream deltas) ([], [])"
    by (simp add: f tf_stream_def join_out_append)
  then show ?thesis by (simp add: join_out_def)
qed

end
