(* ===== verification/Audit_Trail.thy ===== *)
theory Audit_Trail
  imports Prelude
begin

text \<open>
  The audit trail (\<^verbatim>\<open>crates/openfang-runtime/src/audit.rs\<close>): an append-only list of entries, each
  carrying the hash of its contents and of the entry before it. SHA-256 with its hexadecimal
  encoding is a parameter, as is the text of the time stamp; the database is the list of its
  rows, and whether a connection and an INSERT succeed is an argument, since the source
  ignores their failure.
\<close>

section \<open>Data\<close>

datatype audit_action =
    ToolInvoke | CapabilityCheck | AgentSpawn | AgentKill | AgentMessage | MemoryAccess
  | FileAccess | NetworkAccess | ShellExec | AuthAttempt | WireConnect | ConfigChange
  | CredentialChange | AgentManifestUpdate | CronJobRun | CronJobOutput | CronJobFailure
  | UpdateCheck | UpdateInstall

definition audit_action_str :: "audit_action \<Rightarrow> string" where
  "audit_action_str a =
     (case a of
        ToolInvoke \<Rightarrow> ''ToolInvoke'' | CapabilityCheck \<Rightarrow> ''CapabilityCheck''
      | AgentSpawn \<Rightarrow> ''AgentSpawn'' | AgentKill \<Rightarrow> ''AgentKill''
      | AgentMessage \<Rightarrow> ''AgentMessage'' | MemoryAccess \<Rightarrow> ''MemoryAccess''
      | FileAccess \<Rightarrow> ''FileAccess'' | NetworkAccess \<Rightarrow> ''NetworkAccess''
      | ShellExec \<Rightarrow> ''ShellExec'' | AuthAttempt \<Rightarrow> ''AuthAttempt''
      | WireConnect \<Rightarrow> ''WireConnect'' | ConfigChange \<Rightarrow> ''ConfigChange''
      | CredentialChange \<Rightarrow> ''CredentialChange''
      | AgentManifestUpdate \<Rightarrow> ''AgentManifestUpdate''
      | CronJobRun \<Rightarrow> ''CronJobRun'' | CronJobOutput \<Rightarrow> ''CronJobOutput''
      | CronJobFailure \<Rightarrow> ''CronJobFailure'' | UpdateCheck \<Rightarrow> ''UpdateCheck''
      | UpdateInstall \<Rightarrow> ''UpdateInstall'')"

text \<open>The inverse used when rows are loaded; unknown names fall back to a tool invocation.\<close>

definition audit_action_of_str :: "string \<Rightarrow> audit_action" where
  "audit_action_of_str s =
     (if s = ''ToolInvoke'' then ToolInvoke else if s = ''CapabilityCheck'' then CapabilityCheck
      else if s = ''AgentSpawn'' then AgentSpawn else if s = ''AgentKill'' then AgentKill
      else if s = ''AgentMessage'' then AgentMessage else if s = ''MemoryAccess'' then MemoryAccess
      else if s = ''FileAccess'' then FileAccess else if s = ''NetworkAccess'' then NetworkAccess
      else if s = ''ShellExec'' then ShellExec else if s = ''AuthAttempt'' then AuthAttempt
      else if s = ''WireConnect'' then WireConnect else if s = ''ConfigChange'' then ConfigChange
      else if s = ''CredentialChange'' then CredentialChange
      else if s = ''AgentManifestUpdate'' then AgentManifestUpdate
      else if s = ''CronJobRun'' then CronJobRun else if s = ''CronJobOutput'' then CronJobOutput
      else if s = ''CronJobFailure'' then CronJobFailure else if s = ''UpdateCheck'' then UpdateCheck
      else if s = ''UpdateInstall'' then UpdateInstall else ToolInvoke)"

record audit_entry =
  ae_seq :: nat
  ae_timestamp :: string
  ae_agent_id :: string
  ae_action :: audit_action
  ae_detail :: string
  ae_outcome :: string
  ae_prev_hash :: string
  ae_hash :: string

text \<open>A row of the table \<^verbatim>\<open>audit_entries\<close>.\<close>

record audit_row =
  ar_seq :: nat
  ar_timestamp :: string
  ar_agent_id :: string
  ar_action :: string
  ar_detail :: string
  ar_outcome :: string
  ar_prev_hash :: string
  ar_hash :: string

record audit_log =
  al_entries :: "audit_entry list"
  al_tip :: string
  al_db :: "audit_row list option"

datatype integrity_error = ChainBreak nat string string | HashMismatch nat string string

section \<open>Operations\<close>

definition GENESIS :: string where
  "GENESIS = replicate 64 (CHR ''0'')"

text \<open>The bytes fed to the hasher, one field after the other.\<close>

definition entry_bytes ::
  "nat \<Rightarrow> string \<Rightarrow> string \<Rightarrow> audit_action \<Rightarrow> string \<Rightarrow> string \<Rightarrow> string \<Rightarrow> string" where
  "entry_bytes seq timestamp agent_id action detail outcome prev_hash =
     show_nat seq @ timestamp @ agent_id @ audit_action_str action @ detail @ outcome @ prev_hash"

definition compute_entry_hash ::
  "(string \<Rightarrow> string) \<Rightarrow> nat \<Rightarrow> string \<Rightarrow> string \<Rightarrow> audit_action \<Rightarrow> string \<Rightarrow> string \<Rightarrow> string \<Rightarrow> string" where
  "compute_entry_hash sha seq timestamp agent_id action detail outcome prev_hash =
     sha (entry_bytes seq timestamp agent_id action detail outcome prev_hash)"

definition audit_new :: audit_log where
  "audit_new = \<lparr>al_entries = [], al_tip = GENESIS, al_db = None\<rparr>"

definition row_to_entry :: "audit_row \<Rightarrow> audit_entry" where
  "row_to_entry r =
     \<lparr>ae_seq = ar_seq r, ae_timestamp = ar_timestamp r, ae_agent_id = ar_agent_id r,
      ae_action = audit_action_of_str (ar_action r), ae_detail = ar_detail r,
      ae_outcome = ar_outcome r, ae_prev_hash = ar_prev_hash r, ae_hash = ar_hash r\<rparr>"

definition entry_to_row :: "audit_entry \<Rightarrow> audit_row" where
  "entry_to_row e =
     \<lparr>ar_seq = ae_seq e, ar_timestamp = ae_timestamp e, ar_agent_id = ae_agent_id e,
      ar_action = audit_action_str (ae_action e), ar_detail = ae_detail e,
      ar_outcome = ae_outcome e, ar_prev_hash = ae_prev_hash e, ar_hash = ae_hash e\<rparr>"

text \<open>The query orders the rows by sequence number.\<close>

definition with_db :: "audit_row list \<Rightarrow> audit_log" where
  "with_db rows =
     (let entries = map row_to_entry (sort_key ar_seq rows)
      in \<lparr>al_entries = entries,
          al_tip = (if entries = [] then GENESIS else ae_hash (last entries)),
          al_db = Some rows\<rparr>)"

definition audit_record ::
  "(string \<Rightarrow> string) \<Rightarrow> string \<Rightarrow> bool \<Rightarrow> string \<Rightarrow> audit_action \<Rightarrow> string \<Rightarrow> string \<Rightarrow> audit_log
     \<Rightarrow> string \<times> audit_log" where
  "audit_record sha timestamp insert_ok agent_id action detail outcome lg =
     (let seq = length (al_entries lg);
          prev_hash = al_tip lg;
          hash = compute_entry_hash sha seq timestamp agent_id action detail outcome prev_hash;
          entry = \<lparr>ae_seq = seq, ae_timestamp = timestamp, ae_agent_id = agent_id,
                   ae_action = action, ae_detail = detail, ae_outcome = outcome,
                   ae_prev_hash = prev_hash, ae_hash = hash\<rparr>
      in (hash,
          \<lparr>al_entries = al_entries lg @ [entry], al_tip = hash,
           al_db = (case al_db lg of
                      Some rows \<Rightarrow> Some (if insert_ok then rows @ [entry_to_row entry] else rows)
                    | None \<Rightarrow> None)\<rparr>))"

definition entry_hash :: "(string \<Rightarrow> string) \<Rightarrow> audit_entry \<Rightarrow> string" where
  "entry_hash sha e =
     compute_entry_hash sha (ae_seq e) (ae_timestamp e) (ae_agent_id e) (ae_action e)
       (ae_detail e) (ae_outcome e) (ae_prev_hash e)"

fun verify_entries :: "(string \<Rightarrow> string) \<Rightarrow> string \<Rightarrow> audit_entry list \<Rightarrow> (integrity_error, unit) result" where
  "verify_entries sha expected [] = Inr ()"
| "verify_entries sha expected (e # es) =
     (if ae_prev_hash e \<noteq> expected then Inl (ChainBreak (ae_seq e) expected (ae_prev_hash e))
      else if entry_hash sha e \<noteq> ae_hash e
      then Inl (HashMismatch (ae_seq e) (entry_hash sha e) (ae_hash e))
      else verify_entries sha (ae_hash e) es)"

definition verify_integrity :: "(string \<Rightarrow> string) \<Rightarrow> audit_log \<Rightarrow> (integrity_error, unit) result" where
  "verify_integrity sha lg = verify_entries sha GENESIS (al_entries lg)"

definition tip_hash :: "audit_log \<Rightarrow> string" where
  "tip_hash lg = al_tip lg"

definition audit_len :: "audit_log \<Rightarrow> nat" where
  "audit_len lg = length (al_entries lg)"

definition audit_recent :: "audit_log \<Rightarrow> nat \<Rightarrow> audit_entry list" where
  "audit_recent lg n = drop (length (al_entries lg) - n) (al_entries lg)"

section \<open>Chains\<close>

abbreviation last_hash :: "string \<Rightarrow> audit_entry list \<Rightarrow> string" where
  "last_hash start es \<equiv> (if es = [] then start else ae_hash (last es))"

lemma verify_append:
  "verify_entries sha h (es @ [e]) = Inr () \<longleftrightarrow>
     verify_entries sha h es = Inr () \<and> ae_prev_hash e = last_hash h es \<and> entry_hash sha e = ae_hash e"
  by (induction es arbitrary: h) auto

lemma verify_take: "verify_entries sha h es = Inr () \<Longrightarrow> verify_entries sha h (take n es) = Inr ()"
  by (induction es arbitrary: h n) (auto simp: take_Cons' split: if_splits)

lemma action_roundtrip: "audit_action_of_str (audit_action_str a) = a"
  by (cases a) (simp_all add: audit_action_of_str_def audit_action_str_def)

lemma row_roundtrip [simp]: "row_to_entry (entry_to_row e) = e"
  by (simp add: row_to_entry_def entry_to_row_def action_roundtrip)

lemma entry_to_row_seq [simp]: "ar_seq (entry_to_row e) = ae_seq e"
  by (simp add: entry_to_row_def)

text \<open>What holds of a log whose inserts have all succeeded.\<close>

definition audit_inv :: "(string \<Rightarrow> string) \<Rightarrow> audit_log \<Rightarrow> bool" where
  "audit_inv sha lg =
     (verify_entries sha GENESIS (al_entries lg) = Inr ()
      \<and> al_tip lg = last_hash GENESIS (al_entries lg)
      \<and> map ae_seq (al_entries lg) = [0..<length (al_entries lg)]
      \<and> (\<forall>rows. al_db lg = Some rows \<longrightarrow> rows = map entry_to_row (al_entries lg)))"

lemma audit_record_inv:
  assumes "audit_inv sha lg"
  shows "audit_inv sha (snd (audit_record sha ts True agent action detail outcome lg))"
  using assms
  by (auto simp: audit_inv_def audit_record_def Let_def verify_append entry_hash_def
           split: option.splits)

record audit_call =
  ac_time :: string
  ac_agent :: string
  ac_action :: audit_action
  ac_detail :: string
  ac_outcome :: string

definition run_call :: "(string \<Rightarrow> string) \<Rightarrow> audit_call \<Rightarrow> audit_log \<Rightarrow> audit_log" where
  "run_call sha c lg =
     snd (audit_record sha (ac_time c) True (ac_agent c) (ac_action c) (ac_detail c) (ac_outcome c) lg)"

lemma audit_inv_empty [inv_intros]: "audit_inv sha (with_db [])"
  by (simp add: audit_inv_def with_db_def)

lemma run_call_inv [inv_intros]: "audit_inv sha lg \<Longrightarrow> audit_inv sha (run_call sha c lg)"
  by (simp add: run_call_def audit_record_inv)

interpretation trail: run_from "run_call sha" "\<lambda>_. True" "audit_inv sha" "with_db []" for sha
  by unfold_locales (auto intro: inv_intros)

lemma run_calls_db:
  "al_db lg \<noteq> None \<Longrightarrow> al_db (fold (run_call sha) cs lg) \<noteq> None"
  by (induction cs arbitrary: lg) (auto simp: run_call_def audit_record_def Let_def split: option.splits)

lemma run_calls_length:
  "length (al_entries (fold (run_call sha) cs lg)) = length (al_entries lg) + length cs"
  by (induction cs arbitrary: lg) (auto simp: run_call_def audit_record_def Let_def)

lemma with_db_of_rows:
  assumes "sorted (map ae_seq es)"
  shows "al_entries (with_db (map entry_to_row es)) = es"
proof -
  have "sort_key ar_seq (map entry_to_row es) = map entry_to_row es"
    using assms by (intro sort_key_id_if_sorted) (simp add: comp_def)
  then show ?thesis by (simp add: with_db_def Let_def comp_def)
qed

text \<open>
  C27. The trail survives a restart: after any sequence of recorded events on an empty
  database whose inserts succeed, the log reloaded from the database has the same entries
  in the same order and the same tip, its chain verifies, and it holds one entry per event.
\<close>

theorem audit_restart_roundtrip:
  "\<exists>rows. al_db (fold (run_call sha) cs (with_db [])) = Some rows
     \<and> with_db rows = fold (run_call sha) cs (with_db [])
     \<and> verify_integrity sha (with_db rows) = Inr ()
     \<and> audit_len (with_db rows) = length cs"
proof -
  let ?lg = "fold (run_call sha) cs (with_db [])"
  have inv: "audit_inv sha ?lg" by (rule trail.reached_inv) (simp add: list_all_iff)
  obtain rows where rows: "al_db ?lg = Some rows"
    using run_calls_db [of "with_db []" sha cs] by (auto simp: with_db_def)
  have r: "rows = map entry_to_row (al_entries ?lg)"
    and seqs: "map ae_seq (al_entries ?lg) = [0..<length (al_entries ?lg)]"
    using inv rows by (auto simp: audit_inv_def)
  have e: "al_entries (with_db rows) = al_entries ?lg"
    unfolding r by (rule with_db_of_rows) (simp only: seqs sorted_upt)
  have "with_db rows = ?lg"
    using e rows inv
    by (simp add: audit_inv_def with_db_def Let_def)
  then show ?thesis
    using rows inv run_calls_length [of sha cs "with_db []"]
    by (simp add: verify_integrity_def audit_inv_def audit_len_def with_db_def)
qed

section \<open>Tampering\<close>

definition hashed_bytes :: "audit_entry \<Rightarrow> string" where
  "hashed_bytes e =
     entry_bytes (ae_seq e) (ae_timestamp e) (ae_agent_id e) (ae_action e) (ae_detail e)
       (ae_outcome e) (ae_prev_hash e)"

lemma entry_hash_bytes: "entry_hash sha e = sha (hashed_bytes e)"
  by (simp add: entry_hash_def compute_entry_hash_def hashed_bytes_def)

text \<open>Two logs exhibit a collision when entries of theirs differ but hash to the same digest.\<close>

definition collides :: "(string \<Rightarrow> string) \<Rightarrow> audit_entry list \<Rightarrow> audit_entry list \<Rightarrow> bool" where
  "collides sha es ds =
     (\<exists>e \<in> set es. \<exists>d \<in> set ds. hashed_bytes e \<noteq> hashed_bytes d
        \<and> sha (hashed_bytes e) = sha (hashed_bytes d))"

lemma last_hash_length:
  assumes "\<And>x. length (sha x) = 64" "length h = 64" "verify_entries sha h es = Inr ()"
  shows "length (last_hash h es) = 64"
proof (cases es rule: rev_cases)
  case (snoc ds d)
  then have "ae_hash d = sha (hashed_bytes d)"
    using assms(3) by (simp add: verify_append entry_hash_bytes)
  then show ?thesis using snoc assms(1) by simp
qed (use assms(2) in simp)

lemma hashed_bytes_prev:
  assumes "hashed_bytes e = hashed_bytes d" "length (ae_prev_hash e) = length (ae_prev_hash d)"
  shows "ae_prev_hash e = ae_prev_hash d"
  using assms by (simp add: hashed_bytes_def entry_bytes_def flip: append_assoc)

lemma verified_chains_agree:
  assumes "\<And>x. length (sha x) = 64" "length h = 64"
    and "verify_entries sha h es = Inr ()" "verify_entries sha h ds = Inr ()"
    and "length es = length ds" "last_hash h es = last_hash h ds" "\<not> collides sha es ds"
  shows "map hashed_bytes es = map hashed_bytes ds"
  using assms(3-)
proof (induction es arbitrary: ds rule: rev_induct)
  case (snoc e es)
  then obtain ds' d where ds: "ds = ds' @ [d]" by (cases ds rule: rev_cases) auto
  note pre = snoc.prems(1,2) [unfolded ds verify_append]
  have "sha (hashed_bytes e) = sha (hashed_bytes d)"
    using snoc.prems(4) pre by (simp add: ds entry_hash_bytes)
  then have same: "hashed_bytes e = hashed_bytes d"
    using snoc.prems(5) by (auto simp: ds collides_def)
  have "length (ae_prev_hash e) = 64" "length (ae_prev_hash d) = 64"
    using pre last_hash_length [of sha h es] last_hash_length [of sha h ds'] assms(1,2) by simp_all
  then have "last_hash h es = last_hash h ds'"
    using hashed_bytes_prev [OF same] pre by simp
  moreover have "\<not> collides sha es ds'" using snoc.prems(5) by (auto simp: ds collides_def)
  ultimately have "map hashed_bytes es = map hashed_bytes ds'"
    using snoc.IH [of ds'] pre snoc.prems(3) by (simp add: ds)
  with same show ?case by (simp add: ds)
qed simp

text \<open>
  C28. Tamper evidence: with digests of 64 characters, two trails that both verify, have
  the same length and end in the same hash agree on every hashed byte of every entry,
  unless they contain two different entry texts with the same digest. An attacker who
  cannot exhibit such a pair cannot change a trail whose length and tip are known.
\<close>

theorem audit_tamper_evident:
  assumes "\<And>x. length (sha x) = 64"
    and "verify_integrity sha lg = Inr ()" "verify_integrity sha lg' = Inr ()"
    and "audit_len lg = audit_len lg'"
    and "last_hash GENESIS (al_entries lg) = last_hash GENESIS (al_entries lg')"
    and "\<not> collides sha (al_entries lg) (al_entries lg')"
  shows "map hashed_bytes (al_entries lg) = map hashed_bytes (al_entries lg')"
  using assms verified_chains_agree [OF assms(1), of GENESIS]
  by (simp add: verify_integrity_def audit_len_def GENESIS_def)

definition toy_digest :: "string \<Rightarrow> string" where
  "toy_digest s = take 64 (s @ replicate 64 (CHR ''0''))"

definition one_event :: audit_log where
  "one_event = snd (audit_record toy_digest ''t'' True ''a'' ToolInvoke ''ls'' ''ok'' audit_new)"

definition one_event_edited :: audit_log where
  "one_event_edited =
     one_event\<lparr>al_entries := [(hd (al_entries one_event))\<lparr>ae_detail := ''lso'', ae_outcome := ''k''\<rparr>]\<rparr>"

lemmas one_event_defs =
  one_event_edited_def one_event_def audit_record_def audit_new_def Let_def

lemma audit_tamper_evident_witness:
  "al_entries one_event \<noteq> al_entries one_event_edited
   \<and> map hashed_bytes (al_entries one_event) = map hashed_bytes (al_entries one_event_edited)"
proof
  show "al_entries one_event \<noteq> al_entries one_event_edited" by (simp add: one_event_defs)
  show "map hashed_bytes (al_entries one_event) = map hashed_bytes (al_entries one_event_edited)"
  proof (rule audit_tamper_evident [of toy_digest])
    show "length (toy_digest x) = 64" for x by (simp add: toy_digest_def)
    show "verify_integrity toy_digest one_event = Inr ()"
      "verify_integrity toy_digest one_event_edited = Inr ()"
      by (simp_all add: one_event_defs verify_integrity_def entry_hash_bytes hashed_bytes_def
          compute_entry_hash_def entry_bytes_def)
    show "\<not> collides toy_digest (al_entries one_event) (al_entries one_event_edited)"
      by (simp add: collides_def one_event_defs hashed_bytes_def entry_bytes_def)
  qed (simp_all add: one_event_defs audit_len_def)
qed

text \<open>
  The hashed text has no field separators, so a change that moves bytes across a
  field boundary is not detected: moving the first bytes of an entry's outcome to the end
  of its detail gives a trail with exactly the same verification result, for every hash
  function and every position.
\<close>

lemma audit_field_shift_undetected:
  "verify_integrity sha
     (lg\<lparr>al_entries := (al_entries lg)[i := (al_entries lg ! i)
          \<lparr>ae_detail := ae_detail (al_entries lg ! i) @ take n (ae_outcome (al_entries lg ! i)),
           ae_outcome := drop n (ae_outcome (al_entries lg ! i))\<rparr>]\<rparr>)
   = verify_integrity sha lg"
proof -
  define shift where "shift e = e\<lparr>ae_detail := ae_detail e @ take n (ae_outcome e),
                                 ae_outcome := drop n (ae_outcome e)\<rparr>" for e :: audit_entry
  have [simp]: "hashed_bytes (shift e) = hashed_bytes e" "ae_prev_hash (shift e) = ae_prev_hash e"
    "ae_hash (shift e) = ae_hash e" "ae_seq (shift e) = ae_seq e" for e
    by (simp_all add: shift_def hashed_bytes_def entry_bytes_def)
  have "verify_entries sha h (es[i := shift (es ! i)]) = verify_entries sha h es" for h es
    by (induction es arbitrary: h i) (auto simp: entry_hash_bytes split: nat.splits)
  from this [of GENESIS "al_entries lg"] show ?thesis
    by (simp add: verify_integrity_def shift_def)
qed

end
