(* ===== verification/Cron.thy ===== *)
theory Cron
  imports Prelude
begin

text \<open>
  Scheduled jobs: their types and validation (\<^verbatim>\<open>crates/openfang-types/src/scheduler.rs\<close>) and the
  scheduler (\<^verbatim>\<open>crates/openfang-kernel/src/cron.rs\<close>). Instants are milliseconds. The parser and
  iterator of the \<^verbatim>\<open>cron\<close> crate, time zones, the text of JSON values and time stamps, and derived
  \<^verbatim>\<open>Debug\<close> output are parameters; the file the jobs are persisted to is its list of entries.
\<close>

section \<open>Job types and validation\<close>

definition MAX_JOBS_PER_AGENT :: nat where "MAX_JOBS_PER_AGENT = 50"
definition MAX_NAME_LEN :: nat where "MAX_NAME_LEN = 128"
definition MIN_EVERY_SECS :: nat where "MIN_EVERY_SECS = 60"
definition MAX_EVERY_SECS :: nat where "MAX_EVERY_SECS = 86400"
definition MAX_AT_HORIZON_SECS :: int where "MAX_AT_HORIZON_SECS = 365 * 24 * 3600"
definition MAX_EVENT_TEXT_LEN :: nat where "MAX_EVENT_TEXT_LEN = 4096"
definition MAX_TURN_MESSAGE_LEN :: nat where "MAX_TURN_MESSAGE_LEN = 16384"
definition CRON_MIN_TIMEOUT_SECS :: nat where "CRON_MIN_TIMEOUT_SECS = 10"
definition CRON_MAX_TIMEOUT_SECS :: nat where "CRON_MAX_TIMEOUT_SECS = 600"
definition MAX_WEBHOOK_URL_LEN :: nat where "MAX_WEBHOOK_URL_LEN = 2048"

datatype cron_schedule = At time | Every nat | CronExpr string "string option"

datatype cron_action =
    SystemEventAction string
  | AgentTurn string "string option" "nat option"
  | WorkflowRun string "string option" "nat option"
  | AinlRun string "string option" "string option" "nat option" bool "json option"
  | WorkspaceAction string "string list" "(string, string) store" "string option" "nat option"

datatype cron_delivery = NoDelivery | Channel string string | LastChannel | Webhook string

record cron_job =
  cj_id :: uuid
  cj_agent_id :: agent_id
  cj_name :: string
  cj_enabled :: bool
  cj_schedule :: cron_schedule
  cj_action :: cron_action
  cj_delivery :: cron_delivery
  cj_created_at :: time
  cj_last_run :: "time option"
  cj_next_run :: "time option"

record cron_env =
  ce_next :: "string \<Rightarrow> string option \<Rightarrow> time \<Rightarrow> time option option"
  ce_tz_ok :: "string \<Rightarrow> bool"
  ce_json_str :: "json \<Rightarrow> string"
  ce_debug_opt :: "string option \<Rightarrow> string"
  ce_rfc3339 :: "time \<Rightarrow> string"
  ce_uni_alnum :: "nat \<Rightarrow> bool"

datatype job_error =
    TooManyJobs nat
  | NameEmpty | NameTooLong nat | NameChars
  | EveryTooSmall nat | EveryTooLarge nat | AtInPast | AtTooFar
  | CronEmpty | CronFieldCount nat string | CronFieldEmpty nat | CronFieldChars nat string
  | EventTextEmpty | EventTextTooLong nat
  | TurnEmpty | TurnTooLong nat
  | TimeoutTooSmall nat | TimeoutTooLarge nat
  | WorkflowIdEmpty | WorkflowInputTooLong nat
  | ProgramPathEmpty | ProgramPathTooLong | FrameNotObject | FrameTooLarge nat
  | ActionNameEmpty | ActionNameTooLong | BadMode
  | DeliveryChannelEmpty | DeliveryRecipientEmpty | WebhookScheme | WebhookTooLong nat
  | GlobalLimit nat | JobNotFound uuid

definition cron_field_char :: "nat \<Rightarrow> bool" where
  "cron_field_char c =
     (48 \<le> c \<and> c \<le> 57 \<or> c \<in> {of_char CHR ''*'', of_char CHR ''/'', of_char CHR ''-'',
                                of_char CHR '','', of_char CHR ''?''})"

fun validate_cron_fields :: "nat \<Rightarrow> string list \<Rightarrow> (job_error, unit) result" where
  "validate_cron_fields i [] = Inr ()"
| "validate_cron_fields i (f # fs) =
     (if f = [] then Inl (CronFieldEmpty i)
      else if \<not> list_all cron_field_char (str_chars f) then Inl (CronFieldChars i f)
      else validate_cron_fields (Suc i) fs)"

definition validate_cron_expr :: "string \<Rightarrow> (job_error, unit) result" where
  "validate_cron_expr expr =
     (let trimmed = trim expr; fields = split_whitespace trimmed in
      if trimmed = [] then Inl CronEmpty
      else if length fields \<noteq> 5 then Inl (CronFieldCount (length fields) trimmed)
      else validate_cron_fields 0 fields)"

definition validate_schedule :: "time \<Rightarrow> cron_schedule \<Rightarrow> (job_error, unit) result" where
  "validate_schedule now s =
     (case s of
        Every every_secs \<Rightarrow>
          if every_secs < MIN_EVERY_SECS then Inl (EveryTooSmall every_secs)
          else if every_secs > MAX_EVERY_SECS then Inl (EveryTooLarge every_secs)
          else Inr ()
      | At t \<Rightarrow>
          if t \<le> now then Inl AtInPast
          else if (t - now) div 1000 > MAX_AT_HORIZON_SECS then Inl AtTooFar
          else Inr ()
      | CronExpr expr _ \<Rightarrow> validate_cron_expr expr)"

text \<open>The timeout checks share their shape: none, or between the minimum and a maximum.\<close>

definition validate_timeout :: "nat \<Rightarrow> nat option \<Rightarrow> (job_error, unit) result" where
  "validate_timeout mx t =
     (case t of
        None \<Rightarrow> Inr ()
      | Some t \<Rightarrow>
          if t < CRON_MIN_TIMEOUT_SECS then Inl (TimeoutTooSmall t)
          else if t > mx then Inl (TimeoutTooLarge t)
          else Inr ())"

definition and_then :: "('e, unit) result \<Rightarrow> ('e, unit) result \<Rightarrow> ('e, unit) result" where
  "and_then a b = (case a of Inl e \<Rightarrow> Inl e | Inr _ \<Rightarrow> b)"

definition validate_frame :: "cron_env \<Rightarrow> json option \<Rightarrow> (job_error, unit) result" where
  "validate_frame env frame =
     (case frame of
        None \<Rightarrow> Inr ()
      | Some f \<Rightarrow>
          (case f of
             JObject _ \<Rightarrow>
               let n = length (ce_json_str env f) in
               if n > 256 * 1024 then Inl (FrameTooLarge n) else Inr ()
           | _ \<Rightarrow> Inl FrameNotObject))"

definition validate_action :: "cron_env \<Rightarrow> cron_action \<Rightarrow> (job_error, unit) result" where
  "validate_action env a =
     (case a of
        SystemEventAction t \<Rightarrow>
          if t = [] then Inl EventTextEmpty
          else if length t > MAX_EVENT_TEXT_LEN then Inl (EventTextTooLong (length t))
          else Inr ()
      | AgentTurn msg _ timeout \<Rightarrow>
          if msg = [] then Inl TurnEmpty
          else if length msg > MAX_TURN_MESSAGE_LEN then Inl (TurnTooLong (length msg))
          else validate_timeout CRON_MAX_TIMEOUT_SECS timeout
      | WorkflowRun workflow_id input timeout \<Rightarrow>
          if workflow_id = [] then Inl WorkflowIdEmpty
          else (case input of
                  Some i \<Rightarrow>
                    if length i > MAX_TURN_MESSAGE_LEN then Inl (WorkflowInputTooLong (length i))
                    else validate_timeout 3600 timeout
                | None \<Rightarrow> validate_timeout 3600 timeout)
      | AinlRun path _ _ timeout _ frame \<Rightarrow>
          if path = [] then Inl ProgramPathEmpty
          else if length path > 4096 then Inl ProgramPathTooLong
          else and_then (validate_timeout 3600 timeout) (validate_frame env frame)
      | WorkspaceAction name _ _ mode timeout \<Rightarrow>
          if trim name = [] then Inl ActionNameEmpty
          else if length name > 128 then Inl ActionNameTooLong
          else (case mode of
                  Some m \<Rightarrow>
                    if to_ascii_lowercase (trim m) \<notin> {''oneshot'', ''daemon''} then Inl BadMode
                    else validate_timeout 3600 timeout
                | None \<Rightarrow> validate_timeout 3600 timeout))"

definition validate_delivery :: "cron_delivery \<Rightarrow> (job_error, unit) result" where
  "validate_delivery d =
     (case d of
        Channel ch recipient \<Rightarrow>
          if ch = [] then Inl DeliveryChannelEmpty
          else if recipient = [] then Inl DeliveryRecipientEmpty
          else Inr ()
      | Webhook url \<Rightarrow>
          if \<not> starts_with url ''http://'' \<and> \<not> starts_with url ''https://'' then Inl WebhookScheme
          else if length url > MAX_WEBHOOK_URL_LEN then Inl (WebhookTooLong (length url))
          else Inr ()
      | NoDelivery \<Rightarrow> Inr ()
      | LastChannel \<Rightarrow> Inr ())"

definition job_name_char :: "cron_env \<Rightarrow> nat \<Rightarrow> bool" where
  "job_name_char env c =
     (is_alphanumeric (ce_uni_alnum env) c
      \<or> c \<in> {of_char CHR '' '', of_char CHR ''-'', of_char CHR ''_''})"

definition cron_job_validate :: "cron_env \<Rightarrow> time \<Rightarrow> cron_job \<Rightarrow> nat \<Rightarrow> (job_error, unit) result" where
  "cron_job_validate env now job existing_count =
     (if existing_count \<ge> MAX_JOBS_PER_AGENT then Inl (TooManyJobs existing_count)
      else if cj_name job = [] then Inl NameEmpty
      else if length (cj_name job) > MAX_NAME_LEN then Inl (NameTooLong (length (cj_name job)))
      else if \<not> list_all (job_name_char env) (str_chars (cj_name job)) then Inl NameChars
      else and_then (validate_schedule now (cj_schedule job))
             (and_then (validate_action env (cj_action job))
                (validate_delivery (cj_delivery job))))"

section \<open>Next fire times\<close>

definition seven_field :: "string \<Rightarrow> string" where
  "seven_field expr =
     (let trimmed = trim expr; n = length (split_whitespace trimmed) in
      if n = 5 then ''0 '' @ trimmed @ '' *''
      else if n = 6 then trimmed @ '' *''
      else expr)"

definition HOUR :: time where
  "HOUR = 3600 * 1000"

definition compute_next_run_after :: "cron_env \<Rightarrow> cron_schedule \<Rightarrow> time \<Rightarrow> time" where
  "compute_next_run_after env s after =
     (case s of
        At t \<Rightarrow> t
      | Every every_secs \<Rightarrow> after + int every_secs * 1000
      | CronExpr expr tz \<Rightarrow>
          (let base = after + 1000;
               zone = (case tz of
                         Some z \<Rightarrow> if z \<noteq> [] \<and> z \<noteq> ''UTC'' \<and> ce_tz_ok env z then Some z else None
                       | None \<Rightarrow> None)
           in case ce_next env (seven_field expr) zone base of
                Some (Some t) \<Rightarrow> t
              | Some None \<Rightarrow> after + HOUR
              | None \<Rightarrow> after + HOUR))"

section \<open>The scheduler\<close>

definition MAX_CONSECUTIVE_ERRORS :: nat where "MAX_CONSECUTIVE_ERRORS = 5"

datatype claim_error = NotFound | Disabled

record job_meta =
  jm_job :: cron_job
  jm_one_shot :: bool
  jm_last_status :: "string option"
  jm_consecutive_errors :: nat

definition job_meta_new :: "cron_job \<Rightarrow> bool \<Rightarrow> job_meta" where
  "job_meta_new job one_shot =
     \<lparr>jm_job = job, jm_one_shot = one_shot, jm_last_status = None, jm_consecutive_errors = 0\<rparr>"

record cron_scheduler =
  cs_jobs :: "(uuid, job_meta) store"
  cs_max_total_jobs :: nat

definition cs_new :: "nat \<Rightarrow> cron_scheduler" where
  "cs_new max_total_jobs = \<lparr>cs_jobs = [], cs_max_total_jobs = max_total_jobs\<rparr>"

definition cs_set_max_total_jobs :: "nat \<Rightarrow> cron_scheduler \<Rightarrow> cron_scheduler" where
  "cs_set_max_total_jobs n s = s\<lparr>cs_max_total_jobs := n\<rparr>"

definition cs_load :: "job_meta list option \<Rightarrow> cron_scheduler \<Rightarrow> nat \<times> cron_scheduler" where
  "cs_load file s =
     (case file of
        None \<Rightarrow> (0, s)
      | Some metas \<Rightarrow>
          (length metas,
           s\<lparr>cs_jobs := fold (\<lambda>m. st_put (cj_id (jm_job m)) m) metas (cs_jobs s)\<rparr>))"

definition cs_persist :: "cron_scheduler \<Rightarrow> job_meta list" where
  "cs_persist s = map snd (cs_jobs s)"

definition agent_job_count :: "(uuid \<times> job_meta \<Rightarrow> bool) \<Rightarrow> agent_id \<Rightarrow> cron_scheduler \<Rightarrow> nat" where
  "agent_job_count P a s =
     length (filter (\<lambda>e. cj_agent_id (jm_job (snd e)) = a \<and> P e) (cs_jobs s))"

definition cs_add_job ::
  "cron_env \<Rightarrow> time \<Rightarrow> cron_job \<Rightarrow> bool \<Rightarrow> cron_scheduler \<Rightarrow> (job_error, uuid) result \<times> cron_scheduler" where
  "cs_add_job env now job one_shot s =
     (if length (cs_jobs s) \<ge> cs_max_total_jobs s then (Inl (GlobalLimit (cs_max_total_jobs s)), s)
      else case cron_job_validate env now job (agent_job_count (\<lambda>_. True) (cj_agent_id job) s) of
        Inl e \<Rightarrow> (Inl e, s)
      | Inr _ \<Rightarrow>
          (let job1 = job\<lparr>cj_next_run := Some (compute_next_run_after env (cj_schedule job) now)\<rparr>
           in (Inr (cj_id job),
               s\<lparr>cs_jobs := st_put (cj_id job) (job_meta_new job1 one_shot) (cs_jobs s)\<rparr>)))"

definition cs_remove_job :: "uuid \<Rightarrow> cron_scheduler \<Rightarrow> (job_error, cron_job) result \<times> cron_scheduler" where
  "cs_remove_job k s =
     (case st_get (cs_jobs s) k of
        Some m \<Rightarrow> (Inr (jm_job m), s\<lparr>cs_jobs := st_del k (cs_jobs s)\<rparr>)
      | None \<Rightarrow> (Inl (JobNotFound k), s))"

definition cs_update_job ::
  "cron_env \<Rightarrow> time \<Rightarrow> uuid \<Rightarrow> cron_job \<Rightarrow> cron_scheduler \<Rightarrow> (job_error, unit) result \<times> cron_scheduler" where
  "cs_update_job env now k job s =
     (case st_get (cs_jobs s) k of
        None \<Rightarrow> (Inl (JobNotFound k), s)
      | Some m \<Rightarrow>
          (let job1 = job\<lparr>cj_id := k, cj_created_at := cj_created_at (jm_job m),
                          cj_last_run := cj_last_run (jm_job m)\<rparr>
           in case cron_job_validate env now job1
                     (agent_job_count (\<lambda>e. fst e \<noteq> k) (cj_agent_id job1) s) of
                Inl e \<Rightarrow> (Inl e, s)
              | Inr _ \<Rightarrow>
                  (Inr (),
                   s\<lparr>cs_jobs := st_put k
                       (m\<lparr>jm_job := job1\<lparr>cj_next_run :=
                            Some (compute_next_run_after env (cj_schedule job1) now)\<rparr>,
                          jm_consecutive_errors := 0\<rparr>) (cs_jobs s)\<rparr>)))"

text \<open>A change of one stored entry, when it exists.\<close>

definition modify_job :: "uuid \<Rightarrow> (job_meta \<Rightarrow> job_meta) \<Rightarrow> cron_scheduler \<Rightarrow> cron_scheduler" where
  "modify_job k f s =
     (case st_get (cs_jobs s) k of
        Some m \<Rightarrow> s\<lparr>cs_jobs := st_put k (f m) (cs_jobs s)\<rparr> | None \<Rightarrow> s)"

definition set_next_run :: "time \<Rightarrow> job_meta \<Rightarrow> job_meta" where
  "set_next_run t m = m\<lparr>jm_job := (jm_job m)\<lparr>cj_next_run := Some t\<rparr>\<rparr>"

definition set_job_enabled :: "bool \<Rightarrow> job_meta \<Rightarrow> job_meta" where
  "set_job_enabled b m = m\<lparr>jm_job := (jm_job m)\<lparr>cj_enabled := b\<rparr>\<rparr>"

definition recompute :: "cron_env \<Rightarrow> time \<Rightarrow> job_meta \<Rightarrow> job_meta" where
  "recompute env now m = set_next_run (compute_next_run_after env (cj_schedule (jm_job m)) now) m"

definition cs_set_enabled ::
  "cron_env \<Rightarrow> time \<Rightarrow> uuid \<Rightarrow> bool \<Rightarrow> cron_scheduler \<Rightarrow> (job_error, unit) result \<times> cron_scheduler" where
  "cs_set_enabled env now k enabled s =
     (case st_get (cs_jobs s) k of
        None \<Rightarrow> (Inl (JobNotFound k), s)
      | Some _ \<Rightarrow>
          (Inr (),
           modify_job k (\<lambda>m.
             let m1 = set_job_enabled enabled m in
             if enabled then recompute env now (m1\<lparr>jm_consecutive_errors := 0\<rparr>) else m1) s))"

definition cs_get_job :: "cron_scheduler \<Rightarrow> uuid \<Rightarrow> cron_job option" where
  "cs_get_job s k = map_option jm_job (st_get (cs_jobs s) k)"

definition cs_get_meta :: "cron_scheduler \<Rightarrow> uuid \<Rightarrow> job_meta option" where
  "cs_get_meta s k = st_get (cs_jobs s) k"

definition cs_list_jobs :: "cron_scheduler \<Rightarrow> agent_id \<Rightarrow> cron_job list" where
  "cs_list_jobs s a = filter (\<lambda>j. cj_agent_id j = a) (map (\<lambda>e. jm_job (snd e)) (cs_jobs s))"

definition cs_list_all_jobs :: "cron_scheduler \<Rightarrow> cron_job list" where
  "cs_list_all_jobs s = map (\<lambda>e. jm_job (snd e)) (cs_jobs s)"

definition cs_find_first_job_id_by_name :: "cron_scheduler \<Rightarrow> string \<Rightarrow> uuid option" where
  "cs_find_first_job_id_by_name s name =
     map_option fst (find (\<lambda>e. cj_name (jm_job (snd e)) = name) (cs_jobs s))"

definition stale_status :: "job_meta \<Rightarrow> bool" where
  "stale_status m =
     (case jm_last_status m of
        Some st \<Rightarrow> contains_str st ''not found'' \<or> contains_str st ''No such agent''
      | None \<Rightarrow> False)"

definition set_job_agent :: "agent_id \<Rightarrow> job_meta \<Rightarrow> job_meta" where
  "set_job_agent a m =
     m\<lparr>jm_job := (jm_job m)\<lparr>cj_agent_id := a\<rparr>, jm_consecutive_errors := 0\<rparr>"

definition map_jobs :: "(job_meta \<Rightarrow> bool) \<Rightarrow> (job_meta \<Rightarrow> job_meta) \<Rightarrow> cron_scheduler
    \<Rightarrow> nat \<times> cron_scheduler" where
  "map_jobs P f s =
     (length (filter (\<lambda>e. P (snd e)) (cs_jobs s)),
      s\<lparr>cs_jobs := map (\<lambda>(k, m). (k, if P m then f m else m)) (cs_jobs s)\<rparr>)"

definition cs_reassign_jobs_from_missing_agents ::
  "cron_env \<Rightarrow> time \<Rightarrow> agent_id list \<Rightarrow> agent_id \<Rightarrow> cron_scheduler \<Rightarrow> nat \<times> cron_scheduler" where
  "cs_reassign_jobs_from_missing_agents env now alive fallback s =
     (if fallback \<notin> set alive then (0, s)
      else map_jobs (\<lambda>m. cj_agent_id (jm_job m) \<notin> set alive)
             (\<lambda>m. let m1 = recompute env now (set_job_agent fallback m) in
                  if \<not> cj_enabled (jm_job m1) \<and> stale_status m1
                  then set_job_enabled True m1 else m1) s)"

definition cs_reassign_agent_jobs ::
  "cron_env \<Rightarrow> time \<Rightarrow> agent_id \<Rightarrow> agent_id \<Rightarrow> cron_scheduler \<Rightarrow> nat \<times> cron_scheduler" where
  "cs_reassign_agent_jobs env now old_id new_id s =
     map_jobs (\<lambda>m. cj_agent_id (jm_job m) = old_id)
       (\<lambda>m. let m1 = set_job_agent new_id m in
            if \<not> cj_enabled (jm_job m1) \<and> stale_status m1
            then recompute env now (set_job_enabled True m1) else m1) s"

text \<open>Groups of job ids under a key; all but the smallest id of each group are removed.\<close>

definition group_ids :: "(cron_job \<Rightarrow> 'b option) \<Rightarrow> (uuid, job_meta) store \<Rightarrow> ('b, uuid list) store" where
  "group_ids key jobs =
     fold (\<lambda>(k, m) g.
             case key (jm_job m) of
               None \<Rightarrow> g
             | Some b \<Rightarrow> st_put b ((case st_get g b of Some ids \<Rightarrow> ids | None \<Rightarrow> []) @ [k]) g)
       jobs []"

definition dedupe_by :: "(cron_job \<Rightarrow> 'b option) \<Rightarrow> cron_scheduler \<Rightarrow> nat \<times> cron_scheduler" where
  "dedupe_by key s =
     (let victims = concat (map (\<lambda>(_, ids). if length ids \<le> 1 then [] else tl (sort ids))
                              (group_ids key (cs_jobs s)))
      in (length victims, s\<lparr>cs_jobs := fold st_del victims (cs_jobs s)\<rparr>))"

definition cs_dedupe_jobs_by_name :: "cron_scheduler \<Rightarrow> nat \<times> cron_scheduler" where
  "cs_dedupe_jobs_by_name = dedupe_by (\<lambda>j. Some (cj_name j))"

definition ainl_bucket :: "cron_env \<Rightarrow> cron_job \<Rightarrow> (agent_id \<times> string) option" where
  "ainl_bucket env job =
     (case cj_action job of
        AinlRun path cwd ainl_binary timeout json_output frame \<Rightarrow>
          (let sched = (case cj_schedule job of
                          CronExpr expr tz \<Rightarrow> ''c:'' @ expr @ '':'' @ ce_debug_opt env tz
                        | Every every_secs \<Rightarrow> ''e:'' @ show_nat every_secs
                        | At t \<Rightarrow> ''a:'' @ ce_rfc3339 env t);
               frame_s = (case frame of Some f \<Rightarrow> ce_json_str env f | None \<Rightarrow> []);
               timeout_s = (case timeout of
                              Some t \<Rightarrow> ''Some('' @ show_nat t @ '')'' | None \<Rightarrow> ''None'')
           in Some (cj_agent_id job,
                sched @ ''|'' @ path @ ''|'' @ ce_debug_opt env cwd @ ''|''
                  @ ce_debug_opt env ainl_binary @ ''|'' @ timeout_s @ ''|''
                  @ (if json_output then ''true'' else ''false'') @ ''|'' @ frame_s))
      | _ \<Rightarrow> None)"

definition cs_dedupe_ainl_run_jobs_same_signature :: "cron_env \<Rightarrow> cron_scheduler \<Rightarrow> nat \<times> cron_scheduler" where
  "cs_dedupe_ainl_run_jobs_same_signature env = dedupe_by (ainl_bucket env)"

definition remove_where :: "(cron_job \<Rightarrow> bool) \<Rightarrow> cron_scheduler \<Rightarrow> nat \<times> cron_scheduler" where
  "remove_where P s =
     (let ids = map fst (filter (\<lambda>e. P (jm_job (snd e))) (cs_jobs s))
      in (length ids, s\<lparr>cs_jobs := fold st_del ids (cs_jobs s)\<rparr>))"

definition discontinued :: "string list \<Rightarrow> cron_job \<Rightarrow> bool" where
  "discontinued curated j =
     (case cj_action j of
        AinlRun _ _ _ _ _ _ \<Rightarrow>
          (starts_with (cj_name j) ''armaraos-'' \<or> starts_with (cj_name j) ''ainl-upstream-'')
          \<and> cj_name j \<notin> set curated
      | _ \<Rightarrow> False)"

definition cs_remove_discontinued_curated_ainl_jobs ::
  "string list \<Rightarrow> cron_scheduler \<Rightarrow> nat \<times> cron_scheduler" where
  "cs_remove_discontinued_curated_ainl_jobs curated = remove_where (discontinued curated)"

definition cs_remove_agent_jobs :: "agent_id \<Rightarrow> cron_scheduler \<Rightarrow> nat \<times> cron_scheduler" where
  "cs_remove_agent_jobs a = remove_where (\<lambda>j. cj_agent_id j = a)"

definition cs_total_jobs :: "cron_scheduler \<Rightarrow> nat" where
  "cs_total_jobs s = length (cs_jobs s)"

definition overdue :: "time \<Rightarrow> job_meta \<Rightarrow> bool" where
  "overdue now m = (case cj_next_run (jm_job m) of Some t \<Rightarrow> t \<le> now | None \<Rightarrow> False)"

definition is_due :: "time \<Rightarrow> job_meta \<Rightarrow> bool" where
  "is_due now m = (cj_enabled (jm_job m) \<and> overdue now m)"

definition cs_due_jobs :: "cron_env \<Rightarrow> time \<Rightarrow> cron_scheduler \<Rightarrow> cron_job list \<times> cron_scheduler" where
  "cs_due_jobs env now s =
     (map (\<lambda>e. jm_job (snd e)) (filter (\<lambda>e. is_due now (snd e)) (cs_jobs s)),
      s\<lparr>cs_jobs := map (\<lambda>(k, m). (k, if is_due now m then recompute env now m else m)) (cs_jobs s)\<rparr>)"

definition cs_try_claim_for_run ::
  "cron_env \<Rightarrow> time \<Rightarrow> uuid \<Rightarrow> cron_scheduler \<Rightarrow> (claim_error, cron_job) result \<times> cron_scheduler" where
  "cs_try_claim_for_run env now k s =
     (case st_get (cs_jobs s) k of
        None \<Rightarrow> (Inl NotFound, s)
      | Some m \<Rightarrow>
          if \<not> cj_enabled (jm_job m) then (Inl Disabled, s)
          else (let m1 = (if overdue now m then recompute env now m else m)
                in (Inr (jm_job m1), s\<lparr>cs_jobs := st_put k m1 (cs_jobs s)\<rparr>)))"

definition cs_record_success :: "time \<Rightarrow> uuid \<Rightarrow> cron_scheduler \<Rightarrow> cron_scheduler" where
  "cs_record_success now k s =
     (case st_get (cs_jobs s) k of
        None \<Rightarrow> s
      | Some m \<Rightarrow>
          (let s1 = modify_job k (\<lambda>m. m\<lparr>jm_job := (jm_job m)\<lparr>cj_last_run := Some now\<rparr>,
                                       jm_last_status := Some ''ok'',
                                       jm_consecutive_errors := 0\<rparr>) s
           in if jm_one_shot m then s1\<lparr>cs_jobs := st_del k (cs_jobs s1)\<rparr> else s1))"

definition fail_meta :: "cron_env \<Rightarrow> time \<Rightarrow> string \<Rightarrow> job_meta \<Rightarrow> job_meta" where
  "fail_meta env now msg m =
     (let m1 = m\<lparr>jm_job := (jm_job m)\<lparr>cj_last_run := Some now\<rparr>,
                 jm_last_status := Some (''error: '' @ truncate_str msg 256),
                 jm_consecutive_errors := jm_consecutive_errors m + 1\<rparr>
      in if jm_consecutive_errors m1 \<ge> MAX_CONSECUTIVE_ERRORS then set_job_enabled False m1
         else if cj_next_run (jm_job m1) = None \<or> overdue now m1 then recompute env now m1
         else m1)"

definition cs_record_failure :: "cron_env \<Rightarrow> time \<Rightarrow> uuid \<Rightarrow> string \<Rightarrow> cron_scheduler \<Rightarrow> cron_scheduler" where
  "cs_record_failure env now k msg s = modify_job k (fail_meta env now msg) s"

section \<open>Firing\<close>

text \<open>What the scheduler relies on: the iterator of the cron crate never goes back in time.\<close>

definition cron_iterator_ok :: "cron_env \<Rightarrow> bool" where
  "cron_iterator_ok env = (\<forall>e z b t. ce_next env e z b = Some (Some t) \<longrightarrow> b \<le> t)"

definition recurring :: "cron_schedule \<Rightarrow> bool" where
  "recurring s = (case s of At _ \<Rightarrow> False | Every n \<Rightarrow> 0 < n | CronExpr _ _ \<Rightarrow> True)"

lemma next_run_future:
  assumes "cron_iterator_ok env" "recurring s"
  shows "now < compute_next_run_after env s now"
proof (cases s)
  case (CronExpr e tz)
  have "ce_next env x z (now + 1000) = Some (Some t) \<Longrightarrow> now < t" for x z t
    using assms(1) unfolding cron_iterator_ok_def by fastforce
  with CronExpr show ?thesis
    by (auto simp: compute_next_run_after_def Let_def HOUR_def split: option.splits)
qed (use assms(2) in \<open>auto simp: compute_next_run_after_def recurring_def\<close>)

lemma recompute_simps [simp]:
  "cj_next_run (jm_job (recompute env now m)) =
     Some (compute_next_run_after env (cj_schedule (jm_job m)) now)"
  "cj_schedule (jm_job (recompute env now m)) = cj_schedule (jm_job m)"
  "cj_enabled (jm_job (recompute env now m)) = cj_enabled (jm_job m)"
  "cj_id (jm_job (recompute env now m)) = cj_id (jm_job m)"
  "jm_one_shot (recompute env now m) = jm_one_shot m"
  "jm_consecutive_errors (recompute env now m) = jm_consecutive_errors m"
  by (simp_all add: recompute_def set_next_run_def)

lemma get_map_values: "st_get (map (\<lambda>(k, m). (k, f m)) xs) k = map_option f (st_get xs k)"
  by (induction xs) auto

lemma get_due:
  "st_get (cs_jobs (snd (cs_due_jobs env now s))) k =
     map_option (\<lambda>m. if is_due now m then recompute env now m else m) (st_get (cs_jobs s) k)"
  by (simp add: cs_due_jobs_def get_map_values)

text \<open>
  C29. No double firing of recurring jobs: a query for due jobs returns exactly the enabled
  jobs whose time has come, and moves each recurring one strictly into the future, so that
  another query at the same moment, or any earlier one by a slow clock, returns none of
  them. The law of the cron crate's iterator is the only assumption.
\<close>

theorem recurring_jobs_fire_once:
  assumes "cron_iterator_ok env" "later \<le> now"
  shows "fst (cs_due_jobs env now s) =
           map (\<lambda>e. jm_job (snd e)) (filter (\<lambda>e. is_due now (snd e)) (cs_jobs s))
         \<and> (\<forall>e \<in> set (cs_jobs (snd (cs_due_jobs env now s))).
               recurring (cj_schedule (jm_job (snd e))) \<longrightarrow> \<not> is_due later (snd e))"
proof
  show "\<forall>e \<in> set (cs_jobs (snd (cs_due_jobs env now s))).
          recurring (cj_schedule (jm_job (snd e))) \<longrightarrow> \<not> is_due later (snd e)"
  proof (intro ballI impI)
    fix e
    assume "e \<in> set (cs_jobs (snd (cs_due_jobs env now s)))" "recurring (cj_schedule (jm_job (snd e)))"
    then obtain k m where e: "e = (k, if is_due now m then recompute env now m else m)"
      and r: "recurring (cj_schedule (jm_job (snd e)))"
      by (auto simp: cs_due_jobs_def)
    then have m: "snd e = (if is_due now m then recompute env now m else m)"
      "recurring (cj_schedule (jm_job m))"
      by (simp_all split: if_splits)
    show "\<not> is_due later (snd e)"
      using m next_run_future [OF assms(1) m(2), of now] assms(2)
      by (auto simp: is_due_def overdue_def split: if_splits option.splits)
  qed
qed (simp add: cs_due_jobs_def)

text \<open>A concrete environment and jobs.\<close>

definition cron_env_hourly :: cron_env where
  "cron_env_hourly =
     \<lparr>ce_next = (\<lambda>_ _ b. Some (Some (b + HOUR))), ce_tz_ok = (\<lambda>_. True),
      ce_json_str = (\<lambda>_. ''{}''), ce_debug_opt = (\<lambda>_. ''None''), ce_rfc3339 = (\<lambda>_. []),
      ce_uni_alnum = (\<lambda>_. False)\<rparr>"

definition sample_job :: "cron_schedule \<Rightarrow> cron_job" where
  "sample_job s =
     \<lparr>cj_id = 1, cj_agent_id = 2, cj_name = ''j'', cj_enabled = True, cj_schedule = s,
      cj_action = SystemEventAction ''x'', cj_delivery = NoDelivery, cj_created_at = 0,
      cj_last_run = None, cj_next_run = None\<rparr>"

definition one_job :: "cron_schedule \<Rightarrow> cron_scheduler" where
  "one_job s = snd (cs_add_job cron_env_hourly 0 (sample_job s) False (cs_new 10))"

lemma hourly_ok: "cron_iterator_ok cron_env_hourly"
  by (simp add: cron_iterator_ok_def cron_env_hourly_def HOUR_def)

lemma str_chars_j: "str_chars ''j'' = [106]"
  by (simp add: str_chars_def str_bytes_def)

lemmas one_job_defs =
  one_job_def cs_add_job_def cs_new_def sample_job_def cron_job_validate_def and_then_def
  agent_job_count_def MAX_JOBS_PER_AGENT_def MAX_NAME_LEN_def str_chars_j job_name_char_def
  is_alphanumeric_def ascii_alnum_def validate_schedule_def validate_action_def validate_delivery_def
  MIN_EVERY_SECS_def MAX_EVERY_SECS_def MAX_AT_HORIZON_SECS_def MAX_EVENT_TEXT_LEN_def
  compute_next_run_after_def job_meta_new_def Let_def

lemma recurring_jobs_fire_once_witness:
  "fst (cs_due_jobs cron_env_hourly 60000 (one_job (Every 60))) =
     [(sample_job (Every 60))\<lparr>cj_next_run := Some 60000\<rparr>]
   \<and> fst (cs_due_jobs cron_env_hourly 60000
           (snd (cs_due_jobs cron_env_hourly 60000 (one_job (Every 60))))) = []"
proof
  show "fst (cs_due_jobs cron_env_hourly 60000 (one_job (Every 60))) =
     [(sample_job (Every 60))\<lparr>cj_next_run := Some 60000\<rparr>]"
    using recurring_jobs_fire_once [OF hourly_ok, of 60000 60000 "one_job (Every 60)"]
    by (simp add: one_job_defs is_due_def overdue_def)
  let ?s1 = "snd (cs_due_jobs cron_env_hourly 60000 (one_job (Every 60)))"
  have "\<forall>e \<in> set (cs_jobs ?s1). recurring (cj_schedule (jm_job (snd e)))"
    by (simp add: cs_due_jobs_def one_job_defs is_due_def overdue_def recurring_def)
  then have "\<forall>e \<in> set (cs_jobs ?s1). \<not> is_due 60000 (snd e)"
    using recurring_jobs_fire_once [OF hourly_ok, of 60000 60000 "one_job (Every 60)"] by blast
  then show "fst (cs_due_jobs cron_env_hourly 60000 ?s1) = []"
    by (simp add: cs_due_jobs_def [of _ _ ?s1] filter_empty_conv)
qed

section \<open>Jobs at a fixed time\<close>

text \<open>A tick of the kernel's loop in which every due job runs and succeeds.\<close>

definition tick :: "cron_env \<Rightarrow> time \<Rightarrow> cron_scheduler \<Rightarrow> cron_scheduler" where
  "tick env now s =
     (let (due, s1) = cs_due_jobs env now s
      in fold (\<lambda>j. cs_record_success now (cj_id j)) due s1)"

definition stuck_at :: "time \<Rightarrow> uuid \<Rightarrow> cron_scheduler \<Rightarrow> bool" where
  "stuck_at t k s =
     (\<exists>m. st_get (cs_jobs s) k = Some m \<and> cj_enabled (jm_job m) \<and> \<not> jm_one_shot m
        \<and> cj_schedule (jm_job m) = At t \<and> cj_next_run (jm_job m) = Some t
        \<and> cj_id (jm_job m) = k)"

lemma stuck_at_success: "stuck_at t k s \<Longrightarrow> stuck_at t k (cs_record_success now j s)"
  by (auto simp: stuck_at_def cs_record_success_def modify_job_def update_conv' delete_conv' Let_def
           split: option.splits)

lemma stuck_at_tick [inv_intros]:
  assumes "stuck_at t k s"
  shows "stuck_at t k (tick env now s)"
proof -
  obtain m where m: "st_get (cs_jobs s) k = Some m" "cj_enabled (jm_job m)" "\<not> jm_one_shot m"
    "cj_schedule (jm_job m) = At t" "cj_next_run (jm_job m) = Some t" "cj_id (jm_job m) = k"
    using assms by (auto simp: stuck_at_def)
  have "st_get (cs_jobs (snd (cs_due_jobs env now s))) k =
      Some (if is_due now m then recompute env now m else m)"
    by (simp add: get_due m(1))
  then have "stuck_at t k (snd (cs_due_jobs env now s))"
    using m unfolding stuck_at_def by (simp add: compute_next_run_after_def)
  then have "stuck_at t k (fold (\<lambda>j. cs_record_success now (cj_id j)) js (snd (cs_due_jobs env now s)))" for js
    by (induction js rule: rev_induct) (simp_all add: stuck_at_success)
  then show ?thesis by (simp add: tick_def split_def Let_def)
qed

interpretation stuck: run_invariant "tick env" "\<lambda>_. True" "stuck_at t k" for env t k
  by unfold_locales (auto intro: inv_intros)

text \<open>
  A job at a fixed time that is not marked one-shot fires on every tick from then on:
  the next run time of such a schedule is the fixed time itself, so the advance that the
  query for due jobs promises does not happen, and success does not remove the job. Jobs
  created over the API are not one-shot unless the request says so.
\<close>

lemma at_job_fires_on_every_tick:
  assumes "cs_add_job env now (job\<lparr>cj_schedule := At t, cj_enabled := True\<rparr>) False s = (Inr k, s1)"
    and "t \<le> later"
  shows "\<exists>j \<in> set (fst (cs_due_jobs env later (fold (tick env) ticks s1))).
           cj_id j = k \<and> cj_schedule j = At t"
proof -
  have "stuck_at t k s1"
    using assms(1)
    by (auto simp: cs_add_job_def stuck_at_def Let_def update_conv' job_meta_new_def
        compute_next_run_after_def split: if_splits sum.splits)
  then have "stuck_at t k (fold (tick env) ticks s1)"
    by (rule stuck.run_inv) (simp add: list_all_iff)
  then obtain m where m: "st_get (cs_jobs (fold (tick env) ticks s1)) k = Some m"
    "cj_schedule (jm_job m) = At t" "cj_id (jm_job m) = k" "is_due later m"
    using assms(2) by (auto simp: stuck_at_def is_due_def overdue_def)
  then have "(k, m) \<in> set (filter (\<lambda>e. is_due later (snd e)) (cs_jobs (fold (tick env) ticks s1)))"
    by (auto dest: map_of_SomeD)
  then have "jm_job m \<in> set (fst (cs_due_jobs env later (fold (tick env) ticks s1)))"
    unfolding cs_due_jobs_def by force
  with m(2,3) show ?thesis by blast
qed

lemma at_job_fires_on_every_tick_witness:
  "\<exists>j \<in> set (fst (cs_due_jobs cron_env_hourly 36000
        (fold (tick cron_env_hourly) [6000, 21000] (one_job (At 5000))))).
      cj_id j = 1 \<and> cj_schedule j = At 5000"
proof (rule at_job_fires_on_every_tick)
  show "cs_add_job cron_env_hourly 0
      ((sample_job (At 5000))\<lparr>cj_schedule := At 5000, cj_enabled := True\<rparr>) False (cs_new 10) =
      (Inr 1, one_job (At 5000))"
    by (simp add: one_job_defs)
qed simp

section \<open>Repeated failures\<close>

lemma fail_meta_simps [simp]:
  "jm_consecutive_errors (fail_meta env now msg m) = jm_consecutive_errors m + 1"
  "cj_enabled (jm_job (fail_meta env now msg m)) \<longleftrightarrow>
     cj_enabled (jm_job m) \<and> jm_consecutive_errors m + 1 < MAX_CONSECUTIVE_ERRORS"
  by (auto simp: fail_meta_def Let_def set_job_enabled_def)

lemma failures_get:
  "st_get (cs_jobs s) k = Some m \<Longrightarrow>
     \<exists>m'. st_get (cs_jobs (fold (\<lambda>(now, msg). cs_record_failure env now k msg) fs s)) k = Some m'
        \<and> jm_consecutive_errors m' = jm_consecutive_errors m + length fs
        \<and> (cj_enabled (jm_job m') \<longleftrightarrow> cj_enabled (jm_job m)
             \<and> (fs = [] \<or> jm_consecutive_errors m + length fs < MAX_CONSECUTIVE_ERRORS))"
proof (induction fs arbitrary: s m)
  case (Cons f fs)
  obtain now msg where f: "f = (now, msg)" by (cases f)
  have "st_get (cs_jobs (cs_record_failure env now k msg s)) k = Some (fail_meta env now msg m)"
    using Cons.prems by (simp add: cs_record_failure_def modify_job_def update_conv')
  from Cons.IH [OF this] show ?case by (auto simp: f)
qed simp

text \<open>
  Failing jobs are switched off: after a run of failures, however they are spread over
  time, a job is still enabled exactly when it was enabled and its consecutive failures,
  old and new, are fewer than five; once it is off, no claim succeeds.
\<close>

lemma failing_job_auto_disabled:
  assumes "st_get (cs_jobs s) k = Some m" "fs \<noteq> []"
  shows "let s1 = fold (\<lambda>(now, msg). cs_record_failure env now k msg) fs s in
         \<exists>m'. st_get (cs_jobs s1) k = Some m'
            \<and> (cj_enabled (jm_job m') \<longleftrightarrow>
                 cj_enabled (jm_job m) \<and> jm_consecutive_errors m + length fs < 5)
            \<and> (fst (cs_try_claim_for_run env later k s1) = Inl Disabled \<longleftrightarrow> \<not> cj_enabled (jm_job m'))"
  using failures_get [OF assms(1), of env fs] assms(2)
  by (auto simp: Let_def MAX_CONSECUTIVE_ERRORS_def cs_try_claim_for_run_def)

lemma failing_job_auto_disabled_witness:
  "fst (cs_try_claim_for_run cron_env_hourly 9 1
     (fold (\<lambda>(now, msg). cs_record_failure cron_env_hourly now 1 msg) (replicate 5 (7, ''no''))
        (one_job (Every 60)))) = Inl Disabled"
proof -
  have "st_get (cs_jobs (one_job (Every 60))) 1 =
      Some (job_meta_new ((sample_job (Every 60))\<lparr>cj_next_run := Some 60000\<rparr>) False)"
    by (simp add: one_job_defs)
  from failing_job_auto_disabled [OF this, of "replicate 5 (7, ''no'')" cron_env_hourly 9]
  show ?thesis by (auto simp: Let_def job_meta_new_def)
qed

end
