(* ===== verification/Exec_Sandbox.thy ===== *)
theory Exec_Sandbox
  imports Prelude
begin

text \<open>
  What a child process of the runtime may be and may see: the shell policy of
  \<^verbatim>\<open>crates/openfang-types/src/config.rs\<close> and the metacharacter check, the command
  allow-list, the executable path check and the environment of
  \<^verbatim>\<open>crates/openfang-runtime/src/subprocess_sandbox.rs\<close>. Error texts are kept, since the
  agent reads them. Killing and waiting for processes is operating system I/O and is not
  modelled. A variable of the parent's environment that is not valid Unicode reads as unset;
  variable names are compared as written, also on Windows.
\<close>

section \<open>The policy\<close>

datatype exec_security_mode = ExecDeny | ExecAllowlist | ExecFull

datatype shell_path_guard_mode = PathGuardOff | PathGuardWarn | PathGuardEnforce

datatype shell_pid_guard_mode = PidGuardOff | PidGuardEnforce

record exec_policy =
  ep_mode :: exec_security_mode
  safe_bins :: "string list"
  allowed_commands :: "string list"
  ep_timeout_secs :: nat
  max_output_bytes :: nat
  no_output_timeout_secs :: nat
  shell_path_guard :: shell_path_guard_mode
  shell_pid_guard :: shell_pid_guard_mode
  extra_allowed_path_prefixes :: "string list"

definition default_no_output_timeout :: nat where
  "default_no_output_timeout = 30"

definition exec_policy_default :: exec_policy where
  "exec_policy_default =
     \<lparr>ep_mode = ExecFull,
      safe_bins =
        [''sleep'', ''true'', ''false'', ''cat'', ''sort'', ''uniq'', ''cut'', ''tr'', ''head'', ''tail'', ''wc'',
         ''date'', ''echo'', ''printf'', ''basename'', ''dirname'', ''pwd'', ''env'',
         ''ls'', ''find'', ''grep'', ''rg'', ''which'', ''whereis'', ''type'', ''stat'', ''file'', ''diff'',
         ''cmp'', ''od'', ''xxd'',
         ''ps'', ''df'', ''du'', ''uname'', ''arch'', ''hostname'', ''id'', ''whoami'', ''lsof'', ''lscpu'',
         ''uptime'', ''lsblk'',
         ''awk'', ''sed'', ''jq'', ''xargs'',
         ''realpath'', ''readlink'', ''tee'', ''mktemp''],
      allowed_commands = [],
      ep_timeout_secs = 60,
      max_output_bytes = 512 * 1024,
      no_output_timeout_secs = default_no_output_timeout,
      shell_path_guard = PathGuardEnforce,
      shell_pid_guard = PidGuardEnforce,
      extra_allowed_path_prefixes = []\<rparr>"

section \<open>Shell metacharacters\<close>

definition contains_shell_metacharacters :: "string \<Rightarrow> string option" where
  "contains_shell_metacharacters command =
     (if CHR 0x60 \<in> set command then Some ''backtick command substitution''
      else if contains_str command ''$('' then Some ''$() command substitution''
      else if contains_str command ''${'' then Some ''${} variable expansion''
      else if CHR '';'' \<in> set command then Some ''semicolon command chaining''
      else if CHR ''|'' \<in> set command then Some ''pipe operator''
      else if CHR ''>'' \<in> set command \<or> CHR ''<'' \<in> set command then Some ''I/O redirection''
      else if CHR ''{'' \<in> set command \<or> CHR ''}'' \<in> set command then Some ''brace expansion''
      else if CHR 0x0A \<in> set command \<or> CHR 0x0D \<in> set command then Some ''embedded newline''
      else if CHR 0x00 \<in> set command then Some ''null byte''
      else if CHR ''&'' \<in> set command then Some ''ampersand operator''
      else None)"

section \<open>The allow-list\<close>

definition extract_base_command :: "string \<Rightarrow> string" where
  "extract_base_command cmd =
     (let first_word = (case split_whitespace (trim cmd) of [] \<Rightarrow> [] | w # _ \<Rightarrow> w)
      in last (split_char (CHR 0x5C) (last (split_char (CHR ''/'') first_word))))"

definition separators :: "string list" where
  "separators = [''&&'', ''||'', ''|'', '';'']"

definition earliest_separator :: "string \<Rightarrow> nat \<times> nat" where
  "earliest_separator rest =
     foldl (\<lambda>(earliest_pos, earliest_len) sep.
       case find_str sep rest of
         Some pos \<Rightarrow> if pos < earliest_pos then (pos, length sep) else (earliest_pos, earliest_len)
       | None \<Rightarrow> (earliest_pos, earliest_len)) (length rest, 0) separators"

lemma earliest_separator_end:
  "earliest_separator rest = (pos, n) \<Longrightarrow> pos + n < length rest \<Longrightarrow> 0 < n"
  by (auto simp: earliest_separator_def separators_def split: option.splits if_splits)

function extract_all_commands :: "string \<Rightarrow> string list" where
  "extract_all_commands rest =
     (if rest = [] then []
      else
        let (pos, n) = earliest_separator rest;
            base = extract_base_command (take pos rest);
            here = (if base \<noteq> [] then [base] else [])
        in if pos + n \<ge> length rest then here
           else here @ extract_all_commands (drop (pos + n) rest))"
  by pat_completeness auto
termination
proof (relation "measure length", goal_cases)
  case 1
  show ?case by simp
next
  case (2 rest x pos n base here)
  then show ?case using earliest_separator_end [of rest pos n] by auto
qed

declare extract_all_commands.simps [simp del]

fun check_commands :: "exec_policy \<Rightarrow> string list \<Rightarrow> (string, unit) result" where
  "check_commands policy [] = Inr ()"
| "check_commands policy (base # rest) =
     (if base \<in> set (safe_bins policy) then check_commands policy rest
      else if base \<in> set (allowed_commands policy) then check_commands policy rest
      else Inl (''Command '' @ [CHR 0x27] @ base @ [CHR 0x27] @
        '' is not in the exec allowlist. Add it to exec_policy.allowed_commands or exec_policy.safe_bins.''))"

definition validate_command_allowlist :: "string \<Rightarrow> exec_policy \<Rightarrow> (string, unit) result" where
  "validate_command_allowlist command policy =
     (case ep_mode policy of
        ExecDeny \<Rightarrow> Inl ''Shell execution is disabled (exec_policy.mode = deny)''
      | ExecFull \<Rightarrow> Inr ()
      | ExecAllowlist \<Rightarrow>
          (case contains_shell_metacharacters command of
             Some reason \<Rightarrow> Inl (''Command blocked: contains '' @ reason @
               ''. Shell metacharacters are not allowed in Allowlist mode.'')
           | None \<Rightarrow> check_commands policy (extract_all_commands command)))"

section \<open>Executable paths and the child environment\<close>

text \<open>
  On Unix the components of a path are the non-empty parts between slashes, with the
  parts \<^verbatim>\<open>.\<close> after the first dropped; \<^verbatim>\<open>..\<close> is always kept as \<^verbatim>\<open>ParentDir\<close>.
\<close>

definition path_components :: "string \<Rightarrow> string list" where
  "path_components path =
     (let parts = filter (\<lambda>p. p \<noteq> []) (split_char (CHR ''/'') path)
      in (if starts_with path ''/'' then [''/''] else []) @
         (case parts of
            [] \<Rightarrow> []
          | p # ps \<Rightarrow> (if p = ''.'' \<and> starts_with path ''/'' then [] else [p]) @ filter (\<lambda>q. q \<noteq> ''.'') ps))"

definition validate_executable_path :: "string \<Rightarrow> (string, unit) result" where
  "validate_executable_path path =
     (if list_ex (\<lambda>c. c = ''..'') (path_components path)
      then Inl (''executable path '' @ [CHR 0x27] @ path @ [CHR 0x27] @
                '' contains '' @ [CHR 0x27] @ ''..'' @ [CHR 0x27] @ '' component which is not allowed'')
      else Inr ())"

type_synonym env = "string \<rightharpoonup> string"

definition SAFE_ENV_VARS :: "string list" where
  "SAFE_ENV_VARS =
     [''PATH'', ''HOME'', ''TMPDIR'', ''TMP'', ''TEMP'', ''LANG'', ''LC_ALL'', ''TERM'']"

definition SAFE_ENV_VARS_WINDOWS :: "string list" where
  "SAFE_ENV_VARS_WINDOWS =
     [''USERPROFILE'', ''SYSTEMROOT'', ''APPDATA'', ''LOCALAPPDATA'', ''COMSPEC'', ''WINDIR'', ''PATHEXT'']"

text \<open>
  The platform the runtime is compiled for; on Windows, the directory of the bundled
  FFmpeg when its executable is there.
\<close>

datatype platform = MacOS | Windows "string option" | OtherPlatform

definition path_for_sandboxed_child :: "platform \<Rightarrow> env \<Rightarrow> string option" where
  "path_for_sandboxed_child os parent =
     (let base = (case parent ''PATH'' of Some p \<Rightarrow> p | None \<Rightarrow> [])
      in case os of
        MacOS \<Rightarrow>
          let brew = ''/opt/homebrew/bin:/usr/local/bin''
          in if contains_str base ''/opt/homebrew/bin'' \<or> contains_str base ''/usr/local/bin''
             then Some (if base = [] then brew @ '':/usr/bin:/bin'' else base)
             else Some (if base = [] then brew @ '':/usr/bin:/bin'' else brew @ '':'' @ base)
      | Windows (Some p) \<Rightarrow> Some (if base = [] then p else p @ '';'' @ base)
      | Windows None \<Rightarrow> if base = [] then None else Some base
      | OtherPlatform \<Rightarrow> if base = [] then None else Some base)"

definition copy_var :: "env \<Rightarrow> string \<Rightarrow> env \<Rightarrow> env" where
  "copy_var parent var child =
     (case parent var of Some val \<Rightarrow> child(var \<mapsto> val) | None \<Rightarrow> child)"

definition add_safe_var :: "platform \<Rightarrow> env \<Rightarrow> string \<Rightarrow> env \<Rightarrow> env" where
  "add_safe_var os parent var child =
     (if var = ''PATH'' then
        (case path_for_sandboxed_child os parent of
           Some merged \<Rightarrow> child(''PATH'' \<mapsto> merged)
         | None \<Rightarrow> child)
      else copy_var parent var child)"

definition sandbox_command :: "platform \<Rightarrow> env \<Rightarrow> string list \<Rightarrow> env \<Rightarrow> env" where
  "sandbox_command os parent allowed_env_vars cmd_env =
     (let cleared = Map.empty;
          safe = fold (add_safe_var os parent) SAFE_ENV_VARS cleared;
          win = (case os of
                   Windows _ \<Rightarrow> fold (copy_var parent) SAFE_ENV_VARS_WINDOWS safe
                 | _ \<Rightarrow> safe)
      in fold (copy_var parent) allowed_env_vars win)"

section \<open>Lemmas\<close>

definition metachars :: "char set" where
  "metachars = {CHR 0x60, CHR '';'', CHR ''|'', CHR ''>'', CHR ''<'', CHR ''{'', CHR ''}'',
     CHR 0x0A, CHR 0x0D, CHR 0x00, CHR ''&''}"

text \<open>The test for \<^verbatim>\<open>${\<close> is subsumed by the one for braces.\<close>

lemma no_metacharacters_iff:
  "contains_shell_metacharacters command = None \<longleftrightarrow>
     set command \<inter> metachars = {} \<and> \<not> contains_str command ''$(''"
proof -
  have "contains_str command ''${'' \<Longrightarrow> CHR ''{'' \<in> set command"
    using set_mono_sublist [of "''${''" command] by (simp add: contains_str_def)
  then show ?thesis
    by (simp add: contains_shell_metacharacters_def metachars_def)
qed

lemma earliest_separator_none:
  assumes "set command \<inter> metachars = {}"
  shows "earliest_separator command = (length command, 0)"
proof -
  have "find_str sep command = None" if "sep \<in> set separators" for sep
    using that assms set_mono_sublist [of sep command]
    by (auto simp: find_str_None separators_def metachars_def)
  then show ?thesis by (simp add: earliest_separator_def separators_def)
qed

text \<open>Without metacharacters there is a single command, whose base name is looked up.\<close>

lemma extract_single_command:
  assumes "set command \<inter> metachars = {}"
  shows "extract_all_commands command =
    (if extract_base_command command = [] then [] else [extract_base_command command])"
proof (cases "command = []")
  case True
  then show ?thesis
    by (simp add: extract_all_commands.simps extract_base_command_def trim_def trim_start.simps
        trim_end.simps ws_back_def str_bytes_def split_whitespace_def)
next
  case False
  then show ?thesis
    by (simp add: extract_all_commands.simps [of command] earliest_separator_none [OF assms])
qed

lemma allowlist_exact:
  "validate_command_allowlist command policy = Inr () \<longleftrightarrow>
     (case ep_mode policy of
        ExecDeny \<Rightarrow> False
      | ExecFull \<Rightarrow> True
      | ExecAllowlist \<Rightarrow>
          contains_shell_metacharacters command = None
          \<and> extract_base_command command \<in> {[]} \<union> set (safe_bins policy) \<union> set (allowed_commands policy))"
proof (cases "contains_shell_metacharacters command")
  case None
  then have "set command \<inter> metachars = {}" by (simp add: no_metacharacters_iff)
  then show ?thesis
    using None by (auto simp: validate_command_allowlist_def extract_single_command
        split: exec_security_mode.splits)
next
  case (Some reason)
  then show ?thesis by (simp add: validate_command_allowlist_def split: exec_security_mode.splits)
qed

lemma copy_var_dom: "copy_var parent var child v \<noteq> child v \<Longrightarrow> v = var \<and> copy_var parent var child v = parent v"
  by (auto simp: copy_var_def split: option.splits if_splits)

lemma copy_vars_dom:
  "fold (copy_var parent) vars child v \<noteq> child v \<Longrightarrow>
     v \<in> set vars \<and> fold (copy_var parent) vars child v = parent v"
proof (induction vars arbitrary: child)
  case (Cons x xs)
  show ?case
  proof (cases "fold (copy_var parent) xs (copy_var parent x child) v = copy_var parent x child v")
    case True
    then show ?thesis using Cons.prems copy_var_dom [of parent x child v] by auto
  next
    case False
    then show ?thesis using Cons.IH by simp
  qed
qed simp

lemma safe_var_dom:
  "add_safe_var os parent var child v \<noteq> child v \<Longrightarrow>
     v = var \<and> (v \<noteq> ''PATH'' \<longrightarrow> add_safe_var os parent var child v = parent v)"
  by (auto simp: add_safe_var_def dest: copy_var_dom split: option.splits if_splits)

lemma safe_vars_dom:
  "fold (add_safe_var os parent) vars child v \<noteq> child v \<Longrightarrow>
     v \<in> set vars \<and> (v \<noteq> ''PATH'' \<longrightarrow> fold (add_safe_var os parent) vars child v = parent v)"
proof (induction vars arbitrary: child)
  case (Cons x xs)
  show ?case
  proof (cases "fold (add_safe_var os parent) xs (add_safe_var os parent x child) v
      = add_safe_var os parent x child v")
    case True
    then show ?thesis using Cons.prems safe_var_dom [of os parent x child v] by auto
  next
    case False
    then show ?thesis using Cons.IH by simp
  qed
qed simp

section \<open>Properties\<close>

text \<open>
  A child process sees no secret of the daemon: every variable in the environment of a
  sandboxed command is on the safe list of its platform or was allowed by the caller,
  whatever the command's environment held before; except for the search path, its value is
  the parent's.
\<close>

lemma child_environment_is_allowlisted:
  assumes "sandbox_command os parent allowed cmd_env v = Some x"
  shows "v \<in> set SAFE_ENV_VARS \<union> set allowed
            \<union> (case os of Windows _ \<Rightarrow> set SAFE_ENV_VARS_WINDOWS | _ \<Rightarrow> {})
    \<and> (v \<noteq> ''PATH'' \<longrightarrow> parent v = Some x)"
proof -
  define safe where "safe = fold (add_safe_var os parent) SAFE_ENV_VARS Map.empty"
  define win where "win = (case os of
      Windows _ \<Rightarrow> fold (copy_var parent) SAFE_ENV_VARS_WINDOWS safe | _ \<Rightarrow> safe)"
  have child: "fold (copy_var parent) allowed win v = Some x"
    using assms unfolding sandbox_command_def Let_def win_def safe_def .
  consider (allowed) "fold (copy_var parent) allowed win v \<noteq> win v"
    | (win) "win v = Some x" "win v \<noteq> safe v" | (safe) "safe v = Some x" using child by metis
  then show ?thesis
  proof cases
    case allowed
    then show ?thesis using copy_vars_dom [of parent allowed win v] child by auto
  next
    case win
    then obtain b where "os = Windows b" by (auto simp: win_def split: platform.splits)
    then show ?thesis
      using win copy_vars_dom [of parent SAFE_ENV_VARS_WINDOWS safe v] by (auto simp: win_def)
  next
    case safe
    then show ?thesis
      using safe_vars_dom [of os parent SAFE_ENV_VARS Map.empty v] by (auto simp: safe_def)
  qed
qed

lemma child_environment_is_allowlisted_witness:
  "sandbox_command OtherPlatform [''HOME'' \<mapsto> ''/root'', ''API_KEY'' \<mapsto> ''k''] [''TZ''] Map.empty ''HOME''
     = Some ''/root''
   \<and> sandbox_command OtherPlatform [''HOME'' \<mapsto> ''/root'', ''API_KEY'' \<mapsto> ''k''] [''TZ''] Map.empty ''API_KEY''
     = None"
proof
  show h: "sandbox_command OtherPlatform [''HOME'' \<mapsto> ''/root'', ''API_KEY'' \<mapsto> ''k''] [''TZ''] Map.empty ''HOME''
     = Some ''/root''"
    by (simp add: sandbox_command_def SAFE_ENV_VARS_def add_safe_var_def copy_var_def
        path_for_sandboxed_child_def)
  show "sandbox_command OtherPlatform [''HOME'' \<mapsto> ''/root'', ''API_KEY'' \<mapsto> ''k''] [''TZ''] Map.empty ''API_KEY''
     = None"
    using child_environment_is_allowlisted
      [of OtherPlatform "[''HOME'' \<mapsto> ''/root'', ''API_KEY'' \<mapsto> ''k'']" "[''TZ'']" Map.empty "''API_KEY''"]
    by (cases "sandbox_command OtherPlatform [''HOME'' \<mapsto> ''/root'', ''API_KEY'' \<mapsto> ''k''] [''TZ'']
          Map.empty ''API_KEY''") (auto simp: SAFE_ENV_VARS_def)
qed

text \<open>
  An allow-list does not stop a command whose first word ends in a separator: its base
  name is empty, no command is extracted, and the check passes under every policy in
  allow-list mode, even with both lists empty. The quotes below make the shell's word
  splitter read one path through a directory named with a blank.
\<close>

lemma allowlist_passes_empty_base:
  "ep_mode policy = ExecAllowlist \<Longrightarrow>
     validate_command_allowlist
       (''ws'' @ [CHR 0x22] @ ''/ /../../../bin/rm'' @ [CHR 0x22] @ '' -rf x'') policy = Inr ()"
proof -
  let ?c = "''ws'' @ [CHR 0x22] @ ''/ /../../../bin/rm'' @ [CHR 0x22] @ '' -rf x''"
  have t: "trim ?c = ?c"
    by (simp add: trim_def trim_start.simps trim_end.simps ws_back_def str_bytes_def)
  have "extract_base_command ?c = []"
    unfolding extract_base_command_def t
    by (simp add: split_whitespace_def str_bytes_def)
  moreover have "contains_shell_metacharacters ?c = None"
    by (simp add: contains_shell_metacharacters_def contains_str_def sublist_Cons_right)
  ultimately show "ep_mode policy = ExecAllowlist \<Longrightarrow> ?thesis"
    by (simp only: allowlist_exact) simp
qed

lemma allowlist_passes_empty_base_witness:
  "validate_command_allowlist
     (''ws'' @ [CHR 0x22] @ ''/ /../../../bin/rm'' @ [CHR 0x22] @ '' -rf x'')
     (exec_policy_default\<lparr>ep_mode := ExecAllowlist, safe_bins := []\<rparr>) = Inr ()"
  by (rule allowlist_passes_empty_base) simp

end
