(* ===== verification/Tool_Gate.thy ===== *)
theory Tool_Gate
  imports Exec_Sandbox Taint Approval
begin

text \<open>
  The gate every tool call of an agent passes before its handler runs:
  \<^verbatim>\<open>execute_tool_with_trajectory\<close> of \<^verbatim>\<open>crates/openfang-runtime/src/tool_runner.rs\<close> up to the
  call of the handler, with the name normalisation of \<^verbatim>\<open>openfang-types/src/tool_compat.rs\<close>,
  the MCP name routing of \<^verbatim>\<open>openfang-runtime/src/mcp.rs\<close>, the skill lookup of
  \<^verbatim>\<open>openfang-skills/src/registry.rs\<close> and the kernel's side of the approval question
  (\<^verbatim>\<open>openfang-kernel/src/kernel.rs\<close>).

  The result of the gate is the call the function makes next, or the text of the error it
  returns. The handlers themselves perform I/O and are not modelled, nor is the recording of
  the trajectory, which only observes the result. Parameters: the lower-casing of the standard
  library, the JSON text of a value (\<^verbatim>\<open>serde_json\<close>), the text of a UUID, and the answer of the
  asynchronous approval request, whose protocol is the subject of the approval theory.
\<close>

section \<open>Tool names\<close>

definition tool_aliases :: "(string \<times> string) list" where
  "tool_aliases =
     [(''Read'', ''file_read''), (''read'', ''file_read''), (''read_file'', ''file_read''),
         (''Write'', ''file_write''), (''write'', ''file_write''),
         (''write_file'', ''file_write''), (''Edit'', ''file_write''),
         (''edit'', ''file_write''), (''Glob'', ''file_list''), (''glob'', ''file_list''),
         (''list_files'', ''file_list''), (''Grep'', ''file_list''), (''grep'', ''file_list''),
         (''Bash'', ''shell_exec''), (''bash'', ''shell_exec''), (''exec'', ''shell_exec''),
         (''execute_command'', ''shell_exec''), (''WebSearch'', ''web_search''),
         (''web_search'', ''web_search''), (''WebFetch'', ''web_fetch''),
         (''fetch_url'', ''web_fetch''), (''web_fetch'', ''web_fetch''),
         (''browser_navigate'', ''browser_navigate''),
         (''browser_clickText'', ''browser_click_text''),
         (''click_text'', ''browser_click_text''), (''browser_fillField'', ''browser_fill''),
         (''fill_field'', ''browser_fill''), (''fill_form_field'', ''browser_fill''),
         (''browser_accessibilitySnapshot'', ''browser_snapshot''),
         (''browser_a11y'', ''browser_snapshot''), (''memory_search'', ''memory_recall''),
         (''memory_recall'', ''memory_recall''), (''memory_save'', ''memory_store''),
         (''memory_store'', ''memory_store''), (''sessions_send'', ''agent_send''),
         (''agent_message'', ''agent_send''), (''sessions_list'', ''agent_list''),
         (''agents_list'', ''agent_list''), (''agent_list'', ''agent_list''),
         (''sessions_spawn'', ''agent_send''), (''fs-read'', ''file_read''),
         (''fs_read'', ''file_read''), (''fsRead'', ''file_read''),
         (''readFile'', ''file_read''), (''fs-write'', ''file_write''),
         (''fs_write'', ''file_write''), (''fsWrite'', ''file_write''),
         (''writeFile'', ''file_write''), (''fs-list'', ''file_list''),
         (''fs_list'', ''file_list''), (''fsList'', ''file_list''),
         (''listFiles'', ''file_list''), (''list_dir'', ''file_list''),
         (''ls'', ''file_list''), (''fs-exec'', ''shell_exec''), (''run'', ''shell_exec''),
         (''run_command'', ''shell_exec''), (''runCommand'', ''shell_exec''),
         (''execute'', ''shell_exec''), (''shell'', ''shell_exec'')]"

definition map_tool_name :: "string \<Rightarrow> string option" where
  "map_tool_name openclaw_name = map_of tool_aliases openclaw_name"

definition known_tools :: "string list" where
  "known_tools =
     [''file_read'', ''file_write'', ''file_list'', ''document_extract'',
         ''spreadsheet_build'', ''shell_exec'', ''workspace_action'',
         ''workspace_actions_list'', ''workspace_action_set'', ''workspace_action_delete'',
         ''script_run'', ''script_detect'', ''web_search'', ''web_fetch'',
         ''github_subtree_download'', ''browser_navigate'', ''browser_click_text'',
         ''browser_fill'', ''browser_snapshot'', ''memory_recall'', ''memory_store'',
         ''memory_list'', ''agent_send'', ''agent_list'', ''agent_spawn'', ''agent_delegate'',
         ''agent_map_reduce'', ''agent_supervise'', ''agent_coordinate'', ''agent_kill'',
         ''agent_find'', ''agent_find_capabilities'', ''agent_pool_list'',
         ''agent_pool_spawn'', ''task_post'', ''task_claim'', ''orchestration_shared_merge'',
         ''task_complete'', ''task_list'', ''event_publish'', ''channel_stream'',
         ''channel_send'', ''channels_list'', ''cron_create'', ''cron_list'', ''cron_cancel'',
         ''schedule_create'', ''schedule_action_create'', ''schedule_list'',
         ''schedule_delete'', ''image_analyze'', ''location_get'', ''email_send'',
         ''email_read'', ''email_search'', ''email_reply'', ''email_draft'',
         ''mcp_resource_read'']"

definition is_known_openfang_tool :: "string \<Rightarrow> bool" where
  "is_known_openfang_tool name = (name \<in> set known_tools)"

definition normalize_tool_name :: "string \<Rightarrow> string" where
  "normalize_tool_name name =
     (if is_known_openfang_tool name then name
      else case map_tool_name name of Some n \<Rightarrow> n | None \<Rightarrow> name)"

section \<open>MCP tools and skills\<close>

definition is_mcp_tool :: "string \<Rightarrow> bool" where
  "is_mcp_tool name = starts_with name ''mcp_''"

definition normalize_name :: "(string \<Rightarrow> string) \<Rightarrow> string \<Rightarrow> string" where
  "normalize_name lc name = map (\<lambda>c. if c = CHR ''-'' then CHR ''_'' else c) (lc name)"

definition format_mcp_tool_name :: "(string \<Rightarrow> string) \<Rightarrow> string \<Rightarrow> string \<Rightarrow> string" where
  "format_mcp_tool_name lc server tool =
     ''mcp_'' @ normalize_name lc server @ ''_'' @ normalize_name lc tool"

definition extract_mcp_server_from_known ::
  "(string \<Rightarrow> string) \<Rightarrow> string \<Rightarrow> string list \<Rightarrow> string option" where
  "extract_mcp_server_from_known lc tool_name server_names =
     (if \<not> starts_with tool_name ''mcp_'' then None
      else find (\<lambda>name. starts_with tool_name (''mcp_'' @ normalize_name lc name @ ''_''))
             (sort_key (\<lambda>a. - int (length a)) server_names))"

record tool_definition =
  td_name :: string
  td_description :: string
  td_input_schema :: json

record mcp_connection =
  mc_name :: string
  mc_tools :: "tool_definition list"

fun as_array :: "json \<Rightarrow> json list option" where
  "as_array (JArray xs) = Some xs"
| "as_array _ = None"

fun object_keys :: "json \<Rightarrow> string list" where
  "object_keys (JObject m) = map fst m"
| "object_keys _ = []"

definition missing_required_schema_keys :: "json \<Rightarrow> json \<Rightarrow> string list" where
  "missing_required_schema_keys input_schema input =
     (let required = (case Option.bind (json_get ''required'' input_schema) as_array of
                        Some xs \<Rightarrow> xs | None \<Rightarrow> [])
      in filter (\<lambda>key. key \<notin> set (object_keys input)) (List.map_filter as_str required))"

definition quoted :: "string \<Rightarrow> string" where
  "quoted s = [CHR 0x27] @ s @ [CHR 0x27]"

text \<open>Up to the call of the server: the name of the connection that is called.\<close>

definition dispatch_mcp_tool_by_name ::
  "(string \<Rightarrow> string) \<Rightarrow> string \<Rightarrow> json \<Rightarrow> mcp_connection list option \<Rightarrow> (string, string) result" where
  "dispatch_mcp_tool_by_name lc tool_name input mcp_connections =
     (if \<not> is_mcp_tool tool_name then Inl (''Invalid MCP tool name: '' @ tool_name)
      else case mcp_connections of
        None \<Rightarrow> Inl (''MCP not available for tool: '' @ tool_name)
      | Some conns \<Rightarrow>
          (case extract_mcp_server_from_known lc tool_name (map mc_name conns) of
             None \<Rightarrow> Inl (''Invalid MCP tool name: '' @ tool_name)
           | Some server_name \<Rightarrow>
               (case find (\<lambda>c. mc_name c = server_name) conns of
                  None \<Rightarrow> Inl (''MCP server '' @ quoted server_name @ '' not connected'')
                | Some conn \<Rightarrow>
                    let missing_required =
                          (case find (\<lambda>d. td_name d = tool_name) (mc_tools conn) of
                             Some d \<Rightarrow> missing_required_schema_keys (td_input_schema d) input
                           | None \<Rightarrow> [])
                    in if missing_required \<noteq> []
                       then Inl (''MCP tool '' @ quoted tool_name @ '' missing required arguments: ''
                                 @ join_str '', '' missing_required)
                       else Inr server_name)))"

record skill =
  sk_name :: string
  sk_enabled :: bool
  sk_provided :: "string list"

definition find_tool_provider :: "skill list \<Rightarrow> string \<Rightarrow> skill option" where
  "find_tool_provider skills tool_name =
     find (\<lambda>s. sk_enabled s \<and> tool_name \<in> set (sk_provided s)) skills"

section \<open>The kernel's approval handle\<close>

record kernel_handle =
  kh_requires_approval :: "string \<Rightarrow> bool"
  kh_request_approval :: "string \<Rightarrow> string \<Rightarrow> string \<Rightarrow> (string, bool) result"

text \<open>
  The kernel behind the handle: its approval manager, the tags of the registered agents, the
  parser of agent ids, and for one question the fresh id, the time and the decision the
  approval manager comes back with.
\<close>

record approval_kernel =
  ak_manager :: approval_manager
  ak_tags :: "agent_id \<Rightarrow> string list option"
  ak_parse_id :: "string \<Rightarrow> agent_id option"
  ak_fresh :: uuid
  ak_now :: time
  ak_decide :: "approval_request \<Rightarrow> approval_decision"

definition is_hand_agent :: "approval_kernel \<Rightarrow> string \<Rightarrow> bool" where
  "is_hand_agent k agent =
     (case ak_parse_id k agent of
        None \<Rightarrow> False
      | Some aid \<Rightarrow> (case ak_tags k aid of
                       None \<Rightarrow> False
                     | Some tags \<Rightarrow> list_ex (\<lambda>t. starts_with t ''hand:'') tags))"

definition kernel_typed_request :: "approval_kernel \<Rightarrow> string \<Rightarrow> string \<Rightarrow> string \<Rightarrow> approval_request" where
  "kernel_typed_request k agent tool_name action_summary =
     \<lparr>ar_id = ak_fresh k, ar_agent_id = agent, ar_tool_name = tool_name,
      ar_description = ''Agent '' @ agent @ '' requests to execute '' @ tool_name,
      ar_action_summary = take_chars 512 action_summary,
      ar_risk_level = classify_risk tool_name,
      ar_requested_at = ak_now k,
      ar_timeout_secs = pol_timeout_secs (am_policy (ak_manager k))\<rparr>"

definition kernel_request_approval ::
  "approval_kernel \<Rightarrow> string \<Rightarrow> string \<Rightarrow> string \<Rightarrow> (string, bool) result" where
  "kernel_request_approval k agent tool_name action_summary =
     (if is_hand_agent k agent then Inr True
      else Inr (ak_decide k (kernel_typed_request k agent tool_name action_summary) = Approved))"

definition kernel_handle_of :: "approval_kernel \<Rightarrow> kernel_handle" where
  "kernel_handle_of k =
     \<lparr>kh_requires_approval = requires_approval (ak_manager k),
      kh_request_approval = kernel_request_approval k\<rparr>"

section \<open>The checks of the tool runner\<close>

definition is_shell_tool :: "string \<Rightarrow> bool" where
  "is_shell_tool name = (name = ''shell_exec'')"

definition suspicious_patterns :: "string list" where
  "suspicious_patterns = [''curl '', ''wget '', ''| sh'', ''| bash'', ''base64 -d'', ''eval '']"

definition check_taint_shell_exec :: "string \<Rightarrow> string option" where
  "check_taint_shell_exec command =
     (case contains_shell_metacharacters command of
        Some reason \<Rightarrow> Some (''Shell metacharacter injection blocked: '' @ reason)
      | None \<Rightarrow>
          check_patterns (contains_str command) (tv_new command [ExternalNetwork] ''llm_tool_call'')
            sink_shell_exec suspicious_patterns)"

definition trim_quotes :: "string \<Rightarrow> string" where
  "trim_quotes s =
     (let q = (\<lambda>c. c = CHR 0x22 \<or> c = CHR 0x27) in rev (dropWhile q (rev (dropWhile q s))))"

definition direct_mcp_tool_from_shell_command :: "json \<Rightarrow> string option" where
  "direct_mcp_tool_from_shell_command input =
     (case Option.bind (json_get ''command'' input) as_str of
        None \<Rightarrow> None
      | Some cmd \<Rightarrow>
          let raw = trim cmd
          in if raw = [] then None
             else let candidate = trim (trim_quotes raw)
                  in if length (split_whitespace candidate) \<noteq> 1 then None
                     else if \<not> is_mcp_tool candidate then None
                     else Some candidate)"

text \<open>What the function does next: return an error, or call a handler.\<close>

datatype tool_action =
    Refuse string
  | RunBuiltin string json
  | CallMcp string string json   \<comment> \<open>server, tool, arguments\<close>
  | RunSkill string string json  \<comment> \<open>skill, tool, arguments\<close>

record gate_env =
  ge_lower :: "string \<Rightarrow> string"
  ge_json_text :: "json \<Rightarrow> string"
  ge_mcp :: "mcp_connection list option"
  ge_skills :: "skill list option"

definition capability_denied :: "string \<Rightarrow> string" where
  "capability_denied tool_name =
     ''Permission denied: agent does not have capability to use tool '' @ quoted tool_name"

definition allowed_by :: "string list option \<Rightarrow> string \<Rightarrow> bool" where
  "allowed_by allowed_tools tool_name =
     (case allowed_tools of None \<Rightarrow> True | Some allowed \<Rightarrow> list_ex (\<lambda>t. t = tool_name) allowed)"

text \<open>The outcome of a dispatch to a server.\<close>

definition mcp_action :: "gate_env \<Rightarrow> string \<Rightarrow> json \<Rightarrow> tool_action" where
  "mcp_action env tool_name input =
     (case dispatch_mcp_tool_by_name (ge_lower env) tool_name input (ge_mcp env) of
        Inl err \<Rightarrow> Refuse (''Error: '' @ err)
      | Inr server \<Rightarrow> CallMcp server tool_name input)"

definition reroute_shell_to_mcp ::
  "gate_env \<Rightarrow> string \<Rightarrow> json \<Rightarrow> string list option \<Rightarrow> tool_action option" where
  "reroute_shell_to_mcp env tool_name input allowed_tools =
     (if tool_name = ''shell_exec'' then
        (case direct_mcp_tool_from_shell_command input of
           Some mcp_tool_name \<Rightarrow>
             if \<not> allowed_by allowed_tools mcp_tool_name
             then Some (Refuse (capability_denied mcp_tool_name))
             else Some (mcp_action env mcp_tool_name (JObject []))
         | None \<Rightarrow> None)
      else None)"

definition exec_policy_bypasses_approval :: "string \<Rightarrow> exec_policy option \<Rightarrow> bool" where
  "exec_policy_bypasses_approval tool_name policy =
     (is_shell_tool tool_name
      \<and> (case policy of
           None \<Rightarrow> False
         | Some p \<Rightarrow> ep_mode p = ExecFull
             \<or> (ep_mode p = ExecAllowlist \<and> list_ex (\<lambda>c. c = ''*'') (allowed_commands p))))"

definition approval_gate ::
  "gate_env \<Rightarrow> string \<Rightarrow> json \<Rightarrow> kernel_handle option \<Rightarrow> string option \<Rightarrow> exec_policy option
     \<Rightarrow> string option" where
  "approval_gate env tool_name input handle caller policy =
     (case handle of
        None \<Rightarrow> None
      | Some kh \<Rightarrow>
          if \<not> exec_policy_bypasses_approval tool_name policy \<and> kh_requires_approval kh tool_name
          then
            let agent = (case caller of Some a \<Rightarrow> a | None \<Rightarrow> ''unknown'');
                summary = tool_name @ '': '' @ truncate_str (ge_json_text env input) 200
            in (case kh_request_approval kh agent tool_name summary of
                  Inr True \<Rightarrow> None
                | Inr False \<Rightarrow> Some (''Execution denied: '' @ quoted tool_name @
                    '' requires human approval and was denied or timed out. The operation was not performed.'')
                | Inl e \<Rightarrow> Some (''Approval system error: '' @ e))
          else None)"

definition str_or_empty :: "string \<Rightarrow> json \<Rightarrow> string" where
  "str_or_empty key input =
     (case Option.bind (json_get key input) as_str of Some s \<Rightarrow> s | None \<Rightarrow> [])"

definition exec_mode_str :: "exec_security_mode \<Rightarrow> string" where
  "exec_mode_str m =
     (case m of ExecDeny \<Rightarrow> ''Deny'' | ExecAllowlist \<Rightarrow> ''Allowlist'' | ExecFull \<Rightarrow> ''Full'')"

definition shell_exec_gate :: "json \<Rightarrow> exec_policy option \<Rightarrow> string option" where
  "shell_exec_gate input policy =
     (let command = str_or_empty ''command'' input;
          is_full_exec = (case policy of None \<Rightarrow> False | Some p \<Rightarrow> ep_mode p = ExecFull);
          meta = (if is_full_exec then None else contains_shell_metacharacters command);
          listed = (case policy of None \<Rightarrow> Inr () | Some p \<Rightarrow> validate_command_allowlist command p);
          taint = (if is_full_exec then None else check_taint_shell_exec command)
      in case meta of
           Some reason \<Rightarrow> Some (''shell_exec blocked: command contains '' @ reason @
             ''. Shell metacharacters (pipes, redirects, etc.) require exec_policy.mode = '' @
             quoted ''full'' @ '' in the agent manifest.'')
         | None \<Rightarrow>
             (case listed of
                Inl reason \<Rightarrow> Some (''shell_exec blocked: '' @ reason @ ''. Current exec_policy.mode = '' @
                  quoted (case policy of Some p \<Rightarrow> exec_mode_str (ep_mode p) | None \<Rightarrow> []) @
                  ''. To allow shell commands, set exec_policy.mode = '' @ quoted ''full'' @
                  '' in the agent manifest or config.toml.'')
              | Inr _ \<Rightarrow>
                  (case taint of
                     Some violation \<Rightarrow> Some (''Taint violation: '' @ violation)
                   | None \<Rightarrow> None)))"

definition builtin_tools :: "string list" where
  "builtin_tools =
     [''file_read'', ''file_write'', ''file_list'', ''apply_patch'', ''document_extract'',
         ''spreadsheet_build'', ''github_subtree_download'', ''web_fetch'', ''web_search'',
         ''shell_exec'', ''agent_send'', ''agent_spawn'', ''agent_delegate'',
         ''agent_map_reduce'', ''agent_supervise'', ''agent_coordinate'', ''agent_list'',
         ''agent_kill'', ''memory_store'', ''memory_recall'', ''memory_list'', ''agent_find'',
         ''agent_find_capabilities'', ''agent_pool_list'', ''agent_pool_spawn'', ''task_post'',
         ''task_claim'', ''orchestration_shared_merge'', ''task_complete'', ''task_list'',
         ''event_publish'', ''schedule_create'', ''schedule_action_create'', ''schedule_list'',
         ''schedule_delete'', ''channels_list'', ''knowledge_add_entity'',
         ''knowledge_add_relation'', ''knowledge_query'', ''image_analyze'',
         ''media_describe'', ''media_transcribe'', ''image_generate'', ''text_to_speech'',
         ''speech_to_text'', ''docker_exec'', ''location_get'', ''system_time'',
         ''cron_create'', ''cron_list'', ''cron_cancel'', ''channel_send'', ''channel_stream'',
         ''process_start'', ''process_poll'', ''process_write'', ''process_kill'',
         ''process_list'', ''workspace_actions_list'', ''workspace_action_set'',
         ''workspace_action_delete'', ''workspace_action'', ''script_run'', ''script_detect'',
         ''hand_list'', ''hand_activate'', ''hand_status'', ''hand_deactivate'',
         ''a2a_discover'', ''a2a_send'', ''hermes_a2a_status'', ''a2a_discover_hermes'',
         ''a2a_send_hermes'', ''browser_navigate'', ''browser_click'', ''browser_click_text'',
         ''browser_type'', ''browser_fill'', ''browser_screenshot'', ''browser_read_page'',
         ''browser_snapshot'', ''browser_close'', ''browser_scroll'', ''browser_wait'',
         ''browser_run_js'', ''browser_back'', ''browser_session_start'',
         ''browser_session_status'', ''canvas_present'', ''email_send'', ''email_read'',
         ''email_search'', ''email_reply'', ''email_draft'', ''mcp_resource_read'']"

text \<open>The arms of the \<^verbatim>\<open>match\<close> on the tool name, each up to the call of its handler.\<close>

definition dispatch_tool ::
  "gate_env \<Rightarrow> string \<Rightarrow> json \<Rightarrow> exec_policy option \<Rightarrow> tool_action" where
  "dispatch_tool env tool_name input policy =
     (if tool_name \<in> {''web_fetch'', ''browser_navigate''} then
        (case check_taint_net_fetch (ge_lower env) (str_or_empty ''url'' input) of
           Some violation \<Rightarrow> Refuse (''Taint violation: '' @ violation)
         | None \<Rightarrow> RunBuiltin tool_name input)
      else if tool_name = ''shell_exec'' then
        (case shell_exec_gate input policy of
           Some content \<Rightarrow> Refuse content
         | None \<Rightarrow> RunBuiltin tool_name input)
      else if tool_name \<in> set builtin_tools then RunBuiltin tool_name input
      else if is_mcp_tool tool_name then mcp_action env tool_name input
      else case ge_skills env of
        None \<Rightarrow> Refuse (''Error: Unknown tool: '' @ tool_name)
      | Some skills \<Rightarrow>
          (case find_tool_provider skills tool_name of
             Some s \<Rightarrow> RunSkill (sk_name s) tool_name input
           | None \<Rightarrow> Refuse (''Error: Unknown tool: '' @ tool_name)))"

definition execute_tool_gate ::
  "gate_env \<Rightarrow> string \<Rightarrow> json \<Rightarrow> kernel_handle option \<Rightarrow> string list option \<Rightarrow> string option
     \<Rightarrow> exec_policy option \<Rightarrow> tool_action" where
  "execute_tool_gate env name input handle allowed_tools caller policy =
     (let tool_name = normalize_tool_name name
      in case reroute_shell_to_mcp env tool_name input allowed_tools of
           Some action \<Rightarrow> action
         | None \<Rightarrow>
             if \<not> allowed_by allowed_tools tool_name then Refuse (capability_denied tool_name)
             else case approval_gate env tool_name input handle caller policy of
                    Some content \<Rightarrow> Refuse content
                  | None \<Rightarrow> dispatch_tool env tool_name input policy)"

section \<open>Lemmas\<close>

fun action_tool :: "tool_action \<Rightarrow> string option" where
  "action_tool (Refuse _) = None"
| "action_tool (RunBuiltin t _) = Some t"
| "action_tool (CallMcp _ t _) = Some t"
| "action_tool (RunSkill _ t _) = Some t"

lemma mcp_action_tool: "action_tool (mcp_action env t input) = Some t' \<Longrightarrow> t' = t"
  by (auto simp: mcp_action_def split: sum.splits)

lemma dispatch_tool_tool: "action_tool (dispatch_tool env t input policy) = Some t' \<Longrightarrow> t' = t"
  by (auto simp: dispatch_tool_def dest: mcp_action_tool split: option.splits if_splits)

lemma direct_mcp_is_mcp: "direct_mcp_tool_from_shell_command input = Some t \<Longrightarrow> is_mcp_tool t"
  by (auto simp: direct_mcp_tool_from_shell_command_def Let_def split: option.splits if_splits)

text \<open>
  The two ways a call gets through the gate: rerouted to an MCP server, or checked by
  capability and approval and dispatched under its normalised name.
\<close>

lemma gate_runs_cases:
  assumes "action_tool (execute_tool_gate env name input handle allowed caller policy) = Some t"
  obtains (rerouted) "normalize_tool_name name = ''shell_exec''"
      "direct_mcp_tool_from_shell_command input = Some t" "allowed_by allowed t"
      "execute_tool_gate env name input handle allowed caller policy = mcp_action env t (JObject [])"
  | (checked) "t = normalize_tool_name name" "allowed_by allowed t"
      "approval_gate env t input handle caller policy = None"
      "execute_tool_gate env name input handle allowed caller policy = dispatch_tool env t input policy"
proof (cases "reroute_shell_to_mcp env (normalize_tool_name name) input allowed")
  case None
  then show ?thesis
    using assms checked by (auto simp: execute_tool_gate_def Let_def dest: dispatch_tool_tool split: if_splits option.splits)
next
  case (Some a)
  then obtain m where m: "normalize_tool_name name = ''shell_exec''"
      "direct_mcp_tool_from_shell_command input = Some m"
    by (auto simp: reroute_shell_to_mcp_def split: if_splits option.splits)
  have g: "execute_tool_gate env name input handle allowed caller policy = a"
    by (simp add: execute_tool_gate_def Some)
  have "allowed_by allowed m \<and> a = mcp_action env m (JObject [])"
    using m Some assms [unfolded g] by (auto simp: reroute_shell_to_mcp_def split: if_splits)
  then show ?thesis using rerouted m g assms mcp_action_tool by metis
qed

lemma check_taint_shell_exec_None:
  "check_taint_shell_exec command = None \<longleftrightarrow>
     contains_shell_metacharacters command = None
     \<and> (\<forall>p\<in>set suspicious_patterns. \<not> contains_str command p)"
proof -
  have "check_sink (tv_new command [ExternalNetwork] ''llm_tool_call'') sink_shell_exec =
    Inl \<lparr>viol_label = ExternalNetwork, viol_sink_name = ''shell_exec'', viol_source = ''llm_tool_call''\<rparr>"
    by (simp add: check_sink_def tv_new_def sink_shell_exec_def)
  from check_patterns_Some [OF this] show ?thesis
    by (auto simp: check_taint_shell_exec_def list_ex_iff split: option.splits)
qed

lemma check_taint_no_meta:
  "check_taint_shell_exec command = None \<Longrightarrow> contains_shell_metacharacters command = None"
  by (simp add: check_taint_shell_exec_def split: option.splits)

lemma shell_exec_gate_None:
  "shell_exec_gate input policy = None \<longleftrightarrow>
     (let command = str_or_empty ''command'' input in
      (\<exists>p. policy = Some p \<and> ep_mode p = ExecFull)
      \<or> check_taint_shell_exec command = None
        \<and> (case policy of None \<Rightarrow> True | Some p \<Rightarrow> validate_command_allowlist command p = Inr ()))"
  by (auto simp: shell_exec_gate_def validate_command_allowlist_def Let_def
      dest: check_taint_no_meta split: option.splits sum.splits exec_security_mode.splits)

section \<open>The approval interface\<close>

text \<open>
  What the runtime relies on of the kernel behind the handle: a positive answer means the
  call was granted.
\<close>

locale approval_authority =
  fixes handle :: kernel_handle
    and granted :: "string \<Rightarrow> string \<Rightarrow> string \<Rightarrow> bool"
  assumes answer_granted:
    "kh_request_approval handle agent tool summary = Inr True \<Longrightarrow> granted agent tool summary"
begin

lemma gate_granted:
  assumes "approval_gate env t input (Some handle) caller policy = None"
    and "kh_requires_approval handle t" and "\<not> exec_policy_bypasses_approval t policy"
  shows "granted (case caller of Some a \<Rightarrow> a | None \<Rightarrow> ''unknown'') t
           (t @ '': '' @ truncate_str (ge_json_text env input) 200)"
  using assms by (intro answer_granted) (auto simp: approval_gate_def Let_def split: sum.splits bool.splits)

end

interpretation kern: approval_authority "kernel_handle_of k"
  "\<lambda>agent tool summary. is_hand_agent k agent
     \<or> ak_decide k (kernel_typed_request k agent tool summary) = Approved" for k
  by unfold_locales (auto simp: kernel_handle_of_def kernel_request_approval_def split: if_splits)

section \<open>Properties\<close>

text \<open>
  C2. No tool outside the agent's grants runs: whatever alias the model uses, a tool that
  passes the gate of an agent with a list of allowed tools is on that list, and it is the
  normalised tool of the call, or the MCP tool named by the command of a shell call.
\<close>

theorem gate_needs_capability:
  assumes "action_tool (execute_tool_gate env name input handle (Some allowed) caller policy) = Some t"
  shows "t \<in> set allowed
    \<and> (t = normalize_tool_name name
       \<or> normalize_tool_name name = ''shell_exec'' \<and> is_mcp_tool t
         \<and> direct_mcp_tool_from_shell_command input = Some t)"
  using assms
proof (cases rule: gate_runs_cases)
  case rerouted
  then show ?thesis by (simp add: allowed_by_def list_ex_iff direct_mcp_is_mcp)
next
  case checked
  then show ?thesis by (simp add: allowed_by_def list_ex_iff)
qed

definition plain_env :: gate_env where
  "plain_env = \<lparr>ge_lower = to_ascii_lowercase, ge_json_text = (\<lambda>_. []),
     ge_mcp = Some [\<lparr>mc_name = ''mail'', mc_tools = []\<rparr>], ge_skills = None\<rparr>"

theorem gate_needs_capability_witness:
  "action_tool (execute_tool_gate plain_env ''ls'' (JObject []) None (Some [''file_list'']) None None)
     = Some ''file_list'' \<and> ''file_list'' \<in> set [''file_list'']"
proof
  show run: "action_tool (execute_tool_gate plain_env ''ls'' (JObject []) None (Some [''file_list'']) None None)
     = Some ''file_list''"
    by (simp add: execute_tool_gate_def normalize_tool_name_def is_known_openfang_tool_def
        known_tools_def map_tool_name_def tool_aliases_def reroute_shell_to_mcp_def allowed_by_def
        approval_gate_def dispatch_tool_def builtin_tools_def Let_def)
  show "''file_list'' \<in> set [''file_list'']"
    using gate_needs_capability [OF run] by simp
qed

text \<open>
  C3. What a shell call must satisfy to reach the shell, under any alias and any caller: its
  mode is not deny; unless the mode is full, the command has no shell metacharacter and no
  suspicious pattern; and in allow-list mode its base name is listed (or empty).
\<close>

theorem shell_exec_reaches_shell:
  assumes "execute_tool_gate env name input handle allowed caller policy = RunBuiltin ''shell_exec'' input'"
  defines "command \<equiv> str_or_empty ''command'' input"
  shows "(\<exists>p. policy = Some p \<and> ep_mode p = ExecFull)
    \<or> set command \<inter> metachars = {} \<and> \<not> contains_str command ''$(''
      \<and> (\<forall>p\<in>set suspicious_patterns. \<not> contains_str command p)
      \<and> (\<forall>p. policy = Some p \<longrightarrow> ep_mode p = ExecAllowlist
          \<and> extract_base_command command \<in> {[]} \<union> set (safe_bins p) \<union> set (allowed_commands p))"
proof -
  have "action_tool (execute_tool_gate env name input handle allowed caller policy) = Some ''shell_exec''"
    by (simp add: assms(1))
  then have "dispatch_tool env ''shell_exec'' input policy = RunBuiltin ''shell_exec'' input'"
  proof (cases rule: gate_runs_cases)
    case rerouted
    then have "is_mcp_tool ''shell_exec''" by (simp add: direct_mcp_is_mcp)
    then show ?thesis by (simp add: is_mcp_tool_def starts_with_def)
  next
    case checked
    then show ?thesis using assms(1) by simp
  qed
  then have "shell_exec_gate input policy = None"
    by (simp add: dispatch_tool_def split: option.splits)
  then show ?thesis
    by (auto simp: shell_exec_gate_None command_def Let_def check_taint_shell_exec_None
        no_metacharacters_iff allowlist_exact split: option.splits exec_security_mode.splits)
qed

definition list_files :: json where
  "list_files = JObject [(''command'', JString ''ls'')]"

definition listing_policy :: exec_policy where
  "listing_policy = exec_policy_default\<lparr>ep_mode := ExecAllowlist\<rparr>"

lemma ls_base [simp]: "trim ''ls'' = ''ls''" "split_whitespace ''ls'' = [''ls'']"
  by (simp_all add: trim_def trim_start.simps trim_end.simps ws_back_def str_bytes_def split_whitespace_def)

theorem shell_exec_reaches_shell_witness:
  "execute_tool_gate plain_env ''Bash'' list_files None None None (Some listing_policy)
     = RunBuiltin ''shell_exec'' list_files
   \<and> extract_base_command ''ls'' \<in> {[]} \<union> set (safe_bins listing_policy) \<union> set (allowed_commands listing_policy)"
proof
  have base: "extract_base_command ''ls'' = ''ls''" by (simp add: extract_base_command_def)
  have meta: "contains_shell_metacharacters ''ls'' = None"
    by (simp add: no_metacharacters_iff metachars_def contains_str_def sublist_Cons_right)
  have gate: "shell_exec_gate list_files (Some listing_policy) = None"
    by (simp add: shell_exec_gate_None list_files_def str_or_empty_def check_taint_shell_exec_None meta
        suspicious_patterns_def contains_str_def sublist_Cons_right allowlist_exact base
        listing_policy_def exec_policy_default_def)
  have direct: "direct_mcp_tool_from_shell_command list_files = None"
    by (simp add: direct_mcp_tool_from_shell_command_def list_files_def trim_quotes_def
        is_mcp_tool_def starts_with_def)
  have bash: "normalize_tool_name ''Bash'' = ''shell_exec''"
    by (simp add: normalize_tool_name_def is_known_openfang_tool_def known_tools_def
        map_tool_name_def tool_aliases_def)
  show run: "execute_tool_gate plain_env ''Bash'' list_files None None None (Some listing_policy)
     = RunBuiltin ''shell_exec'' list_files"
    by (simp add: execute_tool_gate_def bash reroute_shell_to_mcp_def direct allowed_by_def
        approval_gate_def dispatch_tool_def gate)
  show "extract_base_command ''ls'' \<in> {[]} \<union> set (safe_bins listing_policy) \<union> set (allowed_commands listing_policy)"
    using shell_exec_reaches_shell [OF run]
    by (simp add: listing_policy_def list_files_def str_or_empty_def)
qed

text \<open>
  C4. A rerouted MCP tool skips the approval gate: a tool the policy puts under approval, and
  whose approval is denied, is refused when called by its name and runs when a shell call
  names it as its command.
\<close>

theorem reroute_skips_approval:
  assumes "requires_approval (ak_manager k) t" and "\<not> is_hand_agent k agent"
    and "\<forall>req. ak_decide k req = Denied"
    and "normalize_tool_name t = t" and "t \<noteq> ''shell_exec''" and "allowed_by allowed t"
    and "direct_mcp_tool_from_shell_command (JObject [(''command'', JString t)]) = Some t"
    and "dispatch_mcp_tool_by_name (ge_lower env) t (JObject []) (ge_mcp env) = Inr server"
  shows "(\<exists>msg. execute_tool_gate env t (JObject []) (Some (kernel_handle_of k)) allowed (Some agent) policy
            = Refuse msg)
    \<and> execute_tool_gate env ''shell_exec'' (JObject [(''command'', JString t)])
        (Some (kernel_handle_of k)) allowed (Some agent) policy = CallMcp server t (JObject [])"
proof
  have "\<not> exec_policy_bypasses_approval t policy"
    using assms(5) by (simp add: exec_policy_bypasses_approval_def is_shell_tool_def)
  then have "approval_gate env t (JObject []) (Some (kernel_handle_of k)) (Some agent) policy \<noteq> None"
    using assms(1-3) kern.gate_granted [of env t "JObject []" k "Some agent" policy]
    by (auto simp: kernel_handle_of_def)
  then show "\<exists>msg. execute_tool_gate env t (JObject []) (Some (kernel_handle_of k)) allowed (Some agent) policy
      = Refuse msg"
    using assms(4-6) by (auto simp: execute_tool_gate_def reroute_shell_to_mcp_def)
  have "normalize_tool_name ''shell_exec'' = ''shell_exec''"
    by (simp add: normalize_tool_name_def is_known_openfang_tool_def known_tools_def)
  then show "execute_tool_gate env ''shell_exec'' (JObject [(''command'', JString t)])
        (Some (kernel_handle_of k)) allowed (Some agent) policy = CallMcp server t (JObject [])"
    using assms(6-8) by (simp add: execute_tool_gate_def reroute_shell_to_mcp_def mcp_action_def)
qed

definition mail_kernel :: approval_kernel where
  "mail_kernel =
     \<lparr>ak_manager = am_new (approval_policy_default\<lparr>require_approval := [''mcp_mail_send'']\<rparr>),
      ak_tags = (\<lambda>_. None), ak_parse_id = (\<lambda>_. None), ak_fresh = 0, ak_now = 0,
      ak_decide = (\<lambda>_. Denied)\<rparr>"

theorem reroute_skips_approval_witness:
  "execute_tool_gate plain_env ''shell_exec'' (JObject [(''command'', JString ''mcp_mail_send'')])
     (Some (kernel_handle_of mail_kernel)) (Some [''mcp_mail_send'']) (Some ''a'') None
     = CallMcp ''mail'' ''mcp_mail_send'' (JObject [])"
proof -
  have "direct_mcp_tool_from_shell_command (JObject [(''command'', JString ''mcp_mail_send'')])
      = Some ''mcp_mail_send''"
    by (simp add: direct_mcp_tool_from_shell_command_def trim_def trim_start.simps trim_end.simps
        ws_back_def str_bytes_def split_whitespace_def trim_quotes_def is_mcp_tool_def starts_with_def)
  moreover have "dispatch_mcp_tool_by_name (ge_lower plain_env) ''mcp_mail_send'' (JObject []) (ge_mcp plain_env)
      = Inr ''mail''"
    by (simp add: dispatch_mcp_tool_by_name_def plain_env_def is_mcp_tool_def starts_with_def
        extract_mcp_server_from_known_def normalize_name_def to_ascii_lowercase_def ascii_lower_def)
  moreover have "normalize_tool_name ''mcp_mail_send'' = ''mcp_mail_send''"
    by (simp add: normalize_tool_name_def is_known_openfang_tool_def known_tools_def
        map_tool_name_def tool_aliases_def)
  ultimately show ?thesis
    using reroute_skips_approval [of mail_kernel "''mcp_mail_send''" "''a''" "Some [''mcp_mail_send'']"
        plain_env "''mail''" None]
    by (simp add: mail_kernel_def requires_approval_def am_new_def is_hand_agent_def allowed_by_def)
qed

end
