(* ===== verification/Agent_Types.thy ===== *)
theory Agent_Types
  imports Agent_Scheduler Tool_Gate
begin

text \<open>
  Agents as the kernel stores them (\<^verbatim>\<open>crates/openfang-types/src/agent.rs\<close>): states, modes,
  tool profiles, manifests and registry entries. Identifiers are numbers and paths are
  strings; a 32-bit float is only stored.
\<close>

section \<open>Configuration blocks\<close>

type_synonym session_id = uuid

record model_routing_config =
  simple_model :: string
  medium_model :: string
  complex_model :: string
  simple_threshold :: nat
  complex_threshold :: nat

definition model_routing_config_default :: model_routing_config where
  "model_routing_config_default =
     \<lparr>simple_model = ''claude-haiku-4-5-20251001'', medium_model = ''claude-sonnet-4-20250514'',
      complex_model = ''claude-sonnet-4-20250514'', simple_threshold = 100, complex_threshold = 500\<rparr>"

record autonomous_config =
  quiet_hours :: "string option"
  max_iterations :: nat
  max_restarts :: nat
  heartbeat_interval_secs :: nat
  heartbeat_channel :: "string option"

definition autonomous_config_default :: autonomous_config where
  "autonomous_config_default =
     \<lparr>quiet_hours = None, max_iterations = 80, max_restarts = 10, heartbeat_interval_secs = 30,
      heartbeat_channel = None\<rparr>"

datatype hook_event = BeforeToolCall | AfterToolCall | BeforePromptBuild | AgentLoopEnd

section \<open>Turn outcomes\<close>

datatype turn_outcome = Completed | EmptyModel | ProviderError | UserSilent

definition em_dash :: string where
  "em_dash = [CHR 0xE2, CHR 0x80, CHR 0x94]"

definition turn_outcome_classify :: "string \<Rightarrow> bool \<Rightarrow> turn_outcome" where
  "turn_outcome_classify display_response silent =
     (if silent then UserSilent
      else let r = display_response in
        if contains_str r ''inference backend returned empty responses repeatedly''
           \<or> contains_str r ''No assistant text (0 tokens)''
           \<or> contains_str r ''model call did not complete''
        then ProviderError
        else if starts_with r (''[Task completed '' @ em_dash @
                  '' the agent executed tools but did not produce a text summary.]'')
           \<or> starts_with r ''[The model returned an empty response.''
           \<or> starts_with r (''[Partial response '' @ em_dash @
                  '' token limit reached with no text output.]'')
           \<or> starts_with r ''[The agent completed processing but returned no text response.''
        then EmptyModel
        else Completed)"

section \<open>States, modes and schedules\<close>

datatype agent_state = Created | Running | Suspended | Terminated | Crashed

datatype agent_mode = Observe | Assist | FullMode

definition mode_read_only :: "string list" where
  "mode_read_only =
     [''file_read'', ''file_list'', ''memory_recall'', ''web_fetch'', ''web_search'', ''agent_list'']"

definition filter_tools :: "agent_mode \<Rightarrow> tool_definition list \<Rightarrow> tool_definition list" where
  "filter_tools mode tools =
     (case mode of
        Observe \<Rightarrow> []
      | Assist \<Rightarrow> filter (\<lambda>t. td_name t \<in> set mode_read_only) tools
      | FullMode \<Rightarrow> tools)"

datatype schedule_mode =
    Reactive
  | Periodic string
  | Proactive "string list"
  | Continuous nat

definition default_check_interval :: nat where
  "default_check_interval = 60"

datatype priority = LowPriority | NormalPriority | HighPriority | CriticalPriority

section \<open>Tool profiles\<close>

datatype tool_profile =
    ProfileMinimal | ProfileCoding | ProfileResearch | ProfileMessaging | ProfileAutomation
  | ProfileFull | ProfileCustom

definition profile_tools :: "tool_profile \<Rightarrow> string list" where
  "profile_tools p =
     (case p of
        ProfileMinimal \<Rightarrow>
           [''file_read'', ''file_list'', ''channel_send'', ''event_publish'',
            ''media_transcribe'']
      | ProfileCoding \<Rightarrow>
           [''file_read'', ''file_write'', ''file_list'', ''document_extract'',
            ''spreadsheet_build'', ''shell_exec'', ''web_fetch'', ''github_subtree_download'',
            ''channel_send'', ''event_publish'', ''media_transcribe'', ''schedule_create'',
            ''schedule_list'', ''schedule_delete'', ''channels_list'', ''hermes_a2a_status'',
            ''a2a_discover_hermes'', ''a2a_send_hermes'']
      | ProfileResearch \<Rightarrow>
           [''web_fetch'', ''web_search'', ''github_subtree_download'', ''file_read'',
            ''file_write'', ''document_extract'', ''channel_send'', ''event_publish'',
            ''media_transcribe'', ''schedule_create'', ''schedule_list'', ''schedule_delete'',
            ''channels_list'', ''hermes_a2a_status'', ''a2a_discover_hermes'',
            ''a2a_send_hermes'']
      | ProfileMessaging \<Rightarrow>
           [''agent_send'', ''agent_list'', ''memory_store'', ''memory_recall'',
            ''channel_send'', ''event_publish'', ''media_transcribe'', ''schedule_create'',
            ''schedule_list'', ''schedule_delete'', ''channels_list'', ''hermes_a2a_status'',
            ''a2a_discover_hermes'', ''a2a_send_hermes'']
      | ProfileAutomation \<Rightarrow>
           [''file_read'', ''file_write'', ''file_list'', ''document_extract'',
            ''spreadsheet_build'', ''shell_exec'', ''web_fetch'', ''web_search'',
            ''github_subtree_download'', ''agent_send'', ''agent_list'', ''memory_store'',
            ''memory_recall'', ''channel_send'', ''event_publish'', ''media_transcribe'',
            ''schedule_create'', ''schedule_list'', ''schedule_delete'', ''channels_list'',
            ''hermes_a2a_status'', ''a2a_discover_hermes'', ''a2a_send_hermes'']
      | ProfileFull \<Rightarrow> [''*'']
      | ProfileCustom \<Rightarrow> [''*''])"

record manifest_capabilities =
  mcap_network :: "string list"
  mcap_tools :: "string list"
  mcap_memory_read :: "string list"
  mcap_memory_write :: "string list"
  mcap_agent_spawn :: bool
  mcap_agent_message :: "string list"
  mcap_shell :: "string list"
  mcap_ofp_discover :: bool
  mcap_ofp_connect :: "string list"

definition manifest_capabilities_default :: manifest_capabilities where
  "manifest_capabilities_default =
     \<lparr>mcap_network = [], mcap_tools = [], mcap_memory_read = [], mcap_memory_write = [],
      mcap_agent_spawn = False, mcap_agent_message = [], mcap_shell = [], mcap_ofp_discover = False,
      mcap_ofp_connect = []\<rparr>"

definition implied_capabilities :: "tool_profile \<Rightarrow> manifest_capabilities" where
  "implied_capabilities p =
     (let tools = profile_tools p;
          has_net = list_ex (\<lambda>t. starts_with t ''web_'' \<or> t = ''*'') tools;
          has_shell = list_ex (\<lambda>t. t = ''shell_exec'' \<or> t = ''*'') tools;
          has_agent = list_ex (\<lambda>t. starts_with t ''agent_'' \<or> t = ''*'') tools;
          has_memory = list_ex (\<lambda>t. starts_with t ''memory_'' \<or> t = ''*'') tools
      in \<lparr>mcap_network = (if has_net then [''*''] else []),
          mcap_tools = tools,
          mcap_memory_read = (if has_memory then [''*''] else [''self.*'']),
          mcap_memory_write = [''self.*''],
          mcap_agent_spawn = has_agent,
          mcap_agent_message = (if has_agent then [''*''] else []),
          mcap_shell = (if has_shell then [''*''] else []),
          mcap_ofp_discover = False,
          mcap_ofp_connect = []\<rparr>)"

section \<open>Manifests\<close>

record model_config =
  mo_provider :: string
  mo_model :: string
  mo_max_tokens :: nat
  mo_temperature :: f64
  mo_system_prompt :: string
  mo_api_key_env :: "string option"
  mo_base_url :: "string option"

definition model_config_default :: model_config where
  "model_config_default =
     \<lparr>mo_provider = ''default'', mo_model = ''default'', mo_max_tokens = 4096,
      mo_temperature = Finite (7 / 10), mo_system_prompt = ''You are a helpful AI agent.'',
      mo_api_key_env = None, mo_base_url = None\<rparr>"

record fallback_model =
  fm_provider :: string
  fm_model :: string
  fm_api_key_env :: "string option"
  fm_base_url :: "string option"

type_synonym tool_config = "(string, json) store"

record agent_manifest =
  mf_name :: string
  mf_version :: string
  mf_description :: string
  mf_author :: string
  mf_module :: string
  mf_schedule :: schedule_mode
  mf_model :: model_config
  mf_fallback_models :: "fallback_model list"
  mf_resources :: resource_quota
  mf_priority :: priority
  mf_capabilities :: manifest_capabilities
  mf_profile :: "tool_profile option"
  mf_tools :: "(string, tool_config) store"
  mf_skills :: "string list"
  mf_mcp_servers :: "string list"
  mf_metadata :: "(string, json) store"
  mf_tags :: "string list"
  mf_routing :: "model_routing_config option"
  mf_autonomous :: "autonomous_config option"
  mf_pinned_model :: "string option"
  mf_workspace :: "string option"
  mf_generate_identity_files :: bool
  mf_exec_policy :: "exec_policy option"
  mf_tool_allowlist :: "string list"
  mf_tool_blocklist :: "string list"
  mf_ainl_runtime_engine :: bool

definition agent_manifest_default :: agent_manifest where
  "agent_manifest_default =
     \<lparr>mf_name = ''unnamed'', mf_version = ''0.1.0'', mf_description = [], mf_author = [],
      mf_module = ''builtin:chat'', mf_schedule = Reactive, mf_model = model_config_default,
      mf_fallback_models = [], mf_resources = resource_quota_default,
      mf_priority = NormalPriority, mf_capabilities = manifest_capabilities_default,
      mf_profile = None, mf_tools = [], mf_skills = [], mf_mcp_servers = [], mf_metadata = [],
      mf_tags = [], mf_routing = None, mf_autonomous = None, mf_pinned_model = None,
      mf_workspace = None, mf_generate_identity_files = True, mf_exec_policy = None,
      mf_tool_allowlist = [], mf_tool_blocklist = [], mf_ainl_runtime_engine = True\<rparr>"

section \<open>Session labels\<close>

datatype label_error = LabelLength | LabelChars

definition session_label_new :: "(nat \<Rightarrow> bool) \<Rightarrow> string \<Rightarrow> (label_error, string) result" where
  "session_label_new uni label =
     (let trimmed = trim label
      in if trimmed = [] \<or> length trimmed > 128 then Inl LabelLength
         else if \<not> list_all (\<lambda>c. is_alphanumeric uni c \<or> c = 32 \<or> c = 45 \<or> c = 95) (str_chars trimmed)
         then Inl LabelChars
         else Inr trimmed)"

section \<open>Entries\<close>

record agent_turn_stats =
  last_latency_ms :: "nat option"
  last_fallback_note :: "string option"
  last_turn_at :: "time option"
  last_success_at :: "time option"
  last_error_at :: "time option"
  last_error_summary :: "string option"
  turns_ok :: nat
  turns_err :: nat
  last_input_tokens :: nat
  last_output_tokens :: nat

definition agent_turn_stats_default :: agent_turn_stats where
  "agent_turn_stats_default =
     \<lparr>last_latency_ms = None, last_fallback_note = None, last_turn_at = None,
      last_success_at = None, last_error_at = None, last_error_summary = None,
      turns_ok = 0, turns_err = 0, last_input_tokens = 0, last_output_tokens = 0\<rparr>"

record agent_identity =
  id_emoji :: "string option"
  id_avatar_url :: "string option"
  id_color :: "string option"
  id_archetype :: "string option"
  id_vibe :: "string option"
  id_greeting_style :: "string option"

definition agent_identity_default :: agent_identity where
  "agent_identity_default =
     \<lparr>id_emoji = None, id_avatar_url = None, id_color = None, id_archetype = None,
      id_vibe = None, id_greeting_style = None\<rparr>"

record agent_entry =
  en_id :: agent_id
  en_name :: string
  en_manifest :: agent_manifest
  en_state :: agent_state
  en_mode :: agent_mode
  en_created_at :: time
  en_last_active :: time
  en_parent :: "agent_id option"
  en_children :: "agent_id list"
  en_session_id :: session_id
  en_tags :: "string list"
  en_identity :: agent_identity
  en_onboarding_completed :: bool
  en_onboarding_completed_at :: "time option"
  en_turn_stats :: agent_turn_stats

section \<open>Lemmas\<close>

text \<open>A mode only takes tools away, and a stricter mode takes away more.\<close>

lemma filter_tools_mono:
  "set (filter_tools Observe ts) \<subseteq> set (filter_tools Assist ts)"
  "set (filter_tools Assist ts) \<subseteq> set (filter_tools FullMode ts)"
  by (auto simp: filter_tools_def)

lemma filter_tools_idem: "filter_tools m (filter_tools m ts) = filter_tools m ts"
  by (cases m) (simp_all add: filter_tools_def)

text \<open>A profile implies the shell exactly when it lists the shell tool or everything.\<close>

lemma implied_shell:
  "mcap_shell (implied_capabilities p) = [''*''] \<longleftrightarrow>
     p \<in> {ProfileCoding, ProfileAutomation, ProfileFull, ProfileCustom}"
  by (cases p) (simp_all add: implied_capabilities_def profile_tools_def starts_with_def Let_def)

lemma session_label_ok:
  "session_label_new uni label = Inr l \<Longrightarrow> l = trim label \<and> l \<noteq> [] \<and> length l \<le> 128"
  by (auto simp: session_label_new_def Let_def split: if_splits)

end
