(* ===== verification/Agent_Registry.thy ===== *)
theory Agent_Registry
  imports Agent_Types
begin

text \<open>
  The registry of agents (\<^verbatim>\<open>crates/openfang-kernel/src/registry.rs\<close>) and the part of
  \<^verbatim>\<open>spawn_agent_with_parent\<close> (\<^verbatim>\<open>crates/openfang-kernel/src/kernel.rs\<close>) that checks the parent's
  limits and enters the new agent. Each method is one step, except that the two parts of \<^verbatim>\<open>register\<close>, the look at
  the index of names and the entry, can also be taken apart; the texts of not-found errors are
  kept as identifiers. The directory of an agent on disk is named after the agent, and what
  \<^verbatim>\<open>update_name\<close> finds there is an argument.

  \<^verbatim>\<open>spawn_subtree_height\<close> recurses along the lists of children. It is modelled with fuel, the
  answer \<open>None\<close> being an unbounded recursion; the number of agents is shown to be enough.
\<close>

section \<open>State\<close>

record agent_registry =
  rg_agents :: "(agent_id, agent_entry) store"
  rg_name_index :: "(string, agent_id) store"
  rg_tag_index :: "(string, agent_id list) store"
  rg_agent_home :: string

text \<open>The data of the two quota messages: the parent, its limit and the projected height.\<close>

datatype quota_message =
    ReachedMaxSubagents agent_id nat
  | ExceedsMaxSpawnDepth agent_id nat nat

datatype registry_error =
    AgentAlreadyExists string
  | AgentNotFound agent_id
  | ConfigError string
  | SpawnQuotaExceeded quota_message

definition with_agent_home :: "string \<Rightarrow> agent_registry" where
  "with_agent_home home =
     \<lparr>rg_agents = [], rg_name_index = [], rg_tag_index = [], rg_agent_home = home\<rparr>"

text \<open>\<^verbatim>\<open>tag_index.entry(tag).or_default().push(id)\<close> and \<^verbatim>\<open>ids.retain(|x| x != id)\<close>.\<close>

definition tag_push :: "agent_id \<Rightarrow> string \<Rightarrow> (string, agent_id list) store \<Rightarrow> (string, agent_id list) store" where
  "tag_push i tag idx =
     st_put tag ((case st_get idx tag of Some ids \<Rightarrow> ids | None \<Rightarrow> []) @ [i]) idx"

definition tag_retain :: "agent_id \<Rightarrow> string \<Rightarrow> (string, agent_id list) store \<Rightarrow> (string, agent_id list) store" where
  "tag_retain i tag idx =
     (case st_get idx tag of
        Some ids \<Rightarrow> st_put tag (filter (\<lambda>a. a \<noteq> i) ids) idx
      | None \<Rightarrow> idx)"

section \<open>Entering, finding and removing agents\<close>

definition register_insert :: "agent_entry \<Rightarrow> agent_registry \<Rightarrow> agent_registry" where
  "register_insert entry reg =
     (let i = en_id entry
      in reg\<lparr>rg_name_index := st_put (en_name entry) i (rg_name_index reg),
             rg_tag_index := fold (tag_push i) (en_tags entry) (rg_tag_index reg),
             rg_agents := st_put i entry (rg_agents reg)\<rparr>)"

definition rg_register ::
  "agent_entry \<Rightarrow> agent_registry \<Rightarrow> (registry_error, unit) result \<times> agent_registry" where
  "rg_register entry reg =
     (if st_get (rg_name_index reg) (en_name entry) \<noteq> None
      then (Inl (AgentAlreadyExists (en_name entry)), reg)
      else (Inr (), register_insert entry reg))"

declare register_insert_def [simp]

definition rg_get :: "agent_id \<Rightarrow> agent_registry \<Rightarrow> agent_entry option" where
  "rg_get i reg = st_get (rg_agents reg) i"

definition rg_find_by_name :: "string \<Rightarrow> agent_registry \<Rightarrow> agent_entry option" where
  "rg_find_by_name name reg =
     Option.bind (st_get (rg_name_index reg) name) (\<lambda>i. st_get (rg_agents reg) i)"

definition rg_remove ::
  "agent_id \<Rightarrow> agent_registry \<Rightarrow> (registry_error, agent_entry) result \<times> agent_registry" where
  "rg_remove i reg =
     (case st_get (rg_agents reg) i of
        None \<Rightarrow> (Inl (AgentNotFound i), reg)
      | Some entry \<Rightarrow>
          (Inr entry, reg\<lparr>rg_agents := st_del i (rg_agents reg),
                           rg_name_index := st_del (en_name entry) (rg_name_index reg),
                           rg_tag_index := fold (tag_retain i) (en_tags entry) (rg_tag_index reg)\<rparr>))"

definition rg_list :: "agent_registry \<Rightarrow> agent_entry list" where
  "rg_list reg = map snd (rg_agents reg)"

definition rg_count :: "agent_registry \<Rightarrow> nat" where
  "rg_count reg = length (rg_agents reg)"

definition rg_add_child :: "agent_id \<Rightarrow> agent_id \<Rightarrow> agent_registry \<Rightarrow> agent_registry" where
  "rg_add_child parent_id child_id reg =
     (case st_get (rg_agents reg) parent_id of
        None \<Rightarrow> reg
      | Some entry \<Rightarrow>
          reg\<lparr>rg_agents := st_put parent_id (entry\<lparr>en_children := en_children entry @ [child_id]\<rparr>)
                (rg_agents reg)\<rparr>)"

section \<open>The spawn tree\<close>

definition max_or_zero :: "nat list \<Rightarrow> nat" where
  "max_or_zero xs = fold max xs 0"

primrec spawn_subtree_height :: "nat \<Rightarrow> agent_registry \<Rightarrow> agent_id \<Rightarrow> nat option" where
  "spawn_subtree_height 0 reg i = None"
| "spawn_subtree_height (Suc n) reg i =
     (case rg_get i reg of
        None \<Rightarrow> Some 0
      | Some entry \<Rightarrow>
          if en_children entry = [] then Some 0
          else map_option (\<lambda>hs. max_or_zero (map (\<lambda>h. 1 + h) hs))
                 (those (map (spawn_subtree_height n reg) (en_children entry))))"

definition spawn_height_if_add_leaf :: "nat \<Rightarrow> agent_registry \<Rightarrow> agent_id \<Rightarrow> nat option option" where
  "spawn_height_if_add_leaf n reg parent =
     (case rg_get parent reg of
        None \<Rightarrow> Some None
      | Some entry \<Rightarrow>
          map_option (\<lambda>hs. Some (max (max_or_zero (map (\<lambda>h. 1 + h) hs)) 1))
            (those (map (spawn_subtree_height n reg) (en_children entry))))"

text \<open>
  The limits of a parent, checked before the agent is created; \<open>None\<close> when the recursion
  does not end.
\<close>

definition spawn_quota_check ::
  "nat \<Rightarrow> agent_registry \<Rightarrow> agent_id option \<Rightarrow> (registry_error, unit) result option" where
  "spawn_quota_check n reg parent =
     (case parent of
        None \<Rightarrow> Some (Inr ())
      | Some pid \<Rightarrow>
          (case rg_get pid reg of
             None \<Rightarrow> Some (Inl (AgentNotFound pid))
           | Some parent_entry \<Rightarrow>
               let pq = mf_resources (en_manifest parent_entry)
               in if max_subagents pq > 0 \<and> length (en_children parent_entry) \<ge> max_subagents pq
                  then Some (Inl (SpawnQuotaExceeded (ReachedMaxSubagents pid (max_subagents pq))))
                  else if max_spawn_depth pq > 0 then
                    map_option (\<lambda>h. case h of
                        Some h' \<Rightarrow>
                          if h' > max_spawn_depth pq
                          then Inl (SpawnQuotaExceeded (ExceedsMaxSpawnDepth pid (max_spawn_depth pq) h'))
                          else Inr ()
                      | None \<Rightarrow> Inr ())
                      (spawn_height_if_add_leaf n reg pid)
                  else Some (Inr ())))"

definition spawned_entry ::
  "time \<Rightarrow> session_id \<Rightarrow> agent_id \<Rightarrow> agent_manifest \<Rightarrow> agent_id option \<Rightarrow> agent_entry" where
  "spawned_entry now session i manifest parent =
     \<lparr>en_id = i, en_name = mf_name manifest, en_manifest = manifest, en_state = Running,
      en_mode = FullMode, en_created_at = now, en_last_active = now, en_parent = parent,
      en_children = [], en_session_id = session, en_tags = mf_tags manifest,
      en_identity = agent_identity_default, en_onboarding_completed = False,
      en_onboarding_completed_at = None, en_turn_stats = agent_turn_stats_default\<rparr>"

text \<open>
  The registry's part of a spawn, for the manifest the kernel has completed with its defaults.
\<close>

definition spawn_agent_with_parent ::
  "nat \<Rightarrow> time \<Rightarrow> session_id \<Rightarrow> agent_id \<Rightarrow> agent_manifest \<Rightarrow> agent_id option \<Rightarrow> agent_registry
     \<Rightarrow> ((registry_error, agent_id) result \<times> agent_registry) option" where
  "spawn_agent_with_parent n now session i manifest parent reg =
     (case spawn_quota_check n reg parent of
        None \<Rightarrow> None
      | Some (Inl e) \<Rightarrow> Some (Inl e, reg)
      | Some (Inr _) \<Rightarrow>
          (case rg_register (spawned_entry now session i manifest parent) reg of
             (Inl e, reg') \<Rightarrow> Some (Inl e, reg')
           | (Inr _, reg') \<Rightarrow>
               Some (Inr i, case parent of Some p \<Rightarrow> rg_add_child p i reg' | None \<Rightarrow> reg')))"

text \<open>At the start of the kernel the persisted agents are entered one after the other; one whose name is taken is left out.\<close>

definition restore_agents :: "string \<Rightarrow> agent_entry list \<Rightarrow> agent_registry" where
  "restore_agents home entries = fold (\<lambda>entry reg. snd (rg_register entry reg)) entries (with_agent_home home)"

section \<open>Updates of one entry\<close>

text \<open>The shape all of them share: find the entry, change it, refresh its activity.\<close>

definition update_entry ::
  "time \<Rightarrow> (agent_entry \<Rightarrow> agent_entry) \<Rightarrow> agent_id \<Rightarrow> agent_registry
     \<Rightarrow> (registry_error, unit) result \<times> agent_registry" where
  "update_entry now f i reg =
     (case st_get (rg_agents reg) i of
        None \<Rightarrow> (Inl (AgentNotFound i), reg)
      | Some entry \<Rightarrow>
          (Inr (), reg\<lparr>rg_agents := st_put i ((f entry)\<lparr>en_last_active := now\<rparr>) (rg_agents reg)\<rparr>))"

definition on_manifest :: "(agent_manifest \<Rightarrow> agent_manifest) \<Rightarrow> agent_entry \<Rightarrow> agent_entry" where
  "on_manifest f entry = entry\<lparr>en_manifest := f (en_manifest entry)\<rparr>"

definition on_model :: "(model_config \<Rightarrow> model_config) \<Rightarrow> agent_entry \<Rightarrow> agent_entry" where
  "on_model f = on_manifest (\<lambda>m. m\<lparr>mf_model := f (mf_model m)\<rparr>)"

definition set_state where
  "set_state now i state = update_entry now (\<lambda>e. e\<lparr>en_state := state\<rparr>) i"

definition set_mode where
  "set_mode now i mode = update_entry now (\<lambda>e. e\<lparr>en_mode := mode\<rparr>) i"

definition update_session_id where
  "update_session_id now i s = update_entry now (\<lambda>e. e\<lparr>en_session_id := s\<rparr>) i"

definition update_workspace where
  "update_workspace now i w = update_entry now (on_manifest (\<lambda>m. m\<lparr>mf_workspace := w\<rparr>)) i"

definition update_identity where
  "update_identity now i identity = update_entry now (\<lambda>e. e\<lparr>en_identity := identity\<rparr>) i"

definition update_model where
  "update_model now i new_model = update_entry now (on_model (\<lambda>m. m\<lparr>mo_model := new_model\<rparr>)) i"

definition update_model_and_provider where
  "update_model_and_provider now i new_model new_provider =
     update_entry now (on_model (\<lambda>m. m\<lparr>mo_model := new_model, mo_provider := new_provider\<rparr>)) i"

definition update_model_provider_config where
  "update_model_provider_config now i new_model new_provider api_key_env base_url =
     update_entry now (on_model (\<lambda>m. m\<lparr>mo_model := new_model, mo_provider := new_provider,
       mo_api_key_env := api_key_env, mo_base_url := base_url\<rparr>)) i"

definition replace_model_config where
  "replace_model_config now i new_model = update_entry now (on_model (\<lambda>_. new_model)) i"

definition update_fallback_models where
  "update_fallback_models now i fms =
     update_entry now (on_manifest (\<lambda>m. m\<lparr>mf_fallback_models := fms\<rparr>)) i"

definition update_max_iterations where
  "update_max_iterations now i n =
     update_entry now (on_manifest (\<lambda>m. m\<lparr>mf_autonomous :=
       Some (case mf_autonomous m of
               Some cfg \<Rightarrow> cfg\<lparr>max_iterations := n\<rparr>
             | None \<Rightarrow> autonomous_config_default\<lparr>max_iterations := n\<rparr>)\<rparr>)) i"

definition update_ainl_runtime_engine where
  "update_ainl_runtime_engine now i enabled =
     update_entry now (on_manifest (\<lambda>m. m\<lparr>mf_ainl_runtime_engine := enabled\<rparr>)) i"

definition update_native_planner_mode where
  "update_native_planner_mode now i enabled =
     update_entry now (on_manifest (\<lambda>m. m\<lparr>mf_metadata :=
       st_put ''planner_mode'' (JString (if enabled then ''on'' else ''off'')) (mf_metadata m)\<rparr>)) i"

definition update_skills where
  "update_skills now i skills = update_entry now (on_manifest (\<lambda>m. m\<lparr>mf_skills := skills\<rparr>)) i"

definition update_mcp_servers where
  "update_mcp_servers now i servers =
     update_entry now (on_manifest (\<lambda>m. m\<lparr>mf_mcp_servers := servers\<rparr>)) i"

definition update_tool_filters where
  "update_tool_filters now i allowlist blocklist =
     update_entry now (on_manifest (\<lambda>m. m\<lparr>
       mf_tool_allowlist := (case allowlist of Some al \<Rightarrow> al | None \<Rightarrow> mf_tool_allowlist m),
       mf_tool_blocklist := (case blocklist of Some bl \<Rightarrow> bl | None \<Rightarrow> mf_tool_blocklist m)\<rparr>)) i"

definition touch :: "time \<Rightarrow> agent_id \<Rightarrow> agent_registry \<Rightarrow> agent_registry" where
  "touch now i reg = snd (update_entry now (\<lambda>e. e) i reg)"

definition update_system_prompt where
  "update_system_prompt now i p = update_entry now (on_model (\<lambda>m. m\<lparr>mo_system_prompt := p\<rparr>)) i"

definition update_description where
  "update_description now i d = update_entry now (on_manifest (\<lambda>m. m\<lparr>mf_description := d\<rparr>)) i"

definition update_resources where
  "update_resources now i hourly daily monthly tokens =
     update_entry now (on_manifest (\<lambda>m. m\<lparr>mf_resources := (mf_resources m)\<lparr>
       max_cost_per_hour_usd := (case hourly of Some v \<Rightarrow> v | None \<Rightarrow> max_cost_per_hour_usd (mf_resources m)),
       max_cost_per_day_usd := (case daily of Some v \<Rightarrow> v | None \<Rightarrow> max_cost_per_day_usd (mf_resources m)),
       max_cost_per_month_usd := (case monthly of Some v \<Rightarrow> v | None \<Rightarrow> max_cost_per_month_usd (mf_resources m)),
       max_llm_tokens_per_hour := (case tokens of Some v \<Rightarrow> v | None \<Rightarrow> max_llm_tokens_per_hour (mf_resources m))\<rparr>\<rparr>)) i"

definition mark_onboarding_complete where
  "mark_onboarding_complete now i =
     update_entry now (\<lambda>e. e\<lparr>en_onboarding_completed := True, en_onboarding_completed_at := Some now\<rparr>) i"

definition U64_MAX :: nat where "U64_MAX = 2 ^ 64 - 1"

definition record_turn_success where
  "record_turn_success now i latency_ms fallback_note n_in n_out =
     update_entry now (\<lambda>e. e\<lparr>en_turn_stats := (en_turn_stats e)\<lparr>
       last_turn_at := Some now, last_success_at := Some now, last_latency_ms := latency_ms,
       last_fallback_note := fallback_note, last_input_tokens := n_in,
       last_output_tokens := n_out,
       turns_ok := min U64_MAX (turns_ok (en_turn_stats e) + 1)\<rparr>\<rparr>) i"

definition record_turn_failure where
  "record_turn_failure now i summary =
     update_entry now (\<lambda>e. e\<lparr>en_turn_stats := (en_turn_stats e)\<lparr>
       last_turn_at := Some now, last_error_at := Some now, last_error_summary := Some summary,
       turns_err := min U64_MAX (turns_err (en_turn_stats e) + 1)\<rparr>\<rparr>) i"

section \<open>Names and manifests\<close>

text \<open>
  What the file system answers: is there a directory of that agent name, does the path exist,
  and the result of renaming one to the other.
\<close>

record agents_dir =
  dir_is_dir :: "string \<Rightarrow> bool"
  dir_exists :: "string \<Rightarrow> bool"
  dir_rename :: "string \<Rightarrow> string \<Rightarrow> (string, unit) result"

definition right_arrow :: string where
  "right_arrow = [CHR 0xE2, CHR 0x86, CHR 0x92]"

definition rename_dir :: "agents_dir \<Rightarrow> string \<Rightarrow> string \<Rightarrow> (registry_error, unit) result" where
  "rename_dir disk old_name new_name =
     (if dir_is_dir disk old_name then
        (if dir_exists disk new_name
         then Inl (AgentAlreadyExists (''agents/'' @ new_name @ '' already exists on disk''))
         else case dir_rename disk old_name new_name of
                Inl e \<Rightarrow> Inl (ConfigError (''rename agent directory '' @ old_name @ '' '' @ right_arrow @
                  '' '' @ new_name @ '': '' @ e))
              | Inr _ \<Rightarrow> Inr ())
      else Inr ())"

definition update_name ::
  "agents_dir \<Rightarrow> time \<Rightarrow> agent_id \<Rightarrow> string \<Rightarrow> agent_registry
     \<Rightarrow> (registry_error, unit) result \<times> agent_registry" where
  "update_name disk now i new_name reg =
     (case st_get (rg_name_index reg) new_name of
        Some existing_id \<Rightarrow>
          if existing_id \<noteq> i then (Inl (AgentAlreadyExists new_name), reg) else (Inr (), reg)
      | None \<Rightarrow>
          (case st_get (rg_agents reg) i of
             None \<Rightarrow> (Inl (AgentNotFound i), reg)
           | Some entry \<Rightarrow>
               if en_name entry = new_name then (Inr (), reg)
               else case rename_dir disk (en_name entry) new_name of
                 Inl e \<Rightarrow> (Inl e, reg)
               | Inr _ \<Rightarrow>
                   (Inr (), reg\<lparr>
                      rg_agents := st_put i (entry\<lparr>en_name := new_name,
                          en_manifest := (en_manifest entry)\<lparr>mf_name := new_name\<rparr>,
                          en_last_active := now\<rparr>) (rg_agents reg),
                      rg_name_index := st_put new_name i (st_del (en_name entry) (rg_name_index reg))\<rparr>)))"

definition replace_manifest ::
  "time \<Rightarrow> agent_id \<Rightarrow> agent_manifest \<Rightarrow> agent_registry
     \<Rightarrow> (registry_error, unit) result \<times> agent_registry" where
  "replace_manifest now i manifest reg =
     (case st_get (rg_agents reg) i of
        None \<Rightarrow> (Inl (AgentNotFound i), reg)
      | Some entry \<Rightarrow>
          let old_tags = en_tags entry; new_tags = mf_tags manifest
          in (Inr (), reg\<lparr>
                rg_agents := st_put i (entry\<lparr>en_manifest := manifest, en_tags := new_tags,
                    en_last_active := now\<rparr>) (rg_agents reg),
                rg_tag_index := fold (tag_push i) new_tags
                    (fold (tag_retain i) old_tags (rg_tag_index reg))\<rparr>))"

section \<open>The indexes\<close>

definition tagged :: "(string, agent_id list) store \<Rightarrow> string \<Rightarrow> agent_id set" where
  "tagged idx tag = (case st_get idx tag of None \<Rightarrow> {} | Some ids \<Rightarrow> set ids)"

definition names_ok :: "(agent_id \<rightharpoonup> agent_entry) \<Rightarrow> (string \<rightharpoonup> agent_id) \<Rightarrow> bool" where
  "names_ok A N \<longleftrightarrow> (\<forall>n i. N n = Some i \<longleftrightarrow> (\<exists>e. A i = Some e \<and> en_name e = n))"

definition tags_ok :: "(agent_id \<rightharpoonup> agent_entry) \<Rightarrow> (string \<Rightarrow> agent_id set) \<Rightarrow> bool" where
  "tags_ok A T \<longleftrightarrow> (\<forall>t i. i \<in> T t \<longleftrightarrow> (\<exists>e. A i = Some e \<and> t \<in> set (en_tags e)))"

definition reg_wf :: "agent_registry \<Rightarrow> bool" where
  "reg_wf reg \<longleftrightarrow>
     st_wf (rg_agents reg)
     \<and> (\<forall>i e. st_get (rg_agents reg) i = Some e \<longrightarrow> en_id e = i)
     \<and> names_ok (st_get (rg_agents reg)) (st_get (rg_name_index reg))
     \<and> tags_ok (st_get (rg_agents reg)) (tagged (rg_tag_index reg))"

lemma tagged_push: "tagged (tag_push i x idx) t = (if t = x then insert i (tagged idx t) else tagged idx t)"
  by (auto simp: tagged_def tag_push_def al.get_put split: option.splits)

lemma tagged_retain: "tagged (tag_retain i x idx) t = (if t = x then tagged idx t - {i} else tagged idx t)"
  by (auto simp: tagged_def tag_retain_def al.get_put split: option.splits)

lemma tagged_pushes:
  "tagged (fold (tag_push i) xs idx) t = (if t \<in> set xs then insert i (tagged idx t) else tagged idx t)"
  by (induction xs arbitrary: idx) (auto simp: tagged_push)

lemma tagged_retains:
  "tagged (fold (tag_retain i) xs idx) t = (if t \<in> set xs then tagged idx t - {i} else tagged idx t)"
  by (induction xs arbitrary: idx) (auto simp: tagged_retain)

lemmas tagged_simps = tagged_push tagged_retain tagged_pushes tagged_retains

lemma reg_wfI:
  assumes "st_wf (rg_agents reg)" "\<And>i e. st_get (rg_agents reg) i = Some e \<Longrightarrow> en_id e = i"
    and "names_ok (st_get (rg_agents reg)) (st_get (rg_name_index reg))"
    and "tags_ok (st_get (rg_agents reg)) (tagged (rg_tag_index reg))"
  shows "reg_wf reg"
  using assms by (simp add: reg_wf_def)

lemma reg_wfD:
  assumes "reg_wf reg"
  shows "st_wf (rg_agents reg)" "st_get (rg_agents reg) i = Some e \<Longrightarrow> en_id e = i"
    and "names_ok (st_get (rg_agents reg)) (st_get (rg_name_index reg))"
    and "tags_ok (st_get (rg_agents reg)) (tagged (rg_tag_index reg))"
  using assms by (simp_all add: reg_wf_def)

lemma names_ok_put_same:
  "names_ok A N \<Longrightarrow> A i = Some e \<Longrightarrow> en_name e' = en_name e \<Longrightarrow> names_ok (A(i \<mapsto> e')) N"
  by (auto simp: names_ok_def)

lemma tags_ok_put_same:
  "tags_ok A T \<Longrightarrow> A i = Some e \<Longrightarrow> en_tags e' = en_tags e \<Longrightarrow> tags_ok (A(i \<mapsto> e')) T"
  by (auto simp: tags_ok_def)

lemma names_ok_rename:
  assumes "names_ok A N" "A i = Some e" "N new = None" "en_name e' = new"
  shows "names_ok (A(i \<mapsto> e')) ((N(en_name e := None))(new \<mapsto> i))"
  unfolding names_ok_def
proof (intro allI)
  fix n j
  have N: "N m = Some k \<longleftrightarrow> (\<exists>e. A k = Some e \<and> en_name e = m)" for m k
    using assms(1) by (simp add: names_ok_def)
  consider "n = new" | "n \<noteq> new" "j = i" | "n \<noteq> new" "j \<noteq> i" by blast
  then show "((N(en_name e := None))(new \<mapsto> i)) n = Some j \<longleftrightarrow>
      (\<exists>e''. (A(i \<mapsto> e')) j = Some e'' \<and> en_name e'' = n)"
  proof cases
    case 1
    then show ?thesis using assms(3,4) N [of new j] by auto
  next
    case 2
    then show ?thesis using assms(2,4) N [of n i] by auto
  next
    case 3
    then show ?thesis using assms(2) N [of n j] N [of "en_name e" i] by auto
  qed
qed

text \<open>Changing an entry without touching its identity, name and tags keeps the indexes right.\<close>

lemma put_entry_wf:
  assumes "reg_wf reg" "st_get (rg_agents reg) i = Some e"
    and "en_id e' = en_id e" "en_name e' = en_name e" "en_tags e' = en_tags e"
  shows "reg_wf (reg\<lparr>rg_agents := st_put i e' (rg_agents reg)\<rparr>)"
proof (rule reg_wfI)
  show "st_wf (rg_agents (reg\<lparr>rg_agents := st_put i e' (rg_agents reg)\<rparr>))"
    using reg_wfD(1) [OF assms(1)] by (simp add: al.wf_put)
  show "en_id e'' = j"
    if "st_get (rg_agents (reg\<lparr>rg_agents := st_put i e' (rg_agents reg)\<rparr>)) j = Some e''" for j e''
    using that reg_wfD(2) [OF assms(1)] assms(2,3) by (auto simp: al.get_put split: if_splits)
  show "names_ok (st_get (rg_agents (reg\<lparr>rg_agents := st_put i e' (rg_agents reg)\<rparr>)))
      (st_get (rg_name_index (reg\<lparr>rg_agents := st_put i e' (rg_agents reg)\<rparr>)))"
    using names_ok_put_same [OF reg_wfD(3) [OF assms(1)] assms(2,4)] by (simp add: update_conv')
  show "tags_ok (st_get (rg_agents (reg\<lparr>rg_agents := st_put i e' (rg_agents reg)\<rparr>)))
      (tagged (rg_tag_index (reg\<lparr>rg_agents := st_put i e' (rg_agents reg)\<rparr>)))"
    using tags_ok_put_same [OF reg_wfD(4) [OF assms(1)] assms(2,5)] by (simp add: update_conv')
qed

lemma with_agent_home_wf [inv_intros]: "reg_wf (with_agent_home home)"
  by (simp add: reg_wf_def with_agent_home_def st_wf_def names_ok_def tags_ok_def tagged_def)

lemma register_wf [inv_intros]:
  assumes "reg_wf reg" "rg_get (en_id e) reg = None"
  shows "reg_wf (snd (rg_register e reg))"
proof (cases "st_get (rg_name_index reg) (en_name e)")
  case (Some j)
  then show ?thesis using assms(1) by (simp add: rg_register_def)
next
  case None
  have A: "st_get (rg_agents reg) (en_id e) = None" using assms(2) by (simp add: rg_get_def)
  have N: "\<nexists>j e'. st_get (rg_agents reg) j = Some e' \<and> en_name e' = en_name e"
    using reg_wfD(3) [OF assms(1)] None by (metis names_ok_def option.distinct(1))
  show ?thesis
  proof (rule reg_wfI)
    show "st_wf (rg_agents (snd (rg_register e reg)))"
      using None reg_wfD(1) [OF assms(1)] by (simp add: rg_register_def al.wf_put Let_def)
    show "en_id e' = j" if "st_get (rg_agents (snd (rg_register e reg))) j = Some e'" for j e'
      using None that reg_wfD(2) [OF assms(1)]
      by (auto simp: rg_register_def Let_def al.get_put split: if_splits)
    show "names_ok (st_get (rg_agents (snd (rg_register e reg))))
        (st_get (rg_name_index (snd (rg_register e reg))))"
      using None N A reg_wfD(3) [OF assms(1)]
      by (auto simp: rg_register_def Let_def names_ok_def al.get_put)
    show "tags_ok (st_get (rg_agents (snd (rg_register e reg))))
        (tagged (rg_tag_index (snd (rg_register e reg))))"
      using None A reg_wfD(4) [OF assms(1)]
      by (auto simp: rg_register_def Let_def tags_ok_def al.get_put tagged_simps)
  qed
qed

lemma remove_wf [inv_intros]:
  assumes "reg_wf reg"
  shows "reg_wf (snd (rg_remove i reg))"
proof (cases "st_get (rg_agents reg) i")
  case None
  then show ?thesis using assms by (simp add: rg_remove_def)
next
  case (Some e)
  note wf = reg_wfD [OF assms]
  show ?thesis
  proof (rule reg_wfI)
    show "st_wf (rg_agents (snd (rg_remove i reg)))"
      using Some wf(1) by (simp add: rg_remove_def al.wf_del)
    show "en_id e' = j" if "st_get (rg_agents (snd (rg_remove i reg))) j = Some e'" for j e'
      using Some that wf(2) by (auto simp: rg_remove_def al.get_del split: if_splits)
    show "names_ok (st_get (rg_agents (snd (rg_remove i reg))))
        (st_get (rg_name_index (snd (rg_remove i reg))))"
      using Some wf(3) by (auto simp: rg_remove_def names_ok_def al.get_del) (metis option.inject)+
    show "tags_ok (st_get (rg_agents (snd (rg_remove i reg))))
        (tagged (rg_tag_index (snd (rg_remove i reg))))"
      using Some wf(4) by (auto simp: rg_remove_def tags_ok_def al.get_del tagged_simps)
  qed
qed

lemma update_entry_wf [inv_intros]:
  assumes "reg_wf reg"
    and "\<And>e. en_id (f e) = en_id e \<and> en_name (f e) = en_name e \<and> en_tags (f e) = en_tags e"
  shows "reg_wf (snd (update_entry now f i reg))"
  using assms put_entry_wf [OF assms(1), of i] by (simp add: update_entry_def split: option.splits)

lemma add_child_wf [inv_intros]: "reg_wf reg \<Longrightarrow> reg_wf (rg_add_child p c reg)"
  by (auto simp: rg_add_child_def intro: put_entry_wf split: option.splits)

lemma update_name_wf [inv_intros]:
  assumes "reg_wf reg"
  shows "reg_wf (snd (update_name disk now i new_name reg))"
proof (cases "fst (update_name disk now i new_name reg) = Inr ()
    \<and> snd (update_name disk now i new_name reg) \<noteq> reg")
  case False
  then have "snd (update_name disk now i new_name reg) = reg"
    by (auto simp: update_name_def split: option.splits sum.splits if_splits)
  then show ?thesis using assms by simp
next
  case True
  then obtain e where e: "st_get (rg_agents reg) i = Some e"
    and free: "st_get (rg_name_index reg) new_name = None"
    and new: "snd (update_name disk now i new_name reg) = reg\<lparr>
        rg_agents := st_put i (e\<lparr>en_name := new_name,
            en_manifest := (en_manifest e)\<lparr>mf_name := new_name\<rparr>, en_last_active := now\<rparr>) (rg_agents reg),
        rg_name_index := st_put new_name i (st_del (en_name e) (rg_name_index reg))\<rparr>"
    by (auto simp: update_name_def split: option.splits sum.splits if_splits)
  note wf = reg_wfD [OF assms]
  show ?thesis unfolding new
  proof (rule reg_wfI, goal_cases)
    case 1
    then show ?case by (simp add: al.wf_put wf(1))
  next
    case (2 j e')
    then show ?case using wf(2) e by (auto simp: al.get_put split: if_splits)
  next
    case 3
    show ?case using names_ok_rename [OF wf(3) e free]
      by (simp add: update_conv' delete_conv')
  next
    case 4
    then show ?case using wf(4) e unfolding tags_ok_def by (auto simp: al.get_put)
  qed
qed

lemma replace_manifest_wf [inv_intros]:
  assumes "reg_wf reg"
  shows "reg_wf (snd (replace_manifest now i manifest reg))"
proof (cases "st_get (rg_agents reg) i")
  case None
  then show ?thesis using assms by (simp add: replace_manifest_def)
next
  case (Some e)
  note wf = reg_wfD [OF assms]
  show ?thesis
  proof (rule reg_wfI)
    show "st_wf (rg_agents (snd (replace_manifest now i manifest reg)))"
      using Some wf(1) by (simp add: replace_manifest_def al.wf_put Let_def)
    show "en_id e' = j" if "st_get (rg_agents (snd (replace_manifest now i manifest reg))) j = Some e'" for j e'
      using Some that wf(2) by (auto simp: replace_manifest_def Let_def al.get_put split: if_splits)
    show "names_ok (st_get (rg_agents (snd (replace_manifest now i manifest reg))))
        (st_get (rg_name_index (snd (replace_manifest now i manifest reg))))"
      using Some wf(3) by (auto simp: replace_manifest_def Let_def names_ok_def al.get_put)
    show "tags_ok (st_get (rg_agents (snd (replace_manifest now i manifest reg))))
        (tagged (rg_tag_index (snd (replace_manifest now i manifest reg))))"
      using Some wf(4) by (auto simp: replace_manifest_def Let_def tags_ok_def al.get_put tagged_simps)
  qed
qed

section \<open>The spawn tree\<close>

definition child_rel :: "agent_registry \<Rightarrow> (agent_id \<times> agent_id) set" where
  "child_rel reg = {(p, c). \<exists>e. rg_get p reg = Some e \<and> c \<in> set (en_children e)}"

text \<open>A walk down the spawn tree of a given length.\<close>

inductive down_path :: "agent_registry \<Rightarrow> agent_id \<Rightarrow> nat \<Rightarrow> bool" for reg where
  here: "down_path reg i 0"
| child: "rg_get i reg = Some e \<Longrightarrow> c \<in> set (en_children e) \<Longrightarrow> down_path reg c n \<Longrightarrow>
    down_path reg i (Suc n)"

inductive_cases down_path_SucE: "down_path reg i (Suc n)"

definition below :: "agent_registry \<Rightarrow> agent_id \<Rightarrow> agent_id set" where
  "below reg i = {j. (i, j) \<in> (child_rel reg)\<^sup>* \<and> rg_get j reg \<noteq> None}"

lemma finite_agents: "finite {j. rg_get j reg \<noteq> None}"
proof -
  have "{j. rg_get j reg \<noteq> None} = dom (st_get (rg_agents reg))" by (auto simp: rg_get_def)
  then show ?thesis by (simp add: finite_dom_map_of)
qed

lemma card_agents: "card {j. rg_get j reg \<noteq> None} \<le> rg_count reg"
proof -
  have "{j. rg_get j reg \<noteq> None} = dom (st_get (rg_agents reg))" by (auto simp: rg_get_def)
  then have "{j. rg_get j reg \<noteq> None} = set (map fst (rg_agents reg))"
    by (simp add: dom_map_of_conv_image_fst)
  then show ?thesis unfolding rg_count_def by (metis card_length length_map)
qed

lemma finite_below: "finite (below reg i)"
  by (rule finite_subset [OF _ finite_agents [of reg]]) (auto simp: below_def)

lemma card_below: "card (below reg i) \<le> rg_count reg"
  using card_agents [of reg] card_mono [OF finite_agents [of reg], of "below reg i"]
  by (auto simp: below_def intro: le_trans)

lemma below_child:
  assumes "acyclic (child_rel reg)" "rg_get i reg = Some e" "c \<in> set (en_children e)"
  shows "card (below reg c) < card (below reg i)"
proof (rule psubset_card_mono [OF finite_below])
  have ic: "(i, c) \<in> child_rel reg" using assms(2,3) by (auto simp: child_rel_def)
  then have "below reg c \<subseteq> below reg i" by (auto simp: below_def intro: converse_rtrancl_into_rtrancl)
  moreover have "i \<in> below reg i" using assms(2) by (simp add: below_def)
  moreover have "i \<notin> below reg c"
    using ic assms(1) by (auto simp: below_def acyclic_def intro: rtrancl_into_trancl2)
  ultimately show "below reg c \<subset> below reg i" by blast
qed

lemma max_or_zero_Max: "max_or_zero xs = Max (insert 0 (set xs))"
  unfolding max_or_zero_def Max.set_eq_fold [symmetric] by simp

lemma max_or_zero_ge: "x \<in> set xs \<Longrightarrow> x \<le> max_or_zero xs"
  by (simp add: max_or_zero_Max)

lemma max_or_zero_in: "xs \<noteq> [] \<Longrightarrow> max_or_zero xs \<in> set xs"
  using Max_in [of "set xs"] by (simp add: max_or_zero_Max max_def)

lemma plus_one_fun: "(+) (Suc 0) = Suc"
  by (rule ext) simp

lemma those_map_Some:
  "(\<And>x. x \<in> set xs \<Longrightarrow> \<exists>y. f x = Some y \<and> P x y) \<Longrightarrow>
     \<exists>ys. those (map f xs) = Some ys \<and> list_all2 P xs ys"
proof (induction xs)
  case (Cons x xs)
  then obtain y ys where "f x = Some y" "P x y" "those (map f xs) = Some ys" "list_all2 P xs ys"
    by (meson list.set_intros)
  then show ?case by simp
qed simp

lemma list_all2_right: "list_all2 P xs ys \<Longrightarrow> y \<in> set ys \<Longrightarrow> \<exists>x\<in>set xs. P x y"
  by (induction rule: list_all2_induct) auto

lemma list_all2_left: "list_all2 P xs ys \<Longrightarrow> x \<in> set xs \<Longrightarrow> \<exists>y\<in>set ys. P x y"
  by (induction rule: list_all2_induct) auto

text \<open>The longest walk, for every amount of fuel above the number of agents below.\<close>

lemma subtree_height_longest:
  assumes "acyclic (child_rel reg)" "card (below reg i) \<le> n"
  shows "\<exists>h. spawn_subtree_height (Suc n) reg i = Some h \<and> down_path reg i h
    \<and> (\<forall>m. down_path reg i m \<longrightarrow> m \<le> h)"
  using assms(2)
proof (induction n arbitrary: i)
  case 0
  then have "rg_get i reg = None" using finite_below [of reg i] by (auto simp: below_def)
  then show ?case by (auto intro: down_path.here elim: down_path.cases)
next
  case (Suc n)
  show ?case
  proof (cases "rg_get i reg")
    case None
    then show ?thesis by (auto intro: down_path.here elim: down_path.cases)
  next
    case (Some e)
    let ?P = "\<lambda>c h. down_path reg c h \<and> (\<forall>m. down_path reg c m \<longrightarrow> m \<le> h)"
    have "\<exists>h. spawn_subtree_height (Suc n) reg c = Some h \<and> ?P c h" if "c \<in> set (en_children e)" for c
      using Suc.IH [of c] Suc.prems below_child [OF assms(1) Some that] by simp
    then obtain hs where hs: "those (map (spawn_subtree_height (Suc n) reg) (en_children e)) = Some hs"
      "list_all2 ?P (en_children e) hs"
      using those_map_Some [of "en_children e" "spawn_subtree_height (Suc n) reg" ?P] by blast
    show ?thesis
    proof (cases "en_children e = []")
      case True
      then show ?thesis using Some by (auto intro: down_path.here elim: down_path.cases)
    next
      case False
      let ?h = "max_or_zero (map Suc hs)"
      have eq: "spawn_subtree_height (Suc (Suc n)) reg i = Some ?h"
        using Some False hs(1) by (simp add: plus_one_fun)
      have "hs \<noteq> []" using False hs(2) by auto
      then have "?h \<in> Suc ` set hs" using max_or_zero_in [of "map Suc hs"] by simp
      then obtain h' where h': "h' \<in> set hs" "?h = Suc h'" by blast
      then obtain c where "c \<in> set (en_children e)" "?P c h'"
        using list_all2_right [OF hs(2)] by blast
      then have "down_path reg i ?h" using Some h'(2) by (metis down_path.child)
      moreover have "m \<le> ?h" if "down_path reg i m" for m
      proof (cases m)
        case (Suc m')
        with that obtain c where c: "c \<in> set (en_children e)" "down_path reg c m'"
          using Some by (auto elim: down_path_SucE)
        then obtain h'' where "h'' \<in> set hs" "m' \<le> h''"
          using list_all2_left [OF hs(2)] by blast
        then show ?thesis using Suc max_or_zero_ge [of "Suc h''" "map Suc hs"] by auto
      qed simp
      ultimately show ?thesis using eq by blast
    qed
  qed
qed

section \<open>Reachable registries\<close>

text \<open>An identifier no entry knows: what a fresh UUID is.\<close>

definition unknown_id :: "agent_registry \<Rightarrow> agent_id \<Rightarrow> bool" where
  "unknown_id reg i \<longleftrightarrow> rg_get i reg = None \<and> i \<notin> Range (child_rel reg)"

text \<open>An update that keeps the identity, the name, the tags and the children of an entry.\<close>

definition keeps_links :: "(agent_entry \<Rightarrow> agent_entry) \<Rightarrow> bool" where
  "keeps_links f \<longleftrightarrow> (\<forall>e. en_id (f e) = en_id e \<and> en_name (f e) = en_name e
     \<and> en_tags (f e) = en_tags e \<and> en_children (f e) = en_children e)"

text \<open>
  Operations run one after the other. A spawn takes a fresh identifier, or for a hand, without a parent, a
  fixed one that no agent has at the moment. A new kernel starts from entries that were persisted: no
  identifier occurs twice among them, and their children are children in the registry of the run before.
\<close>

definition persisted_from :: "agent_registry \<Rightarrow> agent_entry list \<Rightarrow> bool" where
  "persisted_from reg entries \<longleftrightarrow>
     distinct (map en_id entries)
     \<and> (\<forall>e \<in> set entries. \<forall>c \<in> set (en_children e). (en_id e, c) \<in> child_rel reg)"

inductive reg_reachable :: "agent_registry \<Rightarrow> bool" where
  start: "reg_reachable (with_agent_home home)"
| spawned: "reg_reachable reg \<Longrightarrow> unknown_id reg i \<Longrightarrow>
    spawn_agent_with_parent n now session i manifest parent reg = Some (r, reg') \<Longrightarrow> reg_reachable reg'"
| spawned_fixed: "reg_reachable reg \<Longrightarrow> rg_get i reg = None \<Longrightarrow>
    spawn_agent_with_parent n now session i manifest None reg = Some (r, reg') \<Longrightarrow> reg_reachable reg'"
| restored: "reg_reachable reg \<Longrightarrow> persisted_from reg entries \<Longrightarrow> reg_reachable (restore_agents home entries)"
| removed: "reg_reachable reg \<Longrightarrow> reg_reachable (snd (rg_remove i reg))"
| updated: "reg_reachable reg \<Longrightarrow> keeps_links f \<Longrightarrow> reg_reachable (snd (update_entry now f i reg))"
| renamed: "reg_reachable reg \<Longrightarrow> reg_reachable (snd (update_name disk now i new_name reg))"
| replaced: "reg_reachable reg \<Longrightarrow> reg_reachable (snd (replace_manifest now i manifest reg))"

text \<open>Every single-entry update of the registry is such an update.\<close>

lemma keeps_links_updates [simp]:
  "keeps_links (\<lambda>e. e)" "keeps_links (\<lambda>e. e\<lparr>en_state := st\<rparr>)" "keeps_links (\<lambda>e. e\<lparr>en_mode := m\<rparr>)"
  "keeps_links (\<lambda>e. e\<lparr>en_session_id := sid\<rparr>)" "keeps_links (\<lambda>e. e\<lparr>en_identity := ident\<rparr>)"
  "keeps_links (on_manifest g)" "keeps_links (on_model h)"
  "keeps_links (\<lambda>e. e\<lparr>en_onboarding_completed := b, en_onboarding_completed_at := at'\<rparr>)"
  "keeps_links (\<lambda>e. e\<lparr>en_turn_stats := ts e\<rparr>)"
  by (simp_all add: keeps_links_def on_manifest_def on_model_def)

lemma quota_parent_registered:
  "spawn_quota_check n reg (Some p) = Some (Inr u) \<Longrightarrow> rg_get p reg \<noteq> None"
  by (auto simp: spawn_quota_check_def split: option.splits)

lemma spawn_cases:
  assumes "spawn_agent_with_parent n now session i manifest parent reg = Some (r, reg')"
  obtains (refused) err where "reg' = reg" "r = Inl err"
  | (entered) "r = Inr i" "spawn_quota_check n reg parent = Some (Inr ())"
    "fst (rg_register (spawned_entry now session i manifest parent) reg) = Inr ()"
    "reg' = (case parent of
        Some p \<Rightarrow> rg_add_child p i (snd (rg_register (spawned_entry now session i manifest parent) reg))
      | None \<Rightarrow> snd (rg_register (spawned_entry now session i manifest parent) reg))"
proof (cases "spawn_quota_check n reg parent")
  case None
  then show thesis using assms by (simp add: spawn_agent_with_parent_def)
next
  case (Some q)
  obtain x reg1 where reg1: "rg_register (spawned_entry now session i manifest parent) reg = (x, reg1)"
    by fastforce
  have same: "x = Inl err \<Longrightarrow> reg1 = reg" for err
    using reg1 by (auto simp: rg_register_def Let_def split: if_splits)
  show thesis
    using assms Some reg1 same refused entered
    by (cases q; cases x) (auto simp: spawn_agent_with_parent_def split: option.splits)
qed

lemma spawn_wf [inv_intros]:
  assumes "reg_wf reg" "rg_get i reg = None"
    and "spawn_agent_with_parent n now session i manifest parent reg = Some (r, reg')"
  shows "reg_wf reg'"
proof -
  have "reg_wf (snd (rg_register (spawned_entry now session i manifest parent) reg))"
    using assms(1,2) by (intro register_wf) (auto simp: spawned_entry_def)
  from assms(3) this assms(1) show ?thesis
    by (cases rule: spawn_cases) (auto simp: add_child_wf split: option.splits)
qed

lemma register_get:
  "rg_get j (snd (rg_register x reg)) = Some e \<Longrightarrow> rg_get j reg = Some e \<or> j = en_id x \<and> e = x"
  by (auto simp: rg_get_def rg_register_def Let_def update_conv' split: if_splits)

lemma restore_wf:
  assumes "distinct (map en_id entries)"
  shows "reg_wf (restore_agents home entries)"
    and "rg_get j (restore_agents home entries) = Some e \<Longrightarrow> e \<in> set entries \<and> en_id e = j"
proof -
  have *: "reg_wf (fold (\<lambda>entry reg. snd (rg_register entry reg)) es reg)
      \<and> (\<forall>j e. rg_get j (fold (\<lambda>entry reg. snd (rg_register entry reg)) es reg) = Some e
           \<longrightarrow> rg_get j reg = Some e \<or> e \<in> set es \<and> en_id e = j)"
    if "reg_wf reg" "distinct (map en_id es)" "\<forall>e \<in> set es. rg_get (en_id e) reg = None" for es reg
    using that
  proof (induction es arbitrary: reg)
    case (Cons x es)
    let ?reg1 = "snd (rg_register x reg)"
    have wf: "reg_wf ?reg1" using Cons.prems by (intro register_wf) auto
    have free: "\<forall>e \<in> set es. rg_get (en_id e) ?reg1 = None"
    proof
      fix e assume e: "e \<in> set es"
      show "rg_get (en_id e) ?reg1 = None"
      proof (rule ccontr)
        assume "rg_get (en_id e) ?reg1 \<noteq> None"
        then obtain y where "rg_get (en_id e) ?reg1 = Some y" by blast
        moreover have "en_id e \<noteq> en_id x" using Cons.prems(2) e by (force simp: image_iff)
        ultimately show False using register_get [of "en_id e" x reg y] Cons.prems(3) e by auto
      qed
    qed
    have dist: "distinct (map en_id es)" using Cons.prems(2) by simp
    show ?case
      using Cons.IH [OF wf dist free] register_get [of _ x reg] by fastforce
  qed simp
  have empty: "rg_get i (with_agent_home home) = None" for i by (simp add: rg_get_def with_agent_home_def)
  show "reg_wf (restore_agents home entries)"
    using * [OF with_agent_home_wf assms] empty by (simp add: restore_agents_def)
  show "rg_get j (restore_agents home entries) = Some e \<Longrightarrow> e \<in> set entries \<and> en_id e = j"
    using * [OF with_agent_home_wf assms] empty by (fastforce simp: restore_agents_def)
qed

lemma restore_child_rel: "persisted_from reg entries \<Longrightarrow> child_rel (restore_agents home entries) \<subseteq> child_rel reg"
  using restore_wf(2) unfolding child_rel_def [of "restore_agents home entries"] persisted_from_def by fastforce

lemma reg_reachable_wf: "reg_reachable reg \<Longrightarrow> reg_wf reg"
proof (induction rule: reg_reachable.induct)
  case (spawned reg i n now session manifest parent r reg')
  then show ?case by (intro spawn_wf [OF _ _ spawned(3)]) (auto simp: unknown_id_def)
next
  case (restored reg entries home)
  then show ?case by (simp add: persisted_from_def restore_wf(1))
next
  case (updated reg f now i)
  then show ?case by (intro update_entry_wf) (auto simp: keeps_links_def)
qed (auto intro: inv_intros)

lemma child_rel_update_entry: "keeps_links f \<Longrightarrow> child_rel (snd (update_entry now f i reg)) = child_rel reg"
  by (auto simp: update_entry_def keeps_links_def child_rel_def rg_get_def al.get_put
      split: option.splits if_splits)

lemma child_rel_update_name: "child_rel (snd (update_name disk now i new_name reg)) = child_rel reg"
  by (auto simp: update_name_def child_rel_def rg_get_def al.get_put
      split: option.splits sum.splits if_splits)

lemma child_rel_replace: "child_rel (snd (replace_manifest now i m reg)) = child_rel reg"
  by (auto simp: replace_manifest_def Let_def child_rel_def rg_get_def al.get_put
      split: option.splits if_splits)

lemma child_rel_remove: "child_rel (snd (rg_remove i reg)) \<subseteq> child_rel reg"
  by (auto simp: child_rel_def rg_remove_def rg_get_def al.get_del split: option.splits if_splits)

lemma child_rel_spawn:
  assumes "unknown_id reg i" "spawn_agent_with_parent n now session i manifest parent reg = Some (r, reg')"
  shows "child_rel reg' \<subseteq> child_rel reg \<union> {(p, i) |p. p \<noteq> i} \<and> i \<notin> Domain (child_rel reg)"
proof -
  have i: "rg_get i reg = None" using assms(1) by (simp add: unknown_id_def)
  let ?reg1 = "snd (rg_register (spawned_entry now session i manifest parent) reg)"
  have reg1: "child_rel ?reg1 \<subseteq> child_rel reg"
    using i by (auto simp: child_rel_def rg_get_def rg_register_def spawned_entry_def Let_def
        al.get_put split: if_splits)
  have add: "child_rel (rg_add_child p i ?reg1) \<subseteq> child_rel ?reg1 \<union> {(p, i)}" for p
    by (auto simp: child_rel_def rg_get_def rg_add_child_def al.get_put split: option.splits if_splits)
  have "i \<notin> Domain (child_rel reg)" using i by (auto simp: child_rel_def)
  moreover from assms(2) have "child_rel reg' \<subseteq> child_rel reg \<union> {(p, i) |p. p \<noteq> i}"
  proof (cases rule: spawn_cases)
    case entered
    show ?thesis
    proof (cases parent)
      case None
      then show ?thesis using entered(4) reg1 by auto
    next
      case (Some p)
      then have "p \<noteq> i" using entered(2) quota_parent_registered i by blast
      then show ?thesis using Some entered(4) reg1 add [of p] by auto
    qed
  qed auto
  ultimately show ?thesis by blast
qed

lemma child_rel_spawn_fixed:
  assumes "spawn_agent_with_parent n now session i manifest None reg = Some (r, reg')"
  shows "child_rel reg' \<subseteq> child_rel reg"
  using assms
  by (cases rule: spawn_cases)
     (auto simp: child_rel_def rg_get_def rg_register_def spawned_entry_def Let_def al.get_put split: if_splits)

lemma acyclic_fresh_leaf:
  assumes "acyclic r" "i \<notin> Domain r" "s \<subseteq> r \<union> {(p, i) |p. p \<noteq> i}"
  shows "acyclic s"
proof (rule acyclicI, intro allI notI)
  have out: "(i, y) \<notin> s" for y using assms(2,3) by auto
  have into: "(a, b) \<in> s \<Longrightarrow> b \<noteq> i \<Longrightarrow> (a, b) \<in> r" for a b using assms(3) by auto
  have step: "(a, b) \<in> s\<^sup>+ \<Longrightarrow> b \<noteq> i \<longrightarrow> (a, b) \<in> r\<^sup>+" for a b
  proof (induction rule: trancl.induct)
    case (r_into_trancl a b)
    then show ?case using into by blast
  next
    case (trancl_into_trancl a b c)
    then have "b \<noteq> i" using out by blast
    then show ?case using trancl_into_trancl into by (meson trancl.trancl_into_trancl)
  qed
  fix x assume "(x, x) \<in> s\<^sup>+"
  moreover from this have "x \<noteq> i" using out by (metis tranclD)
  ultimately show False using step assms(1) by (auto simp: acyclic_def)
qed

lemma reg_reachable_acyclic: "reg_reachable reg \<Longrightarrow> acyclic (child_rel reg)"
proof (induction rule: reg_reachable.induct)
  case (start home)
  then show ?case by (simp add: child_rel_def rg_get_def with_agent_home_def acyclic_def)
next
  case (spawned reg i n now session manifest parent r reg')
  then show ?case using child_rel_spawn [OF spawned(2,3)] acyclic_fresh_leaf [OF spawned(4), of i]
    by blast
next
  case (spawned_fixed reg i n now session manifest r reg')
  show ?case using spawned_fixed(4) child_rel_spawn_fixed [OF spawned_fixed(3)] by (rule acyclic_subset)
next
  case (restored reg entries home)
  show ?case using restored(3) restore_child_rel [OF restored(2)] by (rule acyclic_subset)
next
  case (removed reg i)
  show ?case using removed(2) child_rel_remove by (rule acyclic_subset)
qed (simp_all add: child_rel_update_entry child_rel_update_name child_rel_replace)

section \<open>The directory interface\<close>

text \<open>
  What the kernel relies on when it addresses agents by name: the lookup by name finds exactly
  the entries of the directory, so a name denotes at most one agent.
\<close>

locale agent_directory =
  fixes entry_of :: "'i \<Rightarrow> 's \<Rightarrow> 'e option"
    and by_name :: "'n \<Rightarrow> 's \<Rightarrow> 'e option"
    and name_of :: "'e \<Rightarrow> 'n"
    and ok :: "'s \<Rightarrow> bool"
  assumes by_name_iff: "ok s \<Longrightarrow> by_name n s = Some e \<longleftrightarrow> (\<exists>i. entry_of i s = Some e \<and> name_of e = n)"
begin

lemma name_unique:
  "ok s \<Longrightarrow> entry_of i s = Some e \<Longrightarrow> entry_of j s = Some e' \<Longrightarrow> name_of e = name_of e' \<Longrightarrow> e = e'"
  by (metis by_name_iff option.inject)

lemma by_name_None: "ok s \<Longrightarrow> by_name n s = None \<longleftrightarrow> (\<forall>i e. entry_of i s = Some e \<longrightarrow> name_of e \<noteq> n)"
  by (metis by_name_iff not_None_eq)

end

lemma find_by_name_iff:
  assumes "reg_wf reg"
  shows "rg_find_by_name n reg = Some e \<longleftrightarrow> (\<exists>i. rg_get i reg = Some e \<and> en_name e = n)"
proof -
  have N: "st_get (rg_name_index reg) n = Some i \<longleftrightarrow> (\<exists>e. st_get (rg_agents reg) i = Some e \<and> en_name e = n)" for i
    using reg_wfD(3) [OF assms] by (simp add: names_ok_def)
  show ?thesis
    unfolding rg_find_by_name_def rg_get_def bind_eq_Some_conv N by (metis option.inject)
qed

interpretation dir: agent_directory rg_get rg_find_by_name en_name reg_wf
  by unfold_locales (rule find_by_name_iff)

lemma register_ok_iff:
  "fst (rg_register x reg) = Inr () \<longleftrightarrow> st_get (rg_name_index reg) (en_name x) = None"
  by (simp add: rg_register_def Let_def)

lemma name_free_iff:
  "reg_wf reg \<Longrightarrow> st_get (rg_name_index reg) n = None \<longleftrightarrow> rg_find_by_name n reg = None"
  using reg_wfD(3) [of reg] unfolding names_ok_def rg_find_by_name_def
  by (metis bind.bind_lunit bind.bind_lzero option.distinct(1) option.exhaust)

section \<open>Properties\<close>

text \<open>
  C8. The registry with its three indexes refines a plain map from identifiers to entries, in
  every registry that operations reach which run one after the other and register no identifier while
  an agent has it: spawns with fresh identifiers, spawns of hands with their fixed ones, the restoring of
  persisted agents by a new kernel, removals, renamings and updates. In such a registry the lookup by name
  returns exactly the entry of that name, a registration succeeds exactly when no entry has the name and then
  adds the entry to the map, a removal deletes the entry from the map and frees its name, and the tag index
  lists exactly the agents that carry the tag. (The lemmas after the witness show what happens otherwise.)
\<close>

theorem registry_refines_map:
  assumes "reg_reachable reg"
  shows "(rg_find_by_name n reg = Some e \<longleftrightarrow> (\<exists>i. rg_get i reg = Some e \<and> en_name e = n))
    \<and> (fst (rg_register x reg) = Inr () \<longleftrightarrow> (\<forall>i e. rg_get i reg = Some e \<longrightarrow> en_name e \<noteq> en_name x))
    \<and> (\<lambda>j. rg_get j (snd (rg_register x reg))) =
        (if fst (rg_register x reg) = Inr () then (\<lambda>j. rg_get j reg)(en_id x \<mapsto> x) else (\<lambda>j. rg_get j reg))
    \<and> (\<lambda>j. rg_get j (snd (rg_remove i reg))) = (\<lambda>j. rg_get j reg)(i := None)
    \<and> (rg_get i reg = Some e \<longrightarrow> rg_find_by_name (en_name e) (snd (rg_remove i reg)) = None)
    \<and> (i \<in> tagged (rg_tag_index reg) t \<longleftrightarrow> (\<exists>e. rg_get i reg = Some e \<and> t \<in> set (en_tags e)))"
proof (intro conjI)
  note wf = reg_reachable_wf [OF assms]
  show "rg_find_by_name n reg = Some e \<longleftrightarrow> (\<exists>i. rg_get i reg = Some e \<and> en_name e = n)"
    by (rule dir.by_name_iff [OF wf])
  show "fst (rg_register x reg) = Inr () \<longleftrightarrow> (\<forall>i e. rg_get i reg = Some e \<longrightarrow> en_name e \<noteq> en_name x)"
    by (simp add: register_ok_iff name_free_iff [OF wf] dir.by_name_None [OF wf])
  show "(\<lambda>j. rg_get j (snd (rg_register x reg))) =
      (if fst (rg_register x reg) = Inr () then (\<lambda>j. rg_get j reg)(en_id x \<mapsto> x) else (\<lambda>j. rg_get j reg))"
    by (auto simp: rg_get_def rg_register_def Let_def update_conv')
  show "(\<lambda>j. rg_get j (snd (rg_remove i reg))) = (\<lambda>j. rg_get j reg)(i := None)"
    by (auto simp: rg_get_def rg_remove_def delete_conv' fun_eq_iff split: option.splits)
  show "rg_get i reg = Some e \<longrightarrow> rg_find_by_name (en_name e) (snd (rg_remove i reg)) = None"
    by (auto simp: rg_get_def rg_remove_def rg_find_by_name_def al.get_del)
  show "i \<in> tagged (rg_tag_index reg) t \<longleftrightarrow> (\<exists>e. rg_get i reg = Some e \<and> t \<in> set (en_tags e))"
    using reg_wfD(4) [OF wf] by (simp add: tags_ok_def rg_get_def)
qed

text \<open>A line of agents, each spawned by the one before, all with a depth limit of one.\<close>

definition line_manifest :: "nat \<Rightarrow> agent_manifest" where
  "line_manifest k = agent_manifest_default\<lparr>mf_name := replicate k (CHR ''a''),
     mf_resources := resource_quota_default\<lparr>max_spawn_depth := 1\<rparr>\<rparr>"

definition line_entry :: "nat \<Rightarrow> nat \<Rightarrow> agent_entry" where
  "line_entry k i =
     (spawned_entry 0 0 i (line_manifest i) (if i = 0 then None else Some (i - 1)))
       \<lparr>en_children := (if i < k then [Suc i] else [])\<rparr>"

definition is_line :: "nat \<Rightarrow> agent_registry \<Rightarrow> bool" where
  "is_line k reg \<longleftrightarrow> (\<forall>i. rg_get i reg = (if i \<le> k then Some (line_entry k i) else None))"

lemma line_entry_simps [simp]:
  "en_name (line_entry k i) = replicate i (CHR ''a'')" "en_manifest (line_entry k i) = line_manifest i"
  "en_children (line_entry k i) = (if i < k then [Suc i] else [])"
  by (simp_all add: line_entry_def spawned_entry_def line_manifest_def)

lemma line_unknown: "is_line k reg \<Longrightarrow> unknown_id reg (Suc k)"
  by (auto simp: unknown_id_def child_rel_def is_line_def split: if_splits)

lemma line_limits [simp]:
  "max_subagents (mf_resources (line_manifest k)) = 0" "max_spawn_depth (mf_resources (line_manifest k)) = 1"
  "mf_name (line_manifest k) = replicate k (CHR ''a'')"
  by (simp_all add: line_manifest_def resource_quota_default_def)

lemma line_start:
  "\<exists>reg. reg_reachable reg \<and> is_line 0 reg"
proof -
  let ?e = "spawned_entry 0 0 0 (line_manifest 0) None"
  let ?reg = "snd (rg_register ?e (with_agent_home []))"
  have "spawn_agent_with_parent 0 0 0 0 (line_manifest 0) None (with_agent_home []) = Some (Inr 0, ?reg)"
    by (simp add: spawn_agent_with_parent_def spawn_quota_check_def rg_register_def with_agent_home_def Let_def)
  moreover have "unknown_id (with_agent_home []) 0"
    by (auto simp: unknown_id_def rg_get_def child_rel_def with_agent_home_def)
  ultimately have "reg_reachable ?reg" using reg_reachable.spawned [OF reg_reachable.start] by blast
  moreover have "is_line 0 ?reg"
    by (auto simp: is_line_def rg_get_def rg_register_def with_agent_home_def spawned_entry_def
        line_entry_def Let_def)
  ultimately show ?thesis by blast
qed

lemma line_step:
  assumes "reg_reachable reg" "is_line k reg"
  shows "\<exists>reg'. reg_reachable reg' \<and> is_line (Suc k) reg'"
proof -
  note line = assms(2) [unfolded is_line_def, rule_format]
  note wf = reg_reachable_wf [OF assms(1)]
  let ?x = "spawned_entry 0 0 (Suc k) (line_manifest (Suc k)) (Some k)"
  have "en_name e \<noteq> replicate (Suc k) (CHR ''a'')" if "rg_get i reg = Some e" for i e
    using that line [of i] by (auto simp: replicate_eq_replicate simp del: replicate_Suc split: if_splits)
  then have "st_get (rg_name_index reg) (replicate (Suc k) (CHR ''a'')) = None"
    by (simp add: name_free_iff [OF wf] dir.by_name_None [OF wf])
  then have get1: "rg_get i (snd (rg_register ?x reg)) = (if i = Suc k then Some ?x else rg_get i reg)"
    and ok1: "fst (rg_register ?x reg) = Inr ()" for i
    by (auto simp: rg_register_def spawned_entry_def Let_def rg_get_def al.get_put simp del: replicate_Suc)
  obtain reg1 where reg1: "rg_register ?x reg = (Inr (), reg1)" using ok1 by (metis prod.collapse)
  let ?reg' = "rg_add_child k (Suc k) reg1"
  have "spawn_quota_check 0 reg (Some k) = Some (Inr ())"
    by (simp add: spawn_quota_check_def spawn_height_if_add_leaf_def max_or_zero_def line)
  then have "spawn_agent_with_parent 0 0 0 (Suc k) (line_manifest (Suc k)) (Some k) reg = Some (Inr (Suc k), ?reg')"
    by (subst spawn_agent_with_parent_def) (simp add: reg1)
  then have "reg_reachable ?reg'"
    using reg_reachable.spawned [OF assms(1) line_unknown [OF assms(2)]] by blast
  moreover have "is_line (Suc k) ?reg'"
    unfolding is_line_def
  proof
    fix i
    have "rg_get i ?reg' = (if i = k then Some ((line_entry k k)\<lparr>en_children := [Suc k]\<rparr>)
        else rg_get i reg1)"
      using get1 [of k] reg1 line [of k] by (auto simp: rg_add_child_def rg_get_def al.get_put split: option.splits)
    then show "rg_get i ?reg' = (if i \<le> Suc k then Some (line_entry (Suc k) i) else None)"
      using get1 [of i] reg1 line [of i] by (auto simp: line_entry_def spawned_entry_def le_Suc_eq)
  qed
  ultimately show ?thesis by blast
qed

lemma line_exists: "\<exists>reg. reg_reachable reg \<and> is_line k reg"
  by (induction k) (use line_start line_step in blast)+

lemma line_down_path: "is_line k reg \<Longrightarrow> j \<le> k \<Longrightarrow> down_path reg (k - j) j"
proof (induction j)
  case (Suc j)
  then have "rg_get (k - Suc j) reg = Some (line_entry k (k - Suc j))"
    "Suc (k - Suc j) \<in> set (en_children (line_entry k (k - Suc j)))"
    by (simp_all add: is_line_def)
  moreover have "Suc (k - Suc j) = k - j" using Suc.prems(2) by simp
  ultimately show ?case using Suc by (auto intro: down_path.child)
qed (rule down_path.here)

text \<open>
  C9. The recursion along the lists of children always ends, within one more call level than
  there are agents, and returns the length of the longest walk down the spawn tree.
\<close>

theorem subtree_height_total:
  assumes "reg_reachable reg" and "rg_count reg < n"
  shows "\<exists>h. spawn_subtree_height n reg i = Some h \<and> down_path reg i h
    \<and> (\<forall>m. down_path reg i m \<longrightarrow> m \<le> h)"
proof -
  obtain n' where "n = Suc n'" "rg_count reg \<le> n'" using assms(2) by (cases n) auto
  then show ?thesis
    using subtree_height_longest [OF reg_reachable_acyclic [OF assms(1)], of i n'] card_below [of reg i] by simp
qed

theorem subtree_height_total_witness:
  "\<exists>reg h. is_line 3 reg \<and> spawn_subtree_height (Suc (rg_count reg)) reg 0 = Some h \<and> 3 \<le> h"
proof -
  obtain reg where reg: "reg_reachable reg" "is_line 3 reg" using line_exists by blast
  then show ?thesis
    using subtree_height_total [OF reg(1), of "Suc (rg_count reg)" 0] line_down_path [OF reg(2), of 3] by auto
qed

theorem registry_refines_map_witness:
  "\<exists>reg e. reg_reachable reg \<and> rg_get 0 reg = Some e \<and> rg_find_by_name (en_name e) reg = Some e
     \<and> rg_find_by_name (en_name e) (snd (rg_remove 0 reg)) = None"
proof -
  obtain reg where reg: "reg_reachable reg" "is_line 3 reg" using line_exists by blast
  then obtain e where e: "rg_get 0 reg = Some e" by (auto simp: is_line_def)
  show ?thesis
    using registry_refines_map [OF reg(1), of "en_name e" e e 0 "''x''"] reg(1) e by blast
qed

text \<open>
  A renamed hand: its fixed identifier is still registered when it is activated again, since only an agent of the
  hand's name is removed first. The registration then replaces the agent, and the name it had been given
  leads to the new agent, which has another name.
\<close>

lemma renamed_hand_leaves_its_name:
  assumes "reg_reachable reg" "rg_get i reg = Some e" "rg_find_by_name (mf_name manifest) reg = None"
    and "spawn_agent_with_parent n now session i manifest None reg = Some (r, reg')"
  shows "r = Inr i \<and> (\<exists>e'. rg_get i reg' = Some e' \<and> en_name e' = mf_name manifest \<and> en_name e' \<noteq> en_name e
    \<and> rg_find_by_name (en_name e) reg' = Some e')"
proof -
  note wf = reg_reachable_wf [OF assms(1)]
  let ?x = "spawned_entry now session i manifest None"
  have free: "st_get (rg_name_index reg) (mf_name manifest) = None"
    using assms(3) name_free_iff [OF wf] by simp
  have "rg_find_by_name (en_name e) reg = Some e"
    using assms(2) by (simp add: find_by_name_iff [OF wf]) blast
  then have ne: "mf_name manifest \<noteq> en_name e" using assms(3) by auto
  have "st_get (rg_name_index reg) (en_name e) = Some i"
    using reg_wfD(3) [OF wf] assms(2) by (auto simp: names_ok_def rg_get_def)
  moreover have "r = Inr i" "reg' = snd (rg_register ?x reg)"
    using assms(4) free by (auto simp: spawn_agent_with_parent_def spawn_quota_check_def rg_register_def spawned_entry_def)
  ultimately show ?thesis
    using free ne
    by (intro conjI exI [of _ ?x])
       (simp_all add: rg_get_def rg_register_def rg_find_by_name_def spawned_entry_def Let_def update_conv')
qed

text \<open>Two registrations of one name that both looked at the index before either entered its agent.\<close>

lemma racing_registrations:
  assumes "st_get (rg_name_index reg) (en_name a) = None" "en_name b = en_name a" "en_id a \<noteq> en_id b"
  shows "rg_get (en_id a) (register_insert b (register_insert a reg)) = Some a
    \<and> rg_get (en_id b) (register_insert b (register_insert a reg)) = Some b
    \<and> rg_find_by_name (en_name a) (register_insert b (register_insert a reg)) = Some b"
  using assms by (simp add: rg_get_def rg_find_by_name_def Let_def update_conv')

text \<open>
  The depth limit of an agent binds only its own spawns: there are reachable registries in
  which every agent has the limit one and the spawn tree of the first is as high as one likes.
\<close>

lemma spawn_depth_limit_not_inherited:
  "\<exists>reg h. reg_reachable reg
     \<and> (\<forall>i e. rg_get i reg = Some e \<longrightarrow> max_spawn_depth (mf_resources (en_manifest e)) = 1)
     \<and> rg_get 0 reg \<noteq> None
     \<and> spawn_subtree_height (Suc (rg_count reg)) reg 0 = Some h \<and> k \<le> h"
proof -
  obtain reg where reg: "reg_reachable reg" "is_line k reg" using line_exists by blast
  have "\<forall>i e. rg_get i reg = Some e \<longrightarrow> max_spawn_depth (mf_resources (en_manifest e)) = 1"
    using reg(2) by (auto simp: is_line_def split: if_splits)
  moreover have "rg_get 0 reg \<noteq> None" using reg(2) by (simp add: is_line_def)
  moreover obtain h where "spawn_subtree_height (Suc (rg_count reg)) reg 0 = Some h"
    "\<forall>m. down_path reg 0 m \<longrightarrow> m \<le> h"
    using subtree_height_longest [OF reg_reachable_acyclic [OF reg(1)] card_below] by blast
  moreover have "down_path reg 0 k" using line_down_path [OF reg(2), of k] by simp
  ultimately show ?thesis using reg(1) by blast
qed

lemma spawn_depth_limit_not_inherited_witness:
  "\<exists>reg h. reg_reachable reg \<and> spawn_subtree_height (Suc (rg_count reg)) reg 0 = Some h \<and> 5 \<le> h"
  using spawn_depth_limit_not_inherited [of 5] by blast

end
