(* ===== verification/Workflow.thy ===== *)
theory Workflow
  imports Prelude
begin

text \<open>
  The workflow engine (\<^verbatim>\<open>crates/openfang-kernel/src/workflow.rs\<close>): definitions, runs and their
  retention, prompt expansion, the aggregation of fanned-out outputs, and the execution of a
  run step by step.

  \<^verbatim>\<open>execute_run\<close> is given a resolver of agents and an asynchronous closure that sends a message
  to an agent. The closure is a function of the state of the outside world, which it returns
  changed; a call that exceeds the timeout of its step answers \<open>TimedOutCall\<close>. The steps of a
  fan-out are sent in the order of the steps and their answers are read in that order, as
  \<^verbatim>\<open>join_all\<close> returns them. The iteration order of a hash map is a parameter, as are lower case,
  the JSON text of a list of strings, the debug text of a string and the floating-point
  threshold of a consensus. Identifiers are kept as numbers where the code stores their text.
\<close>

section \<open>Types\<close>

datatype aggregation_strategy =
    Concatenate string
  | JsonArrayAgg
  | Consensus f64
  | BestOf string string
  | Summarize string "nat option"
  | CustomAgg string string

definition aggregation_default :: aggregation_strategy where
  "aggregation_default =
     Concatenate ([CHR 0x0A, CHR 0x0A] @ ''---'' @ [CHR 0x0A, CHR 0x0A])"

datatype step_agent = ById string | ByName string

datatype step_mode =
    Sequential
  | FanOut
  | Collect
  | Conditional string
  | LoopMode nat string
  | Adaptive nat "string list option" bool "nat option"

datatype error_mode = FailMode | SkipMode | RetryMode nat

record workflow_step =
  ws_name :: string
  ws_agent :: step_agent
  ws_prompt_template :: string
  ws_mode :: step_mode
  ws_timeout_secs :: nat
  ws_error_mode :: error_mode
  ws_output_var :: "string option"
  ws_collect_aggregation :: "aggregation_strategy option"

type_synonym workflow_id = uuid
type_synonym workflow_run_id = uuid

record workflow =
  wf_id :: workflow_id
  wf_name :: string
  wf_description :: string
  wf_steps :: "workflow_step list"
  wf_created_at :: time

datatype workflow_run_state = RunPending | RunRunning | RunCompleted | RunFailed

record step_result =
  sr_step_name :: string
  sr_agent_id :: agent_id
  sr_agent_name :: string
  sr_output :: string
  sr_input_tokens :: nat
  sr_output_tokens :: nat
  sr_duration_ms :: nat

record workflow_run =
  wr_id :: workflow_run_id
  wr_workflow_id :: workflow_id
  wr_workflow_name :: string
  wr_input :: string
  wr_state :: workflow_run_state
  wr_step_results :: "step_result list"
  wr_output :: "string option"
  wr_error :: "string option"
  wr_started_at :: time
  wr_completed_at :: "time option"

record workflow_engine =
  we_workflows :: "(workflow_id, workflow) store"
  we_runs :: "(workflow_run_id, workflow_run) store"

record retention_limits =
  max_retained_runs :: nat
  run_ttl_secs :: "nat option"

section \<open>Definitions and runs\<close>

definition we_new :: workflow_engine where
  "we_new = \<lparr>we_workflows = [], we_runs = []\<rparr>"

definition we_register :: "workflow \<Rightarrow> workflow_engine \<Rightarrow> workflow_id \<times> workflow_engine" where
  "we_register w eng = (wf_id w, eng\<lparr>we_workflows := st_put (wf_id w) w (we_workflows eng)\<rparr>)"

definition list_workflows :: "workflow_engine \<Rightarrow> workflow list" where
  "list_workflows eng = map snd (we_workflows eng)"

definition get_workflow :: "workflow_id \<Rightarrow> workflow_engine \<Rightarrow> workflow option" where
  "get_workflow i eng = st_get (we_workflows eng) i"

definition remove_workflow :: "workflow_id \<Rightarrow> workflow_engine \<Rightarrow> bool \<times> workflow_engine" where
  "remove_workflow i eng =
     (st_get (we_workflows eng) i \<noteq> None, eng\<lparr>we_workflows := st_del i (we_workflows eng)\<rparr>)"

definition update_workflow :: "workflow_id \<Rightarrow> workflow \<Rightarrow> workflow_engine \<Rightarrow> bool \<times> workflow_engine" where
  "update_workflow i updated eng =
     (case st_get (we_workflows eng) i of
        Some existing \<Rightarrow>
          (True, eng\<lparr>we_workflows := st_put i (existing\<lparr>wf_name := wf_name updated,
             wf_description := wf_description updated, wf_steps := wf_steps updated\<rparr>) (we_workflows eng)\<rparr>)
      | None \<Rightarrow> (False, eng))"

definition run_finished :: "workflow_run \<Rightarrow> bool" where
  "run_finished r = (wr_state r = RunCompleted \<or> wr_state r = RunFailed)"

definition ttl_keep :: "time \<Rightarrow> nat \<Rightarrow> workflow_run \<Rightarrow> bool" where
  "ttl_keep now ttl_secs r =
     (if \<not> run_finished r then True
      else
        let anchor = (case wr_completed_at r of Some t \<Rightarrow> t | None \<Rightarrow> wr_started_at r)
        in \<not> (now - anchor > int ttl_secs * 1000))"

definition evict_oldest ::
  "nat \<Rightarrow> (workflow_run_id, workflow_run) store \<Rightarrow> (workflow_run_id, workflow_run) store" where
  "evict_oldest cap runs =
     (if length runs > cap then
        let evictable = sort_key snd (map (\<lambda>(i, r). (i, wr_started_at r)) (filter (\<lambda>(_, r). run_finished r) runs));
            to_remove = length runs - cap
        in fold (\<lambda>(i, _). st_del i) (take to_remove evictable) runs
      else runs)"

definition new_run :: "workflow_run_id \<Rightarrow> time \<Rightarrow> workflow \<Rightarrow> workflow_id \<Rightarrow> string \<Rightarrow> workflow_run" where
  "new_run rid now w wid input =
     \<lparr>wr_id = rid, wr_workflow_id = wid, wr_workflow_name = wf_name w, wr_input = input,
      wr_state = RunPending, wr_step_results = [], wr_output = None, wr_error = None,
      wr_started_at = now, wr_completed_at = None\<rparr>"

definition create_run ::
  "workflow_run_id \<Rightarrow> time \<Rightarrow> workflow_id \<Rightarrow> string \<Rightarrow> retention_limits \<Rightarrow> workflow_engine
     \<Rightarrow> workflow_run_id option \<times> workflow_engine" where
  "create_run rid now wid input retention eng =
     (case st_get (we_workflows eng) wid of
        None \<Rightarrow> (None, eng)
      | Some w \<Rightarrow>
          let runs = st_put rid (new_run rid now w wid input) (we_runs eng);
              fresh = (case run_ttl_secs retention of
                         Some ttl \<Rightarrow> filter (\<lambda>(_, r). ttl_keep now ttl r) runs
                       | None \<Rightarrow> runs)
          in (Some rid, eng\<lparr>we_runs := evict_oldest (max_retained_runs retention) fresh\<rparr>))"

definition get_run :: "workflow_run_id \<Rightarrow> workflow_engine \<Rightarrow> workflow_run option" where
  "get_run rid eng = st_get (we_runs eng) rid"

definition list_runs :: "string option \<Rightarrow> workflow_engine \<Rightarrow> workflow_run list" where
  "list_runs state_filter eng =
     filter (\<lambda>r. case state_filter of
         None \<Rightarrow> True
       | Some f \<Rightarrow>
           if f = ''pending'' then wr_state r = RunPending
           else if f = ''running'' then wr_state r = RunRunning
           else if f = ''completed'' then wr_state r = RunCompleted
           else if f = ''failed'' then wr_state r = RunFailed
           else True) (map snd (we_runs eng))"

section \<open>Prompts\<close>

datatype send_answer =
    Sent string nat nat      \<comment> \<open>output, input tokens, output tokens\<close>
  | SendError string
  | TimedOutCall

text \<open>The outside of the engine.\<close>

record 'w workflow_env =
  wv_resolve :: "step_agent \<Rightarrow> (agent_id \<times> string) option"
  wv_send :: "agent_id \<Rightarrow> string \<Rightarrow> workflow_step \<Rightarrow> nat \<Rightarrow> 'w \<Rightarrow> send_answer \<times> 'w"
  wv_elapsed_ms :: "'w \<Rightarrow> 'w \<Rightarrow> nat"
  wv_now :: "'w \<Rightarrow> time"
  wv_lower :: "string \<Rightarrow> string"
  wv_json_strings :: "string list \<Rightarrow> string"
  wv_debug_str :: "string \<Rightarrow> string"
  wv_consensus_need :: "nat \<Rightarrow> f64 \<Rightarrow> nat"
  wv_order_vars :: "(string \<times> string) list \<Rightarrow> (string \<times> string) list"
  wv_order_counts :: "(string \<times> nat) list \<Rightarrow> (string \<times> nat) list"

definition nl :: string where "nl = [CHR 0x0A]"

definition braces :: "string \<Rightarrow> string" where
  "braces key = ''{{'' @ key @ ''}}''"

definition expand_variables ::
  "'w workflow_env \<Rightarrow> string \<Rightarrow> string \<Rightarrow> (string, string) store \<Rightarrow> string" where
  "expand_variables env template input vars =
     fold (\<lambda>(key, val) result. replace_str (braces key) val result) (wv_order_vars env vars)
       (replace_str (braces ''input'') input template)"

definition format_numbered_candidates :: "string list \<Rightarrow> string" where
  "format_numbered_candidates outputs =
     join_str (nl @ nl)
       (map (\<lambda>(i, s). show_nat (i + 1) @ ''. '' @ s) (zip [0..<length outputs] outputs))"

definition best_of_prompt :: "string \<Rightarrow> string list \<Rightarrow> string" where
  "best_of_prompt criteria outputs =
     ''You are evaluating multiple candidate responses.'' @ nl @ nl @
     ''Criteria:'' @ nl @ criteria @ nl @ nl @
     ''Candidates:'' @ nl @ nl @ format_numbered_candidates outputs @ nl @ nl @
     ''Reply with ONLY the number (1 to '' @ show_nat (length outputs) @
     '') of the single best candidate. No other text.''"

definition summarize_prompt :: "nat option \<Rightarrow> string list \<Rightarrow> string" where
  "summarize_prompt max_length outputs =
     (let limit = (case max_length of
                     Some n \<Rightarrow> ''Keep the summary under approximately '' @ show_nat n @ '' characters.''
                   | None \<Rightarrow> [])
      in ''Summarize the following texts into one coherent response. '' @ limit @ nl @ nl @
         format_numbered_candidates outputs)"

definition expand_custom_aggregation_prompt ::
  "'w workflow_env \<Rightarrow> string \<Rightarrow> string list \<Rightarrow> string \<Rightarrow> (string, string) store \<Rightarrow> string" where
  "expand_custom_aggregation_prompt env template outputs workflow_initial vars =
     fold (\<lambda>(key, val) result. replace_str (braces key) val result) (wv_order_vars env vars)
       (replace_str (braces ''input'') workflow_initial
         (replace_str (braces ''outputs'') (format_numbered_candidates outputs)
           (replace_str (braces ''outputs_json'') (wv_json_strings env outputs) template)))"

text \<open>\<^verbatim>\<open>str::parse::<usize>\<close>: an optional plus sign, at least one digit, no overflow.\<close>

definition parse_usize :: "string \<Rightarrow> nat option" where
  "parse_usize s =
     (let ds = (case s of c # cs \<Rightarrow> if c = CHR ''+'' then cs else s | [] \<Rightarrow> [])
      in if ds = [] then None
         else case digits_val 0 ds of
                Some n \<Rightarrow> if n < 2 ^ 64 then Some n else None
              | None \<Rightarrow> None)"

definition trim_punct :: "string \<Rightarrow> string" where
  "trim_punct s =
     (let q = (\<lambda>c. c \<in> set (''.,;:!?()[]{}'' @ [CHR 0x22, CHR 0x27]))
      in rev (dropWhile q (rev (dropWhile q s))))"

fun digit_words :: "string \<Rightarrow> string \<Rightarrow> string list" where
  "digit_words cur [] = [cur]"
| "digit_words cur (c # cs) =
     (if digit_val c = None then cur # digit_words [] cs else digit_words (cur @ [c]) cs)"

fun first_choice :: "nat \<Rightarrow> string list \<Rightarrow> nat option" where
  "first_choice n [] = None"
| "first_choice n (t # ts) =
     (case parse_usize t of
        Some v \<Rightarrow> if 1 \<le> v \<and> v \<le> n then Some (v - 1) else first_choice n ts
      | None \<Rightarrow> first_choice n ts)"

definition parse_best_of_choice :: "(string \<Rightarrow> string) \<Rightarrow> string \<Rightarrow> nat \<Rightarrow> (string, nat) result" where
  "parse_best_of_choice debug reply n =
     (if n = 0 then Inl ''no candidates for BestOf''
      else
        let trimmed = trim reply
        in case first_choice n (map trim_punct (split_whitespace trimmed)) of
             Some v \<Rightarrow> Inr v
           | None \<Rightarrow>
               (case first_choice n (filter (\<lambda>w. w \<noteq> []) (digit_words [] trimmed)) of
                  Some v \<Rightarrow> Inr v
                | None \<Rightarrow> Inl (''could not parse candidate index 1..'' @ show_nat n @
                    '' from evaluator reply: '' @ debug reply)))"

section \<open>Aggregation\<close>

definition count_outputs :: "string list \<Rightarrow> (string, nat) store" where
  "count_outputs outputs =
     fold (\<lambda>o' m. let k = trim o' in
             st_put k ((case st_get m k of Some c \<Rightarrow> c | None \<Rightarrow> 0) + 1) m) outputs []"

definition most_frequent :: "(string \<times> nat) list \<Rightarrow> (string \<times> nat) option" where
  "most_frequent counts =
     foldl (\<lambda>best (s, c).
         if (case best of Some (_, bc) \<Rightarrow> c > bc | None \<Rightarrow> True) then Some (s, c) else best)
       None counts"

definition apply_aggregation ::
  "'w workflow_env \<Rightarrow> aggregation_strategy \<Rightarrow> string list \<Rightarrow> (string, string) result" where
  "apply_aggregation env strategy outputs =
     (if outputs = [] then Inr []
      else case strategy of
        Concatenate separator \<Rightarrow> Inr (join_str separator outputs)
      | JsonArrayAgg \<Rightarrow> Inr (wv_json_strings env outputs)
      | Consensus threshold \<Rightarrow>
          let need = wv_consensus_need env (length outputs) threshold
          in (case most_frequent (wv_order_counts env (count_outputs outputs)) of
                Some (s, c) \<Rightarrow> if c \<ge> need then Inr s else Inr (join_str nl outputs)
              | None \<Rightarrow> Inr (join_str nl outputs))
      | _ \<Rightarrow> Inl ''apply_aggregation() supports only concatenate/json_array/consensus; use agent collect path'')"

definition synth_aggregate_step :: "workflow_step \<Rightarrow> step_agent \<Rightarrow> string \<Rightarrow> workflow_step" where
  "synth_aggregate_step collect_step agent prompt =
     \<lparr>ws_name = ws_name collect_step @ [CHR 0xE2, CHR 0x86, CHR 0x92] @ ''aggregate'',
      ws_agent = agent, ws_prompt_template = prompt, ws_mode = Sequential,
      ws_timeout_secs = ws_timeout_secs collect_step, ws_error_mode = ws_error_mode collect_step,
      ws_output_var = None, ws_collect_aggregation = None\<rparr>"

section \<open>One step\<close>

definition in_quotes :: "string \<Rightarrow> string" where
  "in_quotes s = [CHR 0x27] @ s @ [CHR 0x27]"

type_synonym step_output = "string \<times> nat \<times> nat"

fun retry_send ::
  "'w workflow_env \<Rightarrow> workflow_step \<Rightarrow> nat \<Rightarrow> agent_id \<Rightarrow> string \<Rightarrow> nat \<Rightarrow> string \<Rightarrow> 'w
     \<Rightarrow> (string, step_output) result \<times> 'w" where
  "retry_send env step idx agent prompt 0 last_err w = (Inl last_err, w)"
| "retry_send env step idx agent prompt (Suc n) last_err w =
     (case wv_send env agent prompt step idx w of
        (Sent out n_in n_out, w') \<Rightarrow> (Inr (out, n_in, n_out), w')
      | (SendError e, w') \<Rightarrow> retry_send env step idx agent prompt n e w'
      | (TimedOutCall, w') \<Rightarrow>
          retry_send env step idx agent prompt n
            (''timed out after '' @ show_nat (ws_timeout_secs step) @ ''s'') w')"

definition execute_step_with_error_mode ::
  "'w workflow_env \<Rightarrow> workflow_step \<Rightarrow> nat \<Rightarrow> agent_id \<Rightarrow> string \<Rightarrow> 'w
     \<Rightarrow> (string, step_output option) result \<times> 'w" where
  "execute_step_with_error_mode env step idx agent prompt w =
     (case ws_error_mode step of
        FailMode \<Rightarrow>
          (case wv_send env agent prompt step idx w of
             (Sent out n_in n_out, w') \<Rightarrow> (Inr (Some (out, n_in, n_out)), w')
           | (SendError e, w') \<Rightarrow> (Inl (''Step '' @ in_quotes (ws_name step) @ '' failed: '' @ e), w')
           | (TimedOutCall, w') \<Rightarrow>
               (Inl (''Step '' @ in_quotes (ws_name step) @ '' timed out after '' @
                     show_nat (ws_timeout_secs step) @ ''s''), w'))
      | SkipMode \<Rightarrow>
          (case wv_send env agent prompt step idx w of
             (Sent out n_in n_out, w') \<Rightarrow> (Inr (Some (out, n_in, n_out)), w')
           | (SendError e, w') \<Rightarrow> (Inr None, w')
           | (TimedOutCall, w') \<Rightarrow> (Inr None, w'))
      | RetryMode max_retries \<Rightarrow>
          (case retry_send env step idx agent prompt (Suc max_retries) [] w of
             (Inr out, w') \<Rightarrow> (Inr (Some out), w')
           | (Inl last_err, w') \<Rightarrow>
               (Inl (''Step '' @ in_quotes (ws_name step) @ '' failed after '' @ show_nat max_retries @
                     '' retries: '' @ last_err), w')))"

section \<open>Executing a run\<close>

text \<open>The local variables of the loop, with the engine and the world.\<close>

record 'w exec =
  ex_engine :: workflow_engine
  ex_world :: 'w
  ex_current :: string
  ex_outputs :: "string list"
  ex_vars :: "(string, string) store"

text \<open>How a step leaves the loop body: to the next step, or out of the function with an error.\<close>

datatype 'w flow = Proceed "'w exec" | Abort string "'w exec"

definition modify_run ::
  "workflow_run_id \<Rightarrow> (workflow_run \<Rightarrow> workflow_run) \<Rightarrow> workflow_engine \<Rightarrow> workflow_engine" where
  "modify_run rid f eng =
     (case st_get (we_runs eng) rid of
        Some r \<Rightarrow> eng\<lparr>we_runs := st_put rid (f r) (we_runs eng)\<rparr>
      | None \<Rightarrow> eng)"

definition push_result :: "workflow_run_id \<Rightarrow> step_result \<Rightarrow> 'w exec \<Rightarrow> 'w exec" where
  "push_result rid sr ex =
     ex\<lparr>ex_engine := modify_run rid (\<lambda>r. r\<lparr>wr_step_results := wr_step_results r @ [sr]\<rparr>) (ex_engine ex)\<rparr>"

definition fail_run :: "'w workflow_env \<Rightarrow> workflow_run_id \<Rightarrow> string \<Rightarrow> 'w exec \<Rightarrow> 'w exec" where
  "fail_run env rid e ex =
     ex\<lparr>ex_engine := modify_run rid (\<lambda>r. r\<lparr>wr_state := RunFailed, wr_error := Some e,
          wr_completed_at := Some (wv_now env (ex_world ex))\<rparr>) (ex_engine ex)\<rparr>"

definition store_output :: "workflow_step \<Rightarrow> string \<Rightarrow> 'w exec \<Rightarrow> 'w exec" where
  "store_output step out ex =
     (case ws_output_var step of
        Some var \<Rightarrow> ex\<lparr>ex_vars := st_put var out (ex_vars ex)\<rparr>
      | None \<Rightarrow> ex)"

definition make_result ::
  "string \<Rightarrow> agent_id \<Rightarrow> string \<Rightarrow> step_output \<Rightarrow> nat \<Rightarrow> step_result" where
  "make_result name agent agent_name out duration =
     \<lparr>sr_step_name = name, sr_agent_id = agent, sr_agent_name = agent_name,
      sr_output = fst out, sr_input_tokens = fst (snd out), sr_output_tokens = snd (snd out),
      sr_duration_ms = duration\<rparr>"

definition agent_not_found :: "workflow_step \<Rightarrow> string" where
  "agent_not_found step = ''Agent not found for step '' @ in_quotes (ws_name step)"

text \<open>A sequential or adaptive step, and a conditional one whose condition holds.\<close>

definition exec_single ::
  "'w workflow_env \<Rightarrow> workflow_run_id \<Rightarrow> nat \<Rightarrow> workflow_step \<Rightarrow> 'w exec \<Rightarrow> 'w flow" where
  "exec_single env rid i step ex =
     (case wv_resolve env (ws_agent step) of
        None \<Rightarrow> Abort (agent_not_found step) ex
      | Some (agent, agent_name) \<Rightarrow>
          let prompt = expand_variables env (ws_prompt_template step) (ex_current ex) (ex_vars ex);
              (result, w') = execute_step_with_error_mode env step i agent prompt (ex_world ex);
              duration = wv_elapsed_ms env (ex_world ex) w';
              ex' = ex\<lparr>ex_world := w'\<rparr>
          in (case result of
                Inr (Some out) \<Rightarrow>
                  let ex1 = push_result rid (make_result (ws_name step) agent agent_name out duration) ex';
                      ex2 = store_output step (fst out) ex1
                  in Proceed (ex2\<lparr>ex_outputs := ex_outputs ex2 @ [fst out], ex_current := fst out\<rparr>)
              | Inr None \<Rightarrow> Proceed ex'
              | Inl e \<Rightarrow> Abort e (fail_run env rid e ex')))"

text \<open>The body of a loop step: the remaining iterations and the number of the current one.\<close>

fun exec_loop ::
  "'w workflow_env \<Rightarrow> workflow_run_id \<Rightarrow> nat \<Rightarrow> workflow_step \<Rightarrow> agent_id \<Rightarrow> string \<Rightarrow> string
     \<Rightarrow> nat \<Rightarrow> nat \<Rightarrow> 'w exec \<Rightarrow> 'w flow" where
  "exec_loop env rid i step agent agent_name until_lower 0 k ex = Proceed ex"
| "exec_loop env rid i step agent agent_name until_lower (Suc n) k ex =
     (let prompt = expand_variables env (ws_prompt_template step) (ex_current ex) (ex_vars ex);
          (result, w') = execute_step_with_error_mode env step i agent prompt (ex_world ex);
          duration = wv_elapsed_ms env (ex_world ex) w';
          ex' = ex\<lparr>ex_world := w'\<rparr>
      in (case result of
            Inr (Some out) \<Rightarrow>
              let ex1 = push_result rid (make_result
                    (ws_name step @ '' (iter '' @ show_nat (k + 1) @ '')'') agent agent_name out duration) ex';
                  ex2 = ex1\<lparr>ex_current := fst out\<rparr>
              in if contains_str (wv_lower env (fst out)) until_lower then Proceed ex2
                 else exec_loop env rid i step agent agent_name until_lower n (k + 1) ex2
          | Inr None \<Rightarrow> Proceed ex'
          | Inl e \<Rightarrow> Abort e (fail_run env rid e ex')))"

definition exec_loop_step ::
  "'w workflow_env \<Rightarrow> workflow_run_id \<Rightarrow> nat \<Rightarrow> workflow_step \<Rightarrow> nat \<Rightarrow> string \<Rightarrow> 'w exec \<Rightarrow> 'w flow" where
  "exec_loop_step env rid i step max_iterations until ex =
     (case wv_resolve env (ws_agent step) of
        None \<Rightarrow> Abort (agent_not_found step) ex
      | Some (agent, agent_name) \<Rightarrow>
          (case exec_loop env rid i step agent agent_name (wv_lower env until) max_iterations 0 ex of
             Abort e ex' \<Rightarrow> Abort e ex'
           | Proceed ex' \<Rightarrow>
               let ex1 = store_output step (ex_current ex') ex'
               in Proceed (ex1\<lparr>ex_outputs := ex_outputs ex1 @ [ex_current ex1]\<rparr>)))"

subsection \<open>Fan-out\<close>

fun resolve_all ::
  "'w workflow_env \<Rightarrow> workflow_step list \<Rightarrow> (string, (agent_id \<times> string) list) result" where
  "resolve_all env [] = Inr []"
| "resolve_all env (s # ss) =
     (case wv_resolve env (ws_agent s) of
        None \<Rightarrow> Inl (agent_not_found s)
      | Some a \<Rightarrow>
          (case resolve_all env ss of
             Inl e \<Rightarrow> Inl e
           | Inr rest \<Rightarrow> Inr (a # rest)))"

fun send_all ::
  "'w workflow_env \<Rightarrow> string \<Rightarrow> (string, string) store \<Rightarrow> nat \<Rightarrow> (workflow_step \<times> agent_id \<times> string) list
     \<Rightarrow> 'w \<Rightarrow> send_answer list \<times> 'w" where
  "send_all env current vars i [] w = ([], w)"
| "send_all env current vars i ((s, agent, _) # rest) w =
     (let (a, w1) = wv_send env agent (expand_variables env (ws_prompt_template s) current vars) s i w;
          (more, w2) = send_all env current vars (i + 1) rest w1
      in (a # more, w2))"

fun read_answers ::
  "'w workflow_env \<Rightarrow> workflow_run_id \<Rightarrow> nat \<Rightarrow> ((workflow_step \<times> agent_id \<times> string) \<times> send_answer) list
     \<Rightarrow> 'w exec \<Rightarrow> 'w flow" where
  "read_answers env rid duration [] ex = Proceed ex"
| "read_answers env rid duration (((s, agent, agent_name), a) # rest) ex =
     (case a of
        Sent out n_in n_out \<Rightarrow>
          let ex1 = push_result rid (make_result (ws_name s) agent agent_name (out, n_in, n_out) duration) ex;
              ex2 = store_output s out ex1
          in read_answers env rid duration rest
               (ex2\<lparr>ex_outputs := ex_outputs ex2 @ [out], ex_current := out\<rparr>)
      | SendError e \<Rightarrow>
          let msg = ''FanOut step '' @ in_quotes (ws_name s) @ '' failed: '' @ e
          in Abort msg (fail_run env rid msg ex)
      | TimedOutCall \<Rightarrow>
          let msg = ''FanOut step '' @ in_quotes (ws_name s) @ '' timed out after '' @
                show_nat (ws_timeout_secs s) @ ''s''
          in Abort msg (fail_run env rid msg ex))"

definition exec_fan_out ::
  "'w workflow_env \<Rightarrow> workflow_run_id \<Rightarrow> nat \<Rightarrow> workflow_step list \<Rightarrow> 'w exec \<Rightarrow> 'w flow" where
  "exec_fan_out env rid i fan_out_steps ex =
     (case resolve_all env fan_out_steps of
        Inl e \<Rightarrow> Abort e ex
      | Inr agents \<Rightarrow>
          let calls = zip fan_out_steps agents;
              (answers, w') = send_all env (ex_current ex) (ex_vars ex) i calls (ex_world ex);
              duration = wv_elapsed_ms env (ex_world ex) w'
          in read_answers env rid duration (zip calls answers) (ex\<lparr>ex_world := w'\<rparr>))"

subsection \<open>Collect\<close>

text \<open>
  The three strategies that ask an agent differ in the prompt, the name of the recorded step,
  two messages, and in what is made of the reply.
\<close>

definition collect_by_agent ::
  "'w workflow_env \<Rightarrow> workflow_run_id \<Rightarrow> nat \<Rightarrow> workflow_step \<Rightarrow> string \<Rightarrow> string \<Rightarrow> string \<Rightarrow> string \<Rightarrow> string
     \<Rightarrow> (string \<Rightarrow> (string, string) result) \<Rightarrow> 'w exec \<Rightarrow> (string \<times> 'w exec, string \<times> 'w exec) result" where
  "collect_by_agent env rid i step name prompt tail_name not_found skipped pick ex =
     (let agg_agent = ByName name
      in case wv_resolve env agg_agent of
           None \<Rightarrow> Inl (not_found, ex)
         | Some (agent, agent_name) \<Rightarrow>
             let synth = synth_aggregate_step step agg_agent prompt;
                 (result, w') = execute_step_with_error_mode env synth i agent prompt (ex_world ex);
                 duration = wv_elapsed_ms env (ex_world ex) w';
                 ex' = ex\<lparr>ex_world := w'\<rparr>
             in (case result of
                   Inr (Some out) \<Rightarrow>
                     (case pick (fst out) of
                        Inl e \<Rightarrow> Inl (e, ex')
                      | Inr picked \<Rightarrow>
                          Inr (picked, push_result rid
                            (make_result (ws_name step @ tail_name) agent agent_name out duration) ex'))
                 | Inr None \<Rightarrow> Inl (skipped, ex')
                 | Inl e \<Rightarrow> Inl (e, fail_run env rid e ex')))"

definition collect_outputs ::
  "'w workflow_env \<Rightarrow> workflow_run_id \<Rightarrow> string \<Rightarrow> nat \<Rightarrow> workflow_step \<Rightarrow> 'w exec
     \<Rightarrow> (string \<times> 'w exec, string \<times> 'w exec) result" where
  "collect_outputs env rid run_initial_input i step ex =
     (let strategy = (case ws_collect_aggregation step of Some s \<Rightarrow> s | None \<Rightarrow> aggregation_default);
          outputs = ex_outputs ex;
          ask = (\<lambda>name prompt tail_name not_found skipped pick.
            if outputs = [] then Inr ([], ex)
            else if length outputs = 1 then Inr (outputs ! 0, ex)
            else collect_by_agent env rid i step name prompt tail_name not_found
                   (''Collect '' @ skipped @ '' step '' @ in_quotes (ws_name step) @ '' was skipped'') pick ex)
      in case strategy of
           BestOf evaluator criteria \<Rightarrow>
             ask evaluator (best_of_prompt criteria outputs) '':best_of''
               (''Evaluator agent '' @ in_quotes evaluator @ '' not found for collect BestOf'') ''BestOf''
               (\<lambda>reply. case parse_best_of_choice (wv_debug_str env) reply (length outputs) of
                  Inl e \<Rightarrow> Inl e
                | Inr idx \<Rightarrow> Inr (outputs ! idx))
         | Summarize summarizer max_length \<Rightarrow>
             ask summarizer (summarize_prompt max_length outputs) '':summarize''
               (''Summarizer agent '' @ in_quotes summarizer @ '' not found for collect'') ''Summarize'' Inr
         | CustomAgg aggregator template \<Rightarrow>
             ask aggregator (expand_custom_aggregation_prompt env template outputs run_initial_input (ex_vars ex))
               '':custom'' (''Aggregator agent '' @ in_quotes aggregator @ '' not found for collect'') ''Custom'' Inr
         | _ \<Rightarrow>
             (case apply_aggregation env strategy outputs of
                Inl e \<Rightarrow> Inl (e, ex)
              | Inr out \<Rightarrow> Inr (out, ex)))"

definition exec_collect ::
  "'w workflow_env \<Rightarrow> workflow_run_id \<Rightarrow> string \<Rightarrow> nat \<Rightarrow> workflow_step \<Rightarrow> 'w exec \<Rightarrow> 'w flow" where
  "exec_collect env rid run_initial_input i step ex =
     (case collect_outputs env rid run_initial_input i step ex of
        Inl (e, ex') \<Rightarrow> Abort e ex'
      | Inr (out, ex') \<Rightarrow> Proceed (store_output step out (ex'\<lparr>ex_current := out, ex_outputs := [out]\<rparr>)))"

subsection \<open>The loop over the steps\<close>

fun is_fan_out :: "workflow_step \<Rightarrow> bool" where
  "is_fan_out s = (ws_mode s = FanOut)"

definition exec_step ::
  "'w workflow_env \<Rightarrow> workflow_run_id \<Rightarrow> string \<Rightarrow> nat \<Rightarrow> workflow_step \<Rightarrow> 'w exec \<Rightarrow> 'w flow" where
  "exec_step env rid run_initial_input i step ex =
     (case ws_mode step of
        Collect \<Rightarrow> exec_collect env rid run_initial_input i step ex
      | Conditional condition \<Rightarrow>
          if \<not> contains_str (wv_lower env (ex_current ex)) (wv_lower env condition) then Proceed ex
          else exec_single env rid i step ex
      | LoopMode max_iterations until \<Rightarrow> exec_loop_step env rid i step max_iterations until ex
      | _ \<Rightarrow> exec_single env rid i step ex)"

function exec_from ::
  "'w workflow_env \<Rightarrow> workflow_run_id \<Rightarrow> string \<Rightarrow> nat \<Rightarrow> workflow_step list \<Rightarrow> 'w exec \<Rightarrow> 'w flow" where
  "exec_from env rid run_initial_input i [] ex = Proceed ex"
| "exec_from env rid run_initial_input i (step # rest) ex =
     (if is_fan_out step then
        let fan = step # takeWhile is_fan_out rest
        in case exec_fan_out env rid i fan ex of
             Abort e ex' \<Rightarrow> Abort e ex'
           | Proceed ex' \<Rightarrow>
               exec_from env rid run_initial_input (i + length fan) (dropWhile is_fan_out rest) ex'
      else
        case exec_step env rid run_initial_input i step ex of
          Abort e ex' \<Rightarrow> Abort e ex'
        | Proceed ex' \<Rightarrow> exec_from env rid run_initial_input (i + 1) rest ex')"
  by pat_completeness auto
termination
  by (relation "measure (\<lambda>(env, rid, inp, i, steps, ex). length steps)")
     (auto simp: length_dropWhile_le le_imp_less_Suc)

definition execute_run ::
  "'w workflow_env \<Rightarrow> workflow_run_id \<Rightarrow> workflow_engine \<Rightarrow> 'w \<Rightarrow> (string, string) result \<times> workflow_engine \<times> 'w" where
  "execute_run env rid eng w =
     (case st_get (we_runs eng) rid of
        None \<Rightarrow> (Inl ''Workflow run not found'', eng, w)
      | Some run \<Rightarrow>
          let eng1 = modify_run rid (\<lambda>r. r\<lparr>wr_state := RunRunning\<rparr>) eng
          in case st_get (we_workflows eng1) (wr_workflow_id run) of
               None \<Rightarrow> (Inl ''Workflow definition not found'', eng1, w)
             | Some workflow \<Rightarrow>
                 (case exec_from env rid (wr_input run) 0 (wf_steps workflow)
                         \<lparr>ex_engine = eng1, ex_world = w, ex_current = wr_input run, ex_outputs = [],
                          ex_vars = []\<rparr> of
                    Abort e ex \<Rightarrow> (Inl e, ex_engine ex, ex_world ex)
                  | Proceed ex \<Rightarrow>
                      (Inr (ex_current ex),
                       modify_run rid (\<lambda>r. r\<lparr>wr_state := RunCompleted, wr_output := Some (ex_current ex),
                          wr_completed_at := Some (wv_now env (ex_world ex))\<rparr>) (ex_engine ex),
                       ex_world ex)))"

end
