(* ===== verification/Workflow_Runs.thy ===== *)
theory Workflow_Runs
  imports Workflow
begin

text \<open>
  What the workflow engine guarantees (\<^verbatim>\<open>crates/openfang-kernel/src/workflow.rs\<close>, modelled in
  \<^theory_text>\<open>Workflow\<close>): what a run changes and records, how many messages it sends, which runs are
  retained, and what the records of the engine mean after any sequence of operations. The loop
  over the steps is proved once, in the locale \<open>exec_steps\<close>, and interpreted for the frame of a run
  and for the count of its messages.
\<close>

section \<open>What one pass over the steps may do\<close>

text \<open>
  The most messages a step sends: one per attempt, as many attempts as the error mode allows, as
  many rounds as a loop has iterations; the steps of a fan-out are sent once each.
\<close>

definition attempts :: "error_mode \<Rightarrow> nat" where
  "attempts m = (case m of RetryMode n \<Rightarrow> Suc n | _ \<Rightarrow> 1)"

definition step_budget :: "workflow_step \<Rightarrow> nat" where
  "step_budget s =
     (case ws_mode s of
        FanOut \<Rightarrow> 1
      | LoopMode n _ \<Rightarrow> n * attempts (ws_error_mode s)
      | _ \<Rightarrow> attempts (ws_error_mode s))"

definition steps_budget :: "workflow_step list \<Rightarrow> nat" where
  "steps_budget ss = sum_list (map step_budget ss)"

lemma steps_budget_simps [simp]:
  "steps_budget [] = 0"
  "steps_budget (s # ss) = step_budget s + steps_budget ss"
  by (simp_all add: steps_budget_def)

lemma fan_out_budget:
  "steps_budget ss = length (takeWhile is_fan_out ss) + steps_budget (dropWhile is_fan_out ss)"
  by (induction ss) (auto simp: step_budget_def)

text \<open>
  The contract of the loop over the steps with the engine and the world, graded by the number of
  messages sent: whatever relation holds across one message, across the recording of a result and
  across an assignment to the local variables holds across the whole loop, within the budget of
  its steps.
\<close>

locale exec_steps =
  fixes env :: "'w workflow_env"
    and rid :: workflow_run_id
    and rel :: "nat \<Rightarrow> 'w exec \<Rightarrow> 'w exec \<Rightarrow> bool"
    and stop :: "nat \<Rightarrow> 'w exec \<Rightarrow> string \<Rightarrow> 'w exec \<Rightarrow> bool"
  assumes same: "rel 0 ex ex"
    and trans: "rel m a b \<Longrightarrow> rel n b c \<Longrightarrow> rel (m + n) a c"
    and more: "rel m a b \<Longrightarrow> m \<le> n \<Longrightarrow> rel n a b"
    and more_stop: "stop m a e b \<Longrightarrow> m \<le> n \<Longrightarrow> stop n a e b"
    and send: "rel 1 ex (ex\<lparr>ex_world := snd (wv_send env agent prompt s i (ex_world ex))\<rparr>)"
    and push: "rel 0 ex (push_result rid sr ex)"
    and local_change: "rel 0 ex (ex\<lparr>ex_current := cur, ex_outputs := outs, ex_vars := vs\<rparr>)"
    and stop_plain: "rel n a b \<Longrightarrow> stop n a e b"
    and stop_fail: "rel n a b \<Longrightarrow> stop n a e (fail_run env rid e b)"
    and trans_stop: "rel m a b \<Longrightarrow> stop n b e c \<Longrightarrow> stop (m + n) a e c"
begin

definition flow_ok :: "nat \<Rightarrow> 'w exec \<Rightarrow> 'w flow \<Rightarrow> bool" where
  "flow_ok n ex f = (case f of Proceed ex' \<Rightarrow> rel n ex ex' | Abort e ex' \<Rightarrow> stop n ex e ex')"

lemma flow_ok_simps [simp]:
  "flow_ok n ex (Proceed ex') = rel n ex ex'"
  "flow_ok n ex (Abort e ex') = stop n ex e ex'"
  by (simp_all add: flow_ok_def)

lemma flow_more: "flow_ok m ex f \<Longrightarrow> m \<le> n \<Longrightarrow> flow_ok n ex f"
  by (cases f) (auto intro: more more_stop)

lemma flow_after: "rel m a b \<Longrightarrow> flow_ok n b f \<Longrightarrow> flow_ok (m + n) a f"
  by (cases f) (auto intro: trans trans_stop)

lemma flow_seq:
  assumes "flow_ok m ex f" and "\<And>b. flow_ok n b (g b)"
  shows "flow_ok (m + n) ex (case f of Proceed b \<Rightarrow> g b | Abort e b \<Rightarrow> Abort e b)"
  using assms by (cases f) (auto intro: flow_after more_stop)

lemma after0: "rel m a b \<Longrightarrow> rel 0 b c \<Longrightarrow> rel m a c"
  using trans [of m a b 0 c] by simp

lemma rel_current: "rel n a b \<Longrightarrow> rel n a (b\<lparr>ex_current := cur\<rparr>)"
  using after0 [OF _ local_change [where ex = b and cur = cur and outs = "ex_outputs b" and vs = "ex_vars b"]] by simp

lemma rel_outputs: "rel n a b \<Longrightarrow> rel n a (b\<lparr>ex_outputs := outs\<rparr>)"
  using after0 [OF _ local_change [where ex = b and cur = "ex_current b" and outs = outs and vs = "ex_vars b"]] by simp

lemma rel_store: "rel n a b \<Longrightarrow> rel n a (store_output s out b)"
  using after0 [OF _ local_change [where ex = b and cur = "ex_current b" and outs = "ex_outputs b"]]
  by (auto simp: store_output_def split: option.splits)

lemma rel_push: "rel n a b \<Longrightarrow> rel n a (push_result rid sr b)"
  by (rule after0 [OF _ push])

lemmas rel_intros = rel_current rel_outputs rel_store rel_push

lemma retry_rel:
  "rel n ex (ex\<lparr>ex_world := snd (retry_send env s i agent prompt n err (ex_world ex))\<rparr>)"
proof (induction n arbitrary: err ex)
  case 0
  show ?case using same [of ex] by simp
next
  case (Suc n)
  obtain ans w' where sent: "wv_send env agent prompt s i (ex_world ex) = (ans, w')"
    by (cases "wv_send env agent prompt s i (ex_world ex)")
  have one: "rel 1 ex (ex\<lparr>ex_world := w'\<rparr>)"
    using send [of ex agent prompt s i] sent by simp
  have rest: "rel (Suc n) ex (ex\<lparr>ex_world := snd (retry_send env s i agent prompt n e w')\<rparr>)" for e
    using trans [OF one Suc.IH [of "ex\<lparr>ex_world := w'\<rparr>" e]] by simp
  show ?case
    using rest more [OF one] sent by (cases ans) simp_all
qed

lemma attempt_rel:
  "rel (attempts (ws_error_mode s)) ex
     (ex\<lparr>ex_world := snd (execute_step_with_error_mode env s i agent prompt (ex_world ex))\<rparr>)"
  using send [of ex agent prompt s i] retry_rel [of _ ex s i agent prompt "[]"]
  by (auto simp: execute_step_with_error_mode_def attempts_def simp del: retry_send.simps
      split: error_mode.splits prod.splits send_answer.splits sum.splits)
     (metis snd_conv)+

lemma attempt_world:
  assumes "execute_step_with_error_mode env s i agent prompt (ex_world ex) = (res, w')"
  shows "rel (attempts (ws_error_mode s)) ex (ex\<lparr>ex_world := w'\<rparr>)"
  using attempt_rel [of s ex i agent prompt] assms by simp

lemma single_ok: "flow_ok (attempts (ws_error_mode s)) ex (exec_single env rid i s ex)"
  by (auto simp: exec_single_def Let_def split: option.splits prod.splits sum.splits
      intro!: rel_intros stop_fail intro: attempt_world stop_plain [OF more [OF same]])

lemma loop_ok:
  "flow_ok (n * attempts (ws_error_mode s)) ex (exec_loop env rid i s agent name u n k ex)"
proof (induction n arbitrary: k ex)
  case 0
  show ?case by (simp add: same)
next
  case (Suc n)
  let ?m = "attempts (ws_error_mode s)"
  obtain res w' where run: "execute_step_with_error_mode env s i agent
      (expand_variables env (ws_prompt_template s) (ex_current ex) (ex_vars ex)) (ex_world ex) = (res, w')"
    by fastforce
  have one: "rel ?m ex (ex\<lparr>ex_world := w'\<rparr>)"
    by (rule attempt_world [OF run])
  have go: "flow_ok (?m + n * ?m) ex (exec_loop env rid i s agent name u n k' ex')"
    if "rel ?m ex ex'" for k' ex'
    by (rule flow_after [OF that Suc.IH])
  show ?case
    using run one
    by (auto simp: Let_def split: option.splits sum.splits
        intro!: go rel_intros intro: more more_stop stop_fail)
qed

lemma loop_step_ok:
  "flow_ok (n * attempts (ws_error_mode s)) ex (exec_loop_step env rid i s n u ex)"
  using loop_ok [of n s ex i] 
  by (auto simp: exec_loop_step_def Let_def stop_plain [OF more [OF same]] split: option.splits flow.splits
      intro!: rel_intros) (metis flow_ok_simps)+

lemma send_all_rel:
  "rel (length calls) ex (ex\<lparr>ex_world := snd (send_all env cur vs i calls (ex_world ex))\<rparr>)"
proof (induction calls arbitrary: i ex)
  case Nil
  show ?case using same [of ex] by simp
next
  case (Cons call calls)
  obtain s agent name where call: "call = (s, agent, name)" by (cases call)
  obtain a w1 where sent:
    "wv_send env agent (expand_variables env (ws_prompt_template s) cur vs) s i (ex_world ex) = (a, w1)"
    by fastforce
  have "rel 1 ex (ex\<lparr>ex_world := w1\<rparr>)"
    using send [of ex agent _ s i] sent by (metis snd_conv)
  from trans [OF this Cons.IH [of "ex\<lparr>ex_world := w1\<rparr>" "i + 1"]] show ?case
    by (auto simp: call sent split: prod.splits)
qed

lemma read_ok: "rel n a ex \<Longrightarrow> flow_ok n a (read_answers env rid d answers ex)"
proof (induction answers arbitrary: ex)
  case (Cons x answers)
  obtain s agent name ans where x: "x = ((s, agent, name), ans)" by (cases x) auto
  show ?case
    using Cons.prems
    by (cases ans) (auto simp: x Let_def intro!: Cons.IH rel_intros stop_fail)
qed simp

lemma fan_out_ok: "flow_ok (length ss) ex (exec_fan_out env rid i ss ex)"
proof (cases "resolve_all env ss")
  case (Inl e)
  then show ?thesis by (simp add: exec_fan_out_def stop_plain [OF more [OF same]])
next
  case (Inr agents)
  have "rel (length ss) ex
     (ex\<lparr>ex_world := snd (send_all env (ex_current ex) (ex_vars ex) i (zip ss agents) (ex_world ex))\<rparr>)"
    by (rule more [OF send_all_rel]) simp
  then show ?thesis
    using Inr by (auto simp: exec_fan_out_def Let_def intro: read_ok split: prod.splits)
qed

lemma by_agent_ok:
  "case collect_by_agent env rid i s name prompt tn nf sk pick ex of
     Inl (e, ex') \<Rightarrow> stop (attempts (ws_error_mode s)) ex e ex'
   | Inr (out, ex') \<Rightarrow> rel (attempts (ws_error_mode s)) ex ex'"
  using attempt_world [of "synth_aggregate_step s (ByName name) prompt" i _ prompt ex]
  by (auto simp: collect_by_agent_def Let_def synth_aggregate_step_def
      split: option.splits prod.splits sum.splits
      intro!: rel_push stop_fail intro: stop_plain more [OF same])

lemma collect_ok: "flow_ok (attempts (ws_error_mode s)) ex (exec_collect env rid inp i s ex)"
proof -
  let ?m = "attempts (ws_error_mode s)"
  have triv: "rel ?m ex ex" "stop ?m ex e ex" for e
    by (auto intro: more [OF same] stop_plain)
  have "case collect_outputs env rid inp i s ex of
     Inl (e, ex') \<Rightarrow> stop ?m ex e ex' | Inr (out, ex') \<Rightarrow> rel ?m ex ex'"
    using by_agent_ok [where s = s and i = i] triv
    by (auto simp: collect_outputs_def Let_def split: aggregation_strategy.splits option.splits sum.splits)
  then show ?thesis
    by (auto simp: exec_collect_def split: sum.splits prod.splits intro!: rel_intros)
qed

lemma step_ok:
  assumes "\<not> is_fan_out s"
  shows "flow_ok (step_budget s) ex (exec_step env rid inp i s ex)"
  using assms single_ok loop_step_ok collect_ok more [OF same]
  by (cases "ws_mode s") (auto simp: exec_step_def step_budget_def)

lemma steps_ok: "flow_ok (steps_budget ss) ex (exec_from env rid inp i ss ex)"
proof (induction ss arbitrary: i ex rule: length_induct)
  case (1 ss)
  show ?case
  proof (cases ss)
    case Nil
    then show ?thesis by (simp add: same)
  next
    case (Cons s rest)
    note IH = 1 [rule_format, unfolded Cons]
    show ?thesis
    proof (cases "is_fan_out s")
      case True
      let ?fan = "s # takeWhile is_fan_out rest" and ?rest = "dropWhile is_fan_out rest"
      have budget: "steps_budget ss = length ?fan + steps_budget ?rest"
        using True fan_out_budget [of rest] by (simp add: Cons step_budget_def)
      have "flow_ok (steps_budget ?rest) b (exec_from env rid inp (i + length ?fan) ?rest b)" for b
        by (rule IH) (simp add: length_dropWhile_le le_imp_less_Suc)
      from flow_seq [OF fan_out_ok [of ?fan ex i] this] show ?thesis
        unfolding budget using True by (simp add: Cons Let_def)
    next
      case False
      have "flow_ok (steps_budget rest) b (exec_from env rid inp (i + 1) rest b)" for b
        by (rule IH) simp
      from flow_seq [OF step_ok [OF False, of ex inp i] this] show ?thesis
        using False by (simp add: Cons)
    qed
  qed
qed

end

subsection \<open>What a run changes\<close>

definition results_added :: "workflow_run \<Rightarrow> workflow_run \<Rightarrow> bool" where
  "results_added r r' =
     (r' = r\<lparr>wr_step_results := wr_step_results r'\<rparr> \<and> prefix (wr_step_results r) (wr_step_results r'))"

text \<open>The run as it is left by an error: as it was, or failed with that error.\<close>

definition run_stopped :: "string \<Rightarrow> workflow_run \<Rightarrow> workflow_run \<Rightarrow> bool" where
  "run_stopped e r r' =
     (results_added r r' \<or>
      (\<exists>t. results_added (r\<lparr>wr_state := RunFailed, wr_error := Some e, wr_completed_at := Some t\<rparr>) r'))"

definition others_kept :: "workflow_run_id \<Rightarrow> workflow_engine \<Rightarrow> workflow_engine \<Rightarrow> bool" where
  "others_kept rid a b =
     (we_workflows b = we_workflows a \<and> (\<forall>k. k \<noteq> rid \<longrightarrow> get_run k b = get_run k a) \<and>
      (st_wf (we_runs a) \<longrightarrow> st_wf (we_runs b)))"

definition keeps_run :: "workflow_run_id \<Rightarrow> nat \<Rightarrow> 'w exec \<Rightarrow> 'w exec \<Rightarrow> bool" where
  "keeps_run rid n a b =
     (others_kept rid (ex_engine a) (ex_engine b) \<and>
      rel_option results_added (get_run rid (ex_engine a)) (get_run rid (ex_engine b)))"

definition stops_run :: "workflow_run_id \<Rightarrow> nat \<Rightarrow> 'w exec \<Rightarrow> string \<Rightarrow> 'w exec \<Rightarrow> bool" where
  "stops_run rid n a e b =
     (others_kept rid (ex_engine a) (ex_engine b) \<and>
      rel_option (run_stopped e) (get_run rid (ex_engine a)) (get_run rid (ex_engine b)))"

lemma results_added_refl [simp]: "results_added r r"
  by (simp add: results_added_def)

lemma results_added_trans: "results_added a b \<Longrightarrow> results_added b c \<Longrightarrow> results_added a c"
  by (cases a; cases b; cases c) (auto simp: results_added_def)

lemma results_added_push [simp]:
  "results_added r (r\<lparr>wr_step_results := wr_step_results r @ srs\<rparr>)"
  by (simp add: results_added_def)

lemma results_added_fail:
  "results_added a b \<Longrightarrow>
     results_added (a\<lparr>wr_state := s, wr_error := e, wr_completed_at := t\<rparr>)
                   (b\<lparr>wr_state := s, wr_error := e, wr_completed_at := t\<rparr>)"
  by (cases a; cases b) (auto simp: results_added_def)

lemma results_added_complete:
  "results_added (a\<lparr>wr_state := s'\<rparr>) b \<Longrightarrow>
     results_added (a\<lparr>wr_state := s, wr_output := out, wr_completed_at := t\<rparr>)
                   (b\<lparr>wr_state := s, wr_output := out, wr_completed_at := t\<rparr>)"
  by (cases a; cases b) (auto simp: results_added_def)

lemma run_stopped_after:
  assumes "results_added a b" and "run_stopped e b c"
  shows "run_stopped e a c"
  using assms results_added_trans [OF assms(1)] results_added_trans [OF results_added_fail [OF assms(1)]]
  unfolding run_stopped_def by fast

lemma run_stopped_fail:
  "results_added a b \<Longrightarrow>
     run_stopped e a (b\<lparr>wr_state := RunFailed, wr_error := Some e, wr_completed_at := Some t\<rparr>)"
  by (auto simp: run_stopped_def intro: results_added_fail)

lemma get_run_modify:
  "get_run k (modify_run rid f eng) = (if k = rid then map_option f (get_run k eng) else get_run k eng)"
  by (auto simp: get_run_def modify_run_def update_conv' split: option.splits)

lemma others_kept_modify [simp]: "others_kept rid a (modify_run rid f a)"
  by (auto simp: others_kept_def get_run_modify)
     (auto simp: modify_run_def al.wf_put split: option.splits)

lemma others_kept_trans: "others_kept rid a b \<Longrightarrow> others_kept rid b c \<Longrightarrow> others_kept rid a c"
  by (auto simp: others_kept_def)

lemma others_kept_refl [simp]: "others_kept rid a a"
  by (simp add: others_kept_def)

interpretation frame: exec_steps env rid "keeps_run rid" "stops_run rid" for env rid
proof (unfold_locales, goal_cases)
  case (1 ex)
  show ?case by (simp add: keeps_run_def option.rel_refl)
next
  case (2 m a b n c)
  then show ?case
    by (auto simp: keeps_run_def option_rel_Some1 elim!: option.rel_cases intro: others_kept_trans results_added_trans)
next
  case (3 m a b n)
  then show ?case by (simp add: keeps_run_def)
next
  case (4 m a e b n)
  then show ?case by (simp add: stops_run_def)
next
  case (5 ex agent prompt s i)
  show ?case by (simp add: keeps_run_def option.rel_refl)
next
  case (6 ex sr)
  show ?case
    by (cases "get_run rid (ex_engine ex)") (simp_all add: keeps_run_def push_result_def get_run_modify)
next
  case (7 ex cur outs vs)
  show ?case by (simp add: keeps_run_def option.rel_refl)
next
  case (8 n a b e)
  then show ?case
    by (auto simp: keeps_run_def stops_run_def run_stopped_def elim: option.rel_mono_strong)
next
  case (9 n a b e)
  then show ?case
    by (auto simp: keeps_run_def stops_run_def fail_run_def get_run_modify intro: run_stopped_fail
        others_kept_trans elim!: option.rel_cases)
next
  case (10 m a b n e c)
  then show ?case
    by (auto simp: keeps_run_def stops_run_def option_rel_Some1 intro: others_kept_trans run_stopped_after
        elim!: option.rel_cases)
qed

subsection \<open>How many messages a run sends\<close>

text \<open>
  A count of the messages is a number read off the world that one call raises by at most one.
\<close>

definition counts_sends :: "'w workflow_env \<Rightarrow> ('w \<Rightarrow> nat) \<Rightarrow> bool" where
  "counts_sends env c = (\<forall>agent prompt s i w. c (snd (wv_send env agent prompt s i w)) \<le> c w + 1)"

definition sends_within :: "'w workflow_env \<Rightarrow> ('w \<Rightarrow> nat) \<Rightarrow> nat \<Rightarrow> 'w exec \<Rightarrow> 'w exec \<Rightarrow> bool" where
  "sends_within env c n a b = (counts_sends env c \<longrightarrow> c (ex_world b) \<le> c (ex_world a) + n)"

interpretation sending: exec_steps env rid "sends_within env c" "\<lambda>n a e. sends_within env c n a" for env rid c
  by unfold_locales
     (auto simp: sends_within_def push_result_def fail_run_def, auto simp: counts_sends_def)

section \<open>Properties of runs\<close>

lemma execute_run_flow:
  assumes "get_run rid eng = Some run" and "get_workflow (wr_workflow_id run) eng = Some flow"
  shows "execute_run env rid eng w =
     (case exec_from env rid (wr_input run) 0 (wf_steps flow)
             \<lparr>ex_engine = modify_run rid (\<lambda>r. r\<lparr>wr_state := RunRunning\<rparr>) eng, ex_world = w,
              ex_current = wr_input run, ex_outputs = [], ex_vars = []\<rparr> of
        Abort e ex \<Rightarrow> (Inl e, ex_engine ex, ex_world ex)
      | Proceed ex \<Rightarrow>
          (Inr (ex_current ex),
           modify_run rid (\<lambda>r. r\<lparr>wr_state := RunCompleted, wr_output := Some (ex_current ex),
              wr_completed_at := Some (wv_now env (ex_world ex))\<rparr>) (ex_engine ex),
           ex_world ex))"
  using assms
  by (simp add: execute_run_def get_run_def get_workflow_def modify_run_def)

lemma execute_run_effect:
  assumes run: "get_run rid eng = Some run"
    and exec: "execute_run env rid eng w = (res, eng', w')"
  obtains run' where "others_kept rid eng eng'" and "get_run rid eng' = Some run'"
    and "case res of
           Inr out \<Rightarrow> \<exists>t. results_added (run\<lparr>wr_state := RunCompleted, wr_output := Some out,
                       wr_completed_at := Some t\<rparr>) run'
         | Inl e \<Rightarrow> run_stopped e (run\<lparr>wr_state := RunRunning\<rparr>) run'"
proof (cases "get_workflow (wr_workflow_id run) eng")
  case None
  then have "res = Inl ''Workflow definition not found''"
    and "eng' = modify_run rid (\<lambda>r. r\<lparr>wr_state := RunRunning\<rparr>) eng"
    using exec run
    by (auto simp: execute_run_def get_run_def get_workflow_def modify_run_def)
  then show thesis
    using that run by (simp add: get_run_modify run_stopped_def)
next
  case (Some flow)
  let ?eng1 = "modify_run rid (\<lambda>r. r\<lparr>wr_state := RunRunning\<rparr>) eng"
  let ?ex = "\<lparr>ex_engine = ?eng1, ex_world = w, ex_current = wr_input run, ex_outputs = [], ex_vars = []\<rparr>"
  let ?run1 = "run\<lparr>wr_state := RunRunning\<rparr>"
  have ok: "frame.flow_ok rid (steps_budget (wf_steps flow)) ?ex
      (exec_from env rid (wr_input run) 0 (wf_steps flow) ?ex)"
    by (rule frame.steps_ok)
  have run1: "get_run rid ?eng1 = Some ?run1" and kept1: "others_kept rid eng ?eng1"
    using run by (simp_all add: get_run_modify)
  show thesis
  proof (cases "exec_from env rid (wr_input run) 0 (wf_steps flow) ?ex")
    case (Abort e ex)
    then have res: "res = Inl e" "eng' = ex_engine ex"
      using exec execute_run_flow [OF run Some, of env w] by auto
    have "stops_run rid (steps_budget (wf_steps flow)) ?ex e ex"
      using ok Abort by simp
    then show thesis
      using that res run1 others_kept_trans [OF kept1]
      by (auto simp: stops_run_def option_rel_Some1)
  next
    case (Proceed ex)
    then have res: "res = Inr (ex_current ex)"
      "eng' = modify_run rid (\<lambda>r. r\<lparr>wr_state := RunCompleted, wr_output := Some (ex_current ex),
              wr_completed_at := Some (wv_now env (ex_world ex))\<rparr>) (ex_engine ex)"
      using exec execute_run_flow [OF run Some, of env w] by auto
    have "keeps_run rid (steps_budget (wf_steps flow)) ?ex ex"
      using ok Proceed by simp
    then obtain r where kept: "others_kept rid ?eng1 (ex_engine ex)"
      and r: "get_run rid (ex_engine ex) = Some r" "results_added ?run1 r"
      using run1 by (auto simp: keeps_run_def option_rel_Some1)
    have "others_kept rid eng eng'"
      unfolding res by (intro others_kept_trans [OF kept1] others_kept_trans [OF kept] others_kept_modify)
    with r show thesis
      using that res by (auto simp: get_run_modify intro!: results_added_complete)
  qed
qed

text \<open>
  C11. A run that returns an output is recorded as completed with that output and a time, its step
  results only grow, and no other run and no workflow definition changes.
\<close>

theorem completed_run_recorded:
  assumes "execute_run env rid eng w = (Inr out, eng', w')"
  shows "\<exists>run run' t. get_run rid eng = Some run \<and> get_run rid eng' = Some run' \<and>
    run' = run\<lparr>wr_state := RunCompleted, wr_output := Some out, wr_completed_at := Some t,
               wr_step_results := wr_step_results run'\<rparr> \<and>
    prefix (wr_step_results run) (wr_step_results run') \<and>
    we_workflows eng' = we_workflows eng \<and> (\<forall>k. k \<noteq> rid \<longrightarrow> get_run k eng' = get_run k eng)"
proof -
  obtain run where run: "get_run rid eng = Some run"
    using assms by (auto simp: execute_run_def get_run_def split: option.splits)
  obtain run' where "others_kept rid eng eng'" "get_run rid eng' = Some run'"
    and "\<exists>t. results_added (run\<lparr>wr_state := RunCompleted, wr_output := Some out,
                       wr_completed_at := Some t\<rparr>) run'"
    by (rule execute_run_effect [OF run assms]) auto
  then show ?thesis
    using run by (auto simp: others_kept_def results_added_def intro!: exI [of _ run'])
qed

text \<open>An agent that answers every message with the text of the message in brackets.\<close>

definition echo_env :: "nat workflow_env" where
  "echo_env =
     \<lparr>wv_resolve = (\<lambda>a. case a of ByName n \<Rightarrow> if n = ''echo'' then Some (7, n) else None | ById _ \<Rightarrow> None),
      wv_send = (\<lambda>agent prompt s i w. (Sent (''<'' @ prompt @ ''>'') 1 1, Suc w)),
      wv_elapsed_ms = (\<lambda>a b. b - a), wv_now = int, wv_lower = to_ascii_lowercase,
      wv_json_strings = (\<lambda>ss. join_str '','' ss), wv_debug_str = (\<lambda>s. s),
      wv_consensus_need = (\<lambda>n t. n), wv_order_vars = (\<lambda>vs. vs), wv_order_counts = (\<lambda>vs. vs)\<rparr>"

definition sample_step :: "string \<Rightarrow> workflow_step" where
  "sample_step agent =
     \<lparr>ws_name = ''s'', ws_agent = ByName agent, ws_prompt_template = ''p'', ws_mode = Sequential,
      ws_timeout_secs = 120, ws_error_mode = FailMode, ws_output_var = None, ws_collect_aggregation = None\<rparr>"

definition sample_engine :: "workflow_step list \<Rightarrow> workflow_engine" where
  "sample_engine steps =
     \<lparr>we_workflows = [(1, \<lparr>wf_id = 1, wf_name = ''w'', wf_description = [], wf_steps = steps,
                            wf_created_at = 0\<rparr>)],
      we_runs = [(2, \<lparr>wr_id = 2, wr_workflow_id = 1, wr_workflow_name = ''w'', wr_input = ''a'',
                      wr_state = RunPending, wr_step_results = [], wr_output = None, wr_error = None,
                      wr_started_at = 0, wr_completed_at = None\<rparr>)]\<rparr>"

lemmas sample_simps =
  echo_env_def sample_step_def sample_engine_def execute_run_def modify_run_def exec_step_def
  exec_single_def expand_variables_def execute_step_with_error_mode_def push_result_def
  store_output_def replace_str_def braces_def starts_with_def

lemma sample_run:
  "\<exists>eng'. execute_run echo_env 2 (sample_engine [sample_step ''echo'']) 0 = (Inr ''<p>'', eng', 1)"
  by (simp add: sample_simps)

theorem completed_run_recorded_witness:
  "\<exists>eng' run'. execute_run echo_env 2 (sample_engine [sample_step ''echo'']) 0 = (Inr ''<p>'', eng', 1) \<and>
     get_run 2 eng' = Some run' \<and> wr_state run' = RunCompleted \<and> wr_output run' = Some ''<p>''"
proof -
  obtain eng' where e: "execute_run echo_env 2 (sample_engine [sample_step ''echo'']) 0 = (Inr ''<p>'', eng', 1)"
    using sample_run by blast
  show ?thesis
    using completed_run_recorded [OF e] e
    by (elim exE conjE) (intro exI conjI, assumption+, (erule ssubst, simp)+)
qed

text \<open>
  The number of messages a run sends is at most the sum over its steps of the attempts their
  error modes allow, times the iterations of a loop: for every count of messages that one call
  raises by at most one, whatever the agents answer and whether the run succeeds or not.
\<close>

lemma run_sends_bounded:
  assumes "execute_run env rid eng w = (res, eng', w')"
    and "get_run rid eng = Some run" and "get_workflow (wr_workflow_id run) eng = Some flow"
    and "counts_sends env c"
  shows "c w' \<le> c w + steps_budget (wf_steps flow)"
proof -
  let ?ex = "\<lparr>ex_engine = modify_run rid (\<lambda>r. r\<lparr>wr_state := RunRunning\<rparr>) eng, ex_world = w,
              ex_current = wr_input run, ex_outputs = [], ex_vars = []\<rparr>"
  have "sending.flow_ok env c (steps_budget (wf_steps flow)) ?ex
      (exec_from env rid (wr_input run) 0 (wf_steps flow) ?ex)"
    by (rule sending.steps_ok)
  then show ?thesis
    using assms(1,4) execute_run_flow [OF assms(2,3), of env w]
    by (auto simp: sends_within_def split: flow.splits)
qed

lemma run_sends_bounded_witness:
  "\<exists>eng'. execute_run echo_env 2 (sample_engine [sample_step ''echo'']) 0 = (Inr ''<p>'', eng', 1) \<and>
     (1 :: nat) \<le> 0 + steps_budget [sample_step ''echo'']"
proof -
  let ?steps = "[sample_step ''echo'']"
  obtain eng' where e: "execute_run echo_env 2 (sample_engine ?steps) 0 = (Inr ''<p>'', eng', 1)"
    using sample_run by blast
  obtain run flow where rf: "get_run 2 (sample_engine ?steps) = Some run"
    "get_workflow (wr_workflow_id run) (sample_engine ?steps) = Some flow" "wf_steps flow = ?steps"
    by (simp add: sample_engine_def get_run_def get_workflow_def)
  have "counts_sends echo_env (\<lambda>w. w)"
    by (simp add: counts_sends_def echo_env_def)
  from run_sends_bounded [OF e rf(1,2) this] e rf(3) show ?thesis by auto
qed

subsection \<open>Runs that stay in progress\<close>

lemma fold_evict:
  "fold (\<lambda>(i, _). st_del i) es runs = filter (\<lambda>e. fst e \<notin> fst ` set es) runs"
proof -
  have "fold (\<lambda>(i, _). st_del i) es runs = fold st_del (map fst es) runs" for runs :: "('a, 'b) store"
    by (induction es arbitrary: runs) auto
  then show ?thesis by (simp add: fold_del_filter)
qed

definition evicted :: "nat \<Rightarrow> (workflow_run_id, workflow_run) store \<Rightarrow> workflow_run_id set" where
  "evicted cap runs =
     fst ` set (take (length runs - cap)
       (sort_key snd (map (\<lambda>(i, r). (i, wr_started_at r)) (filter (\<lambda>(_, r). run_finished r) runs))))"

lemma evict_filter: "evict_oldest cap runs = filter (\<lambda>e. fst e \<notin> evicted cap runs) runs"
  by (simp add: evict_oldest_def evicted_def Let_def fold_evict)

lemma evicted_finished:
  assumes "st_wf runs" and "k \<in> evicted cap runs" and "st_get runs k = Some r"
  shows "run_finished r"
proof -
  have "k \<in> fst ` set (filter (\<lambda>(_, r). run_finished r) runs)"
    using assms(2) by (force simp: evicted_def dest: in_set_takeD)
  then show ?thesis
    using assms(1,3) by (auto simp: al.entries_get)
qed

lemma get_filter:
  assumes "st_wf m" and "st_get m k = Some v"
  shows "st_get (filter P m) k = (if P (k, v) then Some v else None)"
proof -
  have wf: "st_wf (filter P m)"
    by (rule st_wf_filter [OF assms(1)])
  have "st_get (filter P m) k = Some v \<longleftrightarrow> P (k, v)"
    using assms al.entries_get [OF wf, of k v] al.entries_get [OF assms(1), of k v] by auto
  moreover have "st_get (filter P m) k = Some v' \<Longrightarrow> v' = v" for v'
    using assms al.entries_get [OF wf, of k v'] al.entries_get [OF assms(1), of k v'] by auto
  ultimately show ?thesis by (cases "st_get (filter P m) k") auto
qed

lemma length_filter_keys:
  assumes "st_wf m" and "K \<subseteq> fst ` set m"
  shows "length (filter (\<lambda>e. fst e \<notin> K) m) = length m - card K"
proof -
  have "length (filter (\<lambda>e. fst e \<notin> K) m) = card (fst ` set (filter (\<lambda>e. fst e \<notin> K) m))"
    using distinct_card [of "map fst (filter (\<lambda>e. fst e \<notin> K) m)"] st_wf_filter [OF assms(1)]
    by (simp add: st_wf_def)
  also have "fst ` set (filter (\<lambda>e. fst e \<notin> K) m) = fst ` set m - K" by auto
  also have "card (fst ` set m - K) = length m - card K"
    using assms distinct_card [of "map fst m"]
    by (subst card_Diff_subset) (auto simp: st_wf_def intro: finite_subset)
  finally show ?thesis .
qed

lemma finished_keys:
  "map fst (map (\<lambda>(i, r). (i, wr_started_at r)) (filter (\<lambda>(_, r). run_finished r) runs)) =
   map fst (filter (\<lambda>(_, r). run_finished r) runs)"
  by (simp add: case_prod_unfold)

lemma evicted_card:
  assumes "st_wf runs"
  shows "card (evicted cap runs) =
    min (length runs - cap) (length (filter (\<lambda>(_, r). run_finished r) runs))"
proof -
  let ?es = "map (\<lambda>(i, r). (i, wr_started_at r)) (filter (\<lambda>(_, r). run_finished r) runs)"
  have "distinct (map fst ?es)"
    unfolding finished_keys using st_wf_filter [OF assms] by (simp add: st_wf_def)
  then have "distinct (map fst (sort_key snd ?es))"
    by (simp only: distinct_map distinct_sort set_sort)
  then have "distinct (map fst (take (length runs - cap) (sort_key snd ?es)))"
    by (metis distinct_take take_map)
  from distinct_card [OF this] show ?thesis by (simp add: evicted_def)
qed

lemma evicted_keys: "evicted cap runs \<subseteq> fst ` set runs"
  by (force simp: evicted_def dest: in_set_takeD)

lemma evict_bound:
  assumes "st_wf runs"
  shows "length (evict_oldest cap runs) \<le> cap \<or> (\<forall>e \<in> set (evict_oldest cap runs). \<not> run_finished (snd e))"
proof (cases "length runs - cap \<le> length (filter (\<lambda>(_, r). run_finished r) runs)")
  case True
  then have "length (evict_oldest cap runs) = length runs - (length runs - cap)"
    using length_filter_keys [OF assms evicted_keys] evicted_card [OF assms, of cap]
    by (simp add: evict_filter)
  then show ?thesis by linarith
next
  case False
  then have "evicted cap runs = fst ` set (filter (\<lambda>(_, r). run_finished r) runs)"
    by (force simp: evicted_def)
  then show ?thesis
    by (force simp: evict_filter)
qed

lemma sorted_take_drop:
  assumes "sorted (map f xs)" and "x \<in> set (take n xs)" and "y \<in> set xs" and "y \<notin> set (take n xs)"
  shows "f x \<le> f y"
proof -
  have "y \<in> set (drop n xs)"
    using assms(3,4) by (metis Un_iff append_take_drop_id set_append)
  moreover have "sorted (map f (take n xs) @ map f (drop n xs))"
    using assms(1) by (metis append_take_drop_id map_append)
  ultimately show ?thesis
    using assms(2) by (auto simp: sorted_append)
qed

lemma evicts_oldest:
  assumes "st_wf runs" and "k \<in> evicted cap runs" and "st_get runs k = Some r"
    and "k' \<notin> evicted cap runs" and "st_get runs k' = Some r'" and "run_finished r'"
  shows "wr_started_at r \<le> wr_started_at r'"
proof -
  let ?es = "map (\<lambda>(i, r). (i, wr_started_at r)) (filter (\<lambda>(_, r). run_finished r) runs)"
  let ?n = "length runs - cap"
  obtain t where t: "(k, t) \<in> set (take ?n (sort_key snd ?es))"
    using assms(2) by (auto simp: evicted_def)
  then have "(k, t) \<in> set ?es" by (metis in_set_takeD set_sort)
  then have [simp]: "t = wr_started_at r"
    using assms(1,3) by (auto simp: al.entries_get)
  have "(k', wr_started_at r') \<in> set ?es"
    using al.entries_get [OF assms(1), of k' r'] assms(5,6) by force
  moreover have "(k', wr_started_at r') \<notin> set (take ?n (sort_key snd ?es))"
    using assms(4) by (force simp: evicted_def)
  ultimately show ?thesis
    using sorted_take_drop [OF _ t, of snd "(k', wr_started_at r')"] by simp
qed

definition ttl_survives :: "retention_limits \<Rightarrow> time \<Rightarrow> workflow_run \<Rightarrow> bool" where
  "ttl_survives ret now r =
     (case run_ttl_secs ret of Some ttl \<Rightarrow> ttl_keep now ttl r | None \<Rightarrow> True)"

lemma create_run_runs:
  assumes "get_workflow wid eng = Some flow"
  shows "create_run rid now wid input ret eng =
    (Some rid, eng\<lparr>we_runs := evict_oldest (max_retained_runs ret)
       (filter (\<lambda>(_, r). ttl_survives ret now r)
          (st_put rid (new_run rid now flow wid input) (we_runs eng)))\<rparr>)"
  using assms
  by (simp add: create_run_def get_workflow_def ttl_survives_def Let_def case_prod_unfold split: option.splits)

lemma unfinished_survives: "\<not> run_finished r \<Longrightarrow> ttl_survives ret now r"
  by (simp add: ttl_survives_def ttl_keep_def split: option.splits)

lemma kept_run:
  assumes "st_wf runs" and "st_get runs k = Some r" and "ttl_survives ret now r"
  shows "st_get (evict_oldest cap (filter (\<lambda>(_, r). ttl_survives ret now r) runs)) k =
    (if k \<in> evicted cap (filter (\<lambda>(_, r). ttl_survives ret now r) runs) then None else Some r)"
  using assms
  by (simp add: evict_filter get_filter st_wf_filter)

lemma create_keeps_unfinished:
  assumes "st_wf (we_runs eng)" and "k \<noteq> rid" and "get_run k eng = Some r" and "\<not> run_finished r"
  shows "get_run k (snd (create_run rid now wid input ret eng)) = Some r"
proof (cases "get_workflow wid eng")
  case None
  then show ?thesis using assms by (simp add: create_run_def get_workflow_def)
next
  case (Some flow)
  let ?runs = "st_put rid (new_run rid now flow wid input) (we_runs eng)"
  have runs: "st_wf ?runs" "st_get ?runs k = Some r"
    using assms by (simp_all add: al.wf_put get_run_def al.get_put)
  note live = unfinished_survives [OF assms(4), of ret now]
  have "k \<notin> evicted (max_retained_runs ret) (filter (\<lambda>(_, r). ttl_survives ret now r) ?runs)"
    using evicted_finished [OF st_wf_filter [OF runs(1)]] get_filter [OF runs] live assms(4) by fastforce
  with kept_run [OF runs live] show ?thesis
    by (simp add: create_run_runs [OF Some] get_run_def)
qed

text \<open>
  Creating a run of a known workflow keeps the new run and every run in progress unchanged, and
  afterwards the cap on retained runs holds or nothing finished is left to evict; among the
  finished runs within their time to live, none that is retained started before one that was
  evicted.
\<close>

lemma create_run_retention:
  assumes wf: "st_wf (we_runs eng)" and flow: "get_workflow wid eng = Some flow"
    and created: "create_run rid now wid input ret eng = (res, eng')"
  shows "res = Some rid \<and> get_run rid eng' = Some (new_run rid now flow wid input) \<and>
    (\<forall>k r. k \<noteq> rid \<and> get_run k eng = Some r \<and> \<not> run_finished r \<longrightarrow> get_run k eng' = Some r) \<and>
    (length (we_runs eng') \<le> max_retained_runs ret \<or> (\<forall>e \<in> set (we_runs eng'). \<not> run_finished (snd e))) \<and>
    (\<forall>k r k' r'. k \<noteq> rid \<and> get_run k eng = Some r \<and> ttl_survives ret now r \<and> get_run k eng' = None \<and>
       get_run k' eng' = Some r' \<and> run_finished r' \<longrightarrow> wr_started_at r \<le> wr_started_at r')"
proof -
  let ?new = "new_run rid now flow wid input"
  let ?runs = "st_put rid ?new (we_runs eng)"
  let ?fresh = "filter (\<lambda>(_, r). ttl_survives ret now r) ?runs"
  let ?gone = "evicted (max_retained_runs ret) ?fresh"
  have runs_wf: "st_wf ?runs" and fresh_wf: "st_wf ?fresh"
    by (simp_all add: wf al.wf_put st_wf_filter)
  have res: "res = Some rid" and eng': "eng' = eng\<lparr>we_runs := evict_oldest (max_retained_runs ret) ?fresh\<rparr>"
    using created create_run_runs [OF flow, of rid now input ret] by simp_all
  have new: "\<not> run_finished ?new"
    by (simp add: new_run_def run_finished_def)
  have fresh_new: "st_get ?fresh rid = Some ?new"
    using get_filter [OF runs_wf, of rid ?new] unfinished_survives [OF new] by (simp add: al.get_put)
  then have "rid \<notin> ?gone"
    using evicted_finished [OF fresh_wf] new by blast
  then have p1: "get_run rid eng' = Some ?new"
    using fresh_new get_filter [OF fresh_wf fresh_new] by (simp add: eng' get_run_def evict_filter)
  have p2: "k \<noteq> rid \<and> get_run k eng = Some r \<and> \<not> run_finished r \<longrightarrow> get_run k eng' = Some r" for k r
    using create_keeps_unfinished [OF wf, of k rid r now wid input ret] created by auto
  have p3: "wr_started_at r \<le> wr_started_at r'"
    if "k \<noteq> rid" "get_run k eng = Some r" "ttl_survives ret now r" "get_run k eng' = None"
      "get_run k' eng' = Some r'" "run_finished r'" for k r k' r'
  proof -
    have k: "st_get ?fresh k = Some r"
      using that(1-3) get_filter [OF runs_wf, of k r] by (simp add: get_run_def al.get_put)
    then have gone: "k \<in> ?gone"
      using that(4) get_filter [OF fresh_wf k] by (simp add: eng' get_run_def evict_filter split: if_splits)
    have "(k', r') \<in> set (filter (\<lambda>e. fst e \<notin> ?gone) ?fresh)"
      using that(5) al.entries_get [OF st_wf_filter [OF fresh_wf], of k' r' "\<lambda>e. fst e \<notin> ?gone"]
      unfolding eng' get_run_def evict_filter by simp
    then have "st_get ?fresh k' = Some r'" "k' \<notin> ?gone"
      using al.entries_get [OF fresh_wf, of k' r'] by simp_all
    then show ?thesis
      using evicts_oldest [OF fresh_wf gone k] that(6) by blast
  qed
  have p4: "length (we_runs eng') \<le> max_retained_runs ret \<or> (\<forall>e \<in> set (we_runs eng'). \<not> run_finished (snd e))"
    using evict_bound [OF fresh_wf] by (simp add: eng')
  show ?thesis using res p1 p2 p3 p4 by blast
qed

lemma create_run_retention_witness:
  "\<exists>eng'. create_run 3 5 1 ''b'' \<lparr>max_retained_runs = 1, run_ttl_secs = Some 60\<rparr>
     (sample_engine [sample_step ''echo'']) = (Some 3, eng') \<and> length (we_runs eng') = 2 \<and>
     (\<forall>e \<in> set (we_runs eng'). \<not> run_finished (snd e))"
proof -
  let ?ret = "\<lparr>max_retained_runs = 1, run_ttl_secs = Some 60\<rparr>"
  let ?eng = "sample_engine [sample_step ''echo'']"
  obtain flow where f: "get_workflow 1 ?eng = Some flow"
    by (simp add: sample_engine_def get_workflow_def)
  obtain res eng' where c: "create_run 3 5 1 ''b'' ?ret ?eng = (res, eng')" by fastforce
  have "st_wf (we_runs ?eng)" by (simp add: sample_engine_def st_wf_def)
  from create_run_retention [OF this f c]
  have "res = Some 3" "length (we_runs eng') \<le> 1 \<or> (\<forall>e \<in> set (we_runs eng'). \<not> run_finished (snd e))"
    by simp_all
  moreover have "length (we_runs eng') = 2"
    using c by (auto simp: create_run_def sample_engine_def ttl_keep_def run_finished_def evict_oldest_def new_run_def)
  ultimately show ?thesis using c by auto
qed

lemma create_keeps_wf:
  "st_wf (we_runs eng) \<Longrightarrow> st_wf (we_runs (snd (create_run rid now wid input ret eng)))"
  by (cases "get_workflow wid eng")
     (simp_all add: create_run_runs evict_filter st_wf_filter al.wf_put,
      simp add: create_run_def get_workflow_def)

type_synonym run_request = "workflow_run_id \<times> time \<times> workflow_id \<times> string \<times> retention_limits"

definition request_run :: "run_request \<Rightarrow> workflow_engine \<Rightarrow> workflow_engine" where
  "request_run q eng = (case q of (rid, now, wid, input, ret) \<Rightarrow> snd (create_run rid now wid input ret eng))"

definition holds_run :: "workflow_run_id \<Rightarrow> workflow_run \<Rightarrow> workflow_engine \<Rightarrow> bool" where
  "holds_run rid r eng = (st_wf (we_runs eng) \<and> get_run rid eng = Some r)"

interpretation unfinished: run_invariant request_run "\<lambda>q. fst q \<noteq> rid"
  "\<lambda>eng. \<not> run_finished r \<longrightarrow> holds_run rid r eng" for rid r
  by unfold_locales
     (auto simp: request_run_def holds_run_def intro: create_keeps_wf create_keeps_unfinished)

text \<open>
  When the agent of a sequential first step cannot be resolved, the run returns an error but
  stays in the running state, without an error and without an end, and no later creation of
  runs, under any retention limits and at any time, evicts it.
\<close>

lemma unresolved_agent_leaves_running:
  assumes "st_wf (we_runs eng)" and run: "get_run rid eng = Some run"
    and flow: "get_workflow (wr_workflow_id run) eng = Some flow"
    and steps: "wf_steps flow = step # rest" "ws_mode step = Sequential"
    and "wv_resolve env (ws_agent step) = None"
    and fresh: "list_all (\<lambda>q. fst q \<noteq> rid) requests"
  shows "\<exists>eng'. execute_run env rid eng w = (Inl (agent_not_found step), eng', w) \<and>
    get_run rid (fold request_run requests eng') = Some (run\<lparr>wr_state := RunRunning\<rparr>)"
proof -
  let ?run = "run\<lparr>wr_state := RunRunning\<rparr>"
  let ?eng = "modify_run rid (\<lambda>r. r\<lparr>wr_state := RunRunning\<rparr>) eng"
  have res: "execute_run env rid eng w = (Inl (agent_not_found step), ?eng, w)"
    using assms by (simp add: execute_run_flow exec_step_def exec_single_def)
  have "holds_run rid ?run ?eng"
    using assms(1) run others_kept_modify [of rid eng]
    by (simp add: holds_run_def get_run_modify others_kept_def)
  then have "holds_run rid ?run (fold request_run requests ?eng)"
    using unfinished.run_inv [OF _ fresh, of ?run ?eng] by (simp add: run_finished_def)
  with res show ?thesis by (auto simp: holds_run_def)
qed

lemma unresolved_agent_leaves_running_witness:
  "\<exists>eng' r. execute_run echo_env 2 (sample_engine [sample_step ''nobody'']) 0 =
       (Inl (agent_not_found (sample_step ''nobody'')), eng', 0) \<and>
     get_run 2 (request_run (3, 10 ^ 15, 1, ''b'', \<lparr>max_retained_runs = 0, run_ttl_secs = Some 0\<rparr>) eng') = Some r \<and>
     wr_state r = RunRunning"
proof -
  let ?eng = "sample_engine [sample_step ''nobody'']"
  let ?q = "(3, 10 ^ 15, 1, ''b'', \<lparr>max_retained_runs = 0, run_ttl_secs = Some 0\<rparr>) :: run_request"
  obtain run flow where rf: "get_run 2 ?eng = Some run" "get_workflow (wr_workflow_id run) ?eng = Some flow"
    "wf_steps flow = sample_step ''nobody'' # []"
    by (simp add: sample_engine_def get_run_def get_workflow_def)
  have side: "st_wf (we_runs ?eng)" "ws_mode (sample_step ''nobody'') = Sequential"
    "wv_resolve echo_env (ws_agent (sample_step ''nobody'')) = None" "list_all (\<lambda>q. fst q \<noteq> 2) [?q]"
    by (simp_all add: sample_engine_def st_wf_def sample_step_def echo_env_def)
  show ?thesis
    using unresolved_agent_leaves_running [OF side(1) rf side(2-4), of 0] by auto
qed

section \<open>The records of the engine\<close>

text \<open>
  What a run's record means: a completed run has an output and an end, a failed run an error and
  an end, and a pending run nothing yet; every entry is stored under its own identifier.
\<close>

definition run_typed :: "workflow_run \<Rightarrow> bool" where
  "run_typed r =
     (case wr_state r of
        RunPending \<Rightarrow> wr_step_results r = [] \<and> wr_output r = None \<and> wr_error r = None \<and> wr_completed_at r = None
      | RunRunning \<Rightarrow> True
      | RunCompleted \<Rightarrow> wr_output r \<noteq> None \<and> wr_completed_at r \<noteq> None
      | RunFailed \<Rightarrow> wr_error r \<noteq> None \<and> wr_completed_at r \<noteq> None)"

definition engine_typed :: "workflow_engine \<Rightarrow> bool" where
  "engine_typed eng =
     (st_wf (we_runs eng) \<and>
      (\<forall>i flow. get_workflow i eng = Some flow \<longrightarrow> wf_id flow = i) \<and>
      (\<forall>i r. get_run i eng = Some r \<longrightarrow> wr_id r = i \<and> run_typed r))"

datatype 'w engine_op =
    RegisterFlow workflow
  | RemoveFlow workflow_id
  | UpdateFlow workflow_id workflow
  | CreateRun run_request
  | ExecuteRun "'w workflow_env" workflow_run_id 'w

definition engine_step :: "'w engine_op \<Rightarrow> workflow_engine \<Rightarrow> workflow_engine" where
  "engine_step oper eng =
     (case oper of
        RegisterFlow flow \<Rightarrow> snd (we_register flow eng)
      | RemoveFlow i \<Rightarrow> snd (remove_workflow i eng)
      | UpdateFlow i flow \<Rightarrow> snd (update_workflow i flow eng)
      | CreateRun q \<Rightarrow> request_run q eng
      | ExecuteRun env rid w \<Rightarrow> fst (snd (execute_run env rid eng w)))"

lemma added_typed:
  "results_added r r' \<Longrightarrow> wr_state r \<noteq> RunPending \<Longrightarrow> run_typed r' = run_typed r \<and> wr_id r' = wr_id r"
  by (cases r; cases r') (auto simp: results_added_def run_typed_def split: workflow_run_state.splits)

lemma create_typed:
  assumes "engine_typed eng"
  shows "engine_typed (snd (create_run rid now wid input ret eng))"
proof (cases "get_workflow wid eng")
  case None
  then show ?thesis using assms by (simp add: create_run_def get_workflow_def)
next
  case (Some flow)
  let ?eng' = "snd (create_run rid now wid input ret eng)"
  have "wr_id r = i \<and> run_typed r" if "get_run i ?eng' = Some r" for i r
  proof -
    have "(i, r) \<in> set (st_put rid (new_run rid now flow wid input) (we_runs eng))"
      using that by (auto simp: create_run_runs [OF Some] get_run_def evict_filter dest!: map_of_SomeD)
    then have "st_get (st_put rid (new_run rid now flow wid input) (we_runs eng)) i = Some r"
      using assms by (subst al.entries_get [symmetric]) (auto simp: engine_typed_def al.wf_put)
    then show ?thesis
      using assms by (auto simp: al.get_put engine_typed_def get_run_def new_run_def run_typed_def split: if_splits)
  qed
  moreover have "get_workflow i ?eng' = get_workflow i eng" for i
    by (simp add: create_run_runs [OF Some] get_workflow_def)
  ultimately show ?thesis
    using assms create_keeps_wf [of eng] by (simp add: engine_typed_def)
qed

lemma execute_typed:
  assumes "engine_typed eng"
  shows "engine_typed (fst (snd (execute_run env rid eng w)))"
proof (cases "get_run rid eng")
  case None
  then show ?thesis using assms by (simp add: execute_run_def get_run_def)
next
  case (Some run)
  obtain res eng' w' where e: "execute_run env rid eng w = (res, eng', w')" by (metis surj_pair)
  obtain run' where kept: "others_kept rid eng eng'" and run': "get_run rid eng' = Some run'"
    and out: "case res of
           Inr out \<Rightarrow> \<exists>t. results_added (run\<lparr>wr_state := RunCompleted, wr_output := Some out,
                       wr_completed_at := Some t\<rparr>) run'
         | Inl e \<Rightarrow> run_stopped e (run\<lparr>wr_state := RunRunning\<rparr>) run'"
    by (rule execute_run_effect [OF Some e])
  have "wr_id run = rid" using assms Some by (simp add: engine_typed_def)
  then have "wr_id run' = rid \<and> run_typed run'"
    using out by (auto simp: run_stopped_def run_typed_def dest!: added_typed split: sum.splits)
  then have "wr_id r = k \<and> run_typed r" if "get_run k eng' = Some r" for k r
    using that run' kept assms by (cases "k = rid") (auto simp: others_kept_def engine_typed_def)
  then show ?thesis
    using assms kept by (simp add: engine_typed_def others_kept_def get_workflow_def e)
qed

lemma engine_step_typed: "engine_typed eng \<Longrightarrow> engine_typed (engine_step oper eng)"
proof (cases oper)
  case (CreateRun q)
  then show "engine_typed eng \<Longrightarrow> ?thesis"
    by (cases q) (simp add: engine_step_def request_run_def create_typed)
next
  case (ExecuteRun env rid w)
  then show "engine_typed eng \<Longrightarrow> ?thesis"
    by (simp add: engine_step_def execute_typed)
qed (auto simp: engine_step_def engine_typed_def we_register_def remove_workflow_def update_workflow_def
       get_workflow_def get_run_def al.get_put al.get_del split: if_splits option.splits)

interpretation typed: run_from engine_step "\<lambda>_. True" engine_typed we_new
  by unfold_locales
     (simp add: engine_step_typed, simp add: engine_typed_def we_new_def get_run_def get_workflow_def)

text \<open>
  C12. After any sequence of registrations, removals, updates, creations and executions, with any
  agents behind them, every workflow and every run of the engine is stored under its own
  identifier, a completed run has an output and an end, a failed run has an error and an end, and
  a pending run has no results.
\<close>

theorem engine_records_typed:
  fixes ops :: "'w engine_op list"
  shows "engine_typed (fold engine_step ops we_new)"
  by (rule typed.reached_inv) (simp add: list_all_iff)

lemma best_of_choice_in_range:
  "parse_best_of_choice debug reply n = Inr v \<Longrightarrow> v < n"
proof -
  have "first_choice n ts = Some v \<Longrightarrow> v < n" for ts
    by (induction ts) (auto split: option.splits if_splits)
  then show "parse_best_of_choice debug reply n = Inr v \<Longrightarrow> v < n"
    by (auto simp: parse_best_of_choice_def Let_def split: if_splits option.splits)
qed

text \<open>A collect step by an evaluator answers with one of the outputs it was given.\<close>

lemma best_of_picks_an_output:
  assumes "ws_collect_aggregation step = Some (BestOf evaluator criteria)"
    and "collect_outputs env rid inp i step ex = Inr (out, ex')" and "ex_outputs ex \<noteq> []"
  shows "out \<in> set (ex_outputs ex)"
  using assms
  by (auto simp: collect_outputs_def collect_by_agent_def Let_def
      split: if_splits option.splits prod.splits sum.splits dest: best_of_choice_in_range)

end
