(* ===== verification/Context_Budget.thy ===== *)
theory Context_Budget
  imports Utf8 Session_Repair Tool_Gate
begin

text \<open>
  Keeping a conversation inside the context window of its model: the budget of tool results and
  the guard that shortens them (\<^verbatim>\<open>crates/openfang-runtime/src/context_budget.rs\<close>), the recovery
  from an overflow (\<^verbatim>\<open>context_overflow.rs\<close>), the token estimate both use (\<^verbatim>\<open>compactor.rs\<close>), and
  the order in which the agent loop applies them (\<^verbatim>\<open>agent_loop.rs\<close>).

  The product of a \<^verbatim>\<open>usize\<close> with a floating-point constant, truncated back to \<^verbatim>\<open>usize\<close>, is a
  parameter \<open>fmul\<close>; the constants are given as fractions. The JSON text of a value is a
  parameter \<open>to_str\<close>. The slices are written with \<open>take\<close> and \<open>drop\<close>; that their offsets are
  character boundaries, so that they do not panic, is shown below.
\<close>

type_synonym f64_mul = "nat \<Rightarrow> rat \<Rightarrow> nat"

definition exact_mul :: f64_mul where
  "exact_mul n c = nat \<lfloor>of_nat n * c\<rfloor>"

section \<open>The budget\<close>

record context_budget =
  cb_context_window_tokens :: nat
  cb_tool_chars_per_token :: rat
  cb_general_chars_per_token :: rat

definition budget_new :: "nat \<Rightarrow> context_budget" where
  "budget_new context_window_tokens =
     \<lparr>cb_context_window_tokens = context_window_tokens, cb_tool_chars_per_token = 2,
      cb_general_chars_per_token = 4\<rparr>"

definition per_result_cap :: "f64_mul \<Rightarrow> context_budget \<Rightarrow> nat" where
  "per_result_cap fmul b =
     fmul (fmul (cb_context_window_tokens b) (30 / 100)) (cb_tool_chars_per_token b)"

definition single_result_max :: "f64_mul \<Rightarrow> context_budget \<Rightarrow> nat" where
  "single_result_max fmul b =
     fmul (fmul (cb_context_window_tokens b) (50 / 100)) (cb_tool_chars_per_token b)"

definition total_tool_headroom_chars :: "f64_mul \<Rightarrow> context_budget \<Rightarrow> nat" where
  "total_tool_headroom_chars fmul b =
     fmul (fmul (cb_context_window_tokens b) (75 / 100)) (cb_tool_chars_per_token b)"

section \<open>Shortening one result\<close>

definition line_end :: string where
  "line_end = [CHR 0x0A]"

text \<open>The last line end between two offsets, as an offset of the whole text.\<close>

definition last_line_end :: "string \<Rightarrow> nat \<Rightarrow> nat \<Rightarrow> nat option" where
  "last_line_end content a b =
     map_option (\<lambda>pos. a + pos) (rfind_str line_end (take (b - a) (drop a content)))"

definition dynamic_break :: "nat \<Rightarrow> string \<Rightarrow> nat" where
  "dynamic_break cap content =
     (let safe_cap = boundary_below content (min cap (length content));
          search_start = boundary_below content (safe_cap - 200)
      in boundary_below content
           (case last_line_end content search_start safe_cap of
              Some pos \<Rightarrow> pos
            | None \<Rightarrow> safe_cap - 100))"

definition truncate_tool_result_dynamic :: "f64_mul \<Rightarrow> string \<Rightarrow> context_budget \<Rightarrow> string" where
  "truncate_tool_result_dynamic fmul content budget =
     (let cap = per_result_cap fmul budget
      in if length content \<le> cap then content
         else
           let break_point = dynamic_break cap content
           in take break_point content @ line_end @ line_end @ ''[TRUNCATED: result was '' @
              show_nat (length content) @ '' chars, showing first '' @ show_nat break_point @
              '' (budget: '' @ show_nat 30 @ ''% of '' @
              show_nat (cb_context_window_tokens budget div 1000) @ ''K context window)]'')"

definition compact_break :: "nat \<Rightarrow> string \<Rightarrow> nat" where
  "compact_break max_chars content =
     (let keep = boundary_below content (min (max_chars - 80) (length content));
          search_start = boundary_below content (keep - 100)
      in case last_line_end content search_start keep of Some pos \<Rightarrow> pos | None \<Rightarrow> keep)"

definition truncate_to :: "string \<Rightarrow> nat \<Rightarrow> string" where
  "truncate_to content max_chars =
     (if length content \<le> max_chars then content
      else
        let break_point = compact_break max_chars content
        in take break_point content @ line_end @ line_end @ ''[COMPACTED: '' @
           show_nat (length content) @ '' '' @ [CHR 0xE2, CHR 0x86, CHR 0x92] @ '' '' @
           show_nat break_point @ '' chars by context guard]'')"

section \<open>The guard\<close>

text \<open>
  A pass over the tool results of a history in their order, with a state: what the source does
  by the positions it has collected.
\<close>

fun each_block :: "('s \<Rightarrow> string \<Rightarrow> string \<times> 's) \<Rightarrow> content_block list \<Rightarrow> 's \<Rightarrow> content_block list \<times> 's" where
  "each_block f [] s = ([], s)"
| "each_block f (b # bs) s =
     (case b of
        ToolResult i name content e \<Rightarrow>
          let (content', s1) = f s content;
              (bs', s2) = each_block f bs s1
          in (ToolResult i name content' e # bs', s2)
      | _ \<Rightarrow> let (bs', s2) = each_block f bs s in (b # bs', s2))"

fun each_result :: "('s \<Rightarrow> string \<Rightarrow> string \<times> 's) \<Rightarrow> message list \<Rightarrow> 's \<Rightarrow> message list \<times> 's" where
  "each_result f [] s = ([], s)"
| "each_result f (m # ms) s =
     (case m_content m of
        Blocks bs \<Rightarrow>
          let (bs', s1) = each_block f bs s;
              (ms', s2) = each_result f ms s1
          in (m\<lparr>m_content := Blocks bs'\<rparr> # ms', s2)
      | TextContent _ \<Rightarrow> let (ms', s2) = each_result f ms s in (m # ms', s2))"

definition block_contents :: "content_block list \<Rightarrow> string list" where
  "block_contents bs = concat (map (\<lambda>b. case b of ToolResult _ _ content _ \<Rightarrow> [content] | _ \<Rightarrow> []) bs)"

definition result_contents :: "message list \<Rightarrow> string list" where
  "result_contents ms = concat (map (\<lambda>m. block_contents (m_blocks m)) ms)"

text \<open>The total number of characters, and the number of compacted results.\<close>

type_synonym guard_state = "nat \<times> nat"

definition cap_single :: "nat \<Rightarrow> guard_state \<Rightarrow> string \<Rightarrow> string \<times> guard_state" where
  "cap_single single_max st content =
     (case st of (total_chars, compacted) \<Rightarrow>
        if length content > single_max then
          let content' = truncate_to content single_max
          in (content', total_chars - length content + length content', compacted + 1)
        else (content, st))"

definition COMPACT_TARGET :: nat where
  "COMPACT_TARGET = 2000"

text \<open>The second pass also knows the length each result had before the first.\<close>

definition compact_oldest ::
  "nat \<Rightarrow> nat list \<times> guard_state \<Rightarrow> string \<Rightarrow> string \<times> nat list \<times> guard_state" where
  "compact_oldest headroom st content =
     (case st of (lens, total_chars, compacted) \<Rightarrow>
        if total_chars \<le> headroom \<or> hd lens \<le> COMPACT_TARGET then (content, tl lens, total_chars, compacted)
        else if length content > COMPACT_TARGET then
          let content' = truncate_to content COMPACT_TARGET
          in (content', tl lens, total_chars - length content + length content', compacted + 1)
        else (content, tl lens, total_chars, compacted))"

definition apply_context_guard :: "f64_mul \<Rightarrow> message list \<Rightarrow> context_budget \<Rightarrow> message list \<times> nat" where
  "apply_context_guard fmul messages budget =
     (let headroom = total_tool_headroom_chars fmul budget;
          single_max = single_result_max fmul budget;
          lens = map length (result_contents messages);
          total_chars = sum_list lens
      in if total_chars \<le> headroom then (messages, 0)
         else
           let (ms1, total1, compacted1) = each_result (cap_single single_max) messages (total_chars, 0);
               (ms2, _, _, compacted2) = each_result (compact_oldest headroom) ms1 (lens, total1, compacted1)
           in (ms2, compacted2))"

section \<open>Overflow\<close>

definition has_tool_use :: "message \<Rightarrow> bool" where
  "has_tool_use m = (uses_of (m_blocks m) \<noteq> [])"

definition has_tool_result :: "message \<Rightarrow> bool" where
  "has_tool_result m = (results_of (m_blocks m) \<noteq> [])"

text \<open>The second case of the source leaves the boundary as it is.\<close>

definition safe_drain_boundary :: "message list \<Rightarrow> nat \<Rightarrow> nat" where
  "safe_drain_boundary messages boundary =
     (if boundary = 0 \<or> boundary \<ge> length messages then boundary
      else if m_role (messages ! boundary) = UserRole \<and> has_tool_result (messages ! boundary)
              \<and> m_role (messages ! (boundary - 1)) = AssistantRole \<and> has_tool_use (messages ! (boundary - 1))
           then boundary - 1 else boundary)"

definition drain_count :: "nat \<Rightarrow> message list \<Rightarrow> nat" where
  "drain_count keep messages =
     safe_drain_boundary messages (length messages - min keep (length messages))"

definition estimate_token_count ::
  "(json \<Rightarrow> string) \<Rightarrow> message list \<Rightarrow> string option \<Rightarrow> tool_definition list option \<Rightarrow> nat" where
  "estimate_token_count to_str messages system_prompt tools =
     ((case system_prompt of Some sp \<Rightarrow> length sp | None \<Rightarrow> 0)
      + sum_list (map (\<lambda>m. text_length to_str (m_content m) + 16) messages)
      + (case tools of
           Some defs \<Rightarrow> sum_list (map (\<lambda>t. length (td_name t) + length (td_description t)
                                         + length (to_str (td_input_schema t))) defs)
         | None \<Rightarrow> 0)) div 4"

datatype recovery_stage =
    NoRecovery
  | AutoCompaction nat
  | OverflowCompaction nat
  | ToolResultTruncation nat
  | FinalError

definition overflow_marker :: "nat \<Rightarrow> string" where
  "overflow_marker remove =
     ''[System: '' @ show_nat remove @ '' earlier messages were removed due to context overflow. '' @
     ''The conversation continues from here. Use /compact for smarter summarization.]''"

definition truncate_historical :: "nat \<Rightarrow> string \<Rightarrow> string \<times> nat" where
  "truncate_historical truncated content =
     (if length content > 2000 then
        let safe_keep = boundary_below content (2000 - 80)
        in (take safe_keep content @ line_end @ line_end @ ''[OVERFLOW RECOVERY: truncated from '' @
            show_nat (length content) @ '' to '' @ show_nat safe_keep @ '' chars]'', truncated + 1)
      else (content, truncated))"

definition recover_from_overflow ::
  "f64_mul \<Rightarrow> (json \<Rightarrow> string) \<Rightarrow> string \<Rightarrow> tool_definition list \<Rightarrow> nat \<Rightarrow> message list
     \<Rightarrow> recovery_stage \<times> message list" where
  "recover_from_overflow fmul to_str system_prompt tools context_window messages =
     (let est = (\<lambda>ms. estimate_token_count to_str ms (Some system_prompt) (Some tools));
          threshold_70 = fmul context_window (70 / 100);
          threshold_90 = fmul context_window (90 / 100);
          remove1 = (if est messages \<le> threshold_90 then drain_count 10 messages else 0);
          ms1 = drop remove1 messages;
          remove2 = drain_count 4 ms1;
          ms2 = (if remove2 > 0 then user_message (overflow_marker remove2) # drop remove2 ms1 else ms1);
          (ms3, truncated) = each_result truncate_historical ms2 0
      in if est messages \<le> threshold_70 then (NoRecovery, messages)
         else if remove1 > 0 \<and> est ms1 \<le> threshold_70 then (AutoCompaction remove1, ms1)
         else if remove2 > 0 \<and> est ms2 \<le> threshold_90 then (OverflowCompaction remove2, ms2)
         else if truncated > 0 \<and> est ms3 \<le> threshold_90 then (ToolResultTruncation truncated, ms3)
         else (FinalError, ms3))"

text \<open>What the agent loop does to its messages before each call of the model.\<close>

definition prepare_for_model ::
  "f64_mul \<Rightarrow> (json \<Rightarrow> string) \<Rightarrow> string \<Rightarrow> tool_definition list \<Rightarrow> nat \<Rightarrow> context_budget \<Rightarrow> message list
     \<Rightarrow> recovery_stage \<times> message list" where
  "prepare_for_model fmul to_str system_prompt tools ctx_window budget messages =
     (let (recovery, ms) = recover_from_overflow fmul to_str system_prompt tools ctx_window messages;
          ms' = (if recovery \<noteq> NoRecovery then validate_and_repair ms else ms)
      in (recovery, fst (apply_context_guard fmul ms' budget)))"

section \<open>Slices stay inside characters\<close>

lemma last_line_end_Some:
  assumes "last_line_end content a b = Some pos" and "b \<le> length content"
  shows "pos < b \<and> prefix line_end (drop pos content)"
proof -
  obtain i where i: "rfind_str line_end (take (b - a) (drop a content)) = Some i" and pos: "pos = a + i"
    using assms(1) by (auto simp: last_line_end_def)
  have f: "i + 1 \<le> length (take (b - a) (drop a content))" "prefix line_end (drop i (take (b - a) (drop a content)))"
    using rfind_Some [OF i] by (auto simp: line_end_def)
  have "drop i (take (b - a) (drop a content)) = take (b - a - i) (drop pos content)"
    by (simp add: pos drop_take add.commute)
  then have "prefix line_end (drop pos content)"
    using f(2) take_is_prefix prefix_order.trans by metis
  moreover have "i + 1 \<le> b - a" using f(1) by simp
  then have "pos < b" using pos by linarith
  ultimately show ?thesis by simp
qed

lemma line_end_ascii: "line_end \<noteq> []" "ascii line_end"
  by (simp_all add: line_end_def)

lemma line_end_boundary:
  "utf8 content \<Longrightarrow> prefix line_end (drop pos content) \<Longrightarrow> is_char_boundary content pos"
  using ascii_match_boundaries(1) [of content line_end pos] line_end_ascii by blast

lemma compact_break_ok:
  assumes "utf8 content"
  shows "is_char_boundary content (compact_break m content)" and "compact_break m content \<le> m - 80"
    and "compact_break m content \<le> length content"
proof -
  let ?keep = "boundary_below content (min (m - 80) (length content))"
  have keep: "?keep \<le> m - 80" "?keep \<le> length content" "is_char_boundary content ?keep"
    using boundary_below_le [of content "min (m - 80) (length content)"] boundary_below_boundary by auto
  have found: "pos < ?keep \<and> is_char_boundary content pos" if "last_line_end content a ?keep = Some pos" for a pos
    using last_line_end_Some [OF that keep(2)] line_end_boundary [OF assms] by blast
  show "is_char_boundary content (compact_break m content)" "compact_break m content \<le> m - 80"
    "compact_break m content \<le> length content"
    using keep found by (auto simp: compact_break_def Let_def split: option.splits dest!: found)
qed

text \<open>
  The two slices of \<^verbatim>\<open>truncate_to\<close> and of \<^verbatim>\<open>truncate_tool_result_dynamic\<close> are taken at character
  boundaries: neither panics on any text, and both give well-formed text.
\<close>

lemma truncate_to_no_panic:
  assumes "utf8 content"
  shows "slice content (boundary_below content (k - 100)) (boundary_below content k) \<noteq> None"
    and "slice content 0 (compact_break m content) = Some (take (compact_break m content) content)"
proof -
  have mono: "i \<le> k \<Longrightarrow> boundary_below content i \<le> boundary_below content k" for i
    by (induction k) (auto simp: le_Suc_eq intro: le_trans [OF boundary_below_le])
  show "slice content (boundary_below content (k - 100)) (boundary_below content k) \<noteq> None"
    using mono [of "k - 100"] boundary_le [OF boundary_below_boundary [of content k]]
    by (simp add: slice_def boundary_below_boundary)
  show "slice content 0 (compact_break m content) = Some (take (compact_break m content) content)"
    using compact_break_ok [OF assms] by (simp add: slice_def)
qed

lemma utf8_show_nat: "utf8 (show_nat n)"
proof (rule utf8_ascii, induction n rule: show_nat.induct)
  case (1 n)
  have "(of_char (digit d) :: nat) < 128" if "d < 10" for d
    using that by (simp add: digit_def)
  with 1 show ?case
    by (auto simp: show_nat.simps [of n])
qed

lemma utf8_parts:
  "utf8 line_end" "utf8 ''[COMPACTED: ''" "utf8 [CHR 0xE2, CHR 0x86, CHR 0x92]" "utf8 '' ''"
  "utf8 '' chars by context guard]''"
  by (simp_all add: utf8_def lead_len_def is_continuation_def line_end_def numeral_2_eq_2)

lemma truncate_to_utf8:
  assumes "utf8 content"
  shows "utf8 (truncate_to content m)"
proof (cases "length content \<le> m")
  case False
  have "utf8 (take (compact_break m content) content)"
    by (rule utf8_cut(1) [OF assms compact_break_ok(1) [OF assms]])
  then have "utf8 (take (compact_break m content) content @ line_end @ line_end @ ''[COMPACTED: '' @
      show_nat (length content) @ '' '' @ [CHR 0xE2, CHR 0x86, CHR 0x92] @ '' '' @
      show_nat (compact_break m content) @ '' chars by context guard]'')"
    by (intro utf8_append utf8_show_nat utf8_parts)
  then show ?thesis using False by (simp only: truncate_to_def Let_def if_False)
qed (simp add: truncate_to_def assms)

section \<open>How long a shortened result is\<close>

lemma length_show_nat: "n < 10 ^ k \<Longrightarrow> 0 < k \<Longrightarrow> length (show_nat n) \<le> k"
proof (induction k arbitrary: n)
  case (Suc k)
  show ?case
  proof (cases "n < 10")
    case False
    then have "0 < k" using Suc.prems(1) by (cases k) auto
    moreover have "n div 10 < 10 ^ k" using Suc.prems(1) by (simp add: less_mult_imp_div_less)
    ultimately show ?thesis using Suc.IH [of "n div 10"] False by (simp add: show_nat.simps [of n])
  qed (simp add: show_nat.simps [of n])
qed simp

lemma length_truncate_to:
  assumes "utf8 content" and "length content < 10 ^ k" and "m - 80 < 10 ^ j" and "0 < j" and "0 < k"
  shows "length (truncate_to content m) \<le> max m (m - 80 + 43 + k + j)"
proof (cases "length content \<le> m")
  case False
  let ?b = "compact_break m content"
  have b: "?b \<le> m - 80" "?b < 10 ^ j"
    using compact_break_ok(2) [OF assms(1), of m] assms(3) by auto
  have "length (truncate_to content m) = min ?b (length content) + 43 + length (show_nat (length content)) + length (show_nat ?b)"
    using False by (simp add: truncate_to_def line_end_def min.commute Let_def)
  then show ?thesis
    using length_show_nat [OF assms(2,5)] length_show_nat [OF b(2) assms(4)] b(1) by simp
qed (simp add: truncate_to_def)

lemma length_compacted:
  assumes "utf8 content" and "length content < 10 ^ 20"
  shows "length (truncate_to content COMPACT_TARGET) \<le> COMPACT_TARGET"
  using length_truncate_to [OF assms, of COMPACT_TARGET 4] by (simp add: COMPACT_TARGET_def)

lemma length_capped:
  assumes "utf8 content" and "length content \<le> COMPACT_TARGET"
  shows "length (truncate_to content m) \<le> COMPACT_TARGET"
proof (cases "length content \<le> m")
  case True
  then show ?thesis using assms(2) by (simp add: truncate_to_def)
next
  case False
  then have "m < 2000" using assms(2) by (simp add: COMPACT_TARGET_def)
  then have "m - 80 < 10 ^ 4" "length content < 10 ^ 4"
    using assms(2) by (simp_all add: COMPACT_TARGET_def)
  from length_truncate_to [OF assms(1) this(2,1)] show ?thesis
    using \<open>m < 2000\<close> by (simp add: COMPACT_TARGET_def max_def split: if_splits)
qed

lemma length_truncate_le:
  assumes "utf8 content" and "length content < 10 ^ 20"
  shows "length (truncate_to content m) \<le> length content + 83"
proof (cases "length content \<le> m")
  case False
  let ?b = "compact_break m content"
  have b: "?b \<le> length content" by (rule compact_break_ok(3) [OF assms(1)])
  have "length (truncate_to content m) = ?b + 43 + length (show_nat (length content)) + length (show_nat ?b)"
    using False b by (simp add: truncate_to_def line_end_def Let_def)
  moreover have "length (show_nat (length content)) \<le> 20" "length (show_nat ?b) \<le> 20"
    using length_show_nat [of _ 20] assms(2) b by simp_all
  ultimately show ?thesis using b by linarith
qed (simp add: truncate_to_def)

section \<open>A pass over the tool results\<close>

fun acc_map :: "('s \<Rightarrow> string \<Rightarrow> string \<times> 's) \<Rightarrow> string list \<Rightarrow> 's \<Rightarrow> string list \<times> 's" where
  "acc_map f [] s = ([], s)"
| "acc_map f (c # cs) s =
     (let (c', s1) = f s c; (cs', s2) = acc_map f cs s1 in (c' # cs', s2))"

lemma acc_map_append:
  "acc_map f (cs @ ds) s =
     (let (cs', s1) = acc_map f cs s; (ds', s2) = acc_map f ds s1 in (cs' @ ds', s2))"
  by (induction cs arbitrary: s) (auto split: prod.splits)

lemma block_contents_simps [simp]:
  "block_contents [] = []"
  "block_contents (b # bs) = (case b of ToolResult _ _ content _ \<Rightarrow> [content] | _ \<Rightarrow> []) @ block_contents bs"
  by (simp_all add: block_contents_def)

lemma result_contents_simps [simp]:
  "result_contents [] = []"
  "result_contents (m # ms) = block_contents (m_blocks m) @ result_contents ms"
  by (simp_all add: result_contents_def)

text \<open>A pass changes the contents in their order, and nothing else.\<close>

lemma each_block_effect:
  "each_block f bs s = (bs', s') \<Longrightarrow>
     acc_map f (block_contents bs) s = (block_contents bs', s')
     \<and> uses_of bs' = uses_of bs \<and> results_of bs' = results_of bs"
proof (induction bs arbitrary: s bs' s')
  case (Cons b bs)
  then show ?case
    by (cases b) (auto split: prod.splits simp: block_uses_def block_results_def)
qed simp

lemma each_result_effect:
  "each_result f ms s = (ms', s') \<Longrightarrow>
     acc_map f (result_contents ms) s = (result_contents ms', s')
     \<and> map m_role ms' = map m_role ms
     \<and> map (\<lambda>m. uses_of (m_blocks m)) ms' = map (\<lambda>m. uses_of (m_blocks m)) ms
     \<and> map (\<lambda>m. results_of (m_blocks m)) ms' = map (\<lambda>m. results_of (m_blocks m)) ms"
proof (induction ms arbitrary: s ms' s')
  case (Cons m ms)
  show ?case
  proof (cases "m_content m")
    case (TextContent t)
    then show ?thesis using Cons by (auto split: prod.splits)
  next
    case (Blocks bs)
    obtain bs' s1 where b: "each_block f bs s = (bs', s1)" by fastforce
    obtain rest where r: "each_result f ms s1 = (rest, s')" "ms' = m\<lparr>m_content := Blocks bs'\<rparr> # rest"
      using Cons.prems Blocks b by (auto split: prod.splits)
    show ?thesis
      using each_block_effect [OF b] Cons.IH [OF r(1)] by (simp add: r(2) Blocks acc_map_append)
  qed
qed simp

lemma each_block_id:
  "\<forall>c \<in> set (block_contents bs). f s c = (c, s) \<Longrightarrow> each_block f bs s = (bs, s)"
  by (induction bs) (auto split: content_block.splits)

lemma each_result_id:
  "\<forall>c \<in> set (result_contents ms). f s c = (c, s) \<Longrightarrow> each_result f ms s = (ms, s)"
proof (induction ms)
  case (Cons m ms)
  then show ?case
    using each_block_id [of "m_blocks m" f s] by (cases m; cases "m_content m") auto
qed simp

section \<open>What the guard guarantees\<close>

lemma cap_pass:
  assumes "acc_map (cap_single m) cs (t, k) = (cs', t', k')" and "sum_list (map length cs) \<le> t"
  shows "cs' = map (\<lambda>c. truncate_to c m) cs
    \<and> t' = t - sum_list (map length cs) + sum_list (map length cs')"
  using assms
proof (induction cs arbitrary: t k cs')
  case (Cons c cs)
  let ?c = "truncate_to c m"
  let ?k = "if length c > m then k + 1 else k"
  have one: "cap_single m (t, k) c = (?c, t - length c + length ?c, ?k)"
    using Cons.prems(2) by (auto simp: cap_single_def Let_def truncate_to_def)
  obtain r where r: "acc_map (cap_single m) cs (t - length c + length ?c, ?k) = (r, t', k')" "cs' = ?c # r"
    using Cons.prems(1) one by (auto split: prod.splits)
  have le: "sum_list (map length cs) \<le> t - length c + length ?c"
    using Cons.prems(2) by simp
  show ?case
    using Cons.IH [OF r(1) le] Cons.prems(2) by (simp add: r(2))
qed simp

text \<open>Either the total is within the headroom at the end, or every result has been shortened.\<close>

lemma compact_pass:
  assumes "acc_map (compact_oldest h) cs (lens, t, k) = (cs', lens', t', k')"
    and "sum_list (map length cs) \<le> t"
    and "list_all2 (\<lambda>l c. l \<le> COMPACT_TARGET \<longrightarrow> length c \<le> COMPACT_TARGET) lens cs"
    and "\<forall>c \<in> set cs. length (truncate_to c COMPACT_TARGET) \<le> COMPACT_TARGET"
  shows "t' = t - sum_list (map length cs) + sum_list (map length cs') \<and> t' \<le> t
    \<and> (t' \<le> h \<or> (\<forall>c' \<in> set cs'. length c' \<le> COMPACT_TARGET))"
  using assms
proof (induction cs arbitrary: lens t k cs')
  case (Cons c cs)
  obtain l ls where lens: "lens = l # ls" using Cons.prems(3) by (cases lens) auto
  let ?hit = "\<not> (t \<le> h \<or> l \<le> COMPACT_TARGET) \<and> length c > COMPACT_TARGET"
  let ?c = "if ?hit then truncate_to c COMPACT_TARGET else c"
  let ?t = "t - length c + length ?c"
  let ?k = "if ?hit then k + 1 else k"
  have one: "compact_oldest h (lens, t, k) c = (?c, ls, ?t, ?k)"
    using Cons.prems(2) by (auto simp: compact_oldest_def Let_def lens)
  obtain r where r: "acc_map (compact_oldest h) cs (ls, ?t, ?k) = (r, lens', t', k')" "cs' = ?c # r"
    using Cons.prems(1) unfolding acc_map.simps one by (auto split: prod.splits)
  have short: "length ?c \<le> length c" using Cons.prems(4) by auto
  have le: "sum_list (map length cs) \<le> ?t" using Cons.prems(2) by simp
  have rel: "list_all2 (\<lambda>l c. l \<le> COMPACT_TARGET \<longrightarrow> length c \<le> COMPACT_TARGET) ls cs"
    and this_rel: "l \<le> COMPACT_TARGET \<longrightarrow> length c \<le> COMPACT_TARGET"
    using Cons.prems(3) by (simp_all add: lens)
  have IH: "t' = ?t - sum_list (map length cs) + sum_list (map length r)" "t' \<le> ?t"
    "t' \<le> h \<or> (\<forall>c' \<in> set r. length c' \<le> COMPACT_TARGET)"
    using Cons.IH [OF r(1) le rel] Cons.prems(4) by auto
  have "t' = t - sum_list (map length (c # cs)) + sum_list (map length cs')"
    using IH(1) Cons.prems(2) by (simp add: r(2))
  moreover have "?t \<le> t" using short Cons.prems(2) by simp
  then have "t' \<le> t" using IH(2) by linarith
  moreover have "t' \<le> h \<or> length ?c \<le> COMPACT_TARGET"
    using \<open>t' \<le> t\<close> Cons.prems(4) this_rel by (cases "t \<le> h") auto
  ultimately show ?case using IH(3) by (auto simp: r(2))
qed simp

lemma guard_effect:
  obtains ms1 t1 k1 ms2 lens2 t2 where
    "each_result (cap_single (single_result_max fmul b)) ms
       (sum_list (map length (result_contents ms)), 0) = (ms1, t1, k1)"
    "each_result (compact_oldest (total_tool_headroom_chars fmul b)) ms1
       (map length (result_contents ms), t1, k1) = (ms2, lens2, t2, snd (apply_context_guard fmul ms b))"
    "fst (apply_context_guard fmul ms b) = ms2"
  | "apply_context_guard fmul ms b = (ms, 0)"
    "sum_list (map length (result_contents ms)) \<le> total_tool_headroom_chars fmul b"
proof (cases "sum_list (map length (result_contents ms)) \<le> total_tool_headroom_chars fmul b")
  case True
  then show thesis using that(2) by (simp add: apply_context_guard_def)
next
  case False
  obtain ms1 t1 k1 where 1: "each_result (cap_single (single_result_max fmul b)) ms
       (sum_list (map length (result_contents ms)), 0) = (ms1, t1, k1)" by (metis surj_pair)
  obtain ms2 lens2 t2 k2 where 2: "each_result (compact_oldest (total_tool_headroom_chars fmul b)) ms1
       (map length (result_contents ms), t1, k1) = (ms2, lens2, t2, k2)" by (metis surj_pair)
  have "apply_context_guard fmul ms b = (ms2, k2)"
    using False 1 2 by (simp add: apply_context_guard_def Let_def)
  with that(1) [OF 1] 2 show thesis by simp
qed

text \<open>
  After the guard the tool results of the history fit into three quarters of the window, or
  every one of them has been shortened to at most two thousand bytes, whatever the messages are.
\<close>

lemma context_guard_bound:
  assumes "\<forall>c \<in> set (result_contents ms). utf8 c \<and> length c < 2 ^ 64"
  shows "sum_list (map length (result_contents (fst (apply_context_guard fmul ms b)))) \<le> total_tool_headroom_chars fmul b
    \<or> (\<forall>c \<in> set (result_contents (fst (apply_context_guard fmul ms b))). length c \<le> COMPACT_TARGET)"
proof (rule guard_effect [of fmul b ms])
  fix ms1 t1 k1 ms2 lens2 t2
  let ?cs = "result_contents ms" and ?m = "single_result_max fmul b"
  assume 1: "each_result (cap_single ?m) ms (sum_list (map length ?cs), 0) = (ms1, t1, k1)"
    and 2: "each_result (compact_oldest (total_tool_headroom_chars fmul b)) ms1
       (map length ?cs, t1, k1) = (ms2, lens2, t2, snd (apply_context_guard fmul ms b))"
    and res: "fst (apply_context_guard fmul ms b) = ms2"
  have one: "result_contents ms1 = map (\<lambda>c. truncate_to c ?m) ?cs" "t1 = sum_list (map length (result_contents ms1))"
    using cap_pass [OF conjunct1 [OF each_result_effect [OF 1]]] by auto
  have rel: "list_all2 (\<lambda>l c. l \<le> COMPACT_TARGET \<longrightarrow> length c \<le> COMPACT_TARGET) (map length ?cs) (result_contents ms1)"
    using assms length_capped by (auto simp: one(1) list_all2_map1 list_all2_map2 intro!: list.rel_refl_strong)
  have small: "\<forall>c \<in> set (result_contents ms1). length (truncate_to c COMPACT_TARGET) \<le> COMPACT_TARGET"
  proof
    fix c assume "c \<in> set (result_contents ms1)"
    then obtain c0 where c0: "c = truncate_to c0 ?m" "utf8 c0" "length c0 < 2 ^ 64"
      using assms by (auto simp: one(1))
    show "length (truncate_to c COMPACT_TARGET) \<le> COMPACT_TARGET"
    proof (rule length_compacted)
      show "utf8 c" using c0 truncate_to_utf8 by blast
      show "length c < 10 ^ 20"
        using length_truncate_le [OF c0(2), of ?m] c0(1,3) by simp
    qed
  qed
  show ?thesis
    using compact_pass [OF conjunct1 [OF each_result_effect [OF 2]] _ rel small] one(2) by (auto simp: res)
next
  assume "apply_context_guard fmul ms b = (ms, 0)"
    "sum_list (map length (result_contents ms)) \<le> total_tool_headroom_chars fmul b"
  then show ?thesis by simp
qed

lemma context_guard_bound_witness:
  "let ms = [user_with_blocks [ToolResult ''1'' ''web'' ''ok'' False]]
   in sum_list (map length (result_contents (fst (apply_context_guard exact_mul ms (budget_new 100)))))
        \<le> total_tool_headroom_chars exact_mul (budget_new 100)
      \<or> (\<forall>c \<in> set (result_contents (fst (apply_context_guard exact_mul ms (budget_new 100)))). length c \<le> COMPACT_TARGET)"
  unfolding Let_def
  by (rule context_guard_bound) (simp add: user_with_blocks_def utf8_def lead_len_def)

section \<open>What recovery guarantees\<close>

abbreviation (input) estimate ::
  "(json \<Rightarrow> string) \<Rightarrow> string \<Rightarrow> tool_definition list \<Rightarrow> message list \<Rightarrow> nat" where
  "estimate to_str sp tools ms \<equiv> estimate_token_count to_str ms (Some sp) (Some tools)"

lemma drain_le: "safe_drain_boundary ms b \<le> b"
  by (simp add: safe_drain_boundary_def)

lemma drain_count_le: "drain_count k ms \<le> length ms - k"
  using drain_le [of ms "length ms - min k (length ms)"] by (simp add: drain_count_def min_def split: if_splits)

lemma recover_cases:
  assumes "r1 = (if estimate to_str sp tools ms \<le> fmul window (90 / 100) then drain_count 10 ms else 0)"
    and "ms1 = drop r1 ms" and "r2 = drain_count 4 ms1"
    and "ms2 = (if r2 > 0 then user_message (overflow_marker r2) # drop r2 ms1 else ms1)"
    and "each_result truncate_historical ms2 0 = (ms3, n)"
  shows "recover_from_overflow fmul to_str sp tools window ms =
    (if estimate to_str sp tools ms \<le> fmul window (70 / 100) then (NoRecovery, ms)
     else if r1 > 0 \<and> estimate to_str sp tools ms1 \<le> fmul window (70 / 100) then (AutoCompaction r1, ms1)
     else if r2 > 0 \<and> estimate to_str sp tools ms2 \<le> fmul window (90 / 100) then (OverflowCompaction r2, ms2)
     else if n > 0 \<and> estimate to_str sp tools ms3 \<le> fmul window (90 / 100) then (ToolResultTruncation n, ms3)
     else (FinalError, ms3))"
  unfolding recover_from_overflow_def Let_def assms(1-4) [symmetric] assms(5) by simp

lemma suffix_drops: "a \<le> b \<Longrightarrow> suffix (drop b l) (drop a l)"
  using suffix_drop [of "b - a" "drop a l"] by simp

text \<open>
  What the recovery reports is true: without recovery nothing has changed and the estimate is
  at most seventy percent of the window; the first stage leaves a suffix of the history whose
  estimate is at most seventy percent, the second and the third leave an estimate of at most
  ninety percent. At least the last four messages are always kept, in their order and with their
  roles and tool calls.
\<close>

lemma recovery_reports_truth:
  assumes "recover_from_overflow fmul to_str sp tools window ms = (stage, ms')"
  shows "(case stage of
       NoRecovery \<Rightarrow> ms' = ms \<and> estimate to_str sp tools ms' \<le> fmul window (70 / 100)
     | AutoCompaction n \<Rightarrow> 0 < n \<and> ms' = drop n ms \<and> estimate to_str sp tools ms' \<le> fmul window (70 / 100)
     | OverflowCompaction n \<Rightarrow> 0 < n \<and> estimate to_str sp tools ms' \<le> fmul window (90 / 100)
     | ToolResultTruncation n \<Rightarrow> 0 < n \<and> estimate to_str sp tools ms' \<le> fmul window (90 / 100)
     | FinalError \<Rightarrow> True)
   \<and> suffix (map (\<lambda>m. (m_role m, uses_of (m_blocks m))) (drop (length ms - 4) ms))
            (map (\<lambda>m. (m_role m, uses_of (m_blocks m))) ms')"
proof -
  define est where "est = estimate to_str sp tools"
  define r1 where "r1 = (if est ms \<le> fmul window (90 / 100) then drain_count 10 ms else 0)"
  define ms1 where "ms1 = drop r1 ms"
  define r2 where "r2 = drain_count 4 ms1"
  define ms2 where "ms2 = (if r2 > 0 then user_message (overflow_marker r2) # drop r2 ms1 else ms1)"
  obtain ms3 n where t: "each_result truncate_historical ms2 0 = (ms3, n)" by fastforce
  let ?sig = "map (\<lambda>m. (m_role m, uses_of (m_blocks m)))"
  let ?last = "\<lambda>l :: message list. drop (length l - 4) l"
  note res = recover_cases [of r1 to_str ms sp tools fmul window ms1 r2 ms2 ms3 n,
      OF r1_def [unfolded est_def] ms1_def r2_def ms2_def t, unfolded assms, folded est_def]
  have r1: "r1 \<le> length ms - 4" using drain_count_le [of 10 ms] by (auto simp: r1_def)
  have r2: "r2 + r1 \<le> length ms - 4" using r1 drain_count_le [of 4 ms1] by (simp add: r2_def ms1_def)
  have s1: "suffix (?last ms) ms1"
    unfolding ms1_def by (rule suffix_drops [OF r1])
  have s2: "suffix (?last ms) ms2"
    using suffix_drops [OF r2, of ms] s1 by (auto simp: ms2_def ms1_def add.commute intro: suffix_ConsI)
  have sig: "?sig ms3 = ?sig ms2"
    using each_result_effect [OF t] by (auto simp: list_eq_iff_nth_eq)
  have "suffix (?sig (?last ms)) (?sig l)" if "suffix (?last ms) l" for l
    using that by (auto simp: suffix_def)
  then show ?thesis
    using res s1 s2 sig suffix_drop [of "length ms - 4" ms] by (auto simp: est_def ms1_def split: if_splits)
qed

text \<open>Twelve messages of 84 bytes in a window of 400 tokens: the first two are removed.\<close>

lemma recovery_reports_truth_witness:
  "let ms = replicate 12 (user_message (replicate 84 CHR ''a''))
   in recover_from_overflow exact_mul (\<lambda>_. []) [] [] 400 ms = (AutoCompaction 2, drop 2 ms)
      \<and> estimate (\<lambda>_. []) [] [] (drop 2 ms) \<le> exact_mul 400 (70 / 100)"
proof -
  define ms where "ms = replicate 12 (user_message (replicate 84 CHR ''a''))"
  have est: "estimate (\<lambda>_. []) [] [] (replicate n (user_message (replicate 84 CHR ''a''))) = 25 * n" for n
    by (simp add: estimate_token_count_def user_message_def text_length_def sum_list_replicate)
  have r1: "drain_count 10 ms = 2"
    by (simp add: drain_count_def safe_drain_boundary_def ms_def user_message_def has_tool_result_def numeral_2_eq_2)
  have rec: "recover_from_overflow exact_mul (\<lambda>_. []) [] [] 400 ms = (AutoCompaction 2, drop 2 ms)"
    using recover_cases [of 2 "\<lambda>_. []" ms "[]" "[]" exact_mul 400, OF _ refl refl refl surjective_pairing] r1
      est [of 12] est [of 10]
    by (simp add: ms_def exact_mul_def)
  from recovery_reports_truth [OF this] rec show ?thesis
    by (simp add: ms_def)
qed

text \<open>
  The recovery can report failure for a conversation that fits: with at most four messages and
  no long tool result, between seventy and ninety percent of the window, nothing is changed and
  the stage is the final error.
\<close>

lemma final_error_although_it_fits:
  assumes "length ms \<le> 4" and "\<forall>c \<in> set (result_contents ms). length c \<le> 2000"
    and "fmul window (70 / 100) < estimate to_str sp tools ms"
  shows "recover_from_overflow fmul to_str sp tools window ms = (FinalError, ms)"
proof -
  have pass: "each_result truncate_historical ms 0 = (ms, 0)"
    by (rule each_result_id) (use assms(2) in \<open>auto simp add: truncate_historical_def\<close>)
  have zero: "drain_count k ms = 0" if "4 \<le> k" for k
    using drain_count_le [of k ms] assms(1) that by simp
  show ?thesis
    using recover_cases [of 0 to_str ms sp tools fmul window ms 0 ms ms 0, OF _ _ _ _ pass] zero assms(3)
    by simp
qed

text \<open>A conversation of one message of 300 bytes and a window of 100 tokens.\<close>

lemma final_error_although_it_fits_witness:
  "recover_from_overflow exact_mul (\<lambda>_. []) [] [] 100 [user_message (replicate 300 CHR ''a'')] =
     (FinalError, [user_message (replicate 300 CHR ''a'')])
   \<and> estimate (\<lambda>_. []) [] [] [user_message (replicate 300 CHR ''a'')] \<le> exact_mul 100 (90 / 100)"
proof
  show "recover_from_overflow exact_mul (\<lambda>_. []) [] [] 100 [user_message (replicate 300 CHR ''a'')] =
     (FinalError, [user_message (replicate 300 CHR ''a'')])"
    by (rule final_error_although_it_fits)
       (simp_all add: user_message_def estimate_token_count_def text_length_def exact_mul_def)
  show "estimate (\<lambda>_. []) [] [] [user_message (replicate 300 CHR ''a'')] \<le> exact_mul 100 (90 / 100)"
    by (simp add: user_message_def estimate_token_count_def text_length_def exact_mul_def)
qed

section \<open>The history sent to the model\<close>

lemma ok_by_frame:
  assumes "map m_role ms' = map m_role ms"
    and "map (\<lambda>m. uses_of (m_blocks m)) ms' = map (\<lambda>m. uses_of (m_blocks m)) ms"
    and "map (\<lambda>m. results_of (m_blocks m)) ms' = map (\<lambda>m. results_of (m_blocks m)) ms"
  shows "history_ok ms' = history_ok ms" and "use_ids ms' = use_ids ms"
proof -
  have "result_ids ms' = result_ids ms" and u: "use_ids ms' = use_ids ms"
    using assms(2,3) by (simp_all add: result_ids_def use_ids_def)
  moreover have "assistant_use_ids ms' = assistant_use_ids ms"
    using assms(1,2) unfolding uses_by_def
    by (intro arg_cong [where f = concat]) (auto simp: list_eq_iff_nth_eq)
  moreover have "alternating ms' = alternating ms"
    using assms(1) successively_map [of "(\<noteq>)" m_role] by metis
  ultimately show "history_ok ms' = history_ok ms" by (simp add: history_ok_def)
  show "use_ids ms' = use_ids ms" by (rule u)
qed

lemma guard_keeps_ok:
  "history_ok (fst (apply_context_guard fmul ms b)) = history_ok ms"
  "use_ids (fst (apply_context_guard fmul ms b)) = use_ids ms"
proof -
  have "history_ok (fst (apply_context_guard fmul ms b)) = history_ok ms
    \<and> use_ids (fst (apply_context_guard fmul ms b)) = use_ids ms"
  proof (rule guard_effect [of fmul b ms], goal_cases)
    case (1 ms1 t1 k1 ms2 lens2 t2)
    note e1 = each_result_effect [OF 1(1)] and e2 = each_result_effect [OF 1(2)]
    have "map m_role ms2 = map m_role ms"
      "map (\<lambda>m. uses_of (m_blocks m)) ms2 = map (\<lambda>m. uses_of (m_blocks m)) ms"
      "map (\<lambda>m. results_of (m_blocks m)) ms2 = map (\<lambda>m. results_of (m_blocks m)) ms"
      using e1 e2 by simp_all
    from ok_by_frame [OF this] show ?case by (simp add: 1(3))
  qed simp
  then show "history_ok (fst (apply_context_guard fmul ms b)) = history_ok ms"
    "use_ids (fst (apply_context_guard fmul ms b)) = use_ids ms" by simp_all
qed

lemma no_recovery_needed:
  "estimate to_str sp tools ms \<le> fmul window (70 / 100) \<Longrightarrow>
     recover_from_overflow fmul to_str sp tools window ms = (NoRecovery, ms)"
  using recover_cases [of _ to_str ms sp tools fmul window, OF refl refl refl refl surjective_pairing]
  by (simp only: if_True)

text \<open>
  C10. The history the agent loop sends to the model is one a provider accepts: if it was before
  the turn, or if anything had to be removed, the neighbouring messages have different roles,
  every result answers one use, and every use of the assistant has its result, also after the
  overflow recovery and the context guard.
\<close>

theorem prepared_history_ok:
  assumes "prepare_for_model fmul to_str sp tools window budget ms = (stage, ms')"
    and "stage = NoRecovery \<longrightarrow> history_ok ms"
  shows "history_ok ms'"
proof -
  obtain ms1 where r: "recover_from_overflow fmul to_str sp tools window ms = (stage, ms1)"
    and ms': "ms' = fst (apply_context_guard fmul (if stage \<noteq> NoRecovery then validate_and_repair ms1 else ms1) budget)"
    using assms(1) by (auto simp: prepare_for_model_def split: prod.splits)
  have "stage = NoRecovery \<Longrightarrow> ms1 = ms"
    using r recover_cases [of _ to_str ms sp tools fmul window, OF refl refl refl refl surjective_pairing]
    by (simp only: split: if_splits) simp_all
  then show ?thesis
    using assms(2) repair_history_ok [of ms1] by (auto simp: ms' guard_keeps_ok)
qed

theorem prepared_history_ok_witness:
  "\<exists>ms'. prepare_for_model exact_mul (\<lambda>_. []) [] [] 100 (budget_new 100) [user_message ''hi''] = (NoRecovery, ms')
     \<and> history_ok ms'"
proof -
  let ?ms = "[user_message ''hi'']"
  have "recover_from_overflow exact_mul (\<lambda>_. []) [] [] 100 ?ms = (NoRecovery, ?ms)"
    by (rule no_recovery_needed)
       (simp add: user_message_def estimate_token_count_def text_length_def exact_mul_def)
  then obtain ms' where p: "prepare_for_model exact_mul (\<lambda>_. []) [] [] 100 (budget_new 100) ?ms = (NoRecovery, ms')"
    by (simp add: prepare_for_model_def)
  moreover have "history_ok ?ms"
    by (simp add: history_ok_def user_message_def uses_by_def)
  ultimately show ?thesis
    using prepared_history_ok [OF p] by auto
qed

end
