(* ===== verification/Compactor.thy ===== *)
theory Compactor
  imports Context_Budget
begin

text \<open>
  Compaction of a session by a language model (\<^verbatim>\<open>crates/openfang-runtime/src/compactor.rs\<close>): older
  messages are summarised in one call, or in chunks whose summaries are merged, or replaced by a
  note; the most recent ones are kept. The driver (\<^verbatim>\<open>llm_driver.rs\<close>) is a function of the state of
  the outside world. A function whose source can panic returns an option, with None for the panic.

  Floating point: the chunk size \<^verbatim>\<open>(n as f64 * ratio).ceil()\<close> and the quotient by the safety margin
  are parameters; the average length of messages is compared by multiplying out. The context
  report (display only) is not modelled.
\<close>

section \<open>Configuration and driver\<close>

record compaction_config =
  cc_threshold :: nat
  cc_keep_recent :: nat
  cc_max_summary_tokens :: nat
  cc_base_chunk_ratio :: rat
  cc_min_chunk_ratio :: rat
  cc_safety_margin :: rat
  cc_summarization_overhead_tokens :: nat
  cc_max_chunk_chars :: nat
  cc_max_retries :: nat
  cc_token_threshold_ratio :: rat
  cc_context_window_tokens :: nat

definition compaction_config_default :: compaction_config where
  "compaction_config_default =
     \<lparr>cc_threshold = 30, cc_keep_recent = 10, cc_max_summary_tokens = 1024,
      cc_base_chunk_ratio = 40 / 100, cc_min_chunk_ratio = 15 / 100, cc_safety_margin = 12 / 10,
      cc_summarization_overhead_tokens = 4096, cc_max_chunk_chars = 80000, cc_max_retries = 3,
      cc_token_threshold_ratio = 7 / 10, cc_context_window_tokens = 200000\<rparr>"

record completion_request =
  cr_model :: string
  cr_messages :: "message list"
  cr_tools :: "tool_definition list"
  cr_max_tokens :: nat
  cr_temperature :: rat
  cr_system :: "string option"

record 'w compact_env =
  ce_complete :: "completion_request \<Rightarrow> 'w \<Rightarrow> (string, content_block list) result \<times> 'w"
  ce_to_str :: "json \<Rightarrow> string"
  ce_lower :: "string \<Rightarrow> string"
  ce_ceil_mul :: "nat \<Rightarrow> rat \<Rightarrow> nat"
  ce_quotient :: "nat \<Rightarrow> rat \<Rightarrow> nat"
  ce_scale :: f64_mul

definition response_text :: "content_block list \<Rightarrow> string" where
  "response_text content = text_content (Blocks content)"

record compaction_result =
  cp_summary :: string
  cp_kept_messages :: "message list"
  cp_compacted_count :: nat
  cp_chunks_used :: nat
  cp_used_fallback :: bool

definition needs_compaction :: "message list \<Rightarrow> compaction_config \<Rightarrow> bool" where
  "needs_compaction messages config = (length messages > cc_threshold config)"

definition needs_compaction_by_tokens :: "f64_mul \<Rightarrow> nat \<Rightarrow> compaction_config \<Rightarrow> bool" where
  "needs_compaction_by_tokens fmul estimated_tokens config =
     (estimated_tokens > fmul (cc_context_window_tokens config) (cc_token_threshold_ratio config))"

section \<open>The text of a conversation\<close>

text \<open>The clamp panics when its bounds are in the wrong order.\<close>

definition compute_adaptive_chunk_ratio ::
  "'w compact_env \<Rightarrow> message list \<Rightarrow> compaction_config \<Rightarrow> rat option" where
  "compute_adaptive_chunk_ratio env messages config =
     (if messages = [] then Some (cc_base_chunk_ratio config)
      else
        let total = sum_list (map (\<lambda>m. text_length (ce_to_str env) (m_content m)) messages);
            n = length messages;
            ratio = (if total > 1000 * n then cc_min_chunk_ratio config
                     else if total > 500 * n
                          then (cc_base_chunk_ratio config + cc_min_chunk_ratio config) / 2
                     else cc_base_chunk_ratio config)
        in if cc_min_chunk_ratio config \<le> cc_base_chunk_ratio config
           then Some (max (cc_min_chunk_ratio config) (min (cc_base_chunk_ratio config) ratio))
           else None)"

definition is_oversized :: "'w compact_env \<Rightarrow> message \<Rightarrow> compaction_config \<Rightarrow> bool" where
  "is_oversized env msg config =
     (text_length (ce_to_str env) (m_content msg) > cc_max_chunk_chars config div 2)"

definition role_label :: "role \<Rightarrow> string" where
  "role_label r =
     (case r of UserRole \<Rightarrow> ''User'' | AssistantRole \<Rightarrow> ''Assistant'' | SystemRole \<Rightarrow> ''System'')"

definition labelled :: "role \<Rightarrow> string \<Rightarrow> string" where
  "labelled r s = role_label r @ '': '' @ s @ line_end @ line_end"

definition truncated_from :: "string \<Rightarrow> nat \<Rightarrow> string" where
  "truncated_from s limit =
     truncate_str s limit @ ''...[truncated from '' @ show_nat (length s) @ '' chars]''"

definition preview :: "nat \<Rightarrow> string \<Rightarrow> string" where
  "preview n s = (if length s > n then truncate_str s n @ ''...'' else s)"

definition conversation_block ::
  "'w compact_env \<Rightarrow> compaction_config \<Rightarrow> role \<Rightarrow> bool \<Rightarrow> content_block \<Rightarrow> string option" where
  "conversation_block env config r oversized b =
     (case b of
        TextBlock s _ \<Rightarrow>
          Some (if s = [] then []
                else if oversized \<and> length s > cc_max_chunk_chars config div 4
                     then labelled r (truncated_from s (cc_max_chunk_chars config div 4))
                else labelled r s)
      | ToolUse _ name input _ \<Rightarrow>
          Some (''[Used tool '' @ [CHR 0x27] @ name @ [CHR 0x27] @ '' with params: '' @
                preview 200 (ce_to_str env input) @ '']'' @ line_end @ line_end)
      | ToolResult _ _ content is_error \<Rightarrow>
          map_option (\<lambda>cleaned.
              ''[Tool result ('' @ (if is_error then ''ERROR'' else ''OK'') @ ''): '' @
              preview 2000 cleaned @ '']'' @ line_end @ line_end)
            (strip_tool_result_details (ce_lower env) content)
      | ImageBlock media_type _ \<Rightarrow> Some (''[Image: '' @ media_type @ '']'' @ line_end @ line_end)
      | Thinking _ \<Rightarrow> Some []
      | UnknownBlock \<Rightarrow> Some [])"

text \<open>The parts are appended in order; a panic in one is a panic of the whole.\<close>

fun concat_parts :: "string option list \<Rightarrow> string option" where
  "concat_parts [] = Some []"
| "concat_parts (p # ps) = Option.bind p (\<lambda>s. map_option (\<lambda>rest. s @ rest) (concat_parts ps))"

definition conversation_message ::
  "'w compact_env \<Rightarrow> compaction_config \<Rightarrow> message \<Rightarrow> string option" where
  "conversation_message env config msg =
     (let oversized = is_oversized env msg config
      in case m_content msg of
           TextContent s \<Rightarrow>
             Some (if s = [] then []
                   else if oversized \<and> length s > cc_max_chunk_chars config div 4
                        then labelled (m_role msg) (truncated_from s (cc_max_chunk_chars config div 4))
                   else labelled (m_role msg) s)
         | Blocks bs \<Rightarrow> concat_parts (map (conversation_block env config (m_role msg) oversized) bs))"

definition build_conversation_text ::
  "'w compact_env \<Rightarrow> message list \<Rightarrow> compaction_config \<Rightarrow> string option" where
  "build_conversation_text env messages config =
     concat_parts (map (conversation_message env config) messages)"

section \<open>Summaries\<close>

text \<open>
  The tail of the text: at an offset inside a character the source slices there in order to look
  for the next boundary.
\<close>

definition keep_tail :: "string \<Rightarrow> nat \<Rightarrow> string option" where
  "keep_tail body effective_max =
     (if length body > effective_max then
        let start = length body - effective_max
        in if is_char_boundary body start then slice body start (length body)
           else Option.bind (slice body start (length body)) (\<lambda>rest.
                  slice body (if rest = [] then length body else start) (length body))
      else Some body)"

definition summary_request ::
  "string \<Rightarrow> compaction_config \<Rightarrow> string \<Rightarrow> string \<Rightarrow> completion_request" where
  "summary_request model config prompt system =
     \<lparr>cr_model = model, cr_messages = [user_with_blocks [TextBlock prompt None]], cr_tools = [],
      cr_max_tokens = cc_max_summary_tokens config, cr_temperature = 3 / 10, cr_system = Some system\<rparr>"

definition summarize_request :: "string \<Rightarrow> compaction_config \<Rightarrow> string \<Rightarrow> completion_request" where
  "summarize_request model config conversation_text =
     summary_request model config
       (''Summarize the following conversation preserving key facts, decisions, user preferences, '' @
        ''and important context. Be concise but thorough. Output only the summary, no preamble.'' @
        line_end @ line_end @ ''---'' @ line_end @ conversation_text @ ''---'')
       (''You are a conversation summarizer. Produce a concise summary that captures '' @
        ''all key facts, decisions, and context from the conversation.'')"

text \<open>The attempts that are left, and the error of the last one.\<close>

fun summarize_retry ::
  "'w compact_env \<Rightarrow> completion_request \<Rightarrow> nat \<Rightarrow> string \<Rightarrow> 'w \<Rightarrow> (string, string) result \<times> 'w" where
  "summarize_retry env request 0 last_error w = (Inl last_error, w)"
| "summarize_retry env request (Suc n) last_error w =
     (case ce_complete env request w of
        (Inr content, w') \<Rightarrow>
          if response_text content = []
          then summarize_retry env request n ''LLM returned empty summary'' w'
          else (Inr (response_text content), w')
      | (Inl e, w') \<Rightarrow> summarize_retry env request n (''LLM summarization failed: '' @ e) w')"

definition summarize_messages ::
  "'w compact_env \<Rightarrow> string \<Rightarrow> message list \<Rightarrow> compaction_config \<Rightarrow> 'w
     \<Rightarrow> ((string, string) result \<times> 'w) option" where
  "summarize_messages env model messages config w =
     Option.bind (build_conversation_text env messages config) (\<lambda>whole.
     Option.bind (keep_tail whole (ce_quotient env (cc_max_chunk_chars config) (cc_safety_margin config)))
       (\<lambda>conversation_text.
         Some (summarize_retry env (summarize_request model config conversation_text)
                 (cc_max_retries config) [] w)))"

fun chunks :: "nat \<Rightarrow> 'a list \<Rightarrow> 'a list list" where
  "chunks n [] = []"
| "chunks n (x # xs) = (x # take (n - 1) xs) # chunks n (drop (n - 1) xs)"

text \<open>The summaries so far, the number of successes, the last error.\<close>

fun summarize_each ::
  "'w compact_env \<Rightarrow> string \<Rightarrow> compaction_config \<Rightarrow> nat \<Rightarrow> message list list
     \<Rightarrow> string list \<times> nat \<times> string \<Rightarrow> 'w \<Rightarrow> ((string list \<times> nat \<times> string) \<times> 'w) option" where
  "summarize_each env model config i [] acc w = Some (acc, w)"
| "summarize_each env model config i (chunk # rest) (summaries, success_count, last_error) w =
     Option.bind (summarize_messages env model chunk config w) (\<lambda>(res, w').
       summarize_each env model config (i + 1) rest
         (case res of
            Inr summary \<Rightarrow> (summaries @ [summary], success_count + 1, last_error)
          | Inl e \<Rightarrow> (summaries @ [''[Chunk '' @ show_nat (i + 1) @ '': '' @ show_nat (length chunk) @
                        '' messages, summarization unavailable]''], success_count, e)) w')"

definition merge_request :: "string \<Rightarrow> compaction_config \<Rightarrow> string list \<Rightarrow> completion_request" where
  "merge_request model config summaries =
     summary_request model config
       (''Merge these '' @ show_nat (length summaries) @ '' conversation summaries into one concise, coherent summary. '' @
        ''Preserve all key facts, decisions, and context. Output only the merged summary.'' @ line_end @ line_end @
        join_str (line_end @ line_end)
          (map (\<lambda>(i, s). ''--- Part '' @ show_nat (i + 1) @ '' ---'' @ line_end @ s)
             (zip [0..<length summaries] summaries)))
       (''You are a conversation summarizer. Merge the provided partial summaries '' @
        ''into a single cohesive summary.'')"

definition chunk_size_of :: "'w compact_env \<Rightarrow> message list \<Rightarrow> compaction_config \<Rightarrow> nat option" where
  "chunk_size_of env messages config =
     map_option (\<lambda>ratio. max (ce_ceil_mul env (length messages) ratio) 5)
       (compute_adaptive_chunk_ratio env messages config)"

definition summarize_in_chunks ::
  "'w compact_env \<Rightarrow> string \<Rightarrow> message list \<Rightarrow> compaction_config \<Rightarrow> 'w
     \<Rightarrow> ((string, string) result \<times> 'w) option" where
  "summarize_in_chunks env model messages config w =
     Option.bind (chunk_size_of env messages config) (\<lambda>chunk_size.
     Option.bind (summarize_each env model config 0 (chunks chunk_size messages) ([], 0, []) w)
       (\<lambda>((summaries, success_count, last_chunk_error), w').
          Some (if success_count = 0 then
                  (Inl (''All '' @ show_nat (length summaries) @ '' chunks failed to summarize: '' @
                        last_chunk_error), w')
                else if summaries = [] then (Inl ''No chunks were summarized'', w')
                else if length summaries = 1 then (Inr (hd summaries), w')
                else
                  case ce_complete env (merge_request model config summaries) w' of
                    (Inr content, w'') \<Rightarrow>
                      (if response_text content = []
                       then (Inr (join_str (line_end @ line_end) summaries), w'')
                       else (Inr (response_text content), w''))
                  | (Inl e, w'') \<Rightarrow> (Inr (join_str (line_end @ line_end) summaries), w''))))"

section \<open>Compaction\<close>

definition adjust_split_for_tool_pairs :: "message list \<Rightarrow> nat \<Rightarrow> nat" where
  "adjust_split_for_tool_pairs messages split_at =
     (if split_at = 0 \<or> split_at \<ge> length messages then split_at
      else
        let prev = messages ! (split_at - 1); curr = messages ! split_at
        in if m_role prev \<noteq> AssistantRole \<or> m_role curr \<noteq> UserRole then split_at
           else if has_tool_use prev \<and> has_tool_result curr then split_at - 1
           else split_at)"

definition fallback_note :: "nat \<Rightarrow> nat \<Rightarrow> string" where
  "fallback_note removed preserved =
     ''[Session compacted: '' @ show_nat removed @ '' messages removed. Recent '' @ show_nat preserved @
     '' messages preserved. Summarization was unavailable.]''"

definition compact_session ::
  "'w compact_env \<Rightarrow> string \<Rightarrow> message list \<Rightarrow> compaction_config \<Rightarrow> 'w
     \<Rightarrow> (compaction_result \<times> 'w) option" where
  "compact_session env model messages config w =
     (let msg_count = length messages
      in if msg_count \<le> cc_keep_recent config then
           Some (\<lparr>cp_summary = [], cp_kept_messages = messages, cp_compacted_count = 0,
                  cp_chunks_used = 0, cp_used_fallback = False\<rparr>, w)
         else
           let split_at = adjust_split_for_tool_pairs messages (msg_count - cc_keep_recent config);
               to_compact = take split_at messages;
               kept = drop split_at messages;
               compacted = (\<lambda>summary chunks_used fallback.
                 \<lparr>cp_summary = summary, cp_kept_messages = kept, cp_compacted_count = length to_compact,
                  cp_chunks_used = chunks_used, cp_used_fallback = fallback\<rparr>)
           in Option.bind (summarize_messages env model to_compact config w) (\<lambda>(first, w1).
                case first of
                  Inr summary \<Rightarrow> Some (compacted summary 1 False, w1)
                | Inl _ \<Rightarrow>
                    Option.bind (summarize_in_chunks env model to_compact config w1) (\<lambda>(second, w2).
                      case second of
                        Inr summary \<Rightarrow>
                          map_option (\<lambda>chunk_size.
                              (compacted summary (max ((length to_compact + chunk_size - 1) div chunk_size) 1) False, w2))
                            (chunk_size_of env to_compact config)
                      | Inl _ \<Rightarrow>
                          Some (compacted (fallback_note (length to_compact) (length kept)) 0 True, w2))))"

section \<open>What compaction guarantees\<close>

lemma retry_nonempty: "summarize_retry env req n e w = (Inr s, w') \<Longrightarrow> s \<noteq> []"
  by (induction n arbitrary: e w) (auto split: prod.splits sum.splits if_splits)

lemma summarize_nonempty: "summarize_messages env model ms config w = Some (Inr s, w') \<Longrightarrow> s \<noteq> []"
  by (auto simp: summarize_messages_def bind_eq_Some_conv dest: retry_nonempty)

lemma summarize_each_nonempty:
  "summarize_each env model config i cs (ss, n, e) w = Some ((ss', n', e'), w') \<Longrightarrow>
     [] \<notin> set ss \<Longrightarrow> [] \<notin> set ss'"
proof (induction cs arbitrary: i ss n e w)
  case (Cons c cs)
  obtain res w1 where one: "summarize_messages env model c config w = Some (res, w1)"
    using Cons.prems(1) by (auto simp: bind_eq_Some_conv)
  show ?case
  proof (cases res)
    case (Inr s)
    then have "s \<noteq> []" using one by (auto dest: summarize_nonempty)
    then show ?thesis using Cons.IH Cons.prems one Inr by auto
  qed (use Cons.IH Cons.prems one in auto)
qed simp

lemma join_str_nonempty: "ss \<noteq> [] \<Longrightarrow> [] \<notin> set ss \<Longrightarrow> join_str sep ss \<noteq> []"
  by (cases ss; cases "tl ss") auto

lemma in_chunks_nonempty:
  assumes "summarize_in_chunks env model ms config w = Some (Inr s, w')"
  shows "s \<noteq> []"
proof -
  obtain k ss n e w1 where each: "summarize_each env model config 0 (chunks k ms) ([], 0, []) w = Some ((ss, n, e), w1)"
    and s: "s = hd ss \<or> s = join_str (line_end @ line_end) ss \<or> s \<noteq> []" and ss: "ss \<noteq> []"
    using assms
    by (auto simp: summarize_in_chunks_def bind_eq_Some_conv split: if_splits prod.splits sum.splits)
  have ne: "[] \<notin> set ss" using summarize_each_nonempty [OF each] by simp
  then have "hd ss \<noteq> []" using ss by (metis hd_in_set)
  with s join_str_nonempty [OF ss ne] show ?thesis by metis
qed

lemma adjust_split_cases:
  "adjust_split_for_tool_pairs ms k = k \<or>
   0 < k \<and> k < length ms \<and> m_role (ms ! (k - 1)) = AssistantRole \<and> adjust_split_for_tool_pairs ms k = k - 1"
  by (auto simp: adjust_split_for_tool_pairs_def Let_def)

definition splits_pair :: "message list \<Rightarrow> nat \<Rightarrow> bool" where
  "splits_pair ms k =
     (0 < k \<and> k < length ms \<and> m_role (ms ! (k - 1)) = AssistantRole \<and> has_tool_use (ms ! (k - 1))
      \<and> m_role (ms ! k) = UserRole \<and> has_tool_result (ms ! k))"

lemma adjusted_keeps_pairs: "\<not> splits_pair ms (adjust_split_for_tool_pairs ms k)"
proof (cases "splits_pair ms k")
  case True
  then have "adjust_split_for_tool_pairs ms k = k - 1"
    by (simp add: splits_pair_def adjust_split_for_tool_pairs_def Let_def)
  then show ?thesis using True by (simp add: splits_pair_def)
next
  case False
  then show ?thesis
    by (auto simp: splits_pair_def adjust_split_for_tool_pairs_def Let_def)
qed

lemma compact_session_shape:
  assumes "compact_session env model ms config w = Some (res, w')" and "cc_keep_recent config < length ms"
  shows "cp_compacted_count res = adjust_split_for_tool_pairs ms (length ms - cc_keep_recent config)
    \<and> cp_kept_messages res = drop (cp_compacted_count res) ms
    \<and> cp_summary res \<noteq> [] \<and> (cp_used_fallback res \<longleftrightarrow> cp_chunks_used res = 0)"
proof -
  let ?k = "adjust_split_for_tool_pairs ms (length ms - cc_keep_recent config)"
  have k: "min (length ms) ?k = ?k"
    using adjust_split_cases [of ms "length ms - cc_keep_recent config"] by auto
  obtain first w1 where 1: "summarize_messages env model (take ?k ms) config w = Some (first, w1)"
    using assms by (auto simp: compact_session_def Let_def bind_eq_Some_conv)
  show ?thesis
  proof (cases first)
    case (Inr s)
    then show ?thesis
      using assms 1 k summarize_nonempty [of env model "take ?k ms" config w s w1]
      by (auto simp: compact_session_def Let_def)
  next
    case (Inl e)
    obtain second w2 where 2: "summarize_in_chunks env model (take ?k ms) config w1 = Some (second, w2)"
      using assms 1 Inl by (auto simp: compact_session_def Let_def bind_eq_Some_conv)
    show ?thesis
    proof (cases second)
      case (Inr s)
      then show ?thesis
        using assms 1 2 Inl k in_chunks_nonempty [of env model "take ?k ms" config w1 s w2]
        by (auto simp: compact_session_def Let_def)
    next
      case (Inl e')
      then show ?thesis
        using assms 1 2 \<open>first = Inl e\<close> k
        by (auto simp: compact_session_def Let_def fallback_note_def)
    qed
  qed
qed

text \<open>
  When compaction returns, the kept messages are the end of the session: all of it when it is
  short enough, otherwise the configured number of recent messages or one more; the rest has been
  replaced by a summary that is not empty; and a tool use is never separated from the results in
  the message after it.
\<close>

lemma compaction_keeps_recent:
  assumes "compact_session env model ms config w = Some (res, w')"
  shows "ms = take (cp_compacted_count res) ms @ cp_kept_messages res
    \<and> min (cc_keep_recent config) (length ms) \<le> length (cp_kept_messages res)
    \<and> (cc_keep_recent config < length ms \<longrightarrow>
         length (cp_kept_messages res) \<le> cc_keep_recent config + 1 \<and> cp_summary res \<noteq> [])
    \<and> \<not> splits_pair ms (cp_compacted_count res)"
proof (cases "cc_keep_recent config < length ms")
  case True
  let ?k = "length ms - cc_keep_recent config"
  have "cp_compacted_count res \<le> ?k" "?k \<le> cp_compacted_count res + 1"
    using compact_session_shape [OF assms True] adjust_split_cases [of ms ?k] by auto
  then have "cc_keep_recent config \<le> length ms - cp_compacted_count res"
    "length ms - cp_compacted_count res \<le> cc_keep_recent config + 1"
    using True by linarith+
  then show ?thesis
    using compact_session_shape [OF assms True] adjusted_keeps_pairs [of ms ?k] True by auto
next
  case False
  then show ?thesis
    using assms by (auto simp: compact_session_def splits_pair_def)
qed

section \<open>How often the model is called\<close>

definition counts_completions :: "'w compact_env \<Rightarrow> ('w \<Rightarrow> nat) \<Rightarrow> bool" where
  "counts_completions env c = (\<forall>req w. c (snd (ce_complete env req w)) \<le> c w + 1)"

lemma one_call:
  "counts_completions env c \<Longrightarrow> ce_complete env req w = (r, w') \<Longrightarrow> c w' \<le> c w + 1"
  by (metis counts_completions_def snd_conv)

lemma retry_calls:
  assumes "counts_completions env c"
  shows "summarize_retry env req n e w = (r, w') \<Longrightarrow> c w' \<le> c w + n"
proof (induction n arbitrary: e w)
  case (Suc n)
  obtain a w1 where one: "ce_complete env req w = (a, w1)" by fastforce
  have le: "c w1 \<le> c w + 1" by (rule one_call [OF assms one])
  have "w' = w1 \<or> (\<exists>e'. summarize_retry env req n e' w1 = (r, w'))"
    using Suc.prems one by (auto split: sum.splits if_splits)
  with Suc.IH [of _ w1] le show ?case by fastforce
qed simp

lemma summarize_calls:
  assumes "counts_completions env c" and "summarize_messages env model ms config w = Some (r, w')"
  shows "c w' \<le> c w + cc_max_retries config"
  using assms(2) retry_calls [OF assms(1)]
  by (auto simp: summarize_messages_def bind_eq_Some_conv)

lemma each_calls:
  assumes "counts_completions env c"
  shows "summarize_each env model config i cs acc w = Some (acc', w') \<Longrightarrow>
    c w' \<le> c w + length cs * cc_max_retries config \<and> length (fst acc') = length (fst acc) + length cs"
proof (induction cs arbitrary: i acc w)
  case (Cons ch cs)
  obtain r w1 where one: "summarize_messages env model ch config w = Some (r, w1)"
    using Cons.prems by (cases acc) (auto simp: bind_eq_Some_conv)
  obtain acc1 where rest: "summarize_each env model config (i + 1) cs acc1 w1 = Some (acc', w')"
    "length (fst acc1) = Suc (length (fst acc))"
    using Cons.prems one by (cases acc; cases r) auto
  show ?case
    using Cons.IH [OF rest(1)] rest(2) summarize_calls [OF assms one] by auto
qed simp

lemma length_chunks: "1 \<le> k \<Longrightarrow> length (chunks k xs) * k < length xs + k"
proof (induction k xs rule: chunks.induct)
  case (2 n x xs)
  show ?case
  proof (cases "length xs \<le> n - 1")
    case True
    then show ?thesis by simp
  next
    case False
    then show ?thesis using 2 by (simp add: algebra_simps)
  qed
qed simp

lemma in_chunks_calls:
  assumes "counts_completions env c" and "summarize_in_chunks env model ms config w = Some (r, w')"
  shows "c w' \<le> c w + ((length ms + 4) div 5) * cc_max_retries config + 1"
proof -
  obtain k where k: "chunk_size_of env ms config = Some k" and k5: "5 \<le> k"
    using assms(2) by (auto simp: summarize_in_chunks_def bind_eq_Some_conv chunk_size_of_def)
  obtain ss n e w1 where each: "summarize_each env model config 0 (chunks k ms) ([], 0, []) w = Some ((ss, n, e), w1)"
    using assms(2) k by (auto simp: summarize_in_chunks_def bind_eq_Some_conv)
  have one: "c w1 \<le> c w + length (chunks k ms) * cc_max_retries config"
    using each_calls [OF assms(1) each] by simp
  have "5 * length (chunks k ms) \<le> length ms + 4"
  proof (cases "chunks k ms = []")
    case False
    then obtain l where l: "length (chunks k ms) = Suc l" by (cases "chunks k ms") auto
    have "l * k < length ms" using length_chunks [of k ms] k5 by (simp add: l)
    moreover have "l * 5 \<le> l * k" using k5 by simp
    ultimately have "l * 5 < length ms" by (rule le_less_trans [rotated])
    then show ?thesis using l by simp
  qed simp
  then have "length (chunks k ms) \<le> (length ms + 4) div 5" by simp
  then have "length (chunks k ms) * cc_max_retries config \<le> ((length ms + 4) div 5) * cc_max_retries config"
    by (rule mult_le_mono1)
  moreover have "c w' \<le> c w1 + 1"
    using assms(2) k each
    by (auto simp: summarize_in_chunks_def split: if_splits prod.splits sum.splits dest!: one_call [OF assms(1)])
  ultimately show ?thesis using one by linarith
qed

text \<open>
  Compaction always comes to an end, and whatever the model answers it is asked at most
  (number of messages + 4) div 5 + 1 times the configured number of retries, plus one.
\<close>

lemma compaction_calls_bounded:
  assumes "compact_session env model ms config w = Some (res, w')" and "counts_completions env c"
  shows "c w' \<le> c w + ((length ms + 4) div 5 + 1) * cc_max_retries config + 1"
proof (cases "cc_keep_recent config < length ms")
  case True
  let ?old = "take (adjust_split_for_tool_pairs ms (length ms - cc_keep_recent config)) ms"
  let ?r = "cc_max_retries config"
  obtain first w1 where 1: "summarize_messages env model ?old config w = Some (first, w1)"
    using assms(1) True by (auto simp: compact_session_def Let_def bind_eq_Some_conv)
  have rest: "w' = w1 \<or> (\<exists>second. summarize_in_chunks env model ?old config w1 = Some (second, w'))"
  proof (cases first)
    case (Inr s)
    then show ?thesis using assms(1) True 1 by (simp add: compact_session_def Let_def)
  next
    case (Inl e)
    then obtain second w2 where 2: "summarize_in_chunks env model ?old config w1 = Some (second, w2)"
      using assms(1) True 1 by (auto simp: compact_session_def Let_def bind_eq_Some_conv)
    then have "w' = w2"
      using assms(1) True 1 Inl by (cases second) (auto simp: compact_session_def Let_def)
    with 2 show ?thesis by blast
  qed
  have a: "c w1 \<le> c w + ?r" by (rule summarize_calls [OF assms(2) 1])
  have b: "((length ?old + 4) div 5) * ?r \<le> ((length ms + 4) div 5) * ?r"
    by (intro mult_le_mono1 div_le_mono) simp
  have "c w' \<le> c w1 + ((length ?old + 4) div 5) * ?r + 1"
    using rest in_chunks_calls [OF assms(2)] by fastforce
  then have "c w' \<le> c w1 + ((length ms + 4) div 5) * ?r + 1"
    using b by linarith
  with a show ?thesis by (simp add: algebra_simps)
next
  case False
  then show ?thesis using assms(1) by (simp add: compact_session_def)
qed

section \<open>A panic\<close>

text \<open>
  Compaction panics when the text of the older messages is longer than the limit and the limit
  falls inside a character: the code slices the text at that very offset in order to find the next
  boundary. No answer of the model can prevent it.
\<close>

lemma compaction_panics_inside_character:
  assumes "cc_keep_recent config < length ms"
    and "build_conversation_text env
          (take (adjust_split_for_tool_pairs ms (length ms - cc_keep_recent config)) ms) config = Some body"
    and "limit = ce_quotient env (cc_max_chunk_chars config) (cc_safety_margin config)"
    and "limit < length body" and "\<not> is_char_boundary body (length body - limit)"
  shows "compact_session env model ms config w = None"
  using assms by (simp add: compact_session_def Let_def summarize_messages_def keep_tail_def slice_def)

definition quiet_env :: "unit compact_env" where
  "quiet_env =
     \<lparr>ce_complete = (\<lambda>req w. (Inr [TextBlock ''summary'' None], w)), ce_to_str = (\<lambda>_. []),
      ce_lower = (\<lambda>s. s), ce_ceil_mul = (\<lambda>n r. nat \<lceil>of_nat n * r\<rceil>),
      ce_quotient = (\<lambda>n r. nat \<lfloor>of_nat n / r\<rfloor>), ce_scale = exact_mul\<rparr>"

text \<open>A message of four accented letters, and a limit of five bytes for the text.\<close>

definition accented_text :: string where
  "accented_text = [CHR 0xC3, CHR 0xA9, CHR 0xC3, CHR 0xA9, CHR 0xC3, CHR 0xA9, CHR 0xC3, CHR 0xA9]"

definition accented :: "message list" where
  "accented = [user_message accented_text, user_message ''ok'']"

definition small_config :: compaction_config where
  "small_config = compaction_config_default\<lparr>cc_keep_recent := 1, cc_max_chunk_chars := 25, cc_safety_margin := 5\<rparr>"

lemma compaction_panics_inside_character_witness:
  "compact_session quiet_env ''m'' accented small_config () = None"
proof -
  let ?body = "labelled UserRole accented_text"
  have split_at: "adjust_split_for_tool_pairs accented (length accented - cc_keep_recent small_config) = 1"
    by (simp add: accented_def small_config_def adjust_split_for_tool_pairs_def user_message_def)
  have body: "build_conversation_text quiet_env (take 1 accented) small_config = Some ?body"
    by (simp add: build_conversation_text_def conversation_message_def accented_def user_message_def
        is_oversized_def text_length_def small_config_def accented_text_def)
  have limit: "5 = ce_quotient quiet_env (cc_max_chunk_chars small_config) (cc_safety_margin small_config)"
    by (simp add: quiet_env_def small_config_def)
  have cut: "5 < length ?body \<and> \<not> is_char_boundary ?body (length ?body - 5)"
    by (simp add: labelled_def role_label_def line_end_def is_char_boundary_def accented_text_def)
  show ?thesis
    by (rule compaction_panics_inside_character [OF _ body [folded split_at] limit])
       (use cut in \<open>simp_all add: accented_def small_config_def\<close>)
qed

lemma compaction_keeps_recent_witness:
  "\<exists>res. compact_session quiet_env ''m'' [user_message ''a'', user_message ''b''] (small_config\<lparr>cc_max_chunk_chars := 5000\<rparr>) () = Some (res, ())
     \<and> [user_message ''a'', user_message ''b''] = take (cp_compacted_count res) [user_message ''a'', user_message ''b''] @ cp_kept_messages res
     \<and> cp_summary res \<noteq> []"
proof -
  let ?ms = "[user_message ''a'', user_message ''b'']" and ?cfg = "small_config\<lparr>cc_max_chunk_chars := 5000\<rparr>"
  let ?body = "labelled UserRole ''a''"
  have split_at: "adjust_split_for_tool_pairs ?ms (length ?ms - cc_keep_recent ?cfg) = 1"
    by (simp add: small_config_def adjust_split_for_tool_pairs_def user_message_def)
  have "build_conversation_text quiet_env (take 1 ?ms) ?cfg = Some ?body"
    by (simp add: build_conversation_text_def conversation_message_def user_message_def
        is_oversized_def text_length_def)
  moreover have "keep_tail ?body (ce_quotient quiet_env (cc_max_chunk_chars ?cfg) (cc_safety_margin ?cfg)) = Some ?body"
    by (simp add: keep_tail_def labelled_def role_label_def line_end_def quiet_env_def small_config_def)
  moreover have "summarize_retry quiet_env req (cc_max_retries ?cfg) [] () = (Inr ''summary'', ())" for req
    by (simp add: small_config_def compaction_config_default_def quiet_env_def numeral_3_eq_3 response_text_def text_content_def)
  ultimately have "summarize_messages quiet_env ''m'' (take 1 ?ms) ?cfg () = Some (Inr ''summary'', ())"
    by (simp only: summarize_messages_def Option.bind.bind_lunit)
  then have "\<exists>res. compact_session quiet_env ''m'' ?ms ?cfg () = Some (res, ())"
    unfolding compact_session_def Let_def split_at by (simp add: small_config_def)
  then obtain res where res: "compact_session quiet_env ''m'' ?ms ?cfg () = Some (res, ())" by blast
  have "cc_keep_recent ?cfg < length ?ms" by (simp add: small_config_def)
  with compaction_keeps_recent [OF res] res show ?thesis by metis
qed

lemma compaction_calls_bounded_witness:
  "\<exists>res. compact_session quiet_env ''m'' [user_message ''a''] small_config () = Some (res, ())
     \<and> (0 :: nat) \<le> 0 + ((length [user_message ''a''] + 4) div 5 + 1) * cc_max_retries small_config + 1"
proof -
  obtain res where res: "compact_session quiet_env ''m'' [user_message ''a''] small_config () = Some (res, ())"
    by (simp add: compact_session_def small_config_def)
  have "counts_completions quiet_env (\<lambda>_. 0)" by (simp add: counts_completions_def)
  from compaction_calls_bounded [OF res this] show ?thesis
    using res by (intro exI [of _ res] conjI)
qed

end
