(* ===== verification/Stream_Text.thy ===== *)
theory Stream_Text
  imports Utf8
begin

text \<open>
  Text on its way to a client: the Markdown-aware chunker
  (\<^verbatim>\<open>crates/openfang-api/src/stream_chunker.rs\<close>) and the detector of repeated text
  (\<^verbatim>\<open>crates/openfang-api/src/stream_dedup.rs\<close>). Slices by byte offsets are options, with None
  for a panic. The first character of a character's Unicode lower case is a parameter.
\<close>

section \<open>Splitting\<close>

text \<open>\<^verbatim>\<open>str::split_inclusive\<close> at a character, and the characters of a string.\<close>

fun split_inclusive :: "char \<Rightarrow> string \<Rightarrow> string list" where
  "split_inclusive c [] = []"
| "split_inclusive c (x # xs) =
     (if x = c then [x] # split_inclusive c xs
      else case split_inclusive c xs of [] \<Rightarrow> [[x]] | l # ls \<Rightarrow> (x # l) # ls)"

lemma concat_split_inclusive [simp]: "concat (split_inclusive c s) = s"
  by (induction s) (auto split: list.splits)

function split_chars :: "string \<Rightarrow> string list" where
  "split_chars [] = []"
| "split_chars (c # s) =
     (c # takeWhile is_continuation s) # split_chars (dropWhile is_continuation s)"
  by pat_completeness auto
termination
  by (relation "measure length") (auto simp: length_dropWhile_le le_imp_less_Suc)

section \<open>The chunker\<close>

record stream_chunker =
  sc_buffer :: string
  sc_in_code_fence :: bool
  sc_fence_marker :: string
  sc_min_chunk_chars :: nat
  sc_max_chunk_chars :: nat

definition fence :: string where
  "fence = [CHR 0x60, CHR 0x60, CHR 0x60]"

definition newline :: string where
  "newline = [CHR 0x0A]"

definition sc_new :: "nat \<Rightarrow> nat \<Rightarrow> stream_chunker" where
  "sc_new min_chunk_chars max_chunk_chars =
     \<lparr>sc_buffer = [], sc_in_code_fence = False, sc_fence_marker = [],
      sc_min_chunk_chars = min_chunk_chars, sc_max_chunk_chars = max_chunk_chars\<rparr>"

definition push_line :: "string \<Rightarrow> stream_chunker \<Rightarrow> stream_chunker" where
  "push_line line sc =
     (let sc1 = sc\<lparr>sc_buffer := sc_buffer sc @ line\<rparr>;
          trimmed = trim line
      in if starts_with trimmed fence then
           if sc_in_code_fence sc1 then
             if trimmed = fence \<or> starts_with trimmed (sc_fence_marker sc1)
             then sc1\<lparr>sc_in_code_fence := False, sc_fence_marker := []\<rparr>
             else sc1
           else sc1\<lparr>sc_in_code_fence := True, sc_fence_marker := fence\<rparr>
         else sc1)"

definition sc_push :: "string \<Rightarrow> stream_chunker \<Rightarrow> stream_chunker" where
  "sc_push body sc = fold push_line (split_inclusive (CHR 0x0A) body) sc"

definition find_last_in_range :: "string \<Rightarrow> string \<Rightarrow> nat \<Rightarrow> nat \<Rightarrow> nat option option" where
  "find_last_in_range body pattern range_start range_end =
     (let e = boundary_below body (min range_end (length body));
          s = boundary_above_upto body (min range_start e) (e - min range_start e)
      in map_option (\<lambda>search_text. map_option (\<lambda>pos. s + pos) (rfind_str pattern search_text))
           (slice body s e))"

text \<open>The first of the patterns found decides the break; a flush that panics is None.\<close>

fun find_break :: "string \<Rightarrow> string list \<Rightarrow> nat \<Rightarrow> nat \<Rightarrow> nat option option" where
  "find_break body [] lo hi = Some None"
| "find_break body (p # ps) lo hi =
     (case find_last_in_range body p lo hi of
        None \<Rightarrow> None
      | Some (Some pos) \<Rightarrow> Some (Some (pos + length p))
      | Some None \<Rightarrow> find_break body ps lo hi)"

definition break_patterns :: "string list" where
  "break_patterns = [newline @ newline, newline, ''. '', ''! '', ''? '']"

definition cut_at :: "nat \<Rightarrow> stream_chunker \<Rightarrow> (string option \<times> stream_chunker) option" where
  "cut_at break_at sc =
     Option.bind (slice (sc_buffer sc) 0 break_at) (\<lambda>chunk.
     Option.bind (slice (sc_buffer sc) break_at (length (sc_buffer sc))) (\<lambda>rest.
       Some (Some chunk, sc\<lparr>sc_buffer := rest\<rparr>)))"

definition try_flush :: "stream_chunker \<Rightarrow> (string option \<times> stream_chunker) option" where
  "try_flush sc =
     (let len = length (sc_buffer sc)
      in if len < sc_min_chunk_chars sc then Some (None, sc)
         else if sc_in_code_fence sc \<and> len < sc_max_chunk_chars sc then Some (None, sc)
         else if sc_in_code_fence sc \<and> len \<ge> sc_max_chunk_chars sc then
           Some (Some (sc_buffer sc @ newline @ fence @ newline),
                 sc\<lparr>sc_buffer := fence @ dropWhile (\<lambda>c. c = CHR 0x60) (sc_fence_marker sc) @ newline\<rparr>)
         else
           case find_break (sc_buffer sc) break_patterns (sc_min_chunk_chars sc) (min len (sc_max_chunk_chars sc)) of
             None \<Rightarrow> None
           | Some (Some break_at) \<Rightarrow> cut_at break_at sc
           | Some None \<Rightarrow>
               if len \<ge> sc_max_chunk_chars sc then
                 let b = boundary_below (sc_buffer sc) (sc_max_chunk_chars sc)
                 in cut_at (if b = 0 then len else b) sc
               else Some (None, sc))"

definition flush_remaining :: "stream_chunker \<Rightarrow> string option \<times> stream_chunker" where
  "flush_remaining sc =
     (if sc_buffer sc = [] then (None, sc) else (Some (sc_buffer sc), sc\<lparr>sc_buffer := []\<rparr>))"

definition buffered_len :: "stream_chunker \<Rightarrow> nat" where
  "buffered_len sc = length (sc_buffer sc)"

section \<open>The repetition detector\<close>

definition MIN_DEDUP_LENGTH :: nat where
  "MIN_DEDUP_LENGTH = 10"

definition DEDUP_WINDOW :: nat where
  "DEDUP_WINDOW = 50"

record stream_dedup =
  recent_chunks :: "string list"
  recent_normalized :: "string list"

definition sd_new :: stream_dedup where
  "sd_new = \<lparr>recent_chunks = [], recent_normalized = []\<rparr>"

definition normalize_char :: "(string \<Rightarrow> string) \<Rightarrow> string \<Rightarrow> string \<times> bool \<Rightarrow> string \<times> bool" where
  "normalize_char lower1 ch acc =
     (case acc of (result, last_was_space) \<Rightarrow>
        if ws_front (str_bytes ch) \<noteq> 0 then
          (if last_was_space then (result, last_was_space) else (result @ '' '', True))
        else (result @ lower1 ch, False))"

definition normalize_text :: "(string \<Rightarrow> string) \<Rightarrow> string \<Rightarrow> string" where
  "normalize_text lower1 body = trim (fst (fold (normalize_char lower1) (split_chars body) ([], False)))"

definition is_duplicate :: "(string \<Rightarrow> string) \<Rightarrow> string \<Rightarrow> stream_dedup \<Rightarrow> bool" where
  "is_duplicate lower1 body sd =
     (if length body < MIN_DEDUP_LENGTH then False
      else if body \<in> set (recent_chunks sd) then True
      else normalize_text lower1 body \<in> set (recent_normalized sd))"

definition record_sent :: "(string \<Rightarrow> string) \<Rightarrow> string \<Rightarrow> stream_dedup \<Rightarrow> stream_dedup" where
  "record_sent lower1 body sd =
     (if length body < MIN_DEDUP_LENGTH then sd
      else
        let sd1 = (if length (recent_chunks sd) \<ge> DEDUP_WINDOW
                   then \<lparr>recent_chunks = tl (recent_chunks sd), recent_normalized = tl (recent_normalized sd)\<rparr>
                   else sd)
        in \<lparr>recent_chunks = recent_chunks sd1 @ [body],
            recent_normalized = recent_normalized sd1 @ [normalize_text lower1 body]\<rparr>)"

definition sd_clear :: "stream_dedup \<Rightarrow> stream_dedup" where
  "sd_clear sd = sd_new"

section \<open>Flushing loses nothing\<close>

lemma find_last_total:
  assumes "find_last_in_range body p lo hi = Some (Some pos)"
  shows "pos + length p \<le> length body \<and> pos + length p \<le> hi \<and> prefix p (drop pos body)"
proof -
  define e where "e = boundary_below body (min hi (length body))"
  define a where "a = boundary_above_upto body (min lo e) (e - min lo e)"
  obtain t i where t: "slice body a e = Some t" and i: "rfind_str p t = Some i" and pos: "pos = a + i"
    using assms by (auto simp: find_last_in_range_def Let_def a_def e_def)
  have le: "a \<le> e" "e \<le> length body" and t_eq: "t = take (e - a) (drop a body)"
    using t by (auto simp: slice_Some)
  have "e \<le> hi" using boundary_below_le [of body "min hi (length body)"] by (simp add: e_def)
  moreover have len: "i + length p \<le> length t" and at: "prefix p (drop i t)"
    using rfind_Some [OF i] by auto
  have "drop i t = take (e - a - i) (drop pos body)"
    by (simp add: t_eq pos drop_take add.commute)
  with at have "prefix p (drop pos body)"
    using take_is_prefix prefix_order.trans by metis
  moreover have "length t = e - a" using le by (simp add: t_eq)
  ultimately show ?thesis using len le pos by (intro conjI) linarith+
qed

lemma find_last_no_panic: "find_last_in_range body p lo hi \<noteq> None"
proof -
  let ?e = "boundary_below body (min hi (length body))"
  let ?a = "min lo ?e"
  have e: "is_char_boundary body ?e" by (rule boundary_below_boundary)
  have "is_char_boundary body (boundary_above_upto body ?a (?e - ?a))"
    by (rule boundary_above_upto_boundary) (simp add: e)
  moreover have "boundary_above_upto body ?a (?e - ?a) \<le> ?e"
    using boundary_above_upto_ge [of ?a body "?e - ?a"] by simp
  ultimately show ?thesis
    using e boundary_le [OF e] by (simp add: find_last_in_range_def Let_def slice_def)
qed

lemma find_break_no_panic: "find_break body ps lo hi \<noteq> None"
  using find_last_no_panic by (induction ps) (auto split: option.splits)

lemma find_break_Some:
  assumes "find_break body ps lo hi = Some (Some b)" and "utf8 body" and "\<forall>p \<in> set ps. p \<noteq> [] \<and> ascii p"
  shows "0 < b \<and> b \<le> hi \<and> b \<le> length body \<and> is_char_boundary body b"
  using assms
proof (induction ps)
  case (Cons p ps)
  show ?case
  proof (cases "find_last_in_range body p lo hi")
    case None
    then show ?thesis using find_last_no_panic by blast
  next
    case (Some found)
    show ?thesis
    proof (cases found)
      case None
      then show ?thesis using Cons Some by auto
    next
      case (Some pos)
      then have at: "find_last_in_range body p lo hi = Some (Some pos)" and b: "b = pos + length p"
        using \<open>find_last_in_range body p lo hi = Some found\<close> Cons.prems(1) by auto
      have p: "p \<noteq> []" "ascii p" using Cons.prems(3) by auto
      show ?thesis
        using find_last_total [OF at] ascii_match_boundaries(2) [OF Cons.prems(2) _ p] p(1)
        by (auto simp: b)
    qed
  qed
qed simp

lemma break_patterns_ascii: "\<forall>p \<in> set break_patterns. p \<noteq> [] \<and> ascii p"
  by (simp add: break_patterns_def newline_def)

lemma cut_at_Some:
  assumes "is_char_boundary (sc_buffer sc) b" and "b \<le> length (sc_buffer sc)"
  shows "cut_at b sc = Some (Some (take b (sc_buffer sc)), sc\<lparr>sc_buffer := drop b (sc_buffer sc)\<rparr>)"
  using assms by (simp add: cut_at_def slice_def)

text \<open>A flush outside the forced closing of a fence: nothing, or a first part of the buffer.\<close>

definition forced_close :: "stream_chunker \<Rightarrow> bool" where
  "forced_close sc =
     (sc_in_code_fence sc \<and> length (sc_buffer sc) \<ge> sc_max_chunk_chars sc
      \<and> length (sc_buffer sc) \<ge> sc_min_chunk_chars sc)"

lemma try_flush_cases:
  assumes "utf8 (sc_buffer sc)" and "\<not> forced_close sc"
  obtains "try_flush sc = Some (None, sc)"
  | b where "try_flush sc = Some (Some (take b (sc_buffer sc)), sc\<lparr>sc_buffer := drop b (sc_buffer sc)\<rparr>)"
      and "is_char_boundary (sc_buffer sc) b" and "b \<le> length (sc_buffer sc)"
      and "0 < b \<or> sc_buffer sc = []"
      and "b \<le> sc_max_chunk_chars sc \<or> boundary_below (sc_buffer sc) (sc_max_chunk_chars sc) = 0"
proof -
  let ?buf = "sc_buffer sc" and ?max = "sc_max_chunk_chars sc"
  let ?b = "boundary_below ?buf ?max"
  let ?find = "find_break ?buf break_patterns (sc_min_chunk_chars sc) (min (length ?buf) ?max)"
  consider (wait) "length ?buf < sc_min_chunk_chars sc \<or> sc_in_code_fence sc"
    | (found) b where "sc_min_chunk_chars sc \<le> length ?buf" "\<not> sc_in_code_fence sc" "?find = Some (Some b)"
    | (none) "sc_min_chunk_chars sc \<le> length ?buf" "\<not> sc_in_code_fence sc" "?find = Some None"
    using find_break_no_panic [of ?buf break_patterns] by (metis linorder_not_less not_Some_eq)
  then show thesis
  proof cases
    case wait
    then show thesis
      using that(1) assms(2) by (auto simp: try_flush_def forced_close_def Let_def)
  next
    case (found b)
    note b = find_break_Some [OF found(3) assms(1) break_patterns_ascii]
    then show thesis
      using that(2) [of b] found cut_at_Some [of sc b] by (simp add: try_flush_def Let_def)
  next
    case none
    show thesis
    proof (cases "length ?buf < ?max")
      case True
      then show thesis using that(1) none by (simp add: try_flush_def Let_def)
    next
      case False
      let ?c = "if ?b = 0 then length ?buf else ?b"
      have c: "is_char_boundary ?buf ?c" "?c \<le> length ?buf"
        using boundary_below_boundary [of ?buf ?max] boundary_le by auto
      have "try_flush sc = cut_at ?c sc"
        using none False by (simp add: try_flush_def Let_def)
      with that(2) [of ?c] cut_at_Some [OF c] c show thesis
        using boundary_below_le [of ?buf ?max] by (auto split: if_splits)
    qed
  qed
qed

text \<open>
  A client's session with the chunker: texts are pushed, flushes are tried. The outputs are
  collected in order; None is a panic.
\<close>

datatype chunk_op = PushText string | TryFlush

fun chunk_run :: "chunk_op list \<Rightarrow> string list \<Rightarrow> stream_chunker \<Rightarrow> (string list \<times> stream_chunker) option" where
  "chunk_run [] out sc = Some (out, sc)"
| "chunk_run (PushText t # ops) out sc = chunk_run ops out (sc_push t sc)"
| "chunk_run (TryFlush # ops) out sc =
     (case try_flush sc of
        None \<Rightarrow> None
      | Some (None, sc') \<Rightarrow> chunk_run ops out sc'
      | Some (Some chunk, sc') \<Rightarrow> chunk_run ops (out @ [chunk]) sc')"

fun pushed :: "chunk_op list \<Rightarrow> string list" where
  "pushed [] = []"
| "pushed (PushText t # ops) = t # pushed ops"
| "pushed (TryFlush # ops) = pushed ops"

fun never_forced :: "chunk_op list \<Rightarrow> stream_chunker \<Rightarrow> bool" where
  "never_forced [] sc = True"
| "never_forced (PushText t # ops) sc = never_forced ops (sc_push t sc)"
| "never_forced (TryFlush # ops) sc =
     (\<not> forced_close sc \<and> (case try_flush sc of None \<Rightarrow> True | Some (_, sc') \<Rightarrow> never_forced ops sc'))"

lemma push_line_simps [simp]:
  "sc_buffer (push_line l sc) = sc_buffer sc @ l"
  "sc_max_chunk_chars (push_line l sc) = sc_max_chunk_chars sc"
  "sc_min_chunk_chars (push_line l sc) = sc_min_chunk_chars sc"
  by (simp_all add: push_line_def Let_def)

lemma sc_push_simps [simp]:
  "sc_buffer (sc_push t sc) = sc_buffer sc @ t"
  "sc_max_chunk_chars (sc_push t sc) = sc_max_chunk_chars sc"
proof -
  have "sc_buffer (fold push_line ls sc) = sc_buffer sc @ concat ls
    \<and> sc_max_chunk_chars (fold push_line ls sc) = sc_max_chunk_chars sc" for ls
    by (induction ls arbitrary: sc) simp_all
  then show "sc_buffer (sc_push t sc) = sc_buffer sc @ t"
    "sc_max_chunk_chars (sc_push t sc) = sc_max_chunk_chars sc"
    by (simp_all add: sc_push_def)
qed

theorem chunks_preserve_text:
  assumes "\<forall>t \<in> set (pushed ops). utf8 t" and "utf8 (sc_buffer sc)" and "never_forced ops sc"
  shows "\<exists>chunks sc'. chunk_run ops out sc = Some (out @ chunks, sc')
    \<and> concat chunks @ sc_buffer sc' = sc_buffer sc @ concat (pushed ops)
    \<and> (4 \<le> sc_max_chunk_chars sc \<longrightarrow> (\<forall>c \<in> set chunks. length c \<le> sc_max_chunk_chars sc))
    \<and> utf8 (sc_buffer sc')"
  using assms
proof (induction ops out sc rule: chunk_run.induct)
  case (1 out sc)
  then show ?case by auto
next
  case (2 t ops out sc)
  then have "utf8 (sc_buffer (sc_push t sc))" by auto
  with 2 show ?case by auto
next
  case (3 ops out sc)
  have forced: "\<not> forced_close sc" using "3.prems"(3) by simp
  have small: "boundary_below (sc_buffer sc) (sc_max_chunk_chars sc) = 0 \<Longrightarrow> 4 \<le> sc_max_chunk_chars sc
      \<Longrightarrow> length (sc_buffer sc) \<le> sc_max_chunk_chars sc"
    using boundary_near [OF "3.prems"(2)] by fastforce
  show ?case
  proof (rule try_flush_cases [OF "3.prems"(2) forced])
    assume "try_flush sc = Some (None, sc)"
    with 3 show ?thesis by simp
  next
    fix b
    let ?sc = "sc\<lparr>sc_buffer := drop b (sc_buffer sc)\<rparr>" and ?c = "take b (sc_buffer sc)"
    assume b: "try_flush sc = Some (Some ?c, ?sc)" "is_char_boundary (sc_buffer sc) b"
      "b \<le> length (sc_buffer sc)" "0 < b \<or> sc_buffer sc = []"
      "b \<le> sc_max_chunk_chars sc \<or> boundary_below (sc_buffer sc) (sc_max_chunk_chars sc) = 0"
    have "utf8 (sc_buffer ?sc)" using utf8_cut(2) [OF "3.prems"(2) b(2)] by simp
    moreover have "never_forced ops ?sc" "\<forall>t \<in> set (pushed ops). utf8 t"
      using "3.prems" b(1) by auto
    ultimately obtain chunks sc' where IH: "chunk_run ops (out @ [?c]) ?sc = Some ((out @ [?c]) @ chunks, sc')"
      "concat chunks @ sc_buffer sc' = drop b (sc_buffer sc) @ concat (pushed ops)" "utf8 (sc_buffer sc')"
      "4 \<le> sc_max_chunk_chars sc \<longrightarrow> (\<forall>c \<in> set chunks. length c \<le> sc_max_chunk_chars sc)"
      using "3.IH"(2) [OF b(1) refl refl] by auto
    have "4 \<le> sc_max_chunk_chars sc \<longrightarrow> length ?c \<le> sc_max_chunk_chars sc"
      using b(3,5) small by auto
    with IH b(1) show ?thesis
      by (intro exI [of _ "?c # chunks"] exI [of _ sc']) (auto simp del: length_take)
  qed
qed

text \<open>
  Although the chunker waits while a fence is open, a fence that has been closed in the buffer is
  not protected: the last paragraph break is taken wherever it is.
\<close>

lemma splits_closed_fence:
  "try_flush (sc_push (''A'' @ newline @ fence @ newline @ ''x'' @ newline @ newline @ ''y'' @ newline @ fence @ newline)
     (sc_new 5 200)) =
   Some (Some (''A'' @ newline @ fence @ newline @ ''x'' @ newline @ newline),
     sc_new 5 200\<lparr>sc_buffer := ''y'' @ newline @ fence @ newline\<rparr>)"
  by code_simp

section \<open>What the detector remembers\<close>

lemma sd_lists:
  "length (recent_chunks sd) \<le> DEDUP_WINDOW \<Longrightarrow> recent_normalized sd = map (normalize_text l1) (recent_chunks sd) \<Longrightarrow>
   recent_chunks (record_sent l1 t sd) =
     (if length t < MIN_DEDUP_LENGTH then recent_chunks sd else ring_push DEDUP_WINDOW t (recent_chunks sd))
   \<and> recent_normalized (record_sent l1 t sd) = map (normalize_text l1) (recent_chunks (record_sent l1 t sd))"
  by (simp add: record_sent_def ring_push_def map_tl)

interpretation sent: bounded_log "ring_push DEDUP_WINDOW" "rev :: string list \<Rightarrow> string list" DEDUP_WINDOW
  by unfold_locales (simp add: DEDUP_WINDOW_def ring_push_items)

lemma record_run:
  "recent_chunks (fold (record_sent l1) ts sd_new) =
     fold (ring_push DEDUP_WINDOW) (filter (\<lambda>t. MIN_DEDUP_LENGTH \<le> length t) ts) []
   \<and> recent_normalized (fold (record_sent l1) ts sd_new) =
     map (normalize_text l1) (recent_chunks (fold (record_sent l1) ts sd_new))
   \<and> length (recent_chunks (fold (record_sent l1) ts sd_new)) \<le> DEDUP_WINDOW"
proof (induction ts rule: rev_induct)
  case Nil
  show ?case by (simp add: sd_new_def)
next
  case (snoc t ts)
  let ?sd = "fold (record_sent l1) ts sd_new"
  have "length (ring_push DEDUP_WINDOW t (recent_chunks ?sd)) \<le> DEDUP_WINDOW"
    by (rule sent.push_bound [unfolded length_rev]) (use snoc in blast)
  then show ?case
    using snoc sd_lists [of ?sd l1 t] by auto
qed

text \<open>
  A text is a duplicate exactly when it is long enough and its normal form is that of one of the
  last fifty long enough texts sent.
\<close>

theorem duplicate_iff_recent:
  "is_duplicate l1 t (fold (record_sent l1) ts sd_new) \<longleftrightarrow>
     MIN_DEDUP_LENGTH \<le> length t \<and>
     (\<exists>s \<in> set (take DEDUP_WINDOW (rev (filter (\<lambda>t. MIN_DEDUP_LENGTH \<le> length t) ts))).
        normalize_text l1 s = normalize_text l1 t)"
proof -
  let ?sd = "fold (record_sent l1) ts sd_new"
  have "rev (recent_chunks ?sd) = take DEDUP_WINDOW (rev (filter (\<lambda>t. MIN_DEDUP_LENGTH \<le> length t) ts))"
    using record_run [of l1 ts] sent.push_run [of "[]"] by simp
  then have "set (recent_chunks ?sd) = set (take DEDUP_WINDOW (rev (filter (\<lambda>t. MIN_DEDUP_LENGTH \<le> length t) ts)))"
    by (metis set_rev)
  then show ?thesis
    using record_run [of l1 ts]
    by (simp add: is_duplicate_def image_iff not_less eq_commute [of "normalize_text l1 t"]) blast
qed

end
