(* ===== verification/Channel_Router.thy ===== *)
theory Channel_Router
  imports Prelude
begin

text \<open>
  The router of channel messages to agents (\<^verbatim>\<open>crates/openfang-channels/src/router.rs\<close>), with the
  binding rules and the broadcast configuration of \<^verbatim>\<open>openfang-types/src/config.rs\<close> and the channel
  types of \<^verbatim>\<open>openfang-channels/src/types.rs\<close>. Concurrent maps are stores, and an operation that holds
  a lock is one step. The debug text of a channel type, which is the key of direct routes and
  channel defaults, is a parameter.
\<close>

section \<open>Bindings\<close>

datatype channel_type =
    Telegram | WhatsApp | Slack | Discord | SignalChannel | Matrix | Email | Teams | Mattermost
  | WebChat | CLI | Mqtt | CustomChannel string

record binding_match_rule =
  bm_channel :: "string option"
  bm_account_id :: "string option"
  bm_peer_id :: "string option"
  bm_guild_id :: "string option"
  bm_roles :: "string list"

record agent_binding =
  ab_agent :: string
  ab_match_rule :: binding_match_rule

definition specificity :: "binding_match_rule \<Rightarrow> nat" where
  "specificity rule =
     (if bm_peer_id rule \<noteq> None then 8 else 0) + (if bm_guild_id rule \<noteq> None then 4 else 0)
     + (if bm_roles rule \<noteq> [] then 2 else 0) + (if bm_account_id rule \<noteq> None then 2 else 0)
     + (if bm_channel rule \<noteq> None then 1 else 0)"

datatype broadcast_strategy = ParallelBroadcast | SequentialBroadcast

record broadcast_config =
  bc_strategy :: broadcast_strategy
  bc_routes :: "(string, string list) store"

record binding_context =
  bx_channel :: string
  bx_account_id :: "string option"
  bx_peer_id :: string
  bx_guild_id :: "string option"
  bx_roles :: "string list"

record agent_router =
  rt_user_defaults :: "(string, agent_id) store"
  rt_direct_routes :: "(string \<times> string, agent_id) store"
  rt_default_agent :: "agent_id option"
  rt_channel_defaults :: "(string, agent_id) store"
  rt_channel_default_names :: "(string, string) store"
  rt_bindings :: "(agent_binding \<times> string) list"
  rt_broadcast :: broadcast_config
  rt_agent_name_cache :: "(string, agent_id) store"

definition router_new :: agent_router where
  "router_new =
     \<lparr>rt_user_defaults = [], rt_direct_routes = [], rt_default_agent = None, rt_channel_defaults = [],
      rt_channel_default_names = [], rt_bindings = [],
      rt_broadcast = \<lparr>bc_strategy = ParallelBroadcast, bc_routes = []\<rparr>, rt_agent_name_cache = []\<rparr>"

section \<open>Configuration\<close>

definition set_default :: "agent_id \<Rightarrow> agent_router \<Rightarrow> agent_router" where
  "set_default i rt = rt\<lparr>rt_default_agent := Some i\<rparr>"

definition set_channel_default :: "string \<Rightarrow> agent_id \<Rightarrow> agent_router \<Rightarrow> agent_router" where
  "set_channel_default channel_key i rt =
     rt\<lparr>rt_channel_defaults := st_put channel_key i (rt_channel_defaults rt)\<rparr>"

definition set_channel_default_with_name ::
  "string \<Rightarrow> agent_id \<Rightarrow> string \<Rightarrow> agent_router \<Rightarrow> agent_router" where
  "set_channel_default_with_name channel_key i name rt =
     rt\<lparr>rt_channel_defaults := st_put channel_key i (rt_channel_defaults rt),
        rt_channel_default_names := st_put channel_key name (rt_channel_default_names rt)\<rparr>"

definition channel_default_name :: "string \<Rightarrow> agent_router \<Rightarrow> string option" where
  "channel_default_name channel_key rt = st_get (rt_channel_default_names rt) channel_key"

definition update_channel_default :: "string \<Rightarrow> agent_id \<Rightarrow> agent_router \<Rightarrow> agent_router" where
  "update_channel_default channel_key i rt =
     rt\<lparr>rt_channel_defaults := st_put channel_key i (rt_channel_defaults rt)\<rparr>"

definition set_user_default :: "string \<Rightarrow> agent_id \<Rightarrow> agent_router \<Rightarrow> agent_router" where
  "set_user_default user_key i rt = rt\<lparr>rt_user_defaults := st_put user_key i (rt_user_defaults rt)\<rparr>"

definition set_direct_route :: "string \<Rightarrow> string \<Rightarrow> agent_id \<Rightarrow> agent_router \<Rightarrow> agent_router" where
  "set_direct_route channel_key user i rt =
     rt\<lparr>rt_direct_routes := st_put (channel_key, user) i (rt_direct_routes rt)\<rparr>"

text \<open>The stable sort of the standard library, by decreasing specificity.\<close>

definition by_specificity :: "(agent_binding \<times> string) list \<Rightarrow> (agent_binding \<times> string) list" where
  "by_specificity bs = sort_key (\<lambda>(b, _). - int (specificity (ab_match_rule b))) bs"

definition load_bindings :: "agent_binding list \<Rightarrow> agent_router \<Rightarrow> agent_router" where
  "load_bindings bs rt = rt\<lparr>rt_bindings := by_specificity (map (\<lambda>b. (b, ab_agent b)) bs)\<rparr>"

definition load_broadcast :: "broadcast_config \<Rightarrow> agent_router \<Rightarrow> agent_router" where
  "load_broadcast bc rt = rt\<lparr>rt_broadcast := bc\<rparr>"

definition register_agent :: "string \<Rightarrow> agent_id \<Rightarrow> agent_router \<Rightarrow> agent_router" where
  "register_agent name i rt = rt\<lparr>rt_agent_name_cache := st_put name i (rt_agent_name_cache rt)\<rparr>"

definition add_binding :: "agent_binding \<Rightarrow> agent_router \<Rightarrow> agent_router" where
  "add_binding b rt = rt\<lparr>rt_bindings := by_specificity (rt_bindings rt @ [(b, ab_agent b)])\<rparr>"

definition remove_binding :: "nat \<Rightarrow> agent_router \<Rightarrow> agent_binding option \<times> agent_router" where
  "remove_binding n rt =
     (if n < length (rt_bindings rt)
      then (Some (fst (rt_bindings rt ! n)),
            rt\<lparr>rt_bindings := take n (rt_bindings rt) @ drop (Suc n) (rt_bindings rt)\<rparr>)
      else (None, rt))"

definition router_bindings :: "agent_router \<Rightarrow> agent_binding list" where
  "router_bindings rt = map fst (rt_bindings rt)"

section \<open>Resolution\<close>

definition binding_matches :: "agent_binding \<Rightarrow> binding_context \<Rightarrow> bool" where
  "binding_matches b ctx =
     (let rule = ab_match_rule b
      in (case bm_channel rule of Some ch \<Rightarrow> ch = bx_channel ctx | None \<Rightarrow> True)
       \<and> (case bm_account_id rule of Some acc \<Rightarrow> bx_account_id ctx = Some acc | None \<Rightarrow> True)
       \<and> (case bm_peer_id rule of Some pid \<Rightarrow> pid = bx_peer_id ctx | None \<Rightarrow> True)
       \<and> (case bm_guild_id rule of Some gid \<Rightarrow> bx_guild_id ctx = Some gid | None \<Rightarrow> True)
       \<and> (bm_roles rule = [] \<or> (\<exists>r \<in> set (bm_roles rule). r \<in> set (bx_roles ctx))))"

fun first_binding ::
  "(string, agent_id) store \<Rightarrow> binding_context \<Rightarrow> (agent_binding \<times> string) list \<Rightarrow> agent_id option" where
  "first_binding cache ctx [] = None"
| "first_binding cache ctx ((b, _) # bs) =
     (if binding_matches b ctx then
        (case st_get cache (ab_agent b) of
           Some i \<Rightarrow> Some i
         | None \<Rightarrow> first_binding cache ctx bs)
      else first_binding cache ctx bs)"

definition resolve_binding :: "binding_context \<Rightarrow> agent_router \<Rightarrow> agent_id option" where
  "resolve_binding ctx rt = first_binding (rt_agent_name_cache rt) ctx (rt_bindings rt)"

definition channel_type_to_str :: "channel_type \<Rightarrow> string" where
  "channel_type_to_str ct =
     (case ct of
        Telegram \<Rightarrow> ''telegram'' | Discord \<Rightarrow> ''discord'' | Slack \<Rightarrow> ''slack'' | WhatsApp \<Rightarrow> ''whatsapp''
      | SignalChannel \<Rightarrow> ''signal'' | Matrix \<Rightarrow> ''matrix'' | Email \<Rightarrow> ''email'' | Teams \<Rightarrow> ''teams''
      | Mattermost \<Rightarrow> ''mattermost'' | WebChat \<Rightarrow> ''webchat'' | CLI \<Rightarrow> ''cli'' | CustomChannel s \<Rightarrow> s
      | Mqtt \<Rightarrow> ''unknown'')"

definition resolve_with_context ::
  "(channel_type \<Rightarrow> string) \<Rightarrow> channel_type \<Rightarrow> string \<Rightarrow> string option \<Rightarrow> binding_context \<Rightarrow> agent_router
     \<Rightarrow> agent_id option" where
  "resolve_with_context debug ct user user_key ctx rt =
     (case resolve_binding ctx rt of
        Some i \<Rightarrow> Some i
      | None \<Rightarrow>
          let channel_key = debug ct
          in case st_get (rt_direct_routes rt) (channel_key, user) of
               Some i \<Rightarrow> Some i
             | None \<Rightarrow>
                 (case Option.bind user_key (st_get (rt_user_defaults rt)) of
                    Some i \<Rightarrow> Some i
                  | None \<Rightarrow>
                      (case st_get (rt_user_defaults rt) user of
                         Some i \<Rightarrow> Some i
                       | None \<Rightarrow>
                           (case st_get (rt_channel_defaults rt) channel_key of
                              Some i \<Rightarrow> Some i
                            | None \<Rightarrow> rt_default_agent rt))))"

definition plain_context :: "channel_type \<Rightarrow> string \<Rightarrow> binding_context" where
  "plain_context ct user =
     \<lparr>bx_channel = channel_type_to_str ct, bx_account_id = None, bx_peer_id = user, bx_guild_id = None,
      bx_roles = []\<rparr>"

text \<open>
  \<^verbatim>\<open>resolve\<close> builds a context from the channel and the sender and then goes through the same
  cascade.
\<close>

definition resolve_agent ::
  "(channel_type \<Rightarrow> string) \<Rightarrow> channel_type \<Rightarrow> string \<Rightarrow> string option \<Rightarrow> agent_router \<Rightarrow> agent_id option" where
  "resolve_agent debug ct user user_key rt =
     resolve_with_context debug ct user user_key (plain_context ct user) rt"

definition resolve_broadcast :: "string \<Rightarrow> agent_router \<Rightarrow> (string \<times> agent_id option) list" where
  "resolve_broadcast peer rt =
     (case st_get (bc_routes (rt_broadcast rt)) peer of
        Some names \<Rightarrow> map (\<lambda>name. (name, st_get (rt_agent_name_cache rt) name)) names
      | None \<Rightarrow> [])"

definition has_broadcast :: "string \<Rightarrow> agent_router \<Rightarrow> bool" where
  "has_broadcast peer rt = (st_get (bc_routes (rt_broadcast rt)) peer \<noteq> None)"

section \<open>The most specific binding decides\<close>

definition router_sorted :: "agent_router \<Rightarrow> bool" where
  "router_sorted rt = sorted_wrt (\<ge>) (map (\<lambda>(b, _). specificity (ab_match_rule b)) (rt_bindings rt))"

lemma by_specificity_sorted:
  "sorted_wrt (\<ge>) (map (\<lambda>(b, _). specificity (ab_match_rule b)) (by_specificity bs))"
proof -
  have "sorted (map (\<lambda>(b, n). - int (specificity (ab_match_rule b))) (by_specificity bs))"
    unfolding by_specificity_def by (rule sorted_sort_key)
  then show ?thesis
    by (simp add: sorted_map sorted_wrt_map case_prod_unfold)
qed

datatype router_op =
    SetDefault agent_id
  | SetChannelDefault string agent_id
  | SetChannelDefaultNamed string agent_id string
  | SetUserDefault string agent_id
  | SetDirectRoute string string agent_id
  | LoadBindings "agent_binding list"
  | LoadBroadcast broadcast_config
  | RegisterAgent string agent_id
  | AddBinding agent_binding
  | RemoveBinding nat

definition router_step :: "router_op \<Rightarrow> agent_router \<Rightarrow> agent_router" where
  "router_step x rt =
     (case x of
        SetDefault i \<Rightarrow> set_default i rt
      | SetChannelDefault k i \<Rightarrow> set_channel_default k i rt
      | SetChannelDefaultNamed k i n \<Rightarrow> set_channel_default_with_name k i n rt
      | SetUserDefault k i \<Rightarrow> set_user_default k i rt
      | SetDirectRoute k u i \<Rightarrow> set_direct_route k u i rt
      | LoadBindings bs \<Rightarrow> load_bindings bs rt
      | LoadBroadcast bc \<Rightarrow> load_broadcast bc rt
      | RegisterAgent n i \<Rightarrow> register_agent n i rt
      | AddBinding b \<Rightarrow> add_binding b rt
      | RemoveBinding n \<Rightarrow> snd (remove_binding n rt))"

lemma sorted_wrt_remove:
  assumes "sorted_wrt P xs"
  shows "sorted_wrt P (take n xs @ drop (Suc n) xs)"
proof (cases "n < length xs")
  case True
  then have "sorted_wrt P (take n xs @ xs ! n # drop (Suc n) xs)"
    using assms by (simp add: id_take_nth_drop [symmetric])
  then show ?thesis by (simp add: sorted_wrt_append)
qed (use assms in simp)

lemma router_step_sorted: "router_sorted rt \<Longrightarrow> router_sorted (router_step x rt)"
  by (cases x)
     (auto simp: router_step_def router_sorted_def set_default_def set_channel_default_def
        set_channel_default_with_name_def set_user_default_def set_direct_route_def load_bindings_def
        load_broadcast_def register_agent_def add_binding_def remove_binding_def by_specificity_sorted
        take_map [symmetric] drop_map [symmetric] intro: sorted_wrt_remove)

interpretation routed: run_from router_step "\<lambda>_. True" router_sorted router_new
  by unfold_locales (simp add: router_step_sorted, simp add: router_sorted_def router_new_def)

definition usable :: "agent_router \<Rightarrow> binding_context \<Rightarrow> agent_binding \<Rightarrow> bool" where
  "usable rt ctx b = (binding_matches b ctx \<and> st_get (rt_agent_name_cache rt) (ab_agent b) \<noteq> None)"

lemma first_binding_Some:
  assumes "first_binding cache ctx bs = Some i"
    and "sorted_wrt (\<ge>) (map (\<lambda>(b, _). specificity (ab_match_rule b)) bs)"
  shows "\<exists>b \<in> fst ` set bs. binding_matches b ctx \<and> st_get cache (ab_agent b) = Some i \<and>
    (\<forall>b' \<in> fst ` set bs. binding_matches b' ctx \<and> st_get cache (ab_agent b') \<noteq> None \<longrightarrow>
       specificity (ab_match_rule b') \<le> specificity (ab_match_rule b))"
  using assms
proof (induction cache ctx bs rule: first_binding.induct)
  case (2 cache ctx b n bs)
  show ?case
  proof (cases "binding_matches b ctx \<and> st_get cache (ab_agent b) \<noteq> None")
    case True
    then show ?thesis using 2 by fastforce
  next
    case False
    then have "first_binding cache ctx bs = Some i" using "2.prems"(1) by (auto split: if_splits)
    then show ?thesis
      using 2 False by (auto split: if_splits)
  qed
qed simp

lemma first_binding_None:
  "first_binding cache ctx bs = None \<longleftrightarrow>
     (\<forall>b \<in> fst ` set bs. \<not> (binding_matches b ctx \<and> st_get cache (ab_agent b) \<noteq> None))"
  by (induction cache ctx bs rule: first_binding.induct) (auto split: option.splits)

fun first_some :: "'a option list \<Rightarrow> 'a option" where
  "first_some [] = None"
| "first_some (x # xs) = (case x of Some a \<Rightarrow> Some a | None \<Rightarrow> first_some xs)"

definition fallbacks :: "(channel_type \<Rightarrow> string) \<Rightarrow> channel_type \<Rightarrow> string \<Rightarrow> string option \<Rightarrow> agent_router
    \<Rightarrow> agent_id option list" where
  "fallbacks debug ct user key rt =
     [st_get (rt_direct_routes rt) (debug ct, user), Option.bind key (st_get (rt_user_defaults rt)),
      st_get (rt_user_defaults rt) user, st_get (rt_channel_defaults rt) (debug ct), rt_default_agent rt]"

lemma resolve_cascade:
  "resolve_with_context debug ct user key ctx rt = first_some (resolve_binding ctx rt # fallbacks debug ct user key rt)"
  by (simp add: resolve_with_context_def fallbacks_def Let_def split: option.splits)

text \<open>
  C26. After any configuration of the router, a message goes to the agent of a binding of greatest
  specificity among those that match it and name a known agent; only when no such binding exists
  do the direct route, the defaults of the user, of the channel and of the system decide, in this
  order.
\<close>

theorem most_specific_binding_wins:
  fixes ops :: "router_op list"
  defines "rt \<equiv> fold router_step ops router_new"
  shows "(\<exists>b \<in> set (router_bindings rt). usable rt ctx b
       \<and> resolve_with_context debug ct user key ctx rt = st_get (rt_agent_name_cache rt) (ab_agent b)
       \<and> (\<forall>b' \<in> set (router_bindings rt). usable rt ctx b' \<longrightarrow>
            specificity (ab_match_rule b') \<le> specificity (ab_match_rule b)))
    \<or> (\<forall>b \<in> set (router_bindings rt). \<not> usable rt ctx b) \<and>
       resolve_with_context debug ct user key ctx rt = first_some (fallbacks debug ct user key rt)"
proof (cases "resolve_binding ctx rt")
  case None
  then have "\<forall>b \<in> set (router_bindings rt). \<not> usable rt ctx b"
    by (simp add: resolve_binding_def first_binding_None usable_def router_bindings_def)
  with None show ?thesis by (simp add: resolve_cascade)
next
  case (Some i)
  have "router_sorted rt"
    unfolding rt_def by (rule routed.reached_inv) (simp add: list_all_iff)
  then obtain b where b: "b \<in> set (router_bindings rt)" "binding_matches b ctx"
    "st_get (rt_agent_name_cache rt) (ab_agent b) = Some i"
    "\<forall>b' \<in> set (router_bindings rt). usable rt ctx b' \<longrightarrow>
       specificity (ab_match_rule b') \<le> specificity (ab_match_rule b)"
    using Some first_binding_Some [of "rt_agent_name_cache rt" ctx "rt_bindings rt" i]
    unfolding resolve_binding_def router_sorted_def usable_def router_bindings_def set_map by blast
  then show ?thesis
    using Some by (auto simp: resolve_cascade usable_def)
qed

text \<open>Two bindings match; the one that names the sender is more specific than the one of the channel.\<close>

definition chan_rule :: binding_match_rule where
  "chan_rule = \<lparr>bm_channel = Some ''telegram'', bm_account_id = None, bm_peer_id = None, bm_guild_id = None, bm_roles = []\<rparr>"

definition sample_routes :: "router_op list" where
  "sample_routes =
     [RegisterAgent ''general'' 1, RegisterAgent ''vip'' 2,
      LoadBindings [\<lparr>ab_agent = ''general'', ab_match_rule = chan_rule\<rparr>,
                    \<lparr>ab_agent = ''vip'', ab_match_rule = chan_rule\<lparr>bm_peer_id := Some ''alice''\<rparr>\<rparr>]]"

theorem most_specific_binding_wins_witness:
  "\<exists>b \<in> set (router_bindings (fold router_step sample_routes router_new)).
     usable (fold router_step sample_routes router_new) (plain_context Telegram ''alice'') b
     \<and> resolve_with_context (\<lambda>_. []) Telegram ''alice'' None (plain_context Telegram ''alice'')
         (fold router_step sample_routes router_new) = Some 2
     \<and> ab_agent b = ''vip''"
proof -
  let ?rt = "fold router_step sample_routes router_new" and ?ctx = "plain_context Telegram ''alice''"
  let ?vip = "\<lparr>ab_agent = ''vip'', ab_match_rule = chan_rule\<lparr>bm_peer_id := Some ''alice''\<rparr>\<rparr>"
  have cache: "st_get (rt_agent_name_cache ?rt) ''vip'' = Some 2"
    by (simp add: sample_routes_def router_step_def register_agent_def load_bindings_def router_new_def)
  have bindings: "set (router_bindings ?rt) = {?vip, \<lparr>ab_agent = ''general'', ab_match_rule = chan_rule\<rparr>}"
    by (auto simp: sample_routes_def router_step_def register_agent_def load_bindings_def router_new_def
        router_bindings_def by_specificity_def)
  have vip: "usable ?rt ?ctx ?vip"
    using cache by (simp add: usable_def binding_matches_def plain_context_def chan_rule_def channel_type_to_str_def)
  have "specificity chan_rule < specificity (chan_rule\<lparr>bm_peer_id := Some ''alice''\<rparr>)"
    by (simp add: specificity_def chan_rule_def)
  then have "resolve_with_context (\<lambda>_. []) Telegram ''alice'' None ?ctx ?rt = Some 2"
    using most_specific_binding_wins [of sample_routes ?ctx "\<lambda>_. []" Telegram "''alice''" None] vip bindings cache
    by auto
  with vip bindings show ?thesis by auto
qed

text \<open>
  The bridge resolves every message by its channel and sender alone. A binding that names an
  account, a guild or a role therefore never applies, and neither does one for the MQTT channel,
  whose name is translated to \<^verbatim>\<open>unknown\<close>.
\<close>

lemma bindings_never_applied:
  assumes "binding_matches b (plain_context ct user)"
  shows "bm_account_id (ab_match_rule b) = None \<and> bm_guild_id (ab_match_rule b) = None
    \<and> bm_roles (ab_match_rule b) = []
    \<and> (ct = Mqtt \<longrightarrow> bm_channel (ab_match_rule b) \<noteq> Some ''mqtt'')"
  using assms
  by (auto simp: binding_matches_def plain_context_def channel_type_to_str_def Let_def split: option.splits)

end
