(* ===== verification/Pairing.thy ===== *)
theory Pairing
  imports Prelude
begin

text \<open>
  Device pairing (\<^verbatim>\<open>crates/openfang-kernel/src/pairing.rs\<close>): short-lived single-use tokens, the list
  of paired devices with its limit, and push notifications. The random token, the clock and the
  outcome of the HTTP request are arguments; the persistence callback is a list of its calls. The
  second half looks at concurrent completions: the source reads, checks and writes its maps in
  separate steps.
\<close>

section \<open>The manager\<close>

definition MAX_PENDING_REQUESTS :: nat where
  "MAX_PENDING_REQUESTS = 5"

record pairing_config =
  pg_enabled :: bool
  pg_max_devices :: nat
  pg_token_expiry_secs :: nat
  pg_push_provider :: string
  pg_ntfy_url :: "string option"
  pg_ntfy_topic :: "string option"

definition pairing_config_default :: pairing_config where
  "pairing_config_default =
     \<lparr>pg_enabled = False, pg_max_devices = 10, pg_token_expiry_secs = 300, pg_push_provider = ''none'',
      pg_ntfy_url = None, pg_ntfy_topic = None\<rparr>"

record paired_device =
  pd_device_id :: string
  pd_display_name :: string
  pd_platform :: string
  pd_paired_at :: time
  pd_last_seen :: time
  pd_push_token :: "string option"

record pairing_request =
  pq_token :: string
  pq_created_at :: time
  pq_expires_at :: time

datatype persist_op = SaveDevice | RemoveSaved

record pairing_manager =
  pm_config :: pairing_config
  pm_pending :: "(string, pairing_request) store"
  pm_devices :: "(string, paired_device) store"
  pm_persist :: "(paired_device \<times> persist_op) list option"

definition pairing_new :: "pairing_config \<Rightarrow> pairing_manager" where
  "pairing_new config = \<lparr>pm_config = config, pm_pending = [], pm_devices = [], pm_persist = None\<rparr>"

definition set_persist :: "pairing_manager \<Rightarrow> pairing_manager" where
  "set_persist pm = pm\<lparr>pm_persist := Some []\<rparr>"

definition persist_call :: "paired_device \<Rightarrow> persist_op \<Rightarrow> pairing_manager \<Rightarrow> pairing_manager" where
  "persist_call d oper pm = pm\<lparr>pm_persist := map_option (\<lambda>done_log. done_log @ [(d, oper)]) (pm_persist pm)\<rparr>"

definition load_devices :: "paired_device list \<Rightarrow> pairing_manager \<Rightarrow> pairing_manager" where
  "load_devices ds pm = pm\<lparr>pm_devices := fold (\<lambda>d. st_put (pd_device_id d) d) ds (pm_devices pm)\<rparr>"

definition clean_expired :: "time \<Rightarrow> pairing_manager \<Rightarrow> pairing_manager" where
  "clean_expired now pm = pm\<lparr>pm_pending := filter (\<lambda>(_, req). pq_expires_at req > now) (pm_pending pm)\<rparr>"

text \<open>\<^verbatim>\<open>chrono::Duration::seconds\<close> takes the expiry in seconds; instants are in milliseconds.\<close>

definition create_pairing_request ::
  "time \<Rightarrow> string \<Rightarrow> pairing_manager \<Rightarrow> (string, pairing_request) result \<times> pairing_manager" where
  "create_pairing_request now token pm =
     (if \<not> pg_enabled (pm_config pm) then (Inl ''Device pairing is disabled'', pm)
      else
        let pm1 = (if length (pm_pending pm) \<ge> MAX_PENDING_REQUESTS then clean_expired now pm else pm)
        in if length (pm_pending pm) \<ge> MAX_PENDING_REQUESTS \<and> length (pm_pending pm1) \<ge> MAX_PENDING_REQUESTS
           then (Inl ''Too many pending pairing requests. Try again later.'', pm1)
           else
             let request = \<lparr>pq_token = token, pq_created_at = now,
                            pq_expires_at = now + int (pg_token_expiry_secs (pm_config pm)) * 1000\<rparr>
             in (Inr request, pm1\<lparr>pm_pending := st_put token request (pm_pending pm1)\<rparr>))"

text \<open>The entry whose token equals the one provided.\<close>

definition find_token :: "string \<Rightarrow> pairing_manager \<Rightarrow> (string \<times> pairing_request) option" where
  "find_token token pm = List.find (\<lambda>(_, req). pq_token req = token) (pm_pending pm)"

definition limit_message :: "nat \<Rightarrow> string" where
  "limit_message n = ''Maximum paired devices ('' @ show_nat n @ '') reached. Remove a device first.''"

definition complete_pairing ::
  "time \<Rightarrow> string \<Rightarrow> paired_device \<Rightarrow> pairing_manager \<Rightarrow> (string, paired_device) result \<times> pairing_manager" where
  "complete_pairing now token device_info pm =
     (case find_token token pm of
        None \<Rightarrow> (Inl ''Invalid or expired pairing token'', pm)
      | Some (key, request) \<Rightarrow>
          if now > pq_expires_at request then
            (Inl ''Pairing token has expired'', pm\<lparr>pm_pending := st_del key (pm_pending pm)\<rparr>)
          else if length (pm_devices pm) \<ge> pg_max_devices (pm_config pm) then
            (Inl (limit_message (pg_max_devices (pm_config pm))), pm)
          else
            (Inr device_info, persist_call device_info SaveDevice
               (pm\<lparr>pm_pending := st_del key (pm_pending pm),
                   pm_devices := st_put (pd_device_id device_info) device_info (pm_devices pm)\<rparr>)))"

definition list_devices :: "pairing_manager \<Rightarrow> paired_device list" where
  "list_devices pm = map snd (pm_devices pm)"

definition remove_device :: "string \<Rightarrow> pairing_manager \<Rightarrow> (string, unit) result \<times> pairing_manager" where
  "remove_device device_id pm =
     (case st_get (pm_devices pm) device_id of
        None \<Rightarrow> (Inl (''Device '' @ [CHR 0x27] @ device_id @ [CHR 0x27] @ '' not found''), pm)
      | Some d \<Rightarrow>
          (Inr (), persist_call d RemoveSaved (pm\<lparr>pm_devices := st_del device_id (pm_devices pm)\<rparr>)))"

text \<open>
  Notifications: \<open>env\<close> reads an environment variable, \<open>post\<close> is the outcome of the request to a URL
  (the status, as text, and whether it is a success; or an error).
\<close>

definition trim_end_slash :: "string \<Rightarrow> string" where
  "trim_end_slash s = rev (dropWhile (\<lambda>c. c = CHR ''/'') (rev s))"

definition push_outcome ::
  "string \<Rightarrow> (string, string \<times> bool) result \<Rightarrow> pairing_manager \<Rightarrow> (string \<times> (string, unit) result) list" where
  "push_outcome provider response pm =
     (case response of
        Inr (status, True) \<Rightarrow> map (\<lambda>(i, d). (pd_device_id d, Inr ())) (pm_devices pm)
      | Inr (status, False) \<Rightarrow> [(provider, Inl (provider @ '' returned HTTP '' @ status))]
      | Inl e \<Rightarrow> [(provider, Inl (provider @ '' request failed: '' @ e))])"

definition notify_devices ::
  "(string \<Rightarrow> string option) \<Rightarrow> (string \<Rightarrow> (string, string \<times> bool) result) \<Rightarrow> pairing_manager
     \<Rightarrow> (string \<times> (string, unit) result) list" where
  "notify_devices env post pm =
     (let provider = pg_push_provider (pm_config pm)
      in if provider = ''ntfy'' then
           (case pg_ntfy_topic (pm_config pm) of
              None \<Rightarrow> [(''ntfy'', Inl ''ntfy_topic not configured'')]
            | Some topic \<Rightarrow>
                let url = (case pg_ntfy_url (pm_config pm) of Some u \<Rightarrow> u | None \<Rightarrow> ''https://ntfy.sh'')
                in push_outcome ''ntfy'' (post (trim_end_slash url @ ''/'' @ topic)) pm)
         else if provider = ''gotify'' then
           (case env ''GOTIFY_APP_TOKEN'' of
              None \<Rightarrow> [(''gotify'', Inl ''GOTIFY_APP_TOKEN not set'')]
            | Some _ \<Rightarrow>
                (case env ''GOTIFY_SERVER_URL'' of
                   None \<Rightarrow> [(''gotify'', Inl ''GOTIFY_SERVER_URL not set'')]
                 | Some server_url \<Rightarrow>
                     push_outcome ''gotify'' (post (trim_end_slash server_url @ ''/message'')) pm))
         else [])"

section \<open>One request after the other\<close>

datatype pairing_op =
    IssueToken time string
  | SubmitToken time string paired_device
  | UnpairDevice string
  | CleanExpired time

text \<open>The successful completions, oldest first, with the time and the token.\<close>

type_synonym pairing_log = "(time \<times> string \<times> paired_device) list"

definition pairing_step :: "pairing_op \<Rightarrow> pairing_manager \<times> pairing_log \<Rightarrow> pairing_manager \<times> pairing_log" where
  "pairing_step x s =
     (case s of (pm, done_log) \<Rightarrow>
        case x of
          IssueToken now token \<Rightarrow> (snd (create_pairing_request now token pm), done_log)
        | SubmitToken now token d \<Rightarrow>
            (case complete_pairing now token d pm of
               (Inr _, pm') \<Rightarrow> (pm', done_log @ [(now, token, d)])
             | (Inl _, pm') \<Rightarrow> (pm', done_log))
        | UnpairDevice i \<Rightarrow> (snd (remove_device i pm), done_log)
        | CleanExpired now \<Rightarrow> (clean_expired now pm, done_log))"

fun issued :: "pairing_op list \<Rightarrow> (time \<times> string) list" where
  "issued [] = []"
| "issued (IssueToken now token # xs) = (now, token) # issued xs"
| "issued (_ # xs) = issued xs"

lemma issued_append: "issued (xs @ ys) = issued xs @ issued ys"
  by (induction xs rule: issued.induct) auto

lemma pm_simps [simp]:
  "pm_config (persist_call d x pm) = pm_config pm" "pm_pending (persist_call d x pm) = pm_pending pm"
  "pm_devices (persist_call d x pm) = pm_devices pm"
  "pm_config (clean_expired now pm) = pm_config pm" "pm_devices (clean_expired now pm) = pm_devices pm"
  by (simp_all add: persist_call_def clean_expired_def)

text \<open>The tokens that have paired a device, and the time limit of a token.\<close>

definition used_tokens :: "pairing_log \<Rightarrow> string list" where
  "used_tokens done_log = map (\<lambda>(_, token, _). token) done_log"

definition issued_in_time :: "pairing_config \<Rightarrow> (time \<times> string) list \<Rightarrow> time \<Rightarrow> string \<Rightarrow> bool" where
  "issued_in_time config iss t token =
     (\<exists>t0. (t0, token) \<in> set iss \<and> t \<le> t0 + int (pg_token_expiry_secs config) * 1000)"

lemma used_tokens_simps [simp]:
  "used_tokens [] = []" "used_tokens (done_log @ [(t, token, d)]) = used_tokens done_log @ [token]"
  by (simp_all add: used_tokens_def)

lemma used_tokens_in: "(t, token, d) \<in> set done_log \<Longrightarrow> token \<in> set (used_tokens done_log)"
  by (force simp: used_tokens_def)

lemma issued_in_time_mono:
  "issued_in_time config iss t token \<Longrightarrow> set iss \<subseteq> set iss' \<Longrightarrow> t' \<le> t \<Longrightarrow> issued_in_time config iss' t' token"
  unfolding issued_in_time_def by (meson order_trans subsetD)

lemma issued_in_time_token: "issued_in_time config iss t token \<Longrightarrow> token \<in> snd ` set iss"
  by (force simp: issued_in_time_def)

text \<open>A pending entry is stored under its token, was issued for that long, and has not been used.\<close>

definition pending_ok :: "pairing_config \<Rightarrow> (time \<times> string) list \<Rightarrow> pairing_log \<Rightarrow> string \<times> pairing_request \<Rightarrow> bool" where
  "pending_ok config iss done_log e =
     (pq_token (snd e) = fst e \<and> issued_in_time config iss (pq_expires_at (snd e)) (fst e)
      \<and> fst e \<notin> set (used_tokens done_log))"

definition done_ok :: "pairing_config \<Rightarrow> (time \<times> string) list \<Rightarrow> pairing_log \<Rightarrow> bool" where
  "done_ok config iss done_log =
     (distinct (used_tokens done_log) \<and> list_all (\<lambda>(t, token, _). issued_in_time config iss t token) done_log)"

definition pairing_inv ::
  "nat \<Rightarrow> pairing_config \<Rightarrow> (time \<times> string) list \<Rightarrow> pairing_manager \<Rightarrow> pairing_log \<Rightarrow> bool" where
  "pairing_inv n config iss pm done_log =
     (pm_config pm = config \<and> st_wf (pm_pending pm) \<and> length (pm_devices pm) \<le> max (pg_max_devices config) n
      \<and> list_all (pending_ok config iss done_log) (pm_pending pm) \<and> done_ok config iss done_log)"

lemma pending_ok_iss:
  "pending_ok config iss done_log e \<Longrightarrow> set iss \<subseteq> set iss' \<Longrightarrow> pending_ok config iss' done_log e"
  unfolding pending_ok_def using issued_in_time_mono by blast

lemma done_ok_iss: "done_ok config iss done_log \<Longrightarrow> set iss \<subseteq> set iss' \<Longrightarrow> done_ok config iss' done_log"
  unfolding done_ok_def list_all_iff using issued_in_time_mono by fastforce

lemma done_ok_issued: "done_ok config iss done_log \<Longrightarrow> set (used_tokens done_log) \<subseteq> snd ` set iss"
  by (auto simp: done_ok_def list_all_iff used_tokens_def dest: issued_in_time_token)

lemma length_update_le: "length (AList.update k v m) \<le> Suc (length m)"
  by (induction m) auto

lemma set_update: "set (AList.update k v m) \<subseteq> insert (k, v) (set m)"
  by (induction m) auto

lemma set_delete: "set (AList.delete k m) = {e \<in> set m. fst e \<noteq> k}"
  by (induction m) auto

lemma clean_inv:
  "pairing_inv n config iss pm done_log \<Longrightarrow> pairing_inv n config iss (clean_expired now pm) done_log"
  by (auto simp: pairing_inv_def clean_expired_def st_wf_def distinct_map_filter list_all_iff)

lemma issue_inv:
  assumes inv: "pairing_inv n config iss pm done_log" and fresh: "token \<notin> snd ` set iss"
  shows "pairing_inv n config (iss @ [(now, token)]) (snd (create_pairing_request now token pm)) done_log"
proof -
  have mono: "pairing_inv n config (iss @ [(now, token)]) pm' done_log" if "pairing_inv n config iss pm' done_log" for pm'
    using that pending_ok_iss [of config iss done_log _ "iss @ [(now, token)]"]
      done_ok_iss [of config iss done_log "iss @ [(now, token)]"]
    by (auto simp: pairing_inv_def list_all_iff)
  define pm1 where "pm1 = (if length (pm_pending pm) \<ge> MAX_PENDING_REQUESTS then clean_expired now pm else pm)"
  define r where "r = \<lparr>pq_token = token, pq_created_at = now,
                       pq_expires_at = now + int (pg_token_expiry_secs config) * 1000\<rparr>"
  have inv1: "pairing_inv n config (iss @ [(now, token)]) pm1 done_log"
    using mono inv clean_inv by (simp add: pm1_def)
  have r_ok: "pending_ok config (iss @ [(now, token)]) done_log (token, r)"
    using inv fresh done_ok_issued [of config iss done_log]
    by (auto simp: pending_ok_def r_def issued_in_time_def pairing_inv_def)
  have "list_all (pending_ok config (iss @ [(now, token)]) done_log) (st_put token r (pm_pending pm1))"
    using inv1 r_ok set_update [of token r "pm_pending pm1"] by (auto simp: pairing_inv_def list_all_iff)
  then have put: "pairing_inv n config (iss @ [(now, token)]) (pm1\<lparr>pm_pending := st_put token r (pm_pending pm1)\<rparr>) done_log"
    using inv1 by (simp add: pairing_inv_def al.wf_put)
  have "snd (create_pairing_request now token pm) \<in> {pm, pm1, pm1\<lparr>pm_pending := st_put token r (pm_pending pm1)\<rparr>}"
    using inv by (simp add: create_pairing_request_def pm1_def r_def pairing_inv_def Let_def)
  then show ?thesis using mono [OF inv] inv1 put by auto
qed

lemma find_token_Some:
  assumes "find_token token pm = Some (k, r)"
  shows "(k, r) \<in> set (pm_pending pm) \<and> pq_token r = token"
  using assms by (auto simp: find_token_def find_Some_iff in_set_conv_nth)

lemma del_pending_inv:
  "pairing_inv n config iss pm done_log \<Longrightarrow>
     pairing_inv n config iss (pm\<lparr>pm_pending := st_del k (pm_pending pm)\<rparr>) done_log"
  by (auto simp: pairing_inv_def list_all_iff set_delete al.wf_del)

lemma complete_pairing_ok:
  assumes "complete_pairing now token d pm = (Inr d', pm')"
  obtains k r where "(k, r) \<in> set (pm_pending pm)" "pq_token r = token" "now \<le> pq_expires_at r"
    "length (pm_devices pm) < pg_max_devices (pm_config pm)" "pm_config pm' = pm_config pm"
    "pm_pending pm' = st_del k (pm_pending pm)" "pm_devices pm' = st_put (pd_device_id d) d (pm_devices pm)"
proof -
  obtain k r where f: "find_token token pm = Some (k, r)"
    using assms by (auto simp: complete_pairing_def split: option.splits)
  then show ?thesis
    using assms find_token_Some [OF f] that [of k r] by (auto simp: complete_pairing_def split: if_splits)
qed

lemma complete_pairing_error:
  assumes "complete_pairing now token d pm = (Inl e, pm')"
  shows "pm' = pm \<or> (\<exists>k. pm' = pm\<lparr>pm_pending := st_del k (pm_pending pm)\<rparr>)"
  using assms by (auto simp: complete_pairing_def split: option.splits if_splits)

lemma submit_inv:
  assumes inv: "pairing_inv n config iss pm done_log" and ok: "complete_pairing now token d pm = (Inr d', pm')"
  shows "pairing_inv n config iss pm' (done_log @ [(now, token, d)])"
proof -
  obtain k r where k: "(k, r) \<in> set (pm_pending pm)" "pq_token r = token" "now \<le> pq_expires_at r"
    "length (pm_devices pm) < pg_max_devices (pm_config pm)" "pm_config pm' = pm_config pm"
    "pm_pending pm' = st_del k (pm_pending pm)" "pm_devices pm' = st_put (pd_device_id d) d (pm_devices pm)"
    using complete_pairing_ok [OF ok] by metis
  have used: "pending_ok config iss done_log (k, r)" "k = token"
    using inv k(1,2) by (auto simp: pairing_inv_def list_all_iff pending_ok_def)
  have "done_ok config iss (done_log @ [(now, token, d)])"
    using inv used k(3) issued_in_time_mono [of config iss "pq_expires_at r" token iss now]
    by (simp add: pairing_inv_def done_ok_def pending_ok_def)
  moreover have "list_all (pending_ok config iss (done_log @ [(now, token, d)])) (pm_pending pm')"
    using inv used(2) k(6) by (auto simp: pairing_inv_def list_all_iff set_delete pending_ok_def)
  moreover have "st_wf (pm_pending pm')" using inv k(6) by (simp add: pairing_inv_def al.wf_del)
  moreover have "length (pm_devices pm') \<le> pg_max_devices config"
    using length_update_le [of "pd_device_id d" d "pm_devices pm"] k inv by (simp add: pairing_inv_def)
  ultimately show ?thesis using inv k(5) by (simp add: pairing_inv_def)
qed

lemma unpair_inv:
  "pairing_inv n config iss pm done_log \<Longrightarrow> pairing_inv n config iss (snd (remove_device i pm)) done_log"
  by (auto simp: pairing_inv_def remove_device_def split: option.splits intro: le_trans [OF length_delete_le])

lemma pairing_step_inv:
  assumes "pairing_inv n config iss pm done_log" and "distinct (map snd (iss @ issued [x]))"
    and "pairing_step x (pm, done_log) = (pm', done_log')"
  shows "pairing_inv n config (iss @ issued [x]) pm' done_log'"
proof (cases x)
  case (IssueToken now token)
  then have "token \<notin> snd ` set iss" using assms(2) by simp
  then show ?thesis using assms(3) issue_inv [OF assms(1)] IssueToken by (auto simp: pairing_step_def)
next
  case (SubmitToken now token d)
  obtain res pm1 where c: "complete_pairing now token d pm = (res, pm1)" by fastforce
  show ?thesis
  proof (cases res)
    case (Inl e)
    then have "pm' = pm1" "done_log' = done_log" using c assms(3) SubmitToken by (auto simp: pairing_step_def)
    then show ?thesis
      using complete_pairing_error c Inl del_pending_inv [OF assms(1)] assms(1) SubmitToken by fastforce
  next
    case (Inr d')
    then show ?thesis
      using submit_inv [OF assms(1)] c assms(3) SubmitToken by (auto simp: pairing_step_def)
  qed
next
  case (UnpairDevice i)
  then show ?thesis using assms unpair_inv by (auto simp: pairing_step_def)
next
  case (CleanExpired now)
  then show ?thesis using assms clean_inv by (auto simp: pairing_step_def)
qed

lemma length_loaded:
  "length (fold (\<lambda>d. st_put (pd_device_id d) d) ds m) \<le> length ds + length m"
proof (induction ds arbitrary: m)
  case (Cons d ds)
  show ?case
    using Cons.IH [of "st_put (pd_device_id d) d m"] length_update_le [of "pd_device_id d" d m]
    by simp
qed simp

text \<open>The manager at boot, with the devices that were persisted.\<close>

lemma pairing_run_inv:
  assumes "distinct (map snd (issued ops))"
    and "fold pairing_step ops (load_devices ds (pairing_new config), []) = (pm, done_log)"
  shows "pairing_inv (length ds) config (issued ops) pm done_log"
  using assms
proof (induction ops arbitrary: pm done_log rule: rev_induct)
  case Nil
  then show ?case
    using length_loaded [of ds "[]"] by (auto simp: pairing_inv_def pairing_new_def load_devices_def done_ok_def)
next
  case (snoc x ops)
  obtain pm0 done0 where s: "fold pairing_step ops (load_devices ds (pairing_new config), []) = (pm0, done0)" by fastforce
  show ?case
    using pairing_step_inv [OF snoc.IH [OF _ s]] snoc.prems s by (simp add: issued_append)
qed

text \<open>
  C25. As long as requests are handled one after the other and tokens are not drawn twice, a token
  pairs at most one device, and only one that was issued, within its lifetime; and there are
  never more devices than the configuration allows, or than were loaded from the database at boot when
  those are more.
\<close>

theorem pairing_tokens_single_use:
  assumes "distinct (map snd (issued ops))"
    and "fold pairing_step ops (load_devices ds (pairing_new config), []) = (pm, done_log)"
  shows "distinct (used_tokens done_log) \<and> length (pm_devices pm) \<le> max (pg_max_devices config) (length ds)
    \<and> (\<forall>(t, token, d) \<in> set done_log. issued_in_time config (issued ops) t token)"
  using pairing_run_inv [OF assms] by (simp add: pairing_inv_def done_ok_def list_all_iff)

theorem pairing_tokens_single_use_witness:
  "let d = \<lparr>pd_device_id = ''d'', pd_display_name = [], pd_platform = [], pd_paired_at = 0, pd_last_seen = 0,
            pd_push_token = None\<rparr>;
       (pm, done_log) = fold pairing_step [IssueToken 0 ''t'', SubmitToken 5 ''t'' d, SubmitToken 6 ''t'' d]
         (load_devices [d\<lparr>pd_device_id := ''old''\<rparr>] (pairing_new (pairing_config_default\<lparr>pg_enabled := True\<rparr>)), [])
   in done_log = [(5, ''t'', d)] \<and> map fst (pm_devices pm) = [''old'', ''d''] \<and> distinct (used_tokens done_log)"
proof -
  let ?d = "\<lparr>pd_device_id = ''d'', pd_display_name = [], pd_platform = [], pd_paired_at = 0, pd_last_seen = 0,
            pd_push_token = None\<rparr>"
  let ?ops = "[IssueToken 0 ''t'', SubmitToken 5 ''t'' ?d, SubmitToken 6 ''t'' ?d]"
  let ?cfg = "pairing_config_default\<lparr>pg_enabled := True\<rparr>"
  obtain pm done_log where run: "fold pairing_step ?ops (load_devices [?d\<lparr>pd_device_id := ''old''\<rparr>] (pairing_new ?cfg), []) = (pm, done_log)" by fastforce
  moreover have "done_log = [(5, ''t'', ?d)] \<and> map fst (pm_devices pm) = [''old'', ''d'']"
    using run by (auto simp: load_devices_def pairing_step_def create_pairing_request_def complete_pairing_def find_token_def
        pairing_new_def pairing_config_default_def MAX_PENDING_REQUESTS_def persist_call_def Let_def)
  moreover have "distinct (used_tokens done_log)"
    using pairing_tokens_single_use [OF _ run] by simp
  ultimately show ?thesis by (simp add: Let_def)
qed

section \<open>Completions at the same time\<close>

text \<open>
  \<^verbatim>\<open>complete_pairing\<close> takes \<^verbatim>\<open>&self\<close> and its maps lock themselves for one access at a time, so two
  requests can interleave between the accesses: the search, the expiry check, the count of the
  devices, the removal of the token, the insertion of the device and the call of the persistence.
\<close>

datatype completion_phase =
    Submitted
  | Matched string pairing_request
  | Unexpired string
  | Admitted string
  | Consumed
  | Stored
  | Finished "(string, paired_device) result"

definition completion_step ::
  "time \<Rightarrow> string \<Rightarrow> paired_device \<Rightarrow> pairing_manager \<times> completion_phase \<Rightarrow> pairing_manager \<times> completion_phase" where
  "completion_step now token device_info s =
     (case s of (pm, ph) \<Rightarrow>
        case ph of
          Submitted \<Rightarrow>
            (pm, case find_token token pm of
                   None \<Rightarrow> Finished (Inl ''Invalid or expired pairing token'')
                 | Some (key, request) \<Rightarrow> Matched key request)
        | Matched key request \<Rightarrow>
            (if now > pq_expires_at request then
               (pm\<lparr>pm_pending := st_del key (pm_pending pm)\<rparr>, Finished (Inl ''Pairing token has expired''))
             else (pm, Unexpired key))
        | Unexpired key \<Rightarrow>
            (pm, if length (pm_devices pm) \<ge> pg_max_devices (pm_config pm)
                 then Finished (Inl (limit_message (pg_max_devices (pm_config pm)))) else Admitted key)
        | Admitted key \<Rightarrow> (pm\<lparr>pm_pending := st_del key (pm_pending pm)\<rparr>, Consumed)
        | Consumed \<Rightarrow>
            (pm\<lparr>pm_devices := st_put (pd_device_id device_info) device_info (pm_devices pm)\<rparr>, Stored)
        | Stored \<Rightarrow> (persist_call device_info SaveDevice pm, Finished (Inr device_info))
        | Finished res \<Rightarrow> (pm, ph))"

text \<open>
  A completion that no other request interrupts is the sequential one: its six steps end with
  the answer and the state of \<^verbatim>\<open>complete_pairing\<close>.
\<close>

lemma completion_alone:
  "(completion_step now token d ^^ 6) (pm, Submitted)
     = (case complete_pairing now token d pm of (res, pm') \<Rightarrow> (pm', Finished res))"
proof -
  have six: "(completion_step now token d ^^ 6) s
      = completion_step now token d (completion_step now token d (completion_step now token d
         (completion_step now token d (completion_step now token d (completion_step now token d s)))))" for s
    by (simp add: numeral_eq_Suc)
  show ?thesis
    unfolding six
    by (cases "find_token token pm")
      (auto simp: completion_step_def complete_pairing_def persist_call_def)
qed

text \<open>Several completions: a schedule names the request that takes its next step, and the time.\<close>

type_synonym submission = "string \<times> paired_device \<times> completion_phase"

fun run_schedule :: "(nat \<times> time) list \<Rightarrow> pairing_manager \<times> submission list \<Rightarrow> pairing_manager \<times> submission list" where
  "run_schedule [] s = s"
| "run_schedule ((i, now) # sched) (pm, subs) =
     (if i < length subs then
        (case subs ! i of (token, d, ph) \<Rightarrow>
           case completion_step now token d (pm, ph) of
             (pm', ph') \<Rightarrow> run_schedule sched (pm', subs[i := (token, d, ph')]))
      else run_schedule sched (pm, subs))"

definition submission_of :: "string \<Rightarrow> paired_device \<Rightarrow> submission" where
  "submission_of token d = (token, d, Submitted)"

definition phone :: "string \<Rightarrow> paired_device" where
  "phone i = \<lparr>pd_device_id = i, pd_display_name = [], pd_platform = [], pd_paired_at = 0, pd_last_seen = 0,
              pd_push_token = None\<rparr>"

definition one_device :: pairing_config where
  "one_device = pairing_config_default\<lparr>pg_enabled := True, pg_max_devices := 1\<rparr>"

text \<open>
  Two requests that submit the same token at the same time can both succeed: each finds the
  token and counts the devices before the other removes it, so one token pairs two devices and
  the limit on paired devices is exceeded.
\<close>

lemma concurrent_pairing_reuses_token:
  "let pm = snd (create_pairing_request 0 ''t'' (pairing_new one_device));
       (pm', subs) = run_schedule [(0, 1), (0, 1), (0, 1), (1, 1), (1, 1), (1, 1), (0, 2), (1, 2), (0, 2), (1, 2), (0, 3), (1, 3)]
                       (pm, [submission_of ''t'' (phone ''a''), submission_of ''t'' (phone ''b'')])
   in map fst (pm_pending pm) = [''t''] \<and> pg_max_devices (pm_config pm) = 1
      \<and> map (snd \<circ> snd) subs = [Finished (Inr (phone ''a'')), Finished (Inr (phone ''b''))]
      \<and> list_devices pm' = [phone ''a'', phone ''b'']"
  by (simp add: completion_step_def create_pairing_request_def find_token_def submission_of_def phone_def
      list_devices_def pairing_new_def one_device_def pairing_config_default_def MAX_PENDING_REQUESTS_def
      persist_call_def Let_def)

end
