(* ===== verification/File_System.thy ===== *)
theory File_System
  imports Prelude
begin

text \<open>
  What the code uses of \<^verbatim>\<open>std::path\<close> and \<^verbatim>\<open>std::fs\<close> (\<^verbatim>\<open>tokio::fs\<close> has the same operations), on a
  Unix system. A file tree maps the list of names from the root to a node; links are followed by
  the system's path resolution, at most forty in one resolution. Permissions, hard links, paths
  with a zero byte and the length limits of paths are left out.
\<close>

section \<open>Paths as texts\<close>

datatype component = RootDir | CurDir | ParentDir | Normal string

definition is_absolute :: "string \<Rightarrow> bool" where
  "is_absolute p = starts_with p ''/''"

definition path_pieces :: "string \<Rightarrow> string list" where
  "path_pieces p = split_char CHR ''/'' p"

definition components :: "string \<Rightarrow> component list" where
  "components p =
     (if is_absolute p then [RootDir] else if hd (path_pieces p) = ''.'' then [CurDir] else [])
     @ map (\<lambda>n. if n = ''..'' then ParentDir else Normal n)
         (filter (\<lambda>n. n \<noteq> [] \<and> n \<noteq> ''.'') (path_pieces p))"

fun component_text :: "component \<Rightarrow> string" where
  "component_text RootDir = []"
| "component_text CurDir = ''.''"
| "component_text ParentDir = ''..''"
| "component_text (Normal n) = n"

text \<open>
  A path from its components. \<^verbatim>\<open>Path::parent\<close> returns a part of the original text, which can differ
  from this by repeated separators and single dots; no operation below distinguishes them.
\<close>

definition path_of :: "component list \<Rightarrow> string" where
  "path_of cs = (if cs = [RootDir] then ''/'' else join_char CHR ''/'' (map component_text cs))"

definition path_join :: "string \<Rightarrow> string \<Rightarrow> string" where
  "path_join a b =
     (if is_absolute b then b else if a = [] \<or> ends_with a ''/'' then a @ b else a @ ''/'' @ b)"

definition file_name :: "string \<Rightarrow> string option" where
  "file_name p =
     (if components p = [] then None
      else case last (components p) of Normal n \<Rightarrow> Some n | _ \<Rightarrow> None)"

definition path_parent :: "string \<Rightarrow> string option" where
  "path_parent p =
     (if components p = [] \<or> last (components p) = RootDir then None
      else Some (path_of (butlast (components p))))"

definition path_starts_with :: "string \<Rightarrow> string \<Rightarrow> bool" where
  "path_starts_with p base = prefix (components base) (components p)"

section \<open>The file tree\<close>

type_synonym fpath = "string list"

datatype fnode = Dir | Regular string | Link string

datatype io_error = NotFound | NotADirectory | IsADirectory | AlreadyExists | TooManyLinks | InvalidData

record filesystem =
  fs_nodes :: "fpath \<Rightarrow> fnode option"
  fs_cwd :: fpath

fun io_text :: "io_error \<Rightarrow> string" where
  "io_text NotFound = ''No such file or directory (os error 2)''"
| "io_text NotADirectory = ''Not a directory (os error 20)''"
| "io_text IsADirectory = ''Is a directory (os error 21)''"
| "io_text AlreadyExists = ''File exists (os error 17)''"
| "io_text TooManyLinks = ''Too many levels of symbolic links (os error 40)''"
| "io_text InvalidData = ''stream did not contain valid UTF-8''"

text \<open>
  Path resolution: the end exists, or only its last name is missing in an existing directory, or
  the walk fails. Every piece but the last must be a directory, an empty piece or a dot included.
\<close>

datatype walk_result = Found fpath | Vacant fpath | Fails io_error

function walk :: "(fpath \<Rightarrow> fnode option) \<Rightarrow> nat \<Rightarrow> fpath \<Rightarrow> string list \<Rightarrow> walk_result" where
  "walk fs k cur [] = Found cur"
| "walk fs k cur (n # ns) =
     (if n = [] \<or> n = ''.'' then walk fs k cur ns
      else if n = ''..'' then walk fs k (butlast cur) ns
      else case fs (cur @ [n]) of
        None \<Rightarrow> if ns = [] then Vacant (cur @ [n]) else Fails NotFound
      | Some Dir \<Rightarrow> walk fs k (cur @ [n]) ns
      | Some (Regular _) \<Rightarrow> if ns = [] then Found (cur @ [n]) else Fails NotADirectory
      | Some (Link t) \<Rightarrow>
          (case k of
             0 \<Rightarrow> Fails TooManyLinks
           | Suc k' \<Rightarrow> walk fs k' (if is_absolute t then [] else cur) (path_pieces t @ ns)))"
  by pat_completeness auto
termination
  by (relation "measures [\<lambda>(_, k, _, _). k, \<lambda>(_, _, _, ns). length ns]") auto

definition MAX_LINKS :: nat where
  "MAX_LINKS = 40"

definition resolve_from :: "filesystem \<Rightarrow> string \<Rightarrow> string list \<Rightarrow> walk_result" where
  "resolve_from fs p ns =
     (if p = [] then Fails NotFound
      else walk (fs_nodes fs) MAX_LINKS (if is_absolute p then [] else fs_cwd fs) ns)"

definition os_resolve :: "filesystem \<Rightarrow> string \<Rightarrow> walk_result" where
  "os_resolve fs p = resolve_from fs p (path_pieces p)"

definition path_text :: "fpath \<Rightarrow> string" where
  "path_text ns = path_of (RootDir # map Normal ns)"

definition path_exists :: "filesystem \<Rightarrow> string \<Rightarrow> bool" where
  "path_exists fs p = (case os_resolve fs p of Found _ \<Rightarrow> True | _ \<Rightarrow> False)"

definition path_is_dir :: "filesystem \<Rightarrow> string \<Rightarrow> bool" where
  "path_is_dir fs p = (case os_resolve fs p of Found q \<Rightarrow> fs_nodes fs q = Some Dir | _ \<Rightarrow> False)"

definition canonicalize :: "filesystem \<Rightarrow> string \<Rightarrow> (io_error, string) result" where
  "canonicalize fs p =
     (case os_resolve fs p of
        Found q \<Rightarrow> Inr (path_text q)
      | Vacant _ \<Rightarrow> Inl NotFound
      | Fails e \<Rightarrow> Inl e)"

definition fs_read :: "filesystem \<Rightarrow> string \<Rightarrow> (io_error, string) result" where
  "fs_read fs p =
     (case os_resolve fs p of
        Found q \<Rightarrow> (case fs_nodes fs q of Some (Regular content) \<Rightarrow> Inr content | _ \<Rightarrow> Inl IsADirectory)
      | Vacant _ \<Rightarrow> Inl NotFound
      | Fails e \<Rightarrow> Inl e)"

definition put_node :: "fpath \<Rightarrow> fnode option \<Rightarrow> filesystem \<Rightarrow> filesystem" where
  "put_node q nd fs = fs\<lparr>fs_nodes := (fs_nodes fs)(q := nd)\<rparr>"

text \<open>Writing follows links, also one whose target does not exist yet.\<close>

definition fs_write :: "string \<Rightarrow> string \<Rightarrow> filesystem \<Rightarrow> (io_error, unit) result \<times> filesystem" where
  "fs_write p content fs =
     (case os_resolve fs p of
        Found q \<Rightarrow>
          if fs_nodes fs q = Some Dir then (Inl IsADirectory, fs)
          else (Inr (), put_node q (Some (Regular content)) fs)
      | Vacant q \<Rightarrow> (Inr (), put_node q (Some (Regular content)) fs)
      | Fails e \<Rightarrow> (Inl e, fs))"

text \<open>The entry a path names in its directory, without following it; and the operations on it.\<close>

definition os_entry :: "filesystem \<Rightarrow> string \<Rightarrow> (io_error, fpath) result" where
  "os_entry fs p =
     (let n = last (path_pieces p)
      in if n = [] \<or> n = ''.'' \<or> n = ''..'' then Inl IsADirectory
         else case resolve_from fs p (butlast (path_pieces p)) of
                Found d \<Rightarrow> if fs_nodes fs d = Some Dir then Inr (d @ [n]) else Inl NotADirectory
              | Vacant _ \<Rightarrow> Inl NotFound
              | Fails e \<Rightarrow> Inl e)"

definition fs_remove_file :: "string \<Rightarrow> filesystem \<Rightarrow> (io_error, unit) result \<times> filesystem" where
  "fs_remove_file p fs =
     (case os_entry fs p of
        Inl e \<Rightarrow> (Inl e, fs)
      | Inr q \<Rightarrow>
          (case fs_nodes fs q of
             None \<Rightarrow> (Inl NotFound, fs)
           | Some Dir \<Rightarrow> (Inl IsADirectory, fs)
           | Some _ \<Rightarrow> (Inr (), put_node q None fs)))"

definition fs_mkdir :: "string \<Rightarrow> filesystem \<Rightarrow> (io_error, unit) result \<times> filesystem" where
  "fs_mkdir p fs =
     (case os_entry fs p of
        Inl e \<Rightarrow> (Inl (if e = IsADirectory then AlreadyExists else e), fs)
      | Inr q \<Rightarrow>
          if fs_nodes fs q = None then (Inr (), put_node q (Some Dir) fs) else (Inl AlreadyExists, fs))"

section \<open>Components and texts\<close>

definition name_ok :: "string \<Rightarrow> bool" where
  "name_ok n = (n \<noteq> [] \<and> n \<noteq> ''.'' \<and> n \<noteq> ''..'' \<and> CHR ''/'' \<notin> set n)"

fun seg_ok :: "component \<Rightarrow> bool" where
  "seg_ok (Normal n) = name_ok n"
| "seg_ok ParentDir = True"
| "seg_ok _ = False"

definition comps_ok :: "component list \<Rightarrow> bool" where
  "comps_ok cs =
     (case cs of [] \<Rightarrow> True | c # t \<Rightarrow> (c = RootDir \<or> c = CurDir \<or> seg_ok c) \<and> list_all seg_ok t)"

lemma split_char_append_sep: "split_char c (p @ c # s) = (if c \<in> set p then split_char c (p @ c # s) else p # split_char c s)"
proof (cases "c \<in> set p")
  case False
  then show ?thesis by (induction p) auto
qed simp

lemma split_char_free_id: "c \<notin> set p \<Longrightarrow> split_char c p = [p]"
  by (induction p) auto

lemma split_join:
  assumes "ps \<noteq> []" and "\<forall>p \<in> set ps. c \<notin> set p"
  shows "split_char c (join_char c ps) = ps"
  using assms
proof (induction ps rule: induct_list012)
  case (3 p q ps)
  then show ?case using split_char_append_sep [of c p "join_char c (q # ps)"] by simp
qed (auto simp: split_char_free_id)

lemma seg_text: "seg_ok c \<Longrightarrow> component_text c \<noteq> [] \<and> component_text c \<noteq> ''.'' \<and> CHR ''/'' \<notin> set (component_text c)"
  by (cases c) (auto simp: name_ok_def)

lemma seg_back: "seg_ok c \<Longrightarrow> (if component_text c = ''..'' then ParentDir else Normal (component_text c)) = c"
  by (cases c) (auto simp: name_ok_def)

lemma segs_back:
  "list_all seg_ok cs \<Longrightarrow>
     map (\<lambda>n. if n = ''..'' then ParentDir else Normal n)
       (filter (\<lambda>n. n \<noteq> [] \<and> n \<noteq> ''.'') (map component_text cs)) = cs"
  by (induction cs) (auto simp: seg_text seg_back)

lemma components_ok: "comps_ok (components p)"
proof -
  have "list_all seg_ok (map (\<lambda>n. if n = ''..'' then ParentDir else Normal n)
         (filter (\<lambda>n. n \<noteq> [] \<and> n \<noteq> ''.'') (path_pieces p)))"
    by (auto simp: list_all_iff name_ok_def path_pieces_def dest: split_char_free)
  then show ?thesis by (auto simp: components_def comps_ok_def split: list.splits)
qed

lemma comps_ok_butlast: "comps_ok cs \<Longrightarrow> comps_ok (butlast cs)"
  by (cases cs) (auto simp: comps_ok_def list_all_iff split: list.splits dest: in_set_butlastD)

lemma pieces_join: "ps \<noteq> [] \<Longrightarrow> \<forall>p \<in> set ps. CHR ''/'' \<notin> set p \<Longrightarrow> path_pieces (join_char CHR ''/'' ps) = ps"
  by (simp add: path_pieces_def split_join)

lemma absolute_pieces: "is_absolute p \<longleftrightarrow> hd (path_pieces p) = [] \<and> p \<noteq> []"
  by (cases p) (auto simp: is_absolute_def starts_with_def path_pieces_def split: list.splits)

lemma components_path_of:
  assumes "comps_ok cs"
  shows "components (path_of cs) = cs"
proof (cases cs)
  case Nil
  then show ?thesis by (simp add: path_of_def components_def is_absolute_def starts_with_def path_pieces_def)
next
  case (Cons c t)
  show ?thesis
  proof (cases "cs = [RootDir]")
    case True
    then show ?thesis by (simp add: path_of_def components_def is_absolute_def starts_with_def path_pieces_def)
  next
    case False
    let ?ps = "map component_text cs"
    have free: "\<forall>p \<in> set ?ps. CHR ''/'' \<notin> set p"
      using assms Cons seg_text by (auto simp: comps_ok_def list_all_iff)
    have pieces: "path_pieces (path_of cs) = ?ps"
      unfolding path_of_def if_not_P [OF False] using Cons by (intro pieces_join free) simp
    have "path_of cs \<noteq> []"
      using False Cons assms seg_text by (cases t) (auto simp: path_of_def comps_ok_def)
    then have abs: "is_absolute (path_of cs) \<longleftrightarrow> c = RootDir"
      unfolding absolute_pieces pieces using Cons assms seg_text [of c] by (auto simp: comps_ok_def)
    have segs: "list_all seg_ok t" "c = RootDir \<or> c = CurDir \<or> seg_ok c"
      using assms Cons by (auto simp: comps_ok_def)
    have parsed: "map (\<lambda>n. if n = ''..'' then ParentDir else Normal n)
        (filter (\<lambda>n. n \<noteq> [] \<and> n \<noteq> ''.'') (map component_text t)) = t"
      by (rule segs_back [OF segs(1)])
    show ?thesis
    proof (cases "c = RootDir \<or> c = CurDir")
      case True
      then show ?thesis unfolding components_def abs pieces using Cons parsed by auto
    next
      case False
      then have "seg_ok c" using segs(2) by blast
      then show ?thesis
        unfolding components_def abs pieces using Cons segs_back [of cs] seg_text [of c] segs(1) by auto
    qed
  qed
qed

lemma parent_components:
  "path_parent p = Some q \<Longrightarrow> components q = butlast (components p) \<and> components p \<noteq> []"
  by (auto simp: path_parent_def components_path_of [OF comps_ok_butlast [OF components_ok]] split: if_splits)

lemma parent_shorter: "path_parent p = Some q \<Longrightarrow> length (components q) < length (components p)"
  using parent_components [of p q] by auto

text \<open>\<^verbatim>\<open>create_dir_all\<close>: make the directory; if its parent is missing, make that first and try again.\<close>

function fs_create_dir_all :: "string \<Rightarrow> filesystem \<Rightarrow> (io_error, unit) result \<times> filesystem" where
  "fs_create_dir_all p fs =
     (if p = [] then (Inr (), fs)
      else case fs_mkdir p fs of
        (Inr _, fs1) \<Rightarrow> (Inr (), fs1)
      | (Inl e, _) \<Rightarrow>
          if e \<noteq> NotFound then (if path_is_dir fs p then (Inr (), fs) else (Inl e, fs))
          else (case path_parent p of
            None \<Rightarrow> (Inl e, fs)
          | Some q \<Rightarrow>
              (case fs_create_dir_all q fs of
                 (Inl e', fs1) \<Rightarrow> (Inl e', fs1)
               | (Inr _, fs1) \<Rightarrow>
                   (case fs_mkdir p fs1 of
                      (Inr _, fs2) \<Rightarrow> (Inr (), fs2)
                    | (Inl e', _) \<Rightarrow> if path_is_dir fs1 p then (Inr (), fs1) else (Inl e', fs1)))))"
  by pat_completeness auto
termination
  by (relation "measure (\<lambda>(p, _). length (components p))") (auto simp: parent_shorter)

declare fs_create_dir_all.simps [simp del]

section \<open>Walking a path without links\<close>

definition tree_ok :: "(fpath \<Rightarrow> fnode option) \<Rightarrow> bool" where
  "tree_ok fs =
     (fs [] = Some Dir \<and> (\<forall>p n. fs (p @ [n]) \<noteq> None \<longrightarrow> fs p = Some Dir \<and> name_ok n))"

lemma walk_direct:
  assumes "list_all name_ok ns" and "\<forall>i \<le> length ns. \<forall>t. fs (cur @ take i ns) \<noteq> Some (Link t)"
  shows "walk fs k cur ns \<in> {Found (cur @ ns), Vacant (cur @ ns), Fails NotFound, Fails NotADirectory}"
  using assms
proof (induction ns arbitrary: cur)
  case (Cons n ns)
  have here: "\<forall>t. fs (cur @ [n]) \<noteq> Some (Link t)" using Cons.prems(2) by (auto dest: spec [of _ 1])
  have "\<forall>i \<le> length ns. \<forall>t. fs ((cur @ [n]) @ take i ns) \<noteq> Some (Link t)"
  proof (intro allI impI)
    fix i t
    assume "i \<le> length ns"
    then show "fs ((cur @ [n]) @ take i ns) \<noteq> Some (Link t)" using Cons.prems(2) [rule_format, of "Suc i" t] by simp
  qed
  then have IH: "walk fs k (cur @ [n]) ns
      \<in> {Found ((cur @ [n]) @ ns), Vacant ((cur @ [n]) @ ns), Fails NotFound, Fails NotADirectory}"
    using Cons.IH [of "cur @ [n]"] Cons.prems(1) by simp
  have "n \<noteq> []" "n \<noteq> ''.''" "n \<noteq> ''..''" using Cons.prems(1) by (auto simp: name_ok_def)
  then show ?case using here IH by (auto split: option.split fnode.split)
qed simp


lemma tree_names: "tree_ok fs \<Longrightarrow> fs p \<noteq> None \<Longrightarrow> list_all name_ok p"
proof (induction p rule: rev_induct)
  case (snoc n p)
  then have "fs p = Some Dir" "name_ok n" unfolding tree_ok_def by blast+
  with snoc show ?case by simp
qed simp

lemma tree_prefix: "tree_ok fs \<Longrightarrow> fs (p @ q) \<noteq> None \<Longrightarrow> q \<noteq> [] \<Longrightarrow> fs p = Some Dir"
proof (induction q rule: rev_induct)
  case (snoc n q)
  then have "fs (p @ q) = Some Dir" unfolding tree_ok_def by (metis append_assoc)
  with snoc show ?case by (cases "q = []") auto
qed simp

text \<open>Where a walk ends, and that it ends there in every tree that keeps directories and links.\<close>

definition piece_ok :: "string \<Rightarrow> bool" where
  "piece_ok n = (CHR ''/'' \<notin> set n)"

lemma pieces_ok: "list_all piece_ok (path_pieces p)"
  by (auto simp: piece_ok_def path_pieces_def list_all_iff dest: split_char_free)

lemma tree_butlast: "tree_ok fs \<Longrightarrow> fs cur = Some Dir \<Longrightarrow> fs (butlast cur) = Some Dir"
  using tree_prefix [of fs "butlast cur" "[last cur]"] by (cases "cur = []") auto

lemma walk_cases:
  assumes "walk fs k cur ns = res"
  obtains (nil) "ns = []" "res = Found cur"
  | (skip) n ns' where "ns = n # ns'" "n = [] \<or> n = ''.''" "walk fs k cur ns' = res"
  | (up) n ns' where "ns = n # ns'" "n = ''..''" "walk fs k (butlast cur) ns' = res"
  | (missing) n ns' where "ns = n # ns'" "n \<noteq> []" "n \<noteq> ''.''" "n \<noteq> ''..''" "fs (cur @ [n]) = None"
      "res = (if ns' = [] then Vacant (cur @ [n]) else Fails NotFound)"
  | (subdir) n ns' where "ns = n # ns'" "n \<noteq> []" "n \<noteq> ''.''" "n \<noteq> ''..''" "fs (cur @ [n]) = Some Dir"
      "walk fs k (cur @ [n]) ns' = res"
  | (plain) n ns' c where "ns = n # ns'" "n \<noteq> []" "n \<noteq> ''.''" "n \<noteq> ''..''" "fs (cur @ [n]) = Some (Regular c)"
      "res = (if ns' = [] then Found (cur @ [n]) else Fails NotADirectory)"
  | (linked) n ns' t where "ns = n # ns'" "n \<noteq> []" "n \<noteq> ''.''" "n \<noteq> ''..''" "fs (cur @ [n]) = Some (Link t)"
      "res = (case k of 0 \<Rightarrow> Fails TooManyLinks
              | Suc k' \<Rightarrow> walk fs k' (if is_absolute t then [] else cur) (path_pieces t @ ns'))"
proof (cases ns)
  case (Cons n ns')
  then show ?thesis using assms that by (auto split: if_splits option.splits fnode.splits)
qed (use assms that in auto)

declare walk.simps(2) [simp del]

lemma walk_end:
  assumes "tree_ok fs" "fs cur = Some Dir" "list_all piece_ok ns"
  shows "(walk fs k cur ns = Found q \<longrightarrow> fs q = Some Dir \<or> (\<exists>c. fs q = Some (Regular c)))
    \<and> (walk fs k cur ns = Vacant q \<longrightarrow> fs q = None \<and> (\<exists>d n. q = d @ [n] \<and> fs d = Some Dir \<and> name_ok n))"
  using assms
proof (induction fs k cur ns rule: walk.induct)
  case (2 fs k cur n ns)
  from refl [of "walk fs k cur (n # ns)"] show ?case
  proof (cases rule: walk_cases)
    case (skip n' ns')
    then show ?thesis using 2 by auto
  next
    case (up n' ns')
    then show ?thesis using 2 tree_butlast by auto
  next
    case (missing n' ns')
    then show ?thesis using 2(6,7) by (auto simp: name_ok_def piece_ok_def)
  next
    case (subdir n' ns')
    then show ?thesis using 2 by auto
  next
    case (linked n' ns' t)
    have "fs [] = Some Dir" using 2(5) by (simp add: tree_ok_def)
    with linked show ?thesis using 2(4) [of "Link t" t] 2(5-7) pieces_ok [of t] by (cases k) auto
  qed auto
qed auto

definition keeps_nodes :: "(fpath \<Rightarrow> fnode option) \<Rightarrow> (fpath \<Rightarrow> fnode option) \<Rightarrow> bool" where
  "keeps_nodes fs fs' =
     ((\<forall>p. fs p = Some Dir \<longrightarrow> fs' p = Some Dir) \<and> (\<forall>p t. fs p = Some (Link t) \<longleftrightarrow> fs' p = Some (Link t)))"

lemma walk_mono:
  assumes "keeps_nodes fs fs'" "fs r = Some Dir" "walk fs k cur ns = Found r"
  shows "walk fs' k cur ns = Found r"
  using assms
proof (induction fs k cur ns rule: walk.induct)
  case (2 fs k cur n ns)
  from 2(7) show ?case
  proof (cases rule: walk_cases)
    case (skip n' ns')
    then show ?thesis using 2(1) 2(5,6) by (auto simp: walk.simps(2))
  next
    case (up n' ns')
    then show ?thesis using 2(2) 2(5,6) by (auto simp: walk.simps(2))
  next
    case (missing n' ns')
    then show ?thesis by (simp split: if_splits)
  next
    case (subdir n' ns')
    moreover have "fs' (cur @ [n]) = Some Dir" using 2(5) subdir by (simp add: keeps_nodes_def)
    ultimately show ?thesis using 2(3) [of Dir] 2(5,6) by (auto simp: walk.simps(2))
  next
    case (plain n' ns' c)
    then show ?thesis using 2(6) by (simp split: if_splits)
  next
    case (linked n' ns' t)
    moreover have "fs' (cur @ [n]) = Some (Link t)" using 2(5) linked by (simp add: keeps_nodes_def)
    ultimately show ?thesis using 2(4) [of "Link t" t] 2(5,6) by (cases k) (auto simp: walk.simps(2))
  qed simp
qed simp

section \<open>Operations below a directory without links\<close>

definition fs_ok :: "filesystem \<Rightarrow> bool" where
  "fs_ok fs = (tree_ok (fs_nodes fs) \<and> fs_nodes fs (fs_cwd fs) = Some Dir)"

definition no_links_below :: "fpath \<Rightarrow> filesystem \<Rightarrow> bool" where
  "no_links_below r fs = (\<forall>p t. prefix r p \<longrightarrow> fs_nodes fs p \<noteq> Some (Link t))"

definition linkless_dir :: "fpath \<Rightarrow> filesystem \<Rightarrow> bool" where
  "linkless_dir r fs = (fs_ok fs \<and> fs_nodes fs r = Some Dir \<and> no_links_below r fs)"

text \<open>What may happen to the tree: nothing outside \<open>r\<close>, and no directory or link goes or comes there.\<close>

definition edits :: "fpath \<Rightarrow> filesystem \<Rightarrow> filesystem \<Rightarrow> bool" where
  "edits r fs fs' =
     (fs_ok fs' \<and> fs_cwd fs' = fs_cwd fs \<and> keeps_nodes (fs_nodes fs) (fs_nodes fs')
      \<and> (\<forall>p. \<not> prefix r p \<longrightarrow> fs_nodes fs' p = fs_nodes fs p))"

lemma edits_refl: "fs_ok fs \<Longrightarrow> edits r fs fs"
  by (simp add: edits_def keeps_nodes_def)

lemma edits_trans: "edits r fs fs1 \<Longrightarrow> edits r fs1 fs2 \<Longrightarrow> edits r fs fs2"
  by (simp add: edits_def keeps_nodes_def)

lemma edits_linkless: "linkless_dir r fs \<Longrightarrow> edits r fs fs' \<Longrightarrow> linkless_dir r fs'"
  by (auto simp: linkless_dir_def edits_def keeps_nodes_def no_links_below_def)

lemma edits_resolve:
  "edits r fs fs' \<Longrightarrow> os_resolve fs p = Found d \<Longrightarrow> fs_nodes fs d = Some Dir \<Longrightarrow> os_resolve fs' p = Found d"
  by (auto simp: edits_def os_resolve_def resolve_from_def walk_mono split: if_splits)

lemma put_node_edits:
  assumes "fs_ok fs" "prefix r (d @ [n])" "fs_nodes fs d = Some Dir" "name_ok n"
    and "fs_nodes fs (d @ [n]) \<noteq> Some Dir" "\<forall>t. fs_nodes fs (d @ [n]) \<noteq> Some (Link t)" "\<forall>t. nd \<noteq> Some (Link t)"
  shows "edits r fs (put_node (d @ [n]) nd fs)"
proof -
  have ok: "tree_ok (fs_nodes fs)" "fs_nodes fs (fs_cwd fs) = Some Dir" using assms(1) by (auto simp: fs_ok_def)
  have "tree_ok ((fs_nodes fs)(d @ [n] := nd))"
    unfolding tree_ok_def
  proof (intro conjI allI impI)
    show "((fs_nodes fs)(d @ [n] := nd)) [] = Some Dir" using ok(1) by (simp add: tree_ok_def)
    fix p m
    assume p: "((fs_nodes fs)(d @ [n] := nd)) (p @ [m]) \<noteq> None"
    have "fs_nodes fs p = Some Dir \<and> name_ok m"
      using p assms(3,4) ok(1) unfolding tree_ok_def by (auto split: if_splits)
    then show "((fs_nodes fs)(d @ [n] := nd)) p = Some Dir" "name_ok m" using assms(5) by auto
  qed
  then show ?thesis
    using assms ok by (auto simp: edits_def put_node_def fs_ok_def keeps_nodes_def)
qed

lemma pieces_text: "list_all name_ok ns \<Longrightarrow> path_pieces (path_text ns) = (if ns = [] then [[], []] else [] # ns)"
proof (cases ns)
  case (Cons n t)
  assume ok: "list_all name_ok ns"
  have "path_pieces (join_char CHR ''/'' ([] # map (component_text \<circ> Normal) ns)) = [] # ns"
    using ok by (subst pieces_join) (auto simp: list_all_iff name_ok_def o_def)
  then show ?thesis by (simp add: path_text_def path_of_def Cons)
qed (simp add: path_text_def path_of_def path_pieces_def)

lemma text_absolute [simp]: "is_absolute (path_text ns)" "path_text ns \<noteq> []"
  by (cases ns; simp add: path_text_def path_of_def is_absolute_def starts_with_def)+

lemma components_text: "list_all name_ok ns \<Longrightarrow> components (path_text ns) = RootDir # map Normal ns"
  unfolding path_text_def by (rule components_path_of) (auto simp: comps_ok_def list_all_iff)

lemma text_components: "path_of (RootDir # map Normal ns) = path_text ns"
  by (simp add: path_text_def)

lemma parent_text:
  "list_all name_ok ns \<Longrightarrow> path_parent (path_text ns) = (if ns = [] then None else Some (path_text (butlast ns)))"
  by (simp add: path_parent_def components_text map_butlast [symmetric] text_components last_map)

lemma join_char_snoc: "ps \<noteq> [] \<Longrightarrow> join_char c (ps @ [p]) = join_char c ps @ c # p"
  by (induction ps rule: induct_list012) auto

lemma join_text:
  assumes "name_ok n" "list_all name_ok ns"
  shows "path_join (path_text ns) n = path_text (ns @ [n])"
proof -
  have rel: "\<not> is_absolute n" using assms by (cases n) (auto simp: name_ok_def is_absolute_def starts_with_def)
  have snoc: "path_text (ms @ [m]) = join_char CHR ''/'' ([] # ms) @ CHR ''/'' # m" for ms m
    using join_char_snoc [of "[] # ms" "CHR ''/''" m] by (simp add: path_text_def path_of_def o_def)
  show ?thesis
  proof (cases ns rule: rev_cases)
    case Nil
    then show ?thesis using rel by (simp add: path_join_def path_text_def path_of_def ends_with_def)
  next
    case (snoc ms m)
    have "\<not> ends_with (path_text ns) ''/''"
      unfolding snoc \<open>\<And>ms m. path_text (ms @ [m]) = _\<close> using assms(2) snoc
      by (cases m rule: rev_cases) (auto simp: ends_with_def name_ok_def suffix_def)
    moreover have "path_text ns = join_char CHR ''/'' ([] # ns)"
      using snoc by (simp add: path_text_def path_of_def o_def)
    moreover have "path_text ns \<noteq> []" by simp
    ultimately show ?thesis using rel by (simp add: path_join_def \<open>\<And>ms m. path_text (ms @ [m]) = _\<close>)
  qed
qed

text \<open>A canonical path with names appended leads to where it says, or nowhere.\<close>

lemma linkless_prefix:
  assumes "linkless_dir r fs" "prefix r ns \<or> prefix ns r"
  shows "fs_nodes fs (take i ns) \<noteq> Some (Link t)"
proof (cases "prefix r (take i ns)")
  case True
  then show ?thesis using assms(1) by (simp add: linkless_dir_def no_links_below_def)
next
  case False
  then have "prefix (take i ns) r"
    using assms(2) by (metis prefix_order.trans prefix_same_cases take_is_prefix)
  then obtain q where q: "r = take i ns @ q" by (rule prefixE)
  then have "fs_nodes fs (take i ns) = Some Dir"
    using assms(1) tree_prefix [of "fs_nodes fs" "take i ns" q] by (cases "q = []") (auto simp: linkless_dir_def fs_ok_def)
  then show ?thesis by simp
qed

lemma resolve_text:
  assumes "linkless_dir r fs" "prefix r ns" "list_all name_ok ns"
  shows "os_resolve fs (path_text ns) \<in> {Found ns, Vacant ns, Fails NotFound, Fails NotADirectory}"
  using walk_direct [of ns "fs_nodes fs" "[]" MAX_LINKS] assms linkless_prefix [OF assms(1) disjI1 [OF assms(2)]]
  by (auto simp: os_resolve_def resolve_from_def pieces_text walk.simps(2))

lemma resolve_end:
  assumes "fs_ok fs"
  shows "(os_resolve fs p = Found q \<longrightarrow> fs_nodes fs q = Some Dir \<or> (\<exists>c. fs_nodes fs q = Some (Regular c)))
    \<and> (os_resolve fs p = Vacant q \<longrightarrow>
         fs_nodes fs q = None \<and> (\<exists>d n. q = d @ [n] \<and> fs_nodes fs d = Some Dir \<and> name_ok n))"
proof -
  let ?start = "if is_absolute p then [] else fs_cwd fs"
  have "fs_nodes fs ?start = Some Dir" using assms by (simp add: fs_ok_def tree_ok_def)
  then show ?thesis
    using walk_end [of "fs_nodes fs" ?start "path_pieces p" MAX_LINKS q] assms pieces_ok [of p]
    by (simp add: os_resolve_def resolve_from_def fs_ok_def)
qed

lemma node_parent:
  assumes "fs_ok fs" "fs_nodes fs q \<noteq> None" "fs_nodes fs q \<noteq> Some Dir"
  obtains d n where "q = d @ [n]" "fs_nodes fs d = Some Dir" "name_ok n"
  using assms by (cases q rule: rev_cases) (auto simp: fs_ok_def tree_ok_def)

lemma write_edits:
  assumes "linkless_dir r fs" "prefix r ns" "list_all name_ok ns"
  shows "edits r fs (snd (fs_write (path_text ns) content fs))"
proof -
  have ok: "fs_ok fs" using assms(1) by (simp add: linkless_dir_def)
  have put: "edits r fs (put_node ns (Some (Regular content)) fs)"
    if "\<exists>d n. ns = d @ [n] \<and> fs_nodes fs d = Some Dir \<and> name_ok n" "fs_nodes fs ns \<noteq> Some Dir"
    using that put_node_edits [OF ok] assms(1,2) by (auto simp: linkless_dir_def no_links_below_def)
  show ?thesis
  proof (cases "os_resolve fs (path_text ns)")
    case (Found q)
    then have "q = ns" using resolve_text [OF assms] by auto
    moreover have "\<exists>d n. ns = d @ [n] \<and> fs_nodes fs d = Some Dir \<and> name_ok n" if "fs_nodes fs ns \<noteq> Some Dir"
      using resolve_end [OF ok, of "path_text ns" q] Found \<open>q = ns\<close> that node_parent [OF ok, of ns] by (metis option.distinct(1))
    ultimately show ?thesis using Found put edits_refl [OF ok] by (auto simp: fs_write_def)
  next
    case (Vacant q)
    then have "q = ns" using resolve_text [OF assms] by auto
    then show ?thesis using Vacant put resolve_end [OF ok, of "path_text ns" q] by (simp add: fs_write_def)
  qed (simp add: fs_write_def edits_refl [OF ok])
qed

lemma entry_text:
  assumes "linkless_dir r fs" "prefix r ns \<or> prefix ns r" "list_all name_ok ns" "os_entry fs (path_text ns) = Inr q"
  shows "q = ns \<and> (\<exists>d n. ns = d @ [n] \<and> fs_nodes fs d = Some Dir \<and> name_ok n)"
proof (cases ns rule: rev_cases)
  case Nil
  then show ?thesis using assms(4) by (simp add: os_entry_def pieces_text)
next
  case (snoc d n)
  have "fs_nodes fs (take i d) \<noteq> Some (Link t)" for i t
    using linkless_prefix [OF assms(1,2), of "min i (length d)" t] by (simp add: snoc min_def split: if_splits)
  then have "walk (fs_nodes fs) MAX_LINKS [] d \<in> {Found d, Vacant d, Fails NotFound, Fails NotADirectory}"
    using walk_direct [of d "fs_nodes fs" "[]" MAX_LINKS] assms(3) by (simp add: snoc)
  then have "q = d @ [n] \<and> fs_nodes fs d = Some Dir"
    using assms(3,4)
    by (auto simp: os_entry_def pieces_text snoc resolve_from_def walk.simps(2) Let_def split: if_splits)
  then show ?thesis using assms(3) by (simp add: snoc)
qed

lemma remove_edits:
  assumes "linkless_dir r fs" "prefix r ns" "list_all name_ok ns"
  shows "edits r fs (snd (fs_remove_file (path_text ns) fs))"
proof (cases "os_entry fs (path_text ns)")
  case (Inl e)
  then show ?thesis using assms(1) by (simp add: fs_remove_file_def edits_refl linkless_dir_def)
next
  case (Inr q)
  then have q: "q = ns \<and> (\<exists>d n. ns = d @ [n] \<and> fs_nodes fs d = Some Dir \<and> name_ok n)"
    using entry_text [OF assms(1) _ assms(3)] assms(2) by blast
  have "edits r fs (put_node ns None fs)" if "fs_nodes fs ns \<noteq> Some Dir"
    using that q put_node_edits [of fs r] assms(1,2) by (auto simp: linkless_dir_def no_links_below_def)
  then show ?thesis
    using Inr q assms(1) by (auto simp: fs_remove_file_def edits_refl linkless_dir_def split: option.splits fnode.splits)
qed

lemma mkdir_edits:
  assumes "linkless_dir r fs" "prefix r ns \<or> prefix ns r" "list_all name_ok ns"
  shows "edits r fs (snd (fs_mkdir (path_text ns) fs))"
proof (cases "os_entry fs (path_text ns)")
  case (Inl e)
  then show ?thesis using assms(1) by (simp add: fs_mkdir_def edits_refl linkless_dir_def)
next
  case (Inr q)
  then have q: "q = ns \<and> (\<exists>d n. ns = d @ [n] \<and> fs_nodes fs d = Some Dir \<and> name_ok n)"
    using entry_text [OF assms] by blast
  have ok: "fs_ok fs" using assms(1) by (simp add: linkless_dir_def)
  have "prefix r ns" if none: "fs_nodes fs ns = None"
  proof -
    have "fs_nodes fs ns = Some Dir" if "prefix ns r"
    proof -
      from that obtain q where "r = ns @ q" by (rule prefixE)
      then show ?thesis using assms(1) tree_prefix [of "fs_nodes fs" ns q]
        by (cases "q = []") (auto simp: linkless_dir_def fs_ok_def)
    qed
    then show ?thesis using assms(2) none by auto
  qed
  then have "edits r fs (put_node ns (Some Dir) fs)" if "fs_nodes fs ns = None"
    using that q put_node_edits [OF ok] by auto
  then show ?thesis using Inr q ok by (auto simp: fs_mkdir_def edits_refl)
qed

lemma create_dir_all_edits:
  assumes "linkless_dir r fs" "prefix r ns \<or> prefix ns r" "list_all name_ok ns"
  shows "edits r fs (snd (fs_create_dir_all (path_text ns) fs))"
  using assms
proof (induction ns arbitrary: fs rule: rev_induct)
  case Nil
  have "edits r fs (snd (fs_mkdir (path_text []) fs))" "edits r fs fs"
    using mkdir_edits [OF Nil(1), of "[]"] Nil by (auto simp: linkless_dir_def edits_refl)
  then show ?case by (auto simp: fs_create_dir_all.simps [of "path_text []"] parent_text split: prod.split sum.split)
next
  case (snoc n ns)
  have pre: "prefix r ns \<or> prefix ns r" using snoc.prems(2) by (auto simp: prefix_snoc intro: append_prefixD)
  have ok: "edits r fs fs" using snoc.prems(1) by (simp add: linkless_dir_def edits_refl)
  have first: "edits r fs (snd (fs_mkdir (path_text (ns @ [n])) fs))"
    by (rule mkdir_edits [OF snoc.prems])
  define above where "above = fs_create_dir_all (path_text ns) fs"
  have up: "edits r fs (snd above)"
    unfolding above_def by (rule snoc.IH [OF snoc.prems(1) pre]) (use snoc.prems(3) in simp)
  have again: "edits r fs (snd (fs_mkdir (path_text (ns @ [n])) (snd above)))"
    by (rule edits_trans [OF up mkdir_edits [OF edits_linkless [OF snoc.prems(1) up] snoc.prems(2,3)]])
  show ?case
    using ok first up again snoc.prems(3)
    by (auto simp: fs_create_dir_all.simps [of "path_text (ns @ [n])"] parent_text above_def [symmetric]
        split: prod.split sum.split)
qed

end
