(* ===== verification/Workspace_Sandbox.thy ===== *)
theory Workspace_Sandbox
  imports File_System Utf8 "HOL-Library.List_Lexorder" "HOL-Library.Char_ord"
begin

text \<open>
  The confinement of file tools to directories (\<^verbatim>\<open>crates/openfang-runtime/src/workspace_sandbox.rs\<close>)
  and the file tools of \<^verbatim>\<open>tool_runner.rs\<close> that use it. The environment, the listing of a directory,
  Unicode lower case and the validity of UTF-8 are parameters; a panic is \<open>None\<close>.
\<close>

section \<open>Resolving a path below a root\<close>

function walk_up :: "filesystem \<Rightarrow> string \<Rightarrow> string list \<Rightarrow> (string, string \<times> string list) result" where
  "walk_up fs existing tail =
     (if path_exists fs existing then Inr (existing, tail)
      else case (file_name existing, path_parent existing) of
        (Some name, Some parent) \<Rightarrow> walk_up fs parent (tail @ [name])
      | _ \<Rightarrow> Inl ''Invalid path: cannot walk up to an existing ancestor'')"
  by pat_completeness auto
termination
  by (relation "measure (\<lambda>(_, p, _). length (components p))") (auto simp: parent_shorter)

declare walk_up.simps [simp del]

definition canonical_candidate :: "filesystem \<Rightarrow> string \<Rightarrow> (string, string) result" where
  "canonical_candidate fs candidate =
     (if path_exists fs candidate then
        (case canonicalize fs candidate of
           Inl e \<Rightarrow> Inl (''Failed to resolve path: '' @ io_text e)
         | Inr c \<Rightarrow> Inr c)
      else
        (case walk_up fs candidate [] of
           Inl e \<Rightarrow> Inl e
         | Inr (existing, tail) \<Rightarrow>
             (case canonicalize fs existing of
                Inl e \<Rightarrow> Inl (''Failed to resolve parent directory: '' @ io_text e)
              | Inr c \<Rightarrow> Inr (fold (\<lambda>part joined. path_join joined part) (rev tail) c))))"

definition finalize_within_root :: "filesystem \<Rightarrow> string \<Rightarrow> string \<Rightarrow> (string, string) result" where
  "finalize_within_root fs candidate rt =
     (case canonicalize fs rt of
        Inl e \<Rightarrow> Inl (''Failed to resolve sandbox root: '' @ io_text e)
      | Inr canon_root \<Rightarrow>
          (case canonical_candidate fs candidate of
             Inl e \<Rightarrow> Inl e
           | Inr c \<Rightarrow>
               if path_starts_with c canon_root then Inr c
               else Inl (''Access denied: path '' @ [CHR 0x27] @ candidate @ [CHR 0x27]
                         @ '' escapes allowed root '' @ [CHR 0x27] @ rt @ [CHR 0x27])))"

definition outside_message :: "string \<Rightarrow> string" where
  "outside_message user_path =
     ''Access denied: path '' @ [CHR 0x27] @ user_path @ [CHR 0x27]
     @ '' resolves outside workspace. To write to a file outside your workspace, use `shell_exec` instead ''
     @ ''(e.g. a Python one-liner or heredoc: `python3 -c '' @ [CHR 0x22] @ ''open('' @ [CHR 0x27]
     @ ''/absolute/path'' @ [CHR 0x27] @ '', '' @ [CHR 0x27] @ ''w'' @ [CHR 0x27] @ '').write(...)'' @ [CHR 0x22]
     @ ''` or `shell_exec` with `command='' @ [CHR 0x27] @ ''bash'' @ [CHR 0x27]
     @ ''` and a heredoc in `stdin`). To read synced AINL programs, use paths starting with `ainl-library/` ''
     @ ''(e.g. `ainl-library/examples/...`) or an absolute path under that directory.''"

definition resolve_sandbox_path :: "filesystem \<Rightarrow> string \<Rightarrow> string \<Rightarrow> (string, string) result" where
  "resolve_sandbox_path fs user_path workspace_root =
     (if ParentDir \<in> set (components user_path)
      then Inl (''Path traversal denied: '' @ [CHR 0x27] @ ''..'' @ [CHR 0x27] @ '' components are forbidden'')
      else
        let candidate = (if is_absolute user_path then user_path else path_join workspace_root user_path)
        in case finalize_within_root fs candidate workspace_root of
             Inr c \<Rightarrow> Inr c
           | Inl e \<Rightarrow> Inl (if contains_str e ''escapes allowed root'' then outside_message user_path else e))"

definition armaraos_home_from_env :: "(string \<Rightarrow> string option) \<Rightarrow> string option" where
  "armaraos_home_from_env env =
     (case env ''ARMARAOS_HOME'' of
        Some v \<Rightarrow> Some v
      | None \<Rightarrow>
          (case env ''OPENFANG_HOME'' of
             Some v \<Rightarrow> Some v
           | None \<Rightarrow> map_option (\<lambda>v. path_join v ''.armaraos'') (env ''HOME'')))"

text \<open>A root that an absolute path may also lie under, when it exists.\<close>

definition under_existing :: "filesystem \<Rightarrow> string \<Rightarrow> string option \<Rightarrow> string option" where
  "under_existing fs p rt =
     (case rt of
        None \<Rightarrow> None
      | Some d \<Rightarrow>
          if is_absolute p \<and> path_exists fs d
          then (case finalize_within_root fs p d of Inr res \<Rightarrow> Some res | Inl _ \<Rightarrow> None)
          else None)"

definition resolve_library_path :: "filesystem \<Rightarrow> string \<Rightarrow> string \<Rightarrow> (string, string) result" where
  "resolve_library_path fs trimmed lib_root =
     (let rest = dropWhile (\<lambda>c. c = CHR ''/'')
                   (case strip_prefix ''ainl-library'' trimmed of Some s \<Rightarrow> s | None \<Rightarrow> [])
      in if ParentDir \<in> set (components rest)
         then Inl (''Path traversal denied: '' @ [CHR 0x27] @ ''..'' @ [CHR 0x27] @ '' not allowed in ainl-library paths'')
         else case finalize_within_root fs (path_join lib_root rest) lib_root of
                Inr c \<Rightarrow> Inr c
              | Inl e \<Rightarrow>
                  Inl (if contains_str e ''Failed to resolve sandbox root''
                       then ''AINL library directory not available: '' @ lib_root
                            @ ''. Sync or bootstrap the library (see ArmaraOS AINL docs).''
                       else e))"

definition resolve_sandbox_path_read ::
  "filesystem \<Rightarrow> (string \<Rightarrow> string option) \<Rightarrow> string \<Rightarrow> string \<Rightarrow> string option \<Rightarrow> (string, string) result" where
  "resolve_sandbox_path_read fs env user_path workspace_root ainl_library_root =
     (let trimmed = trim user_path;
          is_library = (trimmed = ''ainl-library'' \<or> starts_with trimmed ''ainl-library/'')
      in case ainl_library_root of
           Some lib_root \<Rightarrow>
             if is_library then resolve_library_path fs trimmed lib_root
             else (case under_existing fs trimmed (Some lib_root) of
                     Some res \<Rightarrow> Inr res
                   | None \<Rightarrow>
                       (case under_existing fs trimmed (armaraos_home_from_env env) of
                          Some res \<Rightarrow> Inr res
                        | None \<Rightarrow> resolve_sandbox_path fs trimmed workspace_root))
         | None \<Rightarrow>
             (case under_existing fs trimmed (armaraos_home_from_env env) of
                Some res \<Rightarrow> Inr res
              | None \<Rightarrow> resolve_sandbox_path fs trimmed workspace_root))"

section \<open>The file tools\<close>

definition validate_path :: "string \<Rightarrow> (string, string) result" where
  "validate_path path =
     (if ParentDir \<in> set (components path)
      then Inl (''Path traversal denied: '' @ [CHR 0x27] @ ''..'' @ [CHR 0x27] @ '' components are forbidden'')
      else Inr path)"

definition resolve_file_path :: "filesystem \<Rightarrow> string \<Rightarrow> string option \<Rightarrow> (string, string) result" where
  "resolve_file_path fs raw_path workspace_root =
     (case workspace_root of
        Some rt \<Rightarrow> resolve_sandbox_path fs raw_path rt
      | None \<Rightarrow> validate_path raw_path)"

definition resolve_file_path_read ::
  "filesystem \<Rightarrow> (string \<Rightarrow> string option) \<Rightarrow> string \<Rightarrow> string option \<Rightarrow> string option \<Rightarrow> (string, string) result" where
  "resolve_file_path_read fs env raw_path workspace_root ainl_library_root =
     (case validate_path raw_path of
        Inl e \<Rightarrow> Inl e
      | Inr _ \<Rightarrow>
          (case workspace_root of
             Some rt \<Rightarrow> resolve_sandbox_path_read fs env raw_path rt ainl_library_root
           | None \<Rightarrow> Inr raw_path))"

text \<open>\<open>read_dir\<close> gives the names in a directory and which of them are directories.\<close>

type_synonym read_dir = "filesystem \<Rightarrow> string \<Rightarrow> (io_error, (string \<times> bool) list) result"

definition listing :: "(string \<times> bool) list \<Rightarrow> string list" where
  "listing es = sort (map (\<lambda>(name, d). name @ (if d then ''/'' else [])) es)"

definition list_directory_as_text ::
  "read_dir \<Rightarrow> filesystem \<Rightarrow> string \<Rightarrow> string \<Rightarrow> (string, string) result" where
  "list_directory_as_text read_dir fs resolved raw_path =
     (case read_dir fs resolved of
        Inl e \<Rightarrow> Inl (''Failed to list directory '' @ resolved @ '': '' @ io_text e)
      | Inr es \<Rightarrow>
          Inr (''[file_read was given a directory at '' @ [CHR 0x27] @ raw_path @ [CHR 0x27]
               @ ''. Returned `file_list` output below; call `file_read` again with one of these entries.]''
               @ [CHR 0x0A] @ (if es = [] then ''(empty)'' else join_char (CHR 0x0A) (listing es))))"

definition MAX_READ_BYTES :: nat where
  "MAX_READ_BYTES = 2000000"

definition missing_parameter :: "string \<Rightarrow> string" where
  "missing_parameter n = ''Missing '' @ [CHR 0x27] @ n @ [CHR 0x27] @ '' parameter''"

definition str_field :: "string \<Rightarrow> json \<Rightarrow> string option" where
  "str_field n input = Option.bind (json_get n input) as_str"

definition tool_file_read ::
  "(string \<Rightarrow> string) \<Rightarrow> (string \<Rightarrow> bool) \<Rightarrow> read_dir \<Rightarrow> (string \<Rightarrow> string option) \<Rightarrow> filesystem \<Rightarrow> json
     \<Rightarrow> string option \<Rightarrow> string option \<Rightarrow> (string, string) result" where
  "tool_file_read lower valid_utf8 read_dir env fs input workspace_root ainl_library_root =
     (case str_field ''path'' input of
        None \<Rightarrow> Inl (missing_parameter ''path'')
      | Some raw_path \<Rightarrow>
          (case resolve_file_path_read fs env raw_path workspace_root ainl_library_root of
             Inl e \<Rightarrow> Inl e
           | Inr resolved \<Rightarrow>
               if path_is_dir fs resolved then list_directory_as_text read_dir fs resolved raw_path
               else case fs_read fs resolved of
                 Inl e \<Rightarrow> Inl (''Failed to read file '' @ resolved @ '': '' @ io_text e)
               | Inr bytes \<Rightarrow>
                   if length bytes > MAX_READ_BYTES then
                     Inl (''File too large to read ('' @ show_nat (length bytes) @ '' bytes; max 1 MB).'')
                   else if valid_utf8 bytes then Inr bytes
                   else if ends_with (lower resolved) ''.pdf'' \<or> starts_with bytes ''%PDF'' then
                     Inr (''[PDF / binary document: '' @ show_nat (length bytes)
                          @ '' bytes. file_read returns plain text only; use the document_extract tool for text, or export to text.]'')
                   else
                     Inr (''[Binary or non-UTF-8 file: '' @ show_nat (length bytes)
                          @ '' bytes. For .xlsx/.docx/.pdf use document_extract.]'')))"

definition tool_file_list ::
  "read_dir \<Rightarrow> (string \<Rightarrow> string option) \<Rightarrow> filesystem \<Rightarrow> json \<Rightarrow> string option \<Rightarrow> string option
     \<Rightarrow> (string, string) result" where
  "tool_file_list read_dir env fs input workspace_root ainl_library_root =
     (case str_field ''path'' input of
        None \<Rightarrow> Inl (missing_parameter ''path'')
      | Some raw_path \<Rightarrow>
          (case resolve_file_path_read fs env raw_path workspace_root ainl_library_root of
             Inl e \<Rightarrow> Inl e
           | Inr resolved \<Rightarrow>
               (case read_dir fs resolved of
                  Inl e \<Rightarrow> Inl (''Failed to list directory '' @ resolved @ '': '' @ io_text e)
                | Inr es \<Rightarrow> Inr (join_char (CHR 0x0A) (listing es)))))"

definition PLACEHOLDERS :: "string list" where
  "PLACEHOLDERS =
     [''truncated for brevity'', ''truncated for readability'', ''[... full content'', ''[... rest of'',
      ''[... remaining'', ''// ... rest of file ...'', ''# ... rest of file ...'', ''<!-- truncated -->'',
      ''(content truncated)'', ''...truncated...'']"

fun find_placeholder :: "string \<Rightarrow> string list \<Rightarrow> (nat \<times> string) option" where
  "find_placeholder lowered [] = None"
| "find_placeholder lowered (p # ps) =
     (case find_str p lowered of Some idx \<Rightarrow> Some (idx, p) | None \<Rightarrow> find_placeholder lowered ps)"

text \<open>The outer option is the panic of the slice.\<close>

definition detect_truncation_placeholder :: "(string \<Rightarrow> string) \<Rightarrow> string \<Rightarrow> string option option" where
  "detect_truncation_placeholder lower content =
     (case find_placeholder (lower content) PLACEHOLDERS of
        None \<Rightarrow> Some None
      | Some (idx, p) \<Rightarrow>
          (case slice content (idx - 16) (min (idx + length p + 16) (length content)) of
             None \<Rightarrow> None
           | Some s \<Rightarrow> Some (Some (trim (map (\<lambda>c. if c = CHR 0x0A then CHR '' '' else c) s)))))"

definition parent_dirs :: "string \<Rightarrow> filesystem \<Rightarrow> (io_error, unit) result \<times> filesystem" where
  "parent_dirs p fs = (case path_parent p of Some parent \<Rightarrow> fs_create_dir_all parent fs | None \<Rightarrow> (Inr (), fs))"

definition write_into :: "string \<Rightarrow> string \<Rightarrow> filesystem \<Rightarrow> (string, string) result \<times> filesystem" where
  "write_into resolved content fs =
     (case parent_dirs resolved fs of
        (Inl e, fs1) \<Rightarrow> (Inl (''Failed to create directories: '' @ io_text e), fs1)
      | (Inr _, fs1) \<Rightarrow>
          (case fs_write resolved content fs1 of
             (Inl e, fs2) \<Rightarrow> (Inl (''Failed to write file: '' @ io_text e), fs2)
           | (Inr _, fs2) \<Rightarrow>
               (Inr (''Successfully wrote '' @ show_nat (length content) @ '' bytes to '' @ resolved), fs2)))"

definition refused_message :: "string \<Rightarrow> string" where
  "refused_message snippet =
     ''Refused to write file: content contains a placeholder/truncation marker ('' @ [CHR 0x27]
     @ snippet @ [CHR 0x27] @ ''). Re-emit `file_write` with the COMPLETE content of the file ''
     @ map char_of [0xE2 :: nat, 0x80, 0x94] @ '' do not summarize, abbreviate, or insert '' @ [CHR 0x27]
     @ ''...truncated...'' @ [CHR 0x27] @ '' markers. If the file is large, write it in multiple `apply_patch` chunks instead.''"

definition tool_file_write ::
  "(string \<Rightarrow> string) \<Rightarrow> json \<Rightarrow> string option \<Rightarrow> filesystem \<Rightarrow> ((string, string) result \<times> filesystem) option" where
  "tool_file_write lower input workspace_root fs =
     (case str_field ''path'' input of
        None \<Rightarrow> Some (Inl (missing_parameter ''path''), fs)
      | Some raw_path \<Rightarrow>
          (case resolve_file_path fs raw_path workspace_root of
             Inl e \<Rightarrow> Some (Inl e, fs)
           | Inr resolved \<Rightarrow>
               (case str_field ''content'' input of
                  None \<Rightarrow> Some (Inl (missing_parameter ''content''), fs)
                | Some content \<Rightarrow>
                    (case detect_truncation_placeholder lower content of
                       None \<Rightarrow> None
                     | Some (Some snippet) \<Rightarrow>
                         Some (Inl (refused_message snippet), fs)
                     | Some None \<Rightarrow> Some (write_into resolved content fs)))))"

section \<open>Confinement\<close>

lemma prefix_map_Normal: "prefix (map Normal a) (map Normal b) \<longleftrightarrow> prefix a b"
proof
  assume "prefix (map Normal a) (map Normal b)"
  then obtain zs where "map Normal b = map Normal a @ zs" by (rule prefixE)
  then have "map Normal (take (length a) b) = map Normal a" by (simp add: take_map [symmetric])
  then have "take (length a) b = a" using inj_map_eq_map [of Normal] by (auto simp: inj_def)
  then show "prefix a b" by (metis take_is_prefix)
qed (rule map_mono_prefix)

lemma text_starts_with:
  "list_all name_ok a \<Longrightarrow> list_all name_ok b \<Longrightarrow> path_starts_with (path_text b) (path_text a) \<longleftrightarrow> prefix a b"
  by (simp add: path_starts_with_def components_text prefix_map_Normal)

lemma canonicalize_text:
  assumes "fs_ok fs" "canonicalize fs p = Inr c"
  obtains q where "os_resolve fs p = Found q" "c = path_text q" "list_all name_ok q"
proof -
  obtain q where q: "os_resolve fs p = Found q" "c = path_text q"
    using assms(2) by (auto simp: canonicalize_def split: walk_result.splits)
  moreover have "list_all name_ok q"
    using resolve_end [OF assms(1), of p q] q(1) tree_names [of "fs_nodes fs" q] assms(1) by (auto simp: fs_ok_def)
  ultimately show thesis by (rule that)
qed

lemma comps_ok_normal: "comps_ok cs \<Longrightarrow> Normal n \<in> set cs \<Longrightarrow> name_ok n"
  by (cases cs) (auto simp: comps_ok_def list_all_iff)

lemma file_name_ok: "file_name p = Some n \<Longrightarrow> name_ok n"
proof -
  assume "file_name p = Some n"
  then have "components p \<noteq> []" "last (components p) = Normal n"
    by (auto simp: file_name_def split: if_splits component.splits)
  then have "Normal n \<in> set (components p)" by (metis last_in_set)
  then show ?thesis by (rule comps_ok_normal [OF components_ok])
qed

lemma walk_up_names:
  "walk_up fs p tail = Inr (q, tail') \<Longrightarrow> list_all name_ok tail \<Longrightarrow> list_all name_ok tail'"
proof (induction fs p tail rule: walk_up.induct)
  case (1 fs p tail)
  show ?case
  proof (cases "path_exists fs p")
    case False
    then obtain n d where nd: "file_name p = Some n" "path_parent p = Some d" "walk_up fs d (tail @ [n]) = Inr (q, tail')"
      using 1(2) by (auto simp: walk_up.simps [of fs p tail] split: option.splits)
    then show ?thesis using 1(1) [OF False _ nd(1) nd(2)] 1(3) file_name_ok by auto
  qed (use 1 in \<open>simp add: walk_up.simps [of fs p tail]\<close>)
qed

lemma fold_join_text:
  "list_all name_ok tail \<Longrightarrow> list_all name_ok ns \<Longrightarrow>
     fold (\<lambda>part joined. path_join joined part) tail (path_text ns) = path_text (ns @ tail)"
  by (induction tail arbitrary: ns) (simp_all add: join_text)

lemma candidate_text:
  assumes "fs_ok fs" "canonical_candidate fs p = Inr c"
  obtains ns where "c = path_text ns" "list_all name_ok ns"
proof (cases "path_exists fs p")
  case True
  then have "canonicalize fs p = Inr c" using assms(2) by (auto simp: canonical_candidate_def split: sum.splits)
  then show thesis using canonicalize_text [OF assms(1)] that by metis
next
  case False
  then obtain e tail c0 where w: "walk_up fs p [] = Inr (e, tail)" "canonicalize fs e = Inr c0"
    "c = fold (\<lambda>part joined. path_join joined part) (rev tail) c0"
    using assms(2) by (auto simp: canonical_candidate_def split: sum.splits)
  obtain q where q: "c0 = path_text q" "list_all name_ok q" using canonicalize_text [OF assms(1) w(2)] by metis
  have "list_all name_ok (rev tail)" using walk_up_names [OF w(1)] by simp
  then show thesis using that [of "q @ rev tail"] w(3) q fold_join_text by simp
qed

text \<open>Every accepted path is the text of a list of names below the directory the root leads to.\<close>

definition lies_below :: "filesystem \<Rightarrow> string \<Rightarrow> string \<Rightarrow> bool" where
  "lies_below fs rt q =
     (\<exists>r ns. os_resolve fs rt = Found r \<and> prefix r ns \<and> list_all name_ok ns \<and> q = path_text ns)"

lemma finalize_below:
  assumes "fs_ok fs" "finalize_within_root fs p rt = Inr q"
  shows "lies_below fs rt q"
proof -
  obtain cr where cr: "canonicalize fs rt = Inr cr" "canonical_candidate fs p = Inr q" "path_starts_with q cr"
    using assms(2) by (auto simp: finalize_within_root_def split: sum.splits if_splits)
  obtain r where r: "os_resolve fs rt = Found r" "cr = path_text r" "list_all name_ok r"
    using canonicalize_text [OF assms(1) cr(1)] by metis
  obtain ns where ns: "q = path_text ns" "list_all name_ok ns" using candidate_text [OF assms(1) cr(2)] by metis
  then show ?thesis using cr(3) r text_starts_with by (auto simp: lies_below_def)
qed

lemma resolve_below:
  "fs_ok fs \<Longrightarrow> resolve_sandbox_path fs p rt = Inr q \<Longrightarrow> lies_below fs rt q"
  using finalize_below by (auto simp: resolve_sandbox_path_def Let_def split: sum.splits if_splits)

lemma under_existing_below: "fs_ok fs \<Longrightarrow> under_existing fs p (Some d) = Some q \<Longrightarrow> lies_below fs d q"
  using finalize_below by (auto simp: under_existing_def split: sum.splits if_splits)

lemma library_below: "fs_ok fs \<Longrightarrow> resolve_library_path fs p d = Inr q \<Longrightarrow> lies_below fs d q"
  using finalize_below by (auto simp: resolve_library_path_def Let_def split: sum.splits if_splits)

text \<open>
  A path accepted for reading leads below the workspace, the AINL library or the home
  directory of the system, after links in the directories that existed were followed.
\<close>

lemma read_paths_below_roots:
  assumes "fs_ok fs" and "resolve_file_path_read fs env raw (Some workspace) library = Inr q"
  shows "\<exists>rt \<in> {workspace} \<union> set_option library \<union> set_option (armaraos_home_from_env env). lies_below fs rt q"
proof -
  have home: "\<exists>d. armaraos_home_from_env env = Some d \<and> lies_below fs d q"
    if "under_existing fs (trim raw) (armaraos_home_from_env env) = Some q"
    using that under_existing_below [OF assms(1)] by (cases "armaraos_home_from_env env") (auto simp: under_existing_def)
  show ?thesis
    using assms(2) home resolve_below [OF assms(1)] under_existing_below [OF assms(1)] library_below [OF assms(1)]
    by (auto simp: resolve_file_path_read_def resolve_sandbox_path_read_def Let_def
        split: sum.splits option.splits if_splits)
qed

text \<open>Writing to an accepted path touches the tree below the root only, as long as no link lies there.\<close>

lemma parent_dirs_edits:
  assumes "linkless_dir r fs" "prefix r ns" "list_all name_ok ns"
  shows "edits r fs (snd (parent_dirs (path_text ns) fs))"
proof -
  have cmp: "prefix r (butlast ns) \<or> prefix (butlast ns) r"
    using assms(2) by (metis prefix_def prefix_same_cases append_butlast_last_id butlast.simps(1))
  show ?thesis
    using assms(1,3) create_dir_all_edits [OF assms(1) cmp]
    by (auto simp: parent_dirs_def parent_text linkless_dir_def edits_refl list_all_iff dest: in_set_butlastD)
qed

text \<open>The state after the directories were made, then after the file was written.\<close>

lemma write_after_edits:
  assumes "linkless_dir r fs" "edits r fs fs1" "prefix r ns" "list_all name_ok ns"
  shows "edits r fs (snd (fs_write (path_text ns) content fs1))"
  by (rule edits_trans [OF assms(2) write_edits [OF edits_linkless [OF assms(1,2)] assms(3,4)]])

lemma write_below:
  assumes "linkless_dir r fs" "prefix r ns" "list_all name_ok ns"
  shows "edits r fs (snd (write_into (path_text ns) content fs))"
proof -
  obtain res1 fs1 where d: "parent_dirs (path_text ns) fs = (res1, fs1)" by fastforce
  obtain res2 fs2 where w: "fs_write (path_text ns) content fs1 = (res2, fs2)" by fastforce
  have e: "edits r fs fs1" using parent_dirs_edits [OF assms] d by simp
  have "edits r fs fs2" using write_after_edits [OF assms(1) e assms(2,3), of content] w by simp
  then show ?thesis using e by (simp add: write_into_def d w split: sum.split)
qed

lemma accepted_text:
  assumes "linkless_dir r fs" "os_resolve fs workspace = Found r" "resolve_sandbox_path fs p workspace = Inr q"
  obtains ns where "q = path_text ns" "prefix r ns" "list_all name_ok ns"
  using resolve_below [OF _ assms(3)] assms(1,2) that by (auto simp: lies_below_def linkless_dir_def)

lemma tool_file_write_cases:
  assumes "tool_file_write lower input (Some workspace) fs = Some (res, fs')"
  obtains "fs' = fs"
  | raw q content where "resolve_sandbox_path fs raw workspace = Inr q" "(res, fs') = write_into q content fs"
  using assms unfolding tool_file_write_def resolve_file_path_def
  by (simp split: option.splits sum.splits) metis+

text \<open>
  C5. The file writing tool changes nothing outside the workspace, whatever path the agent names,
  as long as no symbolic link lies below the workspace: all other files, directories and links
  of the system stay as they are.
\<close>

theorem file_write_confined:
  assumes "os_resolve fs workspace = Found r" and "linkless_dir r fs"
    and "tool_file_write lower input (Some workspace) fs = Some (res, fs')"
  shows "(\<forall>p. \<not> prefix r p \<longrightarrow> fs_nodes fs' p = fs_nodes fs p) \<and> linkless_dir r fs'"
proof -
  have ok: "fs_ok fs" using assms(2) by (simp add: linkless_dir_def)
  have below: "edits r fs (snd (write_into q content fs))" if "resolve_sandbox_path fs raw workspace = Inr q" for raw q content
    by (rule accepted_text [OF assms(2,1) that]) (use write_below [OF assms(2)] in simp)
  have "edits r fs fs'"
    using assms(3)
  proof (cases rule: tool_file_write_cases)
    case 1
    then show ?thesis by (simp add: edits_refl [OF ok])
  next
    case (2 raw q content)
    then show ?thesis using below [OF 2(1), of content] by (metis snd_conv)
  qed
  then show ?thesis using edits_linkless [OF assms(2)] by (auto simp: edits_def)
qed

section \<open>Examples, and how links lead out\<close>

definition sample_tree :: "(fpath \<times> fnode) list \<Rightarrow> filesystem" where
  "sample_tree extra =
     \<lparr>fs_nodes = map_of ([([], Dir), ([''ws''], Dir), ([''etc''], Dir), ([''etc'', ''passwd''], Regular ''root'')] @ extra),
      fs_cwd = []\<rparr>"

definition write_request :: "string \<Rightarrow> string \<Rightarrow> json" where
  "write_request p c = JObject [(''path'', JString p), (''content'', JString c)]"

lemma sample_linkless: "linkless_dir [''ws''] (sample_tree [])"
  by (auto simp: linkless_dir_def fs_ok_def tree_ok_def no_links_below_def sample_tree_def name_ok_def
      append_eq_Cons_conv split: if_splits)

lemma sample_root: "os_resolve (sample_tree extra) ''/ws'' = Found [''ws'']"
  by (simp add: os_resolve_def resolve_from_def path_pieces_def is_absolute_def starts_with_def
      sample_tree_def walk.simps(2))

text \<open>A new file in a new directory of the workspace.\<close>

definition new_file_run :: "((string, string) result \<times> filesystem) option" where
  "new_file_run = tool_file_write (map ascii_lower) (write_request ''a/b.txt'' ''hi'') (Some ''/ws'') (sample_tree [])"

lemma new_file_run_result:
  "map_option (\<lambda>(res, fs'). (res, fs_nodes fs' [''ws'', ''a'', ''b.txt''])) new_file_run
     = Some (Inr ''Successfully wrote 2 bytes to /ws/a/b.txt'', Some (Regular ''hi''))"
  by code_simp

theorem file_write_confined_witness:
  "\<exists>res fs'. new_file_run = Some (res, fs') \<and> fs_nodes fs' [''ws'', ''a'', ''b.txt''] = Some (Regular ''hi'')
     \<and> fs_nodes fs' [''etc'', ''passwd''] = Some (Regular ''root'')"
proof -
  obtain res fs' where run: "new_file_run = Some (res, fs')" "fs_nodes fs' [''ws'', ''a'', ''b.txt''] = Some (Regular ''hi'')"
    using new_file_run_result by (cases new_file_run) auto
  have "fs_nodes fs' [''etc'', ''passwd''] = fs_nodes (sample_tree []) [''etc'', ''passwd'']"
    using file_write_confined [OF sample_root sample_linkless run(1) [unfolded new_file_run_def]] by auto
  then show ?thesis using run by (auto simp: sample_tree_def)
qed

lemma read_paths_below_roots_witness:
  "lies_below (sample_tree []) ''/ws'' ''/ws/a/b.txt''"
proof -
  have ok: "fs_ok (sample_tree [])" using sample_linkless by (simp add: linkless_dir_def)
  have "resolve_file_path_read (sample_tree []) (\<lambda>_. None) ''a/b.txt'' (Some ''/ws'') None = Inr ''/ws/a/b.txt''"
    by code_simp
  from read_paths_below_roots [OF ok this] show ?thesis by (simp add: armaraos_home_from_env_def)
qed

text \<open>
  With a symbolic link in the workspace the confinement fails although the link itself is
  refused: a separator after the name of a link to a file, or a link to a file that does not exist
  yet, make the existence test fail; the path is then accepted as a new file of the workspace, and
  writing to it follows the link and changes a file outside.
\<close>

lemma links_lead_out_of_workspace:
  "let fs = sample_tree [([''ws'', ''link''], Link ''/etc/passwd''), ([''ws'', ''gone''], Link ''/etc/new'')];
       attempt = (\<lambda>p. the (tool_file_write (map ascii_lower) (write_request p ''x'') (Some ''/ws'') fs))
   in \<not> is_ok (fst (attempt ''link'')) \<and> fs_nodes (snd (attempt ''link'')) [''etc'', ''passwd''] = Some (Regular ''root'')
      \<and> fs_nodes (snd (attempt ''link/'')) [''etc'', ''passwd''] = Some (Regular ''x'')
      \<and> fs_nodes (snd (attempt ''gone'')) [''etc'', ''new''] = Some (Regular ''x'')"
  by code_simp

text \<open>
  The search for placeholder texts cuts sixteen bytes before the match without looking for a
  character boundary, so a two-byte character there makes the tool panic.
\<close>

lemma placeholder_panics:
  "tool_file_write (map ascii_lower)
     (write_request ''notes.txt'' (map char_of [0xC3 :: nat, 0xA9] @ ''123456789012345truncated for brevity''))
     (Some ''/ws'') (sample_tree []) = None"
  by code_simp

end
