(* ===== verification/Apply_Patch.thy ===== *)
theory Apply_Patch
  imports Workspace_Sandbox
begin

text \<open>
  The patch tool (\<^verbatim>\<open>crates/openfang-runtime/src/apply_patch.rs\<close> and \<^verbatim>\<open>tool_apply_patch\<close> of
  \<^verbatim>\<open>tool_runner.rs\<close>): the parser of the patch format, the application of hunks to the lines of a
  file, and the application of a patch to the file tree. An index into the lines is modelled by the
  list of the lines from there on.
\<close>

section \<open>Patches\<close>

record hunk =
  hk_context_before :: "string list"
  hk_old_lines :: "string list"
  hk_new_lines :: "string list"
  hk_context_after :: "string list"

datatype patch_op =
    AddFile string string
  | UpdateFile string "string option" "hunk list"
  | DeleteFile string

record patch_result =
  pr_files_added :: nat
  pr_files_updated :: nat
  pr_files_deleted :: nat
  pr_files_moved :: nat
  pr_errors :: "string list"

definition patch_result_default :: patch_result where
  "patch_result_default =
     \<lparr>pr_files_added = 0, pr_files_updated = 0, pr_files_deleted = 0, pr_files_moved = 0, pr_errors = []\<rparr>"

definition pr_is_ok :: "patch_result \<Rightarrow> bool" where
  "pr_is_ok r = (pr_errors r = [])"

definition counted :: "nat \<Rightarrow> string \<Rightarrow> string list" where
  "counted n what = (if n > 0 then [show_nat n @ '' '' @ what] else [])"

definition pr_summary :: "patch_result \<Rightarrow> string" where
  "pr_summary r =
     (let parts = counted (pr_files_added r) ''added'' @ counted (pr_files_updated r) ''updated''
                  @ counted (pr_files_deleted r) ''deleted'' @ counted (pr_files_moved r) ''moved''
                  @ counted (length (pr_errors r)) ''errors''
      in if parts = [] then ''No changes applied'' else join_str '', '' parts)"

section \<open>The parser\<close>

fun position :: "('a \<Rightarrow> bool) \<Rightarrow> 'a list \<Rightarrow> nat option" where
  "position P [] = None"
| "position P (x # xs) = (if P x then Some 0 else map_option Suc (position P xs))"

fun rposition :: "('a \<Rightarrow> bool) \<Rightarrow> 'a list \<Rightarrow> nat option" where
  "rposition P [] = None"
| "rposition P (x # xs) =
     (case rposition P xs of Some i \<Rightarrow> Some (Suc i) | None \<Rightarrow> if P x then Some 0 else None)"

definition is_marker :: "string \<Rightarrow> bool" where
  "is_marker l = starts_with (trim l) ''***''"

definition is_hunk_start :: "string \<Rightarrow> bool" where
  "is_hunk_start l = starts_with (trim l) ''@@''"

text \<open>The lines of a new file, and the lines after them.\<close>

fun add_body :: "string list \<Rightarrow> string list \<Rightarrow> (string, string list \<times> string list) result" where
  "add_body acc [] = Inr (acc, [])"
| "add_body acc (l # ls) =
     (if is_marker l then Inr (acc, l # ls)
      else case strip_prefix_char (CHR ''+'') l of
        Some stripped \<Rightarrow> add_body (acc @ [stripped]) ls
      | None \<Rightarrow>
          if trim l \<noteq> [] then Inl (''Expected '' @ [CHR 0x27] @ ''+'' @ [CHR 0x27] @ '' prefix in Add File content, got: '' @ l)
          else add_body acc ls)"

definition empty_hunk :: hunk where
  "empty_hunk = \<lparr>hk_context_before = [], hk_old_lines = [], hk_new_lines = [], hk_context_after = []\<rparr>"

definition hunk_context :: "string \<Rightarrow> hunk \<times> bool \<times> bool \<Rightarrow> hunk \<times> bool \<times> bool" where
  "hunk_context l st =
     (case st of (h, in_change, past_change) \<Rightarrow>
        if in_change \<or> past_change then (h\<lparr>hk_context_after := hk_context_after h @ [l]\<rparr>, False, True)
        else (h\<lparr>hk_context_before := hk_context_before h @ [l]\<rparr>, in_change, past_change))"

definition hunk_line :: "string \<Rightarrow> hunk \<times> bool \<times> bool \<Rightarrow> hunk \<times> bool \<times> bool" where
  "hunk_line hl st =
     (case strip_prefix_char (CHR ''-'') hl of
        Some s \<Rightarrow> (case st of (h, _, _) \<Rightarrow> (h\<lparr>hk_old_lines := hk_old_lines h @ [s]\<rparr>, True, False))
      | None \<Rightarrow>
          (case strip_prefix_char (CHR ''+'') hl of
             Some s \<Rightarrow> (case st of (h, _, _) \<Rightarrow> (h\<lparr>hk_new_lines := hk_new_lines h @ [s]\<rparr>, True, False))
           | None \<Rightarrow>
               (case strip_prefix_char (CHR '' '') hl of
                  Some s \<Rightarrow> hunk_context s st
                | None \<Rightarrow> hunk_context (if trim hl = [] then [] else hl) st)))"

fun hunk_body :: "hunk \<times> bool \<times> bool \<Rightarrow> string list \<Rightarrow> hunk \<times> string list" where
  "hunk_body st [] = (fst st, [])"
| "hunk_body st (l # ls) =
     (if is_hunk_start l \<or> is_marker l then (fst st, l # ls) else hunk_body (hunk_line l st) ls)"

lemma length_hunk_body: "hunk_body st ls = (h, rest) \<Longrightarrow> length rest \<le> length ls"
  by (induction st ls rule: hunk_body.induct) (auto split: if_splits)

lemma length_add_body: "add_body acc ls = Inr (c, rest) \<Longrightarrow> length rest \<le> length ls"
  by (induction acc ls rule: add_body.induct) (auto split: if_splits option.splits intro: le_SucI)

function hunks_of :: "hunk list \<Rightarrow> string list \<Rightarrow> hunk list \<times> string list" where
  "hunks_of hunks [] = (hunks, [])"
| "hunks_of hunks (l # ls) =
     (if is_marker l then (hunks, l # ls)
      else if is_hunk_start l then
        (case hunk_body (empty_hunk, False, False) ls of (h, rest) \<Rightarrow> hunks_of (hunks @ [h]) rest)
      else hunks_of hunks ls)"
  by pat_completeness auto
termination
  by (relation "measure (\<lambda>(_, ls). length ls)") (auto dest: length_hunk_body [OF sym] simp: less_Suc_eq_le)

lemma length_hunks_of: "hunks_of hunks ls = (hs, rest) \<Longrightarrow> length rest \<le> length ls"
proof (induction hunks ls rule: hunks_of.induct)
  case (2 hunks l ls)
  show ?case
  proof (cases "is_hunk_start l \<and> \<not> is_marker l")
    case True
    obtain h rest1 where b: "hunk_body (empty_hunk, False, False) ls = (h, rest1)" by fastforce
    then show ?thesis using 2(1) [OF _ _ b [symmetric]] 2(3) True length_hunk_body [OF b] by auto
  qed (use 2(2,3) in \<open>auto split: if_splits intro: le_SucI\<close>)
qed simp

definition ADD_FILE :: string where "ADD_FILE = ''*** Add File:''"
definition UPDATE_FILE :: string where "UPDATE_FILE = ''*** Update File:''"
definition DELETE_FILE :: string where "DELETE_FILE = ''*** Delete File:''"

definition header_rest :: "string \<Rightarrow> string \<Rightarrow> string" where
  "header_rest p line = trim (drop (length p) line)"

definition empty_path :: "string \<Rightarrow> string" where
  "empty_path header = ''Empty path in '' @ [CHR 0x27] @ header @ [CHR 0x27]"

definition update_paths :: "string \<Rightarrow> string \<times> string option" where
  "update_paths rest =
     (case split_once ''->'' rest of
        Some (old, new) \<Rightarrow> (trim old, Some (trim new))
      | None \<Rightarrow> (rest, None))"

function parse_ops :: "patch_op list \<Rightarrow> string list \<Rightarrow> (string, patch_op list) result" where
  "parse_ops ops [] = Inr ops"
| "parse_ops ops (l # ls) =
     (let line = trim l in
      if starts_with line ADD_FILE then
        let path = header_rest ADD_FILE line
        in if path = [] then Inl (empty_path ADD_FILE)
           else (case add_body [] ls of
                   Inl e \<Rightarrow> Inl e
                 | Inr (content_lines, rest) \<Rightarrow>
                     parse_ops (ops @ [AddFile path (join_char (CHR 0x0A) content_lines)]) rest)
      else if starts_with line UPDATE_FILE then
        (case update_paths (header_rest UPDATE_FILE line) of (path, move_to) \<Rightarrow>
           if path = [] then Inl (empty_path UPDATE_FILE)
           else case hunks_of [] ls of (hunks, rest) \<Rightarrow>
             if hunks = [] then Inl (''Update File '' @ [CHR 0x27] @ path @ [CHR 0x27] @ '' has no hunks'')
             else parse_ops (ops @ [UpdateFile path move_to hunks]) rest)
      else if starts_with line DELETE_FILE then
        let path = header_rest DELETE_FILE line
        in if path = [] then Inl (empty_path DELETE_FILE)
           else parse_ops (ops @ [DeleteFile path]) ls
      else if line = [] then parse_ops ops ls
      else Inl (''Unexpected line in patch: '' @ line))"
  by pat_completeness auto
termination
  by (relation "measure (\<lambda>(_, ls). length ls)")
    (auto dest: length_add_body length_hunks_of [OF sym] simp: less_Suc_eq_le)

definition BEGIN_PATCH :: string where "BEGIN_PATCH = ''*** Begin Patch''"
definition END_PATCH :: string where "END_PATCH = ''*** End Patch''"

definition missing_marker :: "string \<Rightarrow> string" where
  "missing_marker m = ''Missing '' @ [CHR 0x27] @ m @ [CHR 0x27] @ '' marker''"

definition parse_patch :: "string \<Rightarrow> (string, patch_op list) result" where
  "parse_patch input =
     (let ls = str_lines input
      in case position (\<lambda>l. trim l = BEGIN_PATCH) ls of
           None \<Rightarrow> Inl (missing_marker BEGIN_PATCH)
         | Some start \<Rightarrow>
             (case rposition (\<lambda>l. trim l = END_PATCH) ls of
                None \<Rightarrow> Inl (missing_marker END_PATCH)
              | Some stop \<Rightarrow>
                  if stop \<le> start then
                    Inl ([CHR 0x27] @ END_PATCH @ [CHR 0x27] @ '' must come after '' @ [CHR 0x27] @ BEGIN_PATCH @ [CHR 0x27])
                  else
                    (case parse_ops [] (take (stop - (start + 1)) (drop (start + 1) ls)) of
                       Inl e \<Rightarrow> Inl e
                     | Inr ops \<Rightarrow> if ops = [] then Inl ''Patch contains no operations'' else Inr ops)))"

section \<open>Hunks\<close>

text \<open>The first place where the anchor occurs, comparing lines up to \<open>canon\<close>.\<close>

definition find_anchor_by :: "(string \<Rightarrow> string) \<Rightarrow> string list \<Rightarrow> string list \<Rightarrow> nat option" where
  "find_anchor_by canon file_lines anchor =
     (if anchor = [] then Some (length file_lines)
      else if length anchor > length file_lines then None
      else List.find (\<lambda>start. \<forall>j \<in> set [0..<length anchor]. canon (file_lines ! (start + j)) = canon (anchor ! j))
             [0..<length file_lines - length anchor + 1])"

definition find_anchor :: "string list \<Rightarrow> string list \<Rightarrow> nat option" where
  "find_anchor = find_anchor_by (\<lambda>l. l)"

definition find_anchor_fuzzy :: "string list \<Rightarrow> string list \<Rightarrow> nat option" where
  "find_anchor_fuzzy = find_anchor_by trim_end"

definition hunk_anchor :: "hunk \<Rightarrow> string list" where
  "hunk_anchor h = hk_context_before h @ hk_old_lines h"

definition apply_hunk :: "hunk \<Rightarrow> string list \<Rightarrow> string list option" where
  "apply_hunk h ls =
     (let anchor = hunk_anchor h
      in if anchor = [] \<and> hk_old_lines h = [] then Some (ls @ hk_new_lines h)
         else case (case find_anchor ls anchor of Some p \<Rightarrow> Some p | None \<Rightarrow> find_anchor_fuzzy ls anchor) of
           None \<Rightarrow> None
         | Some p \<Rightarrow>
             Some (take p ls @ (hk_context_before h @ hk_new_lines h)
                   @ drop (p + (length (hk_context_before h) + length (hk_old_lines h))) ls))"

fun apply_hunks_from :: "nat \<Rightarrow> hunk list \<Rightarrow> string list \<Rightarrow> (string, string list) result" where
  "apply_hunks_from idx [] ls = Inr ls"
| "apply_hunks_from idx (h # hs) ls =
     (case apply_hunk h ls of
        None \<Rightarrow> Inl (''Hunk '' @ show_nat (idx + 1) @ '' failed: could not find context/old lines in file'')
      | Some ls' \<Rightarrow> apply_hunks_from (Suc idx) hs ls')"

definition apply_hunks :: "string \<Rightarrow> hunk list \<Rightarrow> (string, string) result" where
  "apply_hunks content hunks =
     (case apply_hunks_from 0 hunks (str_lines content) of
        Inl e \<Rightarrow> Inl e
      | Inr ls \<Rightarrow>
          let res = join_char (CHR 0x0A) ls
          in Inr (if ends_with content [CHR 0x0A] \<and> \<not> ends_with res [CHR 0x0A] then res @ [CHR 0x0A] else res))"

section \<open>Applying a patch to the file tree\<close>

definition pr_error :: "string \<Rightarrow> patch_result \<Rightarrow> patch_result" where
  "pr_error e r = r\<lparr>pr_errors := pr_errors r @ [e]\<rparr>"

definition apply_add :: "string \<Rightarrow> string \<Rightarrow> string \<Rightarrow> patch_result \<times> filesystem \<Rightarrow> patch_result \<times> filesystem" where
  "apply_add workspace path content s =
     (case s of (r, fs) \<Rightarrow>
        case resolve_sandbox_path fs path workspace of
          Inl e \<Rightarrow> (pr_error (path @ '': '' @ e) r, fs)
        | Inr resolved \<Rightarrow>
            (case parent_dirs resolved fs of
               (Inl e, fs1) \<Rightarrow> (pr_error (''mkdir '' @ path @ '': '' @ io_text e) r, fs1)
             | (Inr _, fs1) \<Rightarrow>
                 (case fs_write resolved content fs1 of
                    (Inr _, fs2) \<Rightarrow> (r\<lparr>pr_files_added := pr_files_added r + 1\<rparr>, fs2)
                  | (Inl e, fs2) \<Rightarrow> (pr_error (''write '' @ path @ '': '' @ io_text e) r, fs2))))"

definition read_to_string :: "(string \<Rightarrow> bool) \<Rightarrow> filesystem \<Rightarrow> string \<Rightarrow> (io_error, string) result" where
  "read_to_string valid_utf8 fs p =
     (case fs_read fs p of
        Inl e \<Rightarrow> Inl e
      | Inr c \<Rightarrow> if valid_utf8 c then Inr c else Inl InvalidData)"

definition patch_target ::
  "filesystem \<Rightarrow> string \<Rightarrow> string option \<Rightarrow> string \<Rightarrow> patch_result \<Rightarrow> patch_result \<times> string option" where
  "patch_target fs workspace move_to resolved r =
     (case move_to of
        None \<Rightarrow> (r, Some resolved)
      | Some new_path \<Rightarrow>
          (case resolve_sandbox_path fs new_path workspace of
             Inr t \<Rightarrow> (r\<lparr>pr_files_moved := pr_files_moved r + 1\<rparr>, Some t)
           | Inl e \<Rightarrow> (pr_error (new_path @ '': '' @ e) r, None)))"

definition write_target ::
  "string \<Rightarrow> string option \<Rightarrow> string \<Rightarrow> string \<Rightarrow> string \<Rightarrow> patch_result \<times> filesystem \<Rightarrow> patch_result \<times> filesystem" where
  "write_target path move_to resolved target patched s =
     (case s of (r, fs) \<Rightarrow>
        let fs1 = snd (parent_dirs target fs)
        in case fs_write target patched fs1 of
             (Inr _, fs2) \<Rightarrow>
               (r\<lparr>pr_files_updated := pr_files_updated r + 1\<rparr>,
                if move_to \<noteq> None \<and> target \<noteq> resolved then snd (fs_remove_file resolved fs2) else fs2)
           | (Inl e, fs2) \<Rightarrow> (pr_error (''write '' @ path @ '': '' @ io_text e) r, fs2))"

definition apply_update ::
  "(string \<Rightarrow> bool) \<Rightarrow> string \<Rightarrow> string \<Rightarrow> string option \<Rightarrow> hunk list \<Rightarrow> patch_result \<times> filesystem
     \<Rightarrow> patch_result \<times> filesystem" where
  "apply_update valid_utf8 workspace path move_to hunks s =
     (case s of (r, fs) \<Rightarrow>
        case resolve_sandbox_path fs path workspace of
          Inl e \<Rightarrow> (pr_error (path @ '': '' @ e) r, fs)
        | Inr resolved \<Rightarrow>
            (case read_to_string valid_utf8 fs resolved of
               Inl e \<Rightarrow> (pr_error (''read '' @ path @ '': '' @ io_text e) r, fs)
             | Inr original \<Rightarrow>
                 (case apply_hunks original hunks of
                    Inl e \<Rightarrow> (pr_error (''patch '' @ path @ '': '' @ e) r, fs)
                  | Inr patched \<Rightarrow>
                      (case patch_target fs workspace move_to resolved r of
                         (r1, None) \<Rightarrow> (r1, fs)
                       | (r1, Some target) \<Rightarrow> write_target path move_to resolved target patched (r1, fs)))))"

definition apply_delete :: "string \<Rightarrow> string \<Rightarrow> patch_result \<times> filesystem \<Rightarrow> patch_result \<times> filesystem" where
  "apply_delete workspace path s =
     (case s of (r, fs) \<Rightarrow>
        case resolve_sandbox_path fs path workspace of
          Inl e \<Rightarrow> (pr_error (path @ '': '' @ e) r, fs)
        | Inr resolved \<Rightarrow>
            (case fs_remove_file resolved fs of
               (Inr _, fs1) \<Rightarrow> (r\<lparr>pr_files_deleted := pr_files_deleted r + 1\<rparr>, fs1)
             | (Inl e, fs1) \<Rightarrow> (pr_error (''delete '' @ path @ '': '' @ io_text e) r, fs1)))"

definition apply_op :: "(string \<Rightarrow> bool) \<Rightarrow> string \<Rightarrow> patch_op \<Rightarrow> patch_result \<times> filesystem \<Rightarrow> patch_result \<times> filesystem" where
  "apply_op valid_utf8 workspace x s =
     (case x of
        AddFile path content \<Rightarrow> apply_add workspace path content s
      | UpdateFile path move_to hunks \<Rightarrow> apply_update valid_utf8 workspace path move_to hunks s
      | DeleteFile path \<Rightarrow> apply_delete workspace path s)"

definition apply_patch :: "(string \<Rightarrow> bool) \<Rightarrow> patch_op list \<Rightarrow> string \<Rightarrow> filesystem \<Rightarrow> patch_result \<times> filesystem" where
  "apply_patch valid_utf8 ops workspace fs = fold (apply_op valid_utf8 workspace) ops (patch_result_default, fs)"

definition tool_apply_patch ::
  "(string \<Rightarrow> bool) \<Rightarrow> json \<Rightarrow> string option \<Rightarrow> filesystem \<Rightarrow> (string, string) result \<times> filesystem" where
  "tool_apply_patch valid_utf8 input workspace_root fs =
     (case str_field ''patch'' input of
        None \<Rightarrow> (Inl (missing_parameter ''patch''), fs)
      | Some patch_str \<Rightarrow>
          (case workspace_root of
             None \<Rightarrow> (Inl ''apply_patch requires a workspace root'', fs)
           | Some rt \<Rightarrow>
               (case parse_patch patch_str of
                  Inl e \<Rightarrow> (Inl e, fs)
                | Inr ops \<Rightarrow>
                    (case apply_patch valid_utf8 ops rt fs of (r, fs') \<Rightarrow>
                       (if pr_is_ok r then Inr (pr_summary r)
                        else Inl (''Patch partially applied: '' @ pr_summary r @ ''. Errors: '' @ join_str ''; '' (pr_errors r)),
                        fs')))))"

section \<open>What a hunk does\<close>

text \<open>A block of lines that agrees with the anchor up to \<open>canon\<close>.\<close>

definition block_at :: "(string \<Rightarrow> string) \<Rightarrow> string list \<Rightarrow> string list \<Rightarrow> string list \<Rightarrow> string list \<Rightarrow> bool" where
  "block_at canon anchor ls pre old =
     (prefix (pre @ old) ls \<and> length old = length anchor \<and> map canon old = map canon anchor)"

lemma anchor_nth:
  assumes "p + length anchor \<le> length ls"
  shows "(\<forall>j \<in> set [0..<length anchor]. canon (ls ! (p + j)) = canon (anchor ! j))
     \<longleftrightarrow> map canon (take (length anchor) (drop p ls)) = map canon anchor"
proof -
  have "length (take (length anchor) (drop p ls)) = length anchor" using assms by simp
  moreover have "take (length anchor) (drop p ls) ! j = ls ! (p + j)" if "j < length anchor" for j
    using assms that by simp
  ultimately show ?thesis unfolding list_eq_iff_nth_eq by (simp add: Ball_def)
qed

lemma block_at_iff:
  "block_at canon anchor ls pre old \<longleftrightarrow>
     length pre + length anchor \<le> length ls \<and> pre = take (length pre) ls
     \<and> old = take (length anchor) (drop (length pre) ls)
     \<and> map canon (take (length anchor) (drop (length pre) ls)) = map canon anchor"
proof
  assume "block_at canon anchor ls pre old"
  then show "length pre + length anchor \<le> length ls \<and> pre = take (length pre) ls
     \<and> old = take (length anchor) (drop (length pre) ls)
     \<and> map canon (take (length anchor) (drop (length pre) ls)) = map canon anchor"
    by (auto simp: block_at_def prefix_def)
next
  assume "length pre + length anchor \<le> length ls \<and> pre = take (length pre) ls
     \<and> old = take (length anchor) (drop (length pre) ls)
     \<and> map canon (take (length anchor) (drop (length pre) ls)) = map canon anchor"
  then show "block_at canon anchor ls pre old"
    unfolding block_at_def by (metis add_diff_cancel_left' length_take le_diff_conv2 length_drop length_map
      min.absorb2 take_add take_is_prefix le_add1 le_trans)
qed

lemma find_anchor_by_Some:
  assumes "find_anchor_by canon ls anchor = Some p" "anchor \<noteq> []"
  shows "block_at canon anchor ls (take p ls) (take (length anchor) (drop p ls))
     \<and> p + length anchor \<le> length ls \<and> (\<forall>pre old. block_at canon anchor ls pre old \<longrightarrow> p \<le> length pre)"
proof -
  let ?P = "\<lambda>q. \<forall>j \<in> set [0..<length anchor]. canon (ls ! (q + j)) = canon (anchor ! j)"
  have le: "length anchor \<le> length ls" using assms by (auto simp: find_anchor_by_def split: if_splits)
  then have f: "List.find ?P [0..<length ls - length anchor + 1] = Some p"
    using assms by (auto simp: find_anchor_by_def split: if_splits)
  then have p: "?P p" "p + length anchor \<le> length ls" "\<forall>q < p. \<not> ?P q"
    using le by (auto simp: find_Some_iff simp del: upt_Suc)
  have "p \<le> length pre" if b: "block_at canon anchor ls pre old" for pre old
  proof (rule ccontr)
    assume "\<not> p \<le> length pre"
    then have "\<not> ?P (length pre)" using p(3) by (metis not_le)
    moreover have "length pre + length anchor \<le> length ls" using b by (simp add: block_at_iff)
    ultimately show False using b anchor_nth [of "length pre" anchor ls canon] by (simp add: block_at_iff)
  qed
  then show ?thesis using p anchor_nth [OF p(2), of canon] by (simp add: block_at_iff)
qed

lemma find_anchor_by_None:
  assumes "find_anchor_by canon ls anchor = None" "anchor \<noteq> []"
  shows "\<not> block_at canon anchor ls pre old"
proof
  assume b: "block_at canon anchor ls pre old"
  then have le: "length pre + length anchor \<le> length ls" by (simp add: block_at_iff)
  then have none: "List.find (\<lambda>q. \<forall>j \<in> set [0..<length anchor]. canon (ls ! (q + j)) = canon (anchor ! j))
      [0..<length ls - length anchor + 1] = None"
    using assms by (simp add: find_anchor_by_def split: if_splits)
  have "length pre \<in> set [0..<length ls - length anchor + 1]" using le by (simp del: upt_Suc)
  then have "\<not> (\<forall>j \<in> set [0..<length anchor]. canon (ls ! (length pre + j)) = canon (anchor ! j))"
    using none unfolding find_None_iff by blast
  then show False using b anchor_nth [OF le, of canon] by (simp add: block_at_iff)
qed

text \<open>
  A hunk with context or old lines either changes one block of the file or fails. It fails
  exactly when no block agrees with its context and old lines up to trailing white space. Else the
  block is the first exact occurrence if there is one, and the first up to trailing white space
  otherwise; it is replaced by the context and the new lines, and the other lines stay.
\<close>

lemma hunk_replaces_first_block:
  assumes "hunk_anchor h \<noteq> []"
  shows "case apply_hunk h ls of
      None \<Rightarrow> \<forall>pre old. \<not> block_at trim_end (hunk_anchor h) ls pre old
    | Some ls' \<Rightarrow> \<exists>canon \<in> {\<lambda>l. l, trim_end}. \<exists>pre old post.
        ls = pre @ old @ post \<and> ls' = pre @ hk_context_before h @ hk_new_lines h @ post
        \<and> block_at canon (hunk_anchor h) ls pre old
        \<and> (\<forall>pre' old'. block_at canon (hunk_anchor h) ls pre' old' \<longrightarrow> length pre \<le> length pre')
        \<and> (canon \<noteq> (\<lambda>l. l) \<longrightarrow> (\<forall>pre' old'. \<not> block_at (\<lambda>l. l) (hunk_anchor h) ls pre' old'))"
proof -
  let ?a = "hunk_anchor h"
  have len: "length ?a = length (hk_context_before h) + length (hk_old_lines h)" by (simp add: hunk_anchor_def)
  have found: "\<exists>pre old post. ls = pre @ old @ post
        \<and> take p ls @ (hk_context_before h @ hk_new_lines h) @ drop (p + length ?a) ls
            = pre @ hk_context_before h @ hk_new_lines h @ post
        \<and> block_at canon ?a ls pre old
        \<and> (\<forall>pre' old'. block_at canon ?a ls pre' old' \<longrightarrow> length pre \<le> length pre')"
    if f: "find_anchor_by canon ls ?a = Some p" for canon p
    using find_anchor_by_Some [OF f assms]
    by (intro exI [of _ "take p ls"] exI [of _ "take (length ?a) (drop p ls)"] exI [of _ "drop (p + length ?a) ls"])
       (auto simp: add.commute [of p] drop_drop [symmetric] simp del: drop_drop)
  show ?thesis
  proof (cases "find_anchor ls ?a")
    case (Some p)
    then show ?thesis
      using found [of "\<lambda>l. l" p] assms by (simp add: apply_hunk_def Let_def find_anchor_def len)
  next
    case exact: None
    show ?thesis
    proof (cases "find_anchor_fuzzy ls ?a")
      case (Some p)
      then show ?thesis
        using found [of trim_end p] exact find_anchor_by_None [OF _ assms, of "\<lambda>l. l" ls] assms
        by (simp add: apply_hunk_def Let_def find_anchor_def find_anchor_fuzzy_def len)
    next
      case None
      then show ?thesis
        using exact find_anchor_by_None [OF _ assms, of trim_end ls] assms
        by (simp add: apply_hunk_def Let_def find_anchor_fuzzy_def)
    qed
  qed
qed

definition sample_hunk :: hunk where
  "sample_hunk = \<lparr>hk_context_before = [''a''], hk_old_lines = [''b''], hk_new_lines = [''c'', ''d''], hk_context_after = [''e'']\<rparr>"

lemma hunk_replaces_first_block_witness:
  "\<exists>pre old post. [''x'', ''a'', ''b'', ''e''] = pre @ old @ post \<and> [''x'', ''a'', ''c'', ''d'', ''e''] = pre @ ''a'' # ''c'' # ''d'' # post"
proof -
  have run: "apply_hunk sample_hunk [''x'', ''a'', ''b'', ''e''] = Some [''x'', ''a'', ''c'', ''d'', ''e'']"
    by code_simp
  have "hunk_anchor sample_hunk \<noteq> []" by (simp add: hunk_anchor_def sample_hunk_def)
  from hunk_replaces_first_block [OF this, of "[''x'', ''a'', ''b'', ''e'']", unfolded run option.case]
  obtain pre old post where "[''x'', ''a'', ''b'', ''e''] = pre @ old @ post"
    "[''x'', ''a'', ''c'', ''d'', ''e''] = pre @ hk_context_before sample_hunk @ hk_new_lines sample_hunk @ post"
    by blast
  then show ?thesis by (intro exI [of _ pre] exI [of _ old] exI [of _ post]) (simp add: sample_hunk_def)
qed

text \<open>
  The context after the change is read and never used. A hunk with unchanged lines between two
  changes keeps them there, and its old lines are then looked for as one block, which fails.
\<close>

lemma context_after_ignored: "apply_hunk (h\<lparr>hk_context_after := x\<rparr>) ls = apply_hunk h ls"
  by (simp add: apply_hunk_def hunk_anchor_def Let_def cong: option.case_cong)

lemma two_changes_in_one_hunk_fail:
  "(case parse_patch (join_char (CHR 0x0A)
          [''*** Begin Patch'', ''*** Update File: f'', ''@@'', ''-a'', ''+A'', '' b'', ''-c'', ''+C'', ''*** End Patch'']) of
      Inr [UpdateFile _ _ hunks] \<Rightarrow> is_ok (apply_hunks (join_char (CHR 0x0A) [''a'', ''b'', ''c'']) hunks)
    | _ \<Rightarrow> True) = False"
  by code_simp

text \<open>Patching one line of a file with carriage returns removes all of them.\<close>

lemma crlf_lost:
  "apply_hunks (map char_of [97 :: nat, 13, 10, 98, 13, 10])
     [\<lparr>hk_context_before = [], hk_old_lines = [''b''], hk_new_lines = [''c''], hk_context_after = []\<rparr>]
   = Inr (map char_of [97 :: nat, 10, 99, 10])"
  by code_simp

section \<open>Every operation is counted once\<close>

definition outcomes :: "patch_result \<Rightarrow> nat" where
  "outcomes r = pr_files_added r + pr_files_updated r + pr_files_deleted r + length (pr_errors r)"

lemma outcomes_simps [simp]:
  "outcomes (pr_error e r) = Suc (outcomes r)"
  "outcomes (r\<lparr>pr_files_added := n\<rparr>) = n + pr_files_updated r + pr_files_deleted r + length (pr_errors r)"
  "outcomes (r\<lparr>pr_files_updated := n\<rparr>) = pr_files_added r + n + pr_files_deleted r + length (pr_errors r)"
  "outcomes (r\<lparr>pr_files_deleted := n\<rparr>) = pr_files_added r + pr_files_updated r + n + length (pr_errors r)"
  "outcomes (r\<lparr>pr_files_moved := n\<rparr>) = outcomes r"
  "outcomes patch_result_default = 0"
  by (simp_all add: outcomes_def pr_error_def patch_result_default_def)

lemma write_target_counts: "outcomes (fst (write_target path move_to resolved target patched (r, fs))) = Suc (outcomes r)"
  by (auto simp: write_target_def Let_def outcomes_def [of r] split: prod.split sum.split)

lemma patch_target_counts:
  "patch_target fs workspace move_to resolved r = (r1, t) \<Longrightarrow> outcomes r1 = (if t = None then Suc (outcomes r) else outcomes r)"
  by (auto simp: patch_target_def split: option.splits sum.splits)

lemma apply_op_counts: "outcomes (fst (apply_op valid_utf8 workspace x (r, fs))) = Suc (outcomes r)"
proof (cases x)
  case (AddFile path content)
  then show ?thesis
    by (auto simp: apply_op_def apply_add_def outcomes_def [of r] split: prod.split sum.split)
next
  case (UpdateFile path move_to hunks)
  then show ?thesis
    by (auto simp: apply_op_def apply_update_def write_target_counts split: prod.split sum.split option.split
        dest: patch_target_counts)
next
  case (DeleteFile path)
  then show ?thesis
    by (auto simp: apply_op_def apply_delete_def outcomes_def [of r] split: prod.split sum.split)
qed

lemma fold_counts: "outcomes (fst (fold (apply_op valid_utf8 workspace) ops s)) = outcomes (fst s) + length ops"
proof (induction ops arbitrary: s)
  case (Cons x ops)
  then show ?case using apply_op_counts [of valid_utf8 workspace x "fst s" "snd s"] by simp
qed simp

text \<open>
  Every operation of a patch is counted exactly once, as added, updated, deleted or
  as an error, so a result without errors means that every operation succeeded.
\<close>

lemma patch_accounts_for_every_operation:
  "outcomes (fst (apply_patch valid_utf8 ops workspace fs)) = length ops"
  by (simp add: apply_patch_def fold_counts)

section \<open>Confinement\<close>

lemma add_edits:
  assumes "linkless_dir r fs" "os_resolve fs workspace = Found r"
  shows "edits r fs (snd (apply_add workspace path content (res, fs)))"
proof (cases "resolve_sandbox_path fs path workspace")
  case (Inl e)
  then show ?thesis using assms(1) by (simp add: apply_add_def edits_refl linkless_dir_def)
next
  case (Inr q)
  obtain ns where ns: "q = path_text ns" "prefix r ns" "list_all name_ok ns" using accepted_text [OF assms Inr] .
  obtain r1 fs1 where d: "parent_dirs q fs = (r1, fs1)" by fastforce
  obtain r2 fs2 where w: "fs_write q content fs1 = (r2, fs2)" by fastforce
  have e: "edits r fs fs1" using parent_dirs_edits [OF assms(1) ns(2,3)] d ns(1) by simp
  have "edits r fs fs2" using write_after_edits [OF assms(1) e ns(2,3), of content] w ns(1) by simp
  then show ?thesis using Inr d w e by (simp add: apply_add_def split: sum.split)
qed

lemma write_target_edits:
  assumes "linkless_dir r fs" "prefix r ns" "list_all name_ok ns" "prefix r ms" "list_all name_ok ms"
  shows "edits r fs (snd (write_target path move_to (path_text ns) (path_text ms) patched (res, fs)))"
proof -
  define fs1 where "fs1 = snd (parent_dirs (path_text ms) fs)"
  obtain r2 fs2 where w: "fs_write (path_text ms) patched fs1 = (r2, fs2)" by fastforce
  have e1: "edits r fs fs1" unfolding fs1_def by (rule parent_dirs_edits [OF assms(1,4,5)])
  have e2: "edits r fs fs2" using write_after_edits [OF assms(1) e1 assms(4,5), of patched] w by simp
  have "edits r fs (snd (fs_remove_file (path_text ns) fs2))"
    by (rule edits_trans [OF e2 remove_edits [OF edits_linkless [OF assms(1) e2] assms(2,3)]])
  then show ?thesis using w e2 by (simp add: write_target_def fs1_def [symmetric] Let_def split: sum.split)
qed

lemma update_edits:
  assumes "linkless_dir r fs" "os_resolve fs workspace = Found r"
  shows "edits r fs (snd (apply_update valid_utf8 workspace path move_to hunks (res, fs)))"
proof -
  have refl: "edits r fs fs" using assms(1) by (simp add: edits_refl linkless_dir_def)
  have target: "edits r fs (snd (write_target path move_to q t patched (r1, fs)))"
    if prem: "resolve_sandbox_path fs path workspace = Inr q" "patch_target fs workspace move_to q res = (r1, Some t)"
    for q t patched r1
  proof -
    obtain ns where ns: "q = path_text ns" "prefix r ns" "list_all name_ok ns" using accepted_text [OF assms prem(1)] .
    have "\<exists>ms. t = path_text ms \<and> prefix r ms \<and> list_all name_ok ms"
    proof (cases "t = q")
      case False
      then obtain p where "resolve_sandbox_path fs p workspace = Inr t"
        using prem(2) by (auto simp: patch_target_def split: option.splits sum.splits)
      then show ?thesis by (rule accepted_text [OF assms]) blast
    qed (use ns in blast)
    then obtain ms where "t = path_text ms" "prefix r ms" "list_all name_ok ms" by blast
    then show ?thesis using write_target_edits [OF assms(1) ns(2,3)] ns(1) by simp
  qed
  show ?thesis
    using refl target by (simp add: apply_update_def split: sum.split prod.split option.split)
qed

lemma delete_edits:
  assumes "linkless_dir r fs" "os_resolve fs workspace = Found r"
  shows "edits r fs (snd (apply_delete workspace path (res, fs)))"
proof (cases "resolve_sandbox_path fs path workspace")
  case (Inl e)
  then show ?thesis using assms(1) by (simp add: apply_delete_def edits_refl linkless_dir_def)
next
  case (Inr q)
  obtain ns where ns: "q = path_text ns" "prefix r ns" "list_all name_ok ns" using accepted_text [OF assms Inr] .
  obtain r1 fs1 where d: "fs_remove_file q fs = (r1, fs1)" by fastforce
  have "edits r fs fs1" using remove_edits [OF assms(1) ns(2,3)] d ns(1) by simp
  then show ?thesis using Inr d by (simp add: apply_delete_def split: sum.split)
qed

lemma fold_edits:
  assumes "linkless_dir r fs" "os_resolve fs workspace = Found r"
  shows "edits r fs (snd (fold (apply_op valid_utf8 workspace) ops (res, fs)))"
  using assms
proof (induction ops arbitrary: res fs)
  case Nil
  then show ?case by (simp add: edits_refl linkless_dir_def)
next
  case (Cons x ops)
  obtain res1 fs1 where x: "apply_op valid_utf8 workspace x (res, fs) = (res1, fs1)" by fastforce
  have "edits r fs (snd (apply_op valid_utf8 workspace x (res, fs)))"
    by (cases x) (use Cons.prems in \<open>simp_all add: apply_op_def add_edits update_edits delete_edits\<close>)
  then have e: "edits r fs fs1" by (simp add: x)
  have "os_resolve fs1 workspace = Found r"
    using edits_resolve [OF e Cons.prems(2)] Cons.prems(1) by (simp add: linkless_dir_def)
  from edits_trans [OF e Cons.IH [OF edits_linkless [OF Cons.prems(1) e] this]] show ?case by (simp add: x)
qed

text \<open>
  C6. Applying a patch, whatever its paths and moves, changes nothing outside the workspace as
  long as no symbolic link lies below the workspace, and it creates none there.
\<close>

theorem apply_patch_confined:
  assumes "linkless_dir r fs" and "os_resolve fs workspace = Found r"
    and "apply_patch valid_utf8 ops workspace fs = (res, fs')"
  shows "(\<forall>p. \<not> prefix r p \<longrightarrow> fs_nodes fs' p = fs_nodes fs p) \<and> linkless_dir r fs'"
proof -
  have "edits r fs fs'"
    using fold_edits [OF assms(1,2), of valid_utf8 ops patch_result_default] assms(3) by (simp add: apply_patch_def)
  then show ?thesis using edits_linkless [OF assms(1)] by (simp add: edits_def)
qed

definition sample_ops :: "patch_op list" where
  "sample_ops = [AddFile ''n.txt'' ''a'', UpdateFile ''n.txt'' (Some ''m/n.txt'') [\<lparr>hk_context_before = [], hk_old_lines = [''a''],
     hk_new_lines = [''b''], hk_context_after = []\<rparr>], DeleteFile ''../etc/passwd'']"

definition sample_patch_run :: "patch_result \<times> filesystem" where
  "sample_patch_run = apply_patch (\<lambda>_. True) sample_ops ''/ws'' (sample_tree [])"

lemma sample_patch_result:
  "fs_nodes (snd sample_patch_run) [''ws'', ''m'', ''n.txt''] = Some (Regular ''b'')"
  "fs_nodes (snd sample_patch_run) [''ws'', ''n.txt''] = None"
  by code_simp+

theorem apply_patch_confined_witness:
  "fs_nodes (snd sample_patch_run) [''etc'', ''passwd''] = Some (Regular ''root'')
     \<and> fs_nodes (snd sample_patch_run) [''ws'', ''m'', ''n.txt''] = Some (Regular ''b'')"
proof -
  obtain res fs' where run: "sample_patch_run = (res, fs')" by fastforce
  have "fs_nodes fs' [''etc'', ''passwd''] = fs_nodes (sample_tree []) [''etc'', ''passwd'']"
    using apply_patch_confined [OF sample_linkless sample_root run [unfolded sample_patch_run_def]] by auto
  then have "fs_nodes (snd sample_patch_run) [''etc'', ''passwd''] = Some (Regular ''root'')"
    by (simp only: run snd_conv) (simp add: sample_tree_def)
  then show ?thesis using sample_patch_result(1) by blast
qed

text \<open>A move is counted before its target is written, so a failed one is reported as moved, too.\<close>

lemma failed_move_counted:
  "let r = fst (apply_patch (\<lambda>_. True) [UpdateFile ''a'' (Some ''d'') [\<lparr>hk_context_before = [], hk_old_lines = [''x''],
      hk_new_lines = [], hk_context_after = []\<rparr>]] ''/ws''
      (sample_tree [([''ws'', ''a''], Regular ''x''), ([''ws'', ''d''], Dir)]))
   in pr_files_moved r = 1 \<and> pr_files_updated r = 0 \<and> length (pr_errors r) = 1"
  by code_simp

end
