(* ===== verification/Patch_Format.thy ===== *)
theory Patch_Format
  imports Apply_Patch
begin

text \<open>
  The patch format read back: a writer of patches in the format the tool documents, and the proof
  that the parser of \<open>Apply_Patch\<close> returns the operations that were written. The conditions on paths
  and lines say where the format is ambiguous.
\<close>

section \<open>Trimming printable text\<close>

definition graph :: "char \<Rightarrow> bool" where
  "graph c = (33 \<le> (of_char c :: nat) \<and> (of_char c :: nat) < 127)"

lemma ws_front_graph: "graph c \<Longrightarrow> ws_front (of_char c # bs) = 0"
  by (auto simp: graph_def split: list.splits)

lemma trim_start_graph: "graph c \<Longrightarrow> trim_start (c # s) = c # s"
  by (simp add: trim_start.simps [of "c # s"] str_bytes_def ws_front_graph del: ws_front.simps)

lemma ws_back_graph: "graph c \<Longrightarrow> ws_back (s @ [c]) = 0"
proof -
  assume g: "graph c"
  have two: "ws_front [b, of_char c] \<noteq> 2" for b using g by (auto simp: graph_def)
  have three: "ws_front [a, b, of_char c] \<noteq> 3" for a b using g by (auto simp: graph_def)
  have "length (drop (Suc (length s) - 2) s) = 1" if "2 \<le> Suc (length s)" using that by simp
  then have d2: "\<exists>b. drop (Suc (length s) - 2) s = [b]" if "2 \<le> Suc (length s)"
    using that by (metis One_nat_def length_0_conv length_Suc_conv)
  have "length (drop (Suc (length s) - 3) s) = 2" if "3 \<le> Suc (length s)" using that by simp
  then have d3: "\<exists>a b. drop (Suc (length s) - 3) s = [a, b]" if "3 \<le> Suc (length s)"
    using that by (metis length_0_conv length_Suc_conv numeral_2_eq_2)
  have one: "ws_front [of_char c] = 0" using g by (rule ws_front_graph)
  show ?thesis
    using one two three d2 d3
    by (auto simp: ws_back_def Let_def str_bytes_def simp del: ws_front.simps)
qed

lemma trim_ends: "s \<noteq> [] \<Longrightarrow> graph (hd s) \<Longrightarrow> graph (last s) \<Longrightarrow> trim s = s"
proof -
  assume s: "s \<noteq> []" "graph (hd s)" "graph (last s)"
  then have "trim_start s = s" using trim_start_graph [of "hd s" "tl s"] by simp
  moreover have "trim_end s = s"
    using ws_back_graph [OF s(3), of "butlast s"] s(1) by (simp add: trim_end.simps [of s])
  ultimately show "trim s = s" by (simp add: trim_def)
qed

lemma trim_end_head: "graph c \<Longrightarrow> \<exists>t. trim_end (c # s) = c # t"
proof (induction s rule: length_induct)
  case (1 s)
  define n where "n = ws_back (c # s)"
  show ?case
  proof (cases "n = 0")
    case True
    then show ?thesis by (simp add: trim_end.simps [of "c # s"] n_def)
  next
    case False
    have "n \<le> length s"
    proof (rule ccontr)
      assume "\<not> n \<le> length s"
      moreover have "n \<le> Suc (length s) \<and> ws_front (str_bytes (drop (Suc (length s) - n) (c # s))) = n"
        using False unfolding n_def ws_back_def Let_def by (auto split: if_splits simp del: ws_front.simps)
      ultimately have "ws_front (str_bytes (c # s)) = n" by (metis le_SucE diff_self_eq_0 drop0)
      then show False using False ws_front_graph [OF 1(2)] by (simp add: str_bytes_def)
    qed
    then have t: "take (length (c # s) - n) (c # s) = c # take (length s - n) s" by (simp add: Suc_diff_le)
    have "length (take (length s - n) s) < length s" using False \<open>n \<le> length s\<close> by simp
    then obtain t where "trim_end (c # take (length s - n) s) = c # t" using 1 by blast
    then show ?thesis using False t by (simp add: trim_end.simps [of "c # s"] n_def [symmetric] Let_def)
  qed
qed

lemma trim_end_heads: "graph b \<Longrightarrow> graph c \<Longrightarrow> \<exists>t. trim_end (b # c # s) = b # c # t"
proof (induction s rule: length_induct)
  case (1 s)
  define n where "n = ws_back (b # c # s)"
  show ?case
  proof (cases "n = 0")
    case True
    then show ?thesis by (simp add: trim_end.simps [of "b # c # s"] n_def)
  next
    case False
    have "n \<le> length s"
    proof (rule ccontr)
      assume "\<not> n \<le> length s"
      moreover have n: "n \<le> Suc (Suc (length s)) \<and> ws_front (str_bytes (drop (Suc (Suc (length s)) - n) (b # c # s))) = n"
        using False unfolding n_def ws_back_def Let_def by (auto split: if_splits simp del: ws_front.simps)
      ultimately consider "n = Suc (Suc (length s))" | "n = Suc (length s)" by linarith
      then have "ws_front (str_bytes (b # c # s)) = n \<or> ws_front (str_bytes (c # s)) = n"
        by cases (use n in \<open>simp_all del: ws_front.simps\<close>)
      then show False
        using False ws_front_graph [OF 1(2)] ws_front_graph [OF 1(3)] by (auto simp: str_bytes_def simp del: ws_front.simps)
    qed
    then have t: "take (length (b # c # s) - n) (b # c # s) = b # c # take (length s - n) s" by (simp add: Suc_diff_le)
    have "length (take (length s - n) s) < length s" using False \<open>n \<le> length s\<close> by simp
    then obtain t where "trim_end (b # c # take (length s - n) s) = b # c # t" using 1 by blast
    then show ?thesis using False t by (simp add: trim_end.simps [of "b # c # s"] n_def [symmetric] Let_def)
  qed
qed

lemma trim_head: "graph c \<Longrightarrow> \<exists>t. trim (c # s) = c # t"
  by (simp add: trim_def trim_start_graph trim_end_head)

lemma trim_space: "trim (CHR '' '' # s) = trim s"
  by (simp add: trim_def trim_start.simps [of "CHR '' '' # s"] str_bytes_def)

lemma marker_head: "graph c \<Longrightarrow> c \<noteq> CHR ''*'' \<Longrightarrow> \<not> is_marker (c # s)"
  using trim_head [of c s] by (auto simp: is_marker_def starts_with_def)

lemma hunk_start_head: "graph c \<Longrightarrow> c \<noteq> CHR ''@'' \<Longrightarrow> \<not> is_hunk_start (c # s)"
  using trim_head [of c s] by (auto simp: is_hunk_start_def starts_with_def)

lemma space_lines:
  "is_marker (CHR '' '' # s) \<longleftrightarrow> is_marker s" "is_hunk_start (CHR '' '' # s) \<longleftrightarrow> is_hunk_start s"
  by (simp_all add: is_marker_def is_hunk_start_def trim_space)

lemma change_lines [simp]:
  "\<not> is_marker (CHR ''-'' # s)" "\<not> is_marker (CHR ''+'' # s)"
  "\<not> is_hunk_start (CHR ''-'' # s)" "\<not> is_hunk_start (CHR ''+'' # s)"
  by (simp_all add: marker_head hunk_start_head graph_def)

section \<open>Writing patches\<close>

text \<open>
  A patch as it is written: a hunk is the text behind its \<^verbatim>\<open>@@\<close> and its lines in any order, kept, removed or
  added ones, or blank ones without the leading space.
\<close>

datatype patch_line = Kept string | Removed string | Added string | BlankLine

datatype written_op =
    WriteAdd string string
  | WriteUpdate string "string option" "(string \<times> patch_line list) list"
  | WriteDelete string

fun render_line :: "patch_line \<Rightarrow> string" where
  "render_line (Kept s) = CHR '' '' # s"
| "render_line (Removed s) = CHR ''-'' # s"
| "render_line (Added s) = CHR ''+'' # s"
| "render_line BlankLine = []"

definition render_hunk :: "string \<times> patch_line list \<Rightarrow> string list" where
  "render_hunk h = (''@@'' @ fst h) # map render_line (snd h)"

fun render_op :: "written_op \<Rightarrow> string list" where
  "render_op (WriteAdd p c) = (ADD_FILE @ '' '' @ p) # map ((#) CHR ''+'') (split_char (CHR 0x0A) c)"
| "render_op (WriteUpdate p mv hs) =
     (UPDATE_FILE @ '' '' @ p @ (case mv of Some m \<Rightarrow> '' -> '' @ m | None \<Rightarrow> [])) # concat (map render_hunk hs)"
| "render_op (WriteDelete p) = [DELETE_FILE @ '' '' @ p]"

definition render_patch :: "written_op list \<Rightarrow> string" where
  "render_patch ops = join_char (CHR 0x0A) (BEGIN_PATCH # concat (map render_op ops) @ [END_PATCH])"

text \<open>
  What a hunk means to the parser: the kept lines before the first change and all kept lines after
  it, the removed and the added lines, whatever their order, and nothing of the header.
\<close>

fun kept_text :: "patch_line \<Rightarrow> string option" where
  "kept_text (Kept s) = Some s"
| "kept_text BlankLine = Some []"
| "kept_text _ = None"

fun removed_text :: "patch_line \<Rightarrow> string option" where
  "removed_text (Removed s) = Some s"
| "removed_text _ = None"

fun added_text :: "patch_line \<Rightarrow> string option" where
  "added_text (Added s) = Some s"
| "added_text _ = None"

definition is_change :: "patch_line \<Rightarrow> bool" where
  "is_change l = (kept_text l = None)"

definition hunk_meaning :: "patch_line list \<Rightarrow> hunk" where
  "hunk_meaning ls =
     \<lparr>hk_context_before = List.map_filter kept_text (takeWhile (\<lambda>l. \<not> is_change l) ls),
      hk_old_lines = List.map_filter removed_text ls, hk_new_lines = List.map_filter added_text ls,
      hk_context_after = List.map_filter kept_text (dropWhile (\<lambda>l. \<not> is_change l) ls)\<rparr>"

fun op_meaning :: "written_op \<Rightarrow> patch_op" where
  "op_meaning (WriteAdd p c) = AddFile p c"
| "op_meaning (WriteUpdate p mv hs) = UpdateFile p mv (map (hunk_meaning \<circ> snd) hs)"
| "op_meaning (WriteDelete p) = DeleteFile p"

text \<open>
  A path starts and ends with a printable character, is one line and does not contain the arrow of
  a move. A kept line must not look like the start of a hunk or of an operation. No line contains a line
  break or ends in a carriage return.
\<close>

definition path_ok :: "string \<Rightarrow> bool" where
  "path_ok p = (p \<noteq> [] \<and> graph (hd p) \<and> graph (last p) \<and> no_newline p \<and> \<not> sublist ''->'' p)"

definition context_ok :: "string \<Rightarrow> bool" where
  "context_ok l = (is_line l \<and> \<not> is_marker l \<and> \<not> is_hunk_start l)"

fun patch_line_ok :: "patch_line \<Rightarrow> bool" where
  "patch_line_ok (Kept s) = context_ok s"
| "patch_line_ok (Removed s) = is_line s"
| "patch_line_ok (Added s) = is_line s"
| "patch_line_ok BlankLine = True"

definition hunk_ok :: "string \<times> patch_line list \<Rightarrow> bool" where
  "hunk_ok h = (is_line (fst h) \<and> list_all patch_line_ok (snd h))"

fun op_ok :: "written_op \<Rightarrow> bool" where
  "op_ok (WriteAdd p c) = (path_ok p \<and> list_all is_line (split_char (CHR 0x0A) c))"
| "op_ok (WriteUpdate p mv hs) =
     (path_ok p \<and> (case mv of Some m \<Rightarrow> path_ok m | None \<Rightarrow> True) \<and> hs \<noteq> [] \<and> list_all hunk_ok hs)"
| "op_ok (WriteDelete p) = path_ok p"

section \<open>Reading hunks\<close>

lemma no_lines_empty [simp]: "trim [] = []" "\<not> is_marker []" "\<not> is_hunk_start []"
proof -
  show t: "trim [] = []" by (simp add: trim_def trim_start.simps [of "[]"] trim_end.simps [of "[]"] str_bytes_def ws_back_def)
  show "\<not> is_marker []" "\<not> is_hunk_start []" by (simp_all add: is_marker_def is_hunk_start_def starts_with_def t)
qed

lemma line_is_body: "patch_line_ok l \<Longrightarrow> \<not> is_hunk_start (render_line l) \<and> \<not> is_marker (render_line l)"
  by (cases l) (simp_all add: context_ok_def space_lines)

lemma hunk_line_rendered:
  "hunk_line (CHR '' '' # s) st = hunk_context s st" "hunk_line [] st = hunk_context [] st"
  "hunk_line (CHR ''-'' # s) (h, b) = (h\<lparr>hk_old_lines := hk_old_lines h @ [s]\<rparr>, True, False)"
  "hunk_line (CHR ''+'' # s) (h, b) = (h\<lparr>hk_new_lines := hk_new_lines h @ [s]\<rparr>, True, False)"
  by (cases b; simp add: hunk_line_def)+

definition stops :: "string list \<Rightarrow> bool" where
  "stops rest = (case rest of [] \<Rightarrow> True | l # _ \<Rightarrow> is_hunk_start l \<or> is_marker l)"

lemma body_stops: "stops rest \<Longrightarrow> hunk_body (h, ic, pc) rest = (h, rest)"
  by (cases rest) (auto simp: stops_def)

lemmas map_filter_eqs = map_filter_simps

text \<open>After the first change every kept line is context after the change.\<close>

lemma body_after:
  assumes "stops rest"
  shows "list_all patch_line_ok ls \<Longrightarrow> ic \<or> pc \<Longrightarrow>
     hunk_body (h, ic, pc) (map render_line ls @ rest)
     = (h\<lparr>hk_old_lines := hk_old_lines h @ List.map_filter removed_text ls,
          hk_new_lines := hk_new_lines h @ List.map_filter added_text ls,
          hk_context_after := hk_context_after h @ List.map_filter kept_text ls\<rparr>, rest)"
proof (induction ls arbitrary: h ic pc)
  case Nil
  then show ?case by (simp add: body_stops [OF assms] map_filter_eqs)
next
  case (Cons l ls)
  then show ?case
    using line_is_body [of l] by (cases l) (auto simp: hunk_line_rendered hunk_context_def map_filter_eqs)
qed

lemma body_before:
  assumes "stops rest"
  shows "list_all patch_line_ok ls \<Longrightarrow>
     hunk_body (h, False, False) (map render_line ls @ rest)
     = (h\<lparr>hk_context_before := hk_context_before h @ hk_context_before (hunk_meaning ls),
          hk_old_lines := hk_old_lines h @ hk_old_lines (hunk_meaning ls),
          hk_new_lines := hk_new_lines h @ hk_new_lines (hunk_meaning ls),
          hk_context_after := hk_context_after h @ hk_context_after (hunk_meaning ls)\<rparr>, rest)"
proof (induction ls arbitrary: h)
  case Nil
  then show ?case by (simp add: body_stops [OF assms] map_filter_eqs hunk_meaning_def)
next
  case (Cons l ls)
  then have b: "\<not> is_hunk_start (render_line l)" "\<not> is_marker (render_line l)" using line_is_body by auto
  show ?case
  proof (cases "is_change l")
    case True
    then show ?thesis
      using Cons.prems b
      by (cases l)
         (simp_all add: hunk_line_rendered is_change_def hunk_meaning_def map_filter_eqs body_after [OF assms])
  next
    case False
    then show ?thesis
      using Cons b
      by (cases l) (simp_all add: hunk_line_rendered hunk_context_def is_change_def hunk_meaning_def map_filter_eqs)
  qed
qed

lemma body_hunk:
  assumes "hunk_ok h" "stops rest"
  shows "hunk_body (empty_hunk, False, False) (map render_line (snd h) @ rest) = (hunk_meaning (snd h), rest)"
  using body_before [OF assms(2), of "snd h" empty_hunk] assms(1) by (simp add: hunk_ok_def empty_hunk_def)

lemma hunk_head [simp]: "is_hunk_start (CHR ''@'' # CHR ''@'' # s)" "\<not> is_marker (CHR ''@'' # CHR ''@'' # s)"
proof -
  have g: "graph CHR ''@''" by (simp add: graph_def)
  show "is_hunk_start (CHR ''@'' # CHR ''@'' # s)"
    using trim_end_heads [OF g g, of s]
    by (auto simp: is_hunk_start_def trim_def trim_start_graph [OF g] starts_with_def)
  show "\<not> is_marker (CHR ''@'' # CHR ''@'' # s)" using marker_head [OF g] by simp
qed

lemma hunks_of_rendered:
  assumes "list_all hunk_ok hs" "rest = [] \<or> is_marker (hd rest)"
  shows "hunks_of acc (concat (map render_hunk hs) @ rest) = (acc @ map (hunk_meaning \<circ> snd) hs, rest)"
  using assms(1)
proof (induction hs arbitrary: acc)
  case Nil
  then show ?case using assms(2) by (cases rest) auto
next
  case (Cons h hs)
  have st: "stops (concat (map render_hunk hs) @ rest)"
    using assms(2) hunk_head by (cases hs; cases rest) (auto simp: stops_def render_hunk_def)
  have "hunks_of acc ((''@@'' @ fst h) # (map render_line (snd h) @ (concat (map render_hunk hs) @ rest)))
      = hunks_of (acc @ [hunk_meaning (snd h)]) (concat (map render_hunk hs) @ rest)"
    using body_hunk [OF _ st, of h] Cons.prems by simp
  moreover have "concat (map render_hunk (h # hs)) @ rest
      = (''@@'' @ fst h) # (map render_line (snd h) @ (concat (map render_hunk hs) @ rest))"
    by (simp add: render_hunk_def)
  ultimately show ?case using Cons by (simp only:) simp
qed

section \<open>Reading operations\<close>

lemma is_marker_ends: "graph (last s) \<Longrightarrow> starts_with s ''***'' \<Longrightarrow> trim s = s \<and> is_marker s"
proof -
  assume s: "graph (last s)" "starts_with s ''***''"
  then have "s \<noteq> []" "hd s = CHR ''*''" by (auto simp: starts_with_def prefix_def)
  then have "trim s = s" using s(1) by (intro trim_ends) (auto simp: graph_def)
  then show ?thesis using s(2) by (simp add: is_marker_def)
qed

lemma header_line:
  assumes "path_ok p"
  shows "trim (ADD_FILE @ '' '' @ p) = ADD_FILE @ '' '' @ p \<and> is_marker (ADD_FILE @ '' '' @ p)"
    and "trim (DELETE_FILE @ '' '' @ p) = DELETE_FILE @ '' '' @ p \<and> is_marker (DELETE_FILE @ '' '' @ p)"
    and "trim (UPDATE_FILE @ '' '' @ q @ p) = UPDATE_FILE @ '' '' @ q @ p \<and> is_marker (UPDATE_FILE @ '' '' @ q @ p)"
proof -
  have p: "p \<noteq> []" "graph (last p)" using assms by (auto simp: path_ok_def)
  show "trim (ADD_FILE @ '' '' @ p) = ADD_FILE @ '' '' @ p \<and> is_marker (ADD_FILE @ '' '' @ p)"
    by (rule is_marker_ends) (use p in \<open>auto simp: ADD_FILE_def starts_with_def\<close>)
  show "trim (DELETE_FILE @ '' '' @ p) = DELETE_FILE @ '' '' @ p \<and> is_marker (DELETE_FILE @ '' '' @ p)"
    by (rule is_marker_ends) (use p in \<open>auto simp: DELETE_FILE_def starts_with_def\<close>)
  show "trim (UPDATE_FILE @ '' '' @ q @ p) = UPDATE_FILE @ '' '' @ q @ p \<and> is_marker (UPDATE_FILE @ '' '' @ q @ p)"
    by (rule is_marker_ends) (use p in \<open>auto simp: UPDATE_FILE_def starts_with_def\<close>)
qed

lemma trim_path: "path_ok p \<Longrightarrow> trim p = p \<and> p \<noteq> []"
  by (auto simp: path_ok_def trim_ends)

lemma header_rest_path: "header_rest h (h @ CHR '' '' # s) = trim s"
  by (simp add: header_rest_def trim_space)

lemma header_starts:
  "starts_with (ADD_FILE @ s) ADD_FILE" "starts_with (UPDATE_FILE @ s) UPDATE_FILE"
  "starts_with (DELETE_FILE @ s) DELETE_FILE" "\<not> starts_with (UPDATE_FILE @ s) ADD_FILE"
  "\<not> starts_with (DELETE_FILE @ s) ADD_FILE" "\<not> starts_with (DELETE_FILE @ s) UPDATE_FILE"
  by (simp_all add: starts_with_def ADD_FILE_def UPDATE_FILE_def DELETE_FILE_def)

lemma find_arrow:
  "\<not> sublist ''->'' p \<Longrightarrow> find_str ''->'' (p @ '' -> '' @ m) = Some (length p + 1)"
proof (induction p)
  case (Cons x p)
  then have "\<not> prefix ''->'' (x # p @ '' -> '' @ m)"
    by (cases p) (auto simp: sublist_Cons_right)
  with Cons show ?case by (simp add: sublist_Cons_right)
qed simp

lemma update_paths_move:
  assumes "path_ok p" "path_ok m"
  shows "update_paths (trim (p @ '' -> '' @ m)) = (p, Some m)"
proof -
  have pm: "p \<noteq> []" "graph (hd p)" "graph (last p)" "m \<noteq> []" "graph (last m)" using assms by (auto simp: path_ok_def)
  have whole: "trim (p @ '' -> '' @ m) = p @ '' -> '' @ m" by (rule trim_ends) (use pm in auto)
  have "trim (p @ '' '') = p"
  proof -
    have start: "trim_start (p @ '' '') = p @ '' ''" using trim_start_graph [of "hd p" "tl p @ '' ''"] pm by (cases p) auto
    have "ws_back (p @ '' '') = 1" by (simp add: ws_back_def Let_def str_bytes_def)
    then have "trim_end (p @ '' '') = trim_end p" by (simp add: trim_end.simps [of "p @ '' ''"])
    moreover have "trim_end p = p" using ws_back_graph [OF pm(3), of "butlast p"] pm by (simp add: trim_end.simps [of p])
    ultimately show ?thesis by (simp add: trim_def start)
  qed
  moreover have "find_str ''->'' (p @ '' -> '' @ m) = Some (length p + 1)"
    using assms(1) by (intro find_arrow) (simp add: path_ok_def)
  ultimately show ?thesis
    unfolding update_paths_def whole split_once_def
    using trim_path [OF assms(2)] by (simp add: trim_space)
qed

lemma update_paths_plain:
  assumes "path_ok p"
  shows "update_paths (trim p) = (p, None)"
proof -
  have "find_str ''->'' p = None" using assms by (simp add: find_str_None path_ok_def)
  then show ?thesis using trim_path [OF assms] by (simp add: update_paths_def split_once_def)
qed

lemma add_body_rendered:
  assumes "rest = [] \<or> is_marker (hd rest)"
  shows "add_body acc (map ((#) CHR ''+'') ls @ rest) = Inr (acc @ ls, rest)"
proof (induction ls arbitrary: acc)
  case Nil
  then show ?case using assms by (cases rest) auto
qed simp

lemma rendered_head:
  "list_all op_ok ops \<Longrightarrow> concat (map render_op ops) = [] \<or> is_marker (hd (concat (map render_op ops)))"
proof (cases ops)
  case (Cons x xs)
  assume ok: "list_all op_ok ops"
  show ?thesis
  proof (cases x)
    case (WriteUpdate p mv hs)
    then show ?thesis using ok Cons header_line(3) [of p "[]"] header_line(3) [of "the mv" "p @ '' -> ''"]
      by (auto split: option.splits)
  qed (use ok Cons header_line in auto)
qed simp

lemma parse_add:
  "path_ok p \<Longrightarrow> rest = [] \<or> is_marker (hd rest) \<Longrightarrow>
     parse_ops acc (render_op (WriteAdd p c) @ rest) = parse_ops (acc @ [op_meaning (WriteAdd p c)]) rest"
  using header_line(1) [of p] trim_path [of p] add_body_rendered [of rest "[]" "split_char (CHR 0x0A) c"]
  by (simp add: header_starts header_rest_path Let_def)

lemma parse_delete:
  "path_ok p \<Longrightarrow> parse_ops acc (render_op (WriteDelete p) @ rest) = parse_ops (acc @ [op_meaning (WriteDelete p)]) rest"
  using header_line(2) [of p] trim_path [of p] by (simp add: header_starts header_rest_path Let_def)

lemma parse_update:
  assumes "op_ok (WriteUpdate p mv hs)" "rest = [] \<or> is_marker (hd rest)"
  shows "parse_ops acc (render_op (WriteUpdate p mv hs) @ rest) = parse_ops (acc @ [op_meaning (WriteUpdate p mv hs)]) rest"
proof -
  define arrow where "arrow = (case mv of Some m \<Rightarrow> '' -> '' @ m | None \<Rightarrow> [])"
  have p: "path_ok p" using assms(1) by simp
  have line: "trim (UPDATE_FILE @ '' '' @ p @ arrow) = UPDATE_FILE @ '' '' @ p @ arrow"
    using assms(1) header_line(3) [of p "[]"] header_line(3) [of "the mv" "p @ '' -> ''"]
    by (auto simp: arrow_def split: option.splits)
  have paths: "update_paths (trim (p @ arrow)) = (p, mv)"
    using assms(1) update_paths_plain [OF p] update_paths_move [OF p, of "the mv"]
    by (auto simp: arrow_def split: option.splits)
  have hunks: "hunks_of [] (concat (map render_hunk hs) @ rest) = (map (hunk_meaning \<circ> snd) hs, rest)"
    using hunks_of_rendered [OF _ assms(2), of hs "[]"] assms(1) by simp
  show ?thesis
    using line paths hunks assms(1) trim_path [OF p]
    by (simp add: arrow_def [symmetric] header_starts header_rest_path Let_def)
qed

lemma parse_ops_rendered:
  "list_all op_ok ops \<Longrightarrow> parse_ops acc (concat (map render_op ops)) = Inr (acc @ map op_meaning ops)"
proof (induction ops arbitrary: acc)
  case (Cons x ops)
  have rest: "concat (map render_op ops) = [] \<or> is_marker (hd (concat (map render_op ops)))"
    by (rule rendered_head) (use Cons.prems in simp)
  have "parse_ops acc (render_op x @ concat (map render_op ops)) = parse_ops (acc @ [op_meaning x]) (concat (map render_op ops))"
    using Cons.prems parse_add [OF _ rest] parse_update [OF _ rest] parse_delete by (cases x) (simp_all del: render_op.simps op_meaning.simps)
  then show ?case using Cons by simp
qed simp

section \<open>Reading a whole patch\<close>

lemma str_lines_join:
  assumes "ls \<noteq> []" "list_all is_line ls" "last ls \<noteq> []"
  shows "str_lines (join_char (CHR 0x0A) ls) = ls"
proof -
  have "split_char (CHR 0x0A) (join_char (CHR 0x0A) ls) = ls"
    by (rule split_join) (use assms in \<open>auto simp: list_all_iff is_line_def no_newline_def\<close>)
  moreover have "map strip_cr (butlast ls) = butlast ls"
    by (rule map_idI) (use assms(2) in \<open>auto simp: list_all_iff strip_cr_line dest: in_set_butlastD\<close>)
  ultimately show ?thesis using assms by (simp add: str_lines_def Let_def)
qed

lemma line_cons: "is_line l \<Longrightarrow> graph c \<or> c = CHR '' '' \<Longrightarrow> is_line (c # l)"
  by (auto simp: is_line_def no_newline_def graph_def)

lemma path_line:
  assumes "path_ok p" "no_newline h"
  shows "is_line (h @ p)"
  using assms by (auto simp: is_line_def no_newline_def path_ok_def graph_def)

lemma hunk_lines: "hunk_ok h \<Longrightarrow> list_all is_line (render_hunk h)"
proof -
  assume ok: "hunk_ok h"
  have g: "graph CHR ''-''" "graph CHR ''+''" "graph CHR ''@''" by (simp_all add: graph_def)
  have "is_line (render_line l)" if "patch_line_ok l" for l
    using that g by (cases l) (simp_all add: context_ok_def line_cons is_line_def [of "[]"] no_newline_def)
  moreover have "is_line (''@@'' @ fst h)" using ok g by (simp add: hunk_ok_def line_cons)
  ultimately show ?thesis using ok by (auto simp: render_hunk_def hunk_ok_def list_all_iff)
qed

lemma op_lines: "op_ok x \<Longrightarrow> list_all is_line (render_op x)"
proof (cases x)
  case (WriteAdd p c)
  assume ok: "op_ok x"
  have "graph CHR ''+''" by (simp add: graph_def)
  moreover have "is_line (ADD_FILE @ '' '' @ p)"
    using path_line [of p "ADD_FILE @ '' ''"] ok WriteAdd by (simp add: no_newline_def ADD_FILE_def)
  ultimately show ?thesis using ok WriteAdd by (auto simp: list_all_iff line_cons)
next
  case (WriteUpdate p mv hs)
  assume ok: "op_ok x"
  then have np: "no_newline p" using WriteUpdate by (simp add: path_ok_def)
  have "is_line (UPDATE_FILE @ '' '' @ p @ (case mv of Some m \<Rightarrow> '' -> '' @ m | None \<Rightarrow> []))"
  proof (cases mv)
    case None
    then show ?thesis using path_line [of p "UPDATE_FILE @ '' ''"] ok WriteUpdate by (simp add: no_newline_def UPDATE_FILE_def)
  next
    case (Some m)
    then show ?thesis
      using path_line [of m "UPDATE_FILE @ '' '' @ p @ '' -> ''"] ok WriteUpdate np by (simp add: no_newline_def UPDATE_FILE_def)
  qed
  then show ?thesis using ok WriteUpdate hunk_lines by (auto simp: list_all_iff)
next
  case (WriteDelete p)
  assume "op_ok x"
  then show ?thesis
    using path_line [of p "DELETE_FILE @ '' ''"] WriteDelete by (simp add: no_newline_def DELETE_FILE_def)
qed

lemma rposition_last: "P x \<Longrightarrow> rposition P (xs @ [x]) = Some (length xs)"
  by (induction xs) auto

lemma trim_markers: "trim BEGIN_PATCH = BEGIN_PATCH" "trim END_PATCH = END_PATCH"
  by (rule trim_ends; simp add: BEGIN_PATCH_def END_PATCH_def graph_def)+

text \<open>
  C7. Any patch that is written as operations of the three kinds, with moves, and with hunks
  whose header has any text behind its \<^verbatim>\<open>@@\<close> and whose lines, kept, removed, added or blank, come in any order,
  is read back: the parser returns those operations with, for every hunk, the kept lines before its first
  change, the kept lines after it, the removed and the added lines, and nothing of the header. Paths begin and
  end with a printable ASCII character and contain neither a line break nor \<^verbatim>\<open>->\<close>; lines have no line break and do not
  end in a carriage return; kept lines do not look like the start of a hunk or of an operation. (So
  the parser forgets where the changes of a hunk with several changes are: see
  \<open>two_changes_in_one_hunk_fail\<close>.)
\<close>

theorem parse_rendered_patch:
  assumes "ops \<noteq> []" and "list_all op_ok ops"
  shows "parse_patch (render_patch ops) = Inr (map op_meaning ops)"
proof -
  let ?body = "concat (map render_op ops)"
  have "list_all is_line ?body" using assms(2) op_lines by (auto simp: list_all_iff)
  then have "str_lines (render_patch ops) = BEGIN_PATCH # ?body @ [END_PATCH]"
    unfolding render_patch_def
    by (intro str_lines_join) (auto simp: is_line_def no_newline_def BEGIN_PATCH_def END_PATCH_def)
  moreover have "rposition (\<lambda>l. trim l = END_PATCH) (BEGIN_PATCH # ?body @ [END_PATCH]) = Some (Suc (length ?body))"
    using rposition_last [of "\<lambda>l. trim l = END_PATCH" END_PATCH "BEGIN_PATCH # ?body"] by (simp add: trim_markers)
  ultimately show ?thesis
    using parse_ops_rendered [OF assms(2), of "[]"] assms(1) by (simp add: parse_patch_def Let_def trim_markers)
qed

text \<open>A patch with a documented header and two changes with a kept line between them.\<close>

definition sample_patch :: "written_op list" where
  "sample_patch =
     [WriteAdd ''a.txt'' ''x'',
      WriteUpdate ''b.txt'' (Some ''c.txt'')
        [('' context @@'', [Kept ''a'', Removed ''b'', Added ''c'', Kept ''e'', Removed ''f'', BlankLine])],
      WriteDelete ''d.txt'']"

lemma sample_context: "context_ok ''a'' \<and> context_ok ''e''"
proof -
  have "trim ''a'' = ''a''" "trim ''e'' = ''e''" by (rule trim_ends; simp add: graph_def)+
  then show ?thesis
    by (simp add: context_ok_def is_line_def no_newline_def is_marker_def is_hunk_start_def starts_with_def)
qed

theorem parse_rendered_patch_witness:
  "parse_patch (render_patch sample_patch) =
     Inr [AddFile ''a.txt'' ''x'',
          UpdateFile ''b.txt'' (Some ''c.txt'')
            [\<lparr>hk_context_before = [''a''], hk_old_lines = [''b'', ''f''], hk_new_lines = [''c''], hk_context_after = [''e'', []]\<rparr>],
          DeleteFile ''d.txt'']"
proof -
  have "parse_patch (render_patch sample_patch) = Inr (map op_meaning sample_patch)"
    by (rule parse_rendered_patch)
      (use sample_context in \<open>simp_all add: sample_patch_def hunk_ok_def path_ok_def graph_def
        no_newline_def is_line_def sublist_Cons_right\<close>)
  then show ?thesis by (simp add: sample_patch_def hunk_meaning_def is_change_def map_filter_eqs)
qed

end
