(* ===== verification/Heartbeat.thy ===== *)
theory Heartbeat
  imports Agent_Registry
begin

text \<open>
  The heartbeat monitor (\<^verbatim>\<open>crates/openfang-kernel/src/heartbeat.rs\<close>) and the kernel's use of it:
  the recording of loop phases and the body of the monitor's loop
  (\<^verbatim>\<open>record_agent_loop_phase\<close> and \<^verbatim>\<open>start_heartbeat_monitor\<close> of \<^verbatim>\<open>kernel.rs\<close>). Instants are
  milliseconds; a tick reads the clock once where the code reads it at every step. The log lines and
  the published events of the monitor are kept as lists, newest first.
\<close>

section \<open>Machine integers and durations\<close>

definition as_i64 :: "nat \<Rightarrow> int" where
  "as_i64 n = (let m = int n mod 2 ^ 64 in if m < 2 ^ 63 then m else m - 2 ^ 64)"

definition sat_i64 :: "int \<Rightarrow> int" where
  "sat_i64 x = max (- (2 ^ 63)) (min (2 ^ 63 - 1) x)"

text \<open>\<^verbatim>\<open>Duration::num_seconds\<close> rounds towards zero.\<close>

definition num_seconds :: "time \<Rightarrow> int" where
  "num_seconds d = (if d < 0 then - ((- d) div 1000) else d div 1000)"

definition epoch_secs :: "time \<Rightarrow> nat" where
  "epoch_secs now = nat (now div 1000)"

section \<open>Configuration and state\<close>

definition DEFAULT_CHECK_INTERVAL_SECS :: nat where "DEFAULT_CHECK_INTERVAL_SECS = 30"
definition UNRESPONSIVE_MULTIPLIER :: nat where "UNRESPONSIVE_MULTIPLIER = 2"
definition DEFAULT_MAX_RECOVERY_ATTEMPTS :: nat where "DEFAULT_MAX_RECOVERY_ATTEMPTS = 3"
definition DEFAULT_RECOVERY_COOLDOWN_SECS :: nat where "DEFAULT_RECOVERY_COOLDOWN_SECS = 60"
definition IDLE_GRACE_SECS :: int where "IDLE_GRACE_SECS = 10"

record heartbeat_status =
  hs_agent_id :: agent_id
  hs_name :: string
  hs_inactive_secs :: int
  hs_unresponsive :: bool
  hs_state :: agent_state

datatype monitored_loop_phase = PhaseThinking | PhaseToolUse | PhaseStreaming

record agent_loop_phase_state =
  ph_kind :: monitored_loop_phase
  ph_since :: time

record heartbeat_config =
  hc_check_interval_secs :: nat
  hc_default_timeout_secs :: nat
  hc_max_recovery_attempts :: nat
  hc_recovery_cooldown_secs :: nat
  hc_reactive_idle_timeout_secs :: "nat option"

definition heartbeat_config_default :: heartbeat_config where
  "heartbeat_config_default =
     \<lparr>hc_check_interval_secs = DEFAULT_CHECK_INTERVAL_SECS, hc_default_timeout_secs = 180,
      hc_max_recovery_attempts = DEFAULT_MAX_RECOVERY_ATTEMPTS,
      hc_recovery_cooldown_secs = DEFAULT_RECOVERY_COOLDOWN_SECS, hc_reactive_idle_timeout_secs = None\<rparr>"

record turn_watchdog_settings =
  tw_enabled :: bool
  tw_thinking_secs :: nat
  tw_tool_use_secs :: nat
  tw_streaming_secs :: nat

definition turn_watchdog_settings_default :: turn_watchdog_settings where
  "turn_watchdog_settings_default =
     \<lparr>tw_enabled = True, tw_thinking_secs = 900, tw_tool_use_secs = 7200, tw_streaming_secs = 1800\<rparr>"

type_synonym turn_phases = "(agent_id, agent_loop_phase_state) store"

definition turn_phase_stall_secs ::
  "turn_phases \<Rightarrow> turn_watchdog_settings \<Rightarrow> agent_id \<Rightarrow> time \<Rightarrow> int option" where
  "turn_phase_stall_secs phases tw i now =
     (if \<not> tw_enabled tw then None
      else case st_get phases i of
        None \<Rightarrow> None
      | Some st \<Rightarrow>
          let limit = (case ph_kind st of PhaseThinking \<Rightarrow> tw_thinking_secs tw
                       | PhaseToolUse \<Rightarrow> tw_tool_use_secs tw | PhaseStreaming \<Rightarrow> tw_streaming_secs tw);
              elapsed = num_seconds (now - ph_since st)
          in if elapsed > as_i64 limit then Some elapsed else None)"

section \<open>Recovery attempts and notifications\<close>

text \<open>Consecutive failures and the time of the last attempt.\<close>

type_synonym recovery_tracker = "(agent_id, nat \<times> nat) store"

definition record_attempt :: "time \<Rightarrow> agent_id \<Rightarrow> recovery_tracker \<Rightarrow> nat \<times> recovery_tracker" where
  "record_attempt now i tr =
     (let n = (case st_get tr i of Some (k, _) \<Rightarrow> k | None \<Rightarrow> 0) + 1
      in (n, st_put i (n, epoch_secs now) tr))"

definition can_attempt :: "time \<Rightarrow> agent_id \<Rightarrow> nat \<Rightarrow> recovery_tracker \<Rightarrow> bool" where
  "can_attempt now i cooldown_secs tr =
     (case st_get tr i of Some (_, t) \<Rightarrow> epoch_secs now - t \<ge> cooldown_secs | None \<Rightarrow> True)"

definition failure_count :: "agent_id \<Rightarrow> recovery_tracker \<Rightarrow> nat" where
  "failure_count i tr = (case st_get tr i of Some (k, _) \<Rightarrow> k | None \<Rightarrow> 0)"

definition reset_recovery :: "agent_id \<Rightarrow> recovery_tracker \<Rightarrow> recovery_tracker" where
  "reset_recovery i tr = st_del i tr"

record failure_notify_gate =
  ng_last_notify_epoch_secs :: "(agent_id, nat) store"
  ng_min_interval_secs :: nat

definition NOTIFY_MIN_INTERVAL_SECS :: nat where "NOTIFY_MIN_INTERVAL_SECS = 300"

definition notify_gate_new :: "nat \<Rightarrow> failure_notify_gate" where
  "notify_gate_new n = \<lparr>ng_last_notify_epoch_secs = [], ng_min_interval_secs = n\<rparr>"

definition gate_clear :: "agent_id \<Rightarrow> failure_notify_gate \<Rightarrow> failure_notify_gate" where
  "gate_clear i g = g\<lparr>ng_last_notify_epoch_secs := st_del i (ng_last_notify_epoch_secs g)\<rparr>"

definition allow_notify :: "time \<Rightarrow> agent_id \<Rightarrow> failure_notify_gate \<Rightarrow> bool \<times> failure_notify_gate" where
  "allow_notify now i g =
     (let stamped = g\<lparr>ng_last_notify_epoch_secs := st_put i (epoch_secs now) (ng_last_notify_epoch_secs g)\<rparr>
      in case st_get (ng_last_notify_epoch_secs g) i of
           Some t \<Rightarrow> if epoch_secs now - t \<ge> ng_min_interval_secs g then (True, stamped) else (False, g)
         | None \<Rightarrow> (True, stamped))"

section \<open>Checking the agents\<close>

definition heartbeat_timeout :: "heartbeat_config \<Rightarrow> agent_manifest \<Rightarrow> int" where
  "heartbeat_timeout config m =
     (let base = as_i64 (case mf_autonomous m of
                           Some a \<Rightarrow> heartbeat_interval_secs a * UNRESPONSIVE_MULTIPLIER
                         | None \<Rightarrow> hc_default_timeout_secs config);
          t = max base (as_i64 (hc_default_timeout_secs config));
          schedule_floor = (case mf_schedule m of
              Reactive \<Rightarrow> 0
            | Continuous check_interval_secs \<Rightarrow> sat_i64 (sat_i64 (as_i64 check_interval_secs * 2) + 120)
            | Periodic _ \<Rightarrow> max (sat_i64 (as_i64 (hc_default_timeout_secs config) * 10)) 900
            | Proactive _ \<Rightarrow> max (sat_i64 (as_i64 (hc_default_timeout_secs config) * 10)) 900)
      in max t schedule_floor)"

definition never_active :: "agent_entry \<Rightarrow> bool" where
  "never_active e = (num_seconds (en_last_active e - en_created_at e) \<le> IDLE_GRACE_SECS)"

definition status_of :: "agent_entry \<Rightarrow> int \<Rightarrow> bool \<Rightarrow> heartbeat_status" where
  "status_of e secs unresponsive =
     \<lparr>hs_agent_id = en_id e, hs_name = en_name e, hs_inactive_secs = secs, hs_unresponsive = unresponsive,
      hs_state = en_state e\<rparr>"

definition idle_status ::
  "heartbeat_config \<Rightarrow> turn_phases \<Rightarrow> turn_watchdog_settings \<Rightarrow> int \<Rightarrow> agent_entry \<Rightarrow> heartbeat_status option" where
  "idle_status config phases tw inactive_secs e =
     (if never_active e \<and> en_state e = Running then None
      else
        let unresponsive = (en_state e = Crashed \<or> inactive_secs > heartbeat_timeout config (en_manifest e))
        in Some (status_of e inactive_secs
             (if unresponsive \<and> en_state e = Running \<and> tw_enabled tw \<and> st_get phases (en_id e) \<noteq> None
              then False else unresponsive)))"

definition check_agent ::
  "heartbeat_config \<Rightarrow> turn_phases \<Rightarrow> turn_watchdog_settings \<Rightarrow> time \<Rightarrow> agent_entry \<Rightarrow> heartbeat_status option" where
  "check_agent config phases tw now e =
     (if en_state e \<noteq> Running \<and> en_state e \<noteq> Crashed then None
      else
        let inactive_secs = num_seconds (now - en_last_active e)
        in case (if en_state e = Running then turn_phase_stall_secs phases tw (en_id e) now else None) of
             Some stall_secs \<Rightarrow> Some (status_of e stall_secs True)
           | None \<Rightarrow>
               if en_state e = Running \<and> mf_schedule (en_manifest e) = Reactive then
                 (case hc_reactive_idle_timeout_secs config of
                    None \<Rightarrow> None
                  | Some timeout_secs \<Rightarrow>
                      if never_active e then None
                      else Some (status_of e inactive_secs (inactive_secs > as_i64 timeout_secs)))
               else idle_status config phases tw inactive_secs e)"

definition running_phases :: "agent_registry \<Rightarrow> turn_phases \<Rightarrow> turn_phases" where
  "running_phases reg phases =
     filter (\<lambda>(i, _). case rg_get i reg of Some e \<Rightarrow> en_state e = Running | None \<Rightarrow> False) phases"

definition check_agents ::
  "agent_registry \<Rightarrow> heartbeat_config \<Rightarrow> turn_phases \<Rightarrow> turn_watchdog_settings \<Rightarrow> time
     \<Rightarrow> heartbeat_status list \<times> turn_phases" where
  "check_agents reg config phases tw now =
     (let phases1 = running_phases reg phases
      in (List.map_filter (check_agent config phases1 tw now) (rg_list reg), phases1))"

section \<open>Quiet hours and the summary\<close>

definition parse_u32 :: "string \<Rightarrow> nat option" where
  "parse_u32 s =
     (let ds = (case s of c # cs \<Rightarrow> if c = CHR ''+'' then cs else s | [] \<Rightarrow> [])
      in if ds = [] then None
         else case digits_val 0 ds of Some n \<Rightarrow> if n < 2 ^ 32 then Some n else None | None \<Rightarrow> None)"

definition parse_clock :: "string \<Rightarrow> nat option" where
  "parse_clock s =
     (case split_char CHR '':'' (trim s) of
        [h, m] \<Rightarrow>
          (case (parse_u32 h, parse_u32 m) of
             (Some h', Some m') \<Rightarrow> if h' > 23 \<or> m' > 59 then None else Some (h' * 60 + m')
           | _ \<Rightarrow> None)
      | _ \<Rightarrow> None)"

definition minutes_of_day :: "time \<Rightarrow> nat" where
  "minutes_of_day now = nat ((now div 60000) mod 1440)"

definition within_quiet :: "nat \<Rightarrow> nat \<Rightarrow> nat \<Rightarrow> bool" where
  "within_quiet start stop current =
     (if start \<le> stop then start \<le> current \<and> current < stop else start \<le> current \<or> current < stop)"

definition is_quiet_hours :: "time \<Rightarrow> string \<Rightarrow> bool" where
  "is_quiet_hours now s =
     (case split_char CHR ''-'' s of
        [a, b] \<Rightarrow>
          (case (parse_clock a, parse_clock b) of
             (Some start, Some stop) \<Rightarrow> within_quiet start stop (minutes_of_day now)
           | _ \<Rightarrow> False)
      | _ \<Rightarrow> False)"

record heartbeat_summary =
  hy_total_checked :: nat
  hy_responsive :: nat
  hy_unresponsive :: nat
  hy_unresponsive_agents :: "heartbeat_status list"

definition summarize_statuses :: "heartbeat_status list \<Rightarrow> heartbeat_summary" where
  "summarize_statuses ss =
     (let bad = filter hs_unresponsive ss
      in \<lparr>hy_total_checked = length ss, hy_responsive = length ss - length bad, hy_unresponsive = length bad,
          hy_unresponsive_agents = bad\<rparr>)"

section \<open>The kernel's side\<close>

datatype loop_phase = LoopThinking | LoopToolUse string | LoopStreaming | LoopDone | LoopError

definition monitored_kind :: "loop_phase \<Rightarrow> monitored_loop_phase option" where
  "monitored_kind phase =
     (case phase of
        LoopThinking \<Rightarrow> Some PhaseThinking
      | LoopToolUse _ \<Rightarrow> Some PhaseToolUse
      | LoopStreaming \<Rightarrow> Some PhaseStreaming
      | LoopDone \<Rightarrow> None
      | LoopError \<Rightarrow> None)"

definition record_agent_loop_phase ::
  "turn_watchdog_settings \<Rightarrow> time \<Rightarrow> agent_id \<Rightarrow> loop_phase \<Rightarrow> turn_phases \<Rightarrow> turn_phases" where
  "record_agent_loop_phase tw now i phase phases =
     (case monitored_kind phase of
        None \<Rightarrow> st_del i phases
      | Some kind \<Rightarrow>
          if \<not> tw_enabled tw then phases
          else (case st_get phases i of
                  Some st \<Rightarrow> if ph_kind st \<noteq> kind then st_put i \<lparr>ph_kind = kind, ph_since = now\<rparr> phases else phases
                | None \<Rightarrow> st_put i \<lparr>ph_kind = kind, ph_since = now\<rparr> phases))"

datatype monitor_line =
    MarkedTerminated agent_id nat
  | Recovering agent_id nat nat
  | RecoveredOk agent_id
  | MarkedCrashed agent_id

record monitor_state =
  hm_registry :: agent_registry
  hm_phases :: turn_phases
  hm_tracker :: recovery_tracker
  hm_gate :: failure_notify_gate
  hm_published :: "(agent_id \<times> nat) list"
  hm_log :: "monitor_line list"

definition is_quiet_agent :: "time \<Rightarrow> agent_id \<Rightarrow> agent_registry \<Rightarrow> bool" where
  "is_quiet_agent now i reg =
     (case rg_get i reg of
        None \<Rightarrow> False
      | Some e \<Rightarrow>
          (case mf_autonomous (en_manifest e) of
             None \<Rightarrow> False
           | Some a \<Rightarrow> (case quiet_hours a of Some q \<Rightarrow> is_quiet_hours now q | None \<Rightarrow> False)))"

definition health_check_failed :: "heartbeat_status \<Rightarrow> agent_id \<times> nat" where
  "health_check_failed s = (hs_agent_id s, nat (hs_inactive_secs s mod 2 ^ 64))"

text \<open>A crashed agent: given up after the last attempt, left alone during the cooldown, else set running.\<close>

definition recover_crashed :: "heartbeat_config \<Rightarrow> time \<Rightarrow> heartbeat_status \<Rightarrow> monitor_state \<Rightarrow> monitor_state" where
  "recover_crashed config now s st =
     (let i = hs_agent_id s; failures = failure_count i (hm_tracker st)
      in if failures \<ge> hc_max_recovery_attempts config then
           (case rg_get i (hm_registry st) of
              Some e \<Rightarrow>
                if en_state e = Crashed then
                  st\<lparr>hm_registry := snd (set_state now i Terminated (hm_registry st)),
                     hm_log := MarkedTerminated i failures # hm_log st,
                     hm_published := health_check_failed s # hm_published st\<rparr>
                else st
            | None \<Rightarrow> st)
         else if \<not> can_attempt now i (hc_recovery_cooldown_secs config) (hm_tracker st) then st
         else
           (case record_attempt now i (hm_tracker st) of
              (attempt, tr) \<Rightarrow>
                st\<lparr>hm_tracker := tr, hm_log := Recovering i attempt (epoch_secs now) # hm_log st,
                   hm_registry := snd (set_state now i Running (hm_registry st)),
                   hm_gate := gate_clear i (hm_gate st)\<rparr>))"

text \<open>A running agent: a responsive one ends its recovery, an unresponsive one is marked as crashed.\<close>

definition watch_running :: "time \<Rightarrow> heartbeat_status \<Rightarrow> monitor_state \<Rightarrow> monitor_state" where
  "watch_running now s st =
     (let i = hs_agent_id s;
          st1 = (if hs_state s = Running \<and> \<not> hs_unresponsive s \<and> failure_count i (hm_tracker st) > 0
                 then st\<lparr>hm_tracker := reset_recovery i (hm_tracker st), hm_log := RecoveredOk i # hm_log st\<rparr>
                 else st)
      in if hs_unresponsive s \<and> hs_state s = Running then
           let st2 = st1\<lparr>hm_registry := snd (set_state now i Crashed (hm_registry st1)),
                         hm_log := MarkedCrashed i # hm_log st1\<rparr>
           in case allow_notify now i (hm_gate st2) of
                (True, g) \<Rightarrow> st2\<lparr>hm_gate := g, hm_published := health_check_failed s # hm_published st2\<rparr>
              | (False, g) \<Rightarrow> st2\<lparr>hm_gate := g\<rparr>
         else st1)"

definition handle_status :: "heartbeat_config \<Rightarrow> time \<Rightarrow> heartbeat_status \<Rightarrow> monitor_state \<Rightarrow> monitor_state" where
  "handle_status config now s st =
     (let st1 = (if hs_state s = Running \<and> \<not> hs_unresponsive s
                 then st\<lparr>hm_gate := gate_clear (hs_agent_id s) (hm_gate st)\<rparr> else st)
      in if is_quiet_agent now (hs_agent_id s) (hm_registry st1) then st1
         else if hs_state s = Crashed then recover_crashed config now s st1
         else watch_running now s st1)"

definition monitor_tick ::
  "heartbeat_config \<Rightarrow> turn_watchdog_settings \<Rightarrow> time \<Rightarrow> monitor_state \<Rightarrow> monitor_state" where
  "monitor_tick config tw now st =
     (case check_agents (hm_registry st) config (hm_phases st) tw now of
        (statuses, phases1) \<Rightarrow> fold (handle_status config now) statuses (st\<lparr>hm_phases := phases1\<rparr>))"

section \<open>What the log says\<close>

text \<open>Attempts to recover an agent since its last success, and the time of the last attempt.\<close>

fun attempts_since :: "agent_id \<Rightarrow> monitor_line list \<Rightarrow> nat" where
  "attempts_since i [] = 0"
| "attempts_since i (x # xs) =
     (case x of
        Recovering j _ _ \<Rightarrow> (if j = i then Suc (attempts_since i xs) else attempts_since i xs)
      | RecoveredOk j \<Rightarrow> (if j = i then 0 else attempts_since i xs)
      | _ \<Rightarrow> attempts_since i xs)"

fun last_attempt :: "agent_id \<Rightarrow> monitor_line list \<Rightarrow> nat option" where
  "last_attempt i [] = None"
| "last_attempt i (x # xs) =
     (case x of
        Recovering j _ t \<Rightarrow> (if j = i then Some t else last_attempt i xs)
      | RecoveredOk j \<Rightarrow> (if j = i then None else last_attempt i xs)
      | _ \<Rightarrow> last_attempt i xs)"

definition tracked_attempts :: "agent_id \<Rightarrow> monitor_line list \<Rightarrow> (nat \<times> nat) option" where
  "tracked_attempts i xs = map_option (\<lambda>t. (attempts_since i xs, t)) (last_attempt i xs)"

lemma attempts_since_0: "last_attempt i xs = None \<Longrightarrow> attempts_since i xs = 0"
  by (induction xs) (auto split: monitor_line.splits if_splits)

text \<open>Whether a line may follow the older ones.\<close>

definition line_ok :: "heartbeat_config \<Rightarrow> monitor_line \<Rightarrow> monitor_line list \<Rightarrow> bool" where
  "line_ok config x older =
     (case x of
        MarkedTerminated i n \<Rightarrow>
          n = hc_max_recovery_attempts config \<and> attempts_since i older = hc_max_recovery_attempts config
      | Recovering i a t \<Rightarrow>
          a = Suc (attempts_since i older) \<and> a \<le> hc_max_recovery_attempts config
          \<and> (case last_attempt i older of Some t' \<Rightarrow> hc_recovery_cooldown_secs config \<le> t - t' | None \<Rightarrow> True)
      | RecoveredOk i \<Rightarrow> 0 < attempts_since i older
      | MarkedCrashed i \<Rightarrow> True)"

fun log_ok :: "heartbeat_config \<Rightarrow> monitor_line list \<Rightarrow> bool" where
  "log_ok config [] = True"
| "log_ok config (x # xs) = (line_ok config x xs \<and> log_ok config xs)"

lemma log_ok_line: "log_ok config (newer @ x # older) \<Longrightarrow> line_ok config x older"
  by (induction newer) auto

definition monitor_inv :: "heartbeat_config \<Rightarrow> monitor_state \<Rightarrow> bool" where
  "monitor_inv config st \<longleftrightarrow>
     (\<forall>i. st_get (hm_tracker st) i = tracked_attempts i (hm_log st)
        \<and> attempts_since i (hm_log st) \<le> hc_max_recovery_attempts config)
     \<and> log_ok config (hm_log st)"

lemma monitor_inv_cong:
  "hm_tracker st' = hm_tracker st \<Longrightarrow> hm_log st' = hm_log st \<Longrightarrow> monitor_inv config st' = monitor_inv config st"
  by (simp add: monitor_inv_def)

lemma failure_count_log:
  "monitor_inv config st \<Longrightarrow> failure_count i (hm_tracker st) = attempts_since i (hm_log st)"
  by (auto simp: monitor_inv_def failure_count_def tracked_attempts_def attempts_since_0 split: option.splits)

lemma can_attempt_log:
  "monitor_inv config st \<Longrightarrow> can_attempt now i c (hm_tracker st)
     \<longleftrightarrow> (case last_attempt i (hm_log st) of Some t' \<Rightarrow> c \<le> epoch_secs now - t' | None \<Rightarrow> True)"
  by (auto simp: monitor_inv_def can_attempt_def tracked_attempts_def split: option.splits)

lemma monitor_inv_crashed_line:
  "monitor_inv config st \<Longrightarrow> monitor_inv config (st\<lparr>hm_log := MarkedCrashed i # hm_log st\<rparr>)"
  by (simp add: monitor_inv_def tracked_attempts_def line_ok_def)

lemma recover_crashed_inv:
  assumes "monitor_inv config st"
  shows "monitor_inv config (recover_crashed config now s st)"
proof -
  define i where "i = hs_agent_id s"
  let ?n = "attempts_since i (hm_log st)"
  note inv = assms [unfolded monitor_inv_def]
  note count = failure_count_log [OF assms, of i]
  consider (spent) "?n \<ge> hc_max_recovery_attempts config"
    | (cooling) "?n < hc_max_recovery_attempts config"
        "\<not> can_attempt now i (hc_recovery_cooldown_secs config) (hm_tracker st)"
    | (attempt) "?n < hc_max_recovery_attempts config"
        "can_attempt now i (hc_recovery_cooldown_secs config) (hm_tracker st)"
    by linarith
  then show ?thesis
  proof cases
    case spent
    then have "?n = hc_max_recovery_attempts config" using inv by (meson le_antisym)
    then show ?thesis
      using inv spent count
      by (auto simp: recover_crashed_def Let_def i_def [symmetric] monitor_inv_def tracked_attempts_def line_ok_def
          split: option.splits)
  next
    case cooling
    then show ?thesis using assms count by (simp add: recover_crashed_def Let_def i_def [symmetric])
  next
    case attempt
    have "record_attempt now i (hm_tracker st) = (Suc ?n, st_put i (Suc ?n, epoch_secs now) (hm_tracker st))"
      using count by (simp add: record_attempt_def failure_count_def Let_def)
    then show ?thesis
      using inv attempt count can_attempt_log [OF assms, of now i]
      by (auto simp: recover_crashed_def Let_def i_def [symmetric] monitor_inv_def tracked_attempts_def line_ok_def
          al.get_put)
  qed
qed

lemma watch_running_inv:
  assumes "monitor_inv config st"
  shows "monitor_inv config (watch_running now s st)"
proof -
  define i where "i = hs_agent_id s"
  let ?ok = "hs_state s = Running \<and> \<not> hs_unresponsive s \<and> failure_count i (hm_tracker st) > 0"
  let ?st1 = "if ?ok then st\<lparr>hm_tracker := reset_recovery i (hm_tracker st), hm_log := RecoveredOk i # hm_log st\<rparr> else st"
  have st1: "monitor_inv config ?st1"
    using assms failure_count_log [OF assms, of i]
    by (auto simp: monitor_inv_def reset_recovery_def tracked_attempts_def line_ok_def al.get_del)
  show ?thesis
  proof (cases "hs_unresponsive s \<and> hs_state s = Running")
    case True
    define gate where "gate = allow_notify now i (hm_gate st)"
    have "hm_tracker (watch_running now s st) = hm_tracker st
        \<and> hm_log (watch_running now s st) = MarkedCrashed i # hm_log st"
      using True by (cases gate; cases "fst gate")
        (auto simp: gate_def watch_running_def Let_def i_def)
    then show ?thesis using monitor_inv_cong monitor_inv_crashed_line [OF assms, of i]
      by (simp add: monitor_inv_def)
  next
    case False
    then have "watch_running now s st = ?st1" by (auto simp: watch_running_def Let_def i_def)
    then show ?thesis using st1 by simp
  qed
qed

lemma handle_status_inv [inv_intros]:
  "monitor_inv config st \<Longrightarrow> monitor_inv config (handle_status config now s st)"
  by (auto simp: handle_status_def Let_def intro!: recover_crashed_inv watch_running_inv
      cong: if_cong) (simp_all add: monitor_inv_def)

interpretation statuses: run_invariant "handle_status config now" "\<lambda>_. True" "monitor_inv config" for config now
  by unfold_locales (rule handle_status_inv)

text \<open>The rest of the kernel may change the registry and the phases as it likes between two ticks.\<close>

datatype monitor_op = Tick time | Elsewhere agent_registry turn_phases

fun monitor_step :: "heartbeat_config \<Rightarrow> turn_watchdog_settings \<Rightarrow> monitor_op \<Rightarrow> monitor_state \<Rightarrow> monitor_state" where
  "monitor_step config tw (Tick now) st = monitor_tick config tw now st"
| "monitor_step config tw (Elsewhere reg phases) st = st\<lparr>hm_registry := reg, hm_phases := phases\<rparr>"

definition monitor_start :: monitor_state where
  "monitor_start = \<lparr>hm_registry = with_agent_home [], hm_phases = [], hm_tracker = [],
     hm_gate = notify_gate_new NOTIFY_MIN_INTERVAL_SECS, hm_published = [], hm_log = []\<rparr>"

lemma monitor_tick_inv: "monitor_inv config st \<Longrightarrow> monitor_inv config (monitor_tick config tw now st)"
  by (auto simp: monitor_tick_def check_agents_def Let_def list_all_def monitor_inv_def [of _ "_\<lparr>hm_phases := _\<rparr>"]
      monitor_inv_def [of _ st] intro!: statuses.run_inv)

interpretation monitor: run_from "monitor_step config tw" "\<lambda>_. True" "monitor_inv config" monitor_start
  for config tw
proof unfold_locales
  show "monitor_inv config (monitor_step config tw x s)" if "monitor_inv config s" for x s
    using that by (cases x) (auto simp: monitor_tick_inv, simp add: monitor_inv_def)
qed (simp add: monitor_inv_def monitor_start_def tracked_attempts_def)

section \<open>One agent at a time\<close>

text \<open>What the monitor knows of one agent: handling the status of another leaves it alone.\<close>

definition line_agent :: "monitor_line \<Rightarrow> agent_id" where
  "line_agent x = (case x of MarkedTerminated i _ \<Rightarrow> i | Recovering i _ _ \<Rightarrow> i | RecoveredOk i \<Rightarrow> i | MarkedCrashed i \<Rightarrow> i)"

lemma line_agent_simps [simp]:
  "line_agent (MarkedTerminated i n) = i" "line_agent (Recovering i a t) = i" "line_agent (RecoveredOk i) = i"
  "line_agent (MarkedCrashed i) = i"
  by (simp_all add: line_agent_def)

type_synonym agent_view = "agent_entry option \<times> (nat \<times> nat) option \<times> monitor_line list"

definition agent_view :: "agent_id \<Rightarrow> monitor_state \<Rightarrow> agent_view" where
  "agent_view i st = (rg_get i (hm_registry st), st_get (hm_tracker st) i, filter (\<lambda>x. line_agent x = i) (hm_log st))"

lemma rg_get_set_state:
  "rg_get j (snd (set_state now i state reg)) =
     (if j = i then map_option (\<lambda>e. e\<lparr>en_state := state, en_last_active := now\<rparr>) (rg_get j reg) else rg_get j reg)"
  by (auto simp: set_state_def update_entry_def rg_get_def al.get_put split: option.splits)

lemma handle_status_effect:
  "hm_phases (handle_status config now s st) = hm_phases st"
  "hs_agent_id s \<noteq> i \<Longrightarrow> agent_view i (handle_status config now s st) = agent_view i st"
  by (auto simp: handle_status_def recover_crashed_def watch_running_def agent_view_def rg_get_set_state Let_def
      record_attempt_def reset_recovery_def al.get_put al.get_del split: option.splits prod.splits bool.splits)

text \<open>The effect on the agent itself is determined by what the monitor knows of it.\<close>

definition view_quiet :: "time \<Rightarrow> agent_view \<Rightarrow> bool" where
  "view_quiet now v =
     (case fst v of
        None \<Rightarrow> False
      | Some e \<Rightarrow>
          (case mf_autonomous (en_manifest e) of
             None \<Rightarrow> False
           | Some a \<Rightarrow> (case quiet_hours a of Some q \<Rightarrow> is_quiet_hours now q | None \<Rightarrow> False)))"

fun view_step :: "heartbeat_config \<Rightarrow> time \<Rightarrow> heartbeat_status \<Rightarrow> agent_view \<Rightarrow> agent_view" where
  "view_step config now s (e, tr, lines) =
     (let i = hs_agent_id s; n = (case tr of Some (k, _) \<Rightarrow> k | None \<Rightarrow> 0);
          put = (\<lambda>state. map_option (\<lambda>e. e\<lparr>en_state := state, en_last_active := now\<rparr>) e)
      in if view_quiet now (e, tr, lines) then (e, tr, lines)
         else if hs_state s = Crashed then
           (if n \<ge> hc_max_recovery_attempts config then
              (if map_option en_state e = Some Crashed then (put Terminated, tr, MarkedTerminated i n # lines)
               else (e, tr, lines))
            else if (case tr of Some (_, t) \<Rightarrow> epoch_secs now - t < hc_recovery_cooldown_secs config | None \<Rightarrow> False)
              then (e, tr, lines)
            else (put Running, Some (n + 1, epoch_secs now), Recovering i (n + 1) (epoch_secs now) # lines))
         else if hs_state s = Running \<and> hs_unresponsive s then (put Crashed, tr, MarkedCrashed i # lines)
         else if hs_state s = Running \<and> n > 0 then (e, None, RecoveredOk i # lines)
         else (e, tr, lines))"

lemma quiet_of_view: "is_quiet_agent now i (hm_registry st) = view_quiet now (agent_view i st)"
  by (simp add: is_quiet_agent_def view_quiet_def agent_view_def)

lemma recover_crashed_view:
  "\<not> view_quiet now (agent_view (hs_agent_id s) st) \<Longrightarrow> hs_state s = Crashed \<Longrightarrow>
     agent_view (hs_agent_id s) (recover_crashed config now s st)
       = view_step config now s (agent_view (hs_agent_id s) st)"
  by (auto simp: recover_crashed_def agent_view_def rg_get_set_state Let_def failure_count_def can_attempt_def
      record_attempt_def al.get_put split: option.splits prod.splits)

lemma watch_running_view:
  "\<not> view_quiet now (agent_view (hs_agent_id s) st) \<Longrightarrow> hs_state s \<noteq> Crashed \<Longrightarrow>
     agent_view (hs_agent_id s) (watch_running now s st)
       = view_step config now s (agent_view (hs_agent_id s) st)"
  by (auto simp: watch_running_def agent_view_def rg_get_set_state Let_def failure_count_def
      reset_recovery_def al.get_del split: option.splits prod.splits bool.splits)

lemma handle_status_view:
  "agent_view (hs_agent_id s) (handle_status config now s st) = view_step config now s (agent_view (hs_agent_id s) st)"
proof -
  define st1 where "st1 = (if hs_state s = Running \<and> \<not> hs_unresponsive s
      then st\<lparr>hm_gate := gate_clear (hs_agent_id s) (hm_gate st)\<rparr> else st)"
  have same: "agent_view i st1 = agent_view i st" for i by (simp add: st1_def agent_view_def)
  have "handle_status config now s st =
      (if view_quiet now (agent_view (hs_agent_id s) st) then st1
       else if hs_state s = Crashed then recover_crashed config now s st1 else watch_running now s st1)"
    using same [of "hs_agent_id s"] by (simp add: handle_status_def st1_def [symmetric] Let_def quiet_of_view)
  moreover have "view_quiet now v \<Longrightarrow> view_step config now s v = v" for v by (cases v) simp
  ultimately show ?thesis
    using recover_crashed_view [of now s st1 config] watch_running_view [of now s st1 config] same by simp
qed

lemma fold_statuses_view:
  assumes "distinct (map hs_agent_id ss)"
  shows "agent_view i (fold (handle_status config now) ss st) =
    (case find (\<lambda>s. hs_agent_id s = i) ss of None \<Rightarrow> agent_view i st | Some s \<Rightarrow> view_step config now s (agent_view i st))"
  using assms
proof (induction ss arbitrary: st)
  case (Cons s ss)
  show ?case
  proof (cases "hs_agent_id s = i")
    case True
    then have "find (\<lambda>s. hs_agent_id s = i) ss = None"
      using Cons.prems by (simp add: find_None_iff) (metis image_eqI)
    then show ?thesis using Cons True handle_status_view [of s] by auto
  next
    case False
    then show ?thesis using Cons handle_status_effect(2) [of s i] by (simp split: option.splits)
  qed
qed simp

lemma fold_statuses_phases: "hm_phases (fold (handle_status config now) ss st) = hm_phases st"
  by (induction ss arbitrary: st) (simp_all add: handle_status_effect)

lemma check_agent_id: "check_agent config phases tw now e = Some s \<Longrightarrow> hs_agent_id s = en_id e \<and> hs_state s = en_state e"
  by (auto simp: check_agent_def idle_status_def status_of_def Let_def split: if_splits option.splits)

lemma find_map_filter:
  assumes "\<And>e s. f e = Some s \<Longrightarrow> hs_agent_id s = en_id e" "distinct (map fst m)"
    "\<forall>(j, e) \<in> set m. en_id e = j"
  shows "find (\<lambda>s. hs_agent_id s = i) (List.map_filter f (map snd m)) = Option.bind (st_get m i) f"
  using assms(2,3)
proof (induction m)
  case (Cons x m)
  obtain j e where x: "x = (j, e)" "en_id e = j" using Cons.prems by (cases x) auto
  then have "st_get m j = None" using Cons.prems by (simp add: map_of_eq_None_iff)
  then show ?case using Cons x assms(1) [of e] by (auto simp: map_filter_simps split: option.splits)
qed (simp add: map_filter_simps)

lemma distinct_map_filter:
  assumes "\<And>e s. f e = Some s \<Longrightarrow> hs_agent_id s = en_id e" "distinct (map fst m)"
    "\<forall>(j, e) \<in> set m. en_id e = j"
  shows "distinct (map hs_agent_id (List.map_filter f (map snd m)))"
  using assms(2,3)
proof (induction m)
  case (Cons x m)
  obtain j e where x: "x = (j, e)" "en_id e = j" using Cons.prems by (cases x) auto
  have "hs_agent_id ` set (List.map_filter f (map snd m)) \<subseteq> fst ` set m"
    using Cons.prems(2) assms(1) by (force simp: List.map_filter_def)
  then show ?case using Cons x assms(1) [of e] by (auto simp: map_filter_simps split: option.splits)
qed (simp add: map_filter_simps)

lemma check_agents_find:
  assumes "reg_wf reg"
  shows "find (\<lambda>s. hs_agent_id s = i) (fst (check_agents reg config phases tw now))
      = Option.bind (rg_get i reg) (check_agent config (running_phases reg phases) tw now)"
    and "distinct (map hs_agent_id (fst (check_agents reg config phases tw now)))"
proof -
  have d: "distinct (map fst (rg_agents reg))" using reg_wfD(1) [OF assms] by (simp add: st_wf_def)
  have k: "\<forall>(j, e) \<in> set (rg_agents reg). en_id e = j"
    using d reg_wfD(2) [OF assms] by auto
  note * = find_map_filter [OF _ d k] distinct_map_filter [OF _ d k]
  show "find (\<lambda>s. hs_agent_id s = i) (fst (check_agents reg config phases tw now))
      = Option.bind (rg_get i reg) (check_agent config (running_phases reg phases) tw now)"
    by (simp add: check_agents_def rg_list_def rg_get_def Let_def *(1) [OF check_agent_id [THEN conjunct1]])
  show "distinct (map hs_agent_id (fst (check_agents reg config phases tw now)))"
    by (simp add: check_agents_def rg_list_def Let_def *(2) [OF check_agent_id [THEN conjunct1]])
qed

lemma running_phases_get:
  "st_get (running_phases reg phases) i =
     (case rg_get i reg of Some e \<Rightarrow> if en_state e = Running then st_get phases i else None | None \<Rightarrow> None)"
  by (induction phases) (auto simp: running_phases_def split: option.splits)

lemma set_state_wf [inv_intros]: "reg_wf reg \<Longrightarrow> reg_wf (snd (set_state now i state reg))"
  unfolding set_state_def by (rule update_entry_wf) auto

lemma handle_status_wf: "reg_wf (hm_registry st) \<Longrightarrow> reg_wf (hm_registry (handle_status config now s st))"
  by (auto simp: handle_status_def recover_crashed_def watch_running_def Let_def set_state_wf
      split: option.splits prod.splits bool.splits)

interpretation wf_statuses: run_invariant "handle_status config now" "\<lambda>_. True" "\<lambda>st. reg_wf (hm_registry st)"
  for config now
  by unfold_locales (rule handle_status_wf)

lemma tick_unfold:
  "monitor_tick config tw now st =
     fold (handle_status config now) (fst (check_agents (hm_registry st) config (hm_phases st) tw now))
       (st\<lparr>hm_phases := running_phases (hm_registry st) (hm_phases st)\<rparr>)"
  by (simp add: monitor_tick_def check_agents_def Let_def)

lemma monitor_tick_wf: "reg_wf (hm_registry st) \<Longrightarrow> reg_wf (hm_registry (monitor_tick config tw now st))"
  unfolding tick_unfold by (rule wf_statuses.run_inv) (auto simp: list_all_def)

lemma monitor_tick_phases:
  "st_get (hm_phases (monitor_tick config tw now st)) i =
     (case rg_get i (hm_registry st) of
        Some e \<Rightarrow> if en_state e = Running then st_get (hm_phases st) i else None | None \<Rightarrow> None)"
  by (simp add: tick_unfold fold_statuses_phases running_phases_get)

lemma monitor_tick_view:
  assumes "reg_wf (hm_registry st)"
  shows "agent_view i (monitor_tick config tw now st) =
    (case Option.bind (rg_get i (hm_registry st))
            (check_agent config (running_phases (hm_registry st) (hm_phases st)) tw now) of
       None \<Rightarrow> agent_view i st
     | Some s \<Rightarrow> view_step config now s (agent_view i st))"
proof -
  have "agent_view i (st\<lparr>hm_phases := ph\<rparr>) = agent_view i st" for ph by (simp add: agent_view_def)
  then show ?thesis
    by (simp add: tick_unfold fold_statuses_view [OF check_agents_find(2) [OF assms]]
        check_agents_find(1) [OF assms] split: option.splits)
qed

section \<open>A hung agent\<close>

text \<open>Ticks at the monitor's interval with nothing else happening to the agents.\<close>

definition tick_time :: "heartbeat_config \<Rightarrow> time \<Rightarrow> nat \<Rightarrow> time" where
  "tick_time config t0 n = t0 + 1000 * int (hc_check_interval_secs config) * int n"

definition unattended ::
  "heartbeat_config \<Rightarrow> turn_watchdog_settings \<Rightarrow> time \<Rightarrow> nat \<Rightarrow> monitor_state \<Rightarrow> monitor_state" where
  "unattended config tw t0 k st = fold (\<lambda>n. monitor_tick config tw (tick_time config t0 n)) [0..<k] st"

lemma unattended_simps:
  "unattended config tw t0 0 st = st"
  "unattended config tw t0 (Suc k) st = monitor_tick config tw (tick_time config t0 k) (unattended config tw t0 k st)"
  by (simp_all add: unattended_def)

lemma unattended_wf: "reg_wf (hm_registry st) \<Longrightarrow> reg_wf (hm_registry (unattended config tw t0 k st))"
  by (induction k) (simp_all add: unattended_simps monitor_tick_wf)

definition sensible_config :: "heartbeat_config \<Rightarrow> bool" where
  "sensible_config config \<longleftrightarrow> 0 < hc_max_recovery_attempts config \<and> 0 < hc_check_interval_secs config
     \<and> hc_check_interval_secs config \<le> hc_default_timeout_secs config \<and> hc_default_timeout_secs config < 2 ^ 63"

lemma timeout_covers_interval:
  assumes "sensible_config config"
  shows "int (hc_check_interval_secs config) \<le> heartbeat_timeout config m"
proof -
  have "int (hc_default_timeout_secs config) = as_i64 (hc_default_timeout_secs config)"
    using assms by (simp add: sensible_config_def as_i64_def Let_def)
  also have "\<dots> \<le> heartbeat_timeout config m"
    unfolding heartbeat_timeout_def Let_def by linarith
  finally show ?thesis using assms unfolding sensible_config_def by linarith
qed

definition working_agent :: "agent_manifest \<Rightarrow> bool" where
  "working_agent m \<longleftrightarrow> mf_schedule m \<noteq> Reactive
     \<and> (case mf_autonomous m of Some a \<Rightarrow> quiet_hours a = None | None \<Rightarrow> True)"

lemma working_not_quiet:
  "working_agent (en_manifest e) \<Longrightarrow> \<not> view_quiet now (Some e, tr, lines)"
  by (auto simp: working_agent_def view_quiet_def split: option.splits)

text \<open>
  The three stages of such an agent: at work with a clean record, marked as crashed, and restarted at
  the last tick with one attempt on record.
\<close>

datatype stage = AtWork | Down | Restarted

definition in_stage :: "time \<Rightarrow> agent_manifest \<Rightarrow> stage \<Rightarrow> agent_entry option \<times> (nat \<times> nat) option \<Rightarrow>
    agent_loop_phase_state option \<Rightarrow> bool" where
  "in_stage prev m s v ph \<longleftrightarrow>
     (case v of
        (Some e, tr) \<Rightarrow>
          en_manifest e = m
          \<and> (case s of
               AtWork \<Rightarrow> en_state e = Running \<and> tr = None
             | Down \<Rightarrow> en_state e = Crashed \<and> tr = None
             | Restarted \<Rightarrow> en_state e = Running \<and> (\<exists>t. tr = Some (1, t)) \<and> ph = None
                 \<and> (en_last_active e = prev \<or> never_active e))
      | (None, _) \<Rightarrow> False)"

definition stage_of :: "agent_id \<Rightarrow> time \<Rightarrow> agent_manifest \<Rightarrow> stage \<Rightarrow> monitor_state \<Rightarrow> bool" where
  "stage_of i prev m s st \<longleftrightarrow>
     in_stage prev m s (rg_get i (hm_registry st), st_get (hm_tracker st) i) (st_get (hm_phases st) i)"

lemma check_crashed:
  "en_state e = Crashed \<Longrightarrow> check_agent config phases tw now e = Some (status_of e (num_seconds (now - en_last_active e)) True)"
  by (simp add: check_agent_def idle_status_def Let_def)

lemma check_restarted:
  assumes "sensible_config config" "working_agent (en_manifest e)" "en_state e = Running"
    and "st_get phases (en_id e) = None"
    and "en_last_active e = now - 1000 * int (hc_check_interval_secs config) \<or> never_active e"
  shows "check_agent config phases tw now e = None \<and> never_active e
    \<or> check_agent config phases tw now e = Some (status_of e (num_seconds (now - en_last_active e)) False)"
proof (cases "never_active e")
  case True
  then show ?thesis
    using assms by (simp add: check_agent_def idle_status_def turn_phase_stall_secs_def working_agent_def Let_def)
next
  case False
  then have "num_seconds (now - en_last_active e) = int (hc_check_interval_secs config)"
    using assms(5) by (simp add: num_seconds_def)
  then show ?thesis
    using False assms timeout_covers_interval [OF assms(1), of "en_manifest e"]
    by (simp add: check_agent_def idle_status_def turn_phase_stall_secs_def working_agent_def Let_def)
qed

lemma agent_viewD:
  "agent_view i st = (e, tr, lines) \<Longrightarrow> rg_get i (hm_registry st) = e \<and> st_get (hm_tracker st) i = tr
     \<and> filter (\<lambda>x. line_agent x = i) (hm_log st) = lines"
  by (simp add: agent_view_def)

lemma status_of_simps [simp]:
  "hs_agent_id (status_of e n b) = en_id e" "hs_state (status_of e n b) = en_state e"
  "hs_unresponsive (status_of e n b) = b" "hs_inactive_secs (status_of e n b) = n"
  by (simp_all add: status_of_def)

lemma down_tick:
  assumes "sensible_config config" "working_agent m" "reg_wf (hm_registry st)" "stage_of i prev m Down st"
  shows "stage_of i now m Restarted (monitor_tick config tw now st)
    \<and> rg_get i (hm_registry (monitor_tick config tw now st))
        = map_option (\<lambda>e. e\<lparr>en_state := Running, en_last_active := now\<rparr>) (rg_get i (hm_registry st))
    \<and> filter (\<lambda>x. line_agent x = i) (hm_log (monitor_tick config tw now st))
        = Recovering i 1 (epoch_secs now) # filter (\<lambda>x. line_agent x = i) (hm_log st)"
proof -
  obtain e where e: "rg_get i (hm_registry st) = Some e" "en_manifest e = m" "en_state e = Crashed"
    "st_get (hm_tracker st) i = None"
    using assms(4) by (auto simp: stage_of_def in_stage_def split: option.splits)
  have i: "en_id e = i" using reg_wfD(2) [OF assms(3)] e(1) by (simp add: rg_get_def)
  have v0: "agent_view i st = (Some e, None, filter (\<lambda>x. line_agent x = i) (hm_log st))"
    using e by (simp add: agent_view_def)
  have "agent_view i (monitor_tick config tw now st) =
      (Some (e\<lparr>en_state := Running, en_last_active := now\<rparr>), Some (1, epoch_secs now),
       Recovering i 1 (epoch_secs now) # filter (\<lambda>x. line_agent x = i) (hm_log st))"
    using assms(1,2) working_not_quiet [of e] e i v0
    by (simp add: monitor_tick_view [OF assms(3)] check_crashed sensible_config_def)
  note v = agent_viewD [OF this]
  then show ?thesis
    using e by (simp add: stage_of_def in_stage_def monitor_tick_phases)
qed

lemma restarted_tick:
  assumes "sensible_config config" "working_agent m" "reg_wf (hm_registry st)"
    and "stage_of i (now - 1000 * int (hc_check_interval_secs config)) m Restarted st"
  shows "rg_get i (hm_registry (monitor_tick config tw now st)) = rg_get i (hm_registry st)"
    and "st_get (hm_phases (monitor_tick config tw now st)) i = None"
    and "stage_of i now m Restarted (monitor_tick config tw now st) \<and> never_active (the (rg_get i (hm_registry st)))
         \<and> filter (\<lambda>x. line_agent x = i) (hm_log (monitor_tick config tw now st)) = filter (\<lambda>x. line_agent x = i) (hm_log st)
       \<or> stage_of i now m AtWork (monitor_tick config tw now st)
         \<and> filter (\<lambda>x. line_agent x = i) (hm_log (monitor_tick config tw now st))
             = RecoveredOk i # filter (\<lambda>x. line_agent x = i) (hm_log st)"
proof -
  obtain e t where e: "rg_get i (hm_registry st) = Some e" "en_manifest e = m" "en_state e = Running"
    "st_get (hm_tracker st) i = Some (1, t)" "st_get (hm_phases st) i = None"
    "en_last_active e = now - 1000 * int (hc_check_interval_secs config) \<or> never_active e"
    using assms(4) by (auto simp: stage_of_def in_stage_def split: option.splits)
  have i: "en_id e = i" using reg_wfD(2) [OF assms(3)] e(1) by (simp add: rg_get_def)
  let ?ph = "running_phases (hm_registry st) (hm_phases st)"
  have none: "st_get ?ph (en_id e) = None" using e i by (simp add: running_phases_get)
  show ph: "st_get (hm_phases (monitor_tick config tw now st)) i = None"
    using e by (simp add: monitor_tick_phases)
  have w: "working_agent (en_manifest e)" using assms(2) e(2) by simp
  have v0: "agent_view i st = (Some e, Some (1, t), filter (\<lambda>x. line_agent x = i) (hm_log st))"
    using e by (simp add: agent_view_def)
  consider (idle) "check_agent config ?ph tw now e = None" "never_active e"
    | (well) "check_agent config ?ph tw now e = Some (status_of e (num_seconds (now - en_last_active e)) False)"
    using check_restarted [OF assms(1) w e(3) none e(6), of tw] by fast
  then have "rg_get i (hm_registry (monitor_tick config tw now st)) = rg_get i (hm_registry st)
    \<and> (stage_of i now m Restarted (monitor_tick config tw now st) \<and> never_active (the (rg_get i (hm_registry st)))
         \<and> filter (\<lambda>x. line_agent x = i) (hm_log (monitor_tick config tw now st)) = filter (\<lambda>x. line_agent x = i) (hm_log st)
       \<or> stage_of i now m AtWork (monitor_tick config tw now st)
         \<and> filter (\<lambda>x. line_agent x = i) (hm_log (monitor_tick config tw now st))
             = RecoveredOk i # filter (\<lambda>x. line_agent x = i) (hm_log st))"
  proof cases
    case idle
    then have "agent_view i (monitor_tick config tw now st) = agent_view i st"
      using e(1) by (simp add: monitor_tick_view [OF assms(3)])
    then show ?thesis using idle e ph by (auto simp: agent_view_def stage_of_def in_stage_def)
  next
    case well
    then have "agent_view i (monitor_tick config tw now st) =
        (Some e, None, RecoveredOk i # filter (\<lambda>x. line_agent x = i) (hm_log st))"
      using e i working_not_quiet [OF w] v0 by (simp add: monitor_tick_view [OF assms(3)])
    note v = agent_viewD [OF this]
    then show ?thesis using e by (simp add: stage_of_def in_stage_def)
  qed
  then show "rg_get i (hm_registry (monitor_tick config tw now st)) = rg_get i (hm_registry st)"
    and "stage_of i now m Restarted (monitor_tick config tw now st) \<and> never_active (the (rg_get i (hm_registry st)))
         \<and> filter (\<lambda>x. line_agent x = i) (hm_log (monitor_tick config tw now st)) = filter (\<lambda>x. line_agent x = i) (hm_log st)
       \<or> stage_of i now m AtWork (monitor_tick config tw now st)
         \<and> filter (\<lambda>x. line_agent x = i) (hm_log (monitor_tick config tw now st))
             = RecoveredOk i # filter (\<lambda>x. line_agent x = i) (hm_log st)"
    by blast+
qed

definition is_recovering :: "agent_id \<Rightarrow> monitor_line \<Rightarrow> bool" where
  "is_recovering i x = (case x of Recovering j _ _ \<Rightarrow> j = i | _ \<Rightarrow> False)"

definition recoveries :: "agent_id \<Rightarrow> monitor_state \<Rightarrow> nat" where
  "recoveries i st = length (filter (is_recovering i) (hm_log st))"

lemma recoveries_agent_lines:
  "recoveries i st = length (filter (is_recovering i) (filter (\<lambda>x. line_agent x = i) (hm_log st)))"
proof -
  have "is_recovering i x = (line_agent x = i \<and> is_recovering i x)" for x
    by (cases x) (auto simp: is_recovering_def)
  then show ?thesis by (simp add: recoveries_def)
qed

lemma is_recovering_simps [simp]:
  "is_recovering i (Recovering j a t) = (j = i)" "\<not> is_recovering i (RecoveredOk j)"
  "\<not> is_recovering i (MarkedCrashed j)" "\<not> is_recovering i (MarkedTerminated j n)"
  by (simp_all add: is_recovering_def)

text \<open>Past every limit that applies to a running agent.\<close>

definition phase_limit :: "turn_watchdog_settings \<Rightarrow> monitored_loop_phase \<Rightarrow> nat" where
  "phase_limit tw kind = (case kind of PhaseThinking \<Rightarrow> tw_thinking_secs tw | PhaseToolUse \<Rightarrow> tw_tool_use_secs tw
     | PhaseStreaming \<Rightarrow> tw_streaming_secs tw)"

definition overdue ::
  "heartbeat_config \<Rightarrow> turn_watchdog_settings \<Rightarrow> time \<Rightarrow> agent_entry \<Rightarrow> agent_loop_phase_state option \<Rightarrow> bool" where
  "overdue config tw now e ph \<longleftrightarrow>
     num_seconds (now - en_last_active e) > heartbeat_timeout config (en_manifest e)
     \<and> (case ph of Some p \<Rightarrow> num_seconds (now - ph_since p) > as_i64 (phase_limit tw (ph_kind p)) | None \<Rightarrow> True)"

lemma check_overdue:
  assumes "overdue config tw now e (st_get phases (en_id e))" "en_state e = Running"
    "working_agent (en_manifest e)" "\<not> never_active e"
  shows "\<exists>n. check_agent config phases tw now e = Some (status_of e n True)"
proof (cases "turn_phase_stall_secs phases tw (en_id e) now")
  case None
  then have "\<not> (tw_enabled tw \<and> st_get phases (en_id e) \<noteq> None)"
    using assms(1)
    by (auto simp: turn_phase_stall_secs_def overdue_def phase_limit_def Let_def split: option.splits if_splits)
  then show ?thesis
    using None assms by (auto simp: check_agent_def idle_status_def overdue_def working_agent_def Let_def)
next
  case (Some n)
  then show ?thesis using assms(2) by (auto simp: check_agent_def)
qed

lemma at_work_tick:
  assumes "working_agent m" "reg_wf (hm_registry st)" "stage_of i prev m AtWork st"
    and "rg_get i (hm_registry st) = Some e"
  shows "stage_of i now m AtWork (monitor_tick config tw now st)
      \<and> rg_get i (hm_registry (monitor_tick config tw now st)) = Some e
      \<and> st_get (hm_phases (monitor_tick config tw now st)) i = st_get (hm_phases st) i
      \<and> recoveries i (monitor_tick config tw now st) = recoveries i st
      \<and> \<not> (overdue config tw now e (st_get (hm_phases st) i) \<and> \<not> never_active e)
    \<or> stage_of i now m Down (monitor_tick config tw now st)
      \<and> rg_get i (hm_registry (monitor_tick config tw now st)) = Some (e\<lparr>en_state := Crashed, en_last_active := now\<rparr>)
      \<and> recoveries i (monitor_tick config tw now st) = recoveries i st"
proof -
  have e: "en_manifest e = m" "en_state e = Running" "st_get (hm_tracker st) i = None"
    using assms(3,4) by (auto simp: stage_of_def in_stage_def split: option.splits)
  have i: "en_id e = i" using reg_wfD(2) [OF assms(2)] assms(4) by (simp add: rg_get_def)
  have v0: "agent_view i st = (Some e, None, filter (\<lambda>x. line_agent x = i) (hm_log st))"
    using e assms(4) by (simp add: agent_view_def)
  let ?ph = "running_phases (hm_registry st) (hm_phases st)"
  let ?st' = "monitor_tick config tw now st"
  have ph: "st_get ?ph (en_id e) = st_get (hm_phases st) i" "st_get (hm_phases ?st') i = st_get (hm_phases st) i"
    using assms(4) e i by (simp_all add: running_phases_get monitor_tick_phases)
  show ?thesis
  proof (cases "\<exists>s. check_agent config ?ph tw now e = Some s \<and> hs_unresponsive s")
    case True
    then obtain s where s: "check_agent config ?ph tw now e = Some s" "hs_unresponsive s" by blast
    then have "agent_view i ?st' = (Some (e\<lparr>en_state := Crashed, en_last_active := now\<rparr>), None,
        MarkedCrashed i # filter (\<lambda>x. line_agent x = i) (hm_log st))"
      using v0 check_agent_id [OF s(1)] e i assms(1,4) working_not_quiet [of e]
      by (simp add: monitor_tick_view [OF assms(2)])
    note v = agent_viewD [OF this]
    then show ?thesis using e by (simp add: stage_of_def in_stage_def recoveries_agent_lines)
  next
    case False
    then have late: "\<not> (overdue config tw now e (st_get (hm_phases st) i) \<and> \<not> never_active e)"
      using check_overdue [of config tw now e ?ph] ph(1) e assms(1) by fastforce
    have "agent_view i ?st' = agent_view i st"
    proof (cases "check_agent config ?ph tw now e")
      case None
      then show ?thesis using assms(4) by (simp add: monitor_tick_view [OF assms(2)])
    next
      case (Some s)
      then show ?thesis using False v0 check_agent_id [OF Some] e assms(4)
        by (simp add: monitor_tick_view [OF assms(2)] Let_def)
    qed
    then have v: "agent_view i ?st' = (Some e, None, filter (\<lambda>x. line_agent x = i) (hm_log st))" using v0 by simp
    then show ?thesis using agent_viewD [OF v] e ph late
      by (simp add: stage_of_def in_stage_def recoveries_agent_lines)
  qed
qed

lemma tick_time_Suc: "tick_time config t0 k = tick_time config t0 (Suc k) - 1000 * int (hc_check_interval_secs config)"
  by (simp add: tick_time_def algebra_simps)

lemma tick_time_mono: "k \<le> n \<Longrightarrow> tick_time config t0 k \<le> tick_time config t0 n"
  by (auto simp: tick_time_def intro: mult_left_mono)

lemma num_seconds_ge: "d div 1000 \<le> num_seconds d"
  by (simp add: num_seconds_def) linarith

lemma num_seconds_mono: "d \<le> d' \<Longrightarrow> num_seconds d \<le> num_seconds d'"
proof -
  assume *: "d \<le> d'"
  consider "0 \<le> d" | "d < 0" "d' < 0" | "d < 0" "0 \<le> d'" by linarith
  then show ?thesis
  proof cases
    case 1
    then show ?thesis using * by (simp add: num_seconds_def zdiv_mono1)
  next
    case 2
    then have "(- d') div 1000 \<le> (- d) div 1000" using * by (intro zdiv_mono1) auto
    then show ?thesis using 2 by (simp add: num_seconds_def)
  next
    case 3
    then have "0 \<le> (- d) div 1000" "0 \<le> d' div 1000" by simp_all
    then show ?thesis using 3 by (simp add: num_seconds_def)
  qed
qed

lemma active_later:
  "\<not> never_active e \<Longrightarrow> en_last_active e \<le> t \<Longrightarrow> \<not> never_active (e\<lparr>en_state := s, en_last_active := t\<rparr>)"
  using num_seconds_mono [of "en_last_active e - en_created_at e" "t - en_created_at e"]
  by (simp add: never_active_def)

lemma eventually_elapsed:
  assumes "0 < hc_check_interval_secs config"
  shows "\<exists>N. \<forall>n \<ge> N. b < num_seconds (tick_time config t0 n - a)"
proof (intro exI allI impI)
  fix n
  let ?q = "(t0 - a) div 1000"
  assume "n \<ge> nat (b - ?q + 1)"
  then have n: "int n > b - ?q" by linarith
  have "tick_time config t0 n - a = t0 - a + 1000 * (int (hc_check_interval_secs config) * int n)"
    by (simp add: tick_time_def)
  then have "(tick_time config t0 n - a) div 1000 = int (hc_check_interval_secs config) * int n + ?q" by simp
  moreover have "1 * int n \<le> int (hc_check_interval_secs config) * int n"
    using assms by (intro mult_right_mono) auto
  ultimately show "b < num_seconds (tick_time config t0 n - a)"
    using n num_seconds_ge [of "tick_time config t0 n - a"] by linarith
qed

lemma eventually_overdue:
  assumes "0 < hc_check_interval_secs config"
  shows "\<exists>N. \<forall>n \<ge> N. overdue config tw (tick_time config t0 n) e ph"
proof -
  obtain N1 where N1: "\<forall>n \<ge> N1. heartbeat_timeout config (en_manifest e) < num_seconds (tick_time config t0 n - en_last_active e)"
    using eventually_elapsed [OF assms] by meson
  show ?thesis
  proof (cases ph)
    case None
    then show ?thesis using N1 by (auto simp: overdue_def)
  next
    case (Some p)
    obtain N2 where "\<forall>n \<ge> N2. as_i64 (phase_limit tw (ph_kind p)) < num_seconds (tick_time config t0 n - ph_since p)"
      using eventually_elapsed [OF assms] by meson
    then have "\<forall>n \<ge> max N1 N2. overdue config tw (tick_time config t0 n) e ph"
      using N1 Some by (auto simp: overdue_def)
    then show ?thesis by blast
  qed
qed

definition staged :: "heartbeat_config \<Rightarrow> turn_watchdog_settings \<Rightarrow> time \<Rightarrow> monitor_state \<Rightarrow> agent_id
    \<Rightarrow> agent_manifest \<Rightarrow> nat \<Rightarrow> stage \<Rightarrow> bool" where
  "staged config tw t0 st i m k s =
     stage_of i (tick_time config t0 k - 1000 * int (hc_check_interval_secs config)) m s (unattended config tw t0 k st)"

lemma stage_entry: "stage_of i prev m s st \<Longrightarrow> \<exists>e. rg_get i (hm_registry st) = Some e"
  by (auto simp: stage_of_def in_stage_def split: option.splits)

lemma staged_Suc:
  assumes "sensible_config config" "working_agent m" "reg_wf (hm_registry st)" "staged config tw t0 st i m k s"
  shows "\<exists>s'. staged config tw t0 st i m (Suc k) s'"
proof -
  note wf = unattended_wf [OF assms(3), of config tw t0 k]
  note st = assms(4) [unfolded staged_def]
  have "\<exists>s'. stage_of i (tick_time config t0 k) m s' (unattended config tw t0 (Suc k) st)"
  proof (cases s)
    case AtWork
    then show ?thesis
      using at_work_tick [OF assms(2) wf, where config = config and tw = tw] st stage_entry [OF st]
      unfolding unattended_simps(2) by metis
  next
    case Down
    then show ?thesis using down_tick [OF assms(1,2) wf] st unfolding unattended_simps(2) by metis
  next
    case Restarted
    then show ?thesis using restarted_tick(3) [OF assms(1,2) wf] st unfolding unattended_simps(2) by metis
  qed
  then show ?thesis by (simp add: staged_def tick_time_Suc [symmetric])
qed

definition hung_at :: "heartbeat_config \<Rightarrow> turn_watchdog_settings \<Rightarrow> time \<Rightarrow> monitor_state \<Rightarrow> agent_id
    \<Rightarrow> agent_manifest \<Rightarrow> nat \<Rightarrow> agent_entry \<Rightarrow> bool" where
  "hung_at config tw t0 st i m k e \<longleftrightarrow>
     rg_get i (hm_registry (unattended config tw t0 k st)) = Some e
     \<and> \<not> never_active e \<and> en_last_active e \<le> tick_time config t0 k"

lemma hung_until:
  assumes "working_agent m" "reg_wf (hm_registry st)" "staged config tw t0 st i m k AtWork"
    and "hung_at config tw t0 st i m k e"
  shows "(\<exists>n. staged config tw t0 st i m n Down \<and> (\<exists>e'. hung_at config tw t0 st i m n e')
        \<and> recoveries i (unattended config tw t0 n st) = recoveries i (unattended config tw t0 k st))
    \<or> (\<forall>j. staged config tw t0 st i m (k + j) AtWork \<and> hung_at config tw t0 st i m (k + j) e
        \<and> st_get (hm_phases (unattended config tw t0 (k + j) st)) i = st_get (hm_phases (unattended config tw t0 k st)) i
        \<and> recoveries i (unattended config tw t0 (k + j) st) = recoveries i (unattended config tw t0 k st)
        \<and> \<not> overdue config tw (tick_time config t0 (k + j)) e (st_get (hm_phases (unattended config tw t0 k st)) i))"
    (is "?down \<or> (\<forall>j. ?still j)")
proof (rule disjCI, rule ccontr)
  assume no: "\<not> (\<forall>j. ?still j)" and "\<not> ?down"
  let ?at = "\<lambda>j. staged config tw t0 st i m (k + j) AtWork \<and> hung_at config tw t0 st i m (k + j) e
        \<and> st_get (hm_phases (unattended config tw t0 (k + j) st)) i = st_get (hm_phases (unattended config tw t0 k st)) i
        \<and> recoveries i (unattended config tw t0 (k + j) st) = recoveries i (unattended config tw t0 k st)"
  have step: "?at (Suc j) \<and> ?still j" if at: "?at j" for j
  proof -
    let ?now = "tick_time config t0 (k + j)"
    have e: "rg_get i (hm_registry (unattended config tw t0 (k + j) st)) = Some e" "\<not> never_active e"
      "en_last_active e \<le> ?now" using at by (simp_all add: hung_at_def)
    have later: "?now \<le> tick_time config t0 (Suc (k + j))" by (rule tick_time_mono) simp
    have crashed: "\<not> never_active (e\<lparr>en_state := Crashed, en_last_active := ?now\<rparr>)"
      using e by (intro active_later) simp_all
    note * = at_work_tick [OF assms(1) unattended_wf [OF assms(2)] at [unfolded staged_def, THEN conjunct1] e(1),
        where now = ?now and config = config and tw = tw]
    from * show ?thesis
    proof (elim disjE)
      assume "stage_of i ?now m Down (monitor_tick config tw ?now (unattended config tw t0 (k + j) st))
        \<and> rg_get i (hm_registry (monitor_tick config tw ?now (unattended config tw t0 (k + j) st)))
            = Some (e\<lparr>en_state := Crashed, en_last_active := ?now\<rparr>)
        \<and> recoveries i (monitor_tick config tw ?now (unattended config tw t0 (k + j) st))
            = recoveries i (unattended config tw t0 (k + j) st)"
      then have "staged config tw t0 st i m (Suc (k + j)) Down
        \<and> hung_at config tw t0 st i m (Suc (k + j)) (e\<lparr>en_state := Crashed, en_last_active := ?now\<rparr>)
        \<and> recoveries i (unattended config tw t0 (Suc (k + j)) st) = recoveries i (unattended config tw t0 k st)"
        using at later crashed by (simp add: staged_def tick_time_Suc [symmetric] unattended_simps hung_at_def)
      then show ?thesis using \<open>\<not> ?down\<close> by blast
    qed (use at e later in \<open>simp add: staged_def tick_time_Suc [symmetric] unattended_simps hung_at_def\<close>)
  qed
  have "?at j" for j
  proof (induction j)
    case 0
    show ?case using assms(3,4) by simp
  next
    case (Suc j)
    show ?case by (rule step [OF Suc, THEN conjunct1])
  qed
  then show False using no step by blast
qed

lemma next_recovery:
  assumes "sensible_config config" "working_agent m" "reg_wf (hm_registry st)"
    and "staged config tw t0 st i m k AtWork" "hung_at config tw t0 st i m k e"
  shows "\<exists>n e'. staged config tw t0 st i m n AtWork \<and> hung_at config tw t0 st i m n e'
    \<and> recoveries i (unattended config tw t0 n st) = Suc (recoveries i (unattended config tw t0 k st))"
proof -
  have "0 < hc_check_interval_secs config" using assms(1) by (simp add: sensible_config_def)
  then obtain N where "\<forall>n \<ge> N. overdue config tw (tick_time config t0 n) e
      (st_get (hm_phases (unattended config tw t0 k st)) i)" using eventually_overdue by meson
  then have "overdue config tw (tick_time config t0 (k + N)) e (st_get (hm_phases (unattended config tw t0 k st)) i)"
    by simp
  then obtain n e1 where down: "staged config tw t0 st i m n Down" "hung_at config tw t0 st i m n e1"
    and same: "recoveries i (unattended config tw t0 n st) = recoveries i (unattended config tw t0 k st)"
    using hung_until [OF assms(2-5)] by meson
  let ?now = "tick_time config t0 n"
  define e2 where "e2 = e1\<lparr>en_state := Running, en_last_active := ?now\<rparr>"
  have e2: "\<not> never_active e2"
    using down(2) unfolding e2_def hung_at_def by (intro active_later) simp_all
  note up = down_tick [OF assms(1,2) unattended_wf [OF assms(3)] down(1) [unfolded staged_def], where now = ?now and tw = tw]
  have r: "staged config tw t0 st i m (Suc n) Restarted"
    "rg_get i (hm_registry (unattended config tw t0 (Suc n) st)) = Some e2"
    "recoveries i (unattended config tw t0 (Suc n) st) = Suc (recoveries i (unattended config tw t0 n st))"
    using up down(2) by (simp_all add: staged_def tick_time_Suc [symmetric] unattended_simps hung_at_def e2_def
        recoveries_agent_lines)
  note well = restarted_tick [OF assms(1,2) unattended_wf [OF assms(3)] r(1) [unfolded staged_def], where tw = tw]
  have "tick_time config t0 n \<le> tick_time config t0 (Suc (Suc n))" by (rule tick_time_mono) simp
  then have "staged config tw t0 st i m (Suc (Suc n)) AtWork \<and> hung_at config tw t0 st i m (Suc (Suc n)) e2
    \<and> recoveries i (unattended config tw t0 (Suc (Suc n)) st) = recoveries i (unattended config tw t0 (Suc n) st)"
    using well r(2) e2
    by (auto simp: staged_def tick_time_Suc [symmetric] unattended_simps(2) [of _ _ _ "Suc n"] hung_at_def
        recoveries_agent_lines) (simp add: e2_def)
  then show ?thesis using r(3) same by metis
qed

section \<open>Properties\<close>

text \<open>
  C19. Whatever the rest of the kernel does to the agents between the ticks, the monitor's log of any
  run says: an agent is given up exactly when as many recoveries as configured have been attempted
  since its last success (none of them more), the attempts are numbered from one without gaps, and
  two attempts without a success between them are at least the cooldown apart.
\<close>

theorem recovery_attempts_accounted:
  assumes "hm_log (fold (monitor_step config tw) ops monitor_start) = newer @ x # older"
  shows "(\<forall>i n. x = MarkedTerminated i n \<longrightarrow>
        n = hc_max_recovery_attempts config \<and> attempts_since i older = hc_max_recovery_attempts config)
    \<and> (\<forall>i a t. x = Recovering i a t \<longrightarrow>
        a = Suc (attempts_since i older) \<and> a \<le> hc_max_recovery_attempts config
        \<and> (\<forall>t'. last_attempt i older = Some t' \<longrightarrow> hc_recovery_cooldown_secs config \<le> t - t'))
    \<and> (\<forall>i. x = RecoveredOk i \<longrightarrow> 0 < attempts_since i older)"
proof -
  have "monitor_inv config (fold (monitor_step config tw) ops monitor_start)"
    by (rule monitor.reached_inv) (simp add: list_all_def)
  then have "line_ok config x older"
    using assms by (auto simp: monitor_inv_def intro: log_ok_line)
  then show ?thesis by (auto simp: line_ok_def)
qed

text \<open>
  A reactive agent that stalls in four turns, ten days apart, and works well in between: no tick
  reports it as responsive, so its record is never cleared.
\<close>

definition reactive_entry :: "time \<Rightarrow> agent_state \<Rightarrow> agent_entry" where
  "reactive_entry t state = (spawned_entry 0 0 7 agent_manifest_default None)\<lparr>en_state := state, en_last_active := t\<rparr>"

definition reactive_registry :: "time \<Rightarrow> agent_registry" where
  "reactive_registry t = (with_agent_home [])\<lparr>rg_agents := [(7, reactive_entry t Running)]\<rparr>"

definition stalled_turn :: "time \<Rightarrow> monitor_op list" where
  "stalled_turn t =
     [Elsewhere (reactive_registry t) [(7, \<lparr>ph_kind = PhaseThinking, ph_since = t\<rparr>)],
      Tick (t + 930000), Tick (t + 960000), Tick (t + 990000), Tick (t + 86400000)]"

definition four_stalls :: "monitor_op list" where
  "four_stalls = concat (map stalled_turn [864000000, 1728000000, 2592000000, 3456000000])"

definition four_stalls_log :: "monitor_line list" where
  "four_stalls_log =
     [MarkedCrashed 7, Recovering 7 3 2592960, MarkedCrashed 7, Recovering 7 2 1728960, MarkedCrashed 7,
      Recovering 7 1 864960, MarkedCrashed 7]"

lemmas run_defs = four_stalls_def stalled_turn_def monitor_start_def monitor_tick_def check_agents_def check_agent_def
   running_phases_def rg_list_def rg_get_def reactive_registry_def reactive_entry_def with_agent_home_def spawned_entry_def
   handle_status_def recover_crashed_def watch_running_def set_state_def update_entry_def turn_phase_stall_secs_def
   record_attempt_def can_attempt_def failure_count_def reset_recovery_def gate_clear_def allow_notify_def notify_gate_new_def
   NOTIFY_MIN_INTERVAL_SECS_def health_check_failed_def turn_watchdog_settings_default_def four_stalls_log_def heartbeat_config_default_def DEFAULT_CHECK_INTERVAL_SECS_def
   DEFAULT_MAX_RECOVERY_ATTEMPTS_def DEFAULT_RECOVERY_COOLDOWN_SECS_def num_seconds_def as_i64_def idle_status_def status_of_def
   is_quiet_agent_def epoch_secs_def agent_manifest_default_def map_filter_simps


lemma fourth_stall_is_final:
  "hm_log (fold (monitor_step heartbeat_config_default turn_watchdog_settings_default) four_stalls monitor_start)
     = [] @ MarkedTerminated 7 3 # four_stalls_log"
  by (simp add: run_defs)

theorem recovery_attempts_accounted_witness:
  "hm_log (fold (monitor_step heartbeat_config_default turn_watchdog_settings_default) four_stalls monitor_start)
      = [] @ MarkedTerminated 7 3 # four_stalls_log
    \<and> attempts_since 7 four_stalls_log = hc_max_recovery_attempts heartbeat_config_default"
  using fourth_stall_is_final recovery_attempts_accounted [OF fourth_stall_is_final] by blast

text \<open>
  In a reachable registry a tick treats every agent on its own: what becomes of one agent (its
  entry, its recovery record, its lines in the log) depends on its own entry, record and phase only,
  and is one step of the small machine for a single agent, or nothing if the check has no status for it.
\<close>

lemma monitor_tick_per_agent:
  assumes "reg_reachable (hm_registry st)"
  shows "agent_view i (monitor_tick config tw now st) =
    (case Option.bind (rg_get i (hm_registry st))
            (check_agent config (running_phases (hm_registry st) (hm_phases st)) tw now) of
       None \<Rightarrow> agent_view i st
     | Some s \<Rightarrow> view_step config now s (agent_view i st))"
  by (rule monitor_tick_view [OF reg_reachable_wf [OF assms]])

lemma stage_state:
  "stage_of i prev m s st \<Longrightarrow> \<exists>e. rg_get i (hm_registry st) = Some e \<and> (en_state e = Running \<or> en_state e = Crashed)"
  by (auto simp: stage_of_def in_stage_def split: option.splits stage.splits)

text \<open>
  An agent that works on a schedule and has hung for good is not given up. Restarting it counts as
  activity, so the next tick finds it responsive and clears its record: at every tick it is running or
  crashed, and it is restarted as often as one likes.
\<close>

lemma hung_agent_never_given_up:
  assumes "reg_reachable (hm_registry st)" "sensible_config config"
    and "rg_get i (hm_registry st) = Some e" "en_state e = Running" "working_agent (en_manifest e)"
    and "\<not> never_active e" "en_last_active e \<le> t0" "st_get (hm_tracker st) i = None"
  shows "(\<forall>k. \<exists>e'. rg_get i (hm_registry (unattended config tw t0 k st)) = Some e'
      \<and> (en_state e' = Running \<or> en_state e' = Crashed))
    \<and> (\<forall>n. \<exists>k. n \<le> recoveries i (unattended config tw t0 k st))"
proof -
  note wf = reg_reachable_wf [OF assms(1)]
  have start: "staged config tw t0 st i (en_manifest e) 0 AtWork" "hung_at config tw t0 st i (en_manifest e) 0 e"
    using assms by (simp_all add: staged_def stage_of_def in_stage_def unattended_simps hung_at_def tick_time_def)
  have "\<exists>s. staged config tw t0 st i (en_manifest e) k s" for k
    by (induction k) (use start staged_Suc [OF assms(2,5) wf] in blast)+
  then have "\<exists>e'. rg_get i (hm_registry (unattended config tw t0 k st)) = Some e'
      \<and> (en_state e' = Running \<or> en_state e' = Crashed)" for k
    unfolding staged_def by (meson stage_state)
  moreover have "\<exists>k e'. staged config tw t0 st i (en_manifest e) k AtWork \<and> hung_at config tw t0 st i (en_manifest e) k e'
      \<and> n \<le> recoveries i (unattended config tw t0 k st)" for n
  proof (induction n)
    case 0
    show ?case using start by blast
  next
    case (Suc n)
    then show ?case using next_recovery [OF assms(2,5) wf] by (metis Suc_le_mono)
  qed
  ultimately show ?thesis by blast
qed

text \<open>An agent that was to look after itself every thirty seconds.\<close>

definition scheduled_manifest :: agent_manifest where
  "scheduled_manifest = agent_manifest_default\<lparr>mf_schedule := Continuous 30\<rparr>"

definition scheduled_state :: "agent_registry \<Rightarrow> monitor_state" where
  "scheduled_state reg = monitor_start\<lparr>hm_registry := reg\<rparr>"

lemma scheduled_agent_exists:
  "\<exists>reg e. reg_reachable reg \<and> rg_get 0 reg = Some e \<and> en_state e = Running \<and> en_manifest e = scheduled_manifest
     \<and> \<not> never_active e \<and> en_last_active e = 60000"
proof -
  let ?reg = "snd (rg_register (spawned_entry 0 0 0 scheduled_manifest None) (with_agent_home []))"
  have "spawn_agent_with_parent 0 0 0 0 scheduled_manifest None (with_agent_home []) = Some (Inr 0, ?reg)"
    by (simp add: spawn_agent_with_parent_def spawn_quota_check_def rg_register_def with_agent_home_def Let_def)
  moreover have "unknown_id (with_agent_home []) 0"
    by (auto simp: unknown_id_def rg_get_def child_rel_def with_agent_home_def)
  ultimately have "reg_reachable ?reg" using reg_reachable.spawned [OF reg_reachable.start] by blast
  then have "reg_reachable (snd (set_state 60000 0 Running ?reg))"
    unfolding set_state_def by (rule reg_reachable.updated) simp
  moreover have "rg_get 0 (snd (set_state 60000 0 Running ?reg)) =
      Some ((spawned_entry 0 0 0 scheduled_manifest None)\<lparr>en_state := Running, en_last_active := 60000\<rparr>)"
    by (simp add: rg_get_set_state) (simp add: rg_get_def rg_register_def with_agent_home_def spawned_entry_def Let_def)
  ultimately show ?thesis
    by (fastforce simp: spawned_entry_def never_active_def num_seconds_def IDLE_GRACE_SECS_def)
qed

lemma hung_agent_never_given_up_witness:
  "\<exists>reg k. reg_reachable reg \<and> rg_get 0 reg \<noteq> None
     \<and> 4 \<le> recoveries 0 (unattended heartbeat_config_default turn_watchdog_settings_default 60000 k (scheduled_state reg))"
proof -
  obtain reg e where e: "reg_reachable reg" "rg_get 0 reg = Some e" "en_state e = Running"
    "en_manifest e = scheduled_manifest" "\<not> never_active e" "en_last_active e = 60000"
    using scheduled_agent_exists by blast
  have "sensible_config heartbeat_config_default" "working_agent (en_manifest e)"
    using e(4) by (simp_all add: sensible_config_def heartbeat_config_default_def DEFAULT_CHECK_INTERVAL_SECS_def
        DEFAULT_MAX_RECOVERY_ATTEMPTS_def working_agent_def scheduled_manifest_def agent_manifest_default_def)
  then have "\<exists>k. 4 \<le> recoveries 0 (unattended heartbeat_config_default turn_watchdog_settings_default 60000 k (scheduled_state reg))"
    using hung_agent_never_given_up [of "scheduled_state reg" heartbeat_config_default 0 e 60000 turn_watchdog_settings_default] e
    by (simp add: scheduled_state_def monitor_start_def)
  then show ?thesis using e by auto
qed

lemma monitor_tick_per_agent_witness:
  "\<exists>reg e. reg_reachable reg \<and> rg_get 0 reg = Some e
     \<and> fst (agent_view 0 (monitor_tick heartbeat_config_default turn_watchdog_settings_default 600000 (scheduled_state reg)))
         = Some (e\<lparr>en_state := Crashed, en_last_active := 600000\<rparr>)"
proof -
  obtain reg e where e: "reg_reachable reg" "rg_get 0 reg = Some e" "en_state e = Running"
    "en_manifest e = scheduled_manifest" "\<not> never_active e" "en_last_active e = 60000"
    using scheduled_agent_exists by blast
  have m: "mf_schedule (en_manifest e) = Continuous 30" "mf_autonomous (en_manifest e) = None"
    using e(4) by (simp_all add: scheduled_manifest_def agent_manifest_default_def)
  then have "check_agent heartbeat_config_default [] turn_watchdog_settings_default 600000 e = Some (status_of e 540 True)"
    using e by (simp add: check_agent_def idle_status_def turn_phase_stall_secs_def num_seconds_def heartbeat_timeout_def
        heartbeat_config_default_def as_i64_def sat_i64_def)
  then show ?thesis
    using monitor_tick_per_agent [of "scheduled_state reg" 0 heartbeat_config_default turn_watchdog_settings_default 600000]
      e m by (auto simp: scheduled_state_def monitor_start_def running_phases_def agent_view_def view_quiet_def)
qed

end
