(* ===== verification/Reply_Directives.thy ===== *)
theory Reply_Directives
  imports Utf8
begin

text \<open>
  Reply directives in the output of an agent (\<^verbatim>\<open>crates/openfang-runtime/src/reply_directives.rs\<close>):
  the accumulator that strips them from a streamed text, and the decision to stay silent. The
  accumulator walks over characters; an ordinary character is copied here byte by byte, since no byte
  of a longer character is a bracket.
\<close>

section \<open>The accumulator\<close>

record directive_set =
  ds_reply_to :: "string option"
  ds_current_thread :: bool
  ds_silent :: bool

definition no_directives :: directive_set where
  "no_directives = \<lparr>ds_reply_to = None, ds_current_thread = False, ds_silent = False\<rparr>"

record directive_accumulator =
  da_partial :: string
  da_directives :: directive_set

definition accumulator_new :: directive_accumulator where
  "accumulator_new = \<lparr>da_partial = [], da_directives = no_directives\<rparr>"

definition MAX_PARTIAL_LEN :: nat where "MAX_PARTIAL_LEN = 30"

definition parse_tag :: "string \<Rightarrow> directive_set \<Rightarrow> directive_set" where
  "parse_tag content ds =
     (let trimmed = trim content
      in case strip_prefix ''reply:'' trimmed of
           Some rest \<Rightarrow> (let i = trim rest in if i \<noteq> [] then ds\<lparr>ds_reply_to := Some i\<rparr> else ds)
         | None \<Rightarrow>
             if trimmed = ''@current'' then ds\<lparr>ds_current_thread := True\<rparr>
             else if trimmed = ''silent'' then ds\<lparr>ds_silent := True\<rparr>
             else ds)"

text \<open>What is left after the next characters of a text.\<close>

definition drop_chars :: "nat \<Rightarrow> string \<Rightarrow> string" where
  "drop_chars n s = drop (length (take_chars n s)) s"

datatype tag_found = TagClosed string string | TagOpen | NoTag

text \<open>
  What a text starts with: a closed tag, with its content and the text after it, an open one, or none.
  As many characters are skipped as the tag has bytes.
\<close>

definition tag_at :: "string \<Rightarrow> tag_found" where
  "tag_at s =
     (case strip_prefix ''[['' s of
        None \<Rightarrow> NoTag
      | Some after_open \<Rightarrow>
          (case find_str '']]'' after_open of
             None \<Rightarrow> TagOpen
           | Some e \<Rightarrow> TagClosed (take e after_open) (drop_chars (2 + e + 2) s)))"

lemma drop_chars_shorter: "\<not> is_continuation c \<Longrightarrow> length (drop_chars (Suc n) (c # s)) < length (c # s)"
  by (simp add: drop_chars_def)

lemma tag_at_shorter: "tag_at s = TagClosed t rest \<Longrightarrow> length rest < length s"
proof -
  assume *: "tag_at s = TagClosed t rest"
  then obtain r where s: "s = CHR ''['' # r"
    by (auto simp: tag_at_def strip_prefix_def prefix_def split: option.splits if_splits)
  have "\<not> is_continuation (CHR ''['')" by (simp add: is_continuation_def)
  then show ?thesis
    using * drop_chars_shorter [of "CHR ''[''" _ r] by (auto simp: tag_at_def s split: option.splits)
qed

function (sequential) consume_from :: "bool \<Rightarrow> string \<Rightarrow> directive_set \<Rightarrow> string \<times> string \<times> directive_set" where
  "consume_from is_final [] ds = ([], [], ds)"
| "consume_from is_final (c # s) ds =
     (case tag_at (c # s) of
        TagClosed t rest \<Rightarrow> consume_from is_final rest (parse_tag t ds)
      | found \<Rightarrow>
          if found = TagOpen \<and> \<not> is_final \<and> length (c # s) < MAX_PARTIAL_LEN then ([], c # s, ds)
          else (case consume_from is_final s ds of (out, partial, ds') \<Rightarrow> (c # out, partial, ds')))"
  by pat_completeness auto
termination
  by (relation "measure (\<lambda>(_, s, _). length s)") (auto dest: tag_at_shorter)

declare consume_from.simps [simp del]

definition consume :: "string \<Rightarrow> bool \<Rightarrow> directive_accumulator \<Rightarrow> string \<times> directive_accumulator" where
  "consume chunk is_final acc =
     (case consume_from is_final (da_partial acc @ chunk) (da_directives acc) of
        (out, partial, ds) \<Rightarrow> (out, \<lparr>da_partial = partial, da_directives = ds\<rparr>))"

definition parse_directives :: "string \<Rightarrow> string \<times> directive_set" where
  "parse_directives s =
     (case consume s True accumulator_new of (cleaned, acc) \<Rightarrow> (trim cleaned, da_directives acc))"

definition assistant_intended_silent :: "string \<Rightarrow> directive_set \<Rightarrow> bool" where
  "assistant_intended_silent visible ds =
     (let t = trim visible
      in (t = ''NO_REPLY'' \<or> eq_ignore_ascii_case t ''[silent]'') \<or> ds_silent ds)"

section \<open>Texts made of plain parts and tags\<close>

datatype segment = Plain string | Tag string

fun segment_text :: "segment \<Rightarrow> string" where
  "segment_text (Plain s) = s"
| "segment_text (Tag t) = ''[['' @ t @ '']]''"

fun segment_ok :: "segment \<Rightarrow> bool" where
  "segment_ok (Plain s) = (CHR ''['' \<notin> set s)"
| "segment_ok (Tag t) = (CHR '']'' \<notin> set t \<and> ascii t)"

fun segment_visible :: "segment \<Rightarrow> string" where
  "segment_visible (Plain s) = s"
| "segment_visible (Tag t) = []"

fun segment_directives :: "segment \<Rightarrow> directive_set \<Rightarrow> directive_set" where
  "segment_directives (Plain s) ds = ds"
| "segment_directives (Tag t) ds = parse_tag t ds"

lemma take_chars_ascii: "ascii p \<Longrightarrow> take_chars (length p) (p @ r) = p @ take_chars 0 r"
  by (induction p) (auto simp: is_continuation_def)

lemma ascii_first: "\<not> is_continuation c \<Longrightarrow> take_chars 0 (c # r) = []"
  by simp

lemma find_close: "CHR '']'' \<notin> set t \<Longrightarrow> find_str '']]'' (t @ '']]'' @ r) = Some (length t)"
  by (induction t) auto

lemma tag_at_tag:
  assumes "CHR '']'' \<notin> set t" "ascii t" "utf8 r"
  shows "tag_at (''[['' @ t @ '']]'' @ r) = TagClosed t r"
proof -
  let ?p = "''[['' @ t @ '']]''"
  have "take_chars 0 r = []"
    using assms(3) by (cases r) (auto simp: utf8_def lead_len_0)
  moreover have "ascii ?p" using assms(2) by auto
  moreover have "length ?p = 2 + length t + 2" by simp
  ultimately have "take_chars (2 + length t + 2) (?p @ r) = ?p"
    using take_chars_ascii [of ?p r] by simp
  then have "drop_chars (2 + length t + 2) (?p @ r) = r"
    using append_eq_conv_conj [of ?p r "?p @ r"] unfolding drop_chars_def by metis
  then show ?thesis
    using find_close [OF assms(1), of r] by (simp add: tag_at_def strip_prefix_def)
qed

lemma consume_plain:
  "CHR ''['' \<notin> set p \<Longrightarrow> consume_from f (p @ r) ds =
     (case consume_from f r ds of (out, partial, ds') \<Rightarrow> (p @ out, partial, ds'))"
proof (induction p)
  case (Cons c p)
  then have "tag_at (c # p @ r) = NoTag" by (simp add: tag_at_def strip_prefix_def)
  then show ?case using Cons by (simp add: consume_from.simps split: prod.splits)
qed simp

lemma utf8_segments:
  "\<forall>x \<in> set xs. segment_ok x \<and> utf8 (segment_text x) \<Longrightarrow> utf8 (concat (map segment_text xs))"
  by (induction xs) auto

lemma consume_segments:
  "\<forall>x \<in> set xs. segment_ok x \<and> utf8 (segment_text x) \<Longrightarrow>
     consume_from f (concat (map segment_text xs)) ds
       = (concat (map segment_visible xs), [], fold segment_directives xs ds)"
proof (induction xs arbitrary: ds)
  case Nil
  show ?case by (simp add: consume_from.simps)
next
  case (Cons x xs)
  show ?case
  proof (cases x)
    case (Plain s)
    then show ?thesis using Cons by (simp add: consume_plain)
  next
    case (Tag t)
    have "utf8 (concat (map segment_text xs))" using Cons.prems by (intro utf8_segments) simp
    then have "tag_at (''[['' @ t @ '']]'' @ concat (map segment_text xs)) = TagClosed t (concat (map segment_text xs))"
      using Cons.prems Tag by (intro tag_at_tag) auto
    then show ?thesis using Cons Tag by (simp add: consume_from.simps(2))
  qed
qed

section \<open>Properties\<close>

text \<open>
  A text made of plain parts and of directives in plain ASCII, in any order and number, is shown
  without the directives, and the directives found are those of the text, the last one winning for a
  reply target.
\<close>

lemma directives_stripped:
  assumes "\<forall>x \<in> set xs. segment_ok x \<and> utf8 (segment_text x)"
  shows "parse_directives (concat (map segment_text xs))
     = (trim (concat (map segment_visible xs)), fold segment_directives xs no_directives)"
  using consume_segments [OF assms, of True no_directives]
  by (simp add: parse_directives_def consume_def accumulator_new_def)

definition sample_reply :: "segment list" where
  "sample_reply = [Tag ''reply: 7'', Plain '' Done'', Tag ''silent'']"

lemma sample_trims:
  "trim '' Done'' = ''Done''" "trim ''reply: 7'' = ''reply: 7''" "trim '' 7'' = ''7''" "trim ''silent'' = ''silent''"
  by code_simp+

lemma directives_stripped_witness:
  "parse_directives ''[[reply: 7]] Done[[silent]]''
     = (''Done'', \<lparr>ds_reply_to = Some ''7'', ds_current_thread = False, ds_silent = True\<rparr>)"
  using directives_stripped [of sample_reply]
  by (simp add: sample_reply_def sample_trims parse_tag_def strip_prefix_def no_directives_def utf8_ascii Let_def)

text \<open>
  A directive with a character of more than one byte takes the text after it along: the tag is
  measured in bytes and skipped in characters.
\<close>

lemma directive_swallows_text:
  "parse_directives (''[[reply:'' @ [CHR 0xC3, CHR 0xA9] @ '']]No.'')
     = (''o.'', no_directives\<lparr>ds_reply_to := Some [CHR 0xC3, CHR 0xA9]\<rparr>)"
  by code_simp

text \<open>A directive cut between its two opening brackets is shown as text.\<close>

lemma directive_cut_at_bracket:
  "(case consume ''['' False accumulator_new of
      (out, acc) \<Rightarrow> out @ fst (consume ''[silent]]Bye'' True acc)) = ''[[silent]]Bye''"
  by code_simp

end
