(* ===== verification/Tool_Round.thy ===== *)
theory Tool_Round
  imports Loop_Guard Messages Tool_Gate
begin

text \<open>
  One round of tool calls as the model declares it: execution lanes, batches and the removal of
  repeated calls (\<^verbatim>\<open>crates/openfang-runtime/src/agent_tool_round.rs\<close>), the check for required
  parameters and the removal itself (\<^verbatim>\<open>agent_loop.rs\<close>), the time limits of tools (\<^verbatim>\<open>tool_runner.rs\<close>),
  and the texts of the loop guard's verdicts (\<^verbatim>\<open>loop_guard.rs\<close>), which later code inspects.
\<close>

section \<open>Calls and results\<close>

record tool_call =
  tc_id :: string
  tc_name :: string
  tc_input :: json

record tool_outcome =
  to_tool_use_id :: string
  to_content :: string
  to_is_error :: bool

section \<open>Lanes and batches\<close>

datatype tool_execution_lane =
    ReadParallel
  | WorkspaceMutationSerial
  | ProcessSerial
  | ExternalSideEffectSerial

definition is_parallel_read :: "tool_execution_lane \<Rightarrow> bool" where
  "is_parallel_read lane = (lane = ReadParallel)"

definition READ_TOOLS :: "string list" where
  "READ_TOOLS =
     [''file_read'', ''file_list'', ''document_extract'', ''mcp_resource_read'', ''web_search'', ''web_fetch'',
      ''web_scrape'', ''web_get'', ''mcp_ainl_ainl_validate'', ''mcp_ainl_ainl_compile'',
      ''mcp_ainl_ainl_capabilities'', ''mcp_ainl_ainl_security_report'', ''mcp_ainl_ainl_ir_diff'',
      ''mcp_ainl_ainl_ptc_signature_check'']"

definition WORKSPACE_TOOLS :: "string list" where
  "WORKSPACE_TOOLS = [''file_write'', ''apply_patch'', ''workspace_action'', ''script_run'']"

definition PROCESS_TOOLS :: "string list" where
  "PROCESS_TOOLS = [''shell_exec'', ''process_start'', ''process_kill'', ''process_list'']"

definition classify_lane :: "string \<Rightarrow> tool_execution_lane" where
  "classify_lane tool_name =
     (if tool_name \<in> set READ_TOOLS then ReadParallel
      else if tool_name \<in> set WORKSPACE_TOOLS then WorkspaceMutationSerial
      else if tool_name \<in> set PROCESS_TOOLS then ProcessSerial
      else if starts_with tool_name ''channel_'' \<or> starts_with tool_name ''agent_''
          \<or> tool_name = ''mcp_ainl_ainl_run'' \<or> contains_str tool_name ''send''
          \<or> contains_str tool_name ''post'' \<or> contains_str tool_name ''publish''
        then ExternalSideEffectSerial
      else ReadParallel)"

definition safe_to_deduplicate :: "string \<Rightarrow> bool" where
  "safe_to_deduplicate tool_name = is_parallel_read (classify_lane tool_name)"

text \<open>Ranges of positions; the first argument is the position of the head of the list.\<close>

function ordered_batches_from :: "nat \<Rightarrow> ('a \<Rightarrow> tool_execution_lane) \<Rightarrow> 'a list \<Rightarrow> (nat \<times> nat) list" where
  "ordered_batches_from idx lane_of items =
     (case items of
        [] \<Rightarrow> []
      | x # xs \<Rightarrow>
          if is_parallel_read (lane_of x) then
            let n = Suc (length (takeWhile (\<lambda>y. is_parallel_read (lane_of y)) xs))
            in (idx, idx + n) # ordered_batches_from (idx + n) lane_of (drop n items)
          else (idx, idx + 1) # ordered_batches_from (idx + 1) lane_of xs)"
  by pat_completeness auto
termination by (relation "measure (\<lambda>(_, _, items). length items)") auto

declare ordered_batches_from.simps [simp del]

definition ordered_batches :: "('a \<Rightarrow> tool_execution_lane) \<Rightarrow> 'a list \<Rightarrow> (nat \<times> nat) list" where
  "ordered_batches lane_of items = ordered_batches_from 0 lane_of items"

section \<open>Repeated calls\<close>

text \<open>A read-only call whose hash has been seen in this response is dropped.\<close>

fun dedup_calls :: "guard_env \<Rightarrow> string list \<Rightarrow> tool_call list \<Rightarrow> tool_call list" where
  "dedup_calls env seen [] = []"
| "dedup_calls env seen (c # cs) =
     (if \<not> safe_to_deduplicate (tc_name c) then c # dedup_calls env seen cs
      else let hash = compute_hash env (tc_name c) (tc_input c)
           in if hash \<in> set seen then dedup_calls env seen cs
              else c # dedup_calls env (hash # seen) cs)"

definition deduplicate_tool_calls :: "guard_env \<Rightarrow> tool_call list \<Rightarrow> tool_call list" where
  "deduplicate_tool_calls env calls = dedup_calls env [] calls"

section \<open>Required parameters\<close>

definition as_array :: "json \<Rightarrow> json list option" where
  "as_array v = (case v of JArray xs \<Rightarrow> Some xs | _ \<Rightarrow> None)"

definition param_absent :: "json \<Rightarrow> string \<Rightarrow> bool" where
  "param_absent input field = (json_get field input = None \<or> json_get field input = Some JNull)"

definition field_description :: "json option \<Rightarrow> string \<Rightarrow> string" where
  "field_description properties field =
     (case Option.bind properties (json_get field) of
        Some f \<Rightarrow>
          let ty = (case Option.bind (json_get ''type'' f) as_str of Some t \<Rightarrow> t | None \<Rightarrow> ''any'');
              desc = (case Option.bind (json_get ''description'' f) as_str of Some d \<Rightarrow> d | None \<Rightarrow> [])
          in if desc = [] then field @ '' ('' @ ty @ '')'' else field @ '' ('' @ ty @ ''): '' @ desc
      | None \<Rightarrow> field)"

definition missing_fields :: "json \<Rightarrow> json option \<Rightarrow> json list \<Rightarrow> string list" where
  "missing_fields input properties required =
     concat (map (\<lambda>req. case as_str req of
                          Some field \<Rightarrow> if param_absent input field then [field_description properties field] else []
                        | None \<Rightarrow> []) required)"

definition missing_required_params_error ::
  "guard_env \<Rightarrow> string \<Rightarrow> json \<Rightarrow> tool_definition \<Rightarrow> string option" where
  "missing_required_params_error env tool_name input tool_def =
     (case Option.bind (json_get ''required'' (td_input_schema tool_def)) as_array of
        None \<Rightarrow> None
      | Some required \<Rightarrow>
          let missing = missing_fields input (json_get ''properties'' (td_input_schema tool_def)) required
          in if required = [] \<or> missing = [] then None
             else Some (''Error: '' @ quoted tool_name @ '' called without required parameter(s). Received: '' @
               json_to_string env input @ ''. Missing required field(s) '' @ [CHR 0xE2, CHR 0x80, CHR 0x94] @ '' '' @
               join_str ''; '' missing @ ''. Retry with all required fields supplied.''))"

section \<open>Time limits\<close>

definition SCRIPT_RUN_ONESHOT_MAX_TIMEOUT_SECS :: nat where "SCRIPT_RUN_ONESHOT_MAX_TIMEOUT_SECS = 600"
definition PLANNER_TOOL_TIMEOUT_SECS :: nat where "PLANNER_TOOL_TIMEOUT_SECS = 300"
definition PLANNER_AGENT_TOOL_TIMEOUT_SECS :: nat where "PLANNER_AGENT_TOOL_TIMEOUT_SECS = 600"

definition tool_execution_timeout :: "string \<Rightarrow> nat" where
  "tool_execution_timeout tool_name =
     (if tool_name \<in> {''agent_send'', ''agent_spawn''} then PLANNER_AGENT_TOOL_TIMEOUT_SECS
      else if tool_name \<in> {''document_extract'', ''spreadsheet_build''} then 180
      else if tool_name \<in> {''channel_send'', ''channel_stream''} then 30
      else if tool_name \<in> {''image_generate'', ''text_to_speech'', ''speech_to_text'', ''media_describe'',
          ''media_transcribe''} then 300
      else if tool_name \<in> {''a2a_send'', ''a2a_discover'', ''a2a_discover_hermes'', ''a2a_send_hermes''} then 300
      else if tool_name = ''hermes_a2a_status'' then 30
      else if tool_name = ''mcp_resource_read'' then 90
      else if tool_name \<in> {''process_start'', ''process_poll'', ''process_write'', ''process_kill'', ''process_list''}
        then 30
      else if tool_name = ''workspace_actions_list'' then 30
      else if tool_name \<in> {''workspace_action_set'', ''workspace_action_delete''} then 30
      else if tool_name = ''workspace_action'' then SCRIPT_RUN_ONESHOT_MAX_TIMEOUT_SECS
      else if tool_name = ''schedule_action_create'' then 30
      else if tool_name = ''script_detect'' then 30
      else if tool_name = ''script_run'' then SCRIPT_RUN_ONESHOT_MAX_TIMEOUT_SECS
      else PLANNER_TOOL_TIMEOUT_SECS)"

section \<open>The texts of the loop guard\<close>

definition long_dash :: string where "long_dash = [CHR 0xE2, CHR 0x80, CHR 0x94]"

definition guard_msg_text :: "guard_msg \<Rightarrow> string" where
  "guard_msg_text m =
     (case m of
        ExceededTotal n \<Rightarrow>
          ''Circuit breaker: exceeded '' @ show_nat n @
          '' total tool calls in this loop. The agent appears to be stuck.''
      | IdenticalResults t \<Rightarrow>
          ''Blocked: tool '' @ quoted t @ '' is returning identical results repeatedly. '' @
          ''The current approach is not working '' @ long_dash @ '' try something different.''
      | IdenticalCalls t n \<Rightarrow>
          ''Blocked: tool '' @ quoted t @ '' called '' @ show_nat n @ '' times with identical parameters. '' @
          ''Try a different approach or different parameters.''
      | WarningsExhausted t n \<Rightarrow>
          ''Blocked: tool '' @ quoted t @ '' called '' @ show_nat n @ '' times with identical parameters '' @
          ''(warnings exhausted). Try a different approach.''
      | RepeatedCalls t n \<Rightarrow>
          ''Warning: tool '' @ quoted t @ '' has been called '' @ show_nat n @
          '' times with identical parameters. Consider a different approach.''
      | PingPong2 a b \<Rightarrow>
          ''Ping-pong detected: tools '' @ quoted a @ '' and '' @ quoted b @ '' are alternating repeatedly. '' @
          ''Break the cycle by trying a different approach.''
      | PingPong3 a b c \<Rightarrow>
          ''Ping-pong detected: tools '' @ quoted a @ '', '' @ quoted b @ '', '' @ quoted c @
          '' are cycling repeatedly. Break the cycle by trying a different approach.'')"

definition outcome_msg_text :: "string \<Rightarrow> string" where
  "outcome_msg_text t =
     ''Tool '' @ quoted t @ '' is returning identical results '' @ long_dash @ '' the approach isn'' @
     [CHR 0x27] @ ''t working.''"

text \<open>How the agent loop recognises a block of the guard.\<close>

definition is_guard_block :: "string \<Rightarrow> bool" where
  "is_guard_block content = (starts_with content ''Blocked:'' \<or> starts_with content ''Circuit breaker:'')"

section \<open>Properties of the batches\<close>

abbreviation batch_positions :: "nat \<times> nat \<Rightarrow> nat list" where
  "batch_positions b \<equiv> [fst b..<snd b]"

definition batch_ok :: "nat \<Rightarrow> ('a \<Rightarrow> tool_execution_lane) \<Rightarrow> 'a list \<Rightarrow> nat \<times> nat \<Rightarrow> bool" where
  "batch_ok idx lane_of items b \<longleftrightarrow>
     fst b < snd b \<and>
     (snd b = Suc (fst b) \<or> (\<forall>k \<in> set (batch_positions b). is_parallel_read (lane_of (items ! (k - idx)))))"

lemma upt_join: "a \<le> b \<Longrightarrow> b \<le> c \<Longrightarrow> [a..<b] @ [b..<c] = [a..<c]"
  using upt_add_eq_append [of a b "c - b"] by simp

lemma ordered_batches_from_ok:
  "concat (map batch_positions (ordered_batches_from idx lane_of items)) = [idx..<idx + length items]
   \<and> list_all (\<lambda>b. idx \<le> fst b \<and> batch_ok idx lane_of items b) (ordered_batches_from idx lane_of items)"
proof (induction idx lane_of items rule: ordered_batches_from.induct)
  case (1 idx lane_of items)
  show ?case
  proof (cases items)
    case Nil
    then show ?thesis by (simp add: ordered_batches_from.simps)
  next
    case (Cons x xs)
    let ?read = "\<lambda>y. is_parallel_read (lane_of y)"
    have shift: "list_all (\<lambda>b. idx \<le> fst b \<and> batch_ok idx lane_of items b) bs"
      if "list_all (\<lambda>b. idx + n \<le> fst b \<and> batch_ok (idx + n) lane_of (drop n items) b) bs" "n \<le> length items"
      for bs n
      using that by (auto simp: list_all_iff batch_ok_def)
    show ?thesis
    proof (cases "?read x")
      case True
      define n where "n = Suc (length (takeWhile ?read xs))"
      have n: "n \<le> length items" using Cons length_takeWhile_le [of ?read xs] by (simp add: n_def)
      have reads: "?read (items ! k)" if "k < n" for k
        using that True Cons takeWhile_nth [of "k - 1" ?read xs] set_takeWhileD [of _ ?read xs]
        by (cases k) (auto simp: n_def dest: nth_mem)
      have here: "batch_ok idx lane_of items (idx, idx + n)"
        using reads by (auto simp: batch_ok_def n_def)
      have e: "idx + n + length (drop n items) = idx + length items" using n by simp
      have join: "[idx..<idx + n] @ [idx + n..<idx + n + length (drop n items)] = [idx..<idx + length items]"
        unfolding e by (rule upt_join) (use n in simp_all)
      have unfold: "ordered_batches_from idx lane_of items
          = (idx, idx + n) # ordered_batches_from (idx + n) lane_of (drop n items)"
        using True by (simp add: Cons ordered_batches_from.simps [of idx lane_of "x # xs"] n_def Let_def)
      note IH = 1(1) [OF Cons True n_def [unfolded n_def], folded n_def]
      show ?thesis
        using IH shift [OF _ n] here join by (simp add: unfold del: upt_Suc)
    next
      case False
      have "[idx..<Suc idx] @ [idx + 1..<idx + 1 + length xs] = [idx..<idx + length items]"
        using upt_join [of idx "Suc idx" "idx + length items"] Cons by (simp del: upt_Suc)
      moreover have "batch_ok idx lane_of items (idx, idx + 1)" by (simp add: batch_ok_def)
      ultimately show ?thesis
        using 1(2) [OF Cons False] shift [of 1] False
        by (simp add: Cons ordered_batches_from.simps [of idx lane_of "x # xs"] del: upt_Suc)
    qed
  qed
qed

text \<open>
  The batches of a round run the calls in the declared order, each exactly once, and only read-only
  calls share a batch.
\<close>

lemma batches_keep_order:
  "concat (map batch_positions (ordered_batches lane_of items)) = [0..<length items]
   \<and> (\<forall>b \<in> set (ordered_batches lane_of items). fst b < snd b \<and> snd b \<le> length items
        \<and> (snd b = Suc (fst b) \<or> (\<forall>k \<in> set (batch_positions b). lane_of (items ! k) = ReadParallel)))"
proof -
  note * = ordered_batches_from_ok [of 0 lane_of items]
  have "snd b \<le> length items" if "b \<in> set (ordered_batches_from 0 lane_of items)" "fst b < snd b" for b
  proof -
    have "snd b - 1 \<in> set (concat (map batch_positions (ordered_batches_from 0 lane_of items)))"
      using that by (auto intro!: bexI [of _ b])
    then have "snd b - 1 < length items" using * by simp
    then show ?thesis by simp
  qed
  then show ?thesis using *
    by (auto simp: ordered_batches_def list_all_iff batch_ok_def is_parallel_read_def)
qed

section \<open>Properties of the removal\<close>

lemma dedup_calls_subseq: "subseq (dedup_calls env seen cs) cs"
  by (induction env seen cs rule: dedup_calls.induct) (auto simp: Let_def)

lemma dedup_keeps_serial:
  "filter (\<lambda>c. \<not> safe_to_deduplicate (tc_name c)) (dedup_calls env seen cs)
     = filter (\<lambda>c. \<not> safe_to_deduplicate (tc_name c)) cs"
  by (induction env seen cs rule: dedup_calls.induct) (auto simp: Let_def)

lemma dedup_covers:
  "c \<in> set cs \<Longrightarrow> compute_hash env (tc_name c) (tc_input c) \<in> set seen
     \<or> (\<exists>d \<in> set (dedup_calls env seen cs). compute_hash env (tc_name d) (tc_input d) = compute_hash env (tc_name c) (tc_input c))"
  by (induction env seen cs rule: dedup_calls.induct) (auto simp: Let_def)

text \<open>
  A tool that is not listed counts as read-only unless its name says otherwise: writing twice to a
  process, or creating two equal jobs, is one call.
\<close>

lemma unlisted_side_effects_deduplicated:
  "map safe_to_deduplicate [''process_write'', ''cron_create'', ''memory_store'', ''browser_click''] = [True, True, True, True]"
  by code_simp

text \<open>The early exit for blocked calls does not see a block for a ping-pong.\<close>

lemma ping_pong_block_unrecognised:
  "\<not> is_guard_block (guard_msg_text (PingPong2 a b))" "is_guard_block (guard_msg_text (IdenticalCalls a n))"
  "is_guard_block (guard_msg_text (IdenticalResults a))" "is_guard_block (guard_msg_text (WarningsExhausted a n))"
  by (simp_all add: is_guard_block_def guard_msg_text_def starts_with_def)

end
