(* ===== verification/Error_Guidance.thy ===== *)
theory Error_Guidance
  imports Tool_Round "HOL-Library.List_Lexorder" "HOL-Library.Char_ord"
begin

text \<open>
  What the agent loop tells the model after failed tool calls (\<^verbatim>\<open>crates/openfang-runtime/src/agent_loop.rs\<close>):
  the hints for known failures and the tracker that decides when guidance is given. Lower case
  outside ASCII is that of the environment. The order in which a hash set of tool names is listed is
  a parameter.
\<close>

section \<open>Known failures\<close>

text \<open>A test on a text in lower case: it contains one of, or all of, some phrases.\<close>

abbreviation has :: "string \<Rightarrow> string \<Rightarrow> bool" where
  "has lc p \<equiv> contains_str lc p"

definition has_any :: "string \<Rightarrow> string list \<Rightarrow> bool" where
  "has_any lc ps = list_ex (contains_str lc) ps"

definition looks_like_ainl_adapter_registration_failure :: "string \<Rightarrow> bool" where
  "looks_like_ainl_adapter_registration_failure content =
     (let lc = to_ascii_lowercase content
      in has_any lc [''adapter_registration_error'', ''missing_mcp_configurable'',
           [CHR 0x22] @ ''error_kind'' @ [CHR 0x22] @ '': '' @ [CHR 0x22] @ ''adapter_registration'' @
     [CHR 0x22],
           [CHR 0x22] @ ''error_kind'' @ [CHR 0x22] @ '':'' @ [CHR 0x22] @ ''adapter_registration'' @
     [CHR 0x22]]
         \<or> has lc ''adapter not registered'' \<and> has_any lc [''suggested_adapters'', ''runtime_readiness''])"

definition ainl_mcp_batch_is_adapter_registration_loop :: "(string \<times> string) list \<Rightarrow> bool" where
  "ainl_mcp_batch_is_adapter_registration_loop errors =
     (errors \<noteq> [] \<and> list_all (\<lambda>(name, _). starts_with name ''mcp_ainl_'') errors
      \<and> list_ex (\<lambda>(_, c). looks_like_ainl_adapter_registration_failure c) errors)"

definition hint_placeholder :: string where
  "hint_placeholder =
     ''you wrote a placeholder like '' @ [CHR 0x27] @ ''... truncated for brevity ...'' @
     [CHR 0x27] @ '' instead of the real content. Re-issue file_write with the FULL file body.''"

definition hint_write_escape :: string where
  "hint_write_escape =
     ''the path escaped the workspace root. Use a path relative to the agent workspace '' @
     ''(no absolute paths, no '' @ [CHR 0x27] @ ''..'' @ [CHR 0x27] @ '').''"

definition hint_write_empty :: string where
  "hint_write_empty =
     ''file_write needs both `path` and `content`. An empty body is treated as an '' @ ''error '' @
     [CHR 0xE2, CHR 0x80, CHR 0x94] @ '' pass the actual file text.''"

definition hint_read_missing :: string where
  "hint_read_missing =
     ''the path does not exist. Run file_list on the parent directory first to confirm '' @
     ''the exact name (case-sensitive).''"

definition hint_read_escape :: string where
  "hint_read_escape =
     ''the path escaped the workspace root. Use a relative path inside the agent '' @ ''workspace.''"

definition hint_shell_command :: string where
  "hint_shell_command =
     ''shell_exec requires a single string `command` field '' @ [CHR 0xE2, CHR 0x80, CHR 0x94] @
     '' do not pass an empty object or a list of arguments.''"

definition hint_shell_allowlist :: string where
  "hint_shell_allowlist =
     ''the binary is not in the agent'' @ [CHR 0x27] @
     ''s shell allowlist. Either pick an already-allowed command (curl, ls, jq, '' @
     [CHR 0xE2, CHR 0x80, CHR 0xA6] @ '') or surface this to the user.''"

definition hint_port_in_use :: string where
  "hint_port_in_use =
     ''the command failed because a TCP listen port is already in use (or the runtime '' @
     ''preflight detected it). Before starting another dev server, pick a free port, '' @
     ''stop the existing listener, or probe with `lsof -nP -iTCP:<port> -sTCP:LISTEN` '' @
     ''(macOS/Linux). Do not auto-start servers that bind ports unless the user asked.''"

definition hint_shell_ampersand :: string where
  "hint_shell_ampersand =
     ''the shell rejected the command (often `&` / `nohup` under `sh -c` in Full '' @
     ''mode). Prefer `process_start` with `command` + `args` + optional `cwd` for '' @
     ''daemons; in Allowlist mode use a single argv-safe command without shell list '' @
     ''operators.''"

definition hint_git_ssh :: string where
  "hint_git_ssh =
     ''git refused over SSH (publickey). Switch the URL to HTTPS '' @
     ''(https://github.com/<owner>/<repo>.git) or surface the missing key to the user.''"

definition hint_git_repo :: string where
  "hint_git_repo =
     ''GitHub returned '' @ [CHR 0x27] @ ''Repository not found'' @ [CHR 0x27] @
     ''. The repo may be private or the URL is wrong '' @ [CHR 0xE2, CHR 0x80, CHR 0x94] @
     '' verify the slug and, if private, ask the user for a token (Settings '' @
     [CHR 0xE2, CHR 0x86, CHR 0x92] @ '' Vault: GITHUB_TOKEN / GH_TOKEN, or `gh auth login`).''"

definition hint_dns :: string where
  "hint_dns =
     ''DNS / network failure reaching the host. Re-check the URL spelling and confirm '' @
     ''the agent has outbound network for that domain.''"

definition hint_not_a_clone :: string where
  "hint_not_a_clone =
     ''you ran a git command outside of a clone. cd into (or pass `-C`) the cloned '' @
     ''directory, or `git clone` the repo first.''"

definition hint_git_auth :: string where
  "hint_git_auth =
     ''GitHub auth failed for HTTPS. Use a token: `git -c http.extraheader='' @ [CHR 0x22] @
     ''AUTHORIZATION: bearer $GITHUB_TOKEN'' @ [CHR 0x22] @ '' clone '' @
     [CHR 0xE2, CHR 0x80, CHR 0xA6] @ ''`, `gh auth login`, or store a PAT under Settings '' @
     [CHR 0xE2, CHR 0x86, CHR 0x92] @ '' Vault (GITHUB_TOKEN / GH_TOKEN).''"

definition hint_git_typo :: string where
  "hint_git_typo =
     ''git rejected the subcommand. Use `git --help` to confirm the spelling (common '' @
     ''typos: `git colne`, `git statuts`).''"

definition hint_http_code :: string where
  "hint_http_code =
     ''HTTP fetch failed with an auth/not-found code. For GitHub raw files use '' @
     ''`https://raw.githubusercontent.com/<owner>/<repo>/<branch>/<path>` and add `-H '' @
     [CHR 0x22] @ ''Authorization: Bearer $GITHUB_TOKEN'' @ [CHR 0x22] @
     ''` for private repos (token in Settings '' @ [CHR 0xE2, CHR 0x86, CHR 0x92] @ '' Vault).''"

definition hint_fetch_rate :: string where
  "hint_fetch_rate =
     ''GitHub rate limit / 403 on web_fetch. Switch to the `github_subtree_download` '' @
     ''tool (one call enumerates the whole subdir and returns a manifest), and pass '' @
     ''`token` for higher quota.''"

definition hint_fetch_404 :: string where
  "hint_fetch_404 =
     ''GitHub 404 on web_fetch. To pull a directory, do not loop web_fetch '' @
     [CHR 0xE2, CHR 0x80, CHR 0x94] @
     '' call `github_subtree_download` with `repo` and `path`; it lists every file via '' @
     ''the Trees API and returns a manifest of what was actually written.''"

definition hint_fetch_github :: string where
  "hint_fetch_github =
     ''fetching GitHub via web_fetch is brittle '' @ [CHR 0xE2, CHR 0x80, CHR 0x94] @
     '' use `github_subtree_download` for whole subdirectories so the manifest tells '' @
     ''you exactly which files landed and which did not.''"

definition hint_subtree_repo :: string where
  "hint_subtree_repo =
     ''`github_subtree_download` needs a real `repo` '' @ [CHR 0xE2, CHR 0x80, CHR 0x94] @
     '' `owner/name` or a github.com URL. The optional `path` is the subdirectory '' @
     ''inside the repo.''"

definition hint_subtree_404 :: string where
  "hint_subtree_404 =
     ''GitHub returned 404 '' @ [CHR 0xE2, CHR 0x80, CHR 0x94] @
     '' usually a wrong branch (try `branch: '' @ [CHR 0x22] @ ''master'' @ [CHR 0x22] @
     ''`), a private repo (add `token`), or a typo in the slug. The tool already falls '' @
     ''back from `main` to `master` when no branch was specified.''"

definition hint_subtree_rate :: string where
  "hint_subtree_rate =
     ''GitHub rate limit hit before the manifest finished. Pass `token` (a PAT with '' @
     ''`public_repo` is enough for public repos) and re-run, or set GITHUB_TOKEN / '' @
     ''GH_TOKEN in Settings '' @ [CHR 0xE2, CHR 0x86, CHR 0x92] @
     '' Vault so the tool can pick it up.''"

definition hint_subtree_401 :: string where
  "hint_subtree_401 =
     ''GitHub returned 401 (bad credentials). If the tool input had `'' @ [CHR 0x22] @ ''token'' @
     [CHR 0x22] @ '': '' @ [CHR 0x22, CHR 0x22] @
     ''` or a placeholder, **omit** `token` entirely '' @ [CHR 0xE2, CHR 0x80, CHR 0x94] @
     '' an empty string is not a valid PAT and makes GitHub reject the request. Public '' @
     ''repos work unauthenticated. For private repos or higher rate limits, set a real '' @
     ''GitHub PAT in Settings '' @ [CHR 0xE2, CHR 0x86, CHR 0x92] @
     '' Vault (this is **not** the chat LLM provider API key).''"

definition hint_http_host :: string where
  "hint_http_host =
     ''the host is not on this agent'' @ [CHR 0x27] @
     ''s HTTP allowlist. Add it (e.g. `allow_hosts = ['' @ [CHR 0x22] @ ''github.com'' @ [CHR 0x22] @
     '', '' @ [CHR 0x22] @ ''raw.githubusercontent.com'' @ [CHR 0x22] @ '', '' @ [CHR 0x22] @
     ''api.github.com'' @ [CHR 0x22] @ '']`) or use a different already-allowed host.''"

definition hint_http_rate :: string where
  "hint_http_rate =
     ''GitHub rate limit / 403. Authenticate with a token (`Authorization: Bearer '' @
     ''$GITHUB_TOKEN`; store the PAT in Settings '' @ [CHR 0xE2, CHR 0x86, CHR 0x92] @ '' Vault) '' @
     [CHR 0xE2, CHR 0x80, CHR 0x94] @ '' unauthenticated quota is ~60 req/h.''"

definition hint_http_401 :: string where
  "hint_http_401 =
     ''GitHub returned 401. The token is missing, expired, or lacks scope. Ask the '' @
     ''user for a fresh PAT with `repo` scope (or `public_repo` for public).''"

definition hint_http_404 :: string where
  "hint_http_404 =
     ''GitHub 404. Either the path is wrong or the repo is private '' @
     [CHR 0xE2, CHR 0x80, CHR 0x94] @ '' for raw files use '' @
     ''`https://raw.githubusercontent.com/<owner>/<repo>/<branch>/<path>`; for private '' @
     ''repos add a token.''"

definition hint_ainl_include :: string where
  "hint_ainl_include =
     ''an include directive points at a file that does not exist on disk. file_write '' @
     ''the missing module first (or fix the include path), then re-run validate.''"

definition hint_ainl_registration :: string where
  "hint_ainl_registration =
     ''this is an MCP runtime registration issue: copy `suggested_adapters` from the '' @
     ''JSON (or build `adapters.enable` + per-adapter config) and pass it on the next '' @
     ''`mcp_ainl_ainl_run` call. Do not delete `fs`/`http`/`cache`/`sqlite` lines from '' @
     ''the source just to make validate pass '' @ [CHR 0xE2, CHR 0x80, CHR 0x94] @
     '' fix configuration instead.''"

definition hint_ainl_adapter :: string where
  "hint_ainl_adapter =
     ''an adapter referenced in the IR is not registered. Pass the adapter set in the '' @
     ''`adapters` argument of mcp_ainl_ainl_run (e.g. enable: ['' @ [CHR 0x22] @ ''http'' @
     [CHR 0x22] @ '', '' @ [CHR 0x22] @ ''fs'' @ [CHR 0x22] @ '']).''"

definition hint_ainl_strict :: string where
  "hint_ainl_strict =
     ''validation failed under --strict. Fix the diagnostic instead of re-running with '' @
     ''the same source; check the suggested_fix field on the first error.''"

text \<open>The first hint whose test holds.\<close>

definition first_hint :: "(bool \<times> string) list \<Rightarrow> string option" where
  "first_hint xs = map_option snd (find fst xs)"

definition SHELL_JOB_GUARD_TAG :: string where
  "SHELL_JOB_GUARD_TAG = ''shell job-control or background syntax''"

definition file_write_hint :: "string \<Rightarrow> string option" where
  "file_write_hint lc = first_hint
     [(has_any lc [''placeholder/truncation'', ''truncated for brevity''], hint_placeholder),
      (has_any lc [''escapes allowed root'', ''path traversal''], hint_write_escape),
      (has_any lc [''missing '' @ quoted ''content'', quoted ''content'' @ '' parameter''], hint_write_empty)]"

definition file_read_hint :: "string \<Rightarrow> string option" where
  "file_read_hint lc = first_hint
     [(has_any lc [''no such file'', ''not found''], hint_read_missing),
      (has_any lc [''escapes allowed root'', ''path traversal''], hint_read_escape)]"

definition shell_exec_hint :: "string \<Rightarrow> string option" where
  "shell_exec_hint lc = first_hint
     [(has_any lc [''missing '' @ quoted ''command'', quoted ''command'' @ '' parameter''], hint_shell_command),
      (has_any lc [''not in allowlist'', ''not allowed''], hint_shell_allowlist),
      (has_any lc [''address already in use'', ''eaddrinuse'', ''only one usage of each socket address'',
         ''preflight bind check''], hint_port_in_use),
      (\<not> has lc SHELL_JOB_GUARD_TAG \<and> has lc ''syntax error'' \<and> has lc ''&'', hint_shell_ampersand),
      (has_any lc [''permission denied (publickey)'', ''could not read from remote repository''], hint_git_ssh),
      (has lc ''repository not found'' \<or> has lc ''remote:'' \<and> has lc ''not found'', hint_git_repo),
      (has_any lc [''could not resolve host'', ''name or service not known''], hint_dns),
      (has lc ''fatal: not a git repository'', hint_not_a_clone),
      (has lc ''authentication failed'' \<and> has lc ''github'', hint_git_auth),
      (has lc ''did you mean'' \<and> has lc ''git'', hint_git_typo),
      (has_any lc [''curl:'', ''wget:''] \<and> has_any lc [''404'', ''403'', ''401''], hint_http_code)]"

definition web_fetch_hint :: "string \<Rightarrow> string option" where
  "web_fetch_hint lc =
     (if has_any lc [''raw.githubusercontent.com'', ''api.github.com'', ''github.com''] then
        Some (if has_any lc [''403'', ''rate limit''] then hint_fetch_rate
              else if has lc ''404'' then hint_fetch_404
              else hint_fetch_github)
      else None)"

definition github_subtree_hint :: "string \<Rightarrow> string option" where
  "github_subtree_hint lc = first_hint
     [(has_any lc [''could not parse'', ''missing `repo`''], hint_subtree_repo),
      (has_any lc ['' 404 '', ''returned 404''], hint_subtree_404),
      (has_any lc ['' 403 '', ''rate limit''], hint_subtree_rate),
      (has_any lc ['' 401 '', ''401 unauthorized'', ''bad credentials''], hint_subtree_401)]"

definition http_hint :: "string \<Rightarrow> string option" where
  "http_hint lc =
     (let mentions_github = has_any lc [''github.com'', ''raw.githubusercontent.com'', ''api.github.com'']
      in first_hint
        [(has_any lc [''not in allow_hosts'', ''host not allowed'', ''not in allowlist''], hint_http_host),
         (mentions_github \<and> (has_any lc [''rate limit'', '' 403 ''] \<or> ends_with lc ''403''), hint_http_rate),
         (mentions_github \<and> (has lc '' 401 '' \<or> ends_with lc ''401'' \<or> has lc ''bad credentials''), hint_http_401),
         (mentions_github \<and> (has lc '' 404 '' \<or> ends_with lc ''404''), hint_http_404)])"

definition mcp_ainl_hint :: "string \<Rightarrow> string \<Rightarrow> string option" where
  "mcp_ainl_hint content lc = first_hint
     [(has lc ''include'' \<and> has_any lc [''not found'', ''missing''], hint_ainl_include),
      (looks_like_ainl_adapter_registration_failure content, hint_ainl_registration),
      (has lc ''adapter'' \<and> has lc ''not registered'', hint_ainl_adapter),
      (has lc ''strict'' \<and> has lc ''validate'', hint_ainl_strict)]"

definition corrective_hint :: "guard_env \<Rightarrow> string \<times> string \<Rightarrow> string option" where
  "corrective_hint env e =
     (let name = fst e; content = snd e; lc = to_lowercase env content
      in if name = ''file_write'' then file_write_hint lc
         else if name = ''file_read'' then file_read_hint lc
         else if name = ''shell_exec'' then shell_exec_hint lc
         else if name = ''web_fetch'' then web_fetch_hint lc
         else if name = ''github_subtree_download'' then github_subtree_hint lc
         else if name \<in> {''http'', ''web'', ''mcp_http''} then http_hint lc
         else if starts_with name ''mcp_ainl_'' then mcp_ainl_hint content lc
         else None)"

fun corrective_hint_for_failures :: "guard_env \<Rightarrow> (string \<times> string) list \<Rightarrow> string option" where
  "corrective_hint_for_failures env [] = None"
| "corrective_hint_for_failures env (e # es) =
     (case corrective_hint env e of Some h \<Rightarrow> Some h | None \<Rightarrow> corrective_hint_for_failures env es)"

section \<open>The tracker\<close>

record tool_error_tracker =
  et_last_fingerprint :: "string option"
  et_same_fingerprint_streak :: nat

definition tracker_new :: tool_error_tracker where
  "tracker_new = \<lparr>et_last_fingerprint = None, et_same_fingerprint_streak = 0\<rparr>"

definition tracker_success :: "tool_error_tracker \<Rightarrow> tool_error_tracker" where
  "tracker_success tr = tr\<lparr>et_last_fingerprint := None, et_same_fingerprint_streak := 0\<rparr>"

definition block_errors :: "content_block list \<Rightarrow> (string \<times> string) list" where
  "block_errors bs =
     concat (map (\<lambda>b. case b of ToolResult _ name content e \<Rightarrow> if e then [(name, content)] else [] | _ \<Rightarrow> []) bs)"

definition error_fingerprint :: "(string \<times> string) list \<Rightarrow> string" where
  "error_fingerprint errors =
     join_str ''|'' (sort (map (\<lambda>(name, content). name @ '':'' @ take_chars 60 content) errors))"

definition has_missing_param :: "(string \<times> string) list \<Rightarrow> bool" where
  "has_missing_param errors =
     list_ex (\<lambda>(_, c). has c (''Missing '' @ [CHR 0x27]) \<and> has c ([CHR 0x27] @ '' parameter'')
                \<or> has_any c [''Missing required'', ''missing required'']) errors"

definition missing_param_guidance :: "string \<Rightarrow> string" where
  "missing_param_guidance tool_list =
     ''[System: Tool call(s) to ['' @ tool_list @ ''] are missing required parameters (received empty or incomplete input). Re-read '' @
     ''the tool schema and supply all required fields '' @ [CHR 0xE2, CHR 0x80, CHR 0x94] @
     '' do not call tools with empty {} inputs.]''"

definition failure_guidance :: "nat \<Rightarrow> string \<Rightarrow> string \<Rightarrow> string" where
  "failure_guidance n tool_list hint_text =
     ''[System: '' @ show_nat n @ '' tool call(s) failed (['' @ tool_list @ ''])'' @
     ''. Do not invent results from failed calls or take actions downstream of failed '' @
     ''outputs. If the task is not finished, retry with different parameters, a '' @
     ''different tool, or a different approach.'' @ hint_text @ '']''"

definition same_registration_guidance :: string where
  "same_registration_guidance =
     ''[System: The same AINL adapter-registration failure repeated. This is not a '' @
     ''reason to switch to a totally different approach: copy `suggested_adapters` '' @
     ''from the last MCP JSON into the next `mcp_ainl_ainl_run` call, fill host '' @
     ''allowlists / sandbox roots, and re-run. Do not delete '' @
     ''`fs`/`http`/`cache`/`sqlite` usage from the graph to '' @ [CHR 0x22] @ ''pass'' @ [CHR 0x22] @
     '' unless the user explicitly changes requirements.]''"

definition same_error_guidance :: string where
  "same_error_guidance =
     ''[System: The same tool error has occurred twice in a row. You are not making '' @
     ''progress. Stop using the failing tool(s), recall your original goal, and switch '' @
     ''to a completely different method to accomplish it.]''"

definition first_guidance ::
  "guard_env \<Rightarrow> (string list \<Rightarrow> string list) \<Rightarrow> (string \<times> string) list \<Rightarrow> nat \<Rightarrow> string" where
  "first_guidance env order errors non_denial =
     (let tool_list = join_str '', '' (order (remdups (map fst errors)))
      in if has_missing_param errors then missing_param_guidance tool_list
         else failure_guidance non_denial tool_list
           (case corrective_hint_for_failures env errors of Some h \<Rightarrow> '' Hint: '' @ h | None \<Rightarrow> []))"

definition note_errors :: "(string \<times> string) list \<Rightarrow> tool_error_tracker \<Rightarrow> tool_error_tracker" where
  "note_errors errors tr =
     (let fp = error_fingerprint errors
      in if et_last_fingerprint tr = Some fp
         then tr\<lparr>et_same_fingerprint_streak := et_same_fingerprint_streak tr + 1\<rparr>
         else tr\<lparr>et_last_fingerprint := Some fp, et_same_fingerprint_streak := 1\<rparr>)"

definition compute_guidance ::
  "guard_env \<Rightarrow> (string list \<Rightarrow> string list) \<Rightarrow> content_block list \<Rightarrow> nat \<Rightarrow> tool_error_tracker
     \<Rightarrow> string option \<times> tool_error_tracker" where
  "compute_guidance env order blocks denial_count tr =
     (let errors = block_errors blocks; tr1 = note_errors errors tr
      in if errors = [] then (None, tracker_success tr)
         else if list_all (\<lambda>(_, content). is_guard_block content) errors then (None, tr1)
         else if length errors - denial_count = 0 then (None, tr1)
         else if et_same_fingerprint_streak tr1 = 1 then
           (Some (first_guidance env order errors (length errors - denial_count)), tr1)
         else if et_same_fingerprint_streak tr1 = 2 then
           (Some (if ainl_mcp_batch_is_adapter_registration_loop errors then same_registration_guidance
                  else same_error_guidance), tr1)
         else (None, tr1))"

section \<open>Properties\<close>

text \<open>The same errors round after round: guided twice, differently, then left to the loop guard.\<close>

fun guidance_run ::
  "guard_env \<Rightarrow> (string list \<Rightarrow> string list) \<Rightarrow> (content_block list \<times> nat) list \<Rightarrow> tool_error_tracker \<Rightarrow> string option list" where
  "guidance_run env order [] tr = []"
| "guidance_run env order ((bs, d) # rounds) tr =
     (case compute_guidance env order bs d tr of (g, tr') \<Rightarrow> g # guidance_run env order rounds tr')"

lemma note_errors_same:
  "et_last_fingerprint tr = Some (error_fingerprint errors) \<Longrightarrow>
     note_errors errors tr = tr\<lparr>et_same_fingerprint_streak := et_same_fingerprint_streak tr + 1\<rparr>"
  by (simp add: note_errors_def)

lemma guidance_silent:
  assumes "et_last_fingerprint tr = Some (error_fingerprint (block_errors bs))" "2 \<le> et_same_fingerprint_streak tr"
    and "block_errors bs \<noteq> []"
  shows "guidance_run env order (replicate n (bs, d)) tr = replicate n None"
  using assms(1,2)
proof (induction n arbitrary: tr)
  case (Suc n)
  have "compute_guidance env order bs d tr
      = (None, tr\<lparr>et_same_fingerprint_streak := et_same_fingerprint_streak tr + 1\<rparr>)"
    using Suc.prems assms(3) by (simp add: compute_guidance_def note_errors_same Let_def)
  then show ?case using Suc by simp
qed simp

lemma repeated_failure_guided_twice:
  assumes "block_errors bs \<noteq> []" "\<not> list_all (\<lambda>(_, content). is_guard_block content) (block_errors bs)"
    and "d < length (block_errors bs)" "et_last_fingerprint tr \<noteq> Some (error_fingerprint (block_errors bs))"
  shows "guidance_run env order (replicate (n + 2) (bs, d)) tr
    = Some (first_guidance env order (block_errors bs) (length (block_errors bs) - d))
      # Some (if ainl_mcp_batch_is_adapter_registration_loop (block_errors bs) then same_registration_guidance
              else same_error_guidance)
      # replicate n None"
proof -
  let ?fp = "error_fingerprint (block_errors bs)"
  have 1: "compute_guidance env order bs d tr
      = (Some (first_guidance env order (block_errors bs) (length (block_errors bs) - d)),
         tr\<lparr>et_last_fingerprint := Some ?fp, et_same_fingerprint_streak := 1\<rparr>)"
    using assms by (simp add: compute_guidance_def note_errors_def Let_def)
  have 2: "compute_guidance env order bs d (tr\<lparr>et_last_fingerprint := Some ?fp, et_same_fingerprint_streak := 1\<rparr>)
      = (Some (if ainl_mcp_batch_is_adapter_registration_loop (block_errors bs) then same_registration_guidance
              else same_error_guidance),
         tr\<lparr>et_last_fingerprint := Some ?fp, et_same_fingerprint_streak := 2\<rparr>)"
    using assms by (simp add: compute_guidance_def note_errors_def Let_def)
  show ?thesis
    using guidance_silent [of "tr\<lparr>et_last_fingerprint := Some ?fp, et_same_fingerprint_streak := 2\<rparr>" bs env order n d] assms(1)
    by (simp add: 1 2 del: One_nat_def)
qed

end
