(* ===== verification/Turn_Checks.thy ===== *)
theory Turn_Checks
  imports Error_Guidance
begin

text \<open>
  Checks on what the model says and on AINL authoring (\<^verbatim>\<open>crates/openfang-runtime/src/agent_loop.rs\<close>):
  answers that claim an action without the tool for it, and the gate that keeps a turn from ending
  as a success after a failed AINL tool call. A set of tool names is a list; lower case outside
  ASCII, SHA-256 and JSON parsing are those of the environment.
\<close>

section \<open>Claims without a tool call\<close>

definition ACTION_VERBS :: "string list" where
  "ACTION_VERBS = [''sent '', ''posted '', ''emailed '', ''delivered '', ''forwarded '']"

definition CHANNEL_REFS :: "string list" where
  "CHANNEL_REFS =
     [''telegram'', ''whatsapp'', ''slack'', ''discord'', ''email'', ''channel'', ''message sent'',
      ''successfully sent'', ''has been sent'']"

definition phantom_action_detected :: "guard_env \<Rightarrow> string \<Rightarrow> bool" where
  "phantom_action_detected env s =
     (let lower = to_lowercase env s in has_any lower ACTION_VERBS \<and> has_any lower CHANNEL_REFS)"

definition START_CLAIMS :: "string list" where
  "START_CLAIMS =
     [''is up in background'', ''started it now'', ''starting it now'', ''starting now'', ''started now'',
      ''proc_1 is up'', ''process started'', ''bot started'', ''is now running'', ''is now up'']"

definition KILL_CLAIMS :: "string list" where
  "KILL_CLAIMS = [''killed it'', ''stopped the bot'', ''process stopped'', ''process killed'', ''is now stopped'']"

definition process_phantom_detected :: "guard_env \<Rightarrow> string \<Rightarrow> string list \<Rightarrow> bool" where
  "process_phantom_detected env s tools_called =
     (let lower = to_lowercase env s
      in ''process_start'' \<notin> set tools_called \<and> ''script_run'' \<notin> set tools_called
           \<and> ''workspace_action'' \<notin> set tools_called \<and> has_any lower START_CLAIMS
         \<or> ''process_kill'' \<notin> set tools_called \<and> ''process_stop'' \<notin> set tools_called
           \<and> has_any lower KILL_CLAIMS)"

definition SCHED_TOOLS :: "string list" where
  "SCHED_TOOLS =
     [''schedule_create'', ''schedule_list'', ''schedule_delete'', ''cron_create'', ''cron_list'', ''cron_cancel'']"

definition scheduling_phantom_detected :: "guard_env \<Rightarrow> string \<Rightarrow> string \<Rightarrow> string list \<Rightarrow> bool" where
  "scheduling_phantom_detected env user_text assistant_text tools_called =
     (if list_ex (\<lambda>n. n \<in> set SCHED_TOOLS) tools_called then False
      else
        let u = to_lowercase env user_text
        in if \<not> (has_any u [''schedule'', ''cron''] \<and> has_any u [''every '', ''daily'', ''weekly'', ''recurring'',
              ''attach'', ''ainl'', ''timer'']) then False
           else
             let a = to_lowercase env assistant_text
             in has_any a [''scheduled'', ''cron job'', ''set up a schedule'']
                \<or> has a ''added to'' \<and> has_any a [''scheduler'', ''schedule'']
                \<or> has_any a [''will run every'', ''runs every'']
                \<or> has a ''created'' \<and> has a ''job'' \<and> has a ''recur'')"

definition EXECUTION_REQUESTS :: "string list" where
  "EXECUTION_REQUESTS =
     [''can you start'', ''start the'', ''stop the'', ''restart'', ''run it'', ''fix it'', ''please fix'', ''do it'']"

definition HANDOFF_MARKERS :: "string list" where
  "HANDOFF_MARKERS =
     [''paste into terminal'', ''terminal fix'', ''terminal ('', ''run this'', ''copy'', ''nohup'', ''lsof -ti'']"

definition EXECUTION_TOOLS :: "string list" where
  "EXECUTION_TOOLS =
     [''shell_exec'', ''process_start'', ''process_kill'', ''script_run'', ''workspace_action'', ''apply_patch'',
      ''file_write'']"

definition terminal_handoff_detected :: "guard_env \<Rightarrow> string \<Rightarrow> string \<Rightarrow> string list \<Rightarrow> bool" where
  "terminal_handoff_detected env user_text assistant_text tools_called =
     (let u = to_lowercase env user_text; t = to_lowercase env assistant_text
      in if \<not> has_any u EXECUTION_REQUESTS then False
         else if has_any u [''what command'', ''show command'', ''terminal command'', ''copy paste''] then False
         else if \<not> (has_any t HANDOFF_MARKERS \<or> has t ''```'' \<and> has_any t [''bash'', ''sh'']) then False
         else if \<not> list_ex (\<lambda>n. n \<in> set EXECUTION_TOOLS) tools_called then True
         else has_any t [''what to do next'', ''next:'', ''share curl'', ''post-restart''])"

section \<open>AINL authoring: proofs and failures\<close>

record pending_ainl_failure =
  pa_tool_name :: string
  pa_tool_use_id :: "string option"
  pa_target_path :: "string option"
  pa_target_code_sha256 :: "string option"
  pa_strict :: "bool option"
  pa_summary :: string
  pa_blocked_final_attempts :: nat

definition MAX_AINL_AUTHORING_PREMATURE_FINAL_ATTEMPTS :: nat where
  "MAX_AINL_AUTHORING_PREMATURE_FINAL_ATTEMPTS = 3"

datatype ainl_proof_category =
    StrictValidRealFile
  | StrictValidMockOnly
  | NonStrictValidRealFile
  | MockValidOnly
  | RunCompletedRealFile
  | RunCompletedMockOnly

record ainl_proof =
  ap_tool_name :: string
  ap_tool_use_id :: string
  ap_target_path :: "string option"
  ap_target_code_sha256 :: "string option"
  ap_strict :: "bool option"
  ap_category :: ainl_proof_category

definition is_ainl_authoring_gate_tool :: "string \<Rightarrow> bool" where
  "is_ainl_authoring_gate_tool tool_name =
     (tool_name \<in> {''mcp_ainl_ainl_validate'', ''mcp_ainl_ainl_compile'', ''mcp_ainl_ainl_run''})"

text \<open>The JSON of a tool result, without the annotations of the loop guard.\<close>

definition loop_guard_note :: string where
  "loop_guard_note = [CHR 0x0A, CHR 0x0A] @ ''[LOOP GUARD]''"

definition result_json :: "guard_env \<Rightarrow> string \<Rightarrow> json option" where
  "result_json env content =
     (let trimmed = trim content
      in json_from_str env
           (trim (case find_str loop_guard_note trimmed of Some k \<Rightarrow> take k trimmed | None \<Rightarrow> trimmed)))"

definition tool_result_is_ainl_tool_wiring_error :: "guard_env \<Rightarrow> string \<Rightarrow> bool" where
  "tool_result_is_ainl_tool_wiring_error env content =
     (case result_json env content of
        None \<Rightarrow> False
      | Some v \<Rightarrow>
          Option.bind (json_get ''tool_call_error'' v) as_bool = Some True
          \<or> Option.bind (json_get ''error'' v) as_str = Some ''missing required argument: code'')"

definition tool_result_json_ok_true :: "guard_env \<Rightarrow> string \<Rightarrow> bool" where
  "tool_result_json_ok_true env content =
     (Option.bind (result_json env content) (\<lambda>v. Option.bind (json_get ''ok'' v) as_bool) = Some True)"

definition extract_ainl_target ::
  "guard_env \<Rightarrow> tool_call \<Rightarrow> string option \<times> string option \<times> bool option" where
  "extract_ainl_target env c =
     (Option.bind (json_get ''path'' (tc_input c)) as_str,
      map_option (sha256_hex env) (Option.bind (json_get ''code'' (tc_input c)) as_str),
      Option.bind (json_get ''strict'' (tc_input c)) as_bool)"

definition user_explicitly_requested_non_strict :: "string \<Rightarrow> bool" where
  "user_explicitly_requested_non_strict user_text =
     has_any (to_ascii_lowercase user_text)
       [''strict=false'', ''strict false'', ''non-strict'', ''non strict'', ''not strict'', ''without strict'']"

type_synonym calls_by_id = "string \<Rightarrow> tool_call option"

text \<open>A hash map collected from a list: a later call with the same identifier wins.\<close>

definition calls_by_id :: "tool_call list \<Rightarrow> calls_by_id" where
  "calls_by_id calls = map_of (rev (map (\<lambda>c. (tc_id c, c)) calls))"

fun update_last_strict_validate ::
  "guard_env \<Rightarrow> calls_by_id \<Rightarrow> content_block list \<Rightarrow> string option \<Rightarrow> string option" where
  "update_last_strict_validate env calls [] last_hash = last_hash"
| "update_last_strict_validate env calls (b # bs) last_hash =
     update_last_strict_validate env calls bs
       (case b of
          ToolResult i name content e \<Rightarrow>
            if e \<or> name \<noteq> ''mcp_ainl_ainl_validate'' \<or> \<not> tool_result_json_ok_true env content then last_hash
            else (case calls i of
                    None \<Rightarrow> last_hash
                  | Some c \<Rightarrow>
                      (case extract_ainl_target env c of
                         (_, code_sha256, strict) \<Rightarrow>
                           if strict = Some True \<and> code_sha256 \<noteq> None then code_sha256 else last_hash))
        | _ \<Rightarrow> last_hash)"

definition ainl_run_blocked_text :: string where
  "ainl_run_blocked_text =
     ''Blocked: `mcp_ainl_ainl_run` requires a successful strict validate of the same '' @
     ''`code` first. Call `mcp_ainl_ainl_validate` with `{code: <full source>, strict: '' @
     ''true}` and only then re-run.''"

definition ainl_run_requires_strict_validate_first ::
  "guard_env \<Rightarrow> tool_call \<Rightarrow> string option \<Rightarrow> bool \<Rightarrow> string option" where
  "ainl_run_requires_strict_validate_first env c last_hash allow_non_strict =
     (if tc_name c \<noteq> ''mcp_ainl_ainl_run'' then None
      else if allow_non_strict then None
      else case Option.bind (json_get ''code'' (tc_input c)) as_str of
             None \<Rightarrow> None
           | Some code \<Rightarrow> if Some (sha256_hex env code) \<noteq> last_hash then Some ainl_run_blocked_text else None)"

definition proof_category_for_success :: "string \<Rightarrow> string option \<Rightarrow> bool option \<Rightarrow> ainl_proof_category" where
  "proof_category_for_success tool_name target_path strict =
     (let is_real_file = (target_path \<noteq> None); is_strict = (case strict of Some s \<Rightarrow> s | None \<Rightarrow> True)
      in if tool_name = ''mcp_ainl_ainl_run''
         then (if is_real_file then RunCompletedRealFile else RunCompletedMockOnly)
         else if is_strict \<and> is_real_file then StrictValidRealFile
         else if is_strict \<and> \<not> is_real_file then StrictValidMockOnly
         else if \<not> is_strict \<and> is_real_file then NonStrictValidRealFile
         else MockValidOnly)"

definition proof_of_block :: "guard_env \<Rightarrow> calls_by_id \<Rightarrow> content_block \<Rightarrow> ainl_proof option" where
  "proof_of_block env calls b =
     (case b of
        ToolResult i name content e \<Rightarrow>
          if e \<or> \<not> is_ainl_authoring_gate_tool name \<or> \<not> tool_result_json_ok_true env content then None
          else (case calls i of
                  None \<Rightarrow> None
                | Some c \<Rightarrow>
                    (case extract_ainl_target env c of
                       (path, code_sha256, strict) \<Rightarrow>
                         Some \<lparr>ap_tool_name = name, ap_tool_use_id = i, ap_target_path = path,
                               ap_target_code_sha256 = code_sha256, ap_strict = strict,
                               ap_category = proof_category_for_success name path strict\<rparr>))
      | _ \<Rightarrow> None)"

fun first_of :: "('a \<Rightarrow> 'b option) \<Rightarrow> 'a list \<Rightarrow> 'b option" where
  "first_of f [] = None"
| "first_of f (x # xs) = (case f x of Some y \<Rightarrow> Some y | None \<Rightarrow> first_of f xs)"

definition ainl_proof_from_tool_results ::
  "guard_env \<Rightarrow> content_block list \<Rightarrow> calls_by_id \<Rightarrow> ainl_proof option" where
  "ainl_proof_from_tool_results env bs calls = first_of (proof_of_block env calls) (rev bs)"

definition bool_text :: "bool \<Rightarrow> string" where
  "bool_text b = (if b then ''true'' else ''false'')"

definition category_text :: "ainl_proof_category \<Rightarrow> string" where
  "category_text c =
     (case c of
        StrictValidRealFile \<Rightarrow> ''strict_valid_real_file''
      | StrictValidMockOnly \<Rightarrow> ''mock_valid_only_strict''
      | NonStrictValidRealFile \<Rightarrow> ''non_strict_valid_real_file''
      | MockValidOnly \<Rightarrow> ''mock_valid_only''
      | RunCompletedRealFile \<Rightarrow> ''run_completed_real_file''
      | RunCompletedMockOnly \<Rightarrow> ''run_completed_mock_only'')"

definition format_ainl_proof_provenance :: "ainl_proof \<Rightarrow> string" where
  "format_ainl_proof_provenance p =
     join_str '', ''
       ([''tool='' @ ap_tool_name p, ''tool_use_id='' @ take_chars 12 (ap_tool_use_id p),
         (case ap_target_path p of Some x \<Rightarrow> ''path='' @ x | None \<Rightarrow> ''path=<none>'')]
        @ (case ap_target_code_sha256 p of Some h \<Rightarrow> [''code_sha256='' @ take_chars 12 h] | None \<Rightarrow> [])
        @ (case ap_strict p of Some s \<Rightarrow> [''strict='' @ bool_text s] | None \<Rightarrow> [])
        @ [''category='' @ category_text (ap_category p)])"

definition failure_of_block :: "guard_env \<Rightarrow> calls_by_id \<Rightarrow> content_block \<Rightarrow> pending_ainl_failure option" where
  "failure_of_block env calls b =
     (case b of
        ToolResult i name content e \<Rightarrow>
          if \<not> e \<or> \<not> is_ainl_authoring_gate_tool name \<or> tool_result_is_ainl_tool_wiring_error env content then None
          else (case (case calls i of Some c \<Rightarrow> extract_ainl_target env c | None \<Rightarrow> (None, None, None)) of
                  (path, code_sha256, strict) \<Rightarrow>
                    Some \<lparr>pa_tool_name = name, pa_tool_use_id = Some i, pa_target_path = path,
                          pa_target_code_sha256 = code_sha256, pa_strict = strict,
                          pa_summary = take_chars 1200 content, pa_blocked_final_attempts = 0\<rparr>)
      | _ \<Rightarrow> None)"

definition ainl_authoring_failure_from_tool_results ::
  "guard_env \<Rightarrow> content_block list \<Rightarrow> calls_by_id \<Rightarrow> pending_ainl_failure option" where
  "ainl_authoring_failure_from_tool_results env bs calls = first_of (failure_of_block env calls) bs"

text \<open>Whether a successful call of a gate tool settles a pending failure.\<close>

definition settles_failure ::
  "guard_env \<Rightarrow> calls_by_id \<Rightarrow> bool \<Rightarrow> string \<Rightarrow> string \<Rightarrow> pending_ainl_failure \<Rightarrow> bool" where
  "settles_failure env calls allow_non_strict name i p =
     (if pa_tool_name p \<noteq> name then False
      else if pa_target_path p = None \<and> pa_target_code_sha256 p = None \<and> pa_strict p = None then True
      else case calls i of
             None \<Rightarrow> False
           | Some c \<Rightarrow>
               (case extract_ainl_target env c of
                  (path, code_sha256, strict) \<Rightarrow>
                    (pa_target_path p \<noteq> None \<longrightarrow> path = pa_target_path p)
                    \<and> (pa_target_code_sha256 p \<noteq> None \<longrightarrow> code_sha256 = pa_target_code_sha256 p)
                    \<and> (pa_strict p \<noteq> None \<longrightarrow> allow_non_strict \<or> strict = pa_strict p)))"

definition ainl_authoring_success_in_tool_results ::
  "guard_env \<Rightarrow> content_block list \<Rightarrow> pending_ainl_failure option \<Rightarrow> calls_by_id \<Rightarrow> bool \<Rightarrow> bool" where
  "ainl_authoring_success_in_tool_results env bs pending calls allow_non_strict =
     list_ex (\<lambda>b. case b of
        ToolResult i name content e \<Rightarrow>
          \<not> e \<and> is_ainl_authoring_gate_tool name \<and> tool_result_json_ok_true env content
          \<and> (case pending of Some p \<Rightarrow> settles_failure env calls allow_non_strict name i p | None \<Rightarrow> True)
      | _ \<Rightarrow> False) bs"

section \<open>AINL authoring: what the model and the user are told\<close>

definition ainl_authoring_tool_label :: "string \<Rightarrow> string" where
  "ainl_authoring_tool_label tool_name =
     (if tool_name = ''mcp_ainl_ainl_validate'' then ''validation''
      else if tool_name = ''mcp_ainl_ainl_compile'' then ''compilation''
      else if tool_name = ''mcp_ainl_ainl_run'' then ''execution''
      else ''authoring'')"

definition registration_supplement :: string where
  "registration_supplement =
     [CHR 0x0A, CHR 0x0A] @ ''Supplement: If the JSON mentions `suggested_adapters` / '' @
     ''`adapter_registration_error`, this is a **host configuration** gap, not an AINL '' @
     ''syntax bug. Retry `mcp_ainl_ainl_run` with the same `code` and pass the '' @
     ''suggested `adapters` object (fill in absolute `fs.root`, `http.allow_hosts`, '' @
     ''etc.). Do not strip `fs`/`http`/`cache`/`sqlite` usage from the program just to '' @
     ''obtain `ok:true` unless the user explicitly narrows the task.''"

definition target_bits :: "pending_ainl_failure \<Rightarrow> string" where
  "target_bits p =
     (let bits =
        (case pa_tool_use_id p of Some i \<Rightarrow> [''tool_use_id='' @ take_chars 12 i] | None \<Rightarrow> [])
        @ (case pa_target_path p of Some x \<Rightarrow> [''path='' @ x] | None \<Rightarrow> [])
        @ (case pa_target_code_sha256 p of Some h \<Rightarrow> [''code_sha256='' @ take_chars 12 h] | None \<Rightarrow> [])
        @ (case pa_strict p of Some s \<Rightarrow> [''strict='' @ bool_text s] | None \<Rightarrow> [])
      in if bits = [] then [] else '' (target: '' @ join_str '', '' bits @ '')'')"

definition ticked :: "string \<Rightarrow> string" where
  "ticked s = ''`'' @ s @ ''`''"

definition ainl_authoring_repair_required_prompt :: "pending_ainl_failure \<Rightarrow> string" where
  "ainl_authoring_repair_required_prompt p =
     (let label = ainl_authoring_tool_label (pa_tool_name p); tool = pa_tool_name p;
          supplement = (if tool = ''mcp_ainl_ainl_run'' \<and> looks_like_ainl_adapter_registration_failure (pa_summary p)
                        then registration_supplement else [])
      in ''[System: '' @ ticked tool @ '' reported an AINL '' @ label @ '' failure'' @ target_bits p @
         ''. You may not claim the workflow is fixed, ready, executed, scheduled, or '' @
         ''successful yet. Do not downgrade to strict=false or call the strict failure '' @ [CHR 0x22] @
         ''non-blocking'' @ [CHR 0x22] @
         ''. You must use file_read/file_write/apply_patch as needed to fix the '' @
         ''diagnostic, then call '' @
         ticked tool @ '' again with the updated source/arguments. Continue this repair '' @
         [CHR 0xE2, CHR 0x86, CHR 0x92] @ '' retry loop until '' @ ticked tool @ '' returns `ok: true`.'' @
         [CHR 0x0A, CHR 0x0A] @ ''Last AINL '' @ label @ '' failure:'' @ [CHR 0x0A] @ pa_summary p @ supplement @ '']'')"

definition no_identity_note :: string where
  "no_identity_note =
     [CHR 0x0A, CHR 0x0A] @
     ''Note: the failing tool call did not include a resolvable `path` or `code` '' @ ''identity '' @
     [CHR 0xE2, CHR 0x80, CHR 0x94] @
     '' a later `ok:true` on a different snippet does **not** clear this obligation '' @
     ''until you re-run the same tool with the real file source in `code`.'' @ [CHR 0x0A]"

definition mock_only_note :: string where
  "mock_only_note =
     [CHR 0x0A, CHR 0x0A] @
     ''The last successful strict check was **mock-only** (no `path` on that '' @
     ''validate/compile call) while this failure targets a **real file** '' @
     [CHR 0xE2, CHR 0x80, CHR 0x94] @
     '' treat that as **not** satisfying repair for the on-disk workflow.'' @ [CHR 0x0A]"

definition ainl_authoring_unresolved_summary :: "pending_ainl_failure \<Rightarrow> ainl_proof option \<Rightarrow> string" where
  "ainl_authoring_unresolved_summary p last_proof =
     (let label = ainl_authoring_tool_label (pa_tool_name p);
          identity_note = (if pa_target_path p = None \<and> pa_target_code_sha256 p = None then no_identity_note else []);
          proof_line = (case last_proof of
              Some q \<Rightarrow> [CHR 0x0A, CHR 0x0A] @ ''Last proven AINL status (provenance):'' @ [CHR 0x0A] @
                        format_ainl_proof_provenance q
            | None \<Rightarrow> []);
          category_note = (case last_proof of
              Some q \<Rightarrow>
                if pa_target_path p \<noteq> None \<and> ap_category q = StrictValidMockOnly
                   \<and> (pa_tool_name p = ''mcp_ainl_ainl_validate'' \<or> pa_tool_name p = ''mcp_ainl_ainl_compile'')
                then mock_only_note else []
            | None \<Rightarrow> [])
      in ''I could not complete the task because '' @ ticked (pa_tool_name p) @ '' still reports an AINL '' @ label @
         '' failure. I will not claim it ran successfully until that tool returns `ok: true`.'' @
         [CHR 0x0A, CHR 0x0A] @ ''Last AINL '' @ label @ '' failure:'' @ [CHR 0x0A] @ pa_summary p @
         identity_note @ category_note @ proof_line)"

section \<open>Properties\<close>

text \<open>
  A failure of a real file is not settled by a success elsewhere: the settling call was made with the
  same tool, the same path and the same code as the failing one.
\<close>

lemma settles_same_target:
  assumes "settles_failure env calls allow name i p"
    and "pa_target_path p \<noteq> None \<or> pa_target_code_sha256 p \<noteq> None"
  shows "\<exists>c path h s. calls i = Some c \<and> extract_ainl_target env c = (path, h, s) \<and> name = pa_tool_name p
    \<and> (pa_target_path p = None \<or> path = pa_target_path p)
    \<and> (pa_target_code_sha256 p = None \<or> h = pa_target_code_sha256 p)"
  using assms by (auto simp: settles_failure_def split: if_splits option.splits prod.splits)

text \<open>
  With code on record the failing source itself would have to succeed: a call with repaired code has
  another hash and does not settle the failure, whatever it returns.
\<close>

lemma repaired_code_never_settles:
  assumes "pa_target_code_sha256 p = Some h" "calls i = Some c"
    and "snd (extract_ainl_target env c) = (Some h', s)" "h' \<noteq> h"
  shows "\<not> settles_failure env calls allow name i p"
  using assms by (auto simp: settles_failure_def split: prod.splits)

end
