(* ===== verification/Agent_Loop.thy ===== *)
theory Agent_Loop
  imports Turn_Checks Reply_Directives Compactor Heartbeat
begin

text \<open>
  One turn of an agent (\<^verbatim>\<open>run_agent_loop\<close> of \<^verbatim>\<open>crates/openfang-runtime/src/agent_loop.rs\<close>): the history is
  prepared, the model is called, its answer is checked, the tools it asks for are run, and so on until
  an answer is accepted or a limit is reached. The outside world is a state \<open>'w\<close> with the operations
  the loop calls: the model (with its retries and fallbacks), the hooks, the execution of a batch of
  tool calls, the saving of the session, the injected messages. The tool calls recovered from the text
  of weak models and the compression of the final text are parameters too. Left out are the effects
  the loop does not read back (graph memory, learning, telemetry, the embedding store), the composition
  of the system prompt, which is given, the planner path, which replaces the loop when an inference
  server offers it, and the streaming twin of the loop.
\<close>

section \<open>The model's answer\<close>

record completion_response =
  re_content :: "content_block list"
  re_stop_reason :: stop_reason
  re_tool_calls :: "tool_call list"
  re_usage :: token_usage

definition has_any_content :: "completion_response \<Rightarrow> bool" where
  "has_any_content r =
     list_ex (\<lambda>b. case b of TextBlock t _ \<Rightarrow> t \<noteq> [] | Thinking t \<Rightarrow> t \<noteq> []
                | ToolUse _ _ _ _ \<Rightarrow> True | ImageBlock _ _ \<Rightarrow> True | _ \<Rightarrow> False) (re_content r)"

definition strip_provider_prefix :: "string \<Rightarrow> string \<Rightarrow> string" where
  "strip_provider_prefix model provider =
     (if starts_with model (provider @ ''/'') then drop (length provider + 1) model
      else if starts_with model (provider @ '':'') then drop (length provider + 1) model
      else model)"

section \<open>Outcomes, configuration and state\<close>

datatype agent_loop_outcome =
    OutCompleted
  | OutSilent
  | OutFailedSafely
  | OutBlockedByLoopGuard
  | OutProviderFailure
  | OutMaxContinuations
  | OutMaxIterations
  | OutAinlAuthoringUnresolved
  | OutPlannerCompleted

definition is_task_success :: "agent_loop_outcome \<Rightarrow> bool" where
  "is_task_success out = (out = OutCompleted \<or> out = OutSilent \<or> out = OutPlannerCompleted)"

record agent_loop_result =
  rs_response :: string
  rs_total_usage :: token_usage
  rs_iterations :: nat
  rs_silent :: bool
  rs_outcome :: agent_loop_outcome
  rs_directives :: directive_set

datatype turn_error = ModelError string | MemoryError string | InternalError string

record turn_config =
  tn_model :: string
  tn_provider :: string
  tn_max_tokens :: nat
  tn_temperature :: rat
  tn_tools :: "tool_definition list"
  tn_system_prompt :: string
  tn_user_message :: string
  tn_user_blocks :: "content_block list option"
  tn_canonical_context :: "string option"
  tn_max_history_messages :: nat
  tn_max_iterations :: nat
  tn_max_continuations :: nat
  tn_ctx_window :: nat

record 'w turn_world =
  lw_env :: guard_env
  lw_fmul :: f64_mul
  lw_order :: "string list \<Rightarrow> string list"
  lw_model :: "completion_request \<Rightarrow> 'w \<Rightarrow> (string, completion_response) result \<times> 'w"
  lw_recover :: "string \<Rightarrow> tool_definition list \<Rightarrow> tool_call list"
  lw_compress_output :: "string \<Rightarrow> string"
  lw_before_tool :: "string \<Rightarrow> json \<Rightarrow> 'w \<Rightarrow> (string, unit) result \<times> 'w"
  lw_run_batch :: "tool_call list \<Rightarrow> 'w \<Rightarrow> (nat \<Rightarrow> tool_outcome option) \<times> 'w"
  lw_save :: "message list \<Rightarrow> 'w \<Rightarrow> (string, unit) result \<times> 'w"
  lw_inbox :: "'w \<Rightarrow> (string list \<times> string option) \<times> 'w"

record 'w turn_state =
  ts_messages :: "message list"
  ts_session :: "message list"
  ts_usage :: token_usage
  ts_guard :: loop_guard
  ts_consecutive_max_tokens :: nat
  ts_consecutive_all_blocked :: nat
  ts_consecutive_silent_failures :: nat
  ts_tracker :: tool_error_tracker
  ts_last_tools :: "string list"
  ts_pending :: "pending_ainl_failure option"
  ts_proof :: "ainl_proof option"
  ts_strict_hash :: "string option"
  ts_any_tools :: bool
  ts_silent_overrides :: nat
  ts_phases :: "loop_phase list"
  ts_world :: 'w

datatype turn_flow = Continue | Finish agent_loop_result | Abort turn_error

section \<open>Small steps\<close>

definition say :: "message list \<Rightarrow> 'w turn_state \<Rightarrow> 'w turn_state" where
  "say ms st = st\<lparr>ts_messages := ts_messages st @ ms\<rparr>"

definition keep :: "message \<Rightarrow> 'w turn_state \<Rightarrow> 'w turn_state" where
  "keep m st = st\<lparr>ts_session := ts_session st @ [m]\<rparr>"

definition emit_phase :: "loop_phase \<Rightarrow> 'w turn_state \<Rightarrow> 'w turn_state" where
  "emit_phase p st = st\<lparr>ts_phases := ts_phases st @ [p]\<rparr>"

definition save_session :: "'w turn_world \<Rightarrow> 'w turn_state \<Rightarrow> (string, unit) result \<times> 'w turn_state" where
  "save_session lw st =
     (case lw_save lw (ts_session st) (ts_world st) of (r, w) \<Rightarrow> (r, st\<lparr>ts_world := w\<rparr>))"

definition loop_result :: "string \<Rightarrow> nat \<Rightarrow> agent_loop_outcome \<Rightarrow> 'w turn_state \<Rightarrow> agent_loop_result" where
  "loop_result response iterations out st =
     \<lparr>rs_response = response, rs_total_usage = ts_usage st, rs_iterations = iterations, rs_silent = False,
      rs_outcome = out, rs_directives = no_directives\<rparr>"

section \<open>The start of a turn\<close>

definition strip_images :: "message \<Rightarrow> message" where
  "strip_images m =
     (case m_content m of
        TextContent _ \<Rightarrow> m
      | Blocks bs \<Rightarrow>
          let is_image = (\<lambda>b. case b of ImageBlock _ _ \<Rightarrow> True | _ \<Rightarrow> False)
          in if list_ex is_image bs then
               let rest = filter (\<lambda>b. \<not> is_image b) bs
               in m\<lparr>m_content := Blocks (if rest = [] then [TextBlock ''[Image processed]'' None] else rest)\<rparr>
             else m)"

definition first_messages :: "turn_config \<Rightarrow> message list \<Rightarrow> message list" where
  "first_messages cfg session =
     (let repaired = validate_and_repair (filter (\<lambda>m. m_role m \<noteq> SystemRole) session);
          ms = (case tn_canonical_context cfg of
                  Some cc \<Rightarrow> if cc \<noteq> [] then user_message cc # repaired else repaired
                | None \<Rightarrow> repaired)
      in if length ms > tn_max_history_messages cfg
         then validate_and_repair (drop (length ms - tn_max_history_messages cfg) ms)
         else ms)"

definition turn_guard :: "nat \<Rightarrow> loop_guard" where
  "turn_guard limit =
     lg_new (if limit > global_circuit_breaker loop_guard_config_default
             then loop_guard_config_default\<lparr>global_circuit_breaker := limit * 3\<rparr>
             else loop_guard_config_default)"

definition no_usage :: token_usage where
  "no_usage = \<lparr>input_tokens = 0, output_tokens = 0, cache_creation_input_tokens = 0, cache_read_input_tokens = 0\<rparr>"

definition start_turn :: "turn_config \<Rightarrow> message list \<Rightarrow> 'w \<Rightarrow> 'w turn_state" where
  "start_turn cfg session w =
     (let session1 = session @
        [case tn_user_blocks cfg of Some bs \<Rightarrow> user_with_blocks bs | None \<Rightarrow> user_message (tn_user_message cfg)]
      in \<lparr>ts_messages = first_messages cfg session1, ts_session = map strip_images session1,
          ts_usage = no_usage, ts_guard = turn_guard (tn_max_iterations cfg),
          ts_consecutive_max_tokens = 0, ts_consecutive_all_blocked = 0, ts_consecutive_silent_failures = 0,
          ts_tracker = tracker_new, ts_last_tools = [], ts_pending = None, ts_proof = None,
          ts_strict_hash = None, ts_any_tools = False, ts_silent_overrides = 0, ts_phases = [], ts_world = w\<rparr>)"

section \<open>Before the model is called\<close>

text \<open>The newest assistant messages are pruned; the list is reversed.\<close>

fun prune_assistant :: "nat \<Rightarrow> message list \<Rightarrow> message list" where
  "prune_assistant 0 ms = ms"
| "prune_assistant n [] = []"
| "prune_assistant (Suc n) (m # ms) =
     (if m_role m = AssistantRole then prune_assistant n ms else m # prune_assistant (Suc n) ms)"

definition redirect_text :: "string \<Rightarrow> string" where
  "redirect_text t =
     ''[REDIRECT] STOP your current plan immediately. Do not continue previous steps. '' @
     ''New directive from user: '' @ t"

definition apply_redirect :: "string \<Rightarrow> message list \<Rightarrow> message list" where
  "apply_redirect t ms = rev (prune_assistant 8 (rev ms)) @ [system_message (redirect_text t)]"

definition read_inbox :: "'w turn_world \<Rightarrow> 'w turn_state \<Rightarrow> 'w turn_state" where
  "read_inbox lw st =
     (case lw_inbox lw (ts_world st) of
        ((btw, redirect), w) \<Rightarrow>
          let ms = ts_messages st @ map (\<lambda>t. user_message (''[btw] '' @ t)) btw
          in st\<lparr>ts_messages := (case redirect of Some t \<Rightarrow> apply_redirect t ms | None \<Rightarrow> ms), ts_world := w\<rparr>)"

definition prepare_messages :: "turn_config \<Rightarrow> 'w turn_world \<Rightarrow> 'w turn_state \<Rightarrow> 'w turn_state" where
  "prepare_messages cfg lw st =
     st\<lparr>ts_messages := snd (prepare_for_model (lw_fmul lw) (json_to_string (lw_env lw)) (tn_system_prompt cfg)
          (tn_tools cfg) (tn_ctx_window cfg) (budget_new (tn_ctx_window cfg)) (ts_messages st))\<rparr>"

definition turn_request :: "turn_config \<Rightarrow> message list \<Rightarrow> completion_request" where
  "turn_request cfg ms =
     \<lparr>cr_model = strip_provider_prefix (tn_model cfg) (tn_provider cfg), cr_messages = ms,
      cr_tools = tn_tools cfg, cr_max_tokens = tn_max_tokens cfg, cr_temperature = tn_temperature cfg,
      cr_system = Some (tn_system_prompt cfg)\<rparr>"

definition promote_text_calls :: "turn_config \<Rightarrow> 'w turn_world \<Rightarrow> completion_response \<Rightarrow> completion_response" where
  "promote_text_calls cfg lw r =
     (if (re_stop_reason r = EndTurn \<or> re_stop_reason r = StopSequence) \<and> re_tool_calls r = [] then
        let recovered = lw_recover lw (response_text (re_content r)) (tn_tools cfg)
        in if recovered \<noteq> [] then
             r\<lparr>re_tool_calls := recovered, re_stop_reason := StopToolUse,
               re_content := map (\<lambda>c. ToolUse (tc_id c) (tc_name c) (tc_input c) None) recovered\<rparr>
           else r
      else r)"

definition add_usage :: "token_usage \<Rightarrow> token_usage \<Rightarrow> token_usage" where
  "add_usage u v = u\<lparr>input_tokens := input_tokens u + input_tokens v, output_tokens := output_tokens u + output_tokens v\<rparr>"

section \<open>The model is done\<close>

definition summary_nudge :: string where
  "summary_nudge =
     ''[System: You already ran tools this turn. The user cannot rely on tool cards '' @ ''alone '' @
     [CHR 0xE2, CHR 0x80, CHR 0x94] @
     '' reply with a concise summary of outcomes, errors (if any), and next steps. Do '' @
     ''not use NO_REPLY, [SILENT], or [[silent]] for this turn.]''"

definition backend_dead_text :: string where
  "backend_dead_text =
     ''[The inference backend returned empty responses repeatedly. The model server '' @
     ''(e.g. llama-server, OpenRouter, or the AINL inference server'' @ [CHR 0x27] @
     ''s upstream) is likely unreachable or out of credits. Check the daemon logs and '' @
     ''`/status`.]''"

definition empty_answer_text :: "bool \<Rightarrow> string" where
  "empty_answer_text any_tools =
     (if any_tools then
        ''[Task completed '' @ [CHR 0xE2, CHR 0x80, CHR 0x94] @
        '' the agent executed tools but did not produce a text summary.]''
      else
        ''[The model returned an empty response. This usually means the model is '' @
        ''overloaded, the context is too large, or the API key lacks credits. Try again '' @
        ''or check /status.]'')"

definition phantom_prompt :: string where
  "phantom_prompt =
     ''[System: You claimed to perform an action but did not call any tools. You must '' @
     ''use the appropriate tool (e.g., channel_send, web_fetch, file_write) to '' @
     ''actually perform the action. Do not claim completion without executing tools.]''"

definition scheduling_prompt :: string where
  "scheduling_prompt =
     ''[System: The user asked to register recurring / scheduled work with the '' @
     ''ArmaraOS kernel scheduler. You must call schedule_create or cron_create (or '' @
     ''schedule_list / cron_list first). Jobs persist under '' @
     ''~/.armaraos/cron_jobs.json. Do not claim crontab, launchd, or memory-only '' @
     ''storage alone is sufficient.]''"

definition handoff_prompt :: string where
  "handoff_prompt =
     ''[System: The user asked you to perform the fix directly. Do not return terminal '' @
     ''copy/paste instructions. Use available tools now (e.g., '' @
     ''file_read/file_write/apply_patch/shell_exec/process_* / script_run) and report '' @
     ''the completed result.]''"

definition process_prompt :: string where
  "process_prompt =
     ''[System: You described starting or stopping a process but did not call '' @
     ''process_start or process_kill. You must call the appropriate process management '' @
     ''tool to actually perform the action '' @ [CHR 0xE2, CHR 0x80, CHR 0x94] @
     '' do not claim the process is running/stopped without having called the tool.]''"

definition SILENT_FAILURE_BAILOUT :: nat where "SILENT_FAILURE_BAILOUT = 3"

definition ask_again :: "string \<Rightarrow> string \<Rightarrow> 'w turn_state \<Rightarrow> 'w turn_state" where
  "ask_again answer prompt st = say [assistant_message answer, user_message prompt] st"

definition end_silent :: "'w turn_world \<Rightarrow> nat \<Rightarrow> directive_set \<Rightarrow> 'w turn_state \<Rightarrow> turn_flow \<times> 'w turn_state" where
  "end_silent lw iteration ds st =
     (case save_session lw (keep (assistant_message ''[no reply needed]'') st) of
        (Inl e, st') \<Rightarrow> (Abort (MemoryError e), st')
      | (Inr _, st') \<Rightarrow>
          (Finish ((loop_result [] (iteration + 1) OutSilent st')
             \<lparr>rs_silent := True, rs_directives := ds\<lparr>ds_silent := True\<rparr>\<rparr>), st'))"

definition record_answer :: "string \<Rightarrow> 'w turn_state \<Rightarrow> 'w turn_state" where
  "record_answer final st =
     (let st1 = keep (assistant_message final) (st\<lparr>ts_last_tools := []\<rparr>)
      in st1\<lparr>ts_session := prune_heartbeat_turns (ts_session st1) 10\<rparr>)"

definition accept_answer ::
  "'w turn_world \<Rightarrow> nat \<Rightarrow> string \<Rightarrow> agent_loop_outcome \<Rightarrow> 'w turn_state \<Rightarrow> turn_flow \<times> 'w turn_state" where
  "accept_answer lw iteration answer out st =
     (let final = lw_compress_output lw answer
      in case save_session lw (record_answer final st) of
           (Inl e, st1) \<Rightarrow> (Abort (MemoryError e), st1)
         | (Inr _, st1) \<Rightarrow>
             let st2 = emit_phase LoopDone st1 in (Finish (loop_result final (iteration + 1) out st2), st2))"

text \<open>The checks of a final text; each may send the model back to work.\<close>

definition check_answer ::
  "turn_config \<Rightarrow> 'w turn_world \<Rightarrow> nat \<Rightarrow> string \<Rightarrow> agent_loop_outcome \<Rightarrow> 'w turn_state \<Rightarrow> turn_flow \<times> 'w turn_state" where
  "check_answer cfg lw iteration answer out st =
     (let env = lw_env lw; cleared = st\<lparr>ts_last_tools := []\<rparr>
      in if \<not> ts_any_tools st \<and> iteration = 0 \<and> phantom_action_detected env answer
           then (Continue, ask_again answer phantom_prompt st)
         else if scheduling_phantom_detected env (tn_user_message cfg) answer (ts_last_tools st)
           then (Continue, ask_again answer scheduling_prompt cleared)
         else if terminal_handoff_detected env (tn_user_message cfg) answer (ts_last_tools st)
           then (Continue, ask_again answer handoff_prompt cleared)
         else if process_phantom_detected env answer (ts_last_tools st)
           then (Continue, ask_again answer process_prompt cleared)
         else accept_answer lw iteration answer out st)"

definition note_attempt :: "pending_ainl_failure \<Rightarrow> pending_ainl_failure" where
  "note_attempt p = p\<lparr>pa_blocked_final_attempts := pa_blocked_final_attempts p + 1\<rparr>"

text \<open>A pending AINL failure turns the answer away, or at the third attempt replaces it.\<close>

definition gate_answer ::
  "turn_config \<Rightarrow> 'w turn_world \<Rightarrow> nat \<Rightarrow> string \<Rightarrow> 'w turn_state \<Rightarrow> turn_flow \<times> 'w turn_state" where
  "gate_answer cfg lw iteration answer st =
     (case ts_pending st of
        None \<Rightarrow> check_answer cfg lw iteration answer OutCompleted st
      | Some p0 \<Rightarrow>
          let p = note_attempt p0
          in if pa_blocked_final_attempts p \<ge> MAX_AINL_AUTHORING_PREMATURE_FINAL_ATTEMPTS then
               check_answer cfg lw iteration (ainl_authoring_unresolved_summary p (ts_proof st))
                 OutAinlAuthoringUnresolved (st\<lparr>ts_pending := None\<rparr>)
             else (Continue, ask_again answer (ainl_authoring_repair_required_prompt p) (st\<lparr>ts_pending := Some p\<rparr>)))"

definition nonempty_answer :: "string \<Rightarrow> 'w turn_state \<Rightarrow> string" where
  "nonempty_answer answer st = (if trim answer = [] then empty_answer_text (ts_any_tools st) else answer)"

definition retry_empty :: "bool \<Rightarrow> 'w turn_state \<Rightarrow> 'w turn_state" where
  "retry_empty silent_failure st =
     say [assistant_message ''[no response]'', user_message ''Please provide your response.'']
       (if silent_failure then st\<lparr>ts_messages := validate_and_repair (ts_messages st)\<rparr> else st)"

definition backend_dead :: "'w turn_world \<Rightarrow> nat \<Rightarrow> 'w turn_state \<Rightarrow> turn_flow \<times> 'w turn_state" where
  "backend_dead lw iteration st =
     (let st1 = snd (save_session lw (keep (assistant_message backend_dead_text) st))
      in (Finish (loop_result backend_dead_text (iteration + 1) OutProviderFailure st1), st1))"

definition end_turn ::
  "turn_config \<Rightarrow> 'w turn_world \<Rightarrow> nat \<Rightarrow> completion_response \<Rightarrow> 'w turn_state \<Rightarrow> turn_flow \<times> 'w turn_state" where
  "end_turn cfg lw iteration r st =
     (case parse_directives (response_text (re_content r)) of
        (answer, ds) \<Rightarrow>
          let wants_silent = assistant_intended_silent answer ds;
              is_empty = (trim answer = [] \<and> re_tool_calls r = [] \<and> \<not> has_any_content r);
              silent_failure = (input_tokens (re_usage r) = 0 \<and> output_tokens (re_usage r) = 0);
              failures = ts_consecutive_silent_failures st + (if silent_failure then 1 else 0);
              counted = st\<lparr>ts_consecutive_silent_failures := failures\<rparr>
          in if wants_silent \<and> ts_pending st \<noteq> None then
               (let p = note_attempt (the (ts_pending st))
                in (Continue, say [user_message (ainl_authoring_repair_required_prompt p)] (st\<lparr>ts_pending := Some p\<rparr>)))
             else if wants_silent \<and> ts_any_tools st \<and> ts_silent_overrides st < 2 then
               (Continue, say [user_message summary_nudge] (st\<lparr>ts_silent_overrides := ts_silent_overrides st + 1\<rparr>))
             else if wants_silent then end_silent lw iteration ds st
             else if is_empty \<and> (iteration = 0 \<or> silent_failure) then
               (if failures \<ge> SILENT_FAILURE_BAILOUT then backend_dead lw iteration counted
                else (Continue, retry_empty silent_failure counted))
             else
               let st1 = (if is_empty then st else st\<lparr>ts_consecutive_silent_failures := 0\<rparr>)
               in gate_answer cfg lw iteration (nonempty_answer answer st1) st1)"

section \<open>The model calls tools\<close>

datatype tool_dispatch = Resolved content_block | Pending tool_call verdict

fun strip_control :: "string \<Rightarrow> string" where
  "strip_control [] = []"
| "strip_control (c # s) =
     (let n = of_char c :: nat
      in if n < 32 \<or> n = 127 then strip_control s
         else case s of
                d # s' \<Rightarrow>
                  if n = 194 \<and> 128 \<le> (of_char d :: nat) \<and> (of_char d :: nat) < 160 then strip_control s'
                  else c # strip_control s
              | [] \<Rightarrow> [c])"

definition phase_tool_name :: "string \<Rightarrow> string" where
  "phase_tool_name name = take_chars 64 (strip_control name)"

definition refused :: "tool_call \<Rightarrow> string \<Rightarrow> tool_dispatch" where
  "refused c msg = Resolved (ToolResult (tc_id c) (tc_name c) msg True)"

text \<open>A call that the loop guard lets through: announced, shown to the hooks, checked for its parameters.\<close>

definition dispatch_guarded ::
  "turn_config \<Rightarrow> 'w turn_world \<Rightarrow> tool_call \<Rightarrow> verdict \<Rightarrow> 'w turn_state \<Rightarrow> tool_dispatch \<times> 'w turn_state" where
  "dispatch_guarded cfg lw c v st =
     (let st1 = emit_phase (LoopToolUse (phase_tool_name (tc_name c))) st
      in case lw_before_tool lw (tc_name c) (tc_input c) (ts_world st1) of
           (Inl reason, w) \<Rightarrow>
             (refused c (''Hook blocked tool '' @ quoted (tc_name c) @ '': '' @ reason), st1\<lparr>ts_world := w\<rparr>)
         | (Inr _, w) \<Rightarrow>
             let st2 = st1\<lparr>ts_world := w\<rparr>
             in case Option.bind (find (\<lambda>d. td_name d = tc_name c) (tn_tools cfg))
                       (missing_required_params_error (lw_env lw) (tc_name c) (tc_input c)) of
                  Some msg \<Rightarrow> (refused c msg, st2)
                | None \<Rightarrow> (Pending c v, st2\<lparr>ts_last_tools := List.insert (tc_name c) (ts_last_tools st2)\<rparr>))"

text \<open>One call before it is run; Inl is the circuit breaker.\<close>

definition dispatch_one ::
  "turn_config \<Rightarrow> 'w turn_world \<Rightarrow> bool \<Rightarrow> tool_call \<Rightarrow> 'w turn_state
     \<Rightarrow> (string, tool_dispatch) result \<times> 'w turn_state" where
  "dispatch_one cfg lw allow_non_strict c st =
     (case ainl_run_requires_strict_validate_first (lw_env lw) c (ts_strict_hash st) allow_non_strict of
        Some msg \<Rightarrow> (Inr (refused c msg), st)
      | None \<Rightarrow>
          (case lg_check (lw_env lw) (tc_name c) (tc_input c) (ts_guard st) of
             (v, g) \<Rightarrow>
               let st1 = st\<lparr>ts_guard := g\<rparr>
               in case v of
                    CircuitBreak m \<Rightarrow> (Inl (guard_msg_text m), st1)
                  | Block m \<Rightarrow> (Inr (refused c (guard_msg_text m)), st1)
                  | _ \<Rightarrow> (case dispatch_guarded cfg lw c v st1 of (d, st2) \<Rightarrow> (Inr d, st2))))"

text \<open>The calls of a round in order.\<close>

fun dispatch_calls ::
  "turn_config \<Rightarrow> 'w turn_world \<Rightarrow> bool \<Rightarrow> tool_call list \<Rightarrow> 'w turn_state
     \<Rightarrow> (string, tool_dispatch list) result \<times> 'w turn_state" where
  "dispatch_calls cfg lw allow_non_strict [] st = (Inr [], st)"
| "dispatch_calls cfg lw allow_non_strict (c # cs) st =
     (case dispatch_one cfg lw allow_non_strict c st of
        (Inl e, st1) \<Rightarrow> (Inl e, st1)
      | (Inr d, st1) \<Rightarrow>
          (case dispatch_calls cfg lw allow_non_strict cs st1 of
             (Inl e, st2) \<Rightarrow> (Inl e, st2)
           | (Inr ds, st2) \<Rightarrow> (Inr (d # ds), st2)))"

definition pending_calls :: "tool_dispatch list \<Rightarrow> tool_call list" where
  "pending_calls ds = concat (map (\<lambda>d. case d of Pending c _ \<Rightarrow> [c] | Resolved _ \<Rightarrow> []) ds)"

text \<open>The batches run one after the other, the calls of a batch together.\<close>

fun run_batches ::
  "'w turn_world \<Rightarrow> tool_call list \<Rightarrow> (nat \<times> nat) list \<Rightarrow> 'w \<Rightarrow> tool_outcome option list \<times> 'w" where
  "run_batches lw calls [] w = ([], w)"
| "run_batches lw calls ((a, b) # batches) w =
     (let batch = take (b - a) (drop a calls)
      in case lw_run_batch lw batch w of
           (outcome, w1) \<Rightarrow>
             (case run_batches lw calls batches w1 of
                (rest, w2) \<Rightarrow> (map outcome [0..<length batch] @ rest, w2)))"

definition run_pending :: "'w turn_world \<Rightarrow> tool_dispatch list \<Rightarrow> 'w \<Rightarrow> tool_outcome option list \<times> 'w" where
  "run_pending lw ds w =
     (let calls = pending_calls ds
      in run_batches lw calls (ordered_batches (\<lambda>c. classify_lane (tc_name c)) calls) w)"

definition timed_out :: "tool_call \<Rightarrow> tool_outcome" where
  "timed_out c =
     \<lparr>to_tool_use_id = tc_id c,
      to_content = ''Tool '' @ quoted (tc_name c) @ '' timed out after '' @
        show_nat (tool_execution_timeout (tc_name c)) @ ''s.'',
      to_is_error = True\<rparr>"

definition guard_note :: "string \<Rightarrow> string" where
  "guard_note msg = loop_guard_note @ '' '' @ msg"

text \<open>The result of one call as the model sees it; its outcome is noted by the loop guard.\<close>

definition finish_call ::
  "turn_config \<Rightarrow> 'w turn_world \<Rightarrow> tool_call \<Rightarrow> verdict \<Rightarrow> tool_outcome option \<Rightarrow> loop_guard
     \<Rightarrow> content_block \<times> loop_guard" where
  "finish_call cfg lw c v result g =
     (let r = (case result of Some r \<Rightarrow> r | None \<Rightarrow> timed_out c);
          content = truncate_tool_result_dynamic (lw_fmul lw) (to_content r) (budget_new (tn_ctx_window cfg));
          warned = (case v of Warn m \<Rightarrow> content @ guard_note (guard_msg_text m) | _ \<Rightarrow> content)
      in case lg_record_outcome (lw_env lw) (tc_name c) (tc_input c) (to_content r) g of
           (note, g') \<Rightarrow>
             (ToolResult (to_tool_use_id r) (tc_name c)
                (case note of Some t \<Rightarrow> warned @ guard_note (outcome_msg_text t) | None \<Rightarrow> warned) (to_is_error r), g'))"

fun merge_results ::
  "turn_config \<Rightarrow> 'w turn_world \<Rightarrow> tool_dispatch list \<Rightarrow> tool_outcome option list \<Rightarrow> loop_guard
     \<Rightarrow> content_block list \<times> loop_guard" where
  "merge_results cfg lw [] results g = ([], g)"
| "merge_results cfg lw (Resolved b # ds) results g =
     (case merge_results cfg lw ds results g of (bs, g') \<Rightarrow> (b # bs, g'))"
| "merge_results cfg lw (Pending c v # ds) results g =
     (case finish_call cfg lw c v (case results of r # _ \<Rightarrow> r | [] \<Rightarrow> None) g of
        (b, g1) \<Rightarrow> (case merge_results cfg lw ds (tl results) g1 of (bs, g') \<Rightarrow> (b # bs, g')))"

definition all_blocked :: "content_block list \<Rightarrow> bool" where
  "all_blocked bs =
     (bs \<noteq> [] \<and> list_all (\<lambda>b. case b of ToolResult _ _ content e \<Rightarrow> e \<and> is_guard_block content | _ \<Rightarrow> False) bs)"

definition MAX_CONSECUTIVE_ALL_BLOCKED :: nat where "MAX_CONSECUTIVE_ALL_BLOCKED = 3"

definition blocked_summary :: string where
  "blocked_summary =
     ''I was unable to complete this task: my tool calls were repeatedly blocked '' @
     ''because I appeared to be stuck calling the same tools in a loop. Please try '' @
     ''rephrasing your request, breaking it into smaller steps, or using a different '' @
     ''approach.''"

definition end_blocked :: "'w turn_world \<Rightarrow> nat \<Rightarrow> 'w turn_state \<Rightarrow> turn_flow \<times> 'w turn_state" where
  "end_blocked lw iteration st =
     (let st1 = emit_phase LoopDone (snd (save_session lw (keep (assistant_message blocked_summary) st)))
      in (Finish (loop_result blocked_summary (iteration + 1) OutBlockedByLoopGuard st1), st1))"

text \<open>The AINL gate after a round.\<close>

definition update_gate ::
  "guard_env \<Rightarrow> bool \<Rightarrow> content_block list \<Rightarrow> calls_by_id \<Rightarrow> 'w turn_state \<Rightarrow> 'w turn_state" where
  "update_gate env allow_non_strict bs calls st =
     (let settled = ainl_authoring_success_in_tool_results env bs (ts_pending st) calls allow_non_strict;
          pending1 = (if settled then None else ts_pending st)
      in st\<lparr>ts_pending := (case ainl_authoring_failure_from_tool_results env bs calls of
                             Some p \<Rightarrow> Some p | None \<Rightarrow> pending1),
            ts_strict_hash := update_last_strict_validate env calls bs (ts_strict_hash st),
            ts_proof := (case ainl_proof_from_tool_results env bs calls of
                           Some p \<Rightarrow> Some p | None \<Rightarrow> ts_proof st)\<rparr>)"

definition denial_phrase :: string where
  "denial_phrase = ''requires human approval and was denied''"

definition denial_count :: "content_block list \<Rightarrow> nat" where
  "denial_count bs =
     length (filter (\<lambda>b. case b of ToolResult _ _ content e \<Rightarrow> e \<and> contains_str content denial_phrase | _ \<Rightarrow> False) bs)"

definition denial_text :: "nat \<Rightarrow> string" where
  "denial_text n =
     ''[System: '' @ show_nat n @
     '' tool call(s) were denied by approval policy. Do NOT retry denied tools. '' @
     ''Explain to the user what you wanted to do and that it requires their approval. '' @
     ''Hint: set auto_approve = true in [approval] section of config.toml, or start '' @
     ''with --yolo flag, to auto-approve all tool calls.]''"

definition wrap_up_prompt :: string where
  "wrap_up_prompt =
     ''[System: You are very close to the maximum number of allowed steps. Stop '' @
     ''calling tools now. Write a final text response summarizing what you have done '' @
     ''and any results or next steps for the user.]''"

definition wrap_up :: "turn_config \<Rightarrow> nat \<Rightarrow> 'w turn_state \<Rightarrow> 'w turn_state" where
  "wrap_up cfg iteration st =
     (if iteration + 1 + 3 \<ge> tn_max_iterations cfg then
        say [user_message (case ts_pending st of
               Some p \<Rightarrow> ainl_authoring_repair_required_prompt p | None \<Rightarrow> wrap_up_prompt)] st
      else st)"

text \<open>The results of a round, with the guidance the loop adds, go to the model and to the session.\<close>

definition report_results ::
  "turn_config \<Rightarrow> 'w turn_world \<Rightarrow> nat \<Rightarrow> content_block list \<Rightarrow> 'w turn_state \<Rightarrow> turn_flow \<times> 'w turn_state" where
  "report_results cfg lw iteration bs st =
     (let denials = denial_count bs;
          bs1 = bs @ (if denials > 0 then [TextBlock (denial_text denials) None] else [])
      in case compute_guidance (lw_env lw) (lw_order lw) bs1 denials (ts_tracker st) of
           (guidance, tracker) \<Rightarrow>
             let bs2 = bs1 @ (case guidance of Some g \<Rightarrow> [TextBlock g None] | None \<Rightarrow> []);
                 m = user_with_blocks bs2;
                 st1 = say [m] (keep m (st\<lparr>ts_tracker := tracker\<rparr>))
             in (Continue, snd (save_session lw (wrap_up cfg iteration st1))))"

definition finish_round ::
  "turn_config \<Rightarrow> 'w turn_world \<Rightarrow> nat \<Rightarrow> bool \<Rightarrow> tool_dispatch list \<Rightarrow> 'w turn_state \<Rightarrow> turn_flow \<times> 'w turn_state" where
  "finish_round cfg lw iteration allow_non_strict ds st =
     (case run_pending lw ds (ts_world st) of
        (results, w) \<Rightarrow>
          (case merge_results cfg lw ds results (ts_guard st) of
             (bs, g) \<Rightarrow>
               let blocked = (if all_blocked bs then ts_consecutive_all_blocked st + 1 else 0);
                   st1 = st\<lparr>ts_world := w, ts_guard := g, ts_consecutive_all_blocked := blocked\<rparr>
               in if blocked \<ge> MAX_CONSECUTIVE_ALL_BLOCKED then end_blocked lw iteration st1
                  else report_results cfg lw iteration bs
                         (update_gate (lw_env lw) allow_non_strict bs (calls_by_id (pending_calls ds)) st1)))"

definition tool_round ::
  "turn_config \<Rightarrow> 'w turn_world \<Rightarrow> nat \<Rightarrow> completion_response \<Rightarrow> 'w turn_state \<Rightarrow> turn_flow \<times> 'w turn_state" where
  "tool_round cfg lw iteration r st =
     (let m = \<lparr>m_role = AssistantRole, m_content = Blocks (re_content r), m_orchestration_ctx = None\<rparr>;
          st1 = say [m] (keep m (st\<lparr>ts_consecutive_max_tokens := 0, ts_any_tools := True\<rparr>));
          allow_non_strict = user_explicitly_requested_non_strict (tn_user_message cfg)
      in case dispatch_calls cfg lw allow_non_strict (deduplicate_tool_calls (lw_env lw) (re_tool_calls r)) st1 of
           (Inl msg, st2) \<Rightarrow> (Abort (InternalError msg), snd (save_session lw st2))
         | (Inr ds, st2) \<Rightarrow> finish_round cfg lw iteration allow_non_strict ds st2)"

section \<open>The model runs out of tokens\<close>

definition no_text_partial :: string where
  "no_text_partial =
     ''[Partial response '' @ [CHR 0xE2, CHR 0x80, CHR 0x94] @
     '' token limit reached with no text output.]''"

definition max_tokens ::
  "turn_config \<Rightarrow> 'w turn_world \<Rightarrow> nat \<Rightarrow> completion_response \<Rightarrow> 'w turn_state \<Rightarrow> turn_flow \<times> 'w turn_state" where
  "max_tokens cfg lw iteration r st =
     (let n = ts_consecutive_max_tokens st + 1; st1 = st\<lparr>ts_consecutive_max_tokens := n\<rparr>;
          answer = response_text (re_content r)
      in if n \<ge> tn_max_continuations cfg then
           (case (case ts_pending st of
                    Some p \<Rightarrow> (ainl_authoring_unresolved_summary p (ts_proof st), OutAinlAuthoringUnresolved)
                  | None \<Rightarrow> (if trim answer = [] then no_text_partial else answer, OutMaxContinuations)) of
              (final, out) \<Rightarrow>
                let st2 = snd (save_session lw (keep (assistant_message final) st1))
                in (Finish (loop_result final (iteration + 1) out st2), st2))
         else
           (let m = assistant_message answer; c = user_message ''Please continue.''
            in (Continue, say [m, c] (keep c (keep m st1)))))"

section \<open>The loop\<close>

definition turn_step ::
  "turn_config \<Rightarrow> 'w turn_world \<Rightarrow> nat \<Rightarrow> 'w turn_state \<Rightarrow> turn_flow \<times> 'w turn_state" where
  "turn_step cfg lw iteration st =
     (let st1 = emit_phase LoopThinking (prepare_messages cfg lw (read_inbox lw st))
      in case lw_model lw (turn_request cfg (ts_messages st1)) (ts_world st1) of
           (Inl e, w) \<Rightarrow> (Abort (ModelError e), st1\<lparr>ts_world := w\<rparr>)
         | (Inr r0, w) \<Rightarrow>
             let st2 = st1\<lparr>ts_world := w, ts_usage := add_usage (ts_usage st1) (re_usage r0)\<rparr>;
                 r = promote_text_calls cfg lw r0
             in case re_stop_reason r of
                  StopToolUse \<Rightarrow> tool_round cfg lw iteration r st2
                | MaxTokens \<Rightarrow> max_tokens cfg lw iteration r st2
                | _ \<Rightarrow> end_turn cfg lw iteration r st2)"

definition step_limit_text :: "nat \<Rightarrow> string" where
  "step_limit_text n =
     ''I reached my step limit ('' @ show_nat n @
     '' steps) and could not complete the task in one go. If I got stuck in a loop, '' @
     ''try `/reset` to clear the session and rephrase your request. If the task '' @
     ''genuinely needs more steps, increase `max_iterations` under `[autonomous]` in '' @
     ''agent.toml.''"

definition end_at_limit :: "turn_config \<Rightarrow> 'w turn_world \<Rightarrow> 'w turn_state \<Rightarrow> agent_loop_result \<times> 'w turn_state" where
  "end_at_limit cfg lw st =
     (case (case ts_pending st of
              Some p \<Rightarrow> (ainl_authoring_unresolved_summary p (ts_proof st), OutAinlAuthoringUnresolved)
            | None \<Rightarrow> (step_limit_text (tn_max_iterations cfg), OutMaxIterations)) of
        (fallback, out) \<Rightarrow>
          let st1 = snd (save_session lw (keep (assistant_message fallback) st))
          in (loop_result fallback (tn_max_iterations cfg) out st1, st1))"

text \<open>The iterations that are left, and the number of the next one.\<close>

fun turn_loop ::
  "turn_config \<Rightarrow> 'w turn_world \<Rightarrow> nat \<Rightarrow> nat \<Rightarrow> 'w turn_state
     \<Rightarrow> (turn_error, agent_loop_result) result \<times> 'w turn_state" where
  "turn_loop cfg lw 0 iteration st = (case end_at_limit cfg lw st of (r, st') \<Rightarrow> (Inr r, st'))"
| "turn_loop cfg lw (Suc n) iteration st =
     (case turn_step cfg lw iteration st of
        (Continue, st') \<Rightarrow> turn_loop cfg lw n (Suc iteration) st'
      | (Finish r, st') \<Rightarrow> (Inr r, st')
      | (Abort e, st') \<Rightarrow> (Inl e, st'))"

definition run_agent_loop ::
  "turn_config \<Rightarrow> 'w turn_world \<Rightarrow> message list \<Rightarrow> 'w
     \<Rightarrow> (turn_error, agent_loop_result) result \<times> 'w turn_state" where
  "run_agent_loop cfg lw session w = turn_loop cfg lw (tn_max_iterations cfg) 0 (start_turn cfg session w)"

section \<open>What the steps leave alone\<close>

named_theorems turn_effects \<open>fields that a step of the loop leaves alone or changes in a known way\<close>

lemma save_session_effects [turn_effects, simp]:
  "ts_messages (snd (save_session lw st)) = ts_messages st"
  "ts_session (snd (save_session lw st)) = ts_session st"
  "ts_phases (snd (save_session lw st)) = ts_phases st"
  "ts_pending (snd (save_session lw st)) = ts_pending st"
  "ts_usage (snd (save_session lw st)) = ts_usage st"
  "ts_consecutive_silent_failures (snd (save_session lw st)) = ts_consecutive_silent_failures st"
  by (simp_all add: save_session_def split: prod.splits)

lemma save_session_eq:
  "save_session lw st = (r, st') \<Longrightarrow> ts_messages st' = ts_messages st \<and> ts_session st' = ts_session st
     \<and> ts_phases st' = ts_phases st \<and> ts_pending st' = ts_pending st
     \<and> ts_consecutive_silent_failures st' = ts_consecutive_silent_failures st"
  by (auto simp: save_session_def split: prod.splits)

lemma say_effects [turn_effects, simp]:
  "ts_messages (say ms st) = ts_messages st @ ms" "ts_session (say ms st) = ts_session st"
  "ts_phases (say ms st) = ts_phases st" "ts_pending (say ms st) = ts_pending st"
  "ts_consecutive_silent_failures (say ms st) = ts_consecutive_silent_failures st"
  by (simp_all add: say_def)

lemma keep_effects [turn_effects, simp]:
  "ts_messages (keep m st) = ts_messages st" "ts_session (keep m st) = ts_session st @ [m]"
  "ts_phases (keep m st) = ts_phases st" "ts_pending (keep m st) = ts_pending st"
  "ts_consecutive_silent_failures (keep m st) = ts_consecutive_silent_failures st"
  by (simp_all add: keep_def)

lemma emit_phase_effects [turn_effects, simp]:
  "ts_messages (emit_phase p st) = ts_messages st" "ts_session (emit_phase p st) = ts_session st"
  "ts_phases (emit_phase p st) = ts_phases st @ [p]" "ts_pending (emit_phase p st) = ts_pending st"
  "ts_consecutive_silent_failures (emit_phase p st) = ts_consecutive_silent_failures st"
  by (simp_all add: emit_phase_def)

lemma ask_again_effects [turn_effects, simp]:
  "ts_messages (ask_again a p st) = ts_messages st @ [assistant_message a, user_message p]"
  "ts_session (ask_again a p st) = ts_session st" "ts_phases (ask_again a p st) = ts_phases st"
  "ts_pending (ask_again a p st) = ts_pending st"
  by (simp_all add: ask_again_def)

section \<open>The phases of a turn\<close>

text \<open>A step that ends the turn announces it, or not.\<close>

definition announced :: "agent_loop_outcome \<Rightarrow> bool" where
  "announced out = (out = OutCompleted \<or> out = OutAinlAuthoringUnresolved \<or> out = OutBlockedByLoopGuard)"

definition phases_added :: "'w turn_state \<Rightarrow> turn_flow \<times> 'w turn_state \<Rightarrow> bool" where
  "phases_added st res \<longleftrightarrow>
     (\<exists>ps. ts_phases (snd res) = ts_phases st @ ps
        \<and> (\<forall>p \<in> set ps. p = LoopDone \<or> (\<exists>t. p = LoopToolUse t))
        \<and> (LoopDone \<in> set ps \<longrightarrow> (\<exists>r. fst res = Finish r \<and> announced (rs_outcome r))))"

lemma phases_added_same: "ts_phases (snd res) = ts_phases st \<Longrightarrow> phases_added st res"
  by (auto simp: phases_added_def)

lemma phases_added_done:
  "ts_phases (snd res) = ts_phases st @ [LoopDone] \<Longrightarrow> fst res = Finish r \<Longrightarrow> announced (rs_outcome r)
     \<Longrightarrow> phases_added st res"
  by (auto simp: phases_added_def)

lemma phases_added_cong: "ts_phases st' = ts_phases st \<Longrightarrow> phases_added st' res = phases_added st res"
  by (simp add: phases_added_def)

lemma record_answer_effects [turn_effects, simp]:
  "ts_phases (record_answer f st) = ts_phases st" "ts_pending (record_answer f st) = ts_pending st"
  "ts_session (record_answer f st) = prune_heartbeat_turns (ts_session st @ [assistant_message f]) 10"
  by (simp_all add: record_answer_def Let_def)

lemma accept_answer_phases:
  assumes "announced out"
  shows "phases_added st (accept_answer lw it a out st)"
proof -
  obtain r st1 where s: "save_session lw (record_answer (lw_compress_output lw a) st) = (r, st1)"
    by (cases "save_session lw (record_answer (lw_compress_output lw a) st)")
  have p: "ts_phases st1 = ts_phases st" using save_session_eq [OF s] by simp
  show ?thesis
  proof (cases r)
    case (Inl e)
    then show ?thesis using s p by (intro phases_added_same) (simp add: accept_answer_def)
  next
    case (Inr u)
    then show ?thesis using s p assms
      by (intro phases_added_done [where r = "loop_result (lw_compress_output lw a) (it + 1) out (emit_phase LoopDone st1)"])
         (simp_all add: accept_answer_def Let_def loop_result_def)
  qed
qed

lemma check_answer_phases:
  "announced out \<Longrightarrow> phases_added st (check_answer cfg lw it a out st)"
  by (auto simp: check_answer_def Let_def intro: phases_added_same accept_answer_phases)

lemma gate_answer_phases: "phases_added st (gate_answer cfg lw it a st)"
proof (cases "ts_pending st")
  case None
  then show ?thesis by (simp add: gate_answer_def check_answer_phases announced_def)
next
  case (Some p)
  have "phases_added (st\<lparr>ts_pending := None\<rparr>) (check_answer cfg lw it b OutAinlAuthoringUnresolved (st\<lparr>ts_pending := None\<rparr>))" for b
    by (rule check_answer_phases) (simp add: announced_def)
  then show ?thesis
    using Some phases_added_cong [of "st\<lparr>ts_pending := None\<rparr>" st]
    by (auto simp: gate_answer_def Let_def intro: phases_added_same)
qed

lemma end_silent_phases: "phases_added st (end_silent lw it ds st)"
  by (auto simp: end_silent_def intro!: phases_added_same split: prod.splits sum.splits dest!: save_session_eq)

lemma phases_added_if: "phases_added st a \<Longrightarrow> phases_added st b \<Longrightarrow> phases_added st (if c then a else b)"
  by simp

lemma gate_answer_phases_from:
  "ts_phases st' = ts_phases st \<Longrightarrow> phases_added st (gate_answer cfg lw it a st')"
  using gate_answer_phases [of st'] by (simp add: phases_added_cong [of st' st])

lemma retry_empty_effects [turn_effects, simp]:
  "ts_phases (retry_empty b st) = ts_phases st" "ts_pending (retry_empty b st) = ts_pending st"
  by (simp_all add: retry_empty_def)

lemma backend_dead_phases: "ts_phases (snd (backend_dead lw it st)) = ts_phases st"
  by (simp add: backend_dead_def Let_def)

lemma end_turn_phases: "phases_added st (end_turn cfg lw it r st)"
proof -
  obtain a ds where pd: "parse_directives (response_text (re_content r)) = (a, ds)"
    by (cases "parse_directives (response_text (re_content r))")
  show ?thesis
    unfolding end_turn_def pd prod.case Let_def
    by (intro phases_added_if end_silent_phases gate_answer_phases_from phases_added_same)
       (simp_all add: backend_dead_phases)
qed

lemma max_tokens_phases: "phases_added st (max_tokens cfg lw it r st)"
  by (auto simp: max_tokens_def Let_def intro!: phases_added_same split: prod.splits)

definition tool_phases :: "'w turn_state \<Rightarrow> 'w turn_state \<Rightarrow> bool" where
  "tool_phases st st' \<longleftrightarrow> (\<exists>ps. ts_phases st' = ts_phases st @ ps \<and> (\<forall>p \<in> set ps. \<exists>t. p = LoopToolUse t))"

lemma tool_phases_refl: "ts_phases st' = ts_phases st \<Longrightarrow> tool_phases st st'"
  by (auto simp: tool_phases_def)

lemma tool_phases_trans: "tool_phases a b \<Longrightarrow> tool_phases b c \<Longrightarrow> tool_phases a c"
  unfolding tool_phases_def by (metis (no_types, lifting) Un_iff append_assoc set_append)

lemma dispatch_guarded_phases: "tool_phases st (snd (dispatch_guarded cfg lw c v st))"
  by (auto simp: dispatch_guarded_def tool_phases_def Let_def split: prod.splits sum.splits option.splits)

lemma dispatch_one_phases: "tool_phases st (snd (dispatch_one cfg lw allow c st))"
proof -
  obtain v g where vg: "lg_check (lw_env lw) (tc_name c) (tc_input c) (ts_guard st) = (v, g)"
    by (cases "lg_check (lw_env lw) (tc_name c) (tc_input c) (ts_guard st)")
  have "tool_phases st (st\<lparr>ts_guard := g\<rparr>)" by (simp add: tool_phases_refl)
  note this tool_phases_trans [OF this dispatch_guarded_phases [of "st\<lparr>ts_guard := g\<rparr>" cfg lw c v]]
  then show ?thesis
    by (cases v; cases "dispatch_guarded cfg lw c v (st\<lparr>ts_guard := g\<rparr>)")
       (auto simp: dispatch_one_def vg Let_def tool_phases_refl split: option.splits)
qed

lemma dispatch_calls_phases: "tool_phases st (snd (dispatch_calls cfg lw allow cs st))"
proof (induction cs arbitrary: st)
  case Nil
  show ?case by (simp add: tool_phases_refl)
next
  case (Cons c cs)
  obtain d st1 where d: "dispatch_one cfg lw allow c st = (d, st1)" by (cases "dispatch_one cfg lw allow c st")
  then have "tool_phases st st1" using dispatch_one_phases [of st cfg lw allow c] by simp
  with tool_phases_trans [OF this Cons.IH [of st1]] d show ?case by (auto split: prod.splits sum.splits)
qed

lemma report_results_phases: "ts_phases (snd (report_results cfg lw it bs st)) = ts_phases st"
  "fst (report_results cfg lw it bs st) = Continue"
  by (auto simp: report_results_def wrap_up_def Let_def split: prod.splits option.splits)

lemma finish_round_phases: "phases_added st (finish_round cfg lw it allow ds st)"
proof -
  obtain results w where rp: "run_pending lw ds (ts_world st) = (results, w)"
    by (cases "run_pending lw ds (ts_world st)")
  obtain bs g where mr: "merge_results cfg lw ds results (ts_guard st) = (bs, g)"
    by (cases "merge_results cfg lw ds results (ts_guard st)")
  define blocked where "blocked = (if all_blocked bs then ts_consecutive_all_blocked st + 1 else 0)"
  let ?st1 = "st\<lparr>ts_world := w, ts_guard := g, ts_consecutive_all_blocked := blocked\<rparr>"
  have fr: "finish_round cfg lw it allow ds st =
      (if blocked \<ge> MAX_CONSECUTIVE_ALL_BLOCKED then end_blocked lw it ?st1
       else report_results cfg lw it bs (update_gate (lw_env lw) allow bs (calls_by_id (pending_calls ds)) ?st1))"
    by (simp add: finish_round_def rp mr blocked_def Let_def)
  have "ts_phases (update_gate env allow bs calls ?st1) = ts_phases st" for env calls
    by (simp add: update_gate_def Let_def)
  moreover have "phases_added st (end_blocked lw it ?st1)"
    by (rule phases_added_done) (auto simp: end_blocked_def Let_def loop_result_def announced_def)
  ultimately show ?thesis
    by (auto simp: fr report_results_phases intro: phases_added_same)
qed

lemma tool_round_phases: "phases_added st (tool_round cfg lw it r st)"
proof -
  define m where "m = \<lparr>m_role = AssistantRole, m_content = Blocks (re_content r), m_orchestration_ctx = None\<rparr>"
  define st1 where "st1 = say [m] (keep m (st\<lparr>ts_consecutive_max_tokens := 0, ts_any_tools := True\<rparr>))"
  define allow where "allow = user_explicitly_requested_non_strict (tn_user_message cfg)"
  define calls where "calls = deduplicate_tool_calls (lw_env lw) (re_tool_calls r)"
  have tr: "tool_round cfg lw it r st = (case dispatch_calls cfg lw allow calls st1 of
      (Inl msg, st2) \<Rightarrow> (Abort (InternalError msg), snd (save_session lw st2))
    | (Inr ds, st2) \<Rightarrow> finish_round cfg lw it allow ds st2)"
    unfolding tool_round_def m_def st1_def allow_def calls_def Let_def by (rule refl)
  obtain d st2 where d: "dispatch_calls cfg lw allow calls st1 = (d, st2)"
    by (cases "dispatch_calls cfg lw allow calls st1")
  have p1: "ts_phases st1 = ts_phases st" by (simp add: st1_def)
  obtain ps where ps: "ts_phases st2 = ts_phases st @ ps" "\<forall>p \<in> set ps. \<exists>t. p = LoopToolUse t"
    using dispatch_calls_phases [of st1 cfg lw allow calls] by (auto simp: d p1 tool_phases_def)
  show ?thesis
  proof (cases d)
    case (Inl msg)
    then show ?thesis using ps by (fastforce simp: tr d phases_added_def)
  next
    case (Inr ds)
    show ?thesis using finish_round_phases [of st2 cfg lw it allow ds] ps Inr
      by (fastforce simp: tr d phases_added_def)
  qed
qed

lemma read_inbox_phases: "ts_phases (read_inbox lw st) = ts_phases st"
  by (auto simp: read_inbox_def Let_def split: prod.splits)

lemma turn_step_phases:
  "phases_added (st\<lparr>ts_phases := ts_phases st @ [LoopThinking]\<rparr>) (turn_step cfg lw it st)"
proof -
  define st1 where "st1 = emit_phase LoopThinking (prepare_messages cfg lw (read_inbox lw st))"
  have p1: "ts_phases st1 = ts_phases st @ [LoopThinking]"
    by (simp add: st1_def prepare_messages_def read_inbox_phases)
  obtain a w where a: "lw_model lw (turn_request cfg (ts_messages st1)) (ts_world st1) = (a, w)"
    by (cases "lw_model lw (turn_request cfg (ts_messages st1)) (ts_world st1)")
  show ?thesis
  proof (cases a)
    case (Inl e)
    then show ?thesis
      using a p1 by (intro phases_added_same) (simp add: turn_step_def st1_def [symmetric] Let_def)
  next
    case (Inr r0)
    let ?st2 = "st1\<lparr>ts_world := w, ts_usage := add_usage (ts_usage st1) (re_usage r0)\<rparr>"
    let ?r = "promote_text_calls cfg lw r0"
    have step: "turn_step cfg lw it st = (case re_stop_reason ?r of
        StopToolUse \<Rightarrow> tool_round cfg lw it ?r ?st2 | MaxTokens \<Rightarrow> max_tokens cfg lw it ?r ?st2
      | _ \<Rightarrow> end_turn cfg lw it ?r ?st2)"
      using a Inr by (simp add: turn_step_def st1_def [symmetric] Let_def)
    have "ts_phases ?st2 = ts_phases st @ [LoopThinking]" by (simp add: p1)
    then have cong: "phases_added (st\<lparr>ts_phases := ts_phases st @ [LoopThinking]\<rparr>) res = phases_added ?st2 res" for res
      by (intro phases_added_cong) simp
    show ?thesis unfolding step cong
      by (cases "re_stop_reason ?r") (simp_all add: tool_round_phases max_tokens_phases end_turn_phases)
  qed
qed


section \<open>A turn is bounded\<close>

definition thinking_count :: "loop_phase list \<Rightarrow> nat" where
  "thinking_count ps = length (filter (\<lambda>p. p = LoopThinking) ps)"

lemma thinking_count_simps [simp]:
  "thinking_count [] = 0" "thinking_count (ps @ qs) = thinking_count ps + thinking_count qs"
  "thinking_count (p # ps) = (if p = LoopThinking then 1 else 0) + thinking_count ps"
  by (simp_all add: thinking_count_def)

lemma thinking_count_0: "\<forall>p \<in> set ps. p = LoopDone \<or> (\<exists>t. p = LoopToolUse t) \<Longrightarrow> thinking_count ps = 0"
  by (auto simp: thinking_count_def filter_empty_conv)

text \<open>One step: the thinking phase first, then the phases of its branch.\<close>

lemma turn_step_trace:
  obtains ps where "ts_phases (snd (turn_step cfg lw it st)) = ts_phases st @ LoopThinking # ps"
    "\<forall>p \<in> set ps. p = LoopDone \<or> (\<exists>t. p = LoopToolUse t)"
    "LoopDone \<in> set ps \<longrightarrow> (\<exists>r. fst (turn_step cfg lw it st) = Finish r \<and> announced (rs_outcome r))"
proof -
  obtain ps where ps: "ts_phases (snd (turn_step cfg lw it st)) = (ts_phases st @ [LoopThinking]) @ ps"
    "\<forall>p \<in> set ps. p = LoopDone \<or> (\<exists>t. p = LoopToolUse t)"
    "LoopDone \<in> set ps \<longrightarrow> (\<exists>r. fst (turn_step cfg lw it st) = Finish r \<and> announced (rs_outcome r))"
    using turn_step_phases [of st cfg lw it] unfolding phases_added_def by auto
  show ?thesis by (rule that [of ps]) (use ps in simp_all)
qed

lemma end_at_limit_phases: "ts_phases (snd (end_at_limit cfg lw st)) = ts_phases st"
  by (auto simp: end_at_limit_def Let_def split: prod.splits)

text \<open>
  The trace of the loop: it extends the phases so far, thinks at most once for every iteration, ends
  at once when no iteration is left, and is done only when the outcome is one that is announced.
\<close>

lemma turn_loop_trace:
  "\<exists>ps. ts_phases (snd (turn_loop cfg lw n it st)) = ts_phases st @ ps
      \<and> thinking_count ps \<le> n \<and> (n > 0 \<longrightarrow> ps \<noteq> [])
      \<and> LoopError \<notin> set ps
      \<and> (LoopDone \<in> set ps \<longrightarrow> (\<exists>r. fst (turn_loop cfg lw n it st) = Inr r \<and> announced (rs_outcome r)))"
proof (induction n arbitrary: it st)
  case 0
  show ?case using end_at_limit_phases [of cfg lw st]
    by (cases "end_at_limit cfg lw st") (intro exI [of _ "[]"], simp)
next
  case (Suc n)
  obtain f st1 where step: "turn_step cfg lw it st = (f, st1)" by (cases "turn_step cfg lw it st")
  obtain ps where ps: "ts_phases st1 = ts_phases st @ LoopThinking # ps"
      "\<forall>p \<in> set ps. p = LoopDone \<or> (\<exists>t. p = LoopToolUse t)"
      "LoopDone \<in> set ps \<longrightarrow> (\<exists>r. f = Finish r \<and> announced (rs_outcome r))"
    using turn_step_trace [of cfg lw it st] step by auto
  show ?case
  proof (cases f)
    case Continue
    obtain qs where qs: "ts_phases (snd (turn_loop cfg lw n (Suc it) st1)) = ts_phases st1 @ qs"
        "thinking_count qs \<le> n" "LoopError \<notin> set qs"
        "LoopDone \<in> set qs \<longrightarrow> (\<exists>r. fst (turn_loop cfg lw n (Suc it) st1) = Inr r \<and> announced (rs_outcome r))"
      using Suc.IH [of "Suc it" st1] by blast
    then show ?thesis
      using ps thinking_count_0 [OF ps(2)] step Continue
      by (intro exI [of _ "LoopThinking # ps @ qs"]) auto
  qed (use ps thinking_count_0 [OF ps(2)] step in \<open>intro exI [of _ "LoopThinking # ps"]; auto\<close>)+
qed

text \<open>
  A turn ends, whatever the model, the tools and the hooks answer, after asking the model at most
  the configured number of times (every request is announced by a thinking phase).
\<close>

lemma turn_bounded:
  "thinking_count (ts_phases (snd (run_agent_loop cfg lw session w))) \<le> tn_max_iterations cfg"
  using turn_loop_trace [of cfg lw "tn_max_iterations cfg" 0 "start_turn cfg session w"]
  by (auto simp: run_agent_loop_def start_turn_def Let_def)

section \<open>The phases and the watchdog\<close>

text \<open>The kernel records the phases of a turn at the times at which the loop emits them.\<close>

definition record_turn ::
  "turn_watchdog_settings \<Rightarrow> agent_id \<Rightarrow> (time \<times> loop_phase) list \<Rightarrow> turn_phases \<Rightarrow> turn_phases" where
  "record_turn tw i tps phases = fold (\<lambda>(t, p). record_agent_loop_phase tw t i p) tps phases"

lemma record_phase_kept:
  assumes "tw_enabled tw" "p \<noteq> LoopDone" "p \<noteq> LoopError" "t \<le> t1"
    "\<forall>ph. st_get phases i = Some ph \<longrightarrow> ph_since ph \<le> t1"
  shows "\<exists>ph. st_get (record_agent_loop_phase tw t i p phases) i = Some ph \<and> ph_since ph \<le> t1"
  using assms by (cases p)
    (auto simp: record_agent_loop_phase_def monitored_kind_def al.get_put split: option.splits)

lemma record_turn_kept:
  assumes "tw_enabled tw" "\<forall>(t, p) \<in> set tps. t \<le> t1 \<and> p \<noteq> LoopDone \<and> p \<noteq> LoopError"
    "\<forall>ph. st_get phases i = Some ph \<longrightarrow> ph_since ph \<le> t1" "tps \<noteq> []"
  shows "\<exists>ph. st_get (record_turn tw i tps phases) i = Some ph \<and> ph_since ph \<le> t1"
  using assms(2-)
proof (induction tps arbitrary: phases)
  case (Cons x tps)
  obtain t p where x: "x = (t, p)" by (cases x)
  obtain ph where ph: "st_get (record_agent_loop_phase tw t i p phases) i = Some ph" "ph_since ph \<le> t1"
    using record_phase_kept [OF assms(1), of p t t1 phases i] Cons.prems x by auto
  then show ?case
    using Cons.IH [of "record_agent_loop_phase tw t i p phases"] Cons.prems x
    by (cases "tps = []") (auto simp: record_turn_def)
qed simp

lemma stalled_agent_crashes:
  assumes wf: "reg_wf (hm_registry st)" and e: "rg_get i (hm_registry st) = Some e" "en_state e = Running"
    and quiet: "\<not> is_quiet_agent now i (hm_registry st)"
    and ph: "tw_enabled tw" "st_get (hm_phases st) i = Some ph"
      "num_seconds (now - ph_since ph) > as_i64 (phase_limit tw (ph_kind ph))"
  shows "rg_get i (hm_registry (monitor_tick config tw now st))
    = Some (e\<lparr>en_state := Crashed, en_last_active := now\<rparr>)"
proof -
  have i: "en_id e = i" using reg_wfD(2) [OF wf] e by (simp add: rg_get_def)
  have "check_agent config (running_phases (hm_registry st) (hm_phases st)) tw now e
      = Some (status_of e (num_seconds (now - ph_since ph)) True)"
    using e ph i
    by (simp add: check_agent_def turn_phase_stall_secs_def running_phases_get phase_limit_def Let_def)
  then have "agent_view i (monitor_tick config tw now st)
      = view_step config now (status_of e (num_seconds (now - ph_since ph)) True) (agent_view i st)"
    by (simp add: monitor_tick_view [OF wf] e)
  then show ?thesis
    using quiet [unfolded quiet_of_view] e i
    by (cases "agent_view i st") (auto simp: agent_view_def status_of_def)
qed

text \<open>
  A turn that ends otherwise than by an accepted answer or a blocked one (silently, with an error
  of the model, at the limit of continuations or of iterations) leaves its last phase recorded: the
  agent, idle from then on, is marked as crashed by the first tick after the limit of the phase, even
  when it is reactive and the monitor has no idle limit for reactive agents.
\<close>

lemma unfinished_phase_crashes_idle_agent:
  assumes "run_agent_loop cfg lw session w = (res, st')" "0 < tn_max_iterations cfg"
    and "\<forall>r. res = Inr r \<longrightarrow> \<not> announced (rs_outcome r)"
    and "length ats = length (ts_phases st')" "\<forall>t \<in> set ats. t \<le> t1"
    and "st_get phases i = None" "tw_enabled tw"
    and "reg_reachable reg" "rg_get i reg = Some e" "en_state e = Running" "\<not> is_quiet_agent now i reg"
    and "\<forall>kind. num_seconds (now - t1) > as_i64 (phase_limit tw kind)"
  shows "map_option en_state (rg_get i (hm_registry (fold (monitor_step config tw)
      [Elsewhere reg (record_turn tw i (zip ats (ts_phases st')) phases), Tick now] ms))) = Some Crashed"
proof -
  have start: "ts_phases (start_turn cfg session w) = []" by (simp add: start_turn_def Let_def)
  have "ts_phases st' \<noteq> []" "LoopDone \<notin> set (ts_phases st')" "LoopError \<notin> set (ts_phases st')"
    using turn_loop_trace [of cfg lw "tn_max_iterations cfg" 0 "start_turn cfg session w"] assms(1-3)
    by (auto simp: run_agent_loop_def start)
  then obtain ph where ph: "st_get (record_turn tw i (zip ats (ts_phases st')) phases) i = Some ph" "ph_since ph \<le> t1"
    using record_turn_kept [OF assms(7), of "zip ats (ts_phases st')" t1 phases i] assms(4-6)
    by (fastforce dest: set_zip_leftD set_zip_rightD)
  have "num_seconds (now - t1) \<le> num_seconds (now - ph_since ph)"
    using ph(2) by (intro num_seconds_mono) simp
  then have "num_seconds (now - ph_since ph) > as_i64 (phase_limit tw (ph_kind ph))"
    using assms(12) [rule_format, of "ph_kind ph"] by linarith
  then show ?thesis
    using stalled_agent_crashes [of "ms\<lparr>hm_registry := reg, hm_phases := record_turn tw i (zip ats (ts_phases st')) phases\<rparr>" i e now tw ph config]
      assms ph(1) reg_reachable_wf by auto
qed


section \<open>Every call of a round is answered\<close>

definition dispatch_id :: "tool_dispatch \<Rightarrow> string" where
  "dispatch_id d = (case d of Pending c _ \<Rightarrow> tc_id c | Resolved b \<Rightarrow> (case b of ToolResult i _ _ _ \<Rightarrow> i | _ \<Rightarrow> []))"

definition is_answer :: "content_block \<Rightarrow> bool" where
  "is_answer b \<longleftrightarrow> (\<exists>i n c e. b = ToolResult i n c e)"

definition answers :: "tool_dispatch \<Rightarrow> bool" where
  "answers d = (case d of Resolved b \<Rightarrow> is_answer b | Pending _ _ \<Rightarrow> True)"

lemma dispatch_id_simps [simp]: "dispatch_id (Pending c v) = tc_id c" "answers (Pending c v)"
  "dispatch_id (Resolved (ToolResult i n m e)) = i" "answers (Resolved b) = is_answer b"
  by (simp_all add: dispatch_id_def answers_def)

lemma is_answer_ToolResult [simp]: "is_answer (ToolResult i n m e)" by (simp add: is_answer_def)

lemma refused_simps [simp]: "dispatch_id (refused c msg) = tc_id c" "answers (refused c msg)"
  by (simp_all add: refused_def)

definition same_talk :: "'w turn_state \<Rightarrow> 'w turn_state \<Rightarrow> bool" where
  "same_talk st st' \<longleftrightarrow> ts_messages st' = ts_messages st \<and> ts_session st' = ts_session st"

lemma dispatch_guarded_effect:
  "dispatch_guarded cfg lw c v st = (d, st') \<Longrightarrow> dispatch_id d = tc_id c \<and> answers d \<and> same_talk st st'"
  by (auto simp: dispatch_guarded_def Let_def same_talk_def split: prod.splits sum.splits option.splits)

lemma dispatch_one_effect:
  assumes "dispatch_one cfg lw allow c st = (Inr d, st')"
  shows "dispatch_id d = tc_id c \<and> answers d \<and> same_talk st st'"
proof (cases "ainl_run_requires_strict_validate_first (lw_env lw) c (ts_strict_hash st) allow")
  case None
  obtain v g where vg: "lg_check (lw_env lw) (tc_name c) (tc_input c) (ts_guard st) = (v, g)"
    by (cases "lg_check (lw_env lw) (tc_name c) (tc_input c) (ts_guard st)")
  obtain d2 st2 where d2: "dispatch_guarded cfg lw c v (st\<lparr>ts_guard := g\<rparr>) = (d2, st2)"
    by (cases "dispatch_guarded cfg lw c v (st\<lparr>ts_guard := g\<rparr>)")
  show ?thesis using assms dispatch_guarded_effect [OF d2] d2
    by (cases v) (auto simp: dispatch_one_def None vg Let_def same_talk_def)
qed (use assms in \<open>auto simp: dispatch_one_def same_talk_def\<close>)

lemma dispatch_calls_effect:
  "dispatch_calls cfg lw allow cs st = (Inr ds, st') \<Longrightarrow>
     map dispatch_id ds = map tc_id cs \<and> list_all answers ds \<and> same_talk st st'"
proof (induction cs arbitrary: st ds st')
  case (Cons c cs)
  then obtain d st1 ds1 where "dispatch_one cfg lw allow c st = (Inr d, st1)"
      "dispatch_calls cfg lw allow cs st1 = (Inr ds1, st')" "ds = d # ds1"
    by (auto split: prod.splits sum.splits)
  with Cons.IH [of st1 ds1 st'] dispatch_one_effect [of cfg lw allow c st d st1] show ?case
    by (simp add: same_talk_def)
qed (simp add: same_talk_def)

lemma dispatch_calls_talk: "dispatch_calls cfg lw allow cs st = (res, st') \<Longrightarrow> same_talk st st'"
proof (induction cs arbitrary: st res st')
  case (Cons c cs)
  obtain d st1 where d: "dispatch_one cfg lw allow c st = (d, st1)" by (cases "dispatch_one cfg lw allow c st")
  have "same_talk st st1"
  proof (cases d)
    case (Inl e)
    then show ?thesis
      using d by (auto simp: dispatch_one_def Let_def same_talk_def split: prod.splits option.splits verdict.splits)
  next
    case (Inr d1)
    then show ?thesis using dispatch_one_effect d by blast
  qed
  moreover obtain res1 st2 where "dispatch_calls cfg lw allow cs st1 = (res1, st2)"
    by (cases "dispatch_calls cfg lw allow cs st1")
  ultimately show ?case
    using Cons d by (fastforce simp: same_talk_def split: sum.splits prod.splits)
qed (simp add: same_talk_def)

text \<open>The tools answer under the id of the call they were given.\<close>

definition honest_tools :: "'w turn_world \<Rightarrow> bool" where
  "honest_tools lw \<longleftrightarrow>
     (\<forall>batch w k r. k < length batch \<longrightarrow> fst (lw_run_batch lw batch w) k = Some r \<longrightarrow> to_tool_use_id r = tc_id (batch ! k))"

definition result_for :: "tool_call \<Rightarrow> tool_outcome option \<Rightarrow> bool" where
  "result_for c r \<longleftrightarrow> (\<forall>out. r = Some out \<longrightarrow> to_tool_use_id out = tc_id c)"

lemma run_batches_results:
  assumes "honest_tools lw"
  shows "list_all2 result_for (concat (map (\<lambda>(a, b). take (b - a) (drop a calls)) batches)) (fst (run_batches lw calls batches w))"
proof (induction batches arbitrary: w)
  case (Cons x batches)
  obtain a b where x: "x = (a, b)" by (cases x)
  let ?batch = "take (b - a) (drop a calls)"
  obtain f w1 where f: "lw_run_batch lw ?batch w = (f, w1)" by (cases "lw_run_batch lw ?batch w")
  have "list_all2 result_for ?batch (map f [0..<length ?batch])"
    using assms f unfolding honest_tools_def result_for_def list_all2_conv_all_nth
    by (metis add_0 diff_zero fst_conv length_map length_upt nth_map_upt)
  with Cons.IH [of w1] f show ?case
    by (auto simp: x Let_def split: prod.splits intro!: list_all2_appendI)
qed simp

lemma batches_cover:
  "concat (map (\<lambda>(a, b). take (b - a) (drop a calls)) (ordered_batches lane calls)) = calls"
proof -
  have slice: "take (b - a) (drop a calls) = map ((!) calls) [a..<b]" if "b \<le> length calls" for a b
    using that by (intro nth_equalityI) auto
  have "map (\<lambda>(a, b). take (b - a) (drop a calls)) (ordered_batches lane calls)
      = map (\<lambda>b. map ((!) calls) (batch_positions b)) (ordered_batches lane calls)"
    using slice batches_keep_order [of lane calls] by (intro map_cong refl) (simp add: case_prod_unfold)
  also have "concat \<dots> = map ((!) calls) (concat (map batch_positions (ordered_batches lane calls)))"
    by (simp add: map_concat comp_def)
  also have "\<dots> = calls" using batches_keep_order [of lane calls] by (simp add: map_nth)
  finally show ?thesis .
qed

lemma run_pending_results:
  "honest_tools lw \<Longrightarrow> list_all2 result_for (pending_calls ds) (fst (run_pending lw ds w))"
  using run_batches_results [of lw "pending_calls ds" "ordered_batches (\<lambda>c. classify_lane (tc_name c)) (pending_calls ds)" w]
  by (simp add: run_pending_def batches_cover Let_def)

lemma finish_call_id:
  "result_for c r \<Longrightarrow> finish_call cfg lw c v r g = (b, g') \<Longrightarrow> block_results b = [tc_id c] \<and> is_answer b"
  by (auto simp: finish_call_def Let_def result_for_def timed_out_def is_answer_def split: prod.splits option.splits)

lemma merge_results_ids:
  "list_all answers ds \<Longrightarrow> list_all2 result_for (pending_calls ds) results \<Longrightarrow>
     merge_results cfg lw ds results g = (bs, g') \<Longrightarrow>
     results_of bs = map dispatch_id ds \<and> list_all is_answer bs"
proof (induction cfg lw ds results g arbitrary: bs g' rule: merge_results.induct)
  case (2 cfg lw b ds results g)
  then show ?case
    by (auto simp: pending_calls_def is_answer_def split: prod.splits)
next
  case (3 cfg lw c v ds results g)
  obtain r rs where rs: "results = r # rs" "result_for c r" "list_all2 result_for (pending_calls ds) rs"
    using 3(3) by (auto simp: pending_calls_def list_all2_Cons1)
  obtain b g1 where b: "finish_call cfg lw c v r g = (b, g1)" by (cases "finish_call cfg lw c v r g")
  obtain bs1 g2 where m: "merge_results cfg lw ds rs g1 = (bs1, g2)" by (cases "merge_results cfg lw ds rs g1")
  have "results_of bs1 = map dispatch_id ds \<and> list_all is_answer bs1"
    using 3(1) [of b g1] 3(2) rs b m by simp
  then show ?case using 3(4) finish_call_id [OF rs(2) b] by (auto simp: rs b m)
qed simp


definition asking :: "completion_response \<Rightarrow> message" where
  "asking r = \<lparr>m_role = AssistantRole, m_content = Blocks (re_content r), m_orchestration_ctx = None\<rparr>"

lemma wrap_up_talk:
  "ts_session (wrap_up cfg it st) = ts_session st \<and> prefix (ts_messages st) (ts_messages (wrap_up cfg it st))"
  by (simp add: wrap_up_def)

lemma report_results_effect:
  "\<exists>bs'. results_of bs' = results_of bs
     \<and> ts_session (snd (report_results cfg lw it bs st)) = ts_session st @ [user_with_blocks bs']
     \<and> prefix (ts_messages st @ [user_with_blocks bs']) (ts_messages (snd (report_results cfg lw it bs st)))"
proof -
  define n where "n = denial_count bs"
  define bs1 where "bs1 = bs @ (if n > 0 then [TextBlock (denial_text n) None] else [])"
  obtain guidance tracker where g: "compute_guidance (lw_env lw) (lw_order lw) bs1 n (ts_tracker st) = (guidance, tracker)"
    by (cases "compute_guidance (lw_env lw) (lw_order lw) bs1 n (ts_tracker st)")
  define bs2 where "bs2 = bs1 @ (case guidance of Some g \<Rightarrow> [TextBlock g None] | None \<Rightarrow> [])"
  have "results_of bs2 = results_of bs" by (simp add: bs2_def bs1_def split: option.splits)
  moreover have "report_results cfg lw it bs st =
      (Continue, snd (save_session lw (wrap_up cfg it (say [user_with_blocks bs2] (keep (user_with_blocks bs2) (st\<lparr>ts_tracker := tracker\<rparr>))))))"
    unfolding report_results_def Let_def n_def [symmetric] bs1_def [symmetric] g prod.case bs2_def [symmetric]
    by (rule refl)
  ultimately show ?thesis
    using wrap_up_talk [of cfg it "say [user_with_blocks bs2] (keep (user_with_blocks bs2) (st\<lparr>ts_tracker := tracker\<rparr>))"]
    by (intro exI [of _ bs2]) simp
qed

lemma update_gate_talk: "same_talk st (update_gate env allow bs calls st)"
  by (simp add: update_gate_def same_talk_def Let_def)

lemma finish_round_effect:
  assumes "finish_round cfg lw it allow ds st = (Continue, st')" "honest_tools lw" "list_all answers ds"
  shows "\<exists>bs. results_of bs = map dispatch_id ds \<and> ts_session st' = ts_session st @ [user_with_blocks bs]
    \<and> prefix (ts_messages st @ [user_with_blocks bs]) (ts_messages st')"
proof -
  obtain results w where rp: "run_pending lw ds (ts_world st) = (results, w)"
    by (cases "run_pending lw ds (ts_world st)")
  obtain bs g where mr: "merge_results cfg lw ds results (ts_guard st) = (bs, g)"
    by (cases "merge_results cfg lw ds results (ts_guard st)")
  define n where "n = (if all_blocked bs then ts_consecutive_all_blocked st + 1 else 0)"
  define st1 where "st1 = update_gate (lw_env lw) allow bs (calls_by_id (pending_calls ds))
    (st\<lparr>ts_world := w, ts_guard := g, ts_consecutive_all_blocked := n\<rparr>)"
  have st': "st' = snd (report_results cfg lw it bs st1)"
    using assms(1) by (auto simp: finish_round_def rp mr n_def [symmetric] st1_def [symmetric] Let_def
        end_blocked_def split: if_splits)
  have "same_talk (st\<lparr>ts_world := w, ts_guard := g, ts_consecutive_all_blocked := n\<rparr>) st1"
    unfolding st1_def by (rule update_gate_talk)
  then have "same_talk st st1" by (simp add: same_talk_def)
  moreover have "results_of bs = map dispatch_id ds"
    using merge_results_ids [OF assms(3) _ mr] run_pending_results [OF assms(2), of ds "ts_world st"] rp by simp
  ultimately show ?thesis
    using report_results_effect [of bs cfg lw it st1] by (auto simp: st' same_talk_def)
qed

lemma tool_round_effect:
  assumes "tool_round cfg lw it r st = (Continue, st')" and "honest_tools lw"
  shows "\<exists>bs. results_of bs = map tc_id (deduplicate_tool_calls (lw_env lw) (re_tool_calls r))
    \<and> ts_session st' = ts_session st @ [asking r, user_with_blocks bs]
    \<and> prefix (ts_messages st @ [asking r, user_with_blocks bs]) (ts_messages st')"
proof -
  define st1 where "st1 = say [asking r] (keep (asking r) (st\<lparr>ts_consecutive_max_tokens := 0, ts_any_tools := True\<rparr>))"
  obtain ds st2 where d: "dispatch_calls cfg lw (user_explicitly_requested_non_strict (tn_user_message cfg))
      (deduplicate_tool_calls (lw_env lw) (re_tool_calls r)) st1 = (Inr ds, st2)"
    and f: "finish_round cfg lw it (user_explicitly_requested_non_strict (tn_user_message cfg)) ds st2 = (Continue, st')"
    using assms(1)
    by (auto simp: tool_round_def asking_def [symmetric] st1_def [symmetric] Let_def split: prod.splits sum.splits)
  note e = dispatch_calls_effect [OF d]
  obtain bs where "results_of bs = map dispatch_id ds" "ts_session st' = ts_session st2 @ [user_with_blocks bs]"
      "prefix (ts_messages st2 @ [user_with_blocks bs]) (ts_messages st')"
    using finish_round_effect [OF f assms(2)] e by auto
  moreover have "ts_session st2 = ts_session st @ [asking r]" "ts_messages st2 = ts_messages st @ [asking r]"
    using e by (simp_all add: same_talk_def st1_def)
  ultimately show ?thesis using e by (intro exI [of _ bs]) simp
qed

lemma finish_round_ends:
  assumes "finish_round cfg lw it allow ds st = (flow, st')"
  shows "flow = Continue \<or> (\<exists>res. flow = Finish res \<and> rs_outcome res = OutBlockedByLoopGuard
    \<and> ts_session st' = ts_session st @ [assistant_message blocked_summary])"
  using assms
  by (auto simp: finish_round_def end_blocked_def loop_result_def Let_def report_results_def split: prod.splits if_splits)

text \<open>
  C21. A round of tool calls appends the answer of the model to the session. If the turn goes on after
  it, right behind the answer, in the session and in the next request, stands one message with exactly one result
  for every call that is left after the removal of repeated calls, in their order: refused, blocked, failed
  and timed out calls are answered too. If the turn ends with the round, because all calls were blocked for
  the third time or the circuit breaker opened, the calls stay unanswered: the session that is saved ends with the
  answer of the model, and in the first case the summary for the user, without any message of results.
\<close>

theorem tool_round_answered:
  assumes "tool_round cfg lw it r st = (flow, st')" and "honest_tools lw"
  shows "case flow of
      Continue \<Rightarrow> \<exists>bs. results_of bs = map tc_id (deduplicate_tool_calls (lw_env lw) (re_tool_calls r))
        \<and> ts_session st' = ts_session st @ [asking r, user_with_blocks bs]
        \<and> prefix (ts_messages st @ [asking r, user_with_blocks bs]) (ts_messages st')
    | Finish res \<Rightarrow> rs_outcome res = OutBlockedByLoopGuard
        \<and> ts_session st' = ts_session st @ [asking r, assistant_message blocked_summary]
    | Abort e \<Rightarrow> (\<exists>msg. e = InternalError msg) \<and> ts_session st' = ts_session st @ [asking r]"
proof (cases "flow = Continue")
  case True
  then show ?thesis using tool_round_effect [OF assms(1) [unfolded True] assms(2)] by simp
next
  case False
  define st1 where "st1 = say [asking r] (keep (asking r) (st\<lparr>ts_consecutive_max_tokens := 0, ts_any_tools := True\<rparr>))"
  let ?allow = "user_explicitly_requested_non_strict (tn_user_message cfg)"
  obtain d st2 where d: "dispatch_calls cfg lw ?allow (deduplicate_tool_calls (lw_env lw) (re_tool_calls r)) st1 = (d, st2)"
    by (cases "dispatch_calls cfg lw ?allow (deduplicate_tool_calls (lw_env lw) (re_tool_calls r)) st1")
  have talk: "ts_session st2 = ts_session st @ [asking r]"
    using dispatch_calls_talk [OF d] by (simp add: same_talk_def st1_def)
  show ?thesis
  proof (cases d)
    case (Inl msg)
    then have "flow = Abort (InternalError msg)" "st' = snd (save_session lw st2)"
      using assms(1) d by (simp_all add: tool_round_def asking_def [symmetric] st1_def [symmetric] Let_def)
    then show ?thesis using talk by simp
  next
    case (Inr ds)
    then have "finish_round cfg lw it ?allow ds st2 = (flow, st')"
      using assms(1) d by (simp add: tool_round_def asking_def [symmetric] st1_def [symmetric] Let_def)
    from finish_round_ends [OF this] False talk show ?thesis by auto
  qed
qed

text \<open>
  A dropped repetition is not answered: when the last call of a response repeats the one before it and
  is removed, its use stays in the session, and nothing there answers it.
\<close>

lemma dropped_call_unanswered:
  assumes "tool_round cfg lw it r st = (Continue, st')" "honest_tools lw"
    and "uses_of (re_content r) = map tc_id (re_tool_calls r)" "distinct (uses_of (re_content r))"
    and "results_of (re_content r) = []"
    and "re_tool_calls r = xs @ [c, d]" "deduplicate_tool_calls (lw_env lw) (re_tool_calls r) = xs @ [c]"
  shows "tc_id d \<in> set (uses_by (\<lambda>_. True) (ts_session st')) \<and>
    (tc_id d \<notin> set (result_ids (ts_session st)) \<longrightarrow> tc_id d \<notin> set (result_ids (ts_session st')))"
proof -
  obtain bs where "results_of bs = map tc_id (xs @ [c])" "ts_session st' = ts_session st @ [asking r, user_with_blocks bs]"
    using tool_round_effect [OF assms(1,2)] assms(7) by auto
  then show ?thesis using assms(3-6) by (auto simp: asking_def user_with_blocks_def)
qed

section \<open>What a completed turn has passed\<close>

text \<open>The response of the model in an iteration that starts in a state, and the tools it calls there.\<close>

definition response_in :: "turn_config \<Rightarrow> 'w turn_world \<Rightarrow> 'w turn_state \<Rightarrow> completion_response option" where
  "response_in cfg lw st =
     (let st1 = emit_phase LoopThinking (prepare_messages cfg lw (read_inbox lw st))
      in case lw_model lw (turn_request cfg (ts_messages st1)) (ts_world st1) of
           (Inr r, _) \<Rightarrow> Some (promote_text_calls cfg lw r)
         | (Inl _, _) \<Rightarrow> None)"

definition tools_called_in :: "turn_config \<Rightarrow> 'w turn_world \<Rightarrow> 'w turn_state \<Rightarrow> string set" where
  "tools_called_in cfg lw st =
     (case response_in cfg lw st of
        Some r \<Rightarrow> if re_stop_reason r = StopToolUse then tc_name ` set (re_tool_calls r) else {}
      | None \<Rightarrow> {})"

text \<open>The states in which the iterations of a turn start, with all tools called before.\<close>

inductive turn_reaches ::
  "turn_config \<Rightarrow> 'w turn_world \<Rightarrow> message list \<Rightarrow> 'w \<Rightarrow> nat \<Rightarrow> string set \<Rightarrow> 'w turn_state \<Rightarrow> bool"
  for cfg lw session w where
  begins: "turn_reaches cfg lw session w 0 {} (start_turn cfg session w)"
| goes_on: "turn_reaches cfg lw session w it called st \<Longrightarrow> turn_step cfg lw it st = (Continue, st')
    \<Longrightarrow> turn_reaches cfg lw session w (Suc it) (called \<union> tools_called_in cfg lw st) st'"

subsection \<open>The list of called tools\<close>

definition tools_grow :: "string set \<Rightarrow> 'w turn_state \<Rightarrow> 'w turn_state \<Rightarrow> bool" where
  "tools_grow A st st' \<longleftrightarrow> set (ts_last_tools st') \<subseteq> set (ts_last_tools st) \<union> A"

lemma tools_grow_same: "ts_last_tools st' = ts_last_tools st \<Longrightarrow> tools_grow A st st'"
  by (simp add: tools_grow_def)

lemma save_session_tools [simp]: "ts_last_tools (snd (save_session lw st)) = ts_last_tools st"
  by (simp add: save_session_def split: prod.splits)

lemma save_tools_from: "save_session lw st = (r, st') \<Longrightarrow> ts_last_tools st' = ts_last_tools st"
  by (metis save_session_tools snd_conv)

lemma small_steps_tools [simp]:
  "ts_last_tools (say ms st) = ts_last_tools st" "ts_last_tools (keep m st) = ts_last_tools st"
  "ts_last_tools (emit_phase p st) = ts_last_tools st" "ts_last_tools (ask_again a q st) = ts_last_tools st"
  "ts_last_tools (retry_empty b st) = ts_last_tools st" "ts_last_tools (wrap_up cfg it st) = ts_last_tools st"
  "ts_last_tools (update_gate env allow bs calls st) = ts_last_tools st"
  by (simp_all add: say_def keep_def emit_phase_def ask_again_def retry_empty_def wrap_up_def update_gate_def Let_def)

lemma dispatch_one_tools:
  "dispatch_one cfg lw allow c st = (d, st') \<Longrightarrow> tools_grow {tc_name c} st st'"
  by (auto simp: dispatch_one_def dispatch_guarded_def tools_grow_def Let_def
      split: prod.splits sum.splits option.splits verdict.splits)

lemma dispatch_calls_tools:
  "dispatch_calls cfg lw allow cs st = (d, st') \<Longrightarrow> tools_grow (tc_name ` set cs) st st'"
proof (induction cs arbitrary: st d st')
  case (Cons c cs)
  obtain d1 st1 where d1: "dispatch_one cfg lw allow c st = (d1, st1)" by (cases "dispatch_one cfg lw allow c st")
  obtain d2 st2 where d2: "dispatch_calls cfg lw allow cs st1 = (d2, st2)" by (cases "dispatch_calls cfg lw allow cs st1")
  have "st' = st1 \<or> st' = st2" using Cons.prems d1 d2 by (auto split: sum.splits)
  then show ?case
    using dispatch_one_tools [OF d1] Cons.IH [OF d2] by (auto simp: tools_grow_def)
qed (simp add: tools_grow_def)

lemma finish_round_tools: "ts_last_tools (snd (finish_round cfg lw it allow ds st)) = ts_last_tools st"
  by (auto simp: finish_round_def end_blocked_def report_results_def Let_def split: prod.splits)

lemma deduplicate_subset: "set (deduplicate_tool_calls env cs) \<subseteq> set cs"
proof -
  have "set (dedup_calls env seen cs) \<subseteq> set cs" for seen
    by (induction cs arbitrary: seen) (auto simp: Let_def)
  then show ?thesis by (simp add: deduplicate_tool_calls_def)
qed

lemma tool_round_tools: "tools_grow (tc_name ` set (re_tool_calls r)) st (snd (tool_round cfg lw it r st))"
proof -
  define st1 where "st1 = say [asking r] (keep (asking r) (st\<lparr>ts_consecutive_max_tokens := 0, ts_any_tools := True\<rparr>))"
  let ?allow = "user_explicitly_requested_non_strict (tn_user_message cfg)"
  obtain d st2 where d: "dispatch_calls cfg lw ?allow (deduplicate_tool_calls (lw_env lw) (re_tool_calls r)) st1 = (d, st2)"
    by (cases "dispatch_calls cfg lw ?allow (deduplicate_tool_calls (lw_env lw) (re_tool_calls r)) st1")
  have "ts_last_tools (snd (tool_round cfg lw it r st)) = ts_last_tools st2"
    using d by (cases d) (simp_all add: tool_round_def asking_def [symmetric] st1_def [symmetric] Let_def finish_round_tools)
  moreover have "set (deduplicate_tool_calls (lw_env lw) (re_tool_calls r)) \<subseteq> set (re_tool_calls r)"
    by (rule deduplicate_subset)
  ultimately show ?thesis using dispatch_calls_tools [OF d] by (fastforce simp: tools_grow_def st1_def)
qed

lemma gate_answer_tools: "tools_grow A st (snd (gate_answer cfg lw it a st))"
proof -
  have acc: "tools_grow A st (snd (accept_answer lw it a out st))" for a out st
  proof -
    obtain r st1 where s: "save_session lw (record_answer (lw_compress_output lw a) st) = (r, st1)"
      by (cases "save_session lw (record_answer (lw_compress_output lw a) st)")
    have "ts_last_tools st1 = []" using save_tools_from [OF s] by (simp add: record_answer_def Let_def)
    then show ?thesis using s by (cases r) (simp_all add: accept_answer_def Let_def tools_grow_def)
  qed
  have chk: "tools_grow A st (snd (check_answer cfg lw it a out st))" for a out st
    using acc by (simp add: check_answer_def Let_def tools_grow_def)
  show ?thesis
  proof (cases "ts_pending st")
    case (Some p)
    have "tools_grow A (st\<lparr>ts_pending := None\<rparr>) (snd (check_answer cfg lw it b out (st\<lparr>ts_pending := None\<rparr>)))" for b out
      by (rule chk)
    then show ?thesis using Some by (simp add: gate_answer_def Let_def tools_grow_def)
  qed (use chk in \<open>simp add: gate_answer_def\<close>)
qed

lemma end_turn_tools: "tools_grow A st (snd (end_turn cfg lw it r st))"
proof -
  obtain a ds where pd: "parse_directives (response_text (re_content r)) = (a, ds)"
    by (cases "parse_directives (response_text (re_content r))")
  have "tools_grow A st (snd (gate_answer cfg lw it a s))" if "ts_last_tools s = ts_last_tools st" for a s
    using gate_answer_tools [of A s] that by (simp add: tools_grow_def)
  moreover have "ts_last_tools (snd (backend_dead lw it s)) = ts_last_tools s"
    "ts_last_tools (snd (end_silent lw it ds s)) = ts_last_tools s" for s
    by (auto simp: backend_dead_def end_silent_def Let_def split: prod.splits sum.splits dest!: save_tools_from)
  ultimately show ?thesis
    unfolding end_turn_def pd prod.case Let_def by (auto intro: tools_grow_same)
qed

lemma max_tokens_tools: "tools_grow A st (snd (max_tokens cfg lw it r st))"
  by (rule tools_grow_same) (auto simp: max_tokens_def Let_def split: option.splits)

lemma turn_step_tools: "tools_grow (tools_called_in cfg lw st) st (snd (turn_step cfg lw it st))"
proof -
  define st1 where "st1 = emit_phase LoopThinking (prepare_messages cfg lw (read_inbox lw st))"
  have same: "ts_last_tools st1 = ts_last_tools st"
    by (simp add: st1_def prepare_messages_def read_inbox_def Let_def split: prod.splits)
  obtain a w where a: "lw_model lw (turn_request cfg (ts_messages st1)) (ts_world st1) = (a, w)"
    by (cases "lw_model lw (turn_request cfg (ts_messages st1)) (ts_world st1)")
  show ?thesis
  proof (cases a)
    case (Inl e)
    then show ?thesis using a same by (simp add: turn_step_def st1_def [symmetric] Let_def tools_grow_def)
  next
    case (Inr r0)
    let ?r = "promote_text_calls cfg lw r0"
    let ?st2 = "st1\<lparr>ts_world := w, ts_usage := add_usage (ts_usage st1) (re_usage r0)\<rparr>"
    have called: "tools_called_in cfg lw st
        = (if re_stop_reason ?r = StopToolUse then tc_name ` set (re_tool_calls ?r) else {})"
      using a Inr by (simp add: tools_called_in_def response_in_def st1_def [symmetric] Let_def)
    have "turn_step cfg lw it st = (case re_stop_reason ?r of
        StopToolUse \<Rightarrow> tool_round cfg lw it ?r ?st2 | MaxTokens \<Rightarrow> max_tokens cfg lw it ?r ?st2
      | _ \<Rightarrow> end_turn cfg lw it ?r ?st2)"
      using a Inr by (simp add: turn_step_def st1_def [symmetric] Let_def)
    then have "tools_grow (tools_called_in cfg lw st) ?st2 (snd (turn_step cfg lw it st))"
      unfolding called
      by (cases "re_stop_reason ?r") (simp_all add: tool_round_tools max_tokens_tools end_turn_tools)
    then show ?thesis using same by (simp add: tools_grow_def)
  qed
qed

lemma turn_reaches_tools: "turn_reaches cfg lw session w it called st \<Longrightarrow> set (ts_last_tools st) \<subseteq> called"
proof (induction rule: turn_reaches.induct)
  case begins
  then show ?case by (simp add: start_turn_def Let_def)
next
  case (goes_on it called st st')
  then show ?case using turn_step_tools [of cfg lw st it] by (auto simp: tools_grow_def)
qed

subsection \<open>The checks\<close>

text \<open>The answer an iteration comes to, and what it has passed.\<close>

definition answer_in :: "turn_config \<Rightarrow> 'w turn_world \<Rightarrow> 'w turn_state \<Rightarrow> string" where
  "answer_in cfg lw st =
     (case response_in cfg lw st of
        Some r \<Rightarrow> nonempty_answer (fst (parse_directives (response_text (re_content r)))) st
      | None \<Rightarrow> [])"

definition passed :: "turn_config \<Rightarrow> 'w turn_world \<Rightarrow> nat \<Rightarrow> bool \<Rightarrow> string list \<Rightarrow> string \<Rightarrow> bool" where
  "passed cfg lw it any_tools tools answer \<longleftrightarrow>
     trim answer \<noteq> []
     \<and> (it = 0 \<and> \<not> any_tools \<longrightarrow> \<not> phantom_action_detected (lw_env lw) answer)
     \<and> \<not> scheduling_phantom_detected (lw_env lw) (tn_user_message cfg) answer tools
     \<and> \<not> terminal_handoff_detected (lw_env lw) (tn_user_message cfg) answer tools
     \<and> \<not> process_phantom_detected (lw_env lw) answer tools"

definition completed_ok :: "turn_config \<Rightarrow> 'w turn_world \<Rightarrow> nat \<Rightarrow> bool \<Rightarrow> string list \<Rightarrow> string \<Rightarrow> turn_flow \<times> 'w turn_state \<Rightarrow> bool" where
  "completed_ok cfg lw it any_tools tools answer res \<longleftrightarrow>
     (\<forall>r. fst res = Finish r \<longrightarrow> rs_outcome r = OutCompleted \<longrightarrow>
        ts_pending (snd res) = None \<and> \<not> rs_silent r \<and> rs_response r = lw_compress_output lw answer
        \<and> passed cfg lw it any_tools tools answer
        \<and> (\<exists>ms. ts_session (snd res) = prune_heartbeat_turns (ms @ [assistant_message (rs_response r)]) 10))"

lemma completed_ok_Continue [simp]:
  "completed_ok cfg lw it b ts a (Continue, st)" "completed_ok cfg lw it b ts a (Abort e, st)"
  by (simp_all add: completed_ok_def)

lemma completed_ok_other: "rs_outcome r \<noteq> OutCompleted \<Longrightarrow> completed_ok cfg lw it b ts a (Finish r, st)"
  by (simp add: completed_ok_def)

lemma completed_ok_if:
  "completed_ok cfg lw it b ts a x \<Longrightarrow> completed_ok cfg lw it b ts a y \<Longrightarrow> completed_ok cfg lw it b ts a (if c then x else y)"
  by simp

lemma accept_answer_completed:
  assumes "out = OutCompleted \<longrightarrow> ts_pending st = None \<and> a = answer \<and> passed cfg lw it b ts answer"
  shows "completed_ok cfg lw it b ts answer (accept_answer lw it a out st)"
proof -
  obtain r st1 where s: "save_session lw (record_answer (lw_compress_output lw a) st) = (r, st1)"
    by (cases "save_session lw (record_answer (lw_compress_output lw a) st)")
  have "ts_pending st1 = ts_pending st"
      "ts_session st1 = prune_heartbeat_turns (ts_session st @ [assistant_message (lw_compress_output lw a)]) 10"
    using save_session_eq [OF s] by simp_all
  then show ?thesis
    using s assms by (cases r) (auto simp: accept_answer_def Let_def completed_ok_def loop_result_def)
qed

lemma check_answer_completed:
  assumes "out = OutCompleted \<longrightarrow> ts_pending st = None \<and> a = answer \<and> trim answer \<noteq> []"
  shows "completed_ok cfg lw it (ts_any_tools st) (ts_last_tools st) answer (check_answer cfg lw it a out st)"
  unfolding check_answer_def Let_def
  using assms by (auto simp: passed_def intro!: accept_answer_completed)

lemma gate_answer_completed:
  "trim a \<noteq> [] \<Longrightarrow> completed_ok cfg lw it (ts_any_tools st) (ts_last_tools st) a (gate_answer cfg lw it a st)"
  using check_answer_completed [of OutCompleted st a a cfg lw it]
    check_answer_completed [of OutAinlAuthoringUnresolved "st\<lparr>ts_pending := None\<rparr>" _ a cfg lw it]
  by (cases "ts_pending st") (simp_all add: gate_answer_def Let_def)

lemma end_silent_completed: "completed_ok cfg lw it b ts a (end_silent lw it ds st)"
  by (auto simp: end_silent_def completed_ok_def loop_result_def split: prod.splits sum.splits)

lemma backend_dead_completed: "completed_ok cfg lw it b ts a (backend_dead lw it st)"
  by (auto simp: backend_dead_def completed_ok_def loop_result_def Let_def)

lemma empty_answer_not_blank: "trim (empty_answer_text True) \<noteq> [] \<and> trim (empty_answer_text False) \<noteq> []"
  by code_simp

lemma nonempty_answer_trim: "trim (nonempty_answer a st) \<noteq> []"
  using empty_answer_not_blank by (cases "ts_any_tools st") (simp_all add: nonempty_answer_def)

lemma end_turn_completed:
  assumes "answer = nonempty_answer (fst (parse_directives (response_text (re_content r)))) st"
  shows "completed_ok cfg lw it (ts_any_tools st) (ts_last_tools st) answer (end_turn cfg lw it r st)"
proof -
  obtain a ds where pd: "parse_directives (response_text (re_content r)) = (a, ds)"
    by (cases "parse_directives (response_text (re_content r))")
  have gate: "completed_ok cfg lw it (ts_any_tools st) (ts_last_tools st) answer (gate_answer cfg lw it (nonempty_answer a s) s)"
    if "ts_any_tools s = ts_any_tools st" "ts_last_tools s = ts_last_tools st" for s
  proof -
    have "answer = nonempty_answer a s" using assms pd that by (simp add: nonempty_answer_def)
    then show ?thesis using gate_answer_completed [OF nonempty_answer_trim, of cfg lw it s a s] that by simp
  qed
  show ?thesis
    unfolding end_turn_def pd prod.case Let_def
    by (intro completed_ok_if end_silent_completed backend_dead_completed gate completed_ok_Continue) simp_all
qed

lemma tool_round_completed: "completed_ok cfg lw it b ts a (tool_round cfg lw it r st)"
proof -
  have f: "completed_ok cfg lw it b ts a (finish_round cfg lw it allow ds st2)" for allow ds st2
    by (auto simp: finish_round_def end_blocked_def loop_result_def completed_ok_def Let_def report_results_phases
        split: prod.splits)
  show ?thesis
    by (auto simp: tool_round_def Let_def f split: prod.splits sum.splits)
qed

lemma max_tokens_completed: "completed_ok cfg lw it b ts a (max_tokens cfg lw it r st)"
  by (auto simp: max_tokens_def Let_def loop_result_def intro!: completed_ok_other split: option.splits)

lemma turn_step_completed:
  "completed_ok cfg lw it (ts_any_tools st) (ts_last_tools st) (answer_in cfg lw st) (turn_step cfg lw it st)"
proof -
  define st1 where "st1 = emit_phase LoopThinking (prepare_messages cfg lw (read_inbox lw st))"
  have same: "ts_last_tools st1 = ts_last_tools st" "ts_any_tools st1 = ts_any_tools st"
    by (simp_all add: st1_def prepare_messages_def read_inbox_def emit_phase_def Let_def split: prod.splits)
  obtain a w where a: "lw_model lw (turn_request cfg (ts_messages st1)) (ts_world st1) = (a, w)"
    by (cases "lw_model lw (turn_request cfg (ts_messages st1)) (ts_world st1)")
  show ?thesis
  proof (cases a)
    case (Inl e)
    then show ?thesis using a by (simp add: turn_step_def st1_def [symmetric] Let_def)
  next
    case (Inr r0)
    let ?r = "promote_text_calls cfg lw r0"
    let ?st2 = "st1\<lparr>ts_world := w, ts_usage := add_usage (ts_usage st1) (re_usage r0)\<rparr>"
    have ans: "answer_in cfg lw st = nonempty_answer (fst (parse_directives (response_text (re_content ?r)))) ?st2"
      using a Inr same by (simp add: answer_in_def response_in_def st1_def [symmetric] Let_def nonempty_answer_def)
    have "turn_step cfg lw it st = (case re_stop_reason ?r of
        StopToolUse \<Rightarrow> tool_round cfg lw it ?r ?st2 | MaxTokens \<Rightarrow> max_tokens cfg lw it ?r ?st2
      | _ \<Rightarrow> end_turn cfg lw it ?r ?st2)"
      using a Inr by (simp add: turn_step_def st1_def [symmetric] Let_def)
    then show ?thesis
      using end_turn_completed [OF ans, of cfg lw it] same
      by (cases "re_stop_reason ?r") (simp_all add: tool_round_completed max_tokens_completed)
  qed
qed

lemma end_at_limit_outcome: "rs_outcome (fst (end_at_limit cfg lw st)) \<noteq> OutCompleted"
  by (auto simp: end_at_limit_def Let_def loop_result_def split: option.splits)

text \<open>The iteration that ends a turn with success.\<close>

lemma turn_loop_ends:
  assumes "turn_loop cfg lw n it st = (Inr r, st')" "rs_outcome r = OutCompleted" "turn_reaches cfg lw session w it called st"
  shows "\<exists>it1 called1 st1. turn_reaches cfg lw session w it1 called1 st1 \<and> it1 < it + n
    \<and> turn_step cfg lw it1 st1 = (Finish r, st')"
  using assms
proof (induction n arbitrary: it st called)
  case 0
  then show ?case using end_at_limit_outcome [of cfg lw st] by (auto split: prod.splits)
next
  case (Suc n)
  obtain f st1 where s: "turn_step cfg lw it st = (f, st1)" by (cases "turn_step cfg lw it st")
  show ?case
  proof (cases f)
    case Continue
    have "turn_loop cfg lw n (Suc it) st1 = (Inr r, st')" using Suc.prems(1) s Continue by simp
    from Suc.IH [OF this Suc.prems(2) turn_reaches.goes_on [OF Suc.prems(3) s [unfolded Continue]]]
    show ?thesis by auto
  next
    case (Finish r1)
    then show ?thesis using Suc.prems s by fastforce
  qed (use Suc.prems s in simp)
qed

text \<open>
  C20. A turn that reports success ends in an iteration whose answer, the text of the model without
  directives or a text in its place when that is blank, is not blank and passed the checks of that iteration against
  the list of tools the turn has called by then: it claims no schedule, no work handed back to the user and no
  started process that the called tools do not account for, nor, in a first iteration, any action. Every name in
  the list is a tool the model called in this turn. No AINL failure is pending then, and the
  response, which is that answer after the compression of outputs, is the last message of the session, less old
  heartbeat turns.
\<close>

theorem completed_turn_checked:
  assumes "run_agent_loop cfg lw session w = (Inr r, st')" and "rs_outcome r = OutCompleted"
  shows "ts_pending st' = None \<and> \<not> rs_silent r
    \<and> (\<exists>ms. ts_session st' = prune_heartbeat_turns (ms @ [assistant_message (rs_response r)]) 10)
    \<and> (\<exists>it called st answer. turn_reaches cfg lw session w it called st \<and> it < tn_max_iterations cfg
         \<and> turn_step cfg lw it st = (Finish r, st')
         \<and> answer = answer_in cfg lw st \<and> rs_response r = lw_compress_output lw answer \<and> trim answer \<noteq> []
         \<and> set (ts_last_tools st) \<subseteq> called
         \<and> (it = 0 \<and> \<not> ts_any_tools st \<longrightarrow> \<not> phantom_action_detected (lw_env lw) answer)
         \<and> \<not> scheduling_phantom_detected (lw_env lw) (tn_user_message cfg) answer (ts_last_tools st)
         \<and> \<not> terminal_handoff_detected (lw_env lw) (tn_user_message cfg) answer (ts_last_tools st)
         \<and> \<not> process_phantom_detected (lw_env lw) answer (ts_last_tools st))"
proof -
  have "turn_loop cfg lw (tn_max_iterations cfg) 0 (start_turn cfg session w) = (Inr r, st')"
    using assms(1) by (simp add: run_agent_loop_def)
  from turn_loop_ends [OF this assms(2) turn_reaches.begins] obtain it called st where
    st: "turn_reaches cfg lw session w it called st" "it < tn_max_iterations cfg" "turn_step cfg lw it st = (Finish r, st')"
    by auto
  have "completed_ok cfg lw it (ts_any_tools st) (ts_last_tools st) (answer_in cfg lw st) (Finish r, st')"
    using turn_step_completed [of cfg lw it st] st(3) by simp
  then have ok: "ts_pending st' = None" "\<not> rs_silent r" "rs_response r = lw_compress_output lw (answer_in cfg lw st)"
    "passed cfg lw it (ts_any_tools st) (ts_last_tools st) (answer_in cfg lw st)"
    "\<exists>ms. ts_session st' = prune_heartbeat_turns (ms @ [assistant_message (rs_response r)]) 10"
    using assms(2) unfolding completed_ok_def by auto
  show ?thesis
    using ok(1,2,5) st ok(3) turn_reaches_tools [OF st(1)] ok(4) [unfolded passed_def] by blast
qed

text \<open>
  The third attempt to finish with a failure pending drops the failure before the checks of the text;
  when one of them objects to the summary of the failure, the model goes on with nothing pending.
\<close>

lemma pending_failure_lost:
  assumes "ts_pending st = Some p" "MAX_AINL_AUTHORING_PREMATURE_FINAL_ATTEMPTS \<le> pa_blocked_final_attempts p + 1"
    and "process_phantom_detected (lw_env lw) (ainl_authoring_unresolved_summary (note_attempt p) (ts_proof st)) (ts_last_tools st)"
  shows "fst (gate_answer cfg lw it a st) = Continue" "ts_pending (snd (gate_answer cfg lw it a st)) = None"
  using assms by (simp_all add: gate_answer_def note_attempt_def check_answer_def Let_def)

section \<open>Sample turns\<close>

definition sample_env :: guard_env where
  "sample_env = \<lparr>sha256_hex = (\<lambda>s. s), json_to_string = (\<lambda>_. ''null''), json_from_str = (\<lambda>_. None), to_lowercase = (\<lambda>s. s)\<rparr>"

text \<open>A world in which the model always answers the same and every tool answers ok.\<close>

definition sample_world :: "(string, completion_response) result \<Rightarrow> unit turn_world" where
  "sample_world answer =
     \<lparr>lw_env = sample_env, lw_fmul = exact_mul, lw_order = (\<lambda>xs. xs), lw_model = (\<lambda>_ w. (answer, w)),
      lw_recover = (\<lambda>_ _. []), lw_compress_output = (\<lambda>s. s), lw_before_tool = (\<lambda>_ _ w. (Inr (), w)),
      lw_run_batch = (\<lambda>batch w. (\<lambda>k. Some \<lparr>to_tool_use_id = tc_id (batch ! k), to_content = ''ok'', to_is_error = False\<rparr>, w)),
      lw_save = (\<lambda>_ w. (Inr (), w)), lw_inbox = (\<lambda>w. (([], None), w))\<rparr>"

definition sample_config :: turn_config where
  "sample_config =
     \<lparr>tn_model = ''m'', tn_provider = ''p'', tn_max_tokens = 100, tn_temperature = 0, tn_tools = [], tn_system_prompt = [],
      tn_user_message = ''capital of France?'', tn_user_blocks = None, tn_canonical_context = None,
      tn_max_history_messages = 20, tn_max_iterations = 5, tn_max_continuations = 5, tn_ctx_window = 1000\<rparr>"

definition text_response :: "string \<Rightarrow> completion_response" where
  "text_response t = \<lparr>re_content = [TextBlock t None], re_stop_reason = EndTurn, re_tool_calls = [], re_usage = no_usage\<rparr>"

lemma sample_fields [simp]:
  "lw_env (sample_world a) = sample_env" "lw_model (sample_world a) = (\<lambda>_ w. (a, w))" "lw_recover (sample_world a) t ds = []"
  "lw_compress_output (sample_world a) t = t" "lw_before_tool (sample_world a) n j w = (Inr (), w)"
  "lw_save (sample_world a) ms w = (Inr (), w)" "lw_inbox (sample_world a) w = (([], None), w)"
  "lw_run_batch (sample_world a) = (\<lambda>batch w. (\<lambda>k. Some \<lparr>to_tool_use_id = tc_id (batch ! k), to_content = ''ok'', to_is_error = False\<rparr>, w))"
  "tn_max_iterations sample_config = 5" "tn_user_message sample_config = ''capital of France?''" "tn_tools sample_config = []"
  by (simp_all add: sample_world_def sample_config_def)

text \<open>The model cannot be reached: the turn fails in its first step, in the thinking phase.\<close>

lemma failed_turn:
  "\<exists>st'. run_agent_loop sample_config (sample_world (Inl e)) session () = (Inl (ModelError e), st')
     \<and> ts_phases st' = [LoopThinking]"
proof -
  have five: "(5::nat) = Suc 4" by simp
  have start: "ts_phases (start_turn sample_config session ()) = []" by (simp add: start_turn_def Let_def)
  show ?thesis
    unfolding run_agent_loop_def sample_fields five turn_loop.simps
    by (simp add: turn_step_def Let_def prepare_messages_def read_inbox_phases start)
qed

lemma active_agent_exists:
  "\<exists>reg e. reg_reachable reg \<and> rg_get 0 reg = Some e \<and> en_state e = Running \<and> en_manifest e = agent_manifest_default"
proof -
  let ?reg = "snd (rg_register (spawned_entry 0 0 0 agent_manifest_default None) (with_agent_home []))"
  have "spawn_agent_with_parent 0 0 0 0 agent_manifest_default None (with_agent_home []) = Some (Inr 0, ?reg)"
    by (simp add: spawn_agent_with_parent_def spawn_quota_check_def rg_register_def with_agent_home_def Let_def)
  moreover have "unknown_id (with_agent_home []) 0"
    by (auto simp: unknown_id_def rg_get_def child_rel_def with_agent_home_def)
  ultimately have "reg_reachable ?reg" using reg_reachable.spawned [OF reg_reachable.start] by blast
  moreover have "rg_get 0 ?reg = Some (spawned_entry 0 0 0 agent_manifest_default None)"
    by (simp add: rg_get_def rg_register_def with_agent_home_def spawned_entry_def Let_def)
  ultimately show ?thesis by (fastforce simp: spawned_entry_def)
qed

lemma unfinished_phase_crashes_idle_agent_witness:
  "\<exists>reg st'. rg_get 0 reg \<noteq> None
     \<and> run_agent_loop sample_config (sample_world (Inl ''connection refused'')) [] () = (Inl (ModelError ''connection refused''), st')
     \<and> map_option en_state (rg_get 0 (hm_registry (fold (monitor_step heartbeat_config_default turn_watchdog_settings_default)
          [Elsewhere reg (record_turn turn_watchdog_settings_default 0 (zip [0] (ts_phases st')) []), Tick 8000000] monitor_start)))
       = Some Crashed"
proof -
  obtain reg e where e: "reg_reachable reg" "rg_get 0 reg = Some e" "en_state e = Running" "en_manifest e = agent_manifest_default"
    using active_agent_exists by blast
  obtain st' where st': "run_agent_loop sample_config (sample_world (Inl ''connection refused'')) [] () = (Inl (ModelError ''connection refused''), st')"
      "ts_phases st' = [LoopThinking]"
    using failed_turn by blast
  have "\<not> is_quiet_agent 8000000 0 reg" using e by (simp add: is_quiet_agent_def agent_manifest_default_def)
  moreover have "\<forall>kind. num_seconds (8000000 - 0) > as_i64 (phase_limit turn_watchdog_settings_default kind)"
    by (auto simp: num_seconds_def as_i64_def phase_limit_def turn_watchdog_settings_default_def split: monitored_loop_phase.split)
  ultimately show ?thesis
    using unfinished_phase_crashes_idle_agent [OF st'(1), where ats = "[0]" and ?t1.0 = 0 and phases = "[]" and i = 0
        and tw = turn_watchdog_settings_default and reg = reg and e = e and now = 8000000
        and config = heartbeat_config_default and ms = monitor_start] e st'
    by (intro exI [of _ reg] exI [of _ st']) (simp add: turn_watchdog_settings_default_def)
qed

text \<open>An answer that is accepted at once.\<close>

lemma sample_answer:
  "parse_directives ''It is Paris.'' = (''It is Paris.'', no_directives)
   \<and> response_text (re_content (text_response ''It is Paris.'')) = ''It is Paris.''
   \<and> \<not> assistant_intended_silent ''It is Paris.'' no_directives \<and> trim ''It is Paris.'' \<noteq> []
   \<and> \<not> phantom_action_detected sample_env ''It is Paris.''
   \<and> \<not> scheduling_phantom_detected sample_env ''capital of France?'' ''It is Paris.'' []
   \<and> \<not> terminal_handoff_detected sample_env ''capital of France?'' ''It is Paris.'' []
   \<and> \<not> process_phantom_detected sample_env ''It is Paris.'' []"
  by code_simp

lemma sample_end_turn:
  assumes "ts_pending st = None" "ts_any_tools st = False" "ts_last_tools st = []"
  shows "\<exists>st'. end_turn sample_config (sample_world a) 0 (text_response ''It is Paris.'') st
    = (Finish (loop_result ''It is Paris.'' 1 OutCompleted st'), st') \<and> ts_session st' = prune_heartbeat_turns (ts_session st @ [assistant_message ''It is Paris.'']) 10"
proof -
  note a = sample_answer [THEN conjunct1] sample_answer [THEN conjunct2, THEN conjunct1]
    sample_answer [THEN conjunct2, THEN conjunct2]
  have e: "end_turn sample_config (sample_world a) 0 (text_response ''It is Paris.'') st
      = gate_answer sample_config (sample_world a) 0 ''It is Paris.'' (st\<lparr>ts_consecutive_silent_failures := 0\<rparr>)"
    unfolding end_turn_def a(1,2) prod.case Let_def using a(3) by (simp add: nonempty_answer_def)
  show ?thesis
    unfolding e using a(3) assms
    by (simp add: gate_answer_def check_answer_def accept_answer_def save_session_def Let_def)
qed

lemma sample_turn:
  "\<exists>r st'. run_agent_loop sample_config (sample_world (Inr (text_response ''It is Paris.''))) session () = (Inr r, st')
     \<and> rs_outcome r = OutCompleted \<and> rs_response r = ''It is Paris.''"
proof -
  have five: "(5::nat) = Suc 4" by simp
  let ?lw = "sample_world (Inr (text_response ''It is Paris.''))"
  let ?st0 = "start_turn sample_config session ()"
  define st1 where "st1 = emit_phase LoopThinking (prepare_messages sample_config ?lw (read_inbox ?lw ?st0))"
  define st2 where "st2 = st1\<lparr>ts_world := (), ts_usage := add_usage (ts_usage st1) (re_usage (text_response ''It is Paris.''))\<rparr>"
  have "ts_pending st2 = None" "ts_any_tools st2 = False" "ts_last_tools st2 = []"
    by (simp_all add: st2_def st1_def emit_phase_def prepare_messages_def read_inbox_def start_turn_def Let_def)
  note * = sample_end_turn [OF this, of "Inr (text_response ''It is Paris.'')"]
  have p: "promote_text_calls sample_config ?lw (text_response ''It is Paris.'') = text_response ''It is Paris.''"
    by (simp add: promote_text_calls_def)
  have "turn_step sample_config ?lw 0 ?st0 = end_turn sample_config ?lw 0 (text_response ''It is Paris.'') st2"
    unfolding turn_step_def Let_def st1_def [symmetric] sample_fields prod.case sum.case p st2_def [symmetric]
    by (simp add: text_response_def st2_def)
  then show ?thesis using *
    unfolding run_agent_loop_def sample_fields five turn_loop.simps by (auto simp: loop_result_def)
qed

theorem completed_turn_checked_witness:
  "\<exists>r st' it called st. run_agent_loop sample_config (sample_world (Inr (text_response ''It is Paris.''))) [] () = (Inr r, st')
     \<and> rs_response r = ''It is Paris.'' \<and> ts_pending st' = None
     \<and> turn_reaches sample_config (sample_world (Inr (text_response ''It is Paris.''))) [] () it called st
     \<and> turn_step sample_config (sample_world (Inr (text_response ''It is Paris.''))) it st = (Finish r, st')"
  using sample_turn [of "[]"] completed_turn_checked [of sample_config "sample_world (Inr (text_response ''It is Paris.''))" "[]" "()"]
  by blast

text \<open>Two equal reads in one response.\<close>

definition read_twice :: completion_response where
  "read_twice =
     \<lparr>re_content = [ToolUse ''a'' ''file_read'' JNull None, ToolUse ''b'' ''file_read'' JNull None], re_stop_reason = StopToolUse,
      re_tool_calls = [\<lparr>tc_id = ''a'', tc_name = ''file_read'', tc_input = JNull\<rparr>, \<lparr>tc_id = ''b'', tc_name = ''file_read'', tc_input = JNull\<rparr>],
      re_usage = no_usage\<rparr>"

lemma read_twice_dedup:
  "deduplicate_tool_calls sample_env (re_tool_calls read_twice) = [\<lparr>tc_id = ''a'', tc_name = ''file_read'', tc_input = JNull\<rparr>]"
  by code_simp

lemma sample_honest: "honest_tools (sample_world a)"
  by (auto simp: honest_tools_def)

lemma first_call_allowed: "fst (lg_check sample_env ''file_read'' JNull (lg_new loop_guard_config_default)) = Allow"
  by code_simp

lemma sample_round:
  "\<exists>st'. tool_round sample_config (sample_world (Inr read_twice)) 0 read_twice (start_turn sample_config session ()) = (Continue, st')"
proof -
  let ?lw = "sample_world (Inr read_twice)"
  let ?c = "\<lparr>tc_id = ''a'', tc_name = ''file_read'', tc_input = JNull\<rparr>"
  define st1 where "st1 = say [asking read_twice] (keep (asking read_twice)
    ((start_turn sample_config session ())\<lparr>ts_consecutive_max_tokens := 0, ts_any_tools := True\<rparr>))"
  have g: "ts_guard st1 = lg_new loop_guard_config_default" "ts_consecutive_all_blocked st1 = 0"
    by (simp_all add: st1_def say_def keep_def start_turn_def turn_guard_def Let_def loop_guard_config_default_def)
  obtain h where h: "lg_check sample_env ''file_read'' JNull (lg_new loop_guard_config_default) = (Allow, h)"
    using first_call_allowed by (metis fst_conv surj_pair)
  obtain d st2 where d: "dispatch_one sample_config ?lw allow ?c st1 = (Inr d, st2)" "ts_consecutive_all_blocked st2 = 0" for allow
    using g h by (auto simp: dispatch_one_def ainl_run_requires_strict_validate_first_def Let_def dispatch_guarded_def emit_phase_def)
  have "dispatch_calls sample_config ?lw allow [?c] st1 = (Inr [d], st2)" for allow
    by (simp add: d)
  moreover have "fst (finish_round sample_config ?lw 0 allow [d] st2) = Continue" for allow
    by (auto simp: finish_round_def Let_def d(2) report_results_phases MAX_CONSECUTIVE_ALL_BLOCKED_def split: prod.splits)
  ultimately have "fst (tool_round sample_config ?lw 0 read_twice (start_turn sample_config session ())) = Continue"
    by (simp add: tool_round_def Let_def asking_def [symmetric] st1_def [symmetric] read_twice_dedup)
  then show ?thesis by (metis surjective_pairing)
qed

theorem tool_round_answered_witness:
  "\<exists>st' bs. tool_round sample_config (sample_world (Inr read_twice)) 0 read_twice (start_turn sample_config [] ()) = (Continue, st')
     \<and> results_of bs = [''a''] \<and> ts_session st' = [user_message ''capital of France?'', asking read_twice, user_with_blocks bs]"
proof -
  obtain st' where st': "tool_round sample_config (sample_world (Inr read_twice)) 0 read_twice (start_turn sample_config [] ()) = (Continue, st')"
    using sample_round by blast
  have "ts_session (start_turn sample_config [] ()) = [user_message ''capital of France?'']"
    by (simp add: start_turn_def Let_def strip_images_def user_message_def sample_config_def)
  then show ?thesis using tool_round_answered [OF st' sample_honest] st' by (auto simp: read_twice_dedup)
qed

end
