(* ===== verification/LLM_Errors.thy ===== *)
theory LLM_Errors
  imports Think_Filter Loop_Guard Utf8
begin

text \<open>
  What becomes of an error of a language model (\<^verbatim>\<open>crates/openfang-runtime/src/llm_errors.rs\<close>): its
  category, the delay it asks for, and the text the user is shown. Lower case and the JSON parser are
  those of the environment; the Unicode table of alphanumeric characters above ASCII is a parameter.
\<close>

section \<open>Categories and patterns\<close>

datatype llm_error_category =
    CatRateLimit | CatOverloaded | CatTimeout | CatBilling | CatAuth | CatContextOverflow | CatFormat | CatModelNotFound

record classified_error =
  ck_category :: llm_error_category
  ck_is_retryable :: bool
  ck_is_billing :: bool
  ck_suggested_delay_ms :: "nat option"
  ck_sanitized_message :: string
  ck_raw_message :: string

definition CONTEXT_OVERFLOW_PATTERNS :: "string list" where
  "CONTEXT_OVERFLOW_PATTERNS =
     [''context_length_exceeded'', ''context length'', ''context_length'', ''maximum context'',
      ''context window'', ''token limit'', ''too many tokens'', ''max_tokens_exceeded'',
      ''max tokens exceeded'', ''prompt is too long'', ''input too long'', ''context.length'']"

definition BILLING_PATTERNS :: "string list" where
  "BILLING_PATTERNS =
     [''payment required'', ''insufficient credits'', ''credit balance'', ''billing'',
      ''insufficient balance'', ''usage limit'']"

definition AUTH_PATTERNS :: "string list" where
  "AUTH_PATTERNS =
     [''invalid api key'', ''invalid api_key'', ''invalid apikey'', ''incorrect api key'',
      ''invalid x-api-key'', ''invalid token'', ''unauthorized'', ''invalid_auth'',
      ''authentication_error'', ''authentication failed'', ''api key not found'',
      ''api key is missing'', ''invalid credentials'', ''not authenticated'']"

definition FORBIDDEN_NON_AUTH_PATTERNS :: "string list" where
  "FORBIDDEN_NON_AUTH_PATTERNS =
     [''quota'', ''limit'', ''balance'', ''credit'', ''billing'', ''region'',
      ''not available'', ''not supported'', ''not allowed'', ''access denied'', ''permission'',
      ''insufficient'', ''exceeded'', ''capacity'', ''blocked'', ''restricted'',
      ''not enabled'', ''does not exist'', ''model'']"

definition RATE_LIMIT_PATTERNS :: "string list" where
  "RATE_LIMIT_PATTERNS =
     [''rate limit'', ''rate_limit'', ''too many requests'', ''exceeded quota'',
      ''exceeded your quota'', ''resource exhausted'', ''resource_exhausted'',
      ''quota exceeded'', ''tokens per minute'', ''requests per minute'', ''tpm limit'',
      ''rpm limit'']"

definition MODEL_NOT_FOUND_PATTERNS :: "string list" where
  "MODEL_NOT_FOUND_PATTERNS =
     [''model not found'', ''model_not_found'', ''unknown model'', ''does not exist'',
      ''not_found'', ''model unavailable'', ''model_unavailable'', ''no such model'',
      ''invalid model'', ''is not found'']"

definition FORMAT_PATTERNS :: "string list" where
  "FORMAT_PATTERNS =
     [''invalid request'', ''invalid_request'', ''malformed'', ''tool_use'', ''schema'',
      ''validation error'', ''validation_error'', ''invalid parameter'', ''invalid_parameter'',
      ''missing required'', ''bad request'', ''bad_request'']"

definition EMPTY_RESPONSE_PATTERNS :: "string list" where
  "EMPTY_RESPONSE_PATTERNS =
     [''eof while parsing a value'', ''eof while parsing'',
      ''provider returned empty response'', ''empty response body'',
      ''unexpected end of json'', ''unexpected eof'']"

definition OVERLOADED_PATTERNS :: "string list" where
  "OVERLOADED_PATTERNS =
     [''overloaded'', ''overloaded_error'', ''service unavailable'', ''service_unavailable'',
      ''high demand'', ''capacity'', ''server_error'', ''internal server error'',
      ''internal_server_error'']"

definition TIMEOUT_PATTERNS :: "string list" where
  "TIMEOUT_PATTERNS =
     [''timeout'', ''timed out'', ''deadline exceeded'', ''etimedout'', ''econnreset'',
      ''econnrefused'', ''econnaborted'', ''epipe'', ''ehostunreach'', ''enetunreach'',
      ''connection reset'', ''connection refused'', ''network error'', ''fetch failed'']"

definition matches_any :: "string \<Rightarrow> string list \<Rightarrow> bool" where
  "matches_any haystack patterns = list_ex (contains_str haystack) patterns"

section \<open>Texts for the user\<close>

definition is_html_error_page :: "guard_env \<Rightarrow> string \<Rightarrow> bool" where
  "is_html_error_page env body =
     (let lower = to_lowercase env body
      in contains_str lower ''<!doctype'' \<or> contains_str lower ''<html''
         \<or> contains_str lower ''cf-error-code'' \<or> contains_str lower ''cf-error-type''
         \<or> list_ex (\<lambda>code. contains_str lower (show_nat code) \<and> contains_str lower ''cloudflare'') [521..<531])"

definition text_member :: "json \<Rightarrow> string \<Rightarrow> string option" where
  "text_member v k = Option.bind (json_get k v) as_str"

definition extract_json_message :: "guard_env \<Rightarrow> string \<Rightarrow> string option" where
  "extract_json_message env raw =
     (case json_from_str env raw of
        None \<Rightarrow> None
      | Some v \<Rightarrow>
          (case Option.bind (json_get ''error'' v) (\<lambda>e. text_member e ''message'') of
             Some m \<Rightarrow> Some m
           | None \<Rightarrow>
               (case text_member v ''message'' of Some m \<Rightarrow> Some m | None \<Rightarrow> text_member v ''detail'')))"

text \<open>The length in bytes of the characters of a key at the start of a text.\<close>

definition is_key_char :: "(nat \<Rightarrow> bool) \<Rightarrow> string \<Rightarrow> bool" where
  "is_key_char uni ch =
     (case str_chars ch of c # _ \<Rightarrow> is_alphanumeric uni c \<or> c = 45 \<or> c = 95 | [] \<Rightarrow> False)"

lemma length_take_chars: "length (take_chars n s) \<le> length s"
  using prefix_take_chars [of n s] by (rule prefix_length_le)

lemma take_chars_1_pos: "0 < length (take_chars (Suc 0) (c # s))"
  by simp

function key_run :: "(nat \<Rightarrow> bool) \<Rightarrow> string \<Rightarrow> nat" where
  "key_run uni [] = 0"
| "key_run uni (c # s) =
     (let ch = take_chars 1 (c # s)
      in if is_key_char uni ch then length ch + key_run uni (drop (length ch) (c # s)) else 0)"
  by pat_completeness auto
termination
  by (relation "measure (\<lambda>(_, s). length s)") (auto split: if_splits)

definition KEY_PREFIXES :: "string list" where
  "KEY_PREFIXES = [''sk-'', ''key-'', ''Bearer '', ''bearer '']"

definition redacted_mark :: string where "redacted_mark = ''<redacted>''"

text \<open>One pass of the loop for a prefix: None when it ends, at a match too short to be a key too.\<close>

definition redact_step :: "(nat \<Rightarrow> bool) \<Rightarrow> string \<Rightarrow> string \<Rightarrow> string option" where
  "redact_step uni p s =
     (case find_str p s of
        None \<Rightarrow> None
      | Some start \<Rightarrow>
          let n = key_run uni (drop (start + length p) s)
          in if n > 4 then Some (take start s @ redacted_mark @ drop (start + length p + n) s) else None)"

fun redact_passes :: "nat \<Rightarrow> (nat \<Rightarrow> bool) \<Rightarrow> string \<Rightarrow> string \<Rightarrow> string" where
  "redact_passes 0 uni p s = s"
| "redact_passes (Suc fuel) uni p s =
     (case redact_step uni p s of None \<Rightarrow> s | Some s' \<Rightarrow> redact_passes fuel uni p s')"

text \<open>A pass moves the first match closer to the end of the text, so its length is enough fuel.\<close>

definition redact_prefix :: "(nat \<Rightarrow> bool) \<Rightarrow> string \<Rightarrow> string \<Rightarrow> string" where
  "redact_prefix uni p s = redact_passes (length s) uni p s"

definition redact_secrets :: "(nat \<Rightarrow> bool) \<Rightarrow> string \<Rightarrow> string" where
  "redact_secrets uni s = fold (redact_prefix uni) KEY_PREFIXES s"

definition strip_llm_wrapper :: "string \<Rightarrow> string" where
  "strip_llm_wrapper s =
     (case Option.bind (find_str ''API error ('' s)
             (\<lambda>idx. map_option (\<lambda>close. idx + close + 3) (find_str ''): '' (drop idx s))) of
        Some i \<Rightarrow> drop i s
      | None \<Rightarrow> (case strip_prefix ''LLM driver error: '' s of Some rest \<Rightarrow> rest | None \<Rightarrow> s))"

text \<open>The number of characters: continuation bytes do not count.\<close>

definition char_count :: "string \<Rightarrow> nat" where
  "char_count s = length (filter (\<lambda>c. \<not> is_continuation c) s)"

definition cap_message :: "string \<Rightarrow> nat \<Rightarrow> string" where
  "cap_message msg limit = (if char_count msg \<le> limit then msg else take_chars (limit - 3) msg @ ''...'')"

definition sanitize_raw_excerpt :: "guard_env \<Rightarrow> (nat \<Rightarrow> bool) \<Rightarrow> string \<Rightarrow> string" where
  "sanitize_raw_excerpt env uni raw =
     (if raw = [] then []
      else if is_html_error_page env raw then ''provider returned an error page (possible outage)''
      else
        let excerpt = (case extract_json_message env raw of Some m \<Rightarrow> m | None \<Rightarrow> raw)
        in cap_message (strip_llm_wrapper (redact_secrets uni excerpt)) 200)"

definition category_prefix :: "llm_error_category \<Rightarrow> string" where
  "category_prefix category =
     (case category of
        CatRateLimit \<Rightarrow> ''Rate limited'' | CatOverloaded \<Rightarrow> ''Provider overloaded'' | CatTimeout \<Rightarrow> ''Request timed out''
      | CatBilling \<Rightarrow> ''Billing issue'' | CatAuth \<Rightarrow> ''Auth error'' | CatContextOverflow \<Rightarrow> ''Context too long''
      | CatFormat \<Rightarrow> ''Request failed'' | CatModelNotFound \<Rightarrow> ''Model not found'')"

definition generic_message :: "llm_error_category \<Rightarrow> string" where
  "generic_message category =
     (let dash = '' '' @ [CHR 0xE2, CHR 0x80, CHR 0x94] @ '' ''
      in case category of
        CatRateLimit \<Rightarrow> ''Rate limited'' @ dash @ ''retrying shortly.''
      | CatOverloaded \<Rightarrow> ''Provider temporarily overloaded'' @ dash @ ''retrying.''
      | CatTimeout \<Rightarrow> ''Request timed out. Check your network connection.''
      | CatBilling \<Rightarrow> ''Billing issue. Check your API plan and balance.''
      | CatAuth \<Rightarrow> ''Auth error. Check your API key configuration.''
      | CatContextOverflow \<Rightarrow> ''Context too long for the model'' @ [CHR 0x27] @ ''s context window.''
      | CatFormat \<Rightarrow> ''Request failed. Check API key and model config.''
      | CatModelNotFound \<Rightarrow> ''Model not found. Check the model name.'')"

definition sanitize_for_user :: "guard_env \<Rightarrow> (nat \<Rightarrow> bool) \<Rightarrow> llm_error_category \<Rightarrow> string \<Rightarrow> string" where
  "sanitize_for_user env uni category raw =
     (let detail = sanitize_raw_excerpt env uni raw
      in if detail = [] then generic_message category
         else cap_message (category_prefix category @ '': '' @ detail) 300)"

section \<open>The delay an error asks for\<close>

definition U64_MAX :: nat where "U64_MAX = 2 ^ 64 - 1"

definition is_ascii_digit :: "char \<Rightarrow> bool" where
  "is_ascii_digit c = (digit_val c \<noteq> None)"

text \<open>The delay after one of the phrases: None when there is none, or it is zero or too large.\<close>

definition delay_after :: "string \<Rightarrow> string \<Rightarrow> nat option" where
  "delay_after p lower =
     (case find_str p lower of
        None \<Rightarrow> None
      | Some start \<Rightarrow>
          let after = drop (start + length p) lower; num = takeWhile is_ascii_digit after
          in if num = [] then None
             else (case digits_val 0 num of
                     None \<Rightarrow> None
                   | Some v \<Rightarrow>
                       if v > U64_MAX \<or> v = 0 then None
                       else if starts_with (drop (length num) after) ''ms'' then Some v
                       else Some (min U64_MAX (v * 1000))))"

definition extract_retry_delay :: "guard_env \<Rightarrow> string \<Rightarrow> nat option" where
  "extract_retry_delay env message =
     (let lower = to_lowercase env message
      in case delay_after ''retry after '' lower of
           Some d \<Rightarrow> Some d
         | None \<Rightarrow> (case delay_after ''retry-after: '' lower of
                      Some d \<Rightarrow> Some d | None \<Rightarrow> delay_after ''try again in '' lower))"

section \<open>Classification\<close>

text \<open>The statuses that are decided at once; a 403 only by what its text says.\<close>

definition forbidden_category :: "string \<Rightarrow> llm_error_category option" where
  "forbidden_category lower =
     (if matches_any lower RATE_LIMIT_PATTERNS then Some CatRateLimit
      else if matches_any lower BILLING_PATTERNS then Some CatBilling
      else if matches_any lower CONTEXT_OVERFLOW_PATTERNS then Some CatContextOverflow
      else if matches_any lower MODEL_NOT_FOUND_PATTERNS then Some CatModelNotFound
      else if matches_any lower FORBIDDEN_NON_AUTH_PATTERNS then None
      else Some CatAuth)"

definition status_category :: "nat option \<Rightarrow> string \<Rightarrow> llm_error_category option" where
  "status_category status lower =
     (if status = Some 429 then Some CatRateLimit
      else if status = Some 402 then Some CatBilling
      else if status = Some 401 then Some CatAuth
      else if status = Some 403 then forbidden_category lower
      else if status = Some 404 then Some CatModelNotFound
      else None)"

definition pattern_category :: "guard_env \<Rightarrow> nat option \<Rightarrow> string \<Rightarrow> string \<Rightarrow> llm_error_category option" where
  "pattern_category env status message lower =
     (if matches_any lower CONTEXT_OVERFLOW_PATTERNS then Some CatContextOverflow
      else if matches_any lower BILLING_PATTERNS \<or> status = Some 402 then Some CatBilling
      else if matches_any lower AUTH_PATTERNS \<or> status = Some 401 then Some CatAuth
      else if matches_any lower RATE_LIMIT_PATTERNS \<or> status = Some 429 then Some CatRateLimit
      else if matches_any lower MODEL_NOT_FOUND_PATTERNS
          \<or> contains_str lower ''model'' \<and> contains_str lower ''not found'' then Some CatModelNotFound
      else if matches_any lower EMPTY_RESPONSE_PATTERNS then Some CatOverloaded
      else if matches_any lower FORMAT_PATTERNS \<or> status = Some 400 then Some CatFormat
      else if matches_any lower OVERLOADED_PATTERNS \<or> status = Some 500 \<or> status = Some 503 then Some CatOverloaded
      else if matches_any lower TIMEOUT_PATTERNS then Some CatTimeout
      else if is_html_error_page env message then Some CatOverloaded
      else None)"

definition fallback_category :: "nat option \<Rightarrow> string \<Rightarrow> llm_error_category" where
  "fallback_category status lower =
     (let network = contains_str lower ''connect'' \<or> contains_str lower ''network'' \<or> contains_str lower ''dns'';
          last_resort = (if network then CatTimeout else CatFormat)
      in case status of
           Some code \<Rightarrow>
             if 500 \<le> code \<and> code < 600 then CatOverloaded
             else if 400 \<le> code \<and> code < 500 then CatFormat
             else last_resort
         | None \<Rightarrow> last_resort)"

definition error_category :: "guard_env \<Rightarrow> string \<Rightarrow> nat option \<Rightarrow> llm_error_category" where
  "error_category env message status =
     (let lower = to_lowercase env message
      in case status_category status lower of
           Some c \<Rightarrow> c
         | None \<Rightarrow> (case pattern_category env status message lower of
                      Some c \<Rightarrow> c | None \<Rightarrow> fallback_category status lower))"

definition retryable_category :: "llm_error_category \<Rightarrow> bool" where
  "retryable_category c = (c = CatRateLimit \<or> c = CatOverloaded \<or> c = CatTimeout)"

definition classify_error :: "guard_env \<Rightarrow> (nat \<Rightarrow> bool) \<Rightarrow> string \<Rightarrow> nat option \<Rightarrow> classified_error" where
  "classify_error env uni message status =
     (let c = error_category env message status
      in \<lparr>ck_category = c, ck_is_retryable = retryable_category c, ck_is_billing = (c = CatBilling),
          ck_suggested_delay_ms = extract_retry_delay env message,
          ck_sanitized_message = sanitize_for_user env uni c message, ck_raw_message = message\<rparr>)"

definition is_transient :: "guard_env \<Rightarrow> string \<Rightarrow> bool" where
  "is_transient env message =
     (let lower = to_lowercase env message
      in matches_any lower TIMEOUT_PATTERNS \<or> matches_any lower OVERLOADED_PATTERNS \<or> matches_any lower RATE_LIMIT_PATTERNS)"

section \<open>The redaction ends\<close>

definition rest_from_match :: "string \<Rightarrow> string \<Rightarrow> nat" where
  "rest_from_match p s = (case find_str p s of Some i \<Rightarrow> length s - i | None \<Rightarrow> 0)"

lemma rest_from_match_le: "rest_from_match p s \<le> length s"
  by (simp add: rest_from_match_def split: option.splits)

text \<open>A prefix that cannot start in the mark, nor before it and reach into it.\<close>

definition apart_from_mark :: "string \<Rightarrow> bool" where
  "apart_from_mark p \<longleftrightarrow> p \<noteq> [] \<and> CHR ''<'' \<notin> set p \<and> (\<forall>j < length redacted_mark. \<forall>r. \<not> prefix p (drop j redacted_mark @ r))"

lemma prefix_before_mark:
  assumes "CHR ''<'' \<notin> set p" "prefix p (drop j a @ CHR ''<'' # r)" "j \<le> length a"
  shows "prefix p (drop j a)"
proof (rule ccontr)
  assume *: "\<not> prefix p (drop j a)"
  then have "length (drop j a) < length p"
    using assms(2) prefix_append_short [of p "drop j a"] by (meson leI)
  moreover have "p ! length (drop j a) = (drop j a @ CHR ''<'' # r) ! length (drop j a)"
    using assms(2) calculation by (metis prefix_def nth_append)
  ultimately have "CHR ''<'' \<in> set p" by (metis nth_append_length nth_mem)
  then show False using assms(1) by simp
qed

lemma no_match_before:
  assumes "apart_from_mark p" "find_str p s = Some start" "j < length (take start s @ redacted_mark)"
  shows "\<not> prefix p (drop j ((take start s @ redacted_mark) @ r))"
proof (cases "j < start")
  case True
  have len: "start \<le> length s" using find_str_le [OF assms(2)] by simp
  have "\<not> prefix p (drop j (take start s))"
  proof
    assume "prefix p (drop j (take start s))"
    then have "prefix p (drop j s)"
      by (metis append_take_drop_id drop_take prefix_order.trans take_is_prefix)
    then show False using assms(2) True by (simp add: find_str_Some_iff)
  qed
  then have "\<not> prefix p (drop j (take start s) @ CHR ''<'' # tl redacted_mark @ r)"
    using prefix_before_mark [of p j "take start s" "tl redacted_mark @ r"] assms(1) True len
    by (auto simp: apart_from_mark_def)
  then show ?thesis using True len by (simp add: redacted_mark_def)
next
  case False
  have len: "start \<le> length s" using find_str_le [OF assms(2)] by simp
  have "j - start < length redacted_mark" using assms(3) False len by simp
  then have "\<not> prefix p (drop (j - start) redacted_mark @ r)" using assms(1) by (simp add: apart_from_mark_def)
  then show ?thesis using False len assms(3) by (simp add: drop_append)
qed

lemma redact_step_shrinks:
  assumes "apart_from_mark p" "redact_step uni p s = Some s'"
  shows "rest_from_match p s' < rest_from_match p s"
proof -
  obtain start where f: "find_str p s = Some start"
    and s': "s' = (take start s @ redacted_mark) @ drop (start + length p + key_run uni (drop (start + length p) s)) s"
    using assms(2) by (auto simp: redact_step_def Let_def split: option.splits if_splits)
  let ?rest = "drop (start + length p + key_run uni (drop (start + length p) s)) s"
  have len: "start + length p \<le> length s" using find_str_le [OF f] .
  have p: "0 < length p" using assms(1) by (simp add: apart_from_mark_def)
  have "find_str p s' = map_option ((+) (length (take start s @ redacted_mark))) (find_str p ?rest)"
    unfolding s' using no_match_before [OF assms(1) f] by (rule find_str_skip)
  then have "rest_from_match p s' \<le> length ?rest"
    by (auto simp: rest_from_match_def s' split: option.splits)
  also have "\<dots> < length s - start" unfolding length_drop using len p by linarith
  also have "\<dots> = rest_from_match p s" by (simp add: rest_from_match_def f)
  finally show ?thesis .
qed

lemma redact_passes_end:
  "apart_from_mark p \<Longrightarrow> rest_from_match p s \<le> fuel \<Longrightarrow> redact_step uni p (redact_passes fuel uni p s) = None"
proof (induction fuel arbitrary: s)
  case 0
  then have "find_str p s = None"
    using find_str_le [of p s] by (cases p) (auto simp: rest_from_match_def apart_from_mark_def split: option.splits)
  then show ?case by (simp add: redact_step_def)
next
  case (Suc fuel)
  show ?case
  proof (cases "redact_step uni p s")
    case (Some s')
    then show ?thesis using Suc.IH [of s'] redact_step_shrinks [OF Suc.prems(1) Some] Suc.prems by simp
  qed simp
qed

lemma key_prefixes_apart: "p \<in> set KEY_PREFIXES \<Longrightarrow> apart_from_mark p"
  by (auto simp: KEY_PREFIXES_def apart_from_mark_def redacted_mark_def less_Suc_eq numeral_eq_Suc)

text \<open>
  The loop that removes what looks like a key ends for every text and every prefix, within as many
  passes as the text has bytes; what it leaves has no occurrence of the prefix, or a first one
  followed by four characters of a key at most.
\<close>

lemma redaction_ends:
  assumes "p \<in> set KEY_PREFIXES"
  shows "redact_step uni p (redact_prefix uni p s) = None
    \<and> (\<forall>i. find_str p (redact_prefix uni p s) = Some i \<longrightarrow> key_run uni (drop (i + length p) (redact_prefix uni p s)) \<le> 4)"
proof -
  have "redact_step uni p (redact_prefix uni p s) = None"
    unfolding redact_prefix_def
    by (rule redact_passes_end [OF key_prefixes_apart [OF assms] rest_from_match_le])
  then show ?thesis by (auto simp: redact_step_def Let_def split: if_splits)
qed

lemma redaction_ends_witness:
  "redact_prefix (\<lambda>_. False) ''sk-'' ''sk-abcdef, sk-ghijkl'' = ''<redacted>, <redacted>''
   \<and> redact_step (\<lambda>_. False) ''sk-'' (redact_prefix (\<lambda>_. False) ''sk-'' ''sk-abcdef, sk-ghijkl'') = None"
proof -
  have "redact_prefix (\<lambda>_. False) ''sk-'' ''sk-abcdef, sk-ghijkl'' = ''<redacted>, <redacted>''"
    by code_simp
  then show ?thesis using redaction_ends [of "''sk-''" "\<lambda>_. False" "''sk-abcdef, sk-ghijkl''"]
    by (simp add: KEY_PREFIXES_def)
qed

section \<open>Bounds and leaks\<close>

lemma char_count_simps [simp]:
  "char_count [] = 0" "char_count (c # s) = (if is_continuation c then 0 else 1) + char_count s"
  "char_count (s @ t) = char_count s + char_count t"
  by (simp_all add: char_count_def)

lemma char_count_take_chars: "char_count (take_chars n s) \<le> n"
  by (induction n s rule: take_chars.induct) (auto split: nat.splits)

lemma cap_message_bound: "3 \<le> limit \<Longrightarrow> char_count (cap_message msg limit) \<le> limit"
  using char_count_take_chars [of "limit - 3" msg] by (auto simp: cap_message_def is_continuation_def)

lemma generic_message_bound: "char_count (generic_message c) \<le> 300"
  by (cases c) (auto simp: generic_message_def is_continuation_def Let_def)

text \<open>
  Whatever a provider answers, the text the user is shown for it has at most three hundred
  characters and is not empty; the error is retryable exactly when its category is one of the three
  transient ones, and a billing error exactly when it is one.
\<close>

lemma classified_error_presentable:
  "char_count (ck_sanitized_message (classify_error env uni message status)) \<le> 300
   \<and> ck_sanitized_message (classify_error env uni message status) \<noteq> []
   \<and> (ck_is_retryable (classify_error env uni message status)
     \<longleftrightarrow> ck_category (classify_error env uni message status) \<in> {CatRateLimit, CatOverloaded, CatTimeout})
   \<and> (ck_is_billing (classify_error env uni message status) \<longleftrightarrow> ck_category (classify_error env uni message status) = CatBilling)"
proof (intro conjI)
  define c where "c = error_category env message status"
  have m: "ck_sanitized_message (classify_error env uni message status) = sanitize_for_user env uni c message"
    by (simp add: classify_error_def Let_def c_def)
  show "char_count (ck_sanitized_message (classify_error env uni message status)) \<le> 300"
    unfolding m sanitize_for_user_def Let_def by (simp add: generic_message_bound cap_message_bound)
  show "ck_sanitized_message (classify_error env uni message status) \<noteq> []"
    unfolding m sanitize_for_user_def Let_def
    by (cases c) (auto simp: generic_message_def cap_message_def category_prefix_def Let_def)
  show "ck_is_retryable (classify_error env uni message status)
     \<longleftrightarrow> ck_category (classify_error env uni message status) \<in> {CatRateLimit, CatOverloaded, CatTimeout}"
    by (auto simp: classify_error_def Let_def retryable_category_def)
  show "ck_is_billing (classify_error env uni message status) \<longleftrightarrow> ck_category (classify_error env uni message status) = CatBilling"
    by (simp add: classify_error_def Let_def)
qed

lemma contains_find: "contains_str s p \<longleftrightarrow> find_str p s \<noteq> None"
  by (simp add: contains_str_def find_str_None)

text \<open>A match that is too short to be a key ends the search, and the keys after it stay.\<close>

lemma short_match_ends_search:
  "find_str p s = Some i \<Longrightarrow> key_run uni (drop (i + length p) s) \<le> 4 \<Longrightarrow> redact_prefix uni p s = s"
  by (cases "length s") (auto simp: redact_prefix_def redact_step_def)

definition leaky_text :: "string \<Rightarrow> string" where
  "leaky_text k = ''task-7: invalid key sk-'' @ k"

lemma find_str_append_none:
  "c \<in> set p \<Longrightarrow> c \<notin> set k \<Longrightarrow> find_str p k = None"
  by (auto simp: find_str_None sublist_def)

lemma char_count_le: "char_count s \<le> length s"
  by (simp add: char_count_def)

lemma redact_no_match: "find_str p s = None \<Longrightarrow> redact_prefix uni p s = s"
  by (cases "length s") (auto simp: redact_prefix_def redact_step_def)

lemma leaky_text_unredacted:
  assumes "\<forall>c \<in> set k. ascii_alnum (of_char c)"
  shows "redact_secrets uni (leaky_text k) = leaky_text k"
proof -
  have k: "CHR ''-'' \<notin> set k" "CHR '' '' \<notin> set k"
    using assms by (auto simp: ascii_alnum_def)
  then have none: "find_str ''key-'' k = None" "find_str ''Bearer '' k = None" "find_str ''bearer '' k = None"
    by (intro find_str_append_none [of "CHR ''-''"] find_str_append_none [of "CHR '' ''"]; simp)+
  have "redact_prefix uni ''sk-'' (leaky_text k) = leaky_text k"
    by (rule short_match_ends_search [where i = 2])
       (simp_all add: leaky_text_def is_key_char_def str_chars_def str_bytes_def is_alphanumeric_def ascii_alnum_def is_continuation_def)
  moreover have "redact_prefix uni ''key-'' (leaky_text k) = leaky_text k"
    "redact_prefix uni ''Bearer '' (leaky_text k) = leaky_text k"
    "redact_prefix uni ''bearer '' (leaky_text k) = leaky_text k"
    by (rule redact_no_match, simp add: leaky_text_def none)+
  ultimately show ?thesis by (simp add: redact_secrets_def KEY_PREFIXES_def)
qed

text \<open>
  A text in which something short follows the first occurrence of a prefix is not redacted: in a
  message about task-7, which contains the prefix of a key, the key itself is shown to the user.
\<close>

lemma short_match_leaks_key:
  assumes "\<forall>c \<in> set k. ascii_alnum (of_char c)" and "length k \<le> 100"
    and "json_from_str env (leaky_text k) = None" "\<not> is_html_error_page env (leaky_text k)"
  shows "contains_str (sanitize_for_user env uni category (leaky_text k)) k"
proof -
  have "CHR ''('' \<notin> set k" using assms(1) by (auto simp: ascii_alnum_def)
  then have "find_str ''API error ('' k = None" by (intro find_str_append_none [of "CHR ''(''"]) simp_all
  then have w: "strip_llm_wrapper (leaky_text k) = leaky_text k"
    by (simp add: strip_llm_wrapper_def leaky_text_def strip_prefix_def)
  have count: "char_count (leaky_text k) \<le> 123"
    using char_count_le [of "leaky_text k"] assms(2) by (simp add: leaky_text_def del: char_count_simps)
  have "sanitize_raw_excerpt env uni (leaky_text k) = leaky_text k"
    using assms(3,4) count
    by (simp add: sanitize_raw_excerpt_def extract_json_message_def leaky_text_unredacted [OF assms(1)] w cap_message_def)
  moreover have "char_count (category_prefix category @ '': '' @ leaky_text k) \<le> 300"
    using count by (cases category) (simp_all add: category_prefix_def is_continuation_def)
  moreover have "leaky_text k \<noteq> []" by (simp add: leaky_text_def)
  ultimately have "sanitize_for_user env uni category (leaky_text k) = category_prefix category @ '': '' @ leaky_text k"
    by (simp add: sanitize_for_user_def cap_message_def del: char_count_simps)
  then have "sanitize_for_user env uni category (leaky_text k)
      = (category_prefix category @ '': task-7: invalid key sk-'') @ k @ []"
    by (simp add: leaky_text_def)
  then show ?thesis unfolding contains_str_def sublist_def by blast
qed

definition bare_env :: guard_env where
  "bare_env = \<lparr>sha256_hex = (\<lambda>s. s), json_to_string = (\<lambda>_. ''null''), json_from_str = (\<lambda>_. None), to_lowercase = to_ascii_lowercase\<rparr>"

lemma leaky_sample:
  "\<not> is_html_error_page bare_env (leaky_text ''live4f9a2c71'')"
  by code_simp

lemma short_match_leaks_key_witness:
  "contains_str (sanitize_for_user bare_env (\<lambda>_. False) CatAuth (leaky_text ''live4f9a2c71'')) ''live4f9a2c71''"
  by (rule short_match_leaks_key)
     (auto simp: leaky_sample ascii_alnum_def bare_env_def [THEN arg_cong, of json_from_str])
end
