(* ===== verification/Model_Calls.thy ===== *)
theory Model_Calls
  imports LLM_Errors Provider_Cooldown Agent_Loop
begin

text \<open>
  One call of a language model with its retries and fallbacks (\<^verbatim>\<open>call_with_retry\<close> and
  \<^verbatim>\<open>try_openrouter_free_fallbacks\<close> of \<^verbatim>\<open>crates/openfang-runtime/src/agent_loop.rs\<close>, the error type of
  \<^verbatim>\<open>llm_driver.rs\<close>), the retries of one driver (\<^verbatim>\<open>drivers/anthropic.rs\<close>) and the chain of drivers
  (\<^verbatim>\<open>drivers/fallback.rs\<close>), and the calls of a whole turn. The other drivers, the construction of drivers from the
  configuration and the environment, the HTTP client and the passing of time are operations of the outside world.
\<close>

section \<open>Errors of a driver\<close>

datatype llm_error =
    HttpError string
  | ApiError nat string
  | RateLimitedError nat
  | ParseError string
  | MissingApiKey string
  | OverloadedError nat
  | AuthenticationFailed string
  | UnknownModel string

definition llm_error_text :: "llm_error \<Rightarrow> string" where
  "llm_error_text e =
     (case e of
        HttpError s \<Rightarrow> ''HTTP error: '' @ s
      | ApiError status s \<Rightarrow> ''API error ('' @ show_nat status @ ''): '' @ s
      | RateLimitedError ms \<Rightarrow> ''Rate limited, retry after '' @ show_nat ms @ ''ms''
      | ParseError s \<Rightarrow> ''Parse error: '' @ s
      | MissingApiKey s \<Rightarrow> ''Missing API key: '' @ s
      | OverloadedError ms \<Rightarrow> ''Model overloaded, retry after '' @ show_nat ms @ ''ms''
      | AuthenticationFailed s \<Rightarrow> ''Authentication failed: '' @ s
      | UnknownModel s \<Rightarrow> ''Model not found: '' @ s)"

definition error_status :: "llm_error \<Rightarrow> nat option" where
  "error_status e = (case e of ApiError status _ \<Rightarrow> Some status | _ \<Rightarrow> None)"

type_synonym 'w driver = "completion_request \<Rightarrow> 'w \<Rightarrow> (llm_error, completion_response) result \<times> 'w"

section \<open>The world of the calls\<close>

record 'w call_world =
  cw_env :: guard_env
  cw_uni :: "nat \<Rightarrow> bool"
  cw_scale :: scale_fn
  cw_now :: "'w \<Rightarrow> nat"
  cw_sleep :: "nat \<Rightarrow> 'w \<Rightarrow> 'w"
  cw_fallback_driver :: "fallback_model \<Rightarrow> 'w \<Rightarrow> (llm_error, 'w driver) result \<times> 'w"
  cw_openrouter_driver :: "'w \<Rightarrow> (llm_error, 'w driver) result \<times> 'w"

record llm_fallback_used =
  fu_note :: string
  fu_provider :: string
  fu_model :: string

type_synonym model_answer = "completion_response \<times> llm_fallback_used option"

text \<open>The provider under a circuit breaker, when there is one.\<close>

type_synonym breaker = "(string \<times> provider_cooldown) option"

definition note_success :: "breaker \<Rightarrow> breaker" where
  "note_success br = map_option (\<lambda>(p, pc). (p, record_success p pc)) br"

definition note_failure :: "scale_fn \<Rightarrow> nat \<Rightarrow> bool \<Rightarrow> breaker \<Rightarrow> breaker" where
  "note_failure scale now billing br = map_option (\<lambda>(p, pc). (p, record_failure scale now p billing pc)) br"

definition rejection :: "nat \<Rightarrow> breaker \<Rightarrow> string option" where
  "rejection now br =
     (case br of
        None \<Rightarrow> None
      | Some (p, pc) \<Rightarrow>
          (case pc_check now pc p of
             Reject billing errors secs \<Rightarrow>
               Some (''Provider '' @ quoted p @ '' is in cooldown ('' @
                 (if billing then ''billing'' else ''error'') @ '' cooldown ('' @ show_nat errors @ '' errors)). Retry in '' @
                 show_nat secs @ ''s.'')
           | _ \<Rightarrow> None))"

section \<open>Fallbacks\<close>

definition FREE_MODELS :: "string list" where
  "FREE_MODELS = [''stepfun/step-3.5-flash:free'', ''meta-llama/llama-3.1-8b-instruct:free'']"

fun try_models ::
  "'w driver \<Rightarrow> completion_request \<Rightarrow> string list \<Rightarrow> 'w \<Rightarrow> (completion_response \<times> string) option \<times> 'w" where
  "try_models d req [] w = (None, w)"
| "try_models d req (m # ms) w =
     (case d (req\<lparr>cr_model := m\<rparr>) w of
        (Inr r, w1) \<Rightarrow> (Some (r, m), w1)
      | (Inl _, w1) \<Rightarrow> try_models d req ms w1)"

definition try_openrouter_free_fallbacks ::
  "'w call_world \<Rightarrow> completion_request \<Rightarrow> 'w \<Rightarrow> (completion_response \<times> string) option \<times> 'w" where
  "try_openrouter_free_fallbacks cw req w =
     (case cw_openrouter_driver cw w of
        (Inl _, w1) \<Rightarrow> (None, w1)
      | (Inr d, w1) \<Rightarrow> try_models d req FREE_MODELS w1)"

definition openrouter_used :: "string \<Rightarrow> llm_fallback_used" where
  "openrouter_used m =
     \<lparr>fu_note = ''OpenRouter free-tier model (primary rate limited or overloaded)'', fu_provider = ''openrouter'', fu_model = m\<rparr>"

definition fallback_used :: "fallback_model \<Rightarrow> llm_fallback_used" where
  "fallback_used fb =
     \<lparr>fu_note = ''Fallback '' @ fm_provider fb @ ''/'' @ fm_model fb @ '' (primary model not found)'',
      fu_provider = fm_provider fb, fu_model = fm_model fb\<rparr>"

text \<open>The fallback models of a manifest in order; one whose driver cannot be made is skipped.\<close>

fun try_fallbacks ::
  "'w call_world \<Rightarrow> completion_request \<Rightarrow> fallback_model list \<Rightarrow> 'w \<Rightarrow> model_answer option \<times> 'w" where
  "try_fallbacks cw req [] w = (None, w)"
| "try_fallbacks cw req (fb # fbs) w =
     (case cw_fallback_driver cw fb w of
        (Inl _, w1) \<Rightarrow> try_fallbacks cw req fbs w1
      | (Inr d, w1) \<Rightarrow>
          (case d (req\<lparr>cr_model := fm_model fb\<rparr>) w1 of
             (Inr r, w2) \<Rightarrow> (Some (r, Some (fallback_used fb)), w2)
           | (Inl _, w2) \<Rightarrow> try_fallbacks cw req fbs w2))"

section \<open>The attempts\<close>

definition MAX_RETRIES :: nat where "MAX_RETRIES = 3"
definition BASE_RETRY_DELAY_MS :: nat where "BASE_RETRY_DELAY_MS = 1000"

definition retry_delay :: "nat \<Rightarrow> nat \<Rightarrow> nat" where
  "retry_delay retry_after_ms attempt = max retry_after_ms (BASE_RETRY_DELAY_MS * 2 ^ attempt)"

text \<open>After the last attempt was throttled: the breaker notes a failure, the free models are tried.\<close>

definition throttled_out ::
  "'w call_world \<Rightarrow> completion_request \<Rightarrow> string \<Rightarrow> breaker \<Rightarrow> 'w
     \<Rightarrow> (string, model_answer) result \<times> breaker \<times> 'w" where
  "throttled_out cw req what br w =
     (let br1 = note_failure (cw_scale cw) (cw_now cw w) False br
      in case try_openrouter_free_fallbacks cw req w of
           (Some (r, m), w1) \<Rightarrow> (Inr (r, Some (openrouter_used m)), br1, w1)
         | (None, w1) \<Rightarrow> (Inl (what @ '' after '' @ show_nat MAX_RETRIES @ '' retries''), br1, w1))"

text \<open>Any other error: classified, noted, and for an unknown model the fallbacks are tried.\<close>

definition failed_call ::
  "'w call_world \<Rightarrow> completion_request \<Rightarrow> fallback_model list \<Rightarrow> llm_error \<Rightarrow> breaker \<Rightarrow> 'w
     \<Rightarrow> (string, model_answer) result \<times> breaker \<times> 'w" where
  "failed_call cw req fbs e br w =
     (let raw = llm_error_text e;
          c = classify_error (cw_env cw) (cw_uni cw) raw (error_status e);
          br1 = note_failure (cw_scale cw) (cw_now cw w) (ck_is_billing c) br;
          msg = (if ck_category c = CatFormat
                 then ck_sanitized_message c @ '' '' @ [CHR 0xE2, CHR 0x80, CHR 0x94] @ '' raw: '' @ raw
                 else ck_sanitized_message c)
      in if ck_category c = CatModelNotFound \<and> fbs \<noteq> [] then
           (case try_fallbacks cw req fbs w of
              (Some a, w1) \<Rightarrow> (Inr a, br1, w1)
            | (None, w1) \<Rightarrow> (Inl msg, br1, w1))
         else (Inl msg, br1, w))"

text \<open>The retries that are left, and the number of the attempt.\<close>

fun call_attempts ::
  "'w call_world \<Rightarrow> 'w driver \<Rightarrow> completion_request \<Rightarrow> fallback_model list \<Rightarrow> nat \<Rightarrow> nat \<Rightarrow> breaker \<Rightarrow> 'w
     \<Rightarrow> (string, model_answer) result \<times> breaker \<times> 'w" where
  "call_attempts cw d req fbs left attempt br w =
     (case d req w of
        (Inr r, w1) \<Rightarrow> (Inr (r, None), note_success br, w1)
      | (Inl e, w1) \<Rightarrow>
          (case e of
             RateLimitedError ms \<Rightarrow>
               if left = 0 then throttled_out cw req ''Rate limited'' br w1
               else call_attempts cw d req fbs (left - 1) (attempt + 1) br (cw_sleep cw (retry_delay ms attempt) w1)
           | OverloadedError ms \<Rightarrow>
               if left = 0 then throttled_out cw req ''Model overloaded'' br w1
               else call_attempts cw d req fbs (left - 1) (attempt + 1) br (cw_sleep cw (retry_delay ms attempt) w1)
           | _ \<Rightarrow> failed_call cw req fbs e br w1))"

declare call_attempts.simps [simp del]

definition call_with_retry ::
  "'w call_world \<Rightarrow> 'w driver \<Rightarrow> completion_request \<Rightarrow> fallback_model list \<Rightarrow> breaker \<Rightarrow> 'w
     \<Rightarrow> (string, model_answer) result \<times> breaker \<times> 'w" where
  "call_with_retry cw d req fbs br w =
     (case rejection (cw_now cw w) br of
        Some msg \<Rightarrow> (Inl msg, br, w)
      | None \<Rightarrow> call_attempts cw d req fbs MAX_RETRIES 0 br w)"

text \<open>How the agent loop calls a model: without a breaker, whatever the provider.\<close>

definition turn_model ::
  "'w call_world \<Rightarrow> 'w driver \<Rightarrow> fallback_model list \<Rightarrow> completion_request \<Rightarrow> 'w
     \<Rightarrow> (string, completion_response) result \<times> 'w" where
  "turn_model cw d fbs req w =
     (case call_with_retry cw d req fbs None w of
        (Inl e, _, w1) \<Rightarrow> (Inl e, w1)
      | (Inr (r, _), _, w1) \<Rightarrow> (Inr r, w1))"

section \<open>Drivers of the repository\<close>

text \<open>
  The driver of the Anthropic interface, once its request is built: it repeats a request of its own
  that is throttled up to three times. What the interface answers, a status and a body, the reading of the
  bodies and the waiting are given.
\<close>

record 'w api_client =
  api_post :: "completion_request \<Rightarrow> 'w \<Rightarrow> (string, nat \<times> (string, string) result) result \<times> 'w"
  api_sleep :: "nat \<Rightarrow> 'w \<Rightarrow> 'w"
  api_error_message :: "string \<Rightarrow> string option"
  api_response :: "string \<Rightarrow> (string, completion_response) result"

definition api_result :: "'w api_client \<Rightarrow> nat \<Rightarrow> (string, string) result \<Rightarrow> (llm_error, completion_response) result" where
  "api_result c status body =
     (if \<not> (200 \<le> status \<and> status < 300)
      then (let txt = (case body of Inr b \<Rightarrow> b | Inl _ \<Rightarrow> [])
            in Inl (ApiError status (case api_error_message c txt of Some m \<Rightarrow> m | None \<Rightarrow> txt)))
      else (case body of
              Inl e \<Rightarrow> Inl (HttpError e)
            | Inr b \<Rightarrow> (case api_response c b of Inl e \<Rightarrow> Inl (ParseError e) | Inr r \<Rightarrow> Inr r)))"

fun anthropic_attempts :: "'w api_client \<Rightarrow> nat \<Rightarrow> nat \<Rightarrow> 'w driver" where
  "anthropic_attempts c left attempt req w =
     (case api_post c req w of
        (Inl e, w1) \<Rightarrow> (Inl (HttpError e), w1)
      | (Inr (status, body), w1) \<Rightarrow>
          if status = 429 \<or> status = 529 then
            (if left = 0 then (Inl (if status = 429 then RateLimitedError 5000 else OverloadedError 5000), w1)
             else anthropic_attempts c (left - 1) (attempt + 1) req (api_sleep c ((attempt + 1) * 2000) w1))
          else (api_result c status body, w1))"

declare anthropic_attempts.simps [simp del]

definition anthropic_complete :: "'w api_client \<Rightarrow> 'w driver" where
  "anthropic_complete c = anthropic_attempts c 3 0"

text \<open>A chain of drivers: every one is asked in turn, with the model of its entry, until one answers.\<close>

fun fallback_chain :: "('w driver \<times> string) list \<Rightarrow> llm_error option \<Rightarrow> 'w driver" where
  "fallback_chain [] last_error req w =
     (Inl (case last_error of Some e \<Rightarrow> e | None \<Rightarrow> ApiError 0 ''No drivers configured in fallback chain''), w)"
| "fallback_chain ((d, model) # ds) last_error req w =
     (case d (if model = [] then req else req\<lparr>cr_model := model\<rparr>) w of
        (Inr r, w1) \<Rightarrow> (Inr r, w1)
      | (Inl e, w1) \<Rightarrow> fallback_chain ds (Some e) req w1)"

definition fallback_complete :: "('w driver \<times> string) list \<Rightarrow> 'w driver" where
  "fallback_complete ds = fallback_chain ds None"

section \<open>Counting requests\<close>

text \<open>
  A counter of requests: one call of a driver raises it by \<open>k\<close> at most, making a driver or waiting does not.
\<close>

definition counts_driver :: "('w \<Rightarrow> nat) \<Rightarrow> nat \<Rightarrow> 'w driver \<Rightarrow> bool" where
  "counts_driver m k d \<longleftrightarrow> (\<forall>req w. m (snd (d req w)) \<le> m w + k)"


lemma counts_driverD: "counts_driver m k d \<Longrightarrow> d req w = (r, w') \<Longrightarrow> m w' \<le> m w + k"
  unfolding counts_driver_def by (metis snd_conv)




lemma fallback_counts:
  assumes "\<forall>(d, model) \<in> set ds. counts_driver m k d"
  shows "counts_driver m (length ds * k) (fallback_complete ds)"
proof -
  have "m (snd (fallback_chain ds e req w)) \<le> m w + length ds * k" for e req w
    using assms
  proof (induction ds e req w rule: fallback_chain.induct)
    case (2 d model ds e req w)
    obtain r w1 where d: "d (if model = [] then req else req\<lparr>cr_model := model\<rparr>) w = (r, w1)"
      by (cases "d (if model = [] then req else req\<lparr>cr_model := model\<rparr>) w")
    have "counts_driver m k d" using 2(2) by simp
    from counts_driverD [OF this d] have w1: "m w1 \<le> m w + k" .
    show ?case
    proof (cases r)
      case (Inl e1)
      have "m (snd (fallback_chain ds (Some e1) req w1)) \<le> m w1 + length ds * k"
        by (rule 2(1) [OF d [symmetric] Inl]) (use 2(2) in simp)
      then show ?thesis using w1 d Inl by simp
    qed (use w1 d in simp)
  qed simp
  then show ?thesis by (simp add: counts_driver_def fallback_complete_def)
qed







definition retry_after :: "llm_error \<Rightarrow> nat option" where
  "retry_after e = (case e of RateLimitedError ms \<Rightarrow> Some ms | OverloadedError ms \<Rightarrow> Some ms | _ \<Rightarrow> None)"

definition throttle_text :: "llm_error \<Rightarrow> string" where
  "throttle_text e = (case e of RateLimitedError _ \<Rightarrow> ''Rate limited'' | _ \<Rightarrow> ''Model overloaded'')"

lemma call_attempts_answered:
  "d req w = (Inr r, w1) \<Longrightarrow> call_attempts cw d req fbs left attempt br w = (Inr (r, None), note_success br, w1)"
  by (subst call_attempts.simps) simp

lemma call_attempts_failed:
  "d req w = (Inl e, w1) \<Longrightarrow> retry_after e = None \<Longrightarrow>
     call_attempts cw d req fbs left attempt br w = failed_call cw req fbs e br w1"
  by (subst call_attempts.simps) (simp add: retry_after_def split: llm_error.splits)

lemma call_attempts_last:
  "d req w = (Inl e, w1) \<Longrightarrow> retry_after e = Some ms \<Longrightarrow>
     call_attempts cw d req fbs 0 attempt br w = throttled_out cw req (throttle_text e) br w1"
  by (subst call_attempts.simps) (simp add: retry_after_def throttle_text_def split: llm_error.splits)

lemma call_attempts_again:
  "d req w = (Inl e, w1) \<Longrightarrow> retry_after e = Some ms \<Longrightarrow>
     call_attempts cw d req fbs (Suc left) attempt br w
       = call_attempts cw d req fbs left (Suc attempt) br (cw_sleep cw (retry_delay ms attempt) w1)"
  by (subst call_attempts.simps) (simp add: retry_after_def split: llm_error.splits)



section \<open>The requests of a turn\<close>


definition no_more :: "('w \<Rightarrow> nat) \<Rightarrow> 'w turn_state \<Rightarrow> 'w turn_state \<Rightarrow> bool" where
  "no_more m st st' \<longleftrightarrow> m (ts_world st') \<le> m (ts_world st)"



lemma no_more_cong: "ts_world st' = ts_world st \<Longrightarrow> no_more m st' x = no_more m st x"
  by (simp add: no_more_def)


lemma world_effects [simp]:
  "ts_world (say ms st) = ts_world st" "ts_world (keep x st) = ts_world st" "ts_world (emit_phase p st) = ts_world st"
  "ts_world (ask_again a q st) = ts_world st" "ts_world (record_answer f st) = ts_world st"
  "ts_world (prepare_messages cfg lw st) = ts_world st" "ts_world (retry_empty b st) = ts_world st"
  "ts_world (wrap_up cfg it st) = ts_world st" "ts_world (update_gate env allow bs calls st) = ts_world st"
  by (simp_all add: say_def keep_def emit_phase_def ask_again_def record_answer_def prepare_messages_def
      retry_empty_def wrap_up_def update_gate_def Let_def)
















section \<open>What is retried\<close>

text \<open>
  An error of the driver other than its own two throttling errors ends the call after one request,
  unless it says that the model does not exist and there are fallbacks: also the timeouts, overloads
  and rate limits that the classifier calls retryable.
\<close>

lemma transient_errors_not_retried:
  assumes "d req w = (Inl e, w1)" "retry_after e = None"
    and "fbs = [] \<or> error_category (cw_env cw) (llm_error_text e) (error_status e) \<noteq> CatModelNotFound"
  shows "\<exists>msg. turn_model cw d fbs req w = (Inl msg, w1)"
  using assms
  by (auto simp: turn_model_def call_with_retry_def rejection_def call_attempts_failed failed_call_def
      classify_error_def Let_def)

text \<open>Throttled answers, and the world after the waits they ask for.\<close>

fun after_throttles ::
  "'w call_world \<Rightarrow> 'w driver \<Rightarrow> completion_request \<Rightarrow> nat \<Rightarrow> nat list \<Rightarrow> 'w \<Rightarrow> 'w option" where
  "after_throttles cw d req attempt [] w = Some w"
| "after_throttles cw d req attempt (ms # mss) w =
     (case d req w of
        (Inl e, w1) \<Rightarrow>
          if retry_after e = Some ms
          then after_throttles cw d req (Suc attempt) mss (cw_sleep cw (retry_delay ms attempt) w1) else None
      | (Inr _, _) \<Rightarrow> None)"

lemma attempts_after_throttles:
  "after_throttles cw d req attempt mss w = Some w1 \<Longrightarrow> length mss \<le> left \<Longrightarrow>
     call_attempts cw d req fbs left attempt br w
       = call_attempts cw d req fbs (left - length mss) (attempt + length mss) br w1"
proof (induction mss arbitrary: left attempt w)
  case (Cons ms mss)
  then obtain e w2 where e: "d req w = (Inl e, w2)" "retry_after e = Some ms"
      "after_throttles cw d req (Suc attempt) mss (cw_sleep cw (retry_delay ms attempt) w2) = Some w1"
    by (auto split: prod.splits sum.splits if_splits)
  obtain l where l: "left = Suc l" "length mss \<le> l" using Cons.prems(2) by (cases left) auto
  show ?case using Cons.IH [OF e(3) l(2)] call_attempts_again [of d, OF e(1,2)] by (simp add: l(1))
qed simp

text \<open>
  A model that is throttled three times at most, waiting in between at least as long as it asks and
  twice as long each time, and then answers, has answered; one more and the free models are tried.
\<close>

lemma throttled_then_answered:
  assumes "after_throttles cw d req 0 mss w = Some w1" "length mss \<le> MAX_RETRIES" "d req w1 = (Inr r, w2)"
  shows "turn_model cw d fbs req w = (Inr r, w2)"
  using attempts_after_throttles [OF assms(1,2), of fbs None] call_attempts_answered [of d, OF assms(3)]
  by (simp add: turn_model_def call_with_retry_def rejection_def)

lemma throttled_too_often:
  assumes "after_throttles cw d req 0 mss w = Some w1" "length mss = MAX_RETRIES"
    and "d req w1 = (Inl e, w2)" "retry_after e = Some ms"
  shows "call_with_retry cw d req fbs None w = throttled_out cw req (throttle_text e) None w2"
  using attempts_after_throttles [OF assms(1), of MAX_RETRIES fbs None] call_attempts_last [of d, OF assms(3,4)] assms(2)
  by (simp add: call_with_retry_def rejection_def)

text \<open>An open breaker refuses without a request, and every call that is made is noted once.\<close>

lemma open_breaker_refuses:
  "rejection (cw_now cw w) br = Some msg \<Longrightarrow> call_with_retry cw d req fbs br w = (Inl msg, br, w)"
  by (simp add: call_with_retry_def)

section \<open>A model that is always busy\<close>

definition busy_driver :: "nat driver" where
  "busy_driver = (\<lambda>_ w. (Inl (RateLimitedError 0), Suc w))"

definition busy_calls :: "nat call_world" where
  "busy_calls =
     \<lparr>cw_env = bare_env, cw_uni = (\<lambda>_. False), cw_scale = exact_scale, cw_now = (\<lambda>w. w), cw_sleep = (\<lambda>_ w. w),
      cw_fallback_driver = (\<lambda>_ w. (Inr busy_driver, w)), cw_openrouter_driver = (\<lambda>w. (Inr busy_driver, w))\<rparr>"


text \<open>The Anthropic driver before an interface that always throttles, with every other driver the same.\<close>

definition throttling_client :: "nat api_client" where
  "throttling_client =
     \<lparr>api_post = (\<lambda>_ w. (Inr (429, Inr []), Suc w)), api_sleep = (\<lambda>_ w. w), api_error_message = (\<lambda>_. None),
      api_response = Inl\<rparr>"

definition throttled_calls :: "nat call_world" where
  "throttled_calls = busy_calls\<lparr>cw_openrouter_driver := (\<lambda>w. (Inr (anthropic_complete throttling_client), w)),
     cw_fallback_driver := (\<lambda>_ w. (Inr (anthropic_complete throttling_client), w))\<rparr>"



lemma throttled_driver: "anthropic_complete throttling_client req w = (Inl (RateLimitedError 5000), w + 4)"
proof -
  have "anthropic_attempts throttling_client left n req w = (Inl (RateLimitedError 5000), w + left + 1)" for left n w
    by (induction left arbitrary: n w) (subst anthropic_attempts.simps, simp add: throttling_client_def)+
  from this [of 3 0 w] show ?thesis by (simp add: anthropic_complete_def)
qed

text \<open>
  One throttled call of a driver that makes one request is six requests; with the driver above, which makes
  four before it gives up, it is twenty-four.
\<close>

lemma throttled_call_requests:
  "snd (turn_model throttled_calls (anthropic_complete throttling_client) [] req 0) = 24"
proof -
  let ?d = "anthropic_complete throttling_client"
  have t: "try_models ?d req FREE_MODELS 16 = (None, 24)" by (simp add: FREE_MODELS_def throttled_driver)
  have "after_throttles throttled_calls ?d req 0 [5000, 5000, 5000] 0 = Some 12"
    by (simp add: throttled_driver throttled_calls_def busy_calls_def retry_after_def)
  from throttled_too_often [OF this, of "RateLimitedError 5000" 16 5000 "[]"]
  have "call_with_retry throttled_calls ?d req [] None 0 = throttled_out throttled_calls req ''Rate limited'' None 16"
    by (simp add: MAX_RETRIES_def throttled_driver retry_after_def throttle_text_def)
  then show ?thesis
    by (simp add: turn_model_def throttled_out_def try_openrouter_free_fallbacks_def throttled_calls_def Let_def
        t [unfolded throttled_calls_def])
qed


lemma busy_call_requests: "snd (turn_model busy_calls busy_driver [] req 0) = 6"
proof -
  have t: "try_models busy_driver req FREE_MODELS 4 = (None, 6)"
    by (simp add: FREE_MODELS_def busy_driver_def)
  have "after_throttles busy_calls busy_driver req 0 [0, 0, 0] 0 = Some 3"
    by (simp add: busy_driver_def busy_calls_def retry_after_def)
  from throttled_too_often [OF this, of "RateLimitedError 0" 4 0 "[]"]
  have "call_with_retry busy_calls busy_driver req [] None 0 = throttled_out busy_calls req ''Rate limited'' None 4"
    by (simp add: MAX_RETRIES_def busy_driver_def retry_after_def throttle_text_def)
  then show ?thesis
    by (simp add: turn_model_def throttled_out_def try_openrouter_free_fallbacks_def busy_calls_def Let_def t [unfolded busy_calls_def])
qed

definition reset_driver :: "nat driver" where
  "reset_driver = (\<lambda>_ w. (Inl (HttpError ''connection reset''), Suc w))"

lemma reset_is_retryable:
  "ck_is_retryable (classify_error bare_env (\<lambda>_. False) (llm_error_text (HttpError ''connection reset'')) None)
   \<and> error_category bare_env (llm_error_text (HttpError ''connection reset'')) None = CatTimeout"
  by code_simp

lemma transient_errors_not_retried_witness:
  "(\<exists>msg. turn_model busy_calls reset_driver [] (turn_request sample_config []) 0 = (Inl msg, 1))
   \<and> ck_is_retryable (classify_error bare_env (\<lambda>_. False) (llm_error_text (HttpError ''connection reset'')) None)"
  using transient_errors_not_retried [of reset_driver "turn_request sample_config []" 0 "HttpError ''connection reset''" 1 "[]" busy_calls]
    reset_is_retryable by (simp add: reset_driver_def retry_after_def)

end
