(* ===== verification/Wire_Messages.thy ===== *)
theory Wire_Messages
  imports Utf8 "HOL-Library.Word"
begin

text \<open>
  The wire protocol between kernels (\<^verbatim>\<open>crates/openfang-wire/src/message.rs\<close> and the framing of
  \<^verbatim>\<open>peer.rs\<close>): messages, length-prefixed frames, frames with a message authentication code, and
  the registry of known peers (\<^verbatim>\<open>registry.rs\<close>). The JSON codec, HMAC-SHA256 and the hexadecimal
  encoding are parameters (\<open>wire_codec\<close>); a socket is what its other end will have sent, and how
  much it will accept.
\<close>

section \<open>Messages\<close>

record remote_agent_info =
  ri_id :: string
  ri_name :: string
  ri_description :: string
  ri_tags :: "string list"
  ri_tools :: "string list"
  ri_state :: string

datatype wire_request =
    Handshake string string "32 word" "remote_agent_info list" string string
  | Discover string
  | AgentMessage string string "string option"
  | Ping

datatype wire_response =
    HandshakeAck string string "32 word" "remote_agent_info list" string string
  | DiscoverResult "remote_agent_info list"
  | AgentResponse string
  | Pong "64 word"
  | WireErrorReply int string

datatype wire_notification =
    AgentSpawned remote_agent_info
  | AgentTerminated string
  | ShuttingDown

datatype wire_message_kind =
    WireRequest wire_request
  | WireResponse wire_response
  | WireNotification wire_notification

record wire_message =
  wmsg_id :: string
  wmsg_kind :: wire_message_kind

definition PROTOCOL_VERSION :: "32 word" where
  "PROTOCOL_VERSION = 1"

text \<open>
  What the protocol takes from other crates: JSON text of a message, its parser, the 32 bytes of
  HMAC-SHA256 of a key and a text, and the hexadecimal text of bytes.
\<close>

record wire_codec =
  wc_to_vec :: "wire_message \<Rightarrow> (string, string) result"
  wc_from_slice :: "string \<Rightarrow> (string, wire_message) result"
  wc_hmac :: "string \<Rightarrow> string \<Rightarrow> string"
  wc_hex :: "string \<Rightarrow> string"

section \<open>Frames\<close>

text \<open>\<^verbatim>\<open>u32::to_be_bytes\<close> and its inverse.\<close>

definition to_be_bytes :: "32 word \<Rightarrow> string" where
  "to_be_bytes w = map (\<lambda>k. char_of (unat (drop_bit k w) mod 256)) [24, 16, 8, 0]"

definition decode_length :: "string \<Rightarrow> 32 word" where
  "decode_length header = word_of_nat (foldl (\<lambda>n c. 256 * n + of_char c) 0 header)"

definition encode_message :: "wire_codec \<Rightarrow> wire_message \<Rightarrow> (string, string) result" where
  "encode_message env msg =
     (case wc_to_vec env msg of
        Inl e \<Rightarrow> Inl e
      | Inr json \<Rightarrow> Inr (to_be_bytes (word_of_nat (length json)) @ json))"

definition decode_message :: "wire_codec \<Rightarrow> string \<Rightarrow> (string, wire_message) result" where
  "decode_message env body = wc_from_slice env body"

datatype wire_error =
    WireIo string
  | WireJson string
  | HandshakeFailed string
  | ConnectionClosed
  | MessageTooLarge nat nat
  | VersionMismatch nat nat

definition MAX_MESSAGE_SIZE :: nat where
  "MAX_MESSAGE_SIZE = 16 * 1024 * 1024"

text \<open>
  The two halves of a socket. A reader holds the bytes that will arrive and what follows them, the
  end of the stream or an error; a writer holds the bytes sent and, when it will fail, how many it
  still accepts.
\<close>

record tcp_reader =
  tcpr_bytes :: string
  tcpr_fault :: "string option"

record tcp_writer =
  tcpw_sent :: string
  tcpw_room :: "nat option"

datatype io_fault = UnexpectedEof | OtherFault string

fun fault_text :: "io_fault \<Rightarrow> string" where
  "fault_text UnexpectedEof = ''early eof''"
| "fault_text (OtherFault e) = e"

definition read_exact :: "nat \<Rightarrow> tcp_reader \<Rightarrow> (io_fault, string) result \<times> tcp_reader" where
  "read_exact n r =
     (if n \<le> length (tcpr_bytes r)
      then (Inr (take n (tcpr_bytes r)), r\<lparr>tcpr_bytes := drop n (tcpr_bytes r)\<rparr>)
      else (Inl (case tcpr_fault r of None \<Rightarrow> UnexpectedEof | Some e \<Rightarrow> OtherFault e),
            r\<lparr>tcpr_bytes := []\<rparr>))"

definition write_all :: "string \<Rightarrow> tcp_writer \<Rightarrow> (wire_error, unit) result \<times> tcp_writer" where
  "write_all bs w =
     (case tcpw_room w of
        None \<Rightarrow> (Inr (), w\<lparr>tcpw_sent := tcpw_sent w @ bs\<rparr>)
      | Some k \<Rightarrow>
          if length bs \<le> k
          then (Inr (), w\<lparr>tcpw_sent := tcpw_sent w @ bs, tcpw_room := Some (k - length bs)\<rparr>)
          else (Inl (WireIo ''broken pipe''),
                w\<lparr>tcpw_sent := tcpw_sent w @ take k bs, tcpw_room := Some 0\<rparr>))"

definition hmac_sign :: "wire_codec \<Rightarrow> string \<Rightarrow> string \<Rightarrow> string" where
  "hmac_sign env secret data = wc_hex env (wc_hmac env secret data)"

definition hmac_verify :: "wire_codec \<Rightarrow> string \<Rightarrow> string \<Rightarrow> string \<Rightarrow> bool" where
  "hmac_verify env secret data signature = (hmac_sign env secret data = signature)"

definition derive_session_key :: "wire_codec \<Rightarrow> string \<Rightarrow> string \<Rightarrow> string \<Rightarrow> string" where
  "derive_session_key env shared_secret our_nonce their_nonce = hmac_sign env shared_secret (our_nonce @ their_nonce)"

definition write_message ::
  "wire_codec \<Rightarrow> wire_message \<Rightarrow> tcp_writer \<Rightarrow> (wire_error, unit) result \<times> tcp_writer" where
  "write_message env msg w =
     (case encode_message env msg of
        Inl e \<Rightarrow> (Inl (WireJson e), w)
      | Inr bytes \<Rightarrow> write_all bytes w)"

text \<open>The three writes of an authenticated frame, each of which may fail.\<close>

definition write_message_authenticated ::
  "wire_codec \<Rightarrow> string \<Rightarrow> wire_message \<Rightarrow> tcp_writer \<Rightarrow> (wire_error, unit) result \<times> tcp_writer" where
  "write_message_authenticated env session_key msg w =
     (case wc_to_vec env msg of
        Inl e \<Rightarrow> (Inl (WireJson e), w)
      | Inr json \<Rightarrow>
          let mac = hmac_sign env session_key json;
              total_len = length json + length mac
          in (case write_all (to_be_bytes (word_of_nat total_len)) w of
                (Inl e, w1) \<Rightarrow> (Inl e, w1)
              | (Inr _, w1) \<Rightarrow>
                  (case write_all json w1 of
                     (Inl e, w2) \<Rightarrow> (Inl e, w2)
                   | (Inr _, w2) \<Rightarrow> write_all mac w2)))"

text \<open>The header of a frame: the length of what follows, or how the connection ended.\<close>

definition read_header :: "tcp_reader \<Rightarrow> (wire_error, nat) result \<times> tcp_reader" where
  "read_header r =
     (case read_exact 4 r of
        (Inl UnexpectedEof, r1) \<Rightarrow> (Inl ConnectionClosed, r1)
      | (Inl (OtherFault e), r1) \<Rightarrow> (Inl (WireIo e), r1)
      | (Inr header, r1) \<Rightarrow>
          let len = unat (decode_length header)
          in if len > MAX_MESSAGE_SIZE then (Inl (MessageTooLarge len MAX_MESSAGE_SIZE), r1)
             else (Inr len, r1))"

definition read_message :: "wire_codec \<Rightarrow> tcp_reader \<Rightarrow> (wire_error, wire_message) result \<times> tcp_reader" where
  "read_message env r =
     (case read_header r of
        (Inl e, r1) \<Rightarrow> (Inl e, r1)
      | (Inr len, r1) \<Rightarrow>
          (case read_exact len r1 of
             (Inl f, r2) \<Rightarrow> (Inl (WireIo (fault_text f)), r2)
           | (Inr body, r2) \<Rightarrow>
               (case decode_message env body of
                  Inl e \<Rightarrow> (Inl (WireJson e), r2)
                | Inr msg \<Rightarrow> (Inr msg, r2))))"

definition HMAC_HEX_LEN :: nat where
  "HMAC_HEX_LEN = 64"

definition hmac_failed_text :: string where
  "hmac_failed_text = ''Per-message HMAC verification failed '' @ [CHR 0xE2, CHR 0x80, CHR 0x94] @
     '' message tampered or forged''"

definition read_message_authenticated ::
  "wire_codec \<Rightarrow> string \<Rightarrow> tcp_reader \<Rightarrow> (wire_error, wire_message) result \<times> tcp_reader" where
  "read_message_authenticated env session_key r =
     (case read_header r of
        (Inl e, r1) \<Rightarrow> (Inl e, r1)
      | (Inr total_len, r1) \<Rightarrow>
          if total_len < HMAC_HEX_LEN + 2
          then (Inl (HandshakeFailed ''Message too short for authenticated frame''), r1)
          else
            (case read_exact total_len r1 of
               (Inl f, r2) \<Rightarrow> (Inl (WireIo (fault_text f)), r2)
             | (Inr frame, r2) \<Rightarrow>
                 let json_len = total_len - HMAC_HEX_LEN;
                     json_bytes = take json_len frame;
                     received_mac = drop json_len frame
                 in if \<not> well_formed_utf8 (map of_char received_mac)
                    then (Inl (HandshakeFailed ''Invalid HMAC encoding''), r2)
                    else if \<not> hmac_verify env session_key json_bytes received_mac
                    then (Inl (HandshakeFailed hmac_failed_text), r2)
                    else (case wc_from_slice env json_bytes of
                            Inl e \<Rightarrow> (Inl (WireJson e), r2)
                          | Inr msg \<Rightarrow> (Inr msg, r2))))"


section \<open>What a written frame reads back as\<close>

text \<open>The documented behaviour of the codec and of the digest that the protocol relies on.\<close>

definition codec_inverts :: "wire_codec \<Rightarrow> wire_message \<Rightarrow> bool" where
  "codec_inverts env msg \<longleftrightarrow>
     (case wc_to_vec env msg of
        Inl e \<Rightarrow> False
      | Inr json \<Rightarrow> wc_from_slice env json = Inr msg \<and> 2 \<le> length json
                   \<and> length json + HMAC_HEX_LEN \<le> MAX_MESSAGE_SIZE)"

definition digest_is_hex :: "wire_codec \<Rightarrow> bool" where
  "digest_is_hex env \<longleftrightarrow>
     (\<forall>k d. length (hmac_sign env k d) = HMAC_HEX_LEN
            \<and> (\<forall>c \<in> set (hmac_sign env k d). (of_char c :: nat) < 128))"

lemma length_to_be_bytes [simp]: "length (to_be_bytes w) = 4"
  by (simp add: to_be_bytes_def)

lemma base_256:
  fixes n :: nat
  assumes "n < 2 ^ 32"
  shows "256 * (256 * (256 * (n div 16777216 mod 256) + n div 65536 mod 256) + n div 256 mod 256) + n mod 256 = n"
proof -
  have a: "n div 256 div 256 = n div 65536" "n div 65536 div 256 = n div 16777216"
    by (simp_all add: div_mult2_eq [symmetric])
  have "n div 16777216 < 256" using assms by (simp add: less_mult_imp_div_less)
  then show ?thesis
    using a mult_div_mod_eq [of 256 n] mult_div_mod_eq [of 256 "n div 256"] mult_div_mod_eq [of 256 "n div 65536"]
    by simp
qed

lemma decode_to_be_bytes [simp]: "decode_length (to_be_bytes w) = w"
proof -
  have n: "unat w < 2 ^ 32" using unsigned_less [of w] by simp
  have "foldl (\<lambda>n c. 256 * n + of_char c) 0 (to_be_bytes w) = unat w"
  proof -
    have d: "unat (drop_bit k w) = unat w div 2 ^ k" for k
      using unat_drop_bit_eq [of k w] drop_bit_eq_div [of k "unat w"] by (rule trans)
    have "unat w div 16777216 < 256" using n by (simp add: less_mult_imp_div_less)
    then have t: "unat w div 16777216 mod 256 = unat w div 16777216" by simp
    show ?thesis using base_256 [OF n] by (simp add: to_be_bytes_def d t)
  qed
  then show ?thesis by (simp add: decode_length_def)
qed

lemma read_header_frame:
  assumes "n \<le> MAX_MESSAGE_SIZE"
  shows "read_header \<lparr>tcpr_bytes = to_be_bytes (word_of_nat n) @ rest, tcpr_fault = fl\<rparr>
    = (Inr n, \<lparr>tcpr_bytes = rest, tcpr_fault = fl\<rparr>)"
proof -
  have "unat (word_of_nat n :: 32 word) = n"
    using assms by (simp add: MAX_MESSAGE_SIZE_def unsigned_of_nat take_bit_nat_eq_self)
  then show ?thesis using assms by (simp add: read_header_def read_exact_def)
qed

lemma read_header_consumes:
  "read_header r = (Inr n, r') \<Longrightarrow> length (tcpr_bytes r') < length (tcpr_bytes r)"
  by (auto simp: read_header_def read_exact_def Let_def split: if_splits option.splits)

lemma read_exact_consumes:
  "read_exact n r = (x, r') \<Longrightarrow> length (tcpr_bytes r') \<le> length (tcpr_bytes r)"
  by (auto simp: read_exact_def split: if_splits)

lemma read_message_consumes:
  assumes "read_message env r = (Inr msg, r')"
  shows "length (tcpr_bytes r') < length (tcpr_bytes r)"
  using assms
  by (auto simp: read_message_def split: prod.splits sum.splits
      dest!: read_header_consumes read_exact_consumes)

lemma read_authenticated_consumes:
  assumes "read_message_authenticated env k r = (Inr msg, r')"
  shows "length (tcpr_bytes r') < length (tcpr_bytes r)"
  using assms
  by (auto simp: read_message_authenticated_def Let_def split: prod.splits sum.splits if_splits
      dest!: read_header_consumes read_exact_consumes)

lemma codec_invertsD:
  assumes "codec_inverts env msg"
  obtains json where "wc_to_vec env msg = Inr json" "wc_from_slice env json = Inr msg" "2 \<le> length json"
    "length json + HMAC_HEX_LEN \<le> MAX_MESSAGE_SIZE"
  using assms by (auto simp: codec_inverts_def split: sum.splits)

text \<open>The bytes of a frame.\<close>

definition frame_of :: "wire_codec \<Rightarrow> wire_message \<Rightarrow> string" where
  "frame_of env msg = (case encode_message env msg of Inl _ \<Rightarrow> [] | Inr bs \<Rightarrow> bs)"

definition sealed_frame_of :: "wire_codec \<Rightarrow> string \<Rightarrow> wire_message \<Rightarrow> string" where
  "sealed_frame_of env k msg =
     (case wc_to_vec env msg of
        Inl _ \<Rightarrow> []
      | Inr json \<Rightarrow> to_be_bytes (word_of_nat (length json + length (hmac_sign env k json)))
                    @ json @ hmac_sign env k json)"

abbreviation open_writer :: "string \<Rightarrow> tcp_writer" where
  "open_writer sent \<equiv> \<lparr>tcpw_sent = sent, tcpw_room = None\<rparr>"

abbreviation reader_of :: "string \<Rightarrow> string option \<Rightarrow> tcp_reader" where
  "reader_of bs fl \<equiv> \<lparr>tcpr_bytes = bs, tcpr_fault = fl\<rparr>"

lemma write_message_frame:
  "codec_inverts env msg \<Longrightarrow> write_message env msg (open_writer s) = (Inr (), open_writer (s @ frame_of env msg))"
  by (erule codec_invertsD) (simp add: write_message_def encode_message_def frame_of_def write_all_def)

lemma write_sealed_frame:
  "codec_inverts env msg \<Longrightarrow>
    write_message_authenticated env k msg (open_writer s) = (Inr (), open_writer (s @ sealed_frame_of env k msg))"
  by (erule codec_invertsD)
     (simp add: write_message_authenticated_def sealed_frame_of_def write_all_def Let_def)

lemma read_message_frame:
  assumes "codec_inverts env msg"
  shows "read_message env (reader_of (frame_of env msg @ rest) fl) = (Inr msg, reader_of rest fl)"
proof -
  from assms obtain json where j: "wc_to_vec env msg = Inr json" "wc_from_slice env json = Inr msg"
      "length json + HMAC_HEX_LEN \<le> MAX_MESSAGE_SIZE"
    by (rule codec_invertsD)
  have "length json \<le> MAX_MESSAGE_SIZE" using j(3) by simp
  from read_header_frame [OF this] show ?thesis
    using j by (simp add: read_message_def frame_of_def encode_message_def decode_message_def read_exact_def)
qed

lemma read_sealed_frame:
  assumes "codec_inverts env msg" "digest_is_hex env"
  shows "read_message_authenticated env k (reader_of (sealed_frame_of env k msg @ rest) fl)
    = (Inr msg, reader_of rest fl)"
proof -
  from assms(1) obtain json where j: "wc_to_vec env msg = Inr json" "wc_from_slice env json = Inr msg"
      "2 \<le> length json" "length json + HMAC_HEX_LEN \<le> MAX_MESSAGE_SIZE"
    by (rule codec_invertsD)
  define mac where "mac = hmac_sign env k json"
  have mac: "length mac = HMAC_HEX_LEN" "well_formed_utf8 (map of_char mac)"
    using assms(2) by (auto simp: digest_is_hex_def mac_def intro!: well_formed_utf8_ascii)
  have l: "length json + length mac \<le> MAX_MESSAGE_SIZE" using mac(1) j(4) by simp
  show ?thesis
    using read_header_frame [OF l] j mac
    by (simp add: read_message_authenticated_def sealed_frame_of_def mac_def [symmetric] Let_def
        read_exact_def hmac_verify_def)
qed

text \<open>Only frames sealed with the key of the session are read: whatever is accepted carries the
  digest of its text under that key.\<close>

lemma read_authenticated_sealed:
  assumes "read_message_authenticated env k r = (Inr msg, r')"
  shows "\<exists>json. wc_from_slice env json = Inr msg \<and> sublist (json @ hmac_sign env k json) (tcpr_bytes r)"
proof -
  from assms obtain n r1 frame where h: "read_header r = (Inr n, r1)" "read_exact n r1 = (Inr frame, r')"
      and ok: "hmac_verify env k (take (n - HMAC_HEX_LEN) frame) (drop (n - HMAC_HEX_LEN) frame)"
        "wc_from_slice env (take (n - HMAC_HEX_LEN) frame) = Inr msg"
    by (auto simp: read_message_authenticated_def Let_def split: prod.splits sum.splits if_splits)
  have "sublist frame (tcpr_bytes r1)"
    using h(2) by (auto simp: read_exact_def sublist_take split: if_splits)
  moreover have "sublist (tcpr_bytes r1) (tcpr_bytes r)"
    using h(1) by (auto simp: read_header_def read_exact_def Let_def sublist_drop split: if_splits option.splits)
  moreover have "take (n - HMAC_HEX_LEN) frame @ hmac_sign env k (take (n - HMAC_HEX_LEN) frame) = frame"
    using ok(1) by (simp add: hmac_verify_def)
  ultimately show ?thesis using ok(2) by (metis sublist_order.order_trans)
qed

end
