(* ===== verification/Wire_Peers.thy ===== *)
theory Wire_Peers
  imports Wire_Messages
begin

text \<open>
  Peers of the wire protocol: the registry of known peers
  (\<^verbatim>\<open>crates/openfang-wire/src/registry.rs\<close>) and the node that answers and opens connections
  (\<^verbatim>\<open>peer.rs\<close>): the nonce tracker, the handshake on both sides, the message loop, remote calls and
  broadcasts. Fresh identifiers and clocks are arguments. The last sections let connections
  interleave and compose the two ends of a remote call.
\<close>

section \<open>The registry of peers\<close>

record remote_agent =
  ra_peer_node_id :: string
  ra_info :: remote_agent_info

datatype peer_state = StConnected | StDisconnected

record peer_entry =
  pe_node_id :: string
  pe_node_name :: string
  pe_address :: string
  pe_agents :: "remote_agent_info list"
  pe_state :: peer_state
  pe_connected_at :: time
  pe_protocol_version :: "32 word"

type_synonym peer_registry = "(string, peer_entry) store"

definition add_peer :: "peer_entry \<Rightarrow> peer_registry \<Rightarrow> peer_registry" where
  "add_peer entry peers = st_put (pe_node_id entry) entry peers"

definition remove_peer :: "string \<Rightarrow> peer_registry \<Rightarrow> peer_entry option \<times> peer_registry" where
  "remove_peer nid peers = (st_get peers nid, st_del nid peers)"

definition on_peer :: "string \<Rightarrow> (peer_entry \<Rightarrow> peer_entry) \<Rightarrow> peer_registry \<Rightarrow> peer_registry" where
  "on_peer nid f peers =
     (case st_get peers nid of None \<Rightarrow> peers | Some entry \<Rightarrow> st_put nid (f entry) peers)"

definition mark_disconnected :: "string \<Rightarrow> peer_registry \<Rightarrow> peer_registry" where
  "mark_disconnected nid peers = on_peer nid (\<lambda>e. e\<lparr>pe_state := StDisconnected\<rparr>) peers"

definition mark_connected :: "string \<Rightarrow> peer_registry \<Rightarrow> peer_registry" where
  "mark_connected nid peers = on_peer nid (\<lambda>e. e\<lparr>pe_state := StConnected\<rparr>) peers"

definition get_peer :: "string \<Rightarrow> peer_registry \<Rightarrow> peer_entry option" where
  "get_peer nid peers = st_get peers nid"

definition connected_peers :: "peer_registry \<Rightarrow> peer_entry list" where
  "connected_peers peers = filter (\<lambda>p. pe_state p = StConnected) (map snd peers)"

definition all_peers :: "peer_registry \<Rightarrow> peer_entry list" where
  "all_peers peers = map snd peers"

definition update_peer_agents :: "string \<Rightarrow> remote_agent_info list \<Rightarrow> peer_registry \<Rightarrow> peer_registry" where
  "update_peer_agents nid agents peers = on_peer nid (\<lambda>e. e\<lparr>pe_agents := agents\<rparr>) peers"

fun put_agent :: "remote_agent_info \<Rightarrow> remote_agent_info list \<Rightarrow> remote_agent_info list" where
  "put_agent a [] = [a]"
| "put_agent a (b # bs) = (if ri_id b = ri_id a then a # bs else b # put_agent a bs)"

definition add_peer_agent :: "string \<Rightarrow> remote_agent_info \<Rightarrow> peer_registry \<Rightarrow> peer_registry" where
  "add_peer_agent nid agent peers = on_peer nid (\<lambda>e. e\<lparr>pe_agents := put_agent agent (pe_agents e)\<rparr>) peers"

definition remove_peer_agent :: "string \<Rightarrow> string \<Rightarrow> peer_registry \<Rightarrow> peer_registry" where
  "remove_peer_agent nid agent_id peers =
     on_peer nid (\<lambda>e. e\<lparr>pe_agents := filter (\<lambda>a. ri_id a \<noteq> agent_id) (pe_agents e)\<rparr>) peers"

text \<open>The lower-case mapping of strings is a parameter.\<close>

definition agent_matches :: "(string \<Rightarrow> string) \<Rightarrow> string \<Rightarrow> remote_agent_info \<Rightarrow> bool" where
  "agent_matches lower query_lower a =
     (contains_str (lower (ri_name a)) query_lower
      \<or> contains_str (lower (ri_description a)) query_lower
      \<or> list_ex (\<lambda>t. contains_str (lower t) query_lower) (ri_tags a))"

definition all_remote_agents :: "peer_registry \<Rightarrow> remote_agent list" where
  "all_remote_agents peers =
     concat (map (\<lambda>p. map (\<lambda>a. \<lparr>ra_peer_node_id = pe_node_id p, ra_info = a\<rparr>) (pe_agents p))
       (connected_peers peers))"

definition find_agents :: "(string \<Rightarrow> string) \<Rightarrow> string \<Rightarrow> peer_registry \<Rightarrow> remote_agent list" where
  "find_agents lower query peers =
     concat (map (\<lambda>p. map (\<lambda>a. \<lparr>ra_peer_node_id = pe_node_id p, ra_info = a\<rparr>)
                          (filter (agent_matches lower (lower query)) (pe_agents p)))
       (connected_peers peers))"

definition connected_count :: "peer_registry \<Rightarrow> nat" where
  "connected_count peers = length (connected_peers peers)"

definition total_count :: "peer_registry \<Rightarrow> nat" where
  "total_count peers = length peers"

section \<open>The nonce tracker\<close>

text \<open>Instants of the monotonic clock are in seconds.\<close>

record nonce_tracker =
  nt_seen :: "(string, nat) store"
  nt_window :: nat

definition nonce_tracker_new :: nonce_tracker where
  "nonce_tracker_new = \<lparr>nt_seen = [], nt_window = 300\<rparr>"

text \<open>
  The three accesses to the map that the check makes: it drops what is too old, looks the nonce up, and
  inserts it. Each is atomic, the check is not.
\<close>

definition nonce_sweep :: "nat \<Rightarrow> nonce_tracker \<Rightarrow> nonce_tracker" where
  "nonce_sweep now nt = nt\<lparr>nt_seen := filter (\<lambda>(_, ts). now - ts < nt_window nt) (nt_seen nt)\<rparr>"

definition nonce_seen :: "string \<Rightarrow> nonce_tracker \<Rightarrow> bool" where
  "nonce_seen nonce nt = (st_get (nt_seen nt) nonce \<noteq> None)"

definition nonce_insert :: "nat \<Rightarrow> string \<Rightarrow> nonce_tracker \<Rightarrow> nonce_tracker" where
  "nonce_insert now nonce nt = nt\<lparr>nt_seen := st_put nonce now (nt_seen nt)\<rparr>"

text \<open>The check of one connection, when no other comes in between.\<close>

definition check_and_record ::
  "nat \<Rightarrow> string \<Rightarrow> nonce_tracker \<Rightarrow> (string, unit) result \<times> nonce_tracker" where
  "check_and_record now nonce nt =
     (let nt1 = nonce_sweep now nt
      in if nonce_seen nonce nt1 then (Inl (''Nonce replay detected: '' @ truncate_str nonce 16), nt1)
         else (Inr (), nonce_insert now nonce nt1))"

section \<open>The node\<close>

record peer_config =
  pcfg_listen_addr :: string
  pcfg_node_id :: string
  pcfg_node_name :: string
  pcfg_shared_secret :: string

text \<open>What the kernel answers to remote requests.\<close>

record peer_handle =
  phd_local_agents :: "remote_agent_info list"
  phd_handle_agent_message :: "string \<Rightarrow> string \<Rightarrow> string option \<Rightarrow> (string, string) result"
  phd_discover_agents :: "string \<Rightarrow> remote_agent_info list"
  phd_uptime_secs :: nat

record peer_node =
  pnode_config :: peer_config
  pnode_registry :: peer_registry
  pnode_local_addr :: string
  pnode_start_time :: nat
  pnode_nonce_tracker :: nonce_tracker
  pnode_session_key :: "string option"

definition start_node ::
  "(string, string) result \<Rightarrow> nat \<Rightarrow> peer_config \<Rightarrow> peer_registry \<Rightarrow> (wire_error, peer_node) result" where
  "start_node bind_outcome now config registry =
     (if pcfg_shared_secret config = [] then
        Inl (HandshakeFailed ''OFP requires shared_secret. Set [network] shared_secret in config.toml'')
      else
        (case bind_outcome of
           Inl e \<Rightarrow> Inl (WireIo e)
         | Inr local_addr \<Rightarrow>
             Inr \<lparr>pnode_config = config, pnode_registry = registry, pnode_local_addr = local_addr,
                  pnode_start_time = now, pnode_nonce_tracker = nonce_tracker_new, pnode_session_key = None\<rparr>))"

definition sign_identity :: "wire_codec \<Rightarrow> string \<Rightarrow> peer_config \<Rightarrow> string" where
  "sign_identity env nonce cfg = hmac_sign env (pcfg_shared_secret cfg) (nonce @ pcfg_node_id cfg)"

definition identity_verified :: "wire_codec \<Rightarrow> peer_config \<Rightarrow> string \<Rightarrow> string \<Rightarrow> string \<Rightarrow> bool" where
  "identity_verified env cfg nonce nid auth_hmac = hmac_verify env (pcfg_shared_secret cfg) (nonce @ nid) auth_hmac"

definition peer_entry_of ::
  "string \<Rightarrow> string \<Rightarrow> string \<Rightarrow> remote_agent_info list \<Rightarrow> time \<Rightarrow> 32 word \<Rightarrow> peer_entry" where
  "peer_entry_of nid name addr agents wall version =
     \<lparr>pe_node_id = nid, pe_node_name = name, pe_address = addr, pe_agents = agents, pe_state = StConnected,
      pe_connected_at = wall, pe_protocol_version = version\<rparr>"

subsection \<open>Answering a connection\<close>

definition error_reply :: "string \<Rightarrow> int \<Rightarrow> string \<Rightarrow> wire_message" where
  "error_reply mid code text = \<lparr>wmsg_id = mid, wmsg_kind = WireResponse (WireErrorReply code text)\<rparr>"

text \<open>The error of a refused handshake, unless sending the refusal itself fails.\<close>

definition refuse ::
  "wire_codec \<Rightarrow> wire_message \<Rightarrow> wire_error \<Rightarrow> tcp_writer \<Rightarrow> wire_error \<times> tcp_writer" where
  "refuse env err_resp err w =
     (case write_message env err_resp w of
        (Inl e, w1) \<Rightarrow> (e, w1)
      | (Inr _, w1) \<Rightarrow> (err, w1))"

definition version_text :: "32 word \<Rightarrow> string" where
  "version_text version =
     ''Protocol version mismatch: expected '' @ show_nat (unat PROTOCOL_VERSION) @ '', got '' @ show_nat (unat version)"

definition unauthenticated_text :: string where
  "unauthenticated_text = ''Rejected unauthenticated request '' @ [CHR 0xE2, CHR 0x80, CHR 0x94]
     @ '' handshake required''"

definition handshake_ack :: "wire_codec \<Rightarrow> peer_handle \<Rightarrow> peer_config \<Rightarrow> string \<Rightarrow> string \<Rightarrow> wire_message" where
  "handshake_ack env h cfg mid ack_nonce =
     \<lparr>wmsg_id = mid,
      wmsg_kind = WireResponse (HandshakeAck (pcfg_node_id cfg) (pcfg_node_name cfg) PROTOCOL_VERSION
        (phd_local_agents h) ack_nonce (sign_identity env ack_nonce cfg))\<rparr>"

text \<open>
  One incoming handshake, for the message already read: the checks in their order. The tracker
  records the nonce before the digest is verified.
\<close>

definition answer_handshake ::
  "wire_codec \<Rightarrow> peer_handle \<Rightarrow> string \<Rightarrow> nat \<Rightarrow> time \<Rightarrow> string \<Rightarrow> wire_message \<Rightarrow> peer_node \<Rightarrow> tcp_writer
     \<Rightarrow> (wire_error, string \<times> string) result \<times> peer_node \<times> tcp_writer" where
  "answer_handshake env h addr now wall ack_nonce msg node w =
     (case wmsg_kind msg of
        WireRequest (Handshake nid name version agents nonce auth_hmac) \<Rightarrow>
          if version \<noteq> PROTOCOL_VERSION then
            (let (e, w1) = refuse env (error_reply (wmsg_id msg) 1 (version_text version))
                             (VersionMismatch (unat PROTOCOL_VERSION) (unat version)) w
             in (Inl e, node, w1))
          else
            (case check_and_record now nonce (pnode_nonce_tracker node) of
               (Inl replay_err, nt) \<Rightarrow>
                 (let (e, w1) = refuse env (error_reply (wmsg_id msg) 403 ''Nonce replay rejected'')
                                  (HandshakeFailed replay_err) w
                  in (Inl e, node\<lparr>pnode_nonce_tracker := nt\<rparr>, w1))
             | (Inr _, nt) \<Rightarrow>
                 let node1 = node\<lparr>pnode_nonce_tracker := nt\<rparr>
                 in if \<not> identity_verified env (pnode_config node) nonce nid auth_hmac then
                      (let (e, w1) = refuse env (error_reply (wmsg_id msg) 403 ''HMAC authentication failed'')
                                       (HandshakeFailed ''HMAC verification failed on incoming Handshake'') w
                       in (Inl e, node1, w1))
                    else
                      (case write_message env (handshake_ack env h (pnode_config node) (wmsg_id msg) ack_nonce) w of
                         (Inl e, w1) \<Rightarrow> (Inl e, node1, w1)
                       | (Inr _, w1) \<Rightarrow>
                           (Inr (nid, derive_session_key env (pcfg_shared_secret (pnode_config node)) nonce ack_nonce),
                            node1\<lparr>pnode_registry :=
                              add_peer (peer_entry_of nid name addr agents wall version) (pnode_registry node1)\<rparr>,
                            w1)))
      | _ \<Rightarrow>
          (let (e, w1) = refuse env
                 (error_reply (wmsg_id msg) 401 ''Authentication required: complete HMAC handshake first'')
                 (HandshakeFailed unauthenticated_text) w
           in (Inl e, node, w1)))"

subsection \<open>The message loop\<close>

definition request_response :: "peer_handle \<Rightarrow> nat \<Rightarrow> string \<Rightarrow> wire_message \<Rightarrow> wire_message" where
  "request_response h uptime other msg =
     \<lparr>wmsg_id = wmsg_id msg,
      wmsg_kind = WireResponse
        (case wmsg_kind msg of
           WireRequest Ping \<Rightarrow> Pong (word_of_nat uptime)
         | WireRequest (Discover query) \<Rightarrow> DiscoverResult (phd_discover_agents h query)
         | WireRequest (AgentMessage agent message sender) \<Rightarrow>
             (case phd_handle_agent_message h agent message sender of
                Inr text \<Rightarrow> AgentResponse text
              | Inl e \<Rightarrow> WireErrorReply 500 e)
         | _ \<Rightarrow> WireErrorReply 400 other)\<rparr>"

definition handle_request_in_loop :: "peer_handle \<Rightarrow> wire_message \<Rightarrow> wire_message" where
  "handle_request_in_loop h msg =
     request_response h (phd_uptime_secs h) ''Unexpected request in connection loop'' msg"

definition handle_notification :: "string \<Rightarrow> wire_notification \<Rightarrow> peer_registry \<Rightarrow> peer_registry" where
  "handle_notification peer notif registry =
     (case notif of
        AgentSpawned agent \<Rightarrow> add_peer_agent peer agent registry
      | AgentTerminated agent_id \<Rightarrow> remove_peer_agent peer agent_id registry
      | ShuttingDown \<Rightarrow> mark_disconnected peer registry)"

text \<open>A connection: its socket, the registry it shares, and the messages handed to agents.\<close>

record connection =
  cn_reader :: tcp_reader
  cn_writer :: tcp_writer
  cn_registry :: peer_registry
  cn_delivered :: "(string \<times> string \<times> string option) list"

definition read_next ::
  "wire_codec \<Rightarrow> string option \<Rightarrow> tcp_reader \<Rightarrow> (wire_error, wire_message) result \<times> tcp_reader" where
  "read_next env session_key r =
     (case session_key of Some key \<Rightarrow> read_message_authenticated env key r | None \<Rightarrow> read_message env r)"

definition write_next ::
  "wire_codec \<Rightarrow> string option \<Rightarrow> wire_message \<Rightarrow> tcp_writer \<Rightarrow> (wire_error, unit) result \<times> tcp_writer" where
  "write_next env session_key msg w =
     (case session_key of Some key \<Rightarrow> write_message_authenticated env key msg w | None \<Rightarrow> write_message env msg w)"

definition deliveries :: "wire_message \<Rightarrow> (string \<times> string \<times> string option) list" where
  "deliveries msg =
     (case wmsg_kind msg of
        WireRequest (AgentMessage agent message sender) \<Rightarrow> [(agent, message, sender)]
      | _ \<Rightarrow> [])"

definition dispatch_message ::
  "wire_codec \<Rightarrow> peer_handle \<Rightarrow> string \<Rightarrow> string option \<Rightarrow> wire_message \<Rightarrow> connection
     \<Rightarrow> (wire_error, unit) result \<times> connection" where
  "dispatch_message env h peer session_key msg c =
     (case wmsg_kind msg of
        WireNotification notif \<Rightarrow> (Inr (), c\<lparr>cn_registry := handle_notification peer notif (cn_registry c)\<rparr>)
      | WireRequest _ \<Rightarrow>
          (let (res, w1) = write_next env session_key (handle_request_in_loop h msg) (cn_writer c)
           in (res, c\<lparr>cn_writer := w1, cn_delivered := cn_delivered c @ deliveries msg\<rparr>))
      | WireResponse _ \<Rightarrow> (Inr (), c))"

lemma read_next_consumes:
  "read_next env key r = (Inr msg, r') \<Longrightarrow> length (tcpr_bytes r') < length (tcpr_bytes r)"
  by (auto simp: read_next_def split: option.splits dest: read_message_consumes read_authenticated_consumes)

lemma dispatch_reader:
  "dispatch_message env h peer key msg c = (res, c') \<Longrightarrow> cn_reader c' = cn_reader c"
  by (auto simp: dispatch_message_def split: wire_message_kind.splits prod.splits)

function connection_loop ::
  "wire_codec \<Rightarrow> peer_handle \<Rightarrow> string \<Rightarrow> string option \<Rightarrow> connection
     \<Rightarrow> (wire_error, unit) result \<times> connection" where
  "connection_loop env h peer session_key c =
     (case read_next env session_key (cn_reader c) of
        (Inl e, r1) \<Rightarrow> (if e = ConnectionClosed then Inr () else Inl e, c\<lparr>cn_reader := r1\<rparr>)
      | (Inr msg, r1) \<Rightarrow>
          (case dispatch_message env h peer session_key msg (c\<lparr>cn_reader := r1\<rparr>) of
             (Inl e, c1) \<Rightarrow> (Inl e, c1)
           | (Inr _, c1) \<Rightarrow> connection_loop env h peer session_key c1))"
  by pat_completeness auto
termination
  by (relation "measure (\<lambda>(_, _, _, _, c). length (tcpr_bytes (cn_reader c)))")
     (auto dest!: dispatch_reader [OF sym] intro: read_next_consumes [OF sym])

declare connection_loop.simps [simp del]

text \<open>A whole incoming connection: handshake, messages, and the mark left at its end.\<close>

definition handle_inbound ::
  "wire_codec \<Rightarrow> peer_handle \<Rightarrow> string \<Rightarrow> nat \<Rightarrow> time \<Rightarrow> string \<Rightarrow> peer_node \<Rightarrow> tcp_reader \<Rightarrow> tcp_writer
     \<Rightarrow> (wire_error, unit) result \<times> peer_node \<times> tcp_writer \<times> (string \<times> string \<times> string option) list" where
  "handle_inbound env h addr now wall ack_nonce node r w =
     (case read_message env r of
        (Inl e, r1) \<Rightarrow> (Inl e, node, w, [])
      | (Inr msg, r1) \<Rightarrow>
          (case answer_handshake env h addr now wall ack_nonce msg node w of
             (Inl e, node1, w1) \<Rightarrow> (Inl e, node1, w1, [])
           | (Inr (peer, key), node1, w1) \<Rightarrow>
               let c = snd (connection_loop env h peer (Some key)
                     \<lparr>cn_reader = r1, cn_writer = w1, cn_registry = pnode_registry node1, cn_delivered = []\<rparr>)
               in (Inr (), node1\<lparr>pnode_registry := mark_disconnected peer (cn_registry c)\<rparr>,
                   cn_writer c, cn_delivered c)))"

text \<open>The variant with the node's own uptime, kept in the source for later use.\<close>

definition handle_request :: "wire_codec \<Rightarrow> peer_handle \<Rightarrow> nat \<Rightarrow> peer_node \<Rightarrow> wire_message \<Rightarrow> wire_message" where
  "handle_request env h now node msg =
     (case wmsg_kind msg of
        WireRequest (Handshake _ _ _ _ _ _) \<Rightarrow> error_reply (wmsg_id msg) 400 ''Already handshaked''
      | _ \<Rightarrow> request_response h (now - pnode_start_time node) ''Unexpected message type'' msg)"

subsection \<open>Opening a connection\<close>

definition handshake_request :: "wire_codec \<Rightarrow> peer_handle \<Rightarrow> peer_config \<Rightarrow> string \<Rightarrow> string \<Rightarrow> wire_message" where
  "handshake_request env h cfg mid our_nonce =
     \<lparr>wmsg_id = mid,
      wmsg_kind = WireRequest (Handshake (pcfg_node_id cfg) (pcfg_node_name cfg) PROTOCOL_VERSION
        (phd_local_agents h) our_nonce (sign_identity env our_nonce cfg))\<rparr>"

text \<open>What the peer said about itself in its acknowledgement, with the key of the session.\<close>

record peer_ack =
  pack_node_id :: string
  pack_node_name :: string
  pack_version :: "32 word"
  pack_agents :: "remote_agent_info list"
  pack_key :: string

definition check_ack ::
  "wire_codec \<Rightarrow> nat \<Rightarrow> string \<Rightarrow> wire_message \<Rightarrow> peer_node \<Rightarrow> (wire_error, peer_ack) result \<times> peer_node" where
  "check_ack env now our_nonce response node =
     (case wmsg_kind response of
        WireResponse (HandshakeAck nid name version agents ack_nonce ack_hmac) \<Rightarrow>
          if version \<noteq> PROTOCOL_VERSION
          then (Inl (VersionMismatch (unat PROTOCOL_VERSION) (unat version)), node)
          else
            (case check_and_record now ack_nonce (pnode_nonce_tracker node) of
               (Inl replay_err, nt) \<Rightarrow> (Inl (HandshakeFailed replay_err), node\<lparr>pnode_nonce_tracker := nt\<rparr>)
             | (Inr _, nt) \<Rightarrow>
                 (if \<not> identity_verified env (pnode_config node) ack_nonce nid ack_hmac
                  then Inl (HandshakeFailed ''HMAC verification failed on HandshakeAck'')
                  else Inr \<lparr>pack_node_id = nid, pack_node_name = name, pack_version = version, pack_agents = agents,
                            pack_key = derive_session_key env (pcfg_shared_secret (pnode_config node)) our_nonce ack_nonce\<rparr>,
                  node\<lparr>pnode_nonce_tracker := nt\<rparr>))
      | WireResponse (WireErrorReply code message) \<Rightarrow>
          (Inl (HandshakeFailed (''Remote error '' @ show_int code @ '': '' @ message)), node)
      | _ \<Rightarrow> (Inl (HandshakeFailed ''Unexpected response to handshake''), node))"

text \<open>Handshake, acknowledgement and its checks, common to both clients.\<close>

definition open_session ::
  "wire_codec \<Rightarrow> peer_handle \<Rightarrow> nat \<Rightarrow> string \<Rightarrow> string \<Rightarrow> peer_node \<Rightarrow> tcp_reader \<Rightarrow> tcp_writer
     \<Rightarrow> (wire_error, peer_ack) result \<times> peer_node \<times> tcp_reader \<times> tcp_writer" where
  "open_session env h now mid our_nonce node r w =
     (case write_message env (handshake_request env h (pnode_config node) mid our_nonce) w of
        (Inl e, w1) \<Rightarrow> (Inl e, node, r, w1)
      | (Inr _, w1) \<Rightarrow>
          (case read_message env r of
             (Inl e, r1) \<Rightarrow> (Inl e, node, r1, w1)
           | (Inr response, r1) \<Rightarrow>
               (let (res, node1) = check_ack env now our_nonce response node in (res, node1, r1, w1))))"

definition connect_to_peer ::
  "wire_codec \<Rightarrow> peer_handle \<Rightarrow> nat \<Rightarrow> time \<Rightarrow> string \<Rightarrow> string \<Rightarrow> string
     \<Rightarrow> (string, tcp_reader \<times> tcp_writer) result \<Rightarrow> peer_node
     \<Rightarrow> (wire_error, string \<times> string \<times> connection) result \<times> peer_node" where
  "connect_to_peer env h now wall mid our_nonce addr opened node =
     (case opened of
        Inl e \<Rightarrow> (Inl (WireIo e), node)
      | Inr (r, w) \<Rightarrow>
          (case open_session env h now mid our_nonce node r w of
             (Inl e, node1, _, _) \<Rightarrow> (Inl e, node1)
           | (Inr ack, node1, r1, w1) \<Rightarrow>
               let registry = add_peer (peer_entry_of (pack_node_id ack) (pack_node_name ack) addr
                                 (pack_agents ack) wall (pack_version ack)) (pnode_registry node1)
               in (Inr (pack_node_id ack, pack_key ack,
                        \<lparr>cn_reader = r1, cn_writer = w1, cn_registry = registry, cn_delivered = []\<rparr>),
                   node1\<lparr>pnode_registry := registry\<rparr>)))"

text \<open>The task that serves the connection after \<open>connect_to_peer\<close>.\<close>

definition serve_connection ::
  "wire_codec \<Rightarrow> peer_handle \<Rightarrow> string \<Rightarrow> string \<Rightarrow> connection \<Rightarrow> connection" where
  "serve_connection env h peer key c =
     (let c1 = snd (connection_loop env h peer (Some key) c)
      in c1\<lparr>cn_registry := mark_disconnected peer (cn_registry c1)\<rparr>)"

definition agent_message :: "string \<Rightarrow> string \<Rightarrow> string \<Rightarrow> string option \<Rightarrow> wire_message" where
  "agent_message mid agent message sender =
     \<lparr>wmsg_id = mid, wmsg_kind = WireRequest (AgentMessage agent message sender)\<rparr>"

text \<open>
  A remote call: \<open>connect\<close> opens a socket to an address, \<open>mids\<close> are the two fresh message
  identifiers.
\<close>

definition send_to_peer ::
  "wire_codec \<Rightarrow> peer_handle \<Rightarrow> nat \<Rightarrow> string \<times> string \<Rightarrow> string
     \<Rightarrow> (string \<Rightarrow> (string, tcp_reader \<times> tcp_writer) result)
     \<Rightarrow> string \<Rightarrow> string \<Rightarrow> string \<Rightarrow> string option \<Rightarrow> peer_node
     \<Rightarrow> (wire_error, string) result \<times> peer_node \<times> tcp_writer option" where
  "send_to_peer env h now mids our_nonce connect nid agent message sender node =
     (case get_peer nid (pnode_registry node) of
        None \<Rightarrow> (Inl (HandshakeFailed (''Unknown peer: '' @ nid)), node, None)
      | Some peer \<Rightarrow>
          (case connect (pe_address peer) of
             Inl e \<Rightarrow> (Inl (WireIo e), node, None)
           | Inr (r, w) \<Rightarrow>
               (case open_session env h now (fst mids) our_nonce node r w of
                  (Inl e, node1, _, w1) \<Rightarrow> (Inl e, node1, Some w1)
                | (Inr ack, node1, r1, w1) \<Rightarrow>
                    (case write_message_authenticated env (pack_key ack)
                            (agent_message (snd mids) agent message sender) w1 of
                       (Inl e, w2) \<Rightarrow> (Inl e, node1, Some w2)
                     | (Inr _, w2) \<Rightarrow>
                         (case read_message_authenticated env (pack_key ack) r1 of
                            (Inl e, _) \<Rightarrow> (Inl e, node1, Some w2)
                          | (Inr response, _) \<Rightarrow>
                              ((case wmsg_kind response of
                                  WireResponse (AgentResponse text) \<Rightarrow> Inr text
                                | WireResponse (WireErrorReply code e) \<Rightarrow>
                                    Inl (HandshakeFailed (''Remote error '' @ show_int code @ '': '' @ e))
                                | _ \<Rightarrow> Inl (HandshakeFailed ''Unexpected response type'')),
                               node1, Some w2))))))"

text \<open>
  A broadcast: for each connected peer a fresh connection, a fresh identifier and a fresh nonce,
  which is used for the key only. The result is the list of failures and what each peer is sent.
\<close>

definition notify_peer ::
  "wire_codec \<Rightarrow> (string \<Rightarrow> (string, tcp_writer) result) \<Rightarrow> (string \<Rightarrow> string) \<Rightarrow> (string \<Rightarrow> string)
     \<Rightarrow> wire_notification \<Rightarrow> string \<Rightarrow> peer_entry \<Rightarrow> (string \<times> wire_error) list \<times> (string \<times> tcp_writer) list" where
  "notify_peer env connect fresh_id fresh_nonce notification shared_secret peer =
     (case connect (pe_address peer) of
        Inl e \<Rightarrow> ([(pe_node_id peer, WireIo e)], [])
      | Inr w \<Rightarrow>
          (case write_message_authenticated env (hmac_sign env shared_secret (fresh_nonce (pe_node_id peer)))
                  \<lparr>wmsg_id = fresh_id (pe_node_id peer), wmsg_kind = WireNotification notification\<rparr> w of
             (Inl e, w1) \<Rightarrow> ([(pe_node_id peer, e)], [(pe_node_id peer, w1)])
           | (Inr _, w1) \<Rightarrow> ([], [(pe_node_id peer, w1)])))"

definition broadcast_notification ::
  "wire_codec \<Rightarrow> (string \<Rightarrow> (string, tcp_writer) result) \<Rightarrow> (string \<Rightarrow> string) \<Rightarrow> (string \<Rightarrow> string)
     \<Rightarrow> wire_notification \<Rightarrow> string \<Rightarrow> peer_registry \<Rightarrow> (string \<times> wire_error) list \<times> (string \<times> tcp_writer) list" where
  "broadcast_notification env connect fresh_id fresh_nonce notification shared_secret registry =
     (let outs = map (notify_peer env connect fresh_id fresh_nonce notification shared_secret) (connected_peers registry)
      in (concat (map fst outs), concat (map snd outs)))"

section \<open>The registry after each operation\<close>

lemma get_on_peer:
  "st_get (on_peer nid f peers) k
    = (if k = nid then map_option f (st_get peers nid) else st_get peers k)"
  by (auto simp: on_peer_def update_conv' split: option.splits)

lemma get_add_peer:
  "st_get (add_peer e peers) k = (if k = pe_node_id e then Some e else st_get peers k)"
  by (simp add: add_peer_def update_conv')

lemma get_notification:
  "st_get (handle_notification peer notif reg) k
    = (case st_get reg k of None \<Rightarrow> None
       | Some e \<Rightarrow> Some (if k \<noteq> peer then e
           else (case notif of
                   AgentSpawned a \<Rightarrow> e\<lparr>pe_agents := put_agent a (pe_agents e)\<rparr>
                 | AgentTerminated aid \<Rightarrow> e\<lparr>pe_agents := filter (\<lambda>a. ri_id a \<noteq> aid) (pe_agents e)\<rparr>
                 | ShuttingDown \<Rightarrow> e\<lparr>pe_state := StDisconnected\<rparr>)))"
  by (auto simp: handle_notification_def add_peer_agent_def remove_peer_agent_def mark_disconnected_def
      get_on_peer split: wire_notification.splits option.splits)

text \<open>No operation on a peer creates an entry: only a handshake does.\<close>

lemma dispatch_keeps_keys:
  assumes "dispatch_message env h peer key msg c = (res, c')"
  shows "(st_get (cn_registry c') k = None) = (st_get (cn_registry c) k = None)"
  using assms
  by (auto simp: dispatch_message_def get_notification split: wire_message_kind.splits prod.splits option.splits)

end
