(* ===== verification/Wire_Security.thy ===== *)
theory Wire_Security
  imports Wire_Peers "HOL-Library.Multiset"
begin

text \<open>
  What the wire protocol achieves (\<^verbatim>\<open>crates/openfang-wire/src/peer.rs\<close>): handshakes that interleave
  at will admit only identities with the digest of the shared secret, and, where the
  checks of nonces do not overlap, no nonce twice within the window; a remote call returns what the remote agent answered. And what it does not: two
  interleaved handshakes with one nonce are both admitted, a recorded handshake is
  accepted again when its nonce is cut elsewhere, a node accepts its own handshake as an answer,
  a call marks its caller as disconnected, and a broadcast is understood by nobody.
\<close>

section \<open>Interleaved connections\<close>

text \<open>
  A handshake that a connection is busy with: what the peer said, in a request that came in or in the answer
  to one of our own, and where the connection is in its checks. The time is the instant the connection
  has read for its check of the nonce.
\<close>

record hello =
  hl_inbound :: bool
  hl_keep :: bool
  hl_addr :: string
  hl_wall :: time
  hl_own_nonce :: string
  hl_node_id :: string
  hl_name :: string
  hl_agents :: "remote_agent_info list"
  hl_nonce :: string
  hl_tag :: string

datatype hello_stage = Arrived | Swept nat | Unseen nat | Recorded nat | Verified nat

record admission =
  adm_time :: nat
  adm_nonce :: string
  adm_node :: string
  adm_tag :: string

text \<open>A node with its handshakes, its open sessions, its clock and, as a history, what it accepted.\<close>

record wire_world =
  ww_node :: peer_node
  ww_hellos :: "(hello \<times> hello_stage) list"
  ww_open :: "(string \<times> string) list"
  ww_now :: nat
  ww_admitted :: "admission list"

definition set_registry :: "peer_registry \<Rightarrow> peer_node \<Rightarrow> peer_node" where
  "set_registry reg node = node\<lparr>pnode_registry := reg\<rparr>"

definition set_tracker :: "nonce_tracker \<Rightarrow> peer_node \<Rightarrow> peer_node" where
  "set_tracker nt node = node\<lparr>pnode_nonce_tracker := nt\<rparr>"

definition hello_kind :: "hello \<Rightarrow> wire_message_kind" where
  "hello_kind t =
     (if hl_inbound t
      then WireRequest (Handshake (hl_node_id t) (hl_name t) PROTOCOL_VERSION (hl_agents t) (hl_nonce t) (hl_tag t))
      else WireResponse (HandshakeAck (hl_node_id t) (hl_name t) PROTOCOL_VERSION (hl_agents t) (hl_nonce t) (hl_tag t)))"

text \<open>The peer is registered, but not by the client that only sends a message.\<close>

definition enter_peer :: "hello \<Rightarrow> peer_node \<Rightarrow> peer_node" where
  "enter_peer t node =
     (if hl_inbound t \<or> hl_keep t
      then set_registry (add_peer (peer_entry_of (hl_node_id t) (hl_name t) (hl_addr t) (hl_agents t) (hl_wall t)
             PROTOCOL_VERSION) (pnode_registry node)) node
      else node)"

definition hello_key :: "wire_codec \<Rightarrow> peer_config \<Rightarrow> hello \<Rightarrow> string" where
  "hello_key env cfg t =
     (if hl_inbound t then derive_session_key env (pcfg_shared_secret cfg) (hl_nonce t) (hl_own_nonce t)
      else derive_session_key env (pcfg_shared_secret cfg) (hl_own_nonce t) (hl_nonce t))"

definition hello_admission :: "nat \<Rightarrow> hello \<Rightarrow> admission" where
  "hello_admission now t = \<lparr>adm_time = now, adm_nonce = hl_nonce t, adm_node = hl_node_id t, adm_tag = hl_tag t\<rparr>"

text \<open>
  One step of one connection. Between any two steps of a handshake other connections can take theirs. In an
  exclusive run the three accesses of one check of a nonce are not interrupted by another check, as if the
  tracker held a lock, and the clock does not go back; the rest of a handshake, its awaited write among it,
  interleaves there as well.
  A handshake is given up when it is refused, when its acknowledgement cannot be written, and when the
  connection is lost.
\<close>

definition in_check :: "hello \<times> hello_stage \<Rightarrow> bool" where
  "in_check x = (case snd x of Swept _ \<Rightarrow> True | Unseen _ \<Rightarrow> True | _ \<Rightarrow> False)"

inductive wire_step :: "bool \<Rightarrow> wire_codec \<Rightarrow> peer_handle \<Rightarrow> wire_world \<Rightarrow> wire_world \<Rightarrow> bool" for exclusive env h where
  arrives: "wmsg_kind (msg :: wire_message) = hello_kind t
    \<Longrightarrow> wire_step exclusive env h W (W\<lparr>ww_hellos := ww_hellos W @ [(t, Arrived)]\<rparr>)"
| sweeps: "\<lbrakk>ww_hellos W = xs @ (t, Arrived) # ys; exclusive \<longrightarrow> ww_now W \<le> now \<and> \<not> list_ex in_check (xs @ ys)\<rbrakk>
    \<Longrightarrow> wire_step exclusive env h W
          (W\<lparr>ww_node := set_tracker (nonce_sweep now (pnode_nonce_tracker (ww_node W))) (ww_node W),
             ww_hellos := xs @ (t, Swept now) # ys, ww_now := now\<rparr>)"
| looks: "\<lbrakk>ww_hellos W = xs @ (t, Swept now) # ys; \<not> nonce_seen (hl_nonce t) (pnode_nonce_tracker (ww_node W))\<rbrakk>
    \<Longrightarrow> wire_step exclusive env h W (W\<lparr>ww_hellos := xs @ (t, Unseen now) # ys\<rparr>)"
| inserts: "ww_hellos W = xs @ (t, Unseen now) # ys
    \<Longrightarrow> wire_step exclusive env h W
          (W\<lparr>ww_node := set_tracker (nonce_insert now (hl_nonce t) (pnode_nonce_tracker (ww_node W))) (ww_node W),
             ww_hellos := xs @ (t, Recorded now) # ys\<rparr>)"
| verifies: "\<lbrakk>ww_hellos W = xs @ (t, Recorded now) # ys;
      identity_verified env (pnode_config (ww_node W)) (hl_nonce t) (hl_node_id t) (hl_tag t)\<rbrakk>
    \<Longrightarrow> wire_step exclusive env h W (W\<lparr>ww_hellos := xs @ (t, Verified now) # ys\<rparr>)"
| enters: "ww_hellos W = xs @ (t, Verified now) # ys
    \<Longrightarrow> wire_step exclusive env h W
          (W\<lparr>ww_node := enter_peer t (ww_node W), ww_hellos := xs @ ys,
             ww_open := (if hl_inbound t \<or> hl_keep t
                         then (hl_node_id t, hello_key env (pnode_config (ww_node W)) t) # ww_open W else ww_open W),
             ww_admitted := ww_admitted W @ [hello_admission now t]\<rparr>)"
| gives_up: "ww_hellos W = xs @ x # ys \<Longrightarrow> wire_step exclusive env h W (W\<lparr>ww_hellos := xs @ ys\<rparr>)"
| message: "\<lbrakk>(peer, key) \<in> set (ww_open W);
      read_message_authenticated env key (cn_reader c) = (Inr msg, r');
      cn_registry c = pnode_registry (ww_node W);
      dispatch_message env h peer (Some key) msg (c\<lparr>cn_reader := r'\<rparr>) = (res, c')\<rbrakk>
    \<Longrightarrow> wire_step exclusive env h W (W\<lparr>ww_node := set_registry (cn_registry c') (ww_node W)\<rparr>)"
| closed: "(peer, key) \<in> set (ww_open W)
    \<Longrightarrow> wire_step exclusive env h W (W\<lparr>ww_open := remove1 (peer, key) (ww_open W),
          ww_node := set_registry (mark_disconnected peer (pnode_registry (ww_node W))) (ww_node W)\<rparr>)"

abbreviation wire_steps :: "bool \<Rightarrow> wire_codec \<Rightarrow> peer_handle \<Rightarrow> wire_world \<Rightarrow> wire_world \<Rightarrow> bool" where
  "wire_steps exclusive env h \<equiv> (wire_step exclusive env h)\<^sup>*\<^sup>*"

inductive wire_reachable :: "bool \<Rightarrow> wire_codec \<Rightarrow> peer_handle \<Rightarrow> peer_config \<Rightarrow> wire_world \<Rightarrow> bool"
  for exclusive env h cfg where
  start: "start_node (Inr addr) now cfg [] = Inr node
    \<Longrightarrow> wire_reachable exclusive env h cfg \<lparr>ww_node = node, ww_hellos = [], ww_open = [], ww_now = now, ww_admitted = []\<rparr>"
| step: "wire_reachable exclusive env h cfg W \<Longrightarrow> wire_step exclusive env h W W' \<Longrightarrow> wire_reachable exclusive env h cfg W'"

lemma wire_reachable_steps:
  "wire_steps exclusive env h W W' \<Longrightarrow> wire_reachable exclusive env h cfg W \<Longrightarrow> wire_reachable exclusive env h cfg W'"
  by (induction rule: rtranclp.induct) (auto intro: wire_reachable.step)

lemma set_node_simps [simp]:
  "pnode_config (set_tracker nt node) = pnode_config node" "pnode_registry (set_tracker nt node) = pnode_registry node"
  "pnode_nonce_tracker (set_tracker nt node) = nt"
  "pnode_config (set_registry reg node) = pnode_config node" "pnode_registry (set_registry reg node) = reg"
  "pnode_nonce_tracker (set_registry reg node) = pnode_nonce_tracker node"
  "pnode_config (enter_peer t node) = pnode_config node"
  "pnode_nonce_tracker (enter_peer t node) = pnode_nonce_tracker node"
  by (simp_all add: set_tracker_def set_registry_def enter_peer_def)

text \<open>The steps of one handshake without interruption.\<close>

lemma hello_runs:
  assumes "check_and_record now (hl_nonce t) (pnode_nonce_tracker (ww_node W)) = (Inr (), nt)"
    and "identity_verified env (pnode_config (ww_node W)) (hl_nonce t) (hl_node_id t) (hl_tag t)"
    and "ww_hellos W = []" "ww_now W \<le> now"
  shows "wire_steps exclusive env h W
    (W\<lparr>ww_hellos := [], ww_node := enter_peer t (set_tracker nt (ww_node W)), ww_now := now,
       ww_open := (if hl_inbound t \<or> hl_keep t
                   then (hl_node_id t, hello_key env (pnode_config (ww_node W)) t) # ww_open W else ww_open W),
       ww_admitted := ww_admitted W @ [hello_admission now t]\<rparr>)"
proof -
  let ?nt1 = "nonce_sweep now (pnode_nonce_tracker (ww_node W))"
  have new: "\<not> nonce_seen (hl_nonce t) ?nt1" "nt = nonce_insert now (hl_nonce t) ?nt1"
    using assms(1) by (auto simp: check_and_record_def Let_def split: if_splits)
  obtain n hs op t0 adm where W: "W = \<lparr>ww_node = n, ww_hellos = hs, ww_open = op, ww_now = t0, ww_admitted = adm\<rparr>"
    by (cases W)
  define w where "w = (\<lambda>nd st tm. \<lparr>ww_node = nd, ww_hellos = [(t, st)], ww_open = op, ww_now = tm, ww_admitted = adm\<rparr>)"
  let ?n1 = "set_tracker ?nt1 n"
  have same: "set_tracker nt ?n1 = set_tracker nt n" by (simp add: set_tracker_def)
  have 1: "wire_step exclusive env h W (w n Arrived t0)"
    using wire_step.arrives [of "\<lparr>wmsg_id = [], wmsg_kind = hello_kind t\<rparr>" t exclusive env h W] assms(3)
    by (simp add: w_def W)
  have 2: "wire_step exclusive env h (w n Arrived t0) (w ?n1 (Swept now) now)"
    using wire_step.sweeps [of "w n Arrived t0" "[]" t "[]" exclusive now env h] assms(4) by (simp add: w_def W)
  have 3: "wire_step exclusive env h (w ?n1 (Swept now) now) (w ?n1 (Unseen now) now)"
    using wire_step.looks [of "w ?n1 (Swept now) now" "[]" t now "[]" exclusive env h] new(1) by (simp add: w_def W)
  have 4: "wire_step exclusive env h (w ?n1 (Unseen now) now) (w (set_tracker nt n) (Recorded now) now)"
    using wire_step.inserts [of "w ?n1 (Unseen now) now" "[]" t now "[]" exclusive env h] new(2) same
    by (simp add: w_def W)
  have 5: "wire_step exclusive env h (w (set_tracker nt n) (Recorded now) now) (w (set_tracker nt n) (Verified now) now)"
    using wire_step.verifies [of "w (set_tracker nt n) (Recorded now) now" "[]" t now "[]" env exclusive h] assms(2)
    by (simp add: w_def W)
  have 6: "wire_step exclusive env h (w (set_tracker nt n) (Verified now) now)
    (W\<lparr>ww_hellos := [], ww_node := enter_peer t (set_tracker nt (ww_node W)), ww_now := now,
       ww_open := (if hl_inbound t \<or> hl_keep t
                   then (hl_node_id t, hello_key env (pnode_config (ww_node W)) t) # ww_open W else ww_open W),
       ww_admitted := ww_admitted W @ [hello_admission now t]\<rparr>)"
    using wire_step.enters [of "w (set_tracker nt n) (Verified now) now" "[]" t now "[]" exclusive env h]
    by (simp add: w_def W cong: if_cong)
  show ?thesis
    by (rule converse_rtranclp_into_rtranclp, rule 1, rule converse_rtranclp_into_rtranclp, rule 2,
        rule converse_rtranclp_into_rtranclp, rule 3, rule converse_rtranclp_into_rtranclp, rule 4,
        rule converse_rtranclp_into_rtranclp, rule 5, rule r_into_rtranclp, rule 6)
qed

section \<open>The tracker\<close>

lemma map_of_filter_value:
  "distinct (map fst m) \<Longrightarrow>
    map_of (filter (\<lambda>(_, v). P v) m) k = (case map_of m k of Some v \<Rightarrow> if P v then Some v else None | None \<Rightarrow> None)"
  by (induction m) (auto simp: map_of_eq_None_iff image_iff split: option.splits)

text \<open>
  The nonces that were recorded for handshakes that are admitted or may still be, with the times of their checks:
  whatever is younger than the window is in the tracker.
\<close>

definition tracked :: "nat \<Rightarrow> nonce_tracker \<Rightarrow> (string \<times> nat) set \<Rightarrow> bool" where
  "tracked now nt A \<longleftrightarrow>
     nt_window nt = 300 \<and> st_wf (nt_seen nt)
     \<and> (\<forall>(n, s) \<in> A. s + 300 \<le> now \<or> (\<exists>ts. st_get (nt_seen nt) n = Some ts \<and> s \<le> ts))"

lemma sweep_tracked:
  assumes "tracked now nt A" "now \<le> now'"
  shows "tracked now' (nonce_sweep now' nt) A"
proof -
  have w: "nt_window nt = 300" "st_wf (nt_seen nt)" using assms(1) by (auto simp: tracked_def)
  let ?seen = "nt_seen (nonce_sweep now' nt)"
  have wf: "st_wf ?seen" using w(2) by (simp add: nonce_sweep_def st_wf_filter)
  have get: "st_get ?seen k = (case st_get (nt_seen nt) k of
      Some ts \<Rightarrow> if now' - ts < 300 then Some ts else None | None \<Rightarrow> None)" for k
    using w map_of_filter_value [of "nt_seen nt" "\<lambda>ts. now' - ts < 300" k] by (simp add: nonce_sweep_def st_wf_def)
  have "x + 300 \<le> now' \<or> (\<exists>ts. st_get ?seen n = Some ts \<and> x \<le> ts)" if "(n, x) \<in> A" for n x
  proof -
    have "x + 300 \<le> now \<or> (\<exists>ts. st_get (nt_seen nt) n = Some ts \<and> x \<le> ts)"
      using assms(1) that by (auto simp: tracked_def)
    then show ?thesis
    proof
      assume "x + 300 \<le> now"
      then show ?thesis using assms(2) by simp
    next
      assume "\<exists>ts. st_get (nt_seen nt) n = Some ts \<and> x \<le> ts"
      then obtain ts where "st_get (nt_seen nt) n = Some ts" "x \<le> ts" by blast
      then show ?thesis by (cases "now' - ts < 300") (auto simp: get)
    qed
  qed
  then show ?thesis using w wf by (auto simp: tracked_def) (simp add: nonce_sweep_def)
qed

text \<open>A nonce that is not seen was recorded at least five minutes before, if ever.\<close>

lemma unseen_tracked: "tracked now nt A \<Longrightarrow> \<not> nonce_seen n nt \<Longrightarrow> (n, s) \<in> A \<Longrightarrow> s + 300 \<le> now"
  by (auto simp: tracked_def nonce_seen_def)

lemma insert_tracked:
  assumes "tracked now nt A" "\<And>s. (n, s) \<in> A \<Longrightarrow> s + 300 \<le> now"
  shows "tracked now (nonce_insert now n nt) (insert (n, now) A)"
  using assms(1) assms(2) by (fastforce simp: tracked_def nonce_insert_def update_conv' al.wf_put)

lemma tracked_mono: "tracked now nt A \<Longrightarrow> B \<subseteq> A \<Longrightarrow> tracked now nt B"
  by (auto simp: tracked_def)

text \<open>A symmetric relation between the entries of a list does not depend on their order.\<close>

lemma sorted_wrt_any_order:
  assumes "mset xs = mset ys" "\<And>x y. R x y \<Longrightarrow> R y x" "sorted_wrt R xs"
  shows "sorted_wrt R ys"
  using assms
proof (induction xs arbitrary: ys)
  case (Cons x xs)
  then have "x \<in> set ys" using mset_eq_setD [OF Cons.prems(1)] by auto
  then obtain as bs where ys: "ys = as @ x # bs" by (meson split_list)
  then have m: "mset xs = mset (as @ bs)" using Cons.prems(1) by simp
  then have "set xs = set (as @ bs)" by (rule mset_eq_setD)
  moreover have "sorted_wrt R (as @ bs)" using Cons.IH [OF m] Cons.prems by simp
  ultimately show ?case using Cons.prems ys by (auto simp: sorted_wrt_append)
qed simp

lemma sorted_wrt_drop_middle: "sorted_wrt R (xs @ ys @ zs) \<Longrightarrow> sorted_wrt R (xs @ zs)"
  by (simp add: sorted_wrt_append)

section \<open>The effect of a handshake on the node\<close>

lemma answer_accepted:
  assumes "answer_handshake env h addr now wall ack_nonce msg node w = (Inr (peer, key), node', w')"
  obtains nid name version agents nonce nt
    where "wmsg_kind msg = WireRequest (Handshake nid name version agents nonce
        (hmac_sign env (pcfg_shared_secret (pnode_config node)) (nonce @ nid)))"
      "peer = nid" "version = PROTOCOL_VERSION"
      "check_and_record now nonce (pnode_nonce_tracker node) = (Inr (), nt)"
      "node' = node\<lparr>pnode_nonce_tracker := nt,
         pnode_registry := add_peer (peer_entry_of nid name addr agents wall version) (pnode_registry node)\<rparr>"
      "key = derive_session_key env (pcfg_shared_secret (pnode_config node)) nonce ack_nonce"
      "write_message env (handshake_ack env h (pnode_config node) (wmsg_id msg) ack_nonce) w = (Inr (), w')"
  using assms
  by (auto simp: answer_handshake_def Let_def identity_verified_def hmac_verify_def
      split: wire_message_kind.splits wire_request.splits if_splits prod.splits sum.splits)

lemma answer_accepts:
  assumes "wmsg_kind msg = WireRequest (Handshake nid name PROTOCOL_VERSION agents nonce
        (hmac_sign env (pcfg_shared_secret (pnode_config node)) (nonce @ nid)))"
    and "check_and_record now nonce (pnode_nonce_tracker node) = (Inr (), nt)"
    and "write_message env (handshake_ack env h (pnode_config node) (wmsg_id msg) ack_nonce) w = (Inr (), w')"
  shows "answer_handshake env h addr now wall ack_nonce msg node w
    = (Inr (nid, derive_session_key env (pcfg_shared_secret (pnode_config node)) nonce ack_nonce),
       node\<lparr>pnode_nonce_tracker := nt,
         pnode_registry := add_peer (peer_entry_of nid name addr agents wall PROTOCOL_VERSION) (pnode_registry node)\<rparr>, w')"
  using assms by (simp add: answer_handshake_def Let_def identity_verified_def hmac_verify_def)

lemma ack_accepted:
  assumes "check_ack env now our_nonce msg node = (Inr ack, node')"
  obtains nid name agents nonce nt
    where "wmsg_kind msg = WireResponse (HandshakeAck nid name PROTOCOL_VERSION agents nonce
        (hmac_sign env (pcfg_shared_secret (pnode_config node)) (nonce @ nid)))"
      "check_and_record now nonce (pnode_nonce_tracker node) = (Inr (), nt)"
      "node' = node\<lparr>pnode_nonce_tracker := nt\<rparr>"
      "ack = \<lparr>pack_node_id = nid, pack_node_name = name, pack_version = PROTOCOL_VERSION, pack_agents = agents,
         pack_key = derive_session_key env (pcfg_shared_secret (pnode_config node)) our_nonce nonce\<rparr>"
  using assms
  by (auto simp: check_ack_def Let_def identity_verified_def hmac_verify_def
      split: wire_message_kind.splits wire_response.splits if_splits prod.splits sum.splits)

lemma ack_accepts:
  assumes "wmsg_kind msg = WireResponse (HandshakeAck nid name PROTOCOL_VERSION agents nonce
        (hmac_sign env (pcfg_shared_secret (pnode_config node)) (nonce @ nid)))"
    and "check_and_record now nonce (pnode_nonce_tracker node) = (Inr (), nt)"
  shows "check_ack env now our_nonce msg node
    = (Inr \<lparr>pack_node_id = nid, pack_node_name = name, pack_version = PROTOCOL_VERSION, pack_agents = agents,
         pack_key = derive_session_key env (pcfg_shared_secret (pnode_config node)) our_nonce nonce\<rparr>,
       node\<lparr>pnode_nonce_tracker := nt\<rparr>)"
  using assms by (simp add: check_ack_def identity_verified_def hmac_verify_def)

text \<open>What the two functions that answer and check a handshake do is such a run.\<close>

lemma answered_handshake_runs:
  assumes "answer_handshake env h addr now wall ack_nonce msg (ww_node W) w = (Inr (peer, key), node', w')"
    and "ww_hellos W = []" "ww_now W \<le> now"
  shows "\<exists>a. adm_node a = peer \<and> adm_time a = now \<and> wire_steps exclusive env h W
    (W\<lparr>ww_hellos := [], ww_node := node', ww_now := now, ww_open := (peer, key) # ww_open W, ww_admitted := ww_admitted W @ [a]\<rparr>)"
  using answer_accepted [OF assms(1)]
proof cases
  case (1 nid name version agents nonce nt)
  define t where "t = \<lparr>hl_inbound = True, hl_keep = True, hl_addr = addr, hl_wall = wall, hl_own_nonce = ack_nonce,
    hl_node_id = nid, hl_name = name, hl_agents = agents, hl_nonce = nonce,
    hl_tag = hmac_sign env (pcfg_shared_secret (pnode_config (ww_node W))) (nonce @ nid)\<rparr>"
  have "enter_peer t (set_tracker nt (ww_node W)) = node'"
    using 1 by (simp add: t_def enter_peer_def set_registry_def set_tracker_def)
  moreover have "hello_key env (pnode_config (ww_node W)) t = key" using 1 by (simp add: t_def hello_key_def)
  moreover have "identity_verified env (pnode_config (ww_node W)) (hl_nonce t) (hl_node_id t) (hl_tag t)"
    by (simp add: t_def identity_verified_def hmac_verify_def)
  ultimately show ?thesis
    using hello_runs [of now t W nt env exclusive h] 1 assms(2,3)
    by (intro exI [of _ "hello_admission now t"]) (simp add: t_def hello_admission_def)
qed

lemma checked_ack_runs:
  assumes "check_ack env now our_nonce msg (ww_node W) = (Inr ack, node')"
    and "ww_hellos W = []" "ww_now W \<le> now"
  shows "\<exists>a. adm_node a = pack_node_id ack \<and> adm_time a = now \<and> wire_steps exclusive env h W
    (W\<lparr>ww_hellos := [], ww_node := set_registry (add_peer (peer_entry_of (pack_node_id ack) (pack_node_name ack) addr (pack_agents ack) wall
         (pack_version ack)) (pnode_registry node')) node', ww_now := now,
       ww_open := (pack_node_id ack, pack_key ack) # ww_open W, ww_admitted := ww_admitted W @ [a]\<rparr>)"
  using ack_accepted [OF assms(1)]
proof cases
  case (1 nid name agents nonce nt)
  define t where "t = \<lparr>hl_inbound = False, hl_keep = True, hl_addr = addr, hl_wall = wall, hl_own_nonce = our_nonce,
    hl_node_id = nid, hl_name = name, hl_agents = agents, hl_nonce = nonce,
    hl_tag = hmac_sign env (pcfg_shared_secret (pnode_config (ww_node W))) (nonce @ nid)\<rparr>"
  have "identity_verified env (pnode_config (ww_node W)) (hl_nonce t) (hl_node_id t) (hl_tag t)"
    by (simp add: t_def identity_verified_def hmac_verify_def)
  then show ?thesis
    using hello_runs [of now t W nt env exclusive h] 1 assms(2,3)
    by (intro exI [of _ "hello_admission now t"])
       (simp add: t_def hello_admission_def enter_peer_def set_registry_def set_tracker_def hello_key_def)
qed

section \<open>What the handshake guarantees\<close>

definition admits :: "wire_codec \<Rightarrow> peer_config \<Rightarrow> admission list \<Rightarrow> string \<Rightarrow> bool" where
  "admits env cfg adm nid \<longleftrightarrow>
     (\<exists>a \<in> set adm. adm_node a = nid \<and> adm_tag a = hmac_sign env (pcfg_shared_secret cfg) (adm_nonce a @ nid))"

definition digest_ok :: "wire_codec \<Rightarrow> peer_config \<Rightarrow> hello \<times> hello_stage \<Rightarrow> bool" where
  "digest_ok env cfg x =
     (case snd x of
        Verified _ \<Rightarrow> identity_verified env cfg (hl_nonce (fst x)) (hl_node_id (fst x)) (hl_tag (fst x))
      | _ \<Rightarrow> True)"

definition wire_inv :: "wire_codec \<Rightarrow> peer_config \<Rightarrow> wire_world \<Rightarrow> bool" where
  "wire_inv env cfg W \<longleftrightarrow>
     pnode_config (ww_node W) = cfg
     \<and> (\<forall>nid. st_get (pnode_registry (ww_node W)) nid \<noteq> None \<longrightarrow> admits env cfg (ww_admitted W) nid)
     \<and> (\<forall>x \<in> set (ww_hellos W). digest_ok env cfg x)"

lemma admits_more: "admits env cfg adm nid \<Longrightarrow> admits env cfg (adm @ zs) nid"
  by (auto simp: admits_def)

lemma admits_hello:
  "identity_verified env cfg (hl_nonce t) (hl_node_id t) (hl_tag t)
    \<Longrightarrow> admits env cfg (adm @ [hello_admission now t]) (hl_node_id t)"
  by (auto simp: admits_def hello_admission_def identity_verified_def hmac_verify_def)

lemma enter_peer_get:
  "st_get (pnode_registry (enter_peer t node)) k \<noteq> None
    \<Longrightarrow> k = hl_node_id t \<or> st_get (pnode_registry node) k \<noteq> None"
  by (auto simp: enter_peer_def set_registry_def get_add_peer peer_entry_of_def split: if_splits)

lemma wire_inv_keep:
  assumes "wire_inv env cfg W" "pnode_config (ww_node W') = pnode_config (ww_node W)"
    and "\<And>k. st_get (pnode_registry (ww_node W')) k \<noteq> None \<Longrightarrow> st_get (pnode_registry (ww_node W)) k \<noteq> None"
    and "ww_admitted W' = ww_admitted W"
    and "\<And>x. x \<in> set (ww_hellos W') \<Longrightarrow> x \<in> set (ww_hellos W) \<or> digest_ok env cfg x"
  shows "wire_inv env cfg W'"
  unfolding wire_inv_def
proof (intro conjI allI impI ballI)
  show "pnode_config (ww_node W') = cfg" using assms(1,2) by (simp add: wire_inv_def)
  show "admits env cfg (ww_admitted W') k" if "st_get (pnode_registry (ww_node W')) k \<noteq> None" for k
    using assms(1,4) assms(3) [OF that] by (simp add: wire_inv_def)
  show "digest_ok env cfg x" if "x \<in> set (ww_hellos W')" for x
    using assms(1) assms(5) [OF that] by (auto simp: wire_inv_def)
qed

lemma wire_inv_step:
  assumes "wire_step exclusive env h W W'" "wire_inv env cfg W"
  shows "wire_inv env cfg W'"
  using assms
proof (induction rule: wire_step.induct)
  case (enters W xs t now ys)
  have tag: "identity_verified env cfg (hl_nonce t) (hl_node_id t) (hl_tag t)"
    using enters by (simp add: wire_inv_def digest_ok_def)
  have "admits env cfg (ww_admitted W @ [hello_admission now t]) k"
    if "st_get (pnode_registry (enter_peer t (ww_node W))) k \<noteq> None" for k
    using enter_peer_get [OF that]
  proof
    assume "st_get (pnode_registry (ww_node W)) k \<noteq> None"
    then show ?thesis using enters.prems admits_more by (simp add: wire_inv_def)
  qed (simp add: admits_hello [OF tag])
  then show ?case using enters by (simp add: wire_inv_def)
next
  case (verifies W xs t now ys)
  then have "digest_ok env cfg (t, Verified now)" by (simp add: digest_ok_def wire_inv_def)
  then show ?case by (intro wire_inv_keep [OF verifies.prems]) (use verifies.hyps in auto)
next
  case (message peer key W c msg r' res c')
  have "(st_get (cn_registry c') k = None) = (st_get (pnode_registry (ww_node W)) k = None)" for k
    using dispatch_keeps_keys [OF message.hyps(4)] message.hyps(3) by simp
  then show ?case by (intro wire_inv_keep [OF message.prems]) simp_all
next
  case (closed peer key W)
  then show ?case
    by (intro wire_inv_keep [OF closed.prems]) (auto simp: mark_disconnected_def get_on_peer split: if_splits)
next
  case (arrives msg t W)
  then show ?case by (intro wire_inv_keep [OF arrives.prems]) (auto simp: digest_ok_def)
next
  case (sweeps W xs t ys now)
  then show ?case by (intro wire_inv_keep [OF sweeps.prems]) (auto simp: digest_ok_def)
next
  case (looks W xs t now ys)
  then show ?case by (intro wire_inv_keep [OF looks.prems]) (auto simp: digest_ok_def)
next
  case (inserts W xs t now ys)
  then show ?case by (intro wire_inv_keep [OF inserts.prems]) (auto simp: digest_ok_def)
next
  case (gives_up W xs x ys)
  then show ?case by (intro wire_inv_keep [OF gives_up.prems]) auto
qed

lemma wire_reachable_inv: "wire_reachable exclusive env h cfg W \<Longrightarrow> wire_inv env cfg W"
proof (induction rule: wire_reachable.induct)
  case (start addr now node)
  then show ?case by (auto simp: start_node_def wire_inv_def split: if_splits)
next
  case (step W W')
  then show ?case by (blast intro: wire_inv_step)
qed

text \<open>The nonces recorded so far: those of admitted handshakes and those of handshakes that can still be admitted.\<close>

definition pending :: "hello \<times> hello_stage \<Rightarrow> (string \<times> nat) list" where
  "pending x = (case snd x of Recorded now \<Rightarrow> [(hl_nonce (fst x), now)] | Verified now \<Rightarrow> [(hl_nonce (fst x), now)] | _ \<Rightarrow> [])"

definition recorded :: "wire_world \<Rightarrow> (string \<times> nat) list" where
  "recorded W = map (\<lambda>a. (adm_nonce a, adm_time a)) (ww_admitted W) @ concat (map pending (ww_hellos W))"

definition apart :: "string \<times> nat \<Rightarrow> string \<times> nat \<Rightarrow> bool" where
  "apart x y \<longleftrightarrow> (fst x = fst y \<longrightarrow> snd x + 300 \<le> snd y \<or> snd y + 300 \<le> snd x)"

lemma apart_any_order: "mset xs = mset ys \<Longrightarrow> sorted_wrt apart xs \<Longrightarrow> sorted_wrt apart ys"
  by (erule sorted_wrt_any_order) (auto simp: apart_def)

text \<open>Where the one connection that is checking a nonce stands.\<close>

definition check_ok :: "wire_world \<Rightarrow> hello \<times> hello_stage \<Rightarrow> bool" where
  "check_ok W x =
     (case snd x of
        Swept now \<Rightarrow> now = ww_now W
      | Unseen now \<Rightarrow> now = ww_now W \<and> (\<forall>s. (hl_nonce (fst x), s) \<in> set (recorded W) \<longrightarrow> s + 300 \<le> now)
      | _ \<Rightarrow> True)"

definition exclusive_inv :: "wire_world \<Rightarrow> bool" where
  "exclusive_inv W \<longleftrightarrow>
     tracked (ww_now W) (pnode_nonce_tracker (ww_node W)) (set (recorded W)) \<and> sorted_wrt apart (recorded W)
     \<and> length (filter in_check (ww_hellos W)) \<le> 1 \<and> (\<forall>x \<in> set (ww_hellos W). check_ok W x)"

text \<open>A step that records nothing new keeps the invariant if it checks nothing new.\<close>

lemma exclusive_keep:
  assumes "exclusive_inv W" "ww_now W' = ww_now W"
    and "pnode_nonce_tracker (ww_node W') = pnode_nonce_tracker (ww_node W)"
    and "sorted_wrt apart (recorded W')" "set (recorded W') \<subseteq> set (recorded W)"
    and "length (filter in_check (ww_hellos W')) \<le> 1" "\<And>x. x \<in> set (ww_hellos W') \<Longrightarrow> check_ok W' x \<or> x \<in> set (ww_hellos W)"
  shows "exclusive_inv W'"
proof -
  have "check_ok W' x" if "x \<in> set (ww_hellos W')" for x
    using assms(7) [OF that]
  proof
    assume "x \<in> set (ww_hellos W)"
    then have "check_ok W x" using assms(1) by (simp add: exclusive_inv_def)
    then show ?thesis using assms(2,5) by (auto simp: check_ok_def split: hello_stage.splits)
  qed
  then show ?thesis using assms tracked_mono by (auto simp: exclusive_inv_def)
qed

lemmas one_connection = recorded_def pending_def in_check_def check_ok_def

lemma no_other_in_check:
  assumes "exclusive_inv W" "ww_hellos W = xs @ x # ys" "in_check x" "y \<in> set xs \<union> set ys"
  shows "\<not> in_check y"
  using assms by (auto simp: exclusive_inv_def filter_empty_conv)

lemma exclusive_step:
  assumes "wire_step True env h W W'" "exclusive_inv W"
  shows "exclusive_inv W'"
  using assms
proof (induction rule: wire_step.induct)
  case (arrives msg t W)
  show ?case
    by (rule exclusive_keep [OF arrives.prems])
       (use arrives.prems in \<open>auto simp: one_connection exclusive_inv_def\<close>)
next
  case (sweeps W xs t ys now)
  let ?W = "W\<lparr>ww_node := set_tracker (nonce_sweep now (pnode_nonce_tracker (ww_node W))) (ww_node W),
             ww_hellos := xs @ (t, Swept now) # ys, ww_now := now\<rparr>"
  have r: "recorded ?W = recorded W" using sweeps.hyps by (simp add: recorded_def pending_def)
  have n: "\<not> in_check y" if "y \<in> set xs \<union> set ys" for y using sweeps.hyps that by (auto simp: list_ex_iff)
  then have "filter in_check xs = []" "filter in_check ys = []" by (auto simp: filter_empty_conv)
  moreover have "check_ok ?W y" if "y \<in> set xs \<union> set ys" for y
    using n [OF that] by (auto simp: in_check_def check_ok_def split: hello_stage.splits)
  moreover have "check_ok ?W (t, Swept now)" by (simp add: check_ok_def)
  ultimately show ?case
    using sweeps sweep_tracked r by (auto simp: exclusive_inv_def)
next
  case (looks W xs t now ys)
  have tr: "tracked (ww_now W) (pnode_nonce_tracker (ww_node W)) (set (recorded W))"
    using looks.prems by (simp add: exclusive_inv_def)
  have now: "now = ww_now W" using looks by (auto simp: exclusive_inv_def check_ok_def)
  have r: "recorded (W\<lparr>ww_hellos := xs @ (t, Unseen now) # ys\<rparr>) = recorded W"
    using looks.hyps by (simp add: recorded_def pending_def)
  show ?case
    by (rule exclusive_keep [OF looks.prems])
       (use looks r now unseen_tracked [OF tr looks.hyps(2)] in
         \<open>auto simp: exclusive_inv_def check_ok_def in_check_def\<close>)
next
  case (inserts W xs t now ys)
  let ?W = "W\<lparr>ww_node := set_tracker (nonce_insert now (hl_nonce t) (pnode_nonce_tracker (ww_node W))) (ww_node W),
             ww_hellos := xs @ (t, Recorded now) # ys\<rparr>"
  have now: "now = ww_now W" "\<And>s. (hl_nonce t, s) \<in> set (recorded W) \<Longrightarrow> s + 300 \<le> now"
    using inserts by (auto simp: exclusive_inv_def check_ok_def)
  have m: "mset ((hl_nonce t, now) # recorded W) = mset (recorded ?W)"
    using inserts.hyps by (simp add: recorded_def pending_def)
  have set: "set (recorded ?W) = insert (hl_nonce t, now) (set (recorded W))"
    using mset_eq_setD [OF m] by simp
  have "tracked (ww_now W) (nonce_insert (ww_now W) (hl_nonce t) (pnode_nonce_tracker (ww_node W))) (set (recorded ?W))"
    unfolding set unfolding now(1) by (rule insert_tracked) (use inserts.prems now in \<open>simp_all add: exclusive_inv_def\<close>)
  moreover have new: "\<forall>y \<in> set (recorded W). apart (hl_nonce t, now) y" using now(2) by (auto simp: apart_def)
  have "sorted_wrt apart (recorded W)" using inserts.prems by (simp add: exclusive_inv_def)
  then have "sorted_wrt apart ((hl_nonce t, now) # recorded W)" using new by simp
  then have "sorted_wrt apart (recorded ?W)" by (rule apart_any_order [OF m])
  moreover have n: "\<not> in_check y" if "y \<in> set xs \<union> set ys" for y
    by (rule no_other_in_check [OF inserts.prems inserts.hyps _ that]) (simp add: in_check_def)
  then have "filter in_check xs = []" "filter in_check ys = []" by (auto simp: filter_empty_conv)
  moreover have "check_ok ?W y" if "y \<in> set xs \<union> set ys" for y
    using n [OF that] by (auto simp: in_check_def check_ok_def split: hello_stage.splits)
  moreover have "check_ok ?W (t, Recorded now)" "\<not> in_check (t, Recorded now)" by (simp_all add: check_ok_def in_check_def)
  ultimately show ?case using now by (auto simp: exclusive_inv_def)
next
  case (verifies W xs t now ys)
  have r: "recorded (W\<lparr>ww_hellos := xs @ (t, Verified now) # ys\<rparr>) = recorded W"
    using verifies.hyps by (simp add: recorded_def pending_def)
  show ?case
    by (rule exclusive_keep [OF verifies.prems])
       (use verifies r in \<open>auto simp: exclusive_inv_def check_ok_def in_check_def\<close>)
next
  case (enters W xs t now ys)
  let ?W = "W\<lparr>ww_node := enter_peer t (ww_node W), ww_hellos := xs @ ys,
             ww_open := (if hl_inbound t \<or> hl_keep t
                         then (hl_node_id t, hello_key env (pnode_config (ww_node W)) t) # ww_open W else ww_open W),
             ww_admitted := ww_admitted W @ [hello_admission now t]\<rparr>"
  have m: "mset (recorded W) = mset (recorded ?W)"
    using enters.hyps by (simp add: recorded_def pending_def hello_admission_def)
  have "sorted_wrt apart (recorded ?W)"
    by (rule apart_any_order [OF m]) (use enters.prems in \<open>simp add: exclusive_inv_def\<close>)
  then show ?case
    by (intro exclusive_keep [OF enters.prems])
       (use enters mset_eq_setD [OF m] in \<open>auto simp: exclusive_inv_def in_check_def [of "(t, Verified now)"]\<close>)
next
  case (gives_up W xs x ys)
  have r: "recorded W = (map (\<lambda>a. (adm_nonce a, adm_time a)) (ww_admitted W) @ concat (map pending xs)) @ pending x
      @ concat (map pending ys)"
    "recorded (W\<lparr>ww_hellos := xs @ ys\<rparr>) = (map (\<lambda>a. (adm_nonce a, adm_time a)) (ww_admitted W)
      @ concat (map pending xs)) @ concat (map pending ys)"
    using gives_up.hyps by (simp_all add: recorded_def)
  have "sorted_wrt apart (recorded (W\<lparr>ww_hellos := xs @ ys\<rparr>))"
    unfolding r(2) by (rule sorted_wrt_drop_middle [of _ _ "pending x"])
      (use gives_up.prems r(1) in \<open>simp add: exclusive_inv_def\<close>)
  then show ?case
    by (intro exclusive_keep [OF gives_up.prems])
       (use gives_up r in \<open>auto simp: exclusive_inv_def split: if_splits\<close>)
next
  case (message peer key W c msg r' res c')
  show ?case
    by (rule exclusive_keep [OF message.prems])
       (use message.prems in \<open>auto simp: exclusive_inv_def recorded_def\<close>)
next
  case (closed peer key W)
  show ?case
    by (rule exclusive_keep [OF closed.prems])
       (use closed.prems in \<open>auto simp: exclusive_inv_def recorded_def\<close>)
qed

lemma exclusive_reachable: "wire_reachable True env h cfg W \<Longrightarrow> exclusive_inv W"
proof (induction rule: wire_reachable.induct)
  case (start addr now node)
  then show ?case
    by (auto simp: start_node_def exclusive_inv_def recorded_def tracked_def nonce_tracker_new_def split: if_splits)
next
  case (step W W')
  then show ?case by (blast intro: exclusive_step)
qed

text \<open>
  C30. However the steps of connections interleave, a peer is in the registry of a node only if a
  handshake for its identity was accepted that carried the digest of nonce and identity under the shared
  secret. In an exclusive run, one in which the check of one nonce is not interrupted by the check of another and the
  clock does not go back, two accepted handshakes with the same nonce were moreover checked at least five minutes
  apart, whatever else interleaves. The next lemma shows that this is lost when two checks overlap, as they can.
\<close>

theorem only_key_holders_admitted:
  assumes "wire_reachable exclusive env h cfg W"
  shows "(\<forall>nid. get_peer nid (pnode_registry (ww_node W)) \<noteq> None \<longrightarrow>
            (\<exists>a \<in> set (ww_admitted W). adm_node a = nid
               \<and> adm_tag a = hmac_sign env (pcfg_shared_secret cfg) (adm_nonce a @ nid)))
    \<and> (exclusive \<longrightarrow>
         sorted_wrt (\<lambda>a b. adm_nonce a = adm_nonce b
           \<longrightarrow> adm_time a + 300 \<le> adm_time b \<or> adm_time b + 300 \<le> adm_time a) (ww_admitted W))"
proof (intro conjI impI)
  show "\<forall>nid. get_peer nid (pnode_registry (ww_node W)) \<noteq> None \<longrightarrow>
      (\<exists>a \<in> set (ww_admitted W). adm_node a = nid
         \<and> adm_tag a = hmac_sign env (pcfg_shared_secret cfg) (adm_nonce a @ nid))"
    using wire_reachable_inv [OF assms] by (simp add: wire_inv_def get_peer_def admits_def)
  assume exclusive
  then have "exclusive_inv W" using exclusive_reachable assms by simp
  then show "sorted_wrt (\<lambda>a b. adm_nonce a = adm_nonce b
      \<longrightarrow> adm_time a + 300 \<le> adm_time b \<or> adm_time b + 300 \<le> adm_time a) (ww_admitted W)"
    by (simp add: exclusive_inv_def recorded_def sorted_wrt_append sorted_wrt_map apart_def)
qed

text \<open>
  Two connections with the same handshake that both look its nonce up before either inserts it are both
  admitted, at the same instant.
\<close>

lemma concurrent_replays_both_admitted:
  assumes "wire_reachable False env h cfg W" "ww_hellos W = []"
    and "\<not> nonce_seen (hl_nonce t) (nonce_sweep now (pnode_nonce_tracker (ww_node W)))"
    and "identity_verified env (pnode_config (ww_node W)) (hl_nonce t) (hl_node_id t) (hl_tag t)"
  shows "\<exists>W'. wire_reachable False env h cfg W'
    \<and> ww_admitted W' = ww_admitted W @ [hello_admission now t, hello_admission now t]"
proof -
  obtain n op t0 adm where W: "W = \<lparr>ww_node = n, ww_hellos = [], ww_open = op, ww_now = t0, ww_admitted = adm\<rparr>"
    using assms(2) by (cases W) simp
  define w where "w = (\<lambda>nd st1 st2 tm. \<lparr>ww_node = nd, ww_hellos = [(t, st1), (t, st2)], ww_open = op, ww_now = tm,
    ww_admitted = adm\<rparr>)"
  let ?n1 = "set_tracker (nonce_sweep now (pnode_nonce_tracker n)) n"
  have twice: "nonce_sweep now (nonce_sweep now (pnode_nonce_tracker n)) = nonce_sweep now (pnode_nonce_tracker n)"
    by (simp add: nonce_sweep_def)
  have new: "\<not> nonce_seen (hl_nonce t) (nonce_sweep now (pnode_nonce_tracker n))" using assms(3) by (simp add: W)
  let ?n2 = "set_tracker (nonce_insert now (hl_nonce t) (pnode_nonce_tracker ?n1)) ?n1"
  let ?n3 = "set_tracker (nonce_insert now (hl_nonce t) (pnode_nonce_tracker ?n2)) ?n2"
  have "wire_steps False env h W (w n Arrived Arrived t0)"
    using wire_step.arrives [of "\<lparr>wmsg_id = [], wmsg_kind = hello_kind t\<rparr>" t False env h W]
      wire_step.arrives [of "\<lparr>wmsg_id = [], wmsg_kind = hello_kind t\<rparr>" t False env h "W\<lparr>ww_hellos := [(t, Arrived)]\<rparr>"]
    by (simp add: W w_def converse_rtranclp_into_rtranclp r_into_rtranclp)
  moreover have "wire_step False env h (w n Arrived Arrived t0) (w ?n1 (Swept now) Arrived now)"
    using wire_step.sweeps [of "w n Arrived Arrived t0" "[]" t "[(t, Arrived)]" False now env h] by (simp add: w_def)
  moreover have "wire_step False env h (w ?n1 (Swept now) Arrived now) (w ?n1 (Unseen now) Arrived now)"
    using wire_step.looks [of "w ?n1 (Swept now) Arrived now" "[]" t now "[(t, Arrived)]" False env h] new
    by (simp add: w_def)
  moreover have "wire_step False env h (w ?n1 (Unseen now) Arrived now) (w ?n1 (Unseen now) (Swept now) now)"
    using wire_step.sweeps [of "w ?n1 (Unseen now) Arrived now" "[(t, Unseen now)]" t "[]" False now env h] twice
    by (simp add: w_def set_tracker_def)
  moreover have "wire_step False env h (w ?n1 (Unseen now) (Swept now) now) (w ?n1 (Unseen now) (Unseen now) now)"
    using wire_step.looks [of "w ?n1 (Unseen now) (Swept now) now" "[(t, Unseen now)]" t now "[]" False env h] new
    by (simp add: w_def)
  moreover have "wire_step False env h (w ?n1 (Unseen now) (Unseen now) now) (w ?n2 (Recorded now) (Unseen now) now)"
    using wire_step.inserts [of "w ?n1 (Unseen now) (Unseen now) now" "[]" t now "[(t, Unseen now)]" False env h]
    by (simp add: w_def)
  moreover have "wire_step False env h (w ?n2 (Recorded now) (Unseen now) now) (w ?n3 (Recorded now) (Recorded now) now)"
    using wire_step.inserts [of "w ?n2 (Recorded now) (Unseen now) now" "[(t, Recorded now)]" t now "[]" False env h]
    by (simp add: w_def)
  moreover have "wire_step False env h (w ?n3 (Recorded now) (Recorded now) now) (w ?n3 (Verified now) (Recorded now) now)"
    using wire_step.verifies [of "w ?n3 (Recorded now) (Recorded now) now" "[]" t now "[(t, Recorded now)]" env False h] assms(4)
    by (simp add: w_def W)
  moreover have "wire_step False env h (w ?n3 (Verified now) (Recorded now) now) (w ?n3 (Verified now) (Verified now) now)"
    using wire_step.verifies [of "w ?n3 (Verified now) (Recorded now) now" "[(t, Verified now)]" t now "[]" env False h] assms(4)
    by (simp add: w_def W)
  moreover obtain V1 where "wire_step False env h (w ?n3 (Verified now) (Verified now) now) V1"
      "ww_hellos V1 = [(t, Verified now)]" "ww_admitted V1 = adm @ [hello_admission now t]"
    using wire_step.enters [of "w ?n3 (Verified now) (Verified now) now" "[]" t now "[(t, Verified now)]" False env h]
    by (simp add: w_def)
  moreover from this(2) obtain V2 where "wire_step False env h V1 V2" "ww_admitted V2 = ww_admitted V1 @ [hello_admission now t]"
    using wire_step.enters [of V1 "[]" t now "[]" False env h] by simp
  ultimately have "wire_steps False env h W V2" "ww_admitted V2 = adm @ [hello_admission now t, hello_admission now t]"
    by (meson rtranclp.rtrancl_into_rtrancl, simp)
  then show ?thesis using wire_reachable_steps [OF _ assms(1)] W by auto
qed

section \<open>A concrete codec for the examples\<close>

definition toy_sign :: "string \<Rightarrow> string \<Rightarrow> string" where
  "toy_sign k d = map (\<lambda>c. if (of_char c :: nat) < 128 then c else CHR ''?'')
     (take 64 (k @ ''/'' @ d @ replicate 64 CHR ''0''))"

definition toy_codec :: "(wire_message \<times> string) list \<Rightarrow> wire_codec" where
  "toy_codec table =
     \<lparr>wc_to_vec = (\<lambda>m. case map_of table m of Some j \<Rightarrow> Inr j | None \<Rightarrow> Inl ''no text''),
      wc_from_slice = (\<lambda>j. case find (\<lambda>(_, t). t = j) table of
                             Some (m, _) \<Rightarrow> Inr m | None \<Rightarrow> Inl ''trailing characters''),
      wc_hmac = (\<lambda>k d. take 64 (k @ ''/'' @ d @ replicate 64 CHR ''0'')),
      wc_hex = map (\<lambda>c. if (of_char c :: nat) < 128 then c else CHR ''?'')\<rparr>"

lemma toy_hmac_sign [simp]: "hmac_sign (toy_codec table) k d = toy_sign k d"
  by (simp add: hmac_sign_def toy_codec_def toy_sign_def)

lemma toy_digest: "digest_is_hex (toy_codec table)"
  by (auto simp: digest_is_hex_def toy_sign_def HMAC_HEX_LEN_def)

definition toy_cfg :: "string \<Rightarrow> peer_config" where
  "toy_cfg nid = \<lparr>pcfg_listen_addr = ''l'', pcfg_node_id = nid, pcfg_node_name = nid, pcfg_shared_secret = ''k''\<rparr>"

definition toy_handle :: peer_handle where
  "toy_handle = \<lparr>phd_local_agents = [], phd_handle_agent_message = (\<lambda>a m s. Inr (''re: '' @ m)),
     phd_discover_agents = (\<lambda>_. []), phd_uptime_secs = 7\<rparr>"

definition toy_node :: "string \<Rightarrow> peer_registry \<Rightarrow> peer_node" where
  "toy_node nid reg = \<lparr>pnode_config = toy_cfg nid, pnode_registry = reg, pnode_local_addr = nid,
     pnode_start_time = 0, pnode_nonce_tracker = nonce_tracker_new, pnode_session_key = None\<rparr>"

definition toy_hello :: "string \<Rightarrow> string \<Rightarrow> wire_message" where
  "toy_hello nonce nid = \<lparr>wmsg_id = ''1'', wmsg_kind = WireRequest (Handshake nid nid PROTOCOL_VERSION [] nonce
     (toy_sign ''k'' (nonce @ nid)))\<rparr>"

definition toy_ack :: "string \<Rightarrow> string \<Rightarrow> wire_message" where
  "toy_ack nonce nid = \<lparr>wmsg_id = ''1'', wmsg_kind = WireResponse (HandshakeAck nid nid PROTOCOL_VERSION [] nonce
     (toy_sign ''k'' (nonce @ nid)))\<rparr>"

lemma toy_messages:
  "handshake_request (toy_codec table) toy_handle (toy_cfg nid) ''1'' nonce = toy_hello nonce nid"
  "handshake_ack (toy_codec table) toy_handle (toy_cfg nid) ''1'' nonce = toy_ack nonce nid"
  by (simp_all add: handshake_request_def handshake_ack_def toy_hello_def toy_ack_def toy_cfg_def toy_handle_def
      sign_identity_def)

definition toy_table :: "(wire_message \<times> string) list" where
  "toy_table = [(toy_hello ''n'' ''xa'', ''{hello}''), (toy_hello ''nx'' ''a'', ''{hello again}''),
     (toy_ack ''m'' ''b'', ''{ack}''), (agent_message ''2'' ''coder'' ''hi'' None, ''{ask}''),
     (\<lparr>wmsg_id = ''2'', wmsg_kind = WireResponse (AgentResponse ''re: hi'')\<rparr>, ''{answer}''),
     (\<lparr>wmsg_id = ''9'', wmsg_kind = WireNotification ShuttingDown\<rparr>, ''{bye}'')]"

lemma toy_codec_inverts: "m \<in> set (map fst toy_table) \<Longrightarrow> codec_inverts (toy_codec toy_table) m"
  by (auto simp: toy_table_def codec_inverts_def toy_codec_def toy_hello_def toy_ack_def agent_message_def
      HMAC_HEX_LEN_def MAX_MESSAGE_SIZE_def)

lemma toy_accepts:
  assumes "toy_hello nonce nid \<in> set (map fst toy_table)"
    and "fst (check_and_record now nonce (pnode_nonce_tracker node)) = Inr ()" "pnode_config node = toy_cfg ''b''"
  shows "answer_handshake (toy_codec toy_table) toy_handle addr now wall ''m'' (toy_hello nonce nid) node (open_writer [])
    = (Inr (nid, toy_sign ''k'' (nonce @ ''m'')),
       node\<lparr>pnode_nonce_tracker := snd (check_and_record now nonce (pnode_nonce_tracker node)),
         pnode_registry := add_peer (peer_entry_of nid nid addr [] wall PROTOCOL_VERSION) (pnode_registry node)\<rparr>,
       open_writer (frame_of (toy_codec toy_table) (toy_ack ''m'' ''b'')))"
proof -
  have a: "codec_inverts (toy_codec toy_table) (toy_ack ''m'' ''b'')"
    by (rule toy_codec_inverts) (simp add: toy_table_def)
  have c: "check_and_record now nonce (pnode_nonce_tracker node)
      = (Inr (), snd (check_and_record now nonce (pnode_nonce_tracker node)))"
    using assms(2) by (simp add: prod_eq_iff)
  have i: "wmsg_id (toy_hello nonce nid) = ''1''" by (simp add: toy_hello_def)
  have w: "write_message (toy_codec toy_table)
      (handshake_ack (toy_codec toy_table) toy_handle (pnode_config node) (wmsg_id (toy_hello nonce nid)) ''m'')
      (open_writer []) = (Inr (), open_writer (frame_of (toy_codec toy_table) (toy_ack ''m'' ''b'')))"
    using write_message_frame [OF a, of "[]"] by (simp add: assms(3) i toy_messages)
  show ?thesis
    by (subst answer_accepts [OF _ c w])
       (simp_all add: toy_hello_def assms(3) toy_cfg_def derive_session_key_def)
qed

lemma toy_fresh: "fst (check_and_record now nonce nonce_tracker_new) = Inr ()"
  by (simp add: check_and_record_def nonce_sweep_def nonce_seen_def nonce_insert_def nonce_tracker_new_def)

theorem only_key_holders_admitted_witness:
  "\<exists>W. wire_reachable True (toy_codec toy_table) toy_handle (toy_cfg ''b'') W
     \<and> get_peer ''xa'' (pnode_registry (ww_node W)) \<noteq> None
     \<and> (\<exists>a \<in> set (ww_admitted W). adm_node a = ''xa'' \<and> adm_tag a = toy_sign ''k'' (adm_nonce a @ ''xa''))"
proof -
  let ?env = "toy_codec toy_table"
  let ?W = "\<lparr>ww_node = toy_node ''b'' [], ww_hellos = [], ww_open = [], ww_now = 0, ww_admitted = []\<rparr>"
  have s: "wire_reachable True ?env toy_handle (toy_cfg ''b'') ?W"
    by (rule wire_reachable.start [where addr = "''b''"]) (simp add: start_node_def toy_cfg_def toy_node_def)
  have m: "toy_hello ''n'' ''xa'' \<in> set (map fst toy_table)" by (simp add: toy_table_def)
  obtain node' w' where ok: "answer_handshake ?env toy_handle ''q'' 5 0 ''m'' (toy_hello ''n'' ''xa'') (ww_node ?W)
        (open_writer []) = (Inr (''xa'', toy_sign ''k'' (''n'' @ ''m'')), node', w')"
      and reg: "get_peer ''xa'' (pnode_registry node') \<noteq> None"
    using toy_accepts [OF m, of 5 "toy_node ''b'' []" "''q''" 0]
    by (simp add: toy_node_def toy_fresh get_peer_def get_add_peer peer_entry_of_def)
  from answered_handshake_runs [OF ok, of True] obtain W where
    W: "wire_steps True ?env toy_handle ?W W" "ww_node W = node'" by fastforce
  have "wire_reachable True ?env toy_handle (toy_cfg ''b'') W" by (rule wire_reachable_steps [OF W(1) s])
  then show ?thesis using only_key_holders_admitted [of True ?env toy_handle "toy_cfg ''b''" W] reg W(2)
    by (auto simp: toy_cfg_def)
qed

section \<open>What the handshake does not guarantee\<close>

text \<open>
  C32. The digest covers nonce and identity without a separator, so a recorded handshake is good for a
  second one: cut one character later, the nonce is new and the digest still right. After any accepted
  handshake of a node whose identity is \<open>c # nid\<close>, whoever heard it is admitted as \<open>nid\<close>, at once, from any
  address, with any name and any agents.
\<close>

theorem shifted_nonce_replays_handshake:
  assumes "wmsg_kind m1 = WireRequest (Handshake (c # nid) name1 version1 agents1 nonce tag)"
    and "answer_handshake env h addr1 t1 wall1 ack1 m1 node w1 = (Inr session1, node1, w1')"
    and "wmsg_kind m2 = WireRequest (Handshake nid name2 PROTOCOL_VERSION agents2 (nonce @ [c]) tag)"
    and "fst (check_and_record t2 (nonce @ [c]) (pnode_nonce_tracker node1)) = Inr ()"
    and "fst (write_message env (handshake_ack env h (pnode_config node1) (wmsg_id m2) ack2) w2) = Inr ()"
  shows "\<exists>session2 node2 w2'.
      answer_handshake env h addr2 t2 wall2 ack2 m2 node1 w2 = (Inr session2, node2, w2')
      \<and> get_peer nid (pnode_registry node2) = Some (peer_entry_of nid name2 addr2 agents2 wall2 PROTOCOL_VERSION)"
proof -
  obtain peer key where s: "session1 = (peer, key)" by (cases session1)
  have known: "tag = hmac_sign env (pcfg_shared_secret (pnode_config node)) (nonce @ c # nid)
      \<and> pnode_config node1 = pnode_config node"
    using answer_accepted [OF assms(2) [unfolded s]]
  proof cases
    case (1 nid1 name version agents nonce1 nt)
    then show ?thesis using assms(1) by simp
  qed
  obtain nt where c: "check_and_record t2 (nonce @ [c]) (pnode_nonce_tracker node1) = (Inr (), nt)"
    using assms(4) by (cases "check_and_record t2 (nonce @ [c]) (pnode_nonce_tracker node1)") auto
  obtain w2' where w: "write_message env (handshake_ack env h (pnode_config node1) (wmsg_id m2) ack2) w2 = (Inr (), w2')"
    using assms(5) by (cases "write_message env (handshake_ack env h (pnode_config node1) (wmsg_id m2) ack2) w2") auto
  have "wmsg_kind m2 = WireRequest (Handshake nid name2 PROTOCOL_VERSION agents2 (nonce @ [c])
      (hmac_sign env (pcfg_shared_secret (pnode_config node1)) ((nonce @ [c]) @ nid)))"
    using assms(3) known by simp
  from answer_accepts [OF this c w] show ?thesis
    by (auto simp: get_peer_def get_add_peer peer_entry_of_def)
qed

theorem shifted_nonce_replays_handshake_witness:
  "\<exists>node1 session2 node2 w2'.
      answer_handshake (toy_codec toy_table) toy_handle ''q'' 5 0 ''m'' (toy_hello ''n'' ''xa'') (toy_node ''b'' []) (open_writer [])
        = (Inr (''xa'', toy_sign ''k'' ''nm''), node1, open_writer (frame_of (toy_codec toy_table) (toy_ack ''m'' ''b'')))
      \<and> answer_handshake (toy_codec toy_table) toy_handle ''evil'' 6 0 ''m'' (toy_hello ''nx'' ''a'') node1 (open_writer [])
        = (Inr session2, node2, w2')
      \<and> get_peer ''a'' (pnode_registry node2) = Some (peer_entry_of ''a'' ''a'' ''evil'' [] 0 PROTOCOL_VERSION)"
proof -
  let ?env = "toy_codec toy_table"
  have m: "toy_hello ''n'' ''xa'' \<in> set (map fst toy_table)" by (simp add: toy_table_def)
  obtain node1 where ok: "answer_handshake ?env toy_handle ''q'' 5 0 ''m'' (toy_hello ''n'' ''xa'') (toy_node ''b'' [])
        (open_writer []) = (Inr (''xa'', toy_sign ''k'' ''nm''), node1, open_writer (frame_of ?env (toy_ack ''m'' ''b'')))"
      and nt: "pnode_nonce_tracker node1 = snd (check_and_record 5 ''n'' nonce_tracker_new)"
      and cfg: "pnode_config node1 = toy_cfg ''b''"
    using toy_accepts [OF m, of 5 "toy_node ''b'' []" "''q''" 0] by (simp add: toy_node_def toy_fresh)
  have fresh: "fst (check_and_record 6 (''n'' @ ''x'') (pnode_nonce_tracker node1)) = Inr ()"
    unfolding nt by (simp add: check_and_record_def nonce_sweep_def nonce_seen_def nonce_insert_def nonce_tracker_new_def)
  have a: "codec_inverts ?env (toy_ack ''m'' ''b'')"
    by (rule toy_codec_inverts) (simp add: toy_table_def)
  have w: "fst (write_message ?env (handshake_ack ?env toy_handle (pnode_config node1) (wmsg_id (toy_hello ''nx'' ''a'')) ''m'')
      (open_writer [])) = Inr ()"
    using write_message_frame [OF a, of "[]"] toy_messages(2) [of toy_table "''b''" "''m''"] cfg
    by (simp add: toy_hello_def)
  have k1: "wmsg_kind (toy_hello ''n'' ''xa'')
      = WireRequest (Handshake (CHR ''x'' # ''a'') ''xa'' PROTOCOL_VERSION [] ''n'' (toy_sign ''k'' ''nxa''))"
    by (simp add: toy_hello_def)
  have k2: "wmsg_kind (toy_hello ''nx'' ''a'')
      = WireRequest (Handshake ''a'' ''a'' PROTOCOL_VERSION [] (''n'' @ ''x'') (toy_sign ''k'' ''nxa''))"
    by (simp add: toy_hello_def)
  show ?thesis
    using ok shifted_nonce_replays_handshake [OF k1 ok k2 fresh w, of "''evil''" 0] by fast
qed

text \<open>
  A node that dials an address and is sent its own handshake back as an acknowledgement takes it for a
  peer: its own nonces are not in its tracker, and the digest does not say which side made it. The
  answering side then chooses the name and the agents under which it is listed.
\<close>

lemma own_handshake_accepted_as_ack:
  assumes "wmsg_kind msg = WireResponse (HandshakeAck (pcfg_node_id (pnode_config node)) name PROTOCOL_VERSION
        agents our_nonce (sign_identity env our_nonce (pnode_config node)))"
    and "check_and_record now our_nonce (pnode_nonce_tracker node) = (Inr (), nt)"
    and "write_message env (handshake_request env h (pnode_config node) mid our_nonce) w = (Inr (), w1)"
    and "read_message env r = (Inr msg, r1)"
  shows "get_peer (pcfg_node_id (pnode_config node))
      (pnode_registry (snd (connect_to_peer env h now wall mid our_nonce addr (Inr (r, w)) node)))
    = Some (peer_entry_of (pcfg_node_id (pnode_config node)) name addr agents wall PROTOCOL_VERSION)"
  using assms ack_accepts [OF assms(1) [unfolded sign_identity_def] assms(2), of our_nonce]
  by (simp add: connect_to_peer_def open_session_def get_peer_def get_add_peer peer_entry_of_def Let_def)

section \<open>Broadcasts\<close>

text \<open>\<^verbatim>\<open>serde_json::from_slice\<close> refuses what follows the value.\<close>

definition rejects_trailing :: "wire_codec \<Rightarrow> bool" where
  "rejects_trailing env \<longleftrightarrow>
     (\<forall>m json k. wc_to_vec env m = Inr json \<longrightarrow> \<not> is_ok (wc_from_slice env (json @ hmac_sign env k json)))"

lemma concat_map_single: "concat (map (\<lambda>x. [f x]) xs) = map f xs"
  by (induction xs) auto

text \<open>
  Nobody understands a broadcast: the frame of a notification opens a fresh connection, carries a
  digest under a key made from a nonce that is not sent, and whoever accepts the connection reads it as
  a plain frame, whose body is then no JSON text. Every receiver ends the connection with an error and is
  unchanged; the sender sees no failure.
\<close>

lemma broadcast_never_understood:
  assumes "digest_is_hex env" "rejects_trailing env"
    and "\<forall>p \<in> set (connected_peers registry). codec_inverts env
           \<lparr>wmsg_id = fresh_id (pe_node_id p), wmsg_kind = WireNotification notification\<rparr>"
    and "\<forall>addr. connect addr = Inr (open_writer [])"
    and "broadcast_notification env connect fresh_id fresh_nonce notification secret registry = (errors, sent)"
  shows "errors = [] \<and> map fst sent = map pe_node_id (connected_peers registry)
    \<and> (\<forall>(peer, stream) \<in> set sent. \<forall>h addr now wall ack_nonce node w. \<exists>e.
         handle_inbound env h addr now wall ack_nonce node (reader_of (tcpw_sent stream) None) w = (Inl e, node, w, []))"
proof -
  define msg where "msg p = \<lparr>wmsg_id = fresh_id (pe_node_id p), wmsg_kind = WireNotification notification\<rparr>" for p :: peer_entry
  define key where "key p = hmac_sign env secret (fresh_nonce (pe_node_id p))" for p :: peer_entry
  have one: "notify_peer env connect fresh_id fresh_nonce notification secret p
      = ([], [(pe_node_id p, open_writer (sealed_frame_of env (key p) (msg p)))])"
    if "p \<in> set (connected_peers registry)" for p
    using assms(3,4) that write_sealed_frame [of env "msg p" "key p" "[]"]
    by (simp add: notify_peer_def msg_def key_def)
  have all: "errors = [] \<and> sent = map (\<lambda>p. (pe_node_id p, open_writer (sealed_frame_of env (key p) (msg p))))
      (connected_peers registry)"
  proof -
    have "map (notify_peer env connect fresh_id fresh_nonce notification secret) (connected_peers registry)
        = map (\<lambda>p. ([], [(pe_node_id p, open_writer (sealed_frame_of env (key p) (msg p)))])) (connected_peers registry)"
      using one by (simp only: map_eq_conv, blast)
    note eq = this
    show ?thesis
      using assms(5) unfolding broadcast_notification_def Let_def eq
      by (auto simp: comp_def concat_map_single)
  qed
  have refused: "\<exists>e. handle_inbound env h addr now wall ack_nonce node
        (reader_of (sealed_frame_of env (key p) (msg p)) None) w = (Inl e, node, w, [])"
    if "p \<in> set (connected_peers registry)" for h addr now wall ack_nonce node w p
  proof -
    have "codec_inverts env (msg p)" using assms(3) that by (simp add: msg_def)
    then obtain json where j: "wc_to_vec env (msg p) = Inr json" "length json + HMAC_HEX_LEN \<le> MAX_MESSAGE_SIZE"
      by (rule codec_invertsD)
    define body where "body = json @ hmac_sign env (key p) json"
    have l: "length body \<le> MAX_MESSAGE_SIZE"
      using assms(1) j(2) by (simp add: body_def digest_is_hex_def)
    have f: "sealed_frame_of env (key p) (msg p) = to_be_bytes (word_of_nat (length body)) @ body"
      using j(1) by (simp add: sealed_frame_of_def body_def)
    have "\<not> is_ok (wc_from_slice env body)"
      using assms(2) j(1) by (simp add: rejects_trailing_def body_def)
    then obtain e where "wc_from_slice env body = Inl e"
      by (cases "wc_from_slice env body") auto
    then have "read_message env (reader_of (sealed_frame_of env (key p) (msg p)) None) = (Inl (WireJson e), reader_of [] None)"
      using read_header_frame [OF l, of body None]
      by (simp add: f read_message_def read_exact_def decode_message_def)
    then show ?thesis by (simp add: handle_inbound_def)
  qed
  show ?thesis using all refused by (auto simp: comp_def)
qed

definition toy_peer :: "string \<Rightarrow> peer_entry" where
  "toy_peer nid = peer_entry_of nid nid nid [] 0 PROTOCOL_VERSION"

lemma toy_rejects: "rejects_trailing (toy_codec toy_table)"
proof -
  have "length t < 64" if "(m, t) \<in> set toy_table" for m t
    using that by (auto simp: toy_table_def)
  then have "find (\<lambda>(_, t). t = json @ toy_sign k json) toy_table = None" for json k
    by (fastforce simp: find_None_iff toy_sign_def)
  then show ?thesis
    unfolding rejects_trailing_def toy_hmac_sign by (simp add: toy_codec_def)
qed

lemma broadcast_never_understood_witness:
  "\<exists>sent. broadcast_notification (toy_codec toy_table) (\<lambda>_. Inr (open_writer [])) (\<lambda>_. ''9'') (\<lambda>_. ''n'') ShuttingDown ''k''
       [(''p'', toy_peer ''p'')] = ([], sent)
     \<and> map fst sent = [''p'']
     \<and> (\<forall>(peer, stream) \<in> set sent. \<exists>e. handle_inbound (toy_codec toy_table) toy_handle ''q'' 0 0 ''m''
           (toy_node ''b'' []) (reader_of (tcpw_sent stream) None) (open_writer []) = (Inl e, toy_node ''b'' [], open_writer [], []))"
proof -
  let ?reg = "[(''p'', toy_peer ''p'')]"
  have conn: "connected_peers ?reg = [toy_peer ''p'']"
    by (simp add: connected_peers_def toy_peer_def peer_entry_of_def)
  have inv: "\<forall>p \<in> set (connected_peers ?reg). codec_inverts (toy_codec toy_table)
      \<lparr>wmsg_id = (\<lambda>_. ''9'') (pe_node_id p), wmsg_kind = WireNotification ShuttingDown\<rparr>"
    by (simp add: conn) (rule toy_codec_inverts, simp add: toy_table_def)
  obtain errors sent where out: "broadcast_notification (toy_codec toy_table) (\<lambda>_. Inr (open_writer [])) (\<lambda>_. ''9'')
      (\<lambda>_. ''n'') ShuttingDown ''k'' ?reg = (errors, sent)"
    by (cases "broadcast_notification (toy_codec toy_table) (\<lambda>_. Inr (open_writer [])) (\<lambda>_. ''9'')
      (\<lambda>_. ''n'') ShuttingDown ''k'' ?reg")
  have "errors = [] \<and> map fst sent = [''p''] \<and> (\<forall>(peer, stream) \<in> set sent. \<forall>h addr now wall ack_nonce node w. \<exists>e.
         handle_inbound (toy_codec toy_table) h addr now wall ack_nonce node (reader_of (tcpw_sent stream) None) w
           = (Inl e, node, w, []))"
    using broadcast_never_understood [OF toy_digest toy_rejects inv _ out]
    by (simp add: conn) (simp add: toy_peer_def peer_entry_of_def)
  then show ?thesis using out by (intro exI [of _ sent]) (simp, blast)
qed

section \<open>A remote call, end to end\<close>

definition answer_message :: "string \<Rightarrow> (string, string) result \<Rightarrow> wire_message" where
  "answer_message mid answer =
     \<lparr>wmsg_id = mid, wmsg_kind = WireResponse
        (case answer of Inr text \<Rightarrow> AgentResponse text | Inl e \<Rightarrow> WireErrorReply 500 e)\<rparr>"

lemma remote_500: "show_int 500 = ''500''"
  by code_simp

lemma check_and_record_pair:
  "fst (check_and_record now n nt) = Inr () \<Longrightarrow> \<exists>nt'. check_and_record now n nt = (Inr (), nt')"
  by (cases "check_and_record now n nt") auto

lemma loop_answers_call:
  assumes "digest_is_hex env" "codec_inverts env (agent_message mid agent text sender)"
    and "codec_inverts env (answer_message mid (phd_handle_agent_message h agent text sender))"
  shows "connection_loop env h peer (Some key)
      \<lparr>cn_reader = reader_of (sealed_frame_of env key (agent_message mid agent text sender)) None,
       cn_writer = open_writer s, cn_registry = reg, cn_delivered = []\<rparr>
    = (Inr (), \<lparr>cn_reader = reader_of [] None,
         cn_writer = open_writer (s @ sealed_frame_of env key (answer_message mid (phd_handle_agent_message h agent text sender))),
         cn_registry = reg, cn_delivered = [(agent, text, sender)]\<rparr>)"
proof -
  let ?req = "agent_message mid agent text sender"
  let ?resp = "answer_message mid (phd_handle_agent_message h agent text sender)"
  have r: "read_message_authenticated env key (reader_of (sealed_frame_of env key ?req) None) = (Inr ?req, reader_of [] None)"
    using read_sealed_frame [OF assms(2,1), of key "[]" None] by simp
  have a: "handle_request_in_loop h ?req = ?resp"
    by (simp add: handle_request_in_loop_def request_response_def agent_message_def answer_message_def split: sum.splits)
  have e: "read_message_authenticated env key (reader_of [] None) = (Inl ConnectionClosed, reader_of [] None)"
    by (simp add: read_message_authenticated_def read_header_def read_exact_def)
  have d: "dispatch_message env h peer (Some key) ?req c
      = (Inr (), c\<lparr>cn_writer := open_writer (s @ sealed_frame_of env key ?resp), cn_delivered := cn_delivered c @ [(agent, text, sender)]\<rparr>)"
    if "cn_writer c = open_writer s" for c
    using write_sealed_frame [OF assms(3), of key s] that a
    by (simp add: dispatch_message_def agent_message_def write_next_def deliveries_def)
  show ?thesis
    by (subst connection_loop.simps, simp add: read_next_def r d,
        subst connection_loop.simps, simp add: read_next_def e)
qed

text \<open>The two ends of a call, each given what the other one writes.\<close>

lemma callee_side:
  assumes "digest_is_hex env" "codec_inverts env hello" "codec_inverts env (agent_message mid agent body sender)"
    and "codec_inverts env (answer_message mid (phd_handle_agent_message h agent body sender))"
    and "codec_inverts env (handshake_ack env h (pnode_config B) (wmsg_id hello) nB)"
    and "wmsg_kind hello = WireRequest (Handshake nid name PROTOCOL_VERSION agents nA
      (hmac_sign env (pcfg_shared_secret (pnode_config B)) (nA @ nid)))"
    and "fst (check_and_record t nA (pnode_nonce_tracker B)) = Inr ()"
    and "key = derive_session_key env (pcfg_shared_secret (pnode_config B)) nA nB"
  shows "\<exists>B' e. handle_inbound env h addr t wall nB B
        (reader_of (frame_of env hello @ sealed_frame_of env key (agent_message mid agent body sender)) None) (open_writer [])
      = (Inr (), B', open_writer (frame_of env (handshake_ack env h (pnode_config B) (wmsg_id hello) nB)
           @ sealed_frame_of env key (answer_message mid (phd_handle_agent_message h agent body sender))),
         [(agent, body, sender)])
    \<and> get_peer nid (pnode_registry B') = Some e \<and> pe_state e = StDisconnected \<and> pe_address e = addr"
proof -
  obtain nt where c: "check_and_record t nA (pnode_nonce_tracker B) = (Inr (), nt)"
    using check_and_record_pair [OF assms(7)] by blast
  have r: "read_message env (reader_of (frame_of env hello @ rest) None) = (Inr hello, reader_of rest None)" for rest
    by (rule read_message_frame [OF assms(2)])
  have w: "write_message env (handshake_ack env h (pnode_config B) (wmsg_id hello) nB) (open_writer [])
      = (Inr (), open_writer (frame_of env (handshake_ack env h (pnode_config B) (wmsg_id hello) nB)))"
    using write_message_frame [OF assms(5), of "[]"] by simp
  show ?thesis
    by (simp add: handle_inbound_def r answer_accepts [OF assms(6) c w] assms(8) [symmetric]
        loop_answers_call [OF assms(1,3,4)] Let_def get_peer_def mark_disconnected_def get_on_peer get_add_peer
        peer_entry_of_def)
qed

lemma caller_side:
  assumes "digest_is_hex env" "codec_inverts env (handshake_request env h (pnode_config A) mid1 nA)"
    and "codec_inverts env (agent_message mid2 agent body sender)"
    and "codec_inverts env (answer_message mid2 answer)" "codec_inverts env ack"
    and "wmsg_kind ack = WireResponse (HandshakeAck nidB name PROTOCOL_VERSION agents nB
      (hmac_sign env (pcfg_shared_secret (pnode_config A)) (nB @ nidB)))"
    and "fst (check_and_record t nB (pnode_nonce_tracker A)) = Inr ()"
    and "key = derive_session_key env (pcfg_shared_secret (pnode_config A)) nA nB"
    and "get_peer nid (pnode_registry A) = Some p"
    and "connect (pe_address p)
      = Inr (reader_of (frame_of env ack @ sealed_frame_of env key (answer_message mid2 answer)) None, open_writer [])"
  shows "\<exists>A'. send_to_peer env h t (mid1, mid2) nA connect nid agent body sender A
      = (case answer of Inr text \<Rightarrow> Inr text | Inl e \<Rightarrow> Inl (HandshakeFailed (''Remote error 500: '' @ e)), A',
         Some (open_writer (frame_of env (handshake_request env h (pnode_config A) mid1 nA)
           @ sealed_frame_of env key (agent_message mid2 agent body sender))))"
proof -
  let ?hello = "handshake_request env h (pnode_config A) mid1 nA"
  obtain nt where c: "check_and_record t nB (pnode_nonce_tracker A) = (Inr (), nt)"
    using check_and_record_pair [OF assms(7)] by blast
  have w: "write_message env ?hello (open_writer []) = (Inr (), open_writer (frame_of env ?hello))"
    using write_message_frame [OF assms(2), of "[]"] by simp
  have r: "read_message env (reader_of (frame_of env ack @ rest) None) = (Inr ack, reader_of rest None)" for rest
    by (rule read_message_frame [OF assms(5)])
  have s: "read_message_authenticated env key (reader_of (sealed_frame_of env key (answer_message mid2 answer)) None)
      = (Inr (answer_message mid2 answer), reader_of [] None)"
    using read_sealed_frame [OF assms(4,1), of key "[]" None] by simp
  show ?thesis
    using assms(9,10) ack_accepts [OF assms(6) c, of nA]
    by (simp add: send_to_peer_def open_session_def w r assms(8) [symmetric] write_sealed_frame [OF assms(3)] s)
       (cases answer; simp add: answer_message_def remote_500)
qed

text \<open>
  C31. Let two nodes share a secret and let the bytes each one writes be what the other one reads. Then
  the callee hands exactly the caller's message to the named agent, and the caller gets back what that
  agent answered, or its error. The call ends with the caller listed at the callee as disconnected, at
  the address of the socket of the call.
\<close>

theorem remote_call_answered:
  fixes env hA hB A B mid1 mid2 nA nB agent body sender
  defines "hello \<equiv> handshake_request env hA (pnode_config A) mid1 nA"
    and "ack \<equiv> handshake_ack env hB (pnode_config B) mid1 nB"
    and "req \<equiv> agent_message mid2 agent body sender"
    and "resp \<equiv> answer_message mid2 (phd_handle_agent_message hB agent body sender)"
    and "key \<equiv> derive_session_key env (pcfg_shared_secret (pnode_config A)) nA nB"
  defines "to_callee \<equiv> frame_of env hello @ sealed_frame_of env key req"
    and "to_caller \<equiv> frame_of env ack @ sealed_frame_of env key resp"
  assumes "digest_is_hex env" "list_all (codec_inverts env) [hello, ack, req, resp]"
    and "pcfg_shared_secret (pnode_config B) = pcfg_shared_secret (pnode_config A)"
    and "fst (check_and_record tB nA (pnode_nonce_tracker B)) = Inr ()"
    and "fst (check_and_record tA nB (pnode_nonce_tracker A)) = Inr ()"
    and "get_peer nid (pnode_registry A) = Some p"
    and "connect (pe_address p) = Inr (reader_of to_caller None, open_writer [])"
  shows "(\<exists>B' e. handle_inbound env hB addr tB wall nB B (reader_of to_callee None) (open_writer [])
            = (Inr (), B', open_writer to_caller, [(agent, body, sender)])
          \<and> get_peer (pcfg_node_id (pnode_config A)) (pnode_registry B') = Some e
          \<and> pe_state e = StDisconnected \<and> pe_address e = addr)
    \<and> (\<exists>A'. send_to_peer env hA tA (mid1, mid2) nA connect nid agent body sender A
          = (case phd_handle_agent_message hB agent body sender of
               Inr answer \<Rightarrow> Inr answer
             | Inl e \<Rightarrow> Inl (HandshakeFailed (''Remote error 500: '' @ e)), A', Some (open_writer to_callee)))"
proof -
  have i: "wmsg_id hello = mid1" by (simp add: hello_def handshake_request_def)
  have inv: "codec_inverts env hello" "codec_inverts env ack" "codec_inverts env req" "codec_inverts env resp"
    using assms(9) by auto
  have hk: "wmsg_kind hello = WireRequest (Handshake (pcfg_node_id (pnode_config A)) (pcfg_node_name (pnode_config A))
      PROTOCOL_VERSION (phd_local_agents hA) nA
      (hmac_sign env (pcfg_shared_secret (pnode_config B)) (nA @ pcfg_node_id (pnode_config A))))"
    using assms(10) by (simp add: hello_def handshake_request_def sign_identity_def)
  have ak: "wmsg_kind ack = WireResponse (HandshakeAck (pcfg_node_id (pnode_config B)) (pcfg_node_name (pnode_config B))
      PROTOCOL_VERSION (phd_local_agents hB) nB
      (hmac_sign env (pcfg_shared_secret (pnode_config A)) (nB @ pcfg_node_id (pnode_config B))))"
    using assms(10) by (simp add: ack_def handshake_ack_def sign_identity_def)
  have ka: "handshake_ack env hB (pnode_config B) (wmsg_id hello) nB = ack" by (simp add: i ack_def)
  have kb: "key = derive_session_key env (pcfg_shared_secret (pnode_config B)) nA nB"
    using assms(10) by (simp add: key_def)
  note callee = callee_side [OF assms(8) inv(1) inv(3) [unfolded req_def] inv(4) [unfolded resp_def] _ hk assms(11) kb,
      unfolded ka, OF inv(2), of addr wall, folded req_def resp_def to_callee_def to_caller_def]
  note caller = caller_side [where connect = connect and p = p and ack = ack, OF assms(8) inv(1) [unfolded hello_def] inv(3) [unfolded req_def]
      inv(4) [unfolded resp_def] inv(2) ak assms(12) key_def [THEN meta_eq_to_obj_eq] assms(13)
      assms(14) [unfolded to_caller_def resp_def], folded hello_def req_def to_callee_def]
  show ?thesis using callee caller by blast
qed

definition toy_to_caller :: string where
  "toy_to_caller = frame_of (toy_codec toy_table) (toy_ack ''m'' ''b'')
     @ sealed_frame_of (toy_codec toy_table) (toy_sign ''k'' ''nm'') (answer_message ''2'' (Inr ''re: hi''))"

definition toy_caller :: peer_node where
  "toy_caller = toy_node ''xa'' [(''b'', toy_peer ''b'')]"

lemma toy_parts [simp]:
  "pnode_config toy_caller = toy_cfg ''xa''" "pnode_config (toy_node nid reg) = toy_cfg nid"
  "pnode_nonce_tracker toy_caller = nonce_tracker_new" "pnode_nonce_tracker (toy_node nid reg) = nonce_tracker_new"
  "pnode_registry toy_caller = [(''b'', toy_peer ''b'')]"
  "phd_handle_agent_message toy_handle agent m sender = Inr (''re: '' @ m)"
  "pcfg_shared_secret (toy_cfg nid) = ''k''"
  by (simp_all add: toy_caller_def toy_node_def toy_handle_def toy_cfg_def)

theorem remote_call_answered_witness:
  "\<exists>A' w. send_to_peer (toy_codec toy_table) toy_handle 0 (''1'', ''2'') ''n''
      (\<lambda>_. Inr (reader_of toy_to_caller None, open_writer [])) ''b'' ''coder'' ''hi'' None toy_caller
    = (Inr ''re: hi'', A', w)"
proof -
  let ?env = "toy_codec toy_table"
  have inv: "list_all (codec_inverts ?env) [handshake_request ?env toy_handle (pnode_config toy_caller) ''1'' ''n'',
      handshake_ack ?env toy_handle (pnode_config (toy_node ''b'' [])) ''1'' ''m'',
      agent_message ''2'' ''coder'' ''hi'' None,
      answer_message ''2'' (phd_handle_agent_message toy_handle ''coder'' ''hi'' None)]"
    unfolding list_all_iff
  proof
    fix m assume "m \<in> set [handshake_request ?env toy_handle (pnode_config toy_caller) ''1'' ''n'',
      handshake_ack ?env toy_handle (pnode_config (toy_node ''b'' [])) ''1'' ''m'',
      agent_message ''2'' ''coder'' ''hi'' None,
      answer_message ''2'' (phd_handle_agent_message toy_handle ''coder'' ''hi'' None)]"
    then have "m \<in> set (map fst toy_table)"
      by (auto simp: toy_messages toy_table_def answer_message_def)
    then show "codec_inverts ?env m" by (rule toy_codec_inverts)
  qed
  have "\<exists>A'. send_to_peer ?env toy_handle 0 (''1'', ''2'') ''n''
      (\<lambda>_. Inr (reader_of toy_to_caller None, open_writer [])) ''b'' ''coder'' ''hi'' None toy_caller
    = (case phd_handle_agent_message toy_handle ''coder'' ''hi'' None of
               Inr answer \<Rightarrow> Inr answer
             | Inl e \<Rightarrow> Inl (HandshakeFailed (''Remote error 500: '' @ e)), A',
       Some (open_writer (frame_of ?env (handshake_request ?env toy_handle (pnode_config toy_caller) ''1'' ''n'')
         @ sealed_frame_of ?env (derive_session_key ?env (pcfg_shared_secret (pnode_config toy_caller)) ''n'' ''m'')
             (agent_message ''2'' ''coder'' ''hi'' None))))"
    by (rule conjunct2 [OF remote_call_answered [OF toy_digest inv, where tB = 0 and p = "toy_peer ''b''"]])
       (simp_all add: toy_fresh get_peer_def toy_to_caller_def toy_messages derive_session_key_def)
  then show ?thesis by auto
qed

end
