(* ===== verification/Ip_Addr.thy ===== *)
theory Ip_Addr
  imports Utf8 "HOL-Library.Word"
begin

text \<open>
  Internet addresses as the standard library has them (\<^verbatim>\<open>std::net::IpAddr\<close>): octets and segments, their
  integers, the classes the code asks for, and their text.
\<close>

unbundle bit_operations_syntax

datatype ip_addr = IpV4 "8 word" "8 word" "8 word" "8 word" | IpV6 "16 word list"

definition is_loopback_ip :: "ip_addr \<Rightarrow> bool" where
  "is_loopback_ip ip =
     (case ip of IpV4 a _ _ _ \<Rightarrow> a = 127 | IpV6 segments \<Rightarrow> segments = [0, 0, 0, 0, 0, 0, 0, 1])"

definition is_unspecified_ip :: "ip_addr \<Rightarrow> bool" where
  "is_unspecified_ip ip =
     (case ip of IpV4 a b c d \<Rightarrow> [a, b, c, d] = [0, 0, 0, 0]
      | IpV6 segments \<Rightarrow> segments = [0, 0, 0, 0, 0, 0, 0, 0])"

text \<open>\<^verbatim>\<open>from_be_bytes\<close> of the octets.\<close>

definition v4_bits :: "8 word \<Rightarrow> 8 word \<Rightarrow> 8 word \<Rightarrow> 8 word \<Rightarrow> 32 word" where
  "v4_bits a b c d = push_bit 24 (ucast a) OR push_bit 16 (ucast b) OR push_bit 8 (ucast c) OR ucast d"

definition v6_bits :: "16 word list \<Rightarrow> 128 word" where
  "v6_bits segments = foldl (\<lambda>w s. push_bit 16 w OR ucast s) 0 segments"

section \<open>Text\<close>

definition show_octets :: "8 word list \<Rightarrow> string" where
  "show_octets os = join_char CHR ''.'' (map (\<lambda>w. show_nat (unat w)) os)"

definition hex_digit :: "nat \<Rightarrow> char" where
  "hex_digit n = (if n < 10 then digit n else char_of (87 + n))"

fun show_hex :: "nat \<Rightarrow> string" where
  "show_hex n = (if n < 16 then [hex_digit n] else show_hex (n div 16) @ [hex_digit (n mod 16)])"

declare show_hex.simps [simp del]

definition show_segments :: "16 word list \<Rightarrow> string" where
  "show_segments ss = join_char CHR '':'' (map (\<lambda>w. show_hex (unat w)) ss)"

text \<open>The first longest run of zero segments: its start and length.\<close>

definition zero_run :: "16 word list \<Rightarrow> nat \<Rightarrow> nat" where
  "zero_run ss i = length (takeWhile (\<lambda>w. w = 0) (drop i ss))"

definition longest_zero_run :: "16 word list \<Rightarrow> nat \<times> nat" where
  "longest_zero_run ss =
     fold (\<lambda>i (st, len). if zero_run ss i > len then (i, zero_run ss i) else (st, len)) [0..<length ss] (0, 0)"

definition show_ip :: "ip_addr \<Rightarrow> string" where
  "show_ip ip =
     (case ip of
        IpV4 a b c d \<Rightarrow> show_octets [a, b, c, d]
      | IpV6 ss \<Rightarrow>
          if take 6 ss = [0, 0, 0, 0, 0, 0xffff]
          then ''::ffff:'' @ show_octets (concat (map (\<lambda>w. [ucast (drop_bit 8 w), ucast w]) (drop 6 ss)))
          else
            let (st, len) = longest_zero_run ss
            in if len > 1 then show_segments (take st ss) @ ''::'' @ show_segments (drop (st + len) ss)
               else show_segments ss)"

text \<open>\<^verbatim>\<open>str::parse::<IpAddr>\<close>: octets are decimal without leading zeros, segments have at most four
  hexadecimal digits, one \<^verbatim>\<open>::\<close> stands for at least one segment, and the last two may be octets.\<close>

definition parse_octet :: "string \<Rightarrow> (8 word) option" where
  "parse_octet s =
     (if s = [] \<or> length s > 3 \<or> (hd s = CHR ''0'' \<and> length s > 1) then None
      else (case digits_val 0 s of
              Some n \<Rightarrow> if n < 256 then Some (word_of_nat n) else None
            | None \<Rightarrow> None))"

fun all_some :: "'a option list \<Rightarrow> 'a list option" where
  "all_some [] = Some []"
| "all_some (None # xs) = None"
| "all_some (Some x # xs) = map_option (Cons x) (all_some xs)"

definition parse_v4 :: "string \<Rightarrow> (8 word list) option" where
  "parse_v4 s =
     (let parts = split_char CHR ''.'' s
      in if length parts = 4 then all_some (map parse_octet parts) else None)"

definition hex_val :: "char \<Rightarrow> nat option" where
  "hex_val c =
     (let n = of_char c :: nat
      in if 48 \<le> n \<and> n \<le> 57 then Some (n - 48)
         else if 97 \<le> n \<and> n \<le> 102 then Some (n - 87)
         else if 65 \<le> n \<and> n \<le> 70 then Some (n - 55) else None)"

definition parse_segment :: "string \<Rightarrow> (16 word) option" where
  "parse_segment s =
     (if s = [] \<or> length s > 4 then None
      else map_option (\<lambda>ds. word_of_nat (foldl (\<lambda>n d. 16 * n + d) 0 ds)) (all_some (map hex_val s)))"

definition parse_groups :: "bool \<Rightarrow> string \<Rightarrow> (16 word list) option" where
  "parse_groups octets_last s =
     (if s = [] then Some []
      else
        let parts = split_char CHR '':'' s
        in case all_some (map parse_segment parts) of
             Some ss \<Rightarrow> Some ss
           | None \<Rightarrow>
               if \<not> octets_last then None
               else (case (all_some (map parse_segment (butlast parts)), parse_v4 (last parts)) of
                       (Some ss, Some [a, b, c, d]) \<Rightarrow>
                         Some (ss @ [push_bit 8 (ucast a) OR ucast b, push_bit 8 (ucast c) OR ucast d])
                     | _ \<Rightarrow> None))"

definition parse_v6 :: "string \<Rightarrow> (16 word list) option" where
  "parse_v6 s =
     (case split_once ''::'' s of
        None \<Rightarrow>
          (case parse_groups True s of Some ss \<Rightarrow> if length ss = 8 then Some ss else None | None \<Rightarrow> None)
      | Some (front, back) \<Rightarrow>
          (case (parse_groups False front, parse_groups True back) of
             (Some hs, Some ts) \<Rightarrow>
               if length hs + length ts \<le> 7 then Some (hs @ replicate (8 - length hs - length ts) 0 @ ts) else None
           | _ \<Rightarrow> None))"

definition parse_ip :: "string \<Rightarrow> ip_addr option" where
  "parse_ip s =
     (case parse_v4 s of
        Some [a, b, c, d] \<Rightarrow> Some (IpV4 a b c d)
      | _ \<Rightarrow> map_option IpV6 (parse_v6 s))"

section \<open>Reading what was written\<close>

lemma digit_not_zero: "0 < n \<Longrightarrow> n < 10 \<Longrightarrow> digit n \<noteq> CHR ''0''"
  using digit_val_digit [of n] by (auto simp: digit_val_def)

lemma parse_show_octet: "parse_octet (show_nat (unat w)) = Some w"
proof -
  have lt: "unat w < 256" using unsigned_less [of w] by simp
  have shape: "length (show_nat n) \<le> 3 \<and> (hd (show_nat n) = CHR ''0'' \<longrightarrow> length (show_nat n) = 1)" if "n < 256" for n
  proof -
    consider "n < 10" | "10 \<le> n" "n < 100" | "100 \<le> n" by linarith
    then show ?thesis
    proof cases
      case 1
      then show ?thesis by (simp add: show_nat.simps [of n])
    next
      case 2
      then have "n div 10 < 10" "0 < n div 10" by auto
      then show ?thesis
        using 2 digit_not_zero [of "n div 10"] by (simp add: show_nat.simps [of n] show_nat.simps [of "n div 10"])
    next
      case 3
      then have "n div 10 div 10 < 10" "0 < n div 10 div 10" "\<not> n div 10 < 10" using that by auto
      then show ?thesis
        using 3 digit_not_zero [of "n div 10 div 10"]
        by (simp add: show_nat.simps [of n] show_nat.simps [of "n div 10"] show_nat.simps [of "n div 10 div 10"])
    qed
  qed
  show ?thesis
    using shape [OF lt] lt show_nat_digits [of "unat w"] by (auto simp: parse_octet_def digits_val_show)
qed

lemma show_ip_v4:
  "show_ip (IpV4 a b c d) = show_nat (unat a) @ CHR ''.'' # show_nat (unat b) @ CHR ''.'' # show_nat (unat c)
     @ CHR ''.'' # show_nat (unat d)"
  by (simp add: show_ip_def show_octets_def)

lemma show_ip_v4_plain: "x \<in> set (show_ip (IpV4 a b c d)) \<Longrightarrow> x = CHR ''.'' \<or> digit_val x \<noteq> None"
  using show_nat_digits by (auto simp: show_ip_v4)

lemma split_char_front: "c \<notin> set p \<Longrightarrow> split_char c (p @ c # s) = p # split_char c s"
  by (induction p) auto

lemma split_char_whole: "c \<notin> set p \<Longrightarrow> split_char c p = [p]"
  by (induction p) auto

lemma parse_show_v4: "parse_ip (show_ip (IpV4 a b c d)) = Some (IpV4 a b c d)"
proof -
  have free: "CHR ''.'' \<notin> set (show_nat n)" for n using show_nat_digits [of n] by (auto simp: digit_val_def)
  have split: "split_char CHR ''.'' (show_ip (IpV4 a b c d))
      = [show_nat (unat a), show_nat (unat b), show_nat (unat c), show_nat (unat d)]"
    by (simp add: show_ip_v4 split_char_front free split_char_whole)
  show ?thesis by (simp add: parse_ip_def parse_v4_def split parse_show_octet)
qed

end
