(* ===== verification/Api_Auth.thy ===== *)
theory Api_Auth
  imports Ip_Addr
begin

text \<open>
  Who may call the HTTP interface: session tokens and passwords
  (\<^verbatim>\<open>crates/openfang-api/src/session_auth.rs\<close>), the authentication of requests and the security
  headers (\<^verbatim>\<open>middleware.rs\<close>), the costs of the rate limiter (\<^verbatim>\<open>rate_limiter.rs\<close>), the check and the slots of
  web sockets (\<^verbatim>\<open>ws.rs\<close>), and the secret and login of \<^verbatim>\<open>server.rs\<close> and \<^verbatim>\<open>routes.rs\<close>. Base64, HMAC-SHA256,
  hexadecimal text, Argon2 and the limiter itself are parameters.
\<close>

section \<open>Session tokens\<close>

record auth_codec =
  ac_base64 :: "string \<Rightarrow> string"
  ac_unbase64 :: "string \<Rightarrow> string option"
  ac_hmac_hex :: "string \<Rightarrow> string \<Rightarrow> string"
  ac_argon2_verifies :: "string \<Rightarrow> string \<Rightarrow> bool"

text \<open>The expiry is computed in 64 bits, where it wraps around.\<close>

definition session_expiry :: "int \<Rightarrow> 64 word \<Rightarrow> int" where
  "session_expiry now ttl_hours = sint (word_of_int now + ttl_hours * 3600)"

definition create_session_token :: "auth_codec \<Rightarrow> int \<Rightarrow> string \<Rightarrow> string \<Rightarrow> 64 word \<Rightarrow> string" where
  "create_session_token env now username secret ttl_hours =
     (let payload = username @ '':'' @ show_int (session_expiry now ttl_hours);
          signature = ac_hmac_hex env secret payload
      in ac_base64 env (payload @ '':'' @ signature))"

text \<open>\<^verbatim>\<open>splitn(3, ':')\<close>, when it yields three parts.\<close>

definition split_three :: "string \<Rightarrow> (string \<times> string \<times> string) option" where
  "split_three s =
     (case find_char CHR '':'' s of
        None \<Rightarrow> None
      | Some i \<Rightarrow>
          (case find_char CHR '':'' (drop (Suc i) s) of
             None \<Rightarrow> None
           | Some j \<Rightarrow> Some (take i s, take j (drop (Suc i) s), drop (Suc j) (drop (Suc i) s))))"

definition verify_session_token :: "auth_codec \<Rightarrow> int \<Rightarrow> string \<Rightarrow> string \<Rightarrow> string option" where
  "verify_session_token env now token secret =
     (case ac_unbase64 env token of
        None \<Rightarrow> None
      | Some decoded \<Rightarrow>
          if \<not> well_formed_utf8 (str_bytes decoded) then None
          else
            (case split_three decoded of
               None \<Rightarrow> None
             | Some (username, expiry_str, provided_sig) \<Rightarrow>
                 (case parse_i64 expiry_str of
                    None \<Rightarrow> None
                  | Some expiry \<Rightarrow>
                      if now > expiry then None
                      else if provided_sig = ac_hmac_hex env secret (username @ '':'' @ expiry_str)
                      then Some username else None)))"

definition verify_password :: "auth_codec \<Rightarrow> string \<Rightarrow> string \<Rightarrow> bool" where
  "verify_password env password stored_hash = ac_argon2_verifies env password stored_hash"

section \<open>Requests\<close>

text \<open>A request: a header is its text when it has one and the text is printable.\<close>

record api_request =
  arq_method :: string
  arq_path :: string
  arq_query :: "string option"
  arq_header :: "string \<Rightarrow> string option"
  arq_peer :: "ip_addr option"

record auth_state =
  as_api_key :: string
  as_auth_enabled :: bool
  as_session_secret :: string

definition connect_info_is_loopback :: "api_request \<Rightarrow> bool" where
  "connect_info_is_loopback rq = (case arq_peer rq of Some ip \<Rightarrow> is_loopback_ip ip | None \<Rightarrow> False)"

fun find_map :: "('a \<Rightarrow> 'b option) \<Rightarrow> 'a list \<Rightarrow> 'b option" where
  "find_map f [] = None"
| "find_map f (x # xs) = (case f x of Some y \<Rightarrow> Some y | None \<Rightarrow> find_map f xs)"

definition extract_session_cookie :: "api_request \<Rightarrow> string option" where
  "extract_session_cookie rq =
     (case arq_header rq ''cookie'' of
        None \<Rightarrow> None
      | Some cookies \<Rightarrow>
          find_map (\<lambda>c. strip_prefix ''openfang_session='' (trim c)) (split_char CHR '';'' cookies))"

text \<open>\<^verbatim>\<open>?token=\<close>, the first such pair of the query.\<close>

definition query_token :: "string option \<Rightarrow> string option" where
  "query_token query =
     (case query of None \<Rightarrow> None | Some q \<Rightarrow> find_map (strip_prefix ''token='') (split_char CHR ''&'' q))"

definition bearer_token :: "(string \<Rightarrow> string option) \<Rightarrow> string option" where
  "bearer_token header =
     (case header ''authorization'' of None \<Rightarrow> None | Some v \<Rightarrow> strip_prefix ''Bearer '' v)"

subsection \<open>What needs no credential\<close>

definition schedule_mutation :: "string \<Rightarrow> string \<Rightarrow> bool" where
  "schedule_mutation verb path =
     (path = ''/api/schedules'' \<and> verb = ''POST''
      \<or> (case strip_prefix ''/api/schedules/'' path of
           None \<Rightarrow> False
         | Some rest \<Rightarrow>
             verb = ''POST''
               \<and> (case strip_suffix ''/run'' rest of
                    None \<Rightarrow> False
                  | Some id_part \<Rightarrow> id_part \<noteq> [] \<and> CHR ''/'' \<notin> set id_part)
             \<or> CHR ''/'' \<notin> set rest \<and> (verb = ''PUT'' \<or> verb = ''DELETE'')))"

definition stream_paths :: "string list" where
  "stream_paths = [''/api/logs/stream'', ''/api/logs/daemon/stream'', ''/api/events/stream'']"

text \<open>The requests that are let through from the same machine.\<close>

definition loopback_exempt :: "string \<Rightarrow> string \<Rightarrow> bool" where
  "loopback_exempt verb path =
     (path = ''/api/shutdown''
      \<or> path = ''/api/support/diagnostics'' \<and> verb = ''POST''
      \<or> path = ''/api/support/diagnostics/download'' \<and> verb = ''GET''
      \<or> path = ''/api/armaraos-home/download'' \<and> verb = ''GET''
      \<or> schedule_mutation verb path
      \<or> verb = ''GET'' \<and> path \<in> set stream_paths)"

definition public_any_method :: "string list" where
  "public_any_method =
     [''/'', ''/assets/armaraos-logo.png'', ''/logo.png'', ''/favicon.ico'', ''/api/health'',
      ''/api/health/detail'', ''/api/status'', ''/api/version'', ''/api/version/github-latest'',
      ''/api/ainl/runtime-version'', ''/api/auth/login'', ''/api/auth/logout'']"

definition public_get_paths :: "string list" where
  "public_get_paths =
     [''/.well-known/agent.json'', ''/api/agents'', ''/api/profiles'', ''/api/config'',
      ''/api/config/schema'', ''/api/models'', ''/api/models/aliases'', ''/api/providers'',
      ''/api/budget'', ''/api/budget/agents'', ''/api/network/status'',
      ''/api/system/network-hints'', ''/api/system/daemon-resources'',
      ''/api/system/mcp-host-readiness'', ''/api/a2a/agents'', ''/api/approvals'', ''/api/channels'',
      ''/api/hands'', ''/api/hands/active'', ''/api/skills'', ''/api/sessions'',
      ''/api/integrations'', ''/api/integrations/available'', ''/api/integrations/health'',
      ''/api/workflows'', ''/api/schedules'', ''/api/auth/check'', ''/api/secrets/catalog'',
      ''/api/secrets/dependencies'']"

definition public_get_prefixes :: "string list" where
  "public_get_prefixes =
     [''/a2a/'', ''/api/uploads/'', ''/api/budget/agents/'', ''/api/approvals/'', ''/api/hands/'',
      ''/api/cron/'', ''/api/ainl/library'']"

definition is_public :: "string \<Rightarrow> string \<Rightarrow> bool" where
  "is_public verb path =
     (path \<in> set public_any_method
      \<or> starts_with path ''/api/providers/github-copilot/oauth/''
      \<or> verb = ''GET'' \<and> (path \<in> set public_get_paths \<or> list_ex (starts_with path) public_get_prefixes))"

subsection \<open>The authentication of a request\<close>

datatype auth_outcome = RunNext | Unauthorized string string

definition auth :: "auth_codec \<Rightarrow> int \<Rightarrow> auth_state \<Rightarrow> api_request \<Rightarrow> auth_outcome" where
  "auth env now st rq =
     (if connect_info_is_loopback rq \<and> loopback_exempt (arq_method rq) (arq_path rq) then RunNext
      else if is_public (arq_method rq) (arq_path rq) then RunNext
      else
        let api_key = trim (as_api_key st)
        in if api_key = [] \<and> \<not> as_auth_enabled st then RunNext
           else
             let api_token = (case bearer_token (arq_header rq) of
                                Some t \<Rightarrow> Some t | None \<Rightarrow> arq_header rq ''x-api-key'');
                 header_auth = map_option (\<lambda>t. t = api_key) api_token;
                 query_auth = map_option (\<lambda>t. t = api_key) (query_token (arq_query rq))
             in if header_auth = Some True \<or> query_auth = Some True then RunNext
                else if as_auth_enabled st
                     \<and> (case extract_session_cookie rq of
                          None \<Rightarrow> False
                        | Some token \<Rightarrow> verify_session_token env now token (as_session_secret st) \<noteq> None)
                then RunNext
                else if header_auth \<noteq> None \<or> query_auth \<noteq> None
                then Unauthorized ''Invalid API key'' ''Authentication failed for this request (API key mismatch).''
                else Unauthorized ''Missing Authorization: Bearer <api_key> header''
                       ''No Bearer token was provided for a protected endpoint.'')"

subsection \<open>Login\<close>

record auth_config =
  acfg_enabled :: bool
  acfg_username :: string
  acfg_password_hash :: string
  acfg_session_ttl_hours :: "64 word"

definition auth_config_default :: auth_config where
  "auth_config_default =
     \<lparr>acfg_enabled = False, acfg_username = ''admin'', acfg_password_hash = [], acfg_session_ttl_hours = 168\<rparr>"

text \<open>The state the server hands to the middleware.\<close>

definition server_auth_state :: "string \<Rightarrow> auth_config \<Rightarrow> auth_state" where
  "server_auth_state config_api_key cfg =
     (let api_key = trim config_api_key
      in \<lparr>as_api_key = api_key, as_auth_enabled = acfg_enabled cfg,
          as_session_secret =
            (if api_key \<noteq> [] then api_key
             else if acfg_enabled cfg then acfg_password_hash cfg else [])\<rparr>)"

datatype login_outcome = LoginDisabled | LoginRefused string | LoginOk string string

text \<open>A login: its outcome carries the line of the audit log, or the token and the cookie.\<close>

definition auth_login :: "auth_codec \<Rightarrow> int \<Rightarrow> string \<Rightarrow> auth_config \<Rightarrow> string option \<Rightarrow> string option \<Rightarrow> login_outcome" where
  "auth_login env now config_api_key cfg username_field password_field =
     (if \<not> acfg_enabled cfg then LoginDisabled
      else
        let username = (case username_field of Some u \<Rightarrow> u | None \<Rightarrow> []);
            password = (case password_field of Some p \<Rightarrow> p | None \<Rightarrow> [])
        in if username \<noteq> acfg_username cfg \<or> \<not> verify_password env password (acfg_password_hash cfg)
           then LoginRefused (''username: '' @ username)
           else
             let api_key = trim config_api_key;
                 secret = (if api_key \<noteq> [] then api_key else acfg_password_hash cfg);
                 token = create_session_token env now username secret (acfg_session_ttl_hours cfg)
             in LoginOk token
                  (''openfang_session='' @ token @ ''; Path=/; HttpOnly; SameSite=Strict; Max-Age='' @
                   show_nat (unat (acfg_session_ttl_hours cfg * 3600))))"

subsection \<open>Web sockets\<close>

definition ws_upgrade_api_key_allowed :: "string \<Rightarrow> (string \<Rightarrow> string option) \<Rightarrow> string option \<Rightarrow> bool" where
  "ws_upgrade_api_key_allowed api_key_trimmed header query =
     (if api_key_trimmed = [] then True
      else
        let header_auth = (case bearer_token header of Some t \<Rightarrow> t = api_key_trimmed | None \<Rightarrow> False);
            query_auth = (case query_token query of Some t \<Rightarrow> t = api_key_trimmed | None \<Rightarrow> False)
        in header_auth \<or> query_auth)"

subsection \<open>Headers of responses\<close>

definition security_headers :: "(string, string) store \<Rightarrow> (string, string) store" where
  "security_headers headers =
     (let h1 = st_put ''x-xss-protection'' ''1; mode=block''
                 (st_put ''x-frame-options'' ''DENY'' (st_put ''x-content-type-options'' ''nosniff'' headers));
          h2 = (if st_get h1 ''content-security-policy'' = None
                then st_put ''content-security-policy'' (''default-src '' @ [CHR 0x27] @ ''none'' @ [CHR 0x27]
                       @ ''; frame-ancestors '' @ [CHR 0x27] @ ''none'' @ [CHR 0x27]) h1
                else h1)
      in st_put ''strict-transport-security'' ''max-age=63072000; includeSubDomains''
           (st_put ''cache-control'' ''no-store, no-cache, must-revalidate''
              (st_put ''referrer-policy'' ''strict-origin-when-cross-origin'' h2)))"

subsection \<open>The rate limiter\<close>

datatype path_pattern = Exactly string | StartsWith string | EndsIn string | Holds string

fun path_matches :: "path_pattern \<Rightarrow> string \<Rightarrow> bool" where
  "path_matches (Exactly p) path = (path = p)"
| "path_matches (StartsWith p) path = starts_with path p"
| "path_matches (EndsIn p) path = ends_with path p"
| "path_matches (Holds p) path = contains_str path p"

text \<open>The arms of the match in their order; the first that fits gives the cost.\<close>

definition cost_table :: "(string option \<times> path_pattern \<times> nat) list" where
  "cost_table =
     [(None, Exactly ''/api/health'', 1),
      (Some ''GET'', Exactly ''/api/status'', 1),
      (Some ''GET'', Exactly ''/api/system/daemon-resources'', 1),
      (Some ''GET'', Exactly ''/api/version'', 1),
      (Some ''GET'', Exactly ''/api/version/github-latest'', 8),
      (Some ''GET'', Exactly ''/api/ainl/runtime-version'', 8),
      (Some ''GET'', Exactly ''/api/tools'', 1),
      (Some ''GET'', EndsIn ''/llm-tools'', 2),
      (Some ''GET'', Exactly ''/api/agents'', 2),
      (Some ''GET'', Exactly ''/api/skills'', 2),
      (Some ''GET'', Exactly ''/api/peers'', 2),
      (Some ''GET'', Exactly ''/api/config'', 2),
      (Some ''GET'', Exactly ''/api/usage'', 3),
      (Some ''GET'', StartsWith ''/api/audit'', 5),
      (Some ''GET'', StartsWith ''/api/marketplace'', 10),
      (Some ''POST'', Exactly ''/api/agents'', 50),
      (Some ''POST'', Holds ''/message'', 30),
      (Some ''POST'', Holds ''/run'', 100),
      (Some ''POST'', Exactly ''/api/skills/install'', 50),
      (Some ''POST'', Exactly ''/api/skills/uninstall'', 10),
      (Some ''POST'', Exactly ''/api/skills/reload'', 5),
      (Some ''POST'', Exactly ''/api/migrate'', 100),
      (Some ''GET'', Exactly ''/api/ainl/library'', 2),
      (Some ''GET'', Exactly ''/api/ainl/library/curated'', 2),
      (Some ''GET'', Exactly ''/api/events/stream'', 2),
      (Some ''GET'', Exactly ''/api/logs/daemon/recent'', 5),
      (Some ''GET'', Exactly ''/api/logs/daemon/stream'', 2),
      (Some ''POST'', Exactly ''/api/ainl/library/register-curated'', 40),
      (Some ''POST'', Exactly ''/api/learning/skill-draft'', 20),
      (Some ''PUT'', Holds ''/update'', 10)]"

definition operation_cost :: "string \<Rightarrow> string \<Rightarrow> nat" where
  "operation_cost verb path =
     (case List.find (\<lambda>(m, p, c). (m = None \<or> m = Some verb) \<and> path_matches p path) cost_table of
        Some (m, p, c) \<Rightarrow> c
      | None \<Rightarrow> 5)"

text \<open>The limiter answers whether an address may spend a cost; refusals carry the detail text.\<close>

definition gcra_rate_limit :: "(ip_addr \<Rightarrow> nat \<Rightarrow> bool) \<Rightarrow> api_request \<Rightarrow> string option" where
  "gcra_rate_limit check_key_n rq =
     (let ip = (case arq_peer rq of Some i \<Rightarrow> i | None \<Rightarrow> IpV4 127 0 0 1);
          cost = operation_cost (arq_method rq) (arq_path rq)
      in if check_key_n ip cost then None
         else Some (''Token budget exhausted for this IP (cost '' @ show_nat cost @ '' for '' @ arq_method rq @
                    '' '' @ arq_path rq @ ''). Retry after ~60s.''))"

text \<open>The layers of the server: the limiter outside, then authentication, then the handler.\<close>

datatype layer_outcome = TooManyRequests string | AuthFailed string string | Handled

definition server_layers ::
  "auth_codec \<Rightarrow> (ip_addr \<Rightarrow> nat \<Rightarrow> bool) \<Rightarrow> int \<Rightarrow> auth_state \<Rightarrow> api_request \<Rightarrow> layer_outcome" where
  "server_layers env check_key_n now st rq =
     (case gcra_rate_limit check_key_n rq of
        Some detail \<Rightarrow> TooManyRequests detail
      | None \<Rightarrow> (case auth env now st rq of RunNext \<Rightarrow> Handled | Unauthorized e d \<Rightarrow> AuthFailed e d))"

subsection \<open>Slots of web sockets\<close>

definition MAX_WS_PER_IP :: nat where
  "MAX_WS_PER_IP = 5"

type_synonym ws_tracker = "(ip_addr, nat) store"

text \<open>One step: the entry stays locked between the lookup and the count.\<close>

definition try_acquire_ws_slot :: "ip_addr \<Rightarrow> ws_tracker \<Rightarrow> bool \<times> ws_tracker" where
  "try_acquire_ws_slot ip tr =
     (let cur = (case st_get tr ip of Some n \<Rightarrow> n | None \<Rightarrow> 0)
      in if cur \<ge> MAX_WS_PER_IP then (False, st_put ip cur tr) else (True, st_put ip (cur + 1) tr))"

text \<open>
  The end of a guard takes two steps: the count, which wraps below zero, and, when it was at most
  one, the removal of the entry.
\<close>

definition guard_decrement :: "ip_addr \<Rightarrow> ws_tracker \<Rightarrow> bool \<times> ws_tracker" where
  "guard_decrement ip tr =
     (case st_get tr ip of
        None \<Rightarrow> (False, tr)
      | Some prev \<Rightarrow> (prev \<le> 1, st_put ip (if prev = 0 then 2 ^ 64 - 1 else prev - 1) tr))"

definition guard_remove :: "ip_addr \<Rightarrow> ws_tracker \<Rightarrow> ws_tracker" where
  "guard_remove ip tr = st_del ip tr"

definition guard_drop :: "ip_addr \<Rightarrow> ws_tracker \<Rightarrow> ws_tracker" where
  "guard_drop ip tr = (let (last_one, tr1) = guard_decrement ip tr in if last_one then guard_remove ip tr1 else tr1)"

section \<open>Tokens\<close>

lemma split_three_parts:
  assumes "CHR '':'' \<notin> set a" "CHR '':'' \<notin> set b"
  shows "split_three (a @ '':'' @ b @ '':'' @ c) = Some (a, b, c)"
proof -
  have f: "find_char CHR '':'' (x @ CHR '':'' # y) = Some (length x)" if "CHR '':'' \<notin> set x" for x y
    using that by (induction x) auto
  show ?thesis using f [OF assms(1)] f [OF assms(2)] by (simp add: split_three_def)
qed

lemma split_three_SomeD:
  assumes "split_three s = Some (a, b, c)"
  shows "s = a @ '':'' @ b @ '':'' @ c"
proof -
  have f: "x = take i x @ CHR '':'' # drop (Suc i) x" if "find_char CHR '':'' x = Some i" for x i
    using that
  proof (induction x arbitrary: i)
    case (Cons y x)
    then show ?case by (cases "y = CHR '':''") auto
  qed simp
  from assms obtain i j where i: "find_char CHR '':'' s = Some i" "a = take i s"
      and j: "find_char CHR '':'' (drop (Suc i) s) = Some j" "b = take j (drop (Suc i) s)"
        "c = drop (Suc j) (drop (Suc i) s)"
    by (auto simp: split_three_def split: option.splits)
  show ?thesis using f [OF i(1)] f [OF j(1)] i(2) j(2,3) by (metis append_Cons append_Nil)
qed

text \<open>Base64 is undone by its decoder, and digests in hexadecimal and numbers are plain ASCII.\<close>

definition auth_codec_laws :: "auth_codec \<Rightarrow> bool" where
  "auth_codec_laws env \<longleftrightarrow>
     (\<forall>s. ac_unbase64 env (ac_base64 env s) = Some s)
     \<and> (\<forall>k d. \<forall>c \<in> set (ac_hmac_hex env k d). (of_char c :: nat) < 128)"

lemma show_int_ascii: "c \<in> set (show_int i) \<Longrightarrow> (of_char c :: nat) < 128 \<and> c \<noteq> CHR '':''"
proof -
  have d: "(of_char c :: nat) < 128 \<and> c \<noteq> CHR '':''" if "digit_val c \<noteq> None" for c
    using that by (auto simp: digit_val_def Let_def split: if_splits)
  assume "c \<in> set (show_int i)"
  then have "c = CHR ''-'' \<or> digit_val c \<noteq> None"
    using show_nat_digits by (auto simp: show_int_def split: if_splits)
  then show ?thesis using d by auto
qed

lemma session_expiry_range: "- (2 ^ 63) \<le> session_expiry now ttl" "session_expiry now ttl < 2 ^ 63"
  using sint_range_size [of "word_of_int now + ttl * 3600"]
  by (auto simp: session_expiry_def word_size)

lemma verify_token_SomeD:
  assumes "verify_session_token env now token secret = Some u"
  shows "\<exists>e expiry. ac_unbase64 env token = Some (u @ '':'' @ e @ '':'' @ ac_hmac_hex env secret (u @ '':'' @ e))
    \<and> parse_i64 e = Some expiry \<and> now \<le> expiry"
  using assms
  by (auto simp: verify_session_token_def split: option.splits if_splits dest!: split_three_SomeD)

text \<open>
  A session token for a name without a colon is accepted under its secret until its expiry, and
  stands for that name; after the expiry it is refused.
\<close>

lemma session_token_valid:
  assumes "auth_codec_laws env" "CHR '':'' \<notin> set username" "well_formed_utf8 (str_bytes username)"
  shows "verify_session_token env later (create_session_token env now username secret ttl) secret
    = (if later > session_expiry now ttl then None else Some username)"
proof -
  let ?e = "show_int (session_expiry now ttl)"
  let ?sig = "ac_hmac_hex env secret (username @ '':'' @ ?e)"
  let ?text = "username @ '':'' @ ?e @ '':'' @ ?sig"
  have parts: "split_three ?text = Some (username, ?e, ?sig)"
    by (rule split_three_parts [OF assms(2)]) (use show_int_ascii in blast)
  have ascii: "well_formed_utf8 (str_bytes t)" if "\<forall>c \<in> set t. (of_char c :: nat) < 128" for t
    using that by (intro well_formed_utf8_ascii) (auto simp: str_bytes_def)
  have "\<forall>c \<in> set ('':'' @ ?e @ '':'' @ ?sig). (of_char c :: nat) < 128"
    using assms(1) show_int_ascii by (auto simp: auth_codec_laws_def)
  from well_formed_utf8_append [OF assms(3) ascii [OF this]] have "well_formed_utf8 (str_bytes ?text)"
    by (simp add: str_bytes_def)
  moreover have "parse_i64 ?e = Some (session_expiry now ttl)"
    by (rule parse_show_int) (rule session_expiry_range)+
  ultimately show ?thesis
    using assms(1) parts
    by (simp add: verify_session_token_def create_session_token_def Let_def auth_codec_laws_def)
qed

definition plain_codec :: auth_codec where
  "plain_codec = \<lparr>ac_base64 = (\<lambda>s. s), ac_unbase64 = Some,
     ac_hmac_hex = (\<lambda>k d. map (\<lambda>c. if (of_char c :: nat) < 128 then c else CHR ''?'') (k @ d)),
     ac_argon2_verifies = (\<lambda>p h. h = CHR ''$'' # p)\<rparr>"

lemma plain_codec_laws: "auth_codec_laws plain_codec"
  by (auto simp: auth_codec_laws_def plain_codec_def)

text \<open>A lifetime of many hours wraps around, and the token has expired before it is used.\<close>

lemma long_lifetime_expires_at_once:
  "verify_session_token plain_codec 0 (create_session_token plain_codec 0 ''admin'' ''key'' 2562047788015216) ''key'' = None"
proof -
  have "well_formed_utf8 (str_bytes ''admin'')" by (simp add: str_bytes_def)
  moreover have "session_expiry 0 2562047788015216 < 0" by (simp add: session_expiry_def)
  ultimately show ?thesis
    using session_token_valid [OF plain_codec_laws, of "''admin''" 0 0 "''key''" 2562047788015216] by simp
qed

section \<open>Who gets in\<close>

lemma auth_runs_cases:
  assumes "auth env now st rq = RunNext"
    and "\<not> (connect_info_is_loopback rq \<and> loopback_exempt (arq_method rq) (arq_path rq))"
    and "\<not> is_public (arq_method rq) (arq_path rq)"
    and "trim (as_api_key st) \<noteq> [] \<or> as_auth_enabled st"
  obtains (key) t where "t = trim (as_api_key st)"
      "bearer_token (arq_header rq) = Some t \<or> arq_header rq ''x-api-key'' = Some t \<or> query_token (arq_query rq) = Some t"
  | (session) token u where "as_auth_enabled st" "extract_session_cookie rq = Some token"
      "verify_session_token env now token (as_session_secret st) = Some u"
  using assms by (auto simp: auth_def Let_def split: if_splits option.splits)

text \<open>
  C33. With an API key configured, a request from another machine that changes something, that is, with
  a method other than GET and outside the twelve paths open to every method and the login of the
  GitHub Copilot provider, runs only if it presents exactly that key, as a bearer token, in the
  \<^verbatim>\<open>x-api-key\<close> header or as the token of the query, or, where the dashboard login is on as well, carries a
  session cookie whose signature is the keyed digest of its user and expiry under that key and whose
  expiry has not passed. (Without a key the login alone does not protect: see the next property.)
\<close>

theorem remote_change_needs_credential:
  assumes "trim config_api_key = key" "key \<noteq> []"
    and "auth env now (server_auth_state config_api_key cfg) rq = RunNext"
    and "\<not> connect_info_is_loopback rq" "arq_method rq \<noteq> ''GET''"
    and "arq_path rq \<notin> {''/'', ''/assets/armaraos-logo.png'', ''/logo.png'', ''/favicon.ico'', ''/api/health'',
      ''/api/health/detail'', ''/api/status'', ''/api/version'', ''/api/version/github-latest'',
      ''/api/ainl/runtime-version'', ''/api/auth/login'', ''/api/auth/logout''}"
    and "\<not> starts_with (arq_path rq) ''/api/providers/github-copilot/oauth/''"
  shows "bearer_token (arq_header rq) = Some key
    \<or> arq_header rq ''x-api-key'' = Some key
    \<or> query_token (arq_query rq) = Some key
    \<or> acfg_enabled cfg \<and> (\<exists>cookie user e expiry. extract_session_cookie rq = Some cookie
         \<and> ac_unbase64 env cookie = Some (user @ '':'' @ e @ '':'' @ ac_hmac_hex env key (user @ '':'' @ e))
         \<and> parse_i64 e = Some expiry \<and> now \<le> expiry)"
proof -
  have state: "trim (as_api_key (server_auth_state config_api_key cfg)) = key"
      "as_session_secret (server_auth_state config_api_key cfg) = key"
      "as_auth_enabled (server_auth_state config_api_key cfg) = acfg_enabled cfg"
    using assms(1,2) by (auto simp: server_auth_state_def Let_def)
  have loc: "\<not> (connect_info_is_loopback rq \<and> loopback_exempt (arq_method rq) (arq_path rq))"
    using assms(4) by simp
  have pub: "\<not> is_public (arq_method rq) (arq_path rq)"
    using assms(5-7) by (simp add: is_public_def public_any_method_def)
  have on: "trim (as_api_key (server_auth_state config_api_key cfg)) \<noteq> []
      \<or> as_auth_enabled (server_auth_state config_api_key cfg)"
    using assms(2) state by simp
  show ?thesis
  proof (cases rule: auth_runs_cases [OF assms(3) loc pub on])
    case (1 t)
    then show ?thesis using state(1) by auto
  next
    case (2 token u)
    then show ?thesis using state verify_token_SomeD [OF 2(3)] by auto
  qed
qed

definition spawn_request :: "(string \<Rightarrow> string option) \<Rightarrow> api_request" where
  "spawn_request header = \<lparr>arq_method = ''POST'', arq_path = ''/api/agents'', arq_query = None,
     arq_header = header, arq_peer = Some (IpV4 10 0 0 7)\<rparr>"

lemma trim_plain: "ws_front (str_bytes s) = 0 \<Longrightarrow> ws_back s = 0 \<Longrightarrow> trim s = s"
  by (simp add: trim_def trim_start_id) (subst trim_end.simps, simp add: Let_def)

lemma trim_key: "trim ''key'' = ''key''"
  by (rule trim_plain) (simp_all add: str_bytes_def ws_back_def Let_def)

theorem remote_change_needs_credential_witness:
  "auth plain_codec 0 (server_auth_state ''key'' auth_config_default)
     (spawn_request (\<lambda>h. if h = ''x-api-key'' then Some ''key'' else None)) = RunNext
   \<and> auth plain_codec 0 (server_auth_state ''key'' auth_config_default) (spawn_request (\<lambda>_. None)) \<noteq> RunNext"
proof -
  let ?rq = "spawn_request (\<lambda>h. if h = ''x-api-key'' then Some ''key'' else None)"
  have run: "auth plain_codec 0 (server_auth_state ''key'' auth_config_default) ?rq = RunNext"
    by (simp add: auth_def server_auth_state_def Let_def trim_key spawn_request_def bearer_token_def
        connect_info_is_loopback_def is_loopback_ip_def)
  have "auth plain_codec 0 (server_auth_state ''key'' auth_config_default) (spawn_request (\<lambda>_. None)) \<noteq> RunNext"
  proof
    assume *: "auth plain_codec 0 (server_auth_state ''key'' auth_config_default) (spawn_request (\<lambda>_. None)) = RunNext"
    show False
      using remote_change_needs_credential [OF trim_key _ *]
      by (simp add: spawn_request_def connect_info_is_loopback_def is_loopback_ip_def
          starts_with_def bearer_token_def query_token_def auth_config_default_def)
  qed
  then show ?thesis using run by simp
qed

text \<open>
  C34. When the dashboard login is on and no API key is set, an empty token is the key: any request
  with \<^verbatim>\<open>?token=\<close> runs, whatever its path, method and origin, without any password. The same request
  without it is refused.
\<close>

theorem empty_token_passes_login:
  assumes "trim config_api_key = []" "acfg_enabled cfg" "query_token (arq_query rq) = Some []"
    and "\<not> connect_info_is_loopback rq" "\<not> is_public (arq_method rq) (arq_path rq)"
  shows "auth env now (server_auth_state config_api_key cfg) rq = RunNext
    \<and> auth env now (server_auth_state config_api_key cfg) (rq\<lparr>arq_query := None, arq_header := \<lambda>_. None\<rparr>) \<noteq> RunNext"
proof -
  have t: "trim [] = []" by (rule trim_plain) (simp_all add: str_bytes_def ws_back_def Let_def)
  have "\<not> connect_info_is_loopback (rq\<lparr>arq_query := None, arq_header := \<lambda>_. None\<rparr>)"
    using assms(4) by (simp add: connect_info_is_loopback_def)
  then show ?thesis
    using assms t
    by (simp add: auth_def server_auth_state_def Let_def bearer_token_def query_token_def extract_session_cookie_def)
qed

theorem empty_token_passes_login_witness:
  "auth plain_codec 0 (server_auth_state [] (auth_config_default\<lparr>acfg_enabled := True, acfg_password_hash := ''$pw''\<rparr>))
     (spawn_request (\<lambda>_. None)\<lparr>arq_query := Some ''token=''\<rparr>) = RunNext"
proof -
  have t: "trim [] = []" by (rule trim_plain) (simp_all add: str_bytes_def ws_back_def Let_def)
  show ?thesis
    by (rule conjunct1 [OF empty_token_passes_login])
       (simp_all add: t auth_config_default_def spawn_request_def query_token_def strip_prefix_def
         connect_info_is_loopback_def is_loopback_ip_def is_public_def public_any_method_def starts_with_def)
qed

text \<open>With the login on but neither a key nor a password configured, the signing secret is empty.\<close>

lemma unset_password_signs_with_nothing:
  "trim config_api_key = [] \<Longrightarrow> as_session_secret (server_auth_state config_api_key (auth_config_default\<lparr>acfg_enabled := True\<rparr>)) = []"
  by (simp add: server_auth_state_def auth_config_default_def Let_def)

text \<open>A successful login yields a cookie the middleware accepts while it lasts.\<close>

lemma login_token_accepted:
  assumes "auth_login env now config_api_key cfg u p = LoginOk token cookie"
    and "auth_codec_laws env" "CHR '':'' \<notin> set (acfg_username cfg)" "well_formed_utf8 (str_bytes (acfg_username cfg))"
    and "later \<le> session_expiry now (acfg_session_ttl_hours cfg)"
  shows "verify_session_token env later token (as_session_secret (server_auth_state config_api_key cfg)) = Some (acfg_username cfg)"
proof -
  have tok: "token = create_session_token env now (acfg_username cfg)
      (as_session_secret (server_auth_state config_api_key cfg)) (acfg_session_ttl_hours cfg)"
    using assms(1) by (auto simp: auth_login_def Let_def server_auth_state_def split: if_splits option.splits)
  have "\<not> later > session_expiry now (acfg_session_ttl_hours cfg)" using assms(5) by simp
  then show ?thesis
    using session_token_valid [OF assms(2-4)] tok by simp
qed

lemma operation_cost_range: "1 \<le> operation_cost verb path \<and> operation_cost verb path \<le> 100"
proof (cases "List.find (\<lambda>(m, p, c). (m = None \<or> m = Some verb) \<and> path_matches p path) cost_table")
  case (Some e)
  then have "e \<in> set cost_table" by (auto dest: find_SomeD)
  then show ?thesis using Some by (auto simp: operation_cost_def cost_table_def)
next
  case None
  then show ?thesis by (simp add: operation_cost_def)
qed

section \<open>The limit of web sockets\<close>

text \<open>Connections and disconnections one after the other: the tracker and the live guards.\<close>

datatype ws_op = WsConnect ip_addr | WsClose ip_addr

fun ws_run :: "ws_op \<Rightarrow> ws_tracker \<times> ip_addr list \<Rightarrow> ws_tracker \<times> ip_addr list" where
  "ws_run (WsConnect ip) (tr, live) =
     (let (ok, tr1) = try_acquire_ws_slot ip tr in (tr1, if ok then ip # live else live))"
| "ws_run (WsClose ip) (tr, live) =
     (if ip \<in> set live then (guard_drop ip tr, remove1 ip live) else (tr, live))"

definition ws_inv :: "ws_tracker \<times> ip_addr list \<Rightarrow> bool" where
  "ws_inv s \<longleftrightarrow>
     (\<forall>ip. count_list (snd s) ip \<le> MAX_WS_PER_IP
        \<and> st_get (fst s) ip = (if count_list (snd s) ip = 0 then None else Some (count_list (snd s) ip)))"

lemma count_remove1: "x \<in> set xs \<Longrightarrow> count_list (remove1 x xs) y = count_list xs y - (if x = y then 1 else 0)"
  by (induction xs) (auto simp: count_list_0_iff)

lemma ws_inv_step: "ws_inv s \<Longrightarrow> ws_inv (ws_run x s)"
proof (cases s)
  fix tr live assume inv: "ws_inv s" and s: "s = (tr, live)"
  have get: "st_get tr ip = (if count_list live ip = 0 then None else Some (count_list live ip))"
    and le: "count_list live ip \<le> MAX_WS_PER_IP" for ip
    using inv s by (auto simp: ws_inv_def)
  show "ws_inv (ws_run x s)"
  proof (cases x)
    case (WsConnect ip)
    have c: "(case st_get tr ip of Some n \<Rightarrow> n | None \<Rightarrow> 0) = count_list live ip" by (simp add: get)
    show ?thesis
    proof (cases "count_list live ip \<ge> MAX_WS_PER_IP")
      case True
      then have "ws_run x s = (st_put ip (count_list live ip) tr, live)"
        using WsConnect s c by (simp add: try_acquire_ws_slot_def Let_def)
      then show ?thesis using True get le by (auto simp: ws_inv_def update_conv' MAX_WS_PER_IP_def)
    next
      case False
      then have "ws_run x s = (st_put ip (count_list live ip + 1) tr, ip # live)"
        using WsConnect s c by (simp add: try_acquire_ws_slot_def Let_def)
      then show ?thesis using False get le by (auto simp: ws_inv_def update_conv' MAX_WS_PER_IP_def)
    qed
  next
    case (WsClose ip)
    show ?thesis
    proof (cases "ip \<in> set live")
      case True
      then have n: "count_list live ip \<noteq> 0" by (simp add: count_list_0_iff)
      then have g: "st_get tr ip = Some (count_list live ip)" by (simp add: get)
      have "ws_inv (guard_drop ip tr, remove1 ip live)"
        using True g n get le
        by (auto simp: ws_inv_def guard_drop_def guard_decrement_def guard_remove_def count_remove1 update_conv'
            delete_conv' diff_le_self le_trans [OF diff_le_self])
      then show ?thesis using WsClose s True by simp
    qed (use WsClose s inv in simp)
  qed
qed

interpretation slots: run_from ws_run "\<lambda>_. True" ws_inv "([], [])"
  by unfold_locales (erule ws_inv_step, simp add: ws_inv_def)

text \<open>The steps of closing interleave with other connections.\<close>

inductive ws_race :: "ws_tracker \<times> ip_addr list \<times> ip_addr list \<Rightarrow> bool" where
  none_open: "ws_race ([], [], [])"
| opened: "ws_race (tr, live, removing) \<Longrightarrow> try_acquire_ws_slot ip tr = (True, tr')
    \<Longrightarrow> ws_race (tr', ip # live, removing)"
| counted: "ws_race (tr, live, removing) \<Longrightarrow> ip \<in> set live \<Longrightarrow> guard_decrement ip tr = (last_one, tr')
    \<Longrightarrow> ws_race (tr', remove1 ip live, if last_one then ip # removing else removing)"
| removed: "ws_race (tr, live, removing) \<Longrightarrow> ip \<in> set removing
    \<Longrightarrow> ws_race (guard_remove ip tr, live, remove1 ip removing)"

lemma ws_race_opens:
  assumes "ws_race (tr, live, removing)" "(case st_get tr ip of Some c \<Rightarrow> c | None \<Rightarrow> 0) + n \<le> MAX_WS_PER_IP"
  shows "\<exists>tr'. ws_race (tr', replicate n ip @ live, removing)"
  using assms
proof (induction n arbitrary: tr live)
  case (Suc n)
  let ?c = "case st_get tr ip of Some c \<Rightarrow> c | None \<Rightarrow> 0"
  have a: "try_acquire_ws_slot ip tr = (True, st_put ip (?c + 1) tr)"
    using Suc.prems(2) by (simp add: try_acquire_ws_slot_def Let_def)
  have "(case st_get (st_put ip (?c + 1) tr) ip of Some c \<Rightarrow> c | None \<Rightarrow> 0) + n \<le> MAX_WS_PER_IP"
    using Suc.prems(2) by (simp add: update_conv')
  from Suc.IH [OF ws_race.opened [OF Suc.prems(1) a] this]
  obtain tr' where "ws_race (tr', replicate n ip @ ip # live, removing)" by blast
  moreover have "replicate n ip @ ip # live = replicate (Suc n) ip @ live"
    by (metis append_Cons replicate_Suc replicate_app_Cons_same)
  ultimately show ?case by metis
qed auto

text \<open>
  C35. Connections that open and close one after the other never exceed five at one address. The end of
  a connection takes two steps, though, and a connection opened in between loses its count: an
  address can hold six.
\<close>

theorem ws_limit_only_without_races:
  "count_list (snd (fold ws_run ops ([], []))) ip \<le> MAX_WS_PER_IP
   \<and> (\<exists>tr live. ws_race (tr, live, []) \<and> count_list live ip = MAX_WS_PER_IP + 1)"
proof
  have "ws_inv (fold ws_run ops ([], []))" by (rule slots.reached_inv) (simp add: list_all_iff)
  then show "count_list (snd (fold ws_run ops ([], []))) ip \<le> MAX_WS_PER_IP" by (simp add: ws_inv_def)
next
  have 1: "ws_race ([(ip, 1)], [ip], [])"
    using ws_race.opened [OF ws_race.none_open, of ip "[(ip, 1)]"]
    by (simp add: try_acquire_ws_slot_def MAX_WS_PER_IP_def)
  have 2: "ws_race ([(ip, 0)], [], [ip])"
    using ws_race.counted [OF 1, of ip True "[(ip, 0)]"] by (simp add: guard_decrement_def)
  have 3: "ws_race ([(ip, 1)], [ip], [ip])"
    using ws_race.opened [OF 2, of ip "[(ip, 1)]"] by (simp add: try_acquire_ws_slot_def MAX_WS_PER_IP_def)
  have 4: "ws_race ([], [ip], [])"
    using ws_race.removed [OF 3, of ip] by (simp add: guard_remove_def)
  have "\<exists>tr. ws_race (tr, replicate 5 ip @ [ip], [])"
    by (rule ws_race_opens [OF 4]) (simp add: MAX_WS_PER_IP_def)
  then obtain tr where "ws_race (tr, replicate 5 ip @ [ip], [])" ..
  moreover have "count_list (replicate 5 ip @ [ip]) ip = MAX_WS_PER_IP + 1"
    by (simp add: MAX_WS_PER_IP_def numeral_eq_Suc)
  ultimately show "\<exists>tr live. ws_race (tr, live, []) \<and> count_list live ip = MAX_WS_PER_IP + 1" by blast
qed

end
