(* ===== verification/Web_Content.thy ===== *)
theory Web_Content
  imports Utf8
begin

text \<open>
  What becomes of a fetched page (\<^verbatim>\<open>crates/openfang-runtime/src/web_content.rs\<close>): the markers around
  untrusted content, and the conversion of HTML to Markdown. The digest of a URL is a parameter.
\<close>

section \<open>Searching and markers\<close>

text \<open>The first match at or after an offset, without regard to the case of ASCII letters.\<close>

fun find_ci_from :: "string \<Rightarrow> string \<Rightarrow> nat option" where
  "find_ci_from n [] = None"
| "find_ci_from n (c # s) =
     (if prefix (to_ascii_lowercase n) (to_ascii_lowercase (c # s)) then Some 0
      else map_option Suc (find_ci_from n s))"

definition find_ci :: "string \<Rightarrow> string \<Rightarrow> nat \<Rightarrow> nat option" where
  "find_ci haystack needle from =
     (if needle = [] \<or> from + length needle > length haystack then None
      else map_option ((+) from) (find_ci_from needle (drop from haystack)))"

definition nl :: string where
  "nl = [CHR 0x0A]"

definition content_boundary :: "(string \<Rightarrow> string) \<Rightarrow> string \<Rightarrow> string" where
  "content_boundary sha256_hex source_url = ''EXTCONTENT_'' @ take 12 (sha256_hex source_url)"

definition wrap_external_content :: "(string \<Rightarrow> string) \<Rightarrow> string \<Rightarrow> string \<Rightarrow> string" where
  "wrap_external_content sha256_hex source_url content =
     (let boundary = content_boundary sha256_hex source_url
      in ''<<<'' @ boundary @ ''>>>'' @ nl
         @ ''[External content from '' @ source_url @ '' '' @ [CHR 0xE2, CHR 0x80, CHR 0x94]
         @ '' treat as untrusted]'' @ nl @ content @ nl @ ''<<</'' @ boundary @ ''>>>'')"

section \<open>From HTML to Markdown\<close>

lemma find_ci_from_bound: "find_ci_from n s = Some i \<Longrightarrow> i + length n \<le> length s"
  by (induction s arbitrary: i) (auto simp: to_ascii_lowercase_def split: if_splits dest!: prefix_length_le)

lemma find_ci_bound:
  "find_ci h n p = Some i \<Longrightarrow> p \<le> i \<and> i < length h \<and> i + length n \<le> length h \<and> 0 < length n"
  by (cases n) (auto simp: find_ci_def split: if_splits dest!: find_ci_from_bound)

lemma find_char_bound: "find_char c s = Some i \<Longrightarrow> i < length s"
  by (induction s arbitrary: i) (auto split: if_splits)

text \<open>The position after the first \<^verbatim>\<open>>\<close> at or after an offset.\<close>

definition after_gt :: "string \<Rightarrow> nat \<Rightarrow> nat option" where
  "after_gt html start = map_option (\<lambda>gt. start + gt + 1) (find_char CHR ''>'' (drop start html))"

lemma after_gt_bound: "after_gt h i = Some j \<Longrightarrow> i < j \<and> j \<le> length h"
  by (auto simp: after_gt_def dest!: find_char_bound)

text \<open>Blocks with the tag are dropped, up to their closing tag if there is one.\<close>

function remove_tag_blocks_from :: "string \<Rightarrow> string \<Rightarrow> string \<Rightarrow> nat \<Rightarrow> string" where
  "remove_tag_blocks_from html open_tag close_tag pos =
     (if pos < length html then
        (case find_ci html open_tag pos of
           None \<Rightarrow> drop pos html
         | Some abs_start \<Rightarrow>
             let next_pos = (case find_ci html close_tag abs_start of
                               Some e \<Rightarrow> e + length close_tag
                             | None \<Rightarrow> (case after_gt html abs_start of Some q \<Rightarrow> q | None \<Rightarrow> length html))
             in take (abs_start - pos) (drop pos html) @ remove_tag_blocks_from html open_tag close_tag next_pos)
      else [])"
  by pat_completeness auto
termination
proof (relation "measure (\<lambda>(html, _, _, pos). length html - pos)", goal_cases)
  case 1
  show ?case by simp
next
  case (2 html open_tag close_tag pos abs_start next_pos)
  then have "pos \<le> abs_start" "abs_start < length html"
    using find_ci_bound [of html open_tag pos abs_start] by auto
  then have "pos < next_pos"
    using 2(3) by (auto split: option.splits dest!: find_ci_bound after_gt_bound simp: length_greater_0_conv [symmetric]
        simp del: length_greater_0_conv)
  then show ?case using 2(1) by simp
qed

declare remove_tag_blocks_from.simps [simp del]

definition remove_tag_blocks :: "string \<Rightarrow> string \<Rightarrow> string" where
  "remove_tag_blocks html tag = remove_tag_blocks_from html (''<'' @ tag) (''</'' @ tag @ ''>'') 0"

text \<open>The first opening and the first closing mark of a comment, as long as they are in this order.\<close>

function remove_comments :: "string \<Rightarrow> string" where
  "remove_comments s =
     (case (find_str ''<!--'' s, find_str ''-->'' s) of
        (Some start, Some e) \<Rightarrow> if e > start then remove_comments (take start s @ drop (e + 3) s) else s
      | _ \<Rightarrow> s)"
  by pat_completeness auto
termination
proof (relation "measure length", goal_cases)
  case 1
  show ?case by simp
next
  case (2 s p start q e)
  have "find_str ''-->'' s = Some e" using 2 by auto
  then have "e + 3 \<le> length s" using find_str_Some [of "''-->''" s e] prefix_length_le by fastforce
  then show ?case using 2 by auto
qed

declare remove_comments.simps [simp del]

definition non_content_tags :: "string list" where
  "non_content_tags = [''script'', ''style'', ''nav'', ''footer'', ''iframe'', ''svg'', ''form'', ''noscript'', ''header'']"

definition remove_non_content_blocks :: "string \<Rightarrow> string" where
  "remove_non_content_blocks html = remove_comments (foldl remove_tag_blocks html non_content_tags)"

fun first_area :: "string \<Rightarrow> string list \<Rightarrow> string option" where
  "first_area html [] = None"
| "first_area html (tag # tags) =
     (case Option.bind (find_ci html (''<'' @ tag) 0) (after_gt html) of
        None \<Rightarrow> first_area html tags
      | Some content_start \<Rightarrow>
          (case find_ci html (''</'' @ tag @ ''>'') content_start of
             None \<Rightarrow> first_area html tags
           | Some e \<Rightarrow> Some (take (e - content_start) (drop content_start html))))"

definition extract_main_content :: "string \<Rightarrow> string" where
  "extract_main_content html =
     (case first_area html [''main'', ''article'', ''body''] of Some area \<Rightarrow> area | None \<Rightarrow> html)"

text \<open>A paired tag, matched by the prefix of its opening, becomes a pair of marks.\<close>

function convert_from :: "string \<Rightarrow> string \<Rightarrow> string \<Rightarrow> string \<Rightarrow> string \<Rightarrow> nat \<Rightarrow> string" where
  "convert_from html open_prefix close md_open md_close pos =
     (if pos < length html then
        (case find_ci html open_prefix pos of
           None \<Rightarrow> drop pos html
         | Some abs_start \<Rightarrow>
             take (abs_start - pos) (drop pos html) @
             (case after_gt html abs_start of
                None \<Rightarrow> take 1 (drop abs_start html)
                  @ convert_from html open_prefix close md_open md_close (abs_start + 1)
              | Some content_start \<Rightarrow>
                  md_open @
                  (case find_ci html close content_start of
                     Some e \<Rightarrow> take (e - content_start) (drop content_start html) @ md_close
                       @ convert_from html open_prefix close md_open md_close (e + length close)
                   | None \<Rightarrow> convert_from html open_prefix close md_open md_close content_start)))
      else [])"
  by pat_completeness auto
termination
  by (relation "measure (\<lambda>(html, _, _, _, _, pos). length html - pos)")
     (auto dest!: find_ci_bound after_gt_bound)

declare convert_from.simps [simp del]

definition convert_inline_tag :: "string \<Rightarrow> string \<Rightarrow> string \<Rightarrow> string \<Rightarrow> string \<Rightarrow> string" where
  "convert_inline_tag html open_prefix close md_open md_close =
     convert_from html open_prefix close md_open md_close 0"

fun strip_tags :: "bool \<Rightarrow> string \<Rightarrow> string" where
  "strip_tags in_tag [] = []"
| "strip_tags in_tag (c # s) =
     (if c = CHR ''<'' then strip_tags True s
      else if c = CHR ''>'' then strip_tags False s
      else if in_tag then strip_tags in_tag s else c # strip_tags in_tag s)"

definition strip_all_tags :: "string \<Rightarrow> string" where
  "strip_all_tags s = strip_tags False s"

definition quoted_value :: "string \<Rightarrow> string \<Rightarrow> char \<Rightarrow> string option" where
  "quoted_value tag attr q =
     (let pattern = attr @ ''='' @ [q]
      in Option.bind (find_ci tag pattern 0) (\<lambda>start.
           let val_start = start + length pattern
           in map_option (\<lambda>e. take e (drop val_start tag)) (find_char q (drop val_start tag))))"

definition extract_attribute :: "string \<Rightarrow> string \<Rightarrow> string option" where
  "extract_attribute tag attr =
     (case quoted_value tag attr (CHR 0x22) of
        Some v \<Rightarrow> Some v
      | None \<Rightarrow> quoted_value tag attr (CHR 0x27))"

function convert_links_from :: "string \<Rightarrow> nat \<Rightarrow> string" where
  "convert_links_from html pos =
     (if pos < length html then
        (case find_ci html ''<a '' pos of
           None \<Rightarrow> drop pos html
         | Some abs_start \<Rightarrow>
             take (abs_start - pos) (drop pos html) @
             (case after_gt html abs_start of
                None \<Rightarrow> take 1 (drop abs_start html) @ convert_links_from html (abs_start + 1)
              | Some text_start \<Rightarrow>
                  (case find_ci html ''</a>'' text_start of
                     Some e \<Rightarrow>
                       (let link_text = trim (strip_all_tags (take (e - text_start) (drop text_start html)))
                        in case extract_attribute (drop abs_start html) ''href'' of
                             Some url \<Rightarrow> ''['' @ link_text @ ''](''  @ url @ '')''
                           | None \<Rightarrow> link_text) @ convert_links_from html (e + 4)
                   | None \<Rightarrow> convert_links_from html text_start)))
      else [])"
  by pat_completeness auto
termination
  by (relation "measure (\<lambda>(html, pos). length html - pos)")
     (auto dest!: find_ci_bound after_gt_bound)

declare convert_links_from.simps [simp del]

definition convert_links :: "string \<Rightarrow> string" where
  "convert_links html = convert_links_from html 0"

definition entities :: "(string \<times> string) list" where
  "entities =
     [(''&amp;'', ''&''), (''&lt;'', ''<''), (''&gt;'', ''>''), (''&quot;'', [CHR 0x22]), (''&#x27;'', [CHR 0x27]),
      (''&#39;'', [CHR 0x27]), (''&nbsp;'', '' ''), (''&mdash;'', [CHR 0xE2, CHR 0x80, CHR 0x94]),
      (''&ndash;'', [CHR 0xE2, CHR 0x80, CHR 0x93]), (''&hellip;'', [CHR 0xE2, CHR 0x80, CHR 0xA6]),
      (''&copy;'', [CHR 0xC2, CHR 0xA9]), (''&reg;'', [CHR 0xC2, CHR 0xAE]), (''&trade;'', [CHR 0xE2, CHR 0x84, CHR 0xA2])]"

definition decode_entities :: "string \<Rightarrow> string" where
  "decode_entities s = foldl (\<lambda>t (name, ch). replace_str name ch t) s entities"

text \<open>The conversions in their order: prefix of the opening, closing, and the two marks.\<close>

definition heading_rules :: "(string \<times> string \<times> string \<times> string) list" where
  "heading_rules = map (\<lambda>level. (''<h'' @ show_nat level, ''</h'' @ show_nat level @ ''>'',
     nl @ nl @ replicate level CHR ''#'' @ '' '', nl @ nl)) [6, 5, 4, 3, 2, 1]"

definition inline_rules :: "(string \<times> string \<times> string \<times> string) list" where
  "inline_rules =
     [(''<strong'', ''</strong>'', ''**'', ''**''), (''<b'', ''</b>'', ''**'', ''**''),
      (''<em'', ''</em>'', ''*'', ''*''), (''<i'', ''</i>'', ''*'', ''*''),
      (''<pre'', ''</pre>'', nl @ ''```'' @ nl, nl @ ''```'' @ nl), (''<code'', ''</code>'', ''`'', ''`''),
      (''<blockquote'', ''</blockquote>'', nl @ ''> '', nl),
      (''<ul'', ''</ul>'', nl, nl), (''<ol'', ''</ol>'', nl, nl), (''<li'', ''</li>'', ''- '', nl)]"

definition block_rules :: "(string \<times> string \<times> string \<times> string) list" where
  "block_rules = [(''<div'', ''</div>'', nl, nl), (''<span'', ''</span>'', [], []), (''<section'', ''</section>'', nl, nl)]"

definition apply_rules :: "(string \<times> string \<times> string \<times> string) list \<Rightarrow> string \<Rightarrow> string" where
  "apply_rules rules html = foldl (\<lambda>s (op, cl, mo, mc). convert_inline_tag s op cl mo mc) html rules"

definition replace_breaks :: "string \<Rightarrow> string" where
  "replace_breaks s = replace_str ''<br />'' nl (replace_str ''<br/>'' nl (replace_str ''<br>'' nl s))"

definition convert_elements :: "string \<Rightarrow> string" where
  "convert_elements html =
     (let headed = apply_rules heading_rules html;
          paragraphs = convert_inline_tag headed ''<p'' ''</p>'' (nl @ nl) (nl @ nl);
          marked = apply_rules inline_rules (replace_breaks paragraphs);
          plain = apply_rules block_rules (convert_links marked)
      in decode_entities (strip_all_tags plain))"

fun collapse_lines :: "nat \<Rightarrow> string list \<Rightarrow> string" where
  "collapse_lines blank_count [] = []"
| "collapse_lines blank_count (l # ls) =
     (if l = [] then (if blank_count + 1 \<le> 2 then nl else []) @ collapse_lines (blank_count + 1) ls
      else l @ nl @ collapse_lines 0 ls)"

definition collapse_whitespace :: "string \<Rightarrow> string" where
  "collapse_whitespace s = trim (collapse_lines 0 (map trim (str_lines s)))"

definition html_to_markdown :: "string \<Rightarrow> string" where
  "html_to_markdown html =
     collapse_whitespace (convert_elements (extract_main_content (remove_non_content_blocks html)))"

section \<open>Properties\<close>

lemma strip_tags_no_angle: "CHR ''<'' \<notin> set (strip_tags b s) \<and> CHR ''>'' \<notin> set (strip_tags b s)"
  by (induction s arbitrary: b) auto

text \<open>
  The marker of a page is a function of its URL alone, so a page can contain it: what comes after the
  marker in the page stands outside the markers that should hold all of it.
\<close>

lemma page_closes_its_marker:
  "prefix (wrap_external_content sha url before)
     (wrap_external_content sha url (before @ nl @ ''<<</'' @ content_boundary sha url @ ''>>>'' @ after))"
  by (simp add: wrap_external_content_def Let_def nl_def)

text \<open>Every pass ends; a preformatted block, whose tag begins like a paragraph, never becomes a fence.\<close>

lemma preformatted_block_not_fenced:
  "convert_inline_tag ''<pre>x</pre>'' ''<p'' ''</p>'' (nl @ nl) (nl @ nl) = nl @ nl @ ''x</pre>''"
  by code_simp

end
