(* ===== verification/Web_Fetch.thy ===== *)
theory Web_Fetch
  imports Ip_Addr Web_Content
begin

text \<open>
  Fetching from the web on behalf of an agent: the check against requests into the own network
  (\<^verbatim>\<open>crates/openfang-runtime/src/web_fetch.rs\<close>, with its twins in \<^verbatim>\<open>host_functions.rs\<close> and \<^verbatim>\<open>mcp.rs\<close>), the
  cache (\<^verbatim>\<open>web_cache.rs\<close>) and the fetch around them. The resolver and the HTTP client are
  parameters, as is the mapping of letters to lower and upper case.
\<close>

unbundle bit_operations_syntax

section \<open>Hosts of URLs\<close>

definition http_scheme :: "string \<Rightarrow> bool" where
  "http_scheme url = (starts_with url ''http://'' \<or> starts_with url ''https://'')"

text \<open>\<^verbatim>\<open>split("://").nth(1)\<close>.\<close>

definition after_scheme :: "string \<Rightarrow> string option" where
  "after_scheme url =
     (case split_once ''://'' url of
        None \<Rightarrow> None
      | Some (_, rest) \<Rightarrow> Some (case split_once ''://'' rest of None \<Rightarrow> rest | Some (front, _) \<Rightarrow> front))"

definition default_port :: "string \<Rightarrow> string" where
  "default_port url = (if starts_with url ''https'' then ''443'' else ''80'')"

definition with_port :: "string \<Rightarrow> string \<Rightarrow> string" where
  "with_port url host_port = (if CHR '':'' \<in> set host_port then host_port else host_port @ '':'' @ default_port url)"

definition before_slash :: "string \<Rightarrow> string" where
  "before_slash s = takeWhile (\<lambda>c. c \<noteq> CHR ''/'') s"

definition extract_host :: "string \<Rightarrow> string" where
  "extract_host url =
     (case after_scheme url of
        None \<Rightarrow> url
      | Some rest \<Rightarrow>
          let host_port = before_slash rest
          in if starts_with host_port ''['' then
               (case find_char CHR '']'' host_port of
                  Some bracket_end \<Rightarrow>
                    let ipv6_host = take (bracket_end + 1) host_port
                    in (case strip_prefix '':'' (drop (bracket_end + 1) host_port) of
                          Some port \<Rightarrow> ipv6_host @ '':'' @ port
                        | None \<Rightarrow> ipv6_host @ '':'' @ default_port url)
                | None \<Rightarrow> with_port url host_port)
             else with_port url host_port)"

definition before_colon :: "string \<Rightarrow> string" where
  "before_colon s = takeWhile (\<lambda>c. c \<noteq> CHR '':'') s"

definition hostname_of :: "string \<Rightarrow> string" where
  "hostname_of host =
     (if starts_with host ''['' then
        (case find_char CHR '']'' host of Some i \<Rightarrow> take (i + 1) host | None \<Rightarrow> host)
      else before_colon host)"

section \<open>Classes of addresses\<close>

definition is_metadata_ip :: "ip_addr \<Rightarrow> bool" where
  "is_metadata_ip ip =
     (case ip of
        IpV4 a b c d \<Rightarrow> [a, b, c, d] \<in> {[169, 254, 169, 254], [100, 100, 100, 200], [192, 0, 0, 192]}
      | IpV6 _ \<Rightarrow> False)"

definition is_private_ip :: "ip_addr \<Rightarrow> bool" where
  "is_private_ip ip =
     (case ip of
        IpV4 a b c d \<Rightarrow> a = 10 \<or> a = 172 \<and> 16 \<le> b \<and> b \<le> 31 \<or> a = 192 \<and> b = 168 \<or> a = 169 \<and> b = 254
      | IpV6 ss \<Rightarrow> (case ss of s # _ \<Rightarrow> s AND 0xfe00 = 0xfc00 \<or> s AND 0xffc0 = 0xfe80 | [] \<Rightarrow> False))"

text \<open>The mask of the leading bits of a word, and the comparison under it.\<close>

definition leading_mask :: "nat \<Rightarrow> 'a::len word" where
  "leading_mask n = push_bit (LENGTH('a) - n) (NOT 0)"

definition same_block :: "nat \<Rightarrow> 'a::len word \<Rightarrow> 'a word \<Rightarrow> bool" where
  "same_block prefix_len x y =
     (if prefix_len > LENGTH('a) then False
      else if prefix_len = 0 then True
      else x AND leading_mask prefix_len = y AND leading_mask prefix_len)"

definition ip_in_cidr :: "ip_addr \<Rightarrow> ip_addr \<Rightarrow> nat \<Rightarrow> bool" where
  "ip_in_cidr ip base prefix_len =
     (case (ip, base) of
        (IpV4 a b c d, IpV4 a' b' c' d') \<Rightarrow> same_block prefix_len (v4_bits a b c d) (v4_bits a' b' c' d')
      | (IpV6 ss, IpV6 ss') \<Rightarrow> same_block prefix_len (v6_bits ss) (v6_bits ss')
      | _ \<Rightarrow> False)"

text \<open>\<^verbatim>\<open>u32::from_str\<close>: an optional plus sign and digits.\<close>

definition parse_u32 :: "string \<Rightarrow> nat option" where
  "parse_u32 s =
     (let ds = (case s of c # r \<Rightarrow> if c = CHR ''+'' then r else s | [] \<Rightarrow> [])
      in if ds = [] then None
         else (case digits_val 0 ds of Some n \<Rightarrow> if n < 2 ^ 32 then Some n else None | None \<Rightarrow> None))"

definition entry_allows_ip :: "ip_addr \<Rightarrow> string \<Rightarrow> bool" where
  "entry_allows_ip ip entry =
     (case find_char CHR ''/'' entry of
        Some pos \<Rightarrow>
          (case (parse_ip (take pos entry), parse_u32 (drop (pos + 1) entry)) of
             (Some base_ip, Some prefix_len) \<Rightarrow> ip_in_cidr ip base_ip prefix_len
           | _ \<Rightarrow> False)
      | None \<Rightarrow> parse_ip entry = Some ip)"

definition is_ip_allowed :: "ip_addr \<Rightarrow> string list \<Rightarrow> bool" where
  "is_ip_allowed ip allowed_hosts = list_ex (entry_allows_ip ip) allowed_hosts"

definition entry_allows_host :: "(string \<Rightarrow> string) \<Rightarrow> string \<Rightarrow> string \<Rightarrow> bool" where
  "entry_allows_host lower hostname entry =
     (lower entry = lower hostname
      \<or> (case strip_prefix ''*.'' (lower entry) of
           Some sfx \<Rightarrow> ends_with (lower hostname) (''.'' @ sfx) \<or> lower hostname = sfx
         | None \<Rightarrow> False))"

definition is_host_allowed :: "(string \<Rightarrow> string) \<Rightarrow> string \<Rightarrow> string list \<Rightarrow> bool" where
  "is_host_allowed lower hostname allowed_hosts = list_ex (entry_allows_host lower hostname) allowed_hosts"

section \<open>The check\<close>

record net_env =
  ne_lower :: "string \<Rightarrow> string"
  ne_upper :: "string \<Rightarrow> string"
  ne_resolve :: "string \<Rightarrow> ip_addr list option"

definition blocked_hostnames :: "string list" where
  "blocked_hostnames =
     [''localhost'', ''ip6-localhost'', ''metadata.google.internal'', ''metadata.aws.internal'', ''instance-data'',
      ''169.254.169.254'', ''100.100.100.200'', ''192.0.0.192'', ''0.0.0.0'', ''::1'', ''[::1]'']"

definition internal_ip :: "ip_addr \<Rightarrow> bool" where
  "internal_ip ip = (is_loopback_ip ip \<or> is_unspecified_ip ip \<or> is_private_ip ip)"

fun check_addrs :: "string \<Rightarrow> string list \<Rightarrow> ip_addr list \<Rightarrow> (string, unit) result" where
  "check_addrs hostname allowed_hosts [] = Inr ()"
| "check_addrs hostname allowed_hosts (ip # ips) =
     (if is_metadata_ip ip
      then Inl (''SSRF blocked: '' @ hostname @ '' resolves to metadata IP '' @ show_ip ip)
      else if internal_ip ip \<and> \<not> is_ip_allowed ip allowed_hosts
      then Inl (''SSRF blocked: '' @ hostname @ '' resolves to private IP '' @ show_ip ip)
      else check_addrs hostname allowed_hosts ips)"

definition scheme_error :: string where
  "scheme_error = ''Only http:// and https:// URLs are allowed''"

definition check_ssrf :: "net_env \<Rightarrow> string \<Rightarrow> string list \<Rightarrow> (string, unit) result" where
  "check_ssrf env url allowed_hosts =
     (if \<not> http_scheme url then Inl scheme_error
      else
        let hostname = hostname_of (extract_host url)
        in if hostname \<in> set blocked_hostnames
           then Inl (''SSRF blocked: '' @ hostname @ '' is a restricted hostname'')
           else if is_host_allowed (ne_lower env) hostname allowed_hosts then Inr ()
           else (case ne_resolve env (hostname @ '':'' @ default_port url) of
                   None \<Rightarrow> Inr ()
                 | Some ips \<Rightarrow> check_addrs hostname allowed_hosts ips))"

text \<open>The twin that guards the host functions of the sandbox, and the host its capability is checked for.\<close>

definition extract_host_from_url :: "string \<Rightarrow> string" where
  "extract_host_from_url url =
     (case after_scheme url of None \<Rightarrow> url | Some rest \<Rightarrow> with_port url (before_slash rest))"

definition guest_blocked_hostnames :: "string list" where
  "guest_blocked_hostnames =
     [''localhost'', ''metadata.google.internal'', ''metadata.aws.internal'', ''instance-data'', ''169.254.169.254'']"

definition is_ssrf_target :: "net_env \<Rightarrow> string \<Rightarrow> (string, unit) result" where
  "is_ssrf_target env url =
     (if \<not> http_scheme url then Inl scheme_error
      else
        let hostname = before_colon (extract_host_from_url url)
        in if hostname \<in> set guest_blocked_hostnames
           then Inl (''SSRF blocked: '' @ hostname @ '' is a restricted hostname'')
           else (case ne_resolve env (hostname @ '':'' @ default_port url) of
                   None \<Rightarrow> Inr ()
                 | Some ips \<Rightarrow>
                     (case find internal_ip ips of
                        Some ip \<Rightarrow> Inl (''SSRF blocked: '' @ hostname @ '' resolves to private IP '' @ show_ip ip)
                      | None \<Rightarrow> Inr ())))"

text \<open>The check of the addresses of MCP servers.\<close>

definition mcp_check_ssrf :: "net_env \<Rightarrow> string \<Rightarrow> (string, unit) result" where
  "mcp_check_ssrf env url =
     (let lower = ne_lower env url
      in if contains_str lower ''169.254.169.254'' \<or> contains_str lower ''metadata.google''
         then Inl ''SSRF: MCP URL targets metadata endpoint'' else Inr ())"

section \<open>The cache\<close>

record cache_entry =
  ce_value :: string
  ce_inserted_at :: nat

record web_cache =
  wc_entries :: "(string, cache_entry) store"
  wc_ttl :: nat

definition cache_new :: "nat \<Rightarrow> web_cache" where
  "cache_new ttl = \<lparr>wc_entries = [], wc_ttl = ttl\<rparr>"

definition cache_get :: "nat \<Rightarrow> string \<Rightarrow> web_cache \<Rightarrow> string option \<times> web_cache" where
  "cache_get now key wc =
     (if wc_ttl wc = 0 then (None, wc)
      else (case st_get (wc_entries wc) key of
              None \<Rightarrow> (None, wc)
            | Some e \<Rightarrow>
                if now - ce_inserted_at e > wc_ttl wc
                then (None, wc\<lparr>wc_entries := st_del key (wc_entries wc)\<rparr>)
                else (Some (ce_value e), wc)))"

definition cache_put :: "nat \<Rightarrow> string \<Rightarrow> string \<Rightarrow> web_cache \<Rightarrow> web_cache" where
  "cache_put now key v wc =
     (if wc_ttl wc = 0 then wc
      else wc\<lparr>wc_entries := st_put key \<lparr>ce_value = v, ce_inserted_at = now\<rparr> (wc_entries wc)\<rparr>)"

definition evict_expired :: "nat \<Rightarrow> web_cache \<Rightarrow> web_cache" where
  "evict_expired now wc = wc\<lparr>wc_entries := filter (\<lambda>(_, e). now - ce_inserted_at e \<le> wc_ttl wc) (wc_entries wc)\<rparr>"

section \<open>The fetch\<close>

record web_fetch_config =
  wfc_max_chars :: nat
  wfc_max_response_bytes :: nat
  wfc_timeout_secs :: nat
  wfc_readability :: bool
  wfc_ssrf_allowed_hosts :: "string list"

definition web_fetch_config_default :: web_fetch_config where
  "web_fetch_config_default =
     \<lparr>wfc_max_chars = 50000, wfc_max_response_bytes = 10 * 1024 * 1024, wfc_timeout_secs = 30,
      wfc_readability = True, wfc_ssrf_allowed_hosts = []\<rparr>"

text \<open>A request as it is built, and the response: its length if announced, its content type, its text.\<close>

record http_request =
  hrq_verb :: string
  hrq_url :: string
  hrq_headers :: "(string \<times> string) list"
  hrq_body :: "string option"

record http_response =
  hrs_status :: string
  hrs_content_length :: "nat option"
  hrs_content_type :: string
  hrs_text :: "(string, string) result"

definition is_html :: "string \<Rightarrow> string \<Rightarrow> bool" where
  "is_html content_type body =
     (contains_str content_type ''text/html'' \<or> contains_str content_type ''application/xhtml''
      \<or> (let trimmed = trim_start body
         in starts_with trimmed ''<!DOCTYPE'' \<or> starts_with trimmed ''<!doctype'' \<or> starts_with trimmed ''<html''))"

definition request_verb :: "string \<Rightarrow> string" where
  "request_verb method_upper =
     (if method_upper \<in> {''POST'', ''PUT'', ''PATCH'', ''DELETE''} then method_upper else ''GET'')"

definition build_request :: "string \<Rightarrow> string \<Rightarrow> string \<Rightarrow> (string \<times> json) list \<Rightarrow> string option \<Rightarrow> http_request" where
  "build_request user_agent method_upper url headers body =
     \<lparr>hrq_verb = request_verb method_upper, hrq_url = url,
      hrq_headers =
        (''User-Agent'', ''Mozilla/5.0 (compatible; '' @ user_agent @ '')'')
        # List.map_filter (\<lambda>(k, v). map_option (Pair k) (as_str v)) headers
        @ (case body of
             Some b \<Rightarrow> if starts_with (trim_start b) ''{'' \<or> starts_with (trim_start b) ''[''
                       then [(''Content-Type'', ''application/json'')] else []
           | None \<Rightarrow> []),
      hrq_body = body\<rparr>"

definition present_response ::
  "(string \<Rightarrow> string) \<Rightarrow> web_fetch_config \<Rightarrow> string \<Rightarrow> string \<Rightarrow> http_response \<Rightarrow> (string, string) result" where
  "present_response sha256_hex cfg method_upper url resp =
     (case Option.bind (hrs_content_length resp) (\<lambda>len. if len > wfc_max_response_bytes cfg then Some len else None) of
       Some len \<Rightarrow> Inl (''Response too large: '' @ show_nat len @ '' bytes (max '' @
                        show_nat (wfc_max_response_bytes cfg) @ '')'')
     | None \<Rightarrow>
         (case hrs_text resp of
            Inl e \<Rightarrow> Inl (''Failed to read response body: '' @ e)
          | Inr resp_body \<Rightarrow>
              let processed =
                    (if method_upper = ''GET'' \<and> wfc_readability cfg \<and> is_html (hrs_content_type resp) resp_body
                     then (let markdown = html_to_markdown resp_body
                           in if trim markdown = [] then resp_body else markdown)
                     else resp_body);
                  truncated =
                    (if length processed > wfc_max_chars cfg
                     then truncate_str processed (wfc_max_chars cfg) @ ''... [truncated, '' @
                          show_nat (length processed) @ '' total chars]''
                     else processed)
              in Inr (''HTTP '' @ hrs_status resp @ nl @ nl @ wrap_external_content sha256_hex url truncated)))"

definition fetch_with_options ::
  "net_env \<Rightarrow> (string \<Rightarrow> string) \<Rightarrow> string \<Rightarrow> web_fetch_config \<Rightarrow> (http_request \<Rightarrow> (string, http_response) result)
     \<Rightarrow> nat \<times> nat \<Rightarrow> string \<Rightarrow> string \<Rightarrow> (string \<times> json) list \<Rightarrow> string option \<Rightarrow> web_cache
     \<Rightarrow> (string, string) result \<times> http_request option \<times> web_cache" where
  "fetch_with_options env sha256_hex user_agent cfg send clock url verb headers body cache =
     (let method_upper = ne_upper env verb
      in case check_ssrf env url (wfc_ssrf_allowed_hosts cfg) of
           Inl e \<Rightarrow> (Inl e, None, cache)
         | Inr _ \<Rightarrow>
             let cache_key = ''fetch:'' @ method_upper @ '':'' @ url;
                 (cached, cache1) = (if method_upper = ''GET'' then cache_get (fst clock) cache_key cache else (None, cache))
             in case cached of
                  Some v \<Rightarrow> (Inr v, None, cache1)
                | None \<Rightarrow>
                    let req = build_request user_agent method_upper url headers body
                    in case send req of
                         Inl e \<Rightarrow> (Inl (''HTTP request failed: '' @ e), Some req, cache1)
                       | Inr resp \<Rightarrow>
                           (case present_response sha256_hex cfg method_upper url resp of
                              Inl e \<Rightarrow> (Inl e, Some req, cache1)
                            | Inr out \<Rightarrow>
                                (Inr out, Some req,
                                 if method_upper = ''GET'' then cache_put (snd clock) cache_key out cache1 else cache1)))"

section \<open>What the check rules out\<close>

lemma check_addrs_ok_iff:
  "check_addrs hostname allowed ips = Inr ()
    \<longleftrightarrow> (\<forall>ip \<in> set ips. \<not> is_metadata_ip ip \<and> (internal_ip ip \<longrightarrow> is_ip_allowed ip allowed))"
  by (induction ips) auto

lemma check_ssrf_ok_iff:
  "check_ssrf env url allowed = Inr ()
    \<longleftrightarrow> http_scheme url \<and> hostname_of (extract_host url) \<notin> set blocked_hostnames
      \<and> (is_host_allowed (ne_lower env) (hostname_of (extract_host url)) allowed
         \<or> (case ne_resolve env (hostname_of (extract_host url) @ '':'' @ default_port url) of
              None \<Rightarrow> True
            | Some ips \<Rightarrow> check_addrs (hostname_of (extract_host url)) allowed ips = Inr ()))"
  by (auto simp: check_ssrf_def Let_def split: option.splits)

lemma fetch_sends_checked:
  assumes "fetch_with_options env sha ua cfg send clock url verb headers body cache = (res, Some req, cache')"
  shows "hrq_url req = url \<and> check_ssrf env url (wfc_ssrf_allowed_hosts cfg) = Inr ()"
  using assms
  by (auto simp: fetch_with_options_def Let_def build_request_def split: sum.splits option.splits prod.splits if_splits)

text \<open>The internal addresses, written out.\<close>

lemma internal_ip_iff:
  "internal_ip ip \<longleftrightarrow>
     (case ip of
        IpV4 a b c d \<Rightarrow> a = 127 \<or> a = 10 \<or> a = 172 \<and> 16 \<le> b \<and> b \<le> 31 \<or> a = 192 \<and> b = 168
          \<or> a = 169 \<and> b = 254 \<or> a = 0 \<and> b = 0 \<and> c = 0 \<and> d = 0
      | IpV6 ss \<Rightarrow> ss = [0, 0, 0, 0, 0, 0, 0, 1] \<or> ss = [0, 0, 0, 0, 0, 0, 0, 0]
          \<or> (\<exists>s r. ss = s # r \<and> (s AND 0xfe00 = 0xfc00 \<or> s AND 0xffc0 = 0xfe80)))"
  by (auto simp: internal_ip_def is_loopback_ip_def is_unspecified_ip_def is_private_ip_def split: ip_addr.splits list.splits)

text \<open>
  C36. Whenever a fetch sends a request, it is for the URL that was asked for, the URL begins with
  \<^verbatim>\<open>http://\<close> or \<^verbatim>\<open>https://\<close>, and the host the check reads in it is none of the eleven names of the block list,
  whatever the configuration allows. If moreover that host is not on the list of allowed hosts and
  resolves, none of its addresses is one of the three metadata services, and each of them that is internal
  (loopback, unspecified, private or link-local) is allowed by an entry of the list. The statement is about
  the host the check reads; the next property shows that it is not always the one the client connects to.
\<close>

theorem fetched_host_not_internal:
  assumes "fetch_with_options env sha ua cfg send clock url verb headers body cache = (res, Some req, cache')"
    and "hostname_of (extract_host url) = host"
  shows "hrq_url req = url
    \<and> (starts_with url ''http://'' \<or> starts_with url ''https://'')
    \<and> host \<notin> {''localhost'', ''ip6-localhost'', ''metadata.google.internal'', ''metadata.aws.internal'',
        ''instance-data'', ''169.254.169.254'', ''100.100.100.200'', ''192.0.0.192'', ''0.0.0.0'', ''::1'', ''[::1]''}
    \<and> (\<not> is_host_allowed (ne_lower env) host (wfc_ssrf_allowed_hosts cfg) \<longrightarrow>
        (\<forall>ips ip. ne_resolve env (host @ '':'' @ (if starts_with url ''https'' then ''443'' else ''80'')) = Some ips
            \<longrightarrow> ip \<in> set ips \<longrightarrow>
          ip \<notin> {IpV4 169 254 169 254, IpV4 100 100 100 200, IpV4 192 0 0 192}
          \<and> ((case ip of
                 IpV4 a b c d \<Rightarrow> a = 127 \<or> a = 10 \<or> a = 172 \<and> 16 \<le> b \<and> b \<le> 31 \<or> a = 192 \<and> b = 168
                   \<or> a = 169 \<and> b = 254 \<or> a = 0 \<and> b = 0 \<and> c = 0 \<and> d = 0
               | IpV6 ss \<Rightarrow> ss = [0, 0, 0, 0, 0, 0, 0, 1] \<or> ss = [0, 0, 0, 0, 0, 0, 0, 0]
                   \<or> (\<exists>s r. ss = s # r \<and> (s AND 0xfe00 = 0xfc00 \<or> s AND 0xffc0 = 0xfe80)))
              \<longrightarrow> is_ip_allowed ip (wfc_ssrf_allowed_hosts cfg))))"
proof -
  have sent: "hrq_url req = url" "http_scheme url" "host \<notin> set blocked_hostnames"
    and addrs: "is_host_allowed (ne_lower env) host (wfc_ssrf_allowed_hosts cfg)
      \<or> (case ne_resolve env (host @ '':'' @ default_port url) of
           None \<Rightarrow> True | Some ips \<Rightarrow> check_addrs host (wfc_ssrf_allowed_hosts cfg) ips = Inr ())"
    using fetch_sends_checked [OF assms(1)] unfolding check_ssrf_ok_iff assms(2) by blast+
  have names: "host \<notin> {''localhost'', ''ip6-localhost'', ''metadata.google.internal'', ''metadata.aws.internal'',
        ''instance-data'', ''169.254.169.254'', ''100.100.100.200'', ''192.0.0.192'', ''0.0.0.0'', ''::1'', ''[::1]''}"
    using sent(3) unfolding blocked_hostnames_def list.set .
  have ips: "\<not> is_metadata_ip ip \<and> (internal_ip ip \<longrightarrow> is_ip_allowed ip (wfc_ssrf_allowed_hosts cfg))"
    if "\<not> is_host_allowed (ne_lower env) host (wfc_ssrf_allowed_hosts cfg)"
      "ne_resolve env (host @ '':'' @ default_port url) = Some ips" "ip \<in> set ips" for ips ip
    using addrs that by (simp add: check_addrs_ok_iff)
  have meta: "ip \<in> {IpV4 169 254 169 254, IpV4 100 100 100 200, IpV4 192 0 0 192} \<Longrightarrow> is_metadata_ip ip" for ip
    by (auto simp: is_metadata_ip_def)
  show ?thesis
    unfolding internal_ip_iff [symmetric] default_port_def [symmetric]
    using sent(1,2) names ips meta unfolding http_scheme_def by blast
qed

definition sample_net :: net_env where
  "sample_net = \<lparr>ne_lower = to_ascii_lowercase, ne_upper = (\<lambda>s. s),
     ne_resolve = (\<lambda>a. if a = ''h.io:80'' then Some [IpV4 93 184 216 34] else None)\<rparr>"

lemma sample_host: "extract_host ''http://h.io/x'' = ''h.io:80''"
  by (simp add: extract_host_def after_scheme_def split_once_def before_slash_def with_port_def default_port_def
      starts_with_def Let_def)

lemma hostname_sample: "hostname_of ''h.io:80'' = ''h.io''"
  by (simp add: hostname_of_def before_colon_def starts_with_def)

lemma sample_public: "\<not> is_metadata_ip (IpV4 93 184 216 34)" "\<not> internal_ip (IpV4 93 184 216 34)"
  by (simp_all add: is_metadata_ip_def internal_ip_def is_loopback_ip_def is_unspecified_ip_def is_private_ip_def)

theorem fetched_host_not_internal_witness:
  "\<exists>res cache'. fetch_with_options sample_net (\<lambda>_. []) ''ua'' web_fetch_config_default (\<lambda>_. Inl ''down'')
      (0, 0) ''http://h.io/x'' ''PUT'' [] None (cache_new 0)
      = (res, Some (build_request ''ua'' ''PUT'' ''http://h.io/x'' [] None), cache')
    \<and> \<not> is_metadata_ip (IpV4 93 184 216 34)"
proof -
  have ok: "check_ssrf sample_net ''http://h.io/x'' [] = Inr ()"
    by (simp add: check_ssrf_ok_iff sample_host hostname_sample http_scheme_def starts_with_def blocked_hostnames_def
        sample_net_def default_port_def sample_public)
  have run: "fetch_with_options sample_net (\<lambda>_. []) ''ua'' web_fetch_config_default (\<lambda>_. Inl ''down'')
      (0, 0) ''http://h.io/x'' ''PUT'' [] None (cache_new 0)
      = (Inl (''HTTP request failed: down''), Some (build_request ''ua'' ''PUT'' ''http://h.io/x'' [] None), cache_new 0)"
    using ok by (simp add: fetch_with_options_def web_fetch_config_default_def Let_def) (simp add: sample_net_def)
  have "\<not> is_metadata_ip (IpV4 93 184 216 34)"
    using fetched_host_not_internal [OF run, of "''h.io''"]
    by (simp add: sample_host hostname_sample web_fetch_config_default_def is_host_allowed_def sample_net_def
        starts_with_def is_metadata_ip_def)
  then show ?thesis using run by blast
qed

section \<open>What it lets through\<close>

text \<open>
  The address an HTTP client opens a connection to for a URL is not computed by the program: it is a
  parameter, and what is assumed of it is the documented reading of the authority of a URL (RFC 3986,
  section 3.2): what precedes the \<^verbatim>\<open>@\<close> names a user, and a host written as an IPv4 address is that address.
\<close>

definition unreserved :: "char \<Rightarrow> bool" where
  "unreserved c =
     (let n = of_char c :: nat
      in 48 \<le> n \<and> n \<le> 57 \<or> 65 \<le> n \<and> n \<le> 90 \<or> 97 \<le> n \<and> n \<le> 122 \<or> c \<in> set ''-._~'')"

definition reads_userinfo :: "(string \<Rightarrow> ip_addr option) \<Rightarrow> bool" where
  "reads_userinfo dials \<longleftrightarrow>
     (\<forall>user a b c d path. (\<forall>x \<in> set user. unreserved x \<or> x = CHR '':'') \<longrightarrow> (\<forall>x \<in> set path. unreserved x \<or> x = CHR ''/'')
        \<longrightarrow> dials (''http://'' @ user @ ''@'' @ show_ip (IpV4 a b c d) @ ''/'' @ path) = Some (IpV4 a b c d))"

lemma no_second_scheme:
  assumes "CHR '':'' \<notin> set front" "CHR '':'' \<notin> set back" "c \<noteq> CHR ''/''" "c \<noteq> CHR '':''"
  shows "find_str ''://'' (front @ CHR '':'' # c # back) = None"
proof -
  have "\<not> sublist ''://'' (front @ CHR '':'' # c # back)"
  proof
    assume "sublist ''://'' (front @ CHR '':'' # c # back)"
    then obtain xs ys where e: "front @ CHR '':'' # c # back = xs @ ''://'' @ ys" by (auto simp: sublist_def)
    show False
      using e assms by (auto simp: append_eq_append_conv2 append_eq_Cons_conv Cons_eq_append_conv)
  qed
  then show ?thesis by (simp add: find_str_None)
qed

lemma after_http: "after_scheme (''http://'' @ rest) = Some (case split_once ''://'' rest of None \<Rightarrow> rest | Some (f, _) \<Rightarrow> f)"
  by (simp add: after_scheme_def split_once_def)

lemma userinfo_passes_check:
  assumes "set front \<inter> set '':/@[?#'' = {}" "front \<notin> set blocked_hostnames"
    and "ne_resolve env (front @ '':80'') = Some ips" "\<forall>ip \<in> set ips. \<not> is_metadata_ip ip \<and> \<not> internal_ip ip"
    and "set target \<inter> set '':/@[?#'' = {}" "CHR '':'' \<notin> set path"
  shows "check_ssrf env (''http://'' @ front @ '':x@'' @ target @ ''/'' @ path) allowed = Inr ()"
proof -
  let ?rest = "front @ '':x@'' @ target @ ''/'' @ path"
  have f: "CHR '':'' \<notin> set front" "CHR ''/'' \<notin> set front" "\<not> starts_with front ''[''"
    using assms(1) by (auto simp: starts_with_def prefix_def)
  have t: "CHR '':'' \<notin> set target" "CHR ''/'' \<notin> set target" using assms(5) by auto
  have "find_str ''://'' ?rest = None"
    using no_second_scheme [of front "''@'' @ target @ ''/'' @ path" "CHR ''x''"] f t assms(6) by simp
  then have a: "after_scheme (''http://'' @ ?rest) = Some ?rest"
    unfolding after_http by (simp add: split_once_def)
  have b: "before_slash ?rest = front @ '':x@'' @ target"
    using f(2) t(2) by (simp add: before_slash_def takeWhile_append takeWhile_tail)
  have nb: "\<not> starts_with (front @ '':x@'' @ target) ''[''"
    using f(3) by (cases front) (auto simp: starts_with_def)
  have e: "extract_host (''http://'' @ ?rest) = front @ '':x@'' @ target"
    unfolding extract_host_def a using b nb by (simp add: with_port_def)
  have h: "hostname_of (front @ '':x@'' @ target) = front"
    using nb f(1) by (simp add: hostname_of_def before_colon_def takeWhile_append takeWhile_tail)
  show ?thesis
    unfolding check_ssrf_ok_iff e h
    using assms(2-4) by (simp add: http_scheme_def starts_with_def default_port_def check_addrs_ok_iff)
qed

lemma fetch_sends_when_checked:
  assumes "check_ssrf env url (wfc_ssrf_allowed_hosts cfg) = Inr ()"
    and "st_get (wc_entries cache) (''fetch:'' @ ne_upper env verb @ '':'' @ url) = None"
  shows "\<exists>res req cache'. fetch_with_options env sha ua cfg send clock url verb headers body cache = (res, Some req, cache')
    \<and> hrq_url req = url"
proof -
  have "fst (cache_get now (''fetch:'' @ ne_upper env verb @ '':'' @ url) cache) = None" for now
    using assms(2) by (simp add: cache_get_def)
  then have "fst (if ne_upper env verb = ''GET'' then cache_get (fst clock) (''fetch:'' @ ne_upper env verb @ '':'' @ url) cache
      else (None, cache)) = None" by (simp only: fst_conv split: if_split) simp
  then show ?thesis
    using assms(1) by (auto simp: fetch_with_options_def Let_def build_request_def split: prod.splits sum.splits)
qed

lemma show_ip_v4_free: "set (show_ip (IpV4 a b c d)) \<inter> set '':/@[?#'' = {}"
  using show_ip_v4_plain by (force simp: digit_val_def)

lemma unreserved_free: "\<forall>x \<in> set s. unreserved x \<Longrightarrow> set s \<inter> set '':/@[?#'' = {}"
  by (force simp: unreserved_def)

text \<open>
  C37. The check reads the host up to the first colon, but the client connects to the host after the \<^verbatim>\<open>@\<close>:
  take a name that is not block-listed and that resolves to public addresses only, put \<^verbatim>\<open>:x@\<close> behind it, and
  then any IPv4 address, of a metadata service or of the own network. The fetch of that URL, unless its
  result is still in the cache, sends a request, and the client connects to that address, whatever the
  configuration. The client is a parameter that reads the authority of a URL as documented.
\<close>

theorem userinfo_hides_target:
  assumes "reads_userinfo dials"
    and "\<forall>x \<in> set front. unreserved x" "front \<notin> set blocked_hostnames"
    and "ne_resolve env (front @ '':80'') = Some ips" "\<forall>ip \<in> set ips. \<not> is_metadata_ip ip \<and> \<not> internal_ip ip"
    and "\<forall>x \<in> set path. unreserved x \<or> x = CHR ''/''"
    and "url = ''http://'' @ front @ '':x@'' @ show_ip (IpV4 a b c d) @ ''/'' @ path"
    and "st_get (wc_entries cache) (''fetch:'' @ ne_upper env verb @ '':'' @ url) = None"
  shows "\<exists>res req cache'. fetch_with_options env sha ua cfg send clock url verb headers body cache = (res, Some req, cache')
    \<and> dials (hrq_url req) = Some (IpV4 a b c d)"
proof -
  have "CHR '':'' \<notin> set path" using assms(6) by (auto simp: unreserved_def)
  then have "check_ssrf env url (wfc_ssrf_allowed_hosts cfg) = Inr ()"
    unfolding assms(7)
    by (rule userinfo_passes_check [OF unreserved_free [OF assms(2)] assms(3-5) show_ip_v4_free])
  moreover have "dials url = Some (IpV4 a b c d)"
  proof -
    have "\<forall>x \<in> set (front @ '':x''). unreserved x \<or> x = CHR '':''"
      using assms(2) by (auto simp: unreserved_def)
    moreover have "url = ''http://'' @ (front @ '':x'') @ ''@'' @ show_ip (IpV4 a b c d) @ ''/'' @ path"
      using assms(7) by simp
    ultimately show ?thesis using assms(1,6) unfolding reads_userinfo_def by blast
  qed
  ultimately show ?thesis using fetch_sends_when_checked [OF _ assms(8)] by metis
qed

text \<open>A client for the witness: the text behind the \<^verbatim>\<open>@\<close> of the authority, read as an address.\<close>

definition sample_client :: "string \<Rightarrow> ip_addr option" where
  "sample_client url =
     (case after_scheme url of
        None \<Rightarrow> None
      | Some rest \<Rightarrow> parse_ip (tl (dropWhile (\<lambda>c. c \<noteq> CHR ''@'') (before_slash rest))))"

lemma sample_client_reads_userinfo: "reads_userinfo sample_client"
  unfolding reads_userinfo_def
proof (intro allI impI)
  fix user path a b c d
  assume u: "\<forall>x \<in> set user. unreserved x \<or> x = CHR '':''" and p: "\<forall>x \<in> set path. unreserved x \<or> x = CHR ''/''"
  let ?ip = "show_ip (IpV4 a b c d)"
  let ?rest = "user @ ''@'' @ ?ip @ ''/'' @ path"
  have u1: "CHR ''@'' \<notin> set user" "CHR ''/'' \<notin> set user" using u by (auto simp: unreserved_def)
  have i1: "CHR ''@'' \<notin> set ?ip" "CHR ''/'' \<notin> set ?ip" "CHR '':'' \<notin> set ?ip" using show_ip_v4_free by auto
  have p1: "CHR '':'' \<notin> set path" using p by (auto simp: unreserved_def)
  have "\<not> sublist ''://'' ?rest"
  proof
    assume "sublist ''://'' ?rest"
    then obtain xs ys where e: "user @ CHR ''@'' # (?ip @ ''/'' @ path) = xs @ CHR '':'' # (''//'' @ ys)"
      by (auto simp: sublist_def)
    have "CHR '':'' \<notin> set (?ip @ ''/'' @ path)" using i1(3) p1 by simp
    then obtain us where "user = xs @ CHR '':'' # us" "us @ CHR ''@'' # (?ip @ ''/'' @ path) = ''//'' @ ys"
      using e by (auto simp: append_eq_append_conv2 append_eq_Cons_conv Cons_eq_append_conv)
    then show False using u1 by (cases us) auto
  qed
  then have "find_str ''://'' ?rest = None" by (simp only: find_str_None not_False_eq_True)
  then have "after_scheme (''http://'' @ ?rest) = Some ?rest"
    unfolding after_http by (simp add: split_once_def)
  moreover have "before_slash ?rest = user @ ''@'' @ ?ip"
    using u1(2) i1(2) by (simp add: before_slash_def takeWhile_append takeWhile_tail)
  moreover have "tl (dropWhile (\<lambda>c. c \<noteq> CHR ''@'') (user @ ''@'' @ ?ip)) = ?ip"
  proof -
    have "dropWhile (\<lambda>c. c \<noteq> CHR ''@'') user = []" using u1(1) by (auto simp: dropWhile_eq_Nil_conv)
    then show ?thesis using u1(1) by (simp add: dropWhile_append)
  qed
  ultimately show "sample_client (''http://'' @ ?rest) = Some (IpV4 a b c d)"
    by (simp add: sample_client_def parse_show_v4)
qed

theorem userinfo_hides_target_witness:
  "\<exists>res req cache'. fetch_with_options sample_net (\<lambda>_. []) ''ua'' web_fetch_config_default (\<lambda>_. Inl ''down'')
      (0, 0) ''http://h.io:x@169.254.169.254/'' ''GET'' [] None (cache_new 900) = (res, Some req, cache')
    \<and> sample_client (hrq_url req) = Some (IpV4 169 254 169 254)"
proof -
  have ip: "show_ip (IpV4 169 254 169 254) = ''169.254.169.254''"
    by code_simp
  show ?thesis
    by (rule userinfo_hides_target [OF sample_client_reads_userinfo, of "''h.io''" sample_net "[IpV4 93 184 216 34]" "[]"])
       (simp_all add: ip unreserved_def sample_net_def sample_public blocked_hostnames_def cache_new_def)
qed

text \<open>An address of a metadata service written as an IPv6 address is neither a metadata address nor an internal one.\<close>

lemma mapped_metadata_passes:
  "\<not> is_metadata_ip (IpV6 [0, 0, 0, 0, 0, 0xffff, 0xa9fe, 0xa9fe]) \<and> \<not> internal_ip (IpV6 [0, 0, 0, 0, 0, 0xffff, 0xa9fe, 0xa9fe])"
  by (simp add: is_metadata_ip_def internal_ip_def is_loopback_ip_def is_unspecified_ip_def is_private_ip_def)

text \<open>An entry of the list of allowed hosts skips the resolution, and with it the check for metadata services.\<close>

lemma allowed_host_not_resolved:
  "http_scheme url \<Longrightarrow> hostname_of (extract_host url) \<notin> set blocked_hostnames
    \<Longrightarrow> is_host_allowed (ne_lower env) (hostname_of (extract_host url)) allowed \<Longrightarrow> check_ssrf env url allowed = Inr ()"
  by (simp add: check_ssrf_ok_iff)

text \<open>A name that does not resolve for the check is let through; the client resolves it again.\<close>

lemma unresolved_host_passes:
  "http_scheme url \<Longrightarrow> hostname_of (extract_host url) \<notin> set blocked_hostnames
    \<Longrightarrow> ne_resolve env (hostname_of (extract_host url) @ '':'' @ default_port url) = None \<Longrightarrow> check_ssrf env url allowed = Inr ()"
  by (simp add: check_ssrf_ok_iff)

section \<open>Blocks of addresses\<close>

lemma and_leading_mask: "x AND leading_mask n = push_bit (LENGTH('a) - n) (drop_bit (LENGTH('a) - n) (x :: 'a::len word))"
proof (rule bit_word_eqI)
  fix i assume "i < LENGTH('a)"
  then show "bit (x AND leading_mask n) i = bit (push_bit (LENGTH('a) - n) (drop_bit (LENGTH('a) - n) x)) i"
    by (auto simp: leading_mask_def bit_and_iff bit_push_bit_iff bit_not_iff bit_mask_iff bit_drop_bit_eq)
qed

lemma drop_push_drop: "drop_bit k (push_bit k (drop_bit k (x :: 'a::len word))) = drop_bit k x"
proof (rule bit_word_eqI)
  fix i assume "i < LENGTH('a)"
  show "bit (drop_bit k (push_bit k (drop_bit k x))) i = bit (drop_bit k x) i"
    using bit_imp_le_length [of x "k + i"] by (auto simp: bit_push_bit_iff bit_drop_bit_eq)
qed

lemma drop_all: "drop_bit LENGTH('a) (x :: 'a::len word) = 0"
  by (rule bit_word_eqI) (use bit_imp_le_length [of x] in \<open>fastforce simp: bit_drop_bit_eq\<close>)

lemma same_block_drop:
  "same_block n (x :: 'a::len word) y \<longleftrightarrow> n \<le> LENGTH('a) \<and> drop_bit (LENGTH('a) - n) x = drop_bit (LENGTH('a) - n) y"
proof -
  have "x AND leading_mask n = y AND leading_mask n \<longleftrightarrow> drop_bit (LENGTH('a) - n) x = drop_bit (LENGTH('a) - n) y"
    unfolding and_leading_mask by (metis drop_push_drop)
  then show ?thesis by (auto simp: same_block_def drop_all)
qed

text \<open>
  An address lies in a block exactly if the prefix length is within the width of the family and
  the two addresses agree on that many leading bits; addresses of different families never do.
\<close>

lemma cidr_compares_leading_bits:
  "ip_in_cidr ip base n \<longleftrightarrow>
     (case (ip, base) of
        (IpV4 a b c d, IpV4 a' b' c' d') \<Rightarrow>
          n \<le> 32 \<and> drop_bit (32 - n) (v4_bits a b c d) = drop_bit (32 - n) (v4_bits a' b' c' d')
      | (IpV6 ss, IpV6 ss') \<Rightarrow> n \<le> 128 \<and> drop_bit (128 - n) (v6_bits ss) = drop_bit (128 - n) (v6_bits ss')
      | _ \<Rightarrow> False)"
  by (simp add: ip_in_cidr_def same_block_drop split: ip_addr.splits)

end
