(* ===== verification/Plan_Executor.thy ===== *)
theory Plan_Executor
  imports Events Model_Calls
begin

text \<open>
  Plans of the inference server and their execution: \<^verbatim>\<open>crates/openfang-runtime/src/plan_executor.rs\<close> over
  the plan types of \<^verbatim>\<open>crates/ainl-agent-snapshot/src/lib.rs\<close>, the counters per tool of
  \<^verbatim>\<open>planner_metrics.rs\<close>, and the planner's stage of a turn (\<^verbatim>\<open>agent_loop.rs\<close>). The tools, the model, the
  inference server, the recorder of episodes and the clock are parameters over a state of the world;
  so are JSON text, the decoding of a step and the validation against a schema.
\<close>

section \<open>Plans\<close>

datatype on_error_policy = RetryOnce | LocalPatch | AbortPlan

record plan_step =
  pst_id :: string
  pst_tool :: string
  pst_args :: json
  pst_depends_on :: "string list"
  pst_on_error :: on_error_policy
  pst_idempotency_key :: "string option"
  pst_optional :: bool
  pst_expected_output_schema :: "json option"

record graph_write =
  gwr_node_type :: string
  gwr_label :: string
  gwr_payload :: json
  gwr_fitness_delta :: "f64 option"

record deterministic_plan =
  dpl_steps :: "plan_step list"
  dpl_graph_writes :: "graph_write list"
  dpl_confidence :: f64
  dpl_reasoning_required_at :: "string list"

record policy_caps =
  pcap_max_steps :: nat
  pcap_max_depth :: nat
  pcap_max_wall_ms :: nat
  pcap_max_replan_calls :: nat
  pcap_deny_tools :: "string list"

definition policy_caps_default :: policy_caps where
  "policy_caps_default =
     \<lparr>pcap_max_steps = 32, pcap_max_depth = 8, pcap_max_wall_ms = 60000, pcap_max_replan_calls = 3,
      pcap_deny_tools = []\<rparr>"

datatype plan_step_error =
    ToolNotFound string
  | PolicyBlocked string
  | Transient string
  | Deterministic string
  | StepTimeout

definition to_message :: "plan_step_error \<Rightarrow> string" where
  "to_message e =
     (case e of
        ToolNotFound s \<Rightarrow> ''tool not found: '' @ s
      | PolicyBlocked reason \<Rightarrow> ''policy blocked: '' @ reason
      | Transient s \<Rightarrow> ''transient: '' @ s
      | Deterministic s \<Rightarrow> ''deterministic: '' @ s
      | StepTimeout \<Rightarrow> ''timeout'')"

record repair_context =
  rpr_failed_step_id :: string
  rpr_failed_step_tool :: string
  rpr_error_msg :: string
  rpr_prior_outputs :: json

section \<open>Counters per tool\<close>

text \<open>The key of a counter: a long name is cut at 64 bytes, which panics inside a character.\<close>

definition tool_key :: "string \<Rightarrow> string option" where
  "tool_key tool =
     (let t = trim tool
      in if length t \<le> 64 then Some t
         else if is_char_boundary t 64 then Some (take 64 t) else None)"

definition inc_tool_counter :: "string \<Rightarrow> (string, nat) store \<Rightarrow> (string, nat) store option" where
  "inc_tool_counter tool m =
     map_option (\<lambda>key. st_put key (Suc (case st_get m key of Some n \<Rightarrow> n | None \<Rightarrow> 0)) m) (tool_key tool)"

record planner_counters =
  mtr_dispatched :: "(string, nat) store"
  mtr_success :: "(string, nat) store"
  mtr_error :: "(string, nat) store"
  mtr_optional_skipped :: "(string, nat) store"
  mtr_local_patch_replan_calls :: nat

section \<open>Templates\<close>

fun navigate_json_path :: "json \<Rightarrow> string list \<Rightarrow> json option" where
  "navigate_json_path cur [] = Some cur"
| "navigate_json_path cur (p # path) =
     (case cur of
        JObject m \<Rightarrow> (case map_of m p of Some v \<Rightarrow> navigate_json_path v path | None \<Rightarrow> None)
      | _ \<Rightarrow> None)"

definition strip_template :: "string \<Rightarrow> string option" where
  "strip_template s =
     (let t = trim s
      in if \<not> starts_with t ''${outputs.'' \<or> \<not> ends_with t ''}'' then None
         else Some (drop (length ''${outputs.'') (butlast t)))"

definition resolve_string :: "(string, json) store \<Rightarrow> string \<Rightarrow> (string, json) result" where
  "resolve_string outputs s =
     (case strip_template s of
        None \<Rightarrow> Inr (JString s)
      | Some inner \<Rightarrow>
          (case split_char CHR ''.'' inner of
             step_id # p # path \<Rightarrow>
               (case st_get outputs step_id of
                  None \<Rightarrow> Inl (''unknown step id in template: '' @ step_id)
                | Some step_out \<Rightarrow>
                    (case navigate_json_path step_out (p # path) of
                       Some v \<Rightarrow> Inr v
                     | None \<Rightarrow> Inl (''path not found in step output: '' @ inner)))
           | _ \<Rightarrow> Inl ''invalid outputs template''))"

fun resolve_output_templates :: "(string, json) store \<Rightarrow> json \<Rightarrow> (string, json) result"
  and resolve_elements :: "(string, json) store \<Rightarrow> json list \<Rightarrow> (string, json list) result"
  and resolve_members :: "(string, json) store \<Rightarrow> (string \<times> json) list \<Rightarrow> (string, (string \<times> json) list) result"
where
  "resolve_output_templates outputs (JString s) = resolve_string outputs s"
| "resolve_output_templates outputs (JArray a) = map_sum id JArray (resolve_elements outputs a)"
| "resolve_output_templates outputs (JObject m) = map_sum id JObject (resolve_members outputs m)"
| "resolve_output_templates outputs JNull = Inr JNull"
| "resolve_output_templates outputs (JBool b) = Inr (JBool b)"
| "resolve_output_templates outputs (JNumber q) = Inr (JNumber q)"
| "resolve_elements outputs [] = Inr []"
| "resolve_elements outputs (x # xs) =
     (case resolve_output_templates outputs x of
        Inl e \<Rightarrow> Inl e
      | Inr v \<Rightarrow> map_sum id (Cons v) (resolve_elements outputs xs))"
| "resolve_members outputs [] = Inr []"
| "resolve_members outputs ((k, x) # m) =
     (case resolve_output_templates outputs x of
        Inl e \<Rightarrow> Inl e
      | Inr v \<Rightarrow> map_sum id (Cons (k, v)) (resolve_members outputs m))"

section \<open>The environment and the state of an execution\<close>

record infer_output =
  ifo_structured :: "json option"
  ifo_text :: string

text \<open>
  A request for a repair differs from the others of a plan in its repair context alone. The recorder's
  failure is only logged.
\<close>

record 'w plan_env =
  pv_elapsed_ms :: "'w \<Rightarrow> nat"
  pv_dispatch :: "string \<Rightarrow> string \<Rightarrow> json \<Rightarrow> 'w \<Rightarrow> (plan_step_error, json) result \<times> 'w"
  pv_recorder :: "(string \<Rightarrow> string \<Rightarrow> json \<Rightarrow> json \<Rightarrow> 'w \<Rightarrow> 'w) option"
  pv_driver :: "(completion_request \<Rightarrow> 'w \<Rightarrow> (llm_error, completion_response) result \<times> 'w) option"
  pv_infer :: "(repair_context \<Rightarrow> 'w \<Rightarrow> (string, infer_output) result \<times> 'w) option"
  pv_model :: string
  pv_traced :: bool
  pv_parse :: "string \<Rightarrow> (string, json) result"
  pv_show :: "json \<Rightarrow> string"
  pv_step_of_json :: "json \<Rightarrow> (string, plan_step) result"
  pv_compile_schema :: "json \<Rightarrow> (string, json \<Rightarrow> (string, unit) result) result"

record 'w plan_state =
  px_completed :: "string list"
  px_skipped :: "string list"
  px_outputs :: "(string, json) store"
  px_replans_used :: nat
  px_counters :: planner_counters
  px_trace :: "trace_event_type list"
  px_progress :: "(string \<times> string \<times> string) list"
  px_world :: 'w

datatype plan_execution_error =
    WallClockExceeded
  | MaxStepsExceeded
  | StepFailed string plan_step_error
  | RepairInfer string
  | ReplanBudgetExceeded

record plan_execution_result =
  pxr_completed :: "string list"
  pxr_skipped :: "string list"
  pxr_outputs :: "(string, json) store"
  pxr_fell_back_to_legacy :: bool

type_synonym plan_outcome = "(plan_execution_error, plan_execution_result) result"

definition trace_event :: "'w plan_env \<Rightarrow> trace_event_type \<Rightarrow> 'w plan_state \<Rightarrow> 'w plan_state" where
  "trace_event env ev st = (if pv_traced env then st\<lparr>px_trace := px_trace st @ [ev]\<rparr> else st)"

definition step_progress :: "'w plan_env \<Rightarrow> string \<Rightarrow> string \<Rightarrow> string \<Rightarrow> 'w plan_state \<Rightarrow> 'w plan_state" where
  "step_progress env step_id tool status st =
     (if pv_traced env then st\<lparr>px_progress := px_progress st @ [(step_id, tool, status)]\<rparr> else st)"

text \<open>Counting for a tool; nothing is the panic of the key.\<close>

definition count_dispatched :: "string \<Rightarrow> 'w plan_state \<Rightarrow> 'w plan_state option" where
  "count_dispatched tool st =
     map_option (\<lambda>m. st\<lparr>px_counters := (px_counters st)\<lparr>mtr_dispatched := m\<rparr>\<rparr>)
       (inc_tool_counter tool (mtr_dispatched (px_counters st)))"

definition count_success :: "string \<Rightarrow> 'w plan_state \<Rightarrow> 'w plan_state option" where
  "count_success tool st =
     map_option (\<lambda>m. st\<lparr>px_counters := (px_counters st)\<lparr>mtr_success := m\<rparr>\<rparr>)
       (inc_tool_counter tool (mtr_success (px_counters st)))"

definition count_error :: "string \<Rightarrow> 'w plan_state \<Rightarrow> 'w plan_state option" where
  "count_error tool st =
     map_option (\<lambda>m. st\<lparr>px_counters := (px_counters st)\<lparr>mtr_error := m\<rparr>\<rparr>)
       (inc_tool_counter tool (mtr_error (px_counters st)))"

definition count_optional_skipped :: "string \<Rightarrow> 'w plan_state \<Rightarrow> 'w plan_state option" where
  "count_optional_skipped tool st =
     map_option (\<lambda>m. st\<lparr>px_counters := (px_counters st)\<lparr>mtr_optional_skipped := m\<rparr>\<rparr>)
       (inc_tool_counter tool (mtr_optional_skipped (px_counters st)))"

definition count_local_patch :: "'w plan_state \<Rightarrow> 'w plan_state" where
  "count_local_patch st =
     st\<lparr>px_counters := (px_counters st)\<lparr>mtr_local_patch_replan_calls := mtr_local_patch_replan_calls (px_counters st) + 1\<rparr>\<rparr>"

section \<open>One step\<close>

definition parse_repair_step :: "'w plan_env \<Rightarrow> string \<Rightarrow> (string, plan_step) result" where
  "parse_repair_step env txt =
     (case pv_parse env (trim txt) of
        Inl e \<Rightarrow> Inl e
      | Inr v \<Rightarrow>
          if Option.bind (json_get ''kind'' v) as_str \<noteq> Some ''plan_step_repair'' then Inl ''expected kind plan_step_repair''
          else (case json_get ''step'' v of None \<Rightarrow> Inl ''missing step'' | Some s \<Rightarrow> pv_step_of_json env s))"

definition validate_against_schema :: "'w plan_env \<Rightarrow> json \<Rightarrow> json \<Rightarrow> (string, unit) result" where
  "validate_against_schema env v schema =
     (let compiled = (case pv_compile_schema env schema of
                        Inl e \<Rightarrow> Inl (''invalid schema: '' @ e)
                      | Inr check \<Rightarrow> check v)
      in case Option.bind (json_get ''required'' schema) as_array of
           None \<Rightarrow> compiled
         | Some req \<Rightarrow>
             (case v of
                JObject obj \<Rightarrow>
                  (case find (\<lambda>key. map_of obj key = None) (List.map_filter as_str req) of
                     Some key \<Rightarrow> Inl (''missing required field `'' @ key @ ''`'')
                   | None \<Rightarrow> compiled)
              | _ \<Rightarrow> Inl ''expected JSON object''))"

definition default_schema :: json where
  "default_schema = JObject [(''properties'', JObject [(''output'', JObject [])]), (''type'', JString ''object'')]"

definition reasoning_request :: "'w plan_env \<Rightarrow> plan_step \<Rightarrow> json \<Rightarrow> (string, json) store \<Rightarrow> completion_request" where
  "reasoning_request env step args prior =
     \<lparr>cr_model = pv_model env,
      cr_messages = [user_message (pv_show env (JObject
        [(''args'', args), (''prior_outputs'', JObject prior), (''step_id'', JString (pst_id step))]))],
      cr_tools = [], cr_max_tokens = 2048, cr_temperature = 1 / 5,
      cr_system = Some (''Reasoning sub-task (scoped). Respond with JSON only matching schema:'' @ [CHR 0x0A]
        @ pv_show env (case pst_expected_output_schema step of Some s \<Rightarrow> s | None \<Rightarrow> default_schema))\<rparr>"

definition reasoning_error :: "llm_error \<Rightarrow> plan_step_error" where
  "reasoning_error e =
     (case e of
        RateLimitedError _ \<Rightarrow> Transient (llm_error_text e)
      | OverloadedError _ \<Rightarrow> Transient (llm_error_text e)
      | _ \<Rightarrow> Deterministic (llm_error_text e))"

definition reasoning_answer :: "'w plan_env \<Rightarrow> plan_step \<Rightarrow> string \<Rightarrow> (plan_step_error, json) result" where
  "reasoning_answer env step txt =
     (case pv_parse env txt of
        Inl _ \<Rightarrow> Inl (Deterministic (''reasoning JSON parse failed: '' @ txt))
      | Inr parsed \<Rightarrow>
          (case pst_expected_output_schema step of
             None \<Rightarrow> Inr parsed
           | Some schema \<Rightarrow>
               (case validate_against_schema env parsed schema of
                  Inl e \<Rightarrow> Inl (Deterministic (''reasoning output schema violation (step '' @ pst_id step @ ''): '' @ e))
                | Inr _ \<Rightarrow> Inr parsed)))"

definition run_reasoning_step ::
  "'w plan_env \<Rightarrow> plan_step \<Rightarrow> json \<Rightarrow> 'w plan_state \<Rightarrow> (plan_step_error, json) result \<times> 'w plan_state" where
  "run_reasoning_step env step args st =
     (let st1 = trace_event env (PlanReasoningReentry (pst_id step)) st
      in case pv_driver env of
           None \<Rightarrow> (Inl (Deterministic ''reasoning step but no LLM driver''), st1)
         | Some drv \<Rightarrow>
             (case drv (reasoning_request env step args (px_outputs st1)) (px_world st1) of
                (Inl e, w) \<Rightarrow> (Inl (reasoning_error e), st1\<lparr>px_world := w\<rparr>)
              | (Inr resp, w) \<Rightarrow> (reasoning_answer env step (response_text (re_content resp)), st1\<lparr>px_world := w\<rparr>)))"

text \<open>
  One attempt at a step of the given identifier: as sub-task of the model if the plan says so, else with
  the tool of the step, which for a repaired step is the one of its replacement.
\<close>

definition run_attempt ::
  "'w plan_env \<Rightarrow> deterministic_plan \<Rightarrow> string \<Rightarrow> plan_step \<Rightarrow> json \<Rightarrow> 'w plan_state
     \<Rightarrow> (plan_step_error, json) result \<times> 'w plan_state" where
  "run_attempt env plan step_id step args st =
     (if step_id \<in> set (dpl_reasoning_required_at plan) then run_reasoning_step env step args st
      else (case pv_dispatch env step_id (pst_tool step) args (px_world st) of (r, w) \<Rightarrow> (r, st\<lparr>px_world := w\<rparr>)))"

definition attempt_step ::
  "'w plan_env \<Rightarrow> deterministic_plan \<Rightarrow> plan_step \<Rightarrow> json \<Rightarrow> 'w plan_state
     \<Rightarrow> (plan_step_error, json) result \<times> 'w plan_state" where
  "attempt_step env plan step args st =
     (case run_attempt env plan (pst_id step) step args st of
        (Inr v, st1) \<Rightarrow> (Inr v, st1)
      | (Inl e, st1) \<Rightarrow>
          if pst_on_error step = RetryOnce then run_attempt env plan (pst_id step) step args st1 else (Inl e, st1))"

text \<open>A success: counted, recorded, its output kept.\<close>

definition complete_step :: "'w plan_env \<Rightarrow> string \<Rightarrow> string \<Rightarrow> json \<Rightarrow> json \<Rightarrow> 'w plan_state \<Rightarrow> 'w plan_state option" where
  "complete_step env step_id tool args v st =
     map_option (\<lambda>st1.
         trace_event env (PlanStepCompleted step_id tool)
           (st1\<lparr>px_world := (case pv_recorder env of Some rec \<Rightarrow> rec step_id tool args v (px_world st1) | None \<Rightarrow> px_world st1),
                px_outputs := st_put step_id v (px_outputs st1),
                px_completed := (if step_id \<in> set (px_completed st1) then px_completed st1 else px_completed st1 @ [step_id])\<rparr>))
       (count_success tool st)"

definition execution_result :: "bool \<Rightarrow> 'w plan_state \<Rightarrow> plan_execution_result" where
  "execution_result fell_back st =
     \<lparr>pxr_completed = px_completed st, pxr_skipped = px_skipped st, pxr_outputs = px_outputs st,
      pxr_fell_back_to_legacy = fell_back\<rparr>"

text \<open>
  A step ends the execution with an outcome, or lets it go on (no outcome); nothing at all is a panic.
  \<open>local_patch\<close> asks the inference server for a replacement of a failed step.
\<close>

definition run_replacement ::
  "'w plan_env \<Rightarrow> deterministic_plan \<Rightarrow> plan_step \<Rightarrow> infer_output \<Rightarrow> 'w plan_state
     \<Rightarrow> (plan_outcome option \<times> 'w plan_state) option" where
  "run_replacement env plan step out st =
     (case parse_repair_step env (ifo_text out) of
        Inl e \<Rightarrow> Some (Some (Inl (RepairInfer e)), trace_event env (PlanFallback (''parse_repair_step: '' @ e)) st)
      | Inr replacement \<Rightarrow>
          (case resolve_output_templates (px_outputs st) (pst_args replacement) of
             Inl msg \<Rightarrow> Some (Some (Inl (StepFailed (pst_id step) (Deterministic msg))), st)
           | Inr merged_args \<Rightarrow>
               (case run_attempt env plan (pst_id step) replacement merged_args st of
                  (Inr v, st1) \<Rightarrow>
                    map_option (Pair None) (complete_step env (pst_id step) (pst_tool replacement) merged_args v st1)
                | (Inl e2, st1) \<Rightarrow>
                    map_option (Pair (Some (Inl (StepFailed (pst_id step) e2)))) (count_error (pst_tool replacement) st1))))"

definition planner_invalid :: "json option \<Rightarrow> bool" where
  "planner_invalid structured =
     (Option.bind structured (\<lambda>s. Option.bind (json_get ''kind'' s) as_str) = Some ''planner_invalid_plan'')"

definition structured_reason :: "string \<Rightarrow> json option \<Rightarrow> string" where
  "structured_reason dflt structured =
     (case Option.bind structured (\<lambda>s. Option.bind (json_get ''reason'' s) as_str) of Some r \<Rightarrow> r | None \<Rightarrow> dflt)"

definition local_patch ::
  "'w plan_env \<Rightarrow> deterministic_plan \<Rightarrow> policy_caps \<Rightarrow> plan_step \<Rightarrow> plan_step_error \<Rightarrow> 'w plan_state
     \<Rightarrow> (plan_outcome option \<times> 'w plan_state) option" where
  "local_patch env plan limits step e st =
     (if px_replans_used st \<ge> pcap_max_replan_calls limits
      then Some (Some (Inl ReplanBudgetExceeded), trace_event env (PlanFallback ''replan_budget_exhausted'') st)
      else
        (case pv_infer env of
           None \<Rightarrow> Some (Some (Inl (StepFailed (pst_id step) e)), st)
         | Some infer \<Rightarrow>
             let st1 = trace_event env (PlanLocalPatch (pst_id step) (px_replans_used st + 1)) st
             in case infer \<lparr>rpr_failed_step_id = pst_id step, rpr_failed_step_tool = pst_tool step,
                            rpr_error_msg = to_message e, rpr_prior_outputs = JObject (px_outputs st)\<rparr> (px_world st1) of
                  (Inl err, w) \<Rightarrow>
                    Some (Some (Inl (RepairInfer err)),
                          trace_event env (PlanFallback (''local_patch_infer_failed: '' @ err)) (st1\<lparr>px_world := w\<rparr>))
                | (Inr out, w) \<Rightarrow>
                    let st2 = count_local_patch (st1\<lparr>px_world := w, px_replans_used := px_replans_used st1 + 1\<rparr>)
                    in if planner_invalid (ifo_structured out)
                       then Some (Some (Inr (execution_result True st2)),
                                  trace_event env (PlanFallback (structured_reason ''planner_invalid_plan'' (ifo_structured out))) st2)
                       else run_replacement env plan step out st2))"

definition fail_step ::
  "'w plan_env \<Rightarrow> deterministic_plan \<Rightarrow> policy_caps \<Rightarrow> plan_step \<Rightarrow> plan_step_error \<Rightarrow> 'w plan_state
     \<Rightarrow> (plan_outcome option \<times> 'w plan_state) option" where
  "fail_step env plan limits step e st =
     (if pst_optional step
      then map_option (\<lambda>st1.
          (None, (step_progress env (pst_id step) (pst_tool step) ''optional_skipped''
                    (trace_event env (PlanStepFailed (pst_id step) (pst_tool step) (''optional: '' @ to_message e)) st1))
                 \<lparr>px_skipped := px_skipped st1 @ [pst_id step]\<rparr>))
        (count_optional_skipped (pst_tool step) st)
      else Option.bind (count_error (pst_tool step) st) (\<lambda>st1.
          let st2 = step_progress env (pst_id step) (pst_tool step) ''failed''
                      (trace_event env (PlanStepFailed (pst_id step) (pst_tool step) (to_message e)) st1)
          in if pst_on_error step = LocalPatch then local_patch env plan limits step e st2
             else Some (Some (Inl (StepFailed (pst_id step) e)), st2)))"

definition run_step ::
  "'w plan_env \<Rightarrow> deterministic_plan \<Rightarrow> policy_caps \<Rightarrow> plan_step \<Rightarrow> 'w plan_state
     \<Rightarrow> (plan_outcome option \<times> 'w plan_state) option" where
  "run_step env plan limits step st =
     (let st1 = trace_event env (PlanStepStarted (pst_id step) (pst_tool step)) st
      in case resolve_output_templates (px_outputs st1) (pst_args step) of
           Inl e \<Rightarrow>
             Some (Some (Inl (StepFailed (pst_id step) (Deterministic e))),
                   trace_event env (PlanStepFailed (pst_id step) (pst_tool step) e) st1)
         | Inr resolved_args \<Rightarrow>
             Option.bind (count_dispatched (pst_tool step) st1) (\<lambda>st2.
               case attempt_step env plan step resolved_args st2 of
                 (Inr v, st3) \<Rightarrow>
                   map_option (\<lambda>st4. (None, step_progress env (pst_id step) (pst_tool step) ''completed'' st4))
                     (complete_step env (pst_id step) (pst_tool step) resolved_args v st3)
               | (Inl e, st3) \<Rightarrow> fail_step env plan limits step e st3))"

definition ready :: "'w plan_state \<Rightarrow> plan_step \<Rightarrow> bool" where
  "ready st s =
     (pst_id s \<notin> set (px_completed st) \<and> pst_id s \<notin> set (px_skipped st)
      \<and> (\<forall>d \<in> set (pst_depends_on s). d \<in> set (px_completed st)))"


section \<open>What the parts of a step leave unchanged\<close>

lemma trace_event_fields [simp]:
  "px_completed (trace_event env ev st) = px_completed st" "px_skipped (trace_event env ev st) = px_skipped st"
  "px_outputs (trace_event env ev st) = px_outputs st" "px_replans_used (trace_event env ev st) = px_replans_used st"
  "px_world (trace_event env ev st) = px_world st"
  "px_trace (trace_event env ev st) = px_trace st @ (if pv_traced env then [ev] else [])"
  by (simp_all add: trace_event_def)

lemma step_progress_fields [simp]:
  "px_completed (step_progress env i t s st) = px_completed st" "px_skipped (step_progress env i t s st) = px_skipped st"
  "px_outputs (step_progress env i t s st) = px_outputs st" "px_replans_used (step_progress env i t s st) = px_replans_used st"
  "px_world (step_progress env i t s st) = px_world st" "px_trace (step_progress env i t s st) = px_trace st"
  by (simp_all add: step_progress_def)

text \<open>Events other than the start and the completion of a step, and the identifiers of those two.\<close>

definition quiet :: "trace_event_type \<Rightarrow> bool" where
  "quiet ev = (case ev of PlanStepStarted _ _ \<Rightarrow> False | PlanStepCompleted _ _ \<Rightarrow> False | _ \<Rightarrow> True)"

lemma quiet_simps [simp]:
  "quiet (PlanStepFailed i t e)" "quiet (PlanReasoningReentry i)" "quiet (PlanLocalPatch i n)" "quiet (PlanFallback r)"
  "quiet (PlanStarted a b c d)" "\<not> quiet (PlanStepStarted i t)" "\<not> quiet (PlanStepCompleted i t)"
  by (simp_all add: quiet_def)

definition keeps_plan :: "'w plan_state \<Rightarrow> 'w plan_state \<Rightarrow> bool" where
  "keeps_plan st st' =
     (px_completed st' = px_completed st \<and> px_skipped st' = px_skipped st \<and> px_outputs st' = px_outputs st
      \<and> (\<exists>evs. px_trace st' = px_trace st @ evs \<and> list_all quiet evs))"

lemma keeps_plan_refl: "keeps_plan st st"
  by (simp add: keeps_plan_def)

lemma keeps_plan_trans: "keeps_plan a b \<Longrightarrow> keeps_plan b c \<Longrightarrow> keeps_plan a c"
  by (auto simp: keeps_plan_def)

lemma keeps_plan_trace [simp]: "quiet ev \<Longrightarrow> keeps_plan st (trace_event env ev st)"
  by (simp add: keeps_plan_def)

lemma keeps_plan_progress [simp]: "keeps_plan st (step_progress env i t s st)"
  by (simp add: keeps_plan_def)

lemma keeps_plan_count:
  "count_dispatched t st = Some st' \<Longrightarrow> keeps_plan st st'" "count_success t st = Some st' \<Longrightarrow> keeps_plan st st'"
  "count_error t st = Some st' \<Longrightarrow> keeps_plan st st'" "count_optional_skipped t st = Some st' \<Longrightarrow> keeps_plan st st'"
  "keeps_plan st (count_local_patch st)"
  by (auto simp: count_dispatched_def count_success_def count_error_def count_optional_skipped_def count_local_patch_def
      keeps_plan_def)

lemma keeps_plan_reasoning: "keeps_plan st (snd (run_reasoning_step env step args st))"
  by (auto simp: run_reasoning_step_def Let_def keeps_plan_def split: option.splits prod.splits sum.splits)

lemma keeps_plan_attempt: "keeps_plan st (snd (run_attempt env plan i step args st))"
  using keeps_plan_reasoning [of st env step args]
  by (auto simp: run_attempt_def keeps_plan_refl keeps_plan_def split: prod.splits)

lemma keeps_plan_attempt_step: "keeps_plan st (snd (attempt_step env plan step args st))"
  using keeps_plan_attempt [of st env plan "pst_id step" step args]
    keeps_plan_trans [OF _ keeps_plan_attempt, of st _ env plan "pst_id step" step args]
  by (fastforce simp: attempt_step_def split: prod.splits sum.splits)

text \<open>A step that lets the execution go on has been completed, or is optional and skipped.\<close>

definition step_completed :: "plan_step \<Rightarrow> 'w plan_state \<Rightarrow> 'w plan_state \<Rightarrow> bool" where
  "step_completed step st st' =
     (px_completed st' = (if pst_id step \<in> set (px_completed st) then px_completed st else px_completed st @ [pst_id step])
      \<and> px_skipped st' = px_skipped st \<and> (\<exists>v. px_outputs st' = st_put (pst_id step) v (px_outputs st)))"

definition step_skipped :: "plan_step \<Rightarrow> 'w plan_state \<Rightarrow> 'w plan_state \<Rightarrow> bool" where
  "step_skipped step st st' =
     (pst_optional step \<and> px_completed st' = px_completed st \<and> px_skipped st' = px_skipped st @ [pst_id step]
      \<and> px_outputs st' = px_outputs st)"

definition completed_by :: "'w plan_env \<Rightarrow> plan_step \<Rightarrow> 'w plan_state \<Rightarrow> 'w plan_state \<Rightarrow> bool" where
  "completed_by env step st st' =
     (step_completed step st st'
      \<and> (\<exists>evs tool. px_trace st' = px_trace st @ evs @ (if pv_traced env then [PlanStepCompleted (pst_id step) tool] else [])
           \<and> list_all quiet evs))"

definition skipped_by :: "plan_step \<Rightarrow> 'w plan_state \<Rightarrow> 'w plan_state \<Rightarrow> bool" where
  "skipped_by step st st' =
     (step_skipped step st st' \<and> (\<exists>evs. px_trace st' = px_trace st @ evs \<and> list_all quiet evs))"

text \<open>The effect of a step, or of its rest, by its outcome.\<close>

definition step_effect ::
  "'w plan_env \<Rightarrow> plan_step \<Rightarrow> 'w plan_state \<Rightarrow> (plan_outcome option \<times> 'w plan_state) option \<Rightarrow> bool" where
  "step_effect env step st r =
     (case r of
        None \<Rightarrow> True
      | Some (None, st') \<Rightarrow> completed_by env step st st' \<or> skipped_by step st st'
      | Some (Some (Inl _), st') \<Rightarrow> keeps_plan st st'
      | Some (Some (Inr res), st') \<Rightarrow> keeps_plan st st' \<and> pxr_fell_back_to_legacy res)"

lemma complete_step_effect:
  assumes "keeps_plan st0 st" "complete_step env (pst_id step) tool args v st = Some st'"
  shows "completed_by env step st0 st'"
  using assms
  by (cases "pv_traced env")
     (auto simp: complete_step_def completed_by_def step_completed_def keeps_plan_def dest!: keeps_plan_count(2))

lemma completed_progress: "completed_by env step st st' \<Longrightarrow> completed_by env step st (step_progress env i t s st')"
  by (simp add: completed_by_def step_completed_def)

lemma run_replacement_effect:
  assumes "keeps_plan st0 st"
  shows "step_effect env step st0 (run_replacement env plan step out st)"
proof -
  note attempt = keeps_plan_trans [OF assms keeps_plan_attempt [of st env plan "pst_id step"]]
  have ok: "step_effect env step st0 (map_option (Pair None) (complete_step env (pst_id step) t a v st1))"
    if "run_attempt env plan (pst_id step) rep a st = (Inr v, st1)" for rep a v st1 t
    using that attempt [of rep a] complete_step_effect [of st0 st1 env step]
    by (auto simp: step_effect_def split: option.splits)
  have err: "step_effect env step st0 (map_option (Pair (Some (Inl e'))) (count_error t st1))"
    if "run_attempt env plan (pst_id step) rep a st = (Inl e, st1)" for rep a e st1 t e'
    using that attempt [of rep a] keeps_plan_trans [OF _ keeps_plan_count(3), of st0 st1]
    by (auto simp: step_effect_def split: option.splits)
  show ?thesis
    using assms ok err keeps_plan_trans [OF assms keeps_plan_trace]
    by (auto simp: run_replacement_def step_effect_def split: sum.splits prod.splits)
qed

lemma local_patch_effect:
  assumes "keeps_plan st0 st"
  shows "step_effect env step st0 (local_patch env plan limits step e st)"
proof -
  have w: "keeps_plan st0 (s\<lparr>px_world := w\<rparr>)" "keeps_plan st0 (count_local_patch (s\<lparr>px_world := w, px_replans_used := n\<rparr>))"
    "keeps_plan st0 (trace_event env (PlanFallback r) (s\<lparr>px_world := w\<rparr>))"
    "keeps_plan st0 (trace_event env (PlanFallback r) (count_local_patch (s\<lparr>px_world := w, px_replans_used := n\<rparr>)))"
    if "keeps_plan st0 s" for s w n r
    using that by (auto simp: keeps_plan_def count_local_patch_def)
  show ?thesis
    using assms keeps_plan_trans [OF assms keeps_plan_trace]
    by (auto simp: local_patch_def Let_def step_effect_def [of _ _ _ "Some (Some _, _)"] execution_result_def w
        run_replacement_effect split: option.splits prod.splits sum.splits)
qed

lemma fail_step_effect:
  assumes "keeps_plan st0 st"
  shows "step_effect env step st0 (fail_step env plan limits step e st)"
proof (cases "pst_optional step")
  case True
  then show ?thesis
    using keeps_plan_trans [OF assms keeps_plan_count(4)]
    by (fastforce simp: fail_step_def step_effect_def skipped_by_def step_skipped_def keeps_plan_def split: option.splits)
next
  case False
  have "keeps_plan st0 (step_progress env i t s (trace_event env (PlanStepFailed i t m) st1))"
    if "count_error (pst_tool step) st = Some st1" for i t s m st1
    using keeps_plan_trans [OF keeps_plan_trans [OF assms keeps_plan_count(3) [OF that]] keeps_plan_trace]
    by (meson keeps_plan_progress keeps_plan_trans quiet_simps(1))
  then show ?thesis
    using False
    by (auto simp: fail_step_def Let_def local_patch_effect bind_eq_None_conv step_effect_def [of _ _ _ "Some (Some _, _)"]
        step_effect_def [of _ _ _ None] split: bind_splits)
qed

abbreviation started :: "'w plan_env \<Rightarrow> plan_step \<Rightarrow> 'w plan_state \<Rightarrow> 'w plan_state" where
  "started env step st \<equiv> trace_event env (PlanStepStarted (pst_id step) (pst_tool step)) st"

lemma run_step_effect: "step_effect env step (started env step st) (run_step env plan limits step st)"
proof -
  let ?s = "started env step st"
  have kp: "keeps_plan ?s st3" if "count_dispatched (pst_tool step) ?s = Some st2"
    "attempt_step env plan step a st2 = (r, st3)" for st2 st3 a r
    using keeps_plan_trans [OF keeps_plan_count(1) [OF that(1)] keeps_plan_attempt_step [of st2 env plan step a]] that(2) by simp
  have ok: "step_effect env step ?s
      (map_option (\<lambda>st4. (None, step_progress env i t c st4)) (complete_step env (pst_id step) (pst_tool step) a v st3))"
    if "keeps_plan ?s st3" for i t c a v st3
    using complete_step_effect [OF that] completed_progress by (fastforce simp: step_effect_def split: option.splits)
  show ?thesis
  proof (cases "resolve_output_templates (px_outputs st) (pst_args step)")
    case (Inl e)
    then show ?thesis by (simp add: run_step_def step_effect_def)
  next
    case (Inr a)
    show ?thesis
    proof (cases "count_dispatched (pst_tool step) ?s")
      case None
      with Inr show ?thesis by (simp add: run_step_def step_effect_def)
    next
      case (Some st2)
      obtain r st3 where at: "attempt_step env plan step a st2 = (r, st3)" by (cases "attempt_step env plan step a st2")
      note k = kp [OF Some at]
      from Inr Some at show ?thesis
        using ok [OF k] fail_step_effect [OF k] by (cases r) (simp_all add: run_step_def)
    qed
  qed
qed

text \<open>So the step is settled afterwards.\<close>

definition settled :: "'w plan_state \<Rightarrow> string set" where
  "settled st = set (px_completed st) \<union> set (px_skipped st)"

lemma run_step_settles:
  "run_step env plan limits step st = Some (None, st') \<Longrightarrow> settled st' = insert (pst_id step) (settled st)"
  using run_step_effect [of env step st plan limits]
  by (auto simp: step_effect_def completed_by_def step_completed_def skipped_by_def step_skipped_def settled_def
      split: if_splits)

section \<open>The execution\<close>

lemma find_ready: "find (ready st) steps = Some s \<Longrightarrow> s \<in> set steps \<and> pst_id s \<notin> settled st
    \<and> set (pst_depends_on s) \<subseteq> set (px_completed st)"
  by (auto dest!: find_SomeD simp: ready_def settled_def)

definition unsettled :: "deterministic_plan \<Rightarrow> 'w plan_state \<Rightarrow> nat" where
  "unsettled plan st = card (pst_id ` set (dpl_steps plan) - settled st)"

lemma run_step_unsettled:
  assumes "find (ready st) (dpl_steps plan) = Some step" "run_step env plan limits step st = Some (None, st')"
  shows "unsettled plan st = Suc (unsettled plan st')"
proof -
  have "pst_id ` set (dpl_steps plan) - settled st
      = insert (pst_id step) (pst_id ` set (dpl_steps plan) - settled st')"
    "pst_id step \<notin> pst_id ` set (dpl_steps plan) - settled st'"
    using find_ready [OF assms(1)] run_step_settles [OF assms(2)] by auto
  then show ?thesis by (simp add: unsettled_def)
qed

text \<open>The first ready step runs next; the limits are checked before a step is looked for.\<close>

function plan_loop ::
  "'w plan_env \<Rightarrow> deterministic_plan \<Rightarrow> policy_caps \<Rightarrow> 'w plan_state \<Rightarrow> (plan_outcome \<times> 'w plan_state) option" where
  "plan_loop env plan limits st =
     (if pv_elapsed_ms env (px_world st) > pcap_max_wall_ms limits
      then Some (Inl WallClockExceeded, trace_event env (PlanFallback ''plan_wall_clock_exceeded'') st)
      else if length (px_completed st) \<ge> max 1 (pcap_max_steps limits)
      then Some (Inl MaxStepsExceeded, trace_event env (PlanFallback ''plan_max_steps_exceeded'') st)
      else
        (case find (ready st) (dpl_steps plan) of
           None \<Rightarrow> Some (Inr (execution_result False st), st)
         | Some step \<Rightarrow>
             (case run_step env plan limits step st of
                None \<Rightarrow> None
              | Some (Some r, st') \<Rightarrow> Some (r, st')
              | Some (None, st') \<Rightarrow> plan_loop env plan limits st')))"
  by pat_completeness auto
termination
  by (relation "measure (\<lambda>(_, plan, _, st). unsettled plan st)") (auto dest: run_step_unsettled)

declare plan_loop.simps [simp del]

definition plan_start :: "'w plan_env \<Rightarrow> deterministic_plan \<Rightarrow> string list \<Rightarrow> planner_counters \<Rightarrow> 'w \<Rightarrow> 'w plan_state" where
  "plan_start env plan planner_follow_ups counters w =
     trace_event env (PlanStarted (length (dpl_steps plan)) (dpl_confidence plan) (dpl_reasoning_required_at plan) planner_follow_ups)
       \<lparr>px_completed = [], px_skipped = [], px_outputs = [], px_replans_used = 0, px_counters = counters,
        px_trace = [], px_progress = [], px_world = w\<rparr>"

definition execute_plan ::
  "'w plan_env \<Rightarrow> deterministic_plan \<Rightarrow> policy_caps \<Rightarrow> string list \<Rightarrow> planner_counters \<Rightarrow> 'w
     \<Rightarrow> (plan_outcome \<times> 'w plan_state) option" where
  "execute_plan env plan limits planner_follow_ups counters w =
     plan_loop env plan limits (plan_start env plan planner_follow_ups counters w)"


text \<open>How an execution ends, from an invariant of its steps.\<close>

lemma plan_loop_ends:
  assumes "plan_loop env plan limits st = Some (r, st')" "P st"
    and step: "\<And>s step s'. P s \<Longrightarrow> find (ready s) (dpl_steps plan) = Some step
      \<Longrightarrow> run_step env plan limits step s = Some (None, s') \<Longrightarrow> P s'"
  shows "(\<exists>s e f. P s \<and> r = Inl e \<and> st' = trace_event env (PlanFallback f) s)
    \<or> P st' \<and> find (ready st') (dpl_steps plan) = None \<and> r = Inr (execution_result False st')
       \<and> length (px_completed st') < max 1 (pcap_max_steps limits)
    \<or> (\<exists>s step. P s \<and> find (ready s) (dpl_steps plan) = Some step
          \<and> run_step env plan limits step s = Some (Some r, st'))"
  using assms
proof (induction env plan limits st rule: plan_loop.induct)
  case (1 env plan limits st)
  consider (wall) "pv_elapsed_ms env (px_world st) > pcap_max_wall_ms limits"
    | (limit) "\<not> pv_elapsed_ms env (px_world st) > pcap_max_wall_ms limits"
        "length (px_completed st) \<ge> max 1 (pcap_max_steps limits)"
    | (go) "\<not> pv_elapsed_ms env (px_world st) > pcap_max_wall_ms limits"
        "\<not> length (px_completed st) \<ge> max 1 (pcap_max_steps limits)" by blast
  then show ?case
  proof cases
    case wall
    then show ?thesis using 1(2,3) by (subst (asm) plan_loop.simps) auto
  next
    case limit
    then show ?thesis using 1(2,3) by (subst (asm) plan_loop.simps) auto
  next
    case go
    show ?thesis
    proof (cases "find (ready st) (dpl_steps plan)")
      case None
      with go 1(2,3) show ?thesis by (subst (asm) plan_loop.simps) auto
    next
      case (Some step)
      show ?thesis
      proof (cases "\<exists>st1. run_step env plan limits step st = Some (None, st1)")
        case True
        then obtain st1 where run: "run_step env plan limits step st = Some (None, st1)" by blast
        have "plan_loop env plan limits st = plan_loop env plan limits st1"
          by (subst plan_loop.simps) (simp only: go Some run if_False option.case prod.case)
        with 1(2) have "plan_loop env plan limits st1 = Some (r, st')" by simp
        from 1(1) [OF go Some run refl refl this 1(4) [OF 1(3) Some run]] 1(4) show ?thesis by blast
      next
        case False
        from 1(2) go Some False have "run_step env plan limits step st = Some (Some r, st')"
          by (subst (asm) plan_loop.simps) (auto split: option.splits prod.splits)
        with Some 1(3) show ?thesis by blast
      qed
    qed
  qed
qed

section \<open>The order of steps\<close>

definition started_ids :: "trace_event_type list \<Rightarrow> string set" where
  "started_ids tr = {i. \<exists>t. PlanStepStarted i t \<in> set tr}"

definition completed_ids :: "trace_event_type list \<Rightarrow> string set" where
  "completed_ids tr = {i. \<exists>t. PlanStepCompleted i t \<in> set tr}"

lemma ids_append [simp]:
  "started_ids (a @ b) = started_ids a \<union> started_ids b" "completed_ids (a @ b) = completed_ids a \<union> completed_ids b"
  by (auto simp: started_ids_def completed_ids_def)

lemma ids_event [simp]:
  "started_ids [PlanStepStarted i t] = {i}" "completed_ids [PlanStepStarted i t] = {}"
  "started_ids [PlanStepCompleted i t] = {}" "completed_ids [PlanStepCompleted i t] = {i}"
  "started_ids [] = {}" "completed_ids [] = {}"
  by (auto simp: started_ids_def completed_ids_def)

lemma ids_Cons [simp]:
  "started_ids (PlanStepStarted i t # es) = insert i (started_ids es)"
  "completed_ids (PlanStepStarted i t # es) = completed_ids es"
  by (auto simp: started_ids_def completed_ids_def)

lemma ids_quiet: "list_all quiet evs \<Longrightarrow> started_ids evs = {} \<and> completed_ids evs = {}"
  by (force simp: started_ids_def completed_ids_def list_all_iff)

text \<open>Every start is the first of its identifier and comes after the completions it depends on.\<close>

definition may_start :: "deterministic_plan \<Rightarrow> trace_event_type list \<Rightarrow> string \<Rightarrow> string \<Rightarrow> bool" where
  "may_start plan before i t =
     (i \<notin> started_ids before
      \<and> (\<exists>step \<in> set (dpl_steps plan). pst_id step = i \<and> pst_tool step = t
           \<and> set (pst_depends_on step) \<subseteq> completed_ids before))"

definition ordered_trace :: "deterministic_plan \<Rightarrow> trace_event_type list \<Rightarrow> bool" where
  "ordered_trace plan tr =
     (\<forall>k < length tr. \<forall>i t. tr ! k = PlanStepStarted i t \<longrightarrow> may_start plan (take k tr) i t)"

lemma ordered_snoc: "ordered_trace plan tr \<Longrightarrow> (\<And>i t. e = PlanStepStarted i t \<Longrightarrow> may_start plan tr i t)
    \<Longrightarrow> ordered_trace plan (tr @ [e])"
  by (auto simp: ordered_trace_def nth_append less_Suc_eq)

lemma ordered_append: "ordered_trace plan tr \<Longrightarrow> started_ids evs = {} \<Longrightarrow> ordered_trace plan (tr @ evs)"
proof (induction evs rule: rev_induct)
  case (snoc e evs)
  then have "ordered_trace plan (tr @ evs)" "\<And>i t. e \<noteq> PlanStepStarted i t" by auto
  then show ?case using ordered_snoc [of plan "tr @ evs" e] by simp
qed simp

definition trace_inv :: "deterministic_plan \<Rightarrow> 'w plan_state \<Rightarrow> bool" where
  "trace_inv plan st =
     (ordered_trace plan (px_trace st) \<and> completed_ids (px_trace st) = set (px_completed st)
      \<and> started_ids (px_trace st) \<subseteq> settled st)"

lemma started_ordered:
  assumes "trace_inv plan st" "find (ready st) (dpl_steps plan) = Some step" "pv_traced env"
  shows "ordered_trace plan (px_trace (started env step st))"
proof -
  have "may_start plan (px_trace st) (pst_id step) (pst_tool step)"
    using find_ready [OF assms(2)] assms(1) by (auto simp: may_start_def trace_inv_def)
  then show ?thesis
    using assms(1,3) ordered_snoc [of plan "px_trace st" "PlanStepStarted (pst_id step) (pst_tool step)"]
    by (simp add: trace_inv_def)
qed

lemma trace_inv_step:
  assumes "pv_traced env" "trace_inv plan st" "find (ready st) (dpl_steps plan) = Some step"
    "run_step env plan limits step st = Some (None, st')"
  shows "trace_inv plan st'"
proof -
  note o = started_ordered [OF assms(2,3,1)] and r = find_ready [OF assms(3)]
  have "completed_by env step (started env step st) st' \<or> skipped_by step (started env step st) st'"
    using run_step_effect [of env step st plan limits] assms(4) by (simp add: step_effect_def)
  then show ?thesis
  proof
    assume c: "completed_by env step (started env step st) st'"
    then obtain evs tool where tr: "px_trace st' = (px_trace (started env step st) @ evs) @ [PlanStepCompleted (pst_id step) tool]"
      and q: "list_all quiet evs" using assms(1) by (auto simp: completed_by_def)
    have "ordered_trace plan (px_trace st')"
      unfolding tr by (rule ordered_snoc [OF ordered_append [OF o]]) (simp_all add: ids_quiet [OF q])
    then show ?thesis
      using c assms(1,2) r unfolding trace_inv_def
      by (auto simp: completed_by_def step_completed_def settled_def tr ids_quiet [OF q])
  next
    assume c: "skipped_by step (started env step st) st'"
    then obtain evs where tr: "px_trace st' = px_trace (started env step st) @ evs"
      and q: "list_all quiet evs" by (auto simp: skipped_by_def)
    have "ordered_trace plan (px_trace st')"
      unfolding tr by (rule ordered_append [OF o]) (simp add: ids_quiet [OF q])
    then show ?thesis
      using c assms(1,2) r unfolding trace_inv_def
      by (auto simp: skipped_by_def step_skipped_def settled_def tr ids_quiet [OF q])
  qed
qed

lemma keeps_plan_ordered: "keeps_plan s st \<Longrightarrow> ordered_trace plan (px_trace s) \<Longrightarrow> ordered_trace plan (px_trace st)"
  by (auto simp: keeps_plan_def intro!: ordered_append dest!: ids_quiet)

text \<open>
  C38. A traced execution starts a step at most once, only as a step of the plan with its own tool, and
  only after every step it depends on has completed, whatever the tools, the model and the inference
  server answer.
\<close>

theorem plan_dependencies_respected:
  assumes "execute_plan env plan limits follow_ups counters w = Some (r, st)" "pv_traced env"
    and "k < length (px_trace st)" "px_trace st ! k = PlanStepStarted i t"
  shows "i \<notin> started_ids (take k (px_trace st))
    \<and> (\<exists>step \<in> set (dpl_steps plan). pst_id step = i \<and> pst_tool step = t
         \<and> set (pst_depends_on step) \<subseteq> completed_ids (take k (px_trace st)))"
proof -
  let ?e = "PlanStarted (length (dpl_steps plan)) (dpl_confidence plan) (dpl_reasoning_required_at plan) follow_ups"
  have "completed_ids [?e] = {}" "started_ids [?e] = {}" using ids_quiet [of "[?e]"] by auto
  then have init: "trace_inv plan (plan_start env plan follow_ups counters w)"
    using assms(2) by (simp add: trace_inv_def ordered_trace_def plan_start_def)
  from plan_loop_ends [where P = "trace_inv plan", OF assms(1) [unfolded execute_plan_def] init] trace_inv_step [OF assms(2)]
  consider s f where "trace_inv plan s" "st = trace_event env (PlanFallback f) s" | "trace_inv plan st"
    | s step where "trace_inv plan s" "find (ready s) (dpl_steps plan) = Some step"
        "run_step env plan limits step s = Some (Some r, st)"
    by blast
  then have "ordered_trace plan (px_trace st)"
  proof cases
    case 1
    then show ?thesis
      using ordered_append [of plan "px_trace s" "[PlanFallback f]"] ids_quiet [of "[PlanFallback f]"] by (simp add: trace_inv_def)
  next
    case 2
    then show ?thesis by (simp add: trace_inv_def)
  next
    case 3
    then have "keeps_plan (started env step s) st"
      using run_step_effect [of env step s plan limits] by (cases r) (auto simp: step_effect_def)
    then show ?thesis using keeps_plan_ordered started_ordered [OF 3(1,2) assms(2)] by blast
  qed
  then show ?thesis using assms(3,4) by (simp add: ordered_trace_def may_start_def)
qed


section \<open>What a finished plan has done\<close>

definition account_inv :: "deterministic_plan \<Rightarrow> 'w plan_state \<Rightarrow> bool" where
  "account_inv plan st =
     ((\<forall>i \<in> set (px_completed st). st_get (px_outputs st) i \<noteq> None
         \<and> (\<exists>s \<in> set (dpl_steps plan). pst_id s = i \<and> set (pst_depends_on s) \<subseteq> set (px_completed st)))
      \<and> (\<forall>i \<in> set (px_skipped st). \<exists>s \<in> set (dpl_steps plan). pst_id s = i \<and> pst_optional s)
      \<and> distinct (px_completed st) \<and> set (px_completed st) \<inter> set (px_skipped st) = {})"

lemma account_inv_step:
  assumes "account_inv plan st" "find (ready st) (dpl_steps plan) = Some step"
    "run_step env plan limits step st = Some (None, st')"
  shows "account_inv plan st'"
proof -
  have "step_completed step (started env step st) st' \<or> step_skipped step (started env step st) st'"
    using run_step_effect [of env step st plan limits] assms(3) by (auto simp: step_effect_def completed_by_def skipped_by_def)
  then show ?thesis
    using assms(1) find_ready [OF assms(2)]
    by (fastforce simp: account_inv_def step_completed_def step_skipped_def settled_def update_conv')
qed

lemma plan_start_inv: "account_inv plan (plan_start env plan fu m w)"
  by (simp add: account_inv_def plan_start_def)

lemma finished_plan:
  assumes "execute_plan env plan limits follow_ups counters w = Some (Inr res, st)" "\<not> pxr_fell_back_to_legacy res"
  shows "account_inv plan st \<and> find (ready st) (dpl_steps plan) = None \<and> res = execution_result False st
    \<and> length (px_completed st) < max 1 (pcap_max_steps limits)"
proof -
  from plan_loop_ends [where P = "account_inv plan", OF assms(1) [unfolded execute_plan_def] plan_start_inv] account_inv_step
  consider "account_inv plan st \<and> find (ready st) (dpl_steps plan) = None \<and> res = execution_result False st
      \<and> length (px_completed st) < max 1 (pcap_max_steps limits)"
    | s step where "run_step env plan limits step s = Some (Some (Inr res), st)" by blast
  then show ?thesis
  proof cases
    case 2
    then show ?thesis using run_step_effect [of env step s plan limits] assms(2) by (simp add: step_effect_def)
  qed
qed

text \<open>
  When an execution ends normally, every step of the plan has completed with an output, was skipped
  and is optional, or waits for a step that did not complete; every completed step comes after all it
  depends on, and fewer steps completed than the limit allows.
\<close>

lemma finished_plan_accounts:
  assumes "execute_plan env plan limits follow_ups counters w = Some (Inr res, st)" "\<not> pxr_fell_back_to_legacy res"
  shows "(\<forall>step \<in> set (dpl_steps plan).
      pst_id step \<in> set (pxr_completed res) \<and> st_get (pxr_outputs res) (pst_id step) \<noteq> None
      \<or> pst_id step \<in> set (pxr_skipped res) \<and> (\<exists>s \<in> set (dpl_steps plan). pst_id s = pst_id step \<and> pst_optional s)
      \<or> \<not> set (pst_depends_on step) \<subseteq> set (pxr_completed res))
    \<and> distinct (pxr_completed res) \<and> set (pxr_completed res) \<inter> set (pxr_skipped res) = {}
    \<and> length (pxr_completed res) < max 1 (pcap_max_steps limits)"
proof -
  have f: "account_inv plan st" "find (ready st) (dpl_steps plan) = None" "res = execution_result False st"
    "length (px_completed st) < max 1 (pcap_max_steps limits)"
    using finished_plan [OF assms] by auto
  have "\<not> ready st step" if "step \<in> set (dpl_steps plan)" for step
    using f(2) that by (auto simp: find_None_iff)
  then show ?thesis
    using f(1,3,4) by (fastforce simp: execution_result_def account_inv_def ready_def)
qed


section \<open>What a plan can cost\<close>

definition plan_costs :: "'w plan_env \<Rightarrow> ('w \<Rightarrow> nat) \<Rightarrow> nat \<Rightarrow> nat \<Rightarrow> bool" where
  "plan_costs env c k j =
     ((\<forall>i t a w. c (snd (pv_dispatch env i t a w)) \<le> c w + k)
      \<and> (\<forall>drv req w. pv_driver env = Some drv \<longrightarrow> c (snd (drv req w)) \<le> c w + k)
      \<and> (\<forall>infer ctx w. pv_infer env = Some infer \<longrightarrow> c (snd (infer ctx w)) \<le> c w + j)
      \<and> (\<forall>rec i t a v w. pv_recorder env = Some rec \<longrightarrow> c (rec i t a v w) \<le> c w))"

lemma run_attempt_cost:
  assumes "plan_costs env c k j"
  shows "c (px_world (snd (run_attempt env plan i step args st))) \<le> c (px_world st) + k
    \<and> px_replans_used (snd (run_attempt env plan i step args st)) = px_replans_used st"
proof -
  have "c w' \<le> c w + k" if "pv_dispatch env a b d w = (r, w')" for a b d w r w'
    using assms that unfolding plan_costs_def by (metis snd_conv)
  moreover have "c w' \<le> c w + k" if "pv_driver env = Some drv" "drv req w = (r, w')" for drv req w r w'
    using assms that unfolding plan_costs_def by (metis snd_conv)
  ultimately show ?thesis
    by (auto simp: run_attempt_def run_reasoning_step_def Let_def split: option.splits prod.splits sum.splits)
qed

lemma attempt_step_cost:
  assumes "plan_costs env c k j"
  shows "c (px_world (snd (attempt_step env plan step args st)))
      \<le> c (px_world st) + (if pst_on_error step = RetryOnce then 2 * k else k)
    \<and> px_replans_used (snd (attempt_step env plan step args st)) = px_replans_used st"
proof -
  obtain r st1 where a: "run_attempt env plan (pst_id step) step args st = (r, st1)"
    by (cases "run_attempt env plan (pst_id step) step args st")
  show ?thesis
    using run_attempt_cost [OF assms, of plan "pst_id step" step args st]
      run_attempt_cost [OF assms, of plan "pst_id step" step args st1]
    by (auto simp: attempt_step_def a split: sum.splits)
qed

lemma count_fields:
  "count_dispatched t st = Some st' \<Longrightarrow> px_world st' = px_world st \<and> px_replans_used st' = px_replans_used st"
  "count_success t st = Some st' \<Longrightarrow> px_world st' = px_world st \<and> px_replans_used st' = px_replans_used st"
  "count_error t st = Some st' \<Longrightarrow> px_world st' = px_world st \<and> px_replans_used st' = px_replans_used st"
  "count_optional_skipped t st = Some st' \<Longrightarrow> px_world st' = px_world st \<and> px_replans_used st' = px_replans_used st"
  by (auto simp: count_dispatched_def count_success_def count_error_def count_optional_skipped_def)

lemma complete_step_cost:
  assumes "plan_costs env c k j" "complete_step env i t a v st = Some st'"
  shows "c (px_world st') \<le> c (px_world st) \<and> px_replans_used st' = px_replans_used st"
  using assms by (auto simp: complete_step_def plan_costs_def dest!: count_fields split: option.splits)

text \<open>The cost of a step with the repairs it used, against those still allowed.\<close>

definition step_within :: "('w \<Rightarrow> nat) \<Rightarrow> nat \<Rightarrow> nat \<Rightarrow> nat \<Rightarrow> 'w plan_state \<Rightarrow> (plan_outcome option \<times> 'w plan_state) option \<Rightarrow> bool" where
  "step_within c j m b st r =
     (case r of
        None \<Rightarrow> True
      | Some (None, st') \<Rightarrow> c (px_world st') + j * (m - px_replans_used st') \<le> c (px_world st) + b + j * (m - px_replans_used st)
      | Some (Some _, st') \<Rightarrow> c (px_world st') \<le> c (px_world st) + b + j * (m - px_replans_used st))"

lemma step_within_start: "px_world s = px_world st \<Longrightarrow> px_replans_used s = px_replans_used st
    \<Longrightarrow> step_within c j m b s r \<longleftrightarrow> step_within c j m b st r"
  by (simp only: step_within_def)

lemma run_replacement_cost:
  assumes "plan_costs env c k j"
  shows "step_within c j m k st (run_replacement env plan step out st)"
proof -
  have a: "c (px_world st1) \<le> c (px_world st) + k \<and> px_replans_used st1 = px_replans_used st"
    if "run_attempt env plan i rep a st = (r, st1)" for i rep a r st1
    using run_attempt_cost [OF assms, of plan i rep a st] that by simp
  show ?thesis
    using a
    by (fastforce simp: run_replacement_def step_within_def dest: complete_step_cost [OF assms] count_fields(3)
        split: sum.splits prod.splits option.splits)
qed


lemma local_patch_cost:
  assumes "plan_costs env c k j"
  shows "step_within c j (pcap_max_replan_calls limits) k st (local_patch env plan limits step e st)"
proof (cases "px_replans_used st \<ge> pcap_max_replan_calls limits \<or> pv_infer env = None")
  case True
  then show ?thesis by (auto simp: local_patch_def step_within_def split: option.splits)
next
  case False
  then obtain infer where inf: "pv_infer env = Some infer" by auto
  let ?m = "pcap_max_replan_calls limits" and ?ctx = "\<lparr>rpr_failed_step_id = pst_id step, rpr_failed_step_tool = pst_tool step,
    rpr_error_msg = to_message e, rpr_prior_outputs = JObject (px_outputs st)\<rparr>"
  obtain r w where call: "infer ?ctx (px_world st) = (r, w)" by (cases "infer ?ctx (px_world st)")
  have cost: "c w \<le> c (px_world st) + j"
    using assms inf call unfolding plan_costs_def by (metis snd_conv)
  have m: "j * (?m - px_replans_used st) = j + j * (?m - Suc (px_replans_used st))"
    using False by (metis Suc_diff_Suc linorder_not_le mult_Suc_right)
  have st2: "px_world (count_local_patch s) = px_world s" "px_replans_used (count_local_patch s) = px_replans_used s" for s :: "'a plan_state"
    by (simp_all add: count_local_patch_def)
  show ?thesis
  proof (cases r)
    case (Inl err)
    then show ?thesis using False inf call cost m by (simp add: local_patch_def step_within_def)
  next
    case (Inr out)
    let ?st2 = "count_local_patch ((trace_event env (PlanLocalPatch (pst_id step) (px_replans_used st + 1)) st)
      \<lparr>px_world := w, px_replans_used := px_replans_used st + 1\<rparr>)"
    have "step_within c j ?m k ?st2 (run_replacement env plan step out ?st2)"
      by (rule run_replacement_cost [OF assms])
    then have "step_within c j ?m k st (run_replacement env plan step out ?st2)"
      using cost m by (auto simp: step_within_def st2 split: option.splits prod.splits)
    then show ?thesis using False inf call Inr cost m by (auto simp: local_patch_def Let_def step_within_def [of _ _ _ _ _ "Some (Some _, _)"] st2)
  qed
qed

lemma fail_step_cost:
  assumes "plan_costs env c k j"
  shows "step_within c j (pcap_max_replan_calls limits) (if pst_on_error step = LocalPatch then k else 0) st
    (fail_step env plan limits step e st)"
proof (cases "pst_optional step")
  case True
  then show ?thesis
    by (auto simp: fail_step_def step_within_def dest: count_fields(4) split: option.splits)
next
  case False
  show ?thesis
  proof (cases "count_error (pst_tool step) st")
    case None
    then show ?thesis using False by (simp add: fail_step_def step_within_def)
  next
    case (Some st1)
    let ?st2 = "step_progress env (pst_id step) (pst_tool step) ''failed''
      (trace_event env (PlanStepFailed (pst_id step) (pst_tool step) (to_message e)) st1)"
    have w: "px_world ?st2 = px_world st" "px_replans_used ?st2 = px_replans_used st" using count_fields(3) [OF Some] by auto
    show ?thesis
      using local_patch_cost [OF assms, of limits ?st2 plan step e] False Some w step_within_start [OF w]
      by (auto simp: fail_step_def Let_def step_within_def [of _ _ _ _ _ "Some (Some _, _)"])
  qed
qed

lemma run_step_cost:
  assumes "plan_costs env c k j"
  shows "step_within c j (pcap_max_replan_calls limits) (2 * k) st (run_step env plan limits step st)"
proof -
  have ok: "step_within c j m (2 * k) st
      (map_option (\<lambda>st4. (None, step_progress env i t s st4)) (complete_step env i t a v st3))"
    if "c (px_world st3) \<le> c (px_world st) + 2 * k" "px_replans_used st3 = px_replans_used st" for m i t s a v st3
    using that by (auto simp: step_within_def dest!: complete_step_cost [OF assms] split: option.splits)
  show ?thesis
  proof (cases "resolve_output_templates (px_outputs st) (pst_args step)")
    case (Inl e)
    then show ?thesis by (simp add: run_step_def step_within_def)
  next
    case (Inr a)
    show ?thesis
    proof (cases "count_dispatched (pst_tool step) (started env step st)")
      case None
      with Inr show ?thesis by (simp add: run_step_def step_within_def)
    next
      case (Some st2)
      obtain r st3 where at: "attempt_step env plan step a st2 = (r, st3)" by (cases "attempt_step env plan step a st2")
      have c3: "c (px_world st3) \<le> c (px_world st) + (if pst_on_error step = RetryOnce then 2 * k else k)"
        "px_replans_used st3 = px_replans_used st"
        using attempt_step_cost [OF assms, of plan step a st2] count_fields(1) [OF Some] by (auto simp: at)
      show ?thesis
      proof (cases r)
        case (Inr v)
        then show ?thesis
          using \<open>resolve_output_templates _ _ = _\<close> Some at ok [of st3] c3 by (simp add: run_step_def split: if_splits)
      next
        case (Inl e)
        have "step_within c j (pcap_max_replan_calls limits) (2 * k) st (fail_step env plan limits step e st3)"
          using fail_step_cost [OF assms, of limits step st3 plan e] c3
          by (auto simp: step_within_def split: option.splits prod.splits if_splits)
        then show ?thesis using \<open>resolve_output_templates _ _ = _\<close> Some at Inl by (simp add: run_step_def)
      qed
    qed
  qed
qed

text \<open>
  C40. The tools and the model are asked at most twice for every identifier of a step, and the inference
  server at most as often as the limit of repairs says: for any measure of cost that a call of a tool
  or the model raises by at most \<open>k\<close>, a call of the server by at most \<open>j\<close>, and the recorder not at all.
\<close>

theorem plan_cost_bounded:
  assumes "execute_plan env plan limits follow_ups counters w = Some (r, st)" "plan_costs env c k j"
  shows "c (px_world st) \<le> c w + 2 * k * card (pst_id ` set (dpl_steps plan)) + j * pcap_max_replan_calls limits"
proof -
  let ?M = "pcap_max_replan_calls limits"
  let ?C = "c w + 2 * k * card (pst_id ` set (dpl_steps plan)) + j * ?M"
  let ?P = "\<lambda>s. c (px_world s) + 2 * k * unsettled plan s + j * (?M - px_replans_used s) \<le> ?C"
  have init: "?P (plan_start env plan follow_ups counters w)"
    by (simp add: plan_start_def unsettled_def settled_def)
  have step: "?P s'" if "?P s" "find (ready s) (dpl_steps plan) = Some step" "run_step env plan limits step s = Some (None, s')" for s step s'
    using that(1) run_step_unsettled [OF that(2,3)] run_step_cost [OF assms(2), of limits s plan step] that(3)
    by (simp add: step_within_def)
  have one: "1 \<le> unsettled plan s" if "find (ready s) (dpl_steps plan) = Some step" for s step
    using find_ready [OF that] by (auto simp: unsettled_def Suc_le_eq card_gt_0_iff)
  from plan_loop_ends [where P = ?P, OF assms(1) [unfolded execute_plan_def] init] step
  consider s f where "?P s" "st = trace_event env (PlanFallback f) s" | "?P st"
    | s step where "?P s" "find (ready s) (dpl_steps plan) = Some step" "run_step env plan limits step s = Some (Some r, st)"
    by blast
  then show ?thesis
  proof cases
    case 3
    obtain u where "unsettled plan s = Suc u" using one [OF 3(2)] by (cases "unsettled plan s") auto
    then show ?thesis using 3(1,3) run_step_cost [OF assms(2), of limits s plan step] by (simp add: step_within_def)
  qed auto
qed


text \<open>A tool name with more than 64 bytes and a character across the 64th stops the program before the tool is called.\<close>

lemma long_tool_name_panics:
  assumes "length (trim (pst_tool step)) > 64" "\<not> is_char_boundary (trim (pst_tool step)) 64"
    and "resolve_output_templates (px_outputs st) (pst_args step) = Inr a"
  shows "run_step env plan limits step st = None"
proof -
  have "tool_key (pst_tool step) = None" using assms(1,2) by (simp add: tool_key_def Let_def)
  then show ?thesis using assms(3) by (simp add: run_step_def count_dispatched_def inc_tool_counter_def)
qed

section \<open>The planner's stage of a turn\<close>

text \<open>The tool of a step runs under its time limit through the same gate as in a turn; no result is a timeout.\<close>

definition dispatch_planned_tool_call ::
  "(nat \<Rightarrow> string \<Rightarrow> string \<Rightarrow> json \<Rightarrow> 'w \<Rightarrow> (string \<times> bool) option \<times> 'w)
     \<Rightarrow> string \<Rightarrow> string \<Rightarrow> json \<Rightarrow> 'w \<Rightarrow> (plan_step_error, json) result \<times> 'w" where
  "dispatch_planned_tool_call execute_tool step_id tool_name input w =
     (case execute_tool (tool_execution_timeout tool_name) step_id tool_name input w of
        (Some (content, is_error), w') \<Rightarrow>
          (if is_error then Inl (Deterministic content) else Inr (JObject [(''output'', JString content)]), w')
      | (None, w') \<Rightarrow> (Inl StepTimeout, w'))"

definition plan_newline :: string where
  "plan_newline = [CHR 0x0A]"

definition skipped_suffix :: "nat \<Rightarrow> string" where
  "skipped_suffix n = (if n > 0 then '', '' @ show_nat n @ '' skipped'' else [])"

definition synthesize_plan_summary ::
  "(json \<Rightarrow> string) \<Rightarrow> deterministic_plan \<Rightarrow> plan_execution_result \<Rightarrow> string list \<Rightarrow> string" where
  "synthesize_plan_summary to_string_pretty plan res planner_follow_ups =
     (let done = show_nat (length (pxr_completed res));
          skip = skipped_suffix (length (pxr_skipped res));
          last_output = Option.bind (find (\<lambda>s. st_get (pxr_outputs res) (pst_id s) \<noteq> None) (rev (dpl_steps plan)))
                          (\<lambda>s. st_get (pxr_outputs res) (pst_id s));
          plain = ''Plan completed '' @ done @ '' step(s)'' @ skip @ ''.'';
          head = ''Plan completed ('' @ done @ '' steps'' @ skip @ '').'' @ plan_newline
      in (case last_output of
            None \<Rightarrow> plain
          | Some JNull \<Rightarrow> plain
          | Some (JString s) \<Rightarrow> head @ s
          | Some v \<Rightarrow> head @ to_string_pretty v)
         @ (if planner_follow_ups = [] then []
            else plan_newline @ plan_newline @ ''Host follow-ups (from inference `structured.follow_ups`):'' @ plan_newline
              @ concat (map (\<lambda>l. ''- '' @ l @ plan_newline) planner_follow_ups)))"

text \<open>The reply of the inference server, and how the stage ends: with the turn, or with the ordinary loop.\<close>

record infer_reply =
  irp_output :: infer_output
  irp_tool_calls_ok :: bool
  irp_violation_codes :: "string list"

datatype legacy_reason =
    InferFailed
  | ValidationFailed
  | InvalidPlan
  | PlanUndecodable
  | NoPlan
  | FellBack
  | ExecutorFailed plan_execution_error

datatype planner_exit = PlannerCompleted string "graph_write list" | LegacyLoop legacy_reason

definition follow_ups_of :: "json \<Rightarrow> string list" where
  "follow_ups_of st =
     (case Option.bind (json_get ''follow_ups'' st) as_array of Some arr \<Rightarrow> List.map_filter as_str arr | None \<Rightarrow> [])"

text \<open>The writes of a plan are applied only when its execution ended normally.\<close>

definition run_plan ::
  "'w plan_env \<Rightarrow> (json \<Rightarrow> string) \<Rightarrow> policy_caps \<Rightarrow> deterministic_plan \<Rightarrow> string list \<Rightarrow> planner_counters \<Rightarrow> 'w
     \<Rightarrow> (planner_exit \<times> 'w plan_state) option" where
  "run_plan env to_string_pretty limits plan follow_ups counters w =
     map_option (\<lambda>(r, st).
         (case r of
            Inl e \<Rightarrow> LegacyLoop (ExecutorFailed e)
          | Inr res \<Rightarrow>
              if pxr_fell_back_to_legacy res then LegacyLoop FellBack
              else PlannerCompleted (synthesize_plan_summary to_string_pretty plan res follow_ups) (dpl_graph_writes plan), st))
       (execute_plan env plan limits follow_ups counters w)"

definition planner_stage ::
  "'w plan_env \<Rightarrow> (json \<Rightarrow> (string, deterministic_plan) result) \<Rightarrow> (json \<Rightarrow> string) \<Rightarrow> policy_caps
     \<Rightarrow> planner_counters \<Rightarrow> (string, infer_reply) result \<Rightarrow> 'w
     \<Rightarrow> (planner_exit \<times> trace_event_type list \<times> 'w) option" where
  "planner_stage env decode to_string_pretty limits counters reply w =
     (let fallback = (\<lambda>why reason. Some (LegacyLoop why, if pv_traced env then [PlanFallback reason] else [], w));
          silent = (\<lambda>why. Some (LegacyLoop why, [], w))
      in case reply of
           Inl _ \<Rightarrow> silent InferFailed
         | Inr out \<Rightarrow>
             if \<not> irp_tool_calls_ok out
             then fallback ValidationFailed (''server_validation_failed: '' @ join_char CHR '','' (irp_violation_codes out))
             else
               (case ifo_structured (irp_output out) of
                  None \<Rightarrow> silent NoPlan
                | Some st \<Rightarrow>
                    if planner_invalid (Some st) then fallback InvalidPlan (structured_reason ''infer_planner_invalid_plan'' (Some st))
                    else if Option.bind (json_get ''kind'' st) as_str = Some ''deterministic_plan''
                    then
                      (case decode (case json_get ''plan'' st of Some p \<Rightarrow> p | None \<Rightarrow> JNull) of
                         Inl _ \<Rightarrow> silent PlanUndecodable
                       | Inr plan \<Rightarrow>
                           map_option (\<lambda>(ex, px). (ex, px_trace px, px_world px))
                             (run_plan env to_string_pretty limits plan (follow_ups_of st) counters w))
                    else silent NoPlan))"

section \<open>A plan whose steps all succeed\<close>










section \<open>Examples\<close>

definition no_counters :: planner_counters where
  "no_counters = \<lparr>mtr_dispatched = [], mtr_success = [], mtr_error = [], mtr_optional_skipped = [], mtr_local_patch_replan_calls = 0\<rparr>"

definition plan_sample_step :: "string \<Rightarrow> string list \<Rightarrow> bool \<Rightarrow> plan_step" where
  "plan_sample_step i deps opt =
     \<lparr>pst_id = i, pst_tool = ''t'', pst_args = JNull, pst_depends_on = deps, pst_on_error = AbortPlan,
      pst_idempotency_key = None, pst_optional = opt, pst_expected_output_schema = None\<rparr>"

definition sample_plan :: "plan_step list \<Rightarrow> deterministic_plan" where
  "sample_plan steps = \<lparr>dpl_steps = steps, dpl_graph_writes = [], dpl_confidence = Finite 1, dpl_reasoning_required_at = []\<rparr>"

text \<open>The step \<open>a\<close> fails, every other succeeds; the world counts the calls.\<close>

definition plan_sample_env :: "nat plan_env" where
  "plan_sample_env =
     \<lparr>pv_elapsed_ms = (\<lambda>_. 0),
      pv_dispatch = (\<lambda>i _ _ w. (if i = ''a'' then Inl StepTimeout else Inr (JBool True), Suc w)),
      pv_recorder = None, pv_driver = None, pv_infer = None, pv_model = [], pv_traced = True, pv_parse = Inl,
      pv_show = (\<lambda>_. []), pv_step_of_json = (\<lambda>_. Inl []), pv_compile_schema = (\<lambda>_. Inl [])\<rparr>"

lemma one_letter_key [simp]: "inc_tool_counter ''t'' m = Some (st_put ''t'' (Suc (case st_get m ''t'' of Some n \<Rightarrow> n | None \<Rightarrow> 0)) m)"
proof -
  have "tool_key ''t'' = Some ''t''" by code_simp
  then show ?thesis by (simp add: inc_tool_counter_def)
qed

definition blocked_plan :: deterministic_plan where
  "blocked_plan = sample_plan [plan_sample_step ''a'' [] True, plan_sample_step ''b'' [''a''] False, plan_sample_step ''c'' [] False]"

definition blocked_state :: "nat plan_state" where
  "blocked_state =
     \<lparr>px_completed = [''c''], px_skipped = [''a''], px_outputs = [(''c'', JBool True)], px_replans_used = 0,
      px_counters = no_counters\<lparr>mtr_dispatched := [(''t'', 2)], mtr_success := [(''t'', 1)], mtr_optional_skipped := [(''t'', 1)]\<rparr>,
      px_trace = [PlanStarted 3 (Finite 1) [] [], PlanStepStarted ''a'' ''t'', PlanStepFailed ''a'' ''t'' ''optional: timeout'',
        PlanStepStarted ''c'' ''t'', PlanStepCompleted ''c'' ''t''],
      px_progress = [(''a'', ''t'', ''optional_skipped''), (''c'', ''t'', ''completed'')], px_world = 2\<rparr>"

lemmas execution_defs = execute_plan_def plan_start_def trace_event_def step_progress_def count_dispatched_def count_success_def
  count_optional_skipped_def ready_def run_step_def Let_def attempt_step_def run_attempt_def fail_step_def complete_step_def
  to_message_def sample_plan_def plan_sample_step_def plan_sample_env_def policy_caps_default_def no_counters_def execution_result_def

lemma blocked_run:
  "execute_plan plan_sample_env blocked_plan policy_caps_default [] no_counters 0 = Some (Inr (execution_result False blocked_state), blocked_state)"
  by (simp add: execution_defs blocked_plan_def blocked_state_def plan_loop.simps)


theorem plan_dependencies_respected_witness:
  "''c'' \<notin> started_ids (take 3 (px_trace blocked_state))
    \<and> (\<exists>step \<in> set (dpl_steps blocked_plan). pst_id step = ''c'' \<and> pst_tool step = ''t''
         \<and> set (pst_depends_on step) \<subseteq> completed_ids (take 3 (px_trace blocked_state)))"
  by (rule plan_dependencies_respected [OF blocked_run]) (simp_all add: plan_sample_env_def blocked_state_def)

text \<open>
  Here the step that waits for a skipped optional one never runs, and the result says nothing of it.
\<close>

lemma finished_plan_accounts_witness:
  "''b'' \<notin> set (pxr_completed (execution_result False blocked_state)) \<union> set (pxr_skipped (execution_result False blocked_state))
    \<and> \<not> {''a''} \<subseteq> set (pxr_completed (execution_result False blocked_state))"
proof -
  have b: "plan_sample_step ''b'' [''a''] False \<in> set (dpl_steps blocked_plan)" by (simp add: blocked_plan_def sample_plan_def)
  from finished_plan_accounts [OF blocked_run] have "\<forall>step \<in> set (dpl_steps blocked_plan).
      pst_id step \<in> set (px_completed blocked_state) \<or> pst_id step \<in> set (px_skipped blocked_state)
      \<or> \<not> set (pst_depends_on step) \<subseteq> set (px_completed blocked_state)"
    by (auto simp: execution_result_def)
  from this [rule_format, OF b] show ?thesis
    by (simp add: execution_result_def blocked_state_def plan_sample_step_def)
qed



theorem plan_cost_bounded_witness:
  "px_world blocked_state \<le> 2 * card (pst_id ` set (dpl_steps blocked_plan))"
proof -
  have "plan_costs plan_sample_env id 1 0" by (simp add: plan_costs_def plan_sample_env_def)
  from plan_cost_bounded [OF blocked_run this] show ?thesis by simp
qed

section \<open>What a turn of the planner has done\<close>

text \<open>
  When the planner's stage ends the turn, the reply was valid and carried a plan, the writes applied
  are the plan's, and its execution ended normally; in every other case nothing is applied and the
  ordinary loop runs, also when steps of the plan have already run.
\<close>

lemma planner_turn_is_atomic:
  assumes "planner_stage env decode pretty limits counters reply w = Some (PlannerCompleted summary writes, tr, w')"
  shows "\<exists>out j plan res st. reply = Inr out \<and> irp_tool_calls_ok out \<and> ifo_structured (irp_output out) = Some j
    \<and> decode (case json_get ''plan'' j of Some p \<Rightarrow> p | None \<Rightarrow> JNull) = Inr plan \<and> writes = dpl_graph_writes plan
    \<and> execute_plan env plan limits (follow_ups_of j) counters w = Some (Inr res, st) \<and> \<not> pxr_fell_back_to_legacy res"
proof -
  from assms obtain out where out: "reply = Inr out" by (cases reply) (simp_all add: planner_stage_def)
  from assms out have ok: "irp_tool_calls_ok out" by (simp add: planner_stage_def split: if_splits)
  from assms out ok obtain j where j: "ifo_structured (irp_output out) = Some j"
    by (cases "ifo_structured (irp_output out)") (simp_all add: planner_stage_def)
  let ?p = "case json_get ''plan'' j of Some p \<Rightarrow> p | None \<Rightarrow> JNull"
  from assms out ok j obtain plan where plan: "decode ?p = Inr plan"
    by (cases "decode ?p") (simp_all add: planner_stage_def split: if_splits)
  from assms out ok j plan obtain px where run: "run_plan env pretty limits plan (follow_ups_of j) counters w
      = Some (PlannerCompleted summary writes, px)"
    by (auto simp: planner_stage_def split: if_splits)
  then obtain r where ex: "execute_plan env plan limits (follow_ups_of j) counters w = Some (r, px)"
    by (auto simp: run_plan_def)
  with run obtain res where "r = Inr res" "\<not> pxr_fell_back_to_legacy res" "writes = dpl_graph_writes plan"
    by (cases r) (auto simp: run_plan_def split: if_splits)
  with out ok j plan ex show ?thesis by blast
qed

end
