(* ===== verification/Spec2Isabelle.thy ===== *)
theory Spec2Isabelle
  imports Prelude Wildcard Capability Taint Event_Bus Approval Loop_Guard Tool_Policy Auth
    Supervisor Agent_Scheduler Provider_Cooldown Events Orchestration Triggers Messages
    Session_Repair Think_Filter Audit_Trail Cron Exec_Sandbox Tool_Gate Agent_Types Agent_Registry
    Workflow Workflow_Runs Context_Budget Compactor Stream_Text
    Channel_Router Pairing File_System Workspace_Sandbox
    Apply_Patch Patch_Format Heartbeat
    Reply_Directives Tool_Round Error_Guidance Turn_Checks Agent_Loop
    LLM_Errors Model_Calls
    Wire_Messages Wire_Peers Wire_Security Api_Auth
    Ip_Addr Web_Content Web_Fetch Plan_Executor
begin

text \<open>
  ArmaraOS (OpenFang) is an operating system for autonomous agents: a kernel that owns
  agents, schedules and wakes them, a runtime that runs an agent's conversation with a
  language model and the tools the model calls, and front ends (HTTP, command line, desktop,
  chat channels) around both. This development models the part of it that decides: who may
  do what, what is run, woken, blocked, retried, remembered and recorded. File names below
  are relative to \<^verbatim>\<open>src/crates\<close>.

  \<^bold>\<open>How the parts work together.\<close> An agent is spawned with capabilities its parent must
  cover (\<open>Capability\<close>) and entered in the registry (\<open>Agent_Registry\<close>), which bounds the depth
  and size of the tree of agents. A message reaches it through \<open>Channel_Router\<close>, from a paired
  device (\<open>Pairing\<close>), from a job that falls due (\<open>Cron\<close>), from a step of a workflow
  (\<open>Workflow_Runs\<close>) or from an event (\<open>Event_Bus\<close>) that one of its triggers matches (\<open>Triggers\<close>).
  Who may send a message is decided by \<open>Auth\<close>, how much the agent may spend by \<open>Agent_Scheduler\<close>,
  whether it is restarted after a crash by \<open>Supervisor\<close> and \<open>Heartbeat\<close>.
  A turn (\<open>Agent_Loop\<close>) repairs the stored history (\<open>Session_Repair\<close> over \<open>Messages\<close>), trims it to
  the context window (\<open>Context_Budget\<close>, \<open>Compactor\<close>), asks a provider that is not cooling down
  (\<open>Provider_Cooldown\<close>) and asks again when the error says so (\<open>Model_Calls\<close>, \<open>LLM_Errors\<close>), checks
  the answer (\<open>Turn_Checks\<close>), and runs the tools the model asks for (\<open>Tool_Round\<close>,
  \<open>Error_Guidance\<close>) until the answer is final; \<open>Reply_Directives\<close>, \<open>Think_Filter\<close> and \<open>Stream_Text\<close>
  prepare it for the user. A tool call goes through \<open>Tool_Policy\<close>, the loop detector \<open>Loop_Guard\<close> and
  the gate \<open>Tool_Gate\<close>, which normalises the name, checks the grant, asks a human through
  \<open>Approval\<close>, and applies \<open>Taint\<close> and, for the shell, \<open>Exec_Sandbox\<close>; the file tools stay in
  the workspace through \<open>Workspace_Sandbox\<close> and \<open>Apply_Patch\<close>, and what a tool fetches from the
  web passes the address check of \<open>Web_Fetch\<close>. Requests of the HTTP front end pass \<open>Api_Auth\<close>; other
  nodes send messages to agents over the wire protocol (\<open>Wire_Messages\<close>, \<open>Wire_Peers\<close>). Where an inference
  server plans a turn, \<open>Plan_Executor\<close> runs its tools instead of the loop. Agents that call
  agents carry an \<open>Orchestration\<close> context, and security events go to \<open>Audit_Trail\<close>.

  \<^bold>\<open>The theories and the code they model.\<close>
  \<^item> \<open>Prelude\<close>, \<open>Utf8\<close>: Rust strings as UTF-8 bytes with the standard library's operations (searching,
    trimming, splitting, character boundaries), JSON values, stores, and the shared interfaces (below);
    \<^verbatim>\<open>openfang-types/src/lib.rs\<close> truncate_str.
  \<^item> \<open>Wildcard\<close>: the reference meaning of star patterns, independent of the code; the two
    matchers of the code are compared with it.
  \<^item> \<open>Capability\<close>: \<^verbatim>\<open>openfang-types/src/capability.rs\<close>, \<^verbatim>\<open>openfang-kernel/src/capabilities.rs\<close>
    and the checked spawn of \<^verbatim>\<open>openfang-kernel/src/kernel.rs\<close>.
  \<^item> \<open>Agent_Types\<close>, \<open>Agent_Registry\<close>: \<^verbatim>\<open>openfang-types/src/agent.rs\<close> and
    \<^verbatim>\<open>openfang-kernel/src/registry.rs\<close>: the agent entry, the three indexes (identifier, name, tag), every
    setter, the spawn limits and the walk over the tree of agents.
  \<^item> \<open>Auth\<close>, \<open>Supervisor\<close>, \<open>Agent_Scheduler\<close>: \<^verbatim>\<open>openfang-kernel/src/auth.rs\<close>, \<^verbatim>\<open>openfang-kernel/src/supervisor.rs\<close>,
    \<^verbatim>\<open>openfang-kernel/src/scheduler.rs\<close>.
  \<^item> \<open>Heartbeat\<close>: \<^verbatim>\<open>openfang-kernel/src/heartbeat.rs\<close> and the monitor loop of
    \<^verbatim>\<open>openfang-kernel/src/kernel.rs\<close>: which agents are checked, crash, recovery attempts, giving up.
  \<^item> \<open>Cron\<close>: \<^verbatim>\<open>openfang-types/src/scheduler.rs\<close>, \<^verbatim>\<open>openfang-kernel/src/cron.rs\<close>.
  \<^item> \<open>Triggers\<close>: \<^verbatim>\<open>openfang-kernel/src/triggers.rs\<close>.
  \<^item> \<open>Event_Bus\<close>, \<open>Events\<close>: \<^verbatim>\<open>openfang-kernel/src/event_bus.rs\<close>, \<^verbatim>\<open>openfang-types/src/event.rs\<close>,
    \<^verbatim>\<open>openfang-types/src/orchestration_trace.rs\<close>.
  \<^item> \<open>Orchestration\<close>: \<^verbatim>\<open>openfang-types/src/orchestration.rs\<close>.
  \<^item> \<open>Workflow\<close>, \<open>Workflow_Runs\<close>: \<^verbatim>\<open>openfang-kernel/src/workflow.rs\<close>: the definitions with their
    validation, and the engine that executes sequential, fan-out, collect, conditional and loop steps.
  \<^item> \<open>Pairing\<close>: \<^verbatim>\<open>openfang-kernel/src/pairing.rs\<close>.
  \<^item> \<open>Approval\<close>: \<^verbatim>\<open>openfang-types/src/approval.rs\<close>, \<^verbatim>\<open>openfang-kernel/src/approval.rs\<close>. The
    asynchronous request is cut at its await points; \<open>approval_step\<close> interleaves any number of
    requesters, operators and timeouts.
  \<^item> \<open>Tool_Gate\<close>: execute_tool_with_trajectory of \<^verbatim>\<open>openfang-runtime/src/tool_runner.rs\<close> up to
    the call of a handler, \<^verbatim>\<open>openfang-types/src/tool_compat.rs\<close>, the name routing of
    \<^verbatim>\<open>openfang-runtime/src/mcp.rs\<close>, and the kernel's request_approval.
  \<^item> \<open>Tool_Policy\<close>, \<open>Loop_Guard\<close>, \<open>Exec_Sandbox\<close>: \<^verbatim>\<open>openfang-runtime/src/tool_policy.rs\<close>,
    \<^verbatim>\<open>openfang-runtime/src/loop_guard.rs\<close>, \<^verbatim>\<open>openfang-runtime/src/subprocess_sandbox.rs\<close> with the exec
    policy of \<^verbatim>\<open>openfang-types/src/config.rs\<close>.
  \<^item> \<open>Taint\<close>: \<^verbatim>\<open>openfang-types/src/taint.rs\<close> and check_taint_net_fetch of
    \<^verbatim>\<open>openfang-runtime/src/tool_runner.rs\<close>.
  \<^item> \<open>File_System\<close>, \<open>Workspace_Sandbox\<close>: \<^verbatim>\<open>openfang-runtime/src/workspace_sandbox.rs\<close> and the file tools of
    \<^verbatim>\<open>openfang-runtime/src/tool_runner.rs\<close>, over an explicit file system with symbolic links.
  \<^item> \<open>Apply_Patch\<close>, \<open>Patch_Format\<close>: \<^verbatim>\<open>openfang-runtime/src/apply_patch.rs\<close>: parsing, matching and applying, and
    a printer of patches that the parser inverts.
  \<^item> \<open>Messages\<close>, \<open>Session_Repair\<close>: \<^verbatim>\<open>openfang-types/src/message.rs\<close>,
    \<^verbatim>\<open>openfang-runtime/src/session_repair.rs\<close>.
  \<^item> \<open>Context_Budget\<close>, \<open>Compactor\<close>: \<^verbatim>\<open>openfang-runtime/src/context_budget.rs\<close>,
    \<^verbatim>\<open>openfang-runtime/src/context_overflow.rs\<close>, \<^verbatim>\<open>openfang-runtime/src/compactor.rs\<close>.
  \<^item> \<open>Turn_Checks\<close>, \<open>Tool_Round\<close>, \<open>Error_Guidance\<close>, \<open>Agent_Loop\<close>: \<^verbatim>\<open>openfang-runtime/src/agent_loop.rs\<close> and
    \<^verbatim>\<open>openfang-runtime/src/agent_tool_round.rs\<close>: the checks of an answer, one round of tools, the advice
    given after failures, and \<open>turn_loop\<close>, the loop of one turn, over all of them.
  \<^item> \<open>LLM_Errors\<close>, \<open>Model_Calls\<close>: \<^verbatim>\<open>openfang-runtime/src/llm_errors.rs\<close> and call_with_retry with the free-model
    fallback of \<^verbatim>\<open>openfang-runtime/src/agent_loop.rs\<close>, the retries of \<^verbatim>\<open>openfang-runtime/src/drivers/anthropic.rs\<close>
    and the chain of \<^verbatim>\<open>openfang-runtime/src/drivers/fallback.rs\<close>.
  \<^item> \<open>Plan_Executor\<close>: \<^verbatim>\<open>openfang-runtime/src/plan_executor.rs\<close> over the plans of
    \<^verbatim>\<open>ainl-agent-snapshot/src/lib.rs\<close>, the counters of \<^verbatim>\<open>openfang-runtime/src/planner_metrics.rs\<close> and the
    planner stage of \<^verbatim>\<open>openfang-runtime/src/agent_loop.rs\<close>.
  \<^item> \<open>Provider_Cooldown\<close>: \<^verbatim>\<open>openfang-runtime/src/auth_cooldown.rs\<close>.
  \<^item> \<open>Think_Filter\<close>, \<open>Stream_Text\<close>, \<open>Reply_Directives\<close>: \<^verbatim>\<open>openfang-runtime/src/think_filter.rs\<close>,
    \<^verbatim>\<open>openfang-api/src/stream_chunker.rs\<close>, \<^verbatim>\<open>openfang-api/src/stream_dedup.rs\<close>,
    \<^verbatim>\<open>openfang-runtime/src/reply_directives.rs\<close>.
  \<^item> \<open>Channel_Router\<close>: \<^verbatim>\<open>openfang-channels/src/router.rs\<close>.
  \<^item> \<open>Wire_Messages\<close>, \<open>Wire_Peers\<close>, \<open>Wire_Security\<close>: \<^verbatim>\<open>openfang-wire/src/message.rs\<close>,
    \<^verbatim>\<open>openfang-wire/src/registry.rs\<close> and \<^verbatim>\<open>openfang-wire/src/peer.rs\<close>: frames, the two sides of the handshake, the
    loop of a connection, calls and broadcasts; a socket is the bytes that arrive on it, and
    \<open>Wire_Security\<close> holds what interleaved connections guarantee: \<open>wire_step\<close> lets other connections in between
    any two accesses of the nonce tracker and before the write of an acknowledgement.
  \<^item> \<open>Api_Auth\<close>: \<^verbatim>\<open>openfang-api/src/session_auth.rs\<close>, \<^verbatim>\<open>openfang-api/src/middleware.rs\<close>,
    \<^verbatim>\<open>openfang-api/src/rate_limiter.rs\<close>, the login of \<^verbatim>\<open>openfang-api/src/routes.rs\<close> and the slots of
    \<^verbatim>\<open>openfang-api/src/ws.rs\<close>.
  \<^item> \<open>Ip_Addr\<close>: the addresses of the standard library. \<open>Web_Content\<close>, \<open>Web_Fetch\<close>:
    \<^verbatim>\<open>openfang-runtime/src/web_content.rs\<close>, \<^verbatim>\<open>openfang-runtime/src/web_fetch.rs\<close>,
    \<^verbatim>\<open>openfang-runtime/src/web_cache.rs\<close>, with the twins of the address check in
    \<^verbatim>\<open>openfang-runtime/src/host_functions.rs\<close> and \<^verbatim>\<open>openfang-runtime/src/mcp.rs\<close>.
  \<^item> \<open>Audit_Trail\<close>: \<^verbatim>\<open>openfang-runtime/src/audit.rs\<close>.

  A struct is a record with its fields in order, an enum a datatype, a method that changes
  its object a function from the old record to the new one (with its result first when it
  has one); definitions keep the names of the code, with a prefix where several types have
  the same method. A concurrent map is an association list with unique keys, in its iteration
  order; a method that holds a lock throughout is one step.

  \<^bold>\<open>What is shown.\<close>
  \<^item> Authority: spawning along any line of descent never gains authority when patterns have at
    most one star, and a counterexample with two; a tool runs only if it is granted; a tool
    under approval runs only if an operator approved this very call or its agent is a trusted
    hand, except on the MCP detour, which is shown to skip the question; a channel user acts
    only with the required role; deny rules win over allow rules; what reaches a shell;
    a pairing token admits one device; with a key configured a remote request changes something only with it or
    a session signed under it, and an empty token passes for an empty key; a peer is admitted only
    with the digest of the shared secret, and a counterexample where the digest covers too little.
  \<^item> Confinement: a written file and every file a patch touches is inside the workspace when
    the workspace holds no links that lead out, and a counterexample when it does; a fetch goes to
    no block-listed name and no internal address by the name the check reads in the URL, and a URL in which it
    reads another name than a client does.
  \<^item> Information flow: labels reach their sinks unless declassified; a child process sees only
    listed variables of the environment; where the redaction of keys in error texts stops short.
  \<^item> Concurrency: in every interleaving of the approval system decisions come from operators,
    nobody is answered twice and nobody is stuck; lemmas show the races of the code (the
    pending limit, a decision that arrives while the timeout fires, concurrent pairing, registrations of
    one name, replayed nonces, the slots of web sockets).
  \<^item> Messages between nodes: a call with a shared secret is answered by the agent it names; a
    broadcast is sent in a form that no receiver accepts.
  \<^item> Refinement: the registry with its three indexes implements one map from identifiers to
    entries as long as no identifier is registered twice, and what a renamed hand breaks; the router picks the most specific binding; a patch replaces the first block that
    matches; the glob matchers are compared with the reference semantics; blocks of addresses
    are compared by their leading bits.
  \<^item> Types and invariants: every run of the workflow engine is well typed and a completed one
    records its steps; the monitor's count of recovery attempts is exact.
  \<^item> The turn: an answer is delivered only if it passed the checks against the tools the turn called, every
    call of a round after which the turn goes on is answered by one result, the requests a turn makes to
    providers are bounded by those of one driver call, and an
    idle agent with an unfinished phase is declared crashed. A plan runs no step before those it depends on
    and costs boundedly many calls; a plan of the full length has its effect and is then discarded.
  \<^item> Bounds: the loop guard lets through boundedly many calls; triggers with a limit wake
    boundedly often; restarts, tokens, histories and failures are counted exactly; a prepared
    history fits its window.
  \<^item> Termination: the walk over the tree of agents and the redaction loop return.
  \<^item> Data: a repaired history is well formed and a well-formed one is untouched; the think
    filter gives the same text for every way of cutting the stream; a patch in the
    documented format parses to what was written, but for the place of later changes in a hunk; the audit trail survives a restart, and two trails with one
    tip differ only where the hash collides or where its missing field separators hide it.

  \<^bold>\<open>Interfaces.\<close> The locales, each interpreted on the definitions of the code: \<open>kv_store\<close> (the
  association lists of every component), \<open>bounded_log\<close> (event history, approval records, recent
  calls of the loop guard, recently sent lines), \<open>run_invariant\<close> and its extension \<open>run_from\<close> (a
  property kept by every operation holds after every run: taint, cooldown, audit trail, cron,
  router, heartbeat monitor, workflow engine, slots of web sockets), \<open>delegation\<close> (a transitive cover relation:
  capabilities), \<open>approval_authority\<close> (what the runtime relies on of the kernel),
  \<open>agent_directory\<close> (lookup by identifier and by name: the registry) and \<open>exec_steps\<close> (a relation
  kept by every step of a workflow: its run's frame, and the messages it sends).

  \<^bold>\<open>Parameters and bounds.\<close> Code outside the repository is an argument: SHA-256 and the
  hashes of the loop guard, the Unicode tables above ASCII (lower case, alphanumeric), JSON
  text and parsing, UUID text and parsing, the cron and time zone crates, floating-point
  scaling of back-off times, the database engine, HMAC, Argon2, base64 and the rate limiter of
  the front end, the resolver and the HTTP client, the inference server of the planner, JSON schemas, and the answers of the
  language model and of tool handlers. Fresh identifiers and the current time are
  arguments of the operation that draws them. A panic of the code is \<open>None\<close>. Fuel is used where
  the code loops over data that no type bounds, and is shown or chosen to be enough:
  \<open>replace_str\<close> and \<open>redact_passes\<close> have the length of the text (a step consumes a byte);
  \<open>spawn_subtree_height\<close> has the number of agents plus one (a visited agent is not entered again);
  \<open>walk\<close> follows at most forty links, the limit of the operating system. \<open>turn_loop\<close> and
  \<open>call_attempts\<close> count down the code's own limits, \<open>max_iterations\<close> and \<open>MAX_RETRIES\<close>. Every other
  loop is a terminating function. Counters are natural numbers where the
  code saturates or where reaching the width is not possible; where wrap-around or saturation
  can happen it is written out.

  \<^bold>\<open>Not modelled.\<close> Boot and wiring of the kernel, the handlers of HTTP requests, command line and desktop front ends,
  channel adapters, the request formats of the language models and their drivers but for the two above, SQLite storage, the sandbox engines, skill
  and hand loaders, migration tools and the tool handlers other than those of files: they
  perform I/O or call third-party engines. Of the agent loop: the streaming twin of the
  turn and of its retries (the same decisions, with a channel of deltas between them), the
  recovery of tool calls from plain text, and graph memory, whose effects on a turn are
  telemetry and text of the prompt. Of the compactor: the text of its prompts. Next in line would
  be the metering engine and the routing of models.
\<close>

section \<open>Properties that span components\<close>

text \<open>
  C1. Tool runner, kernel and approval manager together: let the kernel's answers be the
  decisions of the approval protocol in some reachable state. If a tool under approval
  passes the gate of an agent, by its own name and without the shell's opt-out, then the
  agent belongs to a trusted hand, or an operator resolved the very request of this call
  as approved.
\<close>

theorem guarded_tool_needs_operator:
  assumes "approval_reachable pol s"
    and "\<forall>req. ak_decide k req = Approved \<longrightarrow> (ar_id req, Approved) \<in> set (sys_done s)"
    and "action_tool (execute_tool_gate env name input (Some (kernel_handle_of k)) allowed (Some agent) policy)
      = Some t"
    and "requires_approval (ak_manager k) t"
    and "\<not> exec_policy_bypasses_approval t policy"
    and "direct_mcp_tool_from_shell_command input = None"
  shows "is_hand_agent k agent \<or> (ak_fresh k, Approved) \<in> set (sys_resolved s)"
  using assms(3)
proof (cases rule: gate_runs_cases)
  case rerouted
  then show ?thesis using assms(6) by simp
next
  case checked
  have "kh_requires_approval (kernel_handle_of k) t" using assms(4) by (simp add: kernel_handle_of_def)
  from kern.gate_granted [OF checked(3) this assms(5)] show ?thesis
    using assms(2) reachable_approved [OF assms(1)] by (auto simp: kernel_typed_request_def)
qed

definition approving_kernel :: approval_kernel where
  "approving_kernel =
     \<lparr>ak_manager = am_new (approval_policy_default\<lparr>require_approval := [''file_write'']\<rparr>),
      ak_tags = (\<lambda>_. None), ak_parse_id = (\<lambda>_. None), ak_fresh = 7, ak_now = 0,
      ak_decide = (\<lambda>req. if ar_id req = 7 then Approved else TimedOut)\<rparr>"

theorem guarded_tool_needs_operator_witness:
  "\<exists>s. approval_reachable approval_policy_default s \<and> (7, Approved) \<in> set (sys_resolved s)
     \<and> action_tool (execute_tool_gate plain_env ''write'' (JObject [])
         (Some (kernel_handle_of approving_kernel)) (Some [''file_write'']) (Some ''a'') None)
       = Some ''file_write''"
proof -
  obtain s where s: "approval_reachable approval_policy_default s" "(7, Approved) \<in> set (sys_done s)"
    using approved_run by blast
  have nm: "normalize_tool_name ''write'' = ''file_write''"
    by (simp add: normalize_tool_name_def is_known_openfang_tool_def known_tools_def
        map_tool_name_def tool_aliases_def)
  have run: "action_tool (execute_tool_gate plain_env ''write'' (JObject [])
         (Some (kernel_handle_of approving_kernel)) (Some [''file_write'']) (Some ''a'') None)
       = Some ''file_write''"
    by (simp add: execute_tool_gate_def nm reroute_shell_to_mcp_def allowed_by_def approval_gate_def
        kernel_handle_of_def kernel_request_approval_def is_hand_agent_def approving_kernel_def
        kernel_typed_request_def dispatch_tool_def builtin_tools_def Let_def)
  have "is_hand_agent approving_kernel ''a'' \<or> (ak_fresh approving_kernel, Approved) \<in> set (sys_resolved s)"
    by (rule guarded_tool_needs_operator [OF s(1) _ run])
       (use s(2) in \<open>auto simp: approving_kernel_def requires_approval_def am_new_def
          exec_policy_bypasses_approval_def is_shell_tool_def direct_mcp_tool_from_shell_command_def
          split: if_splits\<close>)
  then show ?thesis using s(1) run by (auto simp: approving_kernel_def is_hand_agent_def)
qed

end
